(* ===== verification/Prelude.thy ===== *)
theory Prelude
  imports Main "HOL-Library.Word"
begin

text \<open>
  Shared vocabulary and automation of the development: the byte strings the program moves
  around (a \<open>char\<close> is one byte, as in C++), the pieces of \<open>std::string\<close> and
  \<open>std::string_view\<close> the code uses (\<open>find\<close>, \<open>substr\<close>, \<open>starts_with\<close>),
  and the rule collections the component theories extend.
\<close>

section \<open>Rule collections\<close>

named_theorems text_simps \<open>equations about byte strings, searching and splitting\<close>
named_theorems wire_simps \<open>equations that evaluate tokens and prefixes of the wire formats\<close>
named_theorems step_defs \<open>unfolding rules of the operations of a state machine\<close>

section \<open>Bytes\<close>

type_synonym u32 = "32 word"
type_synonym u64 = "64 word"
type_synonym i64 = "64 word"

text \<open>The byte value of a character, 0 to 255, as \<open>unsigned char\<close> reads it.\<close>

definition byte_of :: "char \<Rightarrow> nat" where
  "byte_of c = of_char c"

lemma byte_of_less [simp]: "byte_of c < 256"
  by (simp add: byte_of_def)

lemma byte_of_inject [simp]: "byte_of a = byte_of b \<longleftrightarrow> a = b"
  by (simp add: byte_of_def)

lemma byte_of_char_of [simp]: "n < 256 \<Longrightarrow> byte_of (char_of n) = n"
  by (simp add: byte_of_def)

lemma char_of_byte_of [simp]: "char_of (byte_of c) = c"
  by (simp add: byte_of_def)

abbreviation newline :: char where
  "newline \<equiv> CHR 0x0A"

section \<open>Searching a string\<close>

text \<open>\<open>find(c)\<close>: the position of the first occurrence, \<open>None\<close> for \<open>npos\<close>.\<close>

fun find_char :: "char \<Rightarrow> string \<Rightarrow> nat option" where
  "find_char c [] = None"
| "find_char c (x # xs) = (if x = c then Some 0 else map_option Suc (find_char c xs))"

lemma find_char_None_iff [text_simps]: "find_char c s = None \<longleftrightarrow> c \<notin> set s"
  by (induction s) auto

lemma find_char_Some_iff:
  "find_char c s = Some n \<longleftrightarrow> n < length s \<and> s ! n = c \<and> c \<notin> set (take n s)"
proof (induction s arbitrary: n)
  case Nil
  then show ?case by simp
next
  case (Cons x xs)
  show ?case by (cases n) (auto simp: Cons.IH)
qed

lemma find_char_append [text_simps]:
  "find_char c (a @ b) =
     (case find_char c a of Some n \<Rightarrow> Some n
      | None \<Rightarrow> map_option (\<lambda>n. length a + n) (find_char c b))"
  by (induction a) (cases "find_char c b"; auto split: option.splits)+

lemma find_char_skip [simp]: "c \<notin> set a \<Longrightarrow> find_char c (a @ c # b) = Some (length a)"
  by (induction a) auto

lemma find_char_Some_less: "find_char c s = Some n \<Longrightarrow> n < length s"
  by (simp add: find_char_Some_iff)

lemma find_char_Some_split:
  assumes "find_char c s = Some n"
  shows "s = take n s @ c # drop (Suc n) s" and "c \<notin> set (take n s)"
  using assms id_take_nth_drop [of n s] by (auto simp: find_char_Some_iff)

lemma find_char_Some_exists:
  assumes "find_char c s = Some n"
  obtains l r where "s = l @ c # r" "c \<notin> set l" "n = length l"
proof -
  from find_char_Some_less [OF assms] have "length (take n s) = n" by simp
  with find_char_Some_split [OF assms] that show thesis by metis
qed

text \<open>\<open>starts_with(prefix)\<close> and \<open>find(text)\<close> (the latter only for its outcome).\<close>

fun starts_with :: "string \<Rightarrow> string \<Rightarrow> bool" where
  "starts_with [] s = True"
| "starts_with (p # ps) [] = False"
| "starts_with (p # ps) (c # cs) = (p = c \<and> starts_with ps cs)"

lemma starts_with_iff [text_simps]: "starts_with p s \<longleftrightarrow> (\<exists>r. s = p @ r)"
  by (induction p s rule: starts_with.induct) auto

lemma starts_with_append [simp]: "starts_with p (p @ r)"
  by (induction p) auto

lemma starts_with_drop: "starts_with p s \<Longrightarrow> s = p @ drop (length p) s"
  by (auto simp: text_simps)

fun find_text :: "string \<Rightarrow> string \<Rightarrow> nat option" where
  "find_text t [] = (if t = [] then Some 0 else None)"
| "find_text t (c # cs) =
     (if starts_with t (c # cs) then Some 0 else map_option Suc (find_text t cs))"

definition contains :: "string \<Rightarrow> string \<Rightarrow> bool" where
  "contains s t \<longleftrightarrow> find_text t s \<noteq> None"

text \<open>
  \<open>substr(pos, n)\<close> within bounds, and \<open>erase(0, n)\<close>: the code calls both with
  positions it has just found, so \<open>take\<close> and \<open>drop\<close> are exact.
\<close>

definition substr :: "string \<Rightarrow> nat \<Rightarrow> nat \<Rightarrow> string" where
  "substr s pos n = take n (drop pos s)"

text \<open>
  \<open>find_first_of(set)\<close> with the tokens it separates: position of the first character
  in the set.
\<close>

fun find_first_of :: "string \<Rightarrow> string \<Rightarrow> nat option" where
  "find_first_of cs [] = None"
| "find_first_of cs (x # xs) =
     (if x \<in> set cs then Some 0 else map_option Suc (find_first_of cs xs))"

lemma find_first_of_less: "find_first_of cs s = Some n \<Longrightarrow> n < length s"
  by (induction s arbitrary: n) (auto split: if_splits)

section \<open>Lists\<close>

lemma butlast_last_cases: "xs \<noteq> [] \<Longrightarrow> \<exists>ys y. xs = ys @ [y]"
  by (metis append_butlast_last_id)

lemma distinct_snocI [intro]: "distinct xs \<Longrightarrow> x \<notin> set xs \<Longrightarrow> distinct (xs @ [x])"
  by simp

lemma option_bind_Some_iff: "Option.bind x f = Some y \<longleftrightarrow> (\<exists>z. x = Some z \<and> f z = Some y)"
  by (cases x) auto

section \<open>Loops that may not end\<close>

text \<open>
  A loop whose body either goes round again (\<open>Inl\<close>) or leaves with a result (\<open>Inr\<close>).
  The value \<open>None\<close> is a loop that never leaves.
\<close>

partial_function (option) iterate :: "('s \<Rightarrow> 's + 'r) \<Rightarrow> 's \<Rightarrow> 'r option" where
  "iterate body s = (case body s of Inl t \<Rightarrow> iterate body t | Inr r \<Rightarrow> Some r)"

declare iterate.simps [code]

lemma iterate_unfold:
  "body s = Inl t \<Longrightarrow> iterate body s = iterate body t"
  "body s = Inr r \<Longrightarrow> iterate body s = Some r"
  by (subst iterate.simps; simp)+

lemma iterate_rule:
  assumes "iterate body s = Some r" and "I s"
    and "\<And>s t. I s \<Longrightarrow> body s = Inl t \<Longrightarrow> I t"
    and "\<And>s r. I s \<Longrightarrow> body s = Inr r \<Longrightarrow> Q r"
  shows "Q r"
proof -
  let ?P = "\<lambda>b s r. b = body \<longrightarrow> I s \<longrightarrow> Q r"
  have "?P body s r"
  proof (rule iterate.raw_induct [where P = ?P, OF _ assms(1)])
    fix run b s r
    assume hyp: "\<And>b s r. run b s = Some r \<Longrightarrow> ?P b s r"
      and step: "(case b s of Inl t \<Rightarrow> run b t | Inr r \<Rightarrow> Some r) = Some r"
    show "?P b s r"
    proof (intro impI)
      assume b: "b = body" and I: "I s"
      show "Q r"
      proof (cases "body s")
        case (Inl t)
        from assms(3) [OF I Inl] have "I t" .
        moreover from step b Inl have "run body t = Some r" by simp
        ultimately show ?thesis using hyp by blast
      next
        case (Inr r')
        with step b assms(4) [OF I] show ?thesis by simp
      qed
    qed
  qed
  with assms(2) show ?thesis by simp
qed

lemma iterate_ends:
  fixes m :: "'s \<Rightarrow> nat"
  assumes "I s" and "\<And>s t. I s \<Longrightarrow> body s = Inl t \<Longrightarrow> I t \<and> m t < m s"
  shows "\<exists>r. iterate body s = Some r"
  using assms(1)
proof (induction "m s" arbitrary: s rule: less_induct)
  case less
  show ?case
    using less.hyps assms(2) [OF less.prems] iterate_unfold [of body s] by (cases "body s") auto
qed

end
