(* ===== verification/Cpp_Text.thy ===== *)
theory Cpp_Text
  imports Prelude
begin

text \<open>
  The number conversions of the C++ standard library that every wire format of the program
  uses: \<open>std::to_string\<close> for integers and \<open>std::from_chars\<close> for integers, with
  the three outcomes the code distinguishes (a value and the unread rest, a result that does
  not fit, no number at all), and the laws that relate the two.
\<close>

section \<open>Decimal digits\<close>

definition is_digit :: "char \<Rightarrow> bool" where
  "is_digit c \<longleftrightarrow> 48 \<le> byte_of c \<and> byte_of c \<le> 57"

definition digit_value :: "char \<Rightarrow> nat" where
  "digit_value c = byte_of c - 48"

definition digit_char :: "nat \<Rightarrow> char" where
  "digit_char d = char_of (48 + d)"

lemma digit_char_is_digit [simp]: "d < 10 \<Longrightarrow> is_digit (digit_char d)"
  by (simp add: is_digit_def digit_char_def)

lemma digit_value_digit_char [simp]: "d < 10 \<Longrightarrow> digit_value (digit_char d) = d"
  by (simp add: digit_value_def digit_char_def)

lemma digit_char_digit_value [simp]: "is_digit c \<Longrightarrow> digit_char (digit_value c) = c"
  by (simp add: digit_value_def digit_char_def is_digit_def)

lemma digit_char_0 [simp]: "digit_char 0 = CHR ''0''"
proof -
  have "byte_of (digit_char 0) = byte_of CHR ''0''" by (simp add: digit_char_def byte_of_def [of "CHR ''0''"])
  then show ?thesis by simp
qed

lemma digit_value_less: "is_digit c \<Longrightarrow> digit_value c < 10"
  by (auto simp: digit_value_def is_digit_def)

lemma digit_value_zero_iff: "is_digit c \<Longrightarrow> digit_value c = 0 \<longleftrightarrow> c = CHR ''0''"
proof -
  assume d: "is_digit c"
  have "digit_value c = 0 \<longleftrightarrow> digit_char (digit_value c) = digit_char 0"
    by (metis d digit_char_digit_value digit_value_digit_char zero_less_numeral)
  also have "digit_char 0 = CHR ''0''" by (simp add: digit_char_0)
  finally show ?thesis using d by simp
qed

lemma is_digit_not_special [simp]:
  "\<not> is_digit newline" "\<not> is_digit CHR '' ''" "\<not> is_digit CHR ''.''" "\<not> is_digit CHR ''-''"
  "\<not> is_digit CHR ''e''" "\<not> is_digit CHR ''i''" "\<not> is_digit CHR ''n''"
  by (simp_all add: is_digit_def byte_of_def)

text \<open>The value of a digit string, most significant digit first.\<close>

definition dec_value :: "string \<Rightarrow> nat" where
  "dec_value s = foldl (\<lambda>v c. 10 * v + digit_value c) 0 s"

lemma dec_value_Nil [simp]: "dec_value [] = 0"
  by (simp add: dec_value_def)

lemma dec_value_snoc [simp]: "dec_value (s @ [c]) = 10 * dec_value s + digit_value c"
  by (simp add: dec_value_def)

lemma foldl_dec: "foldl (\<lambda>v c. 10 * v + digit_value c) a s = a * 10 ^ length s + dec_value s"
proof (induction s arbitrary: a rule: rev_induct)
  case Nil
  then show ?case by simp
next
  case (snoc c s)
  then show ?case by (simp add: algebra_simps)
qed

lemma dec_value_append: "dec_value (a @ b) = dec_value a * 10 ^ length b + dec_value b"
proof -
  have "dec_value (a @ b) = foldl (\<lambda>v c. 10 * v + digit_value c) (dec_value a) b"
    by (simp add: dec_value_def)
  then show ?thesis by (simp add: foldl_dec)
qed

lemma dec_value_Cons: "dec_value (c # s) = digit_value c * 10 ^ length s + dec_value s"
  using dec_value_append [of "[c]" s] by (simp add: dec_value_def [of "[c]"])

lemma dec_value_less: "list_all is_digit s \<Longrightarrow> dec_value s < 10 ^ length s"
proof (induction s rule: rev_induct)
  case Nil
  then show ?case by simp
next
  case (snoc c s)
  then show ?case using digit_value_less [of c] by (simp add: list_all_iff)
qed

section \<open>Printing: \<open>std::to_string\<close>\<close>

fun to_string_nat :: "nat \<Rightarrow> string" where
  "to_string_nat n =
     (if n < 10 then [digit_char n]
      else to_string_nat (n div 10) @ [digit_char (n mod 10)])"

declare to_string_nat.simps [simp del]

definition to_string_int :: "int \<Rightarrow> string" where
  "to_string_int i =
     (if i < 0 then CHR ''-'' # to_string_nat (nat (- i)) else to_string_nat (nat i))"

lemma to_string_nat_digits: "list_all is_digit (to_string_nat n)"
proof (induction n rule: to_string_nat.induct)
  case (1 n)
  then show ?case by (subst to_string_nat.simps) (auto simp: list_all_iff)
qed

lemma to_string_nat_nonempty [simp]: "to_string_nat n \<noteq> []"
  by (subst to_string_nat.simps) simp

lemma dec_value_to_string [simp]: "dec_value (to_string_nat n) = n"
proof (induction n rule: to_string_nat.induct)
  case (1 n)
  then show ?case
    by (subst to_string_nat.simps) (auto simp: dec_value_def [of "[_]"])
qed

lemma to_string_nat_inject [simp]: "to_string_nat m = to_string_nat n \<longleftrightarrow> m = n"
  by (metis dec_value_to_string)

lemma length_to_string_nat: "n < 10 ^ k \<Longrightarrow> 0 < k \<Longrightarrow> length (to_string_nat n) \<le> k"
proof (induction n arbitrary: k rule: to_string_nat.induct)
  case (1 n)
  show ?case
  proof (cases "n < 10")
    case True
    with "1.prems" show ?thesis by (subst to_string_nat.simps) simp
  next
    case False
    from "1.prems" obtain j where k: "k = Suc j" by (cases k) auto
    with False "1.prems" have j: "0 < j" by (cases j) auto
    from "1.prems" k have "n div 10 < 10 ^ j" by (simp add: less_mult_imp_div_less)
    from "1.IH" [OF False this j] k False show ?thesis
      by (subst to_string_nat.simps) simp
  qed
qed

lemma to_string_nat_hd: "0 < n \<Longrightarrow> hd (to_string_nat n) \<noteq> CHR ''0''"
proof (induction n rule: to_string_nat.induct)
  case (1 n)
  show ?case
  proof (cases "n < 10")
    case True
    with "1.prems" show ?thesis
      using digit_value_zero_iff [of "digit_char n"] by (subst to_string_nat.simps) auto
  next
    case False
    with "1.IH" show ?thesis by (subst to_string_nat.simps) simp
  qed
qed

lemma to_string_nat_0 [simp]: "to_string_nat 0 = ''0''"
  by (subst to_string_nat.simps) simp

lemma to_string_nat_chars: "c \<in> set (to_string_nat n) \<Longrightarrow> is_digit c"
  using to_string_nat_digits [of n] by (simp add: list_all_iff)

lemma not_in_to_string_nat [simp]:
  "\<not> is_digit c \<Longrightarrow> c \<notin> set (to_string_nat n)"
  using to_string_nat_chars by blast

text \<open>Printing the value of a canonical digit string gives the string back.\<close>

lemma to_string_dec_value:
  assumes "list_all is_digit s" "s \<noteq> []" "length s = 1 \<or> hd s \<noteq> CHR ''0''"
  shows "to_string_nat (dec_value s) = s"
  using assms
proof (induction s rule: rev_induct)
  case Nil
  then show ?case by simp
next
  case (snoc c s)
  then have c: "is_digit c" and s: "list_all is_digit s" by (simp_all add: list_all_iff)
  show ?case
  proof (cases "s = []")
    case True
    with c show ?thesis
      by (simp add: to_string_nat.simps [of "digit_value c"] digit_value_less dec_value_def)
  next
    case False
    with snoc.prems have hd: "hd s \<noteq> CHR ''0''" by simp
    from False s obtain d t where s': "s = d # t" and d: "is_digit d"
      by (cases s) (auto simp: list_all_iff)
    from hd s' d have "0 < digit_value d" using digit_value_zero_iff [of d] by simp
    then have "0 < dec_value s" unfolding s' dec_value_Cons by simp
    with c have "\<not> 10 * dec_value s + digit_value c < 10"
      by simp
    moreover have "(10 * dec_value s + digit_value c) div 10 = dec_value s"
      "(10 * dec_value s + digit_value c) mod 10 = digit_value c"
      using digit_value_less [OF c] by simp_all
    ultimately show ?thesis using snoc.IH [OF s False] hd c
      by (simp add: to_string_nat.simps [of "10 * dec_value s + digit_value c"])
  qed
qed

section \<open>Reading: \<open>std::from_chars\<close> for integers\<close>

datatype 'a from_chars_result = Parsed 'a string | Result_Out_Of_Range | Invalid_Argument

text \<open>
  \<open>from_chars\<close> reads the longest prefix of digits (for a signed type after an optional
  minus sign; never a plus sign, never blanks). No digit is \<open>invalid_argument\<close>, a value
  that does not fit is \<open>result_out_of_range\<close>.
\<close>

definition from_chars_unsigned :: "nat \<Rightarrow> string \<Rightarrow> nat from_chars_result" where
  "from_chars_unsigned maximum s =
     (let ds = takeWhile is_digit s; rest = dropWhile is_digit s
      in if ds = [] then Invalid_Argument
         else if maximum < dec_value ds then Result_Out_Of_Range
         else Parsed (dec_value ds) rest)"

definition from_chars_signed :: "int \<Rightarrow> int \<Rightarrow> string \<Rightarrow> int from_chars_result" where
  "from_chars_signed minimum maximum s =
     (let negative = (s \<noteq> [] \<and> hd s = CHR ''-'');
          body = (if negative then tl s else s);
          ds = takeWhile is_digit body; rest = dropWhile is_digit body;
          v = (if negative then - int (dec_value ds) else int (dec_value ds))
      in if ds = [] then Invalid_Argument
         else if v < minimum \<or> maximum < v then Result_Out_Of_Range
         else Parsed v rest)"

lemma takeWhile_digits_append [simp]:
  "list_all is_digit ds \<Longrightarrow> takeWhile is_digit (ds @ r) = ds @ takeWhile is_digit r"
  by (induction ds) auto

lemma dropWhile_digits_append [simp]:
  "list_all is_digit ds \<Longrightarrow> dropWhile is_digit (ds @ r) = dropWhile is_digit r"
  by (induction ds) auto

lemma takeWhile_digits_all [simp]: "list_all is_digit ds \<Longrightarrow> takeWhile is_digit ds = ds"
  by (induction ds) auto

lemma dropWhile_digits_all [simp]: "list_all is_digit ds \<Longrightarrow> dropWhile is_digit ds = []"
  by (induction ds) auto

lemma from_chars_unsigned_digits:
  "list_all is_digit ds \<Longrightarrow> ds \<noteq> [] \<Longrightarrow> from_chars_unsigned maximum ds =
     (if maximum < dec_value ds then Result_Out_Of_Range else Parsed (dec_value ds) [])"
  by (simp add: from_chars_unsigned_def Let_def)

lemma from_chars_unsigned_to_string [simp]:
  "n \<le> maximum \<Longrightarrow> from_chars_unsigned maximum (to_string_nat n) = Parsed n []"
  by (simp add: from_chars_unsigned_digits to_string_nat_digits)

lemma hd_to_string_nat_not_minus [simp]: "hd (to_string_nat n) \<noteq> CHR ''-''"
  using to_string_nat_chars [of "hd (to_string_nat n)" n] by (auto simp: hd_in_set)

lemma from_chars_signed_to_string [simp]:
  assumes "minimum \<le> i" "i \<le> maximum"
  shows "from_chars_signed minimum maximum (to_string_int i) = Parsed i []"
  using assms
  by (simp add: from_chars_signed_def to_string_int_def Let_def to_string_nat_digits)

lemma from_chars_unsigned_Parsed_complete:
  "from_chars_unsigned maximum s = Parsed n [] \<longleftrightarrow>
     list_all is_digit s \<and> s \<noteq> [] \<and> n = dec_value s \<and> n \<le> maximum"
  by (auto simp: from_chars_unsigned_def Let_def list_all_iff dropWhile_eq_Nil_conv
      split: if_splits)

section \<open>Machine limits\<close>

definition uint64_max :: nat where "uint64_max = 18446744073709551615"
definition int64_max :: nat where "int64_max = 9223372036854775807"
definition int_max :: int where "int_max = 2147483647"
definition int_min :: int where "int_min = -2147483648"

lemma uint64_max_eq: "uint64_max = 2 ^ 64 - 1"
  by (simp add: uint64_max_def)

lemma unat_le_uint64_max [simp]: "unat (w :: u64) \<le> uint64_max"
  using unsigned_less [of w, where ?'a=nat] by (simp add: uint64_max_def)

lemma unat_of_nat_u64 [simp]: "n \<le> uint64_max \<Longrightarrow> unat (of_nat n :: u64) = n"
  by (simp add: uint64_max_def unat_of_nat take_bit_nat_eq_self)

text \<open>A 64-bit value read as \<open>std::int64_t\<close> is non-negative iff it is at most the maximum.\<close>

lemma sint_i64: "sint (w :: i64) = (int (unat w) + 2 ^ 63) mod 2 ^ 64 - 2 ^ 63"
  using int_word_sint [of "uint w", where ?'a = 64] by simp

lemma wrap_int64:
  fixes n :: nat
  assumes "n < 18446744073709551616"
  shows "(int n + 2 ^ 63) mod 2 ^ 64 - 2 ^ 63 =
    (if n \<le> int64_max then int n else int n - 18446744073709551616)"
proof (cases "n \<le> int64_max")
  case True
  then have "(int n + 2 ^ 63) mod 2 ^ 64 = int n + 2 ^ 63"
    by (intro mod_pos_pos_trivial) (simp_all add: int64_max_def)
  with True show ?thesis by simp
next
  case False
  have "int n + 2 ^ 63 = int n - 2 ^ 63 + 2 ^ 64" by simp
  then have "(int n + 2 ^ 63) mod 2 ^ 64 = (int n - 2 ^ 63 + 2 ^ 64) mod 2 ^ 64" by (rule arg_cong)
  also have "\<dots> = int n - 2 ^ 63"
    unfolding mod_add_self2
    using False assms by (intro mod_pos_pos_trivial) (simp_all add: int64_max_def)
  finally show ?thesis using False by simp
qed

lemma sint_cases:
  "sint (w :: i64) = (if unat w \<le> int64_max then int (unat w) else int (unat w) - 18446744073709551616)"
proof -
  have "unat w < 18446744073709551616"
    using unsigned_less [of w, where ?'a = nat] by simp
  from wrap_int64 [OF this] show ?thesis by (simp only: sint_i64)
qed

lemma sint_eq_unat: "unat (w :: i64) \<le> int64_max \<Longrightarrow> sint w = int (unat w)"
  by (simp only: sint_cases if_True)

lemma sint_nonneg_iff: "0 \<le> sint (w :: i64) \<longleftrightarrow> unat w \<le> int64_max"
proof -
  have "unat w < 18446744073709551616"
    using unsigned_less [of w, where ?'a = nat] by simp
  then have "int (unat w) - 18446744073709551616 < 0" by linarith
  then show ?thesis unfolding sint_cases by (simp del: of_nat_unat)
qed

lemma sint_negative_iff: "sint (w :: i64) < 0 \<longleftrightarrow> int64_max < unat w"
  using sint_nonneg_iff [of w] by linarith

end
