(* ===== verification/Command_Line.thy ===== *)
theory Command_Line
  imports Cpp_Text
begin

text \<open>
  The command line of \<open>netlaglab\<close>, \<open>src/main.cpp\<close>: what is printed, or the session or controller that
  is started with the arguments left.
\<close>

definition help_text :: string where
  "help_text =
     ''NetLagLab'' @ [newline]
     @ ''Run a local application in an isolated network environment with controllable network conditions.'' @ [newline, newline]
     @ ''Usage:'' @ [newline]
     @ ''  netlaglab [OPTION]'' @ [newline]
     @ ''  netlaglab run -- <program> [arguments...]'' @ [newline]
     @ ''  netlaglab attach'' @ [newline, newline]
     @ ''Commands:'' @ [newline]
     @ ''  run -- <program> [arguments...]'' @ [newline]
     @ ''      Run a program and wait for it to exit'' @ [newline]
     @ ''  attach'' @ [newline]
     @ ''      Attach a controller to the active session'' @ [newline, newline]
     @ ''Options:'' @ [newline]
     @ ''  -h, --help  Show this help message'' @ [newline]
     @ ''      --version  Show version information'' @ [newline]"

datatype cli_result = Cli_Run "string list" | Cli_Attach | Cli_Text int string string

definition run_usage_error :: "string \<Rightarrow> cli_result" where
  "run_usage_error message =
     Cli_Text 2 [] (''NetLagLab: '' @ message @ [newline]
       @ ''Usage: netlaglab run -- <program> [arguments...]'' @ [newline])"

definition help_hint :: string where "help_hint = ''Try '' @ [CHR 0x27] @ ''netlaglab --help'' @ [CHR 0x27] @ '' for usage.'' @ [newline]"

definition quoted :: "string \<Rightarrow> string" where "quoted t = [CHR 0x27] @ t @ [CHR 0x27]"

text \<open>\<open>argv\<close> holds the name of the program first.\<close>

definition run_cli :: "string list \<Rightarrow> string \<Rightarrow> cli_result" where
  "run_cli argv version =
     (if length argv = 1 then Cli_Text 0 help_text []
      else if argv ! 1 = ''run'' then
        (if length argv = 2 then run_usage_error (''expected '' @ quoted ''--'' @ '' followed by a program'')
         else if argv ! 2 \<noteq> ''--'' then run_usage_error (''expected '' @ quoted ''--'' @ '' after '' @ quoted ''run'')
         else if length argv = 3 then run_usage_error (''expected a program after '' @ quoted ''--'')
         else Cli_Run (drop 3 argv))
      else if argv ! 1 = ''attach'' then
        (if length argv \<noteq> 2
         then Cli_Text 2 [] (''NetLagLab: '' @ quoted ''attach'' @ '' does not accept arguments'' @ [newline]
                @ ''Usage: netlaglab attach'' @ [newline])
         else Cli_Attach)
      else if 2 < length argv
      then Cli_Text 2 [] (''NetLagLab: expected at most one global option'' @ [newline] @ help_hint)
      else if argv ! 1 = ''--help'' \<or> argv ! 1 = ''-h'' then Cli_Text 0 help_text []
      else if argv ! 1 = ''--version'' then Cli_Text 0 (''NetLagLab '' @ version @ [newline]) []
      else Cli_Text 2 [] (''NetLagLab: unknown argument '' @ quoted (argv ! 1) @ [newline] @ help_hint))"

end
