(* ===== verification/Netlink.thy ===== *)
theory Netlink
  imports Prelude "HOL-Library.Word"
begin

text \<open>
  Reading the kernel's netlink messages, shared by the decoders of
  \<open>src/network_environment/preflight.cpp\<close>, \<open>link_inventory.cpp\<close> and \<open>qdisc_inventory.cpp\<close>:
  objects copied from a byte span at an offset, and the loop over the attributes of a message. A
  message is a list of bytes; numbers are in the byte order of the host, little endian here.
\<close>

unbundle bit_operations_syntax

type_synonym bytes = "8 word list"

fun le_value :: "bytes \<Rightarrow> nat" where
  "le_value [] = 0"
| "le_value (b # bs) = unat b + 256 * le_value bs"

text \<open>\<open>copy_object\<close> for an unsigned object of \<open>n\<close> bytes.\<close>

definition copy_object :: "nat \<Rightarrow> bytes \<Rightarrow> nat \<Rightarrow> nat option" where
  "copy_object n bytes offset =
     (if length bytes < offset \<or> length bytes - offset < n then None
      else Some (le_value (take n (drop offset bytes))))"

text \<open>
  An \<open>int\<close> of the kernel. The decoders negate negative error numbers, which is
  undefined for \<open>-2^31\<close>; here the absolute value is exact.
\<close>

definition signed32 :: "nat \<Rightarrow> int" where
  "signed32 n = (if n < 2 ^ 31 then int n else int n - 2 ^ 32)"

text \<open>The C macros: \<open>NLMSG_ALIGN\<close> and \<open>RTA_ALIGN\<close> round up to a multiple of four
  (\<open>NLMSG_ALIGN\<close> in 32 bits, exact for messages of less than 4 GiB).\<close>

definition align4 :: "nat \<Rightarrow> nat" where
  "align4 n = (n + 3) div 4 * 4"

definition nlmsghdr_size :: nat where "nlmsghdr_size = 16"
definition rtattr_size :: nat where "rtattr_size = 4"

record nlmsghdr =
  nlmsg_len :: nat
  nlmsg_type :: nat
  nlmsg_flags :: nat
  nlmsg_seq :: nat
  nlmsg_pid :: nat

definition copy_header :: "bytes \<Rightarrow> nat \<Rightarrow> nlmsghdr option" where
  "copy_header bytes offset =
     (if length bytes < offset \<or> length bytes - offset < nlmsghdr_size then None
      else Some \<lparr>nlmsg_len = le_value (take 4 (drop offset bytes)),
                 nlmsg_type = le_value (take 2 (drop (offset + 4) bytes)),
                 nlmsg_flags = le_value (take 2 (drop (offset + 6) bytes)),
                 nlmsg_seq = le_value (take 4 (drop (offset + 8) bytes)),
                 nlmsg_pid = le_value (take 4 (drop (offset + 12) bytes))\<rparr>)"

lemma align4_ge: "n \<le> align4 n" "align4 n < n + 4" "align4 n mod 4 = 0"
  unfolding align4_def by presburger+

lemma align4_pos: "0 < n \<Longrightarrow> 0 < align4 n"
  using align4_ge(1) [of n] by linarith

text \<open>
  The loop over the attributes from \<open>offset\<close> on, with \<open>remaining\<close> bytes to go. The step gets the
  type, the offset and the length of the payload; it stops the loop with a reason (\<open>Inl\<close>) or goes
  on with its state; a broken attribute stops the loop with the given reason.
\<close>

function attribute_loop ::
  "'e \<Rightarrow> (nat \<Rightarrow> nat \<Rightarrow> nat \<Rightarrow> 's \<Rightarrow> 'e + 's) \<Rightarrow> bytes \<Rightarrow> nat \<Rightarrow> nat \<Rightarrow> 's \<Rightarrow> 'e + 's" where
  "attribute_loop broken step message offset remaining s =
     (if remaining = 0 then Inr s
      else if length message < offset \<or> length message - offset < rtattr_size then Inl broken
      else
        (let rta_len = le_value (take 2 (drop offset message));
             rta_type = le_value (take 2 (drop (offset + 2) message))
         in if rta_len < rtattr_size \<or> remaining < rta_len then Inl broken
            else (case step rta_type (offset + rtattr_size) (rta_len - rtattr_size) s of
              Inl e \<Rightarrow> Inl e
            | Inr s' \<Rightarrow>
                (let aligned = align4 rta_len
                 in if remaining < aligned then Inl broken
                    else attribute_loop broken step message (offset + aligned) (remaining - aligned) s'))))"
  by pat_completeness auto
termination
proof (relation "measure (\<lambda>(_, _, _, _, remaining, _). remaining)"; clarsimp)
  fix n remaining :: nat
  assume "\<not> n < rtattr_size" "\<not> remaining < n"
  then show "remaining - align4 n < remaining" using align4_ge(1) [of n] by (simp add: rtattr_size_def)
qed

declare attribute_loop.simps [simp del]

section \<open>Messages as the kernel writes them\<close>

fun le_bytes :: "nat \<Rightarrow> nat \<Rightarrow> bytes" where
  "le_bytes 0 n = []"
| "le_bytes (Suc k) n = of_nat n # le_bytes k (n div 256)"

lemma length_le_bytes [simp]: "length (le_bytes k n) = k"
  by (induction k arbitrary: n) simp_all

lemma le_value_le_bytes: "n < 256 ^ k \<Longrightarrow> le_value (le_bytes k n) = n"
proof (induction k arbitrary: n)
  case (Suc k)
  then have "n div 256 < 256 ^ k" by (simp add: less_mult_imp_div_less mult.commute)
  with Suc.IH show ?case by (simp add: unat_of_nat)
qed simp

lemma le_value_less: "le_value bs < 256 ^ length bs"
proof (induction bs)
  case (Cons b bs)
  have "unat b < 256" using unsigned_less [of b, where 'a = nat] by simp
  with Cons show ?case by simp
qed simp

definition attribute :: "nat \<Rightarrow> bytes \<Rightarrow> bytes" where
  "attribute ty payload =
     le_bytes 2 (rtattr_size + length payload) @ le_bytes 2 ty @ payload
       @ replicate (align4 (length payload) - length payload) 0"

definition attribute_fits :: "nat \<times> bytes \<Rightarrow> bool" where
  "attribute_fits a \<longleftrightarrow> fst a < 2 ^ 16 \<and> rtattr_size + length (snd a) < 2 ^ 16"

lemma align4_add4: "align4 (4 + n) = 4 + align4 n"
proof -
  have "(4 + n + 3) div 4 = 1 + (n + 3) div 4" by presburger
  then show ?thesis by (simp add: align4_def)
qed

lemma length_attribute: "length (attribute ty payload) = align4 (rtattr_size + length payload)"
  using align4_ge(1) [of "length payload"] by (simp add: attribute_def rtattr_size_def align4_add4)

text \<open>The steps for a list of attributes, with the offsets they have in the message.\<close>

fun attribute_steps ::
  "(nat \<Rightarrow> nat \<Rightarrow> nat \<Rightarrow> 's \<Rightarrow> 'e + 's) \<Rightarrow> nat \<Rightarrow> (nat \<times> bytes) list \<Rightarrow> 's \<Rightarrow> 'e + 's" where
  "attribute_steps step offset [] s = Inr s"
| "attribute_steps step offset (a # as) s =
     (case step (fst a) (offset + rtattr_size) (length (snd a)) s of
        Inl e \<Rightarrow> Inl e
      | Inr s' \<Rightarrow> attribute_steps step (offset + length (attribute (fst a) (snd a))) as s')"

lemma attribute_loop_attributes:
  assumes "list_all attribute_fits as"
  shows "attribute_loop broken step (prefix @ concat (map (\<lambda>a. attribute (fst a) (snd a)) as)) (length prefix)
      (length (concat (map (\<lambda>a. attribute (fst a) (snd a)) as))) s
     = attribute_steps step (length prefix) as s"
  using assms
proof (induction as arbitrary: prefix s)
  case Nil
  then show ?case by (simp add: attribute_loop.simps)
next
  case (Cons a as)
  obtain ty payload where a: "a = (ty, payload)" by (cases a)
  define rest where "rest = concat (map (\<lambda>a. attribute (fst a) (snd a)) as)"
  define message where "message = prefix @ attribute ty payload @ rest"
  have fits: "ty < 2 ^ 16" "rtattr_size + length payload < 2 ^ 16"
    using Cons.prems by (simp_all add: a attribute_fits_def)
  have len: "le_value (take 2 (drop (length prefix) message)) = rtattr_size + length payload"
    using fits le_value_le_bytes [of "rtattr_size + length payload" 2]
    by (simp add: message_def attribute_def)
  have "take 2 (drop (length prefix + 2) message) = le_bytes 2 ty"
    by (simp add: message_def attribute_def)
  then have ty: "le_value (take 2 (drop (length prefix + 2) message)) = ty"
    using fits le_value_le_bytes [of ty 2] by simp
  have size: "length (attribute ty payload) = align4 (rtattr_size + length payload)"
    by (rule length_attribute)
  have big: "rtattr_size + length payload \<le> align4 (rtattr_size + length payload)" by (rule align4_ge)
  have IH: "attribute_loop broken step ((prefix @ attribute ty payload) @ rest)
        (length (prefix @ attribute ty payload)) (length rest) s'
      = attribute_steps step (length (prefix @ attribute ty payload)) as s'" for s'
    unfolding rest_def by (rule Cons.IH) (use Cons.prems in simp)
  have "length message = length prefix + align4 (rtattr_size + length payload) + length rest"
    by (simp add: message_def size)
  moreover have "rtattr_size \<le> align4 (rtattr_size + length payload)" using big by linarith
  ultimately have room: "\<not> length message < length prefix" "\<not> length message - length prefix < rtattr_size"
    by linarith+
  have nonzero: "0 < align4 (rtattr_size + length payload)" by (rule align4_pos) (simp add: rtattr_size_def)
  have "attribute_loop broken step message (length prefix)
      (align4 (rtattr_size + length payload) + length rest) s
     = (case step ty (length prefix + rtattr_size) (length payload) s of
          Inl e \<Rightarrow> Inl e
        | Inr s' \<Rightarrow> attribute_loop broken step message
            (length prefix + align4 (rtattr_size + length payload)) (length rest) s')"
    using big room nonzero
    by (subst attribute_loop.simps) (simp add: len ty Let_def del: add_2_eq_Suc' split: sum.split)
  also have "\<dots> = attribute_steps step (length prefix) (a # as) s"
    using IH by (simp add: a message_def size split: sum.split)
  finally have "attribute_loop broken step message (length prefix)
      (align4 (rtattr_size + length payload) + length rest) s
     = attribute_steps step (length prefix) (a # as) s" .
  then show ?case by (simp add: a message_def size rest_def)
qed

text \<open>The same steps as a function of the payloads alone.\<close>

fun attribute_fold :: "(nat \<Rightarrow> bytes \<Rightarrow> 's \<Rightarrow> 'e + 's) \<Rightarrow> (nat \<times> bytes) list \<Rightarrow> 's \<Rightarrow> 'e + 's" where
  "attribute_fold f [] s = Inr s"
| "attribute_fold f (a # as) s =
     (case f (fst a) (snd a) s of Inl e \<Rightarrow> Inl e | Inr s' \<Rightarrow> attribute_fold f as s')"

definition attributes :: "(nat \<times> bytes) list \<Rightarrow> bytes" where
  "attributes as = concat (map (\<lambda>a. attribute (fst a) (snd a)) as)"

lemma attributes_simps [simp]:
  "attributes [] = []" "attributes (a # as) = attribute (fst a) (snd a) @ attributes as"
  by (simp_all add: attributes_def)

lemma length_attributes_mod: "length (attributes as) mod 4 = 0"
proof (induction as)
  case (Cons a as)
  then show ?case using align4_ge(3) [of "rtattr_size + length (snd a)"]
    by (simp add: length_attribute mod_add_eq [symmetric])
qed simp

definition holds_at :: "bytes \<Rightarrow> nat \<Rightarrow> bytes \<Rightarrow> bool" where
  "holds_at message offset payload \<longleftrightarrow>
     offset + length payload \<le> length message \<and> take (length payload) (drop offset message) = payload"

lemma attribute_steps_fold:
  assumes "message = prefix @ attributes as"
    and "\<And>ty offset payload s. holds_at message offset payload
      \<Longrightarrow> step ty offset (length payload) s = f ty payload s"
  shows "attribute_steps step (length prefix) as s = attribute_fold f as s"
  using assms(1)
proof (induction as arbitrary: prefix s)
  case (Cons a as)
  have "message = (prefix @ le_bytes 2 (rtattr_size + length (snd a)) @ le_bytes 2 (fst a)) @ snd a
      @ replicate (align4 (length (snd a)) - length (snd a)) 0 @ attributes as"
    using Cons.prems by (simp add: attribute_def)
  then have "holds_at message (length prefix + rtattr_size) (snd a)"
    by (simp add: holds_at_def rtattr_size_def)
  then have "step (fst a) (length prefix + rtattr_size) (length (snd a)) s = f (fst a) (snd a) s"
    by (rule assms(2))
  moreover have "attribute_steps step (length (prefix @ attribute (fst a) (snd a))) as s' = attribute_fold f as s'"
    for s' by (rule Cons.IH) (use Cons.prems in simp)
  ultimately show ?case by (simp split: sum.split)
qed simp

lemma attribute_loop_fold:
  assumes "list_all attribute_fits as" "message = prefix @ attributes as" "start = length prefix"
    and "n = length message - start"
    and "\<And>ty offset payload s. holds_at message offset payload
      \<Longrightarrow> step ty offset (length payload) s = f ty payload s"
  shows "attribute_loop broken step message start n s = attribute_fold f as s"
  using attribute_loop_attributes [OF assms(1), of broken step prefix s]
    attribute_steps_fold [where step = step and f = f and message = message, OF assms(2,5), of s] assms(2-4)
  by (simp add: attributes_def)

lemma copy_object_at:
  "holds_at message offset payload \<Longrightarrow> copy_object (length payload) message offset = Some (le_value payload)"
  by (auto simp: holds_at_def copy_object_def)

lemma le_bytes_le_value: "le_bytes (length bs) (le_value bs) = bs"
proof (induction bs)
  case (Cons b bs)
  have "unat b < 256" using unsigned_less [of b, where 'a = nat] by simp
  then have "(unat b + 256 * le_value bs) div 256 = le_value bs" by simp
  moreover have "(of_nat (unat b + 256 * le_value bs) :: 8 word) = b"
  proof (rule word_unat_eq_iff [THEN iffD2])
    have "(unat b + 256 * le_value bs) mod 256 = unat b" using \<open>unat b < 256\<close> by simp
    then show "unat (of_nat (unat b + 256 * le_value bs) :: 8 word) = unat b"
      by (simp only: unat_of_nat) simp
  qed
  ultimately show ?case using Cons by (simp del: of_nat_add of_nat_mult)
qed simp

text \<open>The header of a message of the given length, type, flags, sequence number and port.\<close>

definition header_bytes :: "nat \<Rightarrow> nat \<Rightarrow> nat \<Rightarrow> nat \<Rightarrow> nat \<Rightarrow> bytes" where
  "header_bytes len ty flags sequence port =
     le_bytes 4 len @ le_bytes 2 ty @ le_bytes 2 flags @ le_bytes 4 sequence @ le_bytes 4 port"

lemma length_header_bytes [simp]: "length (header_bytes len ty flags sequence port) = nlmsghdr_size"
  by (simp add: header_bytes_def nlmsghdr_size_def)

lemma copy_header_bytes:
  assumes "len < 2 ^ 32" "ty < 2 ^ 16" "flags < 2 ^ 16" "sequence < 2 ^ 32" "port < 2 ^ 32"
  shows "copy_header (prefix @ header_bytes len ty flags sequence port @ rest) (length prefix)
     = Some \<lparr>nlmsg_len = len, nlmsg_type = ty, nlmsg_flags = flags, nlmsg_seq = sequence, nlmsg_pid = port\<rparr>"
proof -
  have "len < 256 ^ 4" "ty < 256 ^ 2" "flags < 256 ^ 2" "sequence < 256 ^ 4" "port < 256 ^ 4"
    using assms by simp_all
  then show ?thesis
    by (simp add: copy_header_def header_bytes_def nlmsghdr_size_def le_value_le_bytes
        del: add_2_eq_Suc' power_numeral)
qed

end
