(* ===== verification/Link_Inventory.thy ===== *)
theory Link_Inventory
  imports Netlink
begin

text \<open>
  The inventory of network links: what a query for a link answers and the decoder of the kernel's
  answer (\<open>src/network_environment/link_inventory.hpp\<close>, \<open>link_inventory.cpp\<close>).
\<close>

datatype inventory_status =
    Inventory_Absent
  | Inventory_Present
  | Inventory_Failure
  | Inventory_Timeout
  | Inventory_Malformed

record link_identity =
  link_index :: "32 word"
  link_peer_index :: "32 word"
  link_peer_namespace :: "32 word option"

record link_query =
  link_status :: inventory_status
  link_found :: "link_identity option"

text \<open>Both ends of a veth pair (\<open>VethIdentityPair\<close> of \<open>network_environment.cpp\<close>).\<close>

record veth_identity_pair =
  pair_host :: link_identity
  pair_session :: link_identity

definition link_answer :: "inventory_status \<Rightarrow> link_query" where
  "link_answer status = \<lparr>link_status = status, link_found = None\<rparr>"

text \<open>Text as the bytes of its characters.\<close>

definition text_bytes :: "string \<Rightarrow> bytes" where
  "text_bytes s = map (\<lambda>c. of_nat (byte_of c)) s"

definition string_attribute :: "bytes \<Rightarrow> nat \<Rightarrow> nat \<Rightarrow> bytes option" where
  "string_attribute message offset n =
     (if n = 0 \<or> length message < offset \<or> length message - offset < n then None
      else (let data = take n (drop offset message)
            in if last data \<noteq> 0 \<or> 0 \<in> set (butlast data) then None else Some (butlast data)))"

definition attribute_type :: "nat \<Rightarrow> nat" where
  "attribute_type ty = ty mod 2 ^ 14"

definition veth_kind_step :: "bytes \<Rightarrow> nat \<Rightarrow> nat \<Rightarrow> nat \<Rightarrow> bool \<Rightarrow> unit + bool" where
  "veth_kind_step message ty offset n found_kind =
     (if attribute_type ty = 1 then
        (if found_kind \<or> string_attribute message offset n \<noteq> Some (text_bytes ''veth'') then Inl ()
         else Inr True)
      else Inr found_kind)"

definition veth_kind :: "bytes \<Rightarrow> nat \<Rightarrow> nat \<Rightarrow> bool" where
  "veth_kind message offset n \<longleftrightarrow>
     attribute_loop () (veth_kind_step message) message offset n False = Inr True"

record link_attributes =
  found_name :: "bytes option"
  found_peer :: "nat option"
  found_namespace :: "32 word option"
  found_veth :: bool

definition link_attribute ::
  "bytes \<Rightarrow> nat \<Rightarrow> nat \<Rightarrow> nat \<Rightarrow> link_attributes \<Rightarrow> unit + link_attributes" where
  "link_attribute message ty offset n s =
     (if attribute_type ty = 3 then
        (if found_name s \<noteq> None then Inl ()
         else (case string_attribute message offset n of
           None \<Rightarrow> Inl ()
         | Some name \<Rightarrow> Inr (s\<lparr>found_name := Some name\<rparr>)))
      else if attribute_type ty = 5 then
        (if found_peer s \<noteq> None \<or> n \<noteq> 4 then Inl ()
         else (case copy_object 4 message offset of
           None \<Rightarrow> Inl ()
         | Some peer \<Rightarrow> Inr (s\<lparr>found_peer := Some peer\<rparr>)))
      else if attribute_type ty = 37 then
        (if found_namespace s \<noteq> None \<or> n \<noteq> 4 then Inl ()
         else (case copy_object 4 message offset of
           None \<Rightarrow> Inl ()
         | Some value \<Rightarrow> Inr (s\<lparr>found_namespace := Some (of_nat value)\<rparr>)))
      else if attribute_type ty = 18 then
        (if found_veth s \<or> \<not> veth_kind message offset n then Inl ()
         else Inr (s\<lparr>found_veth := True\<rparr>))
      else Inr s)"

record link_decoder =
  link_sequence :: nat
  link_port :: nat
  expected_index :: "32 word"
  expected_name :: string
  link_error :: int

definition link_information :: "link_decoder \<Rightarrow> bytes \<Rightarrow> link_query" where
  "link_information d message =
     (case copy_object 4 message (nlmsghdr_size + 4) of
        None \<Rightarrow> link_answer Inventory_Malformed
      | Some index \<Rightarrow>
          (if 2 ^ 31 \<le> index \<or> index = 0 \<or> of_nat index \<noteq> expected_index d
           then link_answer Inventory_Malformed
           else (case attribute_loop () (link_attribute message) message (nlmsghdr_size + 16)
                   (length message - (nlmsghdr_size + 16))
                   \<lparr>found_name = None, found_peer = None, found_namespace = None, found_veth = False\<rparr> of
             Inl _ \<Rightarrow> link_answer Inventory_Malformed
           | Inr s \<Rightarrow>
               (case found_peer s of
                  None \<Rightarrow> link_answer Inventory_Malformed
                | Some peer \<Rightarrow>
                    (if found_name s \<noteq> Some (text_bytes (expected_name d)) \<or> peer = 0 \<or> \<not> found_veth s
                     then link_answer Inventory_Malformed
                     else \<lparr>link_status = Inventory_Present,
                           link_found = Some \<lparr>link_index = expected_index d,
                             link_peer_index = of_nat peer,
                             link_peer_namespace = found_namespace s\<rparr>\<rparr>)))))"

text \<open>The query and the decoder, whose error number an error message sets.\<close>

definition link_consume :: "link_decoder \<Rightarrow> bytes \<Rightarrow> link_query \<times> link_decoder" where
  "link_consume d bytes =
     (case copy_header bytes 0 of
        None \<Rightarrow> (link_answer Inventory_Malformed, d)
      | Some header \<Rightarrow>
          (if nlmsg_len header < nlmsghdr_size \<or> length bytes < nlmsg_len header
             \<or> align4 (nlmsg_len header) \<noteq> length bytes
             \<or> nlmsg_seq header \<noteq> link_sequence d \<or> nlmsg_pid header \<noteq> link_port d
           then (link_answer Inventory_Malformed, d)
           else
             (let message = take (nlmsg_len header) bytes
              in if nlmsg_type header = 2 then
                   (if nlmsg_len header < nlmsghdr_size + 20 then (link_answer Inventory_Malformed, d)
                    else (case copy_object 4 message nlmsghdr_size of
                      None \<Rightarrow> (link_answer Inventory_Malformed, d)
                    | Some e \<Rightarrow>
                        (if signed32 e = 0 then (link_answer Inventory_Malformed, d)
                         else (let number = \<bar>signed32 e\<bar>
                               in (link_answer (if number = 19 \<or> number = 6 then Inventory_Absent
                                                else Inventory_Failure),
                                   d\<lparr>link_error := number\<rparr>)))))
                 else if nlmsg_type header \<noteq> 16 \<or> nlmsg_len header < nlmsghdr_size + 16
                 then (link_answer Inventory_Malformed, d)
                 else (link_information d message, d))))"

end
