(* ===== verification/Qdisc_Inventory.thy ===== *)
theory Qdisc_Inventory
  imports Link_Inventory
begin

text \<open>
  The decoder of the kernel's answers about queueing disciplines
  (\<open>src/network_environment/qdisc_inventory.hpp\<close>, \<open>qdisc_inventory.cpp\<close>): which root qdisc a link
  has and, for netem, its delay, jitter, loss probability and whether anything else is set.
\<close>

datatype qdisc_message_kind = Qdisc_Root | Qdisc_Ignored | Qdisc_Dump_Complete

datatype root_qdisc_kind = Noqueue | Netem | Other_Qdisc

record root_qdisc =
  qdisc_handle :: "32 word"
  qdisc_kind :: root_qdisc_kind
  qdisc_delay :: "64 word"
  qdisc_jitter :: "64 word"
  qdisc_loss :: "32 word"
  qdisc_unsupported :: bool

record qdisc_message =
  message_status :: inventory_status
  message_kind :: qdisc_message_kind
  message_root :: "root_qdisc option"

record qdisc_query =
  query_status :: inventory_status
  query_root :: "root_qdisc option"

definition qdisc_malformed :: qdisc_message where
  "qdisc_malformed =
     \<lparr>message_status = Inventory_Malformed, message_kind = Qdisc_Ignored, message_root = None\<rparr>"

definition netem_option_size :: nat where "netem_option_size = 24"

text \<open>The loop over the netem attributes: the types seen, delay, jitter and the flag.\<close>

record netem_attributes =
  seen_types :: "nat list"
  netem_delay :: "nat option"
  netem_jitter :: "nat option"
  netem_unsupported :: bool

text \<open>The size an attribute must have and whether it must be zero.\<close>

definition expected_netem_size :: "nat \<Rightarrow> (nat \<times> bool) option" where
  "expected_netem_size ty =
     (if ty = 1 then Some (12, True)
      else if ty = 3 \<or> ty = 4 then Some (8, True)
      else if ty = 6 then Some (16, True)
      else if ty = 14 then Some (8, False)
      else if ty = 9 then Some (0, False)
      else None)"

definition netem_attribute ::
  "bytes \<Rightarrow> nat \<Rightarrow> nat \<Rightarrow> nat \<Rightarrow> netem_attributes \<Rightarrow> unit + netem_attributes" where
  "netem_attribute message raw offset n s =
     (let ty = attribute_type raw
      in if ty \<le> 14 \<and> ty \<noteq> 9 \<and> ty \<in> set (seen_types s) then Inl ()
         else
           (let s1 = (if ty \<le> 14 \<and> ty \<noteq> 9 then s\<lparr>seen_types := ty # seen_types s\<rparr> else s)
            in if ty = 10 then
                 (if netem_delay s1 \<noteq> None \<or> n \<noteq> 8 then Inl ()
                  else (case copy_object 8 message offset of
                    None \<Rightarrow> Inl ()
                  | Some v \<Rightarrow> Inr (s1\<lparr>netem_delay := Some v\<rparr>)))
               else if ty = 11 then
                 (if netem_jitter s1 \<noteq> None \<or> n \<noteq> 8 then Inl ()
                  else (case copy_object 8 message offset of
                    None \<Rightarrow> Inl ()
                  | Some v \<Rightarrow> Inr (s1\<lparr>netem_jitter := Some v\<rparr>)))
               else (case expected_netem_size ty of
                   None \<Rightarrow> Inr (s1\<lparr>netem_unsupported := True\<rparr>)
                 | Some (expected, must_be_zero) \<Rightarrow>
                     (if n \<noteq> expected then Inl ()
                      else if must_be_zero \<and> \<not> list_all (\<lambda>b. b = 0) (take n (drop offset message))
                      then Inr (s1\<lparr>netem_unsupported := True\<rparr>)
                      else Inr s1))))"

definition option_field :: "bytes \<Rightarrow> nat \<Rightarrow> nat \<Rightarrow> nat" where
  "option_field message offset i = le_value (take 4 (drop (offset + 4 * i) message))"

text \<open>
  The fixed part has latency, limit, loss, gap, duplicate and jitter; the result is \<open>None\<close> for a
  malformed message.
\<close>

definition netem_options :: "bytes \<Rightarrow> nat \<Rightarrow> nat \<Rightarrow> root_qdisc \<Rightarrow> root_qdisc option" where
  "netem_options message offset n q =
     (if n < netem_option_size \<or> copy_object netem_option_size message offset = None then None
      else
        (let latency = option_field message offset 0; limit = option_field message offset 1;
             loss = option_field message offset 2; gap = option_field message offset 3;
             duplicate = option_field message offset 4; jitter = option_field message offset 5
         in case attribute_loop () (netem_attribute message) message (offset + netem_option_size)
               (n - netem_option_size)
               \<lparr>seen_types = [], netem_delay = None, netem_jitter = None,
                netem_unsupported = limit \<noteq> 1000 \<or> gap \<noteq> 0 \<or> duplicate \<noteq> 0\<rparr> of
              Inl _ \<Rightarrow> None
            | Inr s \<Rightarrow>
                Some (q\<lparr>qdisc_loss := of_nat loss,
                        qdisc_delay := (case netem_delay s of None \<Rightarrow> qdisc_delay q | Some v \<Rightarrow> of_nat v),
                        qdisc_jitter := (case netem_jitter s of None \<Rightarrow> qdisc_jitter q | Some v \<Rightarrow> of_nat v),
                        qdisc_unsupported := netem_unsupported s
                          \<or> (netem_delay s = None \<and> latency \<noteq> 0) \<or> (netem_jitter s = None \<and> jitter \<noteq> 0)\<rparr>)))"

text \<open>The loop over the attributes of the qdisc: its kind and where its options are.\<close>

record qdisc_attributes =
  found_kind :: "bytes option"
  found_options :: "(nat \<times> nat) option"

definition qdisc_attribute ::
  "bytes \<Rightarrow> nat \<Rightarrow> nat \<Rightarrow> nat \<Rightarrow> qdisc_attributes \<Rightarrow> unit + qdisc_attributes" where
  "qdisc_attribute message raw offset n s =
     (if attribute_type raw = 1 then
        (if found_kind s \<noteq> None then Inl ()
         else (case string_attribute message offset n of
           None \<Rightarrow> Inl ()
         | Some kind \<Rightarrow> Inr (s\<lparr>found_kind := Some kind\<rparr>)))
      else if attribute_type raw = 2 then
        (if found_options s \<noteq> None then Inl () else Inr (s\<lparr>found_options := Some (offset, n)\<rparr>))
      else Inr s)"

record qdisc_decoder =
  qdisc_sequence :: nat
  qdisc_port :: nat
  qdisc_expected_index :: "32 word"

definition new_root_qdisc :: "nat \<Rightarrow> root_qdisc" where
  "new_root_qdisc handle =
     \<lparr>qdisc_handle = of_nat handle, qdisc_kind = Other_Qdisc, qdisc_delay = 0, qdisc_jitter = 0,
      qdisc_loss = 0, qdisc_unsupported = False\<rparr>"

definition root_answer :: "root_qdisc \<Rightarrow> qdisc_message" where
  "root_answer q = \<lparr>message_status = Inventory_Present, message_kind = Qdisc_Root, message_root = Some q\<rparr>"

definition describe_qdisc :: "bytes \<Rightarrow> nat \<Rightarrow> qdisc_attributes \<Rightarrow> qdisc_message" where
  "describe_qdisc message handle s =
     (case found_kind s of
        None \<Rightarrow> qdisc_malformed
      | Some kind \<Rightarrow>
          (let q = new_root_qdisc handle
           in if kind = text_bytes ''noqueue'' then
                (if found_options s \<noteq> None \<or> handle \<noteq> 0 then qdisc_malformed
                 else root_answer (q\<lparr>qdisc_kind := Noqueue\<rparr>))
              else if kind = text_bytes ''netem'' then
                (case found_options s of
                   None \<Rightarrow> qdisc_malformed
                 | Some (offset, n) \<Rightarrow>
                     (case netem_options message offset n (q\<lparr>qdisc_kind := Netem\<rparr>) of
                        None \<Rightarrow> qdisc_malformed
                      | Some q1 \<Rightarrow> root_answer q1))
              else root_answer (q\<lparr>qdisc_kind := Other_Qdisc, qdisc_unsupported := True\<rparr>)))"

text \<open>A \<open>tcmsg\<close> has the family, the interface, the handle and the parent at 0, 4, 8 and 12.\<close>

definition qdisc_information :: "qdisc_decoder \<Rightarrow> bytes \<Rightarrow> qdisc_message" where
  "qdisc_information d message =
     (case (copy_object 1 message nlmsghdr_size, copy_object 4 message (nlmsghdr_size + 4),
            copy_object 4 message (nlmsghdr_size + 8), copy_object 4 message (nlmsghdr_size + 12)) of
        (Some family, Some index, Some handle, Some parent) \<Rightarrow>
          (if family \<noteq> 0 \<or> signed32 index \<le> 0 then qdisc_malformed
           else if of_nat index \<noteq> qdisc_expected_index d \<or> parent \<noteq> 2 ^ 32 - 1
           then \<lparr>message_status = Inventory_Present, message_kind = Qdisc_Ignored, message_root = None\<rparr>
           else (case attribute_loop () (qdisc_attribute message) message (nlmsghdr_size + 20)
                   (length message - (nlmsghdr_size + 20)) \<lparr>found_kind = None, found_options = None\<rparr> of
             Inl _ \<Rightarrow> qdisc_malformed
           | Inr s \<Rightarrow> describe_qdisc message handle s))
      | _ \<Rightarrow> qdisc_malformed)"

definition qdisc_consume :: "qdisc_decoder \<Rightarrow> bytes \<Rightarrow> qdisc_message" where
  "qdisc_consume d bytes =
     (case copy_header bytes 0 of
        None \<Rightarrow> qdisc_malformed
      | Some header \<Rightarrow>
          (if nlmsg_len header < nlmsghdr_size \<or> length bytes < nlmsg_len header
             \<or> align4 (nlmsg_len header) \<noteq> length bytes
             \<or> nlmsg_seq header \<noteq> qdisc_sequence d \<or> nlmsg_pid header \<noteq> qdisc_port d
             \<or> odd (nlmsg_flags header div 16)
           then qdisc_malformed
           else
             (let message = take (nlmsg_len header) bytes
              in if nlmsg_type header = 3 then
                   (if nlmsg_len header \<noteq> nlmsghdr_size \<and> nlmsg_len header \<noteq> nlmsghdr_size + 4
                    then qdisc_malformed
                    else if nlmsg_len header = nlmsghdr_size + 4 \<and> copy_object 4 message nlmsghdr_size \<noteq> Some 0
                    then \<lparr>message_status = Inventory_Failure, message_kind = Qdisc_Dump_Complete, message_root = None\<rparr>
                    else \<lparr>message_status = Inventory_Present, message_kind = Qdisc_Dump_Complete, message_root = None\<rparr>)
                 else if nlmsg_type header = 2 then
                   (case copy_object 4 message nlmsghdr_size of
                      None \<Rightarrow> qdisc_malformed
                    | Some e \<Rightarrow>
                        (if nlmsg_len header \<noteq> nlmsghdr_size + 20 \<or> signed32 e = 0 then qdisc_malformed
                         else \<lparr>message_status =
                                 (if \<bar>signed32 e\<bar> = 19 \<or> \<bar>signed32 e\<bar> = 6 then Inventory_Absent
                                  else Inventory_Failure),
                               message_kind = Qdisc_Ignored, message_root = None\<rparr>))
                 else if nlmsg_type header \<noteq> 36 \<or> nlmsg_len header < nlmsghdr_size + 20
                 then qdisc_malformed
                 else qdisc_information d message)))"

end
