(* ===== verification/Route_Dump.thy ===== *)
theory Route_Dump
  imports Netlink
begin

text \<open>
  The parts of \<open>src/network_environment/preflight.cpp\<close> that need no system call: overlap of IPv4
  prefixes, the test for a trusted executable, and the decoder of a netlink route dump.
\<close>

section \<open>Prefixes and executables\<close>

record ipv4_prefix =
  prefix_address :: "32 word"
  prefix_length :: "8 word"

definition session_subnet :: ipv4_prefix where
  "session_subnet = \<lparr>prefix_address = 0x0ac80000, prefix_length = 30\<rparr>"

definition prefix_mask :: "8 word \<Rightarrow> 32 word" where
  "prefix_mask n = (if n = 0 then 0 else push_bit (32 - unat n) 0xffffffff)"

definition prefixes_overlap :: "ipv4_prefix \<Rightarrow> ipv4_prefix \<Rightarrow> bool" where
  "prefixes_overlap l r =
     (if 32 < prefix_length l \<or> 32 < prefix_length r then False
      else (let mask = prefix_mask (min (prefix_length l) (prefix_length r))
            in prefix_address l AND mask = prefix_address r AND mask))"

record file_metadata =
  file_regular :: bool
  file_owner :: "32 word"
  file_mode :: "32 word"

text \<open>The bits \<open>0111\<close> and \<open>0022\<close> of the mode.\<close>

definition is_trusted_executable :: "file_metadata \<Rightarrow> bool" where
  "is_trusted_executable m \<longleftrightarrow>
     file_regular m \<and> file_owner m = 0
     \<and> file_mode m AND 0x49 \<noteq> 0 \<and> file_mode m AND 0x12 = 0"

section \<open>The decoder\<close>

datatype route_dump_status =
    Route_Pending
  | Route_Complete
  | Route_Collision
  | Route_Netlink_Error
  | Route_Timeout
  | Route_Malformed

definition ntohl :: "nat \<Rightarrow> 32 word" where
  "ntohl n = of_nat (le_value (rev (le_bytes 4 n)))"

text \<open>
  The attributes of a route: the destination, if there was one, and whether there was a table.
\<close>

definition route_attribute ::
  "bytes \<Rightarrow> nat \<Rightarrow> nat \<Rightarrow> nat \<Rightarrow> nat option \<times> bool \<Rightarrow> route_dump_status + nat option \<times> bool" where
  "route_attribute message ty offset n = (\<lambda>(destination, has_table).
     if ty = 1 then
       (if destination \<noteq> None \<or> n \<noteq> 4 then Inl Route_Malformed
        else (case copy_object 4 message offset of
           None \<Rightarrow> Inl Route_Malformed
         | Some d \<Rightarrow> Inr (Some d, has_table)))
     else if ty = 15 then
       (if has_table \<or> n \<noteq> 4 \<or> copy_object 4 message offset = None then Inl Route_Malformed
        else Inr (destination, True))
     else Inr (destination, has_table))"

definition inspect_route :: "bytes \<Rightarrow> nat \<Rightarrow> route_dump_status" where
  "inspect_route message len =
     (if len < nlmsghdr_size + 12 then Route_Malformed
      else (case (copy_object 1 message nlmsghdr_size, copy_object 1 message (nlmsghdr_size + 1)) of
        (Some family, Some dst_len) \<Rightarrow>
          (if family \<noteq> 2 then Route_Pending
           else if 32 < dst_len then Route_Malformed
           else (case attribute_loop Route_Malformed (route_attribute message) message
                   (nlmsghdr_size + 12) (len - (nlmsghdr_size + 12)) (None, False) of
             Inl e \<Rightarrow> e
           | Inr (destination, has_table) \<Rightarrow>
               (if dst_len \<noteq> 0 \<and> destination = None then Route_Malformed
                else if dst_len = 0 then Route_Pending
                else if prefixes_overlap
                  \<lparr>prefix_address = ntohl (case destination of None \<Rightarrow> 0 | Some d \<Rightarrow> d),
                   prefix_length = of_nat dst_len\<rparr> session_subnet
                then Route_Collision else Route_Pending)))
      | _ \<Rightarrow> Route_Malformed))"

text \<open>
  The loop over the messages of one datagram, from \<open>offset\<close> on: the status and the error number
  when one was read.
\<close>

function dump_loop :: "nat \<Rightarrow> nat \<Rightarrow> bytes \<Rightarrow> nat \<Rightarrow> route_dump_status \<times> int option" where
  "dump_loop sequence port bytes offset =
     (if length bytes \<le> offset then (Route_Pending, None)
      else (case copy_header bytes offset of
        None \<Rightarrow> (Route_Malformed, None)
      | Some header \<Rightarrow>
          (if nlmsg_len header < nlmsghdr_size \<or> length bytes - offset < nlmsg_len header
             \<or> nlmsg_seq header \<noteq> sequence \<or> nlmsg_pid header \<noteq> port
             \<or> odd (nlmsg_flags header div 16)
           then (Route_Malformed, None)
           else
             (let message = take (nlmsg_len header) (drop offset bytes);
                  aligned = align4 (nlmsg_len header);
                  multi = odd (nlmsg_flags header div 2)
              in if length bytes - offset < aligned then (Route_Malformed, None)
                 else if nlmsg_type header = 3 then
                   (if \<not> multi \<or> aligned \<noteq> length bytes - offset then (Route_Malformed, None)
                    else if nlmsg_len header \<noteq> nlmsghdr_size then
                      (if nlmsg_len header < nlmsghdr_size + 4 then (Route_Malformed, None)
                       else (case copy_object 4 message nlmsghdr_size of
                         None \<Rightarrow> (Route_Malformed, None)
                       | Some e \<Rightarrow>
                           (if signed32 e \<noteq> 0 then (Route_Netlink_Error, Some \<bar>signed32 e\<bar>)
                            else (Route_Complete, None))))
                    else (Route_Complete, None))
                 else if nlmsg_type header = 2 then
                   (if aligned \<noteq> length bytes - offset \<or> nlmsg_len header < nlmsghdr_size + 20
                    then (Route_Malformed, None)
                    else (case copy_object 4 message nlmsghdr_size of
                      None \<Rightarrow> (Route_Malformed, None)
                    | Some e \<Rightarrow>
                        (if signed32 e = 0 then (Route_Malformed, None)
                         else (Route_Netlink_Error, Some \<bar>signed32 e\<bar>))))
                 else if nlmsg_type header \<noteq> 24 \<or> \<not> multi then (Route_Malformed, None)
                 else (let route_status = inspect_route message (nlmsg_len header)
                       in if route_status \<noteq> Route_Pending then (route_status, None)
                          else dump_loop sequence port bytes (offset + aligned))))))"
  by pat_completeness auto
termination
proof (relation "measure (\<lambda>(_, _, bytes, offset). length bytes - offset)"; clarsimp)
  fix offset len :: nat and bytes :: bytes
  assume "\<not> len < nlmsghdr_size" "\<not> length bytes \<le> offset"
  moreover have "len \<le> align4 len" by (rule align4_ge)
  ultimately show "length bytes - (offset + align4 len) < length bytes - offset"
    by (simp add: nlmsghdr_size_def)
qed

declare dump_loop.simps [simp del]

record route_dump_decoder =
  dump_sequence :: nat
  dump_port :: nat
  dump_status :: route_dump_status
  dump_error :: int

definition new_route_dump_decoder :: "nat \<Rightarrow> nat \<Rightarrow> route_dump_decoder" where
  "new_route_dump_decoder sequence port =
     \<lparr>dump_sequence = sequence, dump_port = port, dump_status = Route_Pending, dump_error = 0\<rparr>"

definition dump_consume :: "route_dump_decoder \<Rightarrow> bytes \<Rightarrow> route_dump_decoder" where
  "dump_consume d bytes =
     (if dump_status d \<noteq> Route_Pending then d
      else if bytes = [] then d\<lparr>dump_status := Route_Malformed\<rparr>
      else (case dump_loop (dump_sequence d) (dump_port d) bytes 0 of
        (status, error) \<Rightarrow>
          d\<lparr>dump_status := status, dump_error := (case error of None \<Rightarrow> dump_error d | Some e \<Rightarrow> e)\<rparr>))"

end
