(* ===== verification/Session_Lifecycle.thy ===== *)
theory Session_Lifecycle
  imports Cpp_Text
begin

text \<open>
  \<open>src/session_lifecycle.hpp\<close> and \<open>src/session_lifecycle.cpp\<close>: the policy that drives one
  session from the start of the helper to the published outcome. The adapter of the code is an
  abstract class; here it is a record of functions on an unknown world. The loop may wait for
  ever, so it is a partial function: no result means that it does not return.
\<close>

section \<open>Data\<close>

datatype workload_result_kind = Result_Start_Failure | Result_Exited | Result_Signaled

record workload_result =
  result_kind :: workload_result_kind
  result_value :: int

datatype infrastructure_failure =
    Failure_Start
  | Failure_Conversation
  | Failure_Profile_State
  | Failure_Stop_Request
  | Failure_Cleanup
  | Failure_Launcher_Reaping
  | Failure_Supervisor_Cleanup
  | Failure_Invalid_Event

record session_outcome =
  outcome_workload :: "workload_result option"
  infrastructure_failures :: "infrastructure_failure list"

definition infrastructure_succeeded :: "session_outcome \<Rightarrow> bool" where
  "infrastructure_succeeded outcome \<longleftrightarrow> infrastructure_failures outcome = []"

datatype lifecycle_event_kind =
    Event_Activated
  | Event_Activation_Failed
  | Event_Workload_Exited
  | Event_Workload_Signaled
  | Event_Cleanup_Succeeded
  | Event_Cleanup_Failed
  | Event_Conversation_Lost
  | Event_Profile_State_Unknown
  | Event_Controller_Lost
  | Event_Terminal_Interrupt
  | Event_Stop_Requested
  | Event_Deadline_Expired

record lifecycle_event =
  event_kind :: lifecycle_event_kind
  event_value :: int

datatype lifecycle_wait = Wait_Indefinitely | Wait_Five_Seconds

datatype stop_request = Stop_Terminate | Stop_Kill

record 'w lifecycle_adapter =
  adapter_begin :: "'w \<Rightarrow> bool \<times> 'w"
  adapter_wait :: "lifecycle_wait \<Rightarrow> 'w \<Rightarrow> lifecycle_event \<times> 'w"
  adapter_request_stop :: "stop_request \<Rightarrow> 'w \<Rightarrow> bool \<times> 'w"
  adapter_reap_launcher :: "'w \<Rightarrow> bool \<times> 'w"
  adapter_finalize :: "'w \<Rightarrow> bool \<times> 'w"
  adapter_publish_outcome :: "session_outcome \<Rightarrow> 'w \<Rightarrow> 'w"

datatype lifecycle_state = Lifecycle_Waiting_For_Activation | Lifecycle_Active | Lifecycle_Waiting_For_Cleanup

datatype stop_stage = Stage_None | Stage_Interrupt_Grace | Stage_Terminate_Grace | Stage_Kill_Requested

record lifecycle_loop =
  loop_outcome :: session_outcome
  loop_state :: lifecycle_state
  loop_stage :: stop_stage

section \<open>The loop\<close>

definition push_failure :: "infrastructure_failure \<Rightarrow> session_outcome \<Rightarrow> session_outcome" where
  "push_failure f outcome =
     outcome\<lparr>infrastructure_failures := infrastructure_failures outcome @ [f]\<rparr>"

definition loop_fail :: "infrastructure_failure \<Rightarrow> lifecycle_loop \<Rightarrow> lifecycle_loop" where
  "loop_fail f s = s\<lparr>loop_outcome := push_failure f (loop_outcome s)\<rparr>"

text \<open>A pass through the loop ends with \<open>continue\<close> (\<open>Inl\<close>) or \<open>break\<close> (\<open>Inr\<close>).\<close>

type_synonym 'w pass = "(lifecycle_loop \<times> 'w) + (lifecycle_loop \<times> 'w)"

definition stop_or_break ::
  "'w lifecycle_adapter \<Rightarrow> stop_request \<Rightarrow> stop_stage \<Rightarrow> lifecycle_loop \<Rightarrow> 'w \<Rightarrow> 'w pass" where
  "stop_or_break a request stage s w =
     (case adapter_request_stop a request w of
        (ok, w') \<Rightarrow>
          if \<not> ok then Inr (loop_fail Failure_Stop_Request s, w')
          else Inl (s\<lparr>loop_stage := stage\<rparr>, w'))"

definition finish_workload ::
  "workload_result_kind \<Rightarrow> int \<Rightarrow> lifecycle_loop \<Rightarrow> lifecycle_loop" where
  "finish_workload kind v s =
     s\<lparr>loop_outcome := (loop_outcome s)
          \<lparr>outcome_workload := Some \<lparr>result_kind = kind, result_value = v\<rparr>\<rparr>,
       loop_state := Lifecycle_Waiting_For_Cleanup, loop_stage := Stage_None\<rparr>"

definition activation_failed :: "int \<Rightarrow> lifecycle_loop \<Rightarrow> lifecycle_loop" where
  "activation_failed v s =
     (if v = 126 \<or> v = 127
      then s\<lparr>loop_outcome := (loop_outcome s)
               \<lparr>outcome_workload := Some \<lparr>result_kind = Result_Start_Failure, result_value = v\<rparr>\<rparr>\<rparr>
      else loop_fail Failure_Start s)\<lparr>loop_state := Lifecycle_Waiting_For_Cleanup\<rparr>"

definition active_event ::
  "'w lifecycle_adapter \<Rightarrow> lifecycle_event \<Rightarrow> lifecycle_loop \<Rightarrow> 'w \<Rightarrow> 'w pass" where
  "active_event a event s w =
     (if event_kind event = Event_Profile_State_Unknown then
        (let s1 = loop_fail Failure_Profile_State s
         in if loop_stage s = Stage_None
            then stop_or_break a Stop_Terminate Stage_Terminate_Grace s1 w
            else Inl (s1, w))
      else if event_kind event = Event_Terminal_Interrupt then
        (if loop_stage s = Stage_None then Inl (s\<lparr>loop_stage := Stage_Interrupt_Grace\<rparr>, w)
         else if loop_stage s = Stage_Kill_Requested then Inl (s, w)
         else stop_or_break a Stop_Kill Stage_Kill_Requested s w)
      else if event_kind event = Event_Stop_Requested \<and> loop_stage s = Stage_None then
        stop_or_break a Stop_Terminate Stage_Terminate_Grace s w
      else if event_kind event = Event_Stop_Requested then Inl (s, w)
      else if event_kind event = Event_Deadline_Expired \<and> loop_stage s = Stage_Interrupt_Grace then
        stop_or_break a Stop_Terminate Stage_Terminate_Grace s w
      else if event_kind event = Event_Deadline_Expired \<and> loop_stage s = Stage_Terminate_Grace then
        stop_or_break a Stop_Kill Stage_Kill_Requested s w
      else if event_kind event = Event_Workload_Exited then
        Inl (finish_workload Result_Exited (event_value event) s, w)
      else if event_kind event = Event_Workload_Signaled then
        Inl (finish_workload Result_Signaled (event_value event) s, w)
      else Inr (loop_fail Failure_Invalid_Event s, w))"

definition lifecycle_event_step ::
  "'w lifecycle_adapter \<Rightarrow> lifecycle_event \<Rightarrow> lifecycle_loop \<Rightarrow> 'w \<Rightarrow> 'w pass" where
  "lifecycle_event_step a event s w =
     (if event_kind event = Event_Controller_Lost then Inl (s, w)
      else if loop_state s = Lifecycle_Waiting_For_Cleanup
              \<and> (event_kind event = Event_Terminal_Interrupt \<or> event_kind event = Event_Stop_Requested)
      then Inl (s, w)
      else if event_kind event = Event_Conversation_Lost then Inr (loop_fail Failure_Conversation s, w)
      else if event_kind event = Event_Cleanup_Failed then Inr (loop_fail Failure_Cleanup s, w)
      else case loop_state s of
        Lifecycle_Waiting_For_Activation \<Rightarrow>
          (if event_kind event = Event_Activated then Inl (s\<lparr>loop_state := Lifecycle_Active\<rparr>, w)
           else if event_kind event = Event_Activation_Failed then
             Inl (activation_failed (event_value event) s, w)
           else Inr (loop_fail Failure_Invalid_Event s, w))
      | Lifecycle_Active \<Rightarrow> active_event a event s w
      | Lifecycle_Waiting_For_Cleanup \<Rightarrow>
          (if event_kind event = Event_Cleanup_Succeeded then Inr (s, w)
           else Inr (loop_fail Failure_Invalid_Event s, w)))"

definition deadline_active :: "lifecycle_loop \<Rightarrow> bool" where
  "deadline_active s \<longleftrightarrow>
     loop_stage s = Stage_Interrupt_Grace \<or> loop_stage s = Stage_Terminate_Grace"

definition lifecycle_pass :: "'w lifecycle_adapter \<Rightarrow> lifecycle_loop \<Rightarrow> 'w \<Rightarrow> 'w pass" where
  "lifecycle_pass a s w =
     (case adapter_wait a (if deadline_active s then Wait_Five_Seconds else Wait_Indefinitely) w of
        (event, w1) \<Rightarrow> lifecycle_event_step a event s w1)"

partial_function (option) lifecycle_loop_run ::
  "'w lifecycle_adapter \<Rightarrow> lifecycle_loop \<Rightarrow> 'w \<Rightarrow> (lifecycle_loop \<times> 'w) option" where
  "lifecycle_loop_run a s w =
     (case lifecycle_pass a s w of
        Inl (s1, w1) \<Rightarrow> lifecycle_loop_run a s1 w1
      | Inr (s1, w1) \<Rightarrow> Some (s1, w1))"

definition empty_outcome :: session_outcome where
  "empty_outcome = \<lparr>outcome_workload = None, infrastructure_failures = []\<rparr>"

definition initial_loop :: lifecycle_loop where
  "initial_loop = \<lparr>loop_outcome = empty_outcome, loop_state = Lifecycle_Waiting_For_Activation,
     loop_stage = Stage_None\<rparr>"

text \<open>The steps after the loop: reap, finalize, publish.\<close>

definition conclude_session ::
  "'w lifecycle_adapter \<Rightarrow> session_outcome \<Rightarrow> 'w \<Rightarrow> session_outcome \<times> 'w" where
  "conclude_session a outcome w =
     (case adapter_reap_launcher a w of
        (reaped, w1) \<Rightarrow>
          (let o1 = (if \<not> reaped then push_failure Failure_Launcher_Reaping outcome else outcome)
           in case adapter_finalize a w1 of
                (finalized, w2) \<Rightarrow>
                  (let o2 = (if \<not> finalized then push_failure Failure_Supervisor_Cleanup o1 else o1)
                   in (o2, adapter_publish_outcome a o2 w2))))"

definition run_session_lifecycle ::
  "'w lifecycle_adapter \<Rightarrow> 'w \<Rightarrow> (session_outcome \<times> 'w) option" where
  "run_session_lifecycle a w =
     (case adapter_begin a w of
        (started, w1) \<Rightarrow>
          if \<not> started then Some (conclude_session a (push_failure Failure_Start empty_outcome) w1)
          else map_option (\<lambda>(s, w2). conclude_session a (loop_outcome s) w2)
                 (lifecycle_loop_run a initial_loop w1))"

section \<open>The calls a session makes\<close>

datatype lifecycle_call =
    Called_Begin bool
  | Called_Wait lifecycle_wait lifecycle_event
  | Called_Request_Stop stop_request bool
  | Called_Reap_Launcher bool
  | Called_Finalize bool
  | Called_Publish session_outcome

text \<open>Any adapter, keeping a list of the calls made to it and of their results.\<close>

definition traced :: "'w lifecycle_adapter \<Rightarrow> ('w \<times> lifecycle_call list) lifecycle_adapter" where
  "traced a =
     \<lparr>adapter_begin = (\<lambda>(w, l). case adapter_begin a w of (b, w') \<Rightarrow> (b, (w', l @ [Called_Begin b]))),
      adapter_wait = (\<lambda>k (w, l). case adapter_wait a k w of (e, w') \<Rightarrow> (e, (w', l @ [Called_Wait k e]))),
      adapter_request_stop = (\<lambda>r (w, l). case adapter_request_stop a r w of
        (b, w') \<Rightarrow> (b, (w', l @ [Called_Request_Stop r b]))),
      adapter_reap_launcher = (\<lambda>(w, l). case adapter_reap_launcher a w of
        (b, w') \<Rightarrow> (b, (w', l @ [Called_Reap_Launcher b]))),
      adapter_finalize = (\<lambda>(w, l). case adapter_finalize a w of
        (b, w') \<Rightarrow> (b, (w', l @ [Called_Finalize b]))),
      adapter_publish_outcome = (\<lambda>out (w, l). (adapter_publish_outcome a out w, l @ [Called_Publish out]))\<rparr>"

lemma traced_simps [simp]:
  "adapter_begin (traced a) (w, l) = (case adapter_begin a w of (b, w') \<Rightarrow> (b, (w', l @ [Called_Begin b])))"
  "adapter_wait (traced a) k (w, l) = (case adapter_wait a k w of (e, w') \<Rightarrow> (e, (w', l @ [Called_Wait k e])))"
  "adapter_request_stop (traced a) r (w, l) =
     (case adapter_request_stop a r w of (b, w') \<Rightarrow> (b, (w', l @ [Called_Request_Stop r b])))"
  "adapter_reap_launcher (traced a) (w, l) =
     (case adapter_reap_launcher a w of (b, w') \<Rightarrow> (b, (w', l @ [Called_Reap_Launcher b])))"
  "adapter_finalize (traced a) (w, l) =
     (case adapter_finalize a w of (b, w') \<Rightarrow> (b, (w', l @ [Called_Finalize b])))"
  "adapter_publish_outcome (traced a) out (w, l) = (adapter_publish_outcome a out w, l @ [Called_Publish out])"
  by (simp_all add: traced_def)

fun stop_of :: "lifecycle_call \<Rightarrow> stop_request list" where
  "stop_of (Called_Request_Stop r _) = [r]"
| "stop_of _ = []"

fun event_of :: "lifecycle_call \<Rightarrow> lifecycle_event list" where
  "event_of (Called_Wait _ e) = [e]"
| "event_of _ = []"

definition stops_of :: "lifecycle_call list \<Rightarrow> stop_request list" where
  "stops_of l = concat (map stop_of l)"

definition events_of :: "lifecycle_call list \<Rightarrow> lifecycle_event list" where
  "events_of l = concat (map event_of l)"

lemma calls_simps [simp]:
  "stops_of [] = []" "stops_of (a @ b) = stops_of a @ stops_of b" "stops_of (c # b) = stop_of c @ stops_of b"
  "events_of [] = []" "events_of (a @ b) = events_of a @ events_of b"
  "events_of (c # b) = event_of c @ events_of b"
  by (simp_all add: stops_of_def events_of_def)

section \<open>Invariants of the loop\<close>

text \<open>
  An invariant of the loop state and the calls made so far, kept by each pass that continues and
  turned into a final assertion by the pass that breaks, holds of the result.
\<close>

lemma lifecycle_loop_rule:
  assumes "lifecycle_loop_run a s w = Some (s', w')" and "I s w"
    and "\<And>s w s1 w1. I s w \<Longrightarrow> lifecycle_pass a s w = Inl (s1, w1) \<Longrightarrow> I s1 w1"
    and "\<And>s w s1 w1. I s w \<Longrightarrow> lifecycle_pass a s w = Inr (s1, w1) \<Longrightarrow> Q s1 w1"
  shows "Q s' w'"
proof -
  let ?P = "\<lambda>b s w r. b = a \<longrightarrow> I s w \<longrightarrow> Q (fst r) (snd r)"
  have "?P a s w (s', w')"
  proof (rule lifecycle_loop_run.raw_induct [where P = ?P, OF _ assms(1)])
    fix run b s w r
    assume hyp: "\<And>b s w r. run b s w = Some r \<Longrightarrow> ?P b s w r"
      and step: "(case lifecycle_pass b s w of Inl (s1, w1) \<Rightarrow> run b s1 w1
        | Inr (s1, w1) \<Rightarrow> Some (s1, w1)) = Some r"
    show "?P b s w r"
    proof (intro impI)
      assume b: "b = a" and I: "I s w"
      show "Q (fst r) (snd r)"
      proof (cases "lifecycle_pass b s w")
        case (Inl p)
        obtain s1 w1 where p: "p = (s1, w1)" by fastforce
        with Inl b have "I s1 w1" using assms(3) [OF I] by simp
        moreover from step Inl p have "run b s1 w1 = Some r" by simp
        ultimately show ?thesis using hyp b by blast
      next
        case (Inr p)
        obtain s1 w1 where p: "p = (s1, w1)" by fastforce
        with Inr step have "r = (s1, w1)" by simp
        with Inr b p assms(4) [OF I] show ?thesis by simp
      qed
    qed
  qed
  with assms(2) show ?thesis by simp
qed

text \<open>
  What holds between two passes: the stop requests so far say which stage the session is in; a
  result is known exactly when the session waits for cleanup (unless the start failed); each
  failure was pushed once per profile-state event; and every wait had the right bound.
\<close>

definition stop_stage_ok :: "lifecycle_loop \<Rightarrow> stop_request list \<Rightarrow> bool" where
  "stop_stage_ok s stops \<longleftrightarrow>
     stops \<in> {[], [Stop_Terminate], [Stop_Kill], [Stop_Terminate, Stop_Kill]}
     \<and> (loop_state s = Lifecycle_Waiting_For_Activation \<longrightarrow> stops = [] \<and> loop_stage s = Stage_None)
     \<and> (loop_state s = Lifecycle_Active \<longrightarrow>
          (case loop_stage s of
             Stage_None \<Rightarrow> stops = []
           | Stage_Interrupt_Grace \<Rightarrow> stops = []
           | Stage_Terminate_Grace \<Rightarrow> stops = [Stop_Terminate]
           | Stage_Kill_Requested \<Rightarrow> stops \<in> {[Stop_Kill], [Stop_Terminate, Stop_Kill]}))
     \<and> (loop_state s = Lifecycle_Waiting_For_Cleanup \<longrightarrow> loop_stage s = Stage_None)"

definition unknown_states :: "lifecycle_event list \<Rightarrow> nat" where
  "unknown_states es = length (filter (\<lambda>e. event_kind e = Event_Profile_State_Unknown) es)"

definition failures_ok :: "lifecycle_loop \<Rightarrow> lifecycle_event list \<Rightarrow> bool" where
  "failures_ok s es \<longleftrightarrow>
     (case loop_state s of
        Lifecycle_Waiting_For_Activation \<Rightarrow> infrastructure_failures (loop_outcome s) = []
          \<and> outcome_workload (loop_outcome s) = None \<and> unknown_states es = 0
      | Lifecycle_Active \<Rightarrow> outcome_workload (loop_outcome s) = None
          \<and> infrastructure_failures (loop_outcome s) = replicate (unknown_states es) Failure_Profile_State
      | Lifecycle_Waiting_For_Cleanup \<Rightarrow>
          (infrastructure_failures (loop_outcome s) = [Failure_Start]
             \<and> outcome_workload (loop_outcome s) = None)
          \<or> (outcome_workload (loop_outcome s) \<noteq> None
             \<and> infrastructure_failures (loop_outcome s) = replicate (unknown_states es) Failure_Profile_State))"

definition workload_ok :: "session_outcome \<Rightarrow> lifecycle_event list \<Rightarrow> bool" where
  "workload_ok out es \<longleftrightarrow>
     (case outcome_workload out of
        None \<Rightarrow> True
      | Some r \<Rightarrow> \<exists>e \<in> set es. event_value e = result_value r
          \<and> (case result_kind r of
               Result_Start_Failure \<Rightarrow>
                 event_kind e = Event_Activation_Failed \<and> event_value e \<in> {126, 127}
             | Result_Exited \<Rightarrow> event_kind e = Event_Workload_Exited
             | Result_Signaled \<Rightarrow> event_kind e = Event_Workload_Signaled))"

text \<open>What the loop leaves behind when it breaks.\<close>

definition loop_failures :: "infrastructure_failure set" where
  "loop_failures = {Failure_Start, Failure_Conversation, Failure_Profile_State,
     Failure_Stop_Request, Failure_Cleanup, Failure_Invalid_Event}"

definition loop_result_ok :: "lifecycle_loop \<Rightarrow> lifecycle_event list \<Rightarrow> bool" where
  "loop_result_ok s es \<longleftrightarrow>
     set (infrastructure_failures (loop_outcome s)) \<subseteq> loop_failures
     \<and> (unknown_states es \<le> 1 \<longrightarrow> distinct (infrastructure_failures (loop_outcome s)))
     \<and> (infrastructure_failures (loop_outcome s) = [] \<longrightarrow>
          outcome_workload (loop_outcome s) \<noteq> None
          \<and> es \<noteq> [] \<and> event_kind (last es) = Event_Cleanup_Succeeded)"

lemmas lifecycle_step_defs = lifecycle_event_step_def active_event_def stop_or_break_def
  loop_fail_def push_failure_def finish_workload_def activation_failed_def Let_def

lemma unknown_states_simps [simp]:
  "unknown_states [] = 0"
  "unknown_states (es @ [e]) =
     (if event_kind e = Event_Profile_State_Unknown then Suc (unknown_states es) else unknown_states es)"
  by (simp_all add: unknown_states_def)

lemma stop_stage_step:
  assumes "stop_stage_ok s (stops_of l)"
    and "lifecycle_event_step (traced a) e s (w, l) = Inl (s1, (w1, l1))"
  shows "stop_stage_ok s1 (stops_of l1)"
  using assms
  by (cases "loop_state s"; cases "loop_stage s"; cases "event_kind e")
    (auto simp: lifecycle_step_defs stop_stage_ok_def split: if_splits prod.splits)

lemma stop_stage_break:
  assumes "stop_stage_ok s (stops_of l)"
    and "lifecycle_event_step (traced a) e s (w, l) = Inr (s1, (w1, l1))"
  shows "stops_of l1 \<in> {[], [Stop_Terminate], [Stop_Kill], [Stop_Terminate, Stop_Kill]}"
  using assms
  by (cases "loop_state s"; cases "loop_stage s"; cases "event_kind e")
    (auto simp: lifecycle_step_defs stop_stage_ok_def split: if_splits prod.splits)

lemma failures_step:
  assumes "failures_ok s es" and "lifecycle_event_step a e s w = Inl (s1, w1)"
  shows "failures_ok s1 (es @ [e])"
  using assms
  by (cases "loop_state s"; cases "loop_stage s"; cases "event_kind e")
    (auto simp: lifecycle_step_defs failures_ok_def replicate_append_same
      split: if_splits prod.splits)

lemma failures_break:
  assumes "failures_ok s es" and "lifecycle_event_step a e s w = Inr (s1, w1)"
  shows "loop_result_ok s1 (es @ [e])"
proof -
  have r: "distinct (replicate n x) \<longleftrightarrow> n \<le> 1" for n :: nat and x :: infrastructure_failure
    by (cases n; cases "n - 1") auto
  show ?thesis using assms
    by (cases "loop_state s"; cases "loop_stage s"; cases "event_kind e")
      (auto simp: lifecycle_step_defs failures_ok_def loop_result_ok_def loop_failures_def r
        split: if_splits prod.splits)
qed

lemma workload_step:
  assumes "workload_ok (loop_outcome s) es"
    and "lifecycle_event_step a e s w = Inl (s1, w1) \<or> lifecycle_event_step a e s w = Inr (s1, w1)"
  shows "workload_ok (loop_outcome s1) (es @ [e])"
proof -
  have "loop_outcome s1 = loop_outcome s \<or> (\<exists>f. loop_outcome s1 = push_failure f (loop_outcome s))
    \<or> (\<exists>f. loop_outcome s1 = push_failure f (push_failure Failure_Profile_State (loop_outcome s)))
    \<or> (\<exists>r. outcome_workload (loop_outcome s1) = Some r \<and> event_value e = result_value r
          \<and> (case result_kind r of
               Result_Start_Failure \<Rightarrow>
                 event_kind e = Event_Activation_Failed \<and> event_value e \<in> {126, 127}
             | Result_Exited \<Rightarrow> event_kind e = Event_Workload_Exited
             | Result_Signaled \<Rightarrow> event_kind e = Event_Workload_Signaled))"
    using assms(2)
    by (cases "loop_state s"; cases "loop_stage s"; cases "event_kind e")
      (auto simp: lifecycle_event_step_def active_event_def stop_or_break_def loop_fail_def
        finish_workload_def activation_failed_def Let_def split: if_splits prod.splits)
  with assms(1) show ?thesis
    by (auto simp: workload_ok_def push_failure_def split: option.splits)
qed

end
