(* ===== verification/Wire.thy ===== *)
theory Wire
  imports Cpp_Text
begin

text \<open>
  Interfaces that several wire formats share: a codec whose decoder undoes its encoder, a
  canonical codec (each value has exactly one accepted text), and a receiver that cuts a byte
  stream into lines of bounded length and therefore does not depend on how the stream is
  split into reads.
\<close>

section \<open>Codecs\<close>

locale wire_codec =
  fixes encode :: "'a \<Rightarrow> 't option"
    and decode :: "'t \<Rightarrow> 'a option"
  assumes decode_encode: "encode x = Some t \<Longrightarrow> decode t = Some x"
begin

lemma encode_inject: "encode x = Some t \<Longrightarrow> encode y = Some t \<Longrightarrow> x = y"
  by (metis decode_encode option.inject)

lemma encode_separates: "x \<noteq> y \<Longrightarrow> encode x = Some s \<Longrightarrow> encode y = Some t \<Longrightarrow> s \<noteq> t"
  using encode_inject by blast

lemma encoded_decodes: "encode x \<noteq> None \<Longrightarrow> Option.bind (encode x) decode = Some x"
  using decode_encode by auto

end

locale canonical_codec = wire_codec +
  assumes encode_decode: "decode t = Some x \<Longrightarrow> encode x = Some t"
begin

lemma decode_iff: "decode t = Some x \<longleftrightarrow> encode x = Some t"
  using decode_encode encode_decode by blast

lemma decode_inject: "decode s = Some x \<Longrightarrow> decode t = Some x \<Longrightarrow> s = t"
  by (metis encode_decode option.inject)

lemma decode_None_iff: "decode t = None \<longleftrightarrow> (\<forall>x. encode x \<noteq> Some t)"
proof -
  have "decode t \<noteq> None \<longleftrightarrow> (\<exists>x. encode x = Some t)"
    by (auto simp: decode_iff)
  then show ?thesis by blast
qed

end

section \<open>Lines\<close>

text \<open>Terminated lines, and the lines of a text in which every line is terminated.\<close>

definition unlines :: "string list \<Rightarrow> string" where
  "unlines ls = concat (map (\<lambda>l. l @ [newline]) ls)"

lemma unlines_simps [simp]:
  "unlines [] = []" "unlines (l # ls) = l @ newline # unlines ls"
  "unlines (as @ bs) = unlines as @ unlines bs"
  by (simp_all add: unlines_def)

definition one_line :: "string \<Rightarrow> bool" where
  "one_line s \<longleftrightarrow> newline \<notin> set s"

lemma one_line_append [simp]: "one_line (a @ b) \<longleftrightarrow> one_line a \<and> one_line b"
  by (simp add: one_line_def)

lemma one_line_Nil [simp]: "one_line []"
  by (simp add: one_line_def)

lemma one_line_Cons [simp]: "one_line (c # s) \<longleftrightarrow> c \<noteq> newline \<and> one_line s"
  by (auto simp: one_line_def)

lemma one_line_to_string [simp]: "one_line (to_string_nat n)"
  by (simp add: one_line_def)

lemma find_newline_one_line [simp]: "one_line l \<Longrightarrow> find_char newline (l @ newline # r) = Some (length l)"
  by (simp add: one_line_def)

lemma find_newline_None_iff: "find_char newline s = None \<longleftrightarrow> one_line s"
  by (simp add: find_char_None_iff one_line_def)

lemma unlines_inject:
  "list_all one_line as \<Longrightarrow> list_all one_line bs \<Longrightarrow> unlines as = unlines bs \<Longrightarrow> as = bs"
proof (induction as arbitrary: bs)
  case Nil
  then show ?case by (cases bs) auto
next
  case (Cons a as)
  then obtain b bs' where bs: "bs = b # bs'" by (cases bs) auto
  with Cons.prems have eq: "a @ newline # unlines as = b @ newline # unlines bs'"
    and l: "one_line a" "one_line b" by simp_all
  from arg_cong [OF eq, of "find_char newline"] l have "length a = length b" by simp
  with eq have "a = b" "unlines as = unlines bs'" by auto
  with Cons bs show ?case by simp
qed

section \<open>Receivers of lines\<close>

text \<open>
  The contract of a receiver that keeps unread bytes in a buffer: its loop takes complete
  lines off the buffer until none is left or the receiver is dead; a line, or an incomplete
  line, longer than the limit kills it. What is still in the buffer plays no part in the
  handling of a line.
\<close>

locale line_framing =
  fixes buffer_of :: "'s \<Rightarrow> string"
    and set_buffer :: "string \<Rightarrow> 's \<Rightarrow> 's"
    and dead :: "'s \<Rightarrow> bool"
    and on_line :: "'s \<Rightarrow> string \<Rightarrow> 's \<times> 'e list"
    and overflow :: "'s \<Rightarrow> 's \<times> 'e list"
    and run :: "'s \<Rightarrow> 's \<times> 'e list"
    and receive :: "'s \<Rightarrow> string \<Rightarrow> 's \<times> 'e list"
    and limit :: nat
  assumes buffer_set [simp]: "buffer_of (set_buffer b s) = b"
    and set_set [simp]: "set_buffer b (set_buffer c s) = set_buffer b s"
    and set_buffer_same [simp]: "set_buffer (buffer_of s) s = s"
    and dead_set [simp]: "dead (set_buffer b s) = dead s"
    and overflow_dead: "dead (fst (overflow s))"
    and overflow_set: "overflow (set_buffer b s) = overflow s"
    and on_line_alive: "\<not> dead s \<Longrightarrow> on_line s l = (s1, e) \<Longrightarrow> \<not> dead s1 \<Longrightarrow>
          buffer_of s1 = buffer_of s \<and> on_line (set_buffer b s) l = (set_buffer b s1, e)"
    and on_line_dead: "\<not> dead s \<Longrightarrow> on_line s l = (s1, e) \<Longrightarrow> dead s1 \<Longrightarrow>
          on_line (set_buffer b s) l = (s1, e)"
    and run_step: "\<not> dead s \<Longrightarrow> run s =
          (case find_char newline (buffer_of s) of
             None \<Rightarrow> if limit < length (buffer_of s) then overflow s else (s, [])
           | Some n \<Rightarrow>
               if limit < n then overflow s
               else (case on_line (set_buffer (drop (Suc n) (buffer_of s)) s) (take n (buffer_of s)) of
                       (s1, e1) \<Rightarrow>
                         if dead s1 then (s1, e1)
                         else (case run s1 of (s2, e2) \<Rightarrow> (s2, e1 @ e2))))"
    and receive_eq: "receive s bytes =
          (if dead s then (s, []) else run (set_buffer (buffer_of s @ bytes) s))"
begin

lemma receive_dead: "dead s \<Longrightarrow> receive s bytes = (s, [])"
  by (simp add: receive_eq)

text \<open>More bytes may as well arrive after the loop has run.\<close>

lemma run_append:
  assumes "\<not> dead s"
  shows "run (set_buffer (buffer_of s @ b) s) =
    (case run s of (s1, e1) \<Rightarrow> (case receive s1 b of (s2, e2) \<Rightarrow> (s2, e1 @ e2)))"
  using assms
proof (induction "length (buffer_of s)" arbitrary: s rule: less_induct)
  case less
  let ?B = "buffer_of s" and ?s' = "set_buffer (buffer_of s @ b) s"
  have alive: "\<not> dead ?s'" using less.prems by simp
  show ?case
  proof (cases "find_char newline ?B")
    case None
    show ?thesis
    proof (cases "limit < length ?B")
      case True
      then have "run ?s' = overflow s"
        using None by (auto simp: run_step [OF alive] find_char_append overflow_set
            split: option.splits)
      moreover have "run s = overflow s"
        using True None by (simp add: run_step [OF less.prems])
      moreover obtain d e where "overflow s = (d, e)" "dead d"
        using overflow_dead [of s] by (cases "overflow s") auto
      ultimately show ?thesis by (simp add: receive_dead)
    next
      case False
      then have "run s = (s, [])" using None by (simp add: run_step [OF less.prems])
      then show ?thesis using less.prems by (simp add: receive_eq split: prod.splits)
    qed
  next
    case (Some n)
    have n: "n < length ?B" using Some by (rule find_char_Some_less)
    then have parts: "n - length ?B = 0" "Suc n - length ?B = 0" by simp_all
    show ?thesis
    proof (cases "limit < n")
      case True
      then have "run ?s' = overflow s"
        using Some by (simp add: run_step [OF alive] find_char_append overflow_set)
      moreover have "run s = overflow s"
        using True Some by (simp add: run_step [OF less.prems])
      moreover obtain d e where "overflow s = (d, e)" "dead d"
        using overflow_dead [of s] by (cases "overflow s") auto
      ultimately show ?thesis by (simp add: receive_dead)
    next
      case False
      define t where "t = set_buffer (drop (Suc n) ?B) s"
      obtain s1 e1 where line: "on_line t (take n ?B) = (s1, e1)" by fastforce
      have t: "\<not> dead t" "buffer_of t = drop (Suc n) ?B" using less.prems by (simp_all add: t_def)
      have t': "set_buffer (drop (Suc n) ?B @ b) s = set_buffer (buffer_of t @ b) t"
        by (simp add: t_def)
      show ?thesis
      proof (cases "dead s1")
        case True
        have "run s = (s1, e1)"
          using Some False line True by (simp add: run_step [OF less.prems] t_def)
        moreover have "run ?s' = (s1, e1)"
          using Some False on_line_dead [OF t(1) line True] True
          by (simp add: run_step [OF alive] find_char_append parts t')
        ultimately show ?thesis using True by (simp add: receive_dead)
      next
        case alive1: False
        note keep = on_line_alive [OF t(1) line alive1]
        have len: "length (buffer_of s1) < length ?B" using keep n t(2) by simp
        have "run s = (case run s1 of (s2, e2) \<Rightarrow> (s2, e1 @ e2))"
          using Some False line alive1 by (simp add: run_step [OF less.prems] t_def)
        moreover have "run ?s' =
            (case run (set_buffer (buffer_of s1 @ b) s1) of (s2, e2) \<Rightarrow> (s2, e1 @ e2))"
          using Some False keep [of "buffer_of t @ b"] alive1
          by (simp add: run_step [OF alive] find_char_append parts t')
        ultimately show ?thesis
          using less.hyps [OF len alive1] by (simp split: prod.splits)
      qed
    qed
  qed
qed

text \<open>The stream, not the reads it arrives in, decides what the receiver does.\<close>

lemma receive_append:
  "receive s (a @ b) =
     (case receive s a of (s1, e1) \<Rightarrow> (case receive s1 b of (s2, e2) \<Rightarrow> (s2, e1 @ e2)))"
proof (cases "dead s")
  case True
  then show ?thesis by (simp add: receive_dead)
next
  case False
  then show ?thesis
    using run_append [of "set_buffer (buffer_of s @ a) s" b] by (simp add: receive_eq)
qed

text \<open>
  An invariant of the state and of everything the receiver has said so far is kept by a read
  when it is kept by the handling of one line.
\<close>

lemma run_invariant:
  assumes step: "\<And>s l s1 e tr. \<not> dead s \<Longrightarrow> I s tr \<Longrightarrow> on_line s l = (s1, e) \<Longrightarrow> I s1 (tr @ e)"
    and over: "\<And>s s1 e tr. \<not> dead s \<Longrightarrow> I s tr \<Longrightarrow> overflow s = (s1, e) \<Longrightarrow> I s1 (tr @ e)"
    and buffer: "\<And>s b tr. I (set_buffer b s) tr = I s tr"
  shows "\<not> dead s \<Longrightarrow> I s tr \<Longrightarrow> run s = (s', es) \<Longrightarrow> I s' (tr @ es)"
proof (induction "length (buffer_of s)" arbitrary: s s' es tr rule: less_induct)
  case less
  show ?case
  proof (cases "find_char newline (buffer_of s)")
    case None
    with less.prems over [OF less.prems(1,2)] show ?thesis
      by (auto simp: run_step [OF less.prems(1)] split: if_splits)
  next
    case (Some n)
    define t where "t = set_buffer (drop (Suc n) (buffer_of s)) s"
    have t: "\<not> dead t" "I t tr" using less.prems by (simp_all add: t_def buffer)
    obtain s1 e1 where line: "on_line t (take n (buffer_of s)) = (s1, e1)" by fastforce
    have I1: "I s1 (tr @ e1)" by (rule step [OF t line])
    consider (over) "limit < n" | (dead) "\<not> limit < n" "dead s1" | (go) "\<not> limit < n" "\<not> dead s1"
      by blast
    then show ?thesis
    proof cases
      case over
      with less.prems(3) Some assms(2) [OF less.prems(1,2)] show ?thesis
        by (simp add: run_step [OF less.prems(1)])
    next
      case dead
      with less.prems(3) Some line I1 show ?thesis
        by (simp add: run_step [OF less.prems(1)] flip: t_def)
    next
      case go
      obtain s2 e2 where r: "run s1 = (s2, e2)" by fastforce
      have "length (buffer_of s1) < length (buffer_of s)"
        using on_line_alive [OF t(1) line go(2)] find_char_Some_less [OF Some] by (simp add: t_def)
      from less.hyps [OF this go(2) I1 r] less.prems(3) Some line go r show ?thesis
        by (simp add: run_step [OF less.prems(1)] flip: t_def)
    qed
  qed
qed

lemma receive_invariant:
  assumes step: "\<And>s l s1 e tr. \<not> dead s \<Longrightarrow> I s tr \<Longrightarrow> on_line s l = (s1, e) \<Longrightarrow> I s1 (tr @ e)"
    and over: "\<And>s s1 e tr. \<not> dead s \<Longrightarrow> I s tr \<Longrightarrow> overflow s = (s1, e) \<Longrightarrow> I s1 (tr @ e)"
    and buffer: "\<And>s b tr. I (set_buffer b s) tr = I s tr"
    and start: "I s tr" and "receive s b = (s', es)"
  shows "I s' (tr @ es)"
proof (cases "dead s")
  case True
  with assms(4,5) show ?thesis by (simp add: receive_dead)
next
  case False
  let ?t = "set_buffer (buffer_of s @ b) s"
  have "\<not> dead ?t" "I ?t tr" using False start by (simp_all add: buffer)
  with run_invariant [of I ?t tr s' es, OF step over buffer] False assms(5) show ?thesis
    by (simp add: receive_eq)
qed

end

end
