(* ===== verification/Session_Outcome.thy ===== *)
theory Session_Outcome
  imports Session_Lifecycle Wire
begin

text \<open>
  \<open>src/controller_session_outcome.cpp\<close>, \<open>src/session_presentation.cpp\<close>: the block of text that
  carries the outcome of a session to an attached controller, its incremental parser, and the
  exit status of the session. The enumeration of infrastructure failures holds its enumerators
  here: the lifecycle and the parser produce no other value.
\<close>

section \<open>The wire form of a failure\<close>

datatype outcome_protocol_error =
    Outcome_Invalid_Structure
  | Outcome_Invalid_Value
  | Outcome_Impossible
  | Outcome_Too_Large
  | Outcome_Incomplete_Input
  | Outcome_Trailing_Data

datatype outcome_parse_result =
    Incomplete_Outcome
  | Complete_Outcome session_outcome
  | Broken_Outcome outcome_protocol_error

definition maximum_controller_session_outcome_size :: nat where
  "maximum_controller_session_outcome_size = 1024"

definition failure_wire_mappings :: "(infrastructure_failure \<times> string) list" where
  "failure_wire_mappings =
     [(Failure_Start, ''STARTUP''),
      (Failure_Conversation, ''HELPER_CONVERSATION''),
      (Failure_Profile_State, ''PROFILE_STATE''),
      (Failure_Stop_Request, ''STOP_REQUEST''),
      (Failure_Cleanup, ''PRIVILEGED_CLEANUP''),
      (Failure_Launcher_Reaping, ''LAUNCHER_REAPING''),
      (Failure_Supervisor_Cleanup, ''SUPERVISOR_CLEANUP''),
      (Failure_Invalid_Event, ''INVALID_LIFECYCLE_EVENT'')]"

definition parse_bounded_decimal :: "string \<Rightarrow> int \<Rightarrow> int \<Rightarrow> int option" where
  "parse_bounded_decimal token minimum maximum =
     (case from_chars_signed int_min int_max token of
        Parsed value rest \<Rightarrow>
          (if token = [] \<or> rest \<noteq> [] \<or> value < minimum \<or> maximum < value then None else Some value)
      | _ \<Rightarrow> None)"

definition workload_exit_prefix :: string where "workload_exit_prefix = ''WORKLOAD EXIT ''"
definition workload_signal_prefix :: string where "workload_signal_prefix = ''WORKLOAD SIGNAL ''"
definition failure_prefix :: string where "failure_prefix = ''FAILURE ''"

definition parse_workload_line :: "string \<Rightarrow> outcome_protocol_error + workload_result option" where
  "parse_workload_line line =
     (if line = ''WORKLOAD UNKNOWN'' then Inr None
      else if starts_with workload_exit_prefix line then
        (case parse_bounded_decimal (drop (length workload_exit_prefix) line) 0 255 of
           None \<Rightarrow> Inl Outcome_Invalid_Value
         | Some v \<Rightarrow> Inr (Some \<lparr>result_kind = Result_Exited, result_value = v\<rparr>))
      else if starts_with workload_signal_prefix line then
        (case parse_bounded_decimal (drop (length workload_signal_prefix) line) 1 127 of
           None \<Rightarrow> Inl Outcome_Invalid_Value
         | Some v \<Rightarrow> Inr (Some \<lparr>result_kind = Result_Signaled, result_value = v\<rparr>))
      else Inl Outcome_Invalid_Structure)"

definition parse_failure_code :: "string \<Rightarrow> infrastructure_failure option" where
  "parse_failure_code code =
     map_option fst (find (\<lambda>m. snd m = code) failure_wire_mappings)"

text \<open>The position of a failure in the table, the index into the array of failures seen.\<close>

fun mapping_position :: "infrastructure_failure \<Rightarrow> (infrastructure_failure \<times> string) list \<Rightarrow> nat option" where
  "mapping_position failure [] = None"
| "mapping_position failure (m # ms) =
     (if fst m = failure then Some 0 else map_option Suc (mapping_position failure ms))"

definition failure_mapping :: "infrastructure_failure \<Rightarrow> nat option" where
  "failure_mapping failure = mapping_position failure failure_wire_mappings"

section \<open>Reading the block\<close>

text \<open>\<open>LineReader\<close>, as the part of the input that is still unread.\<close>

definition next_line :: "string \<Rightarrow> (string \<times> string) option" where
  "next_line input =
     (case find_char newline input of
        None \<Rightarrow> None
      | Some n \<Rightarrow> Some (substr input 0 n, drop (n + 1) input))"

lemma next_line_shorter: "next_line s = Some (l, r) \<Longrightarrow> length r < length s"
  by (auto simp: next_line_def dest: find_char_Some_less split: option.splits)

function parse_failures ::
  "bool \<Rightarrow> workload_result option \<Rightarrow> bool list \<Rightarrow> infrastructure_failure list \<Rightarrow> string
     \<Rightarrow> outcome_parse_result" where
  "parse_failures succeeded workload seen failures input =
     (case next_line input of
        None \<Rightarrow> Incomplete_Outcome
      | Some (line, rest) \<Rightarrow>
          (if line = ''SESSION_OUTCOME_END'' then
             (if rest \<noteq> [] then Broken_Outcome Outcome_Trailing_Data
              else if succeeded \<and> failures \<noteq> [] then Broken_Outcome Outcome_Impossible
              else if \<not> succeeded \<and> failures = [] then Broken_Outcome Outcome_Impossible
              else Complete_Outcome
                \<lparr>outcome_workload = workload, infrastructure_failures = failures\<rparr>)
           else if succeeded \<or> \<not> starts_with failure_prefix line then
             Broken_Outcome Outcome_Invalid_Structure
           else case parse_failure_code (drop (length failure_prefix) line) of
             None \<Rightarrow> Broken_Outcome Outcome_Invalid_Structure
           | Some failure \<Rightarrow>
               (case failure_mapping failure of
                  None \<Rightarrow> Broken_Outcome Outcome_Invalid_Structure
                | Some index \<Rightarrow>
                    (if seen ! index then Broken_Outcome Outcome_Invalid_Structure
                     else parse_failures succeeded workload (seen[index := True])
                            (failures @ [failure]) rest))))"
  by pat_completeness auto
termination
  by (relation "measure (\<lambda>(_, _, _, _, input). length input)") (auto dest: next_line_shorter)

declare parse_failures.simps [simp del]

definition no_failure_seen :: "bool list" where
  "no_failure_seen = replicate (length failure_wire_mappings) False"

definition parse_block :: "string \<Rightarrow> outcome_parse_result" where
  "parse_block input =
     (case next_line input of
        None \<Rightarrow> Incomplete_Outcome
      | Some (begin_line, r1) \<Rightarrow>
          (if begin_line \<noteq> ''SESSION_OUTCOME_BEGIN'' then Broken_Outcome Outcome_Invalid_Structure
           else case next_line r1 of
             None \<Rightarrow> Incomplete_Outcome
           | Some (workload_line, r2) \<Rightarrow>
               (case parse_workload_line workload_line of
                  Inl e \<Rightarrow> Broken_Outcome e
                | Inr workload \<Rightarrow>
                    (case next_line r2 of
                       None \<Rightarrow> Incomplete_Outcome
                     | Some (infrastructure_line, r3) \<Rightarrow>
                         (let succeeded = (infrastructure_line = ''INFRASTRUCTURE OK'')
                          in if \<not> succeeded \<and> infrastructure_line \<noteq> ''INFRASTRUCTURE FAILED'' then
                               Broken_Outcome Outcome_Invalid_Structure
                             else if succeeded \<and> workload = None then
                               Broken_Outcome Outcome_Impossible
                             else parse_failures succeeded workload no_failure_seen [] r3)))))"

record outcome_parser =
  parser_buffer :: string
  parser_completed :: bool

definition new_outcome_parser :: outcome_parser where
  "new_outcome_parser = \<lparr>parser_buffer = [], parser_completed = False\<rparr>"

fun is_complete :: "outcome_parse_result \<Rightarrow> bool" where
  "is_complete (Complete_Outcome _) = True"
| "is_complete _ = False"

fun is_broken :: "outcome_parse_result \<Rightarrow> bool" where
  "is_broken (Broken_Outcome _) = True"
| "is_broken _ = False"

definition outcome_receive :: "outcome_parser \<Rightarrow> string \<Rightarrow> outcome_parser \<times> outcome_parse_result" where
  "outcome_receive p bytes =
     (if parser_completed p then (p, Broken_Outcome Outcome_Trailing_Data)
      else if maximum_controller_session_outcome_size < length (parser_buffer p) + length bytes then
        (p, Broken_Outcome Outcome_Too_Large)
      else
        (let buffer = parser_buffer p @ bytes; result = parse_block buffer
         in (p\<lparr>parser_buffer := buffer, parser_completed := is_complete result\<rparr>, result)))"

definition outcome_finish :: "outcome_parser \<Rightarrow> outcome_parse_result" where
  "outcome_finish p =
     (if parser_completed p then Broken_Outcome Outcome_Trailing_Data
      else (let result = parse_block (parser_buffer p)
            in if is_broken result then result else Broken_Outcome Outcome_Incomplete_Input))"

section \<open>Writing the block\<close>

definition valid_workload_for_wire :: "workload_result option \<Rightarrow> bool" where
  "valid_workload_for_wire workload =
     (case workload of
        None \<Rightarrow> True
      | Some w \<Rightarrow>
          (if result_kind w = Result_Exited then 0 \<le> result_value w \<and> result_value w \<le> 255
           else if result_kind w = Result_Signaled then 1 \<le> result_value w \<and> result_value w \<le> 127
           else False))"

fun check_failures :: "bool list \<Rightarrow> infrastructure_failure list \<Rightarrow> bool" where
  "check_failures seen [] = True"
| "check_failures seen (f # fs) =
     (case failure_mapping f of
        None \<Rightarrow> False
      | Some index \<Rightarrow> \<not> seen ! index \<and> check_failures (seen[index := True]) fs)"

fun failure_lines :: "infrastructure_failure list \<Rightarrow> string option" where
  "failure_lines [] = Some []"
| "failure_lines (f # fs) =
     (case failure_mapping f of
        None \<Rightarrow> None
      | Some index \<Rightarrow>
          map_option (\<lambda>t. ''FAILURE '' @ snd (failure_wire_mappings ! index) @ [newline] @ t)
            (failure_lines fs))"

definition workload_line :: "workload_result option \<Rightarrow> string" where
  "workload_line workload =
     (case workload of
        None \<Rightarrow> ''WORKLOAD UNKNOWN'' @ [newline]
      | Some w \<Rightarrow>
          (if result_kind w = Result_Exited
           then ''WORKLOAD EXIT '' @ to_string_int (result_value w) @ [newline]
           else ''WORKLOAD SIGNAL '' @ to_string_int (result_value w) @ [newline]))"

definition serialize_controller_session_outcome ::
  "session_outcome \<Rightarrow> outcome_protocol_error + string" where
  "serialize_controller_session_outcome outcome =
     (if \<not> valid_workload_for_wire (outcome_workload outcome)
         \<or> (infrastructure_succeeded outcome \<and> outcome_workload outcome = None) then
        Inl Outcome_Impossible
      else if \<not> check_failures no_failure_seen (infrastructure_failures outcome) then
        Inl Outcome_Impossible
      else case failure_lines (infrastructure_failures outcome) of
        None \<Rightarrow> Inl Outcome_Impossible
      | Some failures \<Rightarrow>
          (let block = ''SESSION_OUTCOME_BEGIN'' @ [newline] @ workload_line (outcome_workload outcome)
                 @ (if infrastructure_succeeded outcome then ''INFRASTRUCTURE OK''
                    else ''INFRASTRUCTURE FAILED'') @ [newline]
                 @ failures @ ''SESSION_OUTCOME_END'' @ [newline]
           in if maximum_controller_session_outcome_size < length block then Inl Outcome_Too_Large
              else Inr block))"

section \<open>Presentation\<close>

definition workload_exit_status :: "workload_result \<Rightarrow> int" where
  "workload_exit_status r =
     (if result_kind r = Result_Signaled then 128 + result_value r else result_value r)"

fun infrastructure_failure_name :: "infrastructure_failure \<Rightarrow> string" where
  "infrastructure_failure_name Failure_Start = ''startup''"
| "infrastructure_failure_name Failure_Conversation = ''helper conversation''"
| "infrastructure_failure_name Failure_Profile_State = ''unknown network profile state''"
| "infrastructure_failure_name Failure_Stop_Request = ''Workload stop request''"
| "infrastructure_failure_name Failure_Cleanup = ''privileged cleanup''"
| "infrastructure_failure_name Failure_Launcher_Reaping = ''helper launcher reaping''"
| "infrastructure_failure_name Failure_Supervisor_Cleanup = ''Supervisor cleanup''"
| "infrastructure_failure_name Failure_Invalid_Event = ''invalid lifecycle event''"

definition session_exit_status :: "session_outcome \<Rightarrow> int" where
  "session_exit_status outcome =
     (if \<not> infrastructure_succeeded outcome then 125
      else case outcome_workload outcome of
        None \<Rightarrow> 125
      | Some w \<Rightarrow> workload_exit_status w)"

fun join_names :: "infrastructure_failure list \<Rightarrow> string" where
  "join_names [] = []"
| "join_names [f] = infrastructure_failure_name f"
| "join_names (f # g # fs) = infrastructure_failure_name f @ '', '' @ join_names (g # fs)"

text \<open>The text written to the error stream; \<open>is_terminal\<close> is the answer of \<open>isatty\<close>.\<close>

definition report_session_outcome :: "bool \<Rightarrow> session_outcome \<Rightarrow> string" where
  "report_session_outcome is_terminal outcome =
     (if \<not> infrastructure_succeeded outcome then
        ''NetLagLab: Session infrastructure failed: '' @ join_names (infrastructure_failures outcome)
        @ (case outcome_workload outcome of
             None \<Rightarrow> []
           | Some w \<Rightarrow> ''; Workload result was '' @ to_string_int (workload_exit_status w))
        @ [newline]
      else if \<not> is_terminal then []
      else case outcome_workload outcome of
        None \<Rightarrow> []
      | Some w \<Rightarrow>
          (if result_kind w = Result_Signaled then
             ''NetLagLab: Session ended; Workload terminated by signal ''
             @ to_string_int (result_value w) @ [newline]
           else if result_kind w = Result_Exited then
             ''NetLagLab: Session ended; Workload exit code: ''
             @ to_string_int (result_value w) @ [newline]
           else []))"

text \<open>The exit status and the texts for the output and the error stream.\<close>

definition report_attached_session_outcome :: "session_outcome \<Rightarrow> int \<times> string \<times> string" where
  "report_attached_session_outcome outcome =
     (if infrastructure_succeeded outcome then
        (case outcome_workload outcome of
           None \<Rightarrow> (1, [], ''NetLagLab: invalid Session Outcome.'' @ [newline])
         | Some w \<Rightarrow>
             (if result_kind w = Result_Exited then
                (0, ''Session ended; Workload exit code: '' @ to_string_int (result_value w)
                    @ ''.'' @ [newline], [])
              else
                (0, ''Session ended; Workload terminated by signal ''
                    @ to_string_int (result_value w) @ ''.'' @ [newline], [])))
      else
        (1, [], ''NetLagLab: Session infrastructure failed: ''
           @ join_names (infrastructure_failures outcome)
           @ (case outcome_workload outcome of
                None \<Rightarrow> ''; Workload result is unknown.'' @ [newline]
              | Some w \<Rightarrow>
                  (if result_kind w = Result_Signaled then
                     ''; Workload terminated by signal '' @ to_string_int (result_value w)
                     @ ''.'' @ [newline]
                   else ''; Workload exit code: '' @ to_string_int (result_value w)
                     @ ''.'' @ [newline]))))"

definition report_legacy_attached_session_outcome :: "string \<Rightarrow> (int \<times> string \<times> string) option" where
  "report_legacy_attached_session_outcome line =
     (if line = ''SESSION_ENDED'' then Some (0, ''Session ended.'' @ [newline], [])
      else if line = ''SESSION_FAILED'' then
        Some (1, [], ''NetLagLab: session failed'' @ [newline])
      else None)"

end
