(* ===== verification/Outcome_Laws.thy ===== *)
theory Outcome_Laws
  imports Session_Outcome
begin

text \<open>
  The outcome block reaches an attached controller whole: which outcomes can be written, that
  every written block is read back however it is cut into reads, and what the parser accepts.
\<close>

section \<open>Lines\<close>

lemma next_line_line [simp]: "newline \<notin> set l \<Longrightarrow> next_line (l @ newline # r) = Some (l, r)"
  by (simp add: next_line_def substr_def)

lemma next_line_append: "next_line a = Some (l, r) \<Longrightarrow> next_line (a @ b) = Some (l, r @ b)"
  by (auto simp: next_line_def substr_def find_char_append dest: find_char_Some_less
      split: option.splits)

section \<open>Failures\<close>

definition position :: "infrastructure_failure \<Rightarrow> nat" where
  "position f = (case f of
     Failure_Start \<Rightarrow> 0 | Failure_Conversation \<Rightarrow> 1 | Failure_Profile_State \<Rightarrow> 2
   | Failure_Stop_Request \<Rightarrow> 3 | Failure_Cleanup \<Rightarrow> 4 | Failure_Launcher_Reaping \<Rightarrow> 5
   | Failure_Supervisor_Cleanup \<Rightarrow> 6 | Failure_Invalid_Event \<Rightarrow> 7)"

definition failure_code :: "infrastructure_failure \<Rightarrow> string" where
  "failure_code f = snd (failure_wire_mappings ! position f)"

lemma failure_mapping_eq [simp]: "failure_mapping f = Some (position f)"
  by (cases f) (simp_all add: failure_mapping_def failure_wire_mappings_def position_def)

lemma position_less [simp]: "position f < 8"
  by (cases f) (simp_all add: position_def)

lemma mapping_at_position: "fst (failure_wire_mappings ! position f) = f"
  by (cases f) (simp_all add: failure_wire_mappings_def position_def)

lemma position_inject [simp]: "position f = position g \<longleftrightarrow> f = g"
  using mapping_at_position by metis

lemma parse_failure_code_eq [simp]: "parse_failure_code (failure_code f) = Some f"
  by (cases f) (simp_all add: parse_failure_code_def failure_code_def failure_wire_mappings_def position_def)

lemma failure_code_line: "newline \<notin> set (failure_code f)" "length (failure_code f) \<le> 23"
  by (cases f; simp add: failure_code_def failure_wire_mappings_def position_def)+

lemma failure_line_not_end: "''FAILURE '' @ c \<noteq> ''SESSION_OUTCOME_END''"
  by simp

lemma failure_count: "length (remdups (fs :: infrastructure_failure list)) \<le> 8"
proof -
  have "set fs \<subseteq> {Failure_Start, Failure_Conversation, Failure_Profile_State, Failure_Stop_Request,
      Failure_Cleanup, Failure_Launcher_Reaping, Failure_Supervisor_Cleanup, Failure_Invalid_Event}"
    using infrastructure_failure.exhaust by blast
  from card_mono [OF _ this] show ?thesis by (simp add: length_remdups_card_conv)
qed

lemma check_failures_iff:
  "length seen = 8 \<Longrightarrow> check_failures seen fs \<longleftrightarrow>
     distinct fs \<and> (\<forall>f \<in> set fs. \<not> seen ! position f)"
proof (induction seen fs rule: check_failures.induct)
  case (2 seen f fs)
  then show ?case by (auto simp: nth_list_update)
qed simp

lemma failure_lines_eq:
  "failure_lines fs = Some (concat (map (\<lambda>f. ''FAILURE '' @ failure_code f @ [newline]) fs))"
  by (induction fs) (simp_all add: failure_code_def)

lemma failure_lines_length:
  "length (concat (map (\<lambda>f. ''FAILURE '' @ failure_code f @ [newline]) fs)) \<le> 32 * length fs"
proof (induction fs)
  case (Cons f fs)
  then show ?case using failure_code_line(2) [of f] by simp
qed simp

section \<open>Which outcomes can be written\<close>

definition wire_outcome :: "session_outcome \<Rightarrow> bool" where
  "wire_outcome outcome \<longleftrightarrow>
     valid_workload_for_wire (outcome_workload outcome)
     \<and> distinct (infrastructure_failures outcome)
     \<and> (infrastructure_failures outcome = [] \<longrightarrow> outcome_workload outcome \<noteq> None)"

definition outcome_block :: "session_outcome \<Rightarrow> string" where
  "outcome_block outcome =
     ''SESSION_OUTCOME_BEGIN'' @ [newline] @ workload_line (outcome_workload outcome)
     @ (if infrastructure_succeeded outcome then ''INFRASTRUCTURE OK''
        else ''INFRASTRUCTURE FAILED'') @ [newline]
     @ concat (map (\<lambda>f. ''FAILURE '' @ failure_code f @ [newline]) (infrastructure_failures outcome))
     @ ''SESSION_OUTCOME_END'' @ [newline]"

lemma workload_line_length:
  "valid_workload_for_wire w \<Longrightarrow> length (workload_line w) \<le> 30"
proof (cases w)
  case (Some r)
  assume "valid_workload_for_wire w"
  then have "0 \<le> result_value r" "result_value r < 10 ^ 3"
    using Some by (auto simp: valid_workload_for_wire_def split: if_splits)
  then have "length (to_string_int (result_value r)) \<le> 3"
    by (simp add: to_string_int_def length_to_string_nat)
  then show ?thesis by (simp add: workload_line_def Some)
qed (simp add: workload_line_def)

lemma check_no_failures: "check_failures no_failure_seen fs \<longleftrightarrow> distinct fs"
proof -
  have n: "no_failure_seen = replicate 8 False"
    by (simp add: no_failure_seen_def failure_wire_mappings_def numeral_eq_Suc)
  show ?thesis by (simp add: n check_failures_iff)
qed

lemma outcome_block_length:
  assumes "wire_outcome outcome"
  shows "length (outcome_block outcome) \<le> maximum_controller_session_outcome_size"
proof -
  have "length (infrastructure_failures outcome) \<le> 8"
    using failure_count [of "infrastructure_failures outcome"] assms
    by (simp add: wire_outcome_def distinct_remdups_id)
  with failure_lines_length [of "infrastructure_failures outcome"]
  have "length (concat (map (\<lambda>f. ''FAILURE '' @ failure_code f @ [newline])
      (infrastructure_failures outcome))) \<le> 256" by linarith
  moreover have "length (workload_line (outcome_workload outcome)) \<le> 30"
    using assms by (intro workload_line_length) (simp add: wire_outcome_def)
  ultimately show ?thesis
    unfolding outcome_block_def maximum_controller_session_outcome_size_def
    by (simp del: length_concat)
qed

lemma serialize_outcome_eq:
  "serialize_controller_session_outcome outcome =
     (if wire_outcome outcome then Inr (outcome_block outcome) else Inl Outcome_Impossible)"
proof (cases "wire_outcome outcome")
  case True
  with outcome_block_length [OF True] show ?thesis
    unfolding serialize_controller_session_outcome_def check_no_failures failure_lines_eq option.case
      Let_def outcome_block_def [symmetric]
    by (simp add: wire_outcome_def infrastructure_succeeded_def)
next
  case False
  then show ?thesis
    unfolding serialize_controller_session_outcome_def check_no_failures
    by (auto simp: wire_outcome_def infrastructure_succeeded_def)
qed

section \<open>Reading a written block\<close>

lemma parse_failures_lines:
  "length seen = 8 \<Longrightarrow> distinct fs \<Longrightarrow> \<forall>f \<in> set fs. \<not> seen ! position f \<Longrightarrow>
     parse_failures False w seen acc
       (concat (map (\<lambda>f. ''FAILURE '' @ failure_code f @ [newline]) fs) @ ''SESSION_OUTCOME_END'' @ [newline])
     = (if acc @ fs = [] then Broken_Outcome Outcome_Impossible
        else Complete_Outcome \<lparr>outcome_workload = w, infrastructure_failures = acc @ fs\<rparr>)"
proof (induction fs arbitrary: seen acc)
  case Nil
  have "next_line (''SESSION_OUTCOME_END'' @ newline # []) = Some (''SESSION_OUTCOME_END'', [])"
    by (rule next_line_line) simp
  then show ?case
    by (simp add: parse_failures.simps [of False w seen acc] next_line_def)
next
  case (Cons f fs)
  define rest where "rest = concat (map (\<lambda>f. ''FAILURE '' @ failure_code f @ [newline]) fs)
    @ ''SESSION_OUTCOME_END'' @ [newline]"
  have n: "next_line ((''FAILURE '' @ failure_code f) @ newline # rest) = Some (''FAILURE '' @ failure_code f, rest)"
    by (rule next_line_line) (use failure_code_line(1) [of f] in simp)
  have ih: "parse_failures False w (seen[position f := True]) (acc @ [f]) rest
     = Complete_Outcome \<lparr>outcome_workload = w, infrastructure_failures = acc @ f # fs\<rparr>"
    unfolding rest_def using Cons.prems by (subst Cons.IH) (auto simp: nth_list_update)
  have "parse_failures False w seen acc ((''FAILURE '' @ failure_code f) @ newline # rest)
     = Complete_Outcome \<lparr>outcome_workload = w, infrastructure_failures = acc @ f # fs\<rparr>"
    using Cons.prems
    by (simp only: parse_failures.simps [of False w seen acc] n option.case prod.case failure_line_not_end)
       (simp add: failure_prefix_def ih)
  then show ?case by (simp add: rest_def)
qed

lemma parse_bounded_to_string:
  assumes "minimum \<le> i" "i \<le> maximum" "int_min \<le> minimum" "maximum \<le> int_max"
  shows "parse_bounded_decimal (to_string_int i) minimum maximum = Some i"
proof -
  have "to_string_int i \<noteq> []" by (simp add: to_string_int_def)
  with assms show ?thesis by (simp add: parse_bounded_decimal_def)
qed


lemma parse_workload_line_text:
  assumes "valid_workload_for_wire w"
  obtains l where "workload_line w = l @ [newline]" "newline \<notin> set l" "parse_workload_line l = Inr w"
proof (cases w)
  case None
  show thesis
    by (rule that [of "''WORKLOAD UNKNOWN''"])
       (simp_all add: None workload_line_def parse_workload_line_def)
next
  case (Some r)
  have clean: "newline \<notin> set (to_string_int (result_value r))"
    by (simp add: to_string_int_def)
  show thesis
  proof (cases "result_kind r = Result_Exited")
    case True
    then have v: "0 \<le> result_value r" "result_value r \<le> 255"
      using assms Some by (simp_all add: valid_workload_for_wire_def)
    from parse_bounded_to_string [OF v] have
      "parse_workload_line (''WORKLOAD EXIT '' @ to_string_int (result_value r))
        = Inr (Some \<lparr>result_kind = Result_Exited, result_value = result_value r\<rparr>)"
      by (simp add: parse_workload_line_def workload_exit_prefix_def int_min_def int_max_def)
    with True Some clean show thesis
      by (intro that [of "''WORKLOAD EXIT '' @ to_string_int (result_value r)"])
         (simp_all add: workload_line_def)
  next
    case False
    then have k: "result_kind r = Result_Signaled" and v: "1 \<le> result_value r" "result_value r \<le> 127"
      using assms Some by (auto simp: valid_workload_for_wire_def split: if_splits)
    from parse_bounded_to_string [OF v] have
      "parse_workload_line (''WORKLOAD SIGNAL '' @ to_string_int (result_value r))
        = Inr (Some \<lparr>result_kind = Result_Signaled, result_value = result_value r\<rparr>)"
      by (simp add: parse_workload_line_def workload_exit_prefix_def workload_signal_prefix_def
          int_min_def int_max_def)
    with k Some clean show thesis
      by (intro that [of "''WORKLOAD SIGNAL '' @ to_string_int (result_value r)"])
         (simp_all add: workload_line_def)
  qed
qed

lemma parse_outcome_block:
  assumes "wire_outcome outcome"
  shows "parse_block (outcome_block outcome) = Complete_Outcome outcome"
proof -
  obtain w fs where o: "outcome = \<lparr>outcome_workload = w, infrastructure_failures = fs\<rparr>"
    by (cases outcome) simp
  have w: "valid_workload_for_wire w" and fs: "distinct fs" and some: "fs = [] \<Longrightarrow> w \<noteq> None"
    using assms by (simp_all add: wire_outcome_def o)
  obtain l where l: "workload_line w = l @ [newline]" "newline \<notin> set l" "parse_workload_line l = Inr w"
    using w by (rule parse_workload_line_text)
  define tail where "tail = concat (map (\<lambda>f. ''FAILURE '' @ failure_code f @ [newline]) fs)
    @ ''SESSION_OUTCOME_END'' @ [newline]"
  define verdict where "verdict = (if fs = [] then ''INFRASTRUCTURE OK'' else ''INFRASTRUCTURE FAILED'')"
  have v: "newline \<notin> set verdict" by (simp add: verdict_def)
  have block: "outcome_block outcome =
      ''SESSION_OUTCOME_BEGIN'' @ newline # (l @ newline # (verdict @ newline # tail))"
    by (simp add: outcome_block_def o l(1) tail_def verdict_def infrastructure_succeeded_def)
  have seen: "length no_failure_seen = 8" "\<forall>f \<in> set fs. \<not> no_failure_seen ! position f"
    using check_failures_iff [of no_failure_seen fs] fs check_no_failures [of fs]
    by (simp_all add: no_failure_seen_def failure_wire_mappings_def)
  have ok: "parse_failures True w no_failure_seen [] (''SESSION_OUTCOME_END'' @ [newline])
     = Complete_Outcome \<lparr>outcome_workload = w, infrastructure_failures = []\<rparr>"
    by (simp add: parse_failures.simps [of True] next_line_def substr_def)
  have b: "next_line (''SESSION_OUTCOME_BEGIN'' @ newline # r) = Some (''SESSION_OUTCOME_BEGIN'', r)" for r
    by (rule next_line_line) simp
  show ?thesis
    unfolding block parse_block_def b option.case prod.case next_line_line [OF l(2)]
      next_line_line [OF v] l(3) sum.case
    using some parse_failures_lines [OF seen(1) fs seen(2), of w "[]"] ok
    by (cases "fs = []") (simp_all add: verdict_def tail_def o)
qed

text \<open>Before its last byte a complete block is always incomplete, never broken.\<close>

lemma parse_failures_prefix:
  "parse_failures ok w seen acc (a @ b) = Complete_Outcome outcome \<Longrightarrow> b \<noteq> [] \<Longrightarrow>
     parse_failures ok w seen acc a = Incomplete_Outcome"
proof (induction ok w seen acc a rule: parse_failures.induct)
  case (1 ok w seen acc a)
  show ?case
  proof (cases "next_line a")
    case None
    then show ?thesis by (simp add: parse_failures.simps)
  next
    case (Some lr)
    obtain l r where lr: "next_line a = Some (l, r)" using Some by (cases lr) auto
    note whole = "1.prems"(1) [unfolded parse_failures.simps [of _ _ _ _ "a @ b"]
        next_line_append [OF lr] option.case prod.case]
    from whole "1.prems"(2) have not_end: "l \<noteq> ''SESSION_OUTCOME_END''" by (auto split: if_splits)
    with whole have go: "\<not> (ok \<or> \<not> starts_with failure_prefix l)" by (auto split: if_splits)
    with whole not_end obtain f where f: "parse_failure_code (drop (length failure_prefix) l) = Some f"
      by (cases "parse_failure_code (drop (length failure_prefix) l)") auto
    with whole not_end go have fresh: "\<not> seen ! position f" by (auto split: if_splits)
    from whole not_end go f fresh
    have "parse_failures ok w (seen[position f := True]) (acc @ [f]) (r @ b) = Complete_Outcome outcome"
      by simp
    from "1.IH" [OF lr refl not_end go f failure_mapping_eq fresh this "1.prems"(2)]
    show ?thesis using lr not_end go f fresh by (simp add: parse_failures.simps [of _ _ _ _ a])
  qed
qed

lemma parse_block_prefix:
  assumes "parse_block (a @ b) = Complete_Outcome outcome" "b \<noteq> []"
  shows "parse_block a = Incomplete_Outcome"
proof (cases "next_line a")
  case None
  then show ?thesis by (simp add: parse_block_def)
next
  case (Some x)
  then obtain l1 r1 where 1: "next_line a = Some (l1, r1)" by (cases x) auto
  note whole = assms(1) [unfolded parse_block_def next_line_append [OF 1] option.case prod.case]
  then have first: "l1 = ''SESSION_OUTCOME_BEGIN''" by (auto split: if_splits)
  show ?thesis
  proof (cases "next_line r1")
    case None
    then show ?thesis by (simp add: parse_block_def 1 first)
  next
    case (Some y)
    then obtain l2 r2 where 2: "next_line r1 = Some (l2, r2)" by (cases y) auto
    note whole = whole [unfolded first next_line_append [OF 2] option.case prod.case]
    then obtain w where w: "parse_workload_line l2 = Inr w"
      by (cases "parse_workload_line l2") auto
    show ?thesis
    proof (cases "next_line r2")
      case None
      then show ?thesis by (simp add: parse_block_def 1 first 2 w)
    next
      case (Some z)
      then obtain l3 r3 where 3: "next_line r2 = Some (l3, r3)" by (cases z) auto
      note whole = whole [unfolded w sum.case next_line_append [OF 3] option.case prod.case Let_def]
      have "parse_failures (l3 = ''INFRASTRUCTURE OK'') w no_failure_seen [] (r3 @ b) = Complete_Outcome outcome"
        "l3 = ''INFRASTRUCTURE OK'' \<or> l3 = ''INFRASTRUCTURE FAILED''"
        "\<not> (l3 = ''INFRASTRUCTURE OK'' \<and> w = None)"
        using whole by (auto split: if_splits)
      with parse_failures_prefix [OF this(1) assms(2)] show ?thesis
        unfolding parse_block_def 1 first 2 w 3 option.case prod.case sum.case Let_def by auto
    qed
  qed
qed


section \<open>What the parser accepts\<close>

lemma parse_failures_sound:
  "parse_failures ok w seen acc a = Complete_Outcome outcome \<Longrightarrow> length seen = 8 \<Longrightarrow>
     distinct acc \<Longrightarrow> (\<And>f. seen ! position f \<longleftrightarrow> f \<in> set acc) \<Longrightarrow>
     outcome_workload outcome = w \<and> distinct (infrastructure_failures outcome)
     \<and> (infrastructure_failures outcome = [] \<longleftrightarrow> ok)"
proof (induction ok w seen acc a rule: parse_failures.induct)
  case (1 ok w seen acc a)
  obtain l r where lr: "next_line a = Some (l, r)"
    using "1.prems"(1) by (cases "next_line a") (auto simp: parse_failures.simps [of _ _ _ _ a])
  note res = "1.prems"(1) [unfolded parse_failures.simps [of _ _ _ _ a] lr option.case prod.case]
  show ?case
  proof (cases "l = ''SESSION_OUTCOME_END''")
    case True
    with res "1.prems"(3) show ?thesis by (auto split: if_splits)
  next
    case False
    note not_end = this
    with res have go: "\<not> (ok \<or> \<not> starts_with failure_prefix l)" by (auto split: if_splits)
    with res not_end obtain f where f: "parse_failure_code (drop (length failure_prefix) l) = Some f"
      by (cases "parse_failure_code (drop (length failure_prefix) l)") auto
    with res not_end go have fresh: "\<not> seen ! position f" by (auto split: if_splits)
    from res not_end go f fresh
    have "parse_failures ok w (seen[position f := True]) (acc @ [f]) r = Complete_Outcome outcome"
      by simp
    moreover have "\<And>g. seen[position f := True] ! position g \<longleftrightarrow> g \<in> set (acc @ [f])"
      using "1.prems"(2,4) by (auto simp: nth_list_update)
    ultimately show ?thesis
      using "1.IH" [OF lr refl not_end go f failure_mapping_eq fresh] "1.prems"(2,3,4) fresh by simp
  qed
qed

lemma parse_bounded_range:
  "parse_bounded_decimal t a b = Some v \<Longrightarrow> a \<le> v \<and> v \<le> b"
  by (auto simp: parse_bounded_decimal_def split: from_chars_result.splits if_splits)

lemma parse_workload_line_valid: "parse_workload_line l = Inr w \<Longrightarrow> valid_workload_for_wire w"
  by (auto simp: parse_workload_line_def valid_workload_for_wire_def split: if_splits option.splits
      dest!: parse_bounded_range)

lemma parse_block_sound:
  assumes "parse_block a = Complete_Outcome outcome"
  shows "wire_outcome outcome"
proof -
  from assms obtain l1 r1 where 1: "next_line a = Some (l1, r1)"
    by (cases "next_line a") (auto simp: parse_block_def)
  note res = assms [unfolded parse_block_def 1 option.case prod.case]
  then have first: "l1 = ''SESSION_OUTCOME_BEGIN''" by (auto split: if_splits)
  with res obtain l2 r2 where 2: "next_line r1 = Some (l2, r2)"
    by (cases "next_line r1") auto
  note res = res [unfolded first 2 option.case prod.case]
  then obtain w where w: "parse_workload_line l2 = Inr w" by (cases "parse_workload_line l2") auto
  note res = res [unfolded w sum.case]
  then obtain l3 r3 where 3: "next_line r2 = Some (l3, r3)" by (cases "next_line r2") auto
  note res = res [unfolded 3 option.case prod.case Let_def]
  have f: "parse_failures (l3 = ''INFRASTRUCTURE OK'') w no_failure_seen [] r3 = Complete_Outcome outcome"
    and ok: "\<not> (l3 = ''INFRASTRUCTURE OK'' \<and> w = None)"
    using res by (auto split: if_splits)
  have none: "no_failure_seen ! position f \<longleftrightarrow> f \<in> set []" for f
    by (simp add: no_failure_seen_def failure_wire_mappings_def position_def split: infrastructure_failure.split)
  from parse_failures_sound [OF f _ _ none] ok parse_workload_line_valid [OF w]
  show ?thesis
    by (auto simp: wire_outcome_def no_failure_seen_def failure_wire_mappings_def)
qed

section \<open>Reads\<close>

fun outcome_feed :: "outcome_parser \<Rightarrow> string list \<Rightarrow> outcome_parse_result list" where
  "outcome_feed p [] = []"
| "outcome_feed p (c # cs) =
     (case outcome_receive p c of (q, result) \<Rightarrow> result # outcome_feed q cs)"

lemma outcome_feed_block:
  assumes "wire_outcome outcome" "a @ concat cs = outcome_block outcome" "cs \<noteq> []" "[] \<notin> set cs"
  shows "outcome_feed \<lparr>parser_buffer = a, parser_completed = False\<rparr> cs
     = replicate (length cs - 1) Incomplete_Outcome @ [Complete_Outcome outcome]"
  using assms(2-)
proof (induction cs arbitrary: a)
  case (Cons c cs)
  have fits: "length (a @ c) \<le> maximum_controller_session_outcome_size"
    using outcome_block_length [OF assms(1)] Cons.prems(1) [symmetric] by simp
  have whole: "parse_block (outcome_block outcome) = Complete_Outcome outcome"
    using assms(1) by (rule parse_outcome_block)
  show ?case
  proof (cases cs)
    case Nil
    with fits Cons.prems(1) whole show ?thesis by (simp add: outcome_receive_def Let_def)
  next
    case (Cons d ds)
    then have "concat cs \<noteq> []" using Cons.prems(3) by (cases d) auto
    with whole Cons.prems(1) have "parse_block (a @ c) = Incomplete_Outcome"
      by (intro parse_block_prefix [of "a @ c" "concat cs"]) simp_all
    with fits Cons Cons.IH [of "a @ c"] Cons.prems show ?thesis
      by (simp add: outcome_receive_def Let_def)
  qed
qed simp

text \<open>C5: the outcomes that can be sent to a controller are exactly those with a workload result in
  range, no failure listed twice, and a known result when nothing failed; their block is received
  whole and unchanged by an attached controller however the stream is cut into reads, and nothing
  is reported before its last byte.\<close>

theorem session_outcome_reaches_controller:
  "case serialize_controller_session_outcome outcome of
     Inl e \<Rightarrow> e = Outcome_Impossible \<and> \<not> wire_outcome outcome
   | Inr block \<Rightarrow> wire_outcome outcome
       \<and> (\<forall>reads. concat reads = block \<and> [] \<notin> set reads \<longrightarrow>
            outcome_feed new_outcome_parser reads
              = replicate (length reads - 1) Incomplete_Outcome @ [Complete_Outcome outcome])"
proof (cases "wire_outcome outcome")
  case True
  have "outcome_feed new_outcome_parser reads
      = replicate (length reads - 1) Incomplete_Outcome @ [Complete_Outcome outcome]"
    if "concat reads = outcome_block outcome \<and> [] \<notin> set reads" for reads
  proof -
    have "outcome_block outcome \<noteq> []" by (simp add: outcome_block_def)
    with that have "reads \<noteq> []" by force
    with outcome_feed_block [OF True, of "[]" reads] that show ?thesis
      by (simp add: new_outcome_parser_def)
  qed
  then show ?thesis
    unfolding serialize_outcome_eq if_P [OF True] sum.case using True by (intro conjI allI impI)
qed (simp add: serialize_outcome_eq)

theorem session_outcome_reaches_controller_witness:
  "let outcome = \<lparr>outcome_workload = Some \<lparr>result_kind = Result_Exited, result_value = 3\<rparr>,
       infrastructure_failures = []\<rparr>;
     block = outcome_block outcome
   in outcome_feed new_outcome_parser [take 5 block, drop 5 block]
      = [Incomplete_Outcome, Complete_Outcome outcome]"
proof -
  define outcome where "outcome = \<lparr>outcome_workload = Some \<lparr>result_kind = Result_Exited, result_value = 3\<rparr>,
       infrastructure_failures = []\<rparr>"
  have w: "wire_outcome outcome"
    by (simp add: outcome_def wire_outcome_def valid_workload_for_wire_def)
  have "concat [take 5 (outcome_block outcome), drop 5 (outcome_block outcome)] = outcome_block outcome"
    by simp
  moreover have "[] \<notin> set [take 5 (outcome_block outcome), drop 5 (outcome_block outcome)]"
  proof -
    have "20 < length (outcome_block outcome)" unfolding outcome_block_def by simp
    then show ?thesis by (cases "outcome_block outcome") auto
  qed
  ultimately have "outcome_feed new_outcome_parser [take 5 (outcome_block outcome), drop 5 (outcome_block outcome)]
      = replicate (length [take 5 (outcome_block outcome), drop 5 (outcome_block outcome)] - 1) Incomplete_Outcome
        @ [Complete_Outcome outcome]"
    using session_outcome_reaches_controller [of outcome]
    unfolding serialize_outcome_eq if_P [OF w] sum.case by (elim conjE allE impE) (intro conjI)
  also have "\<dots> = [Incomplete_Outcome, Complete_Outcome outcome]" by simp
  finally show ?thesis unfolding outcome_def [symmetric] Let_def .
qed

text \<open>Whatever bytes arrive, an outcome the parser reports is one that could have been sent:
  its workload result is in range, no failure is repeated, and a session without failure has a
  known result. The exit status computed from it is between 0 and 255.\<close>

theorem received_outcome_is_possible:
  assumes "outcome_receive p bytes = (q, Complete_Outcome outcome)"
  shows "serialize_controller_session_outcome outcome = Inr (outcome_block outcome)
    \<and> 0 \<le> session_exit_status outcome \<and> session_exit_status outcome \<le> 255
    \<and> parser_completed q"
proof -
  from assms have c: "parse_block (parser_buffer p @ bytes) = Complete_Outcome outcome" "parser_completed q"
    by (auto simp: outcome_receive_def Let_def split: if_splits)
  then have w: "wire_outcome outcome" using parse_block_sound by blast
  then have "0 \<le> session_exit_status outcome \<and> session_exit_status outcome \<le> 255"
    by (auto simp: wire_outcome_def session_exit_status_def workload_exit_status_def
        infrastructure_succeeded_def valid_workload_for_wire_def split: option.splits if_splits)
  with w c(2) show ?thesis by (simp add: serialize_outcome_eq)
qed

theorem received_outcome_is_possible_witness:
  "let outcome = \<lparr>outcome_workload = Some \<lparr>result_kind = Result_Exited, result_value = 3\<rparr>,
       infrastructure_failures = []\<rparr>
   in outcome_receive new_outcome_parser (outcome_block outcome)
        = (fst (outcome_receive new_outcome_parser (outcome_block outcome)), Complete_Outcome outcome)
      \<and> session_exit_status outcome = 3
      \<and> serialize_controller_session_outcome outcome = Inr (outcome_block outcome)"
proof -
  define outcome where "outcome = \<lparr>outcome_workload = Some \<lparr>result_kind = Result_Exited, result_value = 3\<rparr>,
       infrastructure_failures = []\<rparr>"
  have w: "wire_outcome outcome"
    by (simp add: outcome_def wire_outcome_def valid_workload_for_wire_def)
  have "outcome_feed new_outcome_parser [outcome_block outcome] = [Complete_Outcome outcome]"
    using outcome_feed_block [OF w, of "[]" "[outcome_block outcome]"]
    by (simp add: new_outcome_parser_def outcome_block_def)
  then have r: "outcome_receive new_outcome_parser (outcome_block outcome)
      = (fst (outcome_receive new_outcome_parser (outcome_block outcome)), Complete_Outcome outcome)"
    by (simp split: prod.splits)
  have x: "session_exit_status outcome = 3"
    by (simp add: outcome_def session_exit_status_def workload_exit_status_def infrastructure_succeeded_def)
  from r x received_outcome_is_possible [OF r] show ?thesis
    unfolding outcome_def [symmetric] Let_def by (intro conjI) simp_all
qed

end
