(* ===== verification/Recovery_Journal.thy ===== *)
theory Recovery_Journal
  imports Outcome_Laws
begin

text \<open>
  The recovery record of \<open>src/network_environment/recovery_journal.cpp\<close>: its text, the parser, and
  the token that names a session's firewall rules. Values of the enumerations are their
  enumerators, so the empty names of the source cannot occur.
\<close>

datatype recovery_backend = Backend_Nftables | Backend_Ufw | Backend_Firewalld

datatype recovery_phase = Phase_Intent | Phase_Applied | Phase_Removing

record recovery_record =
  recovery_backend :: recovery_backend
  recovery_phase :: recovery_phase
  recovery_token :: string

datatype recovery_read_status = Recovery_Empty | Recovery_Valid | Recovery_Corrupt | Recovery_Failure

record recovery_read_result =
  read_status :: recovery_read_status
  read_record :: "recovery_record option"

fun backend_name :: "recovery_backend \<Rightarrow> string" where
  "backend_name Backend_Nftables = ''nftables''"
| "backend_name Backend_Ufw = ''ufw''"
| "backend_name Backend_Firewalld = ''firewalld''"

fun phase_name :: "recovery_phase \<Rightarrow> string" where
  "phase_name Phase_Intent = ''intent''"
| "phase_name Phase_Applied = ''applied''"
| "phase_name Phase_Removing = ''removing''"

definition parse_backend :: "string \<Rightarrow> recovery_backend option" where
  "parse_backend s =
     (if s = ''nftables'' then Some Backend_Nftables
      else if s = ''ufw'' then Some Backend_Ufw
      else if s = ''firewalld'' then Some Backend_Firewalld
      else None)"

definition parse_phase :: "string \<Rightarrow> recovery_phase option" where
  "parse_phase s =
     (if s = ''intent'' then Some Phase_Intent
      else if s = ''applied'' then Some Phase_Applied
      else if s = ''removing'' then Some Phase_Removing
      else None)"

definition token_char :: "char \<Rightarrow> bool" where
  "token_char c \<longleftrightarrow>
     (byte_of CHR ''0'' \<le> byte_of c \<and> byte_of c \<le> byte_of CHR ''9'')
     \<or> (byte_of CHR ''a'' \<le> byte_of c \<and> byte_of c \<le> byte_of CHR ''f'')"

definition valid_recovery_token :: "string \<Rightarrow> bool" where
  "valid_recovery_token token \<longleftrightarrow> length token = 32 \<and> list_all token_char token"

definition serialize_record :: "recovery_record \<Rightarrow> string option" where
  "serialize_record r =
     (if \<not> valid_recovery_token (recovery_token r) then None
      else Some (''version=1'' @ [newline] @ ''backend='' @ backend_name (recovery_backend r) @ [newline]
        @ ''phase='' @ phase_name (recovery_phase r) @ [newline]
        @ ''token='' @ recovery_token r @ [newline]))"

definition parse_record :: "string \<Rightarrow> recovery_record option" where
  "parse_record contents =
     (case next_line contents of
        None \<Rightarrow> None
      | Some (first, r1) \<Rightarrow>
          (if first \<noteq> ''version=1'' then None
           else case next_line r1 of
             None \<Rightarrow> None
           | Some (second, r2) \<Rightarrow>
               (if \<not> starts_with ''backend='' second then None
                else case parse_backend (drop 8 second) of
                  None \<Rightarrow> None
                | Some backend \<Rightarrow>
                    (case next_line r2 of
                       None \<Rightarrow> None
                     | Some (third, r3) \<Rightarrow>
                         (if \<not> starts_with ''phase='' third then None
                          else case parse_phase (drop 6 third) of
                            None \<Rightarrow> None
                          | Some phase \<Rightarrow>
                              (case next_line r3 of
                                 None \<Rightarrow> None
                               | Some (fourth, r4) \<Rightarrow>
                                   (if r4 \<noteq> [] \<or> \<not> starts_with ''token='' fourth then None
                                    else (let token = drop 6 fourth
                                          in if \<not> valid_recovery_token token then None
                                             else Some \<lparr>recovery_backend = backend,
                                               recovery_phase = phase,
                                               recovery_token = token\<rparr>))))))))"

text \<open>\<open>create_recovery_token\<close> from its sixteen random bytes.\<close>

definition token_of_bytes :: "8 word list \<Rightarrow> string" where
  "token_of_bytes bs =
     concat (map (\<lambda>b. [''0123456789abcdef'' ! (unat b div 16), ''0123456789abcdef'' ! (unat b mod 16)]) bs)"

section \<open>The text of a record\<close>

lemma parse_backend_iff: "parse_backend s = Some b \<longleftrightarrow> s = backend_name b"
  by (cases b) (auto simp: parse_backend_def)

lemma parse_phase_iff: "parse_phase s = Some p \<longleftrightarrow> s = phase_name p"
  by (cases p) (auto simp: parse_phase_def)

lemma token_char_not_newline: "list_all token_char t \<Longrightarrow> newline \<notin> set t"
  by (auto simp: list_all_iff token_char_def byte_of_def)

lemma name_not_newline: "newline \<notin> set (backend_name b)" "newline \<notin> set (phase_name p)"
  by (cases b; simp) (cases p; simp)

lemma next_line_Some: "next_line s = Some (l, r) \<Longrightarrow> s = l @ newline # r"
  by (auto simp: next_line_def substr_def split: option.splits dest: find_char_Some_split(1))

lemma starts_with_prefix: "starts_with p s \<Longrightarrow> length p = n \<Longrightarrow> s = p @ drop n s"
  by (auto simp: text_simps)

lemma record_text:
  "valid_recovery_token (recovery_token r) \<Longrightarrow> serialize_record r = Some (''version=1'' @ newline #
     ((''backend='' @ backend_name (recovery_backend r)) @ newline #
       ((''phase='' @ phase_name (recovery_phase r)) @ newline #
         ((''token='' @ recovery_token r) @ newline # []))))"
  by (simp add: serialize_record_def)

lemma parse_record_text:
  assumes "valid_recovery_token t"
  shows "parse_record (''version=1'' @ newline # ((''backend='' @ backend_name b) @ newline #
       ((''phase='' @ phase_name p) @ newline # ((''token='' @ t) @ newline # []))))
     = Some \<lparr>recovery_backend = b, recovery_phase = p, recovery_token = t\<rparr>"
proof -
  have n: "newline \<notin> set ''version=1''" "newline \<notin> set (''backend='' @ backend_name b)"
      "newline \<notin> set (''phase='' @ phase_name p)" "newline \<notin> set (''token='' @ t)"
    using assms name_not_newline by (auto simp: valid_recovery_token_def dest: token_char_not_newline)
  have "parse_backend (drop 8 (''backend='' @ backend_name b)) = Some b"
    "parse_phase (drop 6 (''phase='' @ phase_name p)) = Some p" "drop 6 (''token='' @ t) = t"
    by (simp_all add: parse_backend_iff parse_phase_iff)
  then show ?thesis
    unfolding parse_record_def next_line_line [OF n(1)] next_line_line [OF n(2)] next_line_line [OF n(3)]
      next_line_line [OF n(4)] option.case prod.case
    using assms starts_with_append [of "''backend=''" "backend_name b"]
      starts_with_append [of "''phase=''" "phase_name p"] starts_with_append [of "''token=''" t]
    by (simp only: if_False if_True option.case Let_def not_True_eq_False simp_thms)
qed

lemma parse_serialize: "serialize_record r = Some s \<Longrightarrow> parse_record s = Some r"
  using parse_record_text [of "recovery_token r" "recovery_backend r" "recovery_phase r"] record_text [of r]
  by (auto simp: serialize_record_def split: if_splits)

lemma serialize_parse:
  assumes "parse_record s = Some r" shows "serialize_record r = Some s"
proof -
  note d = assms [unfolded parse_record_def]
  from d obtain l1 r1 where 1: "next_line s = Some (l1, r1)" by (auto split: option.splits)
  note d = d [unfolded 1 option.case prod.case]
  from d have l1: "l1 = ''version=1''" by (auto split: if_splits)
  note d = d [unfolded l1 simp_thms if_False]
  from d obtain l2 r2 where 2: "next_line r1 = Some (l2, r2)" by (auto split: option.splits)
  note d = d [unfolded 2 option.case prod.case]
  from d have l2: "starts_with ''backend='' l2" by (auto split: if_splits)
  from d l2 obtain b where b: "parse_backend (drop 8 l2) = Some b" by (auto split: option.splits)
  from d l2 b obtain l3 r3 where 3: "next_line r2 = Some (l3, r3)" by (auto split: option.splits)
  from d l2 b 3 have l3: "starts_with ''phase='' l3" by (auto split: if_splits)
  from d l2 b 3 l3 obtain p where p: "parse_phase (drop 6 l3) = Some p" by (auto split: option.splits)
  from d l2 b 3 l3 p obtain l4 r4 where 4: "next_line r3 = Some (l4, r4)" by (auto split: option.splits)
  from d l2 b 3 l3 p 4 have l4: "r4 = []" "starts_with ''token='' l4" "valid_recovery_token (drop 6 l4)"
      and r: "r = \<lparr>recovery_backend = b, recovery_phase = p, recovery_token = drop 6 l4\<rparr>"
    by (auto simp: Let_def split: if_splits)
  have "l2 = ''backend='' @ backend_name b" "l3 = ''phase='' @ phase_name p" "l4 = ''token='' @ drop 6 l4"
    using starts_with_prefix [OF l2, of 8] starts_with_prefix [OF l3, of 6] starts_with_prefix [OF l4(2), of 6] b p
    by (simp_all only: parse_backend_iff parse_phase_iff) simp_all
  moreover have "s = l1 @ newline # l2 @ newline # l3 @ newline # l4 @ newline # []"
    using next_line_Some [OF 1] next_line_Some [OF 2] next_line_Some [OF 3] next_line_Some [OF 4] l4(1) by simp
  ultimately show ?thesis
    using record_text [of r] l4(3) by (simp add: r l1)
qed

interpretation journal: canonical_codec serialize_record parse_record
  by unfold_locales (rule parse_serialize, assumption, rule serialize_parse, assumption)

lemma token_of_bytes_valid:
  assumes "length bs = 16" shows "valid_recovery_token (token_of_bytes bs)"
proof -
  have digit: "token_char (''0123456789abcdef'' ! n)" if "n < 16" for n
  proof -
    have "list_all token_char ''0123456789abcdef''" by (simp add: token_char_def byte_of_def)
    with that show ?thesis by (simp add: list_all_length)
  qed
  have "length (token_of_bytes bs) = 2 * length bs" for bs
    by (induction bs) (simp_all add: token_of_bytes_def)
  moreover have "list_all token_char (token_of_bytes bs)" for bs
  proof (induction bs)
    case (Cons b bs)
    have "unat b < 256" using unsigned_less [of b, where 'a = nat] by simp
    then have "unat b div 16 < 16" "unat b mod 16 < 16" by simp_all
    with Cons digit show ?case by (simp add: token_of_bytes_def)
  qed (simp add: token_of_bytes_def)
  ultimately show ?thesis using assms by (simp add: valid_recovery_token_def)
qed

text \<open>C36: the parser of the recovery record accepts exactly the texts the serializer writes: a text
  is read as a record if and only if it is that record's text, and the token made from sixteen
  random bytes can always be written.\<close>

theorem recovery_record_canonical:
  "(parse_record s = Some r \<longleftrightarrow> serialize_record r = Some s)
   \<and> (length bs = 16 \<longrightarrow>
        serialize_record \<lparr>recovery_backend = b, recovery_phase = p, recovery_token = token_of_bytes bs\<rparr> \<noteq> None)"
  using journal.decode_iff token_of_bytes_valid [of bs] by (auto simp: serialize_record_def)

theorem recovery_record_canonical_witness:
  "parse_record (''version=1'' @ [newline] @ ''backend=ufw'' @ [newline] @ ''phase=applied'' @ [newline]
      @ ''token='' @ token_of_bytes (replicate 16 0xA5) @ [newline])
   = Some \<lparr>recovery_backend = Backend_Ufw, recovery_phase = Phase_Applied,
       recovery_token = token_of_bytes (replicate 16 0xA5)\<rparr>"
proof -
  define r where "r = \<lparr>recovery_backend = Backend_Ufw, recovery_phase = Phase_Applied,
       recovery_token = token_of_bytes (replicate 16 0xA5)\<rparr>"
  have "serialize_record r \<noteq> None"
    using recovery_record_canonical [of "[]" r "replicate 16 0xA5" Backend_Ufw Phase_Applied]
    by (simp add: r_def)
  then obtain s where s: "serialize_record r = Some s" by blast
  then have "s = ''version=1'' @ [newline] @ ''backend=ufw'' @ [newline] @ ''phase=applied'' @ [newline]
      @ ''token='' @ token_of_bytes (replicate 16 0xA5) @ [newline]"
    by (simp add: serialize_record_def r_def split: if_splits)
  moreover have "parse_record s = Some r"
    using recovery_record_canonical [of s r "replicate 16 0xA5" Backend_Ufw Phase_Applied] s by simp
  ultimately show ?thesis by (simp add: r_def)
qed

end
