(* ===== verification/Binary64.thy ===== *)
theory Binary64
  imports Complex_Main Cpp_Text
begin

text \<open>
  The C++ type \<open>double\<close> as the program uses it for packet loss: an IEEE 754 binary64
  value is its 64 bits; \<open>std::isfinite\<close>, the comparisons and the defaulted equality read
  those bits; \<open>std::from_chars\<close> rounds a decimal to the nearest value (ties to even) and
  \<open>std::to_chars\<close> prints the shortest \<open>%.Pg\<close> form. The main law is that 17
  significant digits identify a value: printing and reading back returns the same bits.
\<close>

type_synonym double = "64 word"

section \<open>The fields of a value\<close>

text \<open>
  The exponent field of a value with magnitude bits \<open>b\<close> is \<open>b div 2^52\<close>, its fraction
  \<open>b mod 2^52\<close>. Magnitudes are counted in units of \<open>2^-1075\<close>, so that they are
  natural numbers: \<open>mag_of_bits b\<close> is the value times \<open>2^1075\<close>.
\<close>

definition dbl_unit :: nat where
  "dbl_unit = 2 ^ 1075"

lemma dbl_unit_pos [simp]: "0 < dbl_unit" "dbl_unit \<noteq> 0"
  by (simp_all add: dbl_unit_def)

definition dbl_negative :: "double \<Rightarrow> bool" where
  "dbl_negative w \<longleftrightarrow> 2 ^ 63 \<le> unat w"

definition dbl_bits :: "double \<Rightarrow> nat" where
  "dbl_bits w = unat w mod 2 ^ 63"

definition exponent_of_bits :: "nat \<Rightarrow> nat" where
  "exponent_of_bits b = max 1 (b div 2 ^ 52)"

definition significand_of_bits :: "nat \<Rightarrow> nat" where
  "significand_of_bits b = (if b div 2 ^ 52 = 0 then b else 2 ^ 52 + b mod 2 ^ 52)"

definition mag_of_bits :: "nat \<Rightarrow> nat" where
  "mag_of_bits b = significand_of_bits b * 2 ^ exponent_of_bits b"

definition infinity_bits :: nat where
  "infinity_bits = 2047 * 2 ^ 52"

definition isfinite :: "double \<Rightarrow> bool" where
  "isfinite w \<longleftrightarrow> dbl_bits w < infinity_bits"

definition isnan :: "double \<Rightarrow> bool" where
  "isnan w \<longleftrightarrow> infinity_bits < dbl_bits w"

text \<open>
  Comparisons: a NaN compares false with everything, the two zeros are equal, and otherwise
  the order is the order of the signed magnitude bits.
\<close>

definition dbl_key :: "double \<Rightarrow> int" where
  "dbl_key w = (if dbl_negative w then - int (dbl_bits w) else int (dbl_bits w))"

definition dbl_less :: "double \<Rightarrow> double \<Rightarrow> bool" where
  "dbl_less a b \<longleftrightarrow> \<not> isnan a \<and> \<not> isnan b \<and> dbl_key a < dbl_key b"

definition dbl_eq :: "double \<Rightarrow> double \<Rightarrow> bool" where
  "dbl_eq a b \<longleftrightarrow> \<not> isnan a \<and> \<not> isnan b \<and> dbl_key a = dbl_key b"

abbreviation dbl_zero :: double where "dbl_zero \<equiv> 0"
abbreviation dbl_hundred :: double where "dbl_hundred \<equiv> 0x4059000000000000"

lemma dbl_eq_refl_iff: "dbl_eq a a \<longleftrightarrow> \<not> isnan a"
  by (simp add: dbl_eq_def)

lemma dbl_eq_sym: "dbl_eq a b \<longleftrightarrow> dbl_eq b a"
  by (auto simp: dbl_eq_def)

lemma dbl_eq_trans: "dbl_eq a b \<Longrightarrow> dbl_eq b c \<Longrightarrow> dbl_eq a c"
  by (auto simp: dbl_eq_def)

lemma isfinite_not_isnan: "isfinite w \<Longrightarrow> \<not> isnan w"
  by (simp add: isfinite_def isnan_def)

section \<open>Rounding\<close>

text \<open>\<open>p / q\<close> rounded to the nearest integer, ties to even.\<close>

definition round_half_even :: "nat \<Rightarrow> nat \<Rightarrow> nat" where
  "round_half_even p q =
     (let n = p div q; r = p mod q
      in if 2 * r < q \<or> (2 * r = q \<and> even n) then n else n + 1)"

fun bit_length :: "nat \<Rightarrow> nat" where
  "bit_length n = (if n = 0 then 0 else Suc (bit_length (n div 2)))"

declare bit_length.simps [simp del]

text \<open>
  The magnitude bits of the double nearest to \<open>p / q\<close>; \<open>None\<close> when it overflows.
\<close>

definition round_to_bits :: "nat \<Rightarrow> nat \<Rightarrow> nat option" where
  "round_to_bits p q =
     (let n = p * dbl_unit div q;
          e = max 1 (bit_length n - 53);
          s = round_half_even (p * dbl_unit) (q * 2 ^ e);
          b = (e - 1) * 2 ^ 52 + s
      in if infinity_bits \<le> b then None else Some b)"

lemma round_half_even_le:
  assumes "0 < q" "p \<le> k * q"
  shows "round_half_even p q \<le> k"
proof (cases "p div q = k")
  case True
  have "p mod q = 0"
  proof -
    have "p = k * q + p mod q" using True div_mult_mod_eq [of p q] by (simp add: mult.commute)
    with assms(2) show ?thesis by simp
  qed
  with True assms(1) show ?thesis by (simp add: round_half_even_def)
next
  case False
  have "p div q \<le> k" using div_le_mono [OF assms(2), of q] assms(1) by simp
  with False show ?thesis by (auto simp: round_half_even_def Let_def)
qed

lemma round_half_even_ge:
  assumes "0 < q" "k * q \<le> p"
  shows "k \<le> round_half_even p q"
proof -
  have "k \<le> p div q" using assms by (simp add: less_eq_div_iff_mult_less_eq)
  then show ?thesis by (auto simp: round_half_even_def Let_def)
qed

lemma round_half_even_near:
  assumes "0 < q" "2 * p < (2 * k + 1) * q" "(2 * k) * q < 2 * p + q"
  shows "round_half_even p q = k"
proof -
  define n r where "n = p div q" and "r = p mod q"
  have p: "p = n * q + r" and r: "r < q"
    using assms(1) by (simp_all add: n_def r_def)
  have 1: "2 * n * q + 2 * r < 2 * k * q + q" using assms(2) p by (simp add: algebra_simps)
  have 2: "2 * k * q < 2 * n * q + 2 * r + q" using assms(3) p by (simp add: algebra_simps)
  have "n \<le> k"
  proof (rule ccontr)
    assume "\<not> n \<le> k"
    then have "(2 * k + 2) * q \<le> 2 * n * q" by (intro mult_right_mono) simp_all
    with 1 show False by (simp add: algebra_simps)
  qed
  moreover have "k \<le> n + 1"
  proof (rule ccontr)
    assume "\<not> k \<le> n + 1"
    then have "(2 * n + 4) * q \<le> 2 * k * q" by (intro mult_right_mono) simp_all
    with 2 r show False by (simp add: algebra_simps)
  qed
  ultimately consider "k = n" | "k = n + 1" by linarith
  then show ?thesis
  proof cases
    case 1
    with \<open>2 * n * q + 2 * r < 2 * k * q + q\<close> have "2 * r < q" by simp
    with 1 show ?thesis by (simp add: round_half_even_def Let_def flip: n_def r_def)
  next
    case 2
    with \<open>2 * k * q < 2 * n * q + 2 * r + q\<close> have "q < 2 * r" by (simp add: algebra_simps)
    with 2 show ?thesis by (simp add: round_half_even_def Let_def flip: n_def r_def)
  qed
qed

lemma bit_length_bounds:
  "0 < n \<Longrightarrow> 2 ^ (bit_length n - 1) \<le> n \<and> n < 2 ^ bit_length n \<and> 0 < bit_length n"
proof (induction n rule: bit_length.induct)
  case (1 n)
  show ?case
  proof (cases "n = 1")
    case True
    then show ?thesis by (simp add: bit_length.simps)
  next
    case False
    with "1.prems" have pos: "0 < n div 2" and nz: "n \<noteq> 0" by auto
    from "1.IH" [OF nz pos]
    have "2 ^ (bit_length (n div 2) - 1) \<le> n div 2" "n div 2 < 2 ^ bit_length (n div 2)"
      "0 < bit_length (n div 2)" by simp_all
    moreover from this obtain k where "bit_length (n div 2) = Suc k"
      using gr0_conv_Suc by blast
    ultimately show ?thesis using nz by (simp add: bit_length.simps [of n]) linarith
  qed
qed

lemma bit_length_le_iff: "bit_length n \<le> k \<longleftrightarrow> n < 2 ^ k"
proof (cases "n = 0")
  case True
  then show ?thesis by (simp add: bit_length.simps)
next
  case False
  then have b: "2 ^ (bit_length n - 1) \<le> n" "n < 2 ^ bit_length n" "0 < bit_length n"
    using bit_length_bounds [of n] by auto
  show ?thesis
  proof
    assume "bit_length n \<le> k"
    then have "(2::nat) ^ bit_length n \<le> 2 ^ k" by (simp add: power_increasing)
    with b show "n < 2 ^ k" by linarith
  next
    assume "n < 2 ^ k"
    with b have "(2::nat) ^ (bit_length n - 1) < 2 ^ k" by linarith
    then have "bit_length n - 1 < k" by (simp add: power_strict_increasing_iff)
    with b show "bit_length n \<le> k" by linarith
  qed
qed

text \<open>A magnitude is its exponent field and significand again.\<close>

lemma bits_decompose:
  "(exponent_of_bits b - 1) * 2 ^ 52 + significand_of_bits b = b"
proof (cases "b div 2 ^ 52")
  case 0
  then show ?thesis by (simp add: exponent_of_bits_def significand_of_bits_def)
next
  case (Suc k)
  have "b = b div 2 ^ 52 * 2 ^ 52 + b mod 2 ^ 52" by simp
  with Suc show ?thesis
    by (simp add: exponent_of_bits_def significand_of_bits_def del: div_mult_mod_eq)
qed

lemma significand_less: "significand_of_bits b < 2 ^ 53"
proof (cases "b div 2 ^ 52 = 0")
  case True
  then have "b < 2 ^ 52" by (simp add: div_eq_0_iff)
  with True show ?thesis by (simp add: significand_of_bits_def)
next
  case False
  have "b mod 2 ^ 52 < (2::nat) ^ 52" by simp
  then have "2 ^ 52 + b mod 2 ^ 52 < (2::nat) ^ 52 + 2 ^ 52" by (rule add_strict_left_mono)
  then have "2 ^ 52 + b mod 2 ^ 52 < (2::nat) ^ 53" by simp
  with False show ?thesis by (simp add: significand_of_bits_def)
qed

lemma significand_normal: "1 < exponent_of_bits b \<Longrightarrow> 2 ^ 52 \<le> significand_of_bits b"
  by (auto simp: exponent_of_bits_def significand_of_bits_def)

text \<open>
  Rounding is exact near a representable value: any \<open>p / q\<close> closer to the value of \<open>b\<close>
  than half the distance to its neighbours rounds to \<open>b\<close>. Below a power of two the lower
  neighbour is twice as close, hence the last hypothesis.
\<close>

lemma round_to_bits_near:
  fixes p q b :: nat
  defines "A \<equiv> p * dbl_unit" and "e \<equiv> exponent_of_bits b" and "S \<equiv> significand_of_bits b"
  defines "Q \<equiv> q * 2 ^ e"
  assumes q: "0 < q" and fin: "b < infinity_bits"
    and upper: "2 * A < (2 * S + 1) * Q" and lower: "2 * S * Q < 2 * A + Q"
    and below: "S = 2 ^ 52 \<Longrightarrow> 4 * S * Q < 4 * A + Q"
  shows "round_to_bits p q = Some b"
proof -
  have e1: "1 \<le> e" by (simp add: e_def exponent_of_bits_def)
  have S_less: "S < 2 ^ 53" unfolding S_def by (rule significand_less)
  have Q_pos: "0 < Q" using q by (simp add: Q_def)
  have upto: "A < 2 ^ 53 * Q"
  proof -
    have "(2 * S + 1) * Q \<le> (2 * 2 ^ 53) * Q" using S_less by (intro mult_right_mono) simp_all
    with upper show ?thesis by linarith
  qed
  have n_upper: "A div q < 2 ^ (53 + e)"
  proof -
    have "A < 2 ^ (53 + e) * q" using upto by (simp add: Q_def power_add ac_simps)
    then show ?thesis using q by (simp add: less_mult_imp_div_less)
  qed
  show ?thesis
  proof (cases "2 ^ 52 * Q \<le> A \<or> e = 1")
    case True
    have "max 1 (bit_length (A div q) - 53) = e"
    proof (cases "e = 1")
      case True
      with n_upper bit_length_le_iff [of "A div q" "53 + e"] show ?thesis by simp
    next
      case False
      with True have "2 ^ 52 * Q \<le> A" by simp
      then have "2 ^ (52 + e) \<le> A div q"
        using q by (simp add: Q_def power_add ac_simps less_eq_div_iff_mult_less_eq)
      then have "\<not> bit_length (A div q) \<le> 52 + e" unfolding bit_length_le_iff by simp
      with n_upper e1 show ?thesis using bit_length_le_iff [of "A div q" "53 + e"] by simp
    qed
    moreover have "round_half_even A Q = S"
      by (rule round_half_even_near [OF Q_pos upper lower])
    moreover have "(e - 1) * 2 ^ 52 + S = b" unfolding e_def S_def by (rule bits_decompose)
    ultimately show ?thesis
      using fin [unfolded not_le [symmetric]] unfolding round_to_bits_def Let_def A_def [symmetric]
      by (simp only: Q_def [symmetric] if_False simp_thms)
  next
    case False
    then have low: "A < 2 ^ 52 * Q" and e2: "1 < e" using e1 by auto
    have S: "S = 2 ^ 52"
    proof -
      have "2 * S * Q < 2 * A + Q" by (rule lower)
      also have "\<dots> < 2 * (2 ^ 52 * Q) + Q" using low by linarith
      also have "\<dots> = (2 * 2 ^ 52 + 1) * Q" by (simp only: distrib_right mult_1 mult.assoc)
      finally have "2 * S < 2 * 2 ^ 52 + 1" by (simp only: mult_less_cancel2)
      then have "S \<le> 2 ^ 52" by simp
      with significand_normal [of b] e2 show ?thesis by (simp add: e_def S_def)
    qed
    obtain d where d: "e = Suc d" and d1: "1 \<le> d" using e2 by (cases e) auto
    define H where "H = q * 2 ^ d"
    have Q2: "Q = 2 * H" by (simp add: Q_def H_def d)
    have H_pos: "0 < H" using q by (simp add: H_def)
    have near: "4 * 2 ^ 52 * Q < 4 * A + Q" using below [OF S] unfolding S by simp
    have "2 ^ (52 + d) \<le> A div q"
    proof -
      have "2 ^ 52 * H \<le> A" using near Q2 H_pos by simp
      then show ?thesis
        using q by (simp add: H_def power_add ac_simps less_eq_div_iff_mult_less_eq)
    qed
    then have "\<not> bit_length (A div q) \<le> 52 + d" unfolding bit_length_le_iff by simp
    moreover have "A div q < 2 ^ (53 + d)"
    proof -
      have "A < 2 ^ (53 + d) * q" using low by (simp add: Q2 H_def power_add ac_simps)
      then show ?thesis using q by (simp add: less_mult_imp_div_less)
    qed
    ultimately have "max 1 (bit_length (A div q) - 53) = d"
      using d1 bit_length_le_iff [of "A div q" "53 + d"] by simp
    moreover have "round_half_even A H = 2 ^ 53"
      by (rule round_half_even_near [OF H_pos]) (use low near Q2 H_pos in simp_all)
    moreover have "b = (d - 1) * 2 ^ 52 + 2 ^ 53"
      using bits_decompose [of b] d d1 S by (cases d) (simp_all add: e_def [symmetric] S_def [symmetric])
    ultimately show ?thesis
      using fin [unfolded not_le [symmetric]] unfolding round_to_bits_def Let_def A_def [symmetric]
      by (simp only: H_def [symmetric] if_False simp_thms)
  qed
qed

text \<open>
  In particular a relative error of at most \<open>1 / (2 * 10^16)\<close> is harmless: a significand
  has 53 bits, less than \<open>10^16\<close>.
\<close>

lemma round_to_bits_relative:
  assumes q: "0 < q" and fin: "b < infinity_bits"
    and hi: "2 * 10 ^ 16 * (p * dbl_unit) \<le> (2 * 10 ^ 16 + 1) * (mag_of_bits b * q)"
    and lo: "2 * 10 ^ 16 * (mag_of_bits b * q) \<le> 2 * 10 ^ 16 * (p * dbl_unit) + mag_of_bits b * q"
  shows "round_to_bits p q = Some b"
proof -
  define A S Q where "A = p * dbl_unit" and "S = significand_of_bits b"
    and "Q = q * 2 ^ exponent_of_bits b"
  have Q_pos: "0 < Q" using q by (simp add: Q_def)
  have M: "mag_of_bits b * q = S * Q" by (simp add: mag_of_bits_def S_def Q_def)
  have "S < 2 ^ 53" unfolding S_def by (rule significand_less)
  then have "S * Q < 2 ^ 53 * Q" using Q_pos by (rule mult_strict_right_mono)
  also have "2 ^ 53 * Q < 10 ^ 16 * Q" by (rule mult_strict_right_mono) (use Q_pos in simp_all)
  finally have small: "S * Q < 10 ^ 16 * Q" .
  obtain T where T: "S * Q = T" by simp
  have hi': "2 * 10 ^ 16 * A \<le> (2 * 10 ^ 16 + 1) * (S * Q)" using hi by (simp only: M A_def)
  have lo': "2 * 10 ^ 16 * (S * Q) \<le> 2 * 10 ^ 16 * A + S * Q" using lo by (simp only: M A_def)
  have "2 * A < (2 * S + 1) * Q"
  proof -
    have "2 * A < 2 * (S * Q) + Q" using hi' small unfolding T by simp
    then show ?thesis by (simp only: distrib_right mult_1 mult.assoc)
  qed
  moreover have "2 * S * Q < 2 * A + Q"
  proof -
    have "2 * (S * Q) < 2 * A + Q" using lo' small unfolding T by simp
    then show ?thesis by (simp only: mult.assoc)
  qed
  moreover have "4 * S * Q < 4 * A + Q" if "S = 2 ^ 52"
  proof -
    have "2 * (S * Q) < 10 ^ 16 * Q" using that Q_pos by simp
    then have "4 * (S * Q) < 4 * A + Q" using lo' unfolding T by simp
    then show ?thesis by (simp only: mult.assoc)
  qed
  ultimately show ?thesis
    unfolding A_def S_def Q_def by (rule round_to_bits_near [OF q fin])
qed

text \<open>Rounding is monotone against a representable bound.\<close>

lemma round_to_bits_le:
  assumes q: "0 < q" and fin: "b < infinity_bits" and le: "p * dbl_unit \<le> mag_of_bits b * q"
  shows "\<exists>b'. round_to_bits p q = Some b' \<and> b' \<le> b"
proof -
  define A e S where "A = p * dbl_unit" and "e = exponent_of_bits b" and "S = significand_of_bits b"
  have S_less: "S < 2 ^ 53" unfolding S_def by (rule significand_less)
  have e1: "1 \<le> e" by (simp add: e_def exponent_of_bits_def)
  have b: "b = (e - 1) * 2 ^ 52 + S" using bits_decompose [of b] by (simp add: e_def S_def)
  have A: "A \<le> S * (q * 2 ^ e)" using le by (simp add: A_def S_def e_def mag_of_bits_def ac_simps)
  define E where "E = max 1 (bit_length (A div q) - 53)"
  have E1: "1 \<le> E" by (simp add: E_def)
  have n: "A div q < 2 ^ (53 + e)"
  proof -
    have "S * (q * 2 ^ e) < 2 ^ 53 * (q * 2 ^ e)"
      by (rule mult_strict_right_mono [OF S_less]) (use q in simp)
    with A have "A < 2 ^ 53 * (q * 2 ^ e)" by (rule le_less_trans)
    then have "A < 2 ^ (53 + e) * q" by (simp only: power_add ac_simps)
    then show ?thesis using q by (simp add: less_mult_imp_div_less)
  qed
  then have E_le: "E \<le> e" using e1 bit_length_le_iff [of "A div q" "53 + e"] by (simp add: E_def)
  have "(E - 1) * 2 ^ 52 + round_half_even A (q * 2 ^ E) \<le> b"
  proof (cases "E = e")
    case True
    have "round_half_even A (q * 2 ^ E) \<le> S"
      by (rule round_half_even_le) (use A q True in \<open>simp_all add: ac_simps\<close>)
    with True b show ?thesis by simp
  next
    case False
    with E_le have lt: "E < e" by simp
    have "A div q < 2 ^ (53 + E)" unfolding bit_length_le_iff [symmetric] by (simp add: E_def)
    then have "A < 2 ^ (53 + E) * q" using q by (simp add: div_less_iff_less_mult)
    then have "round_half_even A (q * 2 ^ E) \<le> 2 ^ 53"
      by (intro round_half_even_le) (use q in \<open>simp_all add: power_add ac_simps\<close>)
    then have "(E - 1) * 2 ^ 52 + round_half_even A (q * 2 ^ E) \<le> (E - 1 + 2) * 2 ^ 52" by simp
    also have "\<dots> \<le> e * 2 ^ 52" using lt E1 by (intro mult_right_mono) simp_all
    also have "\<dots> \<le> b"
    proof -
      have "2 ^ 52 \<le> S" using significand_normal [of b] lt E1 by (simp add: e_def S_def)
      with lt E1 show ?thesis unfolding b by (cases e) simp_all
    qed
    finally show ?thesis .
  qed
  moreover from this fin have "\<not> infinity_bits \<le> (E - 1) * 2 ^ 52 + round_half_even A (q * 2 ^ E)"
    by linarith
  ultimately show ?thesis
    unfolding round_to_bits_def Let_def A_def [symmetric] E_def [symmetric]
    by (simp only: if_False simp_thms option.inject ex_simps)
qed

end
