(* ===== verification/Double_Text.thy ===== *)
theory Double_Text
  imports Binary64
begin

text \<open>
  Decimal text of a \<open>double\<close>: \<open>std::from_chars\<close> (formats \<open>fixed\<close> and
  \<open>general\<close>) and \<open>std::to_chars(general, precision)\<close>, which is \<open>printf("%.Pg")\<close>
  in the C locale and also what \<open>operator<<\<close> prints with precision 6.
\<close>

section \<open>Reading\<close>

definition is_alnum_ascii :: "char \<Rightarrow> bool" where
  "is_alnum_ascii c \<longleftrightarrow> is_digit c \<or> (65 \<le> byte_of c \<and> byte_of c \<le> 90)
     \<or> (97 \<le> byte_of c \<and> byte_of c \<le> 122)"

definition lower_char :: "char \<Rightarrow> char" where
  "lower_char c = (if 65 \<le> byte_of c \<and> byte_of c \<le> 90 then char_of (byte_of c + 32) else c)"

text \<open>The magnitude bits of \<open>n * 10^t\<close>, correctly rounded.\<close>

definition round_decimal :: "nat \<Rightarrow> int \<Rightarrow> nat option" where
  "round_decimal n t =
     (if 0 \<le> t then round_to_bits (n * 10 ^ nat t) 1 else round_to_bits n (10 ^ nat (- t)))"

text \<open>An exponent part is consumed only when digits follow the \<open>e\<close> and its optional sign.\<close>

definition read_exponent :: "string \<Rightarrow> int \<times> string" where
  "read_exponent s =
     (if s \<noteq> [] \<and> lower_char (hd s) = CHR ''e'' then
        let r = tl s;
            signed = (r \<noteq> [] \<and> (hd r = CHR ''-'' \<or> hd r = CHR ''+''));
            body = (if signed then tl r else r);
            ds = takeWhile is_digit body
        in if ds = [] then (0, s)
           else (if signed \<and> hd r = CHR ''-'' then - int (dec_value ds) else int (dec_value ds),
                 dropWhile is_digit body)
      else (0, s))"

definition read_special :: "string \<Rightarrow> (nat \<times> string) option" where
  "read_special s =
     (let l = map lower_char s
      in if starts_with ''infinity'' l then Some (infinity_bits, drop 8 s)
         else if starts_with ''inf'' l then Some (infinity_bits, drop 3 s)
         else if starts_with ''nan'' l then
           (let r = drop 3 s;
                cs = takeWhile (\<lambda>c. is_alnum_ascii c \<or> c = CHR ''_'') (tl r);
                after = drop (length cs) (tl r)
            in if r \<noteq> [] \<and> hd r = CHR ''('' \<and> after \<noteq> [] \<and> hd after = CHR '')''
               then Some (infinity_bits + 2 ^ 51, tl after)
               else Some (infinity_bits + 2 ^ 51, r))
         else None)"

definition signed_bits :: "bool \<Rightarrow> nat \<Rightarrow> double" where
  "signed_bits negative b = of_nat (if negative then 2 ^ 63 + b else b)"

definition read_magnitude :: "bool \<Rightarrow> bool \<Rightarrow> string \<Rightarrow> double from_chars_result" where
  "read_magnitude general negative body =
     (let ip = takeWhile is_digit body;
          r1 = dropWhile is_digit body;
          point = (r1 \<noteq> [] \<and> hd r1 = CHR ''.'');
          fp = (if point then takeWhile is_digit (tl r1) else []);
          r2 = (if point then dropWhile is_digit (tl r1) else r1)
      in if ip = [] \<and> fp = [] then
           (case read_special body of
              None \<Rightarrow> Invalid_Argument
            | Some (b, rest) \<Rightarrow> Parsed (signed_bits negative b) rest)
         else
           (let n = dec_value (ip @ fp);
                (e, r3) = (if general then read_exponent r2 else (0, r2))
            in case round_decimal n (e - int (length fp)) of
                 None \<Rightarrow> Result_Out_Of_Range
               | Some b \<Rightarrow> (if b = 0 \<and> n \<noteq> 0 then Result_Out_Of_Range
                           else Parsed (signed_bits negative b) r3)))"

definition from_chars_double :: "bool \<Rightarrow> string \<Rightarrow> double from_chars_result" where
  "from_chars_double general s =
     (if s \<noteq> [] \<and> hd s = CHR ''-'' then read_magnitude general True (tl s)
      else read_magnitude general False s)"

section \<open>Printing\<close>

text \<open>
  For a positive magnitude \<open>m\<close> (in units of \<open>2^-1075\<close>) the decimal exponent is the
  power of ten of its leading digit.
\<close>

function small_exponent :: "nat \<Rightarrow> nat" where
  "small_exponent m =
     (if m = 0 \<or> dbl_unit \<le> m then 0 else Suc (small_exponent (10 * m)))"
  by pat_completeness auto
termination
  by (relation "measure (\<lambda>m. dbl_unit - m)") (auto intro!: diff_less_mono2)

declare small_exponent.simps [simp del]

definition decimal_exponent :: "nat \<Rightarrow> int" where
  "decimal_exponent m =
     (if dbl_unit \<le> m then int (length (to_string_nat (m div dbl_unit))) - 1
      else - int (small_exponent m))"

definition scale_round :: "nat \<Rightarrow> int \<Rightarrow> nat" where
  "scale_round m k =
     (if 0 \<le> k then round_half_even (m * 10 ^ nat k) (dbl_unit)
      else round_half_even m (dbl_unit * 10 ^ nat (- k)))"

text \<open>The \<open>P\<close> significant digits, as a number and the exponent of the first one.\<close>

definition decimal_digits :: "nat \<Rightarrow> nat \<Rightarrow> nat \<times> int" where
  "decimal_digits P m =
     (let x = decimal_exponent m; d = scale_round m (int P - 1 - x)
      in if d = 10 ^ P then (10 ^ (P - 1), x + 1) else (d, x))"

definition strip_zeros :: "string \<Rightarrow> string" where
  "strip_zeros s = rev (dropWhile (\<lambda>c. c = CHR ''0'') (rev s))"

definition with_fraction :: "string \<Rightarrow> string \<Rightarrow> string" where
  "with_fraction ip fp = (let f = strip_zeros fp in if f = [] then ip else ip @ CHR ''.'' # f)"

definition exponent_text :: "int \<Rightarrow> string" where
  "exponent_text x =
     (let t = to_string_nat (nat \<bar>x\<bar>)
      in (if x < 0 then CHR ''-'' else CHR ''+'') # (if length t < 2 then CHR ''0'' # t else t))"

definition general_text :: "nat \<Rightarrow> nat \<Rightarrow> string" where
  "general_text P m =
     (if m = 0 then ''0''
      else let (d, x) = decimal_digits P m; ds = to_string_nat d
           in if - 4 \<le> x \<and> x < int P then
                (if 0 \<le> x then with_fraction (take (nat x + 1) ds) (drop (nat x + 1) ds)
                 else with_fraction ''0'' (replicate (nat (- x - 1)) (CHR ''0'') @ ds))
              else with_fraction (take 1 ds) (drop 1 ds) @ CHR ''e'' # exponent_text x)"

definition to_chars_general :: "nat \<Rightarrow> double \<Rightarrow> string" where
  "to_chars_general P w =
     (if dbl_negative w then ''-'' else '''') @
     (if isnan w then ''nan'' else if \<not> isfinite w then ''inf''
      else general_text P (mag_of_bits (dbl_bits w)))"

section \<open>Decimal values\<close>

definition dec_real :: "nat \<Rightarrow> int \<Rightarrow> real" where
  "dec_real n t = real n * 10 powi t"

lemma dec_real_shift: "dec_real (n * 10 ^ j) (t - int j) = dec_real n t"
  by (simp add: dec_real_def power_int_diff)

text \<open>A decimal within a relative \<open>1 / (2 * 10^16)\<close> of a value rounds to that value.\<close>

lemma round_decimal_near:
  assumes fin: "b < infinity_bits"
    and near: "\<bar>dec_real n t * real dbl_unit - real (mag_of_bits b)\<bar> \<le> real (mag_of_bits b) / (2 * 10 ^ 16)"
  shows "round_decimal n t = Some b"
proof -
  have key: "round_to_bits p q = Some b"
    if q: "0 < q" and val: "dec_real n t = real p / real q" for p q
  proof (rule round_to_bits_relative [OF q fin])
    define P M where "P = real p * real dbl_unit" and "M = real (mag_of_bits b)"
    have q': "0 < real q" using q by simp
    have "\<bar>P / real q - M\<bar> \<le> M / (2 * 10 ^ 16)"
      using near by (simp add: val P_def M_def)
    then have "P / real q \<le> M + M / (2 * 10 ^ 16)" "M \<le> P / real q + M / (2 * 10 ^ 16)"
      by linarith+
    then have "P \<le> (M + M / (2 * 10 ^ 16)) * real q" "M * real q \<le> P + M / (2 * 10 ^ 16) * real q"
      using q' by (simp_all add: field_simps)
    then have R: "2 * 10 ^ 16 * P \<le> (2 * 10 ^ 16 + 1) * (M * real q)"
      "2 * 10 ^ 16 * (M * real q) \<le> 2 * 10 ^ 16 * P + M * real q"
      by (simp_all add: field_simps)
    have "real (2 * 10 ^ 16 * (p * dbl_unit)) \<le> real ((2 * 10 ^ 16 + 1) * (mag_of_bits b * q))"
      using R(1) by (simp add: P_def M_def)
    then show "2 * 10 ^ 16 * (p * dbl_unit) \<le> (2 * 10 ^ 16 + 1) * (mag_of_bits b * q)"
      by (simp only: of_nat_le_iff)
    have "real (2 * 10 ^ 16 * (mag_of_bits b * q))
        \<le> real (2 * 10 ^ 16 * (p * dbl_unit) + mag_of_bits b * q)"
      using R(2) by (simp add: P_def M_def)
    then show "2 * 10 ^ 16 * (mag_of_bits b * q) \<le> 2 * 10 ^ 16 * (p * dbl_unit) + mag_of_bits b * q"
      by (simp only: of_nat_le_iff)
  qed
  show ?thesis
  proof (cases "0 \<le> t")
    case True
    then show ?thesis
      using key [of 1 "n * 10 ^ nat t"] by (simp add: round_decimal_def dec_real_def power_int_def)
  next
    case False
    have "dec_real n t = real n / real (10 ^ nat (- t))"
      using False by (simp add: dec_real_def power_int_def power_inverse field_simps)
    with False show ?thesis
      using key [of "10 ^ nat (- t)" n] by (simp add: round_decimal_def)
  qed
qed

section \<open>The printed digits\<close>

lemma small_exponent_bounds:
  "0 < m \<Longrightarrow> m < dbl_unit \<Longrightarrow>
     dbl_unit \<le> m * 10 ^ small_exponent m \<and> m * 10 ^ (small_exponent m - 1) < dbl_unit
       \<and> 0 < small_exponent m"
proof (induction m rule: small_exponent.induct)
  case (1 m)
  then have not: "\<not> (m = 0 \<or> dbl_unit \<le> m)" by linarith
  have unfold: "small_exponent m = Suc (small_exponent (10 * m))"
    by (subst small_exponent.simps) (simp only: not if_False)
  show ?case
  proof (cases "10 * m < dbl_unit")
    case True
    have pos: "0 < 10 * m" using "1.prems" by simp
    from "1.IH" [OF not pos True]
    have IH: "dbl_unit \<le> 10 * m * 10 ^ small_exponent (10 * m)"
      "10 * m * 10 ^ (small_exponent (10 * m) - 1) < dbl_unit" "0 < small_exponent (10 * m)"
      by blast+
    then obtain k where k: "small_exponent (10 * m) = Suc k" using gr0_conv_Suc by blast
    from IH(1,2) show ?thesis unfolding unfold k
      by (simp add: mult.assoc mult.left_commute)
  next
    case False
    then have "small_exponent (10 * m) = 0"
      by (subst small_exponent.simps) (simp only: not_less simp_thms if_True)
    with False "1.prems" show ?thesis unfolding unfold by (simp only: not_less) simp
  qed
qed

lemma decimal_exponent_bounds:
  assumes "0 < m"
  shows "10 powi decimal_exponent m * real dbl_unit \<le> real m"
    and "real m < 10 powi (decimal_exponent m + 1) * real dbl_unit"
proof -
  define U where "U = dbl_unit"
  have U_pos: "0 < U" by (simp add: U_def)
  have "10 powi decimal_exponent m * real U \<le> real m
      \<and> real m < 10 powi (decimal_exponent m + 1) * real U"
  proof (cases "U \<le> m")
    case True
    define n where "n = m div U"
    have n_pos: "0 < n" using True U_pos by (simp add: n_def div_greater_zero_iff)
    define l where "l = length (to_string_nat n)"
    have l_pos: "0 < l" by (simp add: l_def)
    have "n < 10 ^ l"
      using dec_value_less [OF to_string_nat_digits [of n]] by (simp add: l_def)
    moreover have "10 ^ (l - 1) \<le> n"
    proof (rule ccontr)
      assume "\<not> 10 ^ (l - 1) \<le> n"
      then have less: "n < 10 ^ (l - 1)" by simp
      then have "l - 1 \<noteq> 0" using n_pos by (intro notI) simp
      with length_to_string_nat [OF less] l_pos show False by (simp add: l_def)
    qed
    ultimately have "10 ^ (l - 1) * U \<le> m" "m < 10 ^ l * U"
      using U_pos by (simp_all add: n_def less_eq_div_iff_mult_less_eq div_less_iff_less_mult)
    then have "real (10 ^ (l - 1) * U) \<le> real m" "real m < real (10 ^ l * U)"
      by (simp_all only: of_nat_le_iff of_nat_less_iff)
    moreover have "decimal_exponent m = int l - 1"
      using True by (simp add: decimal_exponent_def l_def n_def U_def)
    moreover obtain j where j: "l = Suc j" using l_pos by (cases l) auto
    ultimately have "decimal_exponent m = int j" "real (10 ^ j * U) \<le> real m"
      "real m < real (10 ^ Suc j * U)" by simp_all
    moreover have "int j + 1 = int (Suc j)" by simp
    ultimately show ?thesis by (simp only: power_int_of_nat of_nat_mult of_nat_power of_nat_numeral simp_thms)
  next
    case False
    define k where "k = small_exponent m"
    have k: "U \<le> m * 10 ^ k" "m * 10 ^ (k - 1) < U" "0 < k"
      using small_exponent_bounds [of m] assms False unfolding U_def k_def by (simp_all only: not_le)
    have "real U \<le> real (m * 10 ^ k)" "real (m * 10 ^ (k - 1)) < real U"
      using k(1,2) by (simp_all only: of_nat_le_iff of_nat_less_iff)
    then have R: "real U \<le> real m * 10 ^ k" "real m * 10 ^ (k - 1) < real U" by simp_all
    have x: "decimal_exponent m = - int k"
      using False by (simp add: decimal_exponent_def k_def U_def)
    have x1: "- int k + 1 = - int (k - 1)" using k(3) by simp
    have inv: "(10::real) powi (- int j) * real U = real U / 10 ^ j" for j
      unfolding power_int_minus power_int_of_nat divide_inverse by (rule mult.commute)
    from R show ?thesis unfolding x x1 inv by (simp add: pos_divide_le_eq pos_less_divide_eq)
  qed
  then show "10 powi decimal_exponent m * real dbl_unit \<le> real m"
    and "real m < 10 powi (decimal_exponent m + 1) * real dbl_unit" by (simp_all only: U_def)
qed



section \<open>The accuracy of the printed digits\<close>

lemma round_half_even_error:
  assumes "0 < q"
  shows "\<bar>real (round_half_even p q) - real p / real q\<bar> \<le> 1 / 2"
proof -
  define n r where "n = p div q" and "r = p mod q"
  have p: "real p = real n * real q + real r" and r: "r < q"
    using assms by (simp_all add: n_def r_def flip: of_nat_mult of_nat_add)
  have q: "0 < real q" using assms by simp
  have v: "real p / real q = real n + real r / real q" using p q by (simp add: field_simps)
  show ?thesis
  proof (cases "2 * r < q \<or> (2 * r = q \<and> even n)")
    case True
    then have "2 * r \<le> q" by auto
    then have "real (2 * r) \<le> real q" by (simp only: of_nat_le_iff)
    then have "real r / real q \<le> 1 / 2" using q by (simp add: field_simps)
    moreover have "0 \<le> real r / real q" by simp
    moreover have "round_half_even p q = n"
      using True by (simp add: round_half_even_def Let_def flip: n_def r_def)
    ultimately show ?thesis using v by simp
  next
    case False
    then have "q \<le> 2 * r" by auto
    then have "real q \<le> real (2 * r)" by (simp only: of_nat_le_iff)
    then have "1 / 2 \<le> real r / real q" using q by (simp add: field_simps)
    moreover have "real r / real q < 1" using r q by simp
    moreover have "round_half_even p q = n + 1"
      using False by (simp add: round_half_even_def Let_def flip: n_def r_def)
    ultimately show ?thesis using v by simp
  qed
qed

lemma scale_round_error:
  "\<bar>real (scale_round m k) - real m * 10 powi k / real dbl_unit\<bar> \<le> 1 / 2"
proof (cases "0 \<le> k")
  case True
  then show ?thesis
    using round_half_even_error [of dbl_unit "m * 10 ^ nat k"]
    by (simp add: scale_round_def power_int_def)
next
  case False
  then show ?thesis
    using round_half_even_error [of "dbl_unit * 10 ^ nat (- k)" m]
    by (simp add: scale_round_def power_int_def power_inverse field_simps)
qed

text \<open>
  The printed digits are exactly \<open>P\<close> digits and differ from the value by at most half a unit
  in the last place.
\<close>

lemma decimal_digits_accurate:
  assumes m: "0 < m" and dx: "decimal_digits (Suc Q) m = (d, y)"
  shows "10 ^ Q \<le> d" and "d < 10 ^ Suc Q"
    and "\<bar>dec_real d (y - int Q) * real dbl_unit - real m\<bar> \<le> real m / (2 * 10 ^ Q)"
proof -
  define x where "x = decimal_exponent m"
  define k where "k = int Q - x"
  define U where "U = real dbl_unit"
  define c where "c = scale_round m k"
  define V where "V = real m * 10 powi k / U"
  have U: "0 < U" by (simp add: U_def)
  have c: "\<bar>real c - V\<bar> \<le> 1 / 2"
    using scale_round_error [of m k] by (simp add: c_def V_def U_def)
  have b: "10 powi x * U \<le> real m" "real m < 10 powi (x + 1) * U"
    using decimal_exponent_bounds [OF m] by (simp_all add: x_def U_def)
  have V: "10 ^ Q \<le> V" "V < 10 ^ Suc Q"
  proof -
    have s: "10 powi x * 10 powi k = (10::real) ^ Q" "10 powi (x + 1) * 10 powi k = (10::real) ^ Suc Q"
    proof -
      have "x + k = int Q" "x + 1 + k = int (Suc Q)" by (simp_all add: k_def)
      then show "10 powi x * 10 powi k = (10::real) ^ Q"
        "10 powi (x + 1) * 10 powi k = (10::real) ^ Suc Q"
        using power_int_add [of "10::real" x k] power_int_add [of "10::real" "x + 1" k]
        by (simp_all only: power_int_of_nat) simp_all
    qed
    have "10 powi x * U * 10 powi k \<le> real m * 10 powi k" using b(1) by (intro mult_right_mono) simp_all
    moreover have "10 powi x * U * 10 powi k = 10 ^ Q * U" by (simp only: s(1) [symmetric] ac_simps)
    ultimately have "10 ^ Q * U \<le> real m * 10 powi k" by simp
    then show "10 ^ Q \<le> V" using U by (simp add: V_def pos_le_divide_eq)
    have "real m * 10 powi k < 10 powi (x + 1) * U * 10 powi k"
      using b(2) by (intro mult_strict_right_mono) simp_all
    moreover have "10 powi (x + 1) * U * 10 powi k = 10 ^ Suc Q * U" by (simp only: s(2) [symmetric] ac_simps)
    ultimately have "real m * 10 powi k < 10 ^ Suc Q * U" by simp
    then show "V < 10 ^ Suc Q" using U by (simp add: V_def pos_divide_less_eq)
  qed
  have lo: "10 ^ Q \<le> c"
  proof -
    have "real (10 ^ Q) < real (c + 1)"
      unfolding of_nat_power of_nat_numeral of_nat_add of_nat_1 using V(1) c by linarith
    then show ?thesis unfolding of_nat_less_iff by simp
  qed
  have hi: "c \<le> 10 ^ Suc Q"
  proof -
    have "real c < real (10 ^ Suc Q + 1)"
      unfolding of_nat_power of_nat_numeral of_nat_add of_nat_1 using V(2) c by linarith
    then show ?thesis unfolding of_nat_less_iff by simp
  qed
  have near: "\<bar>dec_real c (x - int Q) * U - real m\<bar> \<le> real m / (2 * 10 ^ Q)"
  proof -
    define E where "E = (10::real) powi (x - int Q)"
    have E: "0 < E" by (simp add: E_def)
    have kE: "10 powi k * E = 1"
      by (simp add: E_def k_def flip: power_int_add)
    have "V * (E * U) = real m * (10 powi k * E)" using U by (simp add: V_def)
    then have mV: "real m = V * (E * U)" by (simp add: kE)
    have "dec_real c (x - int Q) * U - real m = (real c - V) * (E * U)"
      by (simp add: dec_real_def E_def [symmetric] mV algebra_simps)
    then have "\<bar>dec_real c (x - int Q) * U - real m\<bar> = \<bar>real c - V\<bar> * (E * U)"
      using E U by (simp add: abs_mult)
    also have "\<dots> \<le> 1 / 2 * (E * U)" using c E U by (intro mult_right_mono) simp_all
    also have "E * U \<le> real m / 10 ^ Q"
    proof -
      have "E * 10 ^ Q = 10 powi x" by (simp add: E_def power_int_diff)
      then have "E * U * 10 ^ Q = 10 powi x * U" by (metis mult.assoc mult.commute)
      with b(1) have "E * U * 10 ^ Q \<le> real m" by (simp only:)
      then show ?thesis by (simp add: field_simps)
    qed
    finally show ?thesis by simp
  qed
  have cases: "(d, y) = (if c = 10 ^ Suc Q then (10 ^ Q, x + 1) else (c, x))"
    using dx by (auto simp: decimal_digits_def Let_def x_def c_def k_def split: if_splits)
  show "10 ^ Q \<le> d" using cases lo by (simp split: if_splits)
  show "d < 10 ^ Suc Q" using cases hi by (auto split: if_splits)
  show "\<bar>dec_real d (y - int Q) * real dbl_unit - real m\<bar> \<le> real m / (2 * 10 ^ Q)"
  proof (cases "c = 10 ^ Suc Q")
    case True
    then have "c = 10 ^ Q * 10 ^ 1" by simp
    then have "dec_real d (y - int Q) = dec_real c (x - int Q)"
      using cases True dec_real_shift [of "10 ^ Q" 1 "x + 1 - int Q"] by (simp add: mult.commute [of 10])
    with near show ?thesis by (simp add: U_def)
  next
    case False
    with cases near show ?thesis by (simp add: U_def)
  qed
qed

section \<open>Printed text reads back\<close>

lemma strip_zeros_split: "\<exists>j. s = strip_zeros s @ replicate j (CHR ''0'')"
proof -
  let ?z = "\<lambda>c. c = CHR ''0''"
  have "rev s = takeWhile ?z (rev s) @ dropWhile ?z (rev s)" by simp
  then have "s = rev (dropWhile ?z (rev s)) @ rev (takeWhile ?z (rev s))"
    by (metis rev_append rev_rev_ident)
  moreover have "takeWhile ?z (rev s) = replicate (length (takeWhile ?z (rev s))) (CHR ''0'')"
    by (rule replicate_eqI [symmetric, THEN sym]) (auto dest: set_takeWhileD)
  ultimately have "s = strip_zeros s @ replicate (length (takeWhile ?z (rev s))) (CHR ''0'')"
    unfolding strip_zeros_def by (metis rev_replicate)
  then show ?thesis by blast
qed

lemma strip_zeros_digits: "list_all is_digit s \<Longrightarrow> list_all is_digit (strip_zeros s)"
  using strip_zeros_split [of s] by (metis list_all_append)

lemma dec_value_zeros [simp]: "dec_value (replicate j (CHR ''0'')) = 0"
  by (induction j) (simp_all add: dec_value_Cons digit_value_def byte_of_def)

lemma dec_real_strip:
  "dec_real (dec_value (ip @ strip_zeros fp)) (e - int (length (strip_zeros fp)))
     = dec_real (dec_value (ip @ fp)) (e - int (length fp))"
proof -
  obtain j where j: "fp = strip_zeros fp @ replicate j (CHR ''0'')"
    using strip_zeros_split by blast
  define f where "f = strip_zeros fp"
  have fp: "fp = f @ replicate j (CHR ''0'')" using j by (simp add: f_def)
  have "dec_value (ip @ fp) = dec_value (ip @ f) * 10 ^ j"
    using dec_value_append [of "ip @ f" "replicate j (CHR ''0'')"] by (simp add: fp)
  then show ?thesis unfolding f_def [symmetric]
    using dec_real_shift [of "dec_value (ip @ f)" j "e - int (length f)"]
    by (simp add: fp algebra_simps)
qed

definition number_end :: "string \<Rightarrow> bool" where
  "number_end t \<longleftrightarrow> t = [] \<or> (\<not> is_digit (hd t) \<and> hd t \<noteq> CHR ''.'')"

lemma number_end_while [simp]:
  "number_end t \<Longrightarrow> takeWhile is_digit t = []" "number_end t \<Longrightarrow> dropWhile is_digit t = t"
  by (cases t; simp add: number_end_def)+

text \<open>Reading back a number with a fraction and whatever follows it.\<close>

lemma read_magnitude_with_fraction:
  assumes ip: "list_all is_digit ip" "ip \<noteq> []" and fp: "list_all is_digit fp"
    and t: "number_end tail" and e: "read_exponent tail = (e, rest)"
    and fin: "b < infinity_bits" "b \<noteq> 0"
    and near: "\<bar>dec_real (dec_value (ip @ fp)) (e - int (length fp)) * real dbl_unit
        - real (mag_of_bits b)\<bar> \<le> real (mag_of_bits b) / (2 * 10 ^ 16)"
  shows "read_magnitude True negative (with_fraction ip fp @ tail) =
    Parsed (signed_bits negative b) rest"
proof -
  define f where "f = strip_zeros fp"
  have f: "list_all is_digit f" using strip_zeros_digits [OF fp] by (simp add: f_def)
  have r: "round_decimal (dec_value (ip @ f)) (e - int (length f)) = Some b"
    by (rule round_decimal_near [OF fin(1)]) (use near in \<open>simp add: dec_real_strip f_def\<close>)
  have t': "(tail \<noteq> [] \<and> hd tail = CHR ''.'') = False" using t by (auto simp: number_end_def)
  show ?thesis
  proof (cases "f = []")
    case True
    then have shape: "with_fraction ip fp = ip" by (simp add: with_fraction_def f_def)
    have r': "round_decimal (dec_value ip) e = Some b" using r True by simp
    show ?thesis unfolding shape read_magnitude_def Let_def
      using ip t e fin(2) by (simp add: r' t')
  next
    case False
    then have shape: "with_fraction ip fp = ip @ CHR ''.'' # f"
      by (simp add: with_fraction_def f_def Let_def)
    show ?thesis unfolding shape read_magnitude_def Let_def
      using ip f t e fin(2) by (simp add: r)
  qed
qed

lemma read_exponent_Nil [simp]: "read_exponent [] = (0, [])"
  by (simp add: read_exponent_def)

lemma read_exponent_text [simp]: "read_exponent (CHR ''e'' # exponent_text x) = (x, [])"
proof -
  define t where "t = to_string_nat (nat \<bar>x\<bar>)"
  define u where "u = (if length t < 2 then CHR ''0'' # t else t)"
  have "list_all is_digit t" by (simp add: t_def to_string_nat_digits)
  then have u: "list_all is_digit u"
    by (simp add: u_def is_digit_def [of "CHR ''0''"] byte_of_def)
  have v: "dec_value u = nat \<bar>x\<bar>"
    by (simp add: u_def t_def dec_value_Cons digit_value_def byte_of_def)
  have ne: "u \<noteq> []" by (simp add: u_def t_def)
  have low: "lower_char (CHR ''e'') = CHR ''e''" by (simp add: lower_char_def byte_of_def)
  have "exponent_text x = (if x < 0 then CHR ''-'' else CHR ''+'') # u"
    by (simp add: exponent_text_def Let_def t_def u_def)
  then show ?thesis
    using u v ne by (simp add: read_exponent_def Let_def low)
qed

lemma length_17:
  assumes "10 ^ 16 \<le> d" "d < 10 ^ 17"
  shows "length (to_string_nat d) = 17"
proof -
  have "length (to_string_nat d) \<le> 17" using length_to_string_nat [OF assms(2)] by simp
  moreover have "\<not> length (to_string_nat d) \<le> 16"
  proof
    assume "length (to_string_nat d) \<le> 16"
    moreover have "d < 10 ^ length (to_string_nat d)"
      using dec_value_less [OF to_string_nat_digits [of d]] by simp
    ultimately have "d < 10 ^ 16" by (meson less_le_trans one_le_numeral power_increasing)
    with assms(1) show False by simp
  qed
  ultimately show ?thesis by simp
qed

lemma read_magnitude_general_text:
  assumes fin: "b < infinity_bits" and b: "b \<noteq> 0"
  shows "read_magnitude True negative (general_text 17 (mag_of_bits b)) =
    Parsed (signed_bits negative b) []"
proof -
  define m where "m = mag_of_bits b"
  have m: "0 < m"
  proof -
    have "0 < significand_of_bits b"
      using b by (auto simp: significand_of_bits_def)
    then show ?thesis by (simp add: m_def mag_of_bits_def)
  qed
  obtain d x where dx: "decimal_digits 17 m = (d, x)" by fastforce
  note acc = decimal_digits_accurate [of m 16 d x, OF m, simplified, OF dx]
  define ds where "ds = to_string_nat d"
  have ds: "list_all is_digit ds" "length ds = 17" "dec_value ds = d"
    using length_17 acc by (simp_all add: ds_def to_string_nat_digits)
  have near: "\<bar>dec_real d (x - 16) * real dbl_unit - real (mag_of_bits b)\<bar>
      \<le> real (mag_of_bits b) / (2 * 10 ^ 16)"
    using acc(3) by (simp add: m_def)
  have read: "read_magnitude True negative (with_fraction ip fp @ tail) =
      Parsed (signed_bits negative b) []"
    if "list_all is_digit ip" "ip \<noteq> []" "list_all is_digit fp" "number_end tail"
      "read_exponent tail = (e, [])" "dec_value (ip @ fp) = d" "e - int (length fp) = x - 16"
    for ip fp tail e
    by (rule read_magnitude_with_fraction [OF that(1-5) fin b]) (simp only: that(6,7) near)
  have part: "list_all is_digit (take j ds)" "list_all is_digit (drop j ds)" for j
    using ds(1) by (auto simp: list_all_iff dest: in_set_takeD in_set_dropD)
  have end_Nil: "number_end []" by (simp add: number_end_def)
  consider (plain) "0 \<le> x" "x < 17" | (small) "- 4 \<le> x" "x < 0" | (sci) "x < - 4 \<or> 17 \<le> x"
    by linarith
  then show ?thesis
  proof cases
    case plain
    have "general_text 17 m = with_fraction (take (nat x + 1) ds) (drop (nat x + 1) ds) @ []"
      using plain m dx by (simp add: general_text_def ds_def Let_def)
    moreover have "0 - int (length (drop (nat x + 1) ds)) = x - 16" using plain ds(2) by simp
    moreover have "take (nat x + 1) ds \<noteq> []" using ds(2) by (cases ds) auto
    ultimately show ?thesis
      using read [OF part(1) _ part(2) end_Nil read_exponent_Nil, of "nat x + 1" "nat x + 1"] ds(3)
      by (simp add: m_def)
  next
    case small
    define z where "z = replicate (nat (- x - 1)) (CHR ''0'')"
    have "general_text 17 m = with_fraction ''0'' (z @ ds) @ []"
      using small m dx by (simp add: general_text_def ds_def z_def Let_def)
    moreover have "0 - int (length (z @ ds)) = x - 16" using small ds(2) by (simp add: z_def)
    moreover have "dec_value (''0'' @ z @ ds) = d"
      using ds(3) dec_value_append [of "replicate (Suc (nat (- x - 1))) (CHR ''0'')" ds]
        dec_value_zeros [of "Suc (nat (- x - 1))"]
      by (simp add: z_def)
    moreover have "list_all is_digit (z @ ds)" "list_all is_digit ''0''"
      using ds(1) by (auto simp: z_def list_all_iff is_digit_def byte_of_def)
    ultimately show ?thesis
      using read [of "''0''" "z @ ds" "[]" 0] end_Nil by (simp add: m_def)
  next
    case sci
    have "general_text 17 m = with_fraction (take 1 ds) (drop 1 ds) @ CHR ''e'' # exponent_text x"
      using sci m dx by (auto simp: general_text_def ds_def Let_def)
    moreover have "x - int (length (drop 1 ds)) = x - 16" using ds(2) by simp
    moreover have "take 1 ds \<noteq> []" using ds(2) by (cases ds) auto
    moreover have "number_end (CHR ''e'' # exponent_text x)" by (simp add: number_end_def)
    ultimately show ?thesis
      using read [OF part(1) _ part(2) _ read_exponent_text, of 1 x 1] ds(3)
      by (simp add: m_def)
  qed
qed

lemma with_fraction_hd: "ip \<noteq> [] \<Longrightarrow> hd (with_fraction ip fp @ t) = hd ip"
  by (simp add: with_fraction_def Let_def)

lemma general_text_hd: "hd (general_text P m @ t) \<noteq> CHR ''-''"
proof (cases "m = 0")
  case True
  then show ?thesis by (simp add: general_text_def)
next
  case False
  obtain d x where dx: "decimal_digits P m = (d, x)" by fastforce
  have "take (Suc j) (to_string_nat d) \<noteq> []" for j by (cases "to_string_nat d") simp_all
  moreover have "hd (take (Suc j) (to_string_nat d)) \<noteq> CHR ''-''" for j
    using hd_to_string_nat_not_minus [of d] by simp
  ultimately show ?thesis
    using False dx with_fraction_hd [of "''0''" _ t]
      with_fraction_hd [of "take (Suc j) (to_string_nat d)" for j]
    by (simp add: general_text_def Let_def)
qed

lemma signed_dbl_bits: "signed_bits (dbl_negative w) (dbl_bits w) = w"
proof -
  obtain H :: nat where H: "H = 2 ^ 63" by simp
  have "unat w < 2 ^ 64" using unsigned_less [of w, where ?'a = nat] by simp
  then have "unat w < H + H" by (simp add: H)
  then have "(if H \<le> unat w then H + unat w mod H else unat w mod H) = unat w"
    by (simp add: le_mod_geq)
  then have "(if dbl_negative w then 2 ^ 63 + dbl_bits w else dbl_bits w) = unat w"
    by (simp only: dbl_negative_def dbl_bits_def H)
  then show ?thesis unfolding signed_bits_def by simp
qed

lemma mag_zero [simp]: "mag_of_bits 0 = 0"
  by (simp add: mag_of_bits_def significand_of_bits_def)

text \<open>
  17 significant digits identify a finite value: what \<open>to_chars\<close> prints,
  \<open>from_chars\<close> reads back as the same bits.
\<close>

theorem to_chars_read_back:
  assumes "isfinite w"
  shows "from_chars_double True (to_chars_general 17 w) = Parsed w []"
proof -
  let ?b = "dbl_bits w"
  have fin: "?b < infinity_bits" using assms by (simp add: isfinite_def)
  have shape: "to_chars_general 17 w =
      (if dbl_negative w then ''-'' else []) @ general_text 17 (mag_of_bits ?b)"
    using assms isfinite_not_isnan by (simp add: to_chars_general_def)
  have read: "read_magnitude True negative (general_text 17 (mag_of_bits ?b)) =
      Parsed (signed_bits negative ?b) []" for negative
  proof (cases "?b = 0")
    case True
    have "round_decimal 0 0 = Some 0"
      by (simp add: round_decimal_def round_to_bits_def round_half_even_def bit_length.simps [of 0]
          infinity_bits_def)
    with True show ?thesis
      by (simp add: general_text_def read_magnitude_def Let_def is_digit_def byte_of_def
          dec_value_def digit_value_def)
  next
    case False
    with fin show ?thesis by (rule read_magnitude_general_text)
  qed
  show ?thesis
    unfolding shape from_chars_double_def
    using read signed_dbl_bits [of w] general_text_hd [of 17 "mag_of_bits ?b" "[]"]
    by (auto split: if_splits)
qed

section \<open>The length of the printed text\<close>

lemma small_exponent_le: "0 < m \<Longrightarrow> small_exponent m \<le> 1076"
proof (cases "m < dbl_unit")
  case True
  assume m: "0 < m"
  from small_exponent_bounds [OF m True] have b: "m * 10 ^ (small_exponent m - 1) < dbl_unit" by blast
  have "(2::nat) ^ (small_exponent m - 1) \<le> 10 ^ (small_exponent m - 1)" by (rule power_mono) simp_all
  also have "\<dots> \<le> m * 10 ^ (small_exponent m - 1)" using m by simp
  finally have "(2::nat) ^ (small_exponent m - 1) < 2 ^ 1075" using b unfolding dbl_unit_def by (rule le_less_trans)
  then have "small_exponent m - 1 < 1075" by (simp only: power_strict_increasing_iff one_less_numeral_iff semiring_norm)
  then show ?thesis by simp
next
  case False
  then show ?thesis by (simp add: small_exponent.simps [of m])
qed

lemma decimal_exponent_le:
  assumes "0 < m" and "m < 2 ^ 1025 * dbl_unit"
  shows "- 1076 \<le> decimal_exponent m" and "decimal_exponent m \<le> 1025"
proof -
  show "- 1076 \<le> decimal_exponent m"
    using small_exponent_le [OF assms(1)] by (auto simp: decimal_exponent_def)
  have "m div dbl_unit < 2 ^ 1025" using assms(2) by (rule less_mult_imp_div_less)
  also have "(2::nat) ^ 1025 \<le> 10 ^ 1025" by (rule power_mono) simp_all
  finally have "length (to_string_nat (m div dbl_unit)) \<le> 1025" by (rule length_to_string_nat) simp
  then show "decimal_exponent m \<le> 1025" by (auto simp: decimal_exponent_def)
qed

lemma mag_of_bits_less:
  assumes "b < infinity_bits"
  shows "mag_of_bits b < 2 ^ 1025 * dbl_unit"
proof -
  have "b div 2 ^ 52 < 2047"
    using assms unfolding infinity_bits_def by (rule less_mult_imp_div_less)
  then have "exponent_of_bits b \<le> 2046" by (simp add: exponent_of_bits_def)
  then have "(2::nat) ^ exponent_of_bits b \<le> 2 ^ 2046" by (rule power_increasing) simp
  then have "mag_of_bits b \<le> significand_of_bits b * 2 ^ 2046"
    unfolding mag_of_bits_def by (rule mult_left_mono) simp
  also have "\<dots> < 2 ^ 53 * 2 ^ 2046"
    by (rule mult_strict_right_mono [OF significand_less]) (rule zero_less_power, simp)
  also have "\<dots> = 2 ^ 2099" unfolding power_add [symmetric] by (rule arg_cong [of _ _ "power 2"]) simp
  also have "\<dots> \<le> (2::nat) ^ 2100" by (rule power_increasing) simp_all
  also have "\<dots> = 2 ^ 1025 * dbl_unit"
    unfolding dbl_unit_def power_add [symmetric] by (rule arg_cong [of _ _ "power 2"]) simp
  finally show ?thesis .
qed

lemma with_fraction_length: "length (with_fraction ip fp) \<le> length ip + 1 + length fp"
proof -
  have "length (strip_zeros fp) \<le> length fp"
    using length_dropWhile_le [of "\<lambda>c. c = CHR ''0''" "rev fp"] by (simp add: strip_zeros_def)
  then show ?thesis by (simp add: with_fraction_def Let_def)
qed

text \<open>A printed finite value always fits the 64 bytes the code reserves.\<close>

lemma general_text_length_le:
  assumes "b < infinity_bits" and Q: "Q < 17"
  shows "length (general_text (Suc Q) (mag_of_bits b)) \<le> 63"
proof (cases "mag_of_bits b = 0")
  case True
  then show ?thesis by (simp add: general_text_def)
next
  case False
  define m where "m = mag_of_bits b"
  have m: "0 < m" using False by (simp add: m_def)
  note x = decimal_exponent_le [OF m, unfolded m_def, OF mag_of_bits_less [OF assms(1)], folded m_def]
  obtain d y where dy: "decimal_digits (Suc Q) m = (d, y)" by fastforce
  have y: "- 1076 \<le> y" "y \<le> 1026"
    using dy x by (auto simp: decimal_digits_def Let_def split: if_splits)
  have "d < 10 ^ Suc Q"
    using decimal_digits_accurate [OF m dy] by simp
  then have "length (to_string_nat d) \<le> Suc Q" by (rule length_to_string_nat) simp
  with Q have d: "length (to_string_nat d) \<le> 17" by simp
  have "length (to_string_nat (nat \<bar>y\<bar>)) \<le> 4" by (rule length_to_string_nat) (use y in simp_all)
  then have e: "length (exponent_text y) \<le> 6" by (simp add: exponent_text_def Let_def)
  have small: "length (with_fraction ''0'' (replicate (nat (- y - 1)) (CHR ''0'') @ to_string_nat d))
      \<le> 63" if "- 4 \<le> y"
    using with_fraction_length [of "''0''" "replicate (nat (- y - 1)) (CHR ''0'') @ to_string_nat d"]
      d that by simp
  have cut: "length (with_fraction (take j (to_string_nat d)) (drop j (to_string_nat d))) \<le> 18" for j
    using with_fraction_length [of "take j (to_string_nat d)" "drop j (to_string_nat d)"] d by simp
  show ?thesis
    using m dy e small cut [of "Suc (nat y)"] cut [of "Suc 0"]
    by (auto simp: general_text_def Let_def m_def [symmetric])
qed

lemma general_text_length:
  "b < infinity_bits \<Longrightarrow> length (general_text 17 (mag_of_bits b)) \<le> 63"
  using general_text_length_le [of b 16] by simp

lemma to_chars_general_length:
  assumes "isfinite w" "Q < 17"
  shows "length (to_chars_general (Suc Q) w) \<le> 64"
proof -
  have "dbl_bits w < infinity_bits" using assms(1) by (simp add: isfinite_def)
  from general_text_length_le [OF this assms(2)] assms(1) show ?thesis
    by (simp add: to_chars_general_def isfinite_not_isnan)
qed

end
