(* ===== verification/Network_Profile.thy ===== *)
theory Network_Profile
  imports Double_Text
begin

text \<open>
  \<open>include/netlaglab/network_profile.hpp\<close> and \<open>src/network_profile.cpp\<close>: the two
  directions of a session's Network Profile, its validation and the application of one
  Profile Change. A \<open>std::chrono::milliseconds\<close> count is a 64-bit word read as signed, a
  \<open>double\<close> its 64 bits, and an enumeration may hold a value that is no enumerator.
\<close>

section \<open>Data\<close>

datatype traffic_direction = Outbound | Inbound | Direction_Value int

datatype network_setting = Delay | Jitter | Packet_Loss | Bandwidth | Setting_Value int

record direction_settings =
  delay :: i64
  jitter :: i64
  packet_loss_percent :: double
  bandwidth_kbps :: "u64 option"

record network_profile =
  outbound :: direction_settings
  inbound :: direction_settings

record validation_error =
  error_direction :: traffic_direction
  error_setting :: network_setting
  error_message :: string

datatype profile_change =
    SetDelay traffic_direction i64
  | SetJitter traffic_direction i64
  | SetPacketLoss traffic_direction double
  | SetBandwidth traffic_direction u64
  | ResetSetting traffic_direction network_setting

definition default_settings :: direction_settings where
  "default_settings =
     \<lparr>delay = 0, jitter = 0, packet_loss_percent = dbl_zero, bandwidth_kbps = None\<rparr>"

definition default_profile :: network_profile where
  "default_profile = \<lparr>outbound = default_settings, inbound = default_settings\<rparr>"

text \<open>
  The defaulted \<open>operator==\<close>: memberwise, so \<open>packet_loss_percent\<close> is compared as a
  \<open>double\<close> (the two zeros are equal).
\<close>

definition settings_eq :: "direction_settings \<Rightarrow> direction_settings \<Rightarrow> bool" where
  "settings_eq a b \<longleftrightarrow> delay a = delay b \<and> jitter a = jitter b
     \<and> dbl_eq (packet_loss_percent a) (packet_loss_percent b)
     \<and> bandwidth_kbps a = bandwidth_kbps b"

definition profile_eq :: "network_profile \<Rightarrow> network_profile \<Rightarrow> bool" where
  "profile_eq a b \<longleftrightarrow> settings_eq (outbound a) (outbound b) \<and> settings_eq (inbound a) (inbound b)"

section \<open>Validation\<close>

definition make_error :: "traffic_direction \<Rightarrow> network_setting \<Rightarrow> string \<Rightarrow> validation_error" where
  "make_error d s m = \<lparr>error_direction = d, error_setting = s, error_message = m\<rparr>"

definition validate_direction ::
  "direction_settings \<Rightarrow> traffic_direction \<Rightarrow> validation_error list" where
  "validate_direction settings d =
     (if sint (delay settings) < 0
      then [make_error d Delay ''Delay cannot be negative''] else []) @
     (if sint (jitter settings) < 0
      then [make_error d Jitter ''Jitter cannot be negative''] else []) @
     (if \<not> isfinite (packet_loss_percent settings)
      then [make_error d Packet_Loss ''Packet loss must be a finite number'']
      else if dbl_less (packet_loss_percent settings) dbl_zero
           \<or> dbl_less dbl_hundred (packet_loss_percent settings)
      then [make_error d Packet_Loss ''Packet loss must be between 0 and 100''] else []) @
     (if bandwidth_kbps settings = Some 0
      then [make_error d Bandwidth ''Bandwidth limit must be greater than zero''] else [])"

definition validate :: "network_profile \<Rightarrow> validation_error list" where
  "validate profile =
     validate_direction (outbound profile) Outbound @ validate_direction (inbound profile) Inbound"

section \<open>Applying a change\<close>

fun change_direction :: "profile_change \<Rightarrow> traffic_direction" where
  "change_direction (SetDelay d _) = d"
| "change_direction (SetJitter d _) = d"
| "change_direction (SetPacketLoss d _) = d"
| "change_direction (SetBandwidth d _) = d"
| "change_direction (ResetSetting d _) = d"

fun change_setting :: "profile_change \<Rightarrow> network_setting" where
  "change_setting (SetDelay _ _) = Delay"
| "change_setting (SetJitter _ _) = Jitter"
| "change_setting (SetPacketLoss _ _) = Packet_Loss"
| "change_setting (SetBandwidth _ _) = Bandwidth"
| "change_setting (ResetSetting _ s) = s"

text \<open>The part of the visitor after the direction is chosen; \<open>Inl\<close> is the operation error.\<close>

fun change_settings ::
  "profile_change \<Rightarrow> direction_settings \<Rightarrow> validation_error + direction_settings" where
  "change_settings (SetDelay _ v) s = Inr (s\<lparr>delay := v\<rparr>)"
| "change_settings (SetJitter _ v) s = Inr (s\<lparr>jitter := v\<rparr>)"
| "change_settings (SetPacketLoss _ v) s = Inr (s\<lparr>packet_loss_percent := v\<rparr>)"
| "change_settings (SetBandwidth _ v) s = Inr (s\<lparr>bandwidth_kbps := Some v\<rparr>)"
| "change_settings (ResetSetting _ Delay) s = Inr (s\<lparr>delay := 0\<rparr>)"
| "change_settings (ResetSetting _ Jitter) s = Inr (s\<lparr>jitter := 0\<rparr>)"
| "change_settings (ResetSetting _ Packet_Loss) s = Inr (s\<lparr>packet_loss_percent := dbl_zero\<rparr>)"
| "change_settings (ResetSetting _ Bandwidth) s = Inr (s\<lparr>bandwidth_kbps := None\<rparr>)"
| "change_settings (ResetSetting d (Setting_Value i)) s =
     Inl (make_error d (Setting_Value i) ''Network setting is invalid'')"

definition visit_change ::
  "network_profile \<Rightarrow> profile_change \<Rightarrow> validation_error + network_profile" where
  "visit_change p c =
     (case change_direction c of
        Outbound \<Rightarrow> map_sum id (\<lambda>s. p\<lparr>outbound := s\<rparr>) (change_settings c (outbound p))
      | Inbound \<Rightarrow> map_sum id (\<lambda>s. p\<lparr>inbound := s\<rparr>) (change_settings c (inbound p))
      | Direction_Value i \<Rightarrow>
          Inl (make_error (Direction_Value i) (change_setting c) ''Traffic direction is invalid''))"

definition apply_profile_change ::
  "network_profile \<Rightarrow> profile_change \<Rightarrow> validation_error list + network_profile" where
  "apply_profile_change profile change =
     (case visit_change profile change of
        Inl e \<Rightarrow> Inl [e]
      | Inr changed \<Rightarrow> (if validate changed \<noteq> [] then Inl (validate changed) else Inr changed))"

section \<open>What validation accepts\<close>

definition valid_loss :: "double \<Rightarrow> bool" where
  "valid_loss w \<longleftrightarrow> isfinite w \<and> 0 \<le> dbl_key w \<and> dbl_key w \<le> dbl_key dbl_hundred"

definition valid_settings :: "direction_settings \<Rightarrow> bool" where
  "valid_settings s \<longleftrightarrow> 0 \<le> sint (delay s) \<and> 0 \<le> sint (jitter s)
     \<and> valid_loss (packet_loss_percent s) \<and> bandwidth_kbps s \<noteq> Some 0"

definition valid_profile :: "network_profile \<Rightarrow> bool" where
  "valid_profile p \<longleftrightarrow> valid_settings (outbound p) \<and> valid_settings (inbound p)"

text \<open>The value of a change is in the range its setting has.\<close>

fun valid_value :: "profile_change \<Rightarrow> bool" where
  "valid_value (SetDelay _ v) = (0 \<le> sint v)"
| "valid_value (SetJitter _ v) = (0 \<le> sint v)"
| "valid_value (SetPacketLoss _ v) = valid_loss v"
| "valid_value (SetBandwidth _ v) = (v \<noteq> 0)"
| "valid_value (ResetSetting _ _) = True"

fun known_direction :: "traffic_direction \<Rightarrow> bool" where
  "known_direction Outbound = True"
| "known_direction Inbound = True"
| "known_direction (Direction_Value _) = False"

fun known_setting :: "network_setting \<Rightarrow> bool" where
  "known_setting (Setting_Value _) = False"
| "known_setting _ = True"

lemma dbl_zero_facts [simp]:
  "dbl_key 0 = 0" "\<not> isnan 0" "isfinite 0" "\<not> dbl_negative 0" "dbl_bits 0 = 0"
  by (simp_all add: dbl_key_def isnan_def isfinite_def dbl_negative_def dbl_bits_def
      infinity_bits_def)

lemma dbl_hundred_facts [simp]: "\<not> isnan dbl_hundred" "dbl_key dbl_hundred = 4636737291354636288"
  by (simp_all add: dbl_key_def isnan_def dbl_negative_def dbl_bits_def infinity_bits_def)

lemma valid_loss_iff:
  "valid_loss w \<longleftrightarrow> isfinite w \<and> \<not> dbl_less w dbl_zero \<and> \<not> dbl_less dbl_hundred w"
  by (auto simp: valid_loss_def dbl_less_def dest: isfinite_not_isnan)

lemma valid_loss_zero [simp]: "valid_loss 0"
  by (simp add: valid_loss_def)

lemma validate_direction_Nil_iff: "validate_direction s d = [] \<longleftrightarrow> valid_settings s"
  by (auto simp: validate_direction_def valid_settings_def valid_loss_iff)

lemma validate_Nil_iff: "validate p = [] \<longleftrightarrow> valid_profile p"
  by (simp add: validate_def validate_direction_Nil_iff valid_profile_def)

lemma valid_default [simp]: "valid_settings default_settings" "valid_profile default_profile"
  by (simp_all add: valid_settings_def valid_profile_def default_settings_def default_profile_def)

lemma apply_Inr_iff:
  "apply_profile_change p c = Inr q \<longleftrightarrow> visit_change p c = Inr q \<and> valid_profile q"
  by (auto simp: apply_profile_change_def validate_Nil_iff split: sum.splits if_splits)

lemma change_settings_Inr:
  "known_setting (change_setting c) \<Longrightarrow> \<exists>s'. change_settings c s = Inr s'"
  by (induction c s rule: change_settings.induct) auto

lemma change_settings_valid:
  assumes "change_settings c s = Inr s'" and "valid_settings s"
  shows "valid_settings s' \<longleftrightarrow> valid_value c"
  using assms
  by (induction c s rule: change_settings.induct) (auto simp: valid_settings_def)

lemma visit_change_valid:
  assumes "visit_change p c = Inr q" and "valid_profile p"
  shows "valid_profile q \<longleftrightarrow> valid_value c"
  using assms
  by (cases "change_direction c"; cases "change_settings c (outbound p)";
      cases "change_settings c (inbound p)")
    (auto simp: visit_change_def valid_profile_def change_settings_valid)

lemma visit_change_Inr_iff:
  "(\<exists>q. visit_change p c = Inr q) \<longleftrightarrow>
     known_direction (change_direction c) \<and> known_setting (change_setting c)"
proof (cases "known_setting (change_setting c)")
  case True
  from change_settings_Inr [OF this, of "outbound p"] change_settings_Inr [OF this, of "inbound p"] True
  show ?thesis by (cases "change_direction c") (auto simp: visit_change_def)
next
  case False
  then obtain d i where "c = ResetSetting d (Setting_Value i)"
    by (cases c) (auto elim: known_setting.elims)
  then show ?thesis by (cases d) (auto simp: visit_change_def)
qed

section \<open>Equality of profiles\<close>

lemma settings_eq_sym: "settings_eq a b \<longleftrightarrow> settings_eq b a"
  by (auto simp: settings_eq_def dbl_eq_sym)

lemma valid_settings_eq_refl: "valid_settings s \<Longrightarrow> settings_eq s s"
  by (simp add: settings_eq_def valid_settings_def valid_loss_def dbl_eq_refl_iff isfinite_not_isnan)

lemma valid_profile_eq_refl: "valid_profile p \<Longrightarrow> profile_eq p p"
  by (simp add: profile_eq_def valid_profile_def valid_settings_eq_refl)

lemma profile_eq_trans: "profile_eq a b \<Longrightarrow> profile_eq b c \<Longrightarrow> profile_eq a c"
  by (auto simp: profile_eq_def settings_eq_def intro: dbl_eq_trans)

section \<open>Properties\<close>

lemma apply_accepts_iff:
  assumes "valid_profile p"
  shows "(\<exists>q. apply_profile_change p c = Inr q) \<longleftrightarrow>
    known_direction (change_direction c) \<and> known_setting (change_setting c) \<and> valid_value c"
  using visit_change_Inr_iff [of p c] visit_change_valid [OF _ assms, of c]
  by (auto simp: apply_Inr_iff)

text \<open>
  On a valid profile a change is applied exactly when its direction and setting are
  enumerators and its value is in range.
\<close>

theorem apply_profile_change_accepts:
  assumes "valid_profile p"
  shows "(\<exists>q. apply_profile_change p c = Inr q) \<longleftrightarrow>
    known_direction (change_direction c) \<and> known_setting (change_setting c) \<and> valid_value c"
  using assms by (rule apply_accepts_iff)

theorem apply_profile_change_accepts_witness:
  "(\<exists>q. apply_profile_change default_profile (SetDelay Inbound 250) = Inr q)
     \<and> \<not> (\<exists>q. apply_profile_change default_profile (SetDelay Inbound (-1)) = Inr q)"
  using apply_profile_change_accepts [OF valid_default(2), of "SetDelay Inbound 250"]
    apply_profile_change_accepts [OF valid_default(2), of "SetDelay Inbound (-1)"]
  by simp

lemma validate_direction_change:
  assumes "change_settings c s = Inr s'" and "valid_settings s" and "\<not> valid_value c"
  shows "\<exists>m. validate_direction s' d = [make_error d (change_setting c) m]"
  using assms
  by (induction c s rule: change_settings.induct)
    (auto simp: validate_direction_def valid_settings_def valid_loss_iff)

lemma visit_change_Inl:
  "visit_change p c = Inl e \<Longrightarrow> \<exists>m. e = make_error (change_direction c) (change_setting c) m"
  by (induction c "outbound p" rule: change_settings.induct)
    (auto simp: visit_change_def split: traffic_direction.splits)

text \<open>
  A change rejected on a valid profile reports exactly one error, and it names the
  direction and the setting of the change.
\<close>

theorem apply_profile_change_one_error:
  assumes "valid_profile p" and "apply_profile_change p c = Inl es"
  shows "\<exists>m. es = [make_error (change_direction c) (change_setting c) m]"
proof (cases "visit_change p c")
  case (Inl e)
  with assms(2) show ?thesis by (auto simp: apply_profile_change_def dest: visit_change_Inl)
next
  case (Inr q)
  with assms(2) have es: "es = validate q" "validate q \<noteq> []"
    by (auto simp: apply_profile_change_def split: if_splits)
  with visit_change_valid [OF Inr assms(1)] have bad: "\<not> valid_value c"
    by (simp add: validate_Nil_iff)
  show ?thesis
  proof (cases "change_direction c")
    case Outbound
    with Inr obtain s where "change_settings c (outbound p) = Inr s" "q = p\<lparr>outbound := s\<rparr>"
      by (cases "change_settings c (outbound p)") (auto simp: visit_change_def)
    with Outbound es assms(1) validate_direction_change [OF this(1) _ bad, of Outbound] show ?thesis
      by (simp add: validate_def valid_profile_def
          validate_direction_Nil_iff [of "inbound p", THEN iffD2])
  next
    case Inbound
    with Inr obtain s where "change_settings c (inbound p) = Inr s" "q = p\<lparr>inbound := s\<rparr>"
      by (cases "change_settings c (inbound p)") (auto simp: visit_change_def)
    with Inbound es assms(1) validate_direction_change [OF this(1) _ bad, of Inbound] show ?thesis
      by (simp add: validate_def valid_profile_def
          validate_direction_Nil_iff [of "outbound p", THEN iffD2])
  next
    case (Direction_Value i)
    with Inr show ?thesis by (simp add: visit_change_def)
  qed
qed

theorem apply_profile_change_one_error_witness:
  "\<exists>m. validate (default_profile\<lparr>inbound := default_settings\<lparr>delay := -1\<rparr>\<rparr>)
     = [make_error Inbound Delay m]"
  using apply_profile_change_one_error [OF valid_default(2), of "SetDelay Inbound (-1)"]
  by (simp add: apply_profile_change_def visit_change_def default_profile_def default_settings_def
      validate_def validate_direction_def)

text \<open>
  Changes of different fields commute, and of two changes of one field the last one counts.
\<close>

definition change_key :: "profile_change \<Rightarrow> traffic_direction \<times> network_setting" where
  "change_key c = (change_direction c, change_setting c)"

lemma change_settings_shape:
  "change_setting c = Delay \<Longrightarrow> \<exists>v. \<forall>s. change_settings c s = Inr (s\<lparr>delay := v\<rparr>)"
  "change_setting c = Jitter \<Longrightarrow> \<exists>v. \<forall>s. change_settings c s = Inr (s\<lparr>jitter := v\<rparr>)"
  "change_setting c = Packet_Loss \<Longrightarrow> \<exists>v. \<forall>s. change_settings c s = Inr (s\<lparr>packet_loss_percent := v\<rparr>)"
  "change_setting c = Bandwidth \<Longrightarrow> \<exists>v. \<forall>s. change_settings c s = Inr (s\<lparr>bandwidth_kbps := v\<rparr>)"
  "change_setting c = Setting_Value i \<Longrightarrow> \<exists>e. \<forall>s. change_settings c s = Inl e"
  by (cases c; simp; blast)+

lemma change_settings_commute:
  assumes "change_settings c s = Inr s1" "change_settings d s1 = Inr s2"
    and "change_setting c \<noteq> change_setting d"
  shows "\<exists>t. change_settings d s = Inr t \<and> change_settings c t = Inr s2"
  using assms
  by (cases "change_setting c"; cases "change_setting d") (auto dest!: change_settings_shape)

lemma change_settings_last:
  assumes "change_settings c s = Inr s1" and "change_setting c = change_setting d"
  shows "change_settings d s1 = change_settings d s"
proof -
  have "change_setting c = x \<Longrightarrow> change_setting d = x \<Longrightarrow> ?thesis" for x
    using assms(1) by (cases x) (auto dest!: change_settings_shape)
  with assms(2) show ?thesis by blast
qed

lemma map_sum_Inr [simp]: "map_sum f g x = Inr y \<longleftrightarrow> (\<exists>z. x = Inr z \<and> y = g z)"
  by (cases x) auto

lemma visit_change_Inr:
  "visit_change p c = Inr q \<longleftrightarrow>
     (change_direction c = Outbound
        \<and> (\<exists>s. change_settings c (outbound p) = Inr s \<and> q = p\<lparr>outbound := s\<rparr>))
   \<or> (change_direction c = Inbound
        \<and> (\<exists>s. change_settings c (inbound p) = Inr s \<and> q = p\<lparr>inbound := s\<rparr>))"
  by (cases "change_direction c") (auto simp: visit_change_def)

lemma visit_change_commute:
  assumes c: "visit_change p c = Inr q" and d: "visit_change q d = Inr r"
    and ne: "change_key c \<noteq> change_key d"
  shows "\<exists>t. visit_change p d = Inr t \<and> visit_change t c = Inr r"
proof (cases "change_direction c = change_direction d")
  case True
  with ne have "change_setting c \<noteq> change_setting d" by (simp add: change_key_def)
  note commute = change_settings_commute [OF _ _ this]
  from c consider (out) "change_direction c = Outbound" | (inb) "change_direction c = Inbound"
    unfolding visit_change_Inr by blast
  then show ?thesis
  proof cases
    case out
    with c d True obtain s u where "change_settings c (outbound p) = Inr s"
      "change_settings d s = Inr u" "r = p\<lparr>outbound := u\<rparr>"
      unfolding visit_change_Inr by auto
    with commute [OF this(1,2)] out True show ?thesis by (auto simp: visit_change_Inr)
  next
    case inb
    with c d True obtain s u where "change_settings c (inbound p) = Inr s"
      "change_settings d s = Inr u" "r = p\<lparr>inbound := u\<rparr>"
      unfolding visit_change_Inr by auto
    with commute [OF this(1,2)] inb True show ?thesis by (auto simp: visit_change_Inr)
  qed
next
  case False
  from c d False show ?thesis unfolding visit_change_Inr by fastforce
qed

text \<open>
  On a valid profile two accepted changes of different fields can be applied in either
  order, with the same result.
\<close>

theorem apply_profile_change_commute:
  assumes "valid_profile p" and "apply_profile_change p c = Inr q"
    and "apply_profile_change q d = Inr r" and "change_key c \<noteq> change_key d"
  shows "\<exists>t. apply_profile_change p d = Inr t \<and> apply_profile_change t c = Inr r"
proof -
  from assms(2,3) have v: "visit_change p c = Inr q" "visit_change q d = Inr r"
    and q: "valid_profile q" and r: "valid_profile r" by (simp_all add: apply_Inr_iff)
  from visit_change_commute [OF v assms(4)] obtain t
    where t: "visit_change p d = Inr t" "visit_change t c = Inr r" by blast
  from visit_change_valid [OF v(2) q] r have "valid_value d" by simp
  with visit_change_valid [OF t(1) assms(1)] have "valid_profile t" by simp
  with t r show ?thesis by (auto simp: apply_Inr_iff)
qed

theorem apply_profile_change_commute_witness:
  "\<exists>t. apply_profile_change default_profile (SetBandwidth Outbound 64) = Inr t
     \<and> apply_profile_change t (SetDelay Outbound 5) =
         Inr (default_profile\<lparr>outbound := default_settings\<lparr>delay := 5, bandwidth_kbps := Some 64\<rparr>\<rparr>)"
  by (rule apply_profile_change_commute
        [where q = "default_profile\<lparr>outbound := default_settings\<lparr>delay := 5\<rparr>\<rparr>"])
    (simp_all add: apply_Inr_iff visit_change_def default_profile_def default_settings_def
      valid_profile_def valid_settings_def change_key_def)

text \<open>Of two changes of the same field, applied one after the other, only the last counts.\<close>

theorem apply_profile_change_last_wins:
  assumes "apply_profile_change p c = Inr q" and "change_key c = change_key d"
  shows "apply_profile_change q d = apply_profile_change p d"
proof -
  from assms(2) have key: "change_direction c = change_direction d"
    "change_setting c = change_setting d" by (simp_all add: change_key_def)
  from assms(1) have "visit_change p c = Inr q" by (simp add: apply_Inr_iff)
  with change_settings_last [OF _ key(2)] key have "visit_change q d = visit_change p d"
    unfolding visit_change_Inr by (auto simp: visit_change_def)
  then show ?thesis by (simp add: apply_profile_change_def)
qed

theorem apply_profile_change_last_wins_witness:
  "apply_profile_change (default_profile\<lparr>inbound := default_settings\<lparr>delay := 5\<rparr>\<rparr>)
      (ResetSetting Inbound Delay) = apply_profile_change default_profile (ResetSetting Inbound Delay)"
  by (rule apply_profile_change_last_wins [of _ "SetDelay Inbound 5"])
    (simp_all add: apply_Inr_iff visit_change_def default_profile_def default_settings_def
      valid_profile_def valid_settings_def change_key_def)

text \<open>The result of an accepted change is valid and equal to itself.\<close>

lemma apply_profile_change_valid: "apply_profile_change p c = Inr q \<Longrightarrow> valid_profile q"
  by (simp add: apply_Inr_iff)

end
