(* ===== verification/Network_Transaction.thy ===== *)
theory Network_Transaction
  imports Network_Profile
begin

text \<open>
  The transaction of \<open>src/network_environment/network_environment.cpp\<close>: the owner state, its
  cleanup, the preparation of the network environment with rollback, and the change of the
  settings of one direction. The class \<open>SemanticAdapter\<close> is a record of functions on an unknown
  world; proofs of identity are values of unknown types that only the adapter can make. Times are
  nanoseconds of the monotonic clock.
\<close>

section \<open>Data\<close>

datatype stage =
    Stage_Preflight
  | Stage_Namespace_Creation
  | Stage_Veth_Creation
  | Stage_Host_Configuration
  | Stage_Namespace_Configuration
  | Stage_Route_Configuration
  | Stage_Internet_Connectivity
  | Stage_Cleanup

datatype cause =
    Cause_Collision
  | Cause_Unavailable_Or_Invalid_Tool
  | Cause_System_Failure
  | Cause_Command_Exit
  | Cause_Command_Signal
  | Cause_Timeout
  | Cause_Identity_Unavailable
  | Cause_Identity_Mismatch
  | Cause_Incomplete_Cleanup
  | Cause_Unsupported_Host_Configuration
  | Cause_Firewall_Consent_Declined
  | Cause_Firewall_Consent_Timeout
  | Cause_Firewall_Consent_Unavailable

type_synonym failure = "stage \<times> cause"

datatype 'n namespace_state = Namespace_Absent | Namespace_Proven 'n | Namespace_Unconfirmed

datatype ('h, 'p) veth_state = Veth_Absent | Host_Veth 'h | Placed_Veth 'p | Veth_Unconfirmed

datatype ('h, 'p) proven_veth = Proven_Host 'h | Proven_Placed 'p

datatype 'c connectivity_state =
    Connectivity_Absent | Connectivity_Proven 'c | Connectivity_Unconfirmed

datatype shaping_direction = Shape_Outbound | Shape_Inbound

datatype shaping_change_result = Shaping_Applied | Shaping_Restored | Shaping_State_Unknown

record op_result =
  op_succeeded :: bool
  op_cause :: cause

record 's mutation_result =
  mut_succeeded :: bool
  mut_cause :: cause
  mut_state :: 's

record 's removal_result =
  rem_cause :: cause
  rem_state :: 's

datatype operation =
    Op_Preflight
  | Op_Create_Namespace
  | Op_Create_Veth
  | Op_Move_Peer
  | Op_Assign_Host_Address
  | Op_Bring_Host_Link_Up
  | Op_Bring_Loopback_Up
  | Op_Assign_Namespace_Address
  | Op_Bring_Namespace_Link_Up
  | Op_Add_Default_Route
  | Op_Configure_Connectivity
  | Op_Set_Settings
  | Op_Remove_Connectivity
  | Op_Remove_Veth
  | Op_Remove_Namespace

section \<open>The semantic adapter and the clock\<close>

type_synonym time_point = int

record ('n, 'h, 'p, 'c, 'w) semantic_adapter =
  clock_now :: "'w \<Rightarrow> time_point \<times> 'w"
  do_preflight :: "time_point \<Rightarrow> 'w \<Rightarrow> op_result \<times> 'w"
  create_namespace :: "time_point \<Rightarrow> 'w \<Rightarrow> 'n namespace_state mutation_result \<times> 'w"
  create_veth :: "time_point \<Rightarrow> 'w \<Rightarrow> ('h, 'p) veth_state mutation_result \<times> 'w"
  move_peer :: "'n \<Rightarrow> 'h \<Rightarrow> time_point \<Rightarrow> 'w \<Rightarrow> ('h, 'p) veth_state mutation_result \<times> 'w"
  assign_host_address :: "'p \<Rightarrow> time_point \<Rightarrow> 'w \<Rightarrow> op_result \<times> 'w"
  bring_host_link_up :: "'p \<Rightarrow> time_point \<Rightarrow> 'w \<Rightarrow> op_result \<times> 'w"
  bring_loopback_up :: "'n \<Rightarrow> time_point \<Rightarrow> 'w \<Rightarrow> op_result \<times> 'w"
  assign_namespace_address :: "'n \<Rightarrow> 'p \<Rightarrow> time_point \<Rightarrow> 'w \<Rightarrow> op_result \<times> 'w"
  bring_namespace_link_up :: "'n \<Rightarrow> 'p \<Rightarrow> time_point \<Rightarrow> 'w \<Rightarrow> op_result \<times> 'w"
  add_default_route :: "'n \<Rightarrow> 'p \<Rightarrow> time_point \<Rightarrow> 'w \<Rightarrow> op_result \<times> 'w"
  set_settings :: "'n \<Rightarrow> 'p \<Rightarrow> shaping_direction \<Rightarrow> direction_settings \<Rightarrow> direction_settings
    \<Rightarrow> time_point \<Rightarrow> 'w \<Rightarrow> shaping_change_result \<times> 'w"
  configure_connectivity :: "time_point \<Rightarrow> 'w \<Rightarrow> 'c connectivity_state mutation_result \<times> 'w"
  remove_connectivity :: "'c \<Rightarrow> time_point \<Rightarrow> 'w \<Rightarrow> 'c connectivity_state removal_result \<times> 'w"
  remove_veth :: "('h, 'p) proven_veth \<Rightarrow> 'n option \<Rightarrow> time_point \<Rightarrow> 'w
    \<Rightarrow> ('h, 'p) veth_state removal_result \<times> 'w"
  remove_namespace :: "'n \<Rightarrow> time_point \<Rightarrow> 'w \<Rightarrow> 'n namespace_state removal_result \<times> 'w"

definition transaction_limit :: time_point where "transaction_limit = 30 * 10 ^ 9"
definition operation_limit :: time_point where "operation_limit = 5 * 10 ^ 9"

definition operation_deadline :: "time_point \<Rightarrow> time_point \<Rightarrow> time_point" where
  "operation_deadline now transaction_deadline = min (now + operation_limit) transaction_deadline"

section \<open>The owner state\<close>

record ('n, 'h, 'p, 'c) owner_state =
  namespace_root :: "'n namespace_state"
  veth_root :: "('h, 'p) veth_state"
  connectivity_root :: "'c connectivity_state"
  outbound_settings :: "direction_settings option"
  inbound_settings :: "direction_settings option"

definition new_owner_state :: "('n, 'h, 'p, 'c) owner_state" where
  "new_owner_state =
     \<lparr>namespace_root = Namespace_Absent, veth_root = Veth_Absent,
      connectivity_root = Connectivity_Absent, outbound_settings = Some default_settings,
      inbound_settings = Some default_settings\<rparr>"

definition is_unconfirmed :: "('n, 'h, 'p, 'c) owner_state \<Rightarrow> bool" where
  "is_unconfirmed s \<longleftrightarrow>
     namespace_root s = Namespace_Unconfirmed \<or> veth_root s = Veth_Unconfirmed
     \<or> connectivity_root s = Connectivity_Unconfirmed"

definition has_residual :: "('n, 'h, 'p, 'c) owner_state \<Rightarrow> bool" where
  "has_residual s \<longleftrightarrow>
     namespace_root s \<noteq> Namespace_Absent \<or> veth_root s \<noteq> Veth_Absent
     \<or> connectivity_root s \<noteq> Connectivity_Absent"

fun proven_namespace :: "'n namespace_state \<Rightarrow> 'n option" where
  "proven_namespace (Namespace_Proven n) = Some n"
| "proven_namespace _ = None"

fun proven_veth_of :: "('h, 'p) veth_state \<Rightarrow> ('h, 'p) proven_veth option" where
  "proven_veth_of (Host_Veth h) = Some (Proven_Host h)"
| "proven_veth_of (Placed_Veth p) = Some (Proven_Placed p)"
| "proven_veth_of _ = None"

section \<open>Cleanup\<close>

text \<open>The owner state, the failures so far and the world.\<close>

type_synonym ('n, 'h, 'p, 'c, 'w) cleaning = "('n, 'h, 'p, 'c) owner_state \<times> failure list \<times> 'w"

definition clean_connectivity ::
  "('n, 'h, 'p, 'c, 'w) semantic_adapter \<Rightarrow> time_point \<Rightarrow> ('n, 'h, 'p, 'c, 'w) cleaning
     \<Rightarrow> ('n, 'h, 'p, 'c, 'w) cleaning" where
  "clean_connectivity a deadline = (\<lambda>(s, fs, w).
     case connectivity_root s of
       Connectivity_Proven c \<Rightarrow>
         (case clock_now a w of (t, w1) \<Rightarrow>
            if deadline \<le> t then (s, fs @ [(Stage_Cleanup, Cause_Timeout)], w1)
            else case clock_now a w1 of (u, w2) \<Rightarrow>
              (case remove_connectivity a c (operation_deadline u deadline) w2 of (r, w3) \<Rightarrow>
                 (s\<lparr>connectivity_root := rem_state r\<rparr>,
                  (if rem_state r \<noteq> Connectivity_Absent then fs @ [(Stage_Cleanup, rem_cause r)] else fs),
                  w3)))
     | _ \<Rightarrow> (s, fs, w))"

definition clean_veth ::
  "('n, 'h, 'p, 'c, 'w) semantic_adapter \<Rightarrow> time_point \<Rightarrow> ('n, 'h, 'p, 'c, 'w) cleaning
     \<Rightarrow> ('n, 'h, 'p, 'c, 'w) cleaning" where
  "clean_veth a deadline = (\<lambda>(s, fs, w).
     case proven_veth_of (veth_root s) of
       None \<Rightarrow> (s, fs, w)
     | Some v \<Rightarrow>
         (case clock_now a w of (t, w1) \<Rightarrow>
            if deadline \<le> t then (s, fs @ [(Stage_Cleanup, Cause_Timeout)], w1)
            else case clock_now a w1 of (u, w2) \<Rightarrow>
              (case remove_veth a v (proven_namespace (namespace_root s)) (operation_deadline u deadline) w2 of
                 (r, w3) \<Rightarrow>
                 (s\<lparr>veth_root := rem_state r\<rparr>,
                  (if rem_state r \<noteq> Veth_Absent then fs @ [(Stage_Cleanup, rem_cause r)] else fs),
                  w3))))"

text \<open>The removal of the namespace, and whether it was removed.\<close>

definition clean_namespace ::
  "('n, 'h, 'p, 'c, 'w) semantic_adapter \<Rightarrow> time_point \<Rightarrow> ('n, 'h, 'p, 'c, 'w) cleaning
     \<Rightarrow> bool \<times> ('n, 'h, 'p, 'c, 'w) cleaning" where
  "clean_namespace a deadline = (\<lambda>(s, fs, w).
     case namespace_root s of
       Namespace_Proven n \<Rightarrow>
         (case clock_now a w of (t, w1) \<Rightarrow>
            if deadline \<le> t then (False, s, fs @ [(Stage_Cleanup, Cause_Timeout)], w1)
            else case clock_now a w1 of (u, w2) \<Rightarrow>
              (case remove_namespace a n (operation_deadline u deadline) w2 of (r, w3) \<Rightarrow>
                 (rem_state r = Namespace_Absent,
                  s\<lparr>namespace_root := rem_state r\<rparr>,
                  (if rem_state r \<noteq> Namespace_Absent then fs @ [(Stage_Cleanup, rem_cause r)] else fs),
                  w3)))
     | _ \<Rightarrow> (False, s, fs, w))"

record ('n, 'h, 'p, 'c) cleanup_result =
  cleanup_failures :: "failure list"
  cleanup_residual :: "('n, 'h, 'p, 'c) owner_state option"

definition cleanup_state ::
  "('n, 'h, 'p, 'c, 'w) semantic_adapter \<Rightarrow> ('n, 'h, 'p, 'c) owner_state \<Rightarrow> bool \<Rightarrow> 'w
     \<Rightarrow> ('n, 'h, 'p, 'c) cleanup_result \<times> 'w" where
  "cleanup_state a state return_residual w =
     (case clock_now a w of (t, w0) \<Rightarrow>
        (let deadline = t + transaction_limit;
             (removed, s, fs, w1) =
               clean_namespace a deadline
                 (clean_veth a deadline (clean_connectivity a deadline (state, [], w0)));
             (s2, fs2, w2) =
               (if removed then clean_veth a deadline (s, fs, w1) else (s, fs, w1))
         in (\<lparr>cleanup_failures =
                fs2 @ (if return_residual \<and> is_unconfirmed state
                       then [(Stage_Cleanup, Cause_Incomplete_Cleanup)] else []),
              cleanup_residual = (if return_residual \<and> has_residual s2 then Some s2 else None)\<rparr>, w2)))"

section \<open>Preparation\<close>

datatype ('n, 'h, 'p, 'c) preparation_result =
    Prepared "('n, 'h, 'p, 'c) owner_state"
  | Preparation_Failed failure "failure list" "('n, 'h, 'p, 'c) owner_state option"

definition preparation_failure ::
  "('n, 'h, 'p, 'c, 'w) semantic_adapter \<Rightarrow> stage \<Rightarrow> cause \<Rightarrow> ('n, 'h, 'p, 'c) owner_state \<times> 'w
     \<Rightarrow> ('n, 'h, 'p, 'c) preparation_result \<times> 'w" where
  "preparation_failure a stage cause = (\<lambda>(s, w).
     case cleanup_state a s True w of
       (rollback, w1) \<Rightarrow>
         (Preparation_Failed (stage, cause) (cleanup_failures rollback) (cleanup_residual rollback), w1))"

text \<open>
  A step of the preparation goes on with the owner state and the world (\<open>Inl\<close>) or returns the
  result of the whole preparation (\<open>Inr\<close>).
\<close>

type_synonym ('n, 'h, 'p, 'c, 'w) progress =
  "(('n, 'h, 'p, 'c) owner_state \<times> 'w) + (('n, 'h, 'p, 'c) preparation_result \<times> 'w)"

definition before_deadline ::
  "('n, 'h, 'p, 'c, 'w) semantic_adapter \<Rightarrow> time_point \<Rightarrow> stage
     \<Rightarrow> (time_point \<Rightarrow> 'w \<Rightarrow> ('n, 'h, 'p, 'c, 'w) progress)
     \<Rightarrow> ('n, 'h, 'p, 'c) owner_state \<times> 'w \<Rightarrow> ('n, 'h, 'p, 'c, 'w) progress" where
  "before_deadline a setup_deadline stage operation = (\<lambda>(s, w).
     case clock_now a w of (t, w1) \<Rightarrow>
       if setup_deadline \<le> t then Inr (preparation_failure a stage Cause_Timeout (s, w1))
       else case clock_now a w1 of (u, w2) \<Rightarrow> operation (operation_deadline u setup_deadline) w2)"

text \<open>\<open>run_configuration\<close>, and the same shape for the preflight.\<close>

definition run_configuration ::
  "('n, 'h, 'p, 'c, 'w) semantic_adapter \<Rightarrow> time_point \<Rightarrow> stage
     \<Rightarrow> (time_point \<Rightarrow> 'w \<Rightarrow> op_result \<times> 'w)
     \<Rightarrow> ('n, 'h, 'p, 'c) owner_state \<times> 'w \<Rightarrow> ('n, 'h, 'p, 'c, 'w) progress" where
  "run_configuration a setup_deadline stage operation = (\<lambda>(s, w).
     before_deadline a setup_deadline stage
       (\<lambda>deadline v. case operation deadline v of (r, v1) \<Rightarrow>
          if \<not> op_succeeded r then Inr (preparation_failure a stage (op_cause r) (s, v1))
          else Inl (s, v1)) (s, w))"

definition setup_namespace where
  "setup_namespace a setup_deadline = (\<lambda>(s, w).
     before_deadline a setup_deadline Stage_Namespace_Creation
       (\<lambda>deadline v. case create_namespace a deadline v of (r, v1) \<Rightarrow>
          let s1 = s\<lparr>namespace_root := mut_state r\<rparr>
          in if \<not> mut_succeeded r
             then Inr (preparation_failure a Stage_Namespace_Creation (mut_cause r) (s1, v1))
             else if proven_namespace (namespace_root s1) = None
             then Inr (preparation_failure a Stage_Namespace_Creation Cause_Identity_Unavailable (s1, v1))
             else Inl (s1, v1)) (s, w))"

fun is_host_veth :: "('h, 'p) veth_state \<Rightarrow> bool" where
  "is_host_veth (Host_Veth _) = True"
| "is_host_veth _ = False"

fun is_placed_veth :: "('h, 'p) veth_state \<Rightarrow> bool" where
  "is_placed_veth (Placed_Veth _) = True"
| "is_placed_veth _ = False"

fun is_proven_connectivity :: "'c connectivity_state \<Rightarrow> bool" where
  "is_proven_connectivity (Connectivity_Proven _) = True"
| "is_proven_connectivity _ = False"

definition setup_veth where
  "setup_veth a setup_deadline = (\<lambda>(s, w).
     before_deadline a setup_deadline Stage_Veth_Creation
       (\<lambda>deadline v. case create_veth a deadline v of (r, v1) \<Rightarrow>
          let s1 = s\<lparr>veth_root := mut_state r\<rparr>
          in if \<not> mut_succeeded r
             then Inr (preparation_failure a Stage_Veth_Creation (mut_cause r) (s1, v1))
             else if \<not> is_host_veth (veth_root s1)
             then Inr (preparation_failure a Stage_Veth_Creation Cause_Identity_Unavailable (s1, v1))
             else Inl (s1, v1)) (s, w))"

definition setup_move where
  "setup_move a setup_deadline n h = (\<lambda>(s, w).
     before_deadline a setup_deadline Stage_Veth_Creation
       (\<lambda>deadline v. case move_peer a n h deadline v of (r, v1) \<Rightarrow>
          let s1 = s\<lparr>veth_root := mut_state r\<rparr>
          in if \<not> mut_succeeded r
             then Inr (preparation_failure a Stage_Veth_Creation (mut_cause r) (s1, v1))
             else if \<not> is_placed_veth (veth_root s1)
             then Inr (preparation_failure a Stage_Veth_Creation Cause_Identity_Unavailable (s1, v1))
             else Inl (s1, v1)) (s, w))"

definition setup_connectivity where
  "setup_connectivity a setup_deadline = (\<lambda>(s, w).
     before_deadline a setup_deadline Stage_Internet_Connectivity
       (\<lambda>deadline v. case configure_connectivity a deadline v of (r, v1) \<Rightarrow>
          let s1 = s\<lparr>connectivity_root := mut_state r\<rparr>
          in if \<not> mut_succeeded r
             then Inr (preparation_failure a Stage_Internet_Connectivity (mut_cause r) (s1, v1))
             else if \<not> is_proven_connectivity (connectivity_root s1)
             then Inr (preparation_failure a Stage_Internet_Connectivity Cause_Identity_Unavailable (s1, v1))
             else Inl (s1, v1)) (s, w))"

text \<open>Sequencing with early return.\<close>

definition and_then :: "'s + 'r \<Rightarrow> ('s \<Rightarrow> 's + 'r) \<Rightarrow> 's + 'r" where
  "and_then x f = (case x of Inl s \<Rightarrow> f s | Inr r \<Rightarrow> Inr r)"

text \<open>
  The six configuration steps, with the proofs taken from the owner state.\<close>

definition setup_configuration where
  "setup_configuration a d n p x =
     and_then (and_then (and_then (and_then (and_then
       (run_configuration a d Stage_Host_Configuration (assign_host_address a p) x)
       (run_configuration a d Stage_Host_Configuration (bring_host_link_up a p)))
       (run_configuration a d Stage_Namespace_Configuration (bring_loopback_up a n)))
       (run_configuration a d Stage_Namespace_Configuration (assign_namespace_address a n p)))
       (run_configuration a d Stage_Namespace_Configuration (bring_namespace_link_up a n p)))
       (run_configuration a d Stage_Route_Configuration (add_default_route a n p))"

text \<open>
  All steps. \<open>setup_namespace\<close>, \<open>setup_veth\<close> and \<open>setup_move\<close> go on only with the
  proofs that the next steps take from the owner state, so the last cases do not occur.
\<close>

definition prepare_steps ::
  "('n, 'h, 'p, 'c, 'w) semantic_adapter \<Rightarrow> time_point
     \<Rightarrow> ('n, 'h, 'p, 'c) owner_state \<times> 'w \<Rightarrow> ('n, 'h, 'p, 'c, 'w) progress" where
  "prepare_steps a d x =
     and_then (and_then (and_then (and_then (and_then
       (run_configuration a d Stage_Preflight (do_preflight a) x)
       (setup_namespace a d))
       (setup_veth a d))
       (\<lambda>(s, w). case (namespace_root s, veth_root s) of
          (Namespace_Proven n, Host_Veth h) \<Rightarrow> setup_move a d n h (s, w)
        | _ \<Rightarrow> Inl (s, w)))
       (\<lambda>(s, w). case (namespace_root s, veth_root s) of
          (Namespace_Proven n, Placed_Veth p) \<Rightarrow> setup_configuration a d n p (s, w)
        | _ \<Rightarrow> Inl (s, w)))
       (setup_connectivity a d)"

definition prepare_network_environment ::
  "('n, 'h, 'p, 'c, 'w) semantic_adapter \<Rightarrow> 'w \<Rightarrow> ('n, 'h, 'p, 'c) preparation_result \<times> 'w" where
  "prepare_network_environment a w =
     (case clock_now a w of (t, w1) \<Rightarrow>
        (case prepare_steps a (t + transaction_limit) (new_owner_state, w1) of
           Inl (s, w2) \<Rightarrow> (Prepared s, w2)
         | Inr r \<Rightarrow> r))"

section \<open>The settings of one direction\<close>

definition set_direction_settings ::
  "('n, 'h, 'p, 'c, 'w) semantic_adapter \<Rightarrow> shaping_direction \<Rightarrow> direction_settings
     \<Rightarrow> ('n, 'h, 'p, 'c) owner_state \<Rightarrow> 'w
     \<Rightarrow> shaping_change_result \<times> ('n, 'h, 'p, 'c) owner_state \<times> 'w" where
  "set_direction_settings a direction requested s w =
     (case (namespace_root s, veth_root s) of
        (Namespace_Proven n, Placed_Veth p) \<Rightarrow>
          (case (if direction = Shape_Outbound then outbound_settings s else inbound_settings s) of
             None \<Rightarrow> (Shaping_State_Unknown, s, w)
           | Some current \<Rightarrow>
               (if settings_eq current requested then (Shaping_Applied, s, w)
                else case clock_now a w of (t, w1) \<Rightarrow>
                  (case set_settings a n p direction current requested (t + operation_limit) w1 of
                     (r, w2) \<Rightarrow>
                       (let keep = (case r of
                              Shaping_Applied \<Rightarrow> Some requested
                            | Shaping_Restored \<Rightarrow> Some current
                            | Shaping_State_Unknown \<Rightarrow> None)
                        in (r, (if direction = Shape_Outbound then s\<lparr>outbound_settings := keep\<rparr>
                                else s\<lparr>inbound_settings := keep\<rparr>), w2)))))
      | _ \<Rightarrow> (Shaping_State_Unknown, s, w))"

end
