(* ===== verification/Host_Platform.thy ===== *)
theory Host_Platform
  imports Qdisc_Inventory Route_Dump Recovery_Journal Network_Transaction "HOL-Library.State_Monad"
begin

text \<open>
  What the production adapter uses of the host: the classes \<open>PreflightPlatform\<close>
  (\<open>preflight.hpp\<close>) and \<open>ProductionPlatform\<close> (\<open>production_adapter.hpp\<close>), the functions of the
  recovery journal and the clock, as one record of state-changing functions on an unknown world;
  the preflight itself (\<open>preflight.cpp\<close>) and the search for trusted tools.
\<close>

datatype command_kind =
    Command_Success
  | Command_Nonzero_Exit
  | Command_Signal
  | Command_Timeout
  | Command_Exec_Failure
  | Command_System_Failure

record command_result =
  command_kind :: command_kind
  command_code :: int
  standard_error :: string
  standard_output :: string

datatype name_status = Query_Absent | Query_Present | Query_Failure

record tool_query =
  tool_status :: name_status
  tool_metadata :: file_metadata

record 'h namespace_query =
  namespace_status :: inventory_status
  namespace_handle :: "'h option"

datatype firewall_consent =
    Consent_Granted
  | Consent_Declined
  | Consent_Timed_Out
  | Consent_Terminal_Unavailable
  | Consent_Io_Failure

type_synonym namespace_identity = "64 word \<times> 64 word"

record ('h, 'w) host =
  handle_identity :: "'h \<Rightarrow> namespace_identity"
  namespace_file_argument :: "'h \<Rightarrow> string"
  run_ip :: "string \<Rightarrow> string list \<Rightarrow> 'h option \<Rightarrow> time_point \<Rightarrow> ('w, command_result) state"
  run_ip_in_namespace :: "string \<Rightarrow> string list \<Rightarrow> 'h \<Rightarrow> time_point \<Rightarrow> ('w, command_result) state"
  run_tool :: "string \<Rightarrow> string list \<Rightarrow> time_point \<Rightarrow> nat \<Rightarrow> ('w, command_result) state"
  ipv4_forwarding_enabled :: "('w, bool option) state"
  legacy_iptables_rules_present :: "('w, bool option) state"
  request_firewall_consent :: "string \<Rightarrow> time_point \<Rightarrow> ('w, firewall_consent) state"
  query_namespace :: "('w, 'h namespace_query) state"
  query_host_link :: "string \<Rightarrow> time_point \<Rightarrow> ('w, link_query) state"
  query_namespace_link :: "'h \<Rightarrow> string \<Rightarrow> time_point \<Rightarrow> ('w, link_query) state"
  query_host_qdisc :: "string \<Rightarrow> time_point \<Rightarrow> ('w, qdisc_query) state"
  query_namespace_qdisc :: "'h \<Rightarrow> string \<Rightarrow> time_point \<Rightarrow> ('w, qdisc_query) state"
  privileged :: "('w, bool) state"
  query_tool :: "string \<Rightarrow> ('w, tool_query) state"
  query_namespace_name :: "('w, name_status) state"
  query_link_name :: "string \<Rightarrow> ('w, name_status) state"
  query_addresses :: "('w, ipv4_prefix list option) state"
  query_routes :: "time_point \<Rightarrow> ('w, route_dump_status) state"
  open_recovery_directory :: "('w, int) state"
  read_recovery_record :: "int \<Rightarrow> ('w, recovery_read_result) state"
  write_recovery_record :: "int \<Rightarrow> recovery_record \<Rightarrow> ('w, bool) state"
  clear_recovery_record :: "int \<Rightarrow> ('w, bool) state"
  create_recovery_token :: "('w, string option) state"
  steady_now :: "('w, time_point) state"

abbreviation ret :: "'a \<Rightarrow> ('w, 'a) state" where "ret \<equiv> State_Monad.return"

section \<open>Trusted tools\<close>

definition trusted_ip_paths :: "string list" where
  "trusted_ip_paths = [''/usr/sbin/ip'', ''/usr/bin/ip'', ''/sbin/ip'', ''/bin/ip'']"

text \<open>The paths \<open>find_trusted_tool\<close> tries for a tool.\<close>

definition tool_paths :: "string \<Rightarrow> string list" where
  "tool_paths tool =
     (if tool = ''nft'' then [''/usr/sbin/nft'', ''/usr/bin/nft'', ''/sbin/nft'', ''/bin/nft'']
      else if tool = ''ufw'' then [''/usr/sbin/ufw'', ''/usr/bin/ufw'', ''/sbin/ufw'', ''/bin/ufw'']
      else if tool = ''firewall-cmd'' then
        [''/usr/bin/firewall-cmd'', ''/usr/sbin/firewall-cmd'', ''/bin/firewall-cmd'', ''/sbin/firewall-cmd'']
      else if tool = ''tc'' then [''/usr/sbin/tc'', ''/usr/bin/tc'', ''/sbin/tc'', ''/bin/tc'']
      else [])"

text \<open>
  The first trusted executable of a list of paths: \<open>None\<close> when a query failed, otherwise the
  path, if there was one.
\<close>

fun first_trusted :: "('h, 'w) host \<Rightarrow> string list \<Rightarrow> ('w, string option option) state" where
  "first_trusted h [] = ret (Some None)"
| "first_trusted h (path # paths) = do {
     query \<leftarrow> query_tool h path;
     if tool_status query = Query_Failure then ret None
     else if tool_status query = Query_Present \<and> is_trusted_executable (tool_metadata query)
     then ret (Some (Some path))
     else first_trusted h paths
   }"

definition find_trusted_tool :: "('h, 'w) host \<Rightarrow> string \<Rightarrow> ('w, string option option) state" where
  "find_trusted_tool h tool = first_trusted h (tool_paths tool)"

definition tool_path :: "('h, 'w) host \<Rightarrow> string \<Rightarrow> ('w, string option) state" where
  "tool_path h name = do {
     result \<leftarrow> find_trusted_tool h name;
     ret (case result of None \<Rightarrow> None | Some path \<Rightarrow> path)
   }"

section \<open>The preflight\<close>

definition check_name :: "name_status \<Rightarrow> cause option" where
  "check_name status =
     (case status of
        Query_Present \<Rightarrow> Some Cause_Collision
      | Query_Failure \<Rightarrow> Some Cause_System_Failure
      | Query_Absent \<Rightarrow> None)"

fun check_links :: "('h, 'w) host \<Rightarrow> string list \<Rightarrow> ('w, cause option) state" where
  "check_links h [] = ret None"
| "check_links h (name # names) = do {
     status \<leftarrow> query_link_name h name;
     (case check_name status of
        Some c \<Rightarrow> ret (Some c)
      | None \<Rightarrow> check_links h names)
   }"

fun check_prefixes :: "ipv4_prefix list \<Rightarrow> cause option" where
  "check_prefixes [] = None"
| "check_prefixes (p # ps) =
     (if 32 < prefix_length p then Some Cause_System_Failure
      else if prefixes_overlap p session_subnet then Some Cause_Collision
      else check_prefixes ps)"

definition check_routes :: "route_dump_status \<Rightarrow> cause option" where
  "check_routes status =
     (if status = Route_Collision then Some Cause_Collision
      else if status = Route_Timeout then Some Cause_Timeout
      else if status \<noteq> Route_Complete then Some Cause_System_Failure
      else None)"

text \<open>The result is the cause of a failure or the path of the tool \<open>ip\<close>.\<close>

definition run_preflight :: "('h, 'w) host \<Rightarrow> time_point \<Rightarrow> ('w, cause + string) state" where
  "run_preflight h deadline = do {
     root \<leftarrow> privileged h;
     if \<not> root then ret (Inl Cause_System_Failure)
     else do {
       tool \<leftarrow> first_trusted h trusted_ip_paths;
       (case tool of
          None \<Rightarrow> ret (Inl Cause_System_Failure)
        | Some None \<Rightarrow> ret (Inl Cause_Unavailable_Or_Invalid_Tool)
        | Some (Some path) \<Rightarrow> do {
            namespace \<leftarrow> query_namespace_name h;
            (case check_name namespace of
               Some c \<Rightarrow> ret (Inl c)
             | None \<Rightarrow> do {
                 links \<leftarrow> check_links h [''nll-host'', ''nll-app''];
                 (case links of
                    Some c \<Rightarrow> ret (Inl c)
                  | None \<Rightarrow> do {
                      addresses \<leftarrow> query_addresses h;
                      (case addresses of
                         None \<Rightarrow> ret (Inl Cause_System_Failure)
                       | Some prefixes \<Rightarrow>
                           (case check_prefixes prefixes of
                              Some c \<Rightarrow> ret (Inl c)
                            | None \<Rightarrow> do {
                                routes \<leftarrow> query_routes h deadline;
                                ret (case check_routes routes of Some c \<Rightarrow> Inl c | None \<Rightarrow> Inr path)
                              }))
                    })
               })
          })
     }
   }"

end
