(* ===== verification/Process_Identity.thy ===== *)
theory Process_Identity
  imports Cpp_Text
begin

text \<open>
  Who is who before a session: \<open>src/process_status.cpp\<close>, the launch of the helper in
  \<open>src/helper_process.cpp\<close> and the arguments and identities that \<open>src/helper_main.cpp\<close> reads. The
  files below \<open>/proc\<close>, the environment and \<open>strerror\<close> are arguments; an error is the text written.
\<close>

section \<open>Texts\<close>

fun rfind_text :: "string \<Rightarrow> string \<Rightarrow> nat option" where
  "rfind_text t [] = (if t = [] then Some 0 else None)"
| "rfind_text t (c # cs) =
     (case rfind_text t cs of
        Some n \<Rightarrow> Some (Suc n)
      | None \<Rightarrow> (if starts_with t (c # cs) then Some 0 else None))"

lemma rfind_text_Some_length: "rfind_text t s = Some n \<Longrightarrow> n \<le> length s"
  by (induction s arbitrary: n) (auto split: if_splits option.splits)

text \<open>A number that fills the whole text.\<close>

fun whole_number :: "'a from_chars_result \<Rightarrow> 'a option" where
  "whole_number (Parsed v []) = Some v"
| "whole_number _ = None"

definition uint32_max :: nat where "uint32_max = 4294967295"

text \<open>The lines that \<open>std::getline\<close> delivers.\<close>

function getline_all :: "string \<Rightarrow> string list" where
  "getline_all s =
     (if s = [] then []
      else case find_char newline s of
        None \<Rightarrow> [s]
      | Some n \<Rightarrow> take n s # getline_all (drop (n + 1) s))"
  by pat_completeness auto
termination
  by (relation "measure length") (auto dest: find_char_Some_less)

declare getline_all.simps [simp del]

section \<open>The status of a process\<close>

record process_status =
  parent_pid :: int
  start_time_ticks :: nat

text \<open>The loop over the fields after the command name; empty fields are skipped.\<close>

function stat_fields :: "string \<Rightarrow> string list" where
  "stat_fields remaining =
     (if remaining = [] then []
      else case find_char (CHR '' '') remaining of
        None \<Rightarrow> [remaining]
      | Some n \<Rightarrow> (if n = 0 then [] else [take n remaining]) @ stat_fields (drop (n + 1) remaining))"
  by pat_completeness auto
termination
  by (relation "measure length") (auto dest: find_char_Some_less)

declare stat_fields.simps [simp del]

definition parse_process_status :: "string \<Rightarrow> process_status option" where
  "parse_process_status stat_line =
     (case rfind_text '') '' stat_line of
        None \<Rightarrow> None
      | Some n \<Rightarrow>
          (let values = stat_fields (drop (n + 2) stat_line)
           in if length values < 20 then None
              else case (whole_number (from_chars_signed int_min int_max (values ! 1)),
                         whole_number (from_chars_unsigned uint64_max (values ! 19))) of
                (Some parent, Some start) \<Rightarrow> Some \<lparr>parent_pid = parent, start_time_ticks = start\<rparr>
              | _ \<Rightarrow> None))"

text \<open>The first line of the file; \<open>None\<close> is a file that cannot be opened.\<close>

definition read_process_status :: "(int \<Rightarrow> string option) \<Rightarrow> int \<Rightarrow> process_status option" where
  "read_process_status stat_file pid =
     (case stat_file pid of
        None \<Rightarrow> None
      | Some content \<Rightarrow>
          (if content = [] then None else parse_process_status (hd (getline_all content))))"

section \<open>The launch of the helper\<close>

fun climb :: "(int \<Rightarrow> string option) \<Rightarrow> int \<Rightarrow> nat \<Rightarrow> int \<Rightarrow> bool" where
  "climb stat_file launcher 0 current \<longleftrightarrow> current = launcher"
| "climb stat_file launcher (Suc depth) current \<longleftrightarrow>
     (if \<not> 1 < current \<or> current = launcher then current = launcher
      else case read_process_status stat_file current of
        None \<Rightarrow> False
      | Some status \<Rightarrow>
          (if parent_pid status = current then False
           else climb stat_file launcher depth (parent_pid status)))"

definition belongs_to_helper_launcher :: "(int \<Rightarrow> string option) \<Rightarrow> int \<Rightarrow> int \<Rightarrow> bool" where
  "belongs_to_helper_launcher stat_file peer_pid helper_launcher_pid =
     climb stat_file helper_launcher_pid 32 peer_pid"

text \<open>A wait status, as the macros of \<open>sys/wait.h\<close> read it.\<close>

definition wifexited :: "nat \<Rightarrow> bool" where "wifexited status \<longleftrightarrow> status mod 128 = 0"
definition wexitstatus :: "nat \<Rightarrow> nat" where "wexitstatus status = status div 256 mod 256"
definition wifsignaled :: "nat \<Rightarrow> bool" where
  "wifsignaled status \<longleftrightarrow> status mod 128 \<noteq> 0 \<and> status mod 128 \<noteq> 127"
definition wtermsig :: "nat \<Rightarrow> nat" where "wtermsig status = status mod 128"

definition report_helper_exit :: "nat \<Rightarrow> string" where
  "report_helper_exit status =
     (if wifexited status then
        ''NetLagLab: privileged helper launcher exited; exit code: ''
          @ to_string_nat (wexitstatus status) @ [newline]
      else if wifsignaled status then
        ''NetLagLab: privileged helper launcher terminated; signal: ''
          @ to_string_nat (wtermsig status) @ [newline]
      else ''NetLagLab: privileged helper launcher ended with an unsupported status'' @ [newline])"

text \<open>\<open>parent_path\<close> of the absolute path of an executable.\<close>

definition parent_path :: "string \<Rightarrow> string" where
  "parent_path path =
     (let directory = rev (dropWhile (\<lambda>c. c = CHR ''/'') (dropWhile (\<lambda>c. c \<noteq> CHR ''/'') (rev path)))
      in if directory = [] \<and> CHR ''/'' \<in> set path then ''/'' else directory)"

definition join_path :: "string \<Rightarrow> string \<Rightarrow> string" where
  "join_path parent child =
     (if parent \<noteq> [] \<and> last parent \<noteq> CHR ''/'' then parent @ ''/'' @ child else parent @ child)"

text \<open>\<open>readlink\<close> fills at most the buffer it is given.\<close>

definition path_max :: nat where "path_max = 4096"

definition resolve_helper_executable_path :: "(int \<Rightarrow> string) \<Rightarrow> int + string \<Rightarrow> string + string" where
  "resolve_helper_executable_path strerror link =
     (case link of
        Inl e \<Rightarrow> Inl (''NetLagLab: failed to resolve the executable path: '' @ strerror e @ [newline])
      | Inr path \<Rightarrow>
          (if path_max \<le> length path
           then Inl (''NetLagLab: executable path is too long'' @ [newline])
           else Inr (join_path (parent_path path) ''netlaglab-helper'')))"

text \<open>The arguments of \<open>sudo\<close>; the helper sees those after the second.\<close>

definition spawn_arguments :: "string \<Rightarrow> string \<Rightarrow> int \<Rightarrow> nat \<Rightarrow> string list" where
  "spawn_arguments helper_path runtime_directory pid start_time =
     [''sudo'', ''--'', helper_path, ''--runtime-dir'', runtime_directory,
      ''--supervisor-pid'', to_string_int pid, ''--supervisor-start-time'', to_string_nat start_time]"

section \<open>What the helper reads\<close>

definition parse_supervisor_pid :: "string \<Rightarrow> int option" where
  "parse_supervisor_pid s =
     (case whole_number (from_chars_signed int_min int_max s) of
        Some pid \<Rightarrow> (if pid \<le> 1 then None else Some pid) | None \<Rightarrow> None)"

definition parse_supervisor_start_time :: "string \<Rightarrow> nat option" where
  "parse_supervisor_start_time s =
     (case whole_number (from_chars_unsigned uint64_max s) of
        Some start \<Rightarrow> (if start = 0 then None else Some start) | None \<Rightarrow> None)"

record helper_arguments =
  arg_runtime_directory :: string
  arg_supervisor_pid :: int
  arg_start_time :: nat

definition helper_usage :: string where
  "helper_usage = ''Usage: netlaglab-helper --runtime-dir <absolute-path> --supervisor-pid <pid> --supervisor-start-time <ticks>''
     @ [newline]"

definition usage_error :: "string \<Rightarrow> string" where
  "usage_error message = ''NetLagLab helper: '' @ message @ [newline] @ helper_usage"

definition parse_helper_arguments :: "string list \<Rightarrow> string + helper_arguments" where
  "parse_helper_arguments argv =
     (if length argv \<noteq> 7 \<or> argv ! 1 \<noteq> ''--runtime-dir'' \<or> argv ! 3 \<noteq> ''--supervisor-pid''
         \<or> argv ! 5 \<noteq> ''--supervisor-start-time''
      then Inl (usage_error ''expected runtime directory and Supervisor identity'')
      else if argv ! 2 = [] \<or> hd (argv ! 2) \<noteq> CHR ''/''
      then Inl (usage_error ''runtime directory must be an absolute path'')
      else case parse_supervisor_pid (argv ! 4) of
        None \<Rightarrow> Inl (usage_error ''Supervisor PID must be a positive process ID'')
      | Some pid \<Rightarrow>
          (case parse_supervisor_start_time (argv ! 6) of
             None \<Rightarrow> Inl (usage_error ''Supervisor start time must be positive'')
           | Some start \<Rightarrow>
               Inr \<lparr>arg_runtime_directory = argv ! 2, arg_supervisor_pid = pid, arg_start_time = start\<rparr>))"

definition read_sudo_id :: "(string \<Rightarrow> string option) \<Rightarrow> string \<Rightarrow> string + nat" where
  "read_sudo_id getenv name =
     (case getenv name of
        None \<Rightarrow> Inl (''NetLagLab helper: '' @ name @ '' is not set'' @ [newline])
      | Some value \<Rightarrow>
          (if value = [] then Inl (''NetLagLab helper: '' @ name @ '' is not set'' @ [newline])
           else case whole_number (from_chars_unsigned uint32_max value) of
             None \<Rightarrow> Inl (''NetLagLab helper: failed to parse '' @ name @ [newline])
           | Some i \<Rightarrow> Inr i))"

text \<open>Both identifiers are read, and both errors written, before either is missed.\<close>

definition read_invoking_ids :: "(string \<Rightarrow> string option) \<Rightarrow> string + nat \<times> nat" where
  "read_invoking_ids getenv =
     (case (read_sudo_id getenv ''SUDO_UID'', read_sudo_id getenv ''SUDO_GID'') of
        (Inr uid, Inr gid) \<Rightarrow> Inr (uid, gid)
      | (Inl a, Inl b) \<Rightarrow> Inl (a @ b)
      | (Inl a, Inr _) \<Rightarrow> Inl a
      | (Inr _, Inl b) \<Rightarrow> Inl b)"

section \<open>The groups of the peer\<close>

definition group_blank :: "char \<Rightarrow> bool" where
  "group_blank c \<longleftrightarrow> c = CHR '' '' \<or> c = CHR 0x09"

definition groups_prefix :: string where "groups_prefix = ''Groups:''"

definition maximum_groups :: nat where "maximum_groups = 65536"

function group_values :: "string \<Rightarrow> nat list \<Rightarrow> nat list option" where
  "group_values values groups =
     (let rest = dropWhile group_blank values
      in if rest = [] then Some groups
         else case whole_number (from_chars_unsigned uint32_max (takeWhile (\<lambda>c. \<not> group_blank c) rest)) of
           None \<Rightarrow> None
         | Some gid \<Rightarrow>
             (if maximum_groups \<le> length groups then None
              else group_values (dropWhile (\<lambda>c. \<not> group_blank c) rest) (groups @ [gid])))"
  by pat_completeness auto
termination
proof (relation "measure (\<lambda>(values, _). length values)", goal_cases)
  case (2 vs groups rest gid)
  then have "\<not> group_blank (hd rest)" by (metis hd_dropWhile)
  moreover from 2(2) obtain c r where rest: "rest = c # r" by (meson neq_Nil_conv)
  ultimately have "length (dropWhile (\<lambda>c. \<not> group_blank c) rest) < length rest"
    by (simp add: length_dropWhile_le le_imp_less_Suc)
  then show ?case using 2(1) length_dropWhile_le [of group_blank vs] by simp
qed simp

declare group_values.simps [simp del]

definition read_peer_groups :: "string option \<Rightarrow> string + nat list" where
  "read_peer_groups status_file =
     (case status_file of
        None \<Rightarrow> Inl (''NetLagLab helper: failed to open authenticated Supervisor status'' @ [newline])
      | Some content \<Rightarrow>
          (case find (starts_with groups_prefix) (getline_all content) of
             None \<Rightarrow> Inl (''NetLagLab helper: authenticated Supervisor group list is unavailable'' @ [newline])
           | Some line \<Rightarrow>
               (case group_values (drop (length groups_prefix) line) [] of
                  None \<Rightarrow> Inl (''NetLagLab helper: invalid authenticated Supervisor group list'' @ [newline])
                | Some groups \<Rightarrow> Inr groups)))"

end
