(* ===== verification/Session_Files.thy ===== *)
theory Session_Files
  imports Process_Identity
begin

text \<open>
  The files of a session: \<open>session_paths.cpp\<close>, \<open>session_validation.cpp\<close>, \<open>session_socket.cpp\<close> and
  the first part of \<open>run_session\<close>, \<open>attach_to_session\<close> and of the helper. The file system is a map from
  absolute paths to nodes; a directory that is open is named by its path. Each system call can also
  fail with an error number of its own, as \<open>faults\<close> says.
\<close>

unbundle bit_operations_syntax

section \<open>Paths\<close>

definition session_directory_name :: string where "session_directory_name = ''netlaglab''"
definition lock_file_name :: string where "lock_file_name = ''session.lock''"
definition control_socket_name :: string where "control_socket_name = ''control.sock''"
definition helper_socket_name :: string where "helper_socket_name = ''helper.sock''"

record session_paths =
  xdg_runtime_directory :: string
  session_directory :: string
  lock_file :: string
  control_socket :: string
  helper_socket :: string

definition session_paths_of :: "string \<Rightarrow> session_paths" where
  "session_paths_of runtime =
     (let session = join_path runtime session_directory_name
      in \<lparr>xdg_runtime_directory = runtime, session_directory = session,
          lock_file = join_path session lock_file_name,
          control_socket = join_path session control_socket_name,
          helper_socket = join_path session helper_socket_name\<rparr>)"

definition make_session_paths_from_environment :: "string option \<Rightarrow> string + session_paths" where
  "make_session_paths_from_environment runtime =
     (case runtime of
        None \<Rightarrow> Inl (''NetLagLab: XDG_RUNTIME_DIR is not set'' @ [newline])
      | Some path \<Rightarrow>
          (if path = [] then Inl (''NetLagLab: XDG_RUNTIME_DIR is not set'' @ [newline])
           else if hd path \<noteq> CHR ''/''
           then Inl (''NetLagLab: XDG_RUNTIME_DIR must be an absolute path'' @ [newline])
           else Inr (session_paths_of path)))"

section \<open>The file system\<close>

datatype node_kind = Directory_Node | Socket_Node | Regular_Node | Device_Node | Link_Node

record file_node =
  node_kind :: node_kind
  node_owner :: nat
  node_mode :: nat

datatype session_call =
  Call_Open_Runtime | Call_Stat_Runtime | Call_Make_Directory | Call_Chmod_Directory
| Call_Open_Directory | Call_Stat_Directory | Call_Open_Lock | Call_Stat_Lock | Call_Chmod_Lock
| Call_Lock | Call_Stat_Socket | Call_Unlink_Socket | Call_Make_Socket | Call_Bind_Socket
| Call_Chown_Socket | Call_Listen_Socket | Call_Connect_Socket

record file_host =
  host_nodes :: "string \<rightharpoonup> file_node"
  host_locks :: "string set"
  host_listeners :: "string set"
  host_euid :: nat
  host_umask :: nat
  host_faults :: "session_call \<rightharpoonup> int"
  host_strerror :: "int \<Rightarrow> string"

definition enoent :: int where "enoent = 2"
definition eagain :: int where "eagain = 11"
definition eexist :: int where "eexist = 17"
definition enxio :: int where "enxio = 6"
definition enotdir :: int where "enotdir = 20"
definition eisdir :: int where "eisdir = 21"
definition enametoolong :: int where "enametoolong = 36"
definition eloop :: int where "eloop = 40"
definition eaddrinuse :: int where "eaddrinuse = 98"
definition econnrefused :: int where "econnrefused = 111"

text \<open>Octal \<open>0777\<close>, \<open>0700\<close>, \<open>0600\<close>, \<open>0077\<close> and \<open>0177\<close>.\<close>

definition mode_all :: nat where "mode_all = 511"
definition mode_owner_all :: nat where "mode_owner_all = 448"
definition mode_owner_rw :: nat where "mode_owner_rw = 384"
definition mode_others :: nat where "mode_others = 63"
definition socket_creation_mask :: nat where "socket_creation_mask = 127"

text \<open>Permission bits under a mask, as \<open>mode & ~mask\<close>.\<close>

definition masked :: "nat \<Rightarrow> nat \<Rightarrow> nat" where
  "masked mode bits = (mode AND mode_all) - (mode AND mode_all AND bits)"

definition call_result :: "file_host \<Rightarrow> session_call \<Rightarrow> int + 'a \<Rightarrow> int + 'a" where
  "call_result h c r = (case host_faults h c of Some e \<Rightarrow> Inl e | None \<Rightarrow> r)"

text \<open>\<open>fstatat\<close> without following a link, and \<open>fstat\<close> of what is open.\<close>

definition stat_node :: "file_host \<Rightarrow> session_call \<Rightarrow> string \<Rightarrow> int + file_node" where
  "stat_node h c path =
     call_result h c (case host_nodes h path of None \<Rightarrow> Inl enoent | Some node \<Rightarrow> Inr node)"

text \<open>\<open>open\<close> with \<open>O_DIRECTORY | O_NOFOLLOW\<close>.\<close>

definition open_directory :: "file_host \<Rightarrow> session_call \<Rightarrow> string \<Rightarrow> int + unit" where
  "open_directory h c path =
     call_result h c
       (case host_nodes h path of
          None \<Rightarrow> Inl enoent
        | Some node \<Rightarrow> (if node_kind node = Directory_Node then Inr () else Inl enotdir))"

text \<open>\<open>open\<close> with \<open>O_NOFOLLOW\<close> of what exists.\<close>

fun open_node :: "bool \<Rightarrow> node_kind \<Rightarrow> int + unit" where
  "open_node writing Regular_Node = Inr ()"
| "open_node writing Device_Node = Inr ()"
| "open_node writing Directory_Node = (if writing then Inl eisdir else Inr ())"
| "open_node writing Socket_Node = Inl enxio"
| "open_node writing Link_Node = Inl eloop"

definition add_node :: "string \<Rightarrow> file_node \<Rightarrow> file_host \<Rightarrow> file_host" where
  "add_node path node h = h\<lparr>host_nodes := (host_nodes h)(path \<mapsto> node)\<rparr>"

definition change_mode :: "string \<Rightarrow> nat \<Rightarrow> file_host \<Rightarrow> file_host" where
  "change_mode path mode h =
     h\<lparr>host_nodes := (host_nodes h)(path := map_option (\<lambda>node. node\<lparr>node_mode := mode\<rparr>) (host_nodes h path))\<rparr>"

section \<open>Validation\<close>

definition failed_text :: "file_host \<Rightarrow> string \<Rightarrow> int \<Rightarrow> string" where
  "failed_text h what e = ''NetLagLab: '' @ what @ '': '' @ host_strerror h e @ [newline]"

definition refusal :: "string \<Rightarrow> string" where
  "refusal what = ''NetLagLab: '' @ what @ [newline]"

definition validate_runtime_directory :: "file_host \<Rightarrow> string \<Rightarrow> nat \<Rightarrow> string + unit" where
  "validate_runtime_directory h path expected_owner =
     (case stat_node h Call_Stat_Runtime path of
        Inl e \<Rightarrow> Inl (failed_text h ''failed to inspect XDG_RUNTIME_DIR'' e)
      | Inr node \<Rightarrow>
          (if node_kind node \<noteq> Directory_Node then Inl (refusal ''XDG_RUNTIME_DIR is not a directory'')
           else if node_owner node \<noteq> expected_owner
           then Inl (refusal ''XDG_RUNTIME_DIR is not owned by the expected user'')
           else if node_mode node AND mode_others \<noteq> 0
           then Inl (refusal ''XDG_RUNTIME_DIR must not be accessible by group or other users'')
           else Inr ()))"

definition validate_session_directory :: "file_host \<Rightarrow> string \<Rightarrow> nat \<Rightarrow> string + unit" where
  "validate_session_directory h path expected_owner =
     (case stat_node h Call_Stat_Directory path of
        Inl e \<Rightarrow> Inl (failed_text h ''failed to inspect the netlaglab runtime directory'' e)
      | Inr node \<Rightarrow>
          (if node_kind node \<noteq> Directory_Node
           then Inl (refusal ''the netlaglab runtime path is not a directory'')
           else if node_owner node \<noteq> expected_owner
           then Inl (refusal ''the netlaglab runtime directory has an unexpected owner'')
           else if node_mode node AND mode_all \<noteq> mode_owner_all
           then Inl (refusal ''the netlaglab runtime directory must have permissions 0700'')
           else Inr ()))"

definition open_and_validate_runtime_directory :: "file_host \<Rightarrow> string \<Rightarrow> nat \<Rightarrow> string + unit" where
  "open_and_validate_runtime_directory h path expected_owner =
     (case open_directory h Call_Open_Runtime path of
        Inl e \<Rightarrow> Inl (failed_text h ''failed to open XDG_RUNTIME_DIR'' e)
      | Inr _ \<Rightarrow> validate_runtime_directory h path expected_owner)"

definition open_and_validate_session_directory :: "file_host \<Rightarrow> string \<Rightarrow> nat \<Rightarrow> string + unit" where
  "open_and_validate_session_directory h runtime expected_owner =
     (let path = join_path runtime session_directory_name
      in case open_directory h Call_Open_Directory path of
           Inl e \<Rightarrow>
             Inl (if e = enoent then refusal ''no active session''
                  else failed_text h ''failed to open the netlaglab runtime directory'' e)
         | Inr _ \<Rightarrow> validate_session_directory h path expected_owner)"

section \<open>The owner of a socket path\<close>

record socket_path_owner =
  owner_directory :: string
  owner_socket_name :: string
  owner_socket_path :: string
  owner_uid :: nat
  owner_owned :: bool

definition socket_node_path :: "socket_path_owner \<Rightarrow> string" where
  "socket_node_path o1 = join_path (owner_directory o1) (owner_socket_name o1)"

definition unlink_node :: "string \<Rightarrow> file_host \<Rightarrow> (int + unit) \<times> file_host" where
  "unlink_node path h =
     (case call_result h Call_Unlink_Socket
        (case host_nodes h path of None \<Rightarrow> Inl enoent | Some _ \<Rightarrow> Inr ()) of
        Inl e \<Rightarrow> (Inl e, h)
      | Inr _ \<Rightarrow> (Inr (), h\<lparr>host_nodes := (host_nodes h)(path := None)\<rparr>))"

definition remove_stale :: "socket_path_owner \<Rightarrow> file_host \<Rightarrow> (string + unit) \<times> file_host" where
  "remove_stale o1 h =
     (let name = owner_socket_name o1; path = socket_node_path o1
      in case stat_node h Call_Stat_Socket path of
           Inl e \<Rightarrow>
             (if e = enoent then Inr () else Inl (failed_text h (''failed to inspect '' @ name) e), h)
         | Inr node \<Rightarrow>
             (if node_kind node \<noteq> Socket_Node
              then (Inl (refusal (''refusing to remove '' @ name @ '' because it is not a socket'')), h)
              else if node_owner node \<noteq> owner_uid o1 \<and> node_owner node \<noteq> host_euid h
              then (Inl (refusal (''refusing to remove '' @ name @ '' owned by an unexpected user'')), h)
              else case unlink_node path h of
                (Inl e, h1) \<Rightarrow> (Inl (failed_text h (''failed to remove stale '' @ name) e), h1)
              | (Inr _, h1) \<Rightarrow> (Inr (), h1)))"

text \<open>The error number, 0 for success.\<close>

definition remove_owned :: "socket_path_owner \<Rightarrow> file_host \<Rightarrow> int \<times> socket_path_owner \<times> file_host" where
  "remove_owned o1 h =
     (if \<not> owner_owned o1 then (0, o1, h)
      else case unlink_node (socket_node_path o1) h of
        (Inr _, h1) \<Rightarrow> (0, o1\<lparr>owner_owned := False\<rparr>, h1)
      | (Inl e, h1) \<Rightarrow> (if e = enoent then (0, o1\<lparr>owner_owned := False\<rparr>, h1) else (e, o1, h1)))"

definition sun_path_size :: nat where "sun_path_size = 108"

text \<open>
  \<open>bind\<close> makes the node with the mode of a socket under the mask in force; the mask of the process is
  the same before and after.
\<close>

definition create_listening_socket ::
  "socket_path_owner \<Rightarrow> file_host \<Rightarrow> (string + unit) \<times> socket_path_owner \<times> file_host" where
  "create_listening_socket o1 h =
     (let name = owner_socket_name o1; path = owner_socket_path o1
      in if sun_path_size \<le> length path then (Inl (refusal (name @ '' path is too long'')), o1, h)
         else case call_result h Call_Make_Socket (Inr ()) of
           Inl e \<Rightarrow> (Inl (failed_text h (''failed to create '' @ name) e), o1, h)
         | Inr _ \<Rightarrow>
             (case call_result h Call_Bind_Socket
                (if host_nodes h path = None then Inr () else Inl eaddrinuse) of
                Inl e \<Rightarrow> (Inl (failed_text h (''failed to bind '' @ name) e), o1, h)
              | Inr _ \<Rightarrow>
                  (let h1 = add_node path \<lparr>node_kind = Socket_Node, node_owner = host_euid h,
                         node_mode = masked mode_all socket_creation_mask\<rparr> h;
                       o2 = o1\<lparr>owner_owned := True\<rparr>
                   in case (if owner_uid o1 \<noteq> host_euid h then call_result h Call_Chown_Socket (Inr ()) else Inr ()) of
                        Inl e \<Rightarrow> (Inl (failed_text h (''failed to set owner of '' @ name) e), o2, h1)
                      | Inr _ \<Rightarrow>
                          (let h2 = (if owner_uid o1 \<noteq> host_euid h
                                then h1\<lparr>host_nodes := (host_nodes h1)(socket_node_path o1 :=
                                    map_option (\<lambda>node. node\<lparr>node_owner := owner_uid o1\<rparr>)
                                      (host_nodes h1 (socket_node_path o1)))\<rparr>
                                else h1)
                           in case call_result h Call_Listen_Socket (Inr ()) of
                                Inl e \<Rightarrow> (Inl (failed_text h (''failed to listen on '' @ name) e), o2, h2)
                              | Inr _ \<Rightarrow>
                                  (Inr (), o2, h2\<lparr>host_listeners := insert path (host_listeners h2)\<rparr>)))))"

section \<open>The files of a new session\<close>

definition make_session_directory :: "file_host \<Rightarrow> string \<Rightarrow> (string + unit) \<times> file_host" where
  "make_session_directory h path =
     (case call_result h Call_Make_Directory
        (if host_nodes h path = None then Inr () else Inl eexist) of
        Inl e \<Rightarrow>
          (if e = eexist then Inr ()
           else Inl (failed_text h ''failed to create the netlaglab runtime directory'' e), h)
      | Inr _ \<Rightarrow>
          (let h1 = add_node path \<lparr>node_kind = Directory_Node, node_owner = host_euid h,
                 node_mode = masked mode_owner_all (host_umask h)\<rparr> h
           in case call_result h Call_Chmod_Directory (Inr ()) of
                Inl e \<Rightarrow> (Inl (failed_text h ''failed to set runtime directory permissions'' e), h1)
              | Inr _ \<Rightarrow> (Inr (), change_mode path mode_owner_all h1)))"

text \<open>\<open>openat\<close> with \<open>O_CREAT | O_NOFOLLOW\<close>.\<close>

definition open_lock :: "file_host \<Rightarrow> string \<Rightarrow> (int + unit) \<times> file_host" where
  "open_lock h path =
     (case host_faults h Call_Open_Lock of
        Some e \<Rightarrow> (Inl e, h)
      | None \<Rightarrow>
          (case host_nodes h path of
             None \<Rightarrow>
               (Inr (), add_node path \<lparr>node_kind = Regular_Node, node_owner = host_euid h,
                    node_mode = masked mode_owner_rw (host_umask h)\<rparr> h)
           | Some node \<Rightarrow> (open_node True (node_kind node), h)))"

definition lock_session :: "file_host \<Rightarrow> string \<Rightarrow> (string + unit) \<times> file_host" where
  "lock_session h path =
     (case open_lock h path of
        (Inl e, h1) \<Rightarrow> (Inl (failed_text h ''failed to open session.lock'' e), h1)
      | (Inr _, h1) \<Rightarrow>
          (case stat_node h1 Call_Stat_Lock path of
             Inl e \<Rightarrow> (Inl (refusal ''session.lock must be a regular file owned by the current user''), h1)
           | Inr node \<Rightarrow>
               (if node_kind node \<noteq> Regular_Node \<or> node_owner node \<noteq> host_euid h1
                then (Inl (refusal ''session.lock must be a regular file owned by the current user''), h1)
                else case call_result h1 Call_Chmod_Lock (Inr ()) of
                  Inl e \<Rightarrow>
                    (Inl (if e = eagain then refusal ''another Session is already active for this user''
                          else failed_text h1 ''failed to acquire session.lock'' e), h1)
                | Inr _ \<Rightarrow>
                    (let h2 = change_mode path mode_owner_rw h1
                     in case call_result h2 Call_Lock (if path \<in> host_locks h2 then Inl eagain else Inr ()) of
                       Inl e \<Rightarrow>
                         (Inl (if e = eagain then refusal ''another Session is already active for this user''
                               else failed_text h2 ''failed to acquire session.lock'' e), h2)
                     | Inr _ \<Rightarrow> (Inr (), h2\<lparr>host_locks := insert path (host_locks h2)\<rparr>)))))"

text \<open>The directories and the lock, in the order of \<open>run_session\<close>.\<close>

definition prepare_session_files :: "session_paths \<Rightarrow> file_host \<Rightarrow> (string + unit) \<times> file_host" where
  "prepare_session_files paths h =
     (case open_and_validate_runtime_directory h (xdg_runtime_directory paths) (host_euid h) of
        Inl m \<Rightarrow> (Inl m, h)
      | Inr _ \<Rightarrow>
          (case make_session_directory h (join_path (xdg_runtime_directory paths) session_directory_name) of
             (Inl m, h1) \<Rightarrow> (Inl m, h1)
           | (Inr _, h1) \<Rightarrow>
               (case open_and_validate_session_directory h1 (xdg_runtime_directory paths) (host_euid h1) of
                  Inl m \<Rightarrow> (Inl m, h1)
                | Inr _ \<Rightarrow>
                    lock_session h1 (join_path (join_path (xdg_runtime_directory paths) session_directory_name)
                      lock_file_name))))"

definition control_socket_owner :: "session_paths \<Rightarrow> nat \<Rightarrow> socket_path_owner" where
  "control_socket_owner paths uid =
     \<lparr>owner_directory = join_path (xdg_runtime_directory paths) session_directory_name,
      owner_socket_name = control_socket_name, owner_socket_path = control_socket paths,
      owner_uid = uid, owner_owned = False\<rparr>"

section \<open>The helper looks at the session\<close>

definition lock_refused :: string where
  "lock_refused = ''NetLagLab helper: session.lock has invalid type, owner, or permissions'' @ [newline]"

definition validate_session :: "session_paths \<Rightarrow> nat \<Rightarrow> file_host \<Rightarrow> string + unit" where
  "validate_session paths expected_owner h =
     (case open_and_validate_runtime_directory h (xdg_runtime_directory paths) expected_owner of
        Inl m \<Rightarrow> Inl m
      | Inr _ \<Rightarrow>
          (case open_and_validate_session_directory h (xdg_runtime_directory paths) expected_owner of
             Inl m \<Rightarrow> Inl m
           | Inr _ \<Rightarrow>
               (let path = join_path (join_path (xdg_runtime_directory paths) session_directory_name) lock_file_name
                in case call_result h Call_Open_Lock
                     (case host_nodes h path of
                        None \<Rightarrow> Inl enoent
                      | Some node \<Rightarrow> open_node False (node_kind node)) of
                  Inl e \<Rightarrow> Inl (''NetLagLab helper: failed to open session.lock: '' @ host_strerror h e @ [newline])
                | Inr _ \<Rightarrow>
                    (case stat_node h Call_Stat_Lock path of
                       Inl e \<Rightarrow> Inl lock_refused
                     | Inr node \<Rightarrow>
                         (if node_kind node \<noteq> Regular_Node \<or> node_owner node \<noteq> expected_owner
                             \<or> node_mode node AND mode_all \<noteq> mode_owner_rw
                          then Inl lock_refused
                          else case call_result h Call_Lock (if path \<in> host_locks h then Inl eagain else Inr ()) of
                            Inr _ \<Rightarrow>
                              Inl (''NetLagLab helper: session.lock is not held by an active supervisor'' @ [newline])
                          | Inl e \<Rightarrow>
                              (if e \<noteq> eagain
                               then Inl (''NetLagLab helper: failed to inspect the session lock: ''
                                      @ host_strerror h e @ [newline])
                               else Inr ()))))))"

section \<open>The attach client looks at the session\<close>

definition validate_control_socket :: "file_host \<Rightarrow> string \<Rightarrow> string + unit" where
  "validate_control_socket h directory =
     (case stat_node h Call_Stat_Socket (join_path directory control_socket_name) of
        Inl e \<Rightarrow>
          Inl (if e = enoent then refusal ''no active session''
               else failed_text h ''failed to inspect control.sock'' e)
      | Inr node \<Rightarrow>
          (if node_kind node \<noteq> Socket_Node then Inl (refusal ''control.sock is not a socket'')
           else if node_owner node \<noteq> host_euid h
           then Inl (refusal ''control.sock is owned by another user'')
           else if node_mode node AND mode_all \<noteq> mode_owner_rw
           then Inl (refusal ''control.sock must have permissions 0600'')
           else Inr ()))"

datatype connect_failure = Path_Too_Long | Socket_Creation int | Connection_Failed int

definition connect_to_unix_socket :: "file_host \<Rightarrow> string \<Rightarrow> connect_failure + unit" where
  "connect_to_unix_socket h path =
     (if sun_path_size \<le> length path then Inl Path_Too_Long
      else case call_result h Call_Make_Socket (Inr ()) of
        Inl e \<Rightarrow> Inl (Socket_Creation e)
      | Inr _ \<Rightarrow>
          (case call_result h Call_Connect_Socket
             (case host_nodes h path of
                None \<Rightarrow> Inl enoent
              | Some node \<Rightarrow>
                  (if node_kind node = Socket_Node \<and> path \<in> host_listeners h then Inr ()
                   else Inl econnrefused)) of
             Inl e \<Rightarrow> Inl (Connection_Failed e)
           | Inr _ \<Rightarrow> Inr ()))"

text \<open>Everything \<open>attach_to_session\<close> does before it runs the controller.\<close>

definition find_session :: "file_host \<Rightarrow> string option \<Rightarrow> string + string" where
  "find_session h runtime =
     (case make_session_paths_from_environment runtime of
        Inl m \<Rightarrow> Inl m
      | Inr paths \<Rightarrow>
          (case open_and_validate_runtime_directory h (xdg_runtime_directory paths) (host_euid h) of
             Inl m \<Rightarrow> Inl m
           | Inr _ \<Rightarrow>
               (case open_and_validate_session_directory h (xdg_runtime_directory paths) (host_euid h) of
                  Inl m \<Rightarrow> Inl m
                | Inr _ \<Rightarrow>
                    (case validate_control_socket h
                            (join_path (xdg_runtime_directory paths) session_directory_name) of
                       Inl m \<Rightarrow> Inl m
                     | Inr _ \<Rightarrow>
                         (case connect_to_unix_socket h (control_socket paths) of
                            Inr _ \<Rightarrow> Inr (control_socket paths)
                          | Inl Path_Too_Long \<Rightarrow> Inl (refusal (control_socket_name @ '' path is too long''))
                          | Inl (Socket_Creation e) \<Rightarrow>
                              Inl (failed_text h (''failed to create client socket for '' @ control_socket_name) e)
                          | Inl (Connection_Failed e) \<Rightarrow>
                              Inl (if e = enoent \<or> e = econnrefused then refusal ''no active session''
                                   else failed_text h ''failed to connect to session'' e))))))"

end
