(* ===== verification/Launcher.thy ===== *)
theory Launcher
  imports Session_Files
begin

text \<open>
  The supervisor's side of the helper process, \<open>src/helper_process.cpp\<close>: waiting for its socket and
  reaping it. The process is seen through \<open>waitid\<close> and \<open>waitpid\<close>, which an interrupt can repeat for
  ever; what is written to the error stream is part of the results.
\<close>

section \<open>Loops around calls that may not return\<close>

partial_function (option) iterate_calls :: "('s \<Rightarrow> ('s + 'r) option) \<Rightarrow> 's \<Rightarrow> 'r option" where
  "iterate_calls body s =
     Option.bind (body s) (\<lambda>x. case x of Inl t \<Rightarrow> iterate_calls body t | Inr r \<Rightarrow> Some r)"

declare iterate_calls.simps [code]

lemma iterate_calls_unfold:
  "body s = Some (Inl t) \<Longrightarrow> iterate_calls body s = iterate_calls body t"
  "body s = Some (Inr r) \<Longrightarrow> iterate_calls body s = Some r"
  by (subst iterate_calls.simps; simp)+

lemma iterate_calls_rule:
  assumes "iterate_calls body s = Some r" and "I s"
    and "\<And>s t. I s \<Longrightarrow> body s = Some (Inl t) \<Longrightarrow> I t"
    and "\<And>s r. I s \<Longrightarrow> body s = Some (Inr r) \<Longrightarrow> Q r"
  shows "Q r"
proof -
  let ?P = "\<lambda>b s r. b = body \<longrightarrow> I s \<longrightarrow> Q r"
  have "?P body s r"
  proof (rule iterate_calls.raw_induct [where P = ?P, OF _ assms(1)])
    fix run b s r
    assume hyp: "\<And>b s r. run b s = Some r \<Longrightarrow> ?P b s r"
      and step: "Option.bind (b s) (\<lambda>x. case x of Inl t \<Rightarrow> run b t | Inr r \<Rightarrow> Some r) = Some r"
    show "?P b s r"
    proof (intro impI)
      assume b: "b = body" and I: "I s"
      from step obtain x where x: "b s = Some x" "(case x of Inl t \<Rightarrow> run b t | Inr r \<Rightarrow> Some r) = Some r"
        by (cases "b s") auto
      show "Q r"
      proof (cases x)
        case (Inl t)
        with assms(3) [OF I] x(1) b have "I t" by simp
        moreover from x(2) b Inl have "run body t = Some r" by simp
        ultimately show ?thesis using hyp by blast
      next
        case (Inr r')
        with x b assms(4) [OF I] show ?thesis by simp
      qed
    qed
  qed
  with assms(2) show ?thesis by simp
qed

section \<open>The process of the launcher\<close>

datatype wait_answer = Wait_Interrupted | Wait_Failed int | Wait_Running | Wait_Ended nat

text \<open>\<open>peer_of\<close> is what \<open>SO_PEERCRED\<close> tells: a process and its user.\<close>

record 'w launcher_world =
  look_child :: "'w \<Rightarrow> wait_answer \<times> 'w"
  poll_child :: "'w \<Rightarrow> wait_answer \<times> 'w"
  wait_child :: "'w \<Rightarrow> wait_answer \<times> 'w"
  kill_child :: "nat \<Rightarrow> 'w \<Rightarrow> 'w"
  clock_ms :: "'w \<Rightarrow> int \<times> 'w"
  sleep_ms :: "nat \<Rightarrow> 'w \<Rightarrow> 'w"
  connect_helper :: "'w \<Rightarrow> (connect_failure + unit) \<times> 'w"
  lstat_helper :: "'w \<Rightarrow> file_node option \<times> 'w"
  peer_of :: "'w \<Rightarrow> (int \<times> nat) option \<times> 'w"
  stat_files :: "'w \<Rightarrow> int \<Rightarrow> string option"
  user_of :: nat
  child_pid :: int
  error_text :: "int \<Rightarrow> string"

text \<open>\<open>do \<dots> while (result == -1 && errno == EINTR)\<close>\<close>

definition retry_interrupted :: "('w \<Rightarrow> wait_answer \<times> 'w) \<Rightarrow> 'w \<Rightarrow> (wait_answer \<times> 'w) option" where
  "retry_interrupted call =
     iterate (\<lambda>w. case call w of (a, w1) \<Rightarrow> if a = Wait_Interrupted then Inl w1 else Inr (a, w1))"

definition launcher_sigterm :: nat where "launcher_sigterm = 15"
definition launcher_sigkill :: nat where "launcher_sigkill = 9"
definition retry_delay :: nat where "retry_delay = 50"

section \<open>Waiting for the connection\<close>

definition helper_peer_refused :: string where
  "helper_peer_refused =
     ''NetLagLab: rejected helper.sock peer not belonging to the launched root helper process tree'' @ [newline]"

definition check_connection :: "'w launcher_world \<Rightarrow> 'w \<Rightarrow> (string + unit) \<times> 'w" where
  "check_connection lw w =
     (case lstat_helper lw w of (node, w1) \<Rightarrow>
        (if (case node of
               None \<Rightarrow> True
             | Some n \<Rightarrow> node_kind n \<noteq> Socket_Node \<or> node_owner n \<noteq> user_of lw
                 \<or> node_mode n AND mode_all \<noteq> mode_owner_rw)
         then (Inl (refusal ''helper.sock has invalid type, owner, or permissions''), w1)
         else case peer_of lw w1 of (peer, w2) \<Rightarrow>
           (case peer of
              None \<Rightarrow> (Inl helper_peer_refused, w2)
            | Some (pid, uid) \<Rightarrow>
                (if uid \<noteq> 0 \<or> \<not> belongs_to_helper_launcher (stat_files lw w2) pid (child_pid lw)
                 then (Inl helper_peer_refused, w2) else (Inr (), w2)))))"

text \<open>The launcher after a connection that is still refused: \<open>Inl\<close> goes round again.\<close>

definition check_launcher :: "'w launcher_world \<Rightarrow> 'w \<Rightarrow> ('w + (string + unit) \<times> 'w) option" where
  "check_launcher lw w =
     Option.bind (retry_interrupted (look_child lw) w) (\<lambda>(answer, w1).
       case answer of
         Wait_Ended _ \<Rightarrow>
           Option.bind (retry_interrupted (wait_child lw) w1) (\<lambda>(reaped, w2).
             Some (Inr (Inl (case reaped of
                 Wait_Ended status \<Rightarrow> report_helper_exit status
               | _ \<Rightarrow> ''NetLagLab: failed to reap privileged helper before connection'' @ [newline]), w2)))
       | Wait_Failed e \<Rightarrow>
           Some (Inr (Inl (''NetLagLab: failed to check privileged helper process: ''
               @ error_text lw e @ [newline]), w1))
       | _ \<Rightarrow> Some (Inl (sleep_ms lw retry_delay w1)))"

definition connection_pass :: "'w launcher_world \<Rightarrow> 'w \<Rightarrow> ('w + (string + unit) \<times> 'w) option" where
  "connection_pass lw w =
     (case connect_helper lw w of (connection, w1) \<Rightarrow>
        (case connection of
           Inr _ \<Rightarrow> Some (Inr (check_connection lw w1))
         | Inl Path_Too_Long \<Rightarrow> Some (Inr (Inl (refusal (helper_socket_name @ '' path is too long'')), w1))
         | Inl (Socket_Creation e) \<Rightarrow>
             Some (Inr (Inl (''NetLagLab: failed to create client socket for '' @ helper_socket_name @ '': ''
               @ error_text lw e @ [newline]), w1))
         | Inl (Connection_Failed e) \<Rightarrow>
             (if e \<noteq> enoent \<and> e \<noteq> econnrefused
              then Some (Inr (Inl (''NetLagLab: failed to connect to privileged helper: ''
                @ error_text lw e @ [newline]), w1))
              else check_launcher lw w1)))"

definition wait_for_helper_connection :: "'w launcher_world \<Rightarrow> 'w \<Rightarrow> ((string + unit) \<times> 'w) option" where
  "wait_for_helper_connection lw = iterate_calls (connection_pass lw)"

section \<open>Reaping\<close>

datatype until_result = Until_Ended nat | Until_Failed int | Until_Timeout

definition until_pass ::
  "'w launcher_world \<Rightarrow> int \<Rightarrow> 'w \<Rightarrow> ('w + until_result \<times> 'w) option" where
  "until_pass lw deadline w =
     (case clock_ms lw w of (now, w1) \<Rightarrow>
        (if \<not> now < deadline then Some (Inr (Until_Timeout, w1))
         else Option.bind (retry_interrupted (poll_child lw) w1) (\<lambda>(answer, w2).
           case answer of
             Wait_Ended status \<Rightarrow> Some (Inr (Until_Ended status, w2))
           | Wait_Failed e \<Rightarrow> Some (Inr (Until_Failed e, w2))
           | _ \<Rightarrow> Some (Inl (sleep_ms lw retry_delay w2)))))"

text \<open>Two seconds from now on.\<close>

definition wait_until :: "'w launcher_world \<Rightarrow> 'w \<Rightarrow> (until_result \<times> 'w) option" where
  "wait_until lw w =
     (case clock_ms lw w of (now, w1) \<Rightarrow> iterate_calls (until_pass lw (now + 2000)) w1)"

definition reap_text :: "string \<Rightarrow> string" where
  "reap_text t = ''NetLagLab: '' @ t @ [newline]"

definition reap_after_kill :: "'w launcher_world \<Rightarrow> 'w \<Rightarrow> ((bool \<times> string) \<times> 'w) option" where
  "reap_after_kill lw w =
     Option.bind (retry_interrupted (wait_child lw) (kill_child lw launcher_sigkill w)) (\<lambda>(answer, w1).
       Some ((False, reap_text (case answer of
           Wait_Ended _ \<Rightarrow> ''privileged helper launcher required SIGKILL during reaping''
         | _ \<Rightarrow> ''failed to reap privileged helper launcher after SIGKILL'')), w1))"

definition reap_after_term :: "'w launcher_world \<Rightarrow> 'w \<Rightarrow> ((bool \<times> string) \<times> 'w) option" where
  "reap_after_term lw w =
     Option.bind (wait_until lw (kill_child lw launcher_sigterm w)) (\<lambda>(r, w1).
       case r of
         Until_Failed e \<Rightarrow>
           Some ((False, reap_text ''failed to reap privileged helper launcher after SIGTERM''), w1)
       | Until_Ended _ \<Rightarrow>
           Some ((False, reap_text ''privileged helper launcher required SIGTERM during reaping''), w1)
       | Until_Timeout \<Rightarrow> reap_after_kill lw w1)"

definition reap_helper_launcher :: "'w launcher_world \<Rightarrow> 'w \<Rightarrow> ((bool \<times> string) \<times> 'w) option" where
  "reap_helper_launcher lw w =
     Option.bind (wait_until lw w) (\<lambda>(r, w1).
       case r of
         Until_Failed e \<Rightarrow>
           Some ((False, reap_text (''failed to reap privileged helper launcher: '' @ error_text lw e)), w1)
       | Until_Ended status \<Rightarrow>
           Some (if wifexited status \<and> wexitstatus status = 0 then (True, [])
                 else (False, report_helper_exit status), w1)
       | Until_Timeout \<Rightarrow> reap_after_term lw w1)"

end
