(* ===== verification/Command_Runner.thy ===== *)
theory Command_Runner
  imports Host_Platform Launcher
begin

text \<open>
  Running one command with a deadline, \<open>src/network_environment/command_runner.cpp\<close>: the parent's
  loop over the pipes and the process, and what the child does up to \<open>execve\<close>. System calls are
  functions on a world, times are nanoseconds of the steady clock.
\<close>

unbundle bit_operations_syntax

section \<open>Processes and pipes\<close>

datatype command_pipe = Stderr_Pipe | Stdout_Pipe | Failure_Pipe

datatype 'a pipe_read = Pipe_Data 'a | Pipe_End | Pipe_Interrupted | Pipe_Empty | Pipe_Failed int

datatype namespace_mode = Mode_None | Mode_Inherit_Descriptor | Mode_Enter

record command_request =
  request_path :: string
  request_arguments :: "string list"
  request_descriptor :: int
  request_mode :: namespace_mode
  request_capture :: bool
  request_maximum :: nat

record 'w runner_world =
  runner_clock :: "'w \<Rightarrow> int \<times> 'w"
  make_pipe :: "command_pipe \<Rightarrow> 'w \<Rightarrow> (int + unit) \<times> 'w"
  pipe_flags :: "command_pipe \<Rightarrow> 'w \<Rightarrow> (int + nat) \<times> 'w"
  set_pipe_flags :: "command_pipe \<Rightarrow> nat \<Rightarrow> 'w \<Rightarrow> (int + unit) \<times> 'w"
  fork_command :: "command_request \<Rightarrow> 'w \<Rightarrow> (int + unit) \<times> 'w"
  read_text_pipe :: "command_pipe \<Rightarrow> nat \<Rightarrow> 'w \<Rightarrow> string pipe_read \<times> 'w"
  read_failure_pipe :: "nat \<Rightarrow> 'w \<Rightarrow> bytes pipe_read \<times> 'w"
  look_command :: "'w \<Rightarrow> wait_answer \<times> 'w"
  await_command :: "'w \<Rightarrow> wait_answer \<times> 'w"
  kill_command :: "'w \<Rightarrow> (int + unit) \<times> 'w"
  poll_pipes :: "bool \<times> bool \<times> bool \<Rightarrow> int \<Rightarrow> 'w \<Rightarrow> (int + unit) \<times> 'w"

definition maximum_diagnostic_size :: nat where "maximum_diagnostic_size = 4096"
definition o_nonblock :: nat where "o_nonblock = 2048"
definition runner_eintr :: int where "runner_eintr = 4"
definition runner_eio :: int where "runner_eio = 5"
definition runner_echild :: int where "runner_echild = 10"
definition runner_einval :: int where "runner_einval = 22"
definition runner_esrch :: int where "runner_esrch = 3"

definition make_nonblocking :: "'w runner_world \<Rightarrow> command_pipe \<Rightarrow> 'w \<Rightarrow> (int + unit) \<times> 'w" where
  "make_nonblocking rw p w =
     (case pipe_flags rw p w of
        (Inl e, w1) \<Rightarrow> (Inl e, w1)
      | (Inr flags, w1) \<Rightarrow> set_pipe_flags rw p (flags OR o_nonblock) w1)"

section \<open>The child\<close>

datatype child_failure = Exec_Failure | System_Failure

text \<open>The result of the child's calls: it runs the command, or it reports a failure and exits with 125.\<close>

datatype child_end = Child_Executes | Child_Reports child_failure int

record 'c child_world =
  stderr_in_place :: bool
  keep_stderr :: "'c \<Rightarrow> (int + unit) \<times> 'c"
  place_stderr :: "'c \<Rightarrow> (int + unit) \<times> 'c"
  place_stdout :: "'c \<Rightarrow> (int + unit) \<times> 'c"
  descriptor_flags :: "int \<Rightarrow> 'c \<Rightarrow> (int + nat) \<times> 'c"
  set_descriptor_flags :: "int \<Rightarrow> nat \<Rightarrow> 'c \<Rightarrow> (int + unit) \<times> 'c"
  enter_namespace :: "int \<Rightarrow> 'c \<Rightarrow> (int + unit) \<times> 'c"
  execute :: "string \<Rightarrow> string list \<Rightarrow> string list \<Rightarrow> 'c \<Rightarrow> int option \<times> 'c"

definition fd_cloexec :: nat where "fd_cloexec = 1"

definition child_namespace ::
  "'c child_world \<Rightarrow> command_request \<Rightarrow> 'c \<Rightarrow> (int + unit) \<times> 'c" where
  "child_namespace cw r c =
     (case request_mode r of
        Mode_Inherit_Descriptor \<Rightarrow>
          (case descriptor_flags cw (request_descriptor r) c of
             (Inl e, c1) \<Rightarrow> (Inl e, c1)
           | (Inr flags, c1) \<Rightarrow>
               set_descriptor_flags cw (request_descriptor r) (flags - (flags AND fd_cloexec)) c1)
      | Mode_Enter \<Rightarrow> enter_namespace cw (request_descriptor r) c
      | Mode_None \<Rightarrow> (Inr (), c))"

definition child_streams ::
  "'c child_world \<Rightarrow> command_request \<Rightarrow> 'c \<Rightarrow> (int + unit) \<times> 'c" where
  "child_streams cw r c =
     (case (if stderr_in_place cw then keep_stderr cw c else place_stderr cw c) of
        (Inl e, c1) \<Rightarrow> (Inl e, c1)
      | (Inr _, c1) \<Rightarrow> (if request_capture r then place_stdout cw c1 else (Inr (), c1)))"

text \<open>The arguments start with the path; the environment is empty.\<close>

definition run_child :: "'c child_world \<Rightarrow> command_request \<Rightarrow> 'c \<Rightarrow> child_end \<times> 'c" where
  "run_child cw r c =
     (case child_streams cw r c of
        (Inl e, c1) \<Rightarrow> (Child_Reports System_Failure e, c1)
      | (Inr _, c1) \<Rightarrow>
          (case child_namespace cw r c1 of
             (Inl e, c2) \<Rightarrow> (Child_Reports System_Failure e, c2)
           | (Inr _, c2) \<Rightarrow>
               (case execute cw (request_path r) (request_path r # request_arguments r) [] c2 of
                  (None, c3) \<Rightarrow> (Child_Executes, c3)
                | (Some e, c3) \<Rightarrow> (Child_Reports Exec_Failure e, c3))))"

text \<open>\<open>ChildFailureMessage\<close>: two integers of four bytes. Any other kind is a system failure.\<close>

definition failure_message_size :: nat where "failure_message_size = 8"

definition failure_kind_code :: "child_failure \<Rightarrow> nat" where
  "failure_kind_code k = (case k of Exec_Failure \<Rightarrow> 0 | System_Failure \<Rightarrow> 1)"

definition failure_message :: "child_failure \<Rightarrow> int \<Rightarrow> bytes" where
  "failure_message k e = le_bytes 4 (failure_kind_code k) @ le_bytes 4 (nat (e mod 2 ^ 32))"

definition failure_message_kind :: "bytes \<Rightarrow> child_failure" where
  "failure_message_kind m = (if le_value (take 4 m) = 0 then Exec_Failure else System_Failure)"

definition failure_message_error :: "bytes \<Rightarrow> int" where
  "failure_message_error m = signed32 (le_value (take 4 (drop 4 m)))"

text \<open>\<open>report_child_failure_and_exit\<close>: what the writes of the message left in the pipe.\<close>

definition report_pass :: "(bytes \<Rightarrow> 'c \<Rightarrow> (int + nat) \<times> 'c) \<Rightarrow> bytes \<times> 'c \<Rightarrow> bytes \<times> 'c + 'c" where
  "report_pass write = (\<lambda>(m, c).
     if m = [] then Inr c
     else case write m c of
       (Inr n, c1) \<Rightarrow> if 0 < n then Inl (drop n m, c1) else Inr c1
     | (Inl e, c1) \<Rightarrow> if e = runner_eintr then Inl (m, c1) else Inr c1)"

definition report_child_failure :: "(bytes \<Rightarrow> 'c \<Rightarrow> (int + nat) \<times> 'c) \<Rightarrow> child_failure \<Rightarrow> int \<Rightarrow> 'c \<Rightarrow> 'c option" where
  "report_child_failure write k e c = iterate (report_pass write) (failure_message k e, c)"

section \<open>Reading the pipes\<close>

record run_state =
  run_diagnostic :: string
  run_output :: string
  run_failure :: bytes
  run_stderr_open :: bool
  run_stdout_open :: bool
  run_failure_open :: bool

text \<open>One read of \<open>drain_output\<close>; the state is the reads so far, whether the pipe is open and what was
  captured.\<close>

definition drain_pass ::
  "'w runner_world \<Rightarrow> command_pipe \<Rightarrow> bool \<Rightarrow> nat \<Rightarrow> nat \<times> bool \<times> string \<times> 'w
     \<Rightarrow> nat \<times> bool \<times> string \<times> 'w + (int + unit) \<times> bool \<times> string \<times> 'w" where
  "drain_pass rw p whole limit = (\<lambda>(reads, opened, captured, w).
     if \<not> opened then Inr (Inr (), opened, captured, w)
     else case read_text_pipe rw p 1024 w of (r, w1) \<Rightarrow>
       (case r of
          Pipe_Data d \<Rightarrow>
            (let captured1 = captured @ take (min (limit - length captured) (length d)) d
             in if \<not> whole \<and> Suc reads = 16 then Inr (Inr (), opened, captured1, w1)
                else Inl (Suc reads, opened, captured1, w1))
        | Pipe_End \<Rightarrow> Inl (reads, False, captured, w1)
        | Pipe_Interrupted \<Rightarrow> Inl (reads, opened, captured, w1)
        | Pipe_Empty \<Rightarrow> Inr (Inr (), opened, captured, w1)
        | Pipe_Failed e \<Rightarrow> Inr (Inl e, opened, captured, w1)))"

definition drain_output ::
  "'w runner_world \<Rightarrow> command_pipe \<Rightarrow> bool \<Rightarrow> nat \<Rightarrow> bool \<Rightarrow> string \<Rightarrow> 'w
     \<Rightarrow> ((int + unit) \<times> bool \<times> string \<times> 'w) option" where
  "drain_output rw p whole limit opened captured w =
     iterate (drain_pass rw p whole limit) (0, opened, captured, w)"

definition drain_failure_pass ::
  "'w runner_world \<Rightarrow> bool \<times> bytes \<times> 'w \<Rightarrow> bool \<times> bytes \<times> 'w + (int + unit) \<times> bool \<times> bytes \<times> 'w" where
  "drain_failure_pass rw = (\<lambda>(opened, received, w).
     if \<not> opened \<or> \<not> length received < failure_message_size then Inr (Inr (), opened, received, w)
     else case read_failure_pipe rw (failure_message_size - length received) w of (r, w1) \<Rightarrow>
       (case r of
          Pipe_Data d \<Rightarrow> Inl (opened, received @ d, w1)
        | Pipe_End \<Rightarrow> Inl (False, received, w1)
        | Pipe_Interrupted \<Rightarrow> Inl (opened, received, w1)
        | Pipe_Empty \<Rightarrow> Inr (Inr (), opened, received, w1)
        | Pipe_Failed e \<Rightarrow> Inr (Inl e, opened, received, w1)))"

definition drain_child_failure ::
  "'w runner_world \<Rightarrow> bool \<Rightarrow> bytes \<Rightarrow> 'w \<Rightarrow> ((int + unit) \<times> bool \<times> bytes \<times> 'w) option" where
  "drain_child_failure rw opened received w = iterate (drain_failure_pass rw) (opened, received, w)"

definition drain_stderr ::
  "'w runner_world \<Rightarrow> bool \<Rightarrow> run_state \<Rightarrow> 'w \<Rightarrow> ((int + unit) \<times> run_state \<times> 'w) option" where
  "drain_stderr rw whole s w =
     map_option (\<lambda>(r, opened, captured, w1). (r, s\<lparr>run_stderr_open := opened, run_diagnostic := captured\<rparr>, w1))
       (drain_output rw Stderr_Pipe whole maximum_diagnostic_size (run_stderr_open s) (run_diagnostic s) w)"

definition drain_stdout ::
  "'w runner_world \<Rightarrow> bool \<Rightarrow> nat \<Rightarrow> run_state \<Rightarrow> 'w \<Rightarrow> ((int + unit) \<times> run_state \<times> 'w) option" where
  "drain_stdout rw whole limit s w =
     (if \<not> run_stdout_open s then Some (Inr (), s, w)
      else map_option (\<lambda>(r, opened, captured, w1). (r, s\<lparr>run_stdout_open := opened, run_output := captured\<rparr>, w1))
        (drain_output rw Stdout_Pipe whole limit (run_stdout_open s) (run_output s) w))"

definition drain_failure ::
  "'w runner_world \<Rightarrow> run_state \<Rightarrow> 'w \<Rightarrow> ((int + unit) \<times> run_state \<times> 'w) option" where
  "drain_failure rw s w =
     map_option (\<lambda>(r, opened, received, w1). (r, s\<lparr>run_failure_open := opened, run_failure := received\<rparr>, w1))
       (drain_child_failure rw (run_failure_open s) (run_failure s) w)"

text \<open>The three in their order; the first error ends it.\<close>

definition then_drain ::
  "((int + unit) \<times> run_state \<times> 'w) option \<Rightarrow> (run_state \<Rightarrow> 'w \<Rightarrow> ((int + unit) \<times> run_state \<times> 'w) option)
     \<Rightarrow> ((int + unit) \<times> run_state \<times> 'w) option" where
  "then_drain first next =
     Option.bind first (\<lambda>(r, s, w). case r of Inl e \<Rightarrow> Some (Inl e, s, w) | Inr _ \<Rightarrow> next s w)"

definition drain_pipes ::
  "'w runner_world \<Rightarrow> bool \<Rightarrow> nat \<Rightarrow> run_state \<Rightarrow> 'w \<Rightarrow> ((int + unit) \<times> run_state \<times> 'w) option" where
  "drain_pipes rw whole limit s w =
     then_drain (then_drain (drain_stderr rw whole s w) (drain_stdout rw whole limit)) (drain_failure rw)"

section \<open>The loop of the parent\<close>

definition int_max :: int where "int_max = 2147483647"

text \<open>Milliseconds, rounded up, of the time that is left.\<close>

definition runner_timeout :: "int \<Rightarrow> int \<Rightarrow> int" where
  "runner_timeout deadline now =
     (if deadline - now \<le> 0 then 0 else min int_max (- ((now - deadline) div 1000000)))"

definition command_answer :: "command_kind \<Rightarrow> int \<Rightarrow> string \<Rightarrow> command_result" where
  "command_answer kind code diagnostic =
     \<lparr>command_kind = kind, command_code = code, standard_error = diagnostic, standard_output = []\<rparr>"

text \<open>\<open>terminate_and_reap\<close>: zero or an error number.\<close>

definition terminate_and_reap :: "'w runner_world \<Rightarrow> 'w \<Rightarrow> (int \<times> 'w) option" where
  "terminate_and_reap rw w =
     (case kill_command rw w of (killed, w1) \<Rightarrow>
        Option.bind (retry_interrupted (await_command rw) w1) (\<lambda>(answer, w2).
          let kill_error = (case killed of Inl e \<Rightarrow> if e \<noteq> runner_esrch then e else 0 | Inr _ \<Rightarrow> 0)
          in Some (if kill_error \<noteq> 0 then kill_error
                   else (case answer of Wait_Failed e \<Rightarrow> e | _ \<Rightarrow> 0), w2)))"

definition fail_after_reaping ::
  "'w runner_world \<Rightarrow> int \<Rightarrow> run_state \<Rightarrow> 'w \<Rightarrow> (command_result \<times> 'w) option" where
  "fail_after_reaping rw e s w =
     map_option (\<lambda>(_, w1). (command_answer Command_System_Failure e (run_diagnostic s), w1)) (terminate_and_reap rw w)"

text \<open>The deadline has passed: errors of the last reads are ignored.\<close>

definition command_expired ::
  "'w runner_world \<Rightarrow> nat \<Rightarrow> run_state \<Rightarrow> 'w \<Rightarrow> (command_result \<times> 'w) option" where
  "command_expired rw limit s w =
     Option.bind (terminate_and_reap rw w) (\<lambda>(e, w1).
       Option.bind (drain_stderr rw True s w1) (\<lambda>(_, s1, w2).
         map_option (\<lambda>(_, s2, w3).
             (if e \<noteq> 0 then command_answer Command_System_Failure e (run_diagnostic s2)
              else command_answer Command_Timeout 0 (run_diagnostic s2), w3))
           (drain_stdout rw True limit s1 w2)))"

text \<open>Waiting for the pipes; a pass ends here with \<open>Inl\<close> and the loop goes on.\<close>

definition wait_pipes ::
  "'w runner_world \<Rightarrow> int \<Rightarrow> run_state \<Rightarrow> 'w
     \<Rightarrow> (run_state \<times> 'w + (command_result + nat \<times> run_state) \<times> 'w) option" where
  "wait_pipes rw deadline s w =
     (case runner_clock rw w of (now, w1) \<Rightarrow>
        (let opened = (run_stderr_open s, run_stdout_open s, run_failure_open s);
             timeout = runner_timeout deadline now
         in case poll_pipes rw opened (if opened = (False, False, False) then min timeout 1 else timeout) w1 of
              (Inl e, w2) \<Rightarrow>
                (if e \<noteq> runner_eintr
                 then map_option (\<lambda>(r, w3). Inr (Inl r, w3)) (fail_after_reaping rw e s w2)
                 else Some (Inl (s, w2)))
            | (Inr _, w2) \<Rightarrow> Some (Inl (s, w2))))"

definition command_pass ::
  "'w runner_world \<Rightarrow> int \<Rightarrow> nat \<Rightarrow> run_state \<times> 'w
     \<Rightarrow> (run_state \<times> 'w + (command_result + nat \<times> run_state) \<times> 'w) option" where
  "command_pass rw deadline limit = (\<lambda>(s, w).
     Option.bind (drain_pipes rw False limit s w) (\<lambda>(r, s1, w1).
       case r of
         Inl e \<Rightarrow> map_option (\<lambda>(a, w2). Inr (Inl a, w2)) (fail_after_reaping rw e s1 w1)
       | Inr _ \<Rightarrow>
           Option.bind (retry_interrupted (look_command rw) w1) (\<lambda>(answer, w2).
             case answer of
               Wait_Ended status \<Rightarrow> Some (Inr (Inr (status, s1), w2))
             | Wait_Failed e \<Rightarrow> Some (Inr (Inl (command_answer Command_System_Failure e (run_diagnostic s1)), w2))
             | _ \<Rightarrow>
                 (case runner_clock rw w2 of (now, w3) \<Rightarrow>
                    if deadline \<le> now
                    then map_option (\<lambda>(a, w4). Inr (Inl a, w4)) (command_expired rw limit s1 w3)
                    else wait_pipes rw deadline s1 w3))))"

text \<open>The result of a process that was reaped with a status.\<close>

definition judge_command :: "nat \<Rightarrow> run_state \<Rightarrow> command_result" where
  "judge_command status s =
     (if run_failure s \<noteq> [] then
        (if length (run_failure s) \<noteq> failure_message_size
         then command_answer Command_System_Failure runner_eio (run_diagnostic s)
         else command_answer
           (if failure_message_kind (run_failure s) = Exec_Failure then Command_Exec_Failure else Command_System_Failure)
           (failure_message_error (run_failure s)) (run_diagnostic s))
      else if wifsignaled status then command_answer Command_Signal (int (wtermsig status)) (run_diagnostic s)
      else if \<not> wifexited status then command_answer Command_System_Failure runner_echild (run_diagnostic s)
      else \<lparr>command_kind = (if wexitstatus status = 0 then Command_Success else Command_Nonzero_Exit),
            command_code = int (wexitstatus status), standard_error = run_diagnostic s,
            standard_output = run_output s\<rparr>)"

definition conclude_command ::
  "'w runner_world \<Rightarrow> nat \<Rightarrow> nat \<times> run_state \<Rightarrow> 'w \<Rightarrow> (command_result \<times> 'w) option" where
  "conclude_command rw limit ended w =
     (case ended of (status, s) \<Rightarrow>
        map_option (\<lambda>(r, s1, w1).
            (case r of
               Inl e \<Rightarrow> command_answer Command_System_Failure e (run_diagnostic s1)
             | Inr _ \<Rightarrow> judge_command status s1, w1))
          (drain_pipes rw True limit s w))"

definition watch_command ::
  "'w runner_world \<Rightarrow> int \<Rightarrow> command_request \<Rightarrow> 'w \<Rightarrow> (command_result \<times> 'w) option" where
  "watch_command rw deadline q w =
     Option.bind (iterate_calls (command_pass rw deadline (request_maximum q))
         (\<lparr>run_diagnostic = [], run_output = [], run_failure = [], run_stderr_open = True,
           run_stdout_open = request_capture q, run_failure_open = True\<rparr>, w))
       (\<lambda>(r, w1). case r of
          Inl a \<Rightarrow> Some (a, w1)
        | Inr ended \<Rightarrow> conclude_command rw (request_maximum q) ended w1)"

section \<open>Before the process\<close>

text \<open>Calls that must all succeed, with the error of the first that does not.\<close>

fun all_succeed :: "('w \<Rightarrow> (int + unit) \<times> 'w) list \<Rightarrow> 'w \<Rightarrow> (int + unit) \<times> 'w" where
  "all_succeed [] w = (Inr (), w)"
| "all_succeed (call # calls) w =
     (case call w of (Inl e, w1) \<Rightarrow> (Inl e, w1) | (Inr _, w1) \<Rightarrow> all_succeed calls w1)"

definition command_pipes :: "command_request \<Rightarrow> command_pipe list" where
  "command_pipes q = (if request_capture q then [Stderr_Pipe, Stdout_Pipe, Failure_Pipe] else [Stderr_Pipe, Failure_Pipe])"

definition start_command ::
  "'w runner_world \<Rightarrow> int \<Rightarrow> command_request \<Rightarrow> 'w \<Rightarrow> (command_result + unit) \<times> 'w" where
  "start_command rw deadline q w =
     (case all_succeed (map (make_pipe rw) (command_pipes q) @ map (make_nonblocking rw) (command_pipes q)) w of
        (Inl e, w1) \<Rightarrow> (Inl (command_answer Command_System_Failure e []), w1)
      | (Inr _, w1) \<Rightarrow>
          (case runner_clock rw w1 of (now, w2) \<Rightarrow>
             if deadline \<le> now then (Inl (command_answer Command_Timeout 0 []), w2)
             else case fork_command rw q w2 of
               (Inl e, w3) \<Rightarrow> (Inl (command_answer Command_System_Failure e []), w3)
             | (Inr _, w3) \<Rightarrow> (Inr (), w3)))"

definition run_command_impl ::
  "'w runner_world \<Rightarrow> int \<Rightarrow> command_request \<Rightarrow> 'w \<Rightarrow> (command_result \<times> 'w) option" where
  "run_command_impl rw deadline q w =
     (case runner_clock rw w of (now, w1) \<Rightarrow>
        if deadline \<le> now then Some (command_answer Command_Timeout 0 [], w1)
        else case start_command rw deadline q w1 of
          (Inl r, w2) \<Rightarrow> Some (r, w2)
        | (Inr _, w2) \<Rightarrow> watch_command rw deadline q w2)"

section \<open>The four entries\<close>

definition plain_request :: "string \<Rightarrow> string list \<Rightarrow> command_request" where
  "plain_request path arguments =
     \<lparr>request_path = path, request_arguments = arguments, request_descriptor = - 1, request_mode = Mode_None,
      request_capture = False, request_maximum = maximum_diagnostic_size\<rparr>"

definition run_command ::
  "'w runner_world \<Rightarrow> string \<Rightarrow> string list \<Rightarrow> int \<Rightarrow> 'w \<Rightarrow> (command_result \<times> 'w) option" where
  "run_command rw path arguments deadline w = run_command_impl rw deadline (plain_request path arguments) w"

definition run_command_capturing_stdout ::
  "'w runner_world \<Rightarrow> string \<Rightarrow> string list \<Rightarrow> int \<Rightarrow> nat \<Rightarrow> 'w \<Rightarrow> (command_result \<times> 'w) option" where
  "run_command_capturing_stdout rw path arguments deadline maximum w =
     run_command_impl rw deadline
       ((plain_request path arguments)\<lparr>request_capture := True, request_maximum := maximum\<rparr>) w"

definition run_command_with_inherited_descriptor ::
  "'w runner_world \<Rightarrow> string \<Rightarrow> string list \<Rightarrow> int \<Rightarrow> int \<Rightarrow> 'w \<Rightarrow> (command_result \<times> 'w) option" where
  "run_command_with_inherited_descriptor rw path arguments descriptor deadline w =
     (if descriptor < 0 then Some (command_answer Command_System_Failure runner_einval [], w)
      else run_command_impl rw deadline
        ((plain_request path arguments)\<lparr>request_descriptor := descriptor, request_mode := Mode_Inherit_Descriptor\<rparr>) w)"

definition run_command_in_network_namespace ::
  "'w runner_world \<Rightarrow> string \<Rightarrow> string list \<Rightarrow> int \<Rightarrow> int \<Rightarrow> 'w \<Rightarrow> (command_result \<times> 'w) option" where
  "run_command_in_network_namespace rw path arguments descriptor deadline w =
     (if descriptor < 0 then Some (command_answer Command_System_Failure runner_einval [], w)
      else run_command_impl rw deadline
        ((plain_request path arguments)\<lparr>request_descriptor := descriptor, request_mode := Mode_Enter\<rparr>) w)"

end
