(* ===== verification/Netlink_Query.thy ===== *)
theory Netlink_Query
  imports Command_Runner
begin

text \<open>
  Asking the kernel over a netlink socket: the queries for a link and for queueing disciplines of
  \<open>src/network_environment/linux_production_platform.cpp\<close> and the route dump of
  \<open>linux_preflight.cpp\<close>. They share the socket, the request and the wait for a datagram; the decoders
  are those of \<open>Link_Inventory\<close>, \<open>Qdisc_Inventory\<close> and \<open>Route_Dump\<close>.
\<close>

section \<open>The socket\<close>

datatype netlink_poll = Netlink_Poll_Error int | Netlink_Poll_Timeout | Netlink_Poll_Events bool bool

text \<open>A datagram with its \<open>MSG_TRUNC\<close> flag, the length of the sender's name, its family and port.\<close>

record netlink_datagram =
  datagram_bytes :: bytes
  datagram_truncated :: bool
  sender_length :: nat
  sender_family :: nat
  sender_port :: nat

record local_name =
  local_length :: nat
  local_family :: nat
  local_port :: nat

record 'w netlink_world =
  netlink_clock :: "'w \<Rightarrow> int \<times> 'w"
  name_to_index :: "string \<Rightarrow> 'w \<Rightarrow> (int + nat) \<times> 'w"
  open_netlink :: "'w \<Rightarrow> bool \<times> 'w"
  bind_netlink :: "'w \<Rightarrow> bool \<times> 'w"
  name_of_netlink :: "'w \<Rightarrow> local_name option \<times> 'w"
  send_netlink :: "bytes \<Rightarrow> 'w \<Rightarrow> (int + nat) \<times> 'w"
  poll_netlink :: "int \<Rightarrow> 'w \<Rightarrow> netlink_poll \<times> 'w"
  receive_netlink :: "'w \<Rightarrow> (int + netlink_datagram) \<times> 'w"

definition af_netlink :: nat where "af_netlink = 16"
definition sockaddr_nl_size :: nat where "sockaddr_nl_size = 12"
definition nl_eintr :: int where "nl_eintr = 4"
definition nl_eagain :: int where "nl_eagain = 11"
definition nl_enxio :: int where "nl_enxio = 6"
definition nl_enodev :: int where "nl_enodev = 19"

text \<open>The port of a bound socket.\<close>

definition netlink_port :: "'w netlink_world \<Rightarrow> 'w \<Rightarrow> nat option \<times> 'w" where
  "netlink_port nw w =
     (case open_netlink nw w of (opened, w1) \<Rightarrow>
        if \<not> opened then (None, w1)
        else case bind_netlink nw w1 of (bound, w2) \<Rightarrow>
          if \<not> bound then (None, w2)
          else case name_of_netlink nw w2 of (name, w3) \<Rightarrow>
            (case name of
               None \<Rightarrow> (None, w3)
             | Some n \<Rightarrow>
                 (if local_length n \<noteq> sockaddr_nl_size \<or> local_family n \<noteq> af_netlink then None
                  else Some (local_port n), w3)))"

section \<open>Requests\<close>

definition netlink_sequence :: nat where "netlink_sequence = 1"
definition nlm_f_request :: nat where "nlm_f_request = 1"
definition nlm_f_dump :: nat where "nlm_f_dump = 768"
definition rtm_getlink :: nat where "rtm_getlink = 18"
definition rtm_getroute :: nat where "rtm_getroute = 26"
definition rtm_getqdisc :: nat where "rtm_getqdisc = 38"

definition netlink_request :: "nat \<Rightarrow> nat \<Rightarrow> nat \<Rightarrow> bytes \<Rightarrow> bytes" where
  "netlink_request ty flags port payload =
     le_bytes 4 (nlmsghdr_size + length payload) @ le_bytes 2 ty @ le_bytes 2 flags
     @ le_bytes 4 netlink_sequence @ le_bytes 4 port @ payload"

text \<open>\<open>ifinfomsg\<close>, \<open>tcmsg\<close> and \<open>rtmsg\<close> with all but the index, and the family \<open>AF_INET\<close>, zero.\<close>

definition link_request :: "nat \<Rightarrow> nat \<Rightarrow> bytes" where
  "link_request index port =
     netlink_request rtm_getlink nlm_f_request port (replicate 4 0 @ le_bytes 4 index @ replicate 8 0)"

definition qdisc_request :: "nat \<Rightarrow> nat \<Rightarrow> bytes" where
  "qdisc_request index port =
     netlink_request rtm_getqdisc (nlm_f_request + nlm_f_dump) port
       (replicate 4 0 @ le_bytes 4 index @ replicate 12 0)"

definition route_request :: "nat \<Rightarrow> bytes" where
  "route_request port =
     netlink_request rtm_getroute (nlm_f_request + nlm_f_dump) port (2 # replicate 11 0)"

text \<open>The socket with its request sent, as its port.\<close>

definition send_request :: "'w netlink_world \<Rightarrow> (nat \<Rightarrow> bytes) \<Rightarrow> 'w \<Rightarrow> nat option \<times> 'w" where
  "send_request nw request w =
     (case netlink_port nw w of
        (None, w1) \<Rightarrow> (None, w1)
      | (Some port, w1) \<Rightarrow>
          (case send_netlink nw (request port) w1 of (sent, w2) \<Rightarrow>
             (if sent = Inr (length (request port)) then Some port else None, w2)))"

section \<open>Waiting for a datagram\<close>

datatype netlink_read =
  Read_Timeout | Read_Poll_Failure | Read_Again | Read_Receive_Error | Read_Rejected | Read_Datagram bytes

definition netlink_poll_pass :: "'w netlink_world \<Rightarrow> (int \<Rightarrow> int) \<Rightarrow> 'w \<Rightarrow> 'w + netlink_poll \<times> 'w" where
  "netlink_poll_pass nw timeout w =
     (case netlink_clock nw w of (now, w1) \<Rightarrow>
        (case poll_netlink nw (timeout now) w1 of (answer, w2) \<Rightarrow>
           if answer = Netlink_Poll_Error nl_eintr then Inl w2 else Inr (answer, w2)))"

definition receive_pass :: "'w netlink_world \<Rightarrow> 'w \<Rightarrow> 'w + (int + netlink_datagram) \<times> 'w" where
  "receive_pass nw w =
     (case receive_netlink nw w of (r, w1) \<Rightarrow> if r = Inl nl_eintr then Inl w1 else Inr (r, w1))"

definition datagram_refused :: "netlink_datagram \<Rightarrow> bool" where
  "datagram_refused d \<longleftrightarrow>
     datagram_bytes d = [] \<or> datagram_truncated d \<or> sender_length d \<noteq> sockaddr_nl_size
     \<or> sender_family d \<noteq> af_netlink \<or> sender_port d \<noteq> 0"

definition read_datagram :: "'w netlink_world \<Rightarrow> (int \<Rightarrow> int) \<Rightarrow> 'w \<Rightarrow> (netlink_read \<times> 'w) option" where
  "read_datagram nw timeout w =
     Option.bind (iterate (netlink_poll_pass nw timeout) w) (\<lambda>(answer, w1).
       case answer of
         Netlink_Poll_Timeout \<Rightarrow> Some (Read_Timeout, w1)
       | Netlink_Poll_Error _ \<Rightarrow> Some (Read_Poll_Failure, w1)
       | Netlink_Poll_Events broken readable \<Rightarrow>
           (if broken \<or> \<not> readable then Some (Read_Poll_Failure, w1)
            else map_option (\<lambda>(r, w2).
                (case r of
                   Inl e \<Rightarrow> if e = nl_eagain then Read_Again else Read_Receive_Error
                 | Inr d \<Rightarrow> if datagram_refused d then Read_Rejected else Read_Datagram (datagram_bytes d), w2))
              (iterate (receive_pass nw) w1)))"

text \<open>\<open>if_nametoindex\<close>: the index, or whether the name is absent or the query failed.\<close>

definition index_of_name :: "'w netlink_world \<Rightarrow> string \<Rightarrow> 'w \<Rightarrow> (inventory_status + nat) \<times> 'w" where
  "index_of_name nw name w =
     (case name_to_index nw name w of (r, w1) \<Rightarrow>
        (case r of
           Inr index \<Rightarrow> Inr index
         | Inl e \<Rightarrow> Inl (if e = 0 \<or> e = nl_enodev \<or> e = nl_enxio then Inventory_Absent else Inventory_Failure), w1))"

section \<open>A link\<close>

definition link_pass ::
  "'w netlink_world \<Rightarrow> link_decoder \<Rightarrow> int \<Rightarrow> 'w \<Rightarrow> ('w + link_query \<times> 'w) option" where
  "link_pass nw d deadline w =
     (case netlink_clock nw w of (now, w1) \<Rightarrow>
        if \<not> now < deadline then Some (Inr (link_answer Inventory_Timeout, w1))
        else map_option (\<lambda>(r, w2).
            (case r of
               Read_Timeout \<Rightarrow> Inr (link_answer Inventory_Timeout, w2)
             | Read_Poll_Failure \<Rightarrow> Inr (link_answer Inventory_Failure, w2)
             | Read_Again \<Rightarrow> Inl w2
             | Read_Receive_Error \<Rightarrow> Inr (link_answer Inventory_Malformed, w2)
             | Read_Rejected \<Rightarrow> Inr (link_answer Inventory_Malformed, w2)
             | Read_Datagram bytes \<Rightarrow> Inr (fst (link_consume d bytes), w2)))
          (read_datagram nw (runner_timeout deadline) w1))"

definition query_current_namespace_link ::
  "'w netlink_world \<Rightarrow> string \<Rightarrow> int \<Rightarrow> 'w \<Rightarrow> (link_query \<times> 'w) option" where
  "query_current_namespace_link nw name deadline w =
     (case netlink_clock nw w of (now, w1) \<Rightarrow>
        if deadline \<le> now then Some (link_answer Inventory_Timeout, w1)
        else case index_of_name nw name w1 of
          (Inl status, w2) \<Rightarrow> Some (link_answer status, w2)
        | (Inr index, w2) \<Rightarrow>
            (case send_request nw (link_request index) w2 of
               (None, w3) \<Rightarrow> Some (link_answer Inventory_Failure, w3)
             | (Some port, w3) \<Rightarrow>
                 iterate_calls
                   (link_pass nw \<lparr>link_sequence = netlink_sequence, link_port = port,
                      expected_index = of_nat index, expected_name = name, link_error = 0\<rparr> deadline) w3))"

section \<open>The queueing disciplines of a link\<close>

definition qdisc_answer :: "inventory_status \<Rightarrow> qdisc_query" where
  "qdisc_answer status = \<lparr>query_status = status, query_root = None\<rparr>"

text \<open>The messages of a datagram from \<open>offset\<close> on, with the root found so far; \<open>Inr\<close> when the dump
  goes on.\<close>

function walk_qdiscs ::
  "qdisc_decoder \<Rightarrow> bytes \<Rightarrow> nat \<Rightarrow> root_qdisc option \<Rightarrow> qdisc_query + root_qdisc option" where
  "walk_qdiscs d bytes offset found =
     (if \<not> offset < length bytes then Inr found
      else case copy_header bytes offset of
        None \<Rightarrow> Inl (qdisc_answer Inventory_Malformed)
      | Some header \<Rightarrow>
          (if nlmsg_len header < nlmsghdr_size \<or> length bytes - offset < align4 (nlmsg_len header)
           then Inl (qdisc_answer Inventory_Malformed)
           else
             (let aligned = align4 (nlmsg_len header);
                  decoded = qdisc_consume d (take aligned (drop offset bytes))
              in if message_status decoded \<noteq> Inventory_Present then Inl (qdisc_answer (message_status decoded))
                 else case message_kind decoded of
                   Qdisc_Root \<Rightarrow>
                     (if found \<noteq> None \<or> message_root decoded = None then Inl (qdisc_answer Inventory_Malformed)
                      else walk_qdiscs d bytes (offset + aligned) (message_root decoded))
                 | Qdisc_Dump_Complete \<Rightarrow>
                     Inl (case found of
                        Some q \<Rightarrow> \<lparr>query_status = Inventory_Present, query_root = Some q\<rparr>
                      | None \<Rightarrow> qdisc_answer Inventory_Absent)
                 | Qdisc_Ignored \<Rightarrow> walk_qdiscs d bytes (offset + aligned) found)))"
  by pat_completeness auto
termination
proof -
  have shrinks: "length bytes - (offset + align4 len) < length bytes - offset"
    if "\<not> len < nlmsghdr_size" "offset < length bytes" for offset len :: nat and bytes :: bytes
    using that align4_ge(1) [of len] by (simp add: nlmsghdr_size_def)
  show ?thesis
    by (relation "measure (\<lambda>(_, bytes, offset, _). length bytes - offset)") (auto intro: shrinks)
qed

declare walk_qdiscs.simps [simp del]

definition qdisc_pass ::
  "'w netlink_world \<Rightarrow> qdisc_decoder \<Rightarrow> int \<Rightarrow> root_qdisc option \<times> 'w
     \<Rightarrow> (root_qdisc option \<times> 'w + qdisc_query \<times> 'w) option" where
  "qdisc_pass nw d deadline = (\<lambda>(found, w).
     (case netlink_clock nw w of (now, w1) \<Rightarrow>
        if \<not> now < deadline then Some (Inr (qdisc_answer Inventory_Timeout, w1))
        else map_option (\<lambda>(r, w2).
            (case r of
               Read_Timeout \<Rightarrow> Inr (qdisc_answer Inventory_Timeout, w2)
             | Read_Poll_Failure \<Rightarrow> Inr (qdisc_answer Inventory_Failure, w2)
             | Read_Again \<Rightarrow> Inl (found, w2)
             | Read_Receive_Error \<Rightarrow> Inr (qdisc_answer Inventory_Malformed, w2)
             | Read_Rejected \<Rightarrow> Inr (qdisc_answer Inventory_Malformed, w2)
             | Read_Datagram bytes \<Rightarrow>
                 (case walk_qdiscs d bytes 0 found of
                    Inl q \<Rightarrow> Inr (q, w2)
                  | Inr root1 \<Rightarrow> Inl (root1, w2))))
          (read_datagram nw (runner_timeout deadline) w1)))"

definition query_current_namespace_qdisc ::
  "'w netlink_world \<Rightarrow> string \<Rightarrow> int \<Rightarrow> 'w \<Rightarrow> (qdisc_query \<times> 'w) option" where
  "query_current_namespace_qdisc nw name deadline w =
     (case netlink_clock nw w of (now, w1) \<Rightarrow>
        if deadline \<le> now then Some (qdisc_answer Inventory_Timeout, w1)
        else case index_of_name nw name w1 of
          (Inl status, w2) \<Rightarrow> Some (qdisc_answer status, w2)
        | (Inr index, w2) \<Rightarrow>
            (case send_request nw (qdisc_request index) w2 of
               (None, w3) \<Rightarrow> Some (qdisc_answer Inventory_Failure, w3)
             | (Some port, w3) \<Rightarrow>
                 iterate_calls
                   (qdisc_pass nw \<lparr>qdisc_sequence = netlink_sequence, qdisc_port = port,
                      qdisc_expected_index = of_nat index\<rparr> deadline) (None, w3)))"

section \<open>The routes\<close>

text \<open>\<open>poll_timeout\<close> of the preflight: truncated milliseconds, and one more when that lost something.\<close>

definition preflight_timeout :: "int \<Rightarrow> int \<Rightarrow> int" where
  "preflight_timeout deadline now =
     (if deadline - now \<le> 0 then 0
      else let ms = (deadline - now) div 1000000
           in min (ms + (if ms * 1000000 < deadline - now then 1 else 0)) int_max)"

definition route_pass ::
  "'w netlink_world \<Rightarrow> int \<Rightarrow> route_dump_decoder \<times> 'w
     \<Rightarrow> (route_dump_decoder \<times> 'w + route_dump_status \<times> 'w) option" where
  "route_pass nw deadline = (\<lambda>(d, w).
     if dump_status d \<noteq> Route_Pending then Some (Inr (dump_status d, w))
     else map_option (\<lambda>(r, w1).
         (case r of
            Read_Timeout \<Rightarrow> Inr (Route_Timeout, w1)
          | Read_Poll_Failure \<Rightarrow> Inr (Route_Netlink_Error, w1)
          | Read_Again \<Rightarrow> Inl (d, w1)
          | Read_Receive_Error \<Rightarrow> Inr (Route_Netlink_Error, w1)
          | Read_Rejected \<Rightarrow> Inr (Route_Malformed, w1)
          | Read_Datagram bytes \<Rightarrow> Inl (dump_consume d bytes, w1)))
       (read_datagram nw (preflight_timeout deadline) w))"

definition query_kernel_routes :: "'w netlink_world \<Rightarrow> int \<Rightarrow> 'w \<Rightarrow> (route_dump_status \<times> 'w) option" where
  "query_kernel_routes nw deadline w =
     (case netlink_clock nw w of (now, w1) \<Rightarrow>
        if deadline \<le> now then Some (Route_Timeout, w1)
        else case send_request nw route_request w1 of
          (None, w2) \<Rightarrow> Some (Route_Netlink_Error, w2)
        | (Some port, w2) \<Rightarrow>
            iterate_calls (route_pass nw deadline) (new_route_dump_decoder netlink_sequence port, w2))"

end
