(* ===== verification/Linux_Platform.thy ===== *)
theory Linux_Platform
  imports Netlink_Query
begin

text \<open>
  The host as the production adapter sees it on Linux, class \<open>LinuxProductionPlatform\<close> of
  \<open>src/network_environment/linux_production_platform.cpp\<close>: queries made by a child in the session's
  namespace and sent back over a pipe, the consent of the user at the terminal, and small files. A
  namespace handle is its descriptor; a handle of another class has none.
\<close>

section \<open>What a child sends back\<close>

fun inventory_number :: "inventory_status \<Rightarrow> nat" where
  "inventory_number Inventory_Absent = 0"
| "inventory_number Inventory_Present = 1"
| "inventory_number Inventory_Failure = 2"
| "inventory_number Inventory_Timeout = 3"
| "inventory_number Inventory_Malformed = 4"

definition inventory_of_number :: "int \<Rightarrow> inventory_status option" where
  "inventory_of_number n =
     (if n = 0 then Some Inventory_Absent else if n = 1 then Some Inventory_Present
      else if n = 2 then Some Inventory_Failure else if n = 3 then Some Inventory_Timeout
      else if n = 4 then Some Inventory_Malformed else None)"

record link_query_wire =
  wire_status :: int
  wire_index :: "32 word"
  wire_peer_index :: "32 word"
  wire_peer_namespace :: "32 word"
  wire_has_identity :: nat
  wire_has_namespace :: nat

definition wire_of_link :: "link_query \<Rightarrow> link_query_wire" where
  "wire_of_link q =
     (let w = \<lparr>wire_status = int (inventory_number (link_status q)), wire_index = 0, wire_peer_index = 0,
               wire_peer_namespace = 0, wire_has_identity = of_bool (link_found q \<noteq> None), wire_has_namespace = 0\<rparr>
      in case link_found q of
           None \<Rightarrow> w
         | Some i \<Rightarrow> w\<lparr>wire_index := link_index i, wire_peer_index := link_peer_index i,
             wire_peer_namespace := (case link_peer_namespace i of None \<Rightarrow> 0 | Some n \<Rightarrow> n),
             wire_has_namespace := of_bool (link_peer_namespace i \<noteq> None)\<rparr>)"

text \<open>The structures in memory: fields at their offsets, padding zero.\<close>

definition link_wire_size :: nat where "link_wire_size = 20"

definition link_wire_bytes :: "link_query_wire \<Rightarrow> bytes" where
  "link_wire_bytes w =
     le_bytes 4 (nat (wire_status w mod 2 ^ 32)) @ le_bytes 4 (unat (wire_index w))
     @ le_bytes 4 (unat (wire_peer_index w)) @ le_bytes 4 (unat (wire_peer_namespace w))
     @ le_bytes 1 (wire_has_identity w) @ le_bytes 1 (wire_has_namespace w) @ replicate 2 0"

definition field_at :: "nat \<Rightarrow> nat \<Rightarrow> bytes \<Rightarrow> nat" where
  "field_at n offset m = le_value (take n (drop offset m))"

definition link_wire_of_bytes :: "bytes \<Rightarrow> link_query_wire" where
  "link_wire_of_bytes m =
     \<lparr>wire_status = signed32 (field_at 4 0 m), wire_index = of_nat (field_at 4 4 m),
      wire_peer_index = of_nat (field_at 4 8 m), wire_peer_namespace = of_nat (field_at 4 12 m),
      wire_has_identity = field_at 1 16 m, wire_has_namespace = field_at 1 17 m\<rparr>"

definition decode_wire :: "link_query_wire \<Rightarrow> link_query" where
  "decode_wire w =
     (if 1 < wire_has_identity w \<or> 1 < wire_has_namespace w then link_answer Inventory_Malformed
      else case inventory_of_number (wire_status w) of
        None \<Rightarrow> link_answer Inventory_Malformed
      | Some status \<Rightarrow>
          (if wire_has_identity w = 0 then link_answer status
           else if status \<noteq> Inventory_Present \<or> wire_index w = 0 \<or> wire_peer_index w = 0
           then link_answer Inventory_Malformed
           else \<lparr>link_status = status,
                 link_found = Some \<lparr>link_index = wire_index w, link_peer_index = wire_peer_index w,
                   link_peer_namespace = (if wire_has_namespace w \<noteq> 0 then Some (wire_peer_namespace w) else None)\<rparr>\<rparr>))"

fun qdisc_kind_number :: "root_qdisc_kind \<Rightarrow> nat" where
  "qdisc_kind_number Noqueue = 0"
| "qdisc_kind_number Netem = 1"
| "qdisc_kind_number Other_Qdisc = 2"

definition qdisc_kind_of_number :: "int \<Rightarrow> root_qdisc_kind option" where
  "qdisc_kind_of_number n =
     (if n = 0 then Some Noqueue else if n = 1 then Some Netem else if n = 2 then Some Other_Qdisc else None)"

record qdisc_query_wire =
  qwire_status :: int
  qwire_kind :: int
  qwire_handle :: "32 word"
  qwire_delay :: "64 word"
  qwire_jitter :: "64 word"
  qwire_loss :: "32 word"
  qwire_has_root :: nat
  qwire_unsupported :: nat

definition wire_of_qdisc :: "qdisc_query \<Rightarrow> qdisc_query_wire" where
  "wire_of_qdisc q =
     (case query_root q of
        None \<Rightarrow> \<lparr>qwire_status = int (inventory_number (query_status q)), qwire_kind = int (qdisc_kind_number Other_Qdisc),
                 qwire_handle = 0, qwire_delay = 0, qwire_jitter = 0, qwire_loss = 0, qwire_has_root = 0,
                 qwire_unsupported = 0\<rparr>
      | Some r \<Rightarrow> \<lparr>qwire_status = int (inventory_number (query_status q)),
                   qwire_kind = int (qdisc_kind_number (qdisc_kind r)), qwire_handle = qdisc_handle r,
                   qwire_delay = qdisc_delay r, qwire_jitter = qdisc_jitter r, qwire_loss = qdisc_loss r,
                   qwire_has_root = 1, qwire_unsupported = of_bool (qdisc_unsupported r)\<rparr>)"

definition qdisc_wire_size :: nat where "qdisc_wire_size = 40"

definition qdisc_wire_bytes :: "qdisc_query_wire \<Rightarrow> bytes" where
  "qdisc_wire_bytes w =
     le_bytes 4 (nat (qwire_status w mod 2 ^ 32)) @ le_bytes 4 (nat (qwire_kind w mod 2 ^ 32))
     @ le_bytes 4 (unat (qwire_handle w)) @ replicate 4 0 @ le_bytes 8 (unat (qwire_delay w))
     @ le_bytes 8 (unat (qwire_jitter w)) @ le_bytes 4 (unat (qwire_loss w))
     @ le_bytes 1 (qwire_has_root w) @ le_bytes 1 (qwire_unsupported w) @ replicate 2 0"

definition qdisc_wire_of_bytes :: "bytes \<Rightarrow> qdisc_query_wire" where
  "qdisc_wire_of_bytes m =
     \<lparr>qwire_status = signed32 (field_at 4 0 m), qwire_kind = signed32 (field_at 4 4 m),
      qwire_handle = of_nat (field_at 4 8 m), qwire_delay = of_nat (field_at 8 16 m),
      qwire_jitter = of_nat (field_at 8 24 m), qwire_loss = of_nat (field_at 4 32 m),
      qwire_has_root = field_at 1 36 m, qwire_unsupported = field_at 1 37 m\<rparr>"

definition decode_qdisc_wire :: "qdisc_query_wire \<Rightarrow> qdisc_query" where
  "decode_qdisc_wire w =
     (if 1 < qwire_has_root w \<or> 1 < qwire_unsupported w then qdisc_answer Inventory_Malformed
      else case inventory_of_number (qwire_status w) of
        None \<Rightarrow> qdisc_answer Inventory_Malformed
      | Some status \<Rightarrow>
          (if qwire_has_root w = 0
           then qdisc_answer (if status = Inventory_Present then Inventory_Malformed else status)
           else case qdisc_kind_of_number (qwire_kind w) of
             None \<Rightarrow> qdisc_answer Inventory_Malformed
           | Some kind \<Rightarrow>
               (if status \<noteq> Inventory_Present then qdisc_answer Inventory_Malformed
                else \<lparr>query_status = status,
                      query_root = Some \<lparr>qdisc_handle = qwire_handle w, qdisc_kind = kind,
                        qdisc_delay = qwire_delay w, qdisc_jitter = qwire_jitter w, qdisc_loss = qwire_loss w,
                        qdisc_unsupported = (qwire_unsupported w \<noteq> 0)\<rparr>\<rparr>)))"

section \<open>The pipe\<close>

text \<open>\<open>write_complete\<close> and \<open>read_complete\<close>; a count of zero is a failure.\<close>

definition write_complete_pass ::
  "(bytes \<Rightarrow> 'w \<Rightarrow> (int + nat) \<times> 'w) \<Rightarrow> bytes \<times> 'w \<Rightarrow> bytes \<times> 'w + bool \<times> 'w" where
  "write_complete_pass write = (\<lambda>(m, w).
     if m = [] then Inr (True, w)
     else case write m w of
       (Inr n, w1) \<Rightarrow> if 0 < n then Inl (drop n m, w1) else Inr (False, w1)
     | (Inl e, w1) \<Rightarrow> if e = nl_eintr then Inl (m, w1) else Inr (False, w1))"

definition write_complete :: "(bytes \<Rightarrow> 'w \<Rightarrow> (int + nat) \<times> 'w) \<Rightarrow> bytes \<Rightarrow> 'w \<Rightarrow> (bool \<times> 'w) option" where
  "write_complete write m w = iterate (write_complete_pass write) (m, w)"

definition read_complete_pass ::
  "(nat \<Rightarrow> 'w \<Rightarrow> (int + bytes) \<times> 'w) \<Rightarrow> nat \<Rightarrow> bytes \<times> 'w \<Rightarrow> bytes \<times> 'w + bytes option \<times> 'w" where
  "read_complete_pass read capacity = (\<lambda>(m, w).
     if \<not> length m < capacity then Inr (Some m, w)
     else case read (capacity - length m) w of
       (Inr d, w1) \<Rightarrow> if d \<noteq> [] then Inl (m @ d, w1) else Inr (None, w1)
     | (Inl e, w1) \<Rightarrow> if e = nl_eintr then Inl (m, w1) else Inr (None, w1))"

definition read_complete ::
  "(nat \<Rightarrow> 'w \<Rightarrow> (int + bytes) \<times> 'w) \<Rightarrow> nat \<Rightarrow> 'w \<Rightarrow> (bytes option \<times> 'w) option" where
  "read_complete read capacity w = iterate (read_complete_pass read capacity) ([], w)"

section \<open>Queries in the namespace\<close>

text \<open>The calls of the parent, and of the child in a world of its own.\<close>

record 'w query_world =
  query_clock :: "'w \<Rightarrow> int \<times> 'w"
  open_query_pipe :: "'w \<Rightarrow> bool \<times> 'w"
  fork_query :: "'w \<Rightarrow> bool \<times> 'w"
  poll_query :: "int \<Rightarrow> 'w \<Rightarrow> netlink_poll \<times> 'w"
  read_query :: "nat \<Rightarrow> 'w \<Rightarrow> (int + bytes) \<times> 'w"
  kill_query :: "'w \<Rightarrow> 'w"
  await_query :: "'w \<Rightarrow> wait_answer \<times> 'w"

record 'c child_query_world =
  enter_query_namespace :: "int \<Rightarrow> 'c \<Rightarrow> bool \<times> 'c"
  child_netlink :: "'c netlink_world"
  write_query :: "bytes \<Rightarrow> 'c \<Rightarrow> (int + nat) \<times> 'c"

text \<open>The child sends the bytes of its answer; its exit code.\<close>

definition query_child ::
  "'c child_query_world \<Rightarrow> int \<Rightarrow> ('c \<Rightarrow> (bytes \<times> 'c) option) \<Rightarrow> 'c \<Rightarrow> (nat \<times> 'c) option" where
  "query_child cw descriptor answer c =
     (case enter_query_namespace cw descriptor c of (entered, c1) \<Rightarrow>
        if \<not> entered then Some (125, c1)
        else Option.bind (answer c1) (\<lambda>(m, c2).
          map_option (\<lambda>(written, c3). (if written then 0 else 125, c3)) (write_complete (write_query cw) m c2)))"

definition link_child ::
  "'c child_query_world \<Rightarrow> int \<Rightarrow> string \<Rightarrow> int \<Rightarrow> 'c \<Rightarrow> (nat \<times> 'c) option" where
  "link_child cw descriptor name deadline =
     query_child cw descriptor (\<lambda>c. map_option (\<lambda>(q, c1). (link_wire_bytes (wire_of_link q), c1))
       (query_current_namespace_link (child_netlink cw) name deadline c))"

definition qdisc_child ::
  "'c child_query_world \<Rightarrow> int \<Rightarrow> string \<Rightarrow> int \<Rightarrow> 'c \<Rightarrow> (nat \<times> 'c) option" where
  "qdisc_child cw descriptor name deadline =
     query_child cw descriptor (\<lambda>c. map_option (\<lambda>(q, c1). (qdisc_wire_bytes (wire_of_qdisc q), c1))
       (query_current_namespace_qdisc (child_netlink cw) name deadline c))"

definition query_poll_pass :: "'w query_world \<Rightarrow> int \<Rightarrow> 'w \<Rightarrow> 'w + netlink_poll \<times> 'w" where
  "query_poll_pass qw deadline w =
     (case query_clock qw w of (now, w1) \<Rightarrow>
        (case poll_query qw (runner_timeout deadline now) w1 of (answer, w2) \<Rightarrow>
           if answer = Netlink_Poll_Error nl_eintr then Inl w2 else Inr (answer, w2)))"

text \<open>The answer of the child, or why there is none.\<close>

definition collect_query ::
  "'w query_world \<Rightarrow> nat \<Rightarrow> 'w \<Rightarrow> ((inventory_status + bytes) \<times> 'w) option" where
  "collect_query qw capacity w =
     Option.bind (read_complete (read_query qw) capacity w) (\<lambda>(m, w1).
       map_option (\<lambda>(answer, w2).
           (case (answer, m) of
              (Wait_Ended status, Some bytes) \<Rightarrow>
                (if wifexited status \<and> wexitstatus status = 0 then Inr bytes else Inl Inventory_Failure)
            | _ \<Rightarrow> Inl Inventory_Failure, w2))
         (retry_interrupted (await_query qw) w1))"

definition await_answer ::
  "'w query_world \<Rightarrow> nat \<Rightarrow> int \<Rightarrow> 'w \<Rightarrow> ((inventory_status + bytes) \<times> 'w) option" where
  "await_answer qw capacity deadline w =
     Option.bind (iterate (query_poll_pass qw deadline) w) (\<lambda>(answer, w1).
       if (case answer of Netlink_Poll_Events broken readable \<Rightarrow> readable | _ \<Rightarrow> False)
       then collect_query qw capacity w1
       else map_option (\<lambda>(_, w2).
           (Inl (if answer = Netlink_Poll_Timeout then Inventory_Timeout else Inventory_Failure), w2))
         (retry_interrupted (await_query qw) (kill_query qw w1)))"

definition query_in_namespace ::
  "'w query_world \<Rightarrow> int option \<Rightarrow> nat \<Rightarrow> int \<Rightarrow> 'w \<Rightarrow> ((inventory_status + bytes) \<times> 'w) option" where
  "query_in_namespace qw handle capacity deadline w =
     (if handle = None then Some (Inl Inventory_Failure, w)
      else case query_clock qw w of (now, w1) \<Rightarrow>
        if deadline \<le> now then Some (Inl Inventory_Timeout, w1)
        else case open_query_pipe qw w1 of (opened, w2) \<Rightarrow>
          if \<not> opened then Some (Inl Inventory_Failure, w2)
          else case fork_query qw w2 of (forked, w3) \<Rightarrow>
            if \<not> forked then Some (Inl Inventory_Failure, w3) else await_answer qw capacity deadline w3)"

definition query_linux_namespace_link ::
  "'w query_world \<Rightarrow> int option \<Rightarrow> int \<Rightarrow> 'w \<Rightarrow> (link_query \<times> 'w) option" where
  "query_linux_namespace_link qw handle deadline w =
     map_option (\<lambda>(r, w1). (case r of Inl status \<Rightarrow> link_answer status
         | Inr m \<Rightarrow> decode_wire (link_wire_of_bytes m), w1))
       (query_in_namespace qw handle link_wire_size deadline w)"

definition query_linux_namespace_qdisc ::
  "'w query_world \<Rightarrow> int option \<Rightarrow> int \<Rightarrow> 'w \<Rightarrow> (qdisc_query \<times> 'w) option" where
  "query_linux_namespace_qdisc qw handle deadline w =
     map_option (\<lambda>(r, w1). (case r of Inl status \<Rightarrow> qdisc_answer status
         | Inr m \<Rightarrow> decode_qdisc_wire (qdisc_wire_of_bytes m), w1))
       (query_in_namespace qw handle qdisc_wire_size deadline w)"

section \<open>Commands, files and the consent\<close>

definition run_linux_ip ::
  "'w runner_world \<Rightarrow> string \<Rightarrow> string list \<Rightarrow> int option option \<Rightarrow> int \<Rightarrow> 'w \<Rightarrow> (command_result \<times> 'w) option" where
  "run_linux_ip rw path arguments inherited deadline w =
     (case inherited of
        None \<Rightarrow> run_command rw path arguments deadline w
      | Some None \<Rightarrow> Some (command_answer Command_System_Failure runner_einval [], w)
      | Some (Some d) \<Rightarrow> run_command_with_inherited_descriptor rw path arguments d deadline w)"

definition run_linux_ip_in_namespace ::
  "'w runner_world \<Rightarrow> string \<Rightarrow> string list \<Rightarrow> int option \<Rightarrow> int \<Rightarrow> 'w \<Rightarrow> (command_result \<times> 'w) option" where
  "run_linux_ip_in_namespace rw path arguments handle deadline w =
     (case handle of
        None \<Rightarrow> Some (command_answer Command_System_Failure runner_einval [], w)
      | Some d \<Rightarrow> run_command_in_network_namespace rw path arguments d deadline w)"

definition linux_namespace_argument :: "int option \<Rightarrow> string" where
  "linux_namespace_argument handle =
     (case handle of None \<Rightarrow> [] | Some d \<Rightarrow> ''/proc/self/fd/'' @ to_string_int d)"

text \<open>From the bytes of one \<open>read\<close> of at most 8 and 256 bytes.\<close>

definition forwarding_of_read :: "int + string \<Rightarrow> bool option" where
  "forwarding_of_read r =
     (case r of
        Inl _ \<Rightarrow> None
      | Inr setting \<Rightarrow>
          (if setting = [] then None
           else if setting = ''1'' @ [newline] \<or> setting = ''1'' then Some True
           else if setting = ''0'' @ [newline] \<or> setting = ''0'' then Some False
           else None))"

definition legacy_rules_of_read :: "int + (int + string) \<Rightarrow> bool option" where
  "legacy_rules_of_read opened =
     (case opened of
        Inl e \<Rightarrow> if e = enoent then Some False else None
      | Inr (Inl _) \<Rightarrow> None
      | Inr (Inr names) \<Rightarrow> if length names = 256 then None else Some (names \<noteq> []))"

definition nsfs_magic :: nat where "nsfs_magic = 1853056627"

text \<open>\<open>query_namespace\<close>: the result of \<open>open\<close>, of \<open>fstat\<close> (device and inode) and of \<open>fstatfs\<close>.\<close>

definition namespace_of_file ::
  "int + int \<Rightarrow> namespace_identity option \<Rightarrow> nat option \<Rightarrow> (int \<times> namespace_identity) namespace_query" where
  "namespace_of_file opened status filesystem =
     (case opened of
        Inl e \<Rightarrow> \<lparr>namespace_status = (if e = enoent \<or> e = enotdir then Inventory_Absent else Inventory_Failure),
                  namespace_handle = None\<rparr>
      | Inr d \<Rightarrow>
          (case (status, filesystem) of
             (Some identity, Some ty) \<Rightarrow>
               (if ty \<noteq> nsfs_magic then \<lparr>namespace_status = Inventory_Failure, namespace_handle = None\<rparr>
                else \<lparr>namespace_status = Inventory_Present, namespace_handle = Some (d, identity)\<rparr>)
           | _ \<Rightarrow> \<lparr>namespace_status = Inventory_Failure, namespace_handle = None\<rparr>))"

record 'w terminal_world =
  open_terminal :: "'w \<Rightarrow> bool \<times> 'w"
  write_terminal :: "string \<Rightarrow> 'w \<Rightarrow> (int + nat) \<times> 'w"
  terminal_clock :: "'w \<Rightarrow> int \<times> 'w"
  poll_terminal :: "int \<Rightarrow> 'w \<Rightarrow> netlink_poll \<times> 'w"
  read_terminal :: "nat \<Rightarrow> 'w \<Rightarrow> (int + string) \<times> 'w"

definition consent_prompt :: "string \<Rightarrow> string" where
  "consent_prompt rule =
     ''NetLagLab requests this temporary firewall exception:'' @ [newline] @ ''  '' @ rule @ [newline]
     @ ''It will be removed during Session cleanup. Apply it? [y/N] ''"

definition prompt_pass :: "'w terminal_world \<Rightarrow> string \<times> 'w \<Rightarrow> string \<times> 'w + bool \<times> 'w" where
  "prompt_pass tw = (\<lambda>(t, w).
     if t = [] then Inr (True, w)
     else case write_terminal tw t w of
       (Inr n, w1) \<Rightarrow> if 0 < n then Inl (drop n t, w1) else Inr (False, w1)
     | (Inl e, w1) \<Rightarrow> if e = nl_eintr then Inl (t, w1) else Inr (False, w1))"

definition consent_size :: nat where "consent_size = 8"

definition consent_of_response :: "string \<Rightarrow> firewall_consent" where
  "consent_of_response response =
     (if response = ''y'' @ [newline] then Consent_Granted else Consent_Declined)"

text \<open>The answer is read up to the end of a line or eight bytes; the deadline is checked before every
  read.\<close>

definition consent_pass ::
  "'w terminal_world \<Rightarrow> int \<Rightarrow> string \<times> 'w \<Rightarrow> string \<times> 'w + firewall_consent \<times> 'w" where
  "consent_pass tw deadline = (\<lambda>(response, w).
     if \<not> length response < consent_size then Inr (consent_of_response response, w)
     else case terminal_clock tw w of (now, w1) \<Rightarrow>
       (if deadline - now \<le> 0 then Inr (Consent_Timed_Out, w1)
        else case poll_terminal tw (runner_timeout deadline now) w1 of (answer, w2) \<Rightarrow>
          (case answer of
             Netlink_Poll_Timeout \<Rightarrow> Inr (Consent_Timed_Out, w2)
           | Netlink_Poll_Error e \<Rightarrow> if e = nl_eintr then Inl (response, w2) else Inr (Consent_Io_Failure, w2)
           | Netlink_Poll_Events broken readable \<Rightarrow>
               (if \<not> readable then Inr (Consent_Io_Failure, w2)
                else case read_terminal tw (consent_size - length response) w2 of (r, w3) \<Rightarrow>
                  (case r of
                     Inl _ \<Rightarrow> Inr (Consent_Io_Failure, w3)
                   | Inr d \<Rightarrow>
                       (if d = [] then Inr (Consent_Io_Failure, w3)
                        else if newline \<in> set (response @ d) then Inr (consent_of_response (response @ d), w3)
                        else Inl (response @ d, w3)))))))"

definition request_terminal_consent ::
  "'w terminal_world \<Rightarrow> string \<Rightarrow> int \<Rightarrow> 'w \<Rightarrow> (firewall_consent \<times> 'w) option" where
  "request_terminal_consent tw rule deadline w =
     (case open_terminal tw w of (opened, w1) \<Rightarrow>
        if \<not> opened then Some (Consent_Terminal_Unavailable, w1)
        else Option.bind (iterate (prompt_pass tw) (consent_prompt rule, w1)) (\<lambda>(written, w2).
          if \<not> written then Some (Consent_Io_Failure, w2)
          else iterate (consent_pass tw deadline) ([], w2)))"

end
