(* ===== verification/Linux_Platform_Laws.thy ===== *)
theory Linux_Platform_Laws
  imports Linux_Platform
begin

text \<open>
  What the Linux platform promises: an answer of a child in the namespace is well formed whatever the
  child sends, and is what the child saw when the pipe carries its bytes.
\<close>

section \<open>Well-formed answers\<close>

definition wf_link :: "link_query \<Rightarrow> bool" where
  "wf_link q \<longleftrightarrow>
     (case link_found q of
        None \<Rightarrow> True
      | Some i \<Rightarrow> link_status q = Inventory_Present \<and> link_index i \<noteq> 0 \<and> link_peer_index i \<noteq> 0)"

definition wf_qdisc :: "qdisc_query \<Rightarrow> bool" where
  "wf_qdisc q \<longleftrightarrow> (query_status q = Inventory_Present \<longleftrightarrow> query_root q \<noteq> None)"

lemma wf_answers [simp]:
  "wf_link (link_answer status)"
  "wf_qdisc (qdisc_answer status) \<longleftrightarrow> status \<noteq> Inventory_Present"
  by (simp_all add: wf_link_def wf_qdisc_def link_answer_def qdisc_answer_def)

lemma decode_wire_wf: "wf_link (decode_wire w)"
  by (simp add: decode_wire_def wf_link_def link_answer_def split: option.splits)

lemma decode_qdisc_wire_wf: "wf_qdisc (decode_qdisc_wire w)"
  by (simp add: decode_qdisc_wire_def wf_qdisc_def qdisc_answer_def split: option.splits)

lemma copy_object_less:
  assumes "copy_object 4 message offset = Some n"
  shows "n < 2 ^ 32"
  using assms le_value_less [of "take 4 (drop offset message)"]
  by (auto simp: copy_object_def min_def split: if_splits)

definition peer_known :: "link_attributes \<Rightarrow> bool" where
  "peer_known s \<longleftrightarrow> (\<forall>n. found_peer s = Some n \<longrightarrow> n < 2 ^ 32)"

lemma link_attribute_peer:
  "link_attribute message ty offset n s = Inr t \<Longrightarrow> peer_known s \<Longrightarrow> peer_known t"
  using copy_object_less [of message offset]
  by (auto simp: link_attribute_def peer_known_def split: if_splits option.splits)

lemma attribute_loop_step:
  assumes "attribute_loop e step message offset n s = Inr t" "n \<noteq> 0"
  obtains ty place len s1 offset1 n1 where "step ty place len s = Inr s1"
    "attribute_loop e step message offset1 n1 s1 = Inr t" "n1 < n"
proof -
  let ?len = "le_value (take 2 (drop offset message))" and ?ty = "le_value (take 2 (drop (offset + 2) message))"
  from assms obtain s1 where s1: "step ?ty (offset + rtattr_size) (?len - rtattr_size) s = Inr s1"
      "attribute_loop e step message (offset + align4 ?len) (n - align4 ?len) s1 = Inr t"
      "\<not> ?len < rtattr_size"
    unfolding attribute_loop.simps [of e step message offset n s]
    by (simp add: Let_def split: if_splits sum.splits)
  from s1(3) assms(2) align4_ge(1) [of ?len] have "n - align4 ?len < n" by (simp add: rtattr_size_def)
  with s1(1,2) show thesis by (rule that)
qed

lemma attribute_loop_keeps:
  assumes "attribute_loop e step message offset n s = Inr t" "P s"
    and keeps: "\<And>ty offset n s t. step ty offset n s = Inr t \<Longrightarrow> P s \<Longrightarrow> P t"
  shows "P t"
  using assms(1,2)
proof (induction n arbitrary: offset s rule: less_induct)
  case (less n)
  show ?case
  proof (cases "n = 0")
    case True
    with less.prems show ?thesis by (simp add: attribute_loop.simps)
  next
    case False
    show ?thesis
      by (rule attribute_loop_step [OF less.prems(1) False]) (use less.IH keeps less.prems(2) in blast)
  qed
qed

lemma link_information_wf: "wf_link (link_information d message)"
proof (cases "attribute_loop () (link_attribute message) message (nlmsghdr_size + 16)
    (length message - (nlmsghdr_size + 16))
    \<lparr>found_name = None, found_peer = None, found_namespace = None, found_veth = False\<rparr>")
  case Inl
  then show ?thesis by (simp add: link_information_def split: option.splits)
next
  case (Inr s)
  then have "peer_known s"
    by (rule attribute_loop_keeps [where P = peer_known]) (simp add: peer_known_def, rule link_attribute_peer)
  moreover have "(of_nat n :: 32 word) \<noteq> 0" if "n < 2 ^ 32" "n \<noteq> 0" for n
    using that by (auto simp: word_of_nat_eq_0_iff dest: dvd_imp_le)
  ultimately show ?thesis
    using Inr by (auto simp: link_information_def wf_link_def link_answer_def peer_known_def split: option.splits)
qed

lemma link_consume_wf: "wf_link (fst (link_consume d bytes))"
  by (simp add: link_consume_def Let_def link_information_wf split: option.splits)


lemma link_pass_wf:
  assumes "link_pass nw d deadline w = Some (Inr (q, w1))"
  shows "wf_link q"
proof -
  from assms consider "q = link_answer Inventory_Timeout"
    | r w2 where "(case r of
               Read_Timeout \<Rightarrow> Inr (link_answer Inventory_Timeout, w2)
             | Read_Poll_Failure \<Rightarrow> Inr (link_answer Inventory_Failure, w2)
             | Read_Again \<Rightarrow> Inl w2
             | Read_Receive_Error \<Rightarrow> Inr (link_answer Inventory_Malformed, w2)
             | Read_Rejected \<Rightarrow> Inr (link_answer Inventory_Malformed, w2)
             | Read_Datagram bytes \<Rightarrow> Inr (fst (link_consume d bytes), w2)) = Inr (q, w1)"
    by (auto simp: link_pass_def split: prod.splits if_splits)
  then show ?thesis
  proof cases
    case (2 r w2)
    then show ?thesis using link_consume_wf by (cases r) auto
  qed simp
qed

lemma query_current_link_wf:
  assumes "query_current_namespace_link nw name deadline w = Some (q, w1)"
  shows "wf_link q"
proof -
  have loop: "wf_link q" if "iterate_calls (link_pass nw d deadline) w0 = Some (q, w1)" for d w0
  proof -
    have "wf_link (fst (q, w1))"
      by (rule iterate_calls_rule [where I = "\<lambda>_. True", OF that]) (auto intro: link_pass_wf)
    then show ?thesis by simp
  qed
  show ?thesis
    using assms loop
    by (auto simp: query_current_namespace_link_def split: prod.splits if_splits sum.splits option.splits)
qed

lemma walk_qdiscs_wf: "walk_qdiscs d bytes offset found = Inl q \<Longrightarrow> wf_qdisc q"
proof (induction d bytes offset found rule: walk_qdiscs.induct)
  case (1 d bytes offset found)
  show ?case
  proof (cases "copy_header bytes offset")
    case None
    with "1.prems" show ?thesis by (auto simp: walk_qdiscs.simps [of d bytes] split: if_splits)
  next
    case (Some header)
    let ?decoded = "qdisc_consume d (take (align4 (nlmsg_len header)) (drop offset bytes))"
    note IH = "1.IH" [OF _ Some _ refl refl]
    show ?thesis
    proof (cases "message_kind ?decoded")
      case Qdisc_Root
      with "1.prems" Some IH(1) show ?thesis
        by (auto simp: walk_qdiscs.simps [of d bytes offset] Let_def split: if_splits)
    next
      case Qdisc_Dump_Complete
      with "1.prems" Some show ?thesis
        by (auto simp: walk_qdiscs.simps [of d bytes offset] Let_def wf_qdisc_def split: if_splits option.splits)
          (simp_all add: qdisc_answer_def)
    next
      case Qdisc_Ignored
      with "1.prems" Some IH(2) show ?thesis
        by (auto simp: walk_qdiscs.simps [of d bytes offset] Let_def split: if_splits)
    qed
  qed
qed


lemma qdisc_pass_wf:
  assumes "qdisc_pass nw d deadline (found, w) = Some (Inr (q, w1))"
  shows "wf_qdisc q"
proof -
  from assms consider "q = qdisc_answer Inventory_Timeout"
    | r w2 where "(case r of
               Read_Timeout \<Rightarrow> Inr (qdisc_answer Inventory_Timeout, w2)
             | Read_Poll_Failure \<Rightarrow> Inr (qdisc_answer Inventory_Failure, w2)
             | Read_Again \<Rightarrow> Inl (found, w2)
             | Read_Receive_Error \<Rightarrow> Inr (qdisc_answer Inventory_Malformed, w2)
             | Read_Rejected \<Rightarrow> Inr (qdisc_answer Inventory_Malformed, w2)
             | Read_Datagram bytes \<Rightarrow>
                 (case walk_qdiscs d bytes 0 found of Inl q \<Rightarrow> Inr (q, w2) | Inr root1 \<Rightarrow> Inl (root1, w2)))
           = Inr (q, w1)"
    by (auto simp: qdisc_pass_def split: prod.splits if_splits)
  then show ?thesis
  proof cases
    case (2 r w2)
    then show ?thesis by (cases r) (auto split: sum.splits dest: walk_qdiscs_wf)
  qed simp
qed

lemma query_current_qdisc_wf:
  assumes "query_current_namespace_qdisc nw name deadline w = Some (q, w1)"
  shows "wf_qdisc q"
proof -
  have loop: "wf_qdisc q" if "iterate_calls (qdisc_pass nw d deadline) s = Some (q, w1)" for d s
  proof -
    have "wf_qdisc (fst (q, w1))"
      by (rule iterate_calls_rule [where I = "\<lambda>_. True", OF that]) (auto intro: qdisc_pass_wf)
    then show ?thesis by simp
  qed
  have named: "status \<noteq> Inventory_Present" if "index_of_name nw name w0 = (Inl status, w2)" for status w0 w2
    using that by (auto simp: index_of_name_def split: prod.splits sum.splits if_splits)
  show ?thesis
    using assms loop named
    by (auto simp: query_current_namespace_qdisc_def split: prod.splits if_splits sum.splits option.splits)
qed

section \<open>Through the structures\<close>

lemma le_word32: "le_value (le_bytes 4 (unat (x :: 32 word))) = unat x"
  using unsigned_less [of x] by (intro le_value_le_bytes) simp

lemma le_word64: "le_value (le_bytes 8 (unat (x :: 64 word))) = unat x"
  using unsigned_less [of x] by (intro le_value_le_bytes) simp

lemma le_small: "n < 5 \<Longrightarrow> signed32 (le_value (le_bytes 4 (nat (int n mod 4294967296)))) = int n"
proof -
  assume "n < 5"
  then have "nat (int n mod 4294967296) = n" "n < 256 ^ 4" by simp_all
  then show ?thesis using \<open>n < 5\<close> by (simp add: le_value_le_bytes signed32_def del: le_bytes.simps)
qed

lemma le_zero: "le_value (le_bytes k 0) = 0"
  by (rule le_value_le_bytes) simp

lemma le_flag: "le_value (le_bytes (Suc 0) (Suc 0)) = Suc 0" "le_value (le_bytes (Suc 0) (of_bool b)) = of_bool b"
  by (rule le_value_le_bytes; simp)+

lemma le_two: "signed32 (le_value (le_bytes 4 2)) = 2"
  using le_small [of 2] by (simp del: le_bytes.simps le_value.simps)

lemma inventory_number_less: "inventory_number status < 5"
  by (cases status) simp_all

lemma inventory_of_number_inverse:
  "inventory_of_number (int (inventory_number status)) = Some status"
  "inventory_of_number 1 = Some Inventory_Present"
  by (cases status; simp add: inventory_of_number_def)+

lemma qdisc_kind_inverse:
  "qdisc_kind_of_number (int (qdisc_kind_number k)) = Some k" "qdisc_kind_number k < 5"
  by (cases k; simp add: qdisc_kind_of_number_def)+

lemmas wire_fields = field_at_def le_word32 le_word64 le_zero le_flag le_two le_small inventory_number_less qdisc_kind_inverse

lemma link_wire_bytes_inverse: "link_wire_of_bytes (link_wire_bytes (wire_of_link q)) = wire_of_link q"
  by (cases "link_found q")
    (simp_all add: link_wire_of_bytes_def link_wire_bytes_def wire_of_link_def wire_fields Let_def
      del: le_bytes.simps le_value.simps)

lemma qdisc_wire_bytes_inverse: "qdisc_wire_of_bytes (qdisc_wire_bytes (wire_of_qdisc q)) = wire_of_qdisc q"
  by (cases "query_root q")
    (simp_all add: qdisc_wire_of_bytes_def qdisc_wire_bytes_def wire_of_qdisc_def wire_fields
      del: le_bytes.simps le_value.simps)

lemma decode_wire_inverse:
  assumes "wf_link q"
  shows "decode_wire (wire_of_link q) = q"
proof (cases "link_found q")
  case None
  then show ?thesis
    by (cases q) (simp add: decode_wire_def wire_of_link_def inventory_of_number_inverse link_answer_def Let_def)
next
  case (Some i)
  then show ?thesis
    using assms by (cases q; cases i; cases "link_peer_namespace i")
      (simp_all add: decode_wire_def wire_of_link_def inventory_of_number_inverse wf_link_def Let_def)
qed

lemma decode_qdisc_wire_inverse:
  assumes "wf_qdisc q"
  shows "decode_qdisc_wire (wire_of_qdisc q) = q"
proof (cases "query_root q")
  case None
  then show ?thesis
    using assms by (cases q)
      (simp add: decode_qdisc_wire_def wire_of_qdisc_def inventory_of_number_inverse qdisc_answer_def wf_qdisc_def)
next
  case (Some r)
  then show ?thesis
    using assms by (cases q; cases r)
      (simp add: decode_qdisc_wire_def wire_of_qdisc_def inventory_of_number_inverse qdisc_kind_inverse wf_qdisc_def)
qed


section \<open>Through the pipe\<close>

text \<open>
  The bytes still to come through the pipe: only \<open>read\<close> takes from them, in order, at most what it
  was asked for. The bytes a child has sent: only \<open>write\<close> adds to them, a beginning of what it was
  given.
\<close>

definition carries :: "'w query_world \<Rightarrow> ('w \<Rightarrow> bytes) \<Rightarrow> bool" where
  "carries qw rest \<longleftrightarrow>
     (\<forall>w. rest (snd (query_clock qw w)) = rest w \<and> rest (snd (open_query_pipe qw w)) = rest w
        \<and> rest (snd (fork_query qw w)) = rest w)
     \<and> (\<forall>t w. rest (snd (poll_query qw t w)) = rest w)
     \<and> (\<forall>n w d w1. read_query qw n w = (Inr d, w1) \<longrightarrow> rest w = d @ rest w1 \<and> length d \<le> n)
     \<and> (\<forall>n w e w1. read_query qw n w = (Inl e, w1) \<longrightarrow> rest w1 = rest w)"

definition netlink_quiet :: "'c netlink_world \<Rightarrow> ('c \<Rightarrow> 'a) \<Rightarrow> bool" where
  "netlink_quiet nw f \<longleftrightarrow>
     (\<forall>c. f (snd (netlink_clock nw c)) = f c \<and> f (snd (open_netlink nw c)) = f c
        \<and> f (snd (bind_netlink nw c)) = f c \<and> f (snd (name_of_netlink nw c)) = f c
        \<and> f (snd (receive_netlink nw c)) = f c)
     \<and> (\<forall>x c. f (snd (name_to_index nw x c)) = f c) \<and> (\<forall>m c. f (snd (send_netlink nw m c)) = f c)
     \<and> (\<forall>t c. f (snd (poll_netlink nw t c)) = f c)"

definition sends :: "'c child_query_world \<Rightarrow> ('c \<Rightarrow> bytes) \<Rightarrow> bool" where
  "sends cw sent \<longleftrightarrow>
     (\<forall>d c. sent (snd (enter_query_namespace cw d c)) = sent c) \<and> netlink_quiet (child_netlink cw) sent
     \<and> (\<forall>m c n c1. write_query cw m c = (Inr n, c1) \<longrightarrow> n \<le> length m \<and> sent c1 = sent c @ take n m)
     \<and> (\<forall>m c e c1. write_query cw m c = (Inl e, c1) \<longrightarrow> sent c1 = sent c)"

lemma read_complete_exact:
  assumes "carries qw rest" "read_complete (read_query qw) n w = Some (Some m, w1)"
  shows "rest w = m @ rest w1 \<and> length m = n"
proof -
  let ?I = "\<lambda>(m, w1). rest w = m @ rest w1 \<and> length m \<le> n"
  let ?Q = "\<lambda>(r, w1). \<forall>m. r = Some m \<longrightarrow> rest w = m @ rest w1 \<and> length m = n"
  have "?Q (Some m, w1)"
  proof (rule iterate_rule [where I = ?I, OF assms(2) [unfolded read_complete_def]])
    show "?I t" if "?I s" "read_complete_pass (read_query qw) n s = Inl t" for s t
      using that assms(1)
      by (fastforce simp: read_complete_pass_def carries_def split: prod.splits sum.splits if_splits)
    show "?Q r" if "?I s" "read_complete_pass (read_query qw) n s = Inr r" for s r
      using that by (auto simp: read_complete_pass_def split: prod.splits sum.splits if_splits)
  qed simp
  then show ?thesis by simp
qed

lemma carriesD:
  assumes "carries qw rest"
  shows "rest (snd (query_clock qw w)) = rest w" "rest (snd (open_query_pipe qw w)) = rest w"
    "rest (snd (fork_query qw w)) = rest w" "rest (snd (poll_query qw t w)) = rest w"
  using assms by (simp_all add: carries_def)

lemma iterate_same:
  assumes "iterate body s = Some (a, s1)"
    and "\<And>s t. body s = Inl t \<Longrightarrow> f t = f s" and "\<And>s a t. body s = Inr (a, t) \<Longrightarrow> f t = f s"
  shows "f s1 = f s"
proof -
  have "f (snd (a, s1)) = f s"
  proof (rule iterate_rule [where I = "\<lambda>t. f t = f s", OF assms(1)])
    show "f (snd r) = f s" if "f t = f s" "body t = Inr r" for t r
      using that assms(3) by (cases r) simp
  qed (simp_all add: assms(2))
  then show ?thesis by simp
qed

lemma query_poll_keeps:
  assumes "carries qw rest" "iterate (query_poll_pass qw deadline) w = Some (answer, w1)"
  shows "rest w1 = rest w"
proof (rule iterate_same [OF assms(2)])
  note keeps = carriesD(1,4) [OF assms(1)]
  show "rest t = rest s" if "query_poll_pass qw deadline s = Inl t" for s t
    using that keeps by (auto simp: query_poll_pass_def case_prod_beta split: if_splits)
  show "rest t = rest s" if "query_poll_pass qw deadline s = Inr (a, t)" for s a t
  proof -
    from that have "t = snd (poll_query qw (runner_timeout deadline (fst (query_clock qw s))) (snd (query_clock qw s)))"
      by (simp add: query_poll_pass_def case_prod_beta split: if_splits)
    then show ?thesis by (simp add: keeps)
  qed
qed

lemma query_in_namespace_exact:
  assumes "carries qw rest" "query_in_namespace qw handle n deadline w = Some (Inr m, w1)"
  shows "handle \<noteq> None \<and> length m = n \<and> (\<exists>tail. rest w = m @ tail)"
proof -
  let ?w1 = "snd (query_clock qw w)" let ?w2 = "snd (open_query_pipe qw ?w1)" let ?w3 = "snd (fork_query qw ?w2)"
  from assms(2) have h: "handle \<noteq> None" and await: "await_answer qw n deadline ?w3 = Some (Inr m, w1)"
    by (auto simp: query_in_namespace_def case_prod_beta split: if_splits)
  from await obtain answer w4 where polled: "iterate (query_poll_pass qw deadline) ?w3 = Some (answer, w4)"
    and rest: "collect_query qw n w4 = Some (Inr m, w1)"
    by (auto simp: await_answer_def split: Option.bind_splits if_splits)
  from rest obtain w5 where "read_complete (read_query qw) n w4 = Some (Some m, w5)"
    by (auto simp: collect_query_def split: Option.bind_splits wait_answer.splits option.splits if_splits)
  from read_complete_exact [OF assms(1) this] query_poll_keeps [OF assms(1) polled] h assms(1)
  show ?thesis by (auto simp: carries_def)
qed


lemma netlink_quietD:
  assumes "netlink_quiet nw f"
  shows "f (snd (netlink_clock nw c)) = f c" "f (snd (open_netlink nw c)) = f c"
    "f (snd (bind_netlink nw c)) = f c" "f (snd (name_of_netlink nw c)) = f c"
    "f (snd (receive_netlink nw c)) = f c" "f (snd (name_to_index nw x c)) = f c"
    "f (snd (send_netlink nw m c)) = f c" "f (snd (poll_netlink nw t c)) = f c"
  using assms by (simp_all add: netlink_quiet_def)

lemma send_request_quiet:
  assumes "netlink_quiet nw f"
  shows "f (snd (send_request nw request c)) = f c" "f (snd (index_of_name nw name c)) = f c"
  by (simp_all add: send_request_def netlink_port_def index_of_name_def case_prod_beta netlink_quietD [OF assms]
      split: option.splits)

lemma poll_pass_quiet:
  assumes "netlink_quiet nw f" "iterate (netlink_poll_pass nw timeout) c = Some (answer, c2)"
  shows "f c2 = f c"
proof (rule iterate_same [OF assms(2)])
  note keeps = netlink_quietD [OF assms(1)]
  show "f t = f s" if "netlink_poll_pass nw timeout s = Inl t" for s t
    using that keeps by (auto simp: netlink_poll_pass_def case_prod_beta split: if_splits)
  show "f t = f s" if "netlink_poll_pass nw timeout s = Inr (a, t)" for s a t
  proof -
    from that have "t = snd (poll_netlink nw (timeout (fst (netlink_clock nw s))) (snd (netlink_clock nw s)))"
      by (simp add: netlink_poll_pass_def case_prod_beta split: if_splits)
    then show ?thesis by (simp add: keeps)
  qed
qed

lemma receive_pass_quiet:
  assumes "netlink_quiet nw f" "iterate (receive_pass nw) c = Some (answer, c2)"
  shows "f c2 = f c"
proof (rule iterate_same [OF assms(2)])
  note keeps = netlink_quietD [OF assms(1)]
  show "f t = f s" if "receive_pass nw s = Inl t" for s t
    using that keeps by (auto simp: receive_pass_def case_prod_beta split: if_splits)
  show "f t = f s" if "receive_pass nw s = Inr (a, t)" for s a t
  proof -
    from that have "t = snd (receive_netlink nw s)"
      by (simp add: receive_pass_def case_prod_beta split: if_splits)
    then show ?thesis by (simp add: keeps)
  qed
qed

lemma read_datagram_quiet:
  assumes "netlink_quiet nw f" "read_datagram nw timeout c = Some (r, c1)"
  shows "f c1 = f c"
  using assms(2) poll_pass_quiet [OF assms(1)] receive_pass_quiet [OF assms(1)]
  by (auto simp: read_datagram_def split: Option.bind_splits netlink_poll.splits if_splits)

definition link_verdict :: "link_decoder \<Rightarrow> netlink_read \<Rightarrow> link_query option" where
  "link_verdict d r =
     (case r of
        Read_Timeout \<Rightarrow> Some (link_answer Inventory_Timeout)
      | Read_Poll_Failure \<Rightarrow> Some (link_answer Inventory_Failure)
      | Read_Again \<Rightarrow> None
      | Read_Receive_Error \<Rightarrow> Some (link_answer Inventory_Malformed)
      | Read_Rejected \<Rightarrow> Some (link_answer Inventory_Malformed)
      | Read_Datagram bytes \<Rightarrow> Some (fst (link_consume d bytes)))"

lemma link_pass_verdict:
  "link_pass nw d deadline w =
     (case netlink_clock nw w of (now, w1) \<Rightarrow>
        if \<not> now < deadline then Some (Inr (link_answer Inventory_Timeout, w1))
        else map_option (\<lambda>(r, w2). case link_verdict d r of None \<Rightarrow> Inl w2 | Some q \<Rightarrow> Inr (q, w2))
          (read_datagram nw (runner_timeout deadline) w1))"
  unfolding link_pass_def link_verdict_def
  by (intro arg_cong2 [where f = case_prod] refl ext if_cong arg_cong2 [where f = map_option])
    (simp split: netlink_read.split)

lemma link_pass_quiet:
  assumes "netlink_quiet nw f"
  shows "link_pass nw d deadline c = Some (Inl c1) \<Longrightarrow> f c1 = f c"
    and "link_pass nw d deadline c = Some (Inr (q, c1)) \<Longrightarrow> f c1 = f c"
  using read_datagram_quiet [OF assms] netlink_quietD(1) [OF assms, of c]
  by (auto simp: link_pass_verdict case_prod_beta split: if_splits option.splits)

lemma query_current_link_quiet:
  assumes quiet: "netlink_quiet nw f" and query: "query_current_namespace_link nw name deadline c = Some (q, c1)"
  shows "f c1 = f c"
proof -
  have loop: "f c1 = f c2" if "iterate_calls (link_pass nw d deadline) c2 = Some (q, c1)" for d c2
  proof -
    have "f (snd (q, c1)) = f c2"
    proof (rule iterate_calls_rule [where I = "\<lambda>s. f s = f c2", OF that])
      show "f (snd r) = f c2" if "f s = f c2" "link_pass nw d deadline s = Some (Inr r)" for s r
        using that link_pass_quiet(2) [OF quiet] by (cases r) simp
    qed (simp_all add: link_pass_quiet(1) [OF quiet])
    then show ?thesis by simp
  qed
  note keeps = netlink_quietD [OF quiet] send_request_quiet [OF quiet]
  let ?c1 = "snd (netlink_clock nw c)" let ?i = "index_of_name nw name ?c1"
  consider "c1 = ?c1" | "c1 = snd ?i" | index where "f c1 = f (snd (send_request nw (link_request index) (snd ?i)))"
    using query loop
    by (cases ?i; cases "fst ?i")
      (auto simp: query_current_namespace_link_def case_prod_beta split: if_splits option.splits prod.splits)
  then show ?thesis by cases (simp_all add: keeps)
qed


lemma write_complete_sends:
  assumes "sends cw sent" "write_complete (write_query cw) m c = Some (b, c1)"
  shows "\<exists>k. sent c1 = sent c @ take k m"
proof -
  let ?I = "\<lambda>(m1, c1). \<exists>k. m1 = drop k m \<and> k \<le> length m \<and> sent c1 = sent c @ take k m"
  have "\<exists>k. sent (snd (b, c1)) = sent c @ take k m"
  proof (rule iterate_rule [where I = ?I, OF assms(2) [unfolded write_complete_def]])
    show "?I (m, c)" by (auto intro!: exI [of _ 0])
    show "?I t" if inv: "?I s" and pass: "write_complete_pass (write_query cw) s = Inl t" for s t
    proof -
      obtain m1 c1 k where s: "s = (m1, c1)" "m1 = drop k m" "k \<le> length m" "sent c1 = sent c @ take k m"
        using inv by auto
      show ?thesis
      proof (cases "write_query cw m1 c1")
        case (Pair r c2)
        show ?thesis
        proof (cases r)
          case (Inl e)
          then have "sent c2 = sent c1" using assms(1) Pair by (simp add: sends_def)
          with pass s Pair Inl show ?thesis
            by (auto simp: write_complete_pass_def split: if_splits intro!: exI [of _ k])
        next
          case (Inr n)
          then have "n \<le> length m1" "sent c2 = sent c1 @ take n m1"
            using assms(1) Pair by (simp_all add: sends_def)
          then have "sent c2 = sent c @ take (k + n) m" "k + n \<le> length m"
            using s by (simp_all add: take_add)
          with pass s Pair Inr show ?thesis
            by (auto simp: write_complete_pass_def add.commute split: if_splits intro!: exI [of _ "k + n"])
        qed
      qed
    qed
    show "\<exists>k. sent (snd r) = sent c @ take k m"
      if inv: "?I s" and pass: "write_complete_pass (write_query cw) s = Inr r" for s r
    proof -
      obtain m1 c1 k where s: "s = (m1, c1)" "m1 = drop k m" "k \<le> length m" "sent c1 = sent c @ take k m"
        using inv by auto
      show ?thesis
      proof (cases "m1 = []")
        case True
        with pass s show ?thesis by (auto simp: write_complete_pass_def intro!: exI [of _ k])
      next
        case False
        obtain x c2 where call: "write_query cw m1 c1 = (x, c2)" by (cases "write_query cw m1 c1")
        have "sent c2 = sent c @ take k m"
        proof (cases x)
          case (Inl e)
          with assms(1) call s show ?thesis by (simp add: sends_def)
        next
          case (Inr n)
          with pass s call False have "n = 0" by (simp add: write_complete_pass_def split: if_splits)
          with Inr assms(1) call s show ?thesis by (simp add: sends_def)
        qed
        with pass s call False show ?thesis
          by (auto simp: write_complete_pass_def split: sum.splits if_splits intro!: exI [of _ k])
      qed
    qed
  qed
  then show ?thesis by simp
qed


lemma link_child_sends:
  assumes "sends cw sent" "sent c = []" "link_child cw d name deadline c = Some (code, c1)" "sent c1 \<noteq> []"
  obtains c2 q c3 k where "enter_query_namespace cw d c = (True, c2)"
    "query_current_namespace_link (child_netlink cw) name deadline c2 = Some (q, c3)"
    "sent c1 = take k (link_wire_bytes (wire_of_link q))"
proof -
  obtain entered c2 where enter: "enter_query_namespace cw d c = (entered, c2)"
    by (cases "enter_query_namespace cw d c")
  then have c2: "sent c2 = []" using assms(1,2) unfolding sends_def by (metis snd_conv)
  with enter assms(3,4) have entered
    by (auto simp: link_child_def query_child_def split: if_splits)
  moreover from this enter assms(3) obtain q c3 b where
    query: "query_current_namespace_link (child_netlink cw) name deadline c2 = Some (q, c3)"
    and sent: "write_complete (write_query cw) (link_wire_bytes (wire_of_link q)) c3 = Some (b, c1)"
    by (auto simp: link_child_def query_child_def split: Option.bind_splits)
  moreover have "sent c3 = []"
    using query_current_link_quiet [OF _ query, of sent] assms(1) c2 by (simp add: sends_def)
  ultimately show thesis
    using write_complete_sends [OF assms(1) sent] enter that by auto
qed

lemma length_link_wire: "length (link_wire_bytes w) = link_wire_size"
  by (simp add: link_wire_bytes_def link_wire_size_def del: le_bytes.simps)

section \<open>What an answer is\<close>

lemma collect_query_failure:
  assumes "collect_query qw n w = Some (Inl status, w1)"
  shows "status = Inventory_Failure"
proof -
  from assms obtain m answer where "(case (answer, m) of
              (Wait_Ended status, Some bytes) \<Rightarrow>
                (if wifexited status \<and> wexitstatus status = 0 then Inr (bytes :: bytes) else Inl Inventory_Failure)
            | _ \<Rightarrow> Inl Inventory_Failure) = Inl status"
    by (auto simp: collect_query_def split: Option.bind_splits)
  then show ?thesis by (cases answer; cases m) (auto split: if_splits)
qed

lemma query_in_namespace_absent:
  "query_in_namespace qw handle n deadline w = Some (Inl status, w1)
   \<Longrightarrow> status = Inventory_Failure \<or> status = Inventory_Timeout"
  by (auto simp: query_in_namespace_def await_answer_def dest: collect_query_failure
      split: if_splits prod.splits Option.bind_splits)

text \<open>
  C27: An answer about a link or a queueing discipline is well formed, in the namespace of the process
  and through a child whatever bytes the child sends: an identity only with the status present and
  with both indices, a root exactly with the status present.
\<close>

theorem namespace_answers_well_formed:
  "pred_option (wf_link \<circ> fst) (query_linux_namespace_link qw handle deadline w)
   \<and> pred_option (wf_qdisc \<circ> fst) (query_linux_namespace_qdisc qw handle deadline w)
   \<and> pred_option (wf_link \<circ> fst) (query_current_namespace_link nw name deadline1 c)
   \<and> pred_option (wf_qdisc \<circ> fst) (query_current_namespace_qdisc nw name deadline1 c)"
proof (intro conjI)
  show "pred_option (wf_link \<circ> fst) (query_linux_namespace_link qw handle deadline w)"
    by (auto simp: query_linux_namespace_link_def decode_wire_wf option.pred_map option.pred_set split: sum.splits)
  show "pred_option (wf_qdisc \<circ> fst) (query_linux_namespace_qdisc qw handle deadline w)"
    by (auto simp: query_linux_namespace_qdisc_def decode_qdisc_wire_wf option.pred_map option.pred_set
        split: sum.splits dest: query_in_namespace_absent)
  show "pred_option (wf_link \<circ> fst) (query_current_namespace_link nw name deadline1 c)"
    by (auto simp: option.pred_set dest: query_current_link_wf)
  show "pred_option (wf_qdisc \<circ> fst) (query_current_namespace_qdisc nw name deadline1 c)"
    by (auto simp: option.pred_set dest: query_current_qdisc_wf)
qed

text \<open>
  C26: What the adapter learns of a link in a namespace is what the kernel told a child that had entered
  this namespace, or that the query failed or timed out; so it is however the kernel cuts the bytes in
  the pipe and wherever the child stops.
\<close>

theorem namespace_answer_is_the_childs:
  assumes "carries qw rest" and "sends cw sent" and "sent c = []"
    and "link_child cw descriptor name child_deadline c = Some (code, c1)"
    and "rest w = sent c1"
    and "query_linux_namespace_link qw (Some descriptor) deadline w = Some (r, w1)"
  shows "r = link_answer Inventory_Failure \<or> r = link_answer Inventory_Timeout
    \<or> (\<exists>c2 c3. enter_query_namespace cw descriptor c = (True, c2)
         \<and> query_current_namespace_link (child_netlink cw) name child_deadline c2 = Some (r, c3))"
proof -
  from assms(6) obtain x where x: "query_in_namespace qw (Some descriptor) link_wire_size deadline w = Some (x, w1)"
    and r: "r = (case x of Inl status \<Rightarrow> link_answer status | Inr m \<Rightarrow> decode_wire (link_wire_of_bytes m))"
    by (auto simp: query_linux_namespace_link_def)
  show ?thesis
  proof (cases x)
    case (Inl status)
    then show ?thesis using x r query_in_namespace_absent by fastforce
  next
    case (Inr m)
    from query_in_namespace_exact [OF assms(1) x [unfolded Inr]] obtain tail where
      m: "length m = link_wire_size" "sent c1 = m @ tail"
      using assms(5) by auto
    then have "sent c1 \<noteq> []" by (auto simp: link_wire_size_def)
    from link_child_sends [OF assms(2-4) this] obtain c2 q c3 k where child:
      "enter_query_namespace cw descriptor c = (True, c2)"
      "query_current_namespace_link (child_netlink cw) name child_deadline c2 = Some (q, c3)"
      "sent c1 = take k (link_wire_bytes (wire_of_link q))" .
    from m child(3) have "m = take (length m) (link_wire_bytes (wire_of_link q))"
      by (metis append_eq_conv_conj take_take min.absorb_iff2 length_append length_take le_add1 min_def)
    then have "m = link_wire_bytes (wire_of_link q)" by (simp add: m(1) length_link_wire)
    then have "r = q"
      using r Inr query_current_link_wf [OF child(2)] by (simp add: link_wire_bytes_inverse decode_wire_inverse)
    with child show ?thesis by blast
  qed
qed


section \<open>An example\<close>

text \<open>A pipe that holds its bytes, of which a read gets at most seven, and a child whose link is absent.\<close>

definition demo_parent :: "bytes query_world" where
  "demo_parent =
     \<lparr>query_clock = \<lambda>w. (0, w), open_query_pipe = \<lambda>w. (True, w), fork_query = \<lambda>w. (True, w),
      poll_query = \<lambda>_ w. (Netlink_Poll_Events False True, w),
      read_query = \<lambda>n w. (Inr (take (min n 7) w), drop (min n 7) w), kill_query = \<lambda>w. w,
      await_query = \<lambda>w. (Wait_Ended 0, w)\<rparr>"

definition demo_netlink :: "bytes netlink_world" where
  "demo_netlink =
     \<lparr>netlink_clock = \<lambda>c. (0, c), name_to_index = \<lambda>_ c. (Inl nl_enodev, c), open_netlink = \<lambda>c. (True, c),
      bind_netlink = \<lambda>c. (True, c), name_of_netlink = \<lambda>c. (None, c), send_netlink = \<lambda>m c. (Inr (length m), c),
      poll_netlink = \<lambda>_ c. (Netlink_Poll_Timeout, c), receive_netlink = \<lambda>c. (Inl nl_eagain, c)\<rparr>"

definition demo_query_child :: "bytes child_query_world" where
  "demo_query_child =
     \<lparr>enter_query_namespace = \<lambda>_ c. (True, c), child_netlink = demo_netlink,
      write_query = \<lambda>m c. (Inr (min 9 (length m)), c @ take 9 m)\<rparr>"

lemma demo_carries: "carries demo_parent (\<lambda>w. w)"
  by (auto simp: carries_def demo_parent_def)

lemma demo_sends: "sends demo_query_child (\<lambda>c. c)"
  by (auto simp: sends_def netlink_quiet_def demo_query_child_def demo_netlink_def min_def)

lemma demo_link:
  "query_current_namespace_link (child_netlink demo_query_child) ''nll0'' 5 c = Some (link_answer Inventory_Absent, c)"
  by (simp add: query_current_namespace_link_def demo_query_child_def demo_netlink_def index_of_name_def)

lemma le_bytes_zero: "le_bytes k 0 = replicate k 0"
  by (induction k) simp_all

lemma demo_bytes:
  "link_wire_bytes (wire_of_link (link_answer Inventory_Absent)) = replicate 20 0"
  by (simp add: link_wire_bytes_def wire_of_link_def link_answer_def le_bytes_zero del: le_bytes.simps)
    (simp add: numeral_eq_Suc)

lemma demo_write:
  "write_complete (write_query demo_query_child) (replicate n 0) (replicate k 0) = Some (True, replicate (k + n) 0)"
proof (induction n arbitrary: k rule: less_induct)
  case (less n)
  show ?case
  proof (cases "n = 0")
    case True
    then show ?thesis
      unfolding write_complete_def by (intro iterate_unfold) (simp add: write_complete_pass_def)
  next
    case False
    have "iterate (write_complete_pass (write_query demo_query_child)) (replicate n 0, replicate k 0)
        = iterate (write_complete_pass (write_query demo_query_child)) (replicate (n - 9) 0, replicate (k + min 9 n) 0)"
      by (rule iterate_unfold)
        (use False in \<open>auto simp: write_complete_pass_def demo_query_child_def replicate_add min_def\<close>)
    then show ?thesis
      using less.IH [of "n - 9" "k + min 9 n"] False by (simp add: write_complete_def)
  qed
qed

lemma demo_link_child: "link_child demo_query_child 3 ''nll0'' 5 [] = Some (0, replicate 20 0)"
proof -
  have "enter_query_namespace demo_query_child 3 [] = (True, [])" by (simp add: demo_query_child_def)
  then show ?thesis
    using demo_link [of "[]"] demo_write [of 20 0]
    by (simp add: link_child_def query_child_def demo_bytes)
qed

lemma demo_read_pass:
  assumes "i < 20" "k = min (20 - i) 7" "k \<le> j"
  shows "read_complete_pass (read_query demo_parent) 20 (replicate i 0, replicate j 0)
    = Inl (replicate (i + k) 0, replicate (j - k) 0)"
proof -
  have "take k (replicate j 0) = replicate k (0 :: 8 word)" using assms(3) by simp
  then have "read_query demo_parent (20 - i) (replicate j 0) = (Inr (replicate k 0), replicate (j - k) 0)"
    by (simp add: demo_parent_def flip: assms(2))
  moreover have "replicate k (0 :: 8 word) \<noteq> []" using assms(1,2) by simp
  ultimately show ?thesis
    using assms(1) by (simp add: read_complete_pass_def replicate_add)
qed

lemma demo_read: "read_complete (read_query demo_parent) 20 (replicate 20 0) = Some (Some (replicate 20 0), [])"
proof -
  let ?it = "iterate (read_complete_pass (read_query demo_parent) 20)"
  have "?it (replicate 0 0, replicate 20 0) = ?it (replicate 7 0, replicate 13 0)"
    by (rule iterate_unfold) (use demo_read_pass [of 0 7 20] in simp)
  also have "\<dots> = ?it (replicate 14 0, replicate 6 0)"
    by (rule iterate_unfold) (use demo_read_pass [of 7 7 13] in simp)
  also have "\<dots> = ?it (replicate 20 0, replicate 0 0)"
    by (rule iterate_unfold) (use demo_read_pass [of 14 6 6] in simp)
  also have "\<dots> = Some (Some (replicate 20 0), [])"
    by (rule iterate_unfold) (simp add: read_complete_pass_def)
  finally show ?thesis by (simp add: read_complete_def)
qed

lemma demo_parent_link:
  "query_linux_namespace_link demo_parent (Some 3) 5 (replicate 20 0) = Some (link_answer Inventory_Absent, [])"
proof -
  have "iterate (query_poll_pass demo_parent 5) w = Some (Netlink_Poll_Events False True, w)" for w
    by (rule iterate_unfold) (simp add: query_poll_pass_def demo_parent_def)
  moreover have "retry_interrupted (await_query demo_parent) w = Some (Wait_Ended 0, w)" for w
    unfolding retry_interrupted_def by (rule iterate_unfold) (simp add: demo_parent_def)
  moreover have "query_clock demo_parent w = (0, w)" "open_query_pipe demo_parent w = (True, w)"
    "fork_query demo_parent w = (True, w)" for w
    by (simp_all add: demo_parent_def)
  moreover have "decode_wire (link_wire_of_bytes (replicate 20 0)) = link_answer Inventory_Absent"
    using decode_wire_inverse [of "link_answer Inventory_Absent"] link_wire_bytes_inverse [of "link_answer Inventory_Absent"]
    by (simp add: demo_bytes)
  ultimately show ?thesis
    by (simp add: query_linux_namespace_link_def query_in_namespace_def await_answer_def collect_query_def
        link_wire_size_def demo_read wifexited_def wexitstatus_def)
qed

theorem namespace_answer_is_the_childs_witness:
  "link_answer Inventory_Absent = link_answer Inventory_Failure
   \<or> link_answer Inventory_Absent = link_answer Inventory_Timeout
   \<or> (\<exists>c2 c3. enter_query_namespace demo_query_child 3 [] = (True, c2)
        \<and> query_current_namespace_link (child_netlink demo_query_child) ''nll0'' 5 c2
            = Some (link_answer Inventory_Absent, c3))"
  by (rule namespace_answer_is_the_childs [OF demo_carries demo_sends refl demo_link_child _ demo_parent_link]) (rule refl)

end
