(* ===== verification/Linux_Preflight.thy ===== *)
theory Linux_Preflight
  imports Linux_Platform Session_Files
begin

text \<open>
  The preflight's view of the host on Linux, class \<open>LinuxPreflightPlatform\<close> of
  \<open>src/network_environment/linux_preflight.cpp\<close>: the lock of the host on the file system of
  \<open>Session_Files\<close>, and the queries for tools, names and addresses from the results of their system
  calls. Its query for the routes is \<open>query_kernel_routes\<close> of \<open>Netlink_Query\<close>.
\<close>

section \<open>The lock of the host\<close>

definition host_runtime_directory :: string where "host_runtime_directory = ''/run/netlaglab''"
definition host_lock_name :: string where "host_lock_name = ''host.lock''"

definition host_lock_path :: string where
  "host_lock_path = join_path host_runtime_directory host_lock_name"

text \<open>Octal \<open>0755\<close>.\<close>

definition mode_directory :: nat where "mode_directory = 493"

definition has_mode :: "file_node \<Rightarrow> nat \<Rightarrow> bool" where
  "has_mode node mode \<longleftrightarrow> node_mode node AND mode_all = mode"

text \<open>\<open>mkdir\<close>, and whether the directory is a new one.\<close>

definition make_host_directory :: "file_host \<Rightarrow> (int + unit) \<times> file_host" where
  "make_host_directory h =
     (case call_result h Call_Make_Directory
        (if host_nodes h host_runtime_directory = None then Inr () else Inl eexist) of
        Inl e \<Rightarrow> (Inl e, h)
      | Inr _ \<Rightarrow>
          (Inr (), add_node host_runtime_directory \<lparr>node_kind = Directory_Node, node_owner = host_euid h,
             node_mode = masked mode_directory (host_umask h)\<rparr> h))"

text \<open>The directory open and checked; the cause of a failure is always a system failure.\<close>

definition open_host_directory :: "file_host \<Rightarrow> bool \<times> file_host" where
  "open_host_directory h =
     (case make_host_directory h of (made, h1) \<Rightarrow>
        if (case made of Inl e \<Rightarrow> e \<noteq> eexist | Inr _ \<Rightarrow> False) then (False, h1)
        else case open_directory h1 Call_Open_Directory host_runtime_directory of
          Inl _ \<Rightarrow> (False, h1)
        | Inr _ \<Rightarrow>
            (let changed = (if made = Inr () then call_result h1 Call_Chmod_Directory (Inr ()) else Inr ());
                 h2 = (if made = Inr () \<and> changed = Inr ()
                       then change_mode host_runtime_directory mode_directory h1 else h1)
             in case changed of
                  Inl _ \<Rightarrow> (False, h2)
                | Inr _ \<Rightarrow>
                    (case stat_node h2 Call_Stat_Directory host_runtime_directory of
                       Inl _ \<Rightarrow> (False, h2)
                     | Inr node \<Rightarrow>
                         (node_kind node = Directory_Node \<and> node_owner node = 0 \<and> has_mode node mode_directory,
                          h2))))"

text \<open>\<open>openat\<close> with \<open>O_CREAT | O_EXCL\<close>, and of an existing file without them; whether it was created.\<close>

definition open_host_lock :: "file_host \<Rightarrow> (int + bool) \<times> file_host" where
  "open_host_lock h =
     (case call_result h Call_Open_Lock
        (if host_nodes h host_lock_path = None then Inr () else Inl eexist) of
        Inr _ \<Rightarrow>
          (Inr True, add_node host_lock_path \<lparr>node_kind = Regular_Node, node_owner = host_euid h,
             node_mode = masked mode_owner_rw (host_umask h)\<rparr> h)
      | Inl e \<Rightarrow>
          (if e \<noteq> eexist then Inl e
           else case call_result h Call_Open_Lock
             (case host_nodes h host_lock_path of None \<Rightarrow> Inl enoent | Some node \<Rightarrow> open_node True (node_kind node)) of
             Inl e1 \<Rightarrow> Inl e1
           | Inr _ \<Rightarrow> Inr False, h))"

definition check_host_lock :: "file_host \<Rightarrow> (cause + unit) \<times> file_host" where
  "check_host_lock h =
     (case stat_node h Call_Stat_Lock host_lock_path of
        Inl _ \<Rightarrow> (Inl Cause_System_Failure, h)
      | Inr node \<Rightarrow>
          (if node_kind node \<noteq> Regular_Node \<or> node_owner node \<noteq> 0 \<or> \<not> has_mode node mode_owner_rw
           then (Inl Cause_System_Failure, h)
           else case call_result h Call_Lock (if host_lock_path \<in> host_locks h then Inl eagain else Inr ()) of
             Inl e \<Rightarrow> (Inl (if e = eagain then Cause_Collision else Cause_System_Failure), h)
           | Inr _ \<Rightarrow> (Inr (), h\<lparr>host_locks := insert host_lock_path (host_locks h)\<rparr>)))"

definition acquire_host_lock :: "file_host \<Rightarrow> (cause + unit) \<times> file_host" where
  "acquire_host_lock h =
     (case open_host_directory h of
        (False, h1) \<Rightarrow> (Inl Cause_System_Failure, h1)
      | (True, h1) \<Rightarrow>
          (case open_host_lock h1 of
             (Inl _, h2) \<Rightarrow> (Inl Cause_System_Failure, h2)
           | (Inr created, h2) \<Rightarrow>
               (if \<not> created then check_host_lock h2
                else case call_result h2 Call_Chmod_Lock (Inr ()) of
                  Inl _ \<Rightarrow> (Inl Cause_System_Failure, h2)
                | Inr _ \<Rightarrow> check_host_lock (change_mode host_lock_path mode_owner_rw h2))))"

section \<open>Tools and names\<close>

definition nl_absent :: "int \<Rightarrow> bool" where
  "nl_absent e \<longleftrightarrow> e = enoent \<or> e = enotdir"

text \<open>From the result of \<open>stat\<close>: whether the file is regular, its owner and all bits of its mode.\<close>

definition tool_of_status :: "int + bool \<times> nat \<times> nat \<Rightarrow> tool_query" where
  "tool_of_status status =
     (case status of
        Inl e \<Rightarrow>
          \<lparr>tool_status = (if nl_absent e then Query_Absent else Query_Failure),
           tool_metadata = \<lparr>file_regular = False, file_owner = 0, file_mode = 0\<rparr>\<rparr>
      | Inr (regular, owner, mode) \<Rightarrow>
          \<lparr>tool_status = Query_Present,
           tool_metadata = \<lparr>file_regular = regular, file_owner = of_nat owner, file_mode = of_nat mode AND 0xfff\<rparr>\<rparr>)"

text \<open>From the result of \<open>lstat\<close>, and from that of \<open>if_nametoindex\<close>.\<close>

definition path_status :: "int option \<Rightarrow> name_status" where
  "path_status e1 =
     (case e1 of None \<Rightarrow> Query_Present | Some e \<Rightarrow> if nl_absent e then Query_Absent else Query_Failure)"

definition link_name_status :: "int + nat \<Rightarrow> name_status" where
  "link_name_status r =
     (case r of
        Inr _ \<Rightarrow> Query_Present
      | Inl e \<Rightarrow> if e = 0 \<or> e = nl_enxio \<or> e = nl_enodev then Query_Absent else Query_Failure)"

section \<open>Addresses\<close>

text \<open>The loop over the bits of a mask, highest first: \<open>n\<close> bits are left.\<close>

fun mask_scan :: "32 word \<Rightarrow> nat \<Rightarrow> bool \<Rightarrow> 8 word \<Rightarrow> 8 word option" where
  "mask_scan m 0 found_zero len = Some len"
| "mask_scan m (Suc n) found_zero len =
     (if m AND push_bit n 1 \<noteq> 0 then (if found_zero then None else mask_scan m n found_zero (len + 1))
      else mask_scan m n True len)"

definition length_of_mask :: "32 word \<Rightarrow> 8 word option" where
  "length_of_mask m = mask_scan m 32 False 0"

text \<open>An entry of \<open>getifaddrs\<close>: an address or a mask is missing, of another family, or IPv4.\<close>

datatype interface_address = No_Address | Other_Family | Ipv4_Address "32 word"

fun prefixes_of_interfaces :: "(interface_address \<times> interface_address) list \<Rightarrow> ipv4_prefix list option" where
  "prefixes_of_interfaces [] = Some []"
| "prefixes_of_interfaces ((a, m) # rest) =
     (case a of
        Ipv4_Address address \<Rightarrow>
          (case m of
             Ipv4_Address netmask \<Rightarrow>
               (case length_of_mask netmask of
                  None \<Rightarrow> None
                | Some n \<Rightarrow> map_option ((#) \<lparr>prefix_address = address, prefix_length = n\<rparr>) (prefixes_of_interfaces rest))
           | _ \<Rightarrow> None)
      | _ \<Rightarrow> prefixes_of_interfaces rest)"

definition addresses_of_interfaces ::
  "(interface_address \<times> interface_address) list option \<Rightarrow> ipv4_prefix list option" where
  "addresses_of_interfaces entries = Option.bind entries prefixes_of_interfaces"

end
