(* ===== verification/Session_Files_Laws.thy ===== *)
theory Session_Files_Laws
  imports Session_Files
begin

text \<open>
  A session that could be set up is one that the attach client and the helper accept, whatever the
  mask of the process was; a second one is refused; and what is removed is a socket of the user.
\<close>

unbundle bit_operations_syntax

section \<open>Paths and modes\<close>

lemma join_path_length: "length (join_path p c) \<ge> length p + length c"
  by (simp add: join_path_def)

lemma join_path_not_parent [simp]: "c \<noteq> [] \<Longrightarrow> join_path p c \<noteq> p"
  using join_path_length [of p c] by (cases c) auto

lemma join_path_inject [simp]: "join_path p c = join_path p d \<longleftrightarrow> c = d"
  by (simp add: join_path_def)

lemma modes [simp]:
  "mode_owner_all AND mode_all = mode_owner_all" "mode_owner_rw AND mode_all = mode_owner_rw"
  "masked mode_all socket_creation_mask = mode_owner_rw"
  by (simp_all add: mode_owner_all_def mode_owner_rw_def mode_all_def masked_def socket_creation_mask_def)

lemma names [simp]:
  "session_directory_name \<noteq> []" "lock_file_name \<noteq> []" "control_socket_name \<noteq> []" "helper_socket_name \<noteq> []"
  "lock_file_name \<noteq> control_socket_name" "control_socket_name \<noteq> lock_file_name"
  "helper_socket_name \<noteq> lock_file_name" "helper_socket_name \<noteq> control_socket_name"
  by (simp_all add: session_directory_name_def lock_file_name_def control_socket_name_def helper_socket_name_def)

lemma joined_longer: "c \<noteq> [] \<Longrightarrow> d \<noteq> [] \<Longrightarrow> join_path (join_path p c) d \<noteq> p"
  using join_path_length [of "join_path p c" d] join_path_length [of p c] by (cases c; cases d) auto

lemmas paths_apart [simp] = joined_longer join_path_not_parent [symmetric] joined_longer [symmetric]

lemma no_faults_call [simp]: "host_faults h = Map.empty \<Longrightarrow> call_result h c r = r"
  by (simp add: call_result_def)

lemma add_node_simps [simp]:
  "host_nodes (add_node p n h) = (host_nodes h)(p \<mapsto> n)" "host_locks (add_node p n h) = host_locks h"
  "host_listeners (add_node p n h) = host_listeners h" "host_euid (add_node p n h) = host_euid h"
  "host_faults (add_node p n h) = host_faults h" "host_umask (add_node p n h) = host_umask h"
  by (simp_all add: add_node_def)

lemma change_mode_simps [simp]:
  "host_nodes (change_mode p m h) = (host_nodes h)(p := map_option (\<lambda>n. n\<lparr>node_mode := m\<rparr>) (host_nodes h p))"
  "host_locks (change_mode p m h) = host_locks h" "host_listeners (change_mode p m h) = host_listeners h"
  "host_euid (change_mode p m h) = host_euid h" "host_faults (change_mode p m h) = host_faults h"
  by (simp_all add: change_mode_def)

section \<open>A session directory, its lock and its socket\<close>

definition private_directory :: "file_host \<Rightarrow> nat \<Rightarrow> string \<Rightarrow> bool" where
  "private_directory h uid path \<longleftrightarrow>
     (\<exists>node. host_nodes h path = Some node \<and> node_kind node = Directory_Node \<and> node_owner node = uid
        \<and> node_mode node AND mode_others = 0)"

definition exact_node :: "file_host \<Rightarrow> node_kind \<Rightarrow> nat \<Rightarrow> nat \<Rightarrow> string \<Rightarrow> bool" where
  "exact_node h kind uid mode path \<longleftrightarrow>
     (\<exists>node. host_nodes h path = Some node \<and> node_kind node = kind \<and> node_owner node = uid
        \<and> node_mode node AND mode_all = mode)"

definition ready_session :: "file_host \<Rightarrow> nat \<Rightarrow> string \<Rightarrow> bool" where
  "ready_session h uid runtime \<longleftrightarrow>
     (let directory = join_path runtime session_directory_name; lock = join_path directory lock_file_name
      in private_directory h uid runtime \<and> exact_node h Directory_Node uid mode_owner_all directory
         \<and> exact_node h Regular_Node uid mode_owner_rw lock \<and> lock \<in> host_locks h)"

lemma runtime_valid_iff:
  "host_faults h = Map.empty \<Longrightarrow>
     open_and_validate_runtime_directory h path uid = Inr () \<longleftrightarrow> private_directory h uid path"
  by (auto simp: open_and_validate_runtime_directory_def validate_runtime_directory_def open_directory_def
      stat_node_def private_directory_def split: option.splits sum.splits if_splits)

lemma directory_valid_iff:
  "host_faults h = Map.empty \<Longrightarrow>
     open_and_validate_session_directory h runtime uid = Inr ()
       \<longleftrightarrow> exact_node h Directory_Node uid mode_owner_all (join_path runtime session_directory_name)"
  by (auto simp: open_and_validate_session_directory_def validate_session_directory_def open_directory_def Let_def
      stat_node_def exact_node_def split: option.splits sum.splits if_splits)

lemma make_directory_frame:
  assumes "make_session_directory h path = (r, h1)"
  shows "\<And>q. q \<noteq> path \<Longrightarrow> host_nodes h1 q = host_nodes h q"
    "host_faults h1 = host_faults h" "host_locks h1 = host_locks h" "host_euid h1 = host_euid h"
    "host_listeners h1 = host_listeners h"
  using assms by (auto simp: make_session_directory_def Let_def split: sum.splits if_splits)

lemma lock_session_ready:
  assumes "lock_session h path = (Inr u, h1)" "host_faults h = Map.empty"
  shows "exact_node h1 Regular_Node (host_euid h) mode_owner_rw path" "host_locks h1 = insert path (host_locks h)"
    "path \<notin> host_locks h" "\<And>q. q \<noteq> path \<Longrightarrow> host_nodes h1 q = host_nodes h q"
    "host_faults h1 = Map.empty" "host_euid h1 = host_euid h" "host_listeners h1 = host_listeners h"
  using assms
  by (auto simp: lock_session_def open_lock_def stat_node_def exact_node_def Let_def
      split: sum.splits if_splits option.splits)

lemma prepare_ready:
  assumes "prepare_session_files (session_paths_of runtime) h = (Inr u, h1)" "host_faults h = Map.empty"
  shows "ready_session h1 (host_euid h) runtime" "host_faults h1 = Map.empty" "host_euid h1 = host_euid h"
    "join_path (join_path runtime session_directory_name) lock_file_name \<notin> host_locks h"
    "\<And>q. q \<notin> {join_path runtime session_directory_name, join_path (join_path runtime session_directory_name) lock_file_name}
       \<Longrightarrow> host_nodes h1 q = host_nodes h q"
    "host_listeners h1 = host_listeners h"
proof -
  define directory where "directory = join_path runtime session_directory_name"
  have x: "xdg_runtime_directory (session_paths_of runtime) = runtime"
    by (simp add: session_paths_of_def Let_def)
  obtain v where v: "open_and_validate_runtime_directory h runtime (host_euid h) = Inr v"
    using assms(1) by (auto simp: prepare_session_files_def x split: sum.splits)
  obtain w h0 where h0: "make_session_directory h directory = (Inr w, h0)"
    using assms(1) v by (auto simp: prepare_session_files_def x directory_def split: sum.splits prod.splits)
  note frame = make_directory_frame [OF h0]
  obtain y where y: "open_and_validate_session_directory h0 runtime (host_euid h) = Inr y"
    using assms(1) v h0 frame(4) by (auto simp: prepare_session_files_def x directory_def split: sum.splits)
  have lock: "lock_session h0 (join_path directory lock_file_name) = (Inr u, h1)"
    using assms(1) v h0 y frame(4) by (auto simp: prepare_session_files_def x directory_def split: sum.splits)
  have f0: "host_faults h0 = Map.empty" using frame(2) assms(2) by simp
  note l = lock_session_ready [OF lock f0]
  have "private_directory h (host_euid h) runtime" using runtime_valid_iff [OF assms(2)] v by auto
  then have "private_directory h1 (host_euid h) runtime"
    using frame(1) [of runtime] l(4) [of runtime] by (simp add: private_directory_def directory_def)
  moreover have "exact_node h0 Directory_Node (host_euid h) mode_owner_all directory"
    using directory_valid_iff [OF f0] y by (auto simp: directory_def)
  then have "exact_node h1 Directory_Node (host_euid h) mode_owner_all directory"
    using l(4) [of directory] by (simp add: exact_node_def)
  ultimately show "ready_session h1 (host_euid h) runtime"
    using l(1,2) frame(4) by (simp add: ready_session_def Let_def directory_def)
  show "host_faults h1 = Map.empty" "host_euid h1 = host_euid h" "host_listeners h1 = host_listeners h"
    using l(5-7) frame(4,5) by simp_all
  show "join_path (join_path runtime session_directory_name) lock_file_name \<notin> host_locks h"
    using l(3) frame(3) by (simp add: directory_def)
  fix q assume "q \<notin> {join_path runtime session_directory_name, join_path (join_path runtime session_directory_name) lock_file_name}"
  then show "host_nodes h1 q = host_nodes h q" using l(4) [of q] frame(1) [of q] by (simp add: directory_def)
qed

lemma ready_validate:
  assumes "ready_session h uid runtime" "host_faults h = Map.empty"
  shows "validate_session (session_paths_of runtime) uid h = Inr ()"
proof -
  define directory where "directory = join_path runtime session_directory_name"
  have parts: "private_directory h uid runtime" "exact_node h Directory_Node uid mode_owner_all directory"
    "exact_node h Regular_Node uid mode_owner_rw (join_path directory lock_file_name)"
    "join_path directory lock_file_name \<in> host_locks h"
    using assms(1) by (simp_all add: ready_session_def Let_def directory_def)
  have x: "xdg_runtime_directory (session_paths_of runtime) = runtime"
    by (simp add: session_paths_of_def Let_def)
  have checks: "open_and_validate_runtime_directory h runtime uid = Inr ()"
    "open_and_validate_session_directory h runtime uid = Inr ()"
    using runtime_valid_iff [OF assms(2)] directory_valid_iff [OF assms(2)] parts(1,2)
    by (simp_all add: directory_def)
  from parts(3) obtain node where node: "host_nodes h (join_path directory lock_file_name) = Some node"
    "node_kind node = Regular_Node" "node_owner node = uid" "node_mode node AND mode_all = mode_owner_rw"
    by (auto simp: exact_node_def)
  show ?thesis
    using node parts(4) assms(2)
    by (simp add: validate_session_def x checks Let_def stat_node_def flip: directory_def)
qed

lemma ready_frame:
  assumes "ready_session h uid runtime" "host_locks h1 = host_locks h"
    and "\<And>q. q \<noteq> join_path (join_path runtime session_directory_name) control_socket_name
      \<Longrightarrow> host_nodes h1 q = host_nodes h q"
  shows "ready_session h1 uid runtime"
  using assms by (simp add: ready_session_def private_directory_def exact_node_def Let_def)

lemma second_session_refused:
  assumes "ready_session h (host_euid h) runtime" "host_faults h = Map.empty"
  shows "fst (prepare_session_files (session_paths_of runtime) h)
    = Inl (refusal ''another Session is already active for this user'')"
proof -
  define directory where "directory = join_path runtime session_directory_name"
  have parts: "private_directory h (host_euid h) runtime" "exact_node h Directory_Node (host_euid h) mode_owner_all directory"
    "exact_node h Regular_Node (host_euid h) mode_owner_rw (join_path directory lock_file_name)"
    "join_path directory lock_file_name \<in> host_locks h"
    using assms(1) by (simp_all add: ready_session_def Let_def directory_def)
  have x: "xdg_runtime_directory (session_paths_of runtime) = runtime"
    by (simp add: session_paths_of_def Let_def)
  have checks: "open_and_validate_runtime_directory h runtime (host_euid h) = Inr ()"
    "open_and_validate_session_directory h runtime (host_euid h) = Inr ()"
    using runtime_valid_iff [OF assms(2)] directory_valid_iff [OF assms(2)] parts(1,2)
    by (simp_all add: directory_def)
  have made: "make_session_directory h directory = (Inr (), h)"
    using parts(2) assms(2) by (auto simp: make_session_directory_def exact_node_def)
  from parts(3) obtain node where node: "host_nodes h (join_path directory lock_file_name) = Some node"
    "node_kind node = Regular_Node" "node_owner node = host_euid h"
    by (auto simp: exact_node_def)
  then have "open_lock h (join_path directory lock_file_name) = (Inr (), h)"
    using assms(2) by (simp add: open_lock_def)
  then have "fst (lock_session h (join_path directory lock_file_name))
      = Inl (refusal ''another Session is already active for this user'')"
    using node parts(4) assms(2) by (simp add: lock_session_def stat_node_def Let_def)
  then show ?thesis by (simp add: prepare_session_files_def x checks made flip: directory_def)
qed

lemma control_owner_path [simp]:
  "socket_node_path (control_socket_owner (session_paths_of runtime) uid)
     = join_path (join_path runtime session_directory_name) control_socket_name"
  "owner_socket_path (control_socket_owner (session_paths_of runtime) uid)
     = join_path (join_path runtime session_directory_name) control_socket_name"
  "owner_uid (control_socket_owner (session_paths_of runtime) uid) = uid"
  "control_socket (session_paths_of runtime) = join_path (join_path runtime session_directory_name) control_socket_name"
  "xdg_runtime_directory (session_paths_of runtime) = runtime"
  by (simp_all add: control_socket_owner_def session_paths_of_def socket_node_path_def Let_def)

lemma remove_stale_frame:
  assumes "remove_stale o1 h = (Inr u, h1)" "host_faults h = Map.empty"
  shows "host_nodes h1 = (host_nodes h)(socket_node_path o1 := None)" "host_faults h1 = Map.empty"
    "host_locks h1 = host_locks h" "host_euid h1 = host_euid h"
  using assms
  by (auto simp: remove_stale_def stat_node_def unlink_node_def Let_def split: option.splits sum.splits if_splits)

lemma create_socket_own:
  assumes "create_listening_socket o1 h = (Inr u, o2, h1)" "host_faults h = Map.empty"
    and "owner_uid o1 = host_euid h"
  shows "host_nodes h1 = (host_nodes h)(owner_socket_path o1 \<mapsto>
       \<lparr>node_kind = Socket_Node, node_owner = host_euid h, node_mode = mode_owner_rw\<rparr>)"
    "host_faults h1 = Map.empty" "host_locks h1 = host_locks h" "host_euid h1 = host_euid h"
    "owner_socket_path o1 \<in> host_listeners h1" "length (owner_socket_path o1) < sun_path_size"
  using assms
  by (auto simp: create_listening_socket_def Let_def not_le split: if_splits)

text \<open>C19: a session that was set up is found by everyone who may use it: whatever files and whatever
  mask the supervisor started with, the helper then accepts the directory and the lock, a second
  supervisor of the user is refused, and once the control socket listens a client of the user
  passes every check and is connected to it; nothing but the directory, the lock and the socket
  has changed.\<close>

theorem session_files_serve_everyone:
  assumes "hd runtime = CHR ''/''" "runtime \<noteq> []" "host_faults h = Map.empty"
    and "prepare_session_files (session_paths_of runtime) h = (Inr u, h1)"
    and "remove_stale (control_socket_owner (session_paths_of runtime) (host_euid h)) h1 = (Inr v, h2)"
    and "create_listening_socket (control_socket_owner (session_paths_of runtime) (host_euid h)) h2 = (Inr w, own, h3)"
  shows "validate_session (session_paths_of runtime) (host_euid h) (h1\<lparr>host_euid := 0\<rparr>) = Inr ()
    \<and> fst (prepare_session_files (session_paths_of runtime) h3)
        = Inl (refusal ''another Session is already active for this user'')
    \<and> find_session h3 (Some runtime) = Inr (control_socket (session_paths_of runtime))
    \<and> {q. host_nodes h3 q \<noteq> host_nodes h q} \<subseteq> {session_directory (session_paths_of runtime),
         lock_file (session_paths_of runtime), control_socket (session_paths_of runtime)}"
proof -
  define uid where "uid = host_euid h"
  define directory where "directory = join_path runtime session_directory_name"
  define ctl where "ctl = join_path directory control_socket_name"
  note p = prepare_ready [OF assms(4,3)]
  note r = remove_stale_frame [OF assms(5) p(2)]
  have euid: "host_euid h2 = uid" using r(4) p(3) by (simp add: uid_def)
  note c = create_socket_own [OF assms(6) r(2)]
  have n3: "host_nodes h3 = (host_nodes h1)(ctl \<mapsto>
       \<lparr>node_kind = Socket_Node, node_owner = uid, node_mode = mode_owner_rw\<rparr>)"
    using c(1) r(1) euid by (simp add: uid_def ctl_def directory_def)
  have h3: "host_faults h3 = Map.empty" "host_locks h3 = host_locks h1" "host_euid h3 = uid"
    "ctl \<in> host_listeners h3" "length ctl < sun_path_size"
    using c(2-6) r(3) euid by (simp_all add: uid_def ctl_def directory_def)
  have ready: "ready_session h1 uid runtime" using p(1) by (simp add: uid_def)
  then have "ready_session (h1\<lparr>host_euid := 0\<rparr>) uid runtime"
    by (simp add: ready_session_def private_directory_def exact_node_def Let_def)
  then have helper: "validate_session (session_paths_of runtime) uid (h1\<lparr>host_euid := 0\<rparr>) = Inr ()"
    using p(2) by (intro ready_validate) simp_all
  have ready3: "ready_session h3 uid runtime"
    using ready n3 h3(2) by (intro ready_frame [OF ready]) (simp_all add: ctl_def directory_def)
  then have second: "fst (prepare_session_files (session_paths_of runtime) h3)
      = Inl (refusal ''another Session is already active for this user'')"
    using second_session_refused [of h3 runtime] h3(1,3) by simp
  have checks: "open_and_validate_runtime_directory h3 runtime uid = Inr ()"
    "open_and_validate_session_directory h3 runtime uid = Inr ()"
    using ready3 runtime_valid_iff [OF h3(1)] directory_valid_iff [OF h3(1)]
    by (simp_all add: ready_session_def Let_def)
  have "find_session h3 (Some runtime) = Inr ctl"
    using assms(1,2) h3 n3
    by (simp add: find_session_def make_session_paths_from_environment_def checks validate_control_socket_def
        stat_node_def connect_to_unix_socket_def flip: directory_def ctl_def)
  moreover have "host_nodes h3 q = host_nodes h q" if "q \<notin> {directory, join_path directory lock_file_name, ctl}" for q
    using that p(5) [of q] n3 by (simp add: directory_def)
  ultimately show ?thesis
    using helper second by (auto simp: uid_def ctl_def directory_def session_paths_of_def Let_def)
qed

definition plain_host :: file_host where
  "plain_host =
     \<lparr>host_nodes = [''/r'' \<mapsto> \<lparr>node_kind = Directory_Node, node_owner = 1000, node_mode = 448\<rparr>,
        ''/r/netlaglab/control.sock'' \<mapsto> \<lparr>node_kind = Socket_Node, node_owner = 1000, node_mode = 493\<rparr>],
      host_locks = {}, host_listeners = {}, host_euid = 1000, host_umask = 511, host_faults = Map.empty,
      host_strerror = \<lambda>_. []\<rparr>"

lemmas session_files_defs = prepare_session_files_def open_and_validate_runtime_directory_def
  validate_runtime_directory_def open_and_validate_session_directory_def validate_session_directory_def
  make_session_directory_def lock_session_def open_lock_def open_directory_def stat_node_def
  remove_stale_def unlink_node_def create_listening_socket_def sun_path_size_def masked_def
  session_directory_name_def lock_file_name_def control_socket_name_def join_path_def
  mode_all_def mode_owner_all_def mode_owner_rw_def mode_others_def socket_creation_mask_def eexist_def

theorem session_files_serve_everyone_witness:
  "\<exists>h3. find_session h3 (Some ''/r'') = Inr ''/r/netlaglab/control.sock''
     \<and> fst (prepare_session_files (session_paths_of ''/r'') h3)
         = Inl (refusal ''another Session is already active for this user'')"
proof -
  define own where "own = control_socket_owner (session_paths_of ''/r'') (host_euid plain_host)"
  define h1 where "h1 = snd (prepare_session_files (session_paths_of ''/r'') plain_host)"
  have "prepare_session_files (session_paths_of ''/r'') plain_host = (Inr (), h1)"
    unfolding h1_def by (simp add: session_files_defs plain_host_def Let_def)
  moreover obtain h2 o3 h3 where "remove_stale own h1 = (Inr (), h2)" "create_listening_socket own h2 = (Inr (), o3, h3)"
    unfolding h1_def own_def by (simp add: session_files_defs plain_host_def Let_def control_socket_owner_def
        session_paths_of_def socket_node_path_def)
  moreover have "host_faults plain_host = Map.empty" by (simp add: plain_host_def)
  moreover have "control_socket (session_paths_of ''/r'') = ''/r/netlaglab/control.sock''"
    by (simp add: session_files_defs)
  ultimately show ?thesis
    using session_files_serve_everyone [of "''/r''" plain_host "()" h1 "()" h2 "()" o3 h3]
    unfolding own_def [symmetric] by auto
qed

end
