(* ===== verification/Route_Dump_Laws.thy ===== *)
theory Route_Dump_Laws
  imports Route_Dump
begin

text \<open>
  What the preflight reads from a route dump: two prefixes overlap exactly when they share an
  address, and the decoder finds exactly the dumps with a route into the session subnet, however
  the kernel splits the dump into datagrams.
\<close>

section \<open>Prefixes as sets of addresses\<close>

definition in_prefix :: "ipv4_prefix \<Rightarrow> 32 word \<Rightarrow> bool" where
  "in_prefix p a \<longleftrightarrow>
     drop_bit (32 - unat (prefix_length p)) a = drop_bit (32 - unat (prefix_length p)) (prefix_address p)"

lemma bit_prefix_mask:
  assumes "n \<le> 32"
  shows "bit (prefix_mask n) i \<longleftrightarrow> i < 32 \<and> 32 - unat n \<le> i"
proof -
  have "unat n \<le> 32" using assms by (simp add: word_le_nat_alt)
  have all: "(0xffffffff :: 32 word) = mask 32" by (simp add: mask_eq_exp_minus_1)
  have "unat n = 0 \<longleftrightarrow> n = 0" by (simp add: unat_eq_0)
  then show ?thesis using \<open>unat n \<le> 32\<close>
    unfolding prefix_mask_def all by (auto simp: bit_push_bit_iff bit_mask_iff)
qed

lemma masked_eq_iff:
  assumes "n \<le> 32"
  shows "a AND prefix_mask n = b AND prefix_mask n
    \<longleftrightarrow> drop_bit (32 - unat n) a = drop_bit (32 - unat n) (b :: 32 word)"
proof
  assume l: "a AND prefix_mask n = b AND prefix_mask n"
  show "drop_bit (32 - unat n) a = drop_bit (32 - unat n) b"
  proof (rule bit_eqI)
    fix i
    have "bit (a AND prefix_mask n) (32 - unat n + i) \<longleftrightarrow> bit (b AND prefix_mask n) (32 - unat n + i)"
      using l by simp
    then show "bit (drop_bit (32 - unat n) a) i \<longleftrightarrow> bit (drop_bit (32 - unat n) b) i"
      using assms by (auto simp: bit_and_iff bit_drop_bit_eq bit_prefix_mask dest: bit_imp_le_length)
  qed
next
  assume r: "drop_bit (32 - unat n) a = drop_bit (32 - unat n) b"
  show "a AND prefix_mask n = b AND prefix_mask n"
  proof (rule bit_eqI)
    fix i
    have "bit (drop_bit (32 - unat n) a) (i - (32 - unat n)) \<longleftrightarrow> bit (drop_bit (32 - unat n) b) (i - (32 - unat n))"
      using r by simp
    then show "bit (a AND prefix_mask n) i \<longleftrightarrow> bit (b AND prefix_mask n) i"
      using assms by (auto simp: bit_and_iff bit_drop_bit_eq bit_prefix_mask)
  qed
qed

lemma drop_bit_coarser:
  "drop_bit k a = drop_bit k b \<Longrightarrow> k \<le> m \<Longrightarrow> drop_bit m a = drop_bit m (b :: 32 word)"
  by (metis drop_bit_drop_bit le_add_diff_inverse2)

text \<open>C34: two prefixes overlap exactly when both are at most 32 bits long and some address lies in
  both.\<close>

theorem prefixes_overlap_shared_address:
  "prefixes_overlap l r \<longleftrightarrow>
     prefix_length l \<le> 32 \<and> prefix_length r \<le> 32 \<and> (\<exists>a. in_prefix l a \<and> in_prefix r a)"
proof (cases "prefix_length l \<le> 32 \<and> prefix_length r \<le> 32")
  case True
  define n where "n = min (prefix_length l) (prefix_length r)"
  have n: "n \<le> 32" "unat n \<le> unat (prefix_length l)" "unat n \<le> unat (prefix_length r)"
    using True by (auto simp: n_def min_def word_le_nat_alt)
  have "prefixes_overlap l r \<longleftrightarrow>
      drop_bit (32 - unat n) (prefix_address l) = drop_bit (32 - unat n) (prefix_address r)"
    using True masked_eq_iff [OF n(1)] by (auto simp: prefixes_overlap_def Let_def simp flip: n_def)
  also have "\<dots> \<longleftrightarrow> (\<exists>a. in_prefix l a \<and> in_prefix r a)"
  proof
    assume e: "drop_bit (32 - unat n) (prefix_address l) = drop_bit (32 - unat n) (prefix_address r)"
    show "\<exists>a. in_prefix l a \<and> in_prefix r a"
    proof (cases "n = prefix_length l")
      case True
      with e show ?thesis by (intro exI [of _ "prefix_address r"]) (simp add: in_prefix_def)
    next
      case False
      then have "n = prefix_length r" by (auto simp: n_def min_def split: if_splits)
      with e show ?thesis by (intro exI [of _ "prefix_address l"]) (simp add: in_prefix_def)
    qed
  next
    assume "\<exists>a. in_prefix l a \<and> in_prefix r a"
    then obtain a where "in_prefix l a" "in_prefix r a" by blast
    then have "drop_bit (32 - unat n) a = drop_bit (32 - unat n) (prefix_address l)"
      "drop_bit (32 - unat n) a = drop_bit (32 - unat n) (prefix_address r)"
      using n(2,3) by (auto simp: in_prefix_def elim!: drop_bit_coarser)
    then show "drop_bit (32 - unat n) (prefix_address l) = drop_bit (32 - unat n) (prefix_address r)" by simp
  qed
  finally show ?thesis using True by simp
qed (auto simp: prefixes_overlap_def not_le)

section \<open>Dumps as the kernel writes them\<close>

text \<open>A route: family and destination length, the other ten bytes of its \<open>rtmsg\<close>, attributes.\<close>

record kernel_route =
  route_family :: nat
  route_dst_len :: nat
  route_rest :: bytes
  route_attributes :: "(nat \<times> bytes) list"

definition payloads :: "nat \<Rightarrow> (nat \<times> bytes) list \<Rightarrow> bytes list" where
  "payloads ty as = map snd (filter (\<lambda>a. fst a = ty) as)"

lemma payloads_simps [simp]:
  "payloads ty [] = []"
  "payloads ty (a # as) = (if fst a = ty then snd a # payloads ty as else payloads ty as)"
  by (simp_all add: payloads_def)

definition route_bytes :: "kernel_route \<Rightarrow> bytes" where
  "route_bytes r =
     [of_nat (route_family r), of_nat (route_dst_len r)] @ route_rest r @ attributes (route_attributes r)"

definition route_message :: "nat \<Rightarrow> nat \<Rightarrow> kernel_route \<Rightarrow> bytes" where
  "route_message sequence port r =
     header_bytes (nlmsghdr_size + length (route_bytes r)) 24 2 sequence port @ route_bytes r"

definition done_message :: "nat \<Rightarrow> nat \<Rightarrow> bytes" where
  "done_message sequence port = header_bytes (nlmsghdr_size + 4) 3 2 sequence port @ [0, 0, 0, 0]"

text \<open>Routes a kernel may send: one destination of four bytes if there is one, at most one table.\<close>

definition route_ok :: "kernel_route \<Rightarrow> bool" where
  "route_ok r \<longleftrightarrow>
     route_family r < 256 \<and> route_dst_len r \<le> 32 \<and> length (route_rest r) = 10
     \<and> list_all attribute_fits (route_attributes r)
     \<and> nlmsghdr_size + length (route_bytes r) < 2 ^ 32
     \<and> length (payloads 1 (route_attributes r)) \<le> 1 \<and> list_all (\<lambda>p. length p = 4) (payloads 1 (route_attributes r))
     \<and> length (payloads 15 (route_attributes r)) \<le> 1 \<and> list_all (\<lambda>p. length p = 4) (payloads 15 (route_attributes r))
     \<and> (payloads 1 (route_attributes r) = [] \<longrightarrow> route_dst_len r = 0)"

definition route_destination :: "kernel_route \<Rightarrow> 32 word" where
  "route_destination r = of_nat (le_value (rev (hd (payloads 1 (route_attributes r)))))"

definition route_collides :: "kernel_route \<Rightarrow> bool" where
  "route_collides r \<longleftrightarrow>
     route_family r = 2 \<and> route_dst_len r \<noteq> 0
     \<and> prefixes_overlap \<lparr>prefix_address = route_destination r, prefix_length = of_nat (route_dst_len r)\<rparr>
         session_subnet"

definition route_payload ::
  "nat \<Rightarrow> bytes \<Rightarrow> nat option \<times> bool \<Rightarrow> route_dump_status + nat option \<times> bool" where
  "route_payload ty payload = (\<lambda>(destination, has_table).
     if ty = 1 then
       (if destination \<noteq> None \<or> length payload \<noteq> 4 then Inl Route_Malformed
        else Inr (Some (le_value payload), has_table))
     else if ty = 15 then
       (if has_table \<or> length payload \<noteq> 4 then Inl Route_Malformed else Inr (destination, True))
     else Inr (destination, has_table))"

lemma route_attribute_payload:
  "holds_at message offset payload
     \<Longrightarrow> route_attribute message ty offset (length payload) s = route_payload ty payload s"
  using copy_object_at [of message offset payload]
  by (auto simp: route_attribute_def route_payload_def split: prod.split)

lemma route_fold:
  assumes "length (payloads 1 as) \<le> (if destination = None then 1 else 0)" "list_all (\<lambda>p. length p = 4) (payloads 1 as)"
    and "length (payloads 15 as) \<le> (if has_table then 0 else 1)" "list_all (\<lambda>p. length p = 4) (payloads 15 as)"
  shows "attribute_fold route_payload as (destination, has_table)
    = Inr (case payloads 1 as of [] \<Rightarrow> destination | p # _ \<Rightarrow> Some (le_value p),
           has_table \<or> payloads 15 as \<noteq> [])"
  using assms
proof (induction as arbitrary: destination has_table)
  case (Cons a as)
  obtain ty p where a: "a = (ty, p)" by (cases a)
  consider "ty = 1" | "ty = 15" | "ty \<noteq> 1" "ty \<noteq> 15" by blast
  then show ?case
  proof cases
    case 1
    with Cons.prems show ?thesis
      using Cons.IH [of "Some (le_value p)" has_table]
      by (simp add: a route_payload_def split: if_splits)
  next
    case 2
    with Cons.prems show ?thesis
      using Cons.IH [of destination True]
      by (simp add: a route_payload_def split: if_splits)
  next
    case 3
    with Cons.prems Cons.IH [of destination has_table] show ?thesis
      by (simp add: a route_payload_def)
  qed
qed simp

lemma inspect_route_message:
  assumes "route_ok r"
  shows "inspect_route (route_message sequence port r) (nlmsghdr_size + length (route_bytes r))
    = (if route_collides r then Route_Collision else Route_Pending)"
proof -
  define as where "as = route_attributes r"
  define front where "front = header_bytes (nlmsghdr_size + length (route_bytes r)) 24 2 sequence port
      @ [of_nat (route_family r), of_nat (route_dst_len r)] @ route_rest r"
  define message where "message = route_message sequence port r"
  have ok: "route_family r < 256" "route_dst_len r \<le> 32" "length (route_rest r) = 10"
      "list_all attribute_fits as" "length (payloads 1 as) \<le> 1" "list_all (\<lambda>p. length p = 4) (payloads 1 as)"
      "length (payloads 15 as) \<le> 1" "list_all (\<lambda>p. length p = 4) (payloads 15 as)"
      "payloads 1 as = [] \<longrightarrow> route_dst_len r = 0"
    using assms by (simp_all add: route_ok_def as_def)
  have m: "message = front @ attributes as"
    by (simp add: message_def route_message_def route_bytes_def front_def as_def)
  have lf: "length front = nlmsghdr_size + 12" using ok(3) by (simp add: front_def)
  have lm: "length message = nlmsghdr_size + length (route_bytes r)"
    by (simp add: message_def route_message_def)
  have "holds_at message nlmsghdr_size [of_nat (route_family r)]"
    by (simp add: message_def route_message_def route_bytes_def holds_at_def)
  from copy_object_at [OF this] have c1: "copy_object 1 message nlmsghdr_size = Some (route_family r)"
    using ok(1) by (simp add: unat_of_nat)
  have "holds_at message (nlmsghdr_size + 1) [of_nat (route_dst_len r)]"
    by (simp add: message_def route_message_def route_bytes_def holds_at_def)
  from copy_object_at [OF this] have c2: "copy_object 1 message (nlmsghdr_size + 1) = Some (route_dst_len r)"
    using ok(2) by (simp add: unat_of_nat)
  have loop: "attribute_loop Route_Malformed (route_attribute message) message (nlmsghdr_size + 12)
      (nlmsghdr_size + length (route_bytes r) - (nlmsghdr_size + 12)) (None, False)
      = attribute_fold route_payload as (None, False)"
    by (rule attribute_loop_fold [OF ok(4) m]) (simp_all add: lf lm route_attribute_payload)
  have fold: "attribute_fold route_payload as (None, False)
      = Inr (case payloads 1 as of [] \<Rightarrow> None | p # _ \<Rightarrow> Some (le_value p), payloads 15 as \<noteq> [])"
    using route_fold [of as None False] ok(5-8) by simp
  have big: "\<not> nlmsghdr_size + length (route_bytes r) < nlmsghdr_size + 12"
    using ok(3) by (simp add: route_bytes_def)
  have dest: "ntohl (le_value p) = route_destination r" if "payloads 1 as = p # ps" for p ps
    using le_bytes_le_value [of p] that ok(6) by (simp add: ntohl_def route_destination_def as_def)
  show ?thesis
    unfolding message_def [symmetric] inspect_route_def c1 c2 loop fold if_not_P [OF big]
    using ok(2,9) by (cases "payloads 1 as") (auto simp: route_collides_def dest)
qed

lemma align4_same: "n mod 4 = 0 \<Longrightarrow> align4 n = n"
  unfolding align4_def by presburger

lemma route_message_aligned:
  assumes "route_ok r" shows "align4 (length (route_message sequence port r)) = length (route_message sequence port r)"
proof (rule align4_same)
  have "length (route_message sequence port r) = 28 + length (attributes (route_attributes r))"
    using assms by (simp add: route_message_def route_bytes_def nlmsghdr_size_def route_ok_def)
  then show "length (route_message sequence port r) mod 4 = 0"
    using length_attributes_mod [of "route_attributes r"] by presburger
qed

lemma dump_loop_route:
  fixes prefix rest :: bytes
  assumes r: "route_ok r" and "sequence < 2 ^ 32" "port < 2 ^ 32"
  defines "bytes \<equiv> prefix @ route_message sequence port r @ rest"
  shows "dump_loop sequence port bytes (length prefix)
    = (if route_collides r then (Route_Collision, None)
       else dump_loop sequence port bytes (length (prefix @ route_message sequence port r)))"
proof -
  define len where "len = nlmsghdr_size + length (route_bytes r)"
  have lm: "length (route_message sequence port r) = len" by (simp add: route_message_def len_def)
  have al: "align4 len = len" using route_message_aligned [OF r, of sequence port] by (simp add: lm)
  have "len < 2 ^ 32" using r by (simp add: route_ok_def len_def)
  then have h: "copy_header bytes (length prefix) =
      Some \<lparr>nlmsg_len = len, nlmsg_type = 24, nlmsg_flags = 2, nlmsg_seq = sequence, nlmsg_pid = port\<rparr>"
    using copy_header_bytes [of len 24 2 sequence port prefix "route_bytes r @ rest"] assms(2,3)
    by (simp add: bytes_def route_message_def len_def)
  have t: "take len (drop (length prefix) bytes) = route_message sequence port r"
    by (simp add: bytes_def lm)
  have "length bytes = length prefix + len + length rest" by (simp add: bytes_def lm)
  moreover have "nlmsghdr_size \<le> len" "0 < len" by (simp_all add: len_def nlmsghdr_size_def)
  ultimately show ?thesis
    using inspect_route_message [OF r, of sequence port]
    by (subst dump_loop.simps) (simp add: h t al lm flip: len_def)
qed

lemma dump_loop_routes:
  assumes "list_all route_ok rs" "sequence < 2 ^ 32" "port < 2 ^ 32"
  shows "dump_loop sequence port (prefix @ concat (map (route_message sequence port) rs)) (length prefix)
    = (if list_ex route_collides rs then Route_Collision else Route_Pending, None)"
  using assms(1)
proof (induction rs arbitrary: prefix)
  case Nil
  then show ?case by (simp add: dump_loop.simps)
next
  case (Cons r rs)
  have "dump_loop sequence port (prefix @ concat (map (route_message sequence port) (r # rs))) (length prefix)
    = (if route_collides r then (Route_Collision, None)
       else dump_loop sequence port ((prefix @ route_message sequence port r) @ concat (map (route_message sequence port) rs))
         (length (prefix @ route_message sequence port r)))"
    using dump_loop_route [of r sequence port prefix "concat (map (route_message sequence port) rs)"]
      Cons.prems assms(2,3) by simp
  with Cons.IH [of "prefix @ route_message sequence port r"] Cons.prems show ?case by simp
qed

lemma dump_loop_done:
  assumes "sequence < 2 ^ 32" "port < 2 ^ 32"
  shows "dump_loop sequence port (done_message sequence port) 0 = (Route_Complete, None)"
proof -
  have h: "copy_header (done_message sequence port) 0 =
      Some \<lparr>nlmsg_len = nlmsghdr_size + 4, nlmsg_type = 3, nlmsg_flags = 2, nlmsg_seq = sequence, nlmsg_pid = port\<rparr>"
    using copy_header_bytes [of "nlmsghdr_size + 4" 3 2 sequence port "[]" "[0, 0, 0, 0]"] assms
    by (simp add: done_message_def nlmsghdr_size_def)
  have "length (done_message sequence port) = 20" by (simp add: done_message_def nlmsghdr_size_def)
  moreover have "take 4 (drop 16 (done_message sequence port)) = [0, 0, 0, 0]"
    by (simp add: done_message_def header_bytes_def)
  then have "copy_object 4 (take 20 (done_message sequence port)) 16 = Some 0"
    by (simp add: copy_object_def calculation)
  moreover have "align4 20 = 20" by (simp add: align4_def)
  ultimately show ?thesis
    by (subst dump_loop.simps) (simp add: h nlmsghdr_size_def signed32_def)
qed

lemma dump_consume_settled: "dump_status d \<noteq> Route_Pending \<Longrightarrow> foldl dump_consume d ds = d"
  by (induction ds) (simp_all add: dump_consume_def)

text \<open>
  C33: the preflight decoder finds a collision exactly when the dump has an IPv4 route, other than
  the default route, that overlaps the session subnet, however the kernel groups the routes into
  datagrams; otherwise it reports the dump complete at its end.
\<close>

theorem route_dump_finds_collisions:
  assumes "list_all (list_all route_ok) chunks" "[] \<notin> set chunks" "sequence < 2 ^ 32" "port < 2 ^ 32"
  shows "dump_status (foldl dump_consume (new_route_dump_decoder sequence port)
      (map (\<lambda>rs. concat (map (route_message sequence port) rs)) chunks @ [done_message sequence port]))
    = (if list_ex route_collides (concat chunks) then Route_Collision else Route_Complete)"
  using assms(1,2)
proof (induction chunks)
  case Nil
  have "done_message sequence port \<noteq> []" by (simp add: done_message_def)
  then show ?case
    using dump_loop_done [OF assms(3,4)] by (simp add: dump_consume_def new_route_dump_decoder_def)
next
  case (Cons rs chunks)
  define d where "d = new_route_dump_decoder sequence port"
  have "concat (map (route_message sequence port) rs) \<noteq> []"
    using Cons.prems by (cases rs) (simp_all add: route_message_def route_bytes_def)
  then have c: "dump_consume d (concat (map (route_message sequence port) rs))
      = (if list_ex route_collides rs then d\<lparr>dump_status := Route_Collision\<rparr> else d)"
    using dump_loop_routes [of rs sequence port "[]"] Cons.prems assms(3,4)
    by (simp add: dump_consume_def d_def new_route_dump_decoder_def)
  show ?case
  proof (cases "list_ex route_collides rs")
    case True
    then show ?thesis
      using c dump_consume_settled [of "d\<lparr>dump_status := Route_Collision\<rparr>" "map (\<lambda>rs. concat (map (route_message sequence port) rs)) chunks @ [done_message sequence port]"]
      by (simp add: d_def [symmetric])
  next
    case False
    then show ?thesis using c Cons by (simp add: d_def [symmetric])
  qed
qed

text \<open>A dump with the default route, a foreign network and a route to 10.200.0.0/16.\<close>

definition sample_routes :: "kernel_route list" where
  "sample_routes =
     map (\<lambda>(n, d). \<lparr>route_family = 2, route_dst_len = n, route_rest = replicate 10 0,
        route_attributes = (15, [254, 0, 0, 0]) # d\<rparr>)
       [(0, []), (24, [(1, [192, 168, 1, 0])]), (16, [(1, [10, 200, 0, 0])])]"

theorem route_dump_finds_collisions_witness:
  "dump_status (foldl dump_consume (new_route_dump_decoder 7 9)
      (map (\<lambda>rs. concat (map (route_message 7 9) rs)) [take 2 sample_routes, drop 2 sample_routes]
        @ [done_message 7 9])) = Route_Collision"
proof -
  have "list_all (list_all route_ok) [take 2 sample_routes, drop 2 sample_routes]"
    by (simp add: sample_routes_def route_ok_def attribute_fits_def rtattr_size_def route_bytes_def
        attribute_def nlmsghdr_size_def align4_def)
  moreover have "[] \<notin> set [take 2 sample_routes, drop 2 sample_routes]" by (simp add: sample_routes_def)
  moreover have "list_ex route_collides (concat [take 2 sample_routes, drop 2 sample_routes])"
    by (simp add: sample_routes_def route_collides_def route_destination_def prefixes_overlap_def
        session_subnet_def prefix_mask_def)
  ultimately show ?thesis
    using route_dump_finds_collisions [of "[take 2 sample_routes, drop 2 sample_routes]" 7 9] by simp
qed

end
