(* ===== verification/Linux_Preflight_Laws.thy ===== *)
theory Linux_Preflight_Laws
  imports Linux_Preflight Session_Files_Laws Route_Dump_Laws
begin

text \<open>
  What the host promises the preflight and the user: one holder of the lock, the exact length of a
  mask, one rule for the timeouts of all polls, and consent that is the word of the user.
\<close>

section \<open>The lock of the host\<close>

lemma host_paths [simp]: "host_lock_path \<noteq> host_runtime_directory"
  by (simp add: host_lock_path_def host_runtime_directory_def host_lock_name_def join_path_def)

definition other_nodes_same :: "file_host \<Rightarrow> file_host \<Rightarrow> bool" where
  "other_nodes_same h h1 \<longleftrightarrow>
     (\<forall>q. q \<noteq> host_runtime_directory \<longrightarrow> q \<noteq> host_lock_path \<longrightarrow> host_nodes h1 q = host_nodes h q)"

lemma open_host_directory_frame:
  assumes "open_host_directory h = (ok, h1)"
  shows "host_locks h1 = host_locks h" "host_faults h1 = host_faults h" "host_euid h1 = host_euid h"
    "\<And>q. q \<noteq> host_runtime_directory \<Longrightarrow> host_nodes h1 q = host_nodes h q"
  using assms
  by (auto simp: open_host_directory_def make_host_directory_def Let_def add_node_def change_mode_def
      split: sum.splits if_splits prod.splits)

lemma open_host_directory_checked:
  assumes "open_host_directory h = (True, h1)"
  shows "exact_node h1 Directory_Node 0 mode_directory host_runtime_directory"
  using assms
  by (auto simp: open_host_directory_def Let_def stat_node_def call_result_def exact_node_def has_mode_def
      split: sum.splits if_splits prod.splits option.splits)

lemma open_host_lock_frame:
  assumes "open_host_lock h = (r, h1)"
  shows "host_locks h1 = host_locks h" "host_faults h1 = host_faults h"
    "\<And>q. q \<noteq> host_lock_path \<Longrightarrow> host_nodes h1 q = host_nodes h q"
  using assms by (auto simp: open_host_lock_def add_node_def split: sum.splits if_splits)

lemma check_host_lock_cases:
  assumes "check_host_lock h = (r, h1)"
  shows "host_nodes h1 = host_nodes h" "host_faults h1 = host_faults h"
    "r = Inr () \<longleftrightarrow> host_lock_path \<notin> host_locks h \<and> host_faults h Call_Lock = None
       \<and> host_faults h Call_Stat_Lock = None \<and> exact_node h Regular_Node 0 mode_owner_rw host_lock_path"
    "host_locks h1 = (if r = Inr () then insert host_lock_path (host_locks h) else host_locks h)"
  using assms
  by (auto simp: check_host_lock_def stat_node_def call_result_def exact_node_def has_mode_def
      split: sum.splits if_splits option.splits)


definition directory_calls_work :: "file_host \<Rightarrow> bool" where
  "directory_calls_work h \<longleftrightarrow>
     host_faults h Call_Make_Directory \<in> {None, Some eexist} \<and> host_faults h Call_Open_Directory = None
     \<and> host_faults h Call_Stat_Directory = None"

lemma open_host_directory_calls:
  "open_host_directory h = (True, h1) \<Longrightarrow> directory_calls_work h"
  by (auto simp: open_host_directory_def make_host_directory_def open_directory_def stat_node_def call_result_def
      directory_calls_work_def Let_def split: sum.splits if_splits prod.splits option.splits)

lemma open_host_directory_again:
  assumes "directory_calls_work h" "exact_node h Directory_Node 0 mode_directory host_runtime_directory"
  shows "open_host_directory h = (True, h)"
  using assms
  by (auto simp: open_host_directory_def make_host_directory_def open_directory_def stat_node_def call_result_def
      directory_calls_work_def exact_node_def has_mode_def eexist_def)

lemma open_host_lock_calls:
  "open_host_lock h = (Inr created, h1) \<Longrightarrow> host_faults h Call_Open_Lock = None"
  by (auto simp: open_host_lock_def call_result_def split: sum.splits if_splits option.splits)

lemma open_host_lock_again:
  assumes "host_faults h Call_Open_Lock = None" "exact_node h Regular_Node 0 mode_owner_rw host_lock_path"
  shows "open_host_lock h = (Inr False, h)"
  using assms by (auto simp: open_host_lock_def call_result_def exact_node_def)

lemma acquire_split:
  assumes "acquire_host_lock h = (r, h1)"
  obtains (early) c where "r = Inl c" "host_locks h1 = host_locks h" "other_nodes_same h h1"
  | (checked) h2 where "check_host_lock h2 = (r, h1)" "host_locks h2 = host_locks h" "other_nodes_same h h2"
      "host_faults h2 = host_faults h" "directory_calls_work h" "host_faults h Call_Open_Lock = None"
      "exact_node h2 Directory_Node 0 mode_directory host_runtime_directory"
proof (cases "open_host_directory h")
  case (Pair ok hd)
  note frame = open_host_directory_frame [OF Pair]
  show thesis
  proof (cases ok)
    case False
    with assms Pair frame show thesis by (intro early) (auto simp: acquire_host_lock_def other_nodes_same_def)
  next
    case True
    obtain x ho where lock: "open_host_lock hd = (x, ho)" by (cases "open_host_lock hd")
    note frame1 = open_host_lock_frame [OF lock]
    have same: "other_nodes_same h ho" "host_locks ho = host_locks h" "host_faults ho = host_faults h"
      using frame frame1 by (simp_all add: other_nodes_same_def)
    show thesis
    proof (cases x)
      case (Inl e)
      with assms Pair True lock same show thesis by (intro early) (auto simp: acquire_host_lock_def)
    next
      case (Inr created)
      define h2 where "h2 = (if created then change_mode host_lock_path mode_owner_rw ho else ho)"
      have h2: "host_locks h2 = host_locks h" "other_nodes_same h h2" "host_faults h2 = host_faults h"
        "host_nodes h2 host_runtime_directory = host_nodes hd host_runtime_directory"
        using same frame1(3) [of host_runtime_directory] host_paths [symmetric]
        by (auto simp: h2_def change_mode_def other_nodes_same_def)
      have calls: "directory_calls_work h" "host_faults h Call_Open_Lock = None"
        using open_host_directory_calls open_host_lock_calls [of hd] Pair True lock Inr frame(2) by auto
      have dir: "exact_node h2 Directory_Node 0 mode_directory host_runtime_directory"
        using open_host_directory_checked Pair True h2(4) by (simp add: exact_node_def)
      show thesis
      proof (cases "created \<and> host_faults h Call_Chmod_Lock \<noteq> None")
        case True
        then obtain e where created "host_faults ho Call_Chmod_Lock = Some e" using same(3) by auto
        with assms Pair \<open>ok\<close> lock Inr have "r = Inl Cause_System_Failure" "h1 = ho"
          by (simp_all add: acquire_host_lock_def call_result_def)
        with same show thesis by (intro early) simp_all
      next
        case False
        then have "created \<Longrightarrow> host_faults ho Call_Chmod_Lock = None" using same(3) by auto
        with assms Pair \<open>ok\<close> lock Inr have "check_host_lock h2 = (r, h1)"
          by (cases created) (simp_all add: acquire_host_lock_def call_result_def h2_def)
        with h2(1-3) calls dir show thesis by (intro checked)
      qed
    qed
  qed
qed

text \<open>
  C30: The lock of the host has one holder: a preflight that gets it has found it free and leaves the
  directory and the file with their owner root and their modes, and any later one gets a collision; one
  that fails takes no lock; nothing else on the disk is touched, whatever system call fails.
\<close>

theorem host_lock_excludes:
  assumes "acquire_host_lock h = (r, h1)"
  shows "other_nodes_same h h1
    \<and> (case r of
         Inl _ \<Rightarrow> host_locks h1 = host_locks h
       | Inr _ \<Rightarrow>
           host_lock_path \<notin> host_locks h \<and> host_locks h1 = insert host_lock_path (host_locks h)
           \<and> exact_node h1 Directory_Node 0 mode_directory host_runtime_directory
           \<and> exact_node h1 Regular_Node 0 mode_owner_rw host_lock_path
           \<and> acquire_host_lock h1 = (Inl Cause_Collision, h1))"
  using assms
proof (cases rule: acquire_split)
  case (early c)
  then show ?thesis by simp
next
  case (checked h2)
  note verdict = check_host_lock_cases [OF checked(1)]
  have same: "other_nodes_same h h1" using checked(3) verdict(1) by (simp add: other_nodes_same_def)
  show ?thesis
  proof (cases r)
    case (Inl c)
    with verdict(4) checked(2) same show ?thesis by simp
  next
    case (Inr u)
    then have held: "host_lock_path \<notin> host_locks h2" "host_faults h2 Call_Lock = None"
        "host_faults h2 Call_Stat_Lock = None" "exact_node h2 Regular_Node 0 mode_owner_rw host_lock_path"
        "host_locks h1 = insert host_lock_path (host_locks h2)"
      using verdict(3,4) by simp_all
    have exact: "exact_node h1 kind uid mode path = exact_node h2 kind uid mode path" for kind uid mode path
      by (simp add: exact_node_def verdict(1))
    have "open_host_directory h1 = (True, h1)"
      using checked(4,5,7) verdict(2) by (intro open_host_directory_again) (simp_all add: exact directory_calls_work_def)
    moreover have "open_host_lock h1 = (Inr False, h1)"
      using checked(4,6) verdict(2) held(4) by (intro open_host_lock_again) (simp_all add: exact)
    moreover have "check_host_lock h1 = (Inl Cause_Collision, h1)"
      using held verdict(1,2)
      by (auto simp: check_host_lock_def stat_node_def call_result_def exact_node_def has_mode_def)
    ultimately have "acquire_host_lock h1 = (Inl Cause_Collision, h1)"
      by (simp add: acquire_host_lock_def)
    with same Inr held checked(2,7) show ?thesis by (simp add: exact)
  qed
qed

definition demo_empty_host :: file_host where
  "demo_empty_host =
     \<lparr>host_nodes = Map.empty, host_locks = {}, host_listeners = {}, host_euid = 0, host_umask = 63,
      host_faults = Map.empty, host_strerror = \<lambda>_. []\<rparr>"

lemma demo_host_lock:
  "fst (acquire_host_lock demo_empty_host) = Inr ()"
  by (simp add: acquire_host_lock_def open_host_directory_def make_host_directory_def open_directory_def stat_node_def
      call_result_def add_node_def change_mode_def open_host_lock_def check_host_lock_def demo_empty_host_def has_mode_def
      mode_directory_def mode_all_def mode_owner_rw_def Let_def host_paths [symmetric])

theorem host_lock_excludes_witness:
  "fst (acquire_host_lock demo_empty_host) = Inr ()
   \<and> fst (acquire_host_lock (snd (acquire_host_lock demo_empty_host))) = Inl Cause_Collision"
  using host_lock_excludes [OF prod.collapse [symmetric], of demo_empty_host] demo_host_lock by simp


section \<open>The word of the user\<close>

text \<open>A terminal that keeps what it has shown and what was read from it, in order.\<close>

definition remember :: "('w \<Rightarrow> 'a \<times> 'w) \<Rightarrow> 'w \<times> string \<times> string \<Rightarrow> 'a \<times> 'w \<times> string \<times> string" where
  "remember call = (\<lambda>(w, shown, typed). case call w of (a, w1) \<Rightarrow> (a, w1, shown, typed))"

definition watched :: "'w terminal_world \<Rightarrow> ('w \<times> string \<times> string) terminal_world" where
  "watched tw =
     \<lparr>open_terminal = remember (open_terminal tw),
      write_terminal = (\<lambda>t (w, shown, typed). case write_terminal tw t w of (r, w1) \<Rightarrow>
        (r, w1, shown @ (case r of Inl _ \<Rightarrow> [] | Inr n \<Rightarrow> take n t), typed)),
      terminal_clock = remember (terminal_clock tw),
      poll_terminal = (\<lambda>t. remember (poll_terminal tw t)),
      read_terminal = (\<lambda>n (w, shown, typed). case read_terminal tw n w of (r, w1) \<Rightarrow>
        (r, w1, shown, typed @ (case r of Inl _ \<Rightarrow> [] | Inr d \<Rightarrow> d)))\<rparr>"

lemma watched_calls [simp]:
  "snd (snd (open_terminal (watched tw) w)) = snd w"
  "snd (snd (terminal_clock (watched tw) w)) = snd w"
  "snd (snd (poll_terminal (watched tw) t w)) = snd w"
  by (auto simp: watched_def remember_def case_prod_beta)

lemma prompt_shown:
  assumes "iterate (prompt_pass (watched tw)) (question, w, [], []) = Some (True, w1, shown, typed)"
  shows "shown = question \<and> typed = []"
proof -
  let ?I = "\<lambda>(t, w, shown, typed). shown @ t = question \<and> typed = []"
  let ?Q = "\<lambda>(ok, w, shown, typed). ok \<longrightarrow> shown = question \<and> typed = []"
  have "?Q (True, w1, shown, typed)"
  proof (rule iterate_rule [where I = ?I, OF assms])
    show "?I t" if "?I s" "prompt_pass (watched tw) s = Inl t" for s t
      using that by (auto simp: prompt_pass_def watched_def split: if_splits prod.splits sum.splits)
    show "?Q r" if "?I s" "prompt_pass (watched tw) s = Inr r" for s r
      using that by (auto simp: prompt_pass_def watched_def split: if_splits prod.splits sum.splits)
  qed simp
  then show ?thesis by simp
qed

lemma consent_typed:
  assumes "iterate (consent_pass (watched tw) deadline) ([], w, shown0, []) = Some (Consent_Granted, w1, shown, typed)"
  shows "shown = shown0 \<and> typed = ''y'' @ [newline]"
proof -
  let ?I = "\<lambda>(response, w, shown, typed). typed = response \<and> shown = shown0"
  let ?Q = "\<lambda>(c, w, shown, typed). c = Consent_Granted \<longrightarrow> shown = shown0 \<and> typed = ''y'' @ [newline]"
  have "?Q (Consent_Granted, w1, shown, typed)"
  proof (rule iterate_rule [where I = ?I, OF assms])
    show "?I t" if "?I s" "consent_pass (watched tw) deadline s = Inl t" for s t
      using that
      by (auto simp: consent_pass_def watched_def remember_def split: if_splits prod.splits sum.splits netlink_poll.splits)
    show "?Q r" if "?I s" "consent_pass (watched tw) deadline s = Inr r" for s r
      using that
      by (auto simp: consent_pass_def consent_of_response_def watched_def remember_def
          split: if_splits prod.splits sum.splits netlink_poll.splits)
  qed simp
  then show ?thesis by simp
qed

text \<open>
  C29: The firewall exception counts as granted only when the whole question, with its rule, was shown at
  the terminal and all that was read there is a line with the single letter y, whatever terminal, clock
  and interrupts do.
\<close>

theorem consent_is_the_users_word:
  assumes "request_terminal_consent (watched tw) rule deadline (w, [], []) = Some (Consent_Granted, w1, shown, typed)"
  shows "shown = consent_prompt rule \<and> typed = ''y'' @ [newline]"
proof -
  obtain opened w0 where call: "open_terminal tw w = (opened, w0)" by (cases "open_terminal tw w")
  then have "open_terminal (watched tw) (w, [], []) = (opened, w0, [], [])"
    by (simp add: watched_def remember_def)
  with assms have run: "opened \<and> Option.bind (iterate (prompt_pass (watched tw)) (consent_prompt rule, w0, [], []))
      (\<lambda>(written, w2). if \<not> written then Some (Consent_Io_Failure, w2)
        else iterate (consent_pass (watched tw) deadline) ([], w2)) = Some (Consent_Granted, w1, shown, typed)"
    by (cases opened) (simp_all add: request_terminal_consent_def)
  then obtain written w2 shown2 typed2 where
    asked: "iterate (prompt_pass (watched tw)) (consent_prompt rule, w0, [], []) = Some (written, w2, shown2, typed2)"
    by (cases "iterate (prompt_pass (watched tw)) (consent_prompt rule, w0, [], [])") auto
  with run have written and
    answered: "iterate (consent_pass (watched tw) deadline) ([], w2, shown2, typed2) = Some (Consent_Granted, w1, shown, typed)"
    by (cases written; simp)+
  with asked prompt_shown have "shown2 = consent_prompt rule \<and> typed2 = []" by metis
  with answered consent_typed show ?thesis by metis
qed

text \<open>A terminal that takes any text at once and answers yes.\<close>

definition demo_terminal :: "unit terminal_world" where
  "demo_terminal =
     \<lparr>open_terminal = \<lambda>w. (True, w), write_terminal = \<lambda>t w. (Inr (length t), w), terminal_clock = \<lambda>w. (0, w),
      poll_terminal = \<lambda>_ w. (Netlink_Poll_Events False True, w),
      read_terminal = \<lambda>_ w. (Inr (''y'' @ [newline]), w)\<rparr>"

lemma demo_asked:
  "request_terminal_consent (watched demo_terminal) ''r'' 5 ((), [], [])
   = Some (Consent_Granted, (), consent_prompt ''r'', ''y'' @ [newline])"
proof -
  have "iterate (prompt_pass (watched demo_terminal)) (consent_prompt ''r'', (), [], [])
      = iterate (prompt_pass (watched demo_terminal)) ([], (), consent_prompt ''r'', [])"
    by (rule iterate_unfold) (simp add: prompt_pass_def watched_def demo_terminal_def consent_prompt_def)
  also have "\<dots> = Some (True, (), consent_prompt ''r'', [])"
    by (rule iterate_unfold) (simp add: prompt_pass_def)
  finally have asked: "iterate (prompt_pass (watched demo_terminal)) (consent_prompt ''r'', (), [], [])
      = Some (True, (), consent_prompt ''r'', [])" .
  have "iterate (consent_pass (watched demo_terminal) 5) ([], (), consent_prompt ''r'', [])
      = Some (Consent_Granted, (), consent_prompt ''r'', ''y'' @ [newline])"
    by (rule iterate_unfold)
      (simp add: consent_pass_def watched_def remember_def demo_terminal_def consent_of_response_def consent_size_def)
  moreover have "open_terminal (watched demo_terminal) ((), [], []) = (True, (), [], [])"
    by (simp add: watched_def remember_def demo_terminal_def)
  ultimately show ?thesis using asked by (simp add: request_terminal_consent_def)
qed

theorem consent_is_the_users_word_witness:
  "\<exists>shown typed. request_terminal_consent (watched demo_terminal) ''r'' 5 ((), [], [])
       = Some (Consent_Granted, (), shown, typed)
     \<and> shown = consent_prompt ''r'' \<and> typed = ''y'' @ [newline]"
  using demo_asked consent_is_the_users_word [OF demo_asked] by blast

section \<open>One rule for the timeouts of all polls\<close>

lemma ceiling_division:
  fixes r d :: int
  assumes "0 < d"
  shows "- ((- r) div d) = r div d + (if r div d * d < r then 1 else 0)"
proof -
  have "r = r div d * d + r mod d" "0 \<le> r mod d" using assms by simp_all
  then have "r mod d = 0 \<longleftrightarrow> \<not> r div d * d < r" by linarith
  then show ?thesis using assms by (simp add: zdiv_zminus1_eq_if)
qed

lemma preflight_timeout_eq: "preflight_timeout deadline now = runner_timeout deadline now"
proof -
  have "now - deadline = - (deadline - now)" by simp
  then show ?thesis
    by (simp only: preflight_timeout_def runner_timeout_def Let_def ceiling_division min.commute)
qed


section \<open>The length of a mask\<close>

lemma bit_test: "m AND 2 ^ n = 0 \<longleftrightarrow> \<not> bit m n" for m :: "32 word"
  by (simp add: bit_iff_and_push_bit_not_eq_0)

lemma mask_scan_rest: "mask_scan m n True len = Some k \<longleftrightarrow> k = len \<and> (\<forall>i<n. \<not> bit m i)"
  by (induction n) (auto simp: bit_test less_Suc_eq)

lemma mask_scan_iff:
  "mask_scan m n False len = Some k \<longleftrightarrow> (\<exists>j\<le>n. k = len + of_nat j \<and> (\<forall>i<n. bit m i \<longleftrightarrow> n - j \<le> i))"
proof (induction n arbitrary: len)
  case 0
  then show ?case by auto
next
  case (Suc n)
  show ?case
  proof (cases "bit m n")
    case True
    have "(\<exists>j\<le>n. k = len + 1 + of_nat j \<and> (\<forall>i<n. bit m i \<longleftrightarrow> n - j \<le> i))
        \<longleftrightarrow> (\<exists>j\<le>Suc n. k = len + of_nat j \<and> (\<forall>i<Suc n. bit m i \<longleftrightarrow> Suc n - j \<le> i))" (is "?l = ?r")
    proof
      assume ?l
      then obtain j where "j \<le> n" "k = len + 1 + of_nat j" "\<forall>i<n. bit m i \<longleftrightarrow> n - j \<le> i" by blast
      then show ?r using True by (intro exI [of _ "Suc j"]) (auto simp: less_Suc_eq add.assoc)
    next
      assume ?r
      then obtain j where j: "j \<le> Suc n" "k = len + of_nat j" "\<forall>i<Suc n. bit m i \<longleftrightarrow> Suc n - j \<le> i" by blast
      with True have "j \<noteq> 0" by (metis diff_zero lessI not_less_eq_eq order_refl)
      then obtain j1 where "j = Suc j1" by (cases j) auto
      with j show ?l by (intro exI [of _ j1]) (auto simp: add.assoc)
    qed
    with True Suc.IH show ?thesis by (simp add: bit_test)
  next
    case False
    have "(k = len \<and> (\<forall>i<n. \<not> bit m i))
        \<longleftrightarrow> (\<exists>j\<le>Suc n. k = len + of_nat j \<and> (\<forall>i<Suc n. bit m i \<longleftrightarrow> Suc n - j \<le> i))" (is "?l = ?r")
    proof
      assume ?l
      then show ?r using False by (intro exI [of _ 0]) (auto simp: less_Suc_eq)
    next
      assume ?r
      then obtain j where j: "j \<le> Suc n" "k = len + of_nat j" "\<forall>i<Suc n. bit m i \<longleftrightarrow> Suc n - j \<le> i" by blast
      with False have "\<not> Suc n - j \<le> n" by blast
      then have "j = 0" by simp
      with j show ?l by auto
    qed
    with False show ?thesis by (simp add: bit_test mask_scan_rest)
  qed
qed

text \<open>A mask has a length exactly when it is the mask of a prefix, and then it is the length of this prefix.\<close>

lemma length_of_mask_iff: "length_of_mask m = Some l \<longleftrightarrow> l \<le> 32 \<and> m = prefix_mask l"
proof -
  have small: "unat (of_nat j :: 8 word) = j" "(of_nat j :: 8 word) \<le> 32" if "j \<le> 32" for j
    using that by (simp_all add: unat_of_nat word_le_nat_alt)
  have mask: "m = prefix_mask l \<longleftrightarrow> (\<forall>i<32. bit m i \<longleftrightarrow> 32 - unat l \<le> i)" if "l \<le> 32"
    using that by (auto simp: bit_eq_iff bit_prefix_mask dest: bit_imp_le_length)
  show ?thesis
  proof
    assume "length_of_mask m = Some l"
    then obtain j where "j \<le> 32" "l = of_nat j" "\<forall>i<32. bit m i \<longleftrightarrow> 32 - j \<le> i"
      by (auto simp: length_of_mask_def mask_scan_iff)
    with small mask show "l \<le> 32 \<and> m = prefix_mask l" by simp
  next
    assume l: "l \<le> 32 \<and> m = prefix_mask l"
    then have "unat l \<le> 32" by (simp add: word_le_nat_alt)
    moreover have "l = of_nat (unat l)" by simp
    ultimately show "length_of_mask m = Some l"
      using l mask unfolding length_of_mask_def mask_scan_iff by (metis add_0)
  qed
qed

text \<open>The preflight never sees a prefix longer than an address.\<close>

lemma queried_prefixes_short:
  "prefixes_of_interfaces entries = Some ps \<Longrightarrow> p \<in> set ps \<Longrightarrow> prefix_length p \<le> 32"
  by (induction entries arbitrary: ps rule: prefixes_of_interfaces.induct)
    (auto simp: length_of_mask_iff split: interface_address.splits option.splits)

end
