(* ===== verification/Standard_Descriptors.thy ===== *)
theory Standard_Descriptors
  imports Prelude "HOL-Library.Multiset"
begin

text \<open>
  The transfer of the standard descriptors over the socket of the helper: \<open>send_standard_descriptors\<close>
  and \<open>receive_standard_descriptors\<close> of \<open>src/socket_io.cpp\<close>. A message is a marker and the control
  headers that came with it; which descriptors the receiver closes is part of its result.
\<close>

unbundle bit_operations_syntax

section \<open>The sender\<close>

datatype descriptor_state = Descriptor_Closed | Descriptor_Terminal | Descriptor_Other

text \<open>The loop over the descriptors from \<open>index\<close> on: the marker and what is transferred.\<close>

fun mark_descriptors ::
  "(int \<Rightarrow> descriptor_state) \<Rightarrow> nat \<Rightarrow> int list \<Rightarrow> 8 word \<times> int list \<Rightarrow> 8 word \<times> int list" where
  "mark_descriptors state index [] acc = acc"
| "mark_descriptors state index (d # ds) (marker, transferred) =
     mark_descriptors state (index + 1) ds
       (case state d of
          Descriptor_Closed \<Rightarrow> (marker OR push_bit (3 + index) 1, transferred)
        | Descriptor_Terminal \<Rightarrow> (marker, transferred)
        | Descriptor_Other \<Rightarrow> (marker OR push_bit index 1, transferred @ [d]))"

record control_header =
  header_rights :: bool
  header_length :: nat
  header_payload :: "int list"

text \<open>\<open>CMSG_LEN(0)\<close>; the length of a header counts it.\<close>

definition cmsg_length_0 :: nat where "cmsg_length_0 = 16"
definition int_size :: nat where "int_size = 4"

record descriptor_message =
  message_marker :: "8 word"
  message_headers :: "control_header list"

text \<open>The message of \<open>sendmsg\<close>; \<open>None\<close> stands for no control data at all.\<close>

definition standard_descriptor_message :: "(int \<Rightarrow> descriptor_state) \<Rightarrow> int list \<Rightarrow> descriptor_message" where
  "standard_descriptor_message state descriptors =
     (case mark_descriptors state 0 descriptors (0, []) of
        (marker, transferred) \<Rightarrow>
          \<lparr>message_marker = marker,
           message_headers =
             (if transferred = [] then []
              else [\<lparr>header_rights = True,
                     header_length = cmsg_length_0 + int_size * length transferred,
                     header_payload = transferred\<rparr>])\<rparr>)"

datatype send_result = Send_Interrupted | Send_Returned int

definition send_pass :: "('w \<Rightarrow> send_result \<times> 'w) \<Rightarrow> 'w \<Rightarrow> 'w + bool \<times> 'w" where
  "send_pass sendmsg w =
     (case sendmsg w of
        (Send_Interrupted, w1) \<Rightarrow> Inl w1
      | (Send_Returned n, w1) \<Rightarrow> Inr (n = 1, w1))"

definition send_standard_descriptors ::
  "(descriptor_message \<Rightarrow> 'w \<Rightarrow> send_result \<times> 'w) \<Rightarrow> (int \<Rightarrow> descriptor_state) \<Rightarrow> int list \<Rightarrow> 'w
     \<Rightarrow> (bool \<times> 'w) option" where
  "send_standard_descriptors sendmsg state descriptors w =
     iterate (send_pass (sendmsg (standard_descriptor_message state descriptors))) w"

section \<open>The receiver\<close>

datatype disposition = Inherit_Terminal | Explicitly_Closed | Transferred

record received_descriptors =
  dispositions :: "disposition list"
  owned_descriptors :: "int option list"

text \<open>
  The loop over the headers. It copies the descriptors of each into an array of three; a header it
  does not accept ends it with the descriptors it has copied so far, which the caller closes.
\<close>

fun collect_rights :: "control_header list \<Rightarrow> int list \<Rightarrow> int list + int list" where
  "collect_rights [] raw = Inr raw"
| "collect_rights (header # headers) raw =
     (if \<not> header_rights header \<or> header_length header < cmsg_length_0 then Inl raw
      else
        (let bytes = header_length header - cmsg_length_0
         in if bytes mod int_size \<noteq> 0 \<or> 3 < length raw + bytes div int_size then Inl raw
            else collect_rights headers (raw @ take (bytes div int_size) (header_payload header))))"

text \<open>
  The loop over the three slots: \<open>Inl\<close> has the descriptors that are closed, by the code or with the
  result that is given up.
\<close>

function assign_slots ::
  "8 word \<Rightarrow> nat \<Rightarrow> int list \<Rightarrow> int list \<Rightarrow> received_descriptors \<Rightarrow> int list + received_descriptors" where
  "assign_slots marker slot raw used result =
     (if 3 \<le> slot then (if raw \<noteq> [] then Inl (raw @ used) else Inr result)
      else
        (let transferred = bit marker slot; closed = bit marker (slot + 3)
         in if transferred \<and> closed then Inl (raw @ used)
            else if transferred then
              (case raw of
                 [] \<Rightarrow> Inl used
               | d # rest \<Rightarrow>
                   assign_slots marker (slot + 1) rest (used @ [d])
                     (result\<lparr>dispositions := (dispositions result)[slot := Transferred],
                             owned_descriptors := (owned_descriptors result)[slot := Some d]\<rparr>))
            else if closed then
              assign_slots marker (slot + 1) raw used
                (result\<lparr>dispositions := (dispositions result)[slot := Explicitly_Closed]\<rparr>)
            else assign_slots marker (slot + 1) raw used result))"
  by pat_completeness auto
termination
  by (relation "measure (\<lambda>(_, slot, _). 3 - slot)") auto

declare assign_slots.simps [simp del]

definition no_descriptors :: received_descriptors where
  "no_descriptors = \<lparr>dispositions = [Inherit_Terminal, Inherit_Terminal, Inherit_Terminal], owned_descriptors = [None, None, None]\<rparr>"

text \<open>What \<open>recvmsg\<close> returned: its result, whether it truncated, and the message.\<close>

record received_message =
  received_size :: int
  received_truncated :: bool
  received_message :: descriptor_message

definition accept_descriptors :: "received_message \<Rightarrow> received_descriptors option \<times> int list" where
  "accept_descriptors m =
     (let marker = message_marker (received_message m)
      in if received_size m \<noteq> 1 \<or> received_truncated m \<or> marker AND 0xC0 \<noteq> 0 then (None, [])
         else case collect_rights (message_headers (received_message m)) [] of
           Inl raw \<Rightarrow> (None, raw)
         | Inr raw \<Rightarrow>
             (case assign_slots marker 0 raw [] no_descriptors of
                Inl closed \<Rightarrow> (None, closed)
              | Inr result \<Rightarrow> (Some result, [])))"

datatype recvmsg_result = Recv_Interrupted | Recv_Returned received_message

definition recv_pass ::
  "('w \<Rightarrow> recvmsg_result \<times> 'w) \<Rightarrow> 'w \<Rightarrow> 'w + (received_descriptors option \<times> int list) \<times> 'w" where
  "recv_pass recvmsg w =
     (case recvmsg w of
        (Recv_Interrupted, w1) \<Rightarrow> Inl w1
      | (Recv_Returned m, w1) \<Rightarrow> Inr (accept_descriptors m, w1))"

definition receive_standard_descriptors ::
  "('w \<Rightarrow> recvmsg_result \<times> 'w) \<Rightarrow> 'w \<Rightarrow> ((received_descriptors option \<times> int list) \<times> 'w) option" where
  "receive_standard_descriptors recvmsg w = iterate (recv_pass recvmsg) w"

section \<open>Three descriptors arrive\<close>

text \<open>The kernel delivers the descriptors under new numbers.\<close>

definition delivered :: "(int \<Rightarrow> int) \<Rightarrow> descriptor_message \<Rightarrow> received_message" where
  "delivered renumber m =
     \<lparr>received_size = 1, received_truncated = False,
      received_message = m\<lparr>message_headers :=
        map (\<lambda>h. h\<lparr>header_payload := map renumber (header_payload h)\<rparr>) (message_headers m)\<rparr>\<rparr>"

fun slot_disposition :: "descriptor_state \<Rightarrow> disposition" where
  "slot_disposition Descriptor_Closed = Explicitly_Closed"
| "slot_disposition Descriptor_Terminal = Inherit_Terminal"
| "slot_disposition Descriptor_Other = Transferred"

definition slot_descriptor :: "(int \<Rightarrow> int) \<Rightarrow> (int \<Rightarrow> descriptor_state) \<Rightarrow> int \<Rightarrow> int option" where
  "slot_descriptor renumber state d = (if state d = Descriptor_Other then Some (renumber d) else None)"

text \<open>The standard descriptors of the supervisor arrive at the helper as they are: of each of the
  three the helper knows whether it was closed, is the terminal or something else, has a descriptor
  for exactly the last kind, for the right slot, and closes none of them.\<close>

lemma three_slots:
  "accept_descriptors (delivered renumber (standard_descriptor_message state [a, b, c]))
     = (Some \<lparr>dispositions = map (slot_disposition \<circ> state) [a, b, c],
              owned_descriptors = map (slot_descriptor renumber state) [a, b, c]\<rparr>, [])"
  by (cases "state a"; cases "state b"; cases "state c";
      simp add: accept_descriptors_def standard_descriptor_message_def delivered_def Let_def
        cmsg_length_0_def int_size_def no_descriptors_def slot_descriptor_def assign_slots.simps)

section \<open>No descriptor is lost\<close>

definition held :: "received_descriptors \<Rightarrow> int list" where
  "held r = concat (map (\<lambda>d. case d of None \<Rightarrow> [] | Some x \<Rightarrow> [x]) (owned_descriptors r))"

definition carried :: "control_header list \<Rightarrow> int list" where
  "carried headers = concat (map header_payload headers)"

definition kernel_header :: "control_header \<Rightarrow> bool" where
  "kernel_header h \<longleftrightarrow> header_rights h \<and> header_length h = cmsg_length_0 + int_size * length (header_payload h)"

lemma collect_rights_all:
  "list_all kernel_header headers \<Longrightarrow> length (raw @ carried headers) \<le> 3 \<Longrightarrow>
     collect_rights headers raw = Inr (raw @ carried headers)"
proof (induction headers arbitrary: raw)
  case (Cons h headers)
  then show ?case by (simp add: carried_def kernel_header_def Let_def int_size_def)
qed (simp add: carried_def)

lemma held_update:
  assumes "length (owned_descriptors r) = 3" "slot < 3" "owned_descriptors r ! slot = None"
  shows "mset (held (r\<lparr>dispositions := ds, owned_descriptors := (owned_descriptors r)[slot := Some d]\<rparr>))
    = add_mset d (mset (held r))"
proof -
  obtain x y z where "owned_descriptors r = [x, y, z]"
    using assms(1) by (auto simp: numeral_3_eq_3 length_Suc_conv)
  moreover have "slot = 0 \<or> slot = 1 \<or> slot = 2" using assms(2) by auto
  ultimately show ?thesis using assms(3) by (auto simp: held_def)
qed

lemma assign_slots_accounts:
  assumes "length (owned_descriptors r) = 3" "\<And>i. slot \<le> i \<Longrightarrow> i < 3 \<Longrightarrow> owned_descriptors r ! i = None"
    and "mset (held r) = mset used"
  shows "case assign_slots marker slot raw used r of
      Inl closed \<Rightarrow> mset closed = mset raw + mset used
    | Inr q \<Rightarrow> mset (held q) = mset raw + mset used"
  using assms
proof (induction marker slot raw used r rule: assign_slots.induct)
  case (1 marker slot raw used r)
  show ?case
  proof (cases "3 \<le> slot")
    case True
    then show ?thesis using "1.prems"(3) by (simp add: assign_slots.simps [of marker slot])
  next
    case False
    define t where "t = bit marker slot"
    define c where "c = bit marker (slot + 3)"
    consider "t" "c" | "t" "\<not> c" "raw = []" | d rest where "t" "\<not> c" "raw = d # rest" | "\<not> t" "c" | "\<not> t" "\<not> c"
      by (cases raw) auto
    then show ?thesis
    proof cases
      case (3 d rest)
      have "mset (held (r\<lparr>dispositions := (dispositions r)[slot := Transferred],
          owned_descriptors := (owned_descriptors r)[slot := Some d]\<rparr>)) = mset (used @ [d])"
        using held_update [of r slot d "(dispositions r)[slot := Transferred]"] False "1.prems" by simp
      with "1.IH"(1) [OF False refl refl, of d rest] "1.prems" False 3 show ?thesis
        by (simp add: assign_slots.simps [of marker slot] t_def c_def Let_def split: sum.splits)
    next
      case 4
      have "held (r\<lparr>dispositions := ds\<rparr>) = held r" for ds by (simp add: held_def)
      with "1.IH"(2) [OF False refl refl] "1.prems" False 4 show ?thesis
        by (simp add: assign_slots.simps [of marker slot] t_def c_def Let_def)
    next
      case 5
      with "1.IH"(3) [OF False refl refl] "1.prems" False show ?thesis
        by (simp add: assign_slots.simps [of marker slot] t_def c_def Let_def)
    qed (use False in \<open>simp_all add: assign_slots.simps [of marker slot] t_def c_def\<close>)
  qed
qed

text \<open>Of the descriptors of a message that the kernel delivered whole, at most three and with a
  marker of the protocol, none is lost: either the helper holds exactly them, or it refuses the
  message and has closed each of them once.\<close>

theorem received_descriptors_accounted:
  assumes "received_size m = 1" "\<not> received_truncated m" "message_marker (received_message m) AND 0xC0 = 0"
    and "list_all kernel_header (message_headers (received_message m))"
    and "length (carried (message_headers (received_message m))) \<le> 3"
  shows "case accept_descriptors m of
      (None, closed) \<Rightarrow> mset closed = mset (carried (message_headers (received_message m)))
    | (Some r, closed) \<Rightarrow> closed = [] \<and> mset (held r) = mset (carried (message_headers (received_message m)))"
proof -
  define all where "all = carried (message_headers (received_message m))"
  have "collect_rights (message_headers (received_message m)) [] = Inr all"
    using collect_rights_all [OF assms(4), of "[]"] assms(5) by (simp add: all_def)
  moreover have "case assign_slots (message_marker (received_message m)) 0 all [] no_descriptors of
      Inl closed \<Rightarrow> mset closed = mset all | Inr q \<Rightarrow> mset (held q) = mset all"
    using assign_slots_accounts [where r = no_descriptors and slot = 0 and used = "[]"
        and marker = "message_marker (received_message m)" and raw = all]
    by (force simp: no_descriptors_def held_def less_Suc_eq numeral_3_eq_3 split: sum.splits)
  ultimately show ?thesis
    using assms(1-3) by (simp add: accept_descriptors_def all_def split: sum.splits)
qed

theorem received_descriptors_accounted_witness:
  "fst (accept_descriptors \<lparr>received_size = 1, received_truncated = False,
      received_message = \<lparr>message_marker = 1, message_headers =
        [\<lparr>header_rights = True, header_length = 24, header_payload = [7, 9]\<rparr>]\<rparr>\<rparr>) = None
   \<and> mset (snd (accept_descriptors \<lparr>received_size = 1, received_truncated = False,
      received_message = \<lparr>message_marker = 1, message_headers =
        [\<lparr>header_rights = True, header_length = 24, header_payload = [7, 9]\<rparr>]\<rparr>\<rparr>)) = {#7, 9#}"
proof -
  define m where "m = \<lparr>received_size = 1, received_truncated = False,
      received_message = \<lparr>message_marker = (1 :: 8 word), message_headers =
        [\<lparr>header_rights = True, header_length = 24, header_payload = [7, 9 :: int]\<rparr>]\<rparr>\<rparr>"
  have "fst (accept_descriptors m) = None" unfolding m_def by code_simp
  moreover have "carried (message_headers (received_message m)) = [7, 9]" by (simp add: m_def carried_def)
  ultimately show ?thesis
    using received_descriptors_accounted [of m]
    by (auto simp: m_def kernel_header_def cmsg_length_0_def int_size_def split: prod.splits)
qed

text \<open>
  A message that is refused before its headers are read, or for a header with too many
  descriptors, leaves the descriptors it brought open: four of them fit the control buffer.
\<close>

lemma refused_descriptors_stay_open:
  "message_marker (received_message m) AND 0xC0 \<noteq> 0 \<Longrightarrow> accept_descriptors m = (None, [])"
  "received_truncated m \<Longrightarrow> accept_descriptors m = (None, [])"
  "accept_descriptors \<lparr>received_size = 1, received_truncated = False,
     received_message = \<lparr>message_marker = 7, message_headers =
       [\<lparr>header_rights = True, header_length = 32, header_payload = [5, 6, 7, 8]\<rparr>]\<rparr>\<rparr> = (None, [])"
  by (simp_all add: accept_descriptors_def cmsg_length_0_def int_size_def)

end
