(* ===== verification/Helper_Messages.thy ===== *)
theory Helper_Messages
  imports Network_Profile Wire
begin

text \<open>
  The messages of \<open>src/helper_protocol.hpp\<close> and \<open>src/helper_protocol.cpp\<close>: the commands
  the supervisor sends to the helper (stop requests and Profile Changes) and the events the
  helper reports, with the parser and printer of each. The laws: the parser accepts exactly
  what the printer writes, and every change that is valid on a default profile survives the
  round trip (a packet loss of minus zero is normalised to zero).
\<close>

section \<open>Data\<close>

datatype helper_runtime_command =
    StopTerminateCommand
  | StopKillCommand
  | CompatibilityShutdownCommand
  | ProfileChangeCommand profile_change

datatype profile_change_result = Result_Applied | Result_Restored_After_Failure

datatype helper_conversation_event =
    ReadyEvent
  | ActivatedEvent int
  | ActivationFailedEvent int
  | WorkloadExitedEvent int
  | WorkloadSignaledEvent int
  | CleanupSucceededEvent
  | CleanupFailedEvent
  | ConversationLostEvent
  | ProfileChangeResultEvent profile_change_result profile_change
  | ProfileStateUnknownEvent

definition maximum_helper_message_size :: nat where
  "maximum_helper_message_size = 1024"

definition helper_error_prefix :: string where
  "helper_error_prefix = ''ERROR ''"

definition invalid_runtime_command_message :: string where
  "invalid_runtime_command_message = ''ERROR INVALID_RUNTIME_COMMAND'' @ [newline]"

section \<open>Tokens\<close>

definition parse_bounded_integer :: "string \<Rightarrow> int \<Rightarrow> int \<Rightarrow> int option" where
  "parse_bounded_integer s minimum maximum =
     (case from_chars_signed int_min int_max s of
        Parsed v rest \<Rightarrow>
          (if rest \<noteq> [] \<or> v < minimum \<or> maximum < v then None else Some v)
      | _ \<Rightarrow> None)"

definition parse_value_after :: "string \<Rightarrow> string \<Rightarrow> int \<Rightarrow> int \<Rightarrow> int option" where
  "parse_value_after line prefix minimum maximum =
     (if \<not> starts_with prefix line then None
      else parse_bounded_integer (drop (length prefix) line) minimum maximum)"

text \<open>The loop of \<open>split_wire_tokens\<close> on the part of the line from \<open>begin\<close> on.\<close>

function split_tokens_from :: "string \<Rightarrow> string list option" where
  "split_tokens_from s =
     (if s = [] then Some []
      else case find_char (CHR '' '') s of
        None \<Rightarrow> Some [s]
      | Some n \<Rightarrow>
          (if n = 0 then None
           else map_option ((#) (take n s)) (split_tokens_from (drop (Suc n) s))))"
  by pat_completeness auto
termination
  by (relation "measure length") auto

declare split_tokens_from.simps [simp del]

definition split_wire_tokens :: "string \<Rightarrow> string list option" where
  "split_wire_tokens line =
     (if line = [] \<or> hd line = CHR '' '' \<or> last line = CHR '' '' then None
      else split_tokens_from line)"

definition parse_direction :: "string \<Rightarrow> traffic_direction option" where
  "parse_direction token =
     (if token = ''OUTBOUND'' then Some Outbound
      else if token = ''INBOUND'' then Some Inbound else None)"

definition parse_setting :: "string \<Rightarrow> network_setting option" where
  "parse_setting token =
     (if token = ''DELAY'' then Some Delay
      else if token = ''JITTER'' then Some Jitter
      else if token = ''LOSS'' then Some Packet_Loss
      else if token = ''BANDWIDTH'' then Some Bandwidth else None)"

definition has_canonical_unsigned_spelling :: "string \<Rightarrow> bool" where
  "has_canonical_unsigned_spelling token =
     (if token = [] \<or> (1 < length token \<and> hd token = CHR ''0'') then False
      else list_all (\<lambda>c. \<not> (byte_of c < 48 \<or> 57 < byte_of c)) token)"

definition parse_canonical_unsigned :: "string \<Rightarrow> nat \<Rightarrow> nat option" where
  "parse_canonical_unsigned token maximum =
     (if \<not> has_canonical_unsigned_spelling token then None
      else case from_chars_unsigned uint64_max token of
        Parsed v rest \<Rightarrow> (if rest \<noteq> [] \<or> maximum < v then None else Some v)
      | _ \<Rightarrow> None)"

text \<open>
  \<open>serialize_loss\<close>; the text of a \<open>double\<close> with 17 significant digits always fits the
  64-byte buffer (lemma \<open>serialize_loss_length\<close>), so that \<open>to_chars\<close> does not fail.
\<close>

definition serialize_loss :: "double \<Rightarrow> string option" where
  "serialize_loss value =
     (if \<not> isfinite value \<or> dbl_less value dbl_zero \<or> dbl_less dbl_hundred value then None
      else Some (to_chars_general 17 (if dbl_eq value dbl_zero then dbl_zero else value)))"

definition parse_canonical_loss :: "string \<Rightarrow> double option" where
  "parse_canonical_loss token =
     (case from_chars_double True token of
        Parsed v rest \<Rightarrow>
          (if rest \<noteq> [] then None
           else if serialize_loss v \<noteq> Some token then None else Some v)
      | _ \<Rightarrow> None)"

fun direction_token :: "traffic_direction \<Rightarrow> string" where
  "direction_token Outbound = ''OUTBOUND''"
| "direction_token Inbound = ''INBOUND''"
| "direction_token (Direction_Value _) = []"

fun setting_token :: "network_setting \<Rightarrow> string" where
  "setting_token Delay = ''DELAY''"
| "setting_token Jitter = ''JITTER''"
| "setting_token Packet_Loss = ''LOSS''"
| "setting_token Bandwidth = ''BANDWIDTH''"
| "setting_token (Setting_Value _) = []"

section \<open>Profile Changes on the wire\<close>

definition parse_profile_change :: "string list \<Rightarrow> profile_change option" where
  "parse_profile_change tokens =
     (if length tokens \<noteq> 3 then None
      else case parse_direction (tokens ! 1) of
        None \<Rightarrow> None
      | Some direction \<Rightarrow>
          (if tokens ! 0 = ''PROFILE_SET_DELAY'' \<or> tokens ! 0 = ''PROFILE_SET_JITTER'' then
             (case parse_canonical_unsigned (tokens ! 2) int64_max of
                None \<Rightarrow> None
              | Some v \<Rightarrow>
                  (if tokens ! 0 = ''PROFILE_SET_DELAY'' then Some (SetDelay direction (of_nat v))
                   else Some (SetJitter direction (of_nat v))))
           else if tokens ! 0 = ''PROFILE_SET_BANDWIDTH'' then
             (case parse_canonical_unsigned (tokens ! 2) uint64_max of
                None \<Rightarrow> None
              | Some v \<Rightarrow> (if v = 0 then None else Some (SetBandwidth direction (of_nat v))))
           else if tokens ! 0 = ''PROFILE_SET_LOSS'' then
             map_option (SetPacketLoss direction) (parse_canonical_loss (tokens ! 2))
           else if tokens ! 0 = ''PROFILE_RESET'' then
             map_option (ResetSetting direction) (parse_setting (tokens ! 2))
           else None))"

text \<open>\<open>serialize_profile_change\<close>: the empty string when the change cannot be sent.\<close>

fun change_line :: "profile_change \<Rightarrow> string" where
  "change_line (SetDelay d v) =
     (if direction_token d = [] then []
      else ''PROFILE_SET_DELAY '' @ direction_token d @ '' '' @ to_string_int (sint v) @ [newline])"
| "change_line (SetJitter d v) =
     (if direction_token d = [] then []
      else ''PROFILE_SET_JITTER '' @ direction_token d @ '' '' @ to_string_int (sint v) @ [newline])"
| "change_line (SetPacketLoss d v) =
     (if direction_token d = [] then []
      else case serialize_loss v of
        None \<Rightarrow> []
      | Some loss \<Rightarrow> ''PROFILE_SET_LOSS '' @ direction_token d @ '' '' @ loss @ [newline])"
| "change_line (SetBandwidth d v) =
     (if direction_token d = [] then []
      else ''PROFILE_SET_BANDWIDTH '' @ direction_token d @ '' '' @ to_string_nat (unat v) @ [newline])"
| "change_line (ResetSetting d s) =
     (if direction_token d = [] then []
      else if setting_token s = [] then []
      else ''PROFILE_RESET '' @ direction_token d @ '' '' @ setting_token s @ [newline])"

definition serialize_profile_change :: "profile_change \<Rightarrow> string" where
  "serialize_profile_change change =
     (case apply_profile_change default_profile change of
        Inl _ \<Rightarrow> []
      | Inr _ \<Rightarrow> change_line change)"

section \<open>Commands and events\<close>

definition parse_helper_runtime_command :: "string \<Rightarrow> helper_runtime_command option" where
  "parse_helper_runtime_command line =
     (if line = ''STOP TERM'' then Some StopTerminateCommand
      else if line = ''STOP KILL'' then Some StopKillCommand
      else if line = ''SHUTDOWN'' then Some CompatibilityShutdownCommand
      else case split_wire_tokens line of
        None \<Rightarrow> None
      | Some tokens \<Rightarrow> map_option ProfileChangeCommand (parse_profile_change tokens))"

fun helper_runtime_command_message :: "helper_runtime_command \<Rightarrow> string" where
  "helper_runtime_command_message StopTerminateCommand = ''STOP TERM'' @ [newline]"
| "helper_runtime_command_message StopKillCommand = ''STOP KILL'' @ [newline]"
| "helper_runtime_command_message CompatibilityShutdownCommand = ''SHUTDOWN'' @ [newline]"
| "helper_runtime_command_message (ProfileChangeCommand change) = serialize_profile_change change"

fun helper_conversation_event_message :: "helper_conversation_event \<Rightarrow> string" where
  "helper_conversation_event_message ReadyEvent = ''READY'' @ [newline]"
| "helper_conversation_event_message (ActivatedEvent pid) =
     ''ACTIVE '' @ to_string_int pid @ [newline]"
| "helper_conversation_event_message (ActivationFailedEvent result) =
     ''START_FAILED '' @ to_string_int result @ [newline]"
| "helper_conversation_event_message (WorkloadExitedEvent result) =
     ''WORKLOAD_EXITED '' @ to_string_int result @ [newline]"
| "helper_conversation_event_message (WorkloadSignaledEvent signal) =
     ''WORKLOAD_SIGNALED '' @ to_string_int signal @ [newline]"
| "helper_conversation_event_message CleanupSucceededEvent = ''CLEANUP_OK'' @ [newline]"
| "helper_conversation_event_message CleanupFailedEvent = ''CLEANUP_FAILED'' @ [newline]"
| "helper_conversation_event_message (ProfileChangeResultEvent result change) =
     (if result = Result_Applied then ''PROFILE_OK'' else ''PROFILE_FAILED APPLY_FAILED'') @ [newline]"
| "helper_conversation_event_message ProfileStateUnknownEvent =
     ''ERROR PROFILE_STATE_UNKNOWN'' @ [newline]"
| "helper_conversation_event_message ConversationLostEvent = []"

definition helper_error_message :: "string \<Rightarrow> string" where
  "helper_error_message safe_message = helper_error_prefix @ safe_message @ [newline]"

section \<open>Token lemmas\<close>

definition wire_token :: "string \<Rightarrow> bool" where
  "wire_token s \<longleftrightarrow> s \<noteq> [] \<and> CHR '' '' \<notin> set s"

lemma split_tokens_last [simp]: "wire_token t \<Longrightarrow> split_tokens_from t = Some [t]"
  by (subst split_tokens_from.simps)
    (auto simp: wire_token_def split: option.splits dest!: find_char_None_iff [THEN iffD2])

lemma split_tokens_Cons [simp]:
  "wire_token t \<Longrightarrow> split_tokens_from (t @ CHR '' '' # r) = map_option ((#) t) (split_tokens_from r)"
  by (subst split_tokens_from.simps) (simp add: wire_token_def)

lemma split_wire_tokens_3:
  assumes "wire_token a" "wire_token b" "wire_token c"
  shows "split_wire_tokens (a @ CHR '' '' # b @ CHR '' '' # c) = Some [a, b, c]"
proof -
  from assms(1) have "hd (a @ CHR '' '' # b @ CHR '' '' # c) \<noteq> CHR '' ''"
    by (cases a) (auto simp: wire_token_def)
  moreover have "last (a @ CHR '' '' # b @ CHR '' '' # c) \<noteq> CHR '' ''"
  proof -
    from assms(3) have "c \<noteq> []" "CHR '' '' \<notin> set c" by (simp_all add: wire_token_def)
    with last_in_set [of c] have "last c \<noteq> CHR '' ''" by metis
    with \<open>c \<noteq> []\<close> show ?thesis by simp
  qed
  ultimately show ?thesis using assms by (simp add: split_wire_tokens_def)
qed

text \<open>Splitting is exact: the tokens joined by single blanks are the line.\<close>

fun join_tokens :: "string list \<Rightarrow> string" where
  "join_tokens [] = []"
| "join_tokens [t] = t"
| "join_tokens (t # ts) = t @ CHR '' '' # join_tokens ts"

lemma split_tokens_from_sound:
  assumes "split_tokens_from s = Some ts" and "s = [] \<or> last s \<noteq> CHR '' ''"
  shows "s = join_tokens ts \<and> list_all wire_token ts \<and> (ts = [] \<longleftrightarrow> s = [])"
  using assms
proof (induction s arbitrary: ts rule: split_tokens_from.induct)
  case (1 s)
  show ?case
  proof (cases "s = []")
    case True
    with "1.prems" show ?thesis by (simp add: split_tokens_from.simps [of "[]"])
  next
    case ne: False
    show ?thesis
    proof (cases "find_char (CHR '' '') s")
      case None
      with "1.prems" ne have "ts = [s]" by (simp add: split_tokens_from.simps [of s])
      with None ne show ?thesis by (simp add: wire_token_def find_char_None_iff)
    next
      case (Some n)
      have eq: "split_tokens_from s =
          (if n = 0 then None else map_option ((#) (take n s)) (split_tokens_from (drop (Suc n) s)))"
        using ne Some by (simp add: split_tokens_from.simps [of s])
      have n0: "n \<noteq> 0" using eq "1.prems"(1) by (cases n) simp_all
      with eq "1.prems"(1) obtain us
        where us: "split_tokens_from (drop (Suc n) s) = Some us" "ts = take n s # us"
        by (cases "split_tokens_from (drop (Suc n) s)") auto
      note cut = find_char_Some_split [OF Some]
      have d: "drop (Suc n) s \<noteq> []"
      proof
        assume "drop (Suc n) s = []"
        with cut(1) have "last s = CHR '' ''" by (metis last_snoc)
        with "1.prems"(2) ne show False by simp
      qed
      have l: "last (drop (Suc n) s) \<noteq> CHR '' ''"
        using "1.prems"(2) ne d by (simp add: last_drop)
      from "1.IH" [OF ne Some n0 us(1)] l have IH: "drop (Suc n) s = join_tokens us"
        "list_all wire_token us" "us \<noteq> []" using d by auto
      have "take n s \<noteq> []" using n0 ne by simp
      then have "wire_token (take n s)" using cut(2) by (simp add: wire_token_def)
      moreover have "join_tokens ts = s"
      proof -
        have "take n s @ CHR '' '' # join_tokens us = s"
          using cut(1) unfolding IH(1) by (rule sym)
        then show ?thesis using IH(3) us(2) by (cases us) simp_all
      qed
      ultimately show ?thesis using IH(2) us(2) ne by auto
    qed
  qed
qed

lemma split_wire_tokens_sound:
  "split_wire_tokens s = Some ts \<Longrightarrow> s = join_tokens ts \<and> list_all wire_token ts"
  using split_tokens_from_sound [of s ts] by (simp add: split_wire_tokens_def split: if_splits)

lemma wire_token_tokens [simp]:
  "wire_token ''OUTBOUND''" "wire_token ''INBOUND''" "wire_token ''DELAY''" "wire_token ''JITTER''"
  "wire_token ''LOSS''" "wire_token ''BANDWIDTH''" "wire_token ''PROFILE_SET_DELAY''"
  "wire_token ''PROFILE_SET_JITTER''" "wire_token ''PROFILE_SET_LOSS''"
  "wire_token ''PROFILE_SET_BANDWIDTH''" "wire_token ''PROFILE_RESET''"
  by (simp_all add: wire_token_def)

lemma wire_token_to_string [simp]: "wire_token (to_string_nat n)"
  by (simp add: wire_token_def)

section \<open>The numbers of a change\<close>

lemma canonical_spelling_iff:
  "has_canonical_unsigned_spelling t \<longleftrightarrow>
     t \<noteq> [] \<and> list_all is_digit t \<and> (length t = 1 \<or> hd t \<noteq> CHR ''0'')"
  by (cases t) (auto simp: has_canonical_unsigned_spelling_def list_all_iff is_digit_def not_less)

lemma parse_canonical_unsigned_iff:
  assumes "maximum \<le> uint64_max"
  shows "parse_canonical_unsigned t maximum = Some v \<longleftrightarrow> t = to_string_nat v \<and> v \<le> maximum"
proof
  assume "parse_canonical_unsigned t maximum = Some v"
  then have "has_canonical_unsigned_spelling t" "from_chars_unsigned uint64_max t = Parsed v []"
    and v: "v \<le> maximum"
    by (auto simp: parse_canonical_unsigned_def split: from_chars_result.splits if_splits)
  then show "t = to_string_nat v \<and> v \<le> maximum"
    by (auto simp: from_chars_unsigned_Parsed_complete canonical_spelling_iff to_string_dec_value)
next
  assume v: "t = to_string_nat v \<and> v \<le> maximum"
  have "length (to_string_nat v) = 1 \<or> hd (to_string_nat v) \<noteq> CHR ''0''"
    using to_string_nat_hd [of v] by (cases "v = 0") simp_all
  with v assms show "parse_canonical_unsigned t maximum = Some v"
    by (simp add: parse_canonical_unsigned_def canonical_spelling_iff to_string_nat_digits)
qed

text \<open>The characters of a printed packet loss.\<close>

definition number_char :: "char \<Rightarrow> bool" where
  "number_char c \<longleftrightarrow> is_digit c \<or> c \<in> set ''.e+-''"

lemma strip_zeros_subset: "set (strip_zeros s) \<subseteq> set s"
  by (auto simp: strip_zeros_def dest: set_dropWhileD)

lemma with_fraction_chars:
  "set (with_fraction ip fp) \<subseteq> insert (CHR ''.'') (set ip \<union> set fp)"
  using strip_zeros_subset [of fp] by (auto simp: with_fraction_def Let_def)

lemma exponent_text_chars: "list_all number_char (exponent_text x)"
  using to_string_nat_chars
  by (auto simp: exponent_text_def Let_def list_all_iff number_char_def is_digit_def [of "CHR ''0''"]
      byte_of_def)

lemma general_text_chars: "list_all number_char (general_text P m)"
proof -
  have zero: "number_char (CHR ''0'')" by (simp add: number_char_def is_digit_def byte_of_def)
  have frac: "list_all number_char (with_fraction ip fp)"
    if "list_all number_char ip" "list_all number_char fp" for ip fp
    using that with_fraction_chars [of ip fp]
    by (auto simp: list_all_iff number_char_def [of "CHR ''.''"])
  have ds: "list_all number_char (to_string_nat d)" for d
    using to_string_nat_chars by (auto simp: list_all_iff number_char_def)
  then have part: "list_all number_char (take j (to_string_nat d))"
    "list_all number_char (drop j (to_string_nat d))" for j d
    by (auto simp: list_all_iff dest: in_set_takeD in_set_dropD)
  have zeros: "list_all number_char (replicate j (CHR ''0''))" for j
    using zero by (simp add: list_all_iff)
  have e: "number_char (CHR ''e'')" by (simp add: number_char_def)
  show ?thesis
    using zero ds part zeros e
    by (auto simp: general_text_def Let_def exponent_text_chars intro!: frac split: prod.split)
qed

lemma number_char_not [simp]: "\<not> number_char (CHR '' '')" "\<not> number_char newline"
  by (simp_all add: number_char_def)

lemma general_text_nonempty [simp]: "general_text P m \<noteq> []"
proof -
  have "with_fraction ip fp \<noteq> []" if "ip \<noteq> []" for ip fp
    using that by (simp add: with_fraction_def Let_def)
  moreover have "take (Suc j) (to_string_nat d) \<noteq> []" for j d by (cases "to_string_nat d") simp_all
  ultimately show ?thesis by (auto simp: general_text_def Let_def split: prod.split)
qed

lemma wire_token_number: "list_all number_char t \<Longrightarrow> t \<noteq> [] \<Longrightarrow> wire_token t \<and> one_line t"
  by (auto simp: wire_token_def one_line_def list_all_iff)

text \<open>\<open>serialize_loss\<close> on the values it accepts, and what it reads back to.\<close>

definition normalize_loss :: "double \<Rightarrow> double" where
  "normalize_loss w = (if dbl_eq w dbl_zero then dbl_zero else w)"

lemma valid_loss_normalize: "valid_loss (normalize_loss w) \<longleftrightarrow> valid_loss w"
  by (auto simp: normalize_loss_def valid_loss_def dbl_eq_def isfinite_def isnan_def dbl_key_def
      split: if_splits)

lemma valid_loss_nonnegative: "valid_loss w \<Longrightarrow> \<not> dbl_negative (normalize_loss w)"
  by (auto simp: normalize_loss_def valid_loss_def dbl_eq_def dbl_key_def isfinite_not_isnan
      split: if_splits)

lemma serialize_loss_eq:
  "serialize_loss w = (if valid_loss w then Some (to_chars_general 17 (normalize_loss w)) else None)"
  by (simp add: serialize_loss_def valid_loss_iff normalize_loss_def)

lemma normalize_idem [simp]: "normalize_loss (normalize_loss w) = normalize_loss w"
  by (simp add: normalize_loss_def)

lemma serialize_loss_normalize: "serialize_loss (normalize_loss w) = serialize_loss w"
  by (simp add: serialize_loss_eq valid_loss_normalize)

lemma serialize_loss_token:
  assumes "serialize_loss w = Some t"
  shows "wire_token t \<and> one_line t"
proof -
  from assms have v: "valid_loss w" and t: "t = to_chars_general 17 (normalize_loss w)"
    by (simp_all add: serialize_loss_eq split: if_splits)
  have "isfinite (normalize_loss w)" using v valid_loss_normalize [of w] by (simp add: valid_loss_def)
  then have "t = general_text 17 (mag_of_bits (dbl_bits (normalize_loss w)))"
    using t valid_loss_nonnegative [OF v] by (simp add: to_chars_general_def isfinite_not_isnan)
  with general_text_chars show ?thesis by (intro wire_token_number) simp_all
qed

lemma parse_canonical_loss_iff:
  "parse_canonical_loss t = Some v \<longleftrightarrow> serialize_loss v = Some t \<and> normalize_loss v = v"
proof
  assume "parse_canonical_loss t = Some v"
  then have p: "from_chars_double True t = Parsed v []" and s: "serialize_loss v = Some t"
    by (auto simp: parse_canonical_loss_def split: from_chars_result.splits if_splits)
  from s have v: "valid_loss v" and t: "t = to_chars_general 17 (normalize_loss v)"
    by (simp_all add: serialize_loss_eq split: if_splits)
  have "isfinite (normalize_loss v)" using v valid_loss_normalize [of v] by (simp add: valid_loss_def)
  from to_chars_read_back [OF this] p t s show "serialize_loss v = Some t \<and> normalize_loss v = v"
    by simp
next
  assume a: "serialize_loss v = Some t \<and> normalize_loss v = v"
  then have "valid_loss v" "t = to_chars_general 17 v"
    by (auto simp: serialize_loss_eq split: if_splits)
  with to_chars_read_back [of v] have "from_chars_double True t = Parsed v []"
    by (simp add: valid_loss_def)
  with a show "parse_canonical_loss t = Some v" by (simp add: parse_canonical_loss_def)
qed

section \<open>Profile Changes are canonical\<close>

definition sendable :: "profile_change \<Rightarrow> bool" where
  "sendable c \<longleftrightarrow>
     known_direction (change_direction c) \<and> known_setting (change_setting c) \<and> valid_value c"

fun normalize_change :: "profile_change \<Rightarrow> profile_change" where
  "normalize_change (SetPacketLoss d w) = SetPacketLoss d (normalize_loss w)"
| "normalize_change c = c"

fun change_keyword :: "profile_change \<Rightarrow> string" where
  "change_keyword (SetDelay _ _) = ''PROFILE_SET_DELAY''"
| "change_keyword (SetJitter _ _) = ''PROFILE_SET_JITTER''"
| "change_keyword (SetPacketLoss _ _) = ''PROFILE_SET_LOSS''"
| "change_keyword (SetBandwidth _ _) = ''PROFILE_SET_BANDWIDTH''"
| "change_keyword (ResetSetting _ _) = ''PROFILE_RESET''"

fun value_text :: "profile_change \<Rightarrow> string" where
  "value_text (SetDelay _ v) = to_string_nat (unat v)"
| "value_text (SetJitter _ v) = to_string_nat (unat v)"
| "value_text (SetPacketLoss _ w) = to_chars_general 17 (normalize_loss w)"
| "value_text (SetBandwidth _ v) = to_string_nat (unat v)"
| "value_text (ResetSetting _ s) = setting_token s"

definition change_tokens :: "profile_change \<Rightarrow> string list" where
  "change_tokens c = [change_keyword c, direction_token (change_direction c), value_text c]"

lemma normalize_change_simps [simp]:
  "normalize_change (normalize_change c) = normalize_change c"
  "change_direction (normalize_change c) = change_direction c"
  "change_setting (normalize_change c) = change_setting c"
  "change_tokens (normalize_change c) = change_tokens c"
  "sendable (normalize_change c) = sendable c"
  by (cases c; simp add: change_tokens_def sendable_def valid_loss_normalize)+

lemma direction_token_nonempty: "direction_token d \<noteq> [] \<longleftrightarrow> known_direction d"
  by (cases d) auto

lemma setting_token_nonempty: "setting_token s \<noteq> [] \<longleftrightarrow> known_setting s"
  by (cases s) auto

lemma to_string_sint: "0 \<le> sint (v :: i64) \<Longrightarrow> to_string_int (sint v) = to_string_nat (unat v)"
  by (simp add: to_string_int_def sint_nonneg_iff sint_eq_unat nat_uint_eq)

lemma change_line_eq:
  assumes "sendable c"
  shows "change_line c = join_tokens (change_tokens c) @ [newline]"
proof -
  from assms have "direction_token (change_direction c) \<noteq> []"
    by (simp add: sendable_def direction_token_nonempty)
  with assms show ?thesis
    by (cases c)
      (simp_all add: sendable_def change_tokens_def to_string_sint serialize_loss_eq
        flip: setting_token_nonempty)
qed

lemma serialize_profile_change_eq:
  "serialize_profile_change c =
     (if sendable c then join_tokens (change_tokens c) @ [newline] else [])"
proof (cases "apply_profile_change default_profile c")
  case (Inl e)
  then have "\<not> sendable c"
    using apply_accepts_iff [OF valid_default(2), of c] by (simp add: sendable_def)
  with Inl show ?thesis by (simp add: serialize_profile_change_def)
next
  case (Inr q)
  then have "sendable c"
    using apply_accepts_iff [OF valid_default(2), of c] by (auto simp: sendable_def)
  with Inr show ?thesis by (simp add: serialize_profile_change_def change_line_eq)
qed

lemma parse_direction_iff: "parse_direction t = Some d \<longleftrightarrow> known_direction d \<and> t = direction_token d"
  by (cases d) (auto simp: parse_direction_def)

lemma parse_setting_iff: "parse_setting t = Some s \<longleftrightarrow> known_setting s \<and> t = setting_token s"
  by (cases s) (auto simp: parse_setting_def)

lemma int64_max_le [simp]: "int64_max \<le> uint64_max"
  by (simp add: int64_max_def uint64_max_def)

lemma unat_of_int64 [simp]: "n \<le> int64_max \<Longrightarrow> unat (of_nat n :: u64) = n"
  by (rule unat_of_nat_u64) (simp add: int64_max_def uint64_max_def)

lemma sint_of_nat_nonneg: "n \<le> int64_max \<Longrightarrow> 0 \<le> sint (of_nat n :: i64)"
  by (simp add: sint_nonneg_iff)

lemma parse_profile_change_sound:
  assumes "parse_profile_change tokens = Some c"
  shows "tokens = change_tokens c \<and> sendable c \<and> normalize_change c = c"
proof -
  from assms obtain k t v where tokens: "tokens = [k, t, v]"
    by (auto simp: parse_profile_change_def numeral_3_eq_3 length_Suc_conv split: if_splits)
  from assms tokens obtain d where d: "parse_direction t = Some d"
    by (auto simp: parse_profile_change_def split: option.splits)
  then have kd: "known_direction d" "t = direction_token d" by (simp_all add: parse_direction_iff)
  have wz: "of_nat n \<noteq> (0 :: u64)" if "0 < n" "n \<le> uint64_max" for n
    using that unat_of_nat_u64 [of n] by (metis less_numeral_extra(3) unat_0)
  show ?thesis
    using assms tokens d kd wz
    by (auto simp: parse_profile_change_def change_tokens_def sendable_def
        parse_canonical_unsigned_iff parse_canonical_loss_iff parse_setting_iff sint_of_nat_nonneg
        serialize_loss_eq
        split: if_splits option.splits)
qed

lemma parse_profile_change_complete:
  assumes "sendable c"
  shows "parse_profile_change (change_tokens c) = Some (normalize_change c)"
proof (cases c)
  case (SetDelay d v)
  with assms have "parse_canonical_unsigned (to_string_nat (unat v)) int64_max = Some (unat v)"
    by (simp add: sendable_def sint_nonneg_iff parse_canonical_unsigned_iff)
  with SetDelay assms show ?thesis
    by (cases d) (simp_all add: parse_profile_change_def change_tokens_def sendable_def parse_direction_def)
next
  case (SetJitter d v)
  with assms have "parse_canonical_unsigned (to_string_nat (unat v)) int64_max = Some (unat v)"
    by (simp add: sendable_def sint_nonneg_iff parse_canonical_unsigned_iff)
  with SetJitter assms show ?thesis
    by (cases d) (simp_all add: parse_profile_change_def change_tokens_def sendable_def parse_direction_def)
next
  case (SetPacketLoss d w)
  with assms have "parse_canonical_loss (to_chars_general 17 (normalize_loss w)) = Some (normalize_loss w)"
    by (simp add: sendable_def parse_canonical_loss_iff serialize_loss_eq valid_loss_normalize)
  with SetPacketLoss assms show ?thesis
    by (cases d) (simp_all add: parse_profile_change_def change_tokens_def sendable_def parse_direction_def)
next
  case (SetBandwidth d v)
  have "parse_canonical_unsigned (to_string_nat (unat v)) uint64_max = Some (unat v)"
    by (simp add: parse_canonical_unsigned_iff)
  with SetBandwidth assms show ?thesis
    by (cases d) (simp_all add: parse_profile_change_def change_tokens_def sendable_def
        parse_direction_def unat_eq_0)
next
  case (ResetSetting d s)
  with assms show ?thesis
    by (cases d; cases s) (simp_all add: parse_profile_change_def change_tokens_def sendable_def
        parse_direction_def parse_setting_def)
qed

lemma change_tokens_wire:
  assumes "sendable c"
  shows "list_all wire_token (change_tokens c)" and "list_all one_line (change_tokens c)"
proof -
  have loss: "wire_token (to_chars_general 17 (normalize_loss w)) \<and> one_line (to_chars_general 17 (normalize_loss w))"
    if "valid_loss w" for w
    using serialize_loss_token [of w "to_chars_general 17 (normalize_loss w)"] that
    by (simp add: serialize_loss_eq)
  have d: "wire_token (direction_token d) \<and> one_line (direction_token d)" if "known_direction d" for d
    using that by (cases d) simp_all
  have s: "wire_token (setting_token d) \<and> one_line (setting_token d)" if "known_setting d" for d
    using that by (cases d) simp_all
  show "list_all wire_token (change_tokens c)" "list_all one_line (change_tokens c)"
    using assms by (cases c; simp add: change_tokens_def sendable_def d s loss)+
qed

lemma one_line_change: "sendable c \<Longrightarrow> one_line (join_tokens (change_tokens c))"
  using change_tokens_wire(2) [of c] by (simp add: change_tokens_def)

lemma change_line_not_stop:
  "join_tokens (change_tokens c) \<notin> {''STOP TERM'', ''STOP KILL'', ''SHUTDOWN''}"
  by (cases c) (simp_all add: change_tokens_def)

text \<open>A change fits the helper's message limit.\<close>

lemma serialize_loss_length: "serialize_loss w = Some t \<Longrightarrow> length t \<le> 63"
proof -
  assume "serialize_loss w = Some t"
  then have v: "valid_loss w" and t: "t = to_chars_general 17 (normalize_loss w)"
    by (simp_all add: serialize_loss_eq split: if_splits)
  have fin: "isfinite (normalize_loss w)" using v valid_loss_normalize [of w] by (simp add: valid_loss_def)
  then have "t = general_text 17 (mag_of_bits (dbl_bits (normalize_loss w)))"
    using t valid_loss_nonnegative [OF v] by (simp add: to_chars_general_def isfinite_not_isnan)
  with general_text_length fin show ?thesis by (simp add: isfinite_def)
qed

lemma length_to_string_u64: "length (to_string_nat (unat (w :: u64))) \<le> 20"
proof (rule length_to_string_nat)
  have "unat w \<le> uint64_max" by simp
  also have "uint64_max < 10 ^ 20" by (simp add: uint64_max_def)
  finally show "unat w < 10 ^ 20" .
qed simp

lemma change_line_length:
  assumes "sendable c"
  shows "length (join_tokens (change_tokens c)) \<le> 100"
proof -
  have k: "length (change_keyword c) \<le> 21" by (cases c) simp_all
  have d: "length (direction_token d) \<le> 8" for d by (cases d) simp_all
  have n: "length (to_string_nat (unat (w :: u64))) \<le> 63" for w
    using length_to_string_u64 [of w] by linarith
  have t: "length (setting_token u) \<le> 63" for u by (cases u) simp_all
  have l: "length (to_chars_general 17 (normalize_loss w)) \<le> 63" if "valid_loss w" for w
    using serialize_loss_length [of w] that by (simp add: serialize_loss_eq)
  have "length (value_text c) \<le> 63"
    using assms by (cases c) (simp_all add: sendable_def n t l)
  with k d [of "change_direction c"] show ?thesis by (simp add: change_tokens_def)
qed

lemma parse_helper_runtime_command_change:
  "parse_helper_runtime_command line = Some (ProfileChangeCommand c) \<longleftrightarrow>
     serialize_profile_change c = line @ [newline] \<and> normalize_change c = c"
proof
  assume "parse_helper_runtime_command line = Some (ProfileChangeCommand c)"
  then obtain ts where "split_wire_tokens line = Some ts" "parse_profile_change ts = Some c"
    by (auto simp: parse_helper_runtime_command_def split: if_splits option.splits)
  with split_wire_tokens_sound [of line ts] parse_profile_change_sound [of ts c]
  show "serialize_profile_change c = line @ [newline] \<and> normalize_change c = c"
    by (simp add: serialize_profile_change_eq)
next
  assume a: "serialize_profile_change c = line @ [newline] \<and> normalize_change c = c"
  then have s: "sendable c" and line: "line = join_tokens (change_tokens c)"
    by (auto simp: serialize_profile_change_eq split: if_splits)
  have "split_wire_tokens line = Some (change_tokens c)"
    using change_tokens_wire(1) [OF s] unfolding line change_tokens_def
    by (simp add: split_wire_tokens_3)
  with parse_profile_change_complete [OF s] a change_line_not_stop [of c] line
  show "parse_helper_runtime_command line = Some (ProfileChangeCommand c)"
    by (simp add: parse_helper_runtime_command_def)
qed

text \<open>
  The line of a command, without its newline; \<open>None\<close> when the command is not sent or is
  not in its normal form.
\<close>

fun normal_command :: "helper_runtime_command \<Rightarrow> bool" where
  "normal_command (ProfileChangeCommand c) = (normalize_change c = c)"
| "normal_command _ = True"

definition command_line :: "helper_runtime_command \<Rightarrow> string option" where
  "command_line cmd =
     (if helper_runtime_command_message cmd = [] \<or> \<not> normal_command cmd then None
      else Some (butlast (helper_runtime_command_message cmd)))"

lemma command_line_change:
  "command_line (ProfileChangeCommand c) = Some l \<longleftrightarrow>
     serialize_profile_change c = l @ [newline] \<and> normalize_change c = c"
  by (auto simp: command_line_def serialize_profile_change_eq split: if_splits)

interpretation runtime_command: canonical_codec command_line parse_helper_runtime_command
proof
  show "parse_helper_runtime_command t = Some x" if "command_line x = Some t" for x t
  proof (cases x)
    case (ProfileChangeCommand c)
    with that show ?thesis by (simp add: command_line_change parse_helper_runtime_command_change)
  qed (use that in \<open>auto simp: command_line_def parse_helper_runtime_command_def\<close>)
  show "command_line x = Some t" if "parse_helper_runtime_command t = Some x" for x t
  proof (cases x)
    case (ProfileChangeCommand c)
    with that show ?thesis by (simp add: command_line_change parse_helper_runtime_command_change)
  qed (use that in \<open>auto simp: command_line_def parse_helper_runtime_command_def
      split: if_splits option.splits\<close>)
qed

section \<open>Properties\<close>

text \<open>
  C40: the text of a packet loss is exact: it is written for exactly the finite values from 0 to
  100, and reading it back gives the same 64 bits, minus zero becoming zero.
\<close>

theorem loss_text_exact:
  "(serialize_loss w = Some t \<longrightarrow> parse_canonical_loss t = Some (normalize_loss w))
     \<and> (serialize_loss w = None \<longleftrightarrow> \<not> valid_loss w)"
  using serialize_loss_normalize [of w] by (auto simp: parse_canonical_loss_iff serialize_loss_eq)

theorem loss_text_exact_witness:
  "\<exists>t. serialize_loss 0x4028000000000000 = Some t \<and> parse_canonical_loss t = Some 0x4028000000000000"
proof -
  have "valid_loss 0x4028000000000000"
    by (simp add: valid_loss_def isfinite_def dbl_key_def dbl_negative_def dbl_bits_def infinity_bits_def)
  moreover have "normalize_loss 0x4028000000000000 = 0x4028000000000000"
    by (simp add: normalize_loss_def dbl_eq_def dbl_key_def dbl_negative_def dbl_bits_def)
  ultimately show ?thesis
    using loss_text_exact [of "0x4028000000000000" "the (serialize_loss 0x4028000000000000)"]
    by (cases "serialize_loss 0x4028000000000000") auto
qed

text \<open>
  The helper accepts a line as a command exactly when it is what the printer writes for that
  command, in its normal form; every command has one spelling.
\<close>

theorem helper_command_canonical:
  "parse_helper_runtime_command line = Some cmd \<longleftrightarrow>
     helper_runtime_command_message cmd = line @ [newline] \<and> normal_command cmd"
proof -
  have "command_line cmd = Some line \<longleftrightarrow>
      helper_runtime_command_message cmd = line @ [newline] \<and> normal_command cmd"
    by (cases cmd) (auto simp: command_line_def serialize_profile_change_eq split: if_splits)
  then show ?thesis by (simp add: runtime_command.decode_iff)
qed

text \<open>
  A change is sent exactly when a default profile accepts it, and the helper then reads the
  same change, up to the sign of a zero packet loss.
\<close>

theorem profile_change_round_trip:
  assumes "apply_profile_change default_profile c = Inr q"
  shows "\<exists>line. serialize_profile_change c = line @ [newline] \<and> one_line line
    \<and> parse_helper_runtime_command line = Some (ProfileChangeCommand (normalize_change c))"
proof -
  from assms have s: "sendable c"
    using apply_accepts_iff [OF valid_default(2), of c] by (auto simp: sendable_def)
  then have "parse_helper_runtime_command (join_tokens (change_tokens c))
      = Some (ProfileChangeCommand (normalize_change c))"
    by (simp add: parse_helper_runtime_command_change serialize_profile_change_eq)
  with s one_line_change [OF s] show ?thesis by (simp add: serialize_profile_change_eq)
qed

theorem profile_change_round_trip_witness:
  "\<exists>line. serialize_profile_change (SetDelay Outbound 250) = line @ [newline] \<and> one_line line
    \<and> parse_helper_runtime_command line = Some (ProfileChangeCommand (SetDelay Outbound 250))"
  using profile_change_round_trip [of "SetDelay Outbound 250"
      "default_profile\<lparr>outbound := default_settings\<lparr>delay := 250\<rparr>\<rparr>"]
  by (simp add: apply_Inr_iff visit_change_def default_profile_def default_settings_def
      valid_profile_def valid_settings_def)

end
