(* ===== verification/Workload_Context.thy ===== *)
theory Workload_Context
  imports Wire
begin

text \<open>
  \<open>src/workload_context.hpp\<close> and \<open>src/workload_context.cpp\<close>: the working directory,
  arguments and environment of the workload, and the start block that carries them to the
  helper, one hexadecimal line per string. \<open>capture_workload_context\<close> reads the process
  and is modelled from the point where the strings are known.
\<close>

section \<open>Data and limits\<close>

record workload_context =
  working_directory :: string
  arguments :: "string list"
  environment :: "string list"

definition maximum_context_value_size :: nat where
  "maximum_context_value_size = 128 * 1024"

definition maximum_context_total_size :: nat where
  "maximum_context_total_size = 1024 * 1024"

definition maximum_context_entry_count :: nat where
  "maximum_context_entry_count = 4096"

definition contains_nul :: "string \<Rightarrow> bool" where
  "contains_nul value \<longleftrightarrow> find_char (CHR 0x00) value \<noteq> None"

text \<open>\<open>add_size\<close> returns the new total, \<open>None\<close> when the code returns false.\<close>

definition add_size :: "nat \<Rightarrow> nat \<Rightarrow> nat option" where
  "add_size subtotal value_size =
     (if maximum_context_value_size < value_size \<or> value_size = uint64_max
         \<or> maximum_context_total_size - (value_size + 1) < subtotal
      then None else Some (subtotal + (value_size + 1)))"

section \<open>Hexadecimal\<close>

definition hex_digits :: string where
  "hex_digits = ''0123456789ABCDEF''"

definition encode_hex :: "string \<Rightarrow> string" where
  "encode_hex value =
     concat (map (\<lambda>c. [hex_digits ! (byte_of c div 16), hex_digits ! (byte_of c mod 16)]) value)"

definition decode_nibble :: "char \<Rightarrow> nat option" where
  "decode_nibble c =
     (if 48 \<le> byte_of c \<and> byte_of c \<le> 57 then Some (byte_of c - 48)
      else if 65 \<le> byte_of c \<and> byte_of c \<le> 70 then Some (byte_of c - 65 + 10)
      else None)"

fun decode_pairs :: "string \<Rightarrow> string option" where
  "decode_pairs [] = Some []"
| "decode_pairs [_] = None"
| "decode_pairs (a # b # rest) =
     (case (decode_nibble a, decode_nibble b) of
        (Some high, Some low) \<Rightarrow>
          (let v = char_of (high * 16 + low)
           in if v = CHR 0x00 then None else map_option ((#) v) (decode_pairs rest))
      | _ \<Rightarrow> None)"

definition decode_hex :: "string \<Rightarrow> string option" where
  "decode_hex encoded =
     (if length encoded mod 2 \<noteq> 0 \<or> maximum_context_value_size < length encoded div 2
      then None else decode_pairs encoded)"

section \<open>The start block\<close>

text \<open>\<open>append_encoded_line\<close>: the extended block and the new total.\<close>

definition append_encoded_line ::
  "string \<Rightarrow> string \<Rightarrow> string \<Rightarrow> nat \<Rightarrow> (string \<times> nat) option" where
  "append_encoded_line block prefix value subtotal =
     (if contains_nul value then None
      else case add_size subtotal (length value) of
             None \<Rightarrow> None
           | Some subtotal' \<Rightarrow> Some (block @ prefix @ encode_hex value @ [newline], subtotal'))"

fun append_encoded_lines ::
  "string \<Rightarrow> string \<Rightarrow> string list \<Rightarrow> nat \<Rightarrow> (string \<times> nat) option" where
  "append_encoded_lines block prefix [] subtotal = Some (block, subtotal)"
| "append_encoded_lines block prefix (v # vs) subtotal =
     (case append_encoded_line block prefix v subtotal of
        None \<Rightarrow> None
      | Some (block', subtotal') \<Rightarrow> append_encoded_lines block' prefix vs subtotal')"

definition serialize_start_block :: "workload_context \<Rightarrow> string option" where
  "serialize_start_block context =
     (if working_directory context = [] \<or> hd (working_directory context) \<noteq> CHR ''/''
         \<or> arguments context = []
         \<or> maximum_context_entry_count < length (arguments context)
         \<or> maximum_context_entry_count < length (environment context)
      then None
      else case append_encoded_line (''START_BEGIN'' @ [newline]) ''CWD '' (working_directory context) 0 of
        None \<Rightarrow> None
      | Some (b1, t1) \<Rightarrow>
          (case append_encoded_lines b1 ''ARG '' (arguments context) t1 of
             None \<Rightarrow> None
           | Some (b2, t2) \<Rightarrow>
               (case append_encoded_lines b2 ''ENV '' (environment context) t2 of
                  None \<Rightarrow> None
                | Some (b3, _) \<Rightarrow> Some (b3 @ ''START_END'' @ [newline]))))"

definition take_value :: "string \<Rightarrow> string \<Rightarrow> nat \<Rightarrow> (string \<times> nat) option" where
  "take_value line prefix subtotal =
     (if \<not> starts_with prefix line then None
      else case decode_hex (drop (length prefix) line) of
             None \<Rightarrow> None
           | Some decoded \<Rightarrow>
               (case add_size subtotal (length decoded) of
                  None \<Rightarrow> None
                | Some subtotal' \<Rightarrow> Some (decoded, subtotal')))"

text \<open>
  One of the two loops of \<open>parse_start_block\<close>, from the current index: the values read, the
  subtotal and the lines from the new index on. The last line is never read as an entry.
\<close>

fun take_entries ::
  "string \<Rightarrow> string list \<Rightarrow> nat \<Rightarrow> string list \<Rightarrow> (string list \<times> nat \<times> string list) option" where
  "take_entries prefix values subtotal [] = Some (values, subtotal, [])"
| "take_entries prefix values subtotal (line # rest) =
     (if rest \<noteq> [] \<and> starts_with prefix line then
        (if length values = maximum_context_entry_count then None
         else case take_value line prefix subtotal of
                None \<Rightarrow> None
              | Some (v, subtotal') \<Rightarrow> take_entries prefix (values @ [v]) subtotal' rest)
      else Some (values, subtotal, line # rest))"

definition parse_start_block :: "string list \<Rightarrow> workload_context option" where
  "parse_start_block lines =
     (if length lines < 4 \<or> hd lines \<noteq> ''START_BEGIN'' \<or> last lines \<noteq> ''START_END'' then None
      else case take_value (lines ! 1) ''CWD '' 0 of
        None \<Rightarrow> None
      | Some (cwd, t1) \<Rightarrow>
          (if cwd = [] \<or> hd cwd \<noteq> CHR ''/'' then None
           else case take_entries ''ARG '' [] t1 (drop 2 lines) of
             None \<Rightarrow> None
           | Some (args, t2, rest1) \<Rightarrow>
               (if args = [] then None
                else case take_entries ''ENV '' [] t2 rest1 of
                  None \<Rightarrow> None
                | Some (env, _, rest2) \<Rightarrow>
                    (if length rest2 \<noteq> 1 then None
                     else Some \<lparr>working_directory = cwd, arguments = args, environment = env\<rparr>))))"

text \<open>\<open>capture_workload_context\<close> once the directory, \<open>argv\<close> and \<open>environ\<close> are read.\<close>

definition capture_workload_context ::
  "string list \<Rightarrow> string option \<Rightarrow> string list \<Rightarrow> workload_context option" where
  "capture_workload_context argv current_path environ =
     (if argv = [] then None
      else case current_path of
        None \<Rightarrow> None
      | Some path \<Rightarrow>
          (if path = [] \<or> hd path \<noteq> CHR ''/'' then None
           else let context = \<lparr>working_directory = path, arguments = argv, environment = environ\<rparr>
                in if serialize_start_block context = None then None else Some context))"

section \<open>Hexadecimal is canonical\<close>

lemma hex_digits_nth:
  assumes "n < 16"
  shows "byte_of (hex_digits ! n) = (if n < 10 then 48 + n else 55 + n)"
proof -
  have "\<forall>n \<in> set [0..<16]. byte_of (hex_digits ! n) = (if n < 10 then 48 + n else 55 + n)"
    by (simp add: upt_rec hex_digits_def byte_of_def)
  with assms show ?thesis by simp
qed

lemma decode_nibble_hex [simp]: "n < 16 \<Longrightarrow> decode_nibble (hex_digits ! n) = Some n"
  by (auto simp: decode_nibble_def hex_digits_nth)

lemma decode_nibble_Some:
  assumes "decode_nibble c = Some n"
  shows "n < 16 \<and> hex_digits ! n = c"
proof -
  from assms have n: "n < 16" "byte_of c = (if n < 10 then 48 + n else 55 + n)"
    by (auto simp: decode_nibble_def split: if_splits)
  with hex_digits_nth [OF n(1)] have "byte_of (hex_digits ! n) = byte_of c" by simp
  with n(1) show ?thesis by (simp only: byte_of_inject simp_thms)
qed

lemma encode_hex_simps [simp]:
  "encode_hex [] = []"
  "encode_hex (c # s) =
     hex_digits ! (byte_of c div 16) # hex_digits ! (byte_of c mod 16) # encode_hex s"
  by (simp_all add: encode_hex_def)

lemma length_encode_hex [simp]: "length (encode_hex s) = 2 * length s"
  by (induction s) auto

lemma byte_div_16 [simp]: "byte_of c div 16 < 16"
  using byte_of_less [of c] by (simp add: less_mult_imp_div_less)

lemma contains_nul_iff: "contains_nul s \<longleftrightarrow> CHR 0x00 \<in> set s"
  by (simp add: contains_nul_def find_char_None_iff)

lemma decode_pairs_encode: "\<not> contains_nul s \<Longrightarrow> decode_pairs (encode_hex s) = Some s"
  by (induction s) (auto simp: contains_nul_iff)

lemma decode_pairs_Some: "decode_pairs t = Some s \<Longrightarrow> t = encode_hex s \<and> \<not> contains_nul s"
proof (induction t arbitrary: s rule: decode_pairs.induct)
  case 1
  then show ?case by (simp add: contains_nul_iff)
next
  case (2 c)
  then show ?case by simp
next
  case (3 a b rest)
  then obtain h l r where d: "decode_nibble a = Some h" "decode_nibble b = Some l"
    and v: "char_of (h * 16 + l) \<noteq> CHR 0x00" and r: "decode_pairs rest = Some r"
    and s: "s = char_of (h * 16 + l) # r"
    by (auto simp: Let_def split: option.splits if_splits)
  from "3.IH" [OF _ _ _ _ _ r] d v have IH: "rest = encode_hex r" "\<not> contains_nul r" by auto
  from d have n: "h < 16" "l < 16" "hex_digits ! h = a" "hex_digits ! l = b"
    using decode_nibble_Some by blast+
  then have "byte_of (char_of (h * 16 + l)) = h * 16 + l" by (intro byte_of_char_of) linarith
  with n IH s v show ?case by (auto simp: contains_nul_iff)
qed

text \<open>The hexadecimal form of a value the block may carry.\<close>

definition encode_value :: "string \<Rightarrow> string option" where
  "encode_value v =
     (if contains_nul v \<or> maximum_context_value_size < length v then None else Some (encode_hex v))"

interpretation hex: canonical_codec encode_value decode_hex
proof
  show "decode_hex t = Some x" if "encode_value x = Some t" for x t
    using that by (auto simp: encode_value_def decode_hex_def decode_pairs_encode split: if_splits)
  show "encode_value x = Some t" if "decode_hex t = Some x" for x t
    using that by (auto simp: encode_value_def decode_hex_def dest: decode_pairs_Some split: if_splits)
qed

lemma one_line_encode_hex [simp]: "one_line (encode_hex s)"
proof -
  have "hex_digits ! n \<noteq> newline" if "n < 16" for n
  proof
    assume "hex_digits ! n = newline"
    with hex_digits_nth [OF that] show False by (simp add: byte_of_def split: if_splits)
  qed
  then show ?thesis by (induction s) simp_all
qed

section \<open>The start block is canonical\<close>

text \<open>The sizes of a list of values, added one after the other.\<close>

fun add_sizes :: "nat \<Rightarrow> string list \<Rightarrow> nat option" where
  "add_sizes t [] = Some t"
| "add_sizes t (v # vs) = Option.bind (add_size t (length v)) (\<lambda>t'. add_sizes t' vs)"

definition plain :: "string list \<Rightarrow> bool" where
  "plain vs \<longleftrightarrow> list_all (\<lambda>v. \<not> contains_nul v) vs"

lemma plain_simps [simp]:
  "plain []" "plain (v # vs) \<longleftrightarrow> \<not> contains_nul v \<and> plain vs" "plain (a @ b) \<longleftrightarrow> plain a \<and> plain b"
  by (simp_all add: plain_def)

definition hex_lines :: "string \<Rightarrow> string list \<Rightarrow> string list" where
  "hex_lines prefix vs = map (\<lambda>v. prefix @ encode_hex v) vs"

lemma hex_lines_simps [simp]:
  "hex_lines p [] = []" "hex_lines p (v # vs) = (p @ encode_hex v) # hex_lines p vs"
  by (simp_all add: hex_lines_def)

lemma append_encoded_lines_eq:
  "append_encoded_lines b p vs t =
     (if plain vs then map_option (\<lambda>t'. (b @ unlines (hex_lines p vs), t')) (add_sizes t vs)
      else None)"
  by (induction b p vs t rule: append_encoded_lines.induct)
    (auto simp: append_encoded_line_def split: option.splits)

lemma add_size_bound: "add_size t n = Some t' \<Longrightarrow> n \<le> maximum_context_value_size"
  by (auto simp: add_size_def split: if_splits)

lemma take_value_iff:
  "take_value line p t = Some (v, t') \<longleftrightarrow>
     line = p @ encode_hex v \<and> \<not> contains_nul v \<and> add_size t (length v) = Some t'"
proof
  assume "take_value line p t = Some (v, t')"
  then show "line = p @ encode_hex v \<and> \<not> contains_nul v \<and> add_size t (length v) = Some t'"
    by (auto simp: take_value_def hex.decode_iff encode_value_def dest!: starts_with_drop
        split: option.splits if_splits)
next
  assume "line = p @ encode_hex v \<and> \<not> contains_nul v \<and> add_size t (length v) = Some t'"
  then show "take_value line p t = Some (v, t')"
    using hex.decode_encode [of v "encode_hex v"] add_size_bound [of t "length v" t']
    by (auto simp: take_value_def encode_value_def)
qed

text \<open>What the loop reads: as many entries as carry the prefix, before the last line.\<close>

lemma take_entries_complete:
  assumes "plain vs" "add_sizes t vs = Some t'" "length acc + length vs \<le> maximum_context_entry_count"
    and "rest \<noteq> []" and "tl rest \<noteq> [] \<longrightarrow> \<not> starts_with p (hd rest)"
  shows "take_entries p acc t (hex_lines p vs @ rest) = Some (acc @ vs, t', rest)"
  using assms
proof (induction vs arbitrary: acc t)
  case Nil
  then show ?case by (cases rest) auto
next
  case (Cons v vs)
  from Cons.prems(2) obtain u where u: "add_size t (length v) = Some u" "add_sizes u vs = Some t'"
    by (auto simp: option_bind_Some_iff)
  with Cons.prems have "take_value (p @ encode_hex v) p t = Some (v, u)"
    by (simp add: take_value_iff)
  with Cons.IH [of u "acc @ [v]"] Cons.prems u show ?case by simp
qed

lemma take_entries_sound:
  assumes "take_entries p acc t ls = Some (out, t', rest)" "length acc \<le> maximum_context_entry_count"
  shows "\<exists>vs. out = acc @ vs \<and> plain vs \<and> add_sizes t vs = Some t' \<and> ls = hex_lines p vs @ rest
    \<and> length out \<le> maximum_context_entry_count"
  using assms
proof (induction p acc t ls rule: take_entries.induct)
  case (1 p acc t)
  then show ?case by auto
next
  case (2 p acc t line ls)
  show ?case
  proof (cases "ls \<noteq> [] \<and> starts_with p line")
    case False
    with "2.prems" show ?thesis by (auto split: if_splits)
  next
    case True
    with "2.prems" have ne: "length acc \<noteq> maximum_context_entry_count" by (auto split: if_splits)
    with True "2.prems" obtain v u where v: "take_value line p t = Some (v, u)"
      and r: "take_entries p (acc @ [v]) u ls = Some (out, t', rest)"
      by (auto split: option.splits)
    have "length (acc @ [v]) \<le> maximum_context_entry_count" using ne "2.prems"(2) by simp
    from "2.IH" [OF True ne v refl r this] obtain vs where "out = acc @ v # vs" "plain vs"
      "add_sizes u vs = Some t'" "ls = hex_lines p vs @ rest"
      "length out \<le> maximum_context_entry_count" by auto
    with v have "out = acc @ (v # vs) \<and> plain (v # vs) \<and> add_sizes t (v # vs) = Some t'
        \<and> line # ls = hex_lines p (v # vs) @ rest \<and> length out \<le> maximum_context_entry_count"
      by (simp add: take_value_iff)
    then show ?thesis by blast
  qed
qed

text \<open>The lines of a start block.\<close>

definition start_lines :: "workload_context \<Rightarrow> string list" where
  "start_lines c =
     [''START_BEGIN'', ''CWD '' @ encode_hex (working_directory c)]
     @ hex_lines ''ARG '' (arguments c) @ hex_lines ''ENV '' (environment c) @ [''START_END'']"

definition well_formed_context :: "workload_context \<Rightarrow> bool" where
  "well_formed_context c \<longleftrightarrow>
     working_directory c \<noteq> [] \<and> hd (working_directory c) = CHR ''/'' \<and> arguments c \<noteq> []
     \<and> length (arguments c) \<le> maximum_context_entry_count
     \<and> length (environment c) \<le> maximum_context_entry_count
     \<and> plain (working_directory c # arguments c @ environment c)
     \<and> add_sizes 0 (working_directory c # arguments c @ environment c) \<noteq> None"

lemma add_sizes_append: "add_sizes t (a @ b) = Option.bind (add_sizes t a) (\<lambda>u. add_sizes u b)"
  by (induction a arbitrary: t) (auto split: bind_splits)

lemma serialize_start_block_iff:
  "serialize_start_block c = Some b \<longleftrightarrow> well_formed_context c \<and> b = unlines (start_lines c)"
proof (cases "add_size 0 (length (working_directory c))")
  case None
  then show ?thesis
    by (auto simp: serialize_start_block_def append_encoded_line_def well_formed_context_def)
next
  case (Some t1)
  then have line: "append_encoded_line b0 p (working_directory c) 0 =
      (if contains_nul (working_directory c) then None
       else Some (b0 @ p @ encode_hex (working_directory c) @ [newline], t1))" for b0 p
    by (simp add: append_encoded_line_def)
  show ?thesis
    unfolding serialize_start_block_def line append_encoded_lines_eq
    by (auto simp: well_formed_context_def start_lines_def Some add_sizes_append
        split: option.splits bind_splits)
qed

lemma parse_start_block_complete:
  assumes "well_formed_context c"
  shows "parse_start_block (start_lines c) = Some c"
proof -
  obtain t1 t2 t3 where t: "add_size 0 (length (working_directory c)) = Some t1"
    "add_sizes t1 (arguments c) = Some t2" "add_sizes t2 (environment c) = Some t3"
    using assms by (auto simp: well_formed_context_def add_sizes_append option_bind_Some_iff)
  have cwd: "take_value (''CWD '' @ encode_hex (working_directory c)) ''CWD '' 0
      = Some (working_directory c, t1)"
    unfolding take_value_iff using assms t by (simp add: well_formed_context_def)
  have args: "take_entries ''ARG '' [] t1
      (hex_lines ''ARG '' (arguments c) @ hex_lines ''ENV '' (environment c) @ [''START_END''])
      = Some (arguments c, t2, hex_lines ''ENV '' (environment c) @ [''START_END''])"
    using take_entries_complete [of "arguments c" t1 t2 "[]"
        "hex_lines ''ENV '' (environment c) @ [''START_END'']" "''ARG ''"] assms t
    by (cases "environment c") (auto simp: well_formed_context_def)
  have env: "take_entries ''ENV '' [] t2 (hex_lines ''ENV '' (environment c) @ [''START_END''])
      = Some (environment c, t3, [''START_END''])"
    using take_entries_complete [of "environment c" t2 t3 "[]" "[''START_END'']" "''ENV ''"] assms t
    by (auto simp: well_formed_context_def)
  have len: "\<not> length (start_lines c) < 4"
    using assms by (cases "arguments c") (auto simp: start_lines_def well_formed_context_def hex_lines_def)
  have parts: "hd (start_lines c) = ''START_BEGIN''" "last (start_lines c) = ''START_END''"
    "start_lines c ! 1 = ''CWD '' @ encode_hex (working_directory c)"
    "drop 2 (start_lines c) =
       hex_lines ''ARG '' (arguments c) @ hex_lines ''ENV '' (environment c) @ [''START_END'']"
    by (simp_all add: start_lines_def)
  show ?thesis
    unfolding parse_start_block_def parts cwd using len assms
    by (simp add: args env well_formed_context_def)
qed

lemma parse_start_block_sound:
  assumes "parse_start_block ls = Some c"
  shows "well_formed_context c \<and> ls = start_lines c"
proof -
  from assms obtain cwd t1 args t2 rest1 env t3 rest2
    where len: "4 \<le> length ls" and hd: "hd ls = ''START_BEGIN''" and last: "last ls = ''START_END''"
      and cwd: "take_value (ls ! 1) ''CWD '' 0 = Some (cwd, t1)" "cwd \<noteq> []" "hd cwd = CHR ''/''"
      and args: "take_entries ''ARG '' [] t1 (drop 2 ls) = Some (args, t2, rest1)" "args \<noteq> []"
      and env: "take_entries ''ENV '' [] t2 rest1 = Some (env, t3, rest2)" "length rest2 = 1"
      and c: "c = \<lparr>working_directory = cwd, arguments = args, environment = env\<rparr>"
    by (auto simp: parse_start_block_def split: option.splits if_splits)
  from take_entries_sound [OF args(1)] have A: "plain args" "add_sizes t1 args = Some t2"
    "drop 2 ls = hex_lines ''ARG '' args @ rest1" "length args \<le> maximum_context_entry_count" by auto
  from take_entries_sound [OF env(1)] have E: "plain env" "add_sizes t2 env = Some t3"
    "rest1 = hex_lines ''ENV '' env @ rest2" "length env \<le> maximum_context_entry_count" by auto
  from cwd(1) have C: "ls ! 1 = ''CWD '' @ encode_hex cwd" "\<not> contains_nul cwd"
    "add_size 0 (length cwd) = Some t1" by (simp_all add: take_value_iff)
  obtain a b r where ls: "ls = a # b # r" "r \<noteq> []"
    using len by (cases ls; cases "tl ls"; cases "tl (tl ls)") auto
  have "rest2 = [''START_END'']"
  proof -
    obtain x where x: "rest2 = [x]" using env(2) by (cases rest2) auto
    with ls A(3) E(3) last show ?thesis by simp
  qed
  with ls hd C A E have "ls = start_lines c" by (simp add: start_lines_def c)
  moreover have "well_formed_context c"
    using cwd args C A E by (simp add: well_formed_context_def c add_sizes_append)
  ultimately show ?thesis by simp
qed

lemma parse_start_block_iff:
  "parse_start_block ls = Some c \<longleftrightarrow> well_formed_context c \<and> ls = start_lines c"
  using parse_start_block_complete parse_start_block_sound by blast

lemma one_line_start_lines [simp]: "list_all one_line (start_lines c)"
  by (auto simp: start_lines_def hex_lines_def list_all_iff)

text \<open>
  The block as text and the lines the helper splits it into are one canonical codec.
\<close>

definition serialize_start_lines :: "workload_context \<Rightarrow> string list option" where
  "serialize_start_lines c = (if serialize_start_block c = None then None else Some (start_lines c))"

interpretation start_block: canonical_codec serialize_start_lines parse_start_block
proof
  show "parse_start_block t = Some x" if "serialize_start_lines x = Some t" for x t
    using that serialize_start_block_iff [of x "unlines (start_lines x)"]
    by (cases "serialize_start_block x")
      (auto simp: serialize_start_lines_def parse_start_block_iff serialize_start_block_iff)
  show "serialize_start_lines x = Some t" if "parse_start_block t = Some x" for x t
    using that serialize_start_block_iff [of x "unlines (start_lines x)"]
    by (auto simp: serialize_start_lines_def parse_start_block_iff)
qed

section \<open>Properties\<close>

text \<open>
  A list of lines parses as a start block exactly when it is what the serializer writes for
  the parsed context: nothing else is accepted, and no two contexts share a block.
\<close>

theorem start_block_canonical:
  "parse_start_block ls = Some c \<longleftrightarrow>
     (serialize_start_block c = Some (unlines ls) \<and> list_all one_line ls)"
  using unlines_inject [of ls "start_lines c"]
  by (auto simp: parse_start_block_iff serialize_start_block_iff)

text \<open>
  Hexadecimal decoding accepts exactly the upper-case encodings of NUL-free values up to
  the size limit.
\<close>

theorem decode_hex_canonical:
  "decode_hex t = Some v \<longleftrightarrow>
     t = encode_hex v \<and> CHR 0x00 \<notin> set v \<and> length v \<le> maximum_context_value_size"
  using hex.decode_iff [of t v] by (auto simp: encode_value_def contains_nul_iff)

end
