(* ===== verification/Helper_Conversations.thy ===== *)
theory Helper_Conversations
  imports Helper_Messages Workload_Context
begin

text \<open>
  The three conversations of \<open>src/helper_protocol.cpp\<close>: the helper receives one start block,
  then runtime commands, and the supervisor receives the helper's events. Each is a record and
  a loop that takes complete lines off its buffer. The two streaming conversations satisfy the
  line contract of theory \<open>Wire\<close>, so the way a stream is cut into reads does not matter.
\<close>

section \<open>The start conversation\<close>

definition maximum_encoded_start_block_size :: nat where
  "maximum_encoded_start_block_size =
     maximum_context_total_size * 2 + (maximum_context_entry_count * 2 + 4) * 6"

definition maximum_encoded_context_line_size :: nat where
  "maximum_encoded_context_line_size = maximum_context_value_size * 2 + 5"

datatype start_block_state = Block_Incomplete | Block_Complete | Block_Invalid

record start_conversation =
  sc_buffer :: string
  sc_lines :: "string list"
  sc_encoded_size :: nat
  sc_started :: bool
  sc_finished :: bool

definition new_start_conversation :: start_conversation where
  "new_start_conversation =
     \<lparr>sc_buffer = [], sc_lines = [], sc_encoded_size = 0, sc_started = False, sc_finished = False\<rparr>"

type_synonym start_feed_result = "start_block_state \<times> workload_context option"

definition start_invalid :: "start_conversation \<Rightarrow> start_conversation \<times> start_feed_result" where
  "start_invalid s = (s\<lparr>sc_finished := True\<rparr>, Block_Invalid, None)"

text \<open>
  The \<open>while (true)\<close> loop of \<open>HelperStartConversation::receive_bytes\<close>. The sizes
  are natural numbers: each subtraction follows a test that keeps it from wrapping.
\<close>

function start_loop :: "start_conversation \<Rightarrow> start_conversation \<times> start_feed_result" where
  "start_loop s =
     (case find_char newline (sc_buffer s) of
        None \<Rightarrow>
          (if maximum_encoded_context_line_size < length (sc_buffer s)
              \<or> maximum_encoded_start_block_size - length (sc_buffer s) < sc_encoded_size s
           then start_invalid s
           else (s, Block_Incomplete, None))
      | Some n \<Rightarrow>
          (if maximum_encoded_context_line_size < n
              \<or> maximum_encoded_start_block_size - (n + 1) < sc_encoded_size s
              \<or> maximum_context_entry_count * 2 + 2 < length (sc_lines s)
           then start_invalid s
           else
             (let line = substr (sc_buffer s) 0 n;
                  s1 = s\<lparr>sc_buffer := drop (n + 1) (sc_buffer s),
                         sc_encoded_size := sc_encoded_size s + (length line + 1)\<rparr>
              in if sc_lines s = [] \<and> line \<noteq> ''START_BEGIN'' then start_invalid s1
                 else
                   (let s2 = (if sc_lines s = [] then s1\<lparr>sc_started := True\<rparr> else s1)
                               \<lparr>sc_lines := sc_lines s @ [line]\<rparr>
                    in if line \<noteq> ''START_END'' then start_loop s2
                       else
                         (let s3 = s2\<lparr>sc_finished := True\<rparr>
                          in if sc_buffer s3 \<noteq> [] then (s3, Block_Invalid, None)
                             else case parse_start_block (sc_lines s3) of
                                    None \<Rightarrow> (s3, Block_Invalid, None)
                                  | Some context \<Rightarrow> (s3, Block_Complete, Some context))))))"
  by pat_completeness auto
termination
  by (relation "measure (\<lambda>s. length (sc_buffer s))") (auto dest: find_char_Some_less)

declare start_loop.simps [simp del]

definition start_receive_bytes ::
  "start_conversation \<Rightarrow> string \<Rightarrow> start_conversation \<times> start_feed_result" where
  "start_receive_bytes s bytes =
     (if sc_finished s then (s, Block_Invalid, None)
      else start_loop (s\<lparr>sc_buffer := sc_buffer s @ bytes\<rparr>))"

text \<open>Feeding reads one after the other.\<close>

fun start_feed :: "start_conversation \<Rightarrow> string list \<Rightarrow> start_feed_result list" where
  "start_feed s [] = []"
| "start_feed s (c # cs) = (case start_receive_bytes s c of (s', r) \<Rightarrow> r # start_feed s' cs)"

section \<open>The runtime conversation of the helper\<close>

record runtime_conversation =
  rc_buffer :: string
  rc_pending :: "profile_change option"
  rc_valid :: bool
  rc_workload_finished :: bool
  rc_stopping :: bool
  rc_profile_state_unknown :: bool

definition new_runtime_conversation :: runtime_conversation where
  "new_runtime_conversation =
     \<lparr>rc_buffer = [], rc_pending = None, rc_valid = True, rc_workload_finished = False,
      rc_stopping = False, rc_profile_state_unknown = False\<rparr>"

record runtime_feed_result =
  feed_valid :: bool
  feed_commands :: "helper_runtime_command list"
  feed_response :: "string option"

definition runtime_invalid ::
  "runtime_conversation \<Rightarrow> helper_runtime_command list \<Rightarrow> runtime_conversation \<times> runtime_feed_result" where
  "runtime_invalid s commands =
     (s\<lparr>rc_valid := False, rc_buffer := []\<rparr>,
      \<lparr>feed_valid = False, feed_commands = commands,
       feed_response = Some invalid_runtime_command_message\<rparr>)"

fun is_profile_change :: "helper_runtime_command \<Rightarrow> bool" where
  "is_profile_change (ProfileChangeCommand _) = True"
| "is_profile_change _ = False"

definition ignored_command :: "runtime_conversation \<Rightarrow> helper_runtime_command option \<Rightarrow> bool" where
  "ignored_command s command \<longleftrightarrow>
     (case command of Some cmd \<Rightarrow> rc_profile_state_unknown s \<and> is_profile_change cmd | None \<Rightarrow> False)"

definition refused_command :: "runtime_conversation \<Rightarrow> helper_runtime_command option \<Rightarrow> bool" where
  "refused_command s command \<longleftrightarrow>
     (case command of
        None \<Rightarrow> True
      | Some cmd \<Rightarrow> rc_workload_finished s
          \<or> (is_profile_change cmd
             \<and> (rc_pending s \<noteq> None \<or> rc_stopping s \<or> rc_profile_state_unknown s)))"

fun note_command :: "helper_runtime_command \<Rightarrow> runtime_conversation \<Rightarrow> runtime_conversation" where
  "note_command (ProfileChangeCommand change) s = s\<lparr>rc_pending := Some change\<rparr>"
| "note_command _ s = s\<lparr>rc_stopping := True\<rparr>"

lemma note_command_buffer [simp]: "rc_buffer (note_command c s) = rc_buffer s"
  by (cases c) simp_all

function runtime_loop ::
  "runtime_conversation \<Rightarrow> helper_runtime_command list \<Rightarrow> runtime_conversation \<times> runtime_feed_result" where
  "runtime_loop s commands =
     (case find_char newline (rc_buffer s) of
        None \<Rightarrow>
          (if maximum_helper_message_size < length (rc_buffer s) then runtime_invalid s commands
           else (s, \<lparr>feed_valid = True, feed_commands = commands, feed_response = None\<rparr>))
      | Some n \<Rightarrow>
          (if maximum_helper_message_size < n then runtime_invalid s commands
           else
             (let line = substr (rc_buffer s) 0 n;
                  s1 = s\<lparr>rc_buffer := drop (n + 1) (rc_buffer s)\<rparr>;
                  command = parse_helper_runtime_command line
              in if ignored_command s1 command then runtime_loop s1 commands
                 else if refused_command s1 command then runtime_invalid s1 commands
                 else runtime_loop (note_command (the command) s1) (commands @ [the command]))))"
  by pat_completeness auto
termination
  by (relation "measure (\<lambda>(s, _). length (rc_buffer s))") (auto dest: find_char_Some_less)

declare runtime_loop.simps [simp del]

definition runtime_receive_bytes ::
  "runtime_conversation \<Rightarrow> string \<Rightarrow> runtime_conversation \<times> runtime_feed_result" where
  "runtime_receive_bytes s bytes =
     (if \<not> rc_valid s
      then (s, \<lparr>feed_valid = False, feed_commands = [], feed_response = None\<rparr>)
      else runtime_loop (s\<lparr>rc_buffer := rc_buffer s @ bytes\<rparr>) [])"

datatype profile_change_completion =
  Completion_Applied | Completion_Restored_After_Failure | Completion_State_Unknown

definition complete_profile_change ::
  "runtime_conversation \<Rightarrow> profile_change_completion \<Rightarrow> runtime_conversation \<times> string option" where
  "complete_profile_change s completion =
     (if \<not> rc_valid s \<or> rc_workload_finished s \<or> rc_pending s = None then (s, None)
      else
        (let s1 = s\<lparr>rc_pending := None\<rparr>
         in case completion of
              Completion_Applied \<Rightarrow> (s1, Some (''PROFILE_OK'' @ [newline]))
            | Completion_Restored_After_Failure \<Rightarrow>
                (s1, Some (''PROFILE_FAILED APPLY_FAILED'' @ [newline]))
            | Completion_State_Unknown \<Rightarrow>
                (s1\<lparr>rc_profile_state_unknown := True\<rparr>,
                 Some (''ERROR PROFILE_STATE_UNKNOWN'' @ [newline]))))"

definition runtime_workload_finished :: "runtime_conversation \<Rightarrow> runtime_conversation" where
  "runtime_workload_finished s =
     s\<lparr>rc_workload_finished := True, rc_pending := None, rc_buffer := []\<rparr>"

section \<open>The conversation of the supervisor\<close>

datatype supervisor_state =
    Waiting_For_Ready
  | Waiting_For_Activation
  | Active
  | Profile_State_Unknown
  | Waiting_For_Cleanup
  | Finished
  | Failed

record supervisor_conversation =
  su_buffer :: string
  su_pending :: "profile_change option"
  su_state :: supervisor_state

definition new_supervisor_conversation :: supervisor_conversation where
  "new_supervisor_conversation =
     \<lparr>su_buffer = [], su_pending = None, su_state = Waiting_For_Ready\<rparr>"

definition begin_profile_change ::
  "supervisor_conversation \<Rightarrow> profile_change \<Rightarrow> supervisor_conversation \<times> string option" where
  "begin_profile_change s change =
     (if su_state s \<noteq> Active \<or> su_pending s \<noteq> None then (s, None)
      else
        (let message = serialize_profile_change change
         in if message = [] then (s, None) else (s\<lparr>su_pending := Some change\<rparr>, Some message)))"

text \<open>The handling of one line: the event and the new state; no event is a protocol error.\<close>

definition supervisor_line ::
  "supervisor_conversation \<Rightarrow> string \<Rightarrow> supervisor_conversation \<times> helper_conversation_event option" where
  "supervisor_line s line =
     (if su_state s = Active \<and> su_pending s \<noteq> None \<and> line = ''PROFILE_OK'' then
        (s\<lparr>su_pending := None\<rparr>, Some (ProfileChangeResultEvent Result_Applied (the (su_pending s))))
      else if su_state s = Active \<and> su_pending s \<noteq> None \<and> line = ''PROFILE_FAILED APPLY_FAILED'' then
        (s\<lparr>su_pending := None\<rparr>,
         Some (ProfileChangeResultEvent Result_Restored_After_Failure (the (su_pending s))))
      else if su_state s = Active \<and> su_pending s \<noteq> None \<and> line = ''ERROR PROFILE_STATE_UNKNOWN'' then
        (s\<lparr>su_pending := None, su_state := Profile_State_Unknown\<rparr>, Some ProfileStateUnknownEvent)
      else if starts_with helper_error_prefix line then
        (s\<lparr>su_pending := None, su_state := Failed\<rparr>, Some ConversationLostEvent)
      else if su_state s = Waiting_For_Ready \<and> line = ''READY'' then
        (s\<lparr>su_state := Waiting_For_Activation\<rparr>, Some ReadyEvent)
      else if su_state s = Waiting_For_Activation then
        (case parse_value_after line ''ACTIVE '' 1 1000000000 of
           Some pid \<Rightarrow> (s\<lparr>su_state := Active\<rparr>, Some (ActivatedEvent pid))
         | None \<Rightarrow>
             (case parse_value_after line ''START_FAILED '' 125 127 of
                Some result \<Rightarrow>
                  (s\<lparr>su_state := Waiting_For_Cleanup\<rparr>, Some (ActivationFailedEvent result))
              | None \<Rightarrow> (s, None)))
      else if su_state s = Active \<or> su_state s = Profile_State_Unknown then
        (case parse_value_after line ''WORKLOAD_EXITED '' 0 255 of
           Some result \<Rightarrow>
             (s\<lparr>su_pending := None, su_state := Waiting_For_Cleanup\<rparr>, Some (WorkloadExitedEvent result))
         | None \<Rightarrow>
             (case parse_value_after line ''WORKLOAD_SIGNALED '' 1 127 of
                Some signal \<Rightarrow>
                  (s\<lparr>su_pending := None, su_state := Waiting_For_Cleanup\<rparr>,
                   Some (WorkloadSignaledEvent signal))
              | None \<Rightarrow> (s, None)))
      else if su_state s = Waiting_For_Cleanup then
        (if line = ''CLEANUP_OK'' then (s\<lparr>su_state := Finished\<rparr>, Some CleanupSucceededEvent)
         else if line = ''CLEANUP_FAILED'' then (s\<lparr>su_state := Finished\<rparr>, Some CleanupFailedEvent)
         else (s, None))
      else (s, None))"

definition supervisor_lost ::
  "supervisor_conversation \<Rightarrow> helper_conversation_event list
     \<Rightarrow> supervisor_conversation \<times> helper_conversation_event list" where
  "supervisor_lost s events =
     (s\<lparr>su_state := Failed, su_pending := None, su_buffer := []\<rparr>, events @ [ConversationLostEvent])"

definition keeps_buffer ::
  "string \<Rightarrow> supervisor_conversation \<times> helper_conversation_event option \<Rightarrow> bool" where
  "keeps_buffer b r \<longleftrightarrow> su_buffer (fst r) = b"

lemma keeps_buffer_intros:
  "su_buffer t = b \<Longrightarrow> keeps_buffer b (t, e)"
  "keeps_buffer b x \<Longrightarrow> keeps_buffer b y \<Longrightarrow> keeps_buffer b (if c then x else y)"
  "keeps_buffer b x \<Longrightarrow> (\<And>v. keeps_buffer b (f v)) \<Longrightarrow> keeps_buffer b (case oo of None \<Rightarrow> x | Some v \<Rightarrow> f v)"
  by (auto simp: keeps_buffer_def split: option.splits)

lemma supervisor_line_buffer [simp]: "su_buffer (fst (supervisor_line s l)) = su_buffer s"
proof -
  have "keeps_buffer (su_buffer s) (supervisor_line s l)"
    unfolding supervisor_line_def by (intro keeps_buffer_intros) simp_all
  then show ?thesis by (simp add: keeps_buffer_def)
qed

lemma supervisor_line_buffer': "supervisor_line s l = (s', e) \<Longrightarrow> su_buffer s' = su_buffer s"
  using supervisor_line_buffer [of s l] by simp

function supervisor_loop ::
  "supervisor_conversation \<Rightarrow> helper_conversation_event list
     \<Rightarrow> supervisor_conversation \<times> helper_conversation_event list" where
  "supervisor_loop s events =
     (case find_char newline (su_buffer s) of
        None \<Rightarrow>
          (if maximum_helper_message_size < length (su_buffer s) then supervisor_lost s events
           else (s, events))
      | Some n \<Rightarrow>
          (if maximum_helper_message_size < n then supervisor_lost s events
           else
             (let line = substr (su_buffer s) 0 n;
                  r = supervisor_line (s\<lparr>su_buffer := drop (n + 1) (su_buffer s)\<rparr>) line;
                  s1 = fst r
              in case snd r of
                   None \<Rightarrow> supervisor_lost s1 events
                 | Some event \<Rightarrow>
                     (if su_state s1 = Failed then (s1\<lparr>su_buffer := []\<rparr>, events @ [event])
                      else supervisor_loop s1 (events @ [event])))))"
  by pat_completeness auto
termination
  by (relation "measure (\<lambda>(s, _). length (su_buffer s))") (simp, simp, frule find_char_Some_less, simp)

declare supervisor_loop.simps [simp del]

definition supervisor_receive_bytes ::
  "supervisor_conversation \<Rightarrow> string
     \<Rightarrow> supervisor_conversation \<times> helper_conversation_event list" where
  "supervisor_receive_bytes s bytes =
     (if su_state s = Failed then (s, [])
      else supervisor_loop (s\<lparr>su_buffer := su_buffer s @ bytes\<rparr>) [])"

definition supervisor_peer_closed ::
  "supervisor_conversation \<Rightarrow> supervisor_conversation \<times> helper_conversation_event list" where
  "supervisor_peer_closed s =
     (if su_state s = Failed then (s, [])
      else if su_state s = Finished \<and> su_buffer s = [] then (s, [])
      else (s\<lparr>su_state := Failed, su_pending := None, su_buffer := []\<rparr>, [ConversationLostEvent]))"

section \<open>Both streaming conversations meet the line contract\<close>

text \<open>What a read makes the helper do: the commands it accepts and its answer.\<close>

definition feed_events :: "runtime_feed_result \<Rightarrow> (helper_runtime_command + string) list" where
  "feed_events r = map Inl (feed_commands r)
     @ (case feed_response r of None \<Rightarrow> [] | Some m \<Rightarrow> [Inr m])"

definition runtime_run ::
  "runtime_conversation \<Rightarrow> runtime_conversation \<times> (helper_runtime_command + string) list" where
  "runtime_run s = (case runtime_loop s [] of (s', r) \<Rightarrow> (s', feed_events r))"

definition runtime_receive ::
  "runtime_conversation \<Rightarrow> string \<Rightarrow> runtime_conversation \<times> (helper_runtime_command + string) list" where
  "runtime_receive s b = (case runtime_receive_bytes s b of (s', r) \<Rightarrow> (s', feed_events r))"

definition runtime_overflow ::
  "runtime_conversation \<Rightarrow> runtime_conversation \<times> (helper_runtime_command + string) list" where
  "runtime_overflow s =
     (s\<lparr>rc_valid := False, rc_buffer := []\<rparr>, [Inr invalid_runtime_command_message])"

definition runtime_line ::
  "runtime_conversation \<Rightarrow> string
     \<Rightarrow> runtime_conversation \<times> (helper_runtime_command + string) list" where
  "runtime_line s line =
     (let command = parse_helper_runtime_command line
      in if ignored_command s command then (s, [])
         else if refused_command s command then runtime_overflow s
         else (note_command (the command) s, [Inl (the command)]))"

lemma runtime_loop_prepend:
  "runtime_loop s (pre @ commands) =
     (case runtime_loop s commands of
        (s', r) \<Rightarrow> (s', r\<lparr>feed_commands := pre @ feed_commands r\<rparr>))"
proof (induction s commands rule: runtime_loop.induct)
  case (1 s commands)
  let ?n = "the (find_char newline (rc_buffer s))"
  let ?s1 = "s\<lparr>rc_buffer := drop (?n + 1) (rc_buffer s)\<rparr>"
  let ?c = "parse_helper_runtime_command (substr (rc_buffer s) 0 ?n)"
  consider (stop) "find_char newline (rc_buffer s) = None \<or> maximum_helper_message_size < ?n"
    | (line) n where "find_char newline (rc_buffer s) = Some n" "\<not> maximum_helper_message_size < n"
    by (cases "find_char newline (rc_buffer s)") auto
  then show ?case
  proof cases
    case stop
    then show ?thesis
      by (subst (1 2) runtime_loop.simps) (auto simp: runtime_invalid_def split: option.splits)
  next
    case line
    from "1.IH"(1) [OF line refl refl refl] "1.IH"(2) [OF line refl refl refl] line show ?thesis
      by (subst (1 2) runtime_loop.simps) (simp add: Let_def runtime_invalid_def)
  qed
qed

lemma runtime_loop_acc:
  "runtime_loop s commands =
     (case runtime_loop s [] of (s', r) \<Rightarrow> (s', r\<lparr>feed_commands := commands @ feed_commands r\<rparr>))"
  using runtime_loop_prepend [of s commands "[]"] by simp

lemma command_buffer [simp]:
  "ignored_command (s\<lparr>rc_buffer := b\<rparr>) c = ignored_command s c"
  "refused_command (s\<lparr>rc_buffer := b\<rparr>) c = refused_command s c"
  "note_command cmd (s\<lparr>rc_buffer := b\<rparr>) = (note_command cmd s)\<lparr>rc_buffer := b\<rparr>"
  "rc_valid (note_command cmd s) = rc_valid s"
  "rc_buffer_update f (s\<lparr>rc_valid := v\<rparr>) = (rc_buffer_update f s)\<lparr>rc_valid := v\<rparr>"
  by (cases cmd; simp add: ignored_command_def refused_command_def split: option.splits)+

lemma runtime_run_unfold:
  "runtime_run s =
    (case find_char newline (rc_buffer s) of
       None \<Rightarrow> if maximum_helper_message_size < length (rc_buffer s) then runtime_overflow s else (s, [])
     | Some n \<Rightarrow>
         if maximum_helper_message_size < n then runtime_overflow s
         else (case runtime_line (s\<lparr>rc_buffer := drop (Suc n) (rc_buffer s)\<rparr>) (take n (rc_buffer s)) of
                 (s1, e1) \<Rightarrow> if \<not> rc_valid s1 then (s1, e1)
                   else (case runtime_run s1 of (s2, e2) \<Rightarrow> (s2, e1 @ e2))))"
  if valid: "rc_valid s"
proof -
  have inv: "(case runtime_invalid t [] of (s', r) \<Rightarrow> (s', feed_events r)) = runtime_overflow t" for t
    by (simp add: runtime_invalid_def runtime_overflow_def feed_events_def)
  consider (none) "find_char newline (rc_buffer s) = None"
    | (long) n where "find_char newline (rc_buffer s) = Some n" "maximum_helper_message_size < n"
    | (line) n where "find_char newline (rc_buffer s) = Some n" "\<not> maximum_helper_message_size < n"
    by (cases "find_char newline (rc_buffer s)") auto
  then show ?thesis
  proof cases
    case none
    then show ?thesis
      using inv [of s] by (simp add: runtime_run_def runtime_loop.simps [of s] feed_events_def)
  next
    case long
    then show ?thesis using inv [of s] by (simp add: runtime_run_def runtime_loop.simps [of s])
  next
    case line
    let ?t = "s\<lparr>rc_buffer := drop (Suc n) (rc_buffer s)\<rparr>"
    let ?c = "parse_helper_runtime_command (take n (rc_buffer s))"
    have loop: "runtime_loop s [] =
        (if ignored_command s ?c then runtime_loop ?t []
         else if refused_command s ?c then runtime_invalid ?t []
         else (case runtime_loop (note_command (the ?c) ?t) [] of
                 (s', r) \<Rightarrow> (s', r\<lparr>feed_commands := [the ?c] @ feed_commands r\<rparr>)))"
      using line runtime_loop_acc [of "note_command (the ?c) ?t" "[the ?c]"]
      by (simp add: runtime_loop.simps [of s] Let_def substr_def)
    show ?thesis
      using line valid inv [of ?t] unfolding runtime_run_def loop
      by (auto simp: runtime_line_def Let_def runtime_overflow_def feed_events_def split: prod.splits)
  qed
qed

interpretation runtime: line_framing rc_buffer "\<lambda>b. rc_buffer_update (\<lambda>_. b)" "\<lambda>s. \<not> rc_valid s"
  runtime_line runtime_overflow runtime_run runtime_receive maximum_helper_message_size
proof
  fix s l s1 e b
  show "\<not> \<not> rc_valid s \<Longrightarrow> runtime_line s l = (s1, e) \<Longrightarrow> \<not> \<not> rc_valid s1 \<Longrightarrow>
    rc_buffer s1 = rc_buffer s \<and>
    runtime_line (s\<lparr>rc_buffer := b\<rparr>) l = (s1\<lparr>rc_buffer := b\<rparr>, e)"
    by (auto simp: runtime_line_def runtime_overflow_def Let_def split: if_splits)
  show "\<not> \<not> rc_valid s \<Longrightarrow> runtime_line s l = (s1, e) \<Longrightarrow> \<not> rc_valid s1 \<Longrightarrow>
    runtime_line (s\<lparr>rc_buffer := b\<rparr>) l = (s1, e)"
    by (auto simp: runtime_line_def runtime_overflow_def Let_def split: if_splits)
  show "\<not> \<not> rc_valid s \<Longrightarrow> runtime_run s =
    (case find_char newline (rc_buffer s) of
       None \<Rightarrow> if maximum_helper_message_size < length (rc_buffer s) then runtime_overflow s else (s, [])
     | Some n \<Rightarrow>
         if maximum_helper_message_size < n then runtime_overflow s
         else (case runtime_line (s\<lparr>rc_buffer := drop (Suc n) (rc_buffer s)\<rparr>) (take n (rc_buffer s)) of
                 (s1, e1) \<Rightarrow> if \<not> rc_valid s1 then (s1, e1)
                   else (case runtime_run s1 of (s2, e2) \<Rightarrow> (s2, e1 @ e2))))"
    using runtime_run_unfold by simp
qed (auto simp: runtime_overflow_def runtime_receive_def runtime_receive_bytes_def runtime_run_def
    feed_events_def split: prod.splits)

end
