(* ===== verification/Helper_Start.thy ===== *)
theory Helper_Start
  imports Launcher Standard_Descriptors Helper_Conversations
begin

text \<open>
  The helper until its session begins: \<open>run_helper\<close> of \<open>src/helper_main.cpp\<close>. The state is the files
  of the host and an abstract world of descriptors and processes; \<open>poll\<close> and the clock are functions
  on that world. The session that follows is \<open>Helper_Session\<close>.
\<close>

section \<open>The world\<close>

record accept_events =
  listener_broken :: bool
  process_broken :: bool
  process_ended :: bool

datatype accept_poll = Accept_Poll_Failed | Accept_Poll_Timeout | Accept_Poll_Events accept_events

datatype accept_answer = Accept_Interrupted | Accept_Failed int | Accept_Done

datatype block_poll = Block_Poll_Failed | Block_Poll_Timeout | Block_Poll_Ready

record peer_credentials =
  peer_pid :: int
  peer_uid :: nat
  peer_gid :: nat

record 'w start_world =
  sw_getenv :: "string \<Rightarrow> string option"
  sw_pidfd :: "int \<Rightarrow> 'w \<Rightarrow> (int + unit) \<times> 'w"
  sw_stat_file :: "'w \<Rightarrow> int \<Rightarrow> string option"
  sw_status_file :: "'w \<Rightarrow> int \<Rightarrow> string option"
  sw_accept_poll :: "'w \<Rightarrow> accept_poll \<times> 'w"
  sw_accept :: "'w \<Rightarrow> accept_answer \<times> 'w"
  sw_peer :: "'w \<Rightarrow> peer_credentials option \<times> 'w"
  sw_ignore_interrupt :: "'w \<Rightarrow> bool \<times> 'w"
  sw_send :: "string \<Rightarrow> 'w \<Rightarrow> bool \<times> 'w"
  sw_recvmsg :: "'w \<Rightarrow> recvmsg_result \<times> 'w"
  sw_block_poll :: "int \<Rightarrow> 'w \<Rightarrow> block_poll \<times> 'w"
  sw_read :: "'w \<Rightarrow> string option \<times> 'w"
  sw_now :: "'w \<Rightarrow> int \<times> 'w"
  sw_error :: "string \<Rightarrow> 'w \<Rightarrow> 'w"
  sw_strerror :: "int \<Rightarrow> string"

definition helper_says :: "string \<Rightarrow> string" where
  "helper_says t = ''NetLagLab helper: '' @ t @ [newline]"

section \<open>Accepting the supervisor\<close>

definition accept_retry :: "'w start_world \<Rightarrow> 'w \<Rightarrow> (accept_answer \<times> 'w) option" where
  "accept_retry sw =
     iterate (\<lambda>w. case sw_accept sw w of (a, w1) \<Rightarrow> if a = Accept_Interrupted then Inl w1 else Inr (a, w1))"

definition accept_pass :: "'w start_world \<Rightarrow> 'w \<Rightarrow> ('w + (string + unit) \<times> 'w) option" where
  "accept_pass sw w =
     (case sw_accept_poll sw w of
        (Accept_Poll_Failed, w1) \<Rightarrow>
          Some (Inr (Inl (helper_says ''failed while waiting for Supervisor connection''), w1))
      | (Accept_Poll_Timeout, w1) \<Rightarrow> Some (Inl w1)
      | (Accept_Poll_Events e, w1) \<Rightarrow>
          (if listener_broken e \<or> process_broken e
           then Some (Inr (Inl (helper_says ''failed while waiting for Supervisor connection''), w1))
           else if process_ended e
           then Some (Inr (Inl (helper_says ''Supervisor exited before connecting''), w1))
           else Option.bind (accept_retry sw w1) (\<lambda>(a, w2).
             Some (Inr (case a of
                 Accept_Failed e \<Rightarrow> Inl (helper_says (''failed to accept Supervisor: '' @ sw_strerror sw e))
               | _ \<Rightarrow> Inr (), w2)))))"

definition accept_supervisor :: "'w start_world \<Rightarrow> 'w \<Rightarrow> ((string + unit) \<times> 'w) option" where
  "accept_supervisor sw = iterate_calls (accept_pass sw)"

section \<open>The start block\<close>

definition start_block_limit :: int where "start_block_limit = 30 * 10 ^ 9"

definition send_helper_error :: "'w start_world \<Rightarrow> string \<Rightarrow> 'w \<Rightarrow> 'w" where
  "send_helper_error sw message w = snd (sw_send sw (helper_error_message message) w)"

definition start_block_times_out :: "'w start_world \<Rightarrow> 'w \<Rightarrow> (workload_context option) \<times> 'w" where
  "start_block_times_out sw w =
     (None, sw_error sw (helper_says ''Workload start block timed out'')
        (send_helper_error sw ''Workload start block timed out.'' w))"

text \<open>What a read brings: the rest of a round of the loop.\<close>

definition take_start_bytes ::
  "'w start_world \<Rightarrow> string \<Rightarrow> start_conversation \<times> int option \<Rightarrow> 'w
     \<Rightarrow> ((start_conversation \<times> int option) \<times> 'w) + workload_context option \<times> 'w" where
  "take_start_bytes sw bytes = (\<lambda>(conversation, deadline) w.
     case start_receive_bytes conversation bytes of (conversation1, result) \<Rightarrow>
       (case (if deadline = None \<and> sc_started conversation1
              then (case sw_now sw w of (now, w1) \<Rightarrow> (Some (now + start_block_limit), w1))
              else (deadline, w)) of (deadline1, w1) \<Rightarrow>
          (case fst result of
             Block_Invalid \<Rightarrow>
               Inr (None, sw_error sw (helper_says ''invalid Workload start block'')
                 (send_helper_error sw ''Invalid Workload start block.'' w1))
           | Block_Complete \<Rightarrow> Inr (snd result, w1)
           | Block_Incomplete \<Rightarrow> Inl ((conversation1, deadline1), w1))))"

text \<open>Milliseconds left; a started block is waited for no longer than its deadline.\<close>

definition milliseconds_left :: "int \<Rightarrow> int \<Rightarrow> int" where
  "milliseconds_left deadline now =
     (if now \<le> deadline then (deadline - now) div 10 ^ 6 else - ((now - deadline) div 10 ^ 6))"

definition start_block_pass ::
  "'w start_world \<Rightarrow> (start_conversation \<times> int option) \<times> 'w
     \<Rightarrow> ((start_conversation \<times> int option) \<times> 'w) + workload_context option \<times> 'w" where
  "start_block_pass sw = (\<lambda>((conversation, deadline), w).
     case (case deadline of
             None \<Rightarrow> (Inr (- 1), w)
           | Some d \<Rightarrow>
               (case sw_now sw w of (now, w1) \<Rightarrow>
                  (if milliseconds_left d now \<le> 0 then (Inl (), w1)
                   else (Inr (milliseconds_left d now), w1)))) of
       (Inl _, w1) \<Rightarrow> Inr (start_block_times_out sw w1)
     | (Inr timeout, w1) \<Rightarrow>
         (case sw_block_poll sw timeout w1 of
            (Block_Poll_Timeout, w2) \<Rightarrow> Inr (start_block_times_out sw w2)
          | (Block_Poll_Failed, w2) \<Rightarrow>
              Inr (None, sw_error sw (helper_says ''failed while waiting for Workload context'') w2)
          | (Block_Poll_Ready, w2) \<Rightarrow>
              (case sw_read sw w2 of
                 (None, w3) \<Rightarrow>
                   Inr (None, sw_error sw (helper_says ''supervisor disconnected during Workload context'') w3)
               | (Some bytes, w3) \<Rightarrow> take_start_bytes sw bytes (conversation, deadline) w3)))"

definition read_start_block :: "'w start_world \<Rightarrow> 'w \<Rightarrow> (workload_context option \<times> 'w) option" where
  "read_start_block sw w = iterate (start_block_pass sw) ((new_start_conversation, None), w)"

section \<open>From the arguments to the session\<close>

record workload_identity =
  identity_uid :: nat
  identity_gid :: nat
  identity_groups :: "nat list"

datatype standard_source = Source_Inherited | Source_Closed | Source_Descriptor int

record session_start =
  start_context :: workload_context
  start_identity :: workload_identity
  start_sources :: "standard_source list"

fun standard_source_of :: "disposition \<Rightarrow> int option \<Rightarrow> standard_source" where
  "standard_source_of Transferred (Some d) = Source_Descriptor d"
| "standard_source_of Explicitly_Closed d = Source_Closed"
| "standard_source_of _ d = Source_Inherited"

definition standard_sources :: "received_descriptors \<Rightarrow> standard_source list" where
  "standard_sources r = map2 standard_source_of (dispositions r) (owned_descriptors r)"

text \<open>The state of the program: the files and the world.\<close>

type_synonym 'w helper_state = "file_host \<times> 'w"

definition say :: "'w start_world \<Rightarrow> string \<Rightarrow> 'w helper_state \<Rightarrow> 'w helper_state" where
  "say sw t = (\<lambda>(h, w). (h, sw_error sw t w))"

definition cleanup_helper_listener ::
  "'w start_world \<Rightarrow> socket_path_owner \<Rightarrow> 'w helper_state \<Rightarrow> bool \<times> socket_path_owner \<times> 'w helper_state" where
  "cleanup_helper_listener sw o1 = (\<lambda>(h, w).
     case remove_owned o1 h of (e, o2, h1) \<Rightarrow>
       if e = 0 then (True, o2, h1, w)
       else (False, o2, h1, sw_error sw (helper_says (''failed to remove helper.sock: '' @ sw_strerror sw e)) w))"

text \<open>A return that destroys the owner of the path.\<close>

definition give_up ::
  "socket_path_owner \<Rightarrow> 'w helper_state \<Rightarrow> (int + session_start) \<times> 'w helper_state" where
  "give_up o1 = (\<lambda>(h, w). (Inl 125, snd (snd (remove_owned o1 h)), w))"

definition refuse_peer ::
  "'w start_world \<Rightarrow> socket_path_owner \<Rightarrow> string \<Rightarrow> 'w helper_state \<Rightarrow> (int + session_start) \<times> 'w helper_state" where
  "refuse_peer sw o1 t s =
     (case cleanup_helper_listener sw o1 (say sw t s) of (_, o2, s1) \<Rightarrow> give_up o2 s1)"

definition owner_of_helper_socket :: "session_paths \<Rightarrow> nat \<Rightarrow> socket_path_owner" where
  "owner_of_helper_socket paths uid =
     \<lparr>owner_directory = join_path (xdg_runtime_directory paths) session_directory_name,
      owner_socket_name = helper_socket_name, owner_socket_path = helper_socket paths,
      owner_uid = uid, owner_owned = False\<rparr>"

text \<open>The conversation with a supervisor that was let in: READY, the descriptors, the start block.\<close>

definition converse ::
  "'w start_world \<Rightarrow> workload_identity \<Rightarrow> 'w helper_state \<Rightarrow> ((int + session_start) \<times> 'w helper_state) option" where
  "converse sw identity = (\<lambda>(h, w).
     case sw_ignore_interrupt sw w of
       (False, w1) \<Rightarrow> Some (Inl 125, h, send_helper_error sw ''Failed to install signal policy.'' w1)
     | (True, w1) \<Rightarrow>
         (case sw_send sw (helper_conversation_event_message ReadyEvent) w1 of
            (False, w2) \<Rightarrow> Some (Inl 125, h, w2)
          | (True, w2) \<Rightarrow>
              Option.bind (receive_standard_descriptors (sw_recvmsg sw) w2) (\<lambda>((received, closed), w3).
                case received of
                  None \<Rightarrow> Some (Inl 125, h, send_helper_error sw ''Invalid standard-descriptor transfer.'' w3)
                | Some descriptors \<Rightarrow>
                    Option.bind (read_start_block sw w3) (\<lambda>(context, w4).
                      case context of
                        None \<Rightarrow> Some (Inl 125, h, w4)
                      | Some c \<Rightarrow>
                          Some (Inr \<lparr>start_context = c, start_identity = identity,
                                     start_sources = standard_sources descriptors\<rparr>, h, w4)))))"

text \<open>The checks of the peer that has connected.\<close>

definition admit_peer ::
  "'w start_world \<Rightarrow> helper_arguments \<Rightarrow> nat \<Rightarrow> nat \<Rightarrow> socket_path_owner \<Rightarrow> 'w helper_state
     \<Rightarrow> ((int + session_start) \<times> 'w helper_state) option" where
  "admit_peer sw args uid gid o1 = (\<lambda>(h, w).
     case sw_peer sw w of (peer, w1) \<Rightarrow>
       if (case peer of
             None \<Rightarrow> True
           | Some p \<Rightarrow> peer_pid p \<noteq> arg_supervisor_pid args \<or> peer_uid p \<noteq> uid \<or> peer_gid p \<noteq> gid)
       then Some (refuse_peer sw o1 (helper_says ''rejected connection from an unexpected user'') (h, w1))
       else case read_peer_groups (sw_status_file sw w1 (arg_supervisor_pid args)) of
         Inl t \<Rightarrow> Some (refuse_peer sw o1 t (h, w1))
       | Inr groups \<Rightarrow>
           (case cleanup_helper_listener sw o1 (h, w1) of (cleaned, o2, s1) \<Rightarrow>
              if \<not> cleaned then Some (give_up o2 s1)
              else converse sw \<lparr>identity_uid = uid, identity_gid = gid, identity_groups = groups\<rparr> s1))"

text \<open>The listening socket of the helper, until its supervisor has connected.\<close>

definition listen_for_supervisor ::
  "'w start_world \<Rightarrow> helper_arguments \<Rightarrow> nat \<Rightarrow> nat \<Rightarrow> 'w helper_state
     \<Rightarrow> ((int + session_start) \<times> 'w helper_state) option" where
  "listen_for_supervisor sw args uid gid = (\<lambda>(h, w).
     let paths = session_paths_of (arg_runtime_directory args); o1 = owner_of_helper_socket paths uid
     in case validate_session paths uid h of
          Inl t \<Rightarrow> Some (Inl 125, say sw t (h, w))
        | Inr _ \<Rightarrow>
            (case remove_stale o1 h of
               (Inl t, h1) \<Rightarrow> Some (Inl 125, say sw t (h1, w))
             | (Inr _, h1) \<Rightarrow>
                 (case create_listening_socket o1 h1 of
                    (Inl t, o2, h2) \<Rightarrow>
                      (case remove_owned o2 h2 of (_, o3, h3) \<Rightarrow> Some (give_up o3 (say sw t (h3, w))))
                  | (Inr _, o2, h2) \<Rightarrow>
                      Option.bind (accept_supervisor sw w) (\<lambda>(accepted, w1).
                        case accepted of
                          Inl t \<Rightarrow> Some (refuse_peer sw o2 t (h2, w1))
                        | Inr _ \<Rightarrow> admit_peer sw args uid gid o2 (h2, w1)))))"

text \<open>\<open>run_helper\<close> up to its session: an exit status, or what the session is started with.\<close>

definition start_helper ::
  "'w start_world \<Rightarrow> string list \<Rightarrow> 'w helper_state \<Rightarrow> ((int + session_start) \<times> 'w helper_state) option" where
  "start_helper sw argv = (\<lambda>(h, w).
     case parse_helper_arguments argv of
       Inl t \<Rightarrow> Some (Inl 2, say sw t (h, w))
     | Inr args \<Rightarrow>
         (if host_euid h \<noteq> 0
          then Some (Inl 1, say sw (helper_says ''root privileges are required'') (h, w))
          else case sw_pidfd sw (arg_supervisor_pid args) w of
            (Inl e, w1) \<Rightarrow>
              Some (Inl 125, say sw (helper_says (''failed to monitor the launching Supervisor: ''
                  @ sw_strerror sw e)) (h, w1))
          | (Inr _, w1) \<Rightarrow>
              (if (case read_process_status (sw_stat_file sw w1) (arg_supervisor_pid args) of
                     None \<Rightarrow> True | Some status \<Rightarrow> start_time_ticks status \<noteq> arg_start_time args)
               then Some (Inl 125, say sw (helper_says ''launching Supervisor identity changed'') (h, w1))
               else case read_invoking_ids (sw_getenv sw) of
                 Inl t \<Rightarrow> Some (Inl 125, say sw t (h, w1))
               | Inr (uid, gid) \<Rightarrow> listen_for_supervisor sw args uid gid (h, w1))))"

definition run_helper ::
  "'w start_world \<Rightarrow> (session_start \<Rightarrow> 'w \<Rightarrow> (int \<times> 'w) option) \<Rightarrow> string list \<Rightarrow> 'w helper_state
     \<Rightarrow> (int \<times> 'w helper_state) option" where
  "run_helper sw run_helper_session argv s =
     Option.bind (start_helper sw argv s) (\<lambda>(result, h, w).
       case result of
         Inl status \<Rightarrow> Some (status, h, w)
       | Inr start \<Rightarrow> Option.bind (run_helper_session start w) (\<lambda>(status, w1). Some (status, h, w1)))"

end
