(* ===== verification/Helper_Session.thy ===== *)
theory Helper_Session
  imports Network_Transaction Helper_Conversations
begin

text \<open>
  The session of the privileged helper: \<open>src/helper_session.cpp\<close> (the order of preparation, launch,
  supervision and cleanup, the reports to the supervisor, and the adapter that turns a Profile
  Change into a change of one direction) and the supervision loop of \<open>src/helper_main.cpp\<close>. The
  socket, the Workload process, the clock and the error stream are functions on the world that the
  network adapter also lives in.
\<close>

section \<open>Reports\<close>

fun stage_name :: "stage \<Rightarrow> string" where
  "stage_name Stage_Preflight = ''preflight''"
| "stage_name Stage_Namespace_Creation = ''namespace creation''"
| "stage_name Stage_Veth_Creation = ''veth creation''"
| "stage_name Stage_Host_Configuration = ''host configuration''"
| "stage_name Stage_Namespace_Configuration = ''namespace configuration''"
| "stage_name Stage_Route_Configuration = ''route configuration''"
| "stage_name Stage_Internet_Connectivity = ''Internet connectivity''"
| "stage_name Stage_Cleanup = ''cleanup''"

fun cause_name :: "cause \<Rightarrow> string" where
  "cause_name Cause_Collision = ''collision''"
| "cause_name Cause_Unavailable_Or_Invalid_Tool = ''unavailable or invalid tool''"
| "cause_name Cause_System_Failure = ''system failure''"
| "cause_name Cause_Command_Exit = ''command exited unsuccessfully''"
| "cause_name Cause_Command_Signal = ''command terminated by signal''"
| "cause_name Cause_Timeout = ''timed out''"
| "cause_name Cause_Identity_Unavailable = ''identity unavailable''"
| "cause_name Cause_Identity_Mismatch = ''identity mismatch''"
| "cause_name Cause_Incomplete_Cleanup = ''incomplete cleanup''"
| "cause_name Cause_Unsupported_Host_Configuration = ''unsupported host configuration''"
| "cause_name Cause_Firewall_Consent_Declined = ''temporary firewall exception was not approved''"
| "cause_name Cause_Firewall_Consent_Timeout =
     ''firewall consent timed out; reply y on the controlling terminal''"
| "cause_name Cause_Firewall_Consent_Unavailable =
     ''firewall consent requires an accessible controlling terminal''"

definition report_failure :: "string \<Rightarrow> failure \<Rightarrow> string" where
  "report_failure situation f =
     ''NetLagLab helper: Network Environment '' @ situation @ '' at '' @ stage_name (fst f) @ '': ''
       @ cause_name (snd f) @ [newline]"

definition report_failures :: "(string \<Rightarrow> 'w \<Rightarrow> 'w) \<Rightarrow> string \<Rightarrow> failure list \<Rightarrow> 'w \<Rightarrow> 'w" where
  "report_failures write situation fs = fold (\<lambda>f. write (report_failure situation f)) fs"

definition residual_report :: "string \<Rightarrow> string" where
  "residual_report situation = report_failure situation (Stage_Cleanup, Cause_Incomplete_Cleanup)"

section \<open>The world of the helper\<close>

record workload_status =
  status_exited :: bool
  status_value :: int

datatype workload_poll = Workload_Running | Workload_Finished workload_status | Workload_Poll_Error

datatype socket_poll = Poll_Failed | Poll_Timed_Out | Poll_Ready

record 'k launch_result =
  launched_process :: "'k option"
  launch_failure_exit_code :: int
  launch_failure :: string

record ('n, 'h, 'p, 'c, 'k, 'w) helper_world =
  helper_adapter :: "('n, 'h, 'p, 'c, 'w) semantic_adapter"
  helper_prepare :: "'w \<Rightarrow> ('n, 'h, 'p, 'c) preparation_result \<times> 'w"
  helper_launch :: "'n option \<Rightarrow> 'w \<Rightarrow> 'k launch_result \<times> 'w"
  workload_pid :: "'k \<Rightarrow> int"
  workload_poll :: "'k \<Rightarrow> 'w \<Rightarrow> workload_poll \<times> 'w"
  workload_signal :: "'k \<Rightarrow> int \<Rightarrow> 'w \<Rightarrow> bool \<times> 'w"
  workload_wait :: "'k \<Rightarrow> 'w \<Rightarrow> bool \<times> 'w"
  supervisor_poll :: "'w \<Rightarrow> socket_poll \<times> 'w"
  supervisor_read :: "'w \<Rightarrow> string option \<times> 'w"
  supervisor_send :: "string \<Rightarrow> 'w \<Rightarrow> bool \<times> 'w"
  helper_now :: "'w \<Rightarrow> time_point \<times> 'w"
  helper_pause :: "'w \<Rightarrow> 'w"
  write_error :: "string \<Rightarrow> 'w \<Rightarrow> 'w"

definition send_event :: "('n, 'h, 'p, 'c, 'k, 'w) helper_world \<Rightarrow> helper_conversation_event \<Rightarrow> 'w \<Rightarrow> bool \<times> 'w" where
  "send_event o1 event w = supervisor_send o1 (helper_conversation_event_message event) w"

definition report_cleanup :: "('n, 'h, 'p, 'c, 'k, 'w) helper_world \<Rightarrow> bool \<Rightarrow> 'w \<Rightarrow> bool \<times> 'w" where
  "report_cleanup o1 succeeded w =
     send_event o1 (if succeeded then CleanupSucceededEvent else CleanupFailedEvent) w"

section \<open>Cleanup\<close>

text \<open>The retry of what a cleanup left, with its reports.\<close>

definition retry_residual ::
  "('n, 'h, 'p, 'c, 'k, 'w) helper_world \<Rightarrow> string \<Rightarrow> string \<Rightarrow> ('n, 'h, 'p, 'c) owner_state \<Rightarrow> 'w \<Rightarrow> 'w" where
  "retry_residual o1 retry_failed left residual w =
     (case cleanup_state (helper_adapter o1) residual True w of (retry, w1) \<Rightarrow>
        (let w2 = report_failures (write_error o1) retry_failed (cleanup_failures retry) w1
         in if cleanup_residual retry \<noteq> None then write_error o1 (residual_report left) w2 else w2))"

definition cleanup_prepared ::
  "('n, 'h, 'p, 'c, 'k, 'w) helper_world \<Rightarrow> ('n, 'h, 'p, 'c) owner_state \<Rightarrow> 'w \<Rightarrow> bool \<times> 'w" where
  "cleanup_prepared o1 owner w =
     (case cleanup_state (helper_adapter o1) owner True w of (result, w1) \<Rightarrow>
        (let w2 = report_failures (write_error o1) ''cleanup failed'' (cleanup_failures result) w1
         in case cleanup_residual result of
              None \<Rightarrow> (cleanup_failures result = [], w2)
            | Some residual \<Rightarrow>
                (False, retry_residual o1 ''cleanup retry failed'' ''cleanup left residual resources'' residual w2)))"

definition cleanup_failed_preparation ::
  "('n, 'h, 'p, 'c, 'k, 'w) helper_world \<Rightarrow> failure \<Rightarrow> failure list \<Rightarrow> ('n, 'h, 'p, 'c) owner_state option
     \<Rightarrow> 'w \<Rightarrow> bool \<times> 'w" where
  "cleanup_failed_preparation o1 primary rollback_failures residual w =
     (let w1 = write_error o1 (report_failure ''preparation failed'' primary) w;
          w2 = report_failures (write_error o1) ''rollback failed'' rollback_failures w1
      in case residual of
           None \<Rightarrow> (rollback_failures = [], w2)
         | Some r \<Rightarrow>
             (False, retry_residual o1 ''rollback retry failed'' ''rollback left residual resources'' r w2))"

section \<open>The adapter of Profile Changes\<close>

fun sets_bandwidth :: "profile_change \<Rightarrow> bool" where
  "sets_bandwidth (SetBandwidth _ _) = True"
| "sets_bandwidth (ResetSetting _ s) = (s = Bandwidth)"
| "sets_bandwidth _ = False"

text \<open>\<open>apply\<close>: the completion, the confirmed profile, the owner state and the world.\<close>

definition adapter_apply ::
  "('n, 'h, 'p, 'c, 'w) semantic_adapter \<Rightarrow> profile_change
     \<Rightarrow> network_profile \<times> ('n, 'h, 'p, 'c) owner_state \<times> 'w
     \<Rightarrow> profile_change_completion \<times> network_profile \<times> ('n, 'h, 'p, 'c) owner_state \<times> 'w" where
  "adapter_apply a change = (\<lambda>(confirmed, s, w).
     case apply_profile_change confirmed change of
       Inl _ \<Rightarrow> (Completion_Restored_After_Failure, confirmed, s, w)
     | Inr candidate \<Rightarrow>
         (if sets_bandwidth change \<or> bandwidth_kbps (outbound candidate) \<noteq> None
             \<or> bandwidth_kbps (inbound candidate) \<noteq> None
          then (Completion_Restored_After_Failure, confirmed, s, w)
          else
            (let outbound_changed = (\<not> settings_eq (outbound candidate) (outbound confirmed));
                 inbound_changed = (\<not> settings_eq (inbound candidate) (inbound confirmed))
             in if \<not> outbound_changed \<and> \<not> inbound_changed then (Completion_Applied, confirmed, s, w)
                else if outbound_changed \<and> inbound_changed then (Completion_State_Unknown, confirmed, s, w)
                else
                  (case set_direction_settings a
                      (if outbound_changed then Shape_Outbound else Shape_Inbound)
                      (if outbound_changed then outbound candidate else inbound candidate) s w of
                     (Shaping_Applied, s1, w1) \<Rightarrow> (Completion_Applied, candidate, s1, w1)
                   | (Shaping_Restored, s1, w1) \<Rightarrow> (Completion_Restored_After_Failure, confirmed, s1, w1)
                   | (Shaping_State_Unknown, s1, w1) \<Rightarrow> (Completion_State_Unknown, confirmed, s1, w1)))))"

section \<open>Supervision\<close>

definition stop_limit :: time_point where "stop_limit = 5 * 10 ^ 9"
definition sigterm :: int where "sigterm = 15"
definition sigkill :: int where "sigkill = 9"

text \<open>One round of the loop of \<open>stop_after_supervisor_loss\<close>.\<close>

definition stop_pass ::
  "('n, 'h, 'p, 'c, 'k, 'w) helper_world \<Rightarrow> 'k \<Rightarrow> time_point \<Rightarrow> 'w \<Rightarrow> 'w + bool \<times> 'w" where
  "stop_pass o1 workload deadline w =
     (case helper_now o1 w of (now, w1) \<Rightarrow>
        if deadline \<le> now then
          (case workload_signal o1 workload sigkill w1 of (killed, w2) \<Rightarrow>
             if \<not> killed then Inr (False, w2) else Inr (workload_wait o1 workload w2))
        else
          (case workload_poll o1 workload w1 of (polled, w2) \<Rightarrow>
             (case polled of
                Workload_Finished _ \<Rightarrow> Inr (True, w2)
              | Workload_Poll_Error \<Rightarrow> Inr (False, w2)
              | Workload_Running \<Rightarrow> Inl (helper_pause o1 w2))))"

text \<open>\<open>None\<close> when the loop never ends.\<close>

definition stop_after_supervisor_loss ::
  "('n, 'h, 'p, 'c, 'k, 'w) helper_world \<Rightarrow> 'k \<Rightarrow> 'w \<Rightarrow> (bool \<times> 'w) option" where
  "stop_after_supervisor_loss o1 workload w =
     (case helper_now o1 (snd (workload_signal o1 workload sigterm w)) of (now, w1) \<Rightarrow>
        iterate (stop_pass o1 workload (now + stop_limit)) w1)"

definition status_event :: "workload_status \<Rightarrow> helper_conversation_event" where
  "status_event status =
     (if status_exited status then WorkloadExitedEvent (status_value status)
      else WorkloadSignaledEvent (status_value status))"

text \<open>
  The state of the supervision: the conversation, the confirmed profile, the owner state and the
  world. It ends with a status, or with a stop of the Workload and a message to write after it.
\<close>

type_synonym ('n, 'h, 'p, 'c, 'w) supervision =
  "runtime_conversation \<times> network_profile \<times> ('n, 'h, 'p, 'c) owner_state \<times> 'w"

datatype ('n, 'h, 'p, 'c, 'w) supervision_end =
    Supervision_Done int "('n, 'h, 'p, 'c) owner_state" 'w
  | Supervision_Stop string "('n, 'h, 'p, 'c) owner_state" 'w

fun run_commands ::
  "('n, 'h, 'p, 'c, 'k, 'w) helper_world \<Rightarrow> 'k \<Rightarrow> helper_runtime_command list \<Rightarrow> ('n, 'h, 'p, 'c, 'w) supervision
     \<Rightarrow> ('n, 'h, 'p, 'c, 'w) supervision + ('n, 'h, 'p, 'c, 'w) supervision_end" where
  "run_commands o1 workload [] x = Inl x"
| "run_commands o1 workload (ProfileChangeCommand change # rest) (conversation, confirmed, s, w) =
     (case adapter_apply (helper_adapter o1) change (confirmed, s, w) of (completion, confirmed1, s1, w1) \<Rightarrow>
       (case complete_profile_change conversation completion of (conversation1, response) \<Rightarrow>
         (let (sent, w2) = (case response of None \<Rightarrow> (False, w1) | Some text \<Rightarrow> supervisor_send o1 text w1)
          in if \<not> sent
             then Inr (Supervision_Stop [] s1
               (write_error o1 (''NetLagLab helper: failed to complete Profile Change'' @ [newline]) w2))
             else run_commands o1 workload rest (conversation1, confirmed1, s1, w2))))"
| "run_commands o1 workload (command # rest) (conversation, confirmed, s, w) =
     (case workload_signal o1 workload (if command = StopKillCommand then sigkill else sigterm) w of
       (signalled, w1) \<Rightarrow>
         if \<not> signalled
         then Inr (Supervision_Stop [] s
           (snd (supervisor_send o1 (helper_error_message ''Failed to stop Workload.'') w1)))
         else run_commands o1 workload rest (conversation, confirmed, s, w1))"

text \<open>A read of the conversation and the commands in it.\<close>

definition read_commands ::
  "('n, 'h, 'p, 'c, 'k, 'w) helper_world \<Rightarrow> 'k \<Rightarrow> ('n, 'h, 'p, 'c, 'w) supervision
     \<Rightarrow> ('n, 'h, 'p, 'c, 'w) supervision + ('n, 'h, 'p, 'c, 'w) supervision_end" where
  "read_commands o1 workload = (\<lambda>(conversation, confirmed, s, w).
     case supervisor_read o1 w of (received, w1) \<Rightarrow>
       (case received of
          None \<Rightarrow> Inr (Supervision_Stop [] s
            (write_error o1 (''NetLagLab helper: supervisor disconnected; stopping Workload'' @ [newline]) w1))
        | Some text \<Rightarrow>
            (case runtime_receive_bytes conversation text of (conversation1, commands) \<Rightarrow>
               if \<not> feed_valid commands
               then Inr (Supervision_Stop [] s
                 (case feed_response commands of None \<Rightarrow> w1 | Some response \<Rightarrow> snd (supervisor_send o1 response w1)))
               else run_commands o1 workload (feed_commands commands) (conversation1, confirmed, s, w1))))"

text \<open>One round of the loop of \<open>supervise_workload\<close>.\<close>

definition supervise_pass ::
  "('n, 'h, 'p, 'c, 'k, 'w) helper_world \<Rightarrow> 'k \<Rightarrow> ('n, 'h, 'p, 'c, 'w) supervision
     \<Rightarrow> ('n, 'h, 'p, 'c, 'w) supervision + ('n, 'h, 'p, 'c, 'w) supervision_end" where
  "supervise_pass o1 workload = (\<lambda>(conversation, confirmed, s, w).
     case workload_poll o1 workload w of (polled, w1) \<Rightarrow>
       (case polled of
          Workload_Poll_Error \<Rightarrow>
            Inr (Supervision_Stop (''NetLagLab helper: failed to reap Workload'' @ [newline]) s w1)
        | Workload_Finished status \<Rightarrow>
            (case send_event o1 (status_event status) w1 of (sent, w2) \<Rightarrow>
               if \<not> sent
               then Inr (Supervision_Done 125 s
                 (write_error o1 (''NetLagLab helper: failed to report Workload completion'' @ [newline]) w2))
               else Inr (Supervision_Done 0 s w2))
        | Workload_Running \<Rightarrow>
            (case supervisor_poll o1 w1 of (ready, w2) \<Rightarrow>
               (case ready of
                  Poll_Failed \<Rightarrow> Inr (Supervision_Stop [] s
                    (write_error o1 (''NetLagLab helper: supervisor conversation failed'' @ [newline]) w2))
                | Poll_Timed_Out \<Rightarrow> Inl (conversation, confirmed, s, w2)
                | Poll_Ready \<Rightarrow> read_commands o1 workload (conversation, confirmed, s, w2)))))"

definition supervise_workload ::
  "('n, 'h, 'p, 'c, 'k, 'w) helper_world \<Rightarrow> 'k \<Rightarrow> ('n, 'h, 'p, 'c) owner_state \<Rightarrow> 'w
     \<Rightarrow> (int \<times> ('n, 'h, 'p, 'c) owner_state \<times> 'w) option" where
  "supervise_workload o1 workload s w =
     (case iterate (supervise_pass o1 workload) (new_runtime_conversation, default_profile, s, w) of
        None \<Rightarrow> None
      | Some (Supervision_Done status s1 w1) \<Rightarrow> Some (status, s1, w1)
      | Some (Supervision_Stop message s1 w1) \<Rightarrow>
          map_option (\<lambda>(_, w2). (125, s1, if message = [] then w2 else write_error o1 message w2))
            (stop_after_supervisor_loss o1 workload w1))"

section \<open>The session\<close>

text \<open>The end of a session: cleanup, its report and the exit status.\<close>

definition finish_session ::
  "('n, 'h, 'p, 'c, 'k, 'w) helper_world \<Rightarrow> int \<Rightarrow> ('n, 'h, 'p, 'c) owner_state \<Rightarrow> 'w \<Rightarrow> int \<times> 'w" where
  "finish_session o1 status owner w =
     (case cleanup_prepared o1 owner w of (cleaned, w1) \<Rightarrow>
        (case report_cleanup o1 cleaned w1 of (reported, w2) \<Rightarrow>
           (if cleaned \<and> reported then status else 125, w2)))"

definition failed_activation ::
  "('n, 'h, 'p, 'c, 'k, 'w) helper_world \<Rightarrow> failure \<Rightarrow> failure list \<Rightarrow> ('n, 'h, 'p, 'c) owner_state option
     \<Rightarrow> 'w \<Rightarrow> int \<times> 'w" where
  "failed_activation o1 primary rollback_failures residual w =
     (case cleanup_failed_preparation o1 primary rollback_failures residual w of (cleaned, w1) \<Rightarrow>
        (case send_event o1 (ActivationFailedEvent 125) w1 of (failure_reported, w2) \<Rightarrow>
           (case report_cleanup o1 cleaned w2 of (cleanup_reported, w3) \<Rightarrow>
              (if failure_reported \<and> cleanup_reported \<and> cleaned then 0 else 125, w3))))"

definition failed_launch ::
  "('n, 'h, 'p, 'c, 'k, 'w) helper_world \<Rightarrow> 'k launch_result \<Rightarrow> ('n, 'h, 'p, 'c) owner_state \<Rightarrow> 'w \<Rightarrow> int \<times> 'w" where
  "failed_launch o1 launch s w =
     (let w1 = (if launch_failure launch \<noteq> []
                then write_error o1 (''NetLagLab helper: '' @ launch_failure launch @ [newline]) w else w)
      in case send_event o1 (ActivationFailedEvent (launch_failure_exit_code launch)) w1 of
           (failure_reported, w2) \<Rightarrow> finish_session o1 (if failure_reported then 0 else 125) s w2)"

definition run_helper_session ::
  "('n, 'h, 'p, 'c, 'k, 'w) helper_world \<Rightarrow> 'w \<Rightarrow> (int \<times> 'w) option" where
  "run_helper_session o1 w =
     (case helper_prepare o1 w of
        (Preparation_Failed primary rollback_failures residual, w1) \<Rightarrow>
          Some (failed_activation o1 primary rollback_failures residual w1)
      | (Prepared s, w1) \<Rightarrow>
          (case helper_launch o1 (proven_namespace (namespace_root s)) w1 of (launch, w2) \<Rightarrow>
             (case launched_process launch of
                None \<Rightarrow> Some (failed_launch o1 launch s w2)
              | Some workload \<Rightarrow>
                  (case send_event o1 (ActivatedEvent (workload_pid o1 workload)) w2 of (sent, w3) \<Rightarrow>
                     if \<not> sent
                     then map_option (\<lambda>(_, w4). finish_session o1 125 s w4)
                            (stop_after_supervisor_loss o1 workload w3)
                     else map_option (\<lambda>(status, s1, w4). finish_session o1 status s1 w4)
                            (supervise_workload o1 workload s w3)))))"

end
