(* ===== verification/Resolver_View.thy ===== *)
theory Resolver_View
  imports Double_Text
begin

text \<open>
  The resolver configuration that a Workload sees: \<open>src/workload_resolver_view.cpp\<close>. The host's
  \<open>resolv.conf\<close> and \<open>nsswitch.conf\<close> are read as trusted files and reduced to a snapshot.
  A failure is the text the code stores in \<open>failure\<close>. \<open>inet_pton\<close> is a parameter, for IPv4
  with the address in host byte order; it reads its argument as a C string.
\<close>

definition maximum_file_size :: nat where "maximum_file_size = 16 * 1024"
definition maximum_line_size :: nat where "maximum_line_size = 1024"

section \<open>Words and names\<close>

definition is_blank :: "char \<Rightarrow> bool" where
  "is_blank c \<longleftrightarrow> c = CHR '' '' \<or> c = CHR 0x09 \<or> c = CHR 0x0D"

definition trim :: "string \<Rightarrow> string" where
  "trim s = rev (dropWhile is_blank (rev (dropWhile is_blank s)))"

definition separators :: string where "separators = [CHR '' '', CHR 0x09]"

lemma trim_length: "length (trim s) \<le> length s"
  unfolding trim_def using length_dropWhile_le [of is_blank "rev (dropWhile is_blank s)"]
    length_dropWhile_le [of is_blank s] by simp

function split_words :: "string \<Rightarrow> string list" where
  "split_words line =
     (let rest = trim line
      in if rest = [] then []
         else case find_first_of separators rest of
           None \<Rightarrow> [rest]
         | Some n \<Rightarrow> take n rest # split_words (drop (n + 1) rest))"
  by pat_completeness auto
termination
proof (relation "measure length")
  fix line rest n assume "rest = trim line" "rest \<noteq> []" "find_first_of separators rest = Some n"
  then show "(drop (n + 1) rest, line) \<in> measure length"
    using trim_length [of line] by (auto dest: find_first_of_less)
qed simp

declare split_words.simps [simp del]

text \<open>The labels between the points; a domain that ends in a point is refused before.\<close>

definition valid_label :: "string \<Rightarrow> bool" where
  "valid_label label \<longleftrightarrow>
     label \<noteq> [] \<and> length label \<le> 63 \<and> hd label \<noteq> CHR ''-'' \<and> last label \<noteq> CHR ''-''
     \<and> list_all (\<lambda>c. is_alnum_ascii c \<or> c = CHR ''-'') label"

function valid_labels :: "string \<Rightarrow> bool" where
  "valid_labels domain =
     (if domain = [] then True
      else case find_char (CHR ''.'') domain of
        None \<Rightarrow> valid_label domain
      | Some n \<Rightarrow> valid_label (take n domain) \<and> valid_labels (drop (n + 1) domain))"
  by pat_completeness auto
termination
  by (relation "measure length") (auto dest: find_char_Some_less)

declare valid_labels.simps [simp del]

definition valid_domain :: "string \<Rightarrow> bool" where
  "valid_domain domain \<longleftrightarrow>
     domain \<noteq> [] \<and> length domain \<le> 253 \<and> hd domain \<noteq> CHR ''.'' \<and> last domain \<noteq> CHR ''.''
     \<and> valid_labels domain"

definition option_char :: "char \<Rightarrow> bool" where
  "option_char c \<longleftrightarrow> is_alnum_ascii c \<or> c = CHR ''_'' \<or> c = CHR ''-'' \<or> c = CHR ''.'' \<or> c = CHR '':''"

definition valid_option :: "string \<Rightarrow> bool" where
  "valid_option s \<longleftrightarrow> s \<noteq> [] \<and> length s \<le> 64 \<and> list_all option_char s"

definition routable_resolver_address :: "u32 \<Rightarrow> bool" where
  "routable_resolver_address value \<longleftrightarrow>
     (let first = unat (drop_bit 24 value)
      in first \<noteq> 0 \<and> first \<noteq> 127 \<and> first < 224 \<and> value \<noteq> 0xFFFFFFFF)"

definition c_text :: "string \<Rightarrow> string" where
  "c_text s = takeWhile (\<lambda>c. c \<noteq> CHR 0x00) s"

section \<open>The snapshot of resolv.conf\<close>

record resolver_state =
  rs_snapshot :: string
  rs_nameservers :: nat
  rs_search_seen :: bool

definition new_resolver_state :: resolver_state where
  "new_resolver_state = \<lparr>rs_snapshot = [], rs_nameservers = 0, rs_search_seen = False\<rparr>"

definition add_words :: "string \<Rightarrow> string list \<Rightarrow> string" where
  "add_words keyword ws = keyword @ concat (map (\<lambda>w. CHR '' '' # w) ws) @ [newline]"

definition nameserver_line ::
  "(string \<Rightarrow> u32 option) \<Rightarrow> (string \<Rightarrow> bool) \<Rightarrow> resolver_state \<Rightarrow> string list \<Rightarrow> string + resolver_state" where
  "nameserver_line pton4 pton6 st tokens =
     (if length tokens \<noteq> 2 then Inl ''nameserver must contain exactly one IP address''
      else
        (let address_text = tokens ! 1
         in case pton4 (c_text address_text) of
              Some address \<Rightarrow>
                (if \<not> routable_resolver_address address \<or> rs_nameservers st = 3
                 then Inl (''resolver must list one to three reachable IPv4 nameservers; ''
                           @ ''host-local and unsupported addresses are refused'')
                 else Inr (st\<lparr>rs_snapshot := rs_snapshot st @ ''nameserver '' @ address_text @ [newline],
                              rs_nameservers := rs_nameservers st + 1\<rparr>))
            | None \<Rightarrow>
                (if \<not> pton6 (c_text address_text) then Inl ''nameserver contains an invalid IP address''
                 else Inr st)))"

definition search_line :: "resolver_state \<Rightarrow> string list \<Rightarrow> string + resolver_state" where
  "search_line st tokens =
     (if rs_search_seen st \<or> length tokens < 2 \<or> 7 < length tokens
      then Inl ''resolver search configuration must contain at most six domains''
      else if \<not> list_all valid_domain (tl tokens)
      then Inl ''resolver search configuration contains an invalid domain''
      else if 256 < sum_list (map (\<lambda>t. length t + 1) (tl tokens))
      then Inl ''resolver search configuration exceeds 256 bytes''
      else Inr (st\<lparr>rs_snapshot := rs_snapshot st @ add_words ''search'' (tl tokens),
                   rs_search_seen := True\<rparr>))"

definition options_line :: "resolver_state \<Rightarrow> string list \<Rightarrow> string + resolver_state" where
  "options_line st tokens =
     (if length tokens < 2 \<or> 17 < length tokens
      then Inl ''resolver options must contain between one and sixteen values''
      else if \<not> list_all valid_option (tl tokens)
      then Inl ''resolver options contain unsupported characters''
      else Inr (st\<lparr>rs_snapshot := rs_snapshot st @ add_words ''options'' (tl tokens)\<rparr>))"

definition line_words :: "string \<Rightarrow> string list" where
  "line_words raw_line =
     (let line = trim raw_line
      in split_words (case find_first_of ''#;'' line of None \<Rightarrow> line | Some n \<Rightarrow> trim (take n line)))"

definition resolver_line ::
  "(string \<Rightarrow> u32 option) \<Rightarrow> (string \<Rightarrow> bool) \<Rightarrow> resolver_state \<Rightarrow> string \<Rightarrow> string + resolver_state" where
  "resolver_line pton4 pton6 st raw_line =
     (if maximum_line_size < length raw_line
      then Inl ''resolver configuration contains a line longer than 1 KiB''
      else
        (let tokens = line_words raw_line
         in if tokens = [] then Inr st
            else if hd tokens = ''nameserver'' then nameserver_line pton4 pton6 st tokens
            else if hd tokens = ''search'' \<or> hd tokens = ''domain'' then search_line st tokens
            else if hd tokens = ''options'' then options_line st tokens
            else Inl (''resolver configuration uses an unsupported directive: '' @ hd tokens)))"

text \<open>The loop over the lines of what is left of the source.\<close>

function resolver_lines ::
  "(resolver_state \<Rightarrow> string \<Rightarrow> string + resolver_state) \<Rightarrow> resolver_state \<Rightarrow> string \<Rightarrow> string + resolver_state" where
  "resolver_lines line_step st source =
     (if source = [] then Inr st
      else case find_char newline source of
        None \<Rightarrow> line_step st source
      | Some n \<Rightarrow>
          (case line_step st (take n source) of
             Inl e \<Rightarrow> Inl e
           | Inr st1 \<Rightarrow> resolver_lines line_step st1 (drop (n + 1) source)))"
  by pat_completeness auto
termination
  by (relation "measure (\<lambda>(_, _, source). length source)") (auto dest: find_char_Some_less)

declare resolver_lines.simps [simp del]

definition make_resolver_snapshot ::
  "(string \<Rightarrow> u32 option) \<Rightarrow> (string \<Rightarrow> bool) \<Rightarrow> string \<Rightarrow> string + string" where
  "make_resolver_snapshot pton4 pton6 source =
     (if maximum_file_size < length source then Inl ''resolver configuration exceeds 16 KiB''
      else case resolver_lines (resolver_line pton4 pton6) new_resolver_state source of
        Inl e \<Rightarrow> Inl e
      | Inr st \<Rightarrow>
          (if rs_nameservers st = 0
           then Inl ''resolver configuration contains no usable IPv4 nameserver''
           else Inr (rs_snapshot st)))"

section \<open>The snapshot of nsswitch.conf\<close>

definition hosts_comment :: "string \<Rightarrow> string" where
  "hosts_comment raw_line =
     (case find_char (CHR ''#'') (trim raw_line) of
        None \<Rightarrow> []
      | Some _ \<Rightarrow> CHR '' '' # trim (dropWhile (\<lambda>c. c \<noteq> CHR ''#'') raw_line))"

definition nsswitch_words :: "string \<Rightarrow> string list" where
  "nsswitch_words raw_line = split_words (takeWhile (\<lambda>c. c \<noteq> CHR ''#'') (trim raw_line))"

text \<open>The line that replaces a line, and whether the hosts database has been seen.\<close>

definition nsswitch_line :: "bool \<Rightarrow> string \<Rightarrow> string + bool \<times> string" where
  "nsswitch_line hosts_seen raw_line =
     (if maximum_line_size < length raw_line
      then Inl ''NSS configuration contains a line longer than 1 KiB''
      else
        (let tokens = nsswitch_words raw_line
         in if tokens \<noteq> [] \<and> starts_with ''hosts:'' (hd tokens)
            then if hosts_seen \<or> hd tokens \<noteq> ''hosts:''
                 then Inl ''NSS configuration has an invalid or duplicate hosts database''
                 else Inr (True, ''hosts: files dns'' @ hosts_comment raw_line)
            else Inr (hosts_seen, raw_line)))"

function nsswitch_lines :: "bool \<Rightarrow> string \<Rightarrow> string \<Rightarrow> string + bool \<times> string" where
  "nsswitch_lines hosts_seen snapshot source =
     (if source = [] then Inr (hosts_seen, snapshot)
      else case find_char newline source of
        None \<Rightarrow> map_sum id (\<lambda>(seen, line). (seen, snapshot @ line)) (nsswitch_line hosts_seen source)
      | Some n \<Rightarrow>
          (case nsswitch_line hosts_seen (take n source) of
             Inl e \<Rightarrow> Inl e
           | Inr (seen, line) \<Rightarrow> nsswitch_lines seen (snapshot @ line @ [newline]) (drop (n + 1) source)))"
  by pat_completeness auto
termination
  by (relation "measure (\<lambda>(_, _, source). length source)") (auto dest: find_char_Some_less)

declare nsswitch_lines.simps [simp del]

definition make_nsswitch_snapshot :: "string \<Rightarrow> string + string" where
  "make_nsswitch_snapshot source =
     (if source = [] \<or> maximum_file_size < length source
      then Inl ''NSS configuration must be non-empty and no larger than 16 KiB''
      else case nsswitch_lines False [] source of
        Inl e \<Rightarrow> Inl e
      | Inr (seen, snapshot) \<Rightarrow>
          (if \<not> seen then Inl ''NSS configuration does not define a hosts database'' else Inr snapshot))"

end
