(* ===== verification/Resolver_Files.thy ===== *)
theory Resolver_Files
  imports Resolver_View
begin

text \<open>
  The files of \<open>src/workload_resolver_view.cpp\<close>: reading the trusted files of the host, and the
  copy of a sealed snapshot into the private directory of the Workload. The system calls are
  functions on a world; a failed call gives the text of its error or its \<open>errno\<close>.
\<close>

unbundle bit_operations_syntax

section \<open>Reading a trusted file\<close>

record file_status =
  status_regular :: bool
  status_directory :: bool
  status_owner :: u32
  status_mode :: u32
  status_size :: int

datatype read_outcome = Read_Data string | Read_End | Read_Interrupted | Read_Failed string

record ('fd, 'w) trusted_files =
  open_file :: "string \<Rightarrow> 'w \<Rightarrow> (string + 'fd) \<times> 'w"
  stat_file :: "'fd \<Rightarrow> 'w \<Rightarrow> file_status option \<times> 'w"
  read_file :: "'fd \<Rightarrow> 'w \<Rightarrow> read_outcome \<times> 'w"

definition trusted_status :: "file_status \<Rightarrow> bool" where
  "trusted_status s \<longleftrightarrow> status_regular s \<and> status_owner s = 0 \<and> status_mode s AND 18 = 0
     \<and> 0 \<le> status_size s \<and> status_size s \<le> int maximum_file_size"

definition read_pass ::
  "('fd, 'w) trusted_files \<Rightarrow> string \<Rightarrow> 'fd \<Rightarrow> string \<times> 'w \<Rightarrow> string \<times> 'w + (string + string) \<times> 'w" where
  "read_pass fs path fd = (\<lambda>(content, w).
     case read_file fs fd w of (outcome, w1) \<Rightarrow>
       (case outcome of
          Read_Data d \<Rightarrow>
            (if maximum_file_size < length content + length d
             then Inr (Inl (path @ '' grew beyond the 16 KiB limit''), w1)
             else Inl (content @ d, w1))
        | Read_End \<Rightarrow> Inr (Inr content, w1)
        | Read_Interrupted \<Rightarrow> Inl (content, w1)
        | Read_Failed e \<Rightarrow> Inr (Inl (''cannot read '' @ path @ '': '' @ e), w1)))"

text \<open>\<open>None\<close> when every read is interrupted for ever.\<close>

definition read_trusted_file ::
  "('fd, 'w) trusted_files \<Rightarrow> string \<Rightarrow> 'w \<Rightarrow> ((string + string) \<times> 'w) option" where
  "read_trusted_file fs path w =
     (case open_file fs path w of
        (Inl e, w1) \<Rightarrow> Some (Inl (''cannot open '' @ path @ '': '' @ e), w1)
      | (Inr fd, w1) \<Rightarrow>
          (case stat_file fs fd w1 of (status, w2) \<Rightarrow>
             if (case status of None \<Rightarrow> False | Some s \<Rightarrow> trusted_status s)
             then iterate (read_pass fs path fd) ([], w2)
             else Some (Inl (path @ '' must be a root-owned, non-writable regular file no larger than 16 KiB''), w2)))"

record resolver_view_configuration =
  view_resolv_conf :: string
  view_nsswitch_conf :: string

definition read_host_resolver_view ::
  "(string \<Rightarrow> u32 option) \<Rightarrow> (string \<Rightarrow> bool) \<Rightarrow> ('fd, 'w) trusted_files \<Rightarrow> 'w
     \<Rightarrow> ((string + resolver_view_configuration) \<times> 'w) option" where
  "read_host_resolver_view pton4 pton6 fs w =
     (case read_trusted_file fs ''/etc/resolv.conf'' w of
        None \<Rightarrow> None
      | Some (Inl e, w1) \<Rightarrow> Some (Inl e, w1)
      | Some (Inr source, w1) \<Rightarrow>
          (case make_resolver_snapshot pton4 pton6 source of
             Inl e \<Rightarrow> Some (Inl e, w1)
           | Inr resolver \<Rightarrow>
               (case read_trusted_file fs ''/etc/nsswitch.conf'' w1 of
                  None \<Rightarrow> None
                | Some (Inl e, w2) \<Rightarrow> Some (Inl e, w2)
                | Some (Inr nss, w2) \<Rightarrow>
                    (case make_nsswitch_snapshot nss of
                       Inl e \<Rightarrow> Some (Inl e, w2)
                     | Inr nsswitch \<Rightarrow>
                         Some (Inr \<lparr>view_resolv_conf = resolver, view_nsswitch_conf = nsswitch\<rparr>, w2)))))"

section \<open>The copy in the private directory\<close>

datatype copied = Copied nat | Copy_Interrupted | Copy_Failed

record 'w snapshot_copy =
  stat_directory :: "'w \<Rightarrow> file_status option \<times> 'w"
  stat_source :: "'w \<Rightarrow> file_status option \<times> 'w"
  effective_user :: u32
  source_seals :: "'w \<Rightarrow> u32 option \<times> 'w"
  create_copy :: "string \<Rightarrow> 'w \<Rightarrow> bool \<times> 'w"
  read_source :: "nat \<Rightarrow> nat \<Rightarrow> 'w \<Rightarrow> read_outcome \<times> 'w"
  write_copy :: "string \<Rightarrow> 'w \<Rightarrow> copied \<times> 'w"
  protect_copy :: "'w \<Rightarrow> bool \<times> 'w"
  remove_copy :: "string \<Rightarrow> 'w \<Rightarrow> 'w"

text \<open>\<open>F_SEAL_SEAL\<close>, \<open>F_SEAL_SHRINK\<close>, \<open>F_SEAL_GROW\<close> and \<open>F_SEAL_WRITE\<close>.\<close>

definition required_seals :: u32 where "required_seals = 15"

datatype resolver_snapshot_file = Resolv_Conf | Nsswitch_Conf | Snapshot_File_Value int

fun snapshot_file_name :: "resolver_snapshot_file \<Rightarrow> string option" where
  "snapshot_file_name Resolv_Conf = Some ''resolv.conf''"
| "snapshot_file_name Nsswitch_Conf = Some ''nsswitch.conf''"
| "snapshot_file_name (Snapshot_File_Value _) = None"

definition copy_allowed :: "u32 \<Rightarrow> file_status \<Rightarrow> file_status \<Rightarrow> u32 option \<Rightarrow> bool" where
  "copy_allowed user directory source seals \<longleftrightarrow>
     status_directory directory \<and> status_owner directory = user \<and> status_mode directory AND 18 = 0
     \<and> status_regular source \<and> 0 \<le> status_size source \<and> status_size source \<le> int maximum_file_size
     \<and> (case seals of None \<Rightarrow> False | Some s \<Rightarrow> s AND required_seals = required_seals)"

text \<open>The inner loop writes one block, the outer loop reads block after block.\<close>

definition write_pass :: "'w snapshot_copy \<Rightarrow> string \<times> 'w \<Rightarrow> string \<times> 'w + bool \<times> 'w" where
  "write_pass c = (\<lambda>(block, w).
     if block = [] then Inr (True, w)
     else case write_copy c block w of (outcome, w1) \<Rightarrow>
       (case outcome of
          Copy_Interrupted \<Rightarrow> Inl (block, w1)
        | Copy_Failed \<Rightarrow> Inr (False, w1)
        | Copied n \<Rightarrow> if n = 0 then Inr (False, w1) else Inl (drop n block, w1)))"

definition copy_pass :: "'w snapshot_copy \<Rightarrow> nat \<Rightarrow> nat \<times> 'w \<Rightarrow> nat \<times> 'w + (bool \<times> 'w) option" where
  "copy_pass c bytes = (\<lambda>(offset, w).
     if bytes \<le> offset then Inr (Some (True, w))
     else case read_source c offset (min 4096 (bytes - offset)) w of (outcome, w1) \<Rightarrow>
       (case outcome of
          Read_Interrupted \<Rightarrow> Inl (offset, w1)
        | Read_End \<Rightarrow> Inr (Some (False, w1))
        | Read_Failed _ \<Rightarrow> Inr (Some (False, w1))
        | Read_Data block \<Rightarrow>
            (case iterate (write_pass c) (block, w1) of
               None \<Rightarrow> Inr None
             | Some (False, w2) \<Rightarrow> Inr (Some (False, w2))
             | Some (True, w2) \<Rightarrow> Inl (offset + length block, w2))))"

definition copy_content :: "'w snapshot_copy \<Rightarrow> string \<Rightarrow> nat \<Rightarrow> 'w \<Rightarrow> (bool \<times> 'w) option" where
  "copy_content c name bytes w =
     (case iterate (copy_pass c bytes) (0, w) of
        None \<Rightarrow> None
      | Some None \<Rightarrow> None
      | Some (Some (False, w1)) \<Rightarrow> Some (False, remove_copy c name w1)
      | Some (Some (True, w1)) \<Rightarrow>
          (case protect_copy c w1 of (protected, w2) \<Rightarrow>
             Some (if protected then (True, w2) else (False, remove_copy c name w2))))"

text \<open>Whether there is a copy.\<close>

definition materialize_resolver_snapshot ::
  "'w snapshot_copy \<Rightarrow> resolver_snapshot_file \<Rightarrow> 'w \<Rightarrow> (bool \<times> 'w) option" where
  "materialize_resolver_snapshot c file w =
     (case stat_directory c w of
        (None, w1) \<Rightarrow> Some (False, w1)
      | (Some directory, w1) \<Rightarrow>
          (case stat_source c w1 of
             (None, w2) \<Rightarrow> Some (False, w2)
           | (Some source, w2) \<Rightarrow>
               (case source_seals c w2 of (seals, w3) \<Rightarrow>
                  if \<not> copy_allowed (effective_user c) directory source seals then Some (False, w3)
                  else case snapshot_file_name file of
                    None \<Rightarrow> Some (False, w3)
                  | Some name \<Rightarrow>
                      (case create_copy c name w3 of (created, w4) \<Rightarrow>
                         if \<not> created then Some (False, w4)
                         else copy_content c name (nat (status_size source)) w4))))"

end
