(* ===== verification/Workload_Process.thy ===== *)
theory Workload_Process
  imports Helper_Start Helper_Session Command_Runner Resolver_Files
begin

text \<open>
  Launching and watching the Workload, \<open>src/workload_process.cpp\<close>. The child between \<open>fork\<close> and
  \<open>execve\<close> is a record of what the kernel keeps of a process, on which each system call has its
  documented effect or fails as \<open>child_faults\<close> says; the parent works on a world of its own.
\<close>

section \<open>The program\<close>

definition wl_enoent :: int where "wl_enoent = 2"
definition wl_enoexec :: int where "wl_enoexec = 8"
definition wl_ebadf :: int where "wl_ebadf = 9"
definition wl_eacces :: int where "wl_eacces = 13"
definition wl_enotdir :: int where "wl_enotdir = 20"
definition wl_einval :: int where "wl_einval = 22"
definition wl_eperm :: int where "wl_eperm = 1"

definition exec_failure_exit_code :: "int \<Rightarrow> int" where
  "exec_failure_exit_code e =
     (if e = wl_enoent \<or> e = wl_enotdir then 127 else if e = wl_eacces \<or> e = wl_enoexec then 126 else 125)"

text \<open>The value of the first entry \<open>PATH=\<close>.\<close>

fun path_of_environment :: "string list \<Rightarrow> string option" where
  "path_of_environment [] = None"
| "path_of_environment (entry # entries) =
     (if starts_with ''PATH='' entry then Some (drop 5 entry) else path_of_environment entries)"

text \<open>The directories of a path: the parts between colons, one when there is none.\<close>

function path_directories :: "string \<Rightarrow> string list" where
  "path_directories path =
     (case find_char CHR '':'' path of
        None \<Rightarrow> [path]
      | Some ending \<Rightarrow> take ending path # path_directories (drop (Suc ending) path))"
  by pat_completeness auto
termination
  by (relation "measure length") (auto dest: find_char_Some_less)

declare path_directories.simps [simp del]

definition candidate_in :: "string \<Rightarrow> string \<Rightarrow> string" where
  "candidate_in program directory = (if directory = [] then ''./'' @ program else directory @ ''/'' @ program)"

definition executable_candidates :: "workload_context \<Rightarrow> string list" where
  "executable_candidates context =
     (let program = hd (arguments context)
      in if find_char CHR ''/'' program \<noteq> None then [program]
         else case path_of_environment (environment context) of
           None \<Rightarrow> []
         | Some path \<Rightarrow> map (candidate_in program) (path_directories path))"

section \<open>The child\<close>

datatype resolver_step =
  Step_None | Step_Mount_Namespace | Step_Private_Storage | Step_Snapshot_Copy | Step_Resolver_Mount
| Step_Nsswitch_Mount

fun resolver_step_name :: "resolver_step \<Rightarrow> string" where
  "resolver_step_name Step_Mount_Namespace = ''private mount namespace''"
| "resolver_step_name Step_Private_Storage = ''private DNS storage''"
| "resolver_step_name Step_Snapshot_Copy = ''DNS snapshot copy''"
| "resolver_step_name Step_Resolver_Mount = ''resolv.conf mount''"
| "resolver_step_name Step_Nsswitch_Mount = ''nsswitch.conf mount''"
| "resolver_step_name Step_None = ''unknown''"

text \<open>What a descriptor refers to, and whether it is closed on \<open>execve\<close>.\<close>

type_synonym open_file = "nat \<times> bool"

record workload_child =
  child_euid :: nat
  child_egid :: nat
  child_groups :: "nat list"
  child_parent :: int
  child_death_signal :: "nat option"
  child_in_namespace :: bool
  child_private_mounts :: bool
  child_storage :: "(string \<rightharpoonup> string) option"
  child_bound :: "string \<rightharpoonup> string \<times> bool"
  child_files :: "string \<rightharpoonup> file_node"
  child_sigint_default :: bool
  child_descriptors :: "int \<rightharpoonup> open_file"
  child_no_new_privs :: bool
  child_directory :: string
  child_programs :: "string \<Rightarrow> int option"
  child_running :: "(string \<times> string list \<times> string list) option"
  child_errno :: int
  child_faults :: "nat \<rightharpoonup> int"
  child_calls :: nat

text \<open>A system call: it fails with a fault of its own or as its effect says, and then leaves the number
  in \<open>errno\<close>.\<close>

definition child_call ::
  "(workload_child \<Rightarrow> (int + 'a) \<times> workload_child) \<Rightarrow> workload_child \<Rightarrow> (int + 'a) \<times> workload_child" where
  "child_call effect c =
     (let c1 = c\<lparr>child_calls := Suc (child_calls c)\<rparr>
      in case child_faults c (child_calls c) of
           Some e \<Rightarrow> (Inl e, c1\<lparr>child_errno := e\<rparr>)
         | None \<Rightarrow> (case effect c1 of
             (Inl e, c2) \<Rightarrow> (Inl e, c2\<lparr>child_errno := e\<rparr>)
           | (Inr x, c2) \<Rightarrow> (Inr x, c2)))"

definition child_set :: "(workload_child \<Rightarrow> workload_child) \<Rightarrow> workload_child \<Rightarrow> (int + unit) \<times> workload_child" where
  "child_set f = child_call (\<lambda>c. (Inr (), f c))"

text \<open>The calls one after the other up to the first that fails.\<close>

fun child_steps ::
  "(workload_child \<Rightarrow> (int + unit) \<times> workload_child) list \<Rightarrow> workload_child \<Rightarrow> (int + unit) \<times> workload_child" where
  "child_steps [] c = (Inr (), c)"
| "child_steps (f # fs) c = (case f c of (Inl e, c1) \<Rightarrow> (Inl e, c1) | (Inr _, c1) \<Rightarrow> child_steps fs c1)"

section \<open>The resolver view\<close>

definition storage_path :: string where "storage_path = ''/run/netlaglab''"
definition resolv_conf_path :: string where "resolv_conf_path = ''/etc/resolv.conf''"
definition nsswitch_conf_path :: string where "nsswitch_conf_path = ''/etc/nsswitch.conf''"

text \<open>\<open>open\<close> with \<open>O_DIRECTORY | O_NOFOLLOW\<close> and \<open>fstat\<close> of what is there.\<close>

definition child_open_directory :: "string \<Rightarrow> workload_child \<Rightarrow> (int + unit) \<times> workload_child" where
  "child_open_directory path = child_call (\<lambda>c.
     (case child_files c path of
        None \<Rightarrow> Inl wl_enoent
      | Some node \<Rightarrow> if node_kind node = Directory_Node then Inr () else Inl wl_enotdir, c))"

definition check_storage :: "workload_child \<Rightarrow> (int + unit) \<times> workload_child" where
  "check_storage c =
     (case child_call (\<lambda>c. (case child_files c storage_path of None \<Rightarrow> Inl wl_enoent | Some n \<Rightarrow> Inr n, c)) c of
        (Inl e, c1) \<Rightarrow> (Inl e, c1)
      | (Inr node, c1) \<Rightarrow>
          (if node_owner node \<noteq> 0 \<or> node_mode node AND mode_all \<noteq> 493
           then (Inl wl_eacces, c1\<lparr>child_errno := wl_eacces\<rparr>) else (Inr (), c1)))"

definition mount_storage :: "workload_child \<Rightarrow> (int + unit) \<times> workload_child" where
  "mount_storage = child_set (\<lambda>c. c\<lparr>child_storage := Some Map.empty\<rparr>)"

text \<open>\<open>materialize_resolver_snapshot\<close> leaves an exact copy or fails (\<open>Resolver_Files\<close>).\<close>

definition copy_snapshot :: "string \<Rightarrow> string \<Rightarrow> workload_child \<Rightarrow> (int + unit) \<times> workload_child" where
  "copy_snapshot name content = child_set (\<lambda>c.
     c\<lparr>child_storage := map_option (\<lambda>files. files(name \<mapsto> content)) (child_storage c)\<rparr>)"

definition remove_snapshot :: "string \<Rightarrow> workload_child \<Rightarrow> (int + unit) \<times> workload_child" where
  "remove_snapshot name = child_set (\<lambda>c.
     c\<lparr>child_storage := map_option (\<lambda>files. files(name := None)) (child_storage c)\<rparr>)"

text \<open>The target must be a regular file; links are followed. The bind mount shows the copy, which is
  then made read-only.\<close>

definition check_target :: "string \<Rightarrow> workload_child \<Rightarrow> (int + unit) \<times> workload_child" where
  "check_target target c =
     (case child_call (\<lambda>c. (case child_files c target of None \<Rightarrow> Inl wl_enoent | Some n \<Rightarrow> Inr n, c)) c of
        (Inl e, c1) \<Rightarrow> (Inl e, c1)
      | (Inr node, c1) \<Rightarrow>
          (if node_kind node \<noteq> Regular_Node then (Inl wl_einval, c1\<lparr>child_errno := wl_einval\<rparr>) else (Inr (), c1)))"

definition bind_file :: "string \<Rightarrow> string \<Rightarrow> bool \<Rightarrow> workload_child \<Rightarrow> (int + unit) \<times> workload_child" where
  "bind_file content target readonly = child_set (\<lambda>c.
     c\<lparr>child_bound := (child_bound c)(target \<mapsto> (content, readonly))\<rparr>)"

definition mount_read_only_snapshot :: "string \<Rightarrow> string \<Rightarrow> workload_child \<Rightarrow> (int + unit) \<times> workload_child" where
  "mount_read_only_snapshot content target =
     child_steps [check_target target, bind_file content target False, bind_file content target True]"

definition resolver_steps ::
  "resolver_view_configuration \<Rightarrow> (resolver_step \<times> (workload_child \<Rightarrow> (int + unit) \<times> workload_child) list) list" where
  "resolver_steps view =
     [(Step_Mount_Namespace, [child_set id, child_set (\<lambda>c. c\<lparr>child_private_mounts := True\<rparr>)]),
      (Step_Private_Storage,
        [child_open_directory storage_path, check_storage, mount_storage, child_set id]),
      (Step_Snapshot_Copy,
        [copy_snapshot ''resolv.conf'' (view_resolv_conf view), copy_snapshot ''nsswitch.conf'' (view_nsswitch_conf view)]),
      (Step_Resolver_Mount,
        [mount_read_only_snapshot (view_resolv_conf view) resolv_conf_path, remove_snapshot ''resolv.conf'']),
      (Step_Nsswitch_Mount,
        [mount_read_only_snapshot (view_nsswitch_conf view) nsswitch_conf_path, remove_snapshot ''nsswitch.conf''])]"

text \<open>A failure names its step and error number.\<close>

fun run_resolver_steps ::
  "(resolver_step \<times> (workload_child \<Rightarrow> (int + unit) \<times> workload_child) list) list \<Rightarrow> workload_child
     \<Rightarrow> (resolver_step \<times> int + unit) \<times> workload_child" where
  "run_resolver_steps [] c = (Inr (), c)"
| "run_resolver_steps ((step, calls) # rest) c =
     (case child_steps calls c of
        (Inl e, c1) \<Rightarrow> (Inl (step, e), c1)
      | (Inr _, c1) \<Rightarrow> run_resolver_steps rest c1)"

definition install_resolver_view ::
  "resolver_view_configuration \<Rightarrow> workload_child \<Rightarrow> (resolver_step \<times> int + unit) \<times> workload_child" where
  "install_resolver_view view = run_resolver_steps (resolver_steps view)"

section \<open>Descriptors and credentials\<close>

definition child_close :: "int \<Rightarrow> workload_child \<Rightarrow> (int + unit) \<times> workload_child" where
  "child_close d = child_call (\<lambda>c.
     if child_descriptors c d = None then (Inl wl_ebadf, c)
     else (Inr (), c\<lparr>child_descriptors := (child_descriptors c)(d := None)\<rparr>))"

definition child_dup2 :: "int \<Rightarrow> int \<Rightarrow> workload_child \<Rightarrow> (int + unit) \<times> workload_child" where
  "child_dup2 source target = child_call (\<lambda>c.
     case child_descriptors c source of
       None \<Rightarrow> (Inl wl_ebadf, c)
     | Some (f, _) \<Rightarrow> (Inr (), c\<lparr>child_descriptors := (child_descriptors c)(target \<mapsto> (f, False))\<rparr>))"

definition place_descriptor :: "int \<Rightarrow> standard_source \<Rightarrow> workload_child \<Rightarrow> (int + unit) \<times> workload_child" where
  "place_descriptor target source c =
     (case source of
        Source_Closed \<Rightarrow>
          (case child_close target c of
             (Inl e, c1) \<Rightarrow> (if e \<noteq> wl_ebadf then Inl e else Inr (), c1)
           | (Inr _, c1) \<Rightarrow> (Inr (), c1))
      | Source_Inherited \<Rightarrow> (Inr (), c)
      | Source_Descriptor d \<Rightarrow> child_dup2 d target c)"

definition place_descriptors :: "standard_source list \<Rightarrow> workload_child \<Rightarrow> (int + unit) \<times> workload_child" where
  "place_descriptors sources =
     child_steps (map (\<lambda>(i, s). place_descriptor (int i) s) (enumerate 0 sources))"

text \<open>A change of the effective user or group clears the parent-death signal (\<open>PR_SET_PDEATHSIG\<close>).\<close>

definition child_setgroups :: "nat list \<Rightarrow> workload_child \<Rightarrow> (int + unit) \<times> workload_child" where
  "child_setgroups groups = child_call (\<lambda>c.
     if child_euid c \<noteq> 0 then (Inl wl_eperm, c) else (Inr (), c\<lparr>child_groups := groups\<rparr>))"

definition child_setgid :: "nat \<Rightarrow> workload_child \<Rightarrow> (int + unit) \<times> workload_child" where
  "child_setgid gid = child_call (\<lambda>c.
     if child_euid c \<noteq> 0 then (Inl wl_eperm, c)
     else (Inr (), c\<lparr>child_egid := gid,
       child_death_signal := if child_egid c = gid then child_death_signal c else None\<rparr>))"

definition child_setuid :: "nat \<Rightarrow> workload_child \<Rightarrow> (int + unit) \<times> workload_child" where
  "child_setuid uid = child_call (\<lambda>c.
     if child_euid c \<noteq> 0 then (Inl wl_eperm, c)
     else (Inr (), c\<lparr>child_euid := uid,
       child_death_signal := if child_euid c = uid then child_death_signal c else None\<rparr>))"

definition assume_identity :: "workload_identity \<Rightarrow> workload_child \<Rightarrow> (int + unit) \<times> workload_child" where
  "assume_identity identity c =
     (if child_euid c = 0
      then child_steps [child_setgroups (identity_groups identity), child_setgid (identity_gid identity),
             child_setuid (identity_uid identity)] c
      else if child_euid c \<noteq> identity_uid identity \<or> child_egid c \<noteq> identity_gid identity
      then (Inl (child_errno c), c) else (Inr (), c))"

section \<open>Executing\<close>

definition child_execve ::
  "string \<Rightarrow> string list \<Rightarrow> string list \<Rightarrow> workload_child \<Rightarrow> (int + unit) \<times> workload_child" where
  "child_execve path args env = child_call (\<lambda>c.
     case child_programs c path of
       Some e \<Rightarrow> (Inl e, c)
     | None \<Rightarrow> (Inr (), c\<lparr>child_running := Some (path, args, env),
         child_descriptors := (\<lambda>d. case child_descriptors c d of
           Some (f, cloexec) \<Rightarrow> if cloexec then None else Some (f, cloexec) | None \<Rightarrow> None)\<rparr>))"

text \<open>The last error number and whether permission was denied somewhere.\<close>

fun try_candidates ::
  "string list \<Rightarrow> workload_context \<Rightarrow> int \<times> bool \<Rightarrow> workload_child \<Rightarrow> (int \<times> bool + unit) \<times> workload_child" where
  "try_candidates [] context attempt c = (Inl attempt, c)"
| "try_candidates (path # paths) context (last_error, denied) c =
     (case child_execve path (arguments context) (environment context) c of
        (Inr _, c1) \<Rightarrow> (Inr (), c1)
      | (Inl e, c1) \<Rightarrow>
          (if e = wl_eacces then try_candidates paths context (e, True) c1
           else if e \<noteq> wl_enoent \<and> e \<noteq> wl_enotdir then (Inl (e, denied), c1)
           else try_candidates paths context (e, denied) c1))"

definition exec_error :: "int \<times> bool \<Rightarrow> int" where
  "exec_error r =
     (if (fst r = wl_enoent \<or> fst r = wl_enotdir) \<and> snd r then wl_eacces else fst r)"

text \<open>A report of the child: exit code, error number and step.\<close>

type_synonym launch_report = "int \<times> int \<times> resolver_step"

definition plain_report :: "workload_child \<Rightarrow> launch_report" where
  "plain_report c = (125, child_errno c, Step_None)"

record launch_request =
  launch_context :: workload_context
  launch_identity :: workload_identity
  launch_sources :: "standard_source list"
  launch_namespace :: "bool option"
  launch_view :: "resolver_view_configuration option"
  launch_parent :: int

text \<open>\<open>launch_namespace\<close> is \<open>None\<close> without an entry, otherwise whether the entry has a handle.\<close>

definition enter_launch_namespace :: "bool option \<Rightarrow> workload_child \<Rightarrow> (int + unit) \<times> workload_child" where
  "enter_launch_namespace entry c =
     (case entry of
        None \<Rightarrow> (Inr (), c)
      | Some handle \<Rightarrow>
          (if \<not> handle then (Inl (child_errno c), c)
           else child_set (\<lambda>c. c\<lparr>child_in_namespace := True\<rparr>) c))"

definition guard_parent :: "int \<Rightarrow> workload_child \<Rightarrow> (int + unit) \<times> workload_child" where
  "guard_parent parent c =
     (case child_set (\<lambda>c. c\<lparr>child_death_signal := Some 9\<rparr>) c of
        (Inl e, c1) \<Rightarrow> (Inl e, c1)
      | (Inr _, c1) \<Rightarrow> (if child_parent c1 \<noteq> parent then (Inl (child_errno c1), c1) else (Inr (), c1)))"

definition finish_child :: "launch_request \<Rightarrow> string list \<Rightarrow> workload_child \<Rightarrow> (launch_report + unit) \<times> workload_child" where
  "finish_child q candidates c =
     (case child_steps [child_set (\<lambda>c. c\<lparr>child_sigint_default := True\<rparr>),
             place_descriptors (launch_sources q), assume_identity (launch_identity q),
             child_set (\<lambda>c. c\<lparr>child_no_new_privs := True\<rparr>),
             child_set (\<lambda>c. c\<lparr>child_directory := working_directory (launch_context q)\<rparr>)] c of
        (Inl _, c1) \<Rightarrow> (Inl (plain_report c1), c1)
      | (Inr _, c1) \<Rightarrow>
          (case try_candidates candidates (launch_context q) (wl_enoent, False) c1 of
             (Inr _, c2) \<Rightarrow> (Inr (), c2)
           | (Inl r, c2) \<Rightarrow> (Inl (exec_failure_exit_code (exec_error r), child_errno c2, Step_None), c2)))"

definition run_workload_child :: "launch_request \<Rightarrow> string list \<Rightarrow> workload_child \<Rightarrow> (launch_report + unit) \<times> workload_child" where
  "run_workload_child q candidates c =
     (case child_steps [guard_parent (launch_parent q), enter_launch_namespace (launch_namespace q)] c of
        (Inl _, c1) \<Rightarrow> (Inl (plain_report c1), c1)
      | (Inr _, c1) \<Rightarrow>
          (case launch_view q of
             None \<Rightarrow> finish_child q candidates c1
           | Some view \<Rightarrow>
               (case install_resolver_view view c1 of
                  (Inl (step, e), c2) \<Rightarrow> (Inl (125, e, step), c2)
                | (Inr _, c2) \<Rightarrow> finish_child q candidates c2)))"

section \<open>The message to the parent\<close>

fun step_number :: "resolver_step \<Rightarrow> nat" where
  "step_number Step_None = 0"
| "step_number Step_Mount_Namespace = 1"
| "step_number Step_Private_Storage = 2"
| "step_number Step_Snapshot_Copy = 3"
| "step_number Step_Resolver_Mount = 4"
| "step_number Step_Nsswitch_Mount = 5"

definition step_of_number :: "int \<Rightarrow> resolver_step" where
  "step_of_number n =
     (if n = 1 then Step_Mount_Namespace else if n = 2 then Step_Private_Storage
      else if n = 3 then Step_Snapshot_Copy else if n = 4 then Step_Resolver_Mount
      else if n = 5 then Step_Nsswitch_Mount else Step_None)"

definition int_bytes :: "int \<Rightarrow> bytes" where "int_bytes i = le_bytes 4 (nat (i mod 2 ^ 32))"
definition bytes_int :: "bytes \<Rightarrow> int" where "bytes_int b = signed32 (le_value b)"

definition launch_message :: "launch_report \<Rightarrow> bytes" where
  "launch_message = (\<lambda>(code, e, step). int_bytes code @ int_bytes e @ int_bytes (int (step_number step)))"

definition launch_message_size :: nat where "launch_message_size = 12"

section \<open>The parent\<close>

record 'w launch_world =
  open_error_pipe :: "'w \<Rightarrow> bool \<times> 'w"
  fork_workload :: "launch_request \<Rightarrow> string list \<Rightarrow> 'w \<Rightarrow> (int + int) \<times> 'w"
  read_error_pipe :: "nat \<Rightarrow> 'w \<Rightarrow> bytes pipe_read \<times> 'w"
  await_workload :: "int \<Rightarrow> 'w \<Rightarrow> wait_answer \<times> 'w"
  look_workload :: "int \<Rightarrow> 'w \<Rightarrow> wait_answer \<times> 'w"
  signal_workload :: "int \<Rightarrow> int \<Rightarrow> 'w \<Rightarrow> bool \<times> 'w"
  launch_strerror :: "int \<Rightarrow> string"

text \<open>The bytes received, \<open>None\<close> when a read failed.\<close>

definition report_read_pass ::
  "'w launch_world \<Rightarrow> bytes \<times> 'w \<Rightarrow> bytes \<times> 'w + bytes option \<times> 'w" where
  "report_read_pass lw = (\<lambda>(received, w).
     if \<not> length received < launch_message_size then Inr (Some received, w)
     else case read_error_pipe lw (launch_message_size - length received) w of (r, w1) \<Rightarrow>
       (case r of
          Pipe_Data d \<Rightarrow> Inl (received @ d, w1)
        | Pipe_End \<Rightarrow> Inr (Some received, w1)
        | Pipe_Interrupted \<Rightarrow> Inl (received, w1)
        | Pipe_Empty \<Rightarrow> Inr (None, w1)
        | Pipe_Failed _ \<Rightarrow> Inr (None, w1)))"

definition failed_launch_result :: "int \<Rightarrow> string \<Rightarrow> int launch_result" where
  "failed_launch_result code t =
     \<lparr>launched_process = None, launch_failure_exit_code = code, launch_failure = t\<rparr>"

definition resolver_failure_text :: "'w launch_world \<Rightarrow> int \<Rightarrow> int \<Rightarrow> string" where
  "resolver_failure_text lw e step =
     ''resolver view setup at '' @ resolver_step_name (step_of_number step) @ '': '' @ launch_strerror lw e
     @ '' (errno '' @ to_string_int e @ '')''"

definition judge_launch :: "'w launch_world \<Rightarrow> bytes option \<Rightarrow> int launch_result" where
  "judge_launch lw received =
     (case received of
        Some m \<Rightarrow>
          (if length m \<noteq> launch_message_size then failed_launch_result 125 []
           else let code = bytes_int (take 4 m); e = bytes_int (take 4 (drop 4 m)); step = bytes_int (take 4 (drop 8 m))
                in failed_launch_result code (if step \<noteq> 0 then resolver_failure_text lw e step else []))
      | None \<Rightarrow> failed_launch_result 125 [])"

definition conclude_launch :: "'w launch_world \<Rightarrow> int \<Rightarrow> bytes option \<Rightarrow> 'w \<Rightarrow> (int launch_result \<times> 'w) option" where
  "conclude_launch lw pid received w =
     (if received = Some []
      then Some (\<lparr>launched_process = Some pid, launch_failure_exit_code = 0, launch_failure = []\<rparr>, w)
      else map_option (\<lambda>(_, w1). (judge_launch lw received, w1)) (retry_interrupted (await_workload lw pid) w))"

definition start_workload ::
  "'w launch_world \<Rightarrow> launch_request \<Rightarrow> string list \<Rightarrow> 'w \<Rightarrow> (int launch_result \<times> 'w) option" where
  "start_workload lw q candidates w =
     (case open_error_pipe lw w of (opened, w1) \<Rightarrow>
        if \<not> opened then Some (failed_launch_result 125 [], w1)
        else case fork_workload lw q candidates w1 of
          (Inl _, w2) \<Rightarrow> Some (failed_launch_result 125 [], w2)
        | (Inr pid, w2) \<Rightarrow>
            Option.bind (iterate (report_read_pass lw) ([], w2)) (\<lambda>(received, w3).
              conclude_launch lw pid received w3))"

definition launch_workload :: "'w launch_world \<Rightarrow> launch_request \<Rightarrow> 'w \<Rightarrow> (int launch_result \<times> 'w) option" where
  "launch_workload lw q w =
     (if arguments (launch_context q) = [] then Some (failed_launch_result 125 [], w)
      else let candidates = executable_candidates (launch_context q)
           in if candidates = [] then Some (failed_launch_result 127 [], w) else start_workload lw q candidates w)"

section \<open>The process of the Workload\<close>

text \<open>\<open>WorkloadProcess\<close> is its process number, \<open>None\<close> once it was reaped.\<close>

definition decode_wait_status :: "nat \<Rightarrow> workload_status" where
  "decode_wait_status status =
     (if wifexited status then \<lparr>status_exited = True, status_value = int (wexitstatus status)\<rparr>
      else if wifsignaled status then \<lparr>status_exited = False, status_value = int (wtermsig status)\<rparr>
      else \<lparr>status_exited = False, status_value = 0\<rparr>)"

definition process_send_signal :: "'w launch_world \<Rightarrow> int option \<Rightarrow> int \<Rightarrow> 'w \<Rightarrow> bool \<times> 'w" where
  "process_send_signal lw pid n w =
     (case pid of None \<Rightarrow> (False, w) | Some p \<Rightarrow> signal_workload lw p n w)"

definition process_wait ::
  "'w launch_world \<Rightarrow> int option \<Rightarrow> 'w \<Rightarrow> (workload_status option \<times> int option \<times> 'w) option" where
  "process_wait lw pid w =
     (case pid of
        None \<Rightarrow> Some (None, pid, w)
      | Some p \<Rightarrow> map_option (\<lambda>(answer, w1). case answer of
            Wait_Ended status \<Rightarrow> (Some (decode_wait_status status), None, w1)
          | _ \<Rightarrow> (None, pid, w1))
          (retry_interrupted (await_workload lw p) w))"

definition process_poll ::
  "'w launch_world \<Rightarrow> int option \<Rightarrow> 'w \<Rightarrow> (workload_poll \<times> int option \<times> 'w) option" where
  "process_poll lw pid w =
     (case pid of
        None \<Rightarrow> Some (Workload_Poll_Error, pid, w)
      | Some p \<Rightarrow> map_option (\<lambda>(answer, w1). case answer of
            Wait_Running \<Rightarrow> (Workload_Running, pid, w1)
          | Wait_Ended status \<Rightarrow> (Workload_Finished (decode_wait_status status), None, w1)
          | _ \<Rightarrow> (Workload_Poll_Error, pid, w1))
          (retry_interrupted (look_workload lw p) w))"

definition terminate_workload :: "'w launch_world \<Rightarrow> int option \<Rightarrow> 'w \<Rightarrow> (int option \<times> 'w) option" where
  "terminate_workload lw pid w =
     (case pid of
        None \<Rightarrow> Some (None, w)
      | Some p \<Rightarrow> map_option (\<lambda>(_, w1). (None, w1))
          (retry_interrupted (await_workload lw p) (snd (signal_workload lw p 9 w))))"

end
