(* ===== verification/Command_Runner_Laws.thy ===== *)
theory Command_Runner_Laws
  imports Command_Runner
begin

text \<open>
  A command that is run comes to a result, also when it writes without end as long as it runs, and is
  never left behind; its result tells what became of the process and what it wrote. \<open>honest_runner\<close>
  says what the kernel does; it limits only interrupts in a row and, once the command is reaped, what
  is left in its pipes. \<open>whole_drain_never_ends\<close> shows that the last limit is needed.
\<close>

section \<open>What really happens\<close>

datatype command_process = No_Process | Process_Running | Process_Zombie nat | Process_Reaped nat

fun process_later :: "command_process \<Rightarrow> command_process \<Rightarrow> bool" where
  "process_later Process_Running q \<longleftrightarrow> (case q of Process_Running \<Rightarrow> True | Process_Zombie _ \<Rightarrow> True | _ \<Rightarrow> False)"
| "process_later p q \<longleftrightarrow> q = p"

fun wait_truth :: "command_process \<Rightarrow> wait_answer \<Rightarrow> command_process \<Rightarrow> bool" where
  "wait_truth p Wait_Interrupted q \<longleftrightarrow> process_later p q"
| "wait_truth p Wait_Running q \<longleftrightarrow> p = Process_Running \<and> process_later p q"
| "wait_truth p (Wait_Ended s) q \<longleftrightarrow> process_later p (Process_Zombie s) \<and> q = Process_Reaped s"
| "wait_truth p (Wait_Failed e) q \<longleftrightarrow> (case p of No_Process \<Rightarrow> True | Process_Reaped _ \<Rightarrow> True | _ \<Rightarrow> False) \<and> q = p"

definition reaped :: "command_process \<Rightarrow> bool" where
  "reaped p \<longleftrightarrow> (case p of Process_Reaped _ \<Rightarrow> True | _ \<Rightarrow> False)"

text \<open>\<open>seen_text\<close> and \<open>seen_failure\<close> are all that was read so far. \<open>seen_complete\<close> says of a pipe that
  nothing the command wrote to it is unread and that it can write no more. \<open>seen_effort\<close> bounds the
  interrupts that can still come without a pause and, once the command is reaped, what is left in the
  pipes; a command that runs can write without end.\<close>

record 'w runner_view =
  seen_process :: "'w \<Rightarrow> command_process"
  seen_now :: "'w \<Rightarrow> int"
  seen_text :: "'w \<Rightarrow> command_pipe \<Rightarrow> string"
  seen_failure :: "'w \<Rightarrow> bytes"
  seen_complete :: "'w \<Rightarrow> command_pipe \<Rightarrow> bool"
  seen_effort :: "'w \<Rightarrow> nat"

definition goes_on :: "'w runner_view \<Rightarrow> 'w \<Rightarrow> 'w \<Rightarrow> bool" where
  "goes_on v w x \<longleftrightarrow> seen_now v w \<le> seen_now v x \<and> (\<forall>p. seen_complete v w p \<longrightarrow> seen_complete v x p)"

definition still_watched :: "'w runner_view \<Rightarrow> 'w \<Rightarrow> 'w \<Rightarrow> bool" where
  "still_watched v w x \<longleftrightarrow> process_later (seen_process v w) (seen_process v x) \<and> goes_on v w x"

definition unread :: "'w runner_view \<Rightarrow> 'w \<Rightarrow> 'w \<Rightarrow> bool" where
  "unread v w x \<longleftrightarrow> still_watched v w x
     \<and> seen_text v x = seen_text v w \<and> seen_failure v x = seen_failure v w"

definition honest_wait :: "'w runner_view \<Rightarrow> 'w \<Rightarrow> wait_answer \<times> 'w \<Rightarrow> bool" where
  "honest_wait v w r \<longleftrightarrow> wait_truth (seen_process v w) (fst r) (seen_process v (snd r))
     \<and> goes_on v w (snd r) \<and> seen_text v (snd r) = seen_text v w
     \<and> seen_failure v (snd r) = seen_failure v w
     \<and> (fst r = Wait_Interrupted \<longrightarrow> seen_effort v (snd r) < seen_effort v w)"

text \<open>What an answer of a read says: data is not empty, an end means that nothing more comes, and an
  empty pipe means it once the command is reaped.\<close>

definition honest_answer ::
  "'w runner_view \<Rightarrow> command_pipe \<Rightarrow> 'w \<Rightarrow> 'a list pipe_read \<Rightarrow> 'w \<Rightarrow> bool" where
  "honest_answer v p w r x \<longleftrightarrow>
     (case r of
        Pipe_Data d \<Rightarrow> d \<noteq> [] \<and> (reaped (seen_process v w) \<longrightarrow> seen_effort v x < seen_effort v w)
      | Pipe_End \<Rightarrow> seen_complete v x p
      | Pipe_Interrupted \<Rightarrow> seen_effort v x < seen_effort v w
      | Pipe_Empty \<Rightarrow> reaped (seen_process v w) \<longrightarrow> seen_complete v x p
      | Pipe_Failed _ \<Rightarrow> True)"

definition honest_text_read :: "'w runner_view \<Rightarrow> command_pipe \<Rightarrow> 'w \<Rightarrow> string pipe_read \<times> 'w \<Rightarrow> bool" where
  "honest_text_read v p w r \<longleftrightarrow> still_watched v w (snd r) \<and> seen_failure v (snd r) = seen_failure v w
     \<and> seen_text v (snd r) = (seen_text v w)(p := seen_text v w p @ (case fst r of Pipe_Data d \<Rightarrow> d | _ \<Rightarrow> []))
     \<and> honest_answer v p w (fst r) (snd r)"

definition honest_failure_read :: "'w runner_view \<Rightarrow> nat \<Rightarrow> 'w \<Rightarrow> bytes pipe_read \<times> 'w \<Rightarrow> bool" where
  "honest_failure_read v n w r \<longleftrightarrow> still_watched v w (snd r) \<and> seen_text v (snd r) = seen_text v w
     \<and> seen_failure v (snd r) = seen_failure v w @ (case fst r of Pipe_Data d \<Rightarrow> d | _ \<Rightarrow> [])
     \<and> (case fst r of Pipe_Data d \<Rightarrow> length d \<le> n | _ \<Rightarrow> True)
     \<and> honest_answer v Failure_Pipe w (fst r) (snd r)"

definition honest_runner :: "'w runner_world \<Rightarrow> 'w runner_view \<Rightarrow> bool" where
  "honest_runner rw v \<longleftrightarrow>
     (\<forall>w. fst (runner_clock rw w) = seen_now v w \<and> unread v w (snd (runner_clock rw w)))
     \<and> (\<forall>p w. unread v w (snd (make_pipe rw p w)) \<and> unread v w (snd (pipe_flags rw p w)))
     \<and> (\<forall>p n w. unread v w (snd (set_pipe_flags rw p n w)))
     \<and> (\<forall>q w. goes_on v w (snd (fork_command rw q w))
          \<and> seen_text v (snd (fork_command rw q w)) = seen_text v w
          \<and> seen_failure v (snd (fork_command rw q w)) = seen_failure v w
          \<and> (case fst (fork_command rw q w) of
               Inl _ \<Rightarrow> seen_process v (snd (fork_command rw q w)) = seen_process v w
             | Inr _ \<Rightarrow> process_later Process_Running (seen_process v (snd (fork_command rw q w)))))
     \<and> (\<forall>w. honest_wait v w (look_command rw w))
     \<and> (\<forall>w. honest_wait v w (await_command rw w) \<and> fst (await_command rw w) \<noteq> Wait_Running)
     \<and> (\<forall>w. unread v w (snd (kill_command rw w)))
     \<and> (\<forall>o3 t w. unread v w (snd (poll_pipes rw o3 t w)) \<and> seen_now v w < seen_now v (snd (poll_pipes rw o3 t w)))
     \<and> (\<forall>p n w. honest_text_read v p w (read_text_pipe rw p n w))
     \<and> (\<forall>n w. honest_failure_read v n w (read_failure_pipe rw n w))"

lemma process_later_refl [simp]: "process_later p p"
  by (cases p) auto

lemma process_later_trans: "process_later p q \<Longrightarrow> process_later q r \<Longrightarrow> process_later p r"
  by (cases p; cases q) auto

lemma goes_on_trans: "goes_on v w x \<Longrightarrow> goes_on v x y \<Longrightarrow> goes_on v w y"
  unfolding goes_on_def by fastforce

lemma still_watched_refl [simp]: "still_watched v w w"
  by (simp add: still_watched_def goes_on_def)

lemma still_watched_trans: "still_watched v w x \<Longrightarrow> still_watched v x y \<Longrightarrow> still_watched v w y"
  unfolding still_watched_def by (blast intro: process_later_trans goes_on_trans)

lemma unread_refl [simp]: "unread v w w"
  by (simp add: unread_def)

lemma unread_trans: "unread v w x \<Longrightarrow> unread v x y \<Longrightarrow> unread v w y"
  unfolding unread_def by (auto intro: still_watched_trans)

lemma reaped_later: "reaped p \<Longrightarrow> process_later p q \<Longrightarrow> reaped q"
  by (cases p) (auto simp: reaped_def)

text \<open>A loop with an invariant and a well-founded order of its states ends.\<close>

lemma iterate_reaches:
  assumes "wf r" "stays s"
    and "\<And>s t. stays s \<Longrightarrow> body s = Inl t \<Longrightarrow> stays t \<and> (t, s) \<in> r"
    and "\<And>s a. stays s \<Longrightarrow> body s = Inr a \<Longrightarrow> post a"
  shows "\<exists>a. iterate body s = Some a \<and> post a"
  using assms(1,2)
proof (induction s rule: wf_induct_rule)
  case (less s)
  show ?case
    using less.IH assms(3,4) [OF less.prems] iterate_unfold [of body s] by (cases "body s") auto
qed

lemma wait_truth_later: "process_later p q \<Longrightarrow> wait_truth q a r \<Longrightarrow> wait_truth p a r"
  by (cases a; cases p; cases q) (auto intro: process_later_trans)

lemma retry_wait:
  assumes "\<And>w. honest_wait v w (call w)" "\<And>w. P (fst (call w))"
  shows "\<exists>a x. retry_interrupted call w = Some (a, x) \<and> a \<noteq> Wait_Interrupted \<and> P a
    \<and> wait_truth (seen_process v w) a (seen_process v x) \<and> goes_on v w x
    \<and> seen_text v x = seen_text v w \<and> seen_failure v x = seen_failure v w"
proof (induction "seen_effort v w" arbitrary: w rule: less_induct)
  case less
  obtain a x where c: "call w = (a, x)" by fastforce
  with assms(1) [of w] have h: "honest_wait v w (a, x)" by simp
  show ?case
  proof (cases "a = Wait_Interrupted")
    case False
    then have "retry_interrupted call w = Some (a, x)"
      unfolding retry_interrupted_def by (intro iterate_unfold(2)) (simp add: c)
    with False h assms(2) [of w] c show ?thesis by (auto simp: honest_wait_def)
  next
    case True
    then have "retry_interrupted call w = retry_interrupted call x"
      unfolding retry_interrupted_def by (intro iterate_unfold(1)) (simp add: c)
    moreover from h True have x: "seen_effort v x < seen_effort v w" "process_later (seen_process v w) (seen_process v x)"
      "goes_on v w x" "seen_text v x = seen_text v w" "seen_failure v x = seen_failure v w"
      by (simp_all add: honest_wait_def)
    ultimately show ?thesis
      using less.hyps [OF x(1)] wait_truth_later [OF x(2)] goes_on_trans [OF x(3)] by fastforce
  qed
qed

section \<open>Draining\<close>

text \<open>The state of the loop is what was read, cut at the limits; a closed pipe is complete.\<close>

definition run_tells :: "'w runner_view \<Rightarrow> command_request \<Rightarrow> run_state \<Rightarrow> 'w \<Rightarrow> bool" where
  "run_tells v q s w \<longleftrightarrow> run_diagnostic s = take maximum_diagnostic_size (seen_text v w Stderr_Pipe)
     \<and> run_output s = take (request_maximum q) (seen_text v w Stdout_Pipe) \<and> run_failure s = seen_failure v w
     \<and> length (seen_failure v w) \<le> failure_message_size
     \<and> (run_stderr_open s \<or> seen_complete v w Stderr_Pipe) \<and> (run_failure_open s \<or> seen_complete v w Failure_Pipe)
     \<and> (request_capture q \<longrightarrow> run_stdout_open s \<or> seen_complete v w Stdout_Pipe)"

lemma capture_more:
  "take limit g @ take (min (limit - length (take limit g)) (length d)) d = take limit (g @ d)"
  by (cases "length g \<le> limit") (simp_all add: min_def)

lemma drain_step:
  assumes "read_text_pipe rw p 1024 x = (r, y)"
  shows "drain_pass rw p whole limit (reads, o1, c, x) =
      (if \<not> o1 then Inr (Inr (), o1, c, x)
       else case r of
          Pipe_Data d \<Rightarrow>
            (let c1 = c @ take (min (limit - length c) (length d)) d
             in if \<not> whole \<and> Suc reads = 16 then Inr (Inr (), o1, c1, y) else Inl (Suc reads, o1, c1, y))
        | Pipe_End \<Rightarrow> Inl (reads, False, c, y)
        | Pipe_Interrupted \<Rightarrow> Inl (reads, o1, c, y)
        | Pipe_Empty \<Rightarrow> Inr (Inr (), o1, c, y)
        | Pipe_Failed e \<Rightarrow> Inr (Inl e, o1, c, y))"
  by (simp add: drain_pass_def assms)

lemma drain_output_ends:
  assumes "honest_runner rw v" "captured = take limit (seen_text v w p)"
    and "whole \<Longrightarrow> reaped (seen_process v w)"
  shows "\<exists>r o1 c x. drain_output rw p whole limit opened captured w = Some (r, o1, c, x)
    \<and> c = take limit (seen_text v x p) \<and> (\<forall>k. k \<noteq> p \<longrightarrow> seen_text v x k = seen_text v w k)
    \<and> seen_failure v x = seen_failure v w \<and> still_watched v w x
    \<and> (o1 \<or> \<not> opened \<or> seen_complete v x p) \<and> (whole \<and> r = Inr () \<longrightarrow> \<not> opened \<or> seen_complete v x p)"
proof -
  define meets where "meets o1 c x \<longleftrightarrow> c = take limit (seen_text v x p)
    \<and> (\<forall>k. k \<noteq> p \<longrightarrow> seen_text v x k = seen_text v w k) \<and> seen_failure v x = seen_failure v w
    \<and> still_watched v w x \<and> (o1 \<or> \<not> opened \<or> seen_complete v x p)" for o1 :: bool and c x
  define stays where "stays = (\<lambda>(reads, o1, c, x). meets o1 c x \<and> (whole \<or> reads < (16 :: nat)))"
  define post where "post = (\<lambda>(r :: int + unit, o1, c, x).
    meets o1 c x \<and> (whole \<and> r = Inr () \<longrightarrow> \<not> opened \<or> seen_complete v x p))"
  define order where "order = measures [\<lambda>(reads :: nat, o1, c :: string, x). if o1 then 1 else 0,
    \<lambda>(reads, o1, c, x). if whole then 0 else 16 - reads, \<lambda>(reads, o1, c, x). seen_effort v x]"
  have went: "whole \<longrightarrow> reaped (seen_process v x)"
      "\<And>o2. o2 \<or> \<not> opened \<or> seen_complete v y p \<Longrightarrow> meets o2 (take limit (seen_text v y p)) y"
      "o1 \<or> \<not> opened \<or> seen_complete v y p" "c = take limit (seen_text v x p)"
      "seen_text v y p = seen_text v x p @ (case r of Pipe_Data d \<Rightarrow> d | _ \<Rightarrow> [])" "honest_answer v p x r y"
    if "meets o1 c x" "read_text_pipe rw p 1024 x = (r, y)" for o1 c x r y
  proof -
    have h: "honest_text_read v p x (r, y)" using assms(1) that(2) unfolding honest_runner_def by metis
    then have y: "still_watched v x y" by (simp add: honest_text_read_def)
    show "whole \<longrightarrow> reaped (seen_process v x)"
      using assms(3) that(1) reaped_later unfolding meets_def still_watched_def by blast
    show "meets o2 (take limit (seen_text v y p)) y" if "o2 \<or> \<not> opened \<or> seen_complete v y p" for o2
      using h \<open>meets o1 c x\<close> that still_watched_trans [OF _ y] by (simp add: meets_def honest_text_read_def)
    show "o1 \<or> \<not> opened \<or> seen_complete v y p"
      using that(1) y by (auto simp: meets_def still_watched_def goes_on_def)
    show "c = take limit (seen_text v x p)" using that(1) by (simp add: meets_def)
    show "seen_text v y p = seen_text v x p @ (case r of Pipe_Data d \<Rightarrow> d | _ \<Rightarrow> [])" "honest_answer v p x r y"
      using h by (simp_all add: honest_text_read_def)
  qed
  have "wf order" by (simp add: order_def)
  moreover have "stays (0, opened, captured, w)" by (simp add: stays_def meets_def assms(2))
  moreover have "stays t \<and> (t, s) \<in> order" if "stays s" "drain_pass rw p whole limit s = Inl t" for s t
  proof -
    obtain reads o1 c x where s: "s = (reads, o1, c, x)" by (metis prod_cases4)
    obtain r y where read: "read_text_pipe rw p 1024 x = (r, y)" by fastforce
    have m: "meets o1 c x" "whole \<or> reads < 16" using that(1) by (simp_all add: stays_def s)
    note y = went [OF m(1) read]
    show ?thesis
      using that(2) y(1,3,6) y(2) [of o1] y(2) [of False] m(2) capture_more [of limit "seen_text v x p"]
      unfolding s drain_step [OF read] y(4) stays_def order_def
      by (cases r) (auto simp: Let_def y(5) honest_answer_def split: if_splits)
  qed
  moreover have "post a" if "stays s" "drain_pass rw p whole limit s = Inr a" for s a
  proof -
    obtain reads o1 c x where s: "s = (reads, o1, c, x)" by (metis prod_cases4)
    obtain r y where read: "read_text_pipe rw p 1024 x = (r, y)" by fastforce
    have m: "meets o1 c x" using that(1) by (simp add: stays_def s)
    note y = went [OF m read]
    show ?thesis
    proof (cases o1)
      case False
      then have "a = (Inr (), o1, c, x)" using that(2) unfolding s drain_step [OF read] by simp
      with False m show ?thesis by (auto simp: post_def meets_def)
    next
      case True
      then show ?thesis
        using that(2) y(1,3,6) y(2) [of o1] capture_more [of limit "seen_text v x p"]
        unfolding s drain_step [OF read] y(4) post_def
        by (cases r) (auto simp: Let_def y(5) honest_answer_def split: if_splits)
    qed
  qed
  ultimately obtain a where "iterate (drain_pass rw p whole limit) (0, opened, captured, w) = Some a" "post a"
    using iterate_reaches [of order stays] by blast
  then show ?thesis unfolding drain_output_def post_def meets_def by (cases a) blast
qed

lemma drain_failure_step:
  assumes "read_failure_pipe rw (failure_message_size - length m) x = (r, y)"
  shows "drain_failure_pass rw (o1, m, x) =
      (if \<not> o1 \<or> \<not> length m < failure_message_size then Inr (Inr (), o1, m, x)
       else case r of
          Pipe_Data d \<Rightarrow> Inl (o1, m @ d, y)
        | Pipe_End \<Rightarrow> Inl (False, m, y)
        | Pipe_Interrupted \<Rightarrow> Inl (o1, m, y)
        | Pipe_Empty \<Rightarrow> Inr (Inr (), o1, m, y)
        | Pipe_Failed e \<Rightarrow> Inr (Inl e, o1, m, y))"
  by (simp add: drain_failure_pass_def assms)

lemma drain_failure_ends:
  assumes "honest_runner rw v" "received = seen_failure v w" "length received \<le> failure_message_size"
  shows "\<exists>r o1 m x. drain_child_failure rw opened received w = Some (r, o1, m, x)
    \<and> m = seen_failure v x \<and> length m \<le> failure_message_size \<and> seen_text v x = seen_text v w \<and> still_watched v w x
    \<and> (o1 \<or> \<not> opened \<or> seen_complete v x Failure_Pipe)
    \<and> (reaped (seen_process v w) \<and> r = Inr () \<longrightarrow>
         \<not> opened \<or> seen_complete v x Failure_Pipe \<or> length m = failure_message_size)"
proof -
  define meets where "meets o1 m x \<longleftrightarrow> m = seen_failure v x \<and> length m \<le> failure_message_size
    \<and> seen_text v x = seen_text v w \<and> still_watched v w x
    \<and> (o1 \<or> \<not> opened \<or> seen_complete v x Failure_Pipe)" for o1 m x
  define stays where "stays = (\<lambda>(o1, m, x). meets o1 m x)"
  define post where "post = (\<lambda>(r :: int + unit, o1, m, x). meets o1 m x
    \<and> (reaped (seen_process v w) \<and> r = Inr () \<longrightarrow>
         \<not> opened \<or> seen_complete v x Failure_Pipe \<or> length m = failure_message_size))"
  define order where "order = measures [\<lambda>(o1, m :: bytes, x). if o1 then 1 else 0,
    \<lambda>(o1, m, x). failure_message_size - length m, \<lambda>(o1, m, x). seen_effort v x]"
  have shrinks: "failure_message_size - (length b + length d) < failure_message_size - length b"
    if "d \<noteq> []" "length b < failure_message_size" for b d :: bytes
    using that by (cases d) auto
  have "wf order" by (simp add: order_def)
  moreover have "stays (opened, received, w)" by (simp add: stays_def meets_def flip: assms(2)) (use assms(3) in simp)
  moreover have step: "stays t \<and> (t, s) \<in> order" if "stays s" "drain_failure_pass rw s = Inl t" for s t
  proof -
    obtain o1 m x where s: "s = (o1, m, x)" by (metis prod_cases3)
    obtain r y where read: "read_failure_pipe rw (failure_message_size - length m) x = (r, y)" by fastforce
    with assms(1) have h: "honest_failure_read v (failure_message_size - length m) x (r, y)"
      unfolding honest_runner_def by (metis read)
    have m: "meets o1 m x" using that(1) by (simp add: stays_def s)
    moreover have "still_watched v w y"
      using h m still_watched_trans unfolding meets_def honest_failure_read_def by fastforce
    moreover have "seen_complete v x Failure_Pipe \<Longrightarrow> seen_complete v y Failure_Pipe"
      using h unfolding honest_failure_read_def still_watched_def goes_on_def by simp
    ultimately show ?thesis
      using that(2) h unfolding s drain_failure_step [OF read]
      by (cases r) (auto simp: stays_def meets_def order_def honest_failure_read_def shrinks
          honest_answer_def split: if_splits)
  qed
  moreover have "post a" if "stays s" "drain_failure_pass rw s = Inr a" for s a
  proof -
    obtain o1 m x where s: "s = (o1, m, x)" by (metis prod_cases3)
    obtain r y where read: "read_failure_pipe rw (failure_message_size - length m) x = (r, y)" by fastforce
    with assms(1) have h: "honest_failure_read v (failure_message_size - length m) x (r, y)"
      unfolding honest_runner_def by (metis read)
    have m: "meets o1 m x" using that(1) by (simp add: stays_def s)
    moreover have "still_watched v w y"
      using h m still_watched_trans unfolding meets_def honest_failure_read_def by fastforce
    moreover have "seen_complete v x Failure_Pipe \<Longrightarrow> seen_complete v y Failure_Pipe"
      using h unfolding honest_failure_read_def still_watched_def goes_on_def by simp
    moreover have "reaped (seen_process v w) \<Longrightarrow> reaped (seen_process v x)"
      using m reaped_later unfolding meets_def still_watched_def by blast
    ultimately show ?thesis
      using that(2) h unfolding s drain_failure_step [OF read]
      by (cases r) (auto simp: post_def meets_def honest_failure_read_def
          honest_answer_def split: if_splits)
  qed
  ultimately obtain a where "iterate (drain_failure_pass rw) (opened, received, w) = Some a" "post a"
    using iterate_reaches [of order stays] by blast
  then show ?thesis unfolding drain_child_failure_def post_def meets_def by (cases a) blast
qed

text \<open>Of a pipe everything is known: it is complete, not captured, or a whole failure message came.\<close>

definition heard :: "'w runner_view \<Rightarrow> command_request \<Rightarrow> 'w \<Rightarrow> command_pipe \<Rightarrow> bool" where
  "heard v q x p \<longleftrightarrow> seen_complete v x p \<or> p = Stdout_Pipe \<and> \<not> request_capture q
     \<or> p = Failure_Pipe \<and> length (seen_failure v x) = failure_message_size"

definition drains ::
  "'w runner_view \<Rightarrow> command_request \<Rightarrow> bool \<Rightarrow> command_pipe set \<Rightarrow> 'w
     \<Rightarrow> ((int + unit) \<times> run_state \<times> 'w) option \<Rightarrow> bool" where
  "drains v q whole ps w result \<longleftrightarrow>
     (\<exists>r s x. result = Some (r, s, x) \<and> run_tells v q s x \<and> still_watched v w x
        \<and> (whole \<and> r = Inr () \<longrightarrow> (\<forall>p\<in>ps. heard v q x p)))"

lemma heard_later: "heard v q w p \<Longrightarrow> still_watched v w x \<Longrightarrow> p \<noteq> Failure_Pipe \<Longrightarrow> heard v q x p"
  by (auto simp: heard_def still_watched_def goes_on_def)

lemma then_drains:
  assumes "drains v q whole ps w first" "Failure_Pipe \<notin> ps"
    and "\<And>s x. run_tells v q s x \<Longrightarrow> still_watched v w x \<Longrightarrow> drains v q whole ps1 x (next_one s x)"
  shows "drains v q whole (ps \<union> ps1) w (then_drain first next_one)"
proof -
  from assms(1) obtain r s x where f: "first = Some (r, s, x)" "run_tells v q s x" "still_watched v w x"
    "whole \<and> r = Inr () \<longrightarrow> (\<forall>p\<in>ps. heard v q x p)"
    unfolding drains_def by blast
  show ?thesis
  proof (cases r)
    case (Inl e)
    with f show ?thesis by (simp add: then_drain_def drains_def)
  next
    case (Inr u)
    obtain r1 s1 y where n: "next_one s x = Some (r1, s1, y)" "run_tells v q s1 y" "still_watched v x y"
      "whole \<and> r1 = Inr () \<longrightarrow> (\<forall>p\<in>ps1. heard v q y p)"
      using assms(3) [OF f(2,3)] unfolding drains_def by blast
    have "whole \<Longrightarrow> p \<in> ps \<Longrightarrow> heard v q y p" for p
      using heard_later [OF _ n(3)] f(4) Inr assms(2) by auto
    with n Inr f(1) still_watched_trans [OF f(3) n(3)] show ?thesis
      unfolding drains_def by (intro exI [of _ r1] exI [of _ s1] exI [of _ y]) (auto simp: then_drain_def)
  qed
qed

lemma drain_stderr_ends:
  assumes "honest_runner rw v" "run_tells v q s w" "whole \<Longrightarrow> reaped (seen_process v w)"
  shows "drains v q whole {Stderr_Pipe} w (drain_stderr rw whole s w)"
proof -
  from assms(2) have d: "run_diagnostic s = take maximum_diagnostic_size (seen_text v w Stderr_Pipe)"
    by (simp add: run_tells_def)
  obtain r o1 c x where e: "drain_output rw Stderr_Pipe whole maximum_diagnostic_size (run_stderr_open s) (run_diagnostic s) w
      = Some (r, o1, c, x)" "c = take maximum_diagnostic_size (seen_text v x Stderr_Pipe)"
    "\<forall>k. k \<noteq> Stderr_Pipe \<longrightarrow> seen_text v x k = seen_text v w k"
    "seen_failure v x = seen_failure v w" "still_watched v w x"
    "o1 \<or> \<not> run_stderr_open s \<or> seen_complete v x Stderr_Pipe"
    "whole \<and> r = Inr () \<longrightarrow> \<not> run_stderr_open s \<or> seen_complete v x Stderr_Pipe"
    using drain_output_ends [OF assms(1) d assms(3)] by blast
  moreover from e(3) have "seen_text v x Stdout_Pipe = seen_text v w Stdout_Pipe"
    by simp
  moreover have "seen_complete v w p \<Longrightarrow> seen_complete v x p" for p
    using e(5) by (simp add: still_watched_def goes_on_def)
  ultimately show ?thesis using assms(2) by (auto simp: drain_stderr_def drains_def run_tells_def heard_def)
qed

lemma drain_stdout_ends:
  assumes "honest_runner rw v" "run_tells v q s w" "whole \<Longrightarrow> reaped (seen_process v w)"
  shows "drains v q whole {Stdout_Pipe} w (drain_stdout rw whole (request_maximum q) s w)"
proof (cases "run_stdout_open s")
  case False
  with assms(2) show ?thesis by (auto simp: drain_stdout_def drains_def run_tells_def heard_def)
next
  case True
  from assms(2) have d: "run_output s = take (request_maximum q) (seen_text v w Stdout_Pipe)"
    by (simp add: run_tells_def)
  obtain r o1 c x where e: "drain_output rw Stdout_Pipe whole (request_maximum q) (run_stdout_open s) (run_output s) w
      = Some (r, o1, c, x)" "c = take (request_maximum q) (seen_text v x Stdout_Pipe)"
    "\<forall>k. k \<noteq> Stdout_Pipe \<longrightarrow> seen_text v x k = seen_text v w k"
    "seen_failure v x = seen_failure v w" "still_watched v w x"
    "o1 \<or> \<not> run_stdout_open s \<or> seen_complete v x Stdout_Pipe"
    "whole \<and> r = Inr () \<longrightarrow> \<not> run_stdout_open s \<or> seen_complete v x Stdout_Pipe"
    using drain_output_ends [OF assms(1) d assms(3)] by blast
  moreover from e(3) have "seen_text v x Stderr_Pipe = seen_text v w Stderr_Pipe"
    by simp
  moreover have "seen_complete v w p \<Longrightarrow> seen_complete v x p" for p
    using e(5) by (simp add: still_watched_def goes_on_def)
  ultimately show ?thesis using assms(2) True by (auto simp: drain_stdout_def drains_def run_tells_def heard_def)
qed

lemma drain_failure_pipe_ends:
  assumes "honest_runner rw v" "run_tells v q s w" "whole \<Longrightarrow> reaped (seen_process v w)"
  shows "drains v q whole {Failure_Pipe} w (drain_failure rw s w)"
proof -
  from assms(2) have d: "run_failure s = seen_failure v w" "length (run_failure s) \<le> failure_message_size"
    by (simp_all add: run_tells_def)
  obtain r o1 m x where e: "drain_child_failure rw (run_failure_open s) (run_failure s) w = Some (r, o1, m, x)"
    "m = seen_failure v x" "length m \<le> failure_message_size" "seen_text v x = seen_text v w" "still_watched v w x"
    "o1 \<or> \<not> run_failure_open s \<or> seen_complete v x Failure_Pipe"
    "reaped (seen_process v w) \<and> r = Inr () \<longrightarrow>
       \<not> run_failure_open s \<or> seen_complete v x Failure_Pipe \<or> length m = failure_message_size"
    using drain_failure_ends [OF assms(1) d] by blast
  moreover have "seen_complete v w p \<Longrightarrow> seen_complete v x p" for p
    using e(5) by (simp add: still_watched_def goes_on_def)
  ultimately show ?thesis
    using assms(2,3) by (auto simp: drain_failure_def drains_def run_tells_def heard_def)
qed

lemma drain_pipes_end:
  assumes "honest_runner rw v" "run_tells v q s w" "whole \<Longrightarrow> reaped (seen_process v w)"
  shows "drains v q whole UNIV w (drain_pipes rw whole (request_maximum q) s w)"
proof -
  have later: "whole \<Longrightarrow> reaped (seen_process v x)" if "still_watched v w x" for x
    using assms(3) that reaped_later unfolding still_watched_def by blast
  have "drains v q whole ({Stderr_Pipe} \<union> {Stdout_Pipe} \<union> {Failure_Pipe}) w
      (drain_pipes rw whole (request_maximum q) s w)"
    unfolding drain_pipes_def
    by (intro then_drains drain_stderr_ends drain_stdout_ends drain_failure_pipe_ends assms later) simp_all
  moreover have "{Stderr_Pipe} \<union> {Stdout_Pipe} \<union> {Failure_Pipe} = UNIV"
    using command_pipe.exhaust by auto
  ultimately show ?thesis by simp
qed

section \<open>The loop\<close>

definition started :: "command_process \<Rightarrow> bool" where
  "started p \<longleftrightarrow> (case p of Process_Running \<Rightarrow> True | Process_Zombie _ \<Rightarrow> True | _ \<Rightarrow> False)"

lemma honest_calls:
  assumes "honest_runner rw v"
  shows "fst (runner_clock rw w) = seen_now v w" "unread v w (snd (runner_clock rw w))"
    "honest_wait v w (look_command rw w)" "honest_wait v w (await_command rw w)"
    "fst (await_command rw w) \<noteq> Wait_Running" "unread v w (snd (kill_command rw w))"
    "unread v w (snd (poll_pipes rw opened t w))" "seen_now v w < seen_now v (snd (poll_pipes rw opened t w))"
  using assms unfolding honest_runner_def by blast+

lemma started_later: "started p \<Longrightarrow> process_later p q \<Longrightarrow> started q"
  by (cases p; cases q) (auto simp: started_def)

lemma started_unread: "started (seen_process v w) \<Longrightarrow> unread v w x \<Longrightarrow> started (seen_process v x)"
  unfolding unread_def still_watched_def using started_later by blast

lemma unread_now: "unread v w x \<Longrightarrow> seen_now v w \<le> seen_now v x"
  by (simp add: unread_def still_watched_def goes_on_def)

lemma run_tells_unread: "run_tells v q s w \<Longrightarrow> unread v w x \<Longrightarrow> run_tells v q s x"
  by (auto simp: run_tells_def unread_def still_watched_def goes_on_def)

lemma run_tells_goes: "run_tells v q s w \<Longrightarrow> goes_on v w x \<Longrightarrow> seen_text v x = seen_text v w
    \<Longrightarrow> seen_failure v x = seen_failure v w \<Longrightarrow> run_tells v q s x"
  by (auto simp: run_tells_def goes_on_def)

lemma terminate_and_reap_ends:
  assumes "honest_runner rw v" "started (seen_process v w)"
  shows "\<exists>e x. terminate_and_reap rw w = Some (e, x) \<and> reaped (seen_process v x) \<and> goes_on v w x
    \<and> seen_text v x = seen_text v w \<and> seen_failure v x = seen_failure v w"
proof -
  obtain k w1 where k: "kill_command rw w = (k, w1)" by fastforce
  with honest_calls(6) [OF assms(1), of w] have u: "unread v w w1" by simp
  then have st: "started (seen_process v w1)" by (rule started_unread [OF assms(2)])
  obtain a x where a: "retry_interrupted (await_command rw) w1 = Some (a, x)" "a \<noteq> Wait_Interrupted" "a \<noteq> Wait_Running"
    "wait_truth (seen_process v w1) a (seen_process v x)" "goes_on v w1 x"
    "seen_text v x = seen_text v w1" "seen_failure v x = seen_failure v w1"
    using retry_wait [of v "await_command rw" "\<lambda>a. a \<noteq> Wait_Running" w1] honest_calls(4,5) [OF assms(1)] by blast
  from a(2-4) st have "reaped (seen_process v x)"
    by (cases a; cases "seen_process v w1") (auto simp: reaped_def started_def)
  moreover from u a(5) have "goes_on v w x" using goes_on_trans by (auto simp: unread_def still_watched_def)
  ultimately show ?thesis using k a u by (auto simp: terminate_and_reap_def unread_def Let_def)
qed

text \<open>The results without the status of the process.\<close>

definition abandoned :: "'w runner_view \<Rightarrow> int \<Rightarrow> command_result \<Rightarrow> 'w \<Rightarrow> bool" where
  "abandoned v deadline a x \<longleftrightarrow> reaped (seen_process v x)
     \<and> standard_error a = take maximum_diagnostic_size (seen_text v x Stderr_Pipe)
     \<and> (command_kind a = Command_System_Failure \<or> command_kind a = Command_Timeout \<and> deadline \<le> seen_now v x)"

lemma fail_after_reaping_ends:
  assumes "honest_runner rw v" "started (seen_process v w)" "run_tells v q s w"
  shows "\<exists>a x. fail_after_reaping rw e s w = Some (a, x) \<and> abandoned v deadline a x"
  using terminate_and_reap_ends [OF assms(1,2)] assms(3)
  by (auto simp: fail_after_reaping_def abandoned_def command_answer_def run_tells_def)

lemma command_expired_ends:
  assumes "honest_runner rw v" "started (seen_process v w)" "run_tells v q s w" "deadline \<le> seen_now v w"
  shows "\<exists>a x. command_expired rw (request_maximum q) s w = Some (a, x) \<and> abandoned v deadline a x"
proof -
  obtain e w1 where t: "terminate_and_reap rw w = Some (e, w1)" "reaped (seen_process v w1)"
    "goes_on v w w1" "seen_text v w1 = seen_text v w" "seen_failure v w1 = seen_failure v w"
    using terminate_and_reap_ends [OF assms(1,2)] by blast
  from run_tells_goes [OF assms(3) t(3-5)] drain_stderr_ends [OF assms(1), of q s w1 True] t(2) obtain r s1 w2 where
    d: "drain_stderr rw True s w1 = Some (r, s1, w2)" "run_tells v q s1 w2" "still_watched v w1 w2"
    unfolding drains_def by blast
  from d(3) t(2) have "reaped (seen_process v w2)" using reaped_later unfolding still_watched_def by blast
  with drain_stdout_ends [OF assms(1) d(2), of True] obtain r2 s2 w3 where
    d2: "drain_stdout rw True (request_maximum q) s1 w2 = Some (r2, s2, w3)" "run_tells v q s2 w3" "still_watched v w2 w3"
    unfolding drains_def by blast
  from still_watched_trans [OF d(3) d2(3)] t(2,3) assms(4) have "reaped (seen_process v w3)" "deadline \<le> seen_now v w3"
    using reaped_later unfolding still_watched_def goes_on_def by (blast, linarith)
  with t d d2 show ?thesis
    by (auto simp: command_expired_def abandoned_def command_answer_def run_tells_def)
qed

lemma wait_pipes_ends:
  assumes "honest_runner rw v" "started (seen_process v w)" "run_tells v q s w"
  shows "\<exists>x. (wait_pipes rw deadline s w = Some (Inl (s, x)) \<and> unread v w x \<and> seen_now v w < seen_now v x)
    \<or> (\<exists>a. wait_pipes rw deadline s w = Some (Inr (Inl a, x)) \<and> abandoned v deadline a x)"
proof -
  obtain now w1 where c: "runner_clock rw w = (now, w1)" by fastforce
  with honest_calls(2) [OF assms(1), of w] have w1: "unread v w w1" by simp
  define opened where "opened = (run_stderr_open s, run_stdout_open s, run_failure_open s)"
  define t where "t = (if opened = (False, False, False) then min (runner_timeout deadline now) 1 else runner_timeout deadline now)"
  obtain r w2 where p: "poll_pipes rw opened t w1 = (r, w2)" by fastforce
  with honest_calls(7,8) [OF assms(1), of w1 opened t] w1 have w2: "unread v w w2" "seen_now v w < seen_now v w2"
    using unread_trans [OF w1] unread_now [OF w1] by (simp, simp)
  have "started (seen_process v w2)" "run_tells v q s w2"
    using started_unread [OF assms(2) w2(1)] run_tells_unread [OF assms(3) w2(1)] by simp_all
  note fails = fail_after_reaping_ends [OF assms(1) this]
  have w: "wait_pipes rw deadline s w = (case r of
      Inl e \<Rightarrow> (if e \<noteq> runner_eintr
        then map_option (\<lambda>(r, w3). Inr (Inl r, w3)) (fail_after_reaping rw e s w2) else Some (Inl (s, w2)))
    | Inr _ \<Rightarrow> Some (Inl (s, w2)))"
    using c p by (simp add: wait_pipes_def Let_def opened_def [symmetric] t_def [symmetric])
  show ?thesis
  proof (cases "\<exists>e. r = Inl e \<and> e \<noteq> runner_eintr")
    case True
    then obtain e where e: "r = Inl e" "e \<noteq> runner_eintr" by blast
    from fails [of e] obtain a x where "fail_after_reaping rw e s w2 = Some (a, x)" "abandoned v deadline a x" by blast
    with w e show ?thesis by auto
  next
    case False
    with w have "wait_pipes rw deadline s w = Some (Inl (s, w2))" by (auto split: sum.splits)
    with w2 show ?thesis by blast
  qed
qed

text \<open>How the loop ends: a result, or a process that was reaped.\<close>

definition loop_over :: "'w runner_view \<Rightarrow> int \<Rightarrow> command_request \<Rightarrow> (command_result + nat \<times> run_state) \<times> 'w \<Rightarrow> bool" where
  "loop_over v deadline q r \<longleftrightarrow>
     (case fst r of
        Inl a \<Rightarrow> abandoned v deadline a (snd r)
      | Inr (status, s) \<Rightarrow> seen_process v (snd r) = Process_Reaped status \<and> run_tells v q s (snd r))"

lemma command_pass_ends:
  assumes "honest_runner rw v" "started (seen_process v w)" "run_tells v q s w"
  shows "(\<exists>s1 x. command_pass rw deadline (request_maximum q) (s, w) = Some (Inl (s1, x)) \<and> run_tells v q s1 x
      \<and> started (seen_process v x) \<and> seen_now v w < seen_now v x \<and> seen_now v w < deadline)
    \<or> (\<exists>r. command_pass rw deadline (request_maximum q) (s, w) = Some (Inr r) \<and> loop_over v deadline q r)"
proof -
  from drain_pipes_end [OF assms(1,3), where whole = False] obtain r s1 w1 where
    d: "drain_pipes rw False (request_maximum q) s w = Some (r, s1, w1)" "run_tells v q s1 w1" "still_watched v w w1"
    unfolding drains_def by blast
  from d(3) assms(2) have st: "started (seen_process v w1)" using started_later by (simp add: still_watched_def)
  show ?thesis
  proof (cases r)
    case (Inl e)
    from fail_after_reaping_ends [OF assms(1) st d(2), of e deadline] d(1) Inl show ?thesis
      by (auto simp: command_pass_def loop_over_def)
  next
    case (Inr u)
    obtain a w2 where a: "retry_interrupted (look_command rw) w1 = Some (a, w2)" "a \<noteq> Wait_Interrupted"
      "wait_truth (seen_process v w1) a (seen_process v w2)" "goes_on v w1 w2"
      "seen_text v w2 = seen_text v w1" "seen_failure v w2 = seen_failure v w1"
      using retry_wait [of v "look_command rw" "\<lambda>_. True" w1] honest_calls(3) [OF assms(1)] by blast
    have tells: "run_tells v q s1 w2" by (rule run_tells_goes [OF d(2) a(4-6)])
    show ?thesis
    proof (cases a)
      case (Wait_Ended status)
      with a d Inr tells show ?thesis by (auto simp: command_pass_def loop_over_def)
    next
      case (Wait_Failed e)
      with a(3) st show ?thesis by (cases "seen_process v w1") (auto simp: started_def)
    next
      case Wait_Interrupted
      with a(2) show ?thesis by simp
    next
      case Wait_Running
      with a(3) st have st2: "started (seen_process v w2)" using started_later by auto
      obtain now w3 where c: "runner_clock rw w2 = (now, w3)" by fastforce
      with honest_calls(1,2) [OF assms(1), of w2] have w3: "now = seen_now v w2" "unread v w2 w3" by simp_all
      have st3: "started (seen_process v w3)" "run_tells v q s1 w3" "seen_now v w2 \<le> seen_now v w3"
        using started_unread [OF st2 w3(2)] run_tells_unread [OF tells w3(2)] unread_now [OF w3(2)] by simp_all
      have body: "command_pass rw deadline (request_maximum q) (s, w) =
          (if deadline \<le> now then map_option (\<lambda>(a, w4). Inr (Inl a, w4)) (command_expired rw (request_maximum q) s1 w3)
           else wait_pipes rw deadline s1 w3)"
        using d(1) Inr a(1) Wait_Running c by (simp add: command_pass_def)
      show ?thesis
      proof (cases "deadline \<le> now")
        case True
        with w3 st3(3) have "deadline \<le> seen_now v w3" by simp
        from command_expired_ends [OF assms(1) st3(1,2) this] body True show ?thesis
          by (auto simp: loop_over_def)
      next
        case False
        from d(3) a(4) False w3(1) have past: "seen_now v w < deadline" "seen_now v w \<le> seen_now v w2"
          by (auto simp: still_watched_def goes_on_def)
        from wait_pipes_ends [OF assms(1) st3(1,2), of deadline] body False obtain x where
          "(command_pass rw deadline (request_maximum q) (s, w) = Some (Inl (s1, x)) \<and> unread v w3 x \<and> seen_now v w3 < seen_now v x)
           \<or> (\<exists>a. command_pass rw deadline (request_maximum q) (s, w) = Some (Inr (Inl a, x)) \<and> abandoned v deadline a x)" by auto
        then show ?thesis
        proof (elim disjE exE conjE)
          assume on: "command_pass rw deadline (request_maximum q) (s, w) = Some (Inl (s1, x))" "unread v w3 x" "seen_now v w3 < seen_now v x"
          have "seen_now v w < seen_now v x" using on(3) st3(3) past(2) by linarith
          with on(1) started_unread [OF st3(1) on(2)] run_tells_unread [OF st3(2) on(2)] past(1)
          show ?thesis by (intro disjI1 exI [of _ s1] exI [of _ x]) simp
        next
          fix a assume ends: "command_pass rw deadline (request_maximum q) (s, w) = Some (Inr (Inl a, x))" "abandoned v deadline a x"
          then have "loop_over v deadline q (Inl a, x)" by (simp add: loop_over_def)
          with ends(1) show ?thesis by blast
        qed
      qed
    qed
  qed
qed

lemma command_loop_ends:
  assumes "honest_runner rw v" "started (seen_process v w)" "run_tells v q s w"
  shows "\<exists>r. iterate_calls (command_pass rw deadline (request_maximum q)) (s, w) = Some r \<and> loop_over v deadline q r"
  using assms(2,3)
proof (induction "nat (deadline - seen_now v w)" arbitrary: s w rule: less_induct)
  case less
  from command_pass_ends [OF assms(1) less.prems, of deadline] show ?case
  proof (elim disjE exE conjE)
    fix s1 x assume p: "command_pass rw deadline (request_maximum q) (s, w) = Some (Inl (s1, x))" "run_tells v q s1 x"
      "started (seen_process v x)" "seen_now v w < seen_now v x" "seen_now v w < deadline"
    then have "nat (deadline - seen_now v x) < nat (deadline - seen_now v w)" by simp
    moreover from p(1) have "iterate_calls (command_pass rw deadline (request_maximum q)) (s, w)
        = iterate_calls (command_pass rw deadline (request_maximum q)) (s1, x)"
      by (rule iterate_calls_unfold(1))
    ultimately show ?case using less.hyps [OF _ p(3,2)] by simp
  next
    fix r assume "command_pass rw deadline (request_maximum q) (s, w) = Some (Inr r)" "loop_over v deadline q r"
    moreover from this(1) have "iterate_calls (command_pass rw deadline (request_maximum q)) (s, w) = Some r"
      by (rule iterate_calls_unfold(2))
    ultimately show ?case by blast
  qed
qed

section \<open>The result\<close>

lemma failure_message_of:
  assumes "length m = failure_message_size" "failure_message_kind m = Exec_Failure"
  shows "m = failure_message Exec_Failure (failure_message_error m)"
proof -
  let ?k = "take 4 m" and ?e = "take 4 (drop 4 m)"
  have len: "length ?k = 4" "length ?e = 4" "m = ?k @ ?e"
    using assms(1) by (simp_all add: failure_message_size_def flip: take_add)
  from assms(2) have "le_value ?k = 0" by (simp add: failure_message_kind_def split: if_splits)
  with le_bytes_le_value [of ?k] len(1) have k: "?k = le_bytes 4 0" by simp
  have "le_value ?e < 2 ^ 32" using le_value_less [of ?e] len(2) by simp
  then have "nat (signed32 (le_value ?e) mod 2 ^ 32) = le_value ?e" by (auto simp: signed32_def)
  with le_bytes_le_value [of ?e] len(2) have "?e = le_bytes 4 (nat (failure_message_error m mod 2 ^ 32))"
    by (simp add: failure_message_error_def)
  with k len(3) show ?thesis by (metis failure_message_def child_failure.simps(3) failure_kind_code_def)
qed

text \<open>What a result may claim, by its kind.\<close>

definition truthful_result :: "'w runner_view \<Rightarrow> int \<Rightarrow> command_request \<Rightarrow> command_result \<Rightarrow> 'w \<Rightarrow> bool" where
  "truthful_result v deadline q a x \<longleftrightarrow>
     (seen_process v x = No_Process \<or> reaped (seen_process v x))
     \<and> standard_error a = take maximum_diagnostic_size (seen_text v x Stderr_Pipe)
     \<and> (command_kind a \<in> {Command_Success, Command_Nonzero_Exit, Command_Signal, Command_Exec_Failure}
          \<longrightarrow> (\<forall>p. heard v q x p))
     \<and> (case command_kind a of
          Command_Success \<Rightarrow>
            (\<exists>s. seen_process v x = Process_Reaped s \<and> wifexited s \<and> wexitstatus s = 0)
            \<and> seen_failure v x = [] \<and> standard_output a = take (request_maximum q) (seen_text v x Stdout_Pipe)
        | Command_Nonzero_Exit \<Rightarrow>
            (\<exists>s. seen_process v x = Process_Reaped s \<and> wifexited s \<and> wexitstatus s \<noteq> 0
               \<and> command_code a = int (wexitstatus s)) \<and> seen_failure v x = []
        | Command_Signal \<Rightarrow>
            (\<exists>s. seen_process v x = Process_Reaped s \<and> wifsignaled s \<and> command_code a = int (wtermsig s))
            \<and> seen_failure v x = []
        | Command_Exec_Failure \<Rightarrow>
            reaped (seen_process v x) \<and> seen_failure v x = failure_message Exec_Failure (command_code a)
        | Command_Timeout \<Rightarrow> deadline \<le> seen_now v x
        | Command_System_Failure \<Rightarrow> True)"

lemma abandoned_truthful: "abandoned v deadline a x \<Longrightarrow> truthful_result v deadline q a x"
  by (auto simp: abandoned_def truthful_result_def)

lemma judged_truthful:
  assumes "seen_process v x = Process_Reaped status" "run_tells v q s x" "\<And>p. heard v q x p"
  shows "truthful_result v deadline q (judge_command status s) x"
proof (cases "run_failure s = []")
  case True
  with assms show ?thesis
    by (simp add: truthful_result_def judge_command_def command_answer_def run_tells_def reaped_def)
next
  case False
  from assms(2) have f: "run_failure s = seen_failure v x" by (simp add: run_tells_def)
  show ?thesis
  proof (cases "length (run_failure s) = failure_message_size \<and> failure_message_kind (run_failure s) = Exec_Failure")
    case True
    with failure_message_of [of "seen_failure v x"] False f assms show ?thesis
      by (simp add: truthful_result_def judge_command_def command_answer_def run_tells_def reaped_def)
  next
    case other: False
    with False assms show ?thesis
      by (auto simp: truthful_result_def judge_command_def command_answer_def run_tells_def reaped_def)
  qed
qed

lemma conclude_truthful:
  assumes "honest_runner rw v" "seen_process v w = Process_Reaped status" "run_tells v q s w"
  shows "\<exists>a x. conclude_command rw (request_maximum q) (status, s) w = Some (a, x) \<and> truthful_result v deadline q a x"
proof -
  have "reaped (seen_process v w)" by (simp add: assms(2) reaped_def)
  with drain_pipes_end [OF assms(1,3), of True] obtain r s1 x where
    d: "drain_pipes rw True (request_maximum q) s w = Some (r, s1, x)" "run_tells v q s1 x" "still_watched v w x"
      "r = Inr () \<Longrightarrow> heard v q x p" for p
    unfolding drains_def by auto
  from d(3) assms(2) have p: "seen_process v x = Process_Reaped status" by (simp add: still_watched_def)
  show ?thesis using judged_truthful [OF p d(2), of deadline] d p
    by (cases r) (auto simp: conclude_command_def truthful_result_def command_answer_def run_tells_def reaped_def)
qed

lemma watch_truthful:
  assumes "honest_runner rw v" "started (seen_process v w)" "seen_text v w = (\<lambda>_. [])" "seen_failure v w = []"
  shows "\<exists>a x. watch_command rw deadline q w = Some (a, x) \<and> truthful_result v deadline q a x"
proof -
  let ?s = "\<lparr>run_diagnostic = [], run_output = [], run_failure = [], run_stderr_open = True,
           run_stdout_open = request_capture q, run_failure_open = True\<rparr>"
  let ?n = "request_maximum q"
  have "run_tells v q ?s w" using assms(3,4) by (simp add: run_tells_def)
  from command_loop_ends [OF assms(1,2) this, of deadline] obtain r x where
    l: "iterate_calls (command_pass rw deadline ?n) (?s, w) = Some (r, x)" "loop_over v deadline q (r, x)" by fastforce
  show ?thesis
  proof (cases r)
    case (Inl a)
    with l abandoned_truthful show ?thesis by (fastforce simp: watch_command_def loop_over_def)
  next
    case (Inr e)
    obtain status s where e: "e = (status, s)" by fastforce
    with l(2) Inr have "seen_process v x = Process_Reaped status" "run_tells v q s x"
      by (simp_all add: loop_over_def)
    from conclude_truthful [OF assms(1) this] l(1) Inr e show ?thesis by (simp add: watch_command_def)
  qed
qed

lemma all_succeed_unread:
  assumes "\<And>call w. call \<in> set calls \<Longrightarrow> unread v w (snd (call w))"
  shows "unread v w (snd (all_succeed calls w))"
  using assms
proof (induction calls arbitrary: w)
  case (Cons call calls)
  obtain r x where c: "call w = (r, x)" by fastforce
  with Cons.prems [of call w] have x: "unread v w x" by simp
  have "unread v x (snd (all_succeed calls x))" using Cons.IH Cons.prems by simp
  from unread_trans [OF x this] x c show ?case by (cases r) simp_all
qed simp

lemma nonblocking_unread:
  assumes "honest_runner rw v"
  shows "unread v w (snd (make_nonblocking rw p w))"
proof -
  obtain r x where f: "pipe_flags rw p w = (r, x)" by fastforce
  with assms have x: "unread v w x" unfolding honest_runner_def by (metis snd_conv)
  have "unread v x (snd (set_pipe_flags rw p n x))" for n using assms unfolding honest_runner_def by blast
  from unread_trans [OF x this] x f show ?thesis by (cases r) (simp_all add: make_nonblocking_def)
qed

lemma start_truthful:
  assumes "honest_runner rw v" "seen_process v w = No_Process" "seen_text v w = (\<lambda>_. [])" "seen_failure v w = []"
    and "start_command rw deadline q w = (r, x)"
  shows "seen_text v x = (\<lambda>_. []) \<and> seen_failure v x = []
    \<and> (case r of Inl a \<Rightarrow> truthful_result v deadline q a x | Inr _ \<Rightarrow> started (seen_process v x))"
proof -
  let ?calls = "map (make_pipe rw) (command_pipes q) @ map (make_nonblocking rw) (command_pipes q)"
  obtain p w1 where p: "all_succeed ?calls w = (p, w1)" by fastforce
  have "unread v w0 (snd (call w0))" if "call \<in> set ?calls" for call w0
    using that nonblocking_unread [OF assms(1)] assms(1) unfolding honest_runner_def by auto
  then have "unread v w (snd (all_succeed ?calls w))" by (rule all_succeed_unread)
  with p have u1: "unread v w w1" by simp
  obtain now w2 where c: "runner_clock rw w1 = (now, w2)" by fastforce
  with honest_calls(1,2) [OF assms(1), of w1] have u2: "now = seen_now v w1" "unread v w1 w2" by simp_all
  obtain f w3 where f: "fork_command rw q w2 = (f, w3)" by fastforce
  from unread_trans [OF u1 u2(2)] assms(2-4) have w: "seen_process v w1 = No_Process" "seen_text v w1 = (\<lambda>_. [])"
    "seen_failure v w1 = []" "seen_process v w2 = No_Process" "seen_text v w2 = (\<lambda>_. [])" "seen_failure v w2 = []"
    "now \<le> seen_now v w2"
    using u1 u2 by (simp_all add: unread_def still_watched_def goes_on_def)
  from assms(1) have "seen_text v (snd (fork_command rw q w2)) = seen_text v w2"
    "seen_failure v (snd (fork_command rw q w2)) = seen_failure v w2"
    "case fst (fork_command rw q w2) of
       Inl _ \<Rightarrow> seen_process v (snd (fork_command rw q w2)) = seen_process v w2
     | Inr _ \<Rightarrow> process_later Process_Running (seen_process v (snd (fork_command rw q w2)))"
    unfolding honest_runner_def by blast+
  with f w have w3: "seen_text v w3 = (\<lambda>_. [])" "seen_failure v w3 = []"
    "case f of Inl _ \<Rightarrow> seen_process v w3 = No_Process | Inr _ \<Rightarrow> process_later Process_Running (seen_process v w3)"
    by (cases f; simp)+
  have st: "process_later Process_Running y \<Longrightarrow> started y" for y by (cases y) (simp_all add: started_def)
  note said = truthful_result_def command_answer_def
  show ?thesis
  proof (cases p)
    case (Inl e)
    with assms(5) p have "r = Inl (command_answer Command_System_Failure e [])" "x = w1"
      by (auto simp: start_command_def)
    with w show ?thesis by (simp add: said)
  next
    case (Inr u)
    show ?thesis
    proof (cases "deadline \<le> now")
      case True
      with assms(5) p Inr c have "r = Inl (command_answer Command_Timeout 0 [])" "x = w2"
        by (auto simp: start_command_def)
      with w True show ?thesis by (simp add: said)
    next
      case False
      with assms(5) p Inr c f have "r = (case f of Inl e \<Rightarrow> Inl (command_answer Command_System_Failure e []) | Inr _ \<Rightarrow> Inr ())"
        "x = w3" by (auto simp: start_command_def split: sum.splits)
      with w3 st show ?thesis by (cases f) (simp_all add: said)
    qed
  qed
qed

text \<open>The last reads, after the command was reaped, have no limit but the end of what is in the pipe: a
  process the command left behind that keeps writing holds them for ever, past every deadline.\<close>

theorem whole_drain_never_ends:
  assumes "\<And>w. \<exists>d x. read_text_pipe rw p 1024 w = (Pipe_Data d, x)"
  shows "drain_output rw p True limit True captured w = None"
proof (rule ccontr)
  assume "drain_output rw p True limit True captured w \<noteq> None"
  then obtain a where "iterate (drain_pass rw p True limit) (0, True, captured, w) = Some a"
    by (auto simp: drain_output_def)
  then show False
  proof (rule iterate_rule [where I = "\<lambda>(reads, o1, c, x). o1" and Q = "\<lambda>_. False"])
    fix s t assume I: "case s of (reads, o1, c, x) \<Rightarrow> o1" and t: "drain_pass rw p True limit s = Inl t"
    obtain reads o1 c x where s: "s = (reads, o1, c, x)" by (metis prod_cases4)
    obtain d y where read: "read_text_pipe rw p 1024 x = (Pipe_Data d, y)" using assms by blast
    show "case t of (reads, o1, c, x) \<Rightarrow> o1"
      using I t unfolding s drain_step [OF read] by (auto simp: Let_def)
  next
    fix s r assume I: "case s of (reads, o1, c, x) \<Rightarrow> o1" and r: "drain_pass rw p True limit s = Inr r"
    obtain reads o1 c x where s: "s = (reads, o1, c, x)" by (metis prod_cases4)
    obtain d y where read: "read_text_pipe rw p 1024 x = (Pipe_Data d, y)" using assms by blast
    show False using I r unfolding s drain_step [OF read] by (simp add: Let_def)
  qed simp
qed

text \<open>C25: running a command returns, also when the command writes without end as long as it runs,
  whatever the kernel answers, provided that only finitely many interrupts come in a row, that time
  passes, and that what the command leaves running when it is gone does not write for ever. No process
  is left behind, and the result is true: success means that the process exited with 0, that it did
  not report a failure before \<open>execve\<close>, and that the output is the first \<open>maximum\<close> bytes that were read
  of it; the exit code, the signal and the error number of a failed \<open>execve\<close> are the real ones, and with
  these results nothing that the command wrote is left unread; a timeout is told only after the
  deadline.\<close>

theorem command_returns_the_truth:
  assumes "honest_runner rw v"
    and "seen_process v w = No_Process" "seen_text v w = (\<lambda>_. [])" "seen_failure v w = []"
  shows "\<exists>a x. run_command_impl rw deadline q w = Some (a, x) \<and> truthful_result v deadline q a x"
proof -
  obtain now w1 where c: "runner_clock rw w = (now, w1)" by fastforce
  with honest_calls(1,2) [OF assms(1), of w] have u: "now = seen_now v w" "unread v w w1" by simp_all
  then have w1: "seen_process v w1 = No_Process" "seen_text v w1 = (\<lambda>_. [])" "seen_failure v w1 = []"
    "now \<le> seen_now v w1" using assms(2-4) by (simp_all add: unread_def still_watched_def goes_on_def)
  show ?thesis
  proof (cases "deadline \<le> now")
    case True
    with c w1 show ?thesis by (simp add: run_command_impl_def truthful_result_def command_answer_def)
  next
    case False
    obtain r w2 where r: "start_command rw deadline q w1 = (r, w2)" by fastforce
    note s = start_truthful [OF assms(1) w1(1-3) r]
    show ?thesis
    proof (cases r)
      case (Inl a)
      with s r c False show ?thesis by (simp add: run_command_impl_def)
    next
      case (Inr u)
      with s have "started (seen_process v w2)" "seen_text v w2 = (\<lambda>_. [])" "seen_failure v w2 = []" by simp_all
      from watch_truthful [OF assms(1) this, of deadline q] r c False Inr show ?thesis
        by (simp add: run_command_impl_def)
    qed
  qed
qed

text \<open>A command that writes without end, like \<open>yes\<close>, until it is killed: its stages are not started,
  running, ended by signal 9 and reaped; a running command gives every read a byte, and the clock
  counts the calls of \<open>poll\<close>.\<close>

record demo_run =
  demo_stage :: nat
  demo_clock :: nat
  demo_reads :: nat

definition demo_end :: "demo_run \<Rightarrow> demo_run" where
  "demo_end w = (if demo_stage w = 1 then w\<lparr>demo_stage := 2\<rparr> else w)"

definition demo_wait :: "demo_run \<Rightarrow> wait_answer \<times> demo_run" where
  "demo_wait w =
     (if demo_stage w = 2 then (Wait_Ended 9, w\<lparr>demo_stage := 3\<rparr>)
      else if demo_stage w = 1 then (Wait_Running, w) else (Wait_Failed runner_echild, w))"

definition demo_runner :: "demo_run runner_world" where
  "demo_runner =
     \<lparr>runner_clock = (\<lambda>w. (int (demo_clock w), w)), make_pipe = (\<lambda>_ w. (Inr (), w)),
      pipe_flags = (\<lambda>_ w. (Inr 0, w)), set_pipe_flags = (\<lambda>_ _ w. (Inr (), w)),
      fork_command = (\<lambda>_ w. if demo_stage w = 0 then (Inr (), w\<lparr>demo_stage := 1\<rparr>) else (Inl 11, w)),
      read_text_pipe = (\<lambda>p _ w. if demo_stage w = 0 then (Pipe_Empty, w)
        else if demo_stage w = 1
        then (if p = Stderr_Pipe then (Pipe_Data ''y'', w\<lparr>demo_reads := Suc (demo_reads w)\<rparr>) else (Pipe_Empty, w))
        else (Pipe_End, w)),
      read_failure_pipe = (\<lambda>_ w. if demo_stage w < 2 then (Pipe_Empty, w) else (Pipe_End, w)),
      look_command = demo_wait, await_command = (\<lambda>w. demo_wait (demo_end w)),
      kill_command = (\<lambda>w. (Inr (), demo_end w)),
      poll_pipes = (\<lambda>_ _ w. (Inr (), w\<lparr>demo_clock := Suc (demo_clock w)\<rparr>))\<rparr>"

definition demo_process :: "demo_run \<Rightarrow> command_process" where
  "demo_process w =
     (if demo_stage w = 0 then No_Process else if demo_stage w = 1 then Process_Running
      else if demo_stage w = 2 then Process_Zombie 9 else Process_Reaped 9)"

definition demo_view :: "demo_run runner_view" where
  "demo_view =
     \<lparr>seen_process = demo_process, seen_now = (\<lambda>w. int (demo_clock w)),
      seen_text = (\<lambda>w p. if p = Stderr_Pipe then replicate (demo_reads w) (CHR ''y'') else []),
      seen_failure = (\<lambda>_. []), seen_complete = (\<lambda>w _. 2 \<le> demo_stage w), seen_effort = (\<lambda>_. 0)\<rparr>"

lemmas demo_defs = demo_runner_def demo_view_def demo_wait_def demo_process_def demo_end_def unread_def
  still_watched_def goes_on_def honest_wait_def honest_text_read_def honest_failure_read_def honest_answer_def
  reaped_def

lemma demo_runner_honest: "honest_runner demo_runner demo_view"
  unfolding honest_runner_def
proof (intro conjI allI)
  show "honest_text_read demo_view p w (read_text_pipe demo_runner p n w)" for p n w
    by (auto simp: demo_defs fun_eq_iff replicate_append_same)
qed (auto simp: demo_defs runner_echild_def split: if_splits)

theorem command_returns_the_truth_witness:
  "\<exists>a x. run_command demo_runner ''/usr/bin/yes'' [] 100 \<lparr>demo_stage = 0, demo_clock = 0, demo_reads = 0\<rparr> = Some (a, x)
     \<and> truthful_result demo_view 100 (plain_request ''/usr/bin/yes'' []) a x"
  unfolding run_command_def
  using command_returns_the_truth [OF demo_runner_honest, of "\<lparr>demo_stage = 0, demo_clock = 0, demo_reads = 0\<rparr>"
      100 "plain_request ''/usr/bin/yes'' []"]
  by (simp add: demo_view_def demo_process_def fun_eq_iff)

end
