(* ===== verification/Workload_Process_Laws.thy ===== *)
theory Workload_Process_Laws
  imports Workload_Process Command_Runner_Laws
begin

text \<open>
  What the Workload is when it starts to run, what the parent is told when it does not, and what
  becomes of its parent-death signal.
\<close>

section \<open>Successful calls\<close>

text \<open>The process without the counter of the model and without \<open>errno\<close>.\<close>

definition bare :: "workload_child \<Rightarrow> workload_child" where
  "bare c = c\<lparr>child_calls := 0, child_errno := 0\<rparr>"

lemma bare_fields [simp]:
  "child_euid (bare c) = child_euid c" "child_egid (bare c) = child_egid c" "child_groups (bare c) = child_groups c"
  "child_parent (bare c) = child_parent c" "child_death_signal (bare c) = child_death_signal c"
  "child_in_namespace (bare c) = child_in_namespace c" "child_private_mounts (bare c) = child_private_mounts c"
  "child_storage (bare c) = child_storage c" "child_bound (bare c) = child_bound c"
  "child_sigint_default (bare c) = child_sigint_default c" "child_descriptors (bare c) = child_descriptors c"
  "child_no_new_privs (bare c) = child_no_new_privs c" "child_directory (bare c) = child_directory c"
  "child_running (bare c) = child_running c" "child_faults (bare c) = child_faults c"
  by (simp_all add: bare_def)

lemma bare_updates [simp]:
  "bare (c\<lparr>child_euid := x0\<rparr>) = (bare c)\<lparr>child_euid := x0\<rparr>"
  "bare (c\<lparr>child_egid := x1\<rparr>) = (bare c)\<lparr>child_egid := x1\<rparr>"
  "bare (c\<lparr>child_groups := x2\<rparr>) = (bare c)\<lparr>child_groups := x2\<rparr>"
  "bare (c\<lparr>child_parent := x3\<rparr>) = (bare c)\<lparr>child_parent := x3\<rparr>"
  "bare (c\<lparr>child_death_signal := x4\<rparr>) = (bare c)\<lparr>child_death_signal := x4\<rparr>"
  "bare (c\<lparr>child_in_namespace := x5\<rparr>) = (bare c)\<lparr>child_in_namespace := x5\<rparr>"
  "bare (c\<lparr>child_private_mounts := x6\<rparr>) = (bare c)\<lparr>child_private_mounts := x6\<rparr>"
  "bare (c\<lparr>child_storage := x7\<rparr>) = (bare c)\<lparr>child_storage := x7\<rparr>"
  "bare (c\<lparr>child_bound := x8\<rparr>) = (bare c)\<lparr>child_bound := x8\<rparr>"
  "bare (c\<lparr>child_sigint_default := x9\<rparr>) = (bare c)\<lparr>child_sigint_default := x9\<rparr>"
  "bare (c\<lparr>child_descriptors := x10\<rparr>) = (bare c)\<lparr>child_descriptors := x10\<rparr>"
  "bare (c\<lparr>child_no_new_privs := x11\<rparr>) = (bare c)\<lparr>child_no_new_privs := x11\<rparr>"
  "bare (c\<lparr>child_directory := x12\<rparr>) = (bare c)\<lparr>child_directory := x12\<rparr>"
  "bare (c\<lparr>child_running := x13\<rparr>) = (bare c)\<lparr>child_running := x13\<rparr>"
  "bare (c\<lparr>child_calls := n\<rparr>) = bare c" "bare (c\<lparr>child_errno := e\<rparr>) = bare c" "bare (bare c) = bare c"
  by (simp_all add: bare_def)

lemma child_call_ok:
  assumes "child_call f c = (Inr x, d)"
  shows "f (c\<lparr>child_calls := Suc (child_calls c)\<rparr>) = (Inr x, d)"
  using assms by (auto simp: child_call_def Let_def split: option.splits prod.splits sum.splits)

lemma child_steps_ok:
  "child_steps (f # fs) c = (Inr (), d) \<longleftrightarrow> (\<exists>e. f c = (Inr (), e) \<and> child_steps fs e = (Inr (), d))"
  by (auto split: prod.splits sum.splits)

lemma child_steps_nil: "child_steps [] c = (Inr (), d) \<longleftrightarrow> d = c"
  by auto

lemma child_set_ok:
  assumes "child_set f c = (Inr (), d)"
  shows "d = f (c\<lparr>child_calls := Suc (child_calls c)\<rparr>)"
  using child_call_ok [OF assms [unfolded child_set_def]] by simp

lemma looking_call: "child_call (\<lambda>c. (g c, c)) c = (r, d) \<Longrightarrow> bare d = bare c"
  by (auto simp: child_call_def Let_def split: option.splits sum.splits)

lemma directory_ok: "child_open_directory path c = (r, d) \<Longrightarrow> bare d = bare c"
  unfolding child_open_directory_def by (rule looking_call)

lemma looked: "check_storage c = (r, d) \<Longrightarrow> bare d = bare c" "check_target target c = (r, d) \<Longrightarrow> bare d = bare c"
  unfolding check_storage_def check_target_def
  by (auto split: prod.splits sum.splits if_splits dest: looking_call)

lemma bare_bound: "bare c = bare d \<Longrightarrow> child_bound c = child_bound d"
  by (metis bare_fields(9))

lemma mount_snapshot_ok:
  assumes "mount_read_only_snapshot content target c = (Inr (), d)"
  shows "bare d = (bare c)\<lparr>child_bound := (child_bound c)(target \<mapsto> (content, True))\<rparr>"
proof -
  from assms obtain c1 c2 where s: "check_target target c = (Inr (), c1)"
    "bind_file content target False c1 = (Inr (), c2)" "bind_file content target True c2 = (Inr (), d)"
    unfolding mount_read_only_snapshot_def child_steps_ok child_steps_nil by blast
  from looked(2) [OF s(1)] bare_bound have "bare c1 = bare c" "child_bound c1 = child_bound c" by blast+
  with child_set_ok [OF s(2) [unfolded bind_file_def]] child_set_ok [OF s(3) [unfolded bind_file_def]]
  show ?thesis by simp
qed

section \<open>The resolver view\<close>

text \<open>The files a Workload finds in place of the host's.\<close>

definition with_view :: "resolver_view_configuration \<Rightarrow> workload_child \<Rightarrow> workload_child" where
  "with_view view c = c\<lparr>child_private_mounts := True, child_storage := Some Map.empty,
     child_bound := (child_bound c)(resolv_conf_path \<mapsto> (view_resolv_conf view, True),
       nsswitch_conf_path \<mapsto> (view_nsswitch_conf view, True))\<rparr>"

lemma resolver_steps_ok:
  "run_resolver_steps ((step, calls) # rest) c = (Inr (), d)
     \<longleftrightarrow> (\<exists>e. child_steps calls c = (Inr (), e) \<and> run_resolver_steps rest e = (Inr (), d))"
  by (auto split: prod.splits sum.splits)

lemma install_ok:
  assumes "install_resolver_view view c = (Inr (), d)"
  shows "bare d = with_view view (bare c)"
proof -
  from assms obtain c1 c2 c3 c4 c5 c6 c7 c8 c9 c10 c11 where s:
    "child_set id c = (Inr (), c1)" "child_set (\<lambda>c. c\<lparr>child_private_mounts := True\<rparr>) c1 = (Inr (), c2)"
    "child_open_directory storage_path c2 = (Inr (), c3)" "check_storage c3 = (Inr (), c4)"
    "mount_storage c4 = (Inr (), c5)" "child_set id c5 = (Inr (), c6)"
    "copy_snapshot ''resolv.conf'' (view_resolv_conf view) c6 = (Inr (), c7)"
    "copy_snapshot ''nsswitch.conf'' (view_nsswitch_conf view) c7 = (Inr (), c8)"
    "mount_read_only_snapshot (view_resolv_conf view) resolv_conf_path c8 = (Inr (), c9)"
    "remove_snapshot ''resolv.conf'' c9 = (Inr (), c10)"
    "mount_read_only_snapshot (view_nsswitch_conf view) nsswitch_conf_path c10 = (Inr (), c11)"
    "remove_snapshot ''nsswitch.conf'' c11 = (Inr (), d)"
    unfolding install_resolver_view_def resolver_steps_def resolver_steps_ok child_steps_ok child_steps_nil
    by auto
  let ?r = "(''resolv.conf'', view_resolv_conf view)" and ?n = "(''nsswitch.conf'', view_nsswitch_conf view)"
  have "bare c2 = (bare c)\<lparr>child_private_mounts := True\<rparr>"
    using child_set_ok [OF s(1)] child_set_ok [OF s(2)] by simp
  with directory_ok [OF s(3)] looked(1) [OF s(4)] have "bare c4 = (bare c)\<lparr>child_private_mounts := True\<rparr>" by simp
  with child_set_ok [OF s(5) [unfolded mount_storage_def]] child_set_ok [OF s(6)]
  have c6: "bare c6 = (bare c)\<lparr>child_private_mounts := True, child_storage := Some Map.empty\<rparr>" by simp
  have "child_storage c6 = Some Map.empty" using arg_cong [OF c6, of child_storage] by simp
  with child_set_ok [OF s(7) [unfolded copy_snapshot_def]] child_set_ok [OF s(8) [unfolded copy_snapshot_def]] c6
  have c8: "bare c8 = (bare c)\<lparr>child_private_mounts := True,
      child_storage := Some [''resolv.conf'' \<mapsto> view_resolv_conf view, ''nsswitch.conf'' \<mapsto> view_nsswitch_conf view]\<rparr>"
    by simp
  have c9: "bare c9 = (bare c8)\<lparr>child_bound := (child_bound c)(resolv_conf_path \<mapsto> (view_resolv_conf view, True))\<rparr>"
    using mount_snapshot_ok [OF s(9)] arg_cong [OF c8, of child_bound] by simp
  have "child_storage c9 = Some [''resolv.conf'' \<mapsto> view_resolv_conf view, ''nsswitch.conf'' \<mapsto> view_nsswitch_conf view]"
    using arg_cong [OF c9, of child_storage] arg_cong [OF c8, of child_storage] by simp
  then have c10: "bare c10 = (bare c9)\<lparr>child_storage := Some [''nsswitch.conf'' \<mapsto> view_nsswitch_conf view]\<rparr>"
    using child_set_ok [OF s(10) [unfolded remove_snapshot_def]] by (simp add: fun_upd_def [of "[''resolv.conf'' \<mapsto> _]"] fun_eq_iff)
  have c11: "bare c11 = (bare c10)\<lparr>child_bound := (child_bound c)(resolv_conf_path \<mapsto> (view_resolv_conf view, True),
      nsswitch_conf_path \<mapsto> (view_nsswitch_conf view, True))\<rparr>"
    using mount_snapshot_ok [OF s(11)] arg_cong [OF c10, of child_bound] arg_cong [OF c9, of child_bound] by simp
  have "child_storage c11 = Some [''nsswitch.conf'' \<mapsto> view_nsswitch_conf view]"
    using arg_cong [OF c11, of child_storage] arg_cong [OF c10, of child_storage] by simp
  then have "bare d = (bare c11)\<lparr>child_storage := Some Map.empty\<rparr>"
    using child_set_ok [OF s(12) [unfolded remove_snapshot_def]] by (simp add: fun_eq_iff)
  with c8 c9 c10 c11 show ?thesis by (simp add: with_view_def)
qed

section \<open>Descriptors, identity and program\<close>

text \<open>What becomes of a descriptor on \<open>execve\<close>, and what a slot is set to.\<close>

definition survives_exec :: "open_file option \<Rightarrow> open_file option" where
  "survives_exec f = (case f of Some (x, cloexec) \<Rightarrow> if cloexec then None else Some (x, cloexec) | None \<Rightarrow> None)"

fun placed :: "int \<Rightarrow> standard_source \<Rightarrow> (int \<rightharpoonup> open_file) \<Rightarrow> (int \<rightharpoonup> open_file)" where
  "placed t Source_Closed D = D(t := None)"
| "placed t Source_Inherited D = D"
| "placed t (Source_Descriptor d) D = D(t := map_option (\<lambda>f. (fst f, False)) (D d))"

definition no_false_ebadf :: "workload_child \<Rightarrow> bool" where
  "no_false_ebadf c \<longleftrightarrow> (\<forall>n. child_faults c n \<noteq> Some wl_ebadf)"

lemma place_descriptor_ok:
  assumes "place_descriptor t s c = (Inr (), d)" "no_false_ebadf c"
  shows "bare d = (bare c)\<lparr>child_descriptors := placed t s (child_descriptors c)\<rparr>"
proof (cases s)
  case Source_Inherited
  with assms(1) show ?thesis by (simp add: place_descriptor_def)
next
  case (Source_Descriptor x)
  with assms(1) have "child_dup2 x t c = (Inr (), d)" by (simp add: place_descriptor_def)
  from child_call_ok [OF this [unfolded child_dup2_def]] Source_Descriptor show ?thesis
    by (auto split: option.splits)
next
  case Source_Closed
  obtain r e where r: "child_close t c = (r, e)" by fastforce
  with assms(1) Source_Closed have d: "d = e" "r = Inl wl_ebadf \<or> r = Inr ()"
    by (auto simp: place_descriptor_def split: sum.splits if_splits)
  show ?thesis
  proof (cases "child_descriptors c t")
    case None
    then have "(child_descriptors c)(t := None) = child_descriptors c" by (simp add: fun_upd_idem)
    moreover from r None have "bare e = bare c"
      by (auto simp: child_close_def child_call_def Let_def split: option.splits)
    ultimately show ?thesis using d Source_Closed by (simp add: bare_def)
  next
    case (Some f)
    with r d(2) assms(2) have "bare e = (bare c)\<lparr>child_descriptors := (child_descriptors c)(t := None)\<rparr>"
      by (auto simp: child_close_def child_call_def Let_def no_false_ebadf_def split: option.splits)
    with d Source_Closed show ?thesis by simp
  qed
qed

lemma bare_same:
  assumes "bare d = (bare c)\<lparr>child_descriptors := D\<rparr>"
  shows "child_descriptors d = D \<and> child_faults d = child_faults c"
proof -
  have "child_descriptors (bare d) = D" "child_faults (bare d) = child_faults (bare c)" unfolding assms by simp_all
  then show ?thesis by simp
qed

lemma place_descriptors_ok:
  assumes "place_descriptors sources c = (Inr (), d)" "no_false_ebadf c"
  shows "bare d = (bare c)\<lparr>child_descriptors :=
    fold (\<lambda>(i, s). placed (int i) s) (enumerate 0 sources) (child_descriptors c)\<rparr>"
proof -
  have "child_steps (map (\<lambda>(i, s). place_descriptor (int i) s) xs) c = (Inr (), d) \<Longrightarrow> no_false_ebadf c \<Longrightarrow>
    bare d = (bare c)\<lparr>child_descriptors := fold (\<lambda>(i, s). placed (int i) s) xs (child_descriptors c)\<rparr>" for xs c
  proof (induction xs arbitrary: c)
    case Nil
    then show ?case by (cases c) (simp add: bare_def)
  next
    case (Cons x xs)
    obtain i s where x: "x = (i, s)" by fastforce
    from Cons.prems(1) x obtain e where e: "place_descriptor (int i) s c = (Inr (), e)"
      "child_steps (map (\<lambda>(i, s). place_descriptor (int i) s) xs) e = (Inr (), d)"
      unfolding list.map child_steps_ok by auto
    note p = place_descriptor_ok [OF e(1) Cons.prems(2)]
    from bare_same [OF p] Cons.prems(2) have "no_false_ebadf e" by (simp add: no_false_ebadf_def)
    from Cons.IH [OF e(2) this] p bare_same [OF p] x show ?case by simp
  qed
  with assms show ?thesis unfolding place_descriptors_def by blast
qed

lemma placed_far:
  assumes "length sources = 3" "\<And>d. Source_Descriptor d \<in> set sources \<Longrightarrow> 3 \<le> d" "i < 3"
  shows "fold (\<lambda>(i, s). placed (int i) s) (enumerate 0 sources) D (int i)
    = (case sources ! i of Source_Closed \<Rightarrow> None | Source_Inherited \<Rightarrow> D (int i)
       | Source_Descriptor d \<Rightarrow> map_option (\<lambda>f. (fst f, False)) (D d))"
proof -
  from assms(1) obtain a b c where s: "sources = [a, b, c]"
    by (auto simp: numeral_3_eq_3 length_Suc_conv)
  have far: "a = Source_Descriptor x \<Longrightarrow> 3 \<le> x" "b = Source_Descriptor x \<Longrightarrow> 3 \<le> x" "c = Source_Descriptor x \<Longrightarrow> 3 \<le> x"
    for x using assms(2) s by auto
  from assms(3) consider "i = 0" | "i = 1" | "i = 2" by linarith
  then show ?thesis
    using far unfolding s by cases (cases a; cases b; cases c; fastforce)+
qed

lemma identity_ok:
  assumes "assume_identity identity c = (Inr (), d)"
  shows "bare d = (bare c)\<lparr>child_euid := identity_uid identity, child_egid := identity_gid identity,
    child_groups := (if child_euid c = 0 then identity_groups identity else child_groups c),
    child_death_signal := (if child_egid c = identity_gid identity \<and> child_euid c = identity_uid identity
      then child_death_signal c else None)\<rparr>"
proof (cases "child_euid c = 0")
  case False
  with assms have "d = c" "child_euid c = identity_uid identity" "child_egid c = identity_gid identity"
    by (auto simp: assume_identity_def split: if_splits)
  with False show ?thesis by (cases c) (simp add: bare_def)
next
  case True
  with assms have "child_steps [child_setgroups (identity_groups identity), child_setgid (identity_gid identity),
             child_setuid (identity_uid identity)] c = (Inr (), d)"
    by (simp add: assume_identity_def del: child_steps.simps)
  then obtain c1 c2 where s: "child_setgroups (identity_groups identity) c = (Inr (), c1)"
    "child_setgid (identity_gid identity) c1 = (Inr (), c2)" "child_setuid (identity_uid identity) c2 = (Inr (), d)"
    unfolding child_steps_ok child_steps_nil by blast
  from child_call_ok [OF s(1) [unfolded child_setgroups_def]] child_call_ok [OF s(2) [unfolded child_setgid_def]]
    child_call_ok [OF s(3) [unfolded child_setuid_def]] True
  show ?thesis by (auto split: if_splits)
qed

lemma execve_ok:
  assumes "child_execve path args env c = (Inr (), d)"
  shows "bare d = (bare c)\<lparr>child_running := Some (path, args, env),
    child_descriptors := (\<lambda>i. survives_exec (child_descriptors c i))\<rparr> \<and> child_programs c path = None"
  using child_call_ok [OF assms [unfolded child_execve_def]] by (auto simp: survives_exec_def split: option.splits)

lemma execve_failed: "child_execve path args env c = (Inl e, d) \<Longrightarrow> bare d = bare c"
  by (auto simp: child_execve_def child_call_def Let_def split: option.splits)

lemma candidates_ok:
  assumes "try_candidates paths ctx r c = (Inr (), d)"
  shows "\<exists>path \<in> set paths. bare d = (bare c)\<lparr>child_running := Some (path, arguments ctx, environment ctx),
    child_descriptors := (\<lambda>i. survives_exec (child_descriptors c i))\<rparr>"
  using assms
proof (induction paths ctx r c rule: try_candidates.induct)
  case (2 path paths ctx e0 denied c)
  obtain r e where x: "child_execve path (arguments ctx) (environment ctx) c = (r, e)" by fastforce
  show ?case
  proof (cases r)
    case (Inr u)
    with 2(3) x have "child_execve path (arguments ctx) (environment ctx) c = (Inr (), d)" by simp
    from execve_ok [OF this] show ?thesis by simp
  next
    case (Inl n)
    with x execve_failed have b: "bare e = bare c" by blast
    then have "child_descriptors e = child_descriptors c" by (metis bare_fields(11))
    with 2 x Inl b show ?thesis by (auto split: if_splits)
  qed
qed simp

section \<open>The Workload\<close>

definition with_credentials :: "launch_request \<Rightarrow> workload_child \<Rightarrow> workload_child" where
  "with_credentials q c = c\<lparr>child_euid := identity_uid (launch_identity q),
     child_egid := identity_gid (launch_identity q),
     child_groups := (if child_euid c = 0 then identity_groups (launch_identity q) else child_groups c),
     child_death_signal := (if child_egid c = identity_gid (launch_identity q)
         \<and> child_euid c = identity_uid (launch_identity q) then child_death_signal c else None),
     child_no_new_privs := True, child_directory := working_directory (launch_context q)\<rparr>"

lemma finish_ok:
  assumes "finish_child q candidates c = (Inr (), d)" "no_false_ebadf c"
  shows "\<exists>path \<in> set candidates.
    bare d = (with_credentials q (bare c))\<lparr>child_sigint_default := True,
      child_running := Some (path, arguments (launch_context q), environment (launch_context q)),
      child_descriptors := (\<lambda>i. survives_exec (fold (\<lambda>(i, s). placed (int i) s)
        (enumerate 0 (launch_sources q)) (child_descriptors c) i))\<rparr>"
proof -
  let ?ctx = "launch_context q"
  let ?calls = "[child_set (\<lambda>c. c\<lparr>child_sigint_default := True\<rparr>),
             place_descriptors (launch_sources q), assume_identity (launch_identity q),
             child_set (\<lambda>c. c\<lparr>child_no_new_privs := True\<rparr>),
             child_set (\<lambda>c. c\<lparr>child_directory := working_directory ?ctx\<rparr>)]"
  from assms(1) obtain e where e: "child_steps ?calls c = (Inr (), e)"
    "try_candidates candidates ?ctx (wl_enoent, False) e = (Inr (), d)"
    by (auto simp: finish_child_def simp del: child_steps.simps split: prod.splits sum.splits)
  from e(1) obtain c1 c2 c3 c4 where s: "child_set (\<lambda>c. c\<lparr>child_sigint_default := True\<rparr>) c = (Inr (), c1)"
    "place_descriptors (launch_sources q) c1 = (Inr (), c2)" "assume_identity (launch_identity q) c2 = (Inr (), c3)"
    "child_set (\<lambda>c. c\<lparr>child_no_new_privs := True\<rparr>) c3 = (Inr (), c4)"
    "child_set (\<lambda>c. c\<lparr>child_directory := working_directory ?ctx\<rparr>) c4 = (Inr (), e)"
    unfolding child_steps_ok child_steps_nil by blast
  from child_set_ok [OF s(1)] have c1: "bare c1 = (bare c)\<lparr>child_sigint_default := True\<rparr>"
    "no_false_ebadf c1" "child_descriptors c1 = child_descriptors c"
    using assms(2) by (simp_all add: no_false_ebadf_def)
  let ?D = "fold (\<lambda>(i, s). placed (int i) s) (enumerate 0 (launch_sources q)) (child_descriptors c)"
  from place_descriptors_ok [OF s(2) c1(2)] c1 have c2:
    "bare c2 = (bare c)\<lparr>child_sigint_default := True, child_descriptors := ?D\<rparr>" by simp
  have same: "child_euid c2 = child_euid c" "child_egid c2 = child_egid c" "child_groups c2 = child_groups c"
    "child_death_signal c2 = child_death_signal c"
    using arg_cong [OF c2, of child_euid] arg_cong [OF c2, of child_egid] arg_cong [OF c2, of child_groups]
      arg_cong [OF c2, of child_death_signal] by simp_all
  from identity_ok [OF s(3)] child_set_ok [OF s(4)] child_set_ok [OF s(5)] c2 same
  have e2: "bare e = (with_credentials q (bare c))\<lparr>child_sigint_default := True, child_descriptors := ?D\<rparr>"
    by (simp add: with_credentials_def)
  have "child_descriptors e = ?D" using arg_cong [OF e2, of child_descriptors] by (simp add: with_credentials_def)
  with candidates_ok [OF e(2)] e2 show ?thesis by auto
qed

lemma guard_ok:
  assumes "guard_parent parent c = (Inr (), d)"
  shows "bare d = (bare c)\<lparr>child_death_signal := Some 9\<rparr> \<and> child_parent c = parent"
proof -
  from assms obtain e where "child_set (\<lambda>c. c\<lparr>child_death_signal := Some 9\<rparr>) c = (Inr (), e)"
    "d = e" "child_parent e = parent"
    by (auto simp: guard_parent_def split: prod.splits sum.splits if_splits)
  with child_set_ok show ?thesis by fastforce
qed

lemma enter_ok:
  assumes "enter_launch_namespace entry c = (Inr (), d)"
  shows "bare d = (bare c)\<lparr>child_in_namespace := (entry \<noteq> None \<or> child_in_namespace c)\<rparr>"
proof (cases entry)
  case None
  with assms show ?thesis by (cases c) (simp add: enter_launch_namespace_def bare_def)
next
  case (Some handle)
  with assms have "child_set (\<lambda>c. c\<lparr>child_in_namespace := True\<rparr>) c = (Inr (), d)"
    by (auto simp: enter_launch_namespace_def split: if_splits)
  from child_set_ok [OF this] Some show ?thesis by simp
qed

lemma workload_child_ok:
  assumes "run_workload_child q candidates c = (Inr (), d)" "no_false_ebadf c"
  shows "child_parent c = launch_parent q \<and> (\<exists>path \<in> set candidates.
    bare d = (with_credentials q ((case launch_view q of None \<Rightarrow> id | Some view \<Rightarrow> with_view view)
        ((bare c)\<lparr>child_death_signal := Some 9,
           child_in_namespace := (launch_namespace q \<noteq> None \<or> child_in_namespace c)\<rparr>)))\<lparr>child_sigint_default := True,
      child_running := Some (path, arguments (launch_context q), environment (launch_context q)),
      child_descriptors := (\<lambda>i. survives_exec (fold (\<lambda>(i, s). placed (int i) s)
        (enumerate 0 (launch_sources q)) (child_descriptors c) i))\<rparr>)"
proof -
  let ?c = "(bare c)\<lparr>child_death_signal := Some 9, child_in_namespace := (launch_namespace q \<noteq> None \<or> child_in_namespace c)\<rparr>"
  from assms(1) obtain e where "child_steps [guard_parent (launch_parent q), enter_launch_namespace (launch_namespace q)] c
      = (Inr (), e)" and rest: "(case launch_view q of
             None \<Rightarrow> finish_child q candidates e
           | Some view \<Rightarrow>
               (case install_resolver_view view e of
                  (Inl (step, e), c2) \<Rightarrow> (Inl (125, e, step), c2)
                | (Inr _, c2) \<Rightarrow> finish_child q candidates c2)) = (Inr (), d)"
    unfolding run_workload_child_def
    by (cases "child_steps [guard_parent (launch_parent q), enter_launch_namespace (launch_namespace q)] c";
        cases "fst (child_steps [guard_parent (launch_parent q), enter_launch_namespace (launch_namespace q)] c)") auto
  then obtain c1 where s: "guard_parent (launch_parent q) c = (Inr (), c1)"
    "enter_launch_namespace (launch_namespace q) c1 = (Inr (), e)"
    unfolding child_steps_ok child_steps_nil by blast
  from guard_ok [OF s(1)] have c1: "bare c1 = (bare c)\<lparr>child_death_signal := Some 9\<rparr>" "child_parent c = launch_parent q"
    by simp_all
  have "child_in_namespace c1 = child_in_namespace c" using arg_cong [OF c1(1), of child_in_namespace] by simp
  with enter_ok [OF s(2)] c1(1) have e: "bare e = ?c" by simp
  have e2: "child_descriptors e = child_descriptors c" "child_faults e = child_faults c"
    using arg_cong [OF e, of child_descriptors] arg_cong [OF e, of child_faults] by simp_all
  have ebadf: "no_false_ebadf e" using e2(2) assms(2) by (simp add: no_false_ebadf_def)
  show ?thesis
  proof (cases "launch_view q")
    case None
    with rest have "finish_child q candidates e = (Inr (), d)" by simp
    from finish_ok [OF this ebadf] e e2(1) None c1(2) show ?thesis by simp
  next
    case (Some view)
    with rest obtain f where f: "install_resolver_view view e = (Inr (), f)" "finish_child q candidates f = (Inr (), d)"
      by (cases "install_resolver_view view e"; cases "fst (install_resolver_view view e)") auto
    note g = install_ok [OF f(1)]
    have f2: "child_descriptors f = child_descriptors e" "child_faults f = child_faults e"
      using arg_cong [OF g, of child_descriptors] arg_cong [OF g, of child_faults] by (simp_all add: with_view_def)
    have "no_false_ebadf f" using f2(2) ebadf by (simp add: no_false_ebadf_def)
    from finish_ok [OF f(2) this] g e e2(1) f2(1) Some c1(2) show ?thesis by simp
  qed
qed

text \<open>C22: a program that a child executes is a candidate of the context, with its arguments and
  environment and in its directory; it runs as the invoking user with the user's groups, without new
  privileges, in the namespace, on private mounts with the snapshots bound read-only over the resolver's
  files, and each standard descriptor is what the launch asked for.\<close>

theorem workload_runs_confined:
  assumes "run_workload_child q candidates c = (Inr (), d)" "no_false_ebadf c"
    and "length (launch_sources q) = 3" "\<And>x. Source_Descriptor x \<in> set (launch_sources q) \<Longrightarrow> 3 \<le> x"
  shows "(\<exists>path \<in> set candidates. child_running d =
        Some (path, arguments (launch_context q), environment (launch_context q)))
    \<and> child_euid d = identity_uid (launch_identity q) \<and> child_egid d = identity_gid (launch_identity q)
    \<and> (child_euid c = 0 \<longrightarrow> child_groups d = identity_groups (launch_identity q))
    \<and> child_no_new_privs d \<and> child_sigint_default d \<and> child_directory d = working_directory (launch_context q)
    \<and> (launch_namespace q \<noteq> None \<longrightarrow> child_in_namespace d)
    \<and> (\<forall>view. launch_view q = Some view \<longrightarrow> child_private_mounts d \<and> child_storage d = Some Map.empty
         \<and> child_bound d resolv_conf_path = Some (view_resolv_conf view, True)
         \<and> child_bound d nsswitch_conf_path = Some (view_nsswitch_conf view, True))
    \<and> (\<forall>i<3. child_descriptors d (int i) =
         (case launch_sources q ! i of
            Source_Closed \<Rightarrow> None
          | Source_Inherited \<Rightarrow> survives_exec (child_descriptors c (int i))
          | Source_Descriptor x \<Rightarrow> map_option (\<lambda>f. (fst f, False)) (child_descriptors c x)))"
proof -
  let ?D = "fold (\<lambda>(i, s). placed (int i) s) (enumerate 0 (launch_sources q)) (child_descriptors c)"
  let ?before = "(case launch_view q of None \<Rightarrow> id | Some view \<Rightarrow> with_view view)
        ((bare c)\<lparr>child_death_signal := Some 9,
           child_in_namespace := (launch_namespace q \<noteq> None \<or> child_in_namespace c)\<rparr>)"
  from workload_child_ok [OF assms(1,2)] obtain path where p: "path \<in> set candidates" and
    d: "bare d = (with_credentials q ?before)\<lparr>child_sigint_default := True,
      child_running := Some (path, arguments (launch_context q), environment (launch_context q)),
      child_descriptors := (\<lambda>i. survives_exec (?D i))\<rparr>" by blast
  have f: "f (bare d) = f ((with_credentials q ?before)\<lparr>child_sigint_default := True,
      child_running := Some (path, arguments (launch_context q), environment (launch_context q)),
      child_descriptors := (\<lambda>i. survives_exec (?D i))\<rparr>)" for f :: "workload_child \<Rightarrow> 'z"
    unfolding d by (rule refl)
  have before: "child_euid ?before = child_euid c" "child_groups ?before = child_groups c"
    "child_in_namespace ?before = (launch_namespace q \<noteq> None \<or> child_in_namespace c)"
    by (cases "launch_view q"; simp add: with_view_def)+
  have view: "child_private_mounts ?before \<and> child_storage ?before = Some Map.empty
      \<and> child_bound ?before resolv_conf_path = Some (view_resolv_conf view, True)
      \<and> child_bound ?before nsswitch_conf_path = Some (view_nsswitch_conf view, True)"
    if "launch_view q = Some view" for view
    using that by (simp add: with_view_def resolv_conf_path_def nsswitch_conf_path_def)
  have slot: "child_descriptors d (int i) = survives_exec (?D (int i))" for i
    using f [of child_descriptors] by simp
  have "child_descriptors d (int i) =
         (case launch_sources q ! i of
            Source_Closed \<Rightarrow> None
          | Source_Inherited \<Rightarrow> survives_exec (child_descriptors c (int i))
          | Source_Descriptor x \<Rightarrow> map_option (\<lambda>f. (fst f, False)) (child_descriptors c x))" if "i < 3" for i
    unfolding slot placed_far [OF assms(3,4) that, simplified]
    by (cases "launch_sources q ! i") (auto simp: survives_exec_def split: option.splits)
  then show ?thesis
    using p f [of child_running] f [of child_euid] f [of child_egid] f [of child_groups] f [of child_no_new_privs]
      f [of child_sigint_default] f [of child_directory] f [of child_in_namespace] f [of child_private_mounts]
      f [of child_storage] f [of child_bound] before view
    by (simp add: with_credentials_def)
qed

text \<open>C23: a defect: the parent-death signal does not survive the change of identity. A Workload that the
  helper starts for a user has none, whatever else happens, so that it goes on without its helper.\<close>

theorem workload_outlives_helper:
  assumes "run_workload_child q candidates c = (Inr (), d)" "no_false_ebadf c"
    and "child_euid c \<noteq> identity_uid (launch_identity q) \<or> child_egid c \<noteq> identity_gid (launch_identity q)"
  shows "child_death_signal d = None"
proof -
  let ?before = "(case launch_view q of None \<Rightarrow> id | Some view \<Rightarrow> with_view view)
        ((bare c)\<lparr>child_death_signal := Some 9,
           child_in_namespace := (launch_namespace q \<noteq> None \<or> child_in_namespace c)\<rparr>)"
  from workload_child_ok [OF assms(1,2)] obtain path D where
    d: "bare d = (with_credentials q ?before)\<lparr>child_sigint_default := True,
      child_running := Some (path, arguments (launch_context q), environment (launch_context q)),
      child_descriptors := D\<rparr>" by blast
  have "child_euid ?before = child_euid c" "child_egid ?before = child_egid c"
    by (cases "launch_view q"; simp add: with_view_def)+
  with arg_cong [OF d, of child_death_signal] assms(3) show ?thesis by (auto simp: with_credentials_def)
qed

section \<open>What the parent is told\<close>

definition honest_error_pipe :: "'w launch_world \<Rightarrow> ('w \<Rightarrow> bytes) \<Rightarrow> ('w \<Rightarrow> nat) \<Rightarrow> bool" where
  "honest_error_pipe lw left effort \<longleftrightarrow>
     (\<forall>n w. 0 < n \<longrightarrow> (case read_error_pipe lw n w of
        (Pipe_Data x, w1) \<Rightarrow> x \<noteq> [] \<and> length x \<le> n \<and> left w = x @ left w1
      | (Pipe_End, w1) \<Rightarrow> left w = []
      | (Pipe_Interrupted, w1) \<Rightarrow> left w1 = left w \<and> effort w1 < effort w
      | _ \<Rightarrow> False))
     \<and> (\<forall>p w. fst (await_workload lw p w) = Wait_Interrupted \<longrightarrow> effort (snd (await_workload lw p w)) < effort w)"

lemma report_read:
  assumes "honest_error_pipe lw left effort" "length received + length (left w) \<le> launch_message_size"
  shows "\<exists>x. iterate (report_read_pass lw) (received, w) = Some (Some (received @ left w), x)"
  using assms(2)
proof (induction "(length (left w), effort w)" arbitrary: received w rule: wf_induct_rule [OF wf_lex_prod [OF wf_less wf_less]])
  case 1
  let ?n = "launch_message_size - length received"
  obtain r x where c: "read_error_pipe lw ?n w = (r, x)" by fastforce
  show ?case
  proof (cases "length received < launch_message_size")
    case False
    with 1(2) have "length (left w) = 0" by linarith
    then have "left w = []" by simp
    moreover from False have "iterate (report_read_pass lw) (received, w) = Some (Some received, w)"
      by (intro iterate_unfold(2)) (simp add: report_read_pass_def)
    ultimately show ?thesis by simp
  next
    case True
    have h: "case r of Pipe_Data y \<Rightarrow> y \<noteq> [] \<and> length y \<le> ?n \<and> left w = y @ left x
      | Pipe_End \<Rightarrow> left w = [] | Pipe_Interrupted \<Rightarrow> left x = left w \<and> effort x < effort w | _ \<Rightarrow> False"
      using spec [OF spec [OF conjunct1 [OF assms(1) [unfolded honest_error_pipe_def]], of ?n], of w]
        True
      by (cases r) (simp_all add: c)
    show ?thesis
    proof (cases r)
      case (Pipe_Data y)
      with h 1(2) have y: "left w = y @ left x" "length (left x) < length (left w)"
        "length (received @ y) + length (left x) \<le> launch_message_size" by auto
      from Pipe_Data c True have "iterate (report_read_pass lw) (received, w)
          = iterate (report_read_pass lw) (received @ y, x)"
        by (intro iterate_unfold(1)) (simp add: report_read_pass_def)
      moreover from 1(1) [OF _ y(3)] y(2) obtain z where
        "iterate (report_read_pass lw) (received @ y, x) = Some (Some ((received @ y) @ left x), z)" by auto
      ultimately show ?thesis using y(1) by simp
    next
      case Pipe_End
      with h c True have "left w = []" "iterate (report_read_pass lw) (received, w) = Some (Some received, x)"
        by (simp, intro iterate_unfold(2), simp add: report_read_pass_def)
      then show ?thesis by simp
    next
      case Pipe_Interrupted
      with h 1(2) have y: "left x = left w" "effort x < effort w"
        "length received + length (left x) \<le> launch_message_size" by auto
      from Pipe_Interrupted c True have "iterate (report_read_pass lw) (received, w)
          = iterate (report_read_pass lw) (received, x)"
        by (intro iterate_unfold(1)) (simp add: report_read_pass_def)
      moreover from 1(1) [OF _ y(3)] y(1,2) obtain z where
        "iterate (report_read_pass lw) (received, x) = Some (Some (received @ left x), z)" by auto
      ultimately show ?thesis using y(1) by simp
    qed (use h in auto)
  qed
qed

lemma await_returns:
  assumes "honest_error_pipe lw left effort"
  shows "\<exists>a x. retry_interrupted (await_workload lw pid) w = Some (a, x)"
proof (induction "effort w" arbitrary: w rule: less_induct)
  case less
  obtain a x where c: "await_workload lw pid w = (a, x)" by fastforce
  show ?case
  proof (cases "a = Wait_Interrupted")
    case True
    then have "retry_interrupted (await_workload lw pid) w = retry_interrupted (await_workload lw pid) x"
      unfolding retry_interrupted_def by (intro iterate_unfold(1)) (simp add: c)
    moreover from assms True c have "effort x < effort w" unfolding honest_error_pipe_def by (metis fst_conv snd_conv)
    ultimately show ?thesis using less.hyps by simp
  next
    case False
    then have "retry_interrupted (await_workload lw pid) w = Some (a, x)"
      unfolding retry_interrupted_def by (intro iterate_unfold(2)) (simp add: c)
    then show ?thesis by blast
  qed
qed

definition int32 :: "int \<Rightarrow> bool" where "int32 i \<longleftrightarrow> - (2 ^ 31) \<le> i \<and> i < 2 ^ 31"

lemma bytes_int_bytes:
  assumes "int32 i"
  shows "bytes_int (int_bytes i) = i"
proof -
  have m: "i mod 2 ^ 32 = (if 0 \<le> i then i else i + 2 ^ 32)"
  proof (cases "0 \<le> i")
    case True
    with assms show ?thesis by (simp add: int32_def)
  next
    case False
    have "i mod 2 ^ 32 = (i + 2 ^ 32) mod 2 ^ 32" by simp
    also have "\<dots> = i + 2 ^ 32" using assms False by (intro mod_pos_pos_trivial) (auto simp: int32_def)
    finally show ?thesis using False by simp
  qed
  have "le_value (int_bytes i) = nat (i mod 2 ^ 32)"
    unfolding int_bytes_def by (rule le_value_le_bytes) (simp add: nat_less_iff)
  then show ?thesis using assms m [simplified] by (auto simp: bytes_int_def signed32_def int32_def)
qed

lemma step_of_step_number: "step_of_number (int (step_number s)) = s" "int32 (int (step_number s))"
  "step_number s = 0 \<longleftrightarrow> s = Step_None"
  by (cases s; simp add: step_of_number_def int32_def)+

lemma length_launch_message: "length (launch_message r) = launch_message_size"
  by (cases r) (simp add: launch_message_def int_bytes_def launch_message_size_def)

definition launch_verdict :: "'w launch_world \<Rightarrow> int \<Rightarrow> launch_report + unit \<Rightarrow> int launch_result" where
  "launch_verdict lw pid r =
     (case r of
        Inr _ \<Rightarrow> \<lparr>launched_process = Some pid, launch_failure_exit_code = 0, launch_failure = []\<rparr>
      | Inl (code, e, step) \<Rightarrow>
          failed_launch_result code
            (if step = Step_None then [] else resolver_failure_text lw e (int (step_number step))))"

lemma judge_launch_message:
  assumes "int32 code" "int32 e"
  shows "judge_launch lw (Some (launch_message (code, e, step))) = launch_verdict lw pid (Inl (code, e, step))"
proof -
  let ?m = "launch_message (code, e, step)"
  have "take 4 ?m = int_bytes code" "take 4 (drop 4 ?m) = int_bytes e"
    "take 4 (drop 8 ?m) = int_bytes (int (step_number step))"
    by (simp_all add: launch_message_def int_bytes_def)
  with assms length_launch_message [of "(code, e, step)"] step_of_step_number [of step] show ?thesis
    by (simp add: judge_launch_def launch_verdict_def Let_def bytes_int_bytes)
qed

lemma report_codes:
  assumes "run_workload_child q candidates c = (Inl (code, e, step), d)"
  shows "code \<in> {125, 126, 127}"
  using assms by (auto simp: run_workload_child_def finish_child_def plain_report_def exec_failure_exit_code_def
      split: prod.splits sum.splits option.splits if_splits)

text \<open>C24: the parent is told what became of the child, however the message is cut: a process exactly when
  the child executed the program, otherwise the exit code the child chose (125, 126 or 127) and, when the
  resolver view was not installed, its step and error number.\<close>

theorem launch_tells_the_child:
  assumes "honest_error_pipe lw left effort" "arguments (launch_context q) \<noteq> []"
    and "executable_candidates (launch_context q) \<noteq> []"
    and "run_workload_child q (executable_candidates (launch_context q)) c = (r, d)"
    and "open_error_pipe lw w = (True, w1)"
    and "fork_workload lw q (executable_candidates (launch_context q)) w1 = (Inr pid, w2)"
    and "left w2 = (case r of Inl report \<Rightarrow> launch_message report | Inr _ \<Rightarrow> [])"
    and "\<And>code e step. r = Inl (code, e, step) \<Longrightarrow> int32 e"
  shows "\<exists>x. launch_workload lw q w = Some (launch_verdict lw pid r, x)
    \<and> (case r of Inl (code, _) \<Rightarrow> code \<in> {125, 126, 127} | Inr _ \<Rightarrow> True)"
proof -
  let ?cs = "executable_candidates (launch_context q)"
  have "length ([] :: bytes) + length (left w2) \<le> launch_message_size"
    using assms(7) length_launch_message by (simp split: sum.splits)
  from report_read [OF assms(1) this] obtain w3 where
    read: "iterate (report_read_pass lw) ([], w2) = Some (Some (left w2), w3)" by auto
  have start: "launch_workload lw q w = conclude_launch lw pid (Some (left w2)) w3"
    using assms(2,3,5,6) read by (simp add: launch_workload_def start_workload_def Let_def)
  show ?thesis
  proof (cases r)
    case (Inr u)
    with assms(7) show ?thesis by (simp add: start conclude_launch_def launch_verdict_def)
  next
    case (Inl report)
    obtain code e step where rep: "report = (code, e, step)" by (cases report)
    have code: "code \<in> {125, 126, 127}" using report_codes assms(4) Inl rep by blast
    then have "int32 code" "int32 e" using assms(8) Inl rep by (auto simp: int32_def)
    note verdict = judge_launch_message [OF this, of lw step]
    have "left w2 \<noteq> []" using assms(7) Inl rep length_launch_message [of report]
      by (auto simp: launch_message_size_def)
    moreover obtain a x where "retry_interrupted (await_workload lw pid) w3 = Some (a, x)"
      using await_returns [OF assms(1)] by blast
    ultimately show ?thesis
      using assms(7) Inl rep verdict code by (simp add: start conclude_launch_def launch_verdict_def)
  qed
qed

section \<open>A launch\<close>

definition demo_request :: launch_request where
  "demo_request = \<lparr>launch_context = \<lparr>working_directory = ''/'', arguments = [''/a''], environment = []\<rparr>,
     launch_identity = \<lparr>identity_uid = 1000, identity_gid = 1000, identity_groups = [27]\<rparr>,
     launch_sources = [Source_Descriptor 5, Source_Inherited, Source_Closed], launch_namespace = Some True,
     launch_view = Some \<lparr>view_resolv_conf = ''r'', view_nsswitch_conf = ''n''\<rparr>, launch_parent = 77\<rparr>"

definition demo_child :: workload_child where
  "demo_child = \<lparr>child_euid = 0, child_egid = 0, child_groups = [], child_parent = 77, child_death_signal = None,
     child_in_namespace = False, child_private_mounts = False, child_storage = None, child_bound = Map.empty,
     child_files = [storage_path \<mapsto> \<lparr>node_kind = Directory_Node, node_owner = 0, node_mode = 493\<rparr>,
       resolv_conf_path \<mapsto> \<lparr>node_kind = Regular_Node, node_owner = 0, node_mode = 420\<rparr>,
       nsswitch_conf_path \<mapsto> \<lparr>node_kind = Regular_Node, node_owner = 0, node_mode = 420\<rparr>],
     child_sigint_default = False, child_descriptors = [1 \<mapsto> (11, False), 2 \<mapsto> (12, False), 5 \<mapsto> (15, True)],
     child_no_new_privs = False, child_directory = ''/root'', child_programs = (\<lambda>_. None), child_running = None,
     child_errno = 0, child_faults = Map.empty, child_calls = 0\<rparr>"

lemmas child_defs = run_workload_child_def guard_parent_def enter_launch_namespace_def install_resolver_view_def
  resolver_steps_def child_set_def child_call_def Let_def child_open_directory_def check_storage_def
  mount_storage_def copy_snapshot_def remove_snapshot_def mount_read_only_snapshot_def check_target_def
  bind_file_def finish_child_def place_descriptors_def place_descriptor_def child_dup2_def child_close_def
  assume_identity_def child_setgroups_def child_setgid_def child_setuid_def child_execve_def
  storage_path_def resolv_conf_path_def nsswitch_conf_path_def mode_all_def

lemma demo_child_runs: "fst (run_workload_child demo_request [''/a''] demo_child) = Inr ()"
  by (simp add: child_defs demo_request_def demo_child_def)

lemma demo_child_result: "run_workload_child demo_request [''/a''] demo_child
    = (Inr (), snd (run_workload_child demo_request [''/a''] demo_child))"
  using demo_child_runs by (simp add: prod_eq_iff)

lemma demo_request_facts: "no_false_ebadf demo_child" "length (launch_sources demo_request) = 3"
  "Source_Descriptor x \<in> set (launch_sources demo_request) \<Longrightarrow> 3 \<le> x"
  "child_euid demo_child \<noteq> identity_uid (launch_identity demo_request)"
  by (auto simp: demo_child_def demo_request_def no_false_ebadf_def)

theorem workload_runs_confined_witness:
  "child_euid (snd (run_workload_child demo_request [''/a''] demo_child)) = 1000
   \<and> child_running (snd (run_workload_child demo_request [''/a''] demo_child)) = Some (''/a'', [''/a''], [])"
  using workload_runs_confined [OF demo_child_result demo_request_facts(1,2,3)]
  by (simp add: demo_request_def)

theorem workload_outlives_helper_witness:
  "child_death_signal (snd (run_workload_child demo_request [''/a''] demo_child)) = None"
  using workload_outlives_helper [OF demo_child_result demo_request_facts(1)] demo_request_facts(4) by blast

text \<open>A child whose program may not be executed; the world of the parent is what the pipe holds.\<close>

definition demo_refused :: workload_child where
  "demo_refused = demo_child\<lparr>child_programs := (\<lambda>_. Some wl_eacces)\<rparr>"

definition demo_launch :: "bytes launch_world" where
  "demo_launch = \<lparr>open_error_pipe = (\<lambda>w. (True, w)),
     fork_workload = (\<lambda>q cs w. (Inr 42, launch_message (126, wl_eacces, Step_None))),
     read_error_pipe = (\<lambda>n w. if w = [] then (Pipe_End, w) else (Pipe_Data (take n w), drop n w)),
     await_workload = (\<lambda>_ w. (Wait_Ended 0, w)), look_workload = (\<lambda>_ w. (Wait_Running, w)),
     signal_workload = (\<lambda>_ _ w. (True, w)), launch_strerror = (\<lambda>_. ''denied'')\<rparr>"

theorem launch_tells_the_child_witness:
  "\<exists>x. launch_workload demo_launch demo_request [] = Some (failed_launch_result 126 [], x)"
proof -
  have honest: "honest_error_pipe demo_launch id (\<lambda>_. 0)"
    by (auto simp: honest_error_pipe_def demo_launch_def)
  have candidates: "executable_candidates (launch_context demo_request) = [''/a'']"
    by (simp add: executable_candidates_def demo_request_def Let_def find_char_None_iff)
  have refused: "fst (run_workload_child demo_request [''/a''] demo_refused) = Inl (126, wl_eacces, Step_None)"
    by (simp add: child_defs demo_request_def demo_refused_def demo_child_def exec_failure_exit_code_def exec_error_def
        wl_enoent_def wl_enotdir_def wl_eacces_def)
  show ?thesis
    using launch_tells_the_child [OF honest _ _ _ _ _ _ , of demo_request demo_refused
        "Inl (126, wl_eacces, Step_None)" "snd (run_workload_child demo_request [''/a''] demo_refused)" "[]" "[]" 42
        "launch_message (126, wl_eacces, Step_None)"] refused
    by (simp add: candidates demo_launch_def prod_eq_iff launch_verdict_def int32_def wl_eacces_def)
      (simp add: demo_request_def)
qed

end
