(* ===== verification/Recovery_Files.thy ===== *)
theory Recovery_Files
  imports Recovery_Journal Session_Files
begin

text \<open>
  The file of the recovery record, the second half of
  \<open>src/network_environment/recovery_journal.cpp\<close>. The disk is a model of what the kernel keeps and of
  what survives a crash: a directory as it is and as it may still be found until it is synced, and files
  whose content is safe once they are synced. The call number \<open>n\<close> fails as \<open>disk_faults n\<close> says.
\<close>

unbundle bit_operations_syntax

section \<open>The disk\<close>

datatype io_fault = Io_Done | Io_Error int | Io_Short nat

record journal_inode =
  inode_node :: file_node
  inode_content :: string
  inode_synced :: bool

record journal_disk =
  disk_inodes :: "nat \<Rightarrow> journal_inode"
  disk_next :: nat
  disk_names :: "string \<rightharpoonup> nat"
  disk_unsettled :: "(string \<rightharpoonup> nat) list"
  disk_directories :: "string \<rightharpoonup> file_node"
  disk_user :: nat
  disk_umask :: nat
  disk_pid :: nat
  disk_faults :: "nat \<Rightarrow> io_fault"
  disk_calls :: nat

definition eperm :: int where "eperm = 1"
definition eintr :: int where "eintr = 4"

definition io_call :: "journal_disk \<Rightarrow> io_fault \<times> journal_disk" where
  "io_call d = (disk_faults d (disk_calls d), d\<lparr>disk_calls := Suc (disk_calls d)\<rparr>)"

text \<open>A call that fails or does its whole work.\<close>

definition io_step :: "(journal_disk \<Rightarrow> (int + 'a) \<times> journal_disk) \<Rightarrow> journal_disk \<Rightarrow> (int + 'a) \<times> journal_disk" where
  "io_step action d =
     (case io_call d of (fault, d1) \<Rightarrow> (case fault of Io_Error e \<Rightarrow> (Inl e, d1) | _ \<Rightarrow> action d1))"

definition change_names :: "(string \<rightharpoonup> nat) \<Rightarrow> journal_disk \<Rightarrow> journal_disk" where
  "change_names names d = d\<lparr>disk_names := names, disk_unsettled := disk_names d # disk_unsettled d\<rparr>"

definition change_inode :: "nat \<Rightarrow> (journal_inode \<Rightarrow> journal_inode) \<Rightarrow> journal_disk \<Rightarrow> journal_disk" where
  "change_inode i f d = d\<lparr>disk_inodes := (disk_inodes d)(i := f (disk_inodes d i))\<rparr>"

text \<open>\<open>openat\<close> with \<open>O_RDONLY | O_NOFOLLOW\<close>, and with \<open>O_CREAT | O_EXCL\<close>.\<close>

definition open_name :: "string \<Rightarrow> journal_disk \<Rightarrow> (int + nat) \<times> journal_disk" where
  "open_name name = io_step (\<lambda>d.
     (case disk_names d name of
        None \<Rightarrow> Inl enoent
      | Some i \<Rightarrow> (case open_node False (node_kind (inode_node (disk_inodes d i))) of
            Inl e \<Rightarrow> Inl e
          | Inr _ \<Rightarrow> Inr i), d))"

definition create_name :: "string \<Rightarrow> nat \<Rightarrow> journal_disk \<Rightarrow> (int + nat) \<times> journal_disk" where
  "create_name name mode = io_step (\<lambda>d.
     if disk_names d name \<noteq> None then (Inl eexist, d)
     else (Inr (disk_next d),
       change_names ((disk_names d)(name \<mapsto> disk_next d))
         (change_inode (disk_next d)
            (\<lambda>_. \<lparr>inode_node = \<lparr>node_kind = Regular_Node, node_owner = disk_user d,
                    node_mode = masked mode (disk_umask d)\<rparr>,
                  inode_content = [], inode_synced = False\<rparr>)
            (d\<lparr>disk_next := Suc (disk_next d)\<rparr>))))"

definition chmod_inode :: "nat \<Rightarrow> nat \<Rightarrow> journal_disk \<Rightarrow> (int + unit) \<times> journal_disk" where
  "chmod_inode i mode = io_step (\<lambda>d.
     (Inr (), change_inode i
        (\<lambda>f. f\<lparr>inode_node := (inode_node f)\<lparr>node_mode := mode\<rparr>, inode_synced := False\<rparr>) d))"

definition sync_inode :: "nat \<Rightarrow> journal_disk \<Rightarrow> (int + unit) \<times> journal_disk" where
  "sync_inode i = io_step (\<lambda>d. (Inr (), change_inode i (\<lambda>f. f\<lparr>inode_synced := True\<rparr>) d))"

definition sync_directory :: "journal_disk \<Rightarrow> (int + unit) \<times> journal_disk" where
  "sync_directory = io_step (\<lambda>d. (Inr (), d\<lparr>disk_unsettled := []\<rparr>))"

definition unlink_name :: "string \<Rightarrow> journal_disk \<Rightarrow> (int + unit) \<times> journal_disk" where
  "unlink_name name = io_step (\<lambda>d.
     if disk_names d name = None then (Inl enoent, d)
     else (Inr (), change_names ((disk_names d)(name := None)) d))"

definition rename_name :: "string \<Rightarrow> string \<Rightarrow> journal_disk \<Rightarrow> (int + unit) \<times> journal_disk" where
  "rename_name old new = io_step (\<lambda>d.
     case disk_names d old of
       None \<Rightarrow> (Inl enoent, d)
     | Some i \<Rightarrow> (Inr (), change_names ((disk_names d)(old := None, new \<mapsto> i)) d))"

text \<open>\<open>write\<close> and \<open>read\<close> give a count, which a fault can shorten.\<close>

definition io_count :: "io_fault \<Rightarrow> nat \<Rightarrow> nat" where
  "io_count fault n = (case fault of Io_Short k \<Rightarrow> min k n | _ \<Rightarrow> n)"

definition write_inode :: "nat \<Rightarrow> string \<Rightarrow> journal_disk \<Rightarrow> (int + nat) \<times> journal_disk" where
  "write_inode i text d =
     (case io_call d of (fault, d1) \<Rightarrow>
        (case fault of
           Io_Error e \<Rightarrow> (Inl e, d1)
         | _ \<Rightarrow> (let n = io_count fault (length text)
                 in (Inr n, change_inode i
                       (\<lambda>f. f\<lparr>inode_content := inode_content f @ take n text, inode_synced := False\<rparr>) d1))))"

definition read_inode :: "nat \<Rightarrow> nat \<Rightarrow> nat \<Rightarrow> journal_disk \<Rightarrow> (int + string) \<times> journal_disk" where
  "read_inode i offset capacity d =
     (case io_call d of (fault, d1) \<Rightarrow>
        (case fault of
           Io_Error e \<Rightarrow> (Inl e, d1)
         | _ \<Rightarrow> (let rest = take capacity (drop offset (inode_content (disk_inodes d i)))
                 in (Inr (take (io_count fault (length rest)) rest), d1))))"

definition stat_inode :: "nat \<Rightarrow> journal_disk \<Rightarrow> (int + journal_inode) \<times> journal_disk" where
  "stat_inode i = io_step (\<lambda>d. (Inr (disk_inodes d i), d))"

definition stat_path :: "string \<Rightarrow> journal_disk \<Rightarrow> (int + file_node) \<times> journal_disk" where
  "stat_path path = io_step (\<lambda>d.
     (case disk_directories d path of None \<Rightarrow> Inl enoent | Some node \<Rightarrow> Inr node, d))"

definition open_path :: "string \<Rightarrow> journal_disk \<Rightarrow> (int + unit) \<times> journal_disk" where
  "open_path path = io_step (\<lambda>d.
     (case disk_directories d path of
        None \<Rightarrow> Inl enoent
      | Some node \<Rightarrow> if node_kind node = Directory_Node then Inr () else Inl enotdir, d))"

definition make_path :: "string \<Rightarrow> nat \<Rightarrow> journal_disk \<Rightarrow> (int + unit) \<times> journal_disk" where
  "make_path path mode = io_step (\<lambda>d.
     if disk_directories d path \<noteq> None then (Inl eexist, d)
     else (Inr (), d\<lparr>disk_directories := (disk_directories d)(path \<mapsto>
       \<lparr>node_kind = Directory_Node, node_owner = disk_user d, node_mode = masked mode (disk_umask d)\<rparr>)\<rparr>))"

section \<open>The directory\<close>

definition var_directory :: string where "var_directory = ''/var/lib''"
definition journal_directory :: string where "journal_directory = ''/var/lib/netlaglab''"

definition owned_private_directory :: "nat \<Rightarrow> file_node \<Rightarrow> bool" where
  "owned_private_directory owner node \<longleftrightarrow>
     node_kind node = Directory_Node \<and> node_owner node = owner \<and> node_mode node AND mode_all = mode_owner_all"

definition valid_directory :: "nat \<Rightarrow> journal_disk \<Rightarrow> bool \<times> journal_disk" where
  "valid_directory owner d =
     (case stat_path journal_directory d of (status, d1) \<Rightarrow>
        (case status of Inl _ \<Rightarrow> False | Inr node \<Rightarrow> owned_private_directory owner node, d1))"

text \<open>\<open>open_recovery_directory\<close>: the error number or the open directory. The mask \<open>0022\<close> is 18.\<close>

definition parent_refused :: "int + file_node \<Rightarrow> bool" where
  "parent_refused status \<longleftrightarrow>
     (case status of
        Inl _ \<Rightarrow> True
      | Inr node \<Rightarrow> node_kind node \<noteq> Directory_Node \<or> node_owner node \<noteq> 0 \<or> node_mode node AND 18 \<noteq> 0)"

definition enter_journal_directory :: "journal_disk \<Rightarrow> (int + unit) \<times> journal_disk" where
  "enter_journal_directory d =
     (case open_path journal_directory d of (opened, d1) \<Rightarrow>
        (case opened of
           Inl e \<Rightarrow> (Inl e, d1)
         | Inr _ \<Rightarrow> (case stat_path journal_directory d1 of (status, d2) \<Rightarrow>
             (case status of
                Inl _ \<Rightarrow> (Inl eperm, d2)
              | Inr node \<Rightarrow> (if owned_private_directory 0 node then Inr () else Inl eperm, d2)))))"

definition open_journal_directory :: "journal_disk \<Rightarrow> (int + unit) \<times> journal_disk" where
  "open_journal_directory d =
     (case open_path var_directory d of (parent, d1) \<Rightarrow>
        (case parent of
           Inl e \<Rightarrow> (Inl e, d1)
         | Inr _ \<Rightarrow> (case stat_path var_directory d1 of (status, d2) \<Rightarrow>
             if parent_refused status then (Inl eperm, d2)
             else case make_path journal_directory mode_owner_all d2 of (made, d3) \<Rightarrow>
               (case made of
                  Inl e \<Rightarrow> if e \<noteq> eexist then (Inl e, d3) else enter_journal_directory d3
                | Inr _ \<Rightarrow> enter_journal_directory d3))))"

section \<open>Reading\<close>

definition record_file_name :: string where "record_file_name = ''recovery.state''"
definition maximum_record_size :: nat where "maximum_record_size = 256"

definition corrupt_record :: recovery_read_result where
  "corrupt_record = \<lparr>read_status = Recovery_Corrupt, read_record = None\<rparr>"
definition failed_record :: recovery_read_result where
  "failed_record = \<lparr>read_status = Recovery_Failure, read_record = None\<rparr>"
definition empty_record :: recovery_read_result where
  "empty_record = \<lparr>read_status = Recovery_Empty, read_record = None\<rparr>"

definition read_record_pass ::
  "nat \<Rightarrow> string \<times> journal_disk \<Rightarrow> string \<times> journal_disk + (string option) \<times> journal_disk" where
  "read_record_pass i = (\<lambda>(text, d).
     if \<not> length text < Suc maximum_record_size then Inr (Some text, d)
     else case read_inode i (length text) (Suc maximum_record_size - length text) d of (r, d1) \<Rightarrow>
       (case r of
          Inr [] \<Rightarrow> Inr (Some text, d1)
        | Inr part \<Rightarrow> Inl (text @ part, d1)
        | Inl e \<Rightarrow> if e \<noteq> eintr then Inr (None, d1) else Inl (text, d1)))"

definition record_file_ok :: "nat \<Rightarrow> journal_inode \<Rightarrow> bool" where
  "record_file_ok owner f \<longleftrightarrow>
     node_kind (inode_node f) = Regular_Node \<and> node_owner (inode_node f) = owner
     \<and> node_mode (inode_node f) AND mode_all = mode_owner_rw \<and> length (inode_content f) \<le> maximum_record_size"

definition judge_record :: "string option \<Rightarrow> recovery_read_result" where
  "judge_record text =
     (case text of
        None \<Rightarrow> failed_record
      | Some t \<Rightarrow>
          (if maximum_record_size < length t then corrupt_record
           else case parse_record t of
             None \<Rightarrow> corrupt_record
           | Some r \<Rightarrow> \<lparr>read_status = Recovery_Valid, read_record = Some r\<rparr>))"

text \<open>\<open>None\<close> when every read is interrupted for ever.\<close>

definition read_record_file :: "nat \<Rightarrow> journal_disk \<Rightarrow> (recovery_read_result \<times> journal_disk) option" where
  "read_record_file owner d =
     (case valid_directory owner d of (valid, d1) \<Rightarrow>
        if \<not> valid then Some (failed_record, d1)
        else case open_name record_file_name d1 of (opened, d2) \<Rightarrow>
          (case opened of
             Inl e \<Rightarrow> Some (if e = enoent then empty_record else failed_record, d2)
           | Inr i \<Rightarrow> (case stat_inode i d2 of (status, d3) \<Rightarrow>
               if (case status of Inl _ \<Rightarrow> True | Inr f \<Rightarrow> \<not> record_file_ok owner f)
               then Some (corrupt_record, d3)
               else map_option (\<lambda>(text, d4). (judge_record text, d4))
                      (iterate (read_record_pass i) ([], d3)))))"

section \<open>Writing and clearing\<close>

definition write_all_pass ::
  "nat \<Rightarrow> string \<times> journal_disk \<Rightarrow> string \<times> journal_disk + bool \<times> journal_disk" where
  "write_all_pass i = (\<lambda>(text, d).
     if text = [] then Inr (True, d)
     else case write_inode i text d of (r, d1) \<Rightarrow>
       (case r of
          Inr n \<Rightarrow> if 0 < n then Inl (drop n text, d1) else Inr (False, d1)
        | Inl e \<Rightarrow> if e = eintr then Inl (text, d1) else Inr (False, d1)))"

definition temporary_record_name :: "nat \<Rightarrow> nat \<Rightarrow> string" where
  "temporary_record_name pid attempt =
     ''.recovery.state.tmp.'' @ to_string_nat pid @ ''.'' @ to_string_nat attempt"

text \<open>The tries that are left; the result is the name and the file.\<close>

fun create_temporary :: "nat list \<Rightarrow> journal_disk \<Rightarrow> (string \<times> nat) option \<times> journal_disk" where
  "create_temporary [] d = (None, d)"
| "create_temporary (attempt # attempts) d =
     (let name = temporary_record_name (disk_pid d) attempt
      in case create_name name mode_owner_rw d of (created, d1) \<Rightarrow>
        (case created of
           Inr i \<Rightarrow> (Some (name, i), d1)
         | Inl e \<Rightarrow> if e \<noteq> eexist then (None, d1) else create_temporary attempts d1))"

text \<open>The mode, the content and the synchronisation of the new file; then its name.\<close>

definition fill_temporary :: "nat \<Rightarrow> string \<Rightarrow> journal_disk \<Rightarrow> (bool \<times> journal_disk) option" where
  "fill_temporary i content d =
     (case chmod_inode i mode_owner_rw d of (moded, d1) \<Rightarrow>
        (case moded of
           Inl _ \<Rightarrow> Some (False, d1)
         | Inr _ \<Rightarrow> (case iterate (write_all_pass i) (content, d1) of
             None \<Rightarrow> None
           | Some (False, d2) \<Rightarrow> Some (False, d2)
           | Some (True, d2) \<Rightarrow> (case sync_inode i d2 of (synced, d3) \<Rightarrow>
               Some (case synced of Inl _ \<Rightarrow> False | Inr _ \<Rightarrow> True, d3)))))"

definition publish_temporary :: "string \<Rightarrow> journal_disk \<Rightarrow> bool \<times> journal_disk" where
  "publish_temporary name d =
     (case rename_name name record_file_name d of (renamed, d1) \<Rightarrow>
        (case renamed of
           Inl _ \<Rightarrow> (False, d1)
         | Inr _ \<Rightarrow> (case sync_directory d1 of (synced, d2) \<Rightarrow>
             (case synced of Inl _ \<Rightarrow> False | Inr _ \<Rightarrow> True, d2))))"

definition discard_temporary :: "string \<Rightarrow> journal_disk \<Rightarrow> bool \<times> journal_disk" where
  "discard_temporary name d = (False, snd (unlink_name name d))"

definition store_content :: "string \<Rightarrow> journal_disk \<Rightarrow> (bool \<times> journal_disk) option" where
  "store_content content d =
     (case create_temporary [0..<16] d of (created, d1) \<Rightarrow>
        (case created of
           None \<Rightarrow> Some (False, d1)
         | Some (name, i) \<Rightarrow>
             (case fill_temporary i content d1 of
                None \<Rightarrow> None
              | Some (filled, d2) \<Rightarrow>
                  (if \<not> filled then Some (discard_temporary name d2)
                   else case publish_temporary name d2 of (published, d3) \<Rightarrow>
                     Some (if published then (True, d3) else discard_temporary name d3)))))"

definition write_record_file ::
  "nat \<Rightarrow> recovery_record \<Rightarrow> journal_disk \<Rightarrow> (bool \<times> journal_disk) option" where
  "write_record_file owner r d =
     (case serialize_record r of
        None \<Rightarrow> Some (False, d)
      | Some content \<Rightarrow>
          (case valid_directory owner d of (valid, d1) \<Rightarrow>
             if \<not> valid then Some (False, d1) else store_content content d1))"

definition clear_record_file :: "nat \<Rightarrow> journal_disk \<Rightarrow> bool \<times> journal_disk" where
  "clear_record_file owner d =
     (case valid_directory owner d of (valid, d1) \<Rightarrow>
        if \<not> valid then (False, d1)
        else case unlink_name record_file_name d1 of (removed, d2) \<Rightarrow>
          (if (case removed of Inl e \<Rightarrow> e \<noteq> enoent | Inr _ \<Rightarrow> False) then (False, d2)
           else case sync_directory d2 of (synced, d3) \<Rightarrow>
             (case synced of Inl _ \<Rightarrow> False | Inr _ \<Rightarrow> True, d3)))"

section \<open>The token\<close>

text \<open>\<open>getrandom\<close> on an unknown source: the bytes it gave, or an error number.\<close>

definition random_pass ::
  "(nat \<Rightarrow> 'w \<Rightarrow> (int + 8 word list) \<times> 'w) \<Rightarrow> 8 word list \<times> 'w \<Rightarrow> 8 word list \<times> 'w + (string option) \<times> 'w" where
  "random_pass getrandom = (\<lambda>(bytes, w).
     if \<not> length bytes < 16 then Inr (Some (token_of_bytes bytes), w)
     else case getrandom (16 - length bytes) w of (r, w1) \<Rightarrow>
       (case r of
          Inr [] \<Rightarrow> Inr (None, w1)
        | Inr part \<Rightarrow> Inl (bytes @ part, w1)
        | Inl e \<Rightarrow> if e = eintr then Inl (bytes, w1) else Inr (None, w1)))"

definition make_recovery_token ::
  "(nat \<Rightarrow> 'w \<Rightarrow> (int + 8 word list) \<times> 'w) \<Rightarrow> 'w \<Rightarrow> ((string option) \<times> 'w) option" where
  "make_recovery_token getrandom w = iterate (random_pass getrandom) ([], w)"

end
