(* ===== verification/Recovery_Files_Laws.thy ===== *)
theory Recovery_Files_Laws
  imports Recovery_Files
begin

text \<open>
  The recovery record survives a crash: whenever the machine stops while a record is written or
  cleared, what is read afterwards is the whole record from before or the whole new one.
\<close>

section \<open>What a crash leaves\<close>

text \<open>The directory may be any version since its last synchronisation; only files that were synced are
  sure to be what they were. The calls after the crash do not fail.\<close>

definition after_crash :: "journal_disk \<Rightarrow> journal_disk \<Rightarrow> bool" where
  "after_crash d e \<longleftrightarrow>
     disk_names e \<in> set (disk_names d # disk_unsettled d)
     \<and> (\<forall>i. inode_synced (disk_inodes d i) \<longrightarrow> disk_inodes e i = disk_inodes d i)
     \<and> disk_directories e = disk_directories d \<and> disk_user e = disk_user d \<and> disk_faults e = (\<lambda>_. Io_Done)"

definition record_inode :: "journal_disk \<Rightarrow> (string \<rightharpoonup> nat) \<Rightarrow> journal_inode option" where
  "record_inode d names = map_option (disk_inodes d) (names record_file_name)"

text \<open>Every version of the directory shows one of the files \<open>S\<close> as the record, and that file is safe.\<close>

definition record_safe :: "journal_inode option set \<Rightarrow> journal_disk \<Rightarrow> bool" where
  "record_safe S d \<longleftrightarrow>
     (\<forall>names \<in> set (disk_names d # disk_unsettled d). record_inode d names \<in> S
        \<and> (\<forall>i. names record_file_name = Some i \<longrightarrow> inode_synced (disk_inodes d i) \<and> i < disk_next d))"

text \<open>A file in use that no version of the directory shows as the record.\<close>

definition private_inode :: "nat \<Rightarrow> journal_disk \<Rightarrow> bool" where
  "private_inode i d \<longleftrightarrow>
     i < disk_next d \<and> (\<forall>names \<in> set (disk_names d # disk_unsettled d). names record_file_name \<noteq> Some i)"

definition seen_record :: "nat \<Rightarrow> journal_inode option \<Rightarrow> recovery_read_result" where
  "seen_record owner f =
     (case f of
        None \<Rightarrow> empty_record
      | Some f \<Rightarrow>
          (case open_node False (node_kind (inode_node f)) of
             Inl e \<Rightarrow> if e = enoent then empty_record else failed_record
           | Inr _ \<Rightarrow> if record_file_ok owner f then judge_record (Some (inode_content f)) else corrupt_record))"

section \<open>System calls\<close>

lemma io_call_result [simp]:
  "fst (io_call d) = disk_faults d (disk_calls d)" "snd (io_call d) = d\<lparr>disk_calls := Suc (disk_calls d)\<rparr>"
  by (simp_all add: io_call_def)

lemma record_safe_calls [simp]:
  "record_safe S (d\<lparr>disk_calls := n\<rparr>) = record_safe S d" "private_inode i (d\<lparr>disk_calls := n\<rparr>) = private_inode i d"
  by (simp_all add: record_safe_def private_inode_def record_inode_def)

lemma record_inode_other:
  "names record_file_name \<noteq> Some i \<Longrightarrow> record_inode (change_inode i f d) names = record_inode d names"
  by (cases "names record_file_name") (auto simp: record_inode_def change_inode_def)

lemma record_safe_inode:
  assumes "private_inode i d"
  shows "record_safe S (change_inode i f d) = record_safe S d" "private_inode i (change_inode i f d)"
proof -
  have same: "disk_names (change_inode i f d) = disk_names d" "disk_next (change_inode i f d) = disk_next d"
    "disk_unsettled (change_inode i f d) = disk_unsettled d"
    "\<And>k. k \<noteq> i \<Longrightarrow> disk_inodes (change_inode i f d) k = disk_inodes d k"
    by (simp_all add: change_inode_def)
  from assms show "private_inode i (change_inode i f d)" by (simp add: private_inode_def same)
  from assms have "record_inode (change_inode i f d) names = record_inode d names
      \<and> (names record_file_name = Some k \<longrightarrow> disk_inodes (change_inode i f d) k = disk_inodes d k)"
    if "names \<in> set (disk_names d # disk_unsettled d)" for names k
    using that record_inode_other [of names i f d] same(4) [of k] unfolding private_inode_def by blast
  then show "record_safe S (change_inode i f d) = record_safe S d"
    unfolding record_safe_def same by (metis (no_types, lifting))
qed

lemma record_safe_names:
  assumes "record_safe S d" "names record_file_name = disk_names d record_file_name"
  shows "record_safe S (change_names names d)" "private_inode i d \<Longrightarrow> private_inode i (change_names names d)"
  using assms by (auto simp: record_safe_def private_inode_def record_inode_def change_names_def)

lemma record_safe_publish:
  assumes "record_safe S d" "names record_file_name = Some i" "private_inode i d" "inode_synced (disk_inodes d i)"
    "Some (disk_inodes d i) \<in> S"
  shows "record_safe S (change_names names d)"
  using assms by (auto simp: record_safe_def private_inode_def record_inode_def change_names_def)

lemma record_safe_sync:
  "record_safe S d \<Longrightarrow> record_safe S (d\<lparr>disk_unsettled := []\<rparr>)"
  "private_inode i d \<Longrightarrow> private_inode i (d\<lparr>disk_unsettled := []\<rparr>)"
  by (auto simp: record_safe_def private_inode_def record_inode_def)

lemma record_safe_settled:
  "record_safe S d \<Longrightarrow> disk_unsettled d = [] \<Longrightarrow> record_safe {record_inode d (disk_names d)} d"
  by (auto simp: record_safe_def)

lemma temporary_name_differs [simp]: "temporary_record_name pid n \<noteq> record_file_name"
  by (simp add: temporary_record_name_def record_file_name_def)

definition same_settings :: "journal_disk \<Rightarrow> journal_disk \<Rightarrow> bool" where
  "same_settings d e \<longleftrightarrow> disk_directories e = disk_directories d \<and> disk_user e = disk_user d
     \<and> disk_faults e = disk_faults d \<and> disk_pid e = disk_pid d"

lemma same_settings_simps [simp]:
  "same_settings d (e\<lparr>disk_calls := n\<rparr>) = same_settings d e"
  "same_settings d (e\<lparr>disk_unsettled := u\<rparr>) = same_settings d e"
  "same_settings d (e\<lparr>disk_next := n\<rparr>) = same_settings d e"
  "same_settings d (change_inode i f e) = same_settings d e"
  "same_settings d (change_names names e) = same_settings d e"
  "same_settings d d"
  by (simp_all add: same_settings_def change_inode_def change_names_def)

lemma same_settings_trans: "same_settings d e \<Longrightarrow> same_settings e f \<Longrightarrow> same_settings d f"
  by (simp add: same_settings_def)

section \<open>The steps of a write\<close>

definition new_record_inode :: "nat \<Rightarrow> string \<Rightarrow> journal_inode" where
  "new_record_inode owner content =
     \<lparr>inode_node = \<lparr>node_kind = Regular_Node, node_owner = owner, node_mode = mode_owner_rw\<rparr>,
      inode_content = content, inode_synced = True\<rparr>"

definition new_file :: "string \<Rightarrow> nat \<Rightarrow> journal_disk \<Rightarrow> bool" where
  "new_file name i d \<longleftrightarrow> private_inode i d \<and> disk_names d name = Some i \<and> name \<noteq> record_file_name
     \<and> node_kind (inode_node (disk_inodes d i)) = Regular_Node
     \<and> node_owner (inode_node (disk_inodes d i)) = disk_user d"

lemma create_name_safe:
  assumes "record_safe S d" "name \<noteq> record_file_name"
  shows "record_safe S (snd (create_name name mode d)) \<and> same_settings d (snd (create_name name mode d))
    \<and> (\<forall>i. fst (create_name name mode d) = Inr i \<longrightarrow>
         new_file name i (snd (create_name name mode d)) \<and> inode_content (disk_inodes (snd (create_name name mode d)) i) = [])"
proof (cases "\<exists>e. disk_faults d (disk_calls d) = Io_Error e")
  case True
  with assms show ?thesis by (auto simp: create_name_def io_step_def case_prod_beta)
next
  case False
  let ?d = "d\<lparr>disk_calls := Suc (disk_calls d)\<rparr>" let ?n = "disk_next d"
  let ?f = "\<lambda>_. \<lparr>inode_node = \<lparr>node_kind = Regular_Node, node_owner = disk_user d, node_mode = masked mode (disk_umask d)\<rparr>,
                  inode_content = [], inode_synced = False\<rparr>"
  let ?e = "?d\<lparr>disk_next := Suc ?n\<rparr>"
  have p: "private_inode ?n ?e" "record_safe S ?e"
    using assms(1) by (force simp: private_inode_def record_safe_def record_inode_def)+
  from record_safe_inode(1) [OF p(1), of S ?f] record_safe_inode(2) [OF p(1), of ?f] p(2)
  have q: "record_safe S (change_inode ?n ?f ?e)" "private_inode ?n (change_inode ?n ?f ?e)" by simp_all
  from record_safe_names(1) [OF q(1), of "(disk_names d)(name \<mapsto> ?n)"]
    record_safe_names(2) [OF q(1) _ q(2), of "(disk_names d)(name \<mapsto> ?n)"] assms(2)
  have r: "record_safe S (change_names ((disk_names d)(name \<mapsto> ?n)) (change_inode ?n ?f ?e))"
    "private_inode ?n (change_names ((disk_names d)(name \<mapsto> ?n)) (change_inode ?n ?f ?e))"
    by (auto simp: change_inode_def)
  from False have c: "create_name name mode d = (if disk_names d name \<noteq> None then (Inl eexist, ?d)
      else (Inr ?n, change_names ((disk_names d)(name \<mapsto> ?n)) (change_inode ?n ?f ?e)))"
    by (auto simp: create_name_def io_step_def case_prod_beta split: io_fault.splits)
  show ?thesis
    using r assms by (simp add: c new_file_def) (simp add: change_names_def change_inode_def)
qed

lemma create_temporary_safe:
  assumes "record_safe S d"
  shows "record_safe S (snd (create_temporary ns d)) \<and> same_settings d (snd (create_temporary ns d))
    \<and> (\<forall>name i. fst (create_temporary ns d) = Some (name, i) \<longrightarrow>
         new_file name i (snd (create_temporary ns d)) \<and> inode_content (disk_inodes (snd (create_temporary ns d)) i) = [])"
  using assms
proof (induction ns arbitrary: d)
  case (Cons n ns)
  let ?name = "temporary_record_name (disk_pid d) n"
  obtain c d1 where c: "create_name ?name mode_owner_rw d = (c, d1)" by fastforce
  from create_name_safe [OF Cons.prems, of ?name mode_owner_rw] c
  have d1: "record_safe S d1" "same_settings d d1"
    "\<And>i. c = Inr i \<Longrightarrow> new_file ?name i d1 \<and> inode_content (disk_inodes d1 i) = []" by auto
  show ?case
    using d1 Cons.IH [OF d1(1)] same_settings_trans [OF d1(2)]
    by (auto simp: c Let_def split: sum.splits)
qed simp

section \<open>Filling the file\<close>

definition file_kept :: "nat \<Rightarrow> string \<Rightarrow> journal_disk \<Rightarrow> journal_disk \<Rightarrow> bool" where
  "file_kept i name d e \<longleftrightarrow> same_settings d e \<and> (new_file name i d \<longrightarrow> new_file name i e)
     \<and> (\<forall>S. new_file name i d \<longrightarrow> record_safe S d \<longrightarrow> record_safe S e)"

lemma file_kept_refl [simp]: "file_kept i name d d"
  by (simp add: file_kept_def)

lemma file_kept_trans: "file_kept i name d e \<Longrightarrow> file_kept i name e f \<Longrightarrow> file_kept i name d f"
  unfolding file_kept_def by (blast intro: same_settings_trans)

lemma file_kept_calls [simp]: "file_kept i name d (e\<lparr>disk_calls := n\<rparr>) = file_kept i name d e"
  by (simp add: file_kept_def new_file_def)

lemma file_kept_inode:
  assumes "\<And>f. node_kind (inode_node (g f)) = node_kind (inode_node f)"
    "\<And>f. node_owner (inode_node (g f)) = node_owner (inode_node f)"
  shows "file_kept i name d (change_inode i g d)"
  using assms record_safe_inode(1) [of i d _ g] record_safe_inode(2) [of i d g]
  by (simp add: file_kept_def new_file_def) (simp add: change_inode_def)

lemma file_kept_step:
  assumes "\<And>f. node_kind (inode_node (g f)) = node_kind (inode_node f)"
    "\<And>f. node_owner (inode_node (g f)) = node_owner (inode_node f)"
  shows "file_kept i name d (change_inode i g (d\<lparr>disk_calls := n\<rparr>))"
proof -
  have "file_kept i name (d\<lparr>disk_calls := n\<rparr>) (change_inode i g (d\<lparr>disk_calls := n\<rparr>))"
    using assms by (rule file_kept_inode)
  then show ?thesis by (rule file_kept_trans [rotated]) simp
qed

lemma write_all_ends:
  assumes "\<And>n. limit \<le> n \<Longrightarrow> disk_faults d n \<noteq> Io_Error eintr"
  shows "\<exists>ok e. iterate (write_all_pass i) (s, d) = Some (ok, e) \<and> file_kept i name d e
    \<and> inode_node (disk_inodes e i) = inode_node (disk_inodes d i)
    \<and> (ok \<longrightarrow> inode_content (disk_inodes e i) = inode_content (disk_inodes d i) @ s)"
  using assms
proof (induction "length s + (limit - disk_calls d)" arbitrary: s d rule: less_induct)
  case less
  show ?case
  proof (cases "s = []")
    case True
    then have "iterate (write_all_pass i) (s, d) = Some (True, d)"
      by (intro iterate_unfold(2)) (simp add: write_all_pass_def)
    with True show ?thesis by (intro exI [of _ True] exI [of _ d]) simp
  next
    case False
    obtain r d1 where w: "write_inode i s d = (r, d1)" by fastforce
    let ?grow = "\<lambda>k f. f\<lparr>inode_content := inode_content f @ take k s, inode_synced := False\<rparr>"
    from w have r: "(\<exists>e. disk_faults d (disk_calls d) = Io_Error e \<and> r = Inl e
          \<and> d1 = d\<lparr>disk_calls := Suc (disk_calls d)\<rparr>)
      \<or> (\<exists>k\<le>length s. r = Inr k \<and> d1 = change_inode i (?grow k) (d\<lparr>disk_calls := Suc (disk_calls d)\<rparr>))"
      by (auto simp: write_inode_def case_prod_beta Let_def io_count_def split: io_fault.splits)
    then have kept: "file_kept i name d d1" "disk_calls d1 = Suc (disk_calls d)" "disk_faults d1 = disk_faults d"
      "inode_node (disk_inodes d1 i) = inode_node (disk_inodes d i)"
      by (elim disjE exE conjE; simp add: file_kept_step; simp add: change_inode_def)+
    have more: "\<exists>ok e. iterate (write_all_pass i) (rest, d1) = Some (ok, e) \<and> file_kept i name d1 e
        \<and> inode_node (disk_inodes e i) = inode_node (disk_inodes d1 i)
        \<and> (ok \<longrightarrow> inode_content (disk_inodes e i) = inode_content (disk_inodes d1 i) @ rest)"
      if "length rest + (limit - disk_calls d1) < length s + (limit - disk_calls d)" for rest
      using less.hyps [OF that] less.prems by (simp add: kept(3))
    from r show ?thesis
    proof (elim disjE exE conjE)
      fix e assume e: "disk_faults d (disk_calls d) = Io_Error e" "r = Inl e"
        "d1 = d\<lparr>disk_calls := Suc (disk_calls d)\<rparr>"
      show ?thesis
      proof (cases "e = eintr")
        case True
        with e(1) less.prems [of "disk_calls d"] have "disk_calls d < limit" by (metis not_le)
        moreover from True e have "iterate (write_all_pass i) (s, d) = iterate (write_all_pass i) (s, d1)"
          by (intro iterate_unfold(1)) (simp add: write_all_pass_def w False)
        moreover from \<open>disk_calls d < limit\<close> kept(2) have
          "length s + (limit - disk_calls d1) < length s + (limit - disk_calls d)" by linarith
        from more [OF this] obtain ok f where
          "iterate (write_all_pass i) (s, d1) = Some (ok, f)" "file_kept i name d1 f"
          "inode_node (disk_inodes f i) = inode_node (disk_inodes d1 i)"
          "ok \<longrightarrow> inode_content (disk_inodes f i) = inode_content (disk_inodes d1 i) @ s" by auto
        moreover from e(3) have "disk_inodes d1 = disk_inodes d" by simp
        ultimately show ?thesis using file_kept_trans [OF kept(1)]
          by (intro exI [of _ ok] exI [of _ f]) simp
      next
        case notintr: False
        with e have "iterate (write_all_pass i) (s, d) = Some (False, d1)"
          by (intro iterate_unfold(2)) (simp add: write_all_pass_def w False)
        with kept show ?thesis by auto
      qed
    next
      fix k assume k: "k \<le> length s" "r = Inr k"
        "d1 = change_inode i (?grow k) (d\<lparr>disk_calls := Suc (disk_calls d)\<rparr>)"
      show ?thesis
      proof (cases "k = 0")
        case True
        with k have "iterate (write_all_pass i) (s, d) = Some (False, d1)"
          by (intro iterate_unfold(2)) (simp add: write_all_pass_def w False)
        with kept show ?thesis by auto
      next
        case positive: False
        with k have "iterate (write_all_pass i) (s, d) = iterate (write_all_pass i) (drop k s, d1)"
          by (intro iterate_unfold(1)) (simp add: write_all_pass_def w False)
        moreover from k(1) positive False kept(2) have
          "length (drop k s) + (limit - disk_calls d1) < length s + (limit - disk_calls d)" by auto
        moreover from k(3) have "inode_content (disk_inodes d1 i) = inode_content (disk_inodes d i) @ take k s"
          by (simp add: change_inode_def)
        moreover from calculation(2) more [of "drop k s"] obtain ok f where
          "iterate (write_all_pass i) (drop k s, d1) = Some (ok, f)" "file_kept i name d1 f"
          "inode_node (disk_inodes f i) = inode_node (disk_inodes d1 i)"
          "ok \<longrightarrow> inode_content (disk_inodes f i) = inode_content (disk_inodes d1 i) @ drop k s" by auto
        ultimately show ?thesis using kept(4) file_kept_trans [OF kept(1)]
          by (intro exI [of _ ok] exI [of _ f]) simp
      qed
    qed
  qed
qed

lemma step_result:
  assumes "io_step action d = (r, e)"
  obtains x where "r = Inl x" "e = d\<lparr>disk_calls := Suc (disk_calls d)\<rparr>"
  | "action (d\<lparr>disk_calls := Suc (disk_calls d)\<rparr>) = (r, e)"
  using assms by (auto simp: io_step_def case_prod_beta split: io_fault.splits)

lemma fill_ends:
  assumes "\<And>n. limit \<le> n \<Longrightarrow> disk_faults d n \<noteq> Io_Error eintr"
  shows "\<exists>ok e. fill_temporary i content d = Some (ok, e) \<and> file_kept i name d e
    \<and> (ok \<longrightarrow> new_file name i d \<longrightarrow> inode_content (disk_inodes d i) = [] \<longrightarrow>
         disk_inodes e i = new_record_inode (disk_user e) content)"
proof -
  obtain c d1 where c: "chmod_inode i mode_owner_rw d = (c, d1)" by fastforce
  let ?d = "d\<lparr>disk_calls := Suc (disk_calls d)\<rparr>"
  let ?g = "\<lambda>f. f\<lparr>inode_node := (inode_node f)\<lparr>node_mode := mode_owner_rw\<rparr>, inode_synced := False\<rparr>"
  have g: "file_kept i name d (change_inode i ?g ?d)" by (rule file_kept_step) simp_all
  from c [unfolded chmod_inode_def] have d1: "file_kept i name d d1" "disk_faults d1 = disk_faults d"
    "c = Inr () \<Longrightarrow> d1 = change_inode i ?g ?d" "disk_user d1 = disk_user d"
    by (rule step_result; use g in \<open>auto simp: change_inode_def\<close>)+
  obtain ok d2 where w: "iterate (write_all_pass i) (content, d1) = Some (ok, d2)" "file_kept i name d1 d2"
    "inode_node (disk_inodes d2 i) = inode_node (disk_inodes d1 i)"
    "ok \<longrightarrow> inode_content (disk_inodes d2 i) = inode_content (disk_inodes d1 i) @ content"
    using write_all_ends [of limit d1 i content name] assms d1(2) by auto
  obtain y d3 where y: "sync_inode i d2 = (y, d3)" by fastforce
  let ?d2 = "d2\<lparr>disk_calls := Suc (disk_calls d2)\<rparr>"
  have h: "file_kept i name d2 (change_inode i (\<lambda>f. f\<lparr>inode_synced := True\<rparr>) ?d2)"
    by (rule file_kept_step) simp_all
  from y [unfolded sync_inode_def] have d3: "file_kept i name d2 d3"
    "y = Inr () \<Longrightarrow> d3 = change_inode i (\<lambda>f. f\<lparr>inode_synced := True\<rparr>) ?d2"
    by (rule step_result; use h in auto)+
  have kept: "file_kept i name d d2" "file_kept i name d d3"
    using file_kept_trans [OF d1(1) w(2)] file_kept_trans [OF file_kept_trans [OF d1(1) w(2)] d3(1)] by simp_all
  have final: "disk_inodes d3 i = new_record_inode (disk_user d3) content"
    if "c = Inr ()" "ok" "y = Inr ()" "new_file name i d" "inode_content (disk_inodes d i) = []"
  proof -
    from kept(2) have user: "disk_user d3 = disk_user d" by (simp add: file_kept_def same_settings_def)
    from d1(3) that(1) have "inode_node (disk_inodes d1 i) = (inode_node (disk_inodes d i))\<lparr>node_mode := mode_owner_rw\<rparr>"
      "inode_content (disk_inodes d1 i) = inode_content (disk_inodes d i)" by (simp_all add: change_inode_def)
    moreover from d3(2) that(3) have "disk_inodes d3 i = (disk_inodes d2 i)\<lparr>inode_synced := True\<rparr>"
      by (simp add: change_inode_def)
    ultimately show ?thesis
      using that(2,4,5) w(3,4) user unfolding new_record_inode_def new_file_def by simp
  qed
  show ?thesis
  proof (cases c)
    case (Inl e)
    with c d1(1) show ?thesis by (auto simp: fill_temporary_def)
  next
    case (Inr u)
    show ?thesis
    proof (cases ok)
      case False
      with c Inr w kept show ?thesis by (auto simp: fill_temporary_def)
    next
      case True
      define good where "good = (case y of Inl _ \<Rightarrow> False | Inr _ \<Rightarrow> True)"
      from True c Inr w y have "fill_temporary i content d = Some (good, d3)"
        by (simp add: fill_temporary_def good_def)
      moreover have "good \<Longrightarrow> y = Inr ()" by (cases y) (simp_all add: good_def)
      moreover from Inr have "c = Inr ()" by simp
      ultimately show ?thesis using final True kept(2) by blast
    qed
  qed
qed

section \<open>The name of the file\<close>

lemma io_step_settings:
  assumes "\<And>e. same_settings e (snd (action e))"
  shows "same_settings d (snd (io_step action d))"
  using assms [of "d\<lparr>disk_calls := Suc (disk_calls d)\<rparr>"]
  by (auto simp: io_step_def case_prod_beta same_settings_def split: io_fault.splits)

lemma name_settings:
  "same_settings d (snd (unlink_name name d))" "same_settings d (snd (rename_name old new d))"
  "same_settings d (snd (sync_directory d))"
  unfolding unlink_name_def rename_name_def sync_directory_def
  by (rule io_step_settings; simp split: option.splits)+

lemma publish_settings: "publish_temporary name d = (ok, e) \<Longrightarrow> same_settings d e"
  using name_settings(2) [of d name record_file_name] name_settings(3)
  by (auto simp: publish_temporary_def case_prod_beta split: sum.splits intro: same_settings_trans)

lemma unlink_temporary_safe:
  assumes "record_safe S d" "name \<noteq> record_file_name"
  shows "record_safe S (snd (unlink_name name d))"
proof -
  obtain r e where u: "unlink_name name d = (r, e)" by fastforce
  let ?d = "d\<lparr>disk_calls := Suc (disk_calls d)\<rparr>"
  from assms have "record_safe S (change_names ((disk_names ?d)(name := None)) ?d)"
    by (intro record_safe_names) auto
  with u [unfolded unlink_name_def] assms(1) have "record_safe S e"
    by (elim step_result) (auto split: if_splits)
  with u show ?thesis by simp
qed

lemma publish_safe:
  assumes "record_safe S d" "new_file name i d" "disk_inodes d i = new_record_inode owner content"
    "Some (new_record_inode owner content) \<in> S" "publish_temporary name d = (ok, e)"
  shows "record_safe S e \<and> (ok \<longrightarrow> record_safe {Some (new_record_inode owner content)} e)"
proof -
  obtain r d1 where r: "rename_name name record_file_name d = (r, d1)" by fastforce
  let ?d = "d\<lparr>disk_calls := Suc (disk_calls d)\<rparr>"
  let ?names = "(disk_names d)(name := None, record_file_name \<mapsto> i)"
  from assms have "record_safe S (change_names ?names ?d)"
    by (intro record_safe_publish [where i = i]) (auto simp: new_file_def new_record_inode_def)
  with r [unfolded rename_name_def] assms(1,2) have d1: "record_safe S d1"
    "r = Inr () \<Longrightarrow> d1 = change_names ?names ?d"
    by (auto elim!: step_result simp: new_file_def)
  obtain y d2 where y: "sync_directory d1 = (y, d2)" by fastforce
  let ?d1 = "d1\<lparr>disk_calls := Suc (disk_calls d1)\<rparr>"
  from d1(1) have "record_safe S (?d1\<lparr>disk_unsettled := []\<rparr>)" by (intro record_safe_sync) simp
  with y [unfolded sync_directory_def] d1(1) have d2: "record_safe S d2"
    "y = Inr () \<Longrightarrow> d2 = ?d1\<lparr>disk_unsettled := []\<rparr>"
    by (auto elim!: step_result)
  have "record_inode d2 (disk_names d2) = Some (new_record_inode owner content)" if "r = Inr ()" "y = Inr ()"
    using that d1(2) d2(2) assms(3) by (simp add: record_inode_def change_names_def)
  with d2 record_safe_settled [OF d2(1)]
  have "record_safe {Some (new_record_inode owner content)} d2" if "r = Inr ()" "y = Inr ()"
    using that by simp
  with assms(5) r y d1 d2 show ?thesis
    by (cases r; cases y) (auto simp: publish_temporary_def)
qed

lemma store_safe:
  assumes "record_safe S d" "Some (new_record_inode (disk_user d) content) \<in> S"
    "\<And>n. limit \<le> n \<Longrightarrow> disk_faults d n \<noteq> Io_Error eintr"
  shows "\<exists>ok e. store_content content d = Some (ok, e) \<and> record_safe S e \<and> same_settings d e
    \<and> (ok \<longrightarrow> record_safe {Some (new_record_inode (disk_user d) content)} e)"
proof -
  obtain c d1 where c: "create_temporary [0..<16] d = (c, d1)" by fastforce
  from create_temporary_safe [OF assms(1), of "[0..<16]"] c have d1: "record_safe S d1" "same_settings d d1"
    "\<And>name i. c = Some (name, i) \<Longrightarrow> new_file name i d1 \<and> inode_content (disk_inodes d1 i) = []" by auto
  show ?thesis
  proof (cases c)
    case None
    with c d1 show ?thesis by (auto simp: store_content_def)
  next
    case (Some ni)
    then obtain name i where ni: "c = Some (name, i)" by (cases ni) auto
    from d1(2) assms(3) have quiet: "disk_faults d1 n \<noteq> Io_Error eintr" if "limit \<le> n" for n
      using that by (simp add: same_settings_def)
    from fill_ends [where limit = limit and i = i and content = content and name = name, OF quiet] obtain filled d2 where
      f: "fill_temporary i content d1 = Some (filled, d2)" "file_kept i name d1 d2"
        "filled \<Longrightarrow> disk_inodes d2 i = new_record_inode (disk_user d2) content"
      using d1(3) [OF ni] by auto
    with d1 ni have d2: "record_safe S d2" "new_file name i d2" "disk_user d2 = disk_user d"
      "name \<noteq> record_file_name"
      by (auto simp: file_kept_def same_settings_def new_file_def)
    from d1(2) f(2) have set: "same_settings d d2" by (auto simp: file_kept_def intro: same_settings_trans)
    note discard = unlink_temporary_safe [OF _ d2(4)] same_settings_trans [OF _ name_settings(1)]
    show ?thesis
    proof (cases filled)
      case False
      with c ni f discard(1) [OF d2(1)] discard(2) [OF set] show ?thesis by (auto simp: store_content_def discard_temporary_def)
    next
      case True
      obtain ok d3 where p: "publish_temporary name d2 = (ok, d3)" by fastforce
      from publish_safe [OF d2(1,2) _ _ p] f(3) True d2(3) assms(2)
      have "record_safe S d3" "ok \<Longrightarrow> record_safe {Some (new_record_inode (disk_user d) content)} d3" by auto
      moreover have "same_settings d d3" using same_settings_trans [OF set publish_settings [OF p]] .
      ultimately show ?thesis using c ni f p True discard(1) [of S d3] discard(2) [of d d3]
        by (cases ok) (auto simp: store_content_def discard_temporary_def)
    qed
  qed
qed

section \<open>Reading after a crash\<close>

lemma quiet_step: "disk_faults d = (\<lambda>_. Io_Done) \<Longrightarrow> io_step action d = action (d\<lparr>disk_calls := Suc (disk_calls d)\<rparr>)"
  by (simp add: io_step_def case_prod_beta)

lemma quiet_reads:
  assumes "disk_faults d = (\<lambda>_. Io_Done)" "length (inode_content (disk_inodes d i)) \<le> maximum_record_size"
  shows "\<exists>e. iterate (read_record_pass i) ([], d) = Some (Some (inode_content (disk_inodes d i)), e)"
proof (cases "inode_content (disk_inodes d i)")
  case Nil
  have "iterate (read_record_pass i) ([], d) = Some (Some [], d\<lparr>disk_calls := Suc (disk_calls d)\<rparr>)"
    by (intro iterate_unfold(2)) (simp add: read_record_pass_def read_inode_def case_prod_beta assms(1) Nil)
  with Nil show ?thesis by simp
next
  case (Cons c cs)
  let ?t = "inode_content (disk_inodes d i)" let ?d = "d\<lparr>disk_calls := Suc (disk_calls d)\<rparr>"
  from assms(2) Cons have n: "length cs < maximum_record_size" "length cs \<le> maximum_record_size" by simp_all
  from assms(2) have t: "take (Suc maximum_record_size) ?t = ?t" by simp
  have "iterate (read_record_pass i) ([], d) = iterate (read_record_pass i) (?t, ?d)"
    using n by (intro iterate_unfold(1))
      (simp add: read_record_pass_def read_inode_def case_prod_beta assms(1) io_count_def t Let_def Cons split: list.splits)
  also have "\<dots> = Some (Some ?t, ?d\<lparr>disk_calls := Suc (disk_calls ?d)\<rparr>)"
    using n by (intro iterate_unfold(2))
      (simp add: read_record_pass_def read_inode_def case_prod_beta assms(1) Let_def Cons)
  finally show ?thesis by simp
qed

lemma quiet_record:
  assumes "disk_faults d = (\<lambda>_. Io_Done)" "disk_directories d journal_directory = Some node"
    "owned_private_directory owner node"
  shows "map_option fst (read_record_file owner d) = Some (seen_record owner (record_inode d (disk_names d)))"
proof -
  have valid: "valid_directory owner d = (True, d\<lparr>disk_calls := Suc (disk_calls d)\<rparr>)"
    using assms by (simp add: valid_directory_def stat_path_def quiet_step)
  show ?thesis
  proof (cases "disk_names d record_file_name")
    case None
    with valid assms(1) show ?thesis
      by (simp add: read_record_file_def open_name_def quiet_step record_inode_def seen_record_def)
  next
    case (Some i)
    let ?f = "disk_inodes d i"
    show ?thesis
    proof (cases "record_file_ok owner ?f")
      case True
      let ?e = "d\<lparr>disk_calls := Suc (Suc (Suc (disk_calls d)))\<rparr>"
      from True have "length (inode_content (disk_inodes ?e i)) \<le> maximum_record_size"
        "node_kind (inode_node ?f) = Regular_Node"
        by (simp_all add: record_file_ok_def)
      with quiet_reads [of ?e i] valid assms(1) Some True show ?thesis
        by (auto simp: read_record_file_def open_name_def stat_inode_def quiet_step record_inode_def seen_record_def)
    next
      case False
      with valid assms(1) Some show ?thesis
        by (cases "open_node False (node_kind (inode_node ?f))")
          (auto simp: read_record_file_def open_name_def stat_inode_def quiet_step record_inode_def seen_record_def)
    qed
  qed
qed

lemma after_crash_record:
  assumes "after_crash d e" "record_safe S d" "disk_directories d journal_directory = Some node"
    "owned_private_directory owner node"
  shows "map_option fst (read_record_file owner e) \<in> Some ` seen_record owner ` S" "disk_user e = disk_user d"
proof -
  from assms(1) have e: "disk_names e \<in> set (disk_names d # disk_unsettled d)"
    "\<And>i. inode_synced (disk_inodes d i) \<Longrightarrow> disk_inodes e i = disk_inodes d i"
    "disk_directories e = disk_directories d" "disk_faults e = (\<lambda>_. Io_Done)"
    unfolding after_crash_def by blast+
  from assms(2) e(1) have r: "record_inode d (disk_names e) \<in> S"
    "\<And>i. disk_names e record_file_name = Some i \<Longrightarrow> inode_synced (disk_inodes d i)"
    unfolding record_safe_def by blast+
  have "record_inode e (disk_names e) = record_inode d (disk_names e)"
    using r(2) e(2) by (cases "disk_names e record_file_name") (auto simp: record_inode_def)
  with quiet_record [of e node owner] e(3,4) assms(3,4) r(1)
  show "map_option fst (read_record_file owner e) \<in> Some ` seen_record owner ` S" by simp
  from assms(1) show "disk_user e = disk_user d" unfolding after_crash_def by blast
qed

section \<open>Records and crashes\<close>

definition settled_journal :: "journal_disk \<Rightarrow> bool" where
  "settled_journal d \<longleftrightarrow> record_safe {record_inode d (disk_names d)} d"

definition quiet_disk :: "journal_disk \<Rightarrow> journal_disk" where
  "quiet_disk d = d\<lparr>disk_faults := (\<lambda>_. Io_Done)\<rparr>"

definition record_now :: "journal_disk \<Rightarrow> recovery_read_result option" where
  "record_now d = map_option fst (read_record_file (disk_user d) d)"

definition recorded :: "recovery_record \<Rightarrow> recovery_read_result option" where
  "recorded r = Some \<lparr>read_status = Recovery_Valid, read_record = Some r\<rparr>"

lemma serialized_size: "serialize_record r = Some content \<Longrightarrow> length content \<le> maximum_record_size"
  by (cases "recovery_backend r"; cases "recovery_phase r")
    (auto simp: serialize_record_def valid_recovery_token_def maximum_record_size_def split: if_splits)

lemma mode_owner_rw_bits: "mode_owner_rw AND mode_all = mode_owner_rw"
  by (simp add: mode_owner_rw_def mode_all_def)

lemma seen_new_record:
  "serialize_record r = Some content \<Longrightarrow>
     Some (seen_record owner (Some (new_record_inode owner content))) = recorded r"
  using serialized_size [of r content] parse_serialize [of r content]
  by (auto simp: seen_record_def new_record_inode_def record_file_ok_def mode_owner_rw_bits judge_record_def
      recorded_def)

lemma record_now_quiet:
  assumes "disk_directories d journal_directory = Some node" "owned_private_directory (disk_user d) node"
  shows "record_now (quiet_disk d) = Some (seen_record (disk_user d) (record_inode d (disk_names d)))"
  using quiet_record [of "quiet_disk d" node "disk_user d"] assms
  by (simp add: record_now_def quiet_disk_def record_inode_def)

lemma valid_directory_settings:
  assumes "valid_directory owner d = (v, e)"
  shows "e = d\<lparr>disk_calls := Suc (disk_calls d)\<rparr>"
  using assms by (auto simp: valid_directory_def stat_path_def io_step_def case_prod_beta split: io_fault.splits)

lemma record_safe_mono: "record_safe S d \<Longrightarrow> S \<subseteq> T \<Longrightarrow> record_safe T d"
  unfolding record_safe_def by blast

lemma record_safe_gone:
  assumes "record_safe S d" "None \<in> S" "names record_file_name = None"
  shows "record_safe S (change_names names d)"
  using assms by (auto simp: record_safe_def record_inode_def change_names_def)

lemma clear_safe:
  assumes "record_safe {old} d" "\<And>n. disk_faults d n \<noteq> Io_Error enoent" "clear_record_file owner d = (ok, e)"
  shows "record_safe {old, None} e \<and> (ok \<longrightarrow> record_safe {None} e)"
proof -
  obtain v d1 where v: "valid_directory owner d = (v, d1)" by fastforce
  with valid_directory_settings have d1: "d1 = d\<lparr>disk_calls := Suc (disk_calls d)\<rparr>" by blast
  have both: "record_safe {old, None} d1" using record_safe_mono [OF assms(1)] d1 by simp
  obtain u d2 where u: "unlink_name record_file_name d1 = (u, d2)" by fastforce
  let ?d1 = "d1\<lparr>disk_calls := Suc (disk_calls d1)\<rparr>"
  have gone: "record_safe {old, None} d2 \<and> (u = Inr () \<or> u = Inl enoent \<longrightarrow> disk_names d2 record_file_name = None)"
  proof (cases "\<exists>x. disk_faults d1 (disk_calls d1) = Io_Error x")
    case True
    with u both assms(2) [of "disk_calls d1"] d1 show ?thesis
      by (auto simp: unlink_name_def io_step_def case_prod_beta)
  next
    case False
    then have step: "io_step action d1 = action ?d1" for action :: "journal_disk \<Rightarrow> (int + unit) \<times> journal_disk"
      by (auto simp: io_step_def case_prod_beta split: io_fault.splits)
    have "record_safe {old, None} (change_names ((disk_names ?d1)(record_file_name := None)) ?d1)"
      using both by (intro record_safe_gone) auto
    with u both show ?thesis
      by (cases "disk_names d1 record_file_name") (auto simp: unlink_name_def step change_names_def)
  qed
  obtain y d3 where y: "sync_directory d2 = (y, d3)" by fastforce
  let ?d2 = "d2\<lparr>disk_calls := Suc (disk_calls d2)\<rparr>"
  from gone have "record_safe {old, None} (?d2\<lparr>disk_unsettled := []\<rparr>)" by (intro record_safe_sync) simp
  with y [unfolded sync_directory_def] gone have d3: "record_safe {old, None} d3"
    "y = Inr () \<Longrightarrow> d3 = ?d2\<lparr>disk_unsettled := []\<rparr>"
    by (auto elim!: step_result)
  have "record_safe {None} d3" if "y = Inr ()" "u = Inr () \<or> u = Inl enoent"
    using record_safe_settled [OF d3(1)] d3(2) [OF that(1)] that(2) gone by (simp add: record_inode_def)
  with v u y both gone d3(1) assms(3) show ?thesis
    by (cases u; cases y) (auto simp: clear_record_file_def split: if_splits)
qed

lemma write_safe:
  assumes "settled_journal d" "\<And>n. limit \<le> n \<Longrightarrow> disk_faults d n \<noteq> Io_Error eintr"
    "serialize_record r = Some content"
  shows "\<exists>ok e. write_record_file (disk_user d) r d = Some (ok, e) \<and> same_settings d e
    \<and> record_safe {record_inode d (disk_names d), Some (new_record_inode (disk_user d) content)} e
    \<and> (ok \<longrightarrow> record_safe {Some (new_record_inode (disk_user d) content)} e)"
proof -
  let ?old = "record_inode d (disk_names d)" let ?new = "Some (new_record_inode (disk_user d) content)"
  obtain v d1 where v: "valid_directory (disk_user d) d = (v, d1)" by fastforce
  with valid_directory_settings have d1: "d1 = d\<lparr>disk_calls := Suc (disk_calls d)\<rparr>" by blast
  from assms(1) have safe: "record_safe {?old, ?new} d1"
    unfolding settled_journal_def d1 record_safe_calls by (rule record_safe_mono) simp
  from store_safe [OF safe, of content limit] assms(2) d1 obtain ok e where
    "store_content content d1 = Some (ok, e)" "record_safe {?old, ?new} e" "ok \<longrightarrow> record_safe {?new} e"
    "same_settings d1 e"
    by auto
  with assms(3) v safe d1 show ?thesis by (cases v) (auto simp: write_record_file_def same_settings_def)
qed

lemma clear_settings: "same_settings d (snd (clear_record_file owner d))"
proof -
  obtain v d1 where v: "valid_directory owner d = (v, d1)" by fastforce
  with valid_directory_settings have "same_settings d d1" by fastforce
  with v name_settings(1) [of d1] name_settings(3) show ?thesis
    by (auto simp: clear_record_file_def case_prod_beta intro!: same_settings_trans [OF _ name_settings(3)]
        intro: same_settings_trans)
qed

text \<open>C35: whenever the machine stops while a record is written or cleared, and whatever fails before,
  what is read after the crash is all of the old record or all of the new one, and the new one when the
  call had reported success.\<close>

theorem journal_survives_crash:
  assumes "disk_directories d journal_directory = Some node" "owned_private_directory (disk_user d) node"
    and "settled_journal d" "\<And>n. limit \<le> n \<Longrightarrow> disk_faults d n \<noteq> Io_Error eintr"
    and "\<And>n. disk_faults d n \<noteq> Io_Error enoent"
  shows "(\<exists>ok e. write_record_file (disk_user d) r d = Some (ok, e)
      \<and> (\<forall>f. after_crash e f \<longrightarrow> record_now f \<in> {recorded r, record_now (quiet_disk d)}
           \<and> (ok \<longrightarrow> record_now f = recorded r)))
    \<and> (\<forall>ok e f. clear_record_file (disk_user d) d = (ok, e) \<longrightarrow> after_crash e f \<longrightarrow>
      record_now f \<in> {Some empty_record, record_now (quiet_disk d)} \<and> (ok \<longrightarrow> record_now f = Some empty_record))"
proof -
  let ?old = "record_inode d (disk_names d)"
  note now = record_now_quiet [OF assms(1,2)]
  have read: "record_now f \<in> Some ` seen_record (disk_user d) ` S"
    if "after_crash e f" "record_safe S e" "same_settings d e" for e f S
  proof -
    from that(3) assms(1,2) have "disk_directories e journal_directory = Some node" "disk_user e = disk_user d"
      by (simp_all add: same_settings_def)
    with after_crash_record [OF that(1,2)] assms(2) show ?thesis by (simp add: record_now_def)
  qed
  have written: "\<exists>ok e. write_record_file (disk_user d) r d = Some (ok, e)
      \<and> (\<forall>f. after_crash e f \<longrightarrow> record_now f \<in> {recorded r, record_now (quiet_disk d)}
           \<and> (ok \<longrightarrow> record_now f = recorded r))"
  proof (cases "serialize_record r")
    case None
    have safe: "record_safe {?old} d" using assms(3) by (simp add: settled_journal_def)
    have "record_now f = record_now (quiet_disk d)" if "after_crash d f" for f
      using read [OF that safe] now by simp
    with None show ?thesis by (auto simp: write_record_file_def)
  next
    case (Some content)
    note new = seen_new_record [OF Some, of "disk_user d"]
    from write_safe [OF assms(3,4) Some] obtain ok e where
      w: "write_record_file (disk_user d) r d = Some (ok, e)" "same_settings d e"
        "record_safe {?old, Some (new_record_inode (disk_user d) content)} e"
        "ok \<longrightarrow> record_safe {Some (new_record_inode (disk_user d) content)} e" by blast
    have "record_now f \<in> {recorded r, record_now (quiet_disk d)} \<and> (ok \<longrightarrow> record_now f = recorded r)"
      if "after_crash e f" for f
      using read [OF that w(3,2)] read [OF that _ w(2), of "{Some (new_record_inode (disk_user d) content)}"] w(4) now new
      by auto
    with w(1) show ?thesis by blast
  qed
  have "record_now f \<in> {Some empty_record, record_now (quiet_disk d)} \<and> (ok \<longrightarrow> record_now f = Some empty_record)"
    if c: "clear_record_file (disk_user d) d = (ok, e)" and f: "after_crash e f" for ok e f
  proof -
    from clear_settings [of d "disk_user d"] c have set: "same_settings d e" by simp
    from clear_safe [OF assms(3) [unfolded settled_journal_def] assms(5) c]
    have "record_safe {?old, None} e" "ok \<longrightarrow> record_safe {None} e" by blast+
    moreover have "seen_record (disk_user d) None = empty_record" by (simp add: seen_record_def)
    ultimately show ?thesis using read [OF f _ set, of "{?old, None}"] read [OF f _ set, of "{None}"] now by auto
  qed
  with written show ?thesis by blast
qed

definition demo_disk :: journal_disk where
  "demo_disk = \<lparr>disk_inodes = (\<lambda>_. new_record_inode 0 []), disk_next = 0, disk_names = Map.empty,
     disk_unsettled = [],
     disk_directories = [journal_directory \<mapsto> \<lparr>node_kind = Directory_Node, node_owner = 0, node_mode = mode_owner_all\<rparr>],
     disk_user = 0, disk_umask = 18, disk_pid = 700, disk_faults = (\<lambda>n. if n < 5 then Io_Done else Io_Error 5),
     disk_calls = 0\<rparr>"

definition demo_record :: recovery_record where
  "demo_record = \<lparr>recovery_backend = Backend_Ufw, recovery_phase = Phase_Applied,
     recovery_token = replicate 32 (CHR ''a'')\<rparr>"

theorem journal_survives_crash_witness:
  "\<exists>ok e. write_record_file 0 demo_record demo_disk = Some (ok, e)
     \<and> record_now (quiet_disk e) \<in> {recorded demo_record, Some empty_record}"
proof -
  let ?node = "\<lparr>node_kind = Directory_Node, node_owner = 0, node_mode = mode_owner_all\<rparr>"
  have node: "disk_directories demo_disk journal_directory = Some ?node"
    "owned_private_directory (disk_user demo_disk) ?node"
    by (simp_all add: demo_disk_def owned_private_directory_def mode_owner_all_def mode_all_def)
  have settled: "settled_journal demo_disk" by (simp add: settled_journal_def record_safe_def demo_disk_def)
  have faults: "disk_faults demo_disk n \<noteq> Io_Error eintr" "disk_faults demo_disk n \<noteq> Io_Error enoent" for n
    by (simp_all add: demo_disk_def eintr_def enoent_def)
  have "record_now (quiet_disk demo_disk) = Some empty_record"
    unfolding record_now_quiet [OF node] by (simp add: demo_disk_def record_inode_def seen_record_def)
  with journal_survives_crash [OF node settled faults(1,2), of demo_record] obtain ok e where
    "write_record_file 0 demo_record demo_disk = Some (ok, e)"
    "after_crash e (quiet_disk e) \<longrightarrow> record_now (quiet_disk e) \<in> {recorded demo_record, Some empty_record}"
    by (auto simp: demo_disk_def)
  moreover have "after_crash e (quiet_disk e)" by (simp add: after_crash_def quiet_disk_def)
  ultimately show ?thesis by blast
qed

end
