(* ===== verification/Session_Start.thy ===== *)
theory Session_Start
  imports Launcher Workload_Context Session_Outcome
begin

text \<open>
  The start and end of the supervisor: \<open>run_session\<close> of \<open>src/session.cpp\<close> with its signal pipe, and
  \<open>spawn_helper\<close>. The state is the files of the host and an abstract world; the lifecycle that runs
  in between is a parameter, with the adapter it is given.
\<close>

section \<open>The signal pipe\<close>

datatype pipe_read = Pipe_Markers nat | Pipe_Interrupted | Pipe_Stops

definition interrupt_pass :: "('w \<Rightarrow> pipe_read \<times> 'w) \<Rightarrow> nat \<times> 'w \<Rightarrow> (nat \<times> 'w) + (nat \<times> 'w)" where
  "interrupt_pass pipe = (\<lambda>(count, w).
     case pipe w of
       (Pipe_Markers n, w1) \<Rightarrow> Inl (count + n, w1)
     | (Pipe_Interrupted, w1) \<Rightarrow> Inl (count, w1)
     | (Pipe_Stops, w1) \<Rightarrow> Inr (count, w1))"

definition take_interrupt_count :: "('w \<Rightarrow> pipe_read \<times> 'w) \<Rightarrow> 'w \<Rightarrow> (nat \<times> 'w) option" where
  "take_interrupt_count pipe w = iterate (interrupt_pass pipe) (0, w)"

section \<open>The supervisor\<close>

type_synonym 'w session_state = "file_host \<times> 'w"

record 'w supervisor_world =
  rs_current_path :: "string option"
  rs_environ :: "string list"
  rs_runtime :: "string option"
  rs_readlink :: "int + string"
  rs_pid :: int
  rs_stat_file :: "int \<Rightarrow> string option"
  rs_pipe :: "'w \<Rightarrow> (int + unit) \<times> 'w"
  rs_sigaction :: "'w \<Rightarrow> (int + unit) \<times> 'w"
  rs_spawn :: "string list \<Rightarrow> 'w \<Rightarrow> (int + int) \<times> 'w"
  rs_launcher :: "int \<Rightarrow> 'w launcher_world"
  rs_lifecycle :: "string \<Rightarrow> int \<Rightarrow> 'w session_state \<Rightarrow> (session_outcome \<times> 'w session_state) option"
  rs_is_terminal :: bool
  rs_write :: "string \<Rightarrow> 'w \<Rightarrow> 'w"
  rs_strerror :: "int \<Rightarrow> string"

definition create_signal_pipe :: "'w supervisor_world \<Rightarrow> 'w \<Rightarrow> (string + unit) \<times> 'w" where
  "create_signal_pipe rs w =
     (case rs_pipe rs w of
        (Inl e, w1) \<Rightarrow>
          (Inl (''NetLagLab: failed to create signal self-pipe: '' @ rs_strerror rs e @ [newline]), w1)
      | (Inr _, w1) \<Rightarrow>
          (case rs_sigaction rs w1 of
             (Inl e, w2) \<Rightarrow>
               (Inl (''NetLagLab: failed to install SIGINT handler: '' @ rs_strerror rs e @ [newline]), w2)
           | (Inr _, w2) \<Rightarrow> (Inr (), w2)))"

definition spawn_helper :: "'w supervisor_world \<Rightarrow> session_paths \<Rightarrow> 'w \<Rightarrow> (string + int) \<times> 'w" where
  "spawn_helper rs paths w =
     (case resolve_helper_executable_path (rs_strerror rs) (rs_readlink rs) of
        Inl t \<Rightarrow> (Inl t, w)
      | Inr helper_path \<Rightarrow>
          (case read_process_status (rs_stat_file rs) (rs_pid rs) of
             None \<Rightarrow> (Inl (refusal ''failed to read Supervisor process identity''), w)
           | Some status \<Rightarrow>
               (case rs_spawn rs (spawn_arguments helper_path (xdg_runtime_directory paths) (rs_pid rs)
                       (start_time_ticks status)) w of
                  (Inl e, w1) \<Rightarrow>
                    (Inl (''NetLagLab: failed to launch privileged helper: '' @ rs_strerror rs e @ [newline]), w1)
                | (Inr pid, w1) \<Rightarrow> (Inr pid, w1))))"

definition privileges_notice :: string where
  "privileges_notice = ''NetLagLab: root privileges are required for the isolated Session helper. The helper may separately request confirmation for an exact temporary firewall exception.''
     @ [newline]"

definition refuse_session :: "'w supervisor_world \<Rightarrow> string \<Rightarrow> 'w session_state \<Rightarrow> int \<times> 'w session_state" where
  "refuse_session rs t = (\<lambda>(h, w). (125, h, rs_write rs t w))"

text \<open>The launcher is reaped whatever came of the helper.\<close>

definition reap_and_refuse ::
  "'w supervisor_world \<Rightarrow> int \<Rightarrow> string \<Rightarrow> 'w session_state \<Rightarrow> (int \<times> 'w session_state) option" where
  "reap_and_refuse rs pid t = (\<lambda>(h, w).
     Option.bind (reap_helper_launcher (rs_launcher rs pid) (rs_write rs t w)) (\<lambda>((_, t1), w1).
       Some (125, h, if t1 = [] then w1 else rs_write rs t1 w1)))"

text \<open>From a launched helper to the exit status.\<close>

definition run_with_helper ::
  "'w supervisor_world \<Rightarrow> session_paths \<Rightarrow> string \<Rightarrow> int \<Rightarrow> 'w session_state
     \<Rightarrow> (int \<times> 'w session_state) option" where
  "run_with_helper rs paths start_block pid = (\<lambda>(h, w).
     Option.bind (wait_for_helper_connection (rs_launcher rs pid) w) (\<lambda>(connected, w1).
       case connected of
         Inl t \<Rightarrow> reap_and_refuse rs pid t (h, w1)
       | Inr _ \<Rightarrow>
           (case remove_stale (control_socket_owner paths (host_euid h)) h of
              (Inl t, h1) \<Rightarrow> reap_and_refuse rs pid t (h1, w1)
            | (Inr _, h1) \<Rightarrow>
                Option.bind (rs_lifecycle rs start_block pid (h1, w1)) (\<lambda>(outcome, h2, w2).
                  Some (session_exit_status outcome, h2,
                    rs_write rs (report_session_outcome (rs_is_terminal rs) outcome) w2)))))"

text \<open>The lock goes with its descriptor.\<close>

definition release_lock :: "session_paths \<Rightarrow> int \<times> 'w session_state \<Rightarrow> int \<times> 'w session_state" where
  "release_lock paths = (\<lambda>(status, h, w). (status, h\<lparr>host_locks := host_locks h - {lock_file paths}\<rparr>, w))"

text \<open>What follows the lock.\<close>

definition run_locked_session ::
  "'w supervisor_world \<Rightarrow> session_paths \<Rightarrow> string \<Rightarrow> 'w session_state \<Rightarrow> (int \<times> 'w session_state) option" where
  "run_locked_session rs paths start_block = (\<lambda>(h, w).
     case create_signal_pipe rs w of
       (Inl t, w1) \<Rightarrow> Some (refuse_session rs t (h, w1))
     | (Inr _, w1) \<Rightarrow>
         (case spawn_helper rs paths (rs_write rs privileges_notice w1) of
            (Inl t, w2) \<Rightarrow> Some (refuse_session rs t (h, w2))
          | (Inr pid, w2) \<Rightarrow> run_with_helper rs paths start_block pid (h, w2)))"

definition run_session ::
  "'w supervisor_world \<Rightarrow> string list \<Rightarrow> 'w session_state \<Rightarrow> (int \<times> 'w session_state) option" where
  "run_session rs child_arguments = (\<lambda>(h, w).
     case capture_workload_context child_arguments (rs_current_path rs) (rs_environ rs) of
       None \<Rightarrow> Some (refuse_session rs (refusal ''failed to capture bounded Workload execution context'') (h, w))
     | Some context \<Rightarrow>
         (case serialize_start_block context of
            None \<Rightarrow> Some (refuse_session rs (refusal ''Workload execution context exceeds protocol limits'') (h, w))
          | Some start_block \<Rightarrow>
              (case make_session_paths_from_environment (rs_runtime rs) of
                 Inl t \<Rightarrow> Some (refuse_session rs t (h, w))
               | Inr paths \<Rightarrow>
                   (case prepare_session_files paths h of
                      (Inl t, h1) \<Rightarrow> Some (refuse_session rs t (h1, w))
                    | (Inr _, h1) \<Rightarrow>
                        map_option (release_lock paths) (run_locked_session rs paths start_block (h1, w))))))"

section \<open>The end of the adapter\<close>

text \<open>
  \<open>finalize\<close> closes the listening socket and removes its path; \<open>reap_launcher\<close> is
  \<open>reap_helper_launcher\<close> after the socket of the helper is closed.
\<close>

definition finalize_session ::
  "socket_path_owner \<Rightarrow> file_host \<Rightarrow> (bool \<times> string) \<times> socket_path_owner \<times> file_host" where
  "finalize_session o1 h =
     (let h1 = h\<lparr>host_listeners := host_listeners h - {owner_socket_path o1}\<rparr>
      in case remove_owned o1 h1 of (e, o2, h2) \<Rightarrow>
           ((e = 0, if e \<noteq> 0 then failed_text h2 ''failed to remove control.sock'' e else []), o2, h2))"

lemma finalize_removes:
  assumes "finalize_session o1 h = ((ok, message), o2, h1)" "owner_owned o1" "host_faults h = Map.empty"
  shows "ok" "message = []" "host_nodes h1 (socket_node_path o1) = None" "\<not> owner_owned o2"
    "owner_socket_path o1 \<notin> host_listeners h1"
  using assms
  by (auto simp: finalize_session_def remove_owned_def unlink_node_def call_result_def Let_def enoent_def
      split: option.splits prod.splits sum.splits if_splits)

end
