(* ===== verification/Conversation_Laws.thy ===== *)
theory Conversation_Laws
  imports Helper_Conversations
begin

text \<open>
  What the conversations of \<open>src/helper_protocol.cpp\<close> guarantee: the order of the events
  the supervisor sees, the one Profile Change in flight, the independence of the reads, and the
  exchange of a change between the two ends.
\<close>

section \<open>The supervisor's conversation as a line receiver\<close>

definition supervisor_run ::
  "supervisor_conversation \<Rightarrow> supervisor_conversation \<times> helper_conversation_event list" where
  "supervisor_run s = supervisor_loop s []"

definition supervisor_overflow ::
  "supervisor_conversation \<Rightarrow> supervisor_conversation \<times> helper_conversation_event list" where
  "supervisor_overflow s = supervisor_lost s []"

definition supervisor_take ::
  "supervisor_conversation \<Rightarrow> string
     \<Rightarrow> supervisor_conversation \<times> helper_conversation_event list" where
  "supervisor_take s line =
     (case supervisor_line s line of
        (s1, None) \<Rightarrow> supervisor_lost s1 []
      | (s1, Some event) \<Rightarrow>
          (if su_state s1 = Failed then (s1\<lparr>su_buffer := []\<rparr>, [event]) else (s1, [event])))"

lemma supervisor_loop_acc:
  "supervisor_loop s (pre @ events) = (case supervisor_loop s events of (s', es) \<Rightarrow> (s', pre @ es))"
proof (induction s events rule: supervisor_loop.induct)
  case (1 s events)
  let ?n = "the (find_char newline (su_buffer s))"
  consider (stop) "find_char newline (su_buffer s) = None \<or> maximum_helper_message_size < ?n"
    | (line) n where "find_char newline (su_buffer s) = Some n" "\<not> maximum_helper_message_size < n"
    by (cases "find_char newline (su_buffer s)") auto
  then show ?case
  proof cases
    case stop
    then show ?thesis
      by (subst (1 2) supervisor_loop.simps) (auto simp: supervisor_lost_def split: option.splits)
  next
    case line
    let ?r = "supervisor_line (s\<lparr>su_buffer := drop (n + 1) (su_buffer s)\<rparr>) (substr (su_buffer s) 0 n)"
    show ?thesis
    proof (cases "snd ?r")
      case None
      with line show ?thesis
        by (subst (1 2) supervisor_loop.simps) (simp add: Let_def supervisor_lost_def)
    next
      case (Some e)
      from "1.IH" [OF line refl refl refl Some] Some line show ?thesis
        by (subst (1 2) supervisor_loop.simps) (simp add: Let_def)
    qed
  qed
qed

lemma supervisor_line_set_buffer:
  "supervisor_line (s\<lparr>su_buffer := b\<rparr>) l =
     (case supervisor_line s l of (s1, e) \<Rightarrow> (s1\<lparr>su_buffer := b\<rparr>, e))"
proof -
  define R where "R = (\<lambda>r r'. r' = (case r of (s1 :: supervisor_conversation,
      e :: helper_conversation_event option) \<Rightarrow> (s1\<lparr>su_buffer := b\<rparr>, e)))"
  have R_if: "R x x' \<Longrightarrow> R y y' \<Longrightarrow> R (if c then x else y) (if c then x' else y')" for c x x' y y'
    by simp
  have R_case: "R x x' \<Longrightarrow> (\<And>v. R (f v) (f' v)) \<Longrightarrow>
      R (case oo of None \<Rightarrow> x | Some v \<Rightarrow> f v) (case oo of None \<Rightarrow> x' | Some v \<Rightarrow> f' v)"
    for oo :: "int option" and x x' f f'
    by (cases oo) simp_all
  have sel: "su_state (s\<lparr>su_buffer := b\<rparr>) = su_state s" "su_pending (s\<lparr>su_buffer := b\<rparr>) = su_pending s"
    by simp_all
  have "R (supervisor_line s l) (supervisor_line (s\<lparr>su_buffer := b\<rparr>) l)"
    unfolding supervisor_line_def sel
    by (intro R_if R_case) (simp_all add: R_def)
  then show ?thesis by (simp add: R_def)
qed

lemma supervisor_run_unfold:
  "supervisor_run s =
    (case find_char newline (su_buffer s) of
       None \<Rightarrow> if maximum_helper_message_size < length (su_buffer s) then supervisor_overflow s else (s, [])
     | Some n \<Rightarrow>
         if maximum_helper_message_size < n then supervisor_overflow s
         else (case supervisor_take (s\<lparr>su_buffer := drop (Suc n) (su_buffer s)\<rparr>) (take n (su_buffer s)) of
                 (s1, e1) \<Rightarrow> if su_state s1 = Failed then (s1, e1)
                   else (case supervisor_run s1 of (s2, e2) \<Rightarrow> (s2, e1 @ e2))))"
proof -
  consider (none) "find_char newline (su_buffer s) = None"
    | (line) n where "find_char newline (su_buffer s) = Some n"
    by (cases "find_char newline (su_buffer s)") auto
  then show ?thesis
  proof cases
    case none
    then show ?thesis by (simp add: supervisor_run_def supervisor_loop.simps [of s] supervisor_overflow_def)
  next
    case line
    let ?t = "s\<lparr>su_buffer := drop (Suc n) (su_buffer s)\<rparr>"
    obtain s1 e where r: "supervisor_line ?t (take n (su_buffer s)) = (s1, e)" by fastforce
    have acc: "supervisor_loop s1 [x] = (case supervisor_loop s1 [] of (s', es) \<Rightarrow> (s', x # es))" for x
      using supervisor_loop_acc [of s1 "[x]" "[]"] by simp
    show ?thesis
      using line r acc
      by (cases e) (simp_all add: supervisor_run_def supervisor_loop.simps [of s] Let_def substr_def
          supervisor_take_def supervisor_overflow_def supervisor_lost_def)
  qed
qed

interpretation supervisor: line_framing su_buffer "\<lambda>b. su_buffer_update (\<lambda>_. b)"
  "\<lambda>s. su_state s = Failed" supervisor_take supervisor_overflow supervisor_run
  supervisor_receive_bytes maximum_helper_message_size
proof
  fix s l s1 e b
  show "\<not> su_state s = Failed \<Longrightarrow> supervisor_take s l = (s1, e) \<Longrightarrow> \<not> su_state s1 = Failed \<Longrightarrow>
    su_buffer s1 = su_buffer s \<and> supervisor_take (s\<lparr>su_buffer := b\<rparr>) l = (s1\<lparr>su_buffer := b\<rparr>, e)"
    by (auto simp: supervisor_take_def supervisor_line_set_buffer supervisor_lost_def
        dest: supervisor_line_buffer' split: prod.splits option.splits if_splits)
  show "\<not> su_state s = Failed \<Longrightarrow> supervisor_take s l = (s1, e) \<Longrightarrow> su_state s1 = Failed \<Longrightarrow>
    supervisor_take (s\<lparr>su_buffer := b\<rparr>) l = (s1, e)"
    by (auto simp: supervisor_take_def supervisor_line_set_buffer supervisor_lost_def
        split: prod.splits option.splits if_splits)
qed (auto simp: supervisor_overflow_def supervisor_lost_def supervisor_receive_bytes_def
    supervisor_run_def [symmetric] supervisor_run_unfold [symmetric])

section \<open>The order of events\<close>

text \<open>The events the protocol allows, as a step relation on the state of the conversation.\<close>

inductive event_step :: "supervisor_state \<Rightarrow> helper_conversation_event \<Rightarrow> supervisor_state \<Rightarrow> bool" where
  ready: "event_step Waiting_For_Ready ReadyEvent Waiting_For_Activation"
| activated: "1 \<le> pid \<Longrightarrow> pid \<le> 1000000000 \<Longrightarrow>
    event_step Waiting_For_Activation (ActivatedEvent pid) Active"
| start_failed: "125 \<le> r \<Longrightarrow> r \<le> 127 \<Longrightarrow>
    event_step Waiting_For_Activation (ActivationFailedEvent r) Waiting_For_Cleanup"
| profile_result: "event_step Active (ProfileChangeResultEvent r c) Active"
| profile_unknown: "event_step Active ProfileStateUnknownEvent Profile_State_Unknown"
| exited: "st = Active \<or> st = Profile_State_Unknown \<Longrightarrow> 0 \<le> r \<Longrightarrow> r \<le> 255 \<Longrightarrow>
    event_step st (WorkloadExitedEvent r) Waiting_For_Cleanup"
| signaled: "st = Active \<or> st = Profile_State_Unknown \<Longrightarrow> 1 \<le> n \<Longrightarrow> n \<le> 127 \<Longrightarrow>
    event_step st (WorkloadSignaledEvent n) Waiting_For_Cleanup"
| cleanup_ok: "event_step Waiting_For_Cleanup CleanupSucceededEvent Finished"
| cleanup_failed: "event_step Waiting_For_Cleanup CleanupFailedEvent Finished"
| lost: "st \<noteq> Failed \<Longrightarrow> event_step st ConversationLostEvent Failed"

inductive_cases event_step_FailedE [elim!]: "event_step Failed e st"
inductive_cases event_step_readyE [elim!]: "event_step st ReadyEvent st'"
inductive_cases event_step_activatedE [elim!]: "event_step st (ActivatedEvent p) st'"
inductive_simps event_step_lost_simps [simp]: "event_step st ConversationLostEvent st'"

fun event_path :: "supervisor_state \<Rightarrow> helper_conversation_event list \<Rightarrow> supervisor_state \<Rightarrow> bool" where
  "event_path st [] st' = (st = st')"
| "event_path st (e # es) st' = (\<exists>u. event_step st e u \<and> event_path u es st')"

lemma event_path_append:
  "event_path st (as @ bs) st' \<longleftrightarrow> (\<exists>u. event_path st as u \<and> event_path u bs st')"
  by (induction as arbitrary: st) auto

lemma parse_value_after_range: "parse_value_after l p lo hi = Some v \<Longrightarrow> lo \<le> v \<and> v \<le> hi"
  by (auto simp: parse_value_after_def parse_bounded_integer_def
      split: if_splits from_chars_result.splits)

definition line_ok ::
  "supervisor_conversation \<Rightarrow> supervisor_conversation \<times> helper_conversation_event option \<Rightarrow> bool" where
  "line_ok s r \<longleftrightarrow> (case r of (s1, Some e) \<Rightarrow> event_step (su_state s) e (su_state s1)
     | (s1, None) \<Rightarrow> su_state s1 = su_state s)"

lemma line_ok_intros:
  "event_step (su_state s) e (su_state t) \<Longrightarrow> line_ok s (t, Some e)"
  "su_state t = su_state s \<Longrightarrow> line_ok s (t, None)"
  "(c \<Longrightarrow> line_ok s x) \<Longrightarrow> (\<not> c \<Longrightarrow> line_ok s y) \<Longrightarrow> line_ok s (if c then x else y)"
  "line_ok s x \<Longrightarrow> (\<And>v. oo = Some v \<Longrightarrow> line_ok s (f v)) \<Longrightarrow>
     line_ok s (case oo of None \<Rightarrow> x | Some v \<Rightarrow> f v)"
  by (auto simp: line_ok_def split: option.splits)

lemma supervisor_line_ok: "su_state s \<noteq> Failed \<Longrightarrow> line_ok s (supervisor_line s l)"
  unfolding supervisor_line_def
  by (intro line_ok_intros)
    (auto dest!: parse_value_after_range intro: event_step.intros)

lemma supervisor_receive_path:
  assumes "supervisor_receive_bytes s b = (s', es)"
  shows "event_path (su_state s) es (su_state s')"
proof -
  let ?I = "\<lambda>t tr. event_path (su_state s) tr (su_state t)"
  have "?I s' ([] @ es)"
  proof (rule supervisor.receive_invariant [OF _ _ _ _ assms])
    show "?I s1 (tr @ e)" if "\<not> su_state t = Failed" "?I t tr" "supervisor_take t l = (s1, e)"
      for t l s1 e tr
      using supervisor_line_ok [OF that(1), of l] that
      by (auto simp: supervisor_take_def line_ok_def supervisor_lost_def event_path_append
          split: prod.splits option.splits if_splits)
    show "?I s1 (tr @ e)" if "\<not> su_state t = Failed" "?I t tr" "supervisor_overflow t = (s1, e)"
      for t s1 e tr
      using that by (auto simp: supervisor_overflow_def supervisor_lost_def event_path_append)
  qed simp_all
  then show ?thesis by simp
qed

text \<open>What happens to the supervisor's conversation: bytes, a change sent, the peer closing.\<close>

datatype supervisor_input = Bytes string | Begin_Change profile_change | Peer_Closed

fun supervisor_input_step ::
  "supervisor_conversation \<Rightarrow> supervisor_input
     \<Rightarrow> supervisor_conversation \<times> helper_conversation_event list" where
  "supervisor_input_step s (Bytes b) = supervisor_receive_bytes s b"
| "supervisor_input_step s (Begin_Change c) = (fst (begin_profile_change s c), [])"
| "supervisor_input_step s Peer_Closed = supervisor_peer_closed s"

fun supervisor_history ::
  "supervisor_conversation \<Rightarrow> supervisor_input list
     \<Rightarrow> supervisor_conversation \<times> helper_conversation_event list" where
  "supervisor_history s [] = (s, [])"
| "supervisor_history s (i # is) =
     (case supervisor_input_step s i of
        (s1, e1) \<Rightarrow> (case supervisor_history s1 is of (s2, e2) \<Rightarrow> (s2, e1 @ e2)))"

lemma supervisor_input_path:
  "supervisor_input_step s i = (s', es) \<Longrightarrow> event_path (su_state s) es (su_state s')"
proof (cases i)
  case (Bytes b)
  then show "supervisor_input_step s i = (s', es) \<Longrightarrow> event_path (su_state s) es (su_state s')"
    using supervisor_receive_path by simp
next
  case (Begin_Change c)
  then show "supervisor_input_step s i = (s', es) \<Longrightarrow> event_path (su_state s) es (su_state s')"
    by (auto simp: begin_profile_change_def Let_def split: if_splits)
next
  case Peer_Closed
  then show "supervisor_input_step s i = (s', es) \<Longrightarrow> event_path (su_state s) es (su_state s')"
    by (auto simp: supervisor_peer_closed_def split: if_splits)
qed

lemma supervisor_history_path:
  "supervisor_history s is = (s', es) \<Longrightarrow> event_path (su_state s) es (su_state s')"
proof (induction "is" arbitrary: s s' es)
  case Nil
  then show ?case by simp
next
  case (Cons i "is")
  obtain s1 e1 where 1: "supervisor_input_step s i = (s1, e1)" by fastforce
  obtain s2 e2 where 2: "supervisor_history s1 is = (s2, e2)" by fastforce
  from Cons.prems 1 2 have "es = e1 @ e2" "s' = s2" by simp_all
  with supervisor_input_path [OF 1] Cons.IH [OF 2] show ?case by (auto simp: event_path_append)
qed

section \<open>One change in flight\<close>

text \<open>The changes a history sends, and the changes its result events are about.\<close>

fun begun_changes :: "supervisor_conversation \<Rightarrow> supervisor_input list \<Rightarrow> profile_change list" where
  "begun_changes s [] = []"
| "begun_changes s (i # is) =
     (case i of
        Begin_Change c \<Rightarrow> (if snd (begin_profile_change s c) = None then [] else [c])
      | _ \<Rightarrow> []) @ begun_changes (fst (supervisor_input_step s i)) is"

fun answered_change :: "helper_conversation_event \<Rightarrow> profile_change list" where
  "answered_change (ProfileChangeResultEvent _ c) = [c]"
| "answered_change _ = []"

definition answered_changes :: "helper_conversation_event list \<Rightarrow> profile_change list" where
  "answered_changes es = concat (map answered_change es)"

lemma answered_changes_simps [simp]:
  "answered_changes [] = []" "answered_changes (e # es) = answered_change e @ answered_changes es"
  "answered_changes (as @ bs) = answered_changes as @ answered_changes bs"
  by (simp_all add: answered_changes_def)

definition in_flight :: "supervisor_conversation \<Rightarrow> profile_change list \<Rightarrow> profile_change list \<Rightarrow> bool" where
  "in_flight s begun answered \<longleftrightarrow>
     (case su_state s of
        Waiting_For_Ready \<Rightarrow> begun = [] \<and> answered = [] \<and> su_pending s = None
      | Waiting_For_Activation \<Rightarrow> begun = [] \<and> answered = [] \<and> su_pending s = None
      | Active \<Rightarrow> begun = answered @ (case su_pending s of None \<Rightarrow> [] | Some c \<Rightarrow> [c])
      | _ \<Rightarrow> su_pending s = None \<and> (\<exists>rest. begun = answered @ rest \<and> length rest \<le> 1))"

lemma in_flight_buffer [simp]: "in_flight (s\<lparr>su_buffer := b\<rparr>) B A = in_flight s B A"
  by (cases "su_state s") (simp_all add: in_flight_def)

definition keeps_flight ::
  "profile_change list \<Rightarrow> profile_change list
     \<Rightarrow> supervisor_conversation \<times> helper_conversation_event option \<Rightarrow> bool" where
  "keeps_flight B A r \<longleftrightarrow>
     in_flight (fst r) B (A @ (case snd r of None \<Rightarrow> [] | Some e \<Rightarrow> answered_change e))"

lemma keeps_flight_intros:
  "in_flight t B (A @ answered_change e) \<Longrightarrow> keeps_flight B A (t, Some e)"
  "in_flight t B A \<Longrightarrow> keeps_flight B A (t, None)"
  "(c \<Longrightarrow> keeps_flight B A x) \<Longrightarrow> (\<not> c \<Longrightarrow> keeps_flight B A y) \<Longrightarrow> keeps_flight B A (if c then x else y)"
  by (simp_all add: keeps_flight_def)

lemma keeps_flight_case:
  "keeps_flight B A x \<Longrightarrow> (\<And>v. keeps_flight B A (f v)) \<Longrightarrow>
     keeps_flight B A (case oo of None \<Rightarrow> x | Some v \<Rightarrow> f v)"
  by (cases oo) simp_all

lemma supervisor_line_flight: "in_flight s B A \<Longrightarrow> keeps_flight B A (supervisor_line s l)"
  unfolding supervisor_line_def
  by (intro keeps_flight_intros keeps_flight_case)
    (auto simp: in_flight_def split: supervisor_state.splits option.splits)

lemma in_flight_failed:
  "in_flight s B A \<Longrightarrow> in_flight (s\<lparr>su_state := Failed, su_pending := None\<rparr>) B A"
  by (cases "su_state s"; cases "su_pending s") (auto simp: in_flight_def)

lemma begin_flight:
  "in_flight s B A \<Longrightarrow>
     in_flight (fst (begin_profile_change s c))
       (B @ (if snd (begin_profile_change s c) = None then [] else [c])) A"
  by (cases "su_state s"; cases "su_pending s")
    (auto simp: in_flight_def begin_profile_change_def Let_def)

lemma supervisor_receive_flight:
  assumes "supervisor_receive_bytes s b = (s', es)" and "in_flight s B A"
  shows "in_flight s' B (A @ answered_changes es)"
proof -
  let ?I = "\<lambda>t tr. in_flight t B (A @ answered_changes tr)"
  have "?I s' ([] @ es)"
  proof (rule supervisor.receive_invariant [OF _ _ _ _ assms(1)])
    show "?I s1 (tr @ e)" if "\<not> su_state t = Failed" "?I t tr" "supervisor_take t l = (s1, e)"
      for t l s1 e tr
      using supervisor_line_flight [OF that(2), of l] that(3)
      by (auto simp: supervisor_take_def keeps_flight_def supervisor_lost_def in_flight_failed
          split: prod.splits option.splits if_splits)
    show "?I s1 (tr @ e)" if "\<not> su_state t = Failed" "?I t tr" "supervisor_overflow t = (s1, e)"
      for t s1 e tr
      using that by (auto simp: supervisor_overflow_def supervisor_lost_def in_flight_failed)
  qed (simp_all add: assms(2))
  then show ?thesis by simp
qed

lemma supervisor_history_flight:
  "supervisor_history s is = (s', es) \<Longrightarrow> in_flight s B A
     \<Longrightarrow> in_flight s' (B @ begun_changes s is) (A @ answered_changes es)"
proof (induction "is" arbitrary: s s' es B A)
  case Nil
  then show ?case by simp
next
  case (Cons i "is")
  obtain s1 e1 where 1: "supervisor_input_step s i = (s1, e1)" by fastforce
  obtain s2 e2 where 2: "supervisor_history s1 is = (s2, e2)" by fastforce
  from Cons.prems(1) 1 2 have eq: "es = e1 @ e2" "s' = s2" by simp_all
  show ?case
  proof (cases i)
    case (Bytes b)
    with 1 supervisor_receive_flight [of s b s1 e1, OF _ Cons.prems(2)]
      Cons.IH [OF 2, of B "A @ answered_changes e1"] eq show ?thesis by simp
  next
    case (Begin_Change c)
    have "in_flight s1 (B @ (if snd (begin_profile_change s c) = None then [] else [c])) A \<and> e1 = []"
      using 1 begin_flight [OF Cons.prems(2), of c] Begin_Change by auto
    with Cons.IH [OF 2, of "B @ (if snd (begin_profile_change s c) = None then [] else [c])" A]
      eq 1 Begin_Change show ?thesis by auto
  next
    case Peer_Closed
    have "in_flight s1 B A \<and> answered_changes e1 = []"
      using 1 Cons.prems(2) Peer_Closed
      by (auto simp: supervisor_peer_closed_def in_flight_failed split: if_splits)
    with Cons.IH [OF 2, of B A] eq 1 Peer_Closed show ?thesis by simp
  qed
qed

section \<open>What one read makes the helper do\<close>

definition pending_list :: "runtime_conversation \<Rightarrow> profile_change list" where
  "pending_list s = (case rc_pending s of None \<Rightarrow> [] | Some c \<Rightarrow> [c])"

text \<open>Changes first, stops after them, and the error message, if any, last.\<close>

definition read_shape ::
  "profile_change list \<Rightarrow> helper_runtime_command list \<Rightarrow> (helper_runtime_command + string) list \<Rightarrow> bool" where
  "read_shape cs stops tr \<longleftrightarrow>
     list_all (\<lambda>c. \<not> is_profile_change c) stops
     \<and> (tr = map Inl (map ProfileChangeCommand cs @ stops)
        \<or> tr = map Inl (map ProfileChangeCommand cs @ stops) @ [Inr invalid_runtime_command_message])"

definition runtime_shape ::
  "runtime_conversation \<Rightarrow> runtime_conversation \<Rightarrow> (helper_runtime_command + string) list \<Rightarrow> bool" where
  "runtime_shape s t tr \<longleftrightarrow>
     (\<exists>cs stops. read_shape cs stops tr
        \<and> (rc_valid t \<longrightarrow> tr = map Inl (map ProfileChangeCommand cs @ stops))
        \<and> pending_list t = pending_list s @ cs
        \<and> rc_stopping t = (rc_stopping s \<or> stops \<noteq> [])
        \<and> (rc_stopping s \<longrightarrow> cs = [])
        \<and> rc_profile_state_unknown t = rc_profile_state_unknown s
        \<and> rc_workload_finished t = rc_workload_finished s
        \<and> (rc_profile_state_unknown s \<longrightarrow> cs = [])
        \<and> (rc_workload_finished s \<longrightarrow> cs = [] \<and> stops = []))"

lemma runtime_shape_buffer [simp]: "runtime_shape s (t\<lparr>rc_buffer := b\<rparr>) tr = runtime_shape s t tr"
  by (simp add: runtime_shape_def pending_list_def)

lemma runtime_shape_overflow:
  assumes "rc_valid t" "runtime_shape s t tr"
  shows "runtime_shape s (t\<lparr>rc_buffer := b, rc_valid := False\<rparr>) (tr @ [Inr invalid_runtime_command_message])"
  using assms by (fastforce simp: runtime_shape_def read_shape_def pending_list_def)

lemma runtime_shape_line:
  assumes "rc_valid t" "runtime_shape s t tr" "runtime_line t l = (t1, e)"
  shows "runtime_shape s t1 (tr @ e)"
proof -
  let ?c = "parse_helper_runtime_command l"
  consider (skip) "ignored_command t ?c"
    | (refuse) "\<not> ignored_command t ?c" "refused_command t ?c"
    | (change) c where "\<not> refused_command t ?c" "?c = Some (ProfileChangeCommand c)" "\<not> ignored_command t ?c"
    | (stop) c where "\<not> refused_command t ?c" "?c = Some c" "\<not> is_profile_change c" "\<not> ignored_command t ?c"
  proof (cases ?c)
    case (Some c)
    with that show ?thesis by (cases c; cases "refused_command t ?c"; cases "ignored_command t ?c") auto
  qed (use that in \<open>auto simp: refused_command_def\<close>)
  then show ?thesis
  proof cases
    case skip
    with assms show ?thesis by (simp add: runtime_line_def)
  next
    case refuse
    with assms runtime_shape_overflow [OF assms(1,2)] show ?thesis
      by (auto simp: runtime_line_def Let_def runtime_overflow_def)
  next
    case change
    with assms(3) have t1: "t1 = t\<lparr>rc_pending := Some c\<rparr>" "e = [Inl (ProfileChangeCommand c)]"
      by (simp_all add: runtime_line_def)
    from change have free: "rc_pending t = None" "\<not> rc_stopping t" "\<not> rc_profile_state_unknown t"
      "\<not> rc_workload_finished t" by (simp_all add: refused_command_def)
    from assms(1,2) obtain cs stops where "read_shape cs stops tr"
      "tr = map Inl (map ProfileChangeCommand cs @ stops)" "pending_list t = pending_list s @ cs"
      "rc_stopping t = (rc_stopping s \<or> stops \<noteq> [])"
      "rc_profile_state_unknown t = rc_profile_state_unknown s"
      "rc_workload_finished t = rc_workload_finished s"
      by (auto simp: runtime_shape_def)
    with free show ?thesis unfolding t1 runtime_shape_def
      by (intro exI [of _ "[c]"] exI [of _ "[]"]) (simp add: read_shape_def pending_list_def)
  next
    case stop
    then have t1: "t1 = t\<lparr>rc_stopping := True\<rparr>" "e = [Inl c]"
      using assms(3) by (cases c; simp add: runtime_line_def)+
    from stop have free: "\<not> rc_workload_finished t" by (simp add: refused_command_def)
    from assms(1,2) obtain cs stops where sh: "read_shape cs stops tr"
      "tr = map Inl (map ProfileChangeCommand cs @ stops)" "pending_list t = pending_list s @ cs"
      "rc_stopping t = (rc_stopping s \<or> stops \<noteq> [])" "rc_stopping s \<longrightarrow> cs = []"
      "rc_profile_state_unknown t = rc_profile_state_unknown s"
      "rc_workload_finished t = rc_workload_finished s" "rc_profile_state_unknown s \<longrightarrow> cs = []"
      by (auto simp: runtime_shape_def)
    with free stop(3) show ?thesis unfolding t1 runtime_shape_def
      by (intro exI [of _ cs] exI [of _ "stops @ [c]"]) (auto simp: read_shape_def pending_list_def)
  qed
qed

lemma runtime_receive_shape:
  assumes "runtime_receive s b = (s', es)"
  shows "runtime_shape s s' es"
proof -
  have "runtime_shape s s' ([] @ es)"
  proof (rule runtime.receive_invariant [OF _ _ _ _ assms])
    show "runtime_shape s t1 (tr @ e)"
      if "\<not> \<not> rc_valid t" "runtime_shape s t tr" "runtime_line t l = (t1, e)" for t l t1 e tr
      using runtime_shape_line that by simp
    show "runtime_shape s t1 (tr @ e)"
      if "\<not> \<not> rc_valid t" "runtime_shape s t tr" "runtime_overflow t = (t1, e)" for t t1 e tr
      using that runtime_shape_overflow [of t s tr] by (auto simp: runtime_overflow_def)
    show "runtime_shape s s []"
      by (auto simp: runtime_shape_def read_shape_def intro!: exI [of _ "[]"])
  qed simp
  then show ?thesis by simp
qed

section \<open>The start block in pieces\<close>

lemma start_lines_length: "length (start_lines c) = 3 + length (arguments c) + length (environment c)"
  by (simp add: start_lines_def hex_lines_def)

lemma start_lines_end:
  assumes "k < length (start_lines c)"
  shows "start_lines c ! k = ''START_END'' \<longleftrightarrow> Suc k = length (start_lines c)"
proof -
  define front where "front = butlast (start_lines c)"
  have split: "start_lines c = front @ [''START_END'']"
    by (simp add: front_def start_lines_def butlast_append)
  have "x \<noteq> ''START_END''" if "x \<in> set front" for x
    using that by (auto simp: front_def start_lines_def hex_lines_def butlast_append)
  then show ?thesis using assms by (auto simp: split nth_append less_Suc_eq)
qed

lemma add_sizes_total:
  "add_sizes t vs = Some u \<Longrightarrow> u = t + sum_list (map (\<lambda>v. length v + 1) vs)
     \<and> (vs \<noteq> [] \<longrightarrow> u \<le> maximum_context_total_size)
     \<and> list_all (\<lambda>v. length v \<le> maximum_context_value_size) vs"
proof (induction vs arbitrary: t)
  case Nil
  then show ?case by simp
next
  case (Cons v vs)
  then obtain w where w: "add_size t (length v) = Some w" "add_sizes w vs = Some u"
    by (auto simp: option_bind_Some_iff)
  then have "w = t + (length v + 1)" "length v \<le> maximum_context_value_size"
    "w \<le> maximum_context_total_size"
    by (auto simp: add_size_def maximum_context_value_size_def maximum_context_total_size_def
        split: if_splits)
  with Cons.IH [OF w(2)] w show ?case by (cases vs) auto
qed

lemma unlines_hex_length:
  "length (unlines (hex_lines p vs)) = (length p + 1) * length vs + 2 * sum_list (map length vs)"
  by (induction vs) simp_all

text \<open>A start block respects the limits of the conversation.\<close>

lemma start_block_fits:
  assumes "well_formed_context c"
  shows "length (unlines (start_lines c)) \<le> maximum_encoded_start_block_size"
    and "\<forall>l \<in> set (start_lines c). length l \<le> maximum_encoded_context_line_size"
    and "length (start_lines c) \<le> maximum_context_entry_count * 2 + 3"
proof -
  let ?vs = "working_directory c # arguments c @ environment c"
  from assms obtain u where u: "add_sizes 0 ?vs = Some u" by (auto simp: well_formed_context_def)
  note t = add_sizes_total [OF u]
  from assms have n: "length (arguments c) \<le> maximum_context_entry_count"
    "length (environment c) \<le> maximum_context_entry_count" by (simp_all add: well_formed_context_def)
  show "length (start_lines c) \<le> maximum_context_entry_count * 2 + 3"
    using n by (simp add: start_lines_length)
  have sum: "sum_list (map (\<lambda>v. length v + 1) vs) = sum_list (map length vs) + length vs" for vs :: "string list"
    by (induction vs) simp_all
  show "length (unlines (start_lines c)) \<le> maximum_encoded_start_block_size"
    using t n sum [of ?vs]
    by (simp add: start_lines_def unlines_hex_length maximum_encoded_start_block_size_def
        maximum_context_total_size_def maximum_context_entry_count_def)
  show "\<forall>l \<in> set (start_lines c). length l \<le> maximum_encoded_context_line_size"
  proof -
    have b: "2 * length v \<le> Suc (maximum_context_value_size * 2)" if "v \<in> set ?vs" for v
    proof -
      from t that have "length v \<le> maximum_context_value_size" by (auto simp: list_all_iff)
      then show ?thesis by simp
    qed
    show ?thesis
      using b by (auto simp: start_lines_def hex_lines_def maximum_encoded_context_line_size_def)
        (simp_all add: maximum_context_value_size_def)
  qed
qed

text \<open>
  The state after \<open>k\<close> lines of the block: they are stored and counted, the buffer holds a
  part of the rest.
\<close>

definition start_progress :: "workload_context \<Rightarrow> nat \<Rightarrow> start_conversation \<Rightarrow> bool" where
  "start_progress c k s \<longleftrightarrow> \<not> sc_finished s \<and> sc_lines s = take k (start_lines c)
     \<and> sc_encoded_size s = length (unlines (take k (start_lines c)))"

lemma unlines_drop_Suc:
  "k < length ls \<Longrightarrow> unlines (drop k ls) = ls ! k @ newline # unlines (drop (Suc k) ls)"
  by (simp flip: Cons_nth_drop_Suc)

lemma start_loop_progress:
  assumes wf: "well_formed_context c"
  shows "start_progress c k s \<Longrightarrow> k < length (start_lines c) \<Longrightarrow>
    sc_buffer s @ rest = unlines (drop k (start_lines c)) \<Longrightarrow>
    (if rest = [] then \<exists>s'. start_loop s = (s', Block_Complete, Some c)
     else \<exists>s' k'. start_loop s = (s', Block_Incomplete, None) \<and> start_progress c k' s'
       \<and> k' < length (start_lines c) \<and> sc_buffer s' @ rest = unlines (drop k' (start_lines c)))"
proof (induction "length (start_lines c) - k" arbitrary: k s)
  case 0
  then show ?case by simp
next
  case (Suc m)
  let ?ls = "start_lines c"
  let ?l = "?ls ! k"
  note fits = start_block_fits [OF wf]
  have l_in: "?l \<in> set ?ls" using Suc.prems by simp
  have l_one: "one_line ?l" using one_line_start_lines [of c] l_in by (simp add: list_all_iff)
  have l_len: "length ?l \<le> maximum_encoded_context_line_size" using fits(2) l_in by simp
  have split: "sc_buffer s @ rest = ?l @ newline # unlines (drop (Suc k) ?ls)"
    using Suc.prems(2,3) by (simp add: unlines_drop_Suc)
  have size: "length (unlines (take k ?ls)) + length (unlines (drop k ?ls)) \<le> maximum_encoded_start_block_size"
  proof -
    have "unlines ?ls = unlines (take k ?ls @ drop k ?ls)" by (simp only: append_take_drop_id)
    then have "length (unlines ?ls) = length (unlines (take k ?ls)) + length (unlines (drop k ?ls))"
      by (simp only: unlines_simps length_append)
    with fits(1) show ?thesis by simp
  qed
  have drop_len: "length (unlines (drop k ?ls)) = length ?l + 1 + length (unlines (drop (Suc k) ?ls))"
    using Suc.prems(2) by (simp add: unlines_drop_Suc)
  have prog: "\<not> sc_finished s" "sc_lines s = take k ?ls" "sc_encoded_size s = length (unlines (take k ?ls))"
    using Suc.prems(1) by (simp_all add: start_progress_def)
  show ?case
  proof (cases "find_char newline (sc_buffer s)")
    case None
    then have one: "one_line (sc_buffer s)" by (simp add: find_newline_None_iff)
    have short: "length (sc_buffer s) \<le> length ?l"
    proof (rule ccontr)
      assume "\<not> length (sc_buffer s) \<le> length ?l"
      then have "(sc_buffer s @ rest) ! length ?l \<in> set (sc_buffer s)" by (simp add: nth_append)
      moreover have "(sc_buffer s @ rest) ! length ?l = newline" unfolding split by simp
      ultimately show False using one by (simp add: one_line_def)
    qed
    have rest: "rest \<noteq> []"
    proof
      assume "rest = []"
      with split have "newline \<in> set (sc_buffer s)" by simp
      with one show False by (simp add: one_line_def)
    qed
    have "\<not> maximum_encoded_context_line_size < length (sc_buffer s)"
      using short l_len by simp
    moreover have "\<not> maximum_encoded_start_block_size - length (sc_buffer s) < sc_encoded_size s"
      using short size drop_len prog(3) by linarith
    ultimately have "start_loop s = (s, Block_Incomplete, None)"
      using None by (simp add: start_loop.simps [of s])
    with rest Suc.prems show ?thesis by auto
  next
    case (Some n)
    obtain tail where n: "n = length ?l" and buf: "sc_buffer s = ?l @ newline # tail"
      and tail: "tail @ rest = unlines (drop (Suc k) ?ls)"
    proof -
      have "find_char newline (sc_buffer s @ rest) = Some n"
        using Some by (simp add: find_char_append)
      with split l_one have n: "n = length ?l" by simp
      have "take n (sc_buffer s) = ?l" "drop (Suc n) (sc_buffer s) @ rest = unlines (drop (Suc k) ?ls)"
        using arg_cong [OF split, of "take n"] arg_cong [OF split, of "drop (Suc n)"]
          find_char_Some_less [OF Some] n by simp_all
      with find_char_Some_split(1) [OF Some] n that show thesis by metis
    qed
    have guards: "\<not> maximum_encoded_context_line_size < n"
      "\<not> maximum_encoded_start_block_size - (n + 1) < sc_encoded_size s"
      "\<not> maximum_context_entry_count * 2 + 2 < length (sc_lines s)"
      using l_len size drop_len prog fits(3) Suc.prems(2) n by simp_all
    have first: "\<not> (sc_lines s = [] \<and> ?l \<noteq> ''START_BEGIN'')"
      using prog(2) Suc.prems(2) by (cases k) (auto simp: start_lines_def)
    have snoc: "take k ?ls @ [?l] = take (Suc k) ?ls" using Suc.prems(2) by (simp add: take_Suc_conv_app_nth)
    let ?s1 = "s\<lparr>sc_buffer := tail, sc_encoded_size := sc_encoded_size s + (length ?l + 1)\<rparr>"
    let ?s2 = "(if sc_lines s = [] then ?s1\<lparr>sc_started := True\<rparr> else ?s1)\<lparr>sc_lines := sc_lines s @ [?l]\<rparr>"
    obtain s2 where s2_eq: "s2 = ?s2" by simp
    have s2: "start_progress c (Suc k) s2" "sc_buffer s2 = tail"
      using prog snoc by (auto simp: s2_eq start_progress_def simp flip: snoc)
    show ?thesis
    proof (cases "?l = ''START_END''")
      case True
      then have k: "Suc k = length ?ls" using start_lines_end [OF Suc.prems(2)] by simp
      then have tail0: "tail = []" "rest = []" using tail by simp_all
      have "parse_start_block (sc_lines s @ [?l]) = Some c"
        using prog(2) snoc k parse_start_block_complete [OF wf] by simp
      with True Some guards first n buf tail0 have "\<exists>s'. start_loop s = (s', Block_Complete, Some c)"
        by (simp add: start_loop.simps [of s] Let_def substr_def)
      with tail0 show ?thesis by simp
    next
      case False
      then have k: "Suc k < length ?ls" using start_lines_end [OF Suc.prems(2)] Suc.prems(2) by simp
      have loop: "start_loop s = start_loop s2"
        using False Some guards first n buf
        by (simp add: s2_eq start_loop.simps [of s] Let_def substr_def)
      have m: "m = length ?ls - Suc k" using Suc.hyps(2) by simp
      have "sc_buffer s2 @ rest = unlines (drop (Suc k) ?ls)" using s2(2) tail by simp
      from Suc.hyps(1) [OF m s2(1) k this] show ?thesis unfolding loop .
    qed
  qed
qed

lemma start_feed_progress:
  assumes wf: "well_formed_context c" and "cs \<noteq> []" and "last cs \<noteq> []"
    and "start_progress c k s" "k < length (start_lines c)"
    and "sc_buffer s @ concat cs = unlines (drop k (start_lines c))"
  shows "start_feed s cs = replicate (length cs - 1) (Block_Incomplete, None) @ [(Block_Complete, Some c)]"
  using assms(2-6)
proof (induction cs arbitrary: s k)
  case Nil
  then show ?case by simp
next
  case (Cons b cs)
  let ?t = "s\<lparr>sc_buffer := sc_buffer s @ b\<rparr>"
  have t: "start_progress c k ?t" "sc_buffer ?t @ concat cs = unlines (drop k (start_lines c))"
    using Cons.prems by (simp_all add: start_progress_def)
  have recv: "start_receive_bytes s b = start_loop ?t"
    using Cons.prems(3) by (simp add: start_receive_bytes_def start_progress_def)
  note loop = start_loop_progress [OF wf t(1) Cons.prems(4) t(2)]
  show ?case
  proof (cases "cs = []")
    case True
    with loop recv show ?thesis by auto
  next
    case False
    with Cons.prems(2) have "concat cs \<noteq> []" by (metis concat_eq_Nil_conv last_ConsR last_in_set)
    with loop have "\<exists>s' k'. start_loop ?t = (s', Block_Incomplete, None) \<and> start_progress c k' s'
      \<and> k' < length (start_lines c) \<and> sc_buffer s' @ concat cs = unlines (drop k' (start_lines c))"
      by (simp only: if_False simp_thms)
    then obtain s' k' where s': "start_loop ?t = (s', Block_Incomplete, None)" "start_progress c k' s'"
      "k' < length (start_lines c)" "sc_buffer s' @ concat cs = unlines (drop k' (start_lines c))"
      by blast
    with Cons.IH [OF False _ s'(2-4)] Cons.prems(2) False recv show ?thesis
      by (cases cs) simp_all
  qed
qed

section \<open>One exchange of a Profile Change\<close>

fun completion_event :: "profile_change_completion \<Rightarrow> profile_change \<Rightarrow> helper_conversation_event" where
  "completion_event Completion_Applied c = ProfileChangeResultEvent Result_Applied c"
| "completion_event Completion_Restored_After_Failure c =
     ProfileChangeResultEvent Result_Restored_After_Failure c"
| "completion_event Completion_State_Unknown c = ProfileStateUnknownEvent"

definition runtime_idle :: "runtime_conversation \<Rightarrow> bool" where
  "runtime_idle h \<longleftrightarrow> rc_buffer h = [] \<and> rc_pending h = None \<and> rc_valid h
     \<and> \<not> rc_workload_finished h \<and> \<not> rc_stopping h \<and> \<not> rc_profile_state_unknown h"

lemma runtime_receives_change:
  assumes h: "runtime_idle h" and c: "sendable c"
  shows "runtime_receive_bytes h (serialize_profile_change c) =
    (h\<lparr>rc_pending := Some (normalize_change c)\<rparr>,
     \<lparr>feed_valid = True, feed_commands = [ProfileChangeCommand (normalize_change c)], feed_response = None\<rparr>)"
proof -
  define line where "line = join_tokens (change_tokens c)"
  have msg: "serialize_profile_change c = line @ [newline]"
    using c by (simp add: serialize_profile_change_eq line_def)
  have parse: "parse_helper_runtime_command line = Some (ProfileChangeCommand (normalize_change c))"
    using c msg by (simp add: parse_helper_runtime_command_change serialize_profile_change_eq)
  have one: "one_line line" using one_line_change [OF c] by (simp add: line_def)
  have len: "\<not> maximum_helper_message_size < length line"
    using change_line_length [OF c] by (simp add: line_def maximum_helper_message_size_def)
  have loop: "runtime_loop (h\<lparr>rc_buffer := line @ [newline]\<rparr>) [] =
      runtime_loop (h\<lparr>rc_pending := Some (normalize_change c), rc_buffer := []\<rparr>)
        [ProfileChangeCommand (normalize_change c)]"
    using h one len parse
    by (subst runtime_loop.simps)
      (simp add: runtime_idle_def substr_def Let_def ignored_command_def refused_command_def)
  have same: "h\<lparr>rc_pending := Some (normalize_change c), rc_buffer := []\<rparr>
      = h\<lparr>rc_pending := Some (normalize_change c)\<rparr>"
    using h by (simp add: runtime_idle_def)
  have "runtime_receive_bytes h (serialize_profile_change c) =
      runtime_loop (h\<lparr>rc_buffer := line @ [newline]\<rparr>) []"
    using h by (simp add: runtime_receive_bytes_def runtime_idle_def msg)
  then show ?thesis
    unfolding loop same
    using h by (subst (asm) runtime_loop.simps) (simp add: runtime_idle_def)
qed

lemma complete_after_change:
  assumes "runtime_idle h"
  shows "\<exists>h' reply. complete_profile_change (h\<lparr>rc_pending := Some c\<rparr>) k = (h', Some reply)
    \<and> reply = helper_conversation_event_message (completion_event k c)
    \<and> h' = h\<lparr>rc_profile_state_unknown := (k = Completion_State_Unknown)\<rparr>"
  using assms by (cases k) (auto simp: complete_profile_change_def runtime_idle_def)

lemma supervisor_takes_reply:
  assumes "su_state s = Active" "su_pending s = Some c" "su_buffer s = []"
  shows "snd (supervisor_receive_bytes s (helper_conversation_event_message (completion_event k c)))
    = [completion_event k c]"
proof -
  define line where "line = butlast (helper_conversation_event_message (completion_event k c))"
  have msg: "helper_conversation_event_message (completion_event k c) = line @ [newline]"
    by (cases k) (simp_all add: line_def)
  have line_facts: "one_line line" "\<not> maximum_helper_message_size < length line"
    by (cases k; simp add: line_def maximum_helper_message_size_def)+
  obtain s1 where s1: "supervisor_line s line = (s1, Some (completion_event k c))"
    "su_state s1 \<noteq> Failed" "su_buffer s1 = []"
    using assms by (cases k) (simp_all add: line_def supervisor_line_def)
  have same: "s1\<lparr>su_buffer := []\<rparr> = s1" using s1(3) by (cases s1) simp
  have "supervisor_run (s\<lparr>su_buffer := line @ [newline]\<rparr>) = (s1, [completion_event k c])"
    using line_facts s1 assms(3)
    by (subst supervisor_run_unfold)
      (simp add: supervisor_take_def supervisor_line_set_buffer same supervisor_run_unfold [of s1])
  with assms show ?thesis
    by (simp add: supervisor_receive_bytes_def msg flip: supervisor_run_def)
qed

section \<open>Properties\<close>

text \<open>
  C12: whatever bytes arrive and whenever changes are sent or the peer closes, the events of the
  supervisor's conversation follow the protocol: ready, activated or start failed, results of
  changes while active, one workload end, one cleanup result, and nothing after a loss.
\<close>

theorem supervisor_events_in_order:
  assumes "supervisor_history new_supervisor_conversation inputs = (s, events)"
  shows "event_path Waiting_For_Ready events (su_state s)"
  using supervisor_history_path [OF assms] by (simp add: new_supervisor_conversation_def)

theorem supervisor_events_in_order_witness:
  "event_path Waiting_For_Ready [ConversationLostEvent] Failed"
  using supervisor_events_in_order [of "[Peer_Closed]"]
  by (simp add: supervisor_peer_closed_def new_supervisor_conversation_def)

text \<open>
  The results of changes answer the changes that were sent, in order, each exactly once, and
  at most one change that was sent has no result.
\<close>

theorem supervisor_answers_in_order:
  assumes "supervisor_history new_supervisor_conversation inputs = (s, events)"
  shows "\<exists>rest. begun_changes new_supervisor_conversation inputs = answered_changes events @ rest
    \<and> length rest \<le> 1"
  using supervisor_history_flight [OF assms, of "[]" "[]"]
  by (auto simp: in_flight_def new_supervisor_conversation_def
      split: supervisor_state.splits option.splits)

theorem supervisor_answers_in_order_witness:
  "\<exists>rest. begun_changes new_supervisor_conversation [Peer_Closed] = answered_changes [ConversationLostEvent] @ rest
    \<and> length rest \<le> 1"
  by (rule supervisor_answers_in_order)
    (simp add: supervisor_peer_closed_def new_supervisor_conversation_def)

text \<open>The supervisor reads a stream the same way however it is cut into reads.\<close>

theorem supervisor_reads_compose:
  "supervisor_receive_bytes s (a @ b) =
     (case supervisor_receive_bytes s a of
        (s1, e1) \<Rightarrow> (case supervisor_receive_bytes s1 b of (s2, e2) \<Rightarrow> (s2, e1 @ e2)))"
  by (rule supervisor.receive_append)

text \<open>The helper reads its runtime commands the same way however the stream is cut into reads.\<close>

theorem runtime_reads_compose:
  "runtime_receive s (a @ b) =
     (case runtime_receive s a of
        (s1, e1) \<Rightarrow> (case runtime_receive s1 b of (s2, e2) \<Rightarrow> (s2, e1 @ e2)))"
  by (rule runtime.receive_append)

lemma start_block_fed:
  assumes "serialize_start_block c = Some (concat reads)" and "reads \<noteq> []" and "last reads \<noteq> []"
  shows "start_feed new_start_conversation reads =
    replicate (length reads - 1) (Block_Incomplete, None) @ [(Block_Complete, Some c)]"
proof -
  from assms(1) have wf: "well_formed_context c" and b: "concat reads = unlines (start_lines c)"
    by (simp_all add: serialize_start_block_iff)
  show ?thesis
    by (rule start_feed_progress [OF wf assms(2,3), of 0])
      (simp_all add: start_progress_def new_start_conversation_def b start_lines_length)
qed

text \<open>
  A start block that the supervisor serializes is read by the helper however it is cut into
  reads: every read but the last is incomplete, the last one gives the context back.
\<close>

theorem start_block_any_reads:
  assumes "serialize_start_block c = Some (concat reads)" and "reads \<noteq> []" and "last reads \<noteq> []"
  shows "start_feed new_start_conversation reads =
    replicate (length reads - 1) (Block_Incomplete, None) @ [(Block_Complete, Some c)]"
  using assms by (rule start_block_fed)

definition sample_context :: workload_context where
  "sample_context = \<lparr>working_directory = ''/'', arguments = [''a''], environment = []\<rparr>"

theorem start_block_any_reads_witness:
  "start_feed new_start_conversation
     [''START_BEGIN'' @ [newline] @ ''CW'', ''D 2F'' @ [newline] @ ''ARG 61'',
      [newline] @ ''START_END'' @ [newline]] =
   [(Block_Incomplete, None), (Block_Incomplete, None), (Block_Complete, Some sample_context)]"
proof -
  have "serialize_start_block sample_context = Some (concat
      [''START_BEGIN'' @ [newline] @ ''CW'', ''D 2F'' @ [newline] @ ''ARG 61'',
       [newline] @ ''START_END'' @ [newline]])"
    by (simp add: serialize_start_block_def sample_context_def append_encoded_line_def contains_nul_def
        add_size_def hex_digits_def byte_of_def uint64_max_def maximum_context_value_size_def
        maximum_context_total_size_def maximum_context_entry_count_def)
  from start_block_any_reads [OF this] show ?thesis by (simp add: numeral_2_eq_2)
qed

text \<open>
  One read of runtime commands accepts at most one change, and none while another change is
  pending, after a stop request, after an unknown profile state or after the workload has ended;
  the accepted change is the pending one, and it comes before every stop request of the read.
\<close>

theorem runtime_one_change:
  assumes "runtime_receive s b = (s', es)"
  shows "\<exists>cs stops. read_shape cs stops es
    \<and> pending_list s' = pending_list s @ cs \<and> length (pending_list s') \<le> 1
    \<and> (rc_stopping s \<or> rc_profile_state_unknown s \<or> rc_workload_finished s \<longrightarrow> cs = [])
    \<and> rc_stopping s' = (rc_stopping s \<or> stops \<noteq> [])"
proof -
  have "length (pending_list s') \<le> 1" by (simp add: pending_list_def split: option.split)
  with runtime_receive_shape [OF assms] show ?thesis unfolding runtime_shape_def by blast
qed

theorem runtime_one_change_witness:
  "\<exists>cs stops. read_shape cs stops [Inl StopTerminateCommand]
    \<and> pending_list (new_runtime_conversation\<lparr>rc_stopping := True\<rparr>) = pending_list new_runtime_conversation @ cs
    \<and> length (pending_list (new_runtime_conversation\<lparr>rc_stopping := True\<rparr>)) \<le> 1
    \<and> (rc_stopping new_runtime_conversation \<or> rc_profile_state_unknown new_runtime_conversation
        \<or> rc_workload_finished new_runtime_conversation \<longrightarrow> cs = [])
    \<and> rc_stopping (new_runtime_conversation\<lparr>rc_stopping := True\<rparr>) = (rc_stopping new_runtime_conversation \<or> stops \<noteq> [])"
  by (rule runtime_one_change [of _ "''STOP TERM'' @ [newline]"])
    (simp add: runtime_receive_def runtime_receive_bytes_def new_runtime_conversation_def
      runtime_loop.simps feed_events_def substr_def parse_helper_runtime_command_def Let_def
      ignored_command_def refused_command_def maximum_helper_message_size_def)

text \<open>
  C11: a Profile Change makes the round trip between the two ends. The supervisor sends a change a
  default profile accepts; an idle helper reads it as its only command; whatever the outcome, its
  reply reaches the supervisor as the one matching event about the change that was sent.
\<close>

theorem profile_change_exchange:
  assumes "su_state s = Active" "su_pending s = None" "su_buffer s = []" and "runtime_idle h"
    and "apply_profile_change default_profile c = Inr q"
  shows "\<exists>s1 h1 r h2 message reply. begin_profile_change s c = (s1, Some message)
    \<and> runtime_receive_bytes h message = (h1, r)
    \<and> feed_commands r = [ProfileChangeCommand (normalize_change c)] \<and> feed_valid r
    \<and> complete_profile_change h1 k = (h2, Some reply)
    \<and> snd (supervisor_receive_bytes s1 reply) = [completion_event k c]"
proof -
  from assms(5) have c: "sendable c"
    using apply_accepts_iff [OF valid_default(2), of c] by (auto simp: sendable_def)
  let ?s1 = "s\<lparr>su_pending := Some c\<rparr>"
  have b: "begin_profile_change s c = (?s1, Some (serialize_profile_change c))"
    using assms(1,2) c by (simp add: begin_profile_change_def serialize_profile_change_eq)
  have e: "helper_conversation_event_message (completion_event k (normalize_change c))
      = helper_conversation_event_message (completion_event k c)"
    by (cases k) simp_all
  obtain h2 where h2: "complete_profile_change (h\<lparr>rc_pending := Some (normalize_change c)\<rparr>) k =
      (h2, Some (helper_conversation_event_message (completion_event k c)))"
    using complete_after_change [OF assms(4), of "normalize_change c" k] e by auto
  have "snd (supervisor_receive_bytes ?s1 (helper_conversation_event_message (completion_event k c)))
      = [completion_event k c]"
    using assms by (intro supervisor_takes_reply) simp_all
  with b h2 runtime_receives_change [OF assms(4) c] show ?thesis by simp
qed

theorem profile_change_exchange_witness:
  "\<exists>s1 h1 r h2 message reply.
    begin_profile_change (new_supervisor_conversation\<lparr>su_state := Active\<rparr>) (SetDelay Outbound 250)
      = (s1, Some message)
    \<and> runtime_receive_bytes new_runtime_conversation message = (h1, r)
    \<and> feed_commands r = [ProfileChangeCommand (SetDelay Outbound 250)] \<and> feed_valid r
    \<and> complete_profile_change h1 Completion_Applied = (h2, Some reply)
    \<and> snd (supervisor_receive_bytes s1 reply)
        = [ProfileChangeResultEvent Result_Applied (SetDelay Outbound 250)]"
  using profile_change_exchange [of "new_supervisor_conversation\<lparr>su_state := Active\<rparr>"
      new_runtime_conversation "SetDelay Outbound 250"
      "default_profile\<lparr>outbound := default_settings\<lparr>delay := 250\<rparr>\<rparr>" Completion_Applied]
  by (simp add: new_supervisor_conversation_def new_runtime_conversation_def runtime_idle_def
      apply_Inr_iff visit_change_def default_profile_def default_settings_def
      valid_profile_def valid_settings_def)

end
