(* ===== verification/Helper_Start_Laws.thy ===== *)
theory Helper_Start_Laws
  imports Helper_Start Session_Files_Laws Conversation_Laws
begin

text \<open>
  The helper begins a session only for the supervisor that launched it and only when its socket is
  gone; the socket stays behind only where \<open>unlink\<close> fails, and then no session begins.
\<close>

section \<open>The socket of the helper\<close>

abbreviation no_unlink_fault :: "file_host \<Rightarrow> bool" where
  "no_unlink_fault h \<equiv> host_faults h Call_Unlink_Socket = None"

lemma remove_owned_effect:
  assumes "no_unlink_fault h"
  shows "fst (remove_owned o1 h) = 0"
    "host_nodes (snd (snd (remove_owned o1 h)))
       = (if owner_owned o1 then (host_nodes h)(socket_node_path o1 := None) else host_nodes h)"
    "host_faults (snd (snd (remove_owned o1 h))) = host_faults h"
    "\<not> owner_owned (fst (snd (remove_owned o1 h)))"
    "socket_node_path (fst (snd (remove_owned o1 h))) = socket_node_path o1"
  using assms
  by (auto simp: remove_owned_def unlink_node_def call_result_def socket_node_path_def split: option.splits)

lemma remove_stale_effect:
  "host_faults (snd (remove_stale o1 h)) = host_faults h"
  "host_nodes (snd (remove_stale o1 h)) = host_nodes h
     \<or> host_nodes (snd (remove_stale o1 h)) = (host_nodes h)(socket_node_path o1 := None)"
  by (auto simp: remove_stale_def unlink_node_def Let_def split: sum.split)

lemma create_effect:
  assumes "owner_socket_path o1 = socket_node_path o1" "\<not> owner_owned o1"
  shows "host_faults (snd (snd (create_listening_socket o1 h))) = host_faults h"
    "socket_node_path (fst (snd (create_listening_socket o1 h))) = socket_node_path o1"
    "q \<noteq> socket_node_path o1 \<Longrightarrow> host_nodes (snd (snd (create_listening_socket o1 h))) q = host_nodes h q"
    "\<not> owner_owned (fst (snd (create_listening_socket o1 h)))
       \<Longrightarrow> host_nodes (snd (snd (create_listening_socket o1 h))) = host_nodes h"
    "owner_owned (fst (snd (create_listening_socket o1 h))) \<Longrightarrow> host_nodes h (socket_node_path o1) = None"
    "fst (create_listening_socket o1 h) = Inr u \<Longrightarrow> owner_owned (fst (snd (create_listening_socket o1 h)))"
proof -
  have same: "socket_node_path (o1\<lparr>owner_owned := b\<rparr>) = socket_node_path o1" for b
    by (simp add: socket_node_path_def)
  show "host_faults (snd (snd (create_listening_socket o1 h))) = host_faults h"
    "socket_node_path (fst (snd (create_listening_socket o1 h))) = socket_node_path o1"
    "q \<noteq> socket_node_path o1 \<Longrightarrow> host_nodes (snd (snd (create_listening_socket o1 h))) q = host_nodes h q"
    "\<not> owner_owned (fst (snd (create_listening_socket o1 h)))
       \<Longrightarrow> host_nodes (snd (snd (create_listening_socket o1 h))) = host_nodes h"
    "owner_owned (fst (snd (create_listening_socket o1 h))) \<Longrightarrow> host_nodes h (socket_node_path o1) = None"
    "fst (create_listening_socket o1 h) = Inr u \<Longrightarrow> owner_owned (fst (snd (create_listening_socket o1 h)))"
    using assms
    by (auto simp: create_listening_socket_def Let_def same call_result_def
        split: sum.splits option.splits if_splits)
qed

text \<open>A failing \<open>unlink\<close> gives an error number, and not that a file which is there is missing.\<close>

abbreviation true_unlink :: "file_host \<Rightarrow> bool" where
  "true_unlink h \<equiv> host_faults h Call_Unlink_Socket \<notin> {Some 0, Some enoent}"

lemma remove_owned_faults:
  assumes "true_unlink h"
  shows "host_faults (snd (snd (remove_owned o1 h))) = host_faults h"
    "socket_node_path (fst (snd (remove_owned o1 h))) = socket_node_path o1"
    "q \<noteq> socket_node_path o1 \<Longrightarrow> host_nodes (snd (snd (remove_owned o1 h))) q = host_nodes h q"
    "fst (remove_owned o1 h) = 0 \<and> \<not> owner_owned (fst (snd (remove_owned o1 h)))
       \<and> host_nodes (snd (snd (remove_owned o1 h)))
           = (if owner_owned o1 then (host_nodes h)(socket_node_path o1 := None) else host_nodes h)
     \<or> fst (snd (remove_owned o1 h)) = o1 \<and> snd (snd (remove_owned o1 h)) = h \<and> owner_owned o1
       \<and> \<not> no_unlink_fault h \<and> host_faults h Call_Unlink_Socket = Some (fst (remove_owned o1 h))"
  using assms
  by (auto simp: remove_owned_def unlink_node_def call_result_def socket_node_path_def enoent_def
      split: option.splits if_splits)

text \<open>All a run does to the files \<open>h\<close>: the socket at the path is gone, or nothing has changed.\<close>

definition swept :: "string \<Rightarrow> file_host \<Rightarrow> file_host \<Rightarrow> bool" where
  "swept path h h' \<longleftrightarrow> host_nodes h' = host_nodes h \<or> host_nodes h' = (host_nodes h)(path := None)"

text \<open>When files cannot be removed, at least no other file has changed.\<close>

definition left :: "string \<Rightarrow> file_host \<Rightarrow> file_host \<Rightarrow> bool" where
  "left path h h' \<longleftrightarrow>
     (\<forall>q. q \<noteq> path \<longrightarrow> host_nodes h' q = host_nodes h q) \<and> (no_unlink_fault h \<longrightarrow> swept path h h')"

definition sweepable :: "socket_path_owner \<Rightarrow> file_host \<Rightarrow> file_host \<Rightarrow> bool" where
  "sweepable o1 h h' \<longleftrightarrow>
     host_faults h' = host_faults h \<and> (\<forall>q. q \<noteq> socket_node_path o1 \<longrightarrow> host_nodes h' q = host_nodes h q)
     \<and> (owner_owned o1 \<or> swept (socket_node_path o1) h h')"

lemma swept_left: "swept path h h' \<Longrightarrow> left path h h'"
  by (auto simp: left_def swept_def)

lemma sweep_owned:
  assumes "sweepable o1 h h'" "true_unlink h"
  shows "left (socket_node_path o1) h (snd (snd (remove_owned o1 h')))"
    "sweepable (fst (snd (remove_owned o1 h'))) h (snd (snd (remove_owned o1 h')))"
    "fst (remove_owned o1 h') = 0 \<Longrightarrow> owner_owned o1
       \<Longrightarrow> host_nodes (snd (snd (remove_owned o1 h'))) = (host_nodes h)(socket_node_path o1 := None)"
proof -
  have f: "host_faults h' = host_faults h" "true_unlink h'" using assms by (simp_all add: sweepable_def)
  note e = remove_owned_faults [OF f(2), where ?o1.0 = o1]
  have removed: "(host_nodes h')(socket_node_path o1 := None) = (host_nodes h)(socket_node_path o1 := None)"
    using assms(1) by (auto simp: sweepable_def fun_eq_iff)
  show "left (socket_node_path o1) h (snd (snd (remove_owned o1 h')))"
    using e(3) e(4) assms(1) f removed unfolding left_def sweepable_def swept_def by (auto split: if_splits)
  show "sweepable (fst (snd (remove_owned o1 h'))) h (snd (snd (remove_owned o1 h')))"
    using e assms(1) f removed unfolding sweepable_def swept_def by (auto split: if_splits)
  show "host_nodes (snd (snd (remove_owned o1 h'))) = (host_nodes h)(socket_node_path o1 := None)"
    if "fst (remove_owned o1 h') = 0" "owner_owned o1"
    using e(4) that f(2) removed by auto
qed

lemma give_up_sweeps:
  assumes "sweepable o1 h (fst s)" "true_unlink h"
  shows "left (socket_node_path o1) h (fst (snd (give_up o1 s)))" "fst (give_up o1 s) = Inl 125"
  using sweep_owned(1) [OF assms] by (simp_all add: give_up_def case_prod_beta)

lemma cleanup_sweeps:
  assumes "sweepable o1 h (fst s)" "true_unlink h"
  shows "sweepable (fst (snd (cleanup_helper_listener sw o1 s))) h (fst (snd (snd (cleanup_helper_listener sw o1 s))))"
    "socket_node_path (fst (snd (cleanup_helper_listener sw o1 s))) = socket_node_path o1"
    "fst (cleanup_helper_listener sw o1 s) \<Longrightarrow> owner_owned o1
       \<Longrightarrow> host_nodes (fst (snd (snd (cleanup_helper_listener sw o1 s)))) = (host_nodes h)(socket_node_path o1 := None)"
proof -
  have f: "true_unlink (fst s)" using assms by (simp add: sweepable_def)
  have c: "fst (cleanup_helper_listener sw o1 s) \<longleftrightarrow> fst (remove_owned o1 (fst s)) = 0"
    "fst (snd (cleanup_helper_listener sw o1 s)) = fst (snd (remove_owned o1 (fst s)))"
    "fst (snd (snd (cleanup_helper_listener sw o1 s))) = snd (snd (remove_owned o1 (fst s)))"
    by (simp_all add: cleanup_helper_listener_def case_prod_beta)
  show "sweepable (fst (snd (cleanup_helper_listener sw o1 s))) h (fst (snd (snd (cleanup_helper_listener sw o1 s))))"
    "socket_node_path (fst (snd (cleanup_helper_listener sw o1 s))) = socket_node_path o1"
    "fst (cleanup_helper_listener sw o1 s) \<Longrightarrow> owner_owned o1
       \<Longrightarrow> host_nodes (fst (snd (snd (cleanup_helper_listener sw o1 s)))) = (host_nodes h)(socket_node_path o1 := None)"
    using sweep_owned(2,3) [OF assms] remove_owned_faults(2) [OF f] by (simp_all add: c)
qed

lemma refuse_sweeps:
  assumes "sweepable o1 h (fst s)" "true_unlink h"
  shows "left (socket_node_path o1) h (fst (snd (refuse_peer sw o1 t s)))" "fst (refuse_peer sw o1 t s) = Inl 125"
proof -
  have "fst (say sw t s) = fst s" by (simp add: say_def case_prod_beta)
  then have s: "sweepable o1 h (fst (say sw t s))" using assms by simp
  note c = cleanup_sweeps [OF s assms(2), of sw]
  show "left (socket_node_path o1) h (fst (snd (refuse_peer sw o1 t s)))" "fst (refuse_peer sw o1 t s) = Inl 125"
    using give_up_sweeps [OF c(1) assms(2)] c(2) by (simp_all add: refuse_peer_def case_prod_beta)
qed

section \<open>The helper before its session\<close>

lemma converse_files: "converse sw identity s = Some (r, s') \<Longrightarrow> fst s' = fst s"
  by (auto simp: converse_def case_prod_beta bind_eq_Some_conv split: prod.splits bool.splits option.splits)

lemma converse_identity: "converse sw identity s = Some (Inr start, s') \<Longrightarrow> start_identity start = identity"
  by (auto simp: converse_def case_prod_beta bind_eq_Some_conv split: prod.splits bool.splits option.splits)

text \<open>A session begins only after its socket was removed.\<close>

definition begun_clean :: "string \<Rightarrow> file_host \<Rightarrow> file_host \<Rightarrow> bool" where
  "begun_clean path h h' \<longleftrightarrow> host_nodes h' = (host_nodes h)(path := None)"

lemma admit_sweeps:
  assumes "sweepable o1 h (fst s)" "true_unlink h" "owner_owned o1" "admit_peer sw args uid gid o1 s = Some (r, s')"
  shows "left (socket_node_path o1) h (fst s')"
    "r = Inr start \<Longrightarrow> begun_clean (socket_node_path o1) h (fst s')
       \<and> (\<exists>p. fst (sw_peer sw (snd s)) = Some p \<and> peer_pid p = arg_supervisor_pid args \<and> peer_uid p = uid \<and> peer_gid p = gid)
       \<and> (\<exists>groups. start_identity start = \<lparr>identity_uid = uid, identity_gid = gid, identity_groups = groups\<rparr>
            \<and> read_peer_groups (sw_status_file sw (snd (sw_peer sw (snd s))) (arg_supervisor_pid args)) = Inr groups)"
proof -
  obtain h0 w where s: "s = (h0, w)" by fastforce
  obtain peer w1 where peer: "sw_peer sw w = (peer, w1)" by fastforce
  have sweep: "sweepable o1 h (fst (h0, w1))" using assms(1) by (simp add: s)
  note refuse = refuse_sweeps [OF sweep assms(2), of sw]
  note clean = cleanup_sweeps [OF sweep assms(2), of sw]
  define bad where "bad = (case peer of None \<Rightarrow> True
     | Some p \<Rightarrow> peer_pid p \<noteq> arg_supervisor_pid args \<or> peer_uid p \<noteq> uid \<or> peer_gid p \<noteq> gid)"
  have main: "left (socket_node_path o1) h (fst s') \<and> (r = Inr start \<longrightarrow>
     begun_clean (socket_node_path o1) h (fst s') \<and> \<not> bad
     \<and> (\<exists>groups. start_identity start = \<lparr>identity_uid = uid, identity_gid = gid, identity_groups = groups\<rparr>
          \<and> read_peer_groups (sw_status_file sw w1 (arg_supervisor_pid args)) = Inr groups))"
  proof (cases bad)
    case True
    then have "(r, s') = refuse_peer sw o1 (helper_says ''rejected connection from an unexpected user'') (h0, w1)"
      using assms(4) by (simp add: admit_peer_def s peer bad_def [symmetric])
    with refuse show ?thesis by (metis Inl_Inr_False fst_conv snd_conv)
  next
    case good: False
    show ?thesis
    proof (cases "read_peer_groups (sw_status_file sw w1 (arg_supervisor_pid args))")
      case (Inl t)
      then have "(r, s') = refuse_peer sw o1 t (h0, w1)"
        using assms(4) good by (simp add: admit_peer_def s peer bad_def [symmetric])
      with refuse show ?thesis by (metis Inl_Inr_False fst_conv snd_conv)
    next
      case (Inr groups)
      define s1 where "s1 = snd (snd (cleanup_helper_listener sw o1 (h0, w1)))"
      define o2 where "o2 = fst (snd (cleanup_helper_listener sw o1 (h0, w1)))"
      show ?thesis
      proof (cases "fst (cleanup_helper_listener sw o1 (h0, w1))")
        case False
        then have "(r, s') = give_up o2 s1"
          using assms(4) good Inr by (simp add: admit_peer_def s peer bad_def [symmetric] s1_def o2_def case_prod_beta)
        moreover have "sweepable o2 h (fst s1)" "socket_node_path o2 = socket_node_path o1"
          using clean(1,2) by (simp_all add: o2_def s1_def)
        ultimately show ?thesis
          using give_up_sweeps [of o2 h s1] assms(2) by (metis Inl_Inr_False fst_conv snd_conv)
      next
        case True
        then have con: "converse sw \<lparr>identity_uid = uid, identity_gid = gid, identity_groups = groups\<rparr> s1 = Some (r, s')"
          using assms(4) good Inr by (simp add: admit_peer_def s peer bad_def [symmetric] s1_def case_prod_beta)
        have "fst s' = fst s1" using converse_files [OF con] .
        moreover have "r = Inr start \<longrightarrow> start_identity start
            = \<lparr>identity_uid = uid, identity_gid = gid, identity_groups = groups\<rparr>"
          using converse_identity con by blast
        moreover have "host_nodes (fst s1) = (host_nodes h)(socket_node_path o1 := None)"
          using clean(3) True assms(3) by (simp add: s1_def)
        ultimately show ?thesis using Inr good by (simp add: begun_clean_def left_def swept_def)
      qed
    qed
  qed
  then show "left (socket_node_path o1) h (fst s')" by blast
  assume "r = Inr start"
  with main show "begun_clean (socket_node_path o1) h (fst s')
       \<and> (\<exists>p. fst (sw_peer sw (snd s)) = Some p \<and> peer_pid p = arg_supervisor_pid args \<and> peer_uid p = uid \<and> peer_gid p = gid)
       \<and> (\<exists>groups. start_identity start = \<lparr>identity_uid = uid, identity_gid = gid, identity_groups = groups\<rparr>
            \<and> read_peer_groups (sw_status_file sw (snd (sw_peer sw (snd s))) (arg_supervisor_pid args)) = Inr groups)"
    by (auto simp: s peer bad_def split: option.splits)
qed

text \<open>What a session start says of the world the helper ran in.\<close>

definition authentic_start ::
  "'w start_world \<Rightarrow> helper_arguments \<Rightarrow> nat \<Rightarrow> nat \<Rightarrow> session_start \<Rightarrow> bool" where
  "authentic_start sw args uid gid start \<longleftrightarrow>
     (\<exists>w p. fst (sw_peer sw w) = Some p \<and> peer_pid p = arg_supervisor_pid args \<and> peer_uid p = uid \<and> peer_gid p = gid)
     \<and> (\<exists>w groups. start_identity start = \<lparr>identity_uid = uid, identity_gid = gid, identity_groups = groups\<rparr>
          \<and> read_peer_groups (sw_status_file sw w (arg_supervisor_pid args)) = Inr groups)"

definition helper_socket_path :: "helper_arguments \<Rightarrow> string" where
  "helper_socket_path args =
     join_path (join_path (arg_runtime_directory args) session_directory_name) helper_socket_name"

lemma listen_sweeps:
  assumes "true_unlink h" "listen_for_supervisor sw args uid gid (h, w) = Some (r, s')"
  defines "path \<equiv> helper_socket_path args"
  shows "left path h (fst s')"
    "r = Inr start \<Longrightarrow> begun_clean path h (fst s') \<and> authentic_start sw args uid gid start
       \<and> validate_session (session_paths_of (arg_runtime_directory args)) uid h = Inr ()"
proof -
  define o1 where "o1 = owner_of_helper_socket (session_paths_of (arg_runtime_directory args)) uid"
  have o1: "socket_node_path o1 = path" "owner_socket_path o1 = socket_node_path o1" "\<not> owner_owned o1"
    by (simp_all add: o1_def owner_of_helper_socket_def socket_node_path_def path_def helper_socket_path_def session_paths_of_def Let_def)
  note def = listen_for_supervisor_def [of sw args uid gid, unfolded Let_def o1_def [symmetric]]
  have main: "left path h (fst s') \<and> (r = Inr start \<longrightarrow> begun_clean path h (fst s')
      \<and> authentic_start sw args uid gid start
      \<and> validate_session (session_paths_of (arg_runtime_directory args)) uid h = Inr ())"
  proof (cases "validate_session (session_paths_of (arg_runtime_directory args)) uid h")
    case (Inl t)
    with assms(2) show ?thesis by (auto simp: def say_def swept_def intro: swept_left)
  next
    case valid: (Inr u)
    obtain r1 h1 where stale: "remove_stale o1 h = (r1, h1)" by fastforce
    with remove_stale_effect [of o1 h] o1 have h1: "host_faults h1 = host_faults h" "swept path h h1"
      by (simp_all add: swept_def)
    show ?thesis
    proof (cases r1)
      case (Inl t)
      with assms(2) valid stale h1 show ?thesis by (auto simp: def say_def intro: swept_left)
    next
      case (Inr u1)
      obtain r2 o2 h2 where made: "create_listening_socket o1 h1 = (r2, o2, h2)" by (metis prod.collapse)
      note c = create_effect [OF o1(2,3), where h = h1, unfolded made fst_conv snd_conv]
      have "sweepable o2 h h2"
        using c(1-4) h1 o1(1)
        by (auto simp: sweepable_def swept_def fun_eq_iff)
      then have sweep: "sweepable o2 h (fst (h2, v))" for v by simp
      have path2: "socket_node_path o2 = path" using c(2) o1(1) by simp
      show ?thesis
      proof (cases r2)
        case (Inl t)
        define s3 where "s3 = (snd (snd (remove_owned o2 h2)), sw_error sw t w)"
        have "(r, s') = give_up (fst (snd (remove_owned o2 h2))) s3"
          using assms(2) valid stale Inr made Inl by (simp add: def say_def s3_def case_prod_beta)
        moreover have "sweepable (fst (snd (remove_owned o2 h2))) h (fst s3)"
          using sweep_owned(2) [of o2 h h2] sweep assms(1) by (simp add: s3_def)
        moreover have "socket_node_path (fst (snd (remove_owned o2 h2))) = path"
          using remove_owned_faults(2) [of h2 o2] path2 sweep assms(1) by (simp add: sweepable_def)
        ultimately show ?thesis using give_up_sweeps assms(1) by (metis Inl_Inr_False fst_conv snd_conv)
      next
        case owned: (Inr u2)
        then have own: "owner_owned o2" using c(6) by simp
        obtain a w1 where acc: "accept_supervisor sw w = Some (a, w1)"
          using assms(2) valid stale Inr made owned by (auto simp: def bind_eq_Some_conv)
        show ?thesis
        proof (cases a)
          case (Inl t)
          then have "(r, s') = refuse_peer sw o2 t (h2, w1)"
            using assms(2) valid stale Inr made owned acc by (simp add: def)
          with refuse_sweeps [OF sweep assms(1)] path2 show ?thesis by (metis Inl_Inr_False fst_conv snd_conv)
        next
          case (Inr u3)
          then have "admit_peer sw args uid gid o2 (h2, w1) = Some (r, s')"
            using assms(2) valid stale \<open>r1 = Inr u1\<close> made owned acc by (simp add: def)
          from admit_sweeps(1) [OF sweep assms(1) own this] admit_sweeps(2) [OF sweep assms(1) own this, of start] path2 valid show ?thesis
            unfolding authentic_start_def by fastforce
        qed
      qed
    qed
  qed
  then show "left path h (fst s')" by blast
  assume "r = Inr start"
  with main show "begun_clean path h (fst s') \<and> authentic_start sw args uid gid start
       \<and> validate_session (session_paths_of (arg_runtime_directory args)) uid h = Inr ()" by blast
qed

text \<open>C18: the helper, which runs as root in a directory of the user, begins a session only for the
  supervisor that launched it: the process named in its arguments still had the start time named
  there, connected as the user that called \<open>sudo\<close>, and that user owns a valid session directory
  whose lock is held; the Workload gets the identity of that user. A session begins only when the
  helper's socket is gone, whatever system call fails, \<open>unlink\<close> too. Whether or not it begins, and
  whoever connects, no file other than that socket has changed, and the socket stays behind only
  where \<open>unlink\<close> fails, which ends the helper.\<close>

theorem helper_starts_for_its_supervisor:
  assumes "start_helper sw argv (h, w) = Some (r, h', w')" "true_unlink h"
  shows "(case parse_helper_arguments argv of
       Inl _ \<Rightarrow> host_nodes h' = host_nodes h
     | Inr args \<Rightarrow> left (helper_socket_path args) h h')
    \<and> (\<forall>start. r = Inr start \<longrightarrow> host_euid h = 0 \<and> (\<exists>args uid gid w1 status.
         parse_helper_arguments argv = Inr args \<and> begun_clean (helper_socket_path args) h h'
         \<and> read_invoking_ids (sw_getenv sw) = Inr (uid, gid)
         \<and> read_process_status (sw_stat_file sw w1) (arg_supervisor_pid args) = Some status
         \<and> start_time_ticks status = arg_start_time args
         \<and> validate_session (session_paths_of (arg_runtime_directory args)) uid h = Inr ()
         \<and> authentic_start sw args uid gid start))"
proof (cases "parse_helper_arguments argv")
  case (Inl t)
  with assms show ?thesis by (auto simp: start_helper_def say_def swept_def)
next
  case (Inr args)
  show ?thesis
  proof (cases "\<exists>u w1 status ids. host_euid h = 0 \<and> sw_pidfd sw (arg_supervisor_pid args) w = (Inr u, w1)
      \<and> read_process_status (sw_stat_file sw w1) (arg_supervisor_pid args) = Some status
      \<and> start_time_ticks status = arg_start_time args \<and> read_invoking_ids (sw_getenv sw) = Inr ids")
    case False
    then have "fst (snd (the (Some (r, h', w')))) = h \<and> (\<exists>e. r = Inl e)"
      using assms(1) Inr
      by (auto simp: start_helper_def say_def split: if_splits prod.splits sum.splits option.splits)
    then show ?thesis using Inr by (auto simp: swept_def intro: swept_left)
  next
    case True
    then obtain u w1 status uid gid where ok: "host_euid h = 0" "sw_pidfd sw (arg_supervisor_pid args) w = (Inr u, w1)"
      "read_process_status (sw_stat_file sw w1) (arg_supervisor_pid args) = Some status"
      "start_time_ticks status = arg_start_time args" "read_invoking_ids (sw_getenv sw) = Inr (uid, gid)"
      by auto
    then have "listen_for_supervisor sw args uid gid (h, w1) = Some (r, h', w')"
      using assms(1) Inr by (simp add: start_helper_def)
    from listen_sweeps [OF assms(2) this] Inr ok show ?thesis by fastforce
  qed
qed

text \<open>A helper whose supervisor, process 42 of user 1000, connects and sends a start block at once.\<close>

definition demo_block :: string where
  "demo_block = ''START_BEGIN'' @ [newline] @ ''CWD 2F'' @ [newline] @ ''ARG 61'' @ [newline] @ ''START_END'' @ [newline]"

definition demo_context :: workload_context where
  "demo_context = \<lparr>working_directory = ''/'', arguments = [''a''], environment = []\<rparr>"

definition demo_world :: "unit start_world" where
  "demo_world =
     \<lparr>sw_getenv = \<lambda>_. Some ''1000'', sw_pidfd = \<lambda>_ w. (Inr (), w),
      sw_stat_file = \<lambda>_ _. Some ''42 (n) l) S 1 1 1 1 1 1 1 1 1 1 1 1 1 1 1 1 1 1 77 1'',
      sw_status_file = \<lambda>_ _. Some (''Groups: 4 27'' @ [newline]),
      sw_accept_poll = \<lambda>w. (Accept_Poll_Events \<lparr>listener_broken = False, process_broken = False, process_ended = False\<rparr>, w),
      sw_accept = \<lambda>w. (Accept_Done, w),
      sw_peer = \<lambda>w. (Some \<lparr>peer_pid = 42, peer_uid = 1000, peer_gid = 1000\<rparr>, w),
      sw_ignore_interrupt = \<lambda>w. (True, w), sw_send = \<lambda>_ w. (True, w),
      sw_recvmsg = \<lambda>w. (Recv_Returned \<lparr>received_size = 1, received_truncated = False,
          received_message = \<lparr>message_marker = 0, message_headers = []\<rparr>\<rparr>, w),
      sw_block_poll = \<lambda>_ w. (Block_Poll_Ready, w), sw_read = \<lambda>w. (Some demo_block, w),
      sw_now = \<lambda>w. (0, w), sw_error = \<lambda>_ w. w, sw_strerror = \<lambda>_. []\<rparr>"

definition demo_arguments :: "string list" where
  "demo_arguments = [''netlaglab-helper'', ''--runtime-dir'', ''/r'', ''--supervisor-pid'', ''42'',
     ''--supervisor-start-time'', ''77'']"

definition demo_host :: file_host where
  "demo_host =
     \<lparr>host_nodes = [''/r'' \<mapsto> \<lparr>node_kind = Directory_Node, node_owner = 1000, node_mode = 448\<rparr>,
        ''/r/netlaglab'' \<mapsto> \<lparr>node_kind = Directory_Node, node_owner = 1000, node_mode = 448\<rparr>,
        ''/r/netlaglab/session.lock'' \<mapsto> \<lparr>node_kind = Regular_Node, node_owner = 1000, node_mode = 384\<rparr>],
      host_locks = {''/r/netlaglab/session.lock''}, host_listeners = {}, host_euid = 0, host_umask = 18,
      host_faults = Map.empty, host_strerror = \<lambda>_. []\<rparr>"

lemma demo_start_block: "read_start_block demo_world w = Some (Some demo_context, w)"
proof -
  obtain conversation where "start_receive_bytes new_start_conversation demo_block
      = (conversation, Block_Complete, Some demo_context)"
  proof -
    have "serialize_start_block demo_context = Some (concat [demo_block])"
      by (simp add: demo_context_def demo_block_def serialize_start_block_def append_encoded_line_def
          contains_nul_def add_size_def hex_digits_def byte_of_def uint64_max_def maximum_context_value_size_def
          maximum_context_total_size_def maximum_context_entry_count_def)
    from start_block_fed [OF this] have "snd (start_receive_bytes new_start_conversation demo_block)
        = (Block_Complete, Some demo_context)"
      by (simp add: demo_block_def case_prod_beta)
    with that show thesis by (metis prod.collapse)
  qed
  then show ?thesis unfolding read_start_block_def
    by (intro iterate_unfold(2)) (simp add: start_block_pass_def demo_world_def take_start_bytes_def)
qed

lemma demo_converse:
  "converse demo_world identity (h, w) = Some (Inr \<lparr>start_context = demo_context, start_identity = identity,
     start_sources = [Source_Inherited, Source_Inherited, Source_Inherited]\<rparr>, h, w)"
proof -
  have "receive_standard_descriptors (sw_recvmsg demo_world) w = Some ((Some no_descriptors, []), w)"
    unfolding receive_standard_descriptors_def
    by (intro iterate_unfold(2))
      (simp add: recv_pass_def demo_world_def accept_descriptors_def assign_slots.simps no_descriptors_def)
  moreover have "sw_ignore_interrupt demo_world w = (True, w)" "sw_send demo_world m w = (True, w)" for m
    by (simp_all add: demo_world_def)
  ultimately show ?thesis
    by (simp add: converse_def demo_start_block standard_sources_def no_descriptors_def)
qed

lemma demo_accept: "accept_supervisor demo_world w = Some (Inr (), w)"
proof -
  have "accept_retry demo_world w = Some (Accept_Done, w)"
    unfolding accept_retry_def by (intro iterate_unfold(2)) (simp add: demo_world_def)
  then show ?thesis unfolding accept_supervisor_def
    by (intro iterate_calls_unfold(2)) (simp add: accept_pass_def demo_world_def)
qed

lemmas demo_numbers = from_chars_signed_def from_chars_unsigned_def dec_value_def digit_value_def is_digit_def
  byte_of_def int_max_def int_min_def uint64_max_def uint32_max_def

theorem helper_starts_for_its_supervisor_witness:
  "\<exists>start h'. start_helper demo_world demo_arguments (demo_host, ()) = Some (Inr start, h', ())
     \<and> authentic_start demo_world \<lparr>arg_runtime_directory = ''/r'', arg_supervisor_pid = 42, arg_start_time = 77\<rparr> 1000 1000 start"
proof -
  define args where "args = \<lparr>arg_runtime_directory = ''/r'', arg_supervisor_pid = 42, arg_start_time = 77\<rparr>"
  have args: "parse_helper_arguments demo_arguments = Inr args"
    by (simp add: args_def demo_arguments_def parse_helper_arguments_def parse_supervisor_pid_def
        parse_supervisor_start_time_def demo_numbers)
  have status: "read_process_status (sw_stat_file demo_world ()) 42 = Some \<lparr>parent_pid = 1, start_time_ticks = 77\<rparr>"
    by (simp add: demo_world_def read_process_status_def getline_all.simps stat_fields.simps
        parse_process_status_def demo_numbers)
  have ids: "read_invoking_ids (sw_getenv demo_world) = Inr (1000, 1000)"
    by (simp add: demo_world_def read_invoking_ids_def read_sudo_id_def demo_numbers)
  have groups: "read_peer_groups (sw_status_file demo_world () 42) = Inr [4, 27]"
    by (simp add: demo_world_def read_peer_groups_def getline_all.simps groups_prefix_def group_values.simps
        group_blank_def demo_numbers maximum_groups_def)
  define own where "own = owner_of_helper_socket (session_paths_of ''/r'') 1000"
  have valid: "validate_session (session_paths_of ''/r'') 1000 demo_host = Inr ()"
    by (rule ready_validate) (simp_all add: ready_session_def private_directory_def exact_node_def demo_host_def
        session_files_defs Let_def)
  have stale: "remove_stale own demo_host = (Inr (), demo_host)"
    by (simp add: own_def owner_of_helper_socket_def session_files_defs demo_host_def socket_node_path_def
        helper_socket_name_def enoent_def)
  obtain o2 h2 where made: "create_listening_socket own demo_host = (Inr (), o2, h2)" "no_unlink_fault h2"
    by (simp add: own_def owner_of_helper_socket_def session_files_defs demo_host_def socket_node_path_def
        helper_socket_name_def session_paths_of_def Let_def)
  obtain o3 h3 where clean: "cleanup_helper_listener demo_world o2 (h2, ()) = (True, o3, h3, ())"
    using remove_owned_effect(1) [OF made(2), of o2]
    by (cases "remove_owned o2 h2") (auto simp: cleanup_helper_listener_def)
  define start where "start = \<lparr>start_context = demo_context,
     start_identity = \<lparr>identity_uid = 1000, identity_gid = 1000, identity_groups = [4, 27]\<rparr>,
     start_sources = [Source_Inherited, Source_Inherited, Source_Inherited]\<rparr>"
  have peer: "sw_peer demo_world () = (Some \<lparr>peer_pid = 42, peer_uid = 1000, peer_gid = 1000\<rparr>, ())"
    by (simp add: demo_world_def)
  have "admit_peer demo_world args 1000 1000 o2 (h2, ()) = Some (Inr start, h3, ())"
    by (simp add: admit_peer_def peer args_def groups clean demo_converse start_def)
  then have listen: "listen_for_supervisor demo_world args 1000 1000 (demo_host, ()) = Some (Inr start, h3, ())"
    using valid stale made(1)
    by (simp add: listen_for_supervisor_def args_def Let_def demo_accept flip: own_def)
  have run: "start_helper demo_world demo_arguments (demo_host, ()) = Some (Inr start, h3, ())"
  proof -
    have "sw_pidfd demo_world 42 () = (Inr (), ())" by (simp add: demo_world_def)
    moreover have "host_euid demo_host = 0" by (simp add: demo_host_def)
    ultimately show ?thesis
      using status ids listen
      by (simp add: start_helper_def args) (simp add: args_def)
  qed
  have "true_unlink demo_host" by (simp add: demo_host_def)
  from helper_starts_for_its_supervisor [OF run this] args ids run show ?thesis
    by (auto simp: args_def)
qed

end
