(* ===== verification/Launcher_Laws.thy ===== *)
theory Launcher_Laws
  imports Launcher
begin

text \<open>
  The launcher of the helper is reaped once: whatever it does, \<open>reap_helper_launcher\<close> returns with no
  process left. A launcher that ended before its socket appeared was reaped before, and is then
  reported a second time.
\<close>

section \<open>A process\<close>

datatype child = Child_Running | Child_Zombie nat | Child_Reaped

definition echild :: int where "echild = 10"

fun child_later :: "child \<Rightarrow> child \<Rightarrow> bool" where
  "child_later Child_Running c \<longleftrightarrow> c \<noteq> Child_Reaped"
| "child_later (Child_Zombie s) c \<longleftrightarrow> c = Child_Zombie s"
| "child_later Child_Reaped c \<longleftrightarrow> c = Child_Reaped"

text \<open>The answer of a call that reaps, for a process before it and after it.\<close>

fun reaps_honestly :: "child \<Rightarrow> wait_answer \<Rightarrow> child \<Rightarrow> bool" where
  "reaps_honestly c Wait_Interrupted d \<longleftrightarrow> child_later c d"
| "reaps_honestly c Wait_Running d \<longleftrightarrow> c = Child_Running \<and> d \<noteq> Child_Reaped"
| "reaps_honestly c (Wait_Ended s) d \<longleftrightarrow> child_later c (Child_Zombie s) \<and> d = Child_Reaped"
| "reaps_honestly c (Wait_Failed e) d \<longleftrightarrow> c = Child_Reaped \<and> d = Child_Reaped \<and> e = echild"

text \<open>\<open>spare\<close> bounds the interrupts to come, \<open>ms\<close> is the clock.\<close>

definition honest_launcher ::
  "'w launcher_world \<Rightarrow> ('w \<Rightarrow> child) \<Rightarrow> ('w \<Rightarrow> nat) \<Rightarrow> ('w \<Rightarrow> int) \<Rightarrow> bool" where
  "honest_launcher lw child spare ms \<longleftrightarrow>
     (\<forall>w. reaps_honestly (child w) (fst (poll_child lw w)) (child (snd (poll_child lw w)))
        \<and> (if fst (poll_child lw w) = Wait_Interrupted then spare (snd (poll_child lw w)) < spare w
           else spare (snd (poll_child lw w)) \<le> spare w)
        \<and> ms w \<le> ms (snd (poll_child lw w)))
     \<and> (\<forall>w. reaps_honestly (child w) (fst (wait_child lw w)) (child (snd (wait_child lw w)))
        \<and> fst (wait_child lw w) \<noteq> Wait_Running
        \<and> (fst (wait_child lw w) = Wait_Interrupted \<longrightarrow> spare (snd (wait_child lw w)) < spare w))
     \<and> (\<forall>w. child_later (child w) (child (snd (clock_ms lw w))) \<and> fst (clock_ms lw w) = ms w
        \<and> spare (snd (clock_ms lw w)) \<le> spare w \<and> ms w \<le> ms (snd (clock_ms lw w)))
     \<and> (\<forall>n w. child_later (child w) (child (sleep_ms lw n w)) \<and> spare (sleep_ms lw n w) \<le> spare w
        \<and> ms w + int n \<le> ms (sleep_ms lw n w))
     \<and> (\<forall>n w. child_later (child w) (child (kill_child lw n w)) \<and> spare (kill_child lw n w) \<le> spare w
        \<and> ms w \<le> ms (kill_child lw n w))"

lemma child_later_refl [simp]: "child_later c c"
  by (cases c) auto

lemma child_later_trans: "child_later a b \<Longrightarrow> child_later b c \<Longrightarrow> child_later a c"
  by (cases a; cases b) auto

lemma reaps_after: "child_later a b \<Longrightarrow> reaps_honestly b x c \<Longrightarrow> reaps_honestly a x c"
  by (cases x; cases a; cases b) (auto dest: child_later_trans)

section \<open>Calls\<close>

lemma retry_returns:
  assumes "\<And>w. reaps_honestly (child w) (fst (call w)) (child (snd (call w)))"
    and "\<And>w. fst (call w) = Wait_Interrupted \<Longrightarrow> spare (snd (call w)) < (spare w :: nat)"
    and "\<And>w. fst (call w) \<noteq> Wait_Interrupted \<Longrightarrow> P (fst (call w)) \<and> spare (snd (call w)) \<le> spare w"
    and "\<And>w. (ms w :: int) \<le> ms (snd (call w))"
  shows "\<exists>a w1. retry_interrupted call w = Some (a, w1) \<and> reaps_honestly (child w) a (child w1) \<and> P a
    \<and> a \<noteq> Wait_Interrupted \<and> spare w1 \<le> spare w \<and> ms w \<le> ms w1"
proof (induction "spare w" arbitrary: w rule: less_induct)
  case less
  obtain a w1 where c: "call w = (a, w1)" by fastforce
  define body where "body = (\<lambda>w. case call w of (a, w1) \<Rightarrow> if a = Wait_Interrupted then Inl w1 else Inr (a, w1))"
  show ?case
  proof (cases "a = Wait_Interrupted")
    case False
    then have "retry_interrupted call w = Some (a, w1)"
      unfolding retry_interrupted_def by (intro iterate_unfold(2)) (simp add: c)
    with assms(1,3,4) [of w] c False show ?thesis by auto
  next
    case True
    then have "retry_interrupted call w = retry_interrupted call w1"
      unfolding retry_interrupted_def by (intro iterate_unfold(1)) (simp add: c)
    moreover have "child_later (child w) (child w1)" "spare w1 < spare w" "ms w \<le> ms w1"
      using assms(1,2,4) [of w] c True by auto
    moreover from this less.hyps [of w1] obtain b w2 where "retry_interrupted call w1 = Some (b, w2)"
      "reaps_honestly (child w1) b (child w2)" "P b" "b \<noteq> Wait_Interrupted" "spare w2 \<le> spare w1" "ms w1 \<le> ms w2"
      by auto
    ultimately show ?thesis using reaps_after [of "child w" "child w1" b "child w2"] by fastforce
  qed
qed

lemma poll_returns:
  assumes "honest_launcher lw child spare ms"
  shows "\<exists>a w1. retry_interrupted (poll_child lw) w = Some (a, w1) \<and> reaps_honestly (child w) a (child w1)
    \<and> a \<noteq> Wait_Interrupted \<and> spare w1 \<le> spare w \<and> ms w \<le> ms w1"
  using retry_returns [of child "poll_child lw" spare "\<lambda>_. True" ms w] assms
  unfolding honest_launcher_def by (metis (no_types, lifting))

lemma until_returns:
  assumes "honest_launcher lw child spare ms"
  shows "\<exists>r w1. iterate_calls (until_pass lw deadline) w = Some (r, w1) \<and>
     (case r of
        Until_Ended s \<Rightarrow> child_later (child w) (Child_Zombie s) \<and> child w1 = Child_Reaped
      | Until_Failed e \<Rightarrow> child w = Child_Reaped \<and> child w1 = Child_Reaped \<and> e = echild
      | Until_Timeout \<Rightarrow> child_later (child w) (child w1))"
proof (induction "nat (deadline - ms w)" arbitrary: w rule: less_induct)
  case less
  obtain now w1 where t: "clock_ms lw w = (now, w1)" by fastforce
  then have w1: "now = ms w" "child_later (child w) (child w1)" "ms w \<le> ms w1"
    using assms unfolding honest_launcher_def by (metis fst_conv snd_conv)+
  show ?case
  proof (cases "now < deadline")
    case False
    then have "iterate_calls (until_pass lw deadline) w = Some (Until_Timeout, w1)"
      by (intro iterate_calls_unfold(2)) (simp add: until_pass_def t)
    with w1 show ?thesis by simp
  next
    case True
    obtain a w2 where a: "retry_interrupted (poll_child lw) w1 = Some (a, w2)"
      "reaps_honestly (child w1) a (child w2)" "a \<noteq> Wait_Interrupted" "ms w1 \<le> ms w2"
      using poll_returns [OF assms] by blast
    have r: "reaps_honestly (child w) a (child w2)" using reaps_after [OF w1(2) a(2)] .
    show ?thesis
    proof (cases a)
      case (Wait_Ended s)
      then have "iterate_calls (until_pass lw deadline) w = Some (Until_Ended s, w2)"
        using True by (intro iterate_calls_unfold(2)) (simp add: until_pass_def t a(1))
      with r Wait_Ended show ?thesis by auto
    next
      case (Wait_Failed e)
      then have "iterate_calls (until_pass lw deadline) w = Some (Until_Failed e, w2)"
        using True by (intro iterate_calls_unfold(2)) (simp add: until_pass_def t a(1))
      with r Wait_Failed show ?thesis by auto
    next
      case Wait_Running
      define w3 where "w3 = sleep_ms lw retry_delay w2"
      have "ms w2 + int retry_delay \<le> ms w3" "child_later (child w2) (child w3)"
        using assms by (simp_all add: honest_launcher_def w3_def)
      moreover have "ms w < deadline" using True w1(1) by simp
      ultimately have "nat (deadline - ms w3) < nat (deadline - ms w)"
        using w1(3) a(4) by (simp add: retry_delay_def)
      from less.hyps [OF this] obtain r3 w4 where r3: "iterate_calls (until_pass lw deadline) w3 = Some (r3, w4)"
        "case r3 of Until_Ended s \<Rightarrow> child_later (child w3) (Child_Zombie s) \<and> child w4 = Child_Reaped
         | Until_Failed e \<Rightarrow> child w3 = Child_Reaped \<and> child w4 = Child_Reaped \<and> e = echild
         | Until_Timeout \<Rightarrow> child_later (child w3) (child w4)" by blast
      have "iterate_calls (until_pass lw deadline) w = iterate_calls (until_pass lw deadline) w3"
        using True Wait_Running
        by (intro iterate_calls_unfold(1)) (simp add: until_pass_def t a(1) w3_def)
      moreover have "child w = Child_Running" "child w3 \<noteq> Child_Reaped"
        using r Wait_Running \<open>child_later (child w2) (child w3)\<close> by (auto elim: child_later.elims)
      ultimately show ?thesis using r3 by (auto split: until_result.splits elim: child_later.elims)
    qed (use a(3) in simp)
  qed
qed

lemma wait_until_returns:
  assumes "honest_launcher lw child spare ms"
  shows "\<exists>r w1. wait_until lw w = Some (r, w1) \<and>
     (case r of
        Until_Ended s \<Rightarrow> child_later (child w) (Child_Zombie s) \<and> child w1 = Child_Reaped
      | Until_Failed e \<Rightarrow> child w = Child_Reaped \<and> child w1 = Child_Reaped \<and> e = echild
      | Until_Timeout \<Rightarrow> child_later (child w) (child w1))"
proof -
  obtain now w0 where t: "clock_ms lw w = (now, w0)" by fastforce
  then have later: "child_later (child w) (child w0)" using assms unfolding honest_launcher_def by (metis snd_conv)
  from until_returns [OF assms, of "now + 2000" w0] obtain r w1 where
    r: "iterate_calls (until_pass lw (now + 2000)) w0 = Some (r, w1)"
      "case r of Until_Ended s \<Rightarrow> child_later (child w0) (Child_Zombie s) \<and> child w1 = Child_Reaped
       | Until_Failed e \<Rightarrow> child w0 = Child_Reaped \<and> child w1 = Child_Reaped \<and> e = echild
       | Until_Timeout \<Rightarrow> child_later (child w0) (child w1)" by blast
  have "child w = Child_Reaped" if "child w0 = Child_Reaped" using later that by (cases "child w") auto
  with later r show ?thesis
    by (intro exI [of _ r] exI [of _ w1]) (auto simp: wait_until_def t dest: child_later_trans split: until_result.splits)
qed

lemma wait_returns:
  assumes "honest_launcher lw child spare ms"
  shows "\<exists>a w1. retry_interrupted (wait_child lw) w = Some (a, w1) \<and> reaps_honestly (child w) a (child w1)
    \<and> a \<noteq> Wait_Interrupted \<and> a \<noteq> Wait_Running"
proof (induction "spare w" arbitrary: w rule: less_induct)
  case less
  obtain a w1 where c: "wait_child lw w = (a, w1)" by fastforce
  then have h: "reaps_honestly (child w) a (child w1)" "a \<noteq> Wait_Running"
    "a = Wait_Interrupted \<longrightarrow> spare w1 < spare w"
    using assms unfolding honest_launcher_def by (metis fst_conv snd_conv)+
  show ?case
  proof (cases "a = Wait_Interrupted")
    case False
    then have "retry_interrupted (wait_child lw) w = Some (a, w1)"
      unfolding retry_interrupted_def by (intro iterate_unfold(2)) (simp add: c)
    with h False show ?thesis by blast
  next
    case True
    then have "retry_interrupted (wait_child lw) w = retry_interrupted (wait_child lw) w1"
      unfolding retry_interrupted_def by (intro iterate_unfold(1)) (simp add: c)
    moreover from less.hyps [of w1] h(3) True obtain b w2 where
      "retry_interrupted (wait_child lw) w1 = Some (b, w2)" "reaps_honestly (child w1) b (child w2)"
      "b \<noteq> Wait_Interrupted" "b \<noteq> Wait_Running" by blast
    ultimately show ?thesis using reaps_after [of "child w" "child w1" b "child w2"] h(1) True by auto
  qed
qed

lemma honest_kill:
  "honest_launcher lw child spare ms \<Longrightarrow> child_later (child w) (child (kill_child lw n w))"
  by (simp add: honest_launcher_def)

text \<open>What reaping comes to, whether or not the process is still there.\<close>

lemma reap_returns:
  assumes "honest_launcher lw child spare ms"
  shows "\<exists>ok t w1. reap_helper_launcher lw w = Some ((ok, t), w1) \<and> child w1 = Child_Reaped
     \<and> (ok \<longrightarrow> (\<exists>s. child_later (child w) (Child_Zombie s) \<and> wifexited s \<and> wexitstatus s = 0))
     \<and> (ok \<longleftrightarrow> t = [])
     \<and> (starts_with ''NetLagLab: failed to reap privileged helper launcher'' t \<longleftrightarrow> child w = Child_Reaped)"
proof -
  have report: "report_helper_exit s \<noteq> []"
    "\<not> starts_with ''NetLagLab: failed to reap privileged helper launcher'' (report_helper_exit s)" for s
    by (simp_all add: report_helper_exit_def)
  from wait_until_returns [OF assms] obtain r w1 where r: "wait_until lw w = Some (r, w1)"
    "case r of Until_Ended s \<Rightarrow> child_later (child w) (Child_Zombie s) \<and> child w1 = Child_Reaped
     | Until_Failed e \<Rightarrow> child w = Child_Reaped \<and> child w1 = Child_Reaped \<and> e = echild
     | Until_Timeout \<Rightarrow> child_later (child w) (child w1)" by blast
  show ?thesis
  proof (cases r)
    case (Until_Ended s)
    then have "child w \<noteq> Child_Reaped" using r(2) by (cases "child w") auto
    with Until_Ended r report [of s] show ?thesis by (auto simp: reap_helper_launcher_def)
  next
    case (Until_Failed e)
    with r show ?thesis by (intro exI [of _ False]) (simp add: reap_helper_launcher_def reap_text_def)
  next
    case Until_Timeout
    define w2 where "w2 = kill_child lw launcher_sigterm w1"
    have w2: "child_later (child w) (child w2)"
      using r(2) Until_Timeout honest_kill [OF assms, of w1 launcher_sigterm] by (auto simp: w2_def dest: child_later_trans)
    from wait_until_returns [OF assms] obtain r2 w3 where r2: "wait_until lw w2 = Some (r2, w3)"
      "case r2 of Until_Ended s \<Rightarrow> child_later (child w2) (Child_Zombie s) \<and> child w3 = Child_Reaped
       | Until_Failed e \<Rightarrow> child w2 = Child_Reaped \<and> child w3 = Child_Reaped \<and> e = echild
       | Until_Timeout \<Rightarrow> child_later (child w2) (child w3)" by blast
    have gone: "child w = Child_Reaped \<longleftrightarrow> child w2 = Child_Reaped"
      using w2 by (cases "child w") auto
    show ?thesis
    proof (cases r2)
      case (Until_Ended s)
      then have "child w2 \<noteq> Child_Reaped" using r2(2) by (cases "child w2") auto
      with Until_Ended r(1) r2 Until_Timeout gone show ?thesis
        by (intro exI [of _ False]) (simp add: reap_helper_launcher_def reap_after_term_def reap_text_def flip: w2_def)
    next
      case (Until_Failed e)
      with r(1) r2 \<open>r = Until_Timeout\<close> gone show ?thesis
        by (intro exI [of _ False]) (simp add: reap_helper_launcher_def reap_after_term_def reap_text_def flip: w2_def)
    next
      case Until_Timeout
      define w4 where "w4 = kill_child lw launcher_sigkill w3"
      have "child_later (child w2) (child w4)"
        using r2(2) Until_Timeout honest_kill [OF assms, of w3 launcher_sigkill] by (auto simp: w4_def dest: child_later_trans)
      then have gone4: "child w2 = Child_Reaped \<longleftrightarrow> child w4 = Child_Reaped" by (cases "child w2") auto
      obtain a w5 where a: "retry_interrupted (wait_child lw) w4 = Some (a, w5)"
        "reaps_honestly (child w4) a (child w5)" "a \<noteq> Wait_Interrupted" "a \<noteq> Wait_Running"
        using wait_returns [OF assms] by blast
      have "child w5 = Child_Reaped" using a(2-4) by (cases a) auto
      moreover have "(\<exists>s. a = Wait_Ended s) \<longleftrightarrow> child w4 \<noteq> Child_Reaped"
        using a(2-4) by (cases a; cases "child w4") auto
      ultimately show ?thesis
        using r(1) r2(1) a(1,3,4) \<open>r = Until_Timeout\<close> Until_Timeout gone gone4
        by (intro exI [of _ False]) (cases a; auto simp: reap_helper_launcher_def reap_after_term_def reap_after_kill_def reap_text_def
            simp flip: w2_def w4_def)
    qed
  qed
qed

text \<open>The launcher of the helper never stays behind: whatever it does and however often the calls
  are interrupted, reaping returns, the process is reaped then, and success is reported only for
  one that exited with code 0, in silence.\<close>

theorem launcher_always_reaped:
  assumes "honest_launcher lw child spare ms"
  shows "\<exists>ok t w1. reap_helper_launcher lw w = Some ((ok, t), w1) \<and> child w1 = Child_Reaped
     \<and> (ok \<longleftrightarrow> t = [])
     \<and> (ok \<longrightarrow> (\<exists>s. child_later (child w) (Child_Zombie s) \<and> wifexited s \<and> wexitstatus s = 0))"
  using reap_returns [OF assms, of w] by blast

text \<open>A launcher that ignores SIGTERM: the state is the clock and whether it was killed or reaped.\<close>

definition stubborn :: "(int \<times> child) launcher_world" where
  "stubborn =
     \<lparr>look_child = \<lambda>(t, c). (case c of Child_Running \<Rightarrow> Wait_Running | Child_Zombie s \<Rightarrow> Wait_Ended s
          | Child_Reaped \<Rightarrow> Wait_Failed echild, t, c),
      poll_child = \<lambda>(t, c). (case c of Child_Running \<Rightarrow> (Wait_Running, t, c)
          | Child_Zombie s \<Rightarrow> (Wait_Ended s, t, Child_Reaped) | Child_Reaped \<Rightarrow> (Wait_Failed echild, t, c)),
      wait_child = \<lambda>(t, c). (case c of Child_Running \<Rightarrow> (Wait_Ended 0, t + 1000, Child_Reaped)
          | Child_Zombie s \<Rightarrow> (Wait_Ended s, t, Child_Reaped) | Child_Reaped \<Rightarrow> (Wait_Failed echild, t, c)),
      kill_child = \<lambda>n (t, c). (t, if c = Child_Running \<and> n = launcher_sigkill then Child_Zombie n else c),
      clock_ms = \<lambda>(t, c). (t, t, c),
      sleep_ms = \<lambda>n (t, c). (t + int n, c),
      connect_helper = \<lambda>w. (Inl (Connection_Failed enoent), w),
      lstat_helper = \<lambda>w. (None, w), peer_of = \<lambda>w. (None, w), stat_files = \<lambda>_ _. None,
      user_of = 1000, child_pid = 42, error_text = \<lambda>_. ''No child processes''\<rparr>"

lemma stubborn_honest: "honest_launcher stubborn snd (\<lambda>_. 0) fst"
  by (auto simp: honest_launcher_def stubborn_def split: child.split)

theorem launcher_always_reaped_witness:
  "\<exists>ok t w1. reap_helper_launcher stubborn (0, Child_Running) = Some ((ok, t), w1) \<and> snd w1 = Child_Reaped"
  using launcher_always_reaped [OF stubborn_honest, of "(0, Child_Running)"] by blast

text \<open>A defect: when the launcher ends before the helper's socket appears, as it does when the user
  is refused by \<open>sudo\<close>, its status has been taken and reported by \<open>wait_for_helper_connection\<close>; the
  reaping that \<open>run_session\<close> performs all the same always reports a failure that did not happen.\<close>

theorem reaped_launcher_reported_again:
  assumes "honest_launcher lw child spare ms" "child w = Child_Reaped"
  shows "\<exists>t w1. reap_helper_launcher lw w = Some ((False, t), w1)
    \<and> starts_with ''NetLagLab: failed to reap privileged helper launcher'' t"
proof -
  from reap_returns [OF assms(1), of w] assms(2) obtain ok t w1 where
    "reap_helper_launcher lw w = Some ((ok, t), w1)" "ok \<longleftrightarrow> t = []"
    "starts_with ''NetLagLab: failed to reap privileged helper launcher'' t" by blast
  then show ?thesis by (cases ok) auto
qed

theorem reaped_launcher_reported_again_witness:
  "wait_for_helper_connection stubborn (0, Child_Zombie 256)
     = Some (Inl (''NetLagLab: privileged helper launcher exited; exit code: 1'' @ [newline]), (0, Child_Reaped))
   \<and> (\<exists>t w1. reap_helper_launcher stubborn (0, Child_Reaped) = Some ((False, t), w1)
        \<and> starts_with ''NetLagLab: failed to reap privileged helper launcher'' t)"
proof
  show "wait_for_helper_connection stubborn (0, Child_Zombie 256)
     = Some (Inl (''NetLagLab: privileged helper launcher exited; exit code: 1'' @ [newline]), (0, Child_Reaped))"
    unfolding wait_for_helper_connection_def stubborn_def by code_simp
  show "\<exists>t w1. reap_helper_launcher stubborn (0, Child_Reaped) = Some ((False, t), w1)
        \<and> starts_with ''NetLagLab: failed to reap privileged helper launcher'' t"
    using reaped_launcher_reported_again [OF stubborn_honest, of "(0, Child_Reaped)"] by simp
qed

end
