(* ===== verification/Session_Start_Laws.thy ===== *)
theory Session_Start_Laws
  imports Session_Start Helper_Start_Laws Launcher_Laws
begin

text \<open>
  The two processes of a session at its start: the arguments the supervisor gives are those the
  helper reads, the files it has made are those the helper accepts, what it sends arrives, and the
  launcher is never left behind.
\<close>

section \<open>Arguments\<close>

lemma whole_number_signed [simp]:
  "int_min \<le> i \<Longrightarrow> i \<le> int_max \<Longrightarrow> whole_number (from_chars_signed int_min int_max (to_string_int i)) = Some i"
  by simp

lemma whole_number_unsigned [simp]:
  "n \<le> m \<Longrightarrow> whole_number (from_chars_unsigned m (to_string_nat n)) = Some n"
  by simp

lemma spawned_arguments_parse:
  assumes "1 < pid" "pid \<le> int_max" "0 < start" "start \<le> uint64_max" "runtime \<noteq> []" "hd runtime = CHR ''/''"
  shows "parse_helper_arguments (drop 2 (spawn_arguments path runtime pid start))
    = Inr \<lparr>arg_runtime_directory = runtime, arg_supervisor_pid = pid, arg_start_time = start\<rparr>"
  using assms
  by (simp add: spawn_arguments_def parse_helper_arguments_def parse_supervisor_pid_def
      parse_supervisor_start_time_def int_min_def)

section \<open>The start block\<close>

text \<open>The reads come one after the other, each within 29 seconds of \<open>t0\<close>.\<close>

definition in_time :: "'w start_world \<Rightarrow> int \<Rightarrow> 'w \<Rightarrow> bool" where
  "in_time sw t0 w \<longleftrightarrow> snd (sw_now sw w) = w \<and> t0 \<le> fst (sw_now sw w) \<and> fst (sw_now sw w) \<le> t0 + 29 * 10 ^ 9"

fun delivers :: "'w start_world \<Rightarrow> int \<Rightarrow> string list \<Rightarrow> 'w \<Rightarrow> 'w \<Rightarrow> bool" where
  "delivers sw t0 [] w w' \<longleftrightarrow> w = w'"
| "delivers sw t0 (r # rs) w w' \<longleftrightarrow> in_time sw t0 w \<and>
     (\<exists>w1 w2. (\<forall>timeout. sw_block_poll sw timeout w = (Block_Poll_Ready, w1)) \<and> sw_read sw w1 = (Some r, w2)
        \<and> in_time sw t0 w2 \<and> delivers sw t0 rs w2 w')"

lemma start_pass_delivered:
  assumes "in_time sw t0 w" "\<forall>timeout. sw_block_poll sw timeout w = (Block_Poll_Ready, w1)" "sw_read sw w1 = (Some r, w2)"
    and "\<forall>d. deadline = Some d \<longrightarrow> t0 + start_block_limit \<le> d"
  shows "start_block_pass sw ((conversation, deadline), w) = take_start_bytes sw r (conversation, deadline) w2"
proof (cases deadline)
  case None
  then show ?thesis using assms(2,3) by (simp add: start_block_pass_def)
next
  case (Some d)
  obtain now where now: "sw_now sw w = (now, w)" "now \<le> t0 + 29 * 10 ^ 9"
    using assms(1) by (cases "sw_now sw w") (auto simp: in_time_def)
  have "now \<le> d" "10 ^ 6 \<le> d - now" using assms(4) now(2) Some by (simp_all add: start_block_limit_def)
  then have "1 \<le> milliseconds_left d now"
    by (simp add: milliseconds_left_def zdiv_mono1 [of "10 ^ 6" "d - now" "10 ^ 6", simplified])
  then show ?thesis using assms(2,3) now(1) Some by (simp add: start_block_pass_def)
qed

lemma read_start_block_delivered:
  assumes "start_feed conversation reads = replicate (length reads - 1) (Block_Incomplete, None) @ [(Block_Complete, Some c)]"
    and "reads \<noteq> []" "delivers sw t0 reads w w'" "\<forall>d. deadline = Some d \<longrightarrow> t0 + start_block_limit \<le> d"
  shows "iterate (start_block_pass sw) ((conversation, deadline), w) = Some (Some c, w')"
  using assms
proof (induction reads arbitrary: conversation deadline w)
  case (Cons r reads)
  from Cons.prems(3) obtain w1 w2 where d: "in_time sw t0 w" "\<forall>timeout. sw_block_poll sw timeout w = (Block_Poll_Ready, w1)"
    "sw_read sw w1 = (Some r, w2)" "in_time sw t0 w2" "delivers sw t0 reads w2 w'" by auto
  obtain conversation1 result where step: "start_receive_bytes conversation r = (conversation1, result)"
    by (metis surj_pair)
  obtain now where now: "sw_now sw w2 = (now, w2)" "t0 \<le> now"
    using d(4) by (cases "sw_now sw w2") (auto simp: in_time_def)
  define deadline1 where "deadline1 = (if deadline = None \<and> sc_started conversation1 then Some (now + start_block_limit) else deadline)"
  have limit: "\<forall>d. deadline1 = Some d \<longrightarrow> t0 + start_block_limit \<le> d"
    using Cons.prems(4) now(2) by (auto simp: deadline1_def)
  have pass: "start_block_pass sw ((conversation, deadline), w)
      = (case fst result of
           Block_Invalid \<Rightarrow> Inr (None, sw_error sw (helper_says ''invalid Workload start block'')
               (send_helper_error sw ''Invalid Workload start block.'' w2))
         | Block_Complete \<Rightarrow> Inr (snd result, w2)
         | Block_Incomplete \<Rightarrow> Inl ((conversation1, deadline1), w2))"
    using start_pass_delivered [OF d(1-3) Cons.prems(4), of conversation]
    by (simp add: take_start_bytes_def step now(1) deadline1_def split: start_block_state.split)
  show ?case
  proof (cases "reads = []")
    case True
    with Cons.prems(1) step have "result = (Block_Complete, Some c)" by simp
    with pass True d(5) show ?thesis by (intro iterate_unfold(2)) simp
  next
    case False
    then obtain n where n: "length reads = Suc n" by (cases reads) simp_all
    with Cons.prems(1) step have "result = (Block_Incomplete, None)"
      "start_feed conversation1 reads = replicate (length reads - 1) (Block_Incomplete, None) @ [(Block_Complete, Some c)]"
      by simp_all
    with pass Cons.IH [OF _ False d(5) limit] show ?thesis
      by (subst iterate_unfold(1)) simp_all
  qed
qed simp

section \<open>The supervisor and its helper\<close>

text \<open>A world in which process \<open>pid\<close> of the user connects and sends \<open>block\<close>.\<close>

definition cooperative ::
  "'w start_world \<Rightarrow> int \<Rightarrow> nat \<Rightarrow> nat \<Rightarrow> nat \<Rightarrow> nat list \<Rightarrow> received_message \<Rightarrow> string \<Rightarrow> 'w \<Rightarrow> 'w \<Rightarrow> bool" where
  "cooperative sw pid start uid gid groups m block w w' \<longleftrightarrow>
     sw_getenv sw ''SUDO_UID'' = Some (to_string_nat uid) \<and> sw_getenv sw ''SUDO_GID'' = Some (to_string_nat gid)
     \<and> uid \<le> uint32_max \<and> gid \<le> uint32_max
     \<and> (\<exists>w1 w2 w3 w4 w5 w6 t0 reads parent.
          sw_pidfd sw pid w = (Inr (), w1)
          \<and> read_process_status (sw_stat_file sw w1) pid = Some \<lparr>parent_pid = parent, start_time_ticks = start\<rparr>
          \<and> accept_supervisor sw w1 = Some (Inr (), w2)
          \<and> sw_peer sw w2 = (Some \<lparr>peer_pid = pid, peer_uid = uid, peer_gid = gid\<rparr>, w3)
          \<and> read_peer_groups (sw_status_file sw w3 pid) = Inr groups
          \<and> sw_ignore_interrupt sw w3 = (True, w4)
          \<and> sw_send sw (helper_conversation_event_message ReadyEvent) w4 = (True, w5)
          \<and> sw_recvmsg sw w5 = (Recv_Returned m, w6)
          \<and> concat reads = block \<and> reads \<noteq> [] \<and> last reads \<noteq> [] \<and> delivers sw t0 reads w6 w')"

lemma stale_absent:
  "host_faults h = Map.empty \<Longrightarrow> host_nodes h (socket_node_path o1) = None \<Longrightarrow> remove_stale o1 h = (Inr (), h)"
  by (simp add: remove_stale_def stat_node_def Let_def)

lemma create_socket_for:
  assumes "host_faults h = Map.empty" "host_nodes h (owner_socket_path o1) = None"
    and "length (owner_socket_path o1) < sun_path_size"
  shows "\<exists>h1. create_listening_socket o1 h = (Inr (), o1\<lparr>owner_owned := True\<rparr>, h1) \<and> host_faults h1 = Map.empty"
  using assms by (simp add: create_listening_socket_def Let_def add_node_def)

text \<open>C17: the helper accepts its own supervisor: after the supervisor has made its files and run the
  helper as root with the arguments of \<open>spawn_helper\<close>, a helper whose calls succeed, whose peer is
  that process and that reads the start block, cut into reads at will, within 29 seconds begins the
  session with exactly the context, the user and the standard descriptors of the supervisor.\<close>

theorem helper_accepts_its_supervisor:
  assumes "prepare_session_files (session_paths_of runtime) h = (Inr u, h1)" "host_faults h = Map.empty"
    and "runtime \<noteq> []" "hd runtime = CHR ''/''" "length (helper_socket (session_paths_of runtime)) < sun_path_size"
    and "host_nodes h (helper_socket (session_paths_of runtime)) = None"
    and "1 < pid" "pid \<le> int_max" "0 < start" "start \<le> uint64_max"
    and "serialize_start_block c = Some block"
    and "cooperative sw pid start (host_euid h) gid groups
       (delivered renumber (standard_descriptor_message state [0, 1, 2])) block w w'"
  shows "\<exists>h2. start_helper sw (drop 2 (spawn_arguments path runtime pid start)) (h1\<lparr>host_euid := 0\<rparr>, w)
    = Some (Inr \<lparr>start_context = c,
         start_identity = \<lparr>identity_uid = host_euid h, identity_gid = gid, identity_groups = groups\<rparr>,
         start_sources = map (\<lambda>d. case state d of Descriptor_Closed \<Rightarrow> Source_Closed
            | Descriptor_Terminal \<Rightarrow> Source_Inherited | Descriptor_Other \<Rightarrow> Source_Descriptor (renumber d)) [0, 1, 2]\<rparr>,
       h2, w')"
proof -
  define root where "root = h1\<lparr>host_euid := 0\<rparr>"
  define uid where "uid = host_euid h"
  define o1 where "o1 = owner_of_helper_socket (session_paths_of runtime) uid"
  define directory where "directory = join_path runtime session_directory_name"
  have o1: "owner_socket_path o1 = helper_socket (session_paths_of runtime)" "socket_node_path o1 = helper_socket (session_paths_of runtime)"
    by (simp_all add: o1_def owner_of_helper_socket_def socket_node_path_def session_paths_of_def Let_def)
  note p = prepare_ready [OF assms(1,2)]
  have "ready_session root uid runtime"
    using p(1) by (simp add: root_def uid_def ready_session_def private_directory_def exact_node_def Let_def)
  moreover have faults: "host_faults root = Map.empty" using p(2) by (simp add: root_def)
  ultimately have valid: "validate_session (session_paths_of runtime) uid root = Inr ()" by (rule ready_validate)
  have "helper_socket (session_paths_of runtime) \<noteq> directory" "helper_socket (session_paths_of runtime) \<noteq> join_path directory lock_file_name"
    by (simp_all add: session_paths_of_def Let_def directory_def)
  then have absent: "host_nodes root (helper_socket (session_paths_of runtime)) = None"
    using p(5) [of "helper_socket (session_paths_of runtime)"] assms(6) by (simp add: root_def directory_def)
  have stale: "remove_stale o1 root = (Inr (), root)" using stale_absent [OF faults] absent o1 by simp
  obtain h2 where made: "create_listening_socket o1 root = (Inr (), o1\<lparr>owner_owned := True\<rparr>, h2)" "host_faults h2 = Map.empty"
    using create_socket_for [OF faults, of o1] absent o1 assms(5) by auto
  obtain o3 h3 where clean: "cleanup_helper_listener sw (o1\<lparr>owner_owned := True\<rparr>) (h2, v) = (True, o3, h3, v)" for v
    using remove_owned_effect(1) [of h2 "o1\<lparr>owner_owned := True\<rparr>"] made(2)
    by (cases "remove_owned (o1\<lparr>owner_owned := True\<rparr>) h2") (auto simp: cleanup_helper_listener_def)
  from assms(12) obtain w1 w2 w3 w4 w5 w6 t0 reads parent where
    ids: "read_invoking_ids (sw_getenv sw) = Inr (uid, gid)" and
    calls: "sw_pidfd sw pid w = (Inr (), w1)"
      "read_process_status (sw_stat_file sw w1) pid = Some \<lparr>parent_pid = parent, start_time_ticks = start\<rparr>"
      "accept_supervisor sw w1 = Some (Inr (), w2)"
      "sw_peer sw w2 = (Some \<lparr>peer_pid = pid, peer_uid = uid, peer_gid = gid\<rparr>, w3)"
      "read_peer_groups (sw_status_file sw w3 pid) = Inr groups" "sw_ignore_interrupt sw w3 = (True, w4)"
      "sw_send sw (helper_conversation_event_message ReadyEvent) w4 = (True, w5)"
      "sw_recvmsg sw w5 = (Recv_Returned (delivered renumber (standard_descriptor_message state [0, 1, 2])), w6)" and
    reads: "concat reads = block" "reads \<noteq> []" "last reads \<noteq> []" "delivers sw t0 reads w6 w'"
    by (auto simp: cooperative_def read_invoking_ids_def read_sudo_id_def uid_def)
  have "start_feed new_start_conversation reads = replicate (length reads - 1) (Block_Incomplete, None) @ [(Block_Complete, Some c)]"
    using assms(11) reads(1-3) by (intro start_block_fed) simp_all
  from read_start_block_delivered [OF this reads(2,4), of None]
  have block: "read_start_block sw w6 = Some (Some c, w')" by (simp add: read_start_block_def)
  define sources where "sources = map (\<lambda>d. case state d of Descriptor_Closed \<Rightarrow> Source_Closed
            | Descriptor_Terminal \<Rightarrow> Source_Inherited | Descriptor_Other \<Rightarrow> Source_Descriptor (renumber d)) [0, 1, 2]"
  have descriptors: "\<exists>r. receive_standard_descriptors (sw_recvmsg sw) w5 = Some ((Some r, []), w6) \<and> standard_sources r = sources"
    unfolding receive_standard_descriptors_def
    by (subst iterate_unfold(2), simp add: recv_pass_def calls(8) three_slots)
      (simp add: standard_sources_def sources_def slot_descriptor_def split: descriptor_state.split)
  define s where "s = \<lparr>start_context = c,
     start_identity = \<lparr>identity_uid = uid, identity_gid = gid, identity_groups = groups\<rparr>, start_sources = sources\<rparr>"
  have "converse sw \<lparr>identity_uid = uid, identity_gid = gid, identity_groups = groups\<rparr> (h3, w3) = Some (Inr s, h3, w')"
    using descriptors by (auto simp: converse_def calls(6) calls(7) [simplified] block s_def)
  then have "admit_peer sw \<lparr>arg_runtime_directory = runtime, arg_supervisor_pid = pid, arg_start_time = start\<rparr> uid gid
      (o1\<lparr>owner_owned := True\<rparr>) (h2, w2) = Some (Inr s, h3, w')"
    by (simp add: admit_peer_def calls(4,5) clean)
  then have "listen_for_supervisor sw \<lparr>arg_runtime_directory = runtime, arg_supervisor_pid = pid, arg_start_time = start\<rparr>
      uid gid (root, w1) = Some (Inr s, h3, w')"
    by (simp add: listen_for_supervisor_def Let_def valid stale made(1) calls(3) flip: o1_def)
  then have "start_helper sw (drop 2 (spawn_arguments path runtime pid start)) (root, w) = Some (Inr s, h3, w')"
    using spawned_arguments_parse [OF assms(7-10,3,4), of path] calls(1,2) ids
    by (simp add: start_helper_def root_def)
  then show ?thesis by (auto simp: s_def sources_def uid_def root_def)
qed

lemma demo_cooperative:
  "cooperative demo_world 42 77 1000 1000 [4, 27]
     (delivered (\<lambda>d. d) (standard_descriptor_message (\<lambda>_. Descriptor_Terminal) [0, 1, 2])) demo_block () ()"
proof -
  have numbers: "to_string_nat 1000 = ''1000''"
    using to_string_dec_value [of "''1000''"] by (simp add: dec_value_def digit_value_def is_digit_def byte_of_def)
  have status: "read_process_status (sw_stat_file demo_world ()) 42 = Some \<lparr>parent_pid = 1, start_time_ticks = 77\<rparr>"
    by (simp add: demo_world_def read_process_status_def getline_all.simps stat_fields.simps
        parse_process_status_def demo_numbers)
  have groups: "read_peer_groups (sw_status_file demo_world () 42) = Inr [4, 27]"
    by (simp add: demo_world_def read_peer_groups_def getline_all.simps groups_prefix_def group_values.simps
        group_blank_def demo_numbers maximum_groups_def)
  have delivered: "delivers demo_world 0 [demo_block] () ()"
    by (simp add: demo_world_def in_time_def)
  have message: "sw_recvmsg demo_world () = (Recv_Returned (delivered (\<lambda>d. d)
      (standard_descriptor_message (\<lambda>_. Descriptor_Terminal) [0, 1, 2])), ())"
    by (simp add: demo_world_def delivered_def standard_descriptor_message_def)
  have "sw_getenv demo_world v = Some ''1000''" "sw_pidfd demo_world p () = (Inr (), ())"
    "sw_peer demo_world () = (Some \<lparr>peer_pid = 42, peer_uid = 1000, peer_gid = 1000\<rparr>, ())"
    "sw_ignore_interrupt demo_world () = (True, ())" "sw_send demo_world m () = (True, ())" for v p m
    by (simp_all add: demo_world_def)
  with status groups delivered message show ?thesis
    unfolding cooperative_def numbers
    by (intro conjI exI [of _ "()"] exI [of _ 0] exI [of _ "[demo_block]"] exI [of _ 1])
      (simp_all add: demo_accept uint32_max_def demo_block_def)
qed

theorem helper_accepts_its_supervisor_witness:
  "\<exists>h1 h2. start_helper demo_world (drop 2 (spawn_arguments ''/netlaglab-helper'' ''/r'' 42 77)) (h1, ())
     = Some (Inr \<lparr>start_context = demo_context,
         start_identity = \<lparr>identity_uid = 1000, identity_gid = 1000, identity_groups = [4, 27]\<rparr>,
         start_sources = [Source_Inherited, Source_Inherited, Source_Inherited]\<rparr>, h2, ())"
proof -
  define h1 where "h1 = snd (prepare_session_files (session_paths_of ''/r'') plain_host)"
  have "prepare_session_files (session_paths_of ''/r'') plain_host = (Inr (), h1)"
    unfolding h1_def by (simp add: session_files_defs plain_host_def Let_def)
  moreover have "host_faults plain_host = Map.empty" "host_euid plain_host = 1000"
    "host_nodes plain_host (helper_socket (session_paths_of ''/r'')) = None"
    "length (helper_socket (session_paths_of ''/r'')) < sun_path_size"
    by (simp_all add: plain_host_def session_paths_of_def Let_def session_files_defs helper_socket_name_def)
  moreover have "serialize_start_block demo_context = Some demo_block"
    by (simp add: demo_context_def demo_block_def serialize_start_block_def append_encoded_line_def
        contains_nul_def add_size_def hex_digits_def byte_of_def uint64_max_def maximum_context_value_size_def
        maximum_context_total_size_def maximum_context_entry_count_def)
  ultimately have "\<exists>h2. start_helper demo_world (drop 2 (spawn_arguments ''/netlaglab-helper'' ''/r'' 42 77))
      (h1\<lparr>host_euid := 0\<rparr>, ()) = Some (Inr \<lparr>start_context = demo_context,
         start_identity = \<lparr>identity_uid = 1000, identity_gid = 1000, identity_groups = [4, 27]\<rparr>,
         start_sources = map (\<lambda>d. case Descriptor_Terminal of Descriptor_Closed \<Rightarrow> Source_Closed
            | Descriptor_Terminal \<Rightarrow> Source_Inherited | Descriptor_Other \<Rightarrow> Source_Descriptor d) [0, 1, 2 :: int]\<rparr>, h2, ())"
    using helper_accepts_its_supervisor [of "''/r''" plain_host "()" h1 42 77 demo_context demo_block demo_world 1000
        "[4, 27]" "\<lambda>d. d" "\<lambda>_. Descriptor_Terminal" "()" "()" "''/netlaglab-helper''"] demo_cooperative
    by (simp add: int_max_def uint64_max_def)
  then show ?thesis by auto
qed

end
