(* ===== verification/Control_Commands.thy ===== *)
theory Control_Commands
  imports Helper_Messages
begin

text \<open>
  The command language of the controller, the first half of
  \<open>src/controller_control_plane.cpp\<close>: tokens, numbers with units, the parser and the error
  responses. The main law: every Profile Change the parser accepts is one that a default profile
  accepts and that can be sent to the helper.
\<close>

section \<open>Data\<close>

datatype controller_parse_error =
    Command_Too_Long
  | Invalid_Character
  | Unknown_Command
  | Wrong_Argument_Count
  | Invalid_Direction
  | Invalid_Setting
  | Invalid_Number
  | Invalid_Unit
  | Value_Out_Of_Range
  | Value_Overflow
  | Value_Underflow

datatype controller_command =
    HelpControllerCommand
  | StatusControllerCommand
  | ChangeControllerCommand profile_change
  | StopControllerCommand
  | DetachControllerCommand

datatype controller_parse_result =
    Parsed_Command controller_command
  | IgnoredControllerCommand
  | Parse_Error controller_parse_error

definition maximum_controller_command_size :: nat where
  "maximum_controller_command_size = 1024"

section \<open>Tokens and numbers\<close>

definition is_token_separator :: "char \<Rightarrow> bool" where
  "is_token_separator c \<longleftrightarrow> c = CHR '' '' \<or> c = CHR 0x09"

function tokenize :: "string \<Rightarrow> string list" where
  "tokenize line =
     (let start = dropWhile is_token_separator line
      in if start = [] then []
         else takeWhile (\<lambda>c. \<not> is_token_separator c) start
              # tokenize (dropWhile (\<lambda>c. \<not> is_token_separator c) start))"
  by pat_completeness auto
termination
proof (relation "measure length")
  fix line start
  assume start: "start = dropWhile is_token_separator line" and ne: "start \<noteq> []"
  from ne obtain c s where cs: "start = c # s" by (cases start) auto
  with start have "\<not> is_token_separator c" by (metis hd_dropWhile list.sel(1) ne)
  then have "length (dropWhile (\<lambda>c. \<not> is_token_separator c) start) < length start"
    using length_dropWhile_le [of "\<lambda>c. \<not> is_token_separator c" s] by (simp add: cs)
  also have "length start \<le> length line" unfolding start by (rule length_dropWhile_le)
  finally show "(dropWhile (\<lambda>c. \<not> is_token_separator c) start, line) \<in> measure length" by simp
qed simp

declare tokenize.simps [simp del]

definition controller_direction :: "string \<Rightarrow> traffic_direction option" where
  "controller_direction token =
     (if token = ''outbound'' then Some Outbound
      else if token = ''inbound'' then Some Inbound else None)"

definition controller_setting :: "string \<Rightarrow> network_setting option" where
  "controller_setting token =
     (if token = ''delay'' then Some Delay
      else if token = ''jitter'' then Some Jitter
      else if token = ''loss'' then Some Packet_Loss
      else if token = ''bandwidth'' then Some Bandwidth else None)"

definition is_decimal_integer :: "string \<Rightarrow> bool" where
  "is_decimal_integer value \<longleftrightarrow> value \<noteq> [] \<and> list_all is_digit value"

text \<open>The loop of \<open>is_loss_decimal\<close>: the point seen, and the digits after it.\<close>

fun scan_loss :: "bool \<Rightarrow> nat \<Rightarrow> string \<Rightarrow> (bool \<times> nat) option" where
  "scan_loss saw digits [] = Some (saw, digits)"
| "scan_loss saw digits (c # cs) =
     (if is_digit c then scan_loss saw (if saw then digits + 1 else digits) cs
      else if c = CHR ''.'' \<and> \<not> saw then scan_loss True digits cs
      else None)"

definition is_loss_decimal :: "string \<Rightarrow> bool" where
  "is_loss_decimal value =
     (if value = [] then False
      else case scan_loss False 0 value of
        None \<Rightarrow> False
      | Some (saw, digits) \<Rightarrow> hd value \<noteq> CHR ''.'' \<and> (\<not> saw \<or> digits \<noteq> 0))"

definition is_unit_start :: "char \<Rightarrow> bool" where
  "is_unit_start c \<longleftrightarrow> (65 \<le> byte_of c \<and> byte_of c \<le> 90) \<or> (97 \<le> byte_of c \<and> byte_of c \<le> 122)
     \<or> c = CHR ''%''"

definition split_attached_unit :: "string \<Rightarrow> string \<times> string" where
  "split_attached_unit token =
     (takeWhile (\<lambda>c. \<not> is_unit_start c) token, dropWhile (\<lambda>c. \<not> is_unit_start c) token)"

definition decimal_is_zero :: "string \<Rightarrow> bool" where
  "decimal_is_zero value \<longleftrightarrow> list_all (\<lambda>c. \<not> (49 \<le> byte_of c \<and> byte_of c \<le> 57)) value"

definition parse_scaled_unsigned :: "string \<Rightarrow> nat \<Rightarrow> nat \<Rightarrow> controller_parse_error + nat" where
  "parse_scaled_unsigned number scale maximum =
     (case from_chars_unsigned uint64_max number of
        Result_Out_Of_Range \<Rightarrow> Inl Value_Overflow
      | Invalid_Argument \<Rightarrow> Inl Invalid_Number
      | Parsed parsed rest \<Rightarrow>
          (if rest \<noteq> [] then Inl Invalid_Number
           else if maximum div scale < parsed then Inl Value_Overflow
           else Inr (parsed * scale)))"

text \<open>\<open>operator<\<close> of \<open>std::string_view\<close>: byte by byte.\<close>

fun string_less :: "string \<Rightarrow> string \<Rightarrow> bool" where
  "string_less _ [] = False"
| "string_less [] (_ # _) = True"
| "string_less (a # as) (b # bs) =
     (if byte_of a < byte_of b then True else if byte_of b < byte_of a then False else string_less as bs)"

definition loss_is_out_of_range :: "string \<Rightarrow> bool" where
  "loss_is_out_of_range number =
     (let decimal_point = find_char (CHR ''.'') number;
          whole = (case decimal_point of None \<Rightarrow> number | Some n \<Rightarrow> take n number);
          stripped = dropWhile (\<lambda>c. c = CHR ''0'') whole;
          integer_part = (if stripped = [] then ''0'' else stripped)
      in if 3 < length integer_part \<or> (length integer_part = 3 \<and> string_less ''100'' integer_part)
         then True
         else if integer_part \<noteq> ''100'' \<or> decimal_point = None then False
         else \<not> decimal_is_zero (drop (the decimal_point + 1) number))"

definition parse_loss :: "string \<Rightarrow> controller_parse_error + double" where
  "parse_loss number =
     (if loss_is_out_of_range number then Inl Value_Out_Of_Range
      else
        (case from_chars_double False number of
           Result_Out_Of_Range \<Rightarrow> Inl Value_Underflow
         | Invalid_Argument \<Rightarrow>
             (if \<not> decimal_is_zero number then Inl Value_Underflow else Inl Invalid_Number)
         | Parsed v rest \<Rightarrow>
             (if dbl_eq v dbl_zero \<and> \<not> decimal_is_zero number then Inl Value_Underflow
              else if rest \<noteq> [] \<or> \<not> isfinite v then Inl Invalid_Number
              else Inr v)))"

section \<open>The parser\<close>

definition set_duration ::
  "traffic_direction \<Rightarrow> network_setting \<Rightarrow> string \<Rightarrow> string \<Rightarrow> controller_parse_result" where
  "set_duration direction setting number unt =
     (if unt \<noteq> ''s'' \<and> unt \<noteq> [] \<and> unt \<noteq> ''ms'' then Parse_Error Invalid_Unit
      else case parse_scaled_unsigned number (if unt = ''s'' then 1000 else 1) int64_max of
        Inl e \<Rightarrow> Parse_Error e
      | Inr v \<Rightarrow>
          (if setting = Delay then Parsed_Command (ChangeControllerCommand (SetDelay direction (of_nat v)))
           else Parsed_Command (ChangeControllerCommand (SetJitter direction (of_nat v)))))"

definition set_bandwidth :: "traffic_direction \<Rightarrow> string \<Rightarrow> string \<Rightarrow> controller_parse_result" where
  "set_bandwidth direction number unt =
     (if unt \<noteq> ''mbps'' \<and> unt \<noteq> [] \<and> unt \<noteq> ''kbps'' then Parse_Error Invalid_Unit
      else if decimal_is_zero number then Parse_Error Value_Out_Of_Range
      else case parse_scaled_unsigned number (if unt = ''mbps'' then 1000 else 1) uint64_max of
        Inl e \<Rightarrow> Parse_Error e
      | Inr v \<Rightarrow> Parsed_Command (ChangeControllerCommand (SetBandwidth direction (of_nat v))))"

definition set_loss :: "traffic_direction \<Rightarrow> string \<Rightarrow> string \<Rightarrow> controller_parse_result" where
  "set_loss direction number unt =
     (if unt \<noteq> [] \<and> unt \<noteq> ''%'' then Parse_Error Invalid_Unit
      else case parse_loss number of
        Inl e \<Rightarrow> Parse_Error e
      | Inr v \<Rightarrow> Parsed_Command (ChangeControllerCommand (SetPacketLoss direction v)))"

definition parse_set_command :: "string list \<Rightarrow> controller_parse_result" where
  "parse_set_command tokens =
     (if length tokens \<noteq> 4 \<and> length tokens \<noteq> 5 then Parse_Error Wrong_Argument_Count
      else case controller_direction (tokens ! 1) of
        None \<Rightarrow> Parse_Error Invalid_Direction
      | Some direction \<Rightarrow>
          (case controller_setting (tokens ! 2) of
             None \<Rightarrow> Parse_Error Invalid_Setting
           | Some setting \<Rightarrow>
               (let (number, unt) = (if length tokens = 5 then (tokens ! 3, tokens ! 4)
                                     else split_attached_unit (tokens ! 3))
                in if (setting = Packet_Loss \<and> \<not> is_loss_decimal number)
                      \<or> (setting \<noteq> Packet_Loss \<and> \<not> is_decimal_integer number)
                   then Parse_Error Invalid_Number
                   else if setting = Delay \<or> setting = Jitter
                   then set_duration direction setting number unt
                   else if setting = Bandwidth then set_bandwidth direction number unt
                   else set_loss direction number unt)))"

definition parse_reset_command :: "string list \<Rightarrow> controller_parse_result" where
  "parse_reset_command tokens =
     (if length tokens \<noteq> 3 then Parse_Error Wrong_Argument_Count
      else case controller_direction (tokens ! 1) of
        None \<Rightarrow> Parse_Error Invalid_Direction
      | Some direction \<Rightarrow>
          (case controller_setting (tokens ! 2) of
             None \<Rightarrow> Parse_Error Invalid_Setting
           | Some setting \<Rightarrow> Parsed_Command (ChangeControllerCommand (ResetSetting direction setting))))"

definition command_char :: "char \<Rightarrow> bool" where
  "command_char c \<longleftrightarrow> \<not> (c \<noteq> CHR 0x09 \<and> (byte_of c < 32 \<or> 126 < byte_of c))"

definition parse_controller_command :: "string \<Rightarrow> controller_parse_result" where
  "parse_controller_command line =
     (if maximum_controller_command_size < length line then Parse_Error Command_Too_Long
      else if \<not> list_all command_char line then Parse_Error Invalid_Character
      else
        (let tokens = tokenize line
         in if tokens = [] then IgnoredControllerCommand
            else
              (let command = hd tokens
               in if command \<notin> {''help'', ''status'', ''set'', ''reset'', ''stop'', ''detach''}
                  then Parse_Error Unknown_Command
                  else if command = ''set'' then parse_set_command tokens
                  else if command = ''reset'' then parse_reset_command tokens
                  else if length tokens \<noteq> 1 then Parse_Error Wrong_Argument_Count
                  else if command = ''help'' then Parsed_Command HelpControllerCommand
                  else if command = ''status'' then Parsed_Command StatusControllerCommand
                  else if command = ''stop'' then Parsed_Command StopControllerCommand
                  else if command = ''detach'' then Parsed_Command DetachControllerCommand
                  else Parse_Error Unknown_Command)))"

fun controller_parse_error_response :: "controller_parse_error \<Rightarrow> string" where
  "controller_parse_error_response Command_Too_Long = ''ERROR Command exceeds 1024 bytes.'' @ [newline]"
| "controller_parse_error_response Invalid_Character =
     ''ERROR Command contains an invalid character.'' @ [newline]"
| "controller_parse_error_response Unknown_Command = ''ERROR Unknown command.'' @ [newline]"
| "controller_parse_error_response Wrong_Argument_Count = ''ERROR Wrong number of arguments.'' @ [newline]"
| "controller_parse_error_response Invalid_Direction =
     ''ERROR Direction must be outbound or inbound.'' @ [newline]"
| "controller_parse_error_response Invalid_Setting =
     ''ERROR Setting must be delay, jitter, loss, or bandwidth.'' @ [newline]"
| "controller_parse_error_response Invalid_Number = ''ERROR Invalid numeric value.'' @ [newline]"
| "controller_parse_error_response Invalid_Unit = ''ERROR Invalid unit for setting.'' @ [newline]"
| "controller_parse_error_response Value_Out_Of_Range =
     ''ERROR Value is outside the allowed range.'' @ [newline]"
| "controller_parse_error_response Value_Overflow = ''ERROR Value is too large.'' @ [newline]"
| "controller_parse_error_response Value_Underflow = ''ERROR Value is too small to represent.'' @ [newline]"

section \<open>Accepted numbers\<close>

lemma parse_scaled_unsigned_bound:
  assumes "parse_scaled_unsigned number scale maximum = Inr v" "0 < scale"
  shows "v \<le> maximum"
proof -
  from assms obtain p where "p \<le> maximum div scale" "v = p * scale"
    by (auto simp: parse_scaled_unsigned_def not_less split: from_chars_result.splits if_splits)
  then have "v \<le> maximum div scale * scale" by simp
  also have "\<dots> \<le> maximum" by simp
  finally show ?thesis .
qed

lemma decimal_is_zero_digits:
  "list_all is_digit s \<Longrightarrow> decimal_is_zero s \<longleftrightarrow> dec_value s = 0"
proof (induction s)
  case Nil
  then show ?case by (simp add: decimal_is_zero_def)
next
  case (Cons c s)
  have "\<not> (49 \<le> byte_of c \<and> byte_of c \<le> 57) \<longleftrightarrow> digit_value c = 0"
    using Cons.prems by (auto simp: is_digit_def digit_value_def)
  with Cons show ?case by (auto simp: decimal_is_zero_def dec_value_Cons)
qed

lemma parse_scaled_unsigned_positive:
  assumes "parse_scaled_unsigned number scale maximum = Inr v" "0 < scale"
    and "list_all is_digit number" "\<not> decimal_is_zero number"
  shows "0 < v"
proof -
  from assms obtain p where "from_chars_unsigned uint64_max number = Parsed p []" "v = p * scale"
    by (auto simp: parse_scaled_unsigned_def split: from_chars_result.splits if_splits)
  with assms show ?thesis
    by (simp add: from_chars_unsigned_Parsed_complete decimal_is_zero_digits)
qed

section \<open>Accepted packet losses\<close>

lemma scan_loss_True: "scan_loss True d s = Some r \<longleftrightarrow> list_all is_digit s \<and> r = (True, d + length s)"
  by (induction s arbitrary: d) auto

lemma scan_loss_False:
  "scan_loss False d s = Some (saw, n) \<longleftrightarrow>
     (list_all is_digit s \<and> \<not> saw \<and> n = d)
     \<or> (saw \<and> (\<exists>ip fp. s = ip @ CHR ''.'' # fp \<and> list_all is_digit ip \<and> list_all is_digit fp
              \<and> n = d + length fp))"
proof (induction s arbitrary: d)
  case Nil
  then show ?case by auto
next
  case (Cons c s)
  consider (digit) "is_digit c" | (point) "c = CHR ''.''" | (other) "\<not> is_digit c" "c \<noteq> CHR ''.''" by blast
  then show ?case
  proof cases
    case digit
    then have ne: "c \<noteq> CHR ''.''" by auto
    have "(\<exists>ip fp. c # s = ip @ CHR ''.'' # fp \<and> list_all is_digit ip \<and> list_all is_digit fp \<and> n = d + length fp)
      \<longleftrightarrow> (\<exists>ip fp. s = ip @ CHR ''.'' # fp \<and> list_all is_digit ip \<and> list_all is_digit fp \<and> n = d + length fp)"
      (is "?L \<longleftrightarrow> ?R")
    proof
      assume ?L
      with ne show ?R by (auto simp: Cons_eq_append_conv) blast
    next
      assume ?R
      then obtain ip fp where "s = ip @ CHR ''.'' # fp" "list_all is_digit ip" "list_all is_digit fp"
        "n = d + length fp" by blast
      with digit show ?L by (intro exI [of _ "c # ip"] exI [of _ fp]) simp
    qed
    with digit Cons.IH [of d] show ?thesis by simp
  next
    case point
    then show ?thesis
      by (auto simp: scan_loss_True Cons_eq_append_conv intro: exI [of _ "[]"])
  next
    case other
    then show ?thesis by (auto simp: Cons_eq_append_conv)
  qed
qed

text \<open>A packet loss is written as digits, or digits, a point and more digits.\<close>

definition loss_parts :: "string \<Rightarrow> string \<Rightarrow> string \<Rightarrow> bool" where
  "loss_parts number ip fp \<longleftrightarrow> ip \<noteq> [] \<and> list_all is_digit ip \<and> list_all is_digit fp
     \<and> number = (if fp = [] then ip else ip @ CHR ''.'' # fp)"

lemma is_loss_decimal_iff: "is_loss_decimal number \<longleftrightarrow> (\<exists>ip fp. loss_parts number ip fp)"
proof
  assume "is_loss_decimal number"
  then obtain saw n where ne: "number \<noteq> []" and scan: "scan_loss False 0 number = Some (saw, n)"
    and ok: "hd number \<noteq> CHR ''.''" "\<not> saw \<or> n \<noteq> 0"
    by (auto simp: is_loss_decimal_def split: option.splits if_splits)
  show "\<exists>ip fp. loss_parts number ip fp"
  proof (cases saw)
    case False
    with scan ne have "loss_parts number number []" by (simp add: scan_loss_False loss_parts_def)
    then show ?thesis by blast
  next
    case True
    with scan obtain ip fp where "number = ip @ CHR ''.'' # fp" "list_all is_digit ip"
      "list_all is_digit fp" "n = length fp" by (auto simp: scan_loss_False)
    with ok True have "loss_parts number ip fp" by (cases ip) (auto simp: loss_parts_def)
    then show ?thesis by blast
  qed
next
  assume "\<exists>ip fp. loss_parts number ip fp"
  then obtain ip fp where "loss_parts number ip fp" by blast
  then have ip: "ip \<noteq> []" "list_all is_digit ip" "list_all is_digit fp"
    and num: "number = (if fp = [] then ip else ip @ CHR ''.'' # fp)" by (simp_all add: loss_parts_def)
  have hd: "hd number \<noteq> CHR ''.''" using ip num by (cases ip) auto
  have "scan_loss False 0 number = Some (fp \<noteq> [], length fp)"
    using ip num by (auto simp: scan_loss_False)
  with hd ip num show "is_loss_decimal number" by (auto simp: is_loss_decimal_def)
qed

lemma string_less_digits:
  "length a = length b \<Longrightarrow> list_all is_digit a \<Longrightarrow> list_all is_digit b
     \<Longrightarrow> string_less a b \<longleftrightarrow> dec_value a < dec_value b"
proof (induction a b rule: string_less.induct)
  case (3 a as b bs)
  then have d: "is_digit a" "is_digit b" and l: "length as = length bs"
    and less: "dec_value as < 10 ^ length bs" "dec_value bs < 10 ^ length bs"
    using dec_value_less [of as] dec_value_less [of bs] by simp_all
  have v: "digit_value a < digit_value b \<longleftrightarrow> byte_of a < byte_of b"
    "digit_value b < digit_value a \<longleftrightarrow> byte_of b < byte_of a"
    using d by (auto simp: digit_value_def is_digit_def)
  have mult: "x * P + r < y * P + s" if "x < y" "r < P" for x y r s P :: nat
  proof -
    have "x * P + r < Suc x * P" using that by simp
    also have "\<dots> \<le> y * P" using that by (intro mult_right_mono) simp_all
    finally show ?thesis by simp
  qed
  consider (lt) "byte_of a < byte_of b" | (gt) "byte_of b < byte_of a" | (eq) "a = b"
    using byte_of_inject [of a b] by linarith
  then show ?case
  proof cases
    case lt
    with mult [of "digit_value a" "digit_value b"] less v show ?thesis by (simp add: dec_value_Cons l)
  next
    case gt
    with mult [of "digit_value b" "digit_value a", OF _ less(2)] v
    have "dec_value (b # bs) < dec_value (a # as)" by (simp add: dec_value_Cons l)
    with gt show ?thesis by simp
  next
    case eq
    with 3 d show ?thesis by (simp add: dec_value_Cons l)
  qed
qed simp_all

lemma strip_leading_zeros:
  assumes "list_all is_digit ip"
  shows "(if dropWhile (\<lambda>c. c = CHR ''0'') ip = [] then ''0'' else dropWhile (\<lambda>c. c = CHR ''0'') ip)
    = to_string_nat (dec_value ip)"
  using assms
proof (induction ip)
  case Nil
  then show ?case by simp
next
  case (Cons c ip)
  show ?case
  proof (cases "c = CHR ''0''")
    case True
    then have "dec_value (c # ip) = dec_value ip"
      by (simp add: dec_value_Cons digit_value_def byte_of_def)
    moreover have "dropWhile (\<lambda>c. c = CHR ''0'') (c # ip) = dropWhile (\<lambda>c. c = CHR ''0'') ip"
      using True by simp
    moreover have "list_all is_digit ip" using Cons.prems by simp
    ultimately show ?thesis using Cons.IH by (simp only:)
  next
    case False
    with Cons.prems show ?thesis using to_string_dec_value [of "c # ip"] by simp
  qed
qed

lemma length_to_string_iff: "0 < k \<Longrightarrow> length (to_string_nat n) \<le> k \<longleftrightarrow> n < 10 ^ k"
proof
  assume "0 < k" "length (to_string_nat n) \<le> k"
  then have "(10::nat) ^ length (to_string_nat n) \<le> 10 ^ k" by (simp add: power_increasing)
  moreover have "n < 10 ^ length (to_string_nat n)"
    using dec_value_less [OF to_string_nat_digits [of n]] by simp
  ultimately show "n < 10 ^ k" by (rule less_le_trans [rotated])
qed (rule length_to_string_nat)

lemma to_string_100: "to_string_nat 100 = ''100''"
  using to_string_dec_value [of "''100''"]
  by (simp add: dec_value_def is_digit_def digit_value_def byte_of_def)

text \<open>The textual range check is exact: out of range means a value above 100.\<close>

lemma loss_is_out_of_range_iff:
  assumes "loss_parts number ip fp"
  shows "loss_is_out_of_range number \<longleftrightarrow> 100 * 10 ^ length fp < dec_value (ip @ fp)"
proof -
  from assms have ip: "list_all is_digit ip" "list_all is_digit fp"
    and num: "number = (if fp = [] then ip else ip @ CHR ''.'' # fp)" by (simp_all add: loss_parts_def)
  define v where "v = dec_value ip"
  define t where "t = to_string_nat v"
  have f: "dec_value fp < 10 ^ length fp" using ip(2) by (rule dec_value_less)
  have nopoint: "CHR ''.'' \<notin> set ip" using ip(1) by (auto simp: list_all_iff)
  then have point: "find_char (CHR ''.'') number = (if fp = [] then None else Some (length ip))"
    by (simp add: num find_char_None_iff)
  have whole: "(case find_char (CHR ''.'') number of None \<Rightarrow> number | Some n \<Rightarrow> take n number) = ip"
    by (simp add: point) (simp add: num)
  have strip: "(if dropWhile (\<lambda>c. c = CHR ''0'') ip = [] then ''0'' else dropWhile (\<lambda>c. c = CHR ''0'') ip) = t"
    using strip_leading_zeros [OF ip(1)] by (simp add: t_def v_def)
  have long: "3 < length t \<longleftrightarrow> 1000 \<le> v"
    using length_to_string_iff [of 3 v] by (simp add: t_def not_le [symmetric] del: not_le)
  have "dec_value ''100'' = 100" "list_all is_digit ''100''"
    by (simp_all add: dec_value_def digit_value_def is_digit_def byte_of_def)
  then have three: "string_less ''100'' t \<longleftrightarrow> 100 < v" if "length t = 3"
    using string_less_digits [of "''100''" t] that by (simp add: t_def to_string_nat_digits)
  have short: "v < 100" if "length t < 3"
    using length_to_string_iff [of 2 v] that by (simp add: t_def)
  have hundred: "t = ''100'' \<longleftrightarrow> v = 100"
    unfolding t_def to_string_100 [symmetric] by simp
  have frac: "decimal_is_zero (drop (length ip + 1) number) \<longleftrightarrow> dec_value fp = 0" if "fp \<noteq> []"
    using ip(2) that by (simp add: num decimal_is_zero_digits)
  have "loss_is_out_of_range number \<longleftrightarrow> 100 < v \<or> (v = 100 \<and> fp \<noteq> [] \<and> dec_value fp \<noteq> 0)"
  proof -
    obtain big where big: "big = (3 < length t \<or> (length t = 3 \<and> string_less ''100'' t))" by simp
    have "big \<longleftrightarrow> 100 < v"
      using long three short unfolding big by (cases "length t" "3::nat" rule: linorder_cases) linarith+
    then show ?thesis
      unfolding loss_is_out_of_range_def Let_def whole strip unfolding point big [symmetric]
      using hundred frac by (cases "fp = []") simp_all
  qed
  also have "\<dots> \<longleftrightarrow> 100 * 10 ^ length fp < v * 10 ^ length fp + dec_value fp"
  proof -
    obtain P where P: "P = (10::nat) ^ length fp" by simp
    have less: "100 < v \<Longrightarrow> 100 * P < v * P + dec_value fp"
    proof -
      assume "100 < v"
      then have "101 * P \<le> v * P" by (intro mult_right_mono) simp_all
      moreover have "0 < P" by (simp add: P)
      ultimately show ?thesis by linarith
    qed
    have more: "v < 100 \<Longrightarrow> v * P + dec_value fp < 100 * P"
    proof -
      assume "v < 100"
      then have "Suc v * P \<le> 100 * P" by (intro mult_right_mono) simp_all
      moreover have "Suc v * P = v * P + P" by simp
      ultimately show ?thesis using f unfolding P [symmetric] by linarith
    qed
    show ?thesis
      using less more unfolding P [symmetric] by (cases v "100::nat" rule: linorder_cases) auto
  qed
  finally show ?thesis by (simp add: v_def dec_value_append)
qed

lemma mag_of_hundred: "mag_of_bits 4636737291354636288 = 100 * dbl_unit"
proof -
  have e: "exponent_of_bits 4636737291354636288 = 1029" by (simp add: exponent_of_bits_def)
  have s: "significand_of_bits 4636737291354636288 = 25 * 2 ^ 48" by (simp add: significand_of_bits_def)
  have "(25::nat) * 2 ^ 48 * 2 ^ 1029 = 25 * (2 ^ 2 * 2 ^ 1075)"
    unfolding mult.assoc power_add [symmetric] by (rule arg_cong [of _ _ "\<lambda>n. 25 * 2 ^ n"]) simp
  then show ?thesis unfolding mag_of_bits_def e s dbl_unit_def by (simp only: mult.assoc) simp
qed

lemma signed_bits_positive:
  assumes "b < 2 ^ 63"
  shows "dbl_bits (signed_bits False b) = b" and "\<not> dbl_negative (signed_bits False b)"
proof -
  have "unat (of_nat b :: double) = b" using assms by (intro unat_of_nat_u64) (simp add: uint64_max_def)
  then show "dbl_bits (signed_bits False b) = b" "\<not> dbl_negative (signed_bits False b)"
    using assms by (simp_all add: signed_bits_def dbl_bits_def dbl_negative_def)
qed

lemma round_decimal_hundred:
  assumes "n \<le> 100 * 10 ^ k"
  shows "\<exists>b. round_decimal n (0 - int k) = Some b \<and> b \<le> 4636737291354636288"
proof -
  have "n * dbl_unit \<le> 100 * 10 ^ k * dbl_unit" using assms by (rule mult_right_mono) simp
  then have le: "n * dbl_unit \<le> mag_of_bits 4636737291354636288 * 10 ^ k"
    unfolding mag_of_hundred by (simp only: ac_simps)
  have "\<exists>b. round_to_bits n (10 ^ k) = Some b \<and> b \<le> 4636737291354636288"
    by (rule round_to_bits_le [OF _ _ le]) (simp_all add: infinity_bits_def)
  then show ?thesis by (cases "k = 0") (simp_all add: round_decimal_def)
qed

lemma read_magnitude_fixed:
  assumes "loss_parts number ip fp"
  shows "read_magnitude False False number =
    (case round_decimal (dec_value (ip @ fp)) (0 - int (length fp)) of
       None \<Rightarrow> Result_Out_Of_Range
     | Some b \<Rightarrow> if b = 0 \<and> dec_value (ip @ fp) \<noteq> 0 then Result_Out_Of_Range
                 else Parsed (signed_bits False b) [])"
proof -
  from assms have ip: "ip \<noteq> []" "list_all is_digit ip" "list_all is_digit fp"
    and num: "number = (if fp = [] then ip else ip @ CHR ''.'' # fp)" by (simp_all add: loss_parts_def)
  show ?thesis
  proof (cases "fp = []")
    case True
    with num have "number = ip" by simp
    then show ?thesis unfolding True append_Nil2 using ip by (simp add: read_magnitude_def Let_def)
  next
    case False
    then show ?thesis by (simp add: num ip read_magnitude_def Let_def)
  qed
qed

lemma parse_loss_valid:
  assumes "is_loss_decimal number" and "parse_loss number = Inr w"
  shows "valid_loss w"
proof -
  from assms(1) obtain ip fp where parts: "loss_parts number ip fp" by (auto simp: is_loss_decimal_iff)
  then have hd: "hd number \<noteq> CHR ''-''" by (cases ip) (auto simp: loss_parts_def)
  from assms(2) have "\<not> loss_is_out_of_range number" by (auto simp: parse_loss_def split: if_splits)
  with loss_is_out_of_range_iff [OF parts] have "dec_value (ip @ fp) \<le> 100 * 10 ^ length fp" by simp
  from round_decimal_hundred [OF this] obtain b
    where b: "round_decimal (dec_value (ip @ fp)) (0 - int (length fp)) = Some b" "b \<le> 4636737291354636288"
    by blast
  with assms(2) hd read_magnitude_fixed [OF parts] have w: "w = signed_bits False b"
    by (auto simp: parse_loss_def from_chars_double_def split: if_splits)
  have "b < 2 ^ 63" using b(2) by simp
  note bits = signed_bits_positive [OF this]
  have "dbl_key w = int b" by (simp add: w dbl_key_def bits)
  moreover have "isfinite w" using b(2) by (simp add: w isfinite_def bits infinity_bits_def)
  ultimately show ?thesis using b(2) by (simp add: valid_loss_def)
qed

section \<open>Accepted changes\<close>

lemma controller_direction_known: "controller_direction t = Some d \<Longrightarrow> known_direction d"
  by (auto simp: controller_direction_def split: if_splits)

lemma controller_setting_known: "controller_setting t = Some x \<Longrightarrow> known_setting x"
  by (auto simp: controller_setting_def split: if_splits)

lemma set_duration_sendable:
  assumes "set_duration d x number unt = Parsed_Command (ChangeControllerCommand c)" "known_direction d"
  shows "sendable c"
proof -
  from assms obtain v where v: "parse_scaled_unsigned number (if unt = ''s'' then 1000 else 1) int64_max = Inr v"
    and c: "c = SetDelay d (of_nat v) \<or> c = SetJitter d (of_nat v)"
    by (auto simp: set_duration_def split: sum.splits if_splits)
  from parse_scaled_unsigned_bound [OF v] have "v \<le> int64_max" by (simp split: if_splits)
  then have "0 \<le> sint (of_nat v :: i64)" by (rule sint_of_nat_nonneg)
  with c assms(2) show ?thesis by (auto simp: sendable_def)
qed

lemma set_bandwidth_sendable:
  assumes "set_bandwidth d number unt = Parsed_Command (ChangeControllerCommand c)"
    and "known_direction d" "list_all is_digit number"
  shows "sendable c"
proof -
  from assms obtain v where v: "parse_scaled_unsigned number (if unt = ''mbps'' then 1000 else 1) uint64_max = Inr v"
    and nz: "\<not> decimal_is_zero number" and c: "c = SetBandwidth d (of_nat v)"
    by (auto simp: set_bandwidth_def split: sum.splits if_splits)
  from parse_scaled_unsigned_bound [OF v] have le: "v \<le> uint64_max" by (simp split: if_splits)
  from parse_scaled_unsigned_positive [OF v _ assms(3) nz] have "0 < v" by (simp split: if_splits)
  with unat_of_nat_u64 [OF le] have "of_nat v \<noteq> (0 :: u64)" by (metis less_numeral_extra(3) unat_0)
  with c assms(2) show ?thesis by (simp add: sendable_def)
qed

lemma set_loss_sendable:
  assumes "set_loss d number unt = Parsed_Command (ChangeControllerCommand c)"
    and "known_direction d" "is_loss_decimal number"
  shows "sendable c"
proof -
  from assms obtain w where "parse_loss number = Inr w" "c = SetPacketLoss d w"
    by (auto simp: set_loss_def split: sum.splits if_splits)
  with parse_loss_valid [OF assms(3)] assms(2) show ?thesis by (simp add: sendable_def)
qed

lemma parse_set_sendable:
  assumes "parse_set_command tokens = Parsed_Command (ChangeControllerCommand c)"
  shows "sendable c"
proof -
  from assms obtain d x where d: "controller_direction (tokens ! 1) = Some d"
    and x: "controller_setting (tokens ! 2) = Some x"
    by (auto simp: parse_set_command_def split: if_splits option.splits)
  obtain number unt where nu: "(if length tokens = 5 then (tokens ! 3, tokens ! 4)
      else split_attached_unit (tokens ! 3)) = (number, unt)" by fastforce
  note known = controller_direction_known [OF d]
  have "\<not> (length tokens \<noteq> 4 \<and> length tokens \<noteq> 5)"
    using assms by (auto simp: parse_set_command_def split: if_splits)
  with assms have cmd: "(if (x = Packet_Loss \<and> \<not> is_loss_decimal number)
        \<or> (x \<noteq> Packet_Loss \<and> \<not> is_decimal_integer number)
      then Parse_Error Invalid_Number
      else if x = Delay \<or> x = Jitter then set_duration d x number unt
      else if x = Bandwidth then set_bandwidth d number unt
      else set_loss d number unt) = Parsed_Command (ChangeControllerCommand c)"
    unfolding parse_set_command_def by (simp only: d x nu if_False option.case Let_def prod.case)
  show ?thesis
    using cmd controller_setting_known [OF x]
    by (cases x) (auto simp: is_decimal_integer_def split: if_splits
        intro: set_duration_sendable [OF _ known] set_bandwidth_sendable [OF _ known]
          set_loss_sendable [OF _ known])
qed

lemma parse_controller_sendable:
  assumes "parse_controller_command line = Parsed_Command (ChangeControllerCommand c)"
  shows "sendable c"
proof -
  from assms have "parse_set_command (tokenize line) = Parsed_Command (ChangeControllerCommand c)
    \<or> parse_reset_command (tokenize line) = Parsed_Command (ChangeControllerCommand c)"
    by (auto simp: parse_controller_command_def Let_def split: if_splits)
  then show ?thesis
  proof
    assume "parse_reset_command (tokenize line) = Parsed_Command (ChangeControllerCommand c)"
    then show ?thesis
      by (auto simp: parse_reset_command_def sendable_def split: if_splits option.splits
          dest: controller_direction_known controller_setting_known)
  qed (rule parse_set_sendable)
qed

section \<open>Tokens of a written command\<close>

definition plain_token :: "string \<Rightarrow> bool" where
  "plain_token t \<longleftrightarrow> t \<noteq> [] \<and> list_all (\<lambda>c. \<not> is_token_separator c) t"

lemma takeWhile_plain: "list_all P t \<Longrightarrow> takeWhile P (t @ r) = t @ takeWhile P r"
  by (induction t) auto

lemma dropWhile_plain: "list_all P t \<Longrightarrow> dropWhile P (t @ r) = dropWhile P r"
  by (induction t) auto

lemma dropWhile_token_start:
  "plain_token t \<Longrightarrow> dropWhile is_token_separator (t @ r) = t @ r"
  by (cases t) (auto simp: plain_token_def)

lemma tokenize_token:
  assumes "plain_token t"
  shows "tokenize (t @ CHR '' '' # r) = t # tokenize r" and "tokenize t = [t]"
proof -
  have t: "list_all (\<lambda>c. \<not> is_token_separator c) t" "t \<noteq> []" using assms by (simp_all add: plain_token_def)
  have sep: "is_token_separator (CHR '' '')" by (simp add: is_token_separator_def)
  have "tokenize (CHR '' '' # r) = tokenize r"
    by (simp add: tokenize.simps [of "CHR '' '' # r"] tokenize.simps [of r] sep)
  then show "tokenize (t @ CHR '' '' # r) = t # tokenize r"
    using t sep dropWhile_token_start [OF assms, of "CHR '' '' # r"]
    by (subst tokenize.simps) (simp add: takeWhile_plain dropWhile_plain Let_def)
  have while: "takeWhile (\<lambda>c. \<not> is_token_separator c) t = t" "dropWhile (\<lambda>c. \<not> is_token_separator c) t = []"
    using takeWhile_plain [OF t(1), of "[]"] dropWhile_plain [OF t(1), of "[]"] by simp_all
  show "tokenize t = [t]"
    using t dropWhile_token_start [OF assms, of "[]"]
    by (simp add: tokenize.simps [of t] tokenize.simps [of "[]"] Let_def while)
qed

lemma plain_token_text [simp]:
  "plain_token ''set''" "plain_token ''outbound''" "plain_token ''inbound''" "plain_token ''delay''"
  "plain_token ''jitter''" "plain_token ''bandwidth''"
  by (simp_all add: plain_token_def is_token_separator_def)

fun direction_word :: "traffic_direction \<Rightarrow> string" where
  "direction_word Inbound = ''inbound''"
| "direction_word _ = ''outbound''"

lemma digit_command_char: "is_digit c \<Longrightarrow> command_char c"
  by (auto simp: is_digit_def command_char_def)

lemma digit_not_separator: "is_digit c \<Longrightarrow> \<not> is_token_separator c"
  by (auto simp: is_token_separator_def is_digit_def byte_of_def)

lemma digits_plain: "list_all is_digit t \<Longrightarrow> t \<noteq> [] \<Longrightarrow> plain_token (t @ u) \<longleftrightarrow> list_all (\<lambda>c. \<not> is_token_separator c) u"
  using digit_not_separator by (auto simp: plain_token_def list_all_iff)

lemma digits_not_unit: "is_digit c \<Longrightarrow> \<not> is_unit_start c"
  by (auto simp: is_digit_def is_unit_start_def byte_of_def)

lemma split_number:
  assumes "list_all is_digit t"
  shows "split_attached_unit (t @ ''ms'') = (t, ''ms'')" "split_attached_unit (t @ ''s'') = (t, ''s'')"
    "split_attached_unit t = (t, [])"
proof -
  have t: "list_all (\<lambda>c. \<not> is_unit_start c) t"
    using assms digits_not_unit by (auto simp: list_all_iff)
  show "split_attached_unit (t @ ''ms'') = (t, ''ms'')" "split_attached_unit (t @ ''s'') = (t, ''s'')"
    using t by (simp_all add: split_attached_unit_def takeWhile_plain dropWhile_plain is_unit_start_def byte_of_def)
  show "split_attached_unit t = (t, [])"
    using t takeWhile_plain [of _ t "[]"] dropWhile_plain [of _ t "[]"] by (simp add: split_attached_unit_def)
qed

lemma parse_scaled_to_string:
  assumes "maximum \<le> uint64_max" "0 < scale"
  shows "parse_scaled_unsigned (to_string_nat n) scale maximum =
    (if n * scale \<le> maximum then Inr (n * scale) else Inl Value_Overflow)"
proof -
  have "n * scale \<le> maximum \<longleftrightarrow> n \<le> maximum div scale"
    using assms(2) by (simp add: less_eq_div_iff_mult_less_eq)
  moreover have "n \<le> uint64_max" if "n \<le> maximum div scale"
    using that assms(1) div_le_dividend [of maximum scale] by linarith
  ultimately show ?thesis
    by (auto simp: parse_scaled_unsigned_def from_chars_unsigned_digits to_string_nat_digits)
qed

section \<open>Properties\<close>

text \<open>
  C10: every Profile Change the controller parser accepts is valid: a default profile accepts it,
  it is sent to the helper as one line, and the helper reads the same change (with plus zero for
  a zero packet loss).
\<close>

theorem accepted_command_reaches_helper:
  assumes "parse_controller_command line = Parsed_Command (ChangeControllerCommand c)"
  shows "(\<exists>q. apply_profile_change default_profile c = Inr q)
    \<and> (\<exists>wire. serialize_profile_change c = wire @ [newline]
         \<and> parse_helper_runtime_command wire = Some (ProfileChangeCommand (normalize_change c)))"
proof -
  from assms have c: "sendable c" by (rule parse_controller_sendable)
  then have "parse_helper_runtime_command (join_tokens (change_tokens c))
      = Some (ProfileChangeCommand (normalize_change c))"
    by (simp add: parse_helper_runtime_command_change serialize_profile_change_eq)
  with c apply_accepts_iff [OF valid_default(2), of c] show ?thesis
    by (simp add: serialize_profile_change_eq sendable_def)
qed

theorem accepted_command_reaches_helper_witness:
  "\<exists>wire. serialize_profile_change (ResetSetting Inbound Jitter) = wire @ [newline]
     \<and> parse_helper_runtime_command wire = Some (ProfileChangeCommand (ResetSetting Inbound Jitter))"
  using accepted_command_reaches_helper [of "''reset inbound jitter''" "ResetSetting Inbound Jitter"]
  by (simp add: parse_controller_command_def parse_reset_command_def controller_direction_def
      controller_setting_def command_char_def byte_of_def maximum_controller_command_size_def
      tokenize.simps is_token_separator_def)

text \<open>
  The textual range check of a packet loss is exact: it rejects a number exactly when its
  value is above 100, however many digits it has.
\<close>

theorem loss_range_check_exact:
  assumes "loss_parts number ip fp"
  shows "loss_is_out_of_range number \<longleftrightarrow> 100 * 10 ^ length fp < dec_value (ip @ fp)"
  using assms by (rule loss_is_out_of_range_iff)

theorem loss_range_check_exact_witness:
  "loss_is_out_of_range ''0100.01'' \<and> \<not> loss_is_out_of_range ''099.9''"
  using loss_range_check_exact [of "''0100.01''" "''0100''" "''01''"]
    loss_range_check_exact [of "''099.9''" "''099''" "''9''"]
  by (simp add: loss_parts_def is_digit_def byte_of_def dec_value_def digit_value_def)

text \<open>
  A delay written in milliseconds or seconds is accepted exactly when its value in
  milliseconds fits 64 signed bits, and then it is exact.
\<close>

theorem set_delay_exact:
  assumes "d = Outbound \<or> d = Inbound" and "length (to_string_nat n) \<le> 900" and "unt = ''ms'' \<or> unt = ''s''"
  shows "parse_controller_command
      (''set '' @ direction_word d @ '' delay '' @ to_string_nat n @ unt) =
    (if n * (if unt = ''s'' then 1000 else 1) \<le> int64_max
     then Parsed_Command (ChangeControllerCommand
       (SetDelay d (of_nat (n * (if unt = ''s'' then 1000 else 1)))))
     else Parse_Error Value_Overflow)"
proof -
  let ?t = "to_string_nat n"
  note len = assms(2)
  have tok: "tokenize (''set '' @ direction_word d @ '' delay '' @ ?t @ unt)
      = [''set'', direction_word d, ''delay'', ?t @ unt]"
  proof -
    have "plain_token (?t @ unt)"
      using assms(3) by (auto simp: digits_plain to_string_nat_digits is_token_separator_def)
    moreover have "plain_token (direction_word d)" using assms(1) by auto
    moreover have "''set '' @ direction_word d @ '' delay '' @ ?t @ unt =
        ''set'' @ CHR '' '' # (direction_word d @ CHR '' '' # (''delay'' @ CHR '' '' # (?t @ unt)))"
      by simp
    ultimately show ?thesis by (simp only: tokenize_token plain_token_text)
  qed
  have chars: "list_all command_char (''set '' @ direction_word d @ '' delay '' @ ?t @ unt)"
  proof -
    have "list_all command_char ?t"
      using to_string_nat_chars [of _ n] digit_command_char by (auto simp: list_all_iff)
    moreover have "list_all command_char (direction_word d)" "list_all command_char unt"
      using assms(1,3) by (elim disjE; simp add: command_char_def byte_of_def)+
    ultimately show ?thesis by (simp add: command_char_def byte_of_def)
  qed
  have size: "\<not> maximum_controller_command_size < length (''set '' @ direction_word d @ '' delay '' @ ?t @ unt)"
    using len assms(1,3) by (auto simp: maximum_controller_command_size_def)
  have split: "split_attached_unit (?t @ unt) = (?t, unt)"
    using split_number [OF to_string_nat_digits [of n]] assms(3) by auto
  have dir: "controller_direction (direction_word d) = Some d"
    using assms(1) by (auto simp: controller_direction_def)
  have int: "is_decimal_integer ?t" by (simp add: is_decimal_integer_def to_string_nat_digits)
  have "parse_set_command [''set'', direction_word d, ''delay'', ?t @ unt] = set_duration d Delay ?t unt"
    by (simp add: parse_set_command_def dir controller_setting_def split int)
  then have "parse_controller_command (''set '' @ direction_word d @ '' delay '' @ ?t @ unt) =
      set_duration d Delay ?t unt"
    unfolding parse_controller_command_def tok Let_def using chars size
    by (simp del: append.simps)
  also have "\<dots> = (if n * (if unt = ''s'' then 1000 else 1) \<le> int64_max
     then Parsed_Command (ChangeControllerCommand
       (SetDelay d (of_nat (n * (if unt = ''s'' then 1000 else 1)))))
     else Parse_Error Value_Overflow)"
    using assms(3) by (elim disjE) (simp_all add: set_duration_def parse_scaled_to_string)
  finally show ?thesis .
qed

theorem set_delay_exact_witness:
  "parse_controller_command (''set '' @ direction_word Outbound @ '' delay '' @ to_string_nat 2 @ ''s'') =
     Parsed_Command (ChangeControllerCommand (SetDelay Outbound 2000))"
  using set_delay_exact [of Outbound 2 "''s''"]
  by (simp add: int64_max_def to_string_nat.simps [of 2])

end
