(* ===== verification/Control_Plane.thy ===== *)
theory Control_Plane
  imports Control_Commands
begin

text \<open>
  \<open>ControllerControlPlane\<close> of \<open>src/controller_control_plane.hpp\<close> and
  \<open>src/controller_control_plane.cpp\<close>: the state the supervisor keeps for its controller, the
  events it handles and the actions it answers with. An operation that appends to the action
  list of the code takes the list so far and returns the longer one.
\<close>

section \<open>Events, actions and state\<close>

datatype control_plane_result = Change_Applied | Change_Restored_After_Failure

datatype control_plane_event =
    ControllerAttachedEvent
  | ControllerBytesReceivedEvent string
  | ControllerDisconnectedEvent
  | ControllerWriteFailedEvent
  | HelperProfileChangeResultEvent control_plane_result profile_change
  | HelperProfileStateUnknownEvent
  | SessionStoppingEvent
  | WorkloadTerminalEvent

datatype control_plane_action =
    RequestLifecycleStopAction
  | SendControllerTextAction string
  | DisconnectControllerAction
  | FailSessionForUnknownProfileStateAction
  | DispatchProfileChangeAction profile_change

record in_flight_profile_change =
  flight_change :: profile_change
  flight_reply_generation :: "u64 option"
  flight_dispatch_pending :: bool

record control_plane =
  cp_workload_pid :: int
  cp_child_arguments :: "string list"
  cp_read_buffer :: string
  cp_command_queue :: "(controller_command \<times> u64) list"
  cp_in_flight :: "in_flight_profile_change option"
  cp_confirmed_profile :: network_profile
  cp_connection_generation :: u64
  cp_controller_attached :: bool
  cp_shaping_applied :: bool
  cp_stopping :: bool
  cp_workload_terminal :: bool
  cp_profile_state_failed :: bool

definition new_control_plane :: "int \<Rightarrow> string list \<Rightarrow> control_plane" where
  "new_control_plane pid child_arguments =
     \<lparr>cp_workload_pid = pid, cp_child_arguments = child_arguments, cp_read_buffer = [],
      cp_command_queue = [], cp_in_flight = None, cp_confirmed_profile = default_profile,
      cp_connection_generation = 0, cp_controller_attached = False, cp_shaping_applied = False,
      cp_stopping = False, cp_workload_terminal = False, cp_profile_state_failed = False\<rparr>"

section \<open>The status report\<close>

definition maximum_status_size :: nat where
  "maximum_status_size = 8 * 1024"

text \<open>What is printed for one byte of an argument.\<close>

definition escaped_piece :: "char \<Rightarrow> string" where
  "escaped_piece c =
     (if c = CHR 0x5C then [CHR 0x5C, CHR 0x5C]
      else if c = CHR 0x09 then [CHR 0x5C, CHR ''t'']
      else if c = CHR 0x0A then [CHR 0x5C, CHR ''n'']
      else if c = CHR 0x0D then [CHR 0x5C, CHR ''r'']
      else if byte_of c < 32 \<or> c = CHR 0x7F then
        [CHR 0x5C, CHR ''x'', ''0123456789ABCDEF'' ! (byte_of c div 16),
         ''0123456789ABCDEF'' ! (byte_of c mod 16)]
      else [c])"

fun append_escaped_limited :: "string \<Rightarrow> string \<Rightarrow> nat \<Rightarrow> string \<times> bool" where
  "append_escaped_limited output [] limit = (output, True)"
| "append_escaped_limited output (c # cs) limit =
     (if limit < length output \<or> limit - length output < length (escaped_piece c)
      then (output, False)
      else append_escaped_limited (output @ escaped_piece c) cs limit)"

text \<open>A \<open>double\<close> printed by an \<open>ostringstream\<close> with its default precision of 6.\<close>

definition append_direction_status :: "string \<Rightarrow> direction_settings \<Rightarrow> string" where
  "append_direction_status name settings =
     name @ '':'' @ [newline]
     @ ''  delay: '' @ to_string_int (sint (delay settings)) @ '' ms'' @ [newline]
     @ ''  jitter: '' @ to_string_int (sint (jitter settings)) @ '' ms'' @ [newline]
     @ ''  packet loss: '' @ to_chars_general 6 (packet_loss_percent settings) @ ''%'' @ [newline]
     @ ''  bandwidth: ''
     @ (case bandwidth_kbps settings of
          Some b \<Rightarrow> to_string_nat (unat b) @ '' kbps'' @ [newline]
        | None \<Rightarrow> ''unlimited'' @ [newline])"

definition status_tail :: "network_profile \<Rightarrow> bool \<Rightarrow> string" where
  "status_tail profile shaping_applied =
     ''shaping: '' @ (if shaping_applied then ''applied'' else ''not applied'') @ [newline]
     @ append_direction_status ''outbound'' (outbound profile)
     @ append_direction_status ''inbound'' (inbound profile)
     @ ''STATUS_END'' @ [newline]"

definition truncated_notice :: string where
  "truncated_notice = ''arguments: truncated'' @ [newline]"

text \<open>The loop over the arguments after the first, from index \<open>i\<close> on.\<close>

fun append_arguments :: "string \<Rightarrow> string list \<Rightarrow> nat \<Rightarrow> nat \<Rightarrow> string \<times> bool" where
  "append_arguments response [] i content_limit = (response, False)"
| "append_arguments response (a # as) i content_limit =
     (let prefix = ''argument['' @ to_string_nat (i - 1) @ '']: ''
      in if content_limit < length response + length prefix + 1 then (response, True)
         else case append_escaped_limited (response @ prefix) a (content_limit - 1) of
           (r, ok) \<Rightarrow>
             if \<not> ok then (r @ [newline], True)
             else append_arguments (r @ [newline]) as (i + 1) content_limit)"

definition build_status ::
  "int \<Rightarrow> string list \<Rightarrow> network_profile \<Rightarrow> bool \<Rightarrow> bool \<Rightarrow> string" where
  "build_status workload_pid child_arguments profile stopping shaping_applied =
     (let tail = status_tail profile shaping_applied;
          content_limit = maximum_status_size - length tail - length truncated_notice;
          header = ''STATUS_BEGIN'' @ [newline] @ ''state: ''
            @ (if stopping then ''stopping'' else ''running'') @ [newline]
            @ ''pid: '' @ to_string_int workload_pid @ [newline] @ ''program: '';
          (r1, ok) = append_escaped_limited header (hd child_arguments) (content_limit - 1);
          r2 = r1 @ [newline];
          (r3, truncated) = (if ok then append_arguments r2 (tl child_arguments) 1 content_limit
                             else (r2, True))
      in r3 @ (if truncated then truncated_notice else []) @ tail)"

definition help_response :: string where
  "help_response =
     ''HELP_BEGIN'' @ [newline]
     @ ''help - Show controller commands'' @ [newline]
     @ ''status - Show the active session'' @ [newline]
     @ ''stop - Stop the active Workload'' @ [newline]
     @ ''detach - Disconnect this controller'' @ [newline]
     @ ''HELP_END'' @ [newline]"

section \<open>Operations\<close>

fun is_dispatch :: "control_plane_action \<Rightarrow> bool" where
  "is_dispatch (DispatchProfileChangeAction _) = True"
| "is_dispatch _ = False"

definition append_before_dispatch ::
  "control_plane_action list \<Rightarrow> control_plane_action \<Rightarrow> control_plane_action list" where
  "append_before_dispatch actions action =
     takeWhile (\<lambda>a. \<not> is_dispatch a) actions @ action # dropWhile (\<lambda>a. \<not> is_dispatch a) actions"

definition forget_reply :: "control_plane \<Rightarrow> control_plane" where
  "forget_reply s =
     s\<lparr>cp_in_flight := map_option (\<lambda>f. f\<lparr>flight_reply_generation := None\<rparr>) (cp_in_flight s)\<rparr>"

definition disconnect_controller :: "control_plane \<Rightarrow> control_plane" where
  "disconnect_controller s =
     forget_reply (s\<lparr>cp_controller_attached := False, cp_read_buffer := [], cp_command_queue := []\<rparr>)"

definition enter_stopping ::
  "control_plane \<Rightarrow> control_plane_action list \<Rightarrow> control_plane \<times> control_plane_action list" where
  "enter_stopping s actions =
     (let a1 = (if \<not> cp_stopping s then RequestLifecycleStopAction # actions else actions);
          s1 = s\<lparr>cp_stopping := True, cp_command_queue := []\<rparr>;
          (s2, a2) =
            (case cp_in_flight s1 of
               None \<Rightarrow> (s1, a1)
             | Some f \<Rightarrow>
                 (if flight_dispatch_pending f
                  then (s1\<lparr>cp_in_flight := None\<rparr>, filter (\<lambda>a. \<not> is_dispatch a) a1)
                  else (forget_reply s1, a1)))
      in (s2, append_before_dispatch a2 (SendControllerTextAction (''STOPPING'' @ [newline]))))"

fun is_change_command :: "controller_command \<Rightarrow> bool" where
  "is_change_command (ChangeControllerCommand _) = True"
| "is_change_command _ = False"

definition process_command ::
  "control_plane \<Rightarrow> control_plane_action list \<Rightarrow> controller_command
     \<Rightarrow> control_plane \<times> control_plane_action list" where
  "process_command s actions command =
     (if command = StopControllerCommand then enter_stopping s actions
      else if is_change_command command \<and> cp_stopping s then
        (s, append_before_dispatch actions
              (SendControllerTextAction (''ERROR Session is stopping.'' @ [newline])))
      else if cp_in_flight s \<noteq> None \<and> \<not> cp_stopping s then
        (if 32 \<le> length (cp_command_queue s) then
           (disconnect_controller s,
            append_before_dispatch
              (append_before_dispatch actions
                 (SendControllerTextAction (''ERROR Too many queued commands.'' @ [newline])))
              DisconnectControllerAction)
         else
           (s\<lparr>cp_command_queue := cp_command_queue s @ [(command, cp_connection_generation s)]\<rparr>,
            actions))
      else case command of
        HelpControllerCommand \<Rightarrow>
          (s, append_before_dispatch actions (SendControllerTextAction help_response))
      | StatusControllerCommand \<Rightarrow>
          (s, append_before_dispatch actions (SendControllerTextAction
                (build_status (cp_workload_pid s) (cp_child_arguments s) (cp_confirmed_profile s)
                   (cp_stopping s) (cp_shaping_applied s))))
      | ChangeControllerCommand change \<Rightarrow>
          (s\<lparr>cp_in_flight := Some \<lparr>flight_change = change,
                flight_reply_generation = Some (cp_connection_generation s),
                flight_dispatch_pending = True\<rparr>\<rparr>,
           actions @ [DispatchProfileChangeAction change])
      | DetachControllerCommand \<Rightarrow>
          (disconnect_controller s,
           append_before_dispatch
             (append_before_dispatch actions (SendControllerTextAction (''DETACHED'' @ [newline])))
             DisconnectControllerAction)
      | StopControllerCommand \<Rightarrow> (s, actions))"

lemma forget_reply_simps [simp]:
  "cp_workload_pid (forget_reply s) = cp_workload_pid s"
  "cp_child_arguments (forget_reply s) = cp_child_arguments s"
  "cp_read_buffer (forget_reply s) = cp_read_buffer s"
  "cp_command_queue (forget_reply s) = cp_command_queue s"
  "cp_confirmed_profile (forget_reply s) = cp_confirmed_profile s"
  "cp_connection_generation (forget_reply s) = cp_connection_generation s"
  "cp_controller_attached (forget_reply s) = cp_controller_attached s"
  "cp_shaping_applied (forget_reply s) = cp_shaping_applied s"
  "cp_stopping (forget_reply s) = cp_stopping s"
  "cp_workload_terminal (forget_reply s) = cp_workload_terminal s"
  "cp_profile_state_failed (forget_reply s) = cp_profile_state_failed s"
  "cp_in_flight (forget_reply s) = None \<longleftrightarrow> cp_in_flight s = None"
  by (simp_all add: forget_reply_def)

lemma disconnect_controller_simps [simp]:
  "cp_workload_pid (disconnect_controller s) = cp_workload_pid s"
  "cp_child_arguments (disconnect_controller s) = cp_child_arguments s"
  "cp_read_buffer (disconnect_controller s) = []"
  "cp_command_queue (disconnect_controller s) = []"
  "cp_confirmed_profile (disconnect_controller s) = cp_confirmed_profile s"
  "cp_connection_generation (disconnect_controller s) = cp_connection_generation s"
  "\<not> cp_controller_attached (disconnect_controller s)"
  "cp_shaping_applied (disconnect_controller s) = cp_shaping_applied s"
  "cp_stopping (disconnect_controller s) = cp_stopping s"
  "cp_workload_terminal (disconnect_controller s) = cp_workload_terminal s"
  "cp_profile_state_failed (disconnect_controller s) = cp_profile_state_failed s"
  "cp_in_flight (disconnect_controller s) = None \<longleftrightarrow> cp_in_flight s = None"
  by (simp_all add: disconnect_controller_def)

lemma enter_stopping_simps [simp]:
  "cp_command_queue (fst (enter_stopping s acts)) = []"
  "cp_read_buffer (fst (enter_stopping s acts)) = cp_read_buffer s"
  "cp_stopping (fst (enter_stopping s acts))"
  by (simp_all add: enter_stopping_def Let_def split: option.split prod.split)

lemma process_command_queue:
  "cp_in_flight s = None \<Longrightarrow>
     length (cp_command_queue (fst (process_command s acts c))) \<le> length (cp_command_queue s)"
  by (cases c) (simp_all add: process_command_def)

lemma process_command_buffer:
  "length (cp_read_buffer (fst (process_command s acts c))) \<le> length (cp_read_buffer s)"
  by (cases c) (simp_all add: process_command_def)

function drain_queue ::
  "control_plane \<Rightarrow> control_plane_action list \<Rightarrow> control_plane \<times> control_plane_action list" where
  "drain_queue s actions =
     (if \<not> (cp_controller_attached s \<and> cp_in_flight s = None \<and> cp_command_queue s \<noteq> [])
      then (s, actions)
      else
        (let queued = hd (cp_command_queue s);
             s1 = s\<lparr>cp_command_queue := tl (cp_command_queue s)\<rparr>
         in if snd queued \<noteq> cp_connection_generation s1 then drain_queue s1 actions
            else
              (let r = process_command s1 actions (fst queued)
               in drain_queue (fst r) (snd r))))"
  by pat_completeness auto
termination
proof (relation "measure (\<lambda>p. length (cp_command_queue (fst p)))", goal_cases)
  case 1
  then show ?case by simp
next
  case (2 s actions queued s1)
  then show ?case by (cases "cp_command_queue s") auto
next
  case (3 s actions queued s1 r)
  then have "length (cp_command_queue (fst r)) \<le> length (cp_command_queue s1)"
    using process_command_queue [of s1 actions "fst queued"] by simp
  with 3 show ?case by (cases "cp_command_queue s") auto
qed

declare drain_queue.simps [simp del]

text \<open>\<open>take_next_line\<close> of \<open>src/socket_io.cpp\<close>: the line and the rest of the buffer.\<close>

definition take_next_line :: "string \<Rightarrow> (string \<times> string) option" where
  "take_next_line buffer =
     (case find_char newline buffer of
        None \<Rightarrow> None
      | Some n \<Rightarrow> Some (substr buffer 0 n, drop (n + 1) buffer))"

lemma take_next_line_shorter: "take_next_line b = Some (l, r) \<Longrightarrow> length r < length b"
  by (auto simp: take_next_line_def dest: find_char_Some_less split: option.splits)

text \<open>The effect of one received line: an error response, nothing, or a command.\<close>

definition receive_line ::
  "control_plane \<Rightarrow> control_plane_action list \<Rightarrow> string
     \<Rightarrow> control_plane \<times> control_plane_action list" where
  "receive_line s actions line =
     (case parse_controller_command line of
        IgnoredControllerCommand \<Rightarrow> (s, actions)
      | Parse_Error e \<Rightarrow>
          (let a1 = append_before_dispatch actions
                      (SendControllerTextAction (controller_parse_error_response e))
           in if e = Command_Too_Long
              then (disconnect_controller s, append_before_dispatch a1 DisconnectControllerAction)
              else (s, a1))
      | Parsed_Command command \<Rightarrow> process_command s actions command)"

lemma receive_line_buffer:
  "length (cp_read_buffer (fst (receive_line s acts l))) \<le> length (cp_read_buffer s)"
  using process_command_buffer
  by (simp add: receive_line_def Let_def split: controller_parse_result.split)

function receive_lines ::
  "control_plane \<Rightarrow> control_plane_action list \<Rightarrow> control_plane \<times> control_plane_action list" where
  "receive_lines s actions =
     (if \<not> cp_controller_attached s then (s, actions)
      else case take_next_line (cp_read_buffer s) of
        None \<Rightarrow> (s, actions)
      | Some (line, rest) \<Rightarrow>
          (let r = receive_line (s\<lparr>cp_read_buffer := rest\<rparr>) actions line
           in receive_lines (fst r) (snd r)))"
  by pat_completeness auto
termination
proof (relation "measure (\<lambda>p. length (cp_read_buffer (fst p)))", goal_cases)
  case 1
  then show ?case by simp
next
  case (2 s actions p line rest r)
  then have "length (cp_read_buffer (fst r)) \<le> length rest"
    using receive_line_buffer [of "s\<lparr>cp_read_buffer := rest\<rparr>" actions line] by simp
  with 2 take_next_line_shorter [of "cp_read_buffer s" line rest] show ?case by simp
qed

declare receive_lines.simps [simp del]

text \<open>The defaulted \<open>operator==\<close> of \<open>ProfileChange\<close>.\<close>

fun change_eq :: "profile_change \<Rightarrow> profile_change \<Rightarrow> bool" where
  "change_eq (SetPacketLoss d v) (SetPacketLoss e w) = (d = e \<and> dbl_eq v w)"
| "change_eq a b = (a = b)"

definition fail_profile_state ::
  "control_plane \<Rightarrow> control_plane \<times> control_plane_action list" where
  "fail_profile_state s =
     (s\<lparr>cp_profile_state_failed := True, cp_command_queue := []\<rparr>,
      [FailSessionForUnknownProfileStateAction])"

definition reply_wanted :: "control_plane \<Rightarrow> u64 option \<Rightarrow> bool" where
  "reply_wanted s reply_generation \<longleftrightarrow>
     \<not> cp_workload_terminal s \<and> \<not> cp_stopping s \<and> cp_controller_attached s
     \<and> reply_generation = Some (cp_connection_generation s)"

definition handle_change_result ::
  "control_plane \<Rightarrow> control_plane_result \<Rightarrow> profile_change
     \<Rightarrow> control_plane \<times> control_plane_action list" where
  "handle_change_result s result change =
     (case cp_in_flight s of
        None \<Rightarrow>
          (if \<not> cp_workload_terminal s \<and> \<not> cp_profile_state_failed s
           then fail_profile_state s else (s, []))
      | Some flight \<Rightarrow>
          (if \<not> change_eq (flight_change flight) change then
             (if \<not> cp_workload_terminal s \<and> \<not> cp_profile_state_failed s
              then fail_profile_state s else (s, []))
           else
             (let reply = flight_reply_generation flight;
                  s1 = s\<lparr>cp_in_flight := None\<rparr>
              in if result = Change_Applied then
                   (case apply_profile_change (cp_confirmed_profile s1) change of
                      Inl _ \<Rightarrow> fail_profile_state s1
                    | Inr profile \<Rightarrow>
                        (let s2 = s1\<lparr>cp_confirmed_profile := profile, cp_shaping_applied := True\<rparr>;
                             a = (if reply_wanted s2 reply
                                  then [SendControllerTextAction (''PROFILE_CHANGED'' @ [newline])]
                                  else [])
                         in if \<not> cp_workload_terminal s2 \<and> \<not> cp_profile_state_failed s2
                            then drain_queue s2 a else (s2, a)))
                 else
                   (let a = (if reply_wanted s1 reply
                             then [SendControllerTextAction
                               (''ERROR Profile change could not be applied; previous profile remains active.'' @ [newline])]
                             else [])
                    in if \<not> cp_workload_terminal s1 \<and> \<not> cp_profile_state_failed s1
                       then drain_queue s1 a else (s1, a)))))"

definition handle_bytes :: "control_plane \<Rightarrow> string \<Rightarrow> control_plane \<times> control_plane_action list" where
  "handle_bytes s bytes =
     (if \<not> cp_controller_attached s \<or> cp_workload_terminal s \<or> cp_profile_state_failed s then (s, [])
      else
        (case receive_lines (s\<lparr>cp_read_buffer := cp_read_buffer s @ bytes\<rparr>) [] of
           (s1, a1) \<Rightarrow>
             (if cp_controller_attached s1
                 \<and> maximum_controller_command_size < length (cp_read_buffer s1)
              then (disconnect_controller s1,
                    append_before_dispatch
                      (append_before_dispatch a1
                         (SendControllerTextAction (controller_parse_error_response Command_Too_Long)))
                      DisconnectControllerAction)
              else (s1, a1))))"

definition handle ::
  "control_plane \<Rightarrow> control_plane_event \<Rightarrow> control_plane \<times> control_plane_action list" where
  "handle s0 event =
     (let s = (if event \<noteq> ControllerWriteFailedEvent
               then s0\<lparr>cp_in_flight := map_option (\<lambda>f. f\<lparr>flight_dispatch_pending := False\<rparr>) (cp_in_flight s0)\<rparr>
               else s0)
      in case event of
        ControllerAttachedEvent \<Rightarrow>
          (s\<lparr>cp_connection_generation := cp_connection_generation s + 1,
             cp_controller_attached := True, cp_read_buffer := []\<rparr>,
           [SendControllerTextAction (''ATTACHED'' @ [newline])])
      | ControllerDisconnectedEvent \<Rightarrow> (disconnect_controller s, [])
      | ControllerWriteFailedEvent \<Rightarrow>
          (disconnect_controller
             (case cp_in_flight s of
                None \<Rightarrow> s
              | Some f \<Rightarrow> (if flight_dispatch_pending f then s\<lparr>cp_in_flight := None\<rparr> else s)), [])
      | SessionStoppingEvent \<Rightarrow>
          (forget_reply (s\<lparr>cp_stopping := True, cp_command_queue := []\<rparr>), [])
      | WorkloadTerminalEvent \<Rightarrow>
          (forget_reply (s\<lparr>cp_workload_terminal := True, cp_command_queue := []\<rparr>), [])
      | HelperProfileStateUnknownEvent \<Rightarrow>
          (if \<not> cp_profile_state_failed s
           then (forget_reply (s\<lparr>cp_profile_state_failed := True, cp_command_queue := []\<rparr>),
                 [FailSessionForUnknownProfileStateAction])
           else (s, []))
      | HelperProfileChangeResultEvent result change \<Rightarrow> handle_change_result s result change
      | ControllerBytesReceivedEvent bytes \<Rightarrow> handle_bytes s bytes)"

end
