(* ===== verification/Attach_Client.thy ===== *)
theory Attach_Client
  imports Session_Outcome Control_Plane
begin

text \<open>
  The attached controller: \<open>src/attach_client.cpp\<close>. What it writes to its output and error
  streams is kept as two texts; poll, the socket and the standard input are functions on a world.
\<close>

section \<open>One line of a response\<close>

datatype response_block = Block_None | Block_Help | Block_Status

record attach_client =
  at_buffer :: string
  at_block :: response_block
  at_parser :: "outcome_parser option"
  at_output :: string
  at_error :: string

definition new_attach_client :: attach_client where
  "new_attach_client = \<lparr>at_buffer = [], at_block = Block_None, at_parser = None, at_output = [], at_error = []\<rparr>"

definition put_output :: "string \<Rightarrow> attach_client \<Rightarrow> attach_client" where
  "put_output t c = c\<lparr>at_output := at_output c @ t\<rparr>"

definition put_error :: "string \<Rightarrow> attach_client \<Rightarrow> attach_client" where
  "put_error t c = c\<lparr>at_error := at_error c @ t\<rparr>"

definition put_report :: "int \<times> string \<times> string \<Rightarrow> attach_client \<Rightarrow> attach_client \<times> int option" where
  "put_report = (\<lambda>(status, output, error) c. (put_error error (put_output output c), Some status))"

definition invalid_response :: string where
  "invalid_response = ''NetLagLab: invalid response from session'' @ [newline]"

definition handle_session_outcome_result ::
  "outcome_parse_result \<Rightarrow> attach_client \<Rightarrow> attach_client \<times> int option" where
  "handle_session_outcome_result result c =
     (case result of
        Incomplete_Outcome \<Rightarrow> (c, None)
      | Complete_Outcome outcome \<Rightarrow> put_report (report_attached_session_outcome outcome) c
      | Broken_Outcome _ \<Rightarrow> (put_error invalid_response c, Some 1))"

definition response_error_prefix :: string where "response_error_prefix = ''ERROR ''"

definition controller_busy :: string where
  "controller_busy = ''Another controller is already attached.''"

definition in_block :: "string \<Rightarrow> string \<Rightarrow> attach_client \<Rightarrow> attach_client" where
  "in_block end_line line c =
     (if line = end_line then c\<lparr>at_block := Block_None\<rparr> else put_output (line @ [newline]) c)"

definition handle_supervisor_response_line ::
  "string \<Rightarrow> attach_client \<Rightarrow> attach_client \<times> int option" where
  "handle_supervisor_response_line line c =
     (if at_block c = Block_Help then (in_block ''HELP_END'' line c, None)
      else if at_block c = Block_Status then (in_block ''STATUS_END'' line c, None)
      else if line = ''ATTACHED'' then (c, None)
      else if line = ''PROFILE_CHANGED'' then
        (put_output (''Profile change applied.'' @ [newline]) c, None)
      else if line = ''HELP_BEGIN'' then (c\<lparr>at_block := Block_Help\<rparr>, None)
      else if line = ''STATUS_BEGIN'' then (c\<lparr>at_block := Block_Status\<rparr>, None)
      else if line = ''DETACHED'' then (c, Some 0)
      else if line = ''STOPPING'' then (put_output (''Stopping Workload.'' @ [newline]) c, None)
      else case report_legacy_attached_session_outcome line of
        Some report \<Rightarrow> put_report report c
      | None \<Rightarrow>
          (if starts_with response_error_prefix line then
             (let message = drop (length response_error_prefix) line;
                  c1 = put_error (message @ [newline]) c
              in (c1, if message = controller_busy then Some 1 else None))
           else (put_error invalid_response c, Some 1)))"

section \<open>One read\<close>

definition outcome_begin :: string where "outcome_begin = ''SESSION_OUTCOME_BEGIN''"

text \<open>The outcome parser starts with the line that opened it and the rest of the buffer.\<close>

definition start_outcome :: "attach_client \<Rightarrow> attach_client \<times> int option" where
  "start_outcome c =
     (case outcome_receive new_outcome_parser (outcome_begin @ [newline]) of (p1, first) \<Rightarrow>
        (case (if at_buffer c = [] then (p1, first) else outcome_receive p1 (at_buffer c)) of (p2, result) \<Rightarrow>
           handle_session_outcome_result result (c\<lparr>at_parser := Some p2, at_buffer := []\<rparr>)))"

function client_lines :: "attach_client \<Rightarrow> attach_client \<times> int option" where
  "client_lines c =
     (case take_next_line (at_buffer c) of
        None \<Rightarrow>
          (if maximum_status_size < length (at_buffer c)
           then (put_error (''NetLagLab: response from session exceeds 8 KiB'' @ [newline]) c, Some 1)
           else (c, None))
      | Some (line, rest) \<Rightarrow>
          (let c1 = c\<lparr>at_buffer := rest\<rparr>
           in if line = outcome_begin then start_outcome c1
              else
                (let r = handle_supervisor_response_line line c1
                 in if snd r \<noteq> None then r else client_lines (fst r))))"
  by pat_completeness auto
termination
proof (relation "measure (\<lambda>c. length (at_buffer c))", goal_cases)
  case (2 c p line rest c1 r)
  then have "at_buffer (fst r) = rest"
    by (auto simp: handle_supervisor_response_line_def in_block_def put_output_def put_error_def put_report_def
        Let_def split: option.split prod.split)
  with 2 take_next_line_shorter [of "at_buffer c" line rest] show ?case by simp
qed simp

declare client_lines.simps [simp del]

datatype response_read = Socket_Data string | Socket_Closed | Socket_Failed string

definition lost_session :: string where
  "lost_session = ''NetLagLab: connection to session lost; session result is unknown.'' @ [newline]"

definition read_and_handle_supervisor_responses ::
  "response_read \<Rightarrow> attach_client \<Rightarrow> attach_client \<times> int option" where
  "read_and_handle_supervisor_responses received c =
     (case received of
        Socket_Closed \<Rightarrow> (put_error lost_session c, Some 1)
      | Socket_Failed e \<Rightarrow>
          (put_error (''NetLagLab: failed to read from session: '' @ e @ [newline]) c, Some 1)
      | Socket_Data bytes \<Rightarrow>
          (let c1 = c\<lparr>at_buffer := at_buffer c @ bytes\<rparr>
           in case at_parser c1 of
                Some p \<Rightarrow>
                  (case outcome_receive p (at_buffer c1) of (p1, result) \<Rightarrow>
                     handle_session_outcome_result result (c1\<lparr>at_parser := Some p1, at_buffer := []\<rparr>))
              | None \<Rightarrow> client_lines c1))"

section \<open>The loop\<close>

record poll_events =
  socket_ready :: bool
  socket_broken :: bool
  input_ready :: bool
  input_broken :: bool

datatype client_poll = Poll_Interrupted_By_Signal | Poll_Error_Text string | Poll_Events poll_events

datatype input_read = Input_Data string | Input_End | Input_Interrupted | Input_Failed string

record 'w client_world =
  client_wait :: "bool \<Rightarrow> 'w \<Rightarrow> client_poll \<times> 'w"
  client_receive :: "'w \<Rightarrow> response_read \<times> 'w"
  client_send :: "string \<Rightarrow> 'w \<Rightarrow> bool \<times> 'w"
  client_input :: "'w \<Rightarrow> input_read \<times> 'w"

record client_loop =
  loop_client :: attach_client
  loop_reads_input :: bool
  loop_line_ended :: bool

definition new_client_loop :: client_loop where
  "new_client_loop = \<lparr>loop_client = new_attach_client, loop_reads_input = True, loop_line_ended = True\<rparr>"

definition client_fails :: "string \<Rightarrow> client_loop \<Rightarrow> client_loop \<times> int" where
  "client_fails message l = (l\<lparr>loop_client := put_error message (loop_client l)\<rparr>, 1)"

text \<open>The standard input: its bytes are sent, its end becomes a detach command on a line of its own.\<close>

definition handle_input ::
  "'w client_world \<Rightarrow> client_loop \<times> 'w \<Rightarrow> (client_loop \<times> 'w) + ((client_loop \<times> int) \<times> 'w)" where
  "handle_input cw = (\<lambda>(l, w).
     case client_input cw w of (input, w1) \<Rightarrow>
       (case input of
          Input_Data bytes \<Rightarrow>
            (case client_send cw bytes w1 of (sent, w2) \<Rightarrow>
               if \<not> sent then Inr (client_fails lost_session l, w2)
               else Inl (l\<lparr>loop_line_ended := last bytes = newline\<rparr>, w2))
        | Input_End \<Rightarrow>
            (case (if loop_line_ended l then (True, w1) else client_send cw [newline] w1) of (ended, w2) \<Rightarrow>
               if \<not> ended then Inr (client_fails lost_session l, w2)
               else case client_send cw (''detach'' @ [newline]) w2 of (sent, w3) \<Rightarrow>
                 if \<not> sent then Inr (client_fails lost_session l, w3)
                 else Inl (l\<lparr>loop_reads_input := False\<rparr>, w3))
        | Input_Interrupted \<Rightarrow> Inl (l, w1)
        | Input_Failed e \<Rightarrow>
            Inr (client_fails (''NetLagLab: failed to read stdin: '' @ e @ [newline]) l, w1)))"

definition handle_socket ::
  "'w client_world \<Rightarrow> client_loop \<times> 'w \<Rightarrow> (client_loop \<times> 'w) + ((client_loop \<times> int) \<times> 'w)" where
  "handle_socket cw = (\<lambda>(l, w).
     case client_receive cw w of (received, w1) \<Rightarrow>
       (case read_and_handle_supervisor_responses received (loop_client l) of (c, result) \<Rightarrow>
          (case result of
             None \<Rightarrow> Inl (l\<lparr>loop_client := c\<rparr>, w1)
           | Some status \<Rightarrow> Inr ((l\<lparr>loop_client := c\<rparr>, status), w1))))"

text \<open>The events of one poll, in the order of the code; \<open>reading\<close> is whether the input was polled.\<close>

definition handle_events ::
  "'w client_world \<Rightarrow> poll_events \<Rightarrow> client_loop \<times> 'w \<Rightarrow> (client_loop \<times> 'w) + ((client_loop \<times> int) \<times> 'w)" where
  "handle_events cw events x =
     (case (if socket_ready events then handle_socket cw x else Inl x) of
        Inr r \<Rightarrow> Inr r
      | Inl (l, w) \<Rightarrow>
          (if socket_broken events then Inr (client_fails lost_session l, w)
           else case (if loop_reads_input l \<and> input_ready events then handle_input cw (l, w) else Inl (l, w)) of
             Inr r \<Rightarrow> Inr r
           | Inl (l1, w1) \<Rightarrow>
               (if loop_reads_input l1 \<and> input_broken events
                then Inr (client_fails (''NetLagLab: stdin is not readable'' @ [newline]) l1, w1)
                else Inl (l1, w1))))"

definition client_pass ::
  "'w client_world \<Rightarrow> client_loop \<times> 'w \<Rightarrow> (client_loop \<times> 'w) + ((client_loop \<times> int) \<times> 'w)" where
  "client_pass cw = (\<lambda>(l, w).
     case client_wait cw (loop_reads_input l) w of (outcome, w1) \<Rightarrow>
       (case outcome of
          Poll_Interrupted_By_Signal \<Rightarrow> Inl (l, w1)
        | Poll_Error_Text e \<Rightarrow> Inr (client_fails (''NetLagLab: poll failed: '' @ e @ [newline]) l, w1)
        | Poll_Events events \<Rightarrow> handle_events cw events (l, w1)))"

text \<open>The exit status with what was written; \<open>None\<close> while the session goes on for ever.\<close>

definition run_attached_controller :: "'w client_world \<Rightarrow> 'w \<Rightarrow> ((client_loop \<times> int) \<times> 'w) option" where
  "run_attached_controller cw w = iterate (client_pass cw) (new_client_loop, w)"

end
