(* ===== verification/Status_Report.thy ===== *)
theory Status_Report
  imports Control_Plane
begin

text \<open>
  The status block of \<open>build_status\<close>: the arguments of the workload are printed so that they
  can be read back and cannot imitate the lines around them, and the block never exceeds
  \<open>maximum_status_size\<close>.
\<close>

section \<open>Escaped arguments\<close>

definition hex_digit_value :: "char \<Rightarrow> nat" where
  "hex_digit_value c = (if byte_of c \<le> 57 then byte_of c - 48 else byte_of c - 55)"

lemma hex_digit_value_nth: "n < 16 \<Longrightarrow> hex_digit_value (''0123456789ABCDEF'' ! n) = n"
proof -
  assume "n < 16"
  then have "n \<in> set [0..<16]" by simp
  moreover have "list_all (\<lambda>n. hex_digit_value (''0123456789ABCDEF'' ! n) = n) [0..<16]"
    by (simp add: upt_rec hex_digit_value_def byte_of_def)
  ultimately show ?thesis by (simp only: list_all_iff)
qed

lemma hex_digit_plain:
  "n < 16 \<Longrightarrow> 32 \<le> byte_of (''0123456789ABCDEF'' ! n) \<and> byte_of (''0123456789ABCDEF'' ! n) < 127"
proof -
  assume "n < 16"
  then have "n \<in> set [0..<16]" by simp
  moreover have "list_all (\<lambda>n. 32 \<le> byte_of (''0123456789ABCDEF'' ! n)
      \<and> byte_of (''0123456789ABCDEF'' ! n) < 127) [0..<16]"
    by (simp add: upt_rec byte_of_def)
  ultimately show ?thesis by (simp only: list_all_iff)
qed

text \<open>Reads one printed character back.\<close>

fun unescape_one :: "string \<Rightarrow> (char \<times> string) option" where
  "unescape_one [] = None"
| "unescape_one (c # r) =
     (if c \<noteq> CHR 0x5C then Some (c, r)
      else case r of
        [] \<Rightarrow> None
      | e # r' \<Rightarrow>
          (if e = CHR 0x5C then Some (CHR 0x5C, r')
           else if e = CHR ''t'' then Some (CHR 0x09, r')
           else if e = CHR ''n'' then Some (CHR 0x0A, r')
           else if e = CHR ''r'' then Some (CHR 0x0D, r')
           else case r' of
             h # l # r'' \<Rightarrow> Some (char_of (16 * hex_digit_value h + hex_digit_value l), r'')
           | _ \<Rightarrow> None))"

lemma unescape_one_piece: "unescape_one (escaped_piece c @ r) = Some (c, r)"
proof -
  have "byte_of c div 16 < 16" by (rule less_mult_imp_div_less) (use byte_of_less [of c] in simp)
  moreover have "byte_of c mod 16 < 16" by simp
  ultimately show ?thesis
    by (simp add: escaped_piece_def hex_digit_value_nth mult.commute)
qed

lemma escaped_piece_nonempty [simp]: "escaped_piece c \<noteq> []"
  by (simp add: escaped_piece_def)

definition escape :: "string \<Rightarrow> string" where
  "escape cs = concat (map escaped_piece cs)"

lemma escape_simps [simp]: "escape [] = []" "escape (c # cs) = escaped_piece c @ escape cs"
  by (simp_all add: escape_def)

lemma escape_inject: "escape a = escape b \<Longrightarrow> a = b"
proof (induction a arbitrary: b)
  case Nil
  then show ?case by (cases b) auto
next
  case (Cons c cs)
  then obtain d ds where b: "b = d # ds" by (cases b) auto
  have "unescape_one (escaped_piece c @ escape cs) = unescape_one (escaped_piece d @ escape ds)"
    using Cons.prems b by simp
  then have "c = d" "escape cs = escape ds" by (simp_all only: unescape_one_piece option.inject prod.inject)
  with Cons.IH b show ?case by simp
qed

lemma escaped_piece_cases:
  "x \<in> set (escaped_piece c) \<Longrightarrow>
     x \<in> {CHR 0x5C, CHR ''t'', CHR ''n'', CHR ''r'', CHR ''x''}
     \<or> x = ''0123456789ABCDEF'' ! (byte_of c div 16) \<or> x = ''0123456789ABCDEF'' ! (byte_of c mod 16)
     \<or> x = c \<and> 32 \<le> byte_of c \<and> c \<noteq> CHR 0x7F"
proof -
  obtain h l where h: "h = ''0123456789ABCDEF'' ! (byte_of c div 16)"
    and l: "l = ''0123456789ABCDEF'' ! (byte_of c mod 16)" by blast
  show "x \<in> set (escaped_piece c) \<Longrightarrow> ?thesis"
    unfolding escaped_piece_def h [symmetric] l [symmetric]
    by (simp split: if_split_asm) auto
qed

lemma plain_literals:
  "x \<in> {CHR 0x5C, CHR ''t'', CHR ''n'', CHR ''r'', CHR ''x''} \<Longrightarrow> 32 \<le> byte_of x \<and> byte_of x < 127"
  by (auto simp: byte_of_def)

lemma byte_127: "byte_of x = 127 \<longleftrightarrow> x = CHR 0x7F"
  using byte_of_inject [of x "CHR 0x7F"] by (simp add: byte_of_def)

lemma escaped_piece_printable:
  assumes "x \<in> set (escaped_piece c)"
  shows "32 \<le> byte_of x \<and> x \<noteq> CHR 0x7F"
proof -
  have hi: "byte_of c div 16 < 16" by (rule less_mult_imp_div_less) (use byte_of_less [of c] in simp)
  have lo: "byte_of c mod 16 < 16" by simp
  have "32 \<le> byte_of x \<and> byte_of x \<noteq> 127"
    using escaped_piece_cases [OF assms]
  proof (elim disjE)
    assume "x = c \<and> 32 \<le> byte_of c \<and> c \<noteq> CHR 0x7F"
    then show ?thesis by (simp add: byte_127)
  qed (use plain_literals [of x] hex_digit_plain [OF hi] hex_digit_plain [OF lo] in force)+
  then show ?thesis by (simp add: byte_127)
qed

text \<open>The limit cuts the escaped text after a whole piece.\<close>

lemma append_escaped_limited_take:
  "\<exists>k \<le> length cs. append_escaped_limited out cs limit = (out @ escape (take k cs), k = length cs)"
proof (induction out cs limit rule: append_escaped_limited.induct)
  case (1 out limit)
  then show ?case by simp
next
  case (2 out c cs limit)
  show ?case
  proof (cases "limit < length out \<or> limit - length out < length (escaped_piece c)")
    case True
    then show ?thesis by (intro exI [of _ 0]) simp
  next
    case False
    from "2.IH" [OF False] obtain k where "k \<le> length cs"
      "append_escaped_limited (out @ escaped_piece c) cs limit
        = ((out @ escaped_piece c) @ escape (take k cs), k = length cs)" by blast
    with False show ?thesis by (intro exI [of _ "Suc k"]) simp
  qed
qed

lemma append_escaped_limited_length:
  "length out \<le> limit \<Longrightarrow> length (fst (append_escaped_limited out cs limit)) \<le> limit"
  by (induction out cs limit rule: append_escaped_limited.induct) auto

text \<open>What the status report prints of an argument has no control character, so an argument
  can neither end its line nor start another one, and two arguments printed in full after the
  same text are equal whenever their reports are: the report is unambiguous.\<close>

theorem status_arguments_unforgeable:
  assumes "append_escaped_limited out a limit = (ra, oka)"
  shows "(\<exists>e. ra = out @ e \<and> (\<forall>x \<in> set e. 32 \<le> byte_of x \<and> x \<noteq> CHR 0x7F))
    \<and> (\<forall>b. oka \<and> append_escaped_limited out b limit = (ra, True) \<longrightarrow> a = b)"
proof -
  from append_escaped_limited_take [of a out limit] assms
  obtain k where k: "ra = out @ escape (take k a)" "oka \<longleftrightarrow> k = length a" by auto
  have printable: "\<forall>x \<in> set (escape (take k a)). 32 \<le> byte_of x \<and> x \<noteq> CHR 0x7F"
    using escaped_piece_printable by (auto simp: escape_def)
  have "a = b" if "oka" "append_escaped_limited out b limit = (ra, True)" for b
  proof -
    from append_escaped_limited_take [of b out limit] that(2)
    obtain j where "ra = out @ escape (take j b)" "j = length b" by auto
    with k that(1) have "escape a = escape b" by simp
    then show ?thesis by (rule escape_inject)
  qed
  with k printable show ?thesis by blast
qed

theorem status_arguments_unforgeable_witness:
  "append_escaped_limited ''a: '' [CHR ''x'', newline, CHR 0x01] 20
     = (''a: x'' @ [CHR 0x5C] @ ''n'' @ [CHR 0x5C] @ ''x01'', True)
   \<and> (\<exists>e. ''a: x'' @ [CHR 0x5C] @ ''n'' @ [CHR 0x5C] @ ''x01'' = ''a: '' @ e \<and> newline \<notin> set e)"
proof -
  have e: "append_escaped_limited ''a: '' [CHR ''x'', newline, CHR 0x01] 20
     = (''a: x'' @ [CHR 0x5C] @ ''n'' @ [CHR 0x5C] @ ''x01'', True)"
    by (simp add: escaped_piece_def byte_of_def)
  obtain t where t: "''a: x'' @ [CHR 0x5C] @ ''n'' @ [CHR 0x5C] @ ''x01'' = ''a: '' @ t"
    and p: "\<forall>x \<in> set t. 32 \<le> byte_of x \<and> x \<noteq> CHR 0x7F"
    using status_arguments_unforgeable [OF e] by blast
  have "newline \<notin> set t"
  proof
    assume "newline \<in> set t"
    with p have "32 \<le> byte_of newline" by blast
    then show False by (simp add: byte_of_def)
  qed
  with e t show ?thesis by blast
qed

section \<open>The size of the report\<close>

lemma to_string_sint_length: "length (to_string_int (sint (w :: i64))) \<le> 20"
proof -
  have b: "- (2 ^ 63) \<le> sint w" "sint w < 2 ^ 63"
    using sint_ge [of w] sint_lt [of w] by simp_all
  have "length (to_string_nat (nat (- sint w))) \<le> 19" "length (to_string_nat (nat (sint w))) \<le> 19"
    using b by (auto intro!: length_to_string_nat)
  then show ?thesis by (simp add: to_string_int_def)
qed

lemma to_string_pid_length: "\<bar>pid\<bar> < 2 ^ 31 \<Longrightarrow> length (to_string_int pid) \<le> 11"
proof -
  assume "\<bar>pid\<bar> < 2 ^ 31"
  then have "length (to_string_nat (nat (- pid))) \<le> 10" "length (to_string_nat (nat pid)) \<le> 10"
    by (auto intro!: length_to_string_nat)
  then show ?thesis by (simp add: to_string_int_def)
qed

lemma append_direction_status_length:
  assumes "valid_settings x"
  shows "length (append_direction_status name x) \<le> length name + 220"
proof -
  have p: "length (to_chars_general 6 (packet_loss_percent x)) \<le> 64"
    using to_chars_general_length [of "packet_loss_percent x" 5] assms
    by (simp add: valid_settings_def valid_loss_def)
  have b: "length (to_string_nat (unat b)) \<le> 20" for b :: u64
    using unsigned_less [of b, where ?'a = nat] by (intro length_to_string_nat) simp_all
  note d = to_string_sint_length [of "delay x"] to_string_sint_length [of "jitter x"]
  show ?thesis
  proof (cases "bandwidth_kbps x")
    case None
    with p d show ?thesis by (simp add: append_direction_status_def)
  next
    case (Some w)
    with p d b [of w] show ?thesis by (simp add: append_direction_status_def)
  qed
qed

lemma status_tail_length:
  assumes "valid_profile p"
  shows "length (status_tail p b) \<le> 500"
  using assms append_direction_status_length [of "outbound p" "''outbound''"]
    append_direction_status_length [of "inbound p" "''inbound''"]
  by (simp add: status_tail_def valid_profile_def)

lemma append_arguments_length:
  "length out \<le> limit \<Longrightarrow> 0 < limit \<Longrightarrow> length (fst (append_arguments out args i limit)) \<le> limit"
proof (induction out args i limit rule: append_arguments.induct)
  case (2 out a as i limit)
  define pre where "pre = ''argument['' @ to_string_nat (i - 1) @ '']: ''"
  show ?case
  proof (cases "limit < length out + length pre + 1")
    case True
    with "2.prems" show ?thesis by (simp add: pre_def)
  next
    case False
    obtain r ok where r: "append_escaped_limited (out @ pre) a (limit - 1) = (r, ok)" by fastforce
    have "length (out @ pre) \<le> limit - 1" using False by simp
    from append_escaped_limited_length [OF this, of a] r have "length r \<le> limit - 1" by simp
    with "2.prems" have len: "length (r @ [newline]) \<le> limit" by simp
    show ?thesis
    proof (cases ok)
      case True
      have "length (fst (append_arguments (r @ [newline]) as (i + 1) limit)) \<le> limit"
        by (rule "2.IH" [OF pre_def _ r [symmetric]])
           (use False True len "2.prems" in simp_all)
      with False True r show ?thesis
        unfolding append_arguments.simps pre_def [symmetric] Let_def by simp
    next
      case False
      with len r \<open>\<not> limit < _\<close> show ?thesis
        unfolding append_arguments.simps pre_def [symmetric] Let_def by simp
    qed
  qed
qed simp

lemma build_status_fits:
  assumes "valid_profile p" "\<bar>pid\<bar> < 2 ^ 31"
  shows "length (build_status pid args p stopping shaping) \<le> maximum_status_size
    \<and> (\<exists>content. build_status pid args p stopping shaping = content @ status_tail p shaping)"
proof -
  define tail where "tail = status_tail p shaping"
  define limit where "limit = maximum_status_size - length tail - length truncated_notice"
  define header where "header = ''STATUS_BEGIN'' @ [newline] @ ''state: ''
            @ (if stopping then ''stopping'' else ''running'') @ [newline]
            @ ''pid: '' @ to_string_int pid @ [newline] @ ''program: ''"
  have tail: "length tail \<le> 500" unfolding tail_def using assms(1) by (rule status_tail_length)
  have notice: "length truncated_notice = 21" by (simp add: truncated_notice_def)
  have limit: "limit + length tail + 21 = 8192" "7000 \<le> limit"
    using tail by (simp_all add: limit_def notice maximum_status_size_def)
  have "length header \<le> 100"
    using to_string_pid_length [OF assms(2)] by (simp add: header_def)
  with limit(2) have "length header \<le> limit - 1" by simp
  obtain r ok where r: "append_escaped_limited header (hd args) (limit - 1) = (r, ok)" by fastforce
  with append_escaped_limited_length [OF \<open>length header \<le> limit - 1\<close>, of "hd args"]
  have r1: "length (r @ [newline]) \<le> limit" using limit(2) by simp
  obtain r3 cut where r3: "(if ok then append_arguments (r @ [newline]) (tl args) 1 limit
      else (r @ [newline], True)) = (r3, cut)" by fastforce
  with append_arguments_length [OF r1, of "tl args" 1] r1 limit(2) have len: "length r3 \<le> limit"
    by (auto split: if_splits)
  have "build_status pid args p stopping shaping = r3 @ (if cut then truncated_notice else []) @ tail"
    unfolding build_status_def Let_def tail_def [symmetric] limit_def [symmetric]
      header_def [symmetric] r prod.case r3 ..
  with len limit(1) show ?thesis
    by (auto simp: notice maximum_status_size_def tail_def)
qed

text \<open>C3: the status report of a valid profile fits the 8192 bytes reserved for it, whatever the
  program and its arguments are, and always ends with the complete profile and its end mark.\<close>

theorem build_status_bounded:
  assumes "valid_profile p" "\<bar>pid\<bar> < 2 ^ 31"
  shows "length (build_status pid args p stopping shaping) \<le> maximum_status_size
    \<and> (\<exists>content. build_status pid args p stopping shaping = content @ status_tail p shaping)"
  using assms by (rule build_status_fits)

theorem build_status_bounded_witness:
  "length (build_status 42 [replicate 9000 (CHR ''a'')] default_profile False False)
     \<le> maximum_status_size"
  using build_status_bounded [of default_profile 42 "[replicate 9000 (CHR ''a'')]" False False] by simp

end
