(* ===== verification/Control_Plane_Laws.thy ===== *)
theory Control_Plane_Laws
  imports Control_Plane
begin

text \<open>
  What \<open>ControllerControlPlane::handle\<close> guarantees to the supervisor and to the controller:
  the invariant of its state, the order of the actions of one event, when a change is handed
  to the helper, who receives a reply, and that the status report stays one bounded, unforgeable
  block.
\<close>

section \<open>The state invariant\<close>

fun queueable :: "controller_command \<Rightarrow> bool" where
  "queueable (ChangeControllerCommand c) = sendable c"
| "queueable StopControllerCommand = False"
| "queueable _ = True"

definition cp_inv :: "control_plane \<Rightarrow> bool" where
  "cp_inv s \<longleftrightarrow>
     length (cp_command_queue s) \<le> 32
     \<and> (\<forall>q \<in> set (cp_command_queue s). queueable (fst q))
     \<and> (\<not> cp_controller_attached s \<longrightarrow> cp_command_queue s = [] \<and> cp_read_buffer s = [])
     \<and> (cp_stopping s \<or> cp_workload_terminal s \<or> cp_profile_state_failed s
          \<longrightarrow> cp_command_queue s = [])
     \<and> (cp_command_queue s \<noteq> [] \<longrightarrow> cp_in_flight s \<noteq> None)
     \<and> (\<forall>f. cp_in_flight s = Some f \<longrightarrow> sendable (flight_change f))
     \<and> valid_profile (cp_confirmed_profile s)"

text \<open>The part that holds between two commands of a batch, where the queue is being drained.\<close>

definition drain_inv :: "control_plane \<Rightarrow> bool" where
  "drain_inv s \<longleftrightarrow>
     length (cp_command_queue s) \<le> 32
     \<and> (\<forall>q \<in> set (cp_command_queue s). queueable (fst q))
     \<and> (\<not> cp_controller_attached s \<longrightarrow> cp_command_queue s = [] \<and> cp_read_buffer s = [])
     \<and> (cp_stopping s \<or> cp_workload_terminal s \<or> cp_profile_state_failed s
          \<longrightarrow> cp_command_queue s = [])
     \<and> (\<forall>f. cp_in_flight s = Some f \<longrightarrow> sendable (flight_change f))
     \<and> valid_profile (cp_confirmed_profile s)"

lemma cp_inv_iff: "cp_inv s \<longleftrightarrow> drain_inv s \<and> (cp_command_queue s \<noteq> [] \<longrightarrow> cp_in_flight s \<noteq> None)"
  by (auto simp: cp_inv_def drain_inv_def)

lemma forget_reply_flight:
  "cp_in_flight (forget_reply s) = Some f \<Longrightarrow>
     \<exists>g. cp_in_flight s = Some g \<and> flight_change f = flight_change g
       \<and> flight_dispatch_pending f = flight_dispatch_pending g"
  by (auto simp: forget_reply_def)

lemma drain_inv_forget [simp]: "drain_inv (forget_reply s) \<longleftrightarrow> drain_inv s"
  by (cases "cp_in_flight s") (simp_all add: drain_inv_def forget_reply_def)

lemma drain_inv_disconnect: "drain_inv s \<Longrightarrow> drain_inv (disconnect_controller s)"
  by (simp add: disconnect_controller_def) (simp add: drain_inv_def)

lemma drain_inv_enter: "drain_inv s \<Longrightarrow> drain_inv (fst (enter_stopping s acts))"
  by (simp add: enter_stopping_def Let_def split: option.split)
     (auto simp: drain_inv_def)

lemma drain_inv_process:
  assumes "drain_inv s" "queueable c \<or> c = StopControllerCommand" "cp_controller_attached s"
    "\<not> cp_workload_terminal s" "\<not> cp_profile_state_failed s"
  shows "drain_inv (fst (process_command s acts c))"
  using assms drain_inv_enter [of s acts] drain_inv_disconnect [of s]
  by (cases c) (auto simp: process_command_def drain_inv_def)

text \<open>What a command never changes.\<close>

lemma enter_stopping_keeps [simp]:
  "cp_workload_terminal (fst (enter_stopping s acts)) = cp_workload_terminal s"
  "cp_profile_state_failed (fst (enter_stopping s acts)) = cp_profile_state_failed s"
  "cp_confirmed_profile (fst (enter_stopping s acts)) = cp_confirmed_profile s"
  "cp_controller_attached (fst (enter_stopping s acts)) = cp_controller_attached s"
  "cp_connection_generation (fst (enter_stopping s acts)) = cp_connection_generation s"
  "cp_shaping_applied (fst (enter_stopping s acts)) = cp_shaping_applied s"
  by (simp_all add: enter_stopping_def Let_def split: option.split prod.split)

lemma process_command_keeps [simp]:
  "cp_workload_terminal (fst (process_command s acts c)) = cp_workload_terminal s"
  "cp_profile_state_failed (fst (process_command s acts c)) = cp_profile_state_failed s"
  "cp_confirmed_profile (fst (process_command s acts c)) = cp_confirmed_profile s"
  "cp_connection_generation (fst (process_command s acts c)) = cp_connection_generation s"
  by (cases c; simp add: process_command_def)+

lemma receive_line_keeps [simp]:
  "cp_workload_terminal (fst (receive_line s acts l)) = cp_workload_terminal s"
  "cp_profile_state_failed (fst (receive_line s acts l)) = cp_profile_state_failed s"
  "cp_confirmed_profile (fst (receive_line s acts l)) = cp_confirmed_profile s"
  by (simp_all add: receive_line_def Let_def split: controller_parse_result.split)

lemma parsed_command_queueable:
  "parse_controller_command l = Parsed_Command c \<Longrightarrow> queueable c \<or> c = StopControllerCommand"
  by (cases c) (auto dest: parse_controller_sendable)

section \<open>The order of one batch\<close>

text \<open>
  The kinds of action in the order in which the supervisor may meet them in one batch.
\<close>

fun action_rank :: "control_plane_action \<Rightarrow> nat" where
  "action_rank RequestLifecycleStopAction = 0"
| "action_rank (SendControllerTextAction _) = 1"
| "action_rank DisconnectControllerAction = 2"
| "action_rank FailSessionForUnknownProfileStateAction = 3"
| "action_rank (DispatchProfileChangeAction _) = 4"

definition before :: "control_plane_action \<Rightarrow> control_plane_action \<Rightarrow> bool" where
  "before a b \<longleftrightarrow> action_rank a < action_rank b \<or> action_rank a = 1 \<and> action_rank b = 1"

definition ordered_batch :: "control_plane_action list \<Rightarrow> bool" where
  "ordered_batch acts \<longleftrightarrow> sorted_wrt before acts"

lemma is_dispatch_rank: "is_dispatch a \<longleftrightarrow> action_rank a = 4"
  by (cases a) auto

lemma rank_le: "\<not> is_dispatch a \<Longrightarrow> action_rank a \<le> 3"
  by (cases a) auto

lemma ordered_insert:
  assumes o: "ordered_batch acts" and a: "\<not> is_dispatch a"
    and pre: "\<And>b. b \<in> set acts \<Longrightarrow> \<not> is_dispatch b \<Longrightarrow> before b a"
  shows "ordered_batch (append_before_dispatch acts a)"
proof -
  let ?l = "takeWhile (\<lambda>a. \<not> is_dispatch a) acts" and ?r = "dropWhile (\<lambda>a. \<not> is_dispatch a) acts"
  have split: "sorted_wrt before (?l @ ?r)" using o by (simp add: ordered_batch_def)
  then have lr: "sorted_wrt before ?l" "sorted_wrt before ?r"
    "\<And>x y. x \<in> set ?l \<Longrightarrow> y \<in> set ?r \<Longrightarrow> before x y"
    unfolding sorted_wrt_append by simp_all
  have la: "before x a" if "x \<in> set ?l" for x
    using that pre set_takeWhileD [OF that] by blast
  have ar: "before a y" if y: "y \<in> set ?r" for y
  proof -
    obtain h t where r: "?r = h # t" using y by (cases ?r) auto
    then have h: "is_dispatch h" by (metis dropWhile_eq_Cons_conv)
    from lr(2) r y have "y = h \<or> before h y" by auto
    with h have "is_dispatch y" by (cases y; cases h) (auto simp: before_def)
    with a show ?thesis using rank_le [OF a] by (simp add: before_def is_dispatch_rank)
  qed
  show ?thesis
    unfolding ordered_batch_def append_before_dispatch_def
    using lr la ar by (simp add: sorted_wrt_append)
qed

lemma set_append_before [simp]:
  "set (append_before_dispatch acts a) = insert a (set acts)"
proof -
  have "set acts = set (takeWhile (\<lambda>a. \<not> is_dispatch a) acts @ dropWhile (\<lambda>a. \<not> is_dispatch a) acts)"
    by simp
  then show ?thesis unfolding append_before_dispatch_def set_append by auto
qed

text \<open>The state and the actions that one batch has built up so far.\<close>

definition batch_inv :: "control_plane \<Rightarrow> control_plane_action list \<Rightarrow> bool" where
  "batch_inv s acts \<longleftrightarrow>
     ordered_batch acts
     \<and> FailSessionForUnknownProfileStateAction \<notin> set acts
     \<and> (cp_controller_attached s \<longrightarrow> DisconnectControllerAction \<notin> set acts)
     \<and> (\<forall>c. DispatchProfileChangeAction c \<in> set acts \<longrightarrow>
          (\<exists>f. cp_in_flight s = Some f \<and> flight_dispatch_pending f \<and> flight_change f = c)
          \<and> \<not> cp_stopping s)
     \<and> (\<forall>f. cp_in_flight s = Some f \<and> flight_dispatch_pending f
          \<longrightarrow> DispatchProfileChangeAction (flight_change f) \<in> set acts)
     \<and> (RequestLifecycleStopAction \<in> set acts \<longrightarrow> cp_stopping s)"

lemma batch_invI:
  assumes "ordered_batch acts" "FailSessionForUnknownProfileStateAction \<notin> set acts"
    "cp_controller_attached s \<Longrightarrow> DisconnectControllerAction \<notin> set acts"
    "\<And>c. DispatchProfileChangeAction c \<in> set acts \<Longrightarrow>
       (\<exists>f. cp_in_flight s = Some f \<and> flight_dispatch_pending f \<and> flight_change f = c) \<and> \<not> cp_stopping s"
    "\<And>f. cp_in_flight s = Some f \<Longrightarrow> flight_dispatch_pending f \<Longrightarrow>
       DispatchProfileChangeAction (flight_change f) \<in> set acts"
    "RequestLifecycleStopAction \<in> set acts \<Longrightarrow> cp_stopping s"
  shows "batch_inv s acts"
  using assms unfolding batch_inv_def by blast

lemma before_text: "a \<noteq> DisconnectControllerAction \<Longrightarrow> a \<noteq> FailSessionForUnknownProfileStateAction \<Longrightarrow>
    \<not> is_dispatch a \<Longrightarrow> before a (SendControllerTextAction t)"
  by (cases a) (simp_all add: before_def)

lemma before_disconnect: "a \<noteq> DisconnectControllerAction \<Longrightarrow> a \<noteq> FailSessionForUnknownProfileStateAction \<Longrightarrow>
    \<not> is_dispatch a \<Longrightarrow> before a DisconnectControllerAction"
  by (cases a) (simp_all add: before_def)

lemma batch_send:
  assumes "batch_inv s acts" "cp_controller_attached s"
  shows "batch_inv s (append_before_dispatch acts (SendControllerTextAction t))"
proof -
  have "ordered_batch (append_before_dispatch acts (SendControllerTextAction t))"
    using assms by (intro ordered_insert before_text) (auto simp: batch_inv_def)
  with assms show ?thesis by (auto simp: batch_inv_def)
qed

lemma batch_forget_reply [simp]: "batch_inv (forget_reply s) acts \<longleftrightarrow> batch_inv s acts"
  by (cases "cp_in_flight s") (simp_all add: batch_inv_def forget_reply_def)

lemma batch_disconnect:
  assumes "batch_inv s acts" "cp_controller_attached s"
  shows "batch_inv (disconnect_controller s) (append_before_dispatch acts DisconnectControllerAction)"
proof -
  have o: "ordered_batch (append_before_dispatch acts DisconnectControllerAction)"
    using assms by (intro ordered_insert before_disconnect) (auto simp: batch_inv_def)
  from assms show ?thesis unfolding disconnect_controller_def batch_forget_reply
    by (intro batch_invI o) (simp_all add: batch_inv_def)
qed

lemma before_stop: "a \<noteq> RequestLifecycleStopAction \<Longrightarrow> before RequestLifecycleStopAction a"
  by (cases a) (simp_all add: before_def)

lemma batch_enter:
  assumes b: "batch_inv s acts" and att: "cp_controller_attached s"
  shows "batch_inv (fst (enter_stopping s acts)) (snd (enter_stopping s acts))"
proof -
  define a1 where "a1 = (if \<not> cp_stopping s then RequestLifecycleStopAction # acts else acts)"
  have a1: "set a1 \<subseteq> insert RequestLifecycleStopAction (set acts)" "set acts \<subseteq> set a1"
    by (auto simp: a1_def)
  have o1: "ordered_batch a1"
    using b by (auto simp: a1_def batch_inv_def ordered_batch_def intro: before_stop)
  have o2: "ordered_batch (filter (\<lambda>a. \<not> is_dispatch a) a1)"
    using o1 by (simp add: ordered_batch_def sorted_wrt_filter)
  have nd: "FailSessionForUnknownProfileStateAction \<notin> set a1" "DisconnectControllerAction \<notin> set a1"
    using b att a1 by (auto simp: batch_inv_def)
  have disp: "\<exists>f. cp_in_flight s = Some f \<and> flight_dispatch_pending f \<and> flight_change f = c"
    if "DispatchProfileChangeAction c \<in> set a1" for c
    using that a1(1) b by (auto simp: batch_inv_def)
  define s1 where "s1 = s\<lparr>cp_stopping := True, cp_command_queue := []\<rparr>"
  have s1: "cp_in_flight s1 = cp_in_flight s" "cp_stopping s1"
    "cp_controller_attached s1 = cp_controller_attached s" by (simp_all add: s1_def)
  consider (none) "cp_in_flight s = None"
    | (pending) f where "cp_in_flight s = Some f" "flight_dispatch_pending f"
    | (sent) f where "cp_in_flight s = Some f" "\<not> flight_dispatch_pending f"
    by (cases "cp_in_flight s") auto
  then show ?thesis
  proof cases
    case none
    have "batch_inv s1 a1"
      using none o1 nd disp by (intro batch_invI) (auto simp: s1)
    with none att show ?thesis
      by (simp add: enter_stopping_def s1_def [symmetric] a1_def [symmetric] s1 batch_send)
  next
    case pending
    have "batch_inv (s1\<lparr>cp_in_flight := None\<rparr>) (filter (\<lambda>a. \<not> is_dispatch a) a1)"
      using o2 nd by (intro batch_invI) (auto simp: s1)
    with pending att show ?thesis
      by (simp add: enter_stopping_def s1_def [symmetric] a1_def [symmetric] s1 batch_send)
  next
    case sent
    have "batch_inv (forget_reply s1) a1"
      unfolding batch_forget_reply
      using sent o1 nd disp by (intro batch_invI) (auto simp: s1)
    with sent att show ?thesis
      by (simp add: enter_stopping_def s1_def [symmetric] a1_def [symmetric] s1 batch_send)
  qed
qed

lemma batch_queue [simp]:
  "batch_inv (s\<lparr>cp_command_queue := q\<rparr>) acts \<longleftrightarrow> batch_inv s acts"
  "batch_inv (s\<lparr>cp_read_buffer := r\<rparr>) acts \<longleftrightarrow> batch_inv s acts"
  by (simp_all add: batch_inv_def)

lemma batch_dispatch:
  assumes b: "batch_inv s acts" and none: "cp_in_flight s = None" and go: "\<not> cp_stopping s"
  shows "batch_inv (s\<lparr>cp_in_flight := Some \<lparr>flight_change = c, flight_reply_generation = g,
           flight_dispatch_pending = True\<rparr>\<rparr>) (acts @ [DispatchProfileChangeAction c])"
proof -
  have no: "\<not> is_dispatch a" if "a \<in> set acts" for a
  proof
    assume "is_dispatch a"
    then obtain d where "a = DispatchProfileChangeAction d" by (cases a) auto
    with that b none show False by (auto simp: batch_inv_def)
  qed
  then have "before a (DispatchProfileChangeAction c)" if "a \<in> set acts" for a
    using no [OF that] by (cases a) (simp_all add: before_def)
  with b have "ordered_batch (acts @ [DispatchProfileChangeAction c])"
    by (simp add: ordered_batch_def batch_inv_def sorted_wrt_append)
  with b go show ?thesis by (auto simp: batch_inv_def none)
qed

lemma batch_process:
  assumes "batch_inv s acts" "cp_controller_attached s"
  shows "batch_inv (fst (process_command s acts c)) (snd (process_command s acts c))"
proof (cases c)
  case (ChangeControllerCommand d)
  show ?thesis
  proof (cases "cp_in_flight s")
    case None
    with assms ChangeControllerCommand show ?thesis
      by (cases "cp_stopping s") (simp_all add: process_command_def batch_send batch_dispatch)
  qed (use assms ChangeControllerCommand in
      \<open>simp add: process_command_def batch_send batch_disconnect\<close>)
qed (use assms in \<open>simp_all add: process_command_def batch_send batch_enter batch_disconnect\<close>)

section \<open>Draining and receiving\<close>

lemma drain_queue_induct [consumes 1, case_names step]:
  assumes start: "P s acts"
    and step: "\<And>s acts q qs. P s acts \<Longrightarrow> cp_controller_attached s \<Longrightarrow> cp_in_flight s = None \<Longrightarrow>
      cp_command_queue s = q # qs \<Longrightarrow>
      P (s\<lparr>cp_command_queue := qs\<rparr>) acts
      \<and> P (fst (process_command (s\<lparr>cp_command_queue := qs\<rparr>) acts (fst q)))
          (snd (process_command (s\<lparr>cp_command_queue := qs\<rparr>) acts (fst q)))"
  shows "P (fst (drain_queue s acts)) (snd (drain_queue s acts))"
  using start
proof (induction s acts rule: drain_queue.induct)
  case (1 s acts)
  show ?case
  proof (cases "cp_controller_attached s \<and> cp_in_flight s = None \<and> cp_command_queue s \<noteq> []")
    case False
    with "1.prems" show ?thesis by (subst (1 2) drain_queue.simps) simp
  next
    case True
    then obtain q qs where q: "cp_command_queue s = q # qs" by (cases "cp_command_queue s") auto
    from step [OF "1.prems" _ _ q] True
    have s: "P (s\<lparr>cp_command_queue := qs\<rparr>) acts"
      "P (fst (process_command (s\<lparr>cp_command_queue := qs\<rparr>) acts (fst q)))
         (snd (process_command (s\<lparr>cp_command_queue := qs\<rparr>) acts (fst q)))" by simp_all
    show ?thesis
    proof (cases "snd q = cp_connection_generation s")
      case True
      note same = this
      have "P (fst (drain_queue (fst (process_command (s\<lparr>cp_command_queue := qs\<rparr>) acts (fst q)))
                 (snd (process_command (s\<lparr>cp_command_queue := qs\<rparr>) acts (fst q)))))
              (snd (drain_queue (fst (process_command (s\<lparr>cp_command_queue := qs\<rparr>) acts (fst q)))
                 (snd (process_command (s\<lparr>cp_command_queue := qs\<rparr>) acts (fst q)))))"
        using "1.IH"(2) [OF _ refl refl _ refl] s(2) q same
          \<open>cp_controller_attached s \<and> _\<close> by simp
      with same q \<open>cp_controller_attached s \<and> _\<close> show ?thesis
        by (subst (1 2) drain_queue.simps) (simp add: Let_def)
    next
      case False
      note other = this
      have "P (fst (drain_queue (s\<lparr>cp_command_queue := qs\<rparr>) acts))
              (snd (drain_queue (s\<lparr>cp_command_queue := qs\<rparr>) acts))"
        using "1.IH"(1) [OF _ refl refl] s(1) q other
          \<open>cp_controller_attached s \<and> _\<close> by simp
      with other q \<open>cp_controller_attached s \<and> _\<close> show ?thesis
        by (subst (1 2) drain_queue.simps) (simp add: Let_def)
    qed
  qed
qed

lemma drain_queue_stops:
  "\<not> (cp_controller_attached (fst (drain_queue s acts)) \<and> cp_in_flight (fst (drain_queue s acts)) = None
      \<and> cp_command_queue (fst (drain_queue s acts)) \<noteq> [])"
proof (induction s acts rule: drain_queue.induct)
  case (1 s acts)
  then show ?case
    by (subst (1 2 3) drain_queue.simps) (simp add: Let_def del: drain_queue.simps)
qed

lemma receive_lines_induct [consumes 1, case_names step]:
  assumes start: "P s acts"
    and step: "\<And>s acts l r. P s acts \<Longrightarrow> cp_controller_attached s \<Longrightarrow>
      take_next_line (cp_read_buffer s) = Some (l, r) \<Longrightarrow>
      P (fst (receive_line (s\<lparr>cp_read_buffer := r\<rparr>) acts l))
        (snd (receive_line (s\<lparr>cp_read_buffer := r\<rparr>) acts l))"
  shows "P (fst (receive_lines s acts)) (snd (receive_lines s acts))"
  using start
proof (induction s acts rule: receive_lines.induct)
  case (1 s acts)
  show ?case
  proof (cases "cp_controller_attached s \<and> take_next_line (cp_read_buffer s) \<noteq> None")
    case False
    then consider "\<not> cp_controller_attached s" | "take_next_line (cp_read_buffer s) = None" by blast
    then show ?thesis
      using "1.prems" by cases (simp_all add: receive_lines.simps [of s acts])
  next
    case True
    then obtain l r where lr: "take_next_line (cp_read_buffer s) = Some (l, r)" by auto
    with True have "P (fst (receive_lines (fst (receive_line (s\<lparr>cp_read_buffer := r\<rparr>) acts l))
           (snd (receive_line (s\<lparr>cp_read_buffer := r\<rparr>) acts l))))
         (snd (receive_lines (fst (receive_line (s\<lparr>cp_read_buffer := r\<rparr>) acts l))
           (snd (receive_line (s\<lparr>cp_read_buffer := r\<rparr>) acts l))))"
      using "1.IH" [OF _ lr refl refl] step [OF "1.prems" _ lr] by simp
    with True lr show ?thesis by (subst (1 2) receive_lines.simps) (simp add: Let_def)
  qed
qed


lemma drain_queue_keeps [simp]:
  "cp_workload_terminal (fst (drain_queue s acts)) = cp_workload_terminal s"
  "cp_profile_state_failed (fst (drain_queue s acts)) = cp_profile_state_failed s"
  "cp_confirmed_profile (fst (drain_queue s acts)) = cp_confirmed_profile s"
  using drain_queue_induct [of "\<lambda>t _. cp_workload_terminal t = cp_workload_terminal s
      \<and> cp_profile_state_failed t = cp_profile_state_failed s
      \<and> cp_confirmed_profile t = cp_confirmed_profile s" s acts]
  by simp_all

lemma receive_lines_keeps [simp]:
  "cp_workload_terminal (fst (receive_lines s acts)) = cp_workload_terminal s"
  "cp_profile_state_failed (fst (receive_lines s acts)) = cp_profile_state_failed s"
  "cp_confirmed_profile (fst (receive_lines s acts)) = cp_confirmed_profile s"
  using receive_lines_induct [of "\<lambda>t _. cp_workload_terminal t = cp_workload_terminal s
      \<and> cp_profile_state_failed t = cp_profile_state_failed s
      \<and> cp_confirmed_profile t = cp_confirmed_profile s" s acts]
  by simp_all

lemma batch_receive_line:
  assumes "batch_inv s acts" "cp_controller_attached s"
  shows "batch_inv (fst (receive_line s acts l)) (snd (receive_line s acts l))"
  using assms batch_process [OF assms]
  by (cases "parse_controller_command l")
     (simp_all add: receive_line_def Let_def batch_send batch_disconnect)

lemma batch_drain:
  "batch_inv s acts \<Longrightarrow> batch_inv (fst (drain_queue s acts)) (snd (drain_queue s acts))"
  by (induction s acts rule: drain_queue_induct) (simp add: batch_process)

lemma batch_receive_lines:
  "batch_inv s acts \<Longrightarrow> batch_inv (fst (receive_lines s acts)) (snd (receive_lines s acts))"
  by (induction s acts rule: receive_lines_induct) (simp add: batch_receive_line)

text \<open>Handling an event first marks the dispatch of the last batch as executed.\<close>

definition settle_dispatch :: "control_plane \<Rightarrow> control_plane" where
  "settle_dispatch s =
     s\<lparr>cp_in_flight := map_option (\<lambda>f. f\<lparr>flight_dispatch_pending := False\<rparr>) (cp_in_flight s)\<rparr>"

lemma settle_dispatch_simps [simp]:
  "cp_workload_pid (settle_dispatch s) = cp_workload_pid s"
  "cp_child_arguments (settle_dispatch s) = cp_child_arguments s"
  "cp_read_buffer (settle_dispatch s) = cp_read_buffer s"
  "cp_command_queue (settle_dispatch s) = cp_command_queue s"
  "cp_confirmed_profile (settle_dispatch s) = cp_confirmed_profile s"
  "cp_connection_generation (settle_dispatch s) = cp_connection_generation s"
  "cp_controller_attached (settle_dispatch s) = cp_controller_attached s"
  "cp_shaping_applied (settle_dispatch s) = cp_shaping_applied s"
  "cp_stopping (settle_dispatch s) = cp_stopping s"
  "cp_workload_terminal (settle_dispatch s) = cp_workload_terminal s"
  "cp_profile_state_failed (settle_dispatch s) = cp_profile_state_failed s"
  "cp_in_flight (settle_dispatch s) = None \<longleftrightarrow> cp_in_flight s = None"
  "drain_inv (settle_dispatch s) \<longleftrightarrow> drain_inv s"
  by (auto simp: settle_dispatch_def drain_inv_def)

lemma settle_dispatch_flight:
  "cp_in_flight (settle_dispatch s) = Some f \<Longrightarrow>
     \<not> flight_dispatch_pending f \<and> (\<exists>g. cp_in_flight s = Some g \<and> flight_change g = flight_change f)"
  by (auto simp: settle_dispatch_def)

lemma handle_settle:
  "event \<noteq> ControllerWriteFailedEvent \<Longrightarrow> handle s event =
     (case event of
        ControllerAttachedEvent \<Rightarrow>
          ((settle_dispatch s)\<lparr>cp_connection_generation := cp_connection_generation s + 1,
             cp_controller_attached := True, cp_read_buffer := []\<rparr>,
           [SendControllerTextAction (''ATTACHED'' @ [newline])])
      | ControllerDisconnectedEvent \<Rightarrow> (disconnect_controller (settle_dispatch s), [])
      | ControllerWriteFailedEvent \<Rightarrow> (settle_dispatch s, [])
      | SessionStoppingEvent \<Rightarrow>
          (forget_reply ((settle_dispatch s)\<lparr>cp_stopping := True, cp_command_queue := []\<rparr>), [])
      | WorkloadTerminalEvent \<Rightarrow>
          (forget_reply ((settle_dispatch s)\<lparr>cp_workload_terminal := True, cp_command_queue := []\<rparr>), [])
      | HelperProfileStateUnknownEvent \<Rightarrow>
          (if \<not> cp_profile_state_failed s
           then (forget_reply ((settle_dispatch s)\<lparr>cp_profile_state_failed := True, cp_command_queue := []\<rparr>),
                 [FailSessionForUnknownProfileStateAction])
           else (settle_dispatch s, []))
      | HelperProfileChangeResultEvent result change \<Rightarrow>
          handle_change_result (settle_dispatch s) result change
      | ControllerBytesReceivedEvent bytes \<Rightarrow> handle_bytes (settle_dispatch s) bytes)"
  unfolding handle_def Let_def settle_dispatch_def [symmetric]
  by (cases event) simp_all

lemma batch_settled:
  assumes "\<And>f. cp_in_flight s = Some f \<Longrightarrow> \<not> flight_dispatch_pending f"
  shows "batch_inv s []"
  using assms by (intro batch_invI) (auto simp: ordered_batch_def)

lemma batch_settled_text:
  assumes "\<And>f. cp_in_flight s = Some f \<Longrightarrow> \<not> flight_dispatch_pending f"
  shows "batch_inv s [SendControllerTextAction t]"
  using assms by (intro batch_invI) (auto simp: ordered_batch_def)

lemma batch_handle_bytes:
  assumes "\<And>f. cp_in_flight s = Some f \<Longrightarrow> \<not> flight_dispatch_pending f"
  shows "batch_inv (fst (handle_bytes s bytes)) (snd (handle_bytes s bytes))"
proof -
  obtain s1 a1 where r: "receive_lines (s\<lparr>cp_read_buffer := cp_read_buffer s @ bytes\<rparr>) [] = (s1, a1)"
    by fastforce
  with batch_receive_lines [of "s\<lparr>cp_read_buffer := cp_read_buffer s @ bytes\<rparr>" "[]"] batch_settled [OF assms]
  have b: "batch_inv s1 a1" by simp
  show ?thesis
    using b batch_settled [OF assms] by (simp add: handle_bytes_def r batch_send batch_disconnect)
qed


text \<open>The text that answers a change, when its controller is still there.\<close>

definition change_reply :: "control_plane \<Rightarrow> u64 option \<Rightarrow> string \<Rightarrow> control_plane_action list" where
  "change_reply s g t = (if reply_wanted s g then [SendControllerTextAction t] else [])"

definition drain_if_live ::
  "control_plane \<Rightarrow> control_plane_action list \<Rightarrow> control_plane \<times> control_plane_action list" where
  "drain_if_live s acts =
     (if \<not> cp_workload_terminal s \<and> \<not> cp_profile_state_failed s then drain_queue s acts else (s, acts))"

lemma handle_change_result_cases:
  obtains (unexpected) "cp_in_flight s = None \<or>
      (\<exists>f. cp_in_flight s = Some f \<and> \<not> change_eq (flight_change f) change)"
      "handle_change_result s result change =
         (if \<not> cp_workload_terminal s \<and> \<not> cp_profile_state_failed s then fail_profile_state s else (s, []))"
  | (rejected) f e where "cp_in_flight s = Some f" "change_eq (flight_change f) change"
      "result = Change_Applied" "apply_profile_change (cp_confirmed_profile s) change = Inl e"
      "handle_change_result s result change = fail_profile_state (s\<lparr>cp_in_flight := None\<rparr>)"
  | (applied) f q t where "cp_in_flight s = Some f" "change_eq (flight_change f) change"
      "result = Change_Applied" "apply_profile_change (cp_confirmed_profile s) change = Inr q"
      "t = s\<lparr>cp_in_flight := None, cp_confirmed_profile := q, cp_shaping_applied := True\<rparr>"
      "handle_change_result s result change =
         drain_if_live t (change_reply t (flight_reply_generation f) (''PROFILE_CHANGED'' @ [newline]))"
  | (restored) f t where "cp_in_flight s = Some f" "change_eq (flight_change f) change"
      "result = Change_Restored_After_Failure" "t = s\<lparr>cp_in_flight := None\<rparr>"
      "handle_change_result s result change =
         drain_if_live t (change_reply t (flight_reply_generation f)
           (''ERROR Profile change could not be applied; previous profile remains active.'' @ [newline]))"
proof (cases "cp_in_flight s")
  case None
  with unexpected show thesis by (simp add: handle_change_result_def)
next
  case (Some f)
  show thesis
  proof (cases "change_eq (flight_change f) change")
    case False
    with Some unexpected show thesis by (simp add: handle_change_result_def)
  next
    case True
    note eq = this
    show thesis
    proof (cases result)
      case Change_Applied
      show thesis
      proof (cases "apply_profile_change (cp_confirmed_profile s) change")
        case (Inl e)
        show thesis
          using Inl Some eq Change_Applied
          by (intro rejected [OF Some eq Change_Applied Inl]) (simp add: handle_change_result_def)
      next
        case (Inr q)
        show thesis
          using Inr Some eq Change_Applied
          by (intro applied [OF Some eq Change_Applied Inr refl])
             (simp add: handle_change_result_def change_reply_def drain_if_live_def Let_def)
      qed
    next
      case Change_Restored_After_Failure
      show thesis
        using Some eq Change_Restored_After_Failure
        by (intro restored [OF Some eq Change_Restored_After_Failure refl])
           (simp add: handle_change_result_def change_reply_def drain_if_live_def Let_def)
    qed
  qed
qed

lemma batch_reply: "cp_in_flight s = None \<Longrightarrow> batch_inv s (change_reply s g t)"
  by (auto simp: change_reply_def intro: batch_settled batch_settled_text)

lemma batch_drain_if_live:
  assumes "batch_inv s acts"
  shows "batch_inv (fst (drain_if_live s acts)) (snd (drain_if_live s acts))"
  using assms batch_drain by (simp add: drain_if_live_def)

definition failed_batch :: "control_plane_action list \<Rightarrow> bool" where
  "failed_batch acts \<longleftrightarrow> acts = [FailSessionForUnknownProfileStateAction]"

lemma batch_change_result:
  assumes settled: "\<And>f. cp_in_flight s = Some f \<Longrightarrow> \<not> flight_dispatch_pending f"
  shows "failed_batch (snd (handle_change_result s result change)) \<or>
    batch_inv (fst (handle_change_result s result change)) (snd (handle_change_result s result change))"
proof (cases rule: handle_change_result_cases [of s change result])
  case unexpected
  then show ?thesis using batch_settled [OF settled] by (simp add: fail_profile_state_def failed_batch_def)
next
  case rejected
  then show ?thesis by (simp add: fail_profile_state_def failed_batch_def)
next
  case (applied f q t)
  then have "cp_in_flight t = None" by simp
  with applied(6) show ?thesis by (simp add: batch_drain_if_live batch_reply)
next
  case (restored f t)
  then have "cp_in_flight t = None" by simp
  with restored(5) show ?thesis by (simp add: batch_drain_if_live batch_reply)
qed

lemma batch_handle:
  "failed_batch (snd (handle s event)) \<or> batch_inv (fst (handle s event)) (snd (handle s event))"
proof -
  have settled: "\<not> flight_dispatch_pending f" if "cp_in_flight (settle_dispatch s) = Some f" for f
    using settle_dispatch_flight [OF that] by simp
  show ?thesis
  proof (cases event)
    case (HelperProfileChangeResultEvent result change)
    then show ?thesis using batch_change_result [OF settled] by (simp add: handle_settle)
  next
    case ControllerWriteFailedEvent
    have "batch_inv (disconnect_controller
        (case cp_in_flight s of None \<Rightarrow> s
         | Some f \<Rightarrow> if flight_dispatch_pending f then s\<lparr>cp_in_flight := None\<rparr> else s)) []"
      unfolding disconnect_controller_def batch_forget_reply
      by (rule batch_settled) (auto split: option.splits if_splits)
    with ControllerWriteFailedEvent show ?thesis by (simp add: handle_def)
  next
    case (ControllerBytesReceivedEvent bytes)
    then show ?thesis using batch_handle_bytes [OF settled] by (simp add: handle_settle)
  next
    case ControllerDisconnectedEvent
    have "batch_inv (disconnect_controller (settle_dispatch s)) []"
      unfolding disconnect_controller_def batch_forget_reply by (rule batch_settled) (use settled in auto)
    with ControllerDisconnectedEvent show ?thesis by (simp add: handle_settle)
  next
    case HelperProfileStateUnknownEvent
    then show ?thesis
      using batch_settled [OF settled] by (simp add: handle_settle failed_batch_def)
  qed (use settled in \<open>auto simp: handle_settle intro: batch_settled batch_settled_text\<close>)
qed


section \<open>The state invariant of every event\<close>

definition live :: "control_plane \<Rightarrow> bool" where
  "live s \<longleftrightarrow> \<not> cp_workload_terminal s \<and> \<not> cp_profile_state_failed s"

lemma live_record [simp]:
  "live (s\<lparr>cp_command_queue := q\<rparr>) = live s" "live (s\<lparr>cp_read_buffer := b\<rparr>) = live s"
  by (simp_all add: live_def)

lemma drain_inv_tail:
  "drain_inv s \<Longrightarrow> cp_command_queue s = q # qs \<Longrightarrow>
     drain_inv (s\<lparr>cp_command_queue := qs\<rparr>) \<and> queueable (fst q)"
  by (auto simp: drain_inv_def)

lemma drain_inv_drain:
  assumes "drain_inv s" "live s"
  shows "cp_inv (fst (drain_queue s acts))"
proof -
  have "drain_inv (fst (drain_queue s acts)) \<and> live (fst (drain_queue s acts))"
  proof (rule drain_queue_induct [of "\<lambda>s _. drain_inv s \<and> live s"])
    show "drain_inv s \<and> live s" using assms by simp
  next
    fix s acts q qs
    assume "drain_inv s \<and> live s" "cp_controller_attached s" "cp_command_queue s = q # qs"
    then show "(drain_inv (s\<lparr>cp_command_queue := qs\<rparr>) \<and> live (s\<lparr>cp_command_queue := qs\<rparr>)) \<and>
      drain_inv (fst (process_command (s\<lparr>cp_command_queue := qs\<rparr>) acts (fst q))) \<and>
      live (fst (process_command (s\<lparr>cp_command_queue := qs\<rparr>) acts (fst q)))"
      using drain_inv_tail [of s q qs] drain_inv_process [of "s\<lparr>cp_command_queue := qs\<rparr>" "fst q" acts]
      by (simp add: live_def)
  qed
  moreover have "cp_command_queue (fst (drain_queue s acts)) \<noteq> [] \<longrightarrow>
      cp_in_flight (fst (drain_queue s acts)) \<noteq> None"
    using drain_queue_stops [of s acts] calculation by (auto simp: drain_inv_def)
  ultimately show ?thesis by (simp add: cp_inv_iff)
qed

lemma cp_inv_queue_empty: "drain_inv s \<Longrightarrow> cp_command_queue s = [] \<Longrightarrow> cp_inv s"
  by (simp add: cp_inv_iff)

lemma cp_inv_process:
  assumes "cp_inv s" "queueable c \<or> c = StopControllerCommand" "cp_controller_attached s" "live s"
  shows "cp_inv (fst (process_command s acts c))"
proof -
  have "drain_inv (fst (process_command s acts c))"
    using assms by (intro drain_inv_process) (auto simp: cp_inv_iff live_def)
  moreover have "cp_command_queue (fst (process_command s acts c)) \<noteq> [] \<longrightarrow>
      cp_in_flight (fst (process_command s acts c)) \<noteq> None"
    using assms(1) by (cases c) (simp_all add: process_command_def cp_inv_iff)
  ultimately show ?thesis by (simp add: cp_inv_iff)
qed

lemma cp_inv_disconnect: "cp_inv s \<Longrightarrow> cp_inv (disconnect_controller s)"
  by (simp add: cp_inv_iff drain_inv_disconnect)

lemma cp_inv_receive_line:
  assumes "cp_inv s" "cp_controller_attached s" "live s"
  shows "cp_inv (fst (receive_line s acts l))"
  using assms parsed_command_queueable [of l] cp_inv_process [of s _ acts] cp_inv_disconnect [of s]
  by (simp add: receive_line_def Let_def split: controller_parse_result.split)

lemma cp_inv_buffer: "cp_controller_attached s \<Longrightarrow> cp_inv (s\<lparr>cp_read_buffer := b\<rparr>) = cp_inv s"
  by (simp add: cp_inv_def)

lemma cp_inv_receive_lines:
  assumes "cp_inv s" "live s"
  shows "cp_inv (fst (receive_lines s acts))"
proof -
  have "cp_inv (fst (receive_lines s acts)) \<and> live (fst (receive_lines s acts))"
  proof (rule receive_lines_induct [of "\<lambda>s _. cp_inv s \<and> live s"])
    show "cp_inv s \<and> live s" using assms by simp
  next
    fix s acts l r
    assume "cp_inv s \<and> live s" "cp_controller_attached s"
    then show "cp_inv (fst (receive_line (s\<lparr>cp_read_buffer := r\<rparr>) acts l))
        \<and> live (fst (receive_line (s\<lparr>cp_read_buffer := r\<rparr>) acts l))"
      by (simp add: cp_inv_receive_line cp_inv_buffer) (simp add: live_def)
  qed
  then show ?thesis by simp
qed

lemma cp_inv_handle_bytes:
  assumes "cp_inv s"
  shows "cp_inv (fst (handle_bytes s bytes))"
proof (cases "cp_controller_attached s \<and> live s")
  case True
  then have "cp_inv (fst (receive_lines (s\<lparr>cp_read_buffer := cp_read_buffer s @ bytes\<rparr>) []))"
    using assms by (intro cp_inv_receive_lines) (simp_all add: cp_inv_buffer)
  then show ?thesis
    using True by (auto simp: handle_bytes_def live_def cp_inv_disconnect split: prod.split)
qed (use assms in \<open>auto simp: handle_bytes_def live_def\<close>)

lemma cp_inv_drain_if_live:
  assumes "drain_inv s"
  shows "cp_inv (fst (drain_if_live s acts))"
  using assms drain_inv_drain [of s acts]
  by (auto simp: drain_if_live_def live_def cp_inv_iff drain_inv_def)

lemma cp_inv_fail: "drain_inv s \<Longrightarrow> cp_inv (fst (fail_profile_state s))"
  by (simp add: fail_profile_state_def cp_inv_iff drain_inv_def)

lemma drain_inv_no_flight: "drain_inv s \<Longrightarrow> drain_inv (s\<lparr>cp_in_flight := None\<rparr>)"
  by (simp add: drain_inv_def)

lemma cp_inv_change_result:
  assumes "cp_inv s"
  shows "cp_inv (fst (handle_change_result s result change))"
proof (cases rule: handle_change_result_cases [of s change result])
  case unexpected
  have "cp_inv (fst (fail_profile_state s))"
    using assms by (intro cp_inv_fail) (simp add: cp_inv_iff)
  with assms unexpected(2) show ?thesis by simp
next
  case (rejected f e)
  have "cp_inv (fst (fail_profile_state (s\<lparr>cp_in_flight := None\<rparr>)))"
    using assms by (intro cp_inv_fail drain_inv_no_flight) (simp add: cp_inv_iff)
  with rejected(5) show ?thesis by simp
next
  case (applied f q t)
  from applied(4) have "valid_profile q" by (rule apply_profile_change_valid)
  with assms have "drain_inv t" unfolding applied(5) by (simp add: cp_inv_iff drain_inv_def)
  with applied(6) show ?thesis by (simp add: cp_inv_drain_if_live)
next
  case (restored f t)
  with assms have "drain_inv t" by (simp add: cp_inv_iff drain_inv_no_flight)
  with restored(5) show ?thesis by (simp add: cp_inv_drain_if_live)
qed

lemma cp_inv_settle [simp]: "cp_inv (settle_dispatch s) = cp_inv s"
  by (simp add: cp_inv_iff)

lemma cp_inv_handle:
  assumes "cp_inv s"
  shows "cp_inv (fst (handle s event))"
proof -
  have i: "cp_inv (settle_dispatch s)" using assms by simp
  have forget: "cp_inv (forget_reply t)" if "drain_inv t" "cp_command_queue t = []" for t
    using that by (simp add: cp_inv_iff)
  have upd: "drain_inv ((settle_dispatch s)\<lparr>cp_stopping := True, cp_command_queue := []\<rparr>)"
    "drain_inv ((settle_dispatch s)\<lparr>cp_workload_terminal := True, cp_command_queue := []\<rparr>)"
    "drain_inv ((settle_dispatch s)\<lparr>cp_profile_state_failed := True, cp_command_queue := []\<rparr>)"
    using i unfolding cp_inv_iff by (simp_all add: drain_inv_def)
  show ?thesis
  proof (cases event)
    case ControllerWriteFailedEvent
    have "drain_inv (case cp_in_flight s of None \<Rightarrow> s
         | Some f \<Rightarrow> if flight_dispatch_pending f then s\<lparr>cp_in_flight := None\<rparr> else s)"
      using assms by (auto simp: cp_inv_iff drain_inv_no_flight split: option.split)
    then show ?thesis
      by (simp add: handle_def ControllerWriteFailedEvent drain_inv_disconnect cp_inv_queue_empty)
  next
    case ControllerAttachedEvent
    have "cp_inv ((settle_dispatch s)\<lparr>cp_connection_generation := cp_connection_generation s + 1,
             cp_controller_attached := True, cp_read_buffer := []\<rparr>)"
      using i by (simp add: cp_inv_def)
    then show ?thesis by (simp add: handle_settle ControllerAttachedEvent)
  qed (use i upd in \<open>simp_all add: handle_settle forget cp_inv_disconnect cp_inv_change_result
      cp_inv_handle_bytes\<close>)
qed


section \<open>One change at a time, one stop request\<close>

definition stop_once :: "bool \<Rightarrow> control_plane \<Rightarrow> control_plane_action list \<Rightarrow> bool" where
  "stop_once b s acts \<longleftrightarrow> (b \<longrightarrow> cp_stopping s \<and> RequestLifecycleStopAction \<notin> set acts)"

lemma stop_once_process:
  "stop_once b s acts \<Longrightarrow>
     stop_once b (fst (process_command s acts c)) (snd (process_command s acts c))"
  by (cases c; cases "cp_in_flight s")
     (auto simp: process_command_def stop_once_def enter_stopping_def Let_def)

lemma stop_once_record [simp]:
  "stop_once b (s\<lparr>cp_command_queue := q\<rparr>) acts = stop_once b s acts"
  "stop_once b (s\<lparr>cp_read_buffer := r\<rparr>) acts = stop_once b s acts"
  by (simp_all add: stop_once_def)

lemma stop_once_receive_line:
  assumes "stop_once b s acts"
  shows "stop_once b (fst (receive_line s acts l)) (snd (receive_line s acts l))"
  using stop_once_process [OF assms] assms
  by (cases "parse_controller_command l") (simp_all add: receive_line_def Let_def stop_once_def)

lemma stop_once_drain:
  "stop_once b s acts \<Longrightarrow> stop_once b (fst (drain_queue s acts)) (snd (drain_queue s acts))"
  by (induction s acts rule: drain_queue_induct) (simp add: stop_once_process)

lemma stop_once_receive_lines:
  "stop_once b s acts \<Longrightarrow> stop_once b (fst (receive_lines s acts)) (snd (receive_lines s acts))"
  by (induction s acts rule: receive_lines_induct) (simp add: stop_once_receive_line)

lemma stop_once_drain_if_live:
  "stop_once b s acts \<Longrightarrow> stop_once b (fst (drain_if_live s acts)) (snd (drain_if_live s acts))"
  by (simp add: drain_if_live_def stop_once_drain)

lemma stop_once_change_result:
  assumes "stop_once b s []"
  shows "stop_once b (fst (handle_change_result s result change)) (snd (handle_change_result s result change))"
proof (cases rule: handle_change_result_cases [of s change result])
  case unexpected
  then show ?thesis using assms by (simp add: fail_profile_state_def stop_once_def)
next
  case rejected
  then show ?thesis using assms by (simp add: fail_profile_state_def stop_once_def)
next
  case (applied f q t)
  from assms have "stop_once b t (change_reply t g x)" for g x
    unfolding applied(5) by (simp add: stop_once_def change_reply_def)
  with applied(6) show ?thesis by (simp add: stop_once_drain_if_live)
next
  case (restored f t)
  from assms have "stop_once b t (change_reply t g x)" for g x
    unfolding restored(4) by (simp add: stop_once_def change_reply_def)
  with restored(5) show ?thesis by (simp add: stop_once_drain_if_live)
qed

lemma stop_once_handle:
  assumes "cp_stopping s"
  shows "cp_stopping (fst (handle s event)) \<and> RequestLifecycleStopAction \<notin> set (snd (handle s event))"
proof -
  have "stop_once True (fst (handle s event)) (snd (handle s event))"
  proof (cases event)
    case (ControllerBytesReceivedEvent bytes)
    define t where "t = (settle_dispatch s)\<lparr>cp_read_buffer := cp_read_buffer s @ bytes\<rparr>"
    obtain s1 a1 where r: "receive_lines t [] = (s1, a1)" by fastforce
    have "stop_once True (fst (receive_lines t [])) (snd (receive_lines t []))"
      using assms by (intro stop_once_receive_lines) (simp add: stop_once_def t_def)
    with r have "stop_once True s1 a1" by simp
    then show ?thesis using assms ControllerBytesReceivedEvent
      by (simp add: handle_settle handle_bytes_def stop_once_def r [unfolded t_def])
  next
    case (HelperProfileChangeResultEvent result change)
    then show ?thesis using assms stop_once_change_result [of True "settle_dispatch s"]
      by (simp add: handle_settle) (simp add: stop_once_def)
  next
    case ControllerWriteFailedEvent
    then show ?thesis using assms by (simp add: handle_def stop_once_def split: option.split)
  qed (use assms in \<open>simp_all add: handle_settle stop_once_def\<close>)
  then show ?thesis by (simp add: stop_once_def)
qed

text \<open>A change in flight keeps the next one back until its result arrives.\<close>

definition awaiting :: "control_plane \<Rightarrow> bool" where
  "awaiting s \<longleftrightarrow> (\<exists>f. cp_in_flight s = Some f \<and> \<not> flight_dispatch_pending f)"

lemma awaiting_record [simp]:
  "awaiting (s\<lparr>cp_command_queue := q\<rparr>) = awaiting s"
  "awaiting (s\<lparr>cp_read_buffer := r\<rparr>) = awaiting s"
  "awaiting (forget_reply s) = awaiting s"
  "awaiting (disconnect_controller s) = awaiting s"
  by (cases "cp_in_flight s"; simp add: awaiting_def forget_reply_def disconnect_controller_def)+

lemma awaiting_process: "awaiting s \<Longrightarrow> awaiting (fst (process_command s acts c))"
  by (cases c) (auto simp: process_command_def enter_stopping_def Let_def awaiting_def forget_reply_def
      disconnect_controller_def)

lemma awaiting_receive_lines: "awaiting s \<Longrightarrow> awaiting (fst (receive_lines s acts))"
proof (induction s acts rule: receive_lines_induct)
  case (step s acts l r)
  then show ?case using awaiting_process [of "s\<lparr>cp_read_buffer := r\<rparr>" acts]
    by (simp add: receive_line_def Let_def split: controller_parse_result.split)
qed

lemma awaiting_no_dispatch:
  "batch_inv s acts \<Longrightarrow> awaiting s \<Longrightarrow> DispatchProfileChangeAction c \<notin> set acts"
  by (auto simp: batch_inv_def awaiting_def)


lemma handle_bytes_awaiting:
  assumes "awaiting s"
  shows "awaiting (fst (handle_bytes s bytes))"
proof -
  obtain s1 a1 where r: "receive_lines (s\<lparr>cp_read_buffer := cp_read_buffer s @ bytes\<rparr>) [] = (s1, a1)"
    by fastforce
  with awaiting_receive_lines [of "s\<lparr>cp_read_buffer := cp_read_buffer s @ bytes\<rparr>" "[]"] assms
  have "awaiting s1" by simp
  with assms show ?thesis by (simp add: handle_bytes_def r)
qed

lemma dispatch_cases:
  assumes "DispatchProfileChangeAction c \<in> set (snd (handle s event))"
  shows "(\<exists>bytes. event = ControllerBytesReceivedEvent bytes \<and> cp_in_flight s = None) \<or>
    (\<exists>r d f. event = HelperProfileChangeResultEvent r d \<and> cp_in_flight s = Some f
       \<and> change_eq (flight_change f) d)"
proof (cases event)
  case (ControllerBytesReceivedEvent bytes)
  show ?thesis
  proof (cases "cp_in_flight s")
    case (Some f)
    then have w: "awaiting (settle_dispatch s)"
      by (auto simp: awaiting_def settle_dispatch_def)
    then have "batch_inv (fst (handle_bytes (settle_dispatch s) bytes)) (snd (handle_bytes (settle_dispatch s) bytes))"
      by (intro batch_handle_bytes) (auto simp: awaiting_def)
    from awaiting_no_dispatch [OF this handle_bytes_awaiting [OF w]] assms
    show ?thesis by (simp add: handle_settle ControllerBytesReceivedEvent)
  qed (use ControllerBytesReceivedEvent in simp)
next
  case (HelperProfileChangeResultEvent r d)
  then have d: "DispatchProfileChangeAction c \<in> set (snd (handle_change_result (settle_dispatch s) r d))"
    using assms by (simp add: handle_settle)
  have "\<exists>f. cp_in_flight (settle_dispatch s) = Some f \<and> change_eq (flight_change f) d"
    by (cases rule: handle_change_result_cases [of "settle_dispatch s" d r])
       (use d in \<open>auto simp: fail_profile_state_def split: if_splits\<close>)
  then show ?thesis using HelperProfileChangeResultEvent settle_dispatch_flight by fastforce
qed (use assms in \<open>auto simp: handle_settle split: if_splits\<close>,
     simp add: handle_def)

text \<open>The actions one event returns come in one order: a lifecycle stop request first, then
  the texts for the controller, then its disconnection, and a profile change for the helper last;
  every kind but the texts at most once. The failure of the session for an unknown profile state
  is returned alone. After a disconnection the controller is detached, and a change is handed
  over only by a session that is not stopping and remembers it as its change in flight.\<close>

theorem handle_batch_order:
  "case handle s event of (t, acts) \<Rightarrow>
     ordered_batch acts
     \<and> (FailSessionForUnknownProfileStateAction \<in> set acts \<longrightarrow> acts = [FailSessionForUnknownProfileStateAction])
     \<and> (DisconnectControllerAction \<in> set acts \<longrightarrow> \<not> cp_controller_attached t)
     \<and> (RequestLifecycleStopAction \<in> set acts \<longrightarrow> cp_stopping t \<and> \<not> cp_stopping s)
     \<and> (\<forall>c. DispatchProfileChangeAction c \<in> set acts \<longrightarrow>
          \<not> cp_stopping t \<and> (\<exists>f. cp_in_flight t = Some f \<and> flight_change f = c))"
proof -
  obtain t acts where r: "handle s event = (t, acts)" by fastforce
  from batch_handle [of s event] consider "acts = [FailSessionForUnknownProfileStateAction]" | "batch_inv t acts"
    by (auto simp: r failed_batch_def)
  then have "ordered_batch acts
     \<and> (FailSessionForUnknownProfileStateAction \<in> set acts \<longrightarrow> acts = [FailSessionForUnknownProfileStateAction])
     \<and> (DisconnectControllerAction \<in> set acts \<longrightarrow> \<not> cp_controller_attached t)
     \<and> (RequestLifecycleStopAction \<in> set acts \<longrightarrow> cp_stopping t)
     \<and> (\<forall>c. DispatchProfileChangeAction c \<in> set acts \<longrightarrow>
          \<not> cp_stopping t \<and> (\<exists>f. cp_in_flight t = Some f \<and> flight_change f = c))"
  proof cases
    case 1
    then show ?thesis by (simp add: ordered_batch_def)
  next
    case 2
    then show ?thesis unfolding batch_inv_def by blast
  qed
  then show ?thesis using stop_once_handle [of s event] by (auto simp: r)
qed

definition attached_plane :: control_plane where
  "attached_plane = fst (handle (new_control_plane 7 [''sh'']) ControllerAttachedEvent)"

lemma attached_plane_stop:
  "handle attached_plane (ControllerBytesReceivedEvent (''stop'' @ [newline])) =
     (attached_plane\<lparr>cp_stopping := True\<rparr>,
      [RequestLifecycleStopAction, SendControllerTextAction (''STOPPING'' @ [newline])])"
proof -
  have p: "parse_controller_command ''stop'' = Parsed_Command StopControllerCommand"
    by (simp add: parse_controller_command_def maximum_controller_command_size_def command_char_def
        tokenize.simps is_token_separator_def byte_of_def)
  have t: "take_next_line (''stop'' @ [newline]) = Some (''stop'', [])" "take_next_line [] = None"
    by (simp_all add: take_next_line_def substr_def)
  show ?thesis
    using p t
    by (simp add: attached_plane_def new_control_plane_def handle_def handle_bytes_def
        receive_lines.simps receive_line_def process_command_def enter_stopping_def
        append_before_dispatch_def maximum_controller_command_size_def)
qed

lemma handle_batch_order_witness:
  "ordered_batch [RequestLifecycleStopAction, SendControllerTextAction (''STOPPING'' @ [newline])]
   \<and> \<not> cp_stopping attached_plane"
  using handle_batch_order [of attached_plane "ControllerBytesReceivedEvent (''stop'' @ [newline])"]
  unfolding attached_plane_stop by simp

text \<open>The whole life of a control plane: the events in order, with the batch of each.\<close>

fun handle_all ::
  "control_plane \<Rightarrow> control_plane_event list \<Rightarrow> control_plane \<times> control_plane_action list list" where
  "handle_all s [] = (s, [])"
| "handle_all s (e # es) =
     (case handle s e of (t, acts) \<Rightarrow>
        case handle_all t es of (u, batches) \<Rightarrow> (u, acts # batches))"

lemma cp_inv_new: "cp_inv (new_control_plane pid args)"
  by (simp add: cp_inv_def new_control_plane_def)

lemma cp_inv_handle_all: "cp_inv s \<Longrightarrow> cp_inv (fst (handle_all s es))"
proof (induction s es rule: handle_all.induct)
  case (2 s e es)
  then show ?case using cp_inv_handle [of s e] by (auto split: prod.split)
qed simp

text \<open>C2: after any events the state is well formed: at most 32 commands wait, all of them parsed
  commands other than \<open>stop\<close>, they wait only behind a change in flight, never when the session is
  stopping, over or failed or no controller is attached; a detached controller leaves nothing in
  the read buffer; a change in flight is one the helper accepts; and the confirmed profile passes
  \<open>validate\<close>.\<close>

theorem control_plane_invariant:
  "cp_inv (fst (handle_all (new_control_plane pid args) events))"
  using cp_inv_new by (rule cp_inv_handle_all)

lemma ordered_no_stop_tail: "ordered_batch (a # acts) \<Longrightarrow> RequestLifecycleStopAction \<notin> set acts"
  by (cases a) (auto simp: ordered_batch_def before_def)

lemma ordered_count_stop: "ordered_batch acts \<Longrightarrow> count_list acts RequestLifecycleStopAction \<le> 1"
  using ordered_no_stop_tail [of "hd acts" "tl acts"]
  by (cases acts) (auto simp: count_list_0_iff)

lemma ordered_handle: "ordered_batch (snd (handle s e))"
  using batch_handle [of s e] by (auto simp: failed_batch_def batch_inv_def) (simp add: ordered_batch_def)

lemma batch_stop_stopping:
  "RequestLifecycleStopAction \<in> set (snd (handle s e)) \<Longrightarrow> cp_stopping (fst (handle s e))"
  using batch_handle [of s e] by (auto simp: failed_batch_def batch_inv_def)

lemma stopped_no_more_stops:
  "cp_stopping s \<Longrightarrow> count_list (concat (snd (handle_all s es))) RequestLifecycleStopAction = 0"
proof (induction s es rule: handle_all.induct)
  case (2 s e es)
  obtain t acts where r: "handle s e = (t, acts)" by fastforce
  with stop_once_handle [OF "2.prems", of e] have "cp_stopping t" "RequestLifecycleStopAction \<notin> set acts"
    by simp_all
  with "2.IH" [OF r [symmetric]] r show ?case
    by (auto simp: count_list_append count_list_0_iff split: prod.split)
qed simp

text \<open>However the controller and the session interleave, the supervisor is asked at most once
  to stop the lifecycle.\<close>

theorem one_lifecycle_stop:
  "count_list (concat (snd (handle_all s events))) RequestLifecycleStopAction \<le> 1"
proof (induction s events rule: handle_all.induct)
  case (2 s e es)
  obtain t acts where r: "handle s e = (t, acts)" by fastforce
  obtain u bs where u: "handle_all t es = (u, bs)" by fastforce
  have one: "count_list acts RequestLifecycleStopAction \<le> 1"
    using ordered_count_stop ordered_handle [of s e] by (simp add: r)
  show ?case
  proof (cases "RequestLifecycleStopAction \<in> set acts")
    case True
    with batch_stop_stopping [of s e] r have "cp_stopping t" by simp
    from stopped_no_more_stops [OF this, of es] one show ?thesis by (simp add: r u count_list_append)
  next
    case False
    with "2.IH" [OF r [symmetric]] show ?thesis by (simp add: r u count_list_append)
  qed
qed simp


lemma handle_bytes_keeps [simp]:
  "cp_confirmed_profile (fst (handle_bytes s b)) = cp_confirmed_profile s"
  "live (fst (handle_bytes s b)) = live s"
proof -
  define t where "t = s\<lparr>cp_read_buffer := cp_read_buffer s @ b\<rparr>"
  obtain s1 a1 where r: "receive_lines t [] = (s1, a1)" by fastforce
  then have "cp_confirmed_profile s1 = cp_confirmed_profile s" "live s1 = live s"
    using receive_lines_keeps [of t "[]"] by (simp_all add: live_def) (simp_all add: t_def)
  then show "cp_confirmed_profile (fst (handle_bytes s b)) = cp_confirmed_profile s"
    "live (fst (handle_bytes s b)) = live s"
    by (simp_all add: handle_bytes_def r [unfolded t_def]) (simp_all add: live_def)
qed

lemma live_settle [simp]: "live (settle_dispatch s) = live s"
  by (simp add: live_def)

lemma dead_no_dispatch:
  "\<not> live t \<Longrightarrow> DispatchProfileChangeAction c \<notin> set (snd (drain_if_live t (change_reply t g x)))"
  by (auto simp: drain_if_live_def live_def change_reply_def)

lemma drain_if_live_keeps: "live (fst (drain_if_live t acts)) = live t"
  by (simp add: drain_if_live_def) (simp add: live_def)

lemma dispatch_live:
  assumes "DispatchProfileChangeAction c \<in> set (snd (handle s event))"
  shows "live (fst (handle s event))"
proof -
  from dispatch_cases [OF assms] consider
    (bytes) bytes where "event = ControllerBytesReceivedEvent bytes"
    | (result) r d where "event = HelperProfileChangeResultEvent r d" by blast
  then show ?thesis
  proof cases
    case bytes
    have "live s"
    proof (rule ccontr)
      assume "\<not> live s"
      then have "snd (handle_bytes (settle_dispatch s) bytes) = []"
        by (auto simp: handle_bytes_def live_def)
      with assms bytes show False by (simp add: handle_settle)
    qed
    with bytes show ?thesis by (simp add: handle_settle)
  next
    case result
    then have d: "DispatchProfileChangeAction c \<in> set (snd (handle_change_result (settle_dispatch s) r d))"
      using assms by (simp add: handle_settle)
    have "live (fst (handle_change_result (settle_dispatch s) r d))"
    proof (cases rule: handle_change_result_cases [of "settle_dispatch s" d r])
      case unexpected
      with d show ?thesis by (auto simp: fail_profile_state_def split: if_splits)
    next
      case rejected
      with d show ?thesis by (simp add: fail_profile_state_def)
    next
      case (applied f q t)
      with d dead_no_dispatch [of t c] show ?thesis
        by (cases "live t") (simp_all add: drain_if_live_keeps)
    next
      case (restored f t)
      with d dead_no_dispatch [of t c] show ?thesis
        by (cases "live t") (simp_all add: drain_if_live_keeps)
    qed
    with result show ?thesis by (simp add: handle_settle)
  qed
qed

text \<open>C1: in a control plane reached by any events, a change goes to the helper only while the
  session runs (not stopping, not over, profile state known), only when no other change is in
  flight or the event is the result of that change, it becomes the change in flight, and it is one
  the helper parses and accepts.\<close>

theorem one_change_in_flight:
  assumes "s = fst (handle_all (new_control_plane pid args) events)"
    and "DispatchProfileChangeAction c \<in> set (snd (handle s event))"
  shows "sendable c
    \<and> map_option flight_change (cp_in_flight (fst (handle s event))) = Some c
    \<and> \<not> cp_stopping (fst (handle s event)) \<and> \<not> cp_workload_terminal (fst (handle s event))
    \<and> \<not> cp_profile_state_failed (fst (handle s event))
    \<and> (cp_in_flight s = None \<or>
        (\<exists>r d f. event = HelperProfileChangeResultEvent r d \<and> cp_in_flight s = Some f
           \<and> change_eq (flight_change f) d))"
proof -
  have "cp_inv s" unfolding assms(1) using cp_inv_new by (rule cp_inv_handle_all)
  then have i: "cp_inv (fst (handle s event))" by (rule cp_inv_handle)
  from assms(2) have "\<not> failed_batch (snd (handle s event))" by (auto simp: failed_batch_def)
  with batch_handle have "batch_inv (fst (handle s event)) (snd (handle s event))" by blast
  with assms(2) obtain f where f: "cp_in_flight (fst (handle s event)) = Some f" "flight_change f = c"
    "\<not> cp_stopping (fst (handle s event))" by (auto simp: batch_inv_def)
  with i have "sendable c" by (auto simp: cp_inv_def)
  with f dispatch_live [OF assms(2)] dispatch_cases [OF assms(2)] show ?thesis
    by (auto simp: live_def)
qed

lemma attached_plane_reached:
  "attached_plane = fst (handle_all (new_control_plane 7 [''sh'']) [ControllerAttachedEvent])"
  by (simp add: attached_plane_def split: prod.split)

lemma attached_plane_change:
  "DispatchProfileChangeAction (ResetSetting Outbound Delay)
     \<in> set (snd (handle attached_plane (ControllerBytesReceivedEvent (''reset outbound delay'' @ [newline]))))"
proof -
  have p: "parse_controller_command ''reset outbound delay''
      = Parsed_Command (ChangeControllerCommand (ResetSetting Outbound Delay))"
    by (simp add: parse_controller_command_def maximum_controller_command_size_def command_char_def
        tokenize.simps is_token_separator_def byte_of_def parse_reset_command_def
        controller_direction_def controller_setting_def)
  have t: "take_next_line (''reset outbound delay'' @ [newline]) = Some (''reset outbound delay'', [])"
    "take_next_line [] = None"
    by (simp_all add: take_next_line_def substr_def)
  show ?thesis
    using p t
    by (simp add: attached_plane_def new_control_plane_def handle_def handle_bytes_def
        receive_lines.simps receive_line_def process_command_def
        append_before_dispatch_def maximum_controller_command_size_def)
qed

theorem one_change_in_flight_witness:
  "sendable (ResetSetting Outbound Delay)"
  using one_change_in_flight [OF attached_plane_reached attached_plane_change] by simp

text \<open>The profile the status report shows changes only when the helper reports the change in
  flight as applied, and then by exactly that change; every other event, and a change that was
  rolled back, leaves it as it is.\<close>

theorem confirmed_profile_tracks_results:
  "cp_confirmed_profile (fst (handle s event)) =
     (case event of
        HelperProfileChangeResultEvent Change_Applied change \<Rightarrow>
          (if \<exists>f. cp_in_flight s = Some f \<and> change_eq (flight_change f) change
           then (case apply_profile_change (cp_confirmed_profile s) change of
                   Inl _ \<Rightarrow> cp_confirmed_profile s | Inr p \<Rightarrow> p)
           else cp_confirmed_profile s)
      | _ \<Rightarrow> cp_confirmed_profile s)"
proof (cases event)
  case (HelperProfileChangeResultEvent r d)
  have flight: "cp_in_flight (settle_dispatch s) =
      map_option (\<lambda>f. f\<lparr>flight_dispatch_pending := False\<rparr>) (cp_in_flight s)"
    by (simp add: settle_dispatch_def)
  have "cp_confirmed_profile (fst (handle_change_result (settle_dispatch s) r d)) =
     (if r = Change_Applied \<and> (\<exists>f. cp_in_flight s = Some f \<and> change_eq (flight_change f) d)
      then (case apply_profile_change (cp_confirmed_profile s) d of
                   Inl _ \<Rightarrow> cp_confirmed_profile s | Inr p \<Rightarrow> p)
      else cp_confirmed_profile s)"
    by (cases rule: handle_change_result_cases [of "settle_dispatch s" d r])
       (auto simp: fail_profile_state_def drain_if_live_def flight)
  then show ?thesis by (cases r) (simp_all add: handle_settle HelperProfileChangeResultEvent)
next
  case (ControllerBytesReceivedEvent bytes)
  then show ?thesis by (simp add: handle_settle ControllerBytesReceivedEvent)
next
  case ControllerWriteFailedEvent
  then show ?thesis by (simp add: handle_def split: option.split)
qed (simp_all add: handle_settle)

end
