(* ===== verification/Attach_Laws.thy ===== *)
theory Attach_Laws
  imports Attach_Client Status_Report Control_Plane_Laws Outcome_Laws
begin

text \<open>
  The attached controller and the session it is attached to: every text the control plane sends is
  shown as it was meant, however the reads cut it, and so is the outcome of the session.
\<close>

section \<open>Reads and lines\<close>

fun client_feed :: "attach_client \<Rightarrow> string list \<Rightarrow> attach_client \<times> int option" where
  "client_feed c [] = (c, None)"
| "client_feed c (r # rs) =
     (case read_and_handle_supervisor_responses (Socket_Data r) c of
        (c1, Some status) \<Rightarrow> (c1, Some status)
      | (c1, None) \<Rightarrow> client_feed c1 rs)"

text \<open>The client does not end before the last of the reads.\<close>

definition still_reading :: "attach_client \<Rightarrow> string list \<Rightarrow> bool" where
  "still_reading c reads \<longleftrightarrow> (\<forall>k < length reads. snd (client_feed c (take k reads)) = None)"

lemma still_reading_Nil [simp]: "still_reading c []"
  by (simp add: still_reading_def)

lemma still_reading_Cons:
  "still_reading c (r # reads) \<longleftrightarrow>
     reads = [] \<or> (case read_and_handle_supervisor_responses (Socket_Data r) c of
       (c1, Some status) \<Rightarrow> False | (c1, None) \<Rightarrow> still_reading c1 reads)"
  by (auto simp: still_reading_def All_less_Suc2 split: prod.splits option.splits)

fun respond :: "attach_client \<Rightarrow> string list \<Rightarrow> attach_client \<times> int option" where
  "respond c [] = (c, None)"
| "respond c (l # ls) =
     (let r = handle_supervisor_response_line l c in if snd r \<noteq> None then r else respond (fst r) ls)"

definition plain_line :: "string \<Rightarrow> bool" where
  "plain_line l \<longleftrightarrow> one_line l \<and> l \<noteq> outcome_begin \<and> length l \<le> maximum_status_size"

definition short_line :: "string \<Rightarrow> bool" where
  "short_line l \<longleftrightarrow> one_line l \<and> length l \<le> maximum_status_size"

lemma plain_line_short: "list_all plain_line ls \<Longrightarrow> list_all short_line ls"
  by (simp add: list_all_iff plain_line_def short_line_def)

lemma take_next_line_unlines [simp]:
  "one_line l \<Longrightarrow> take_next_line (l @ newline # rest) = Some (l, rest)"
  by (simp add: take_next_line_def substr_def)

lemma take_next_line_none: "one_line b \<Longrightarrow> take_next_line b = None"
  by (simp add: take_next_line_def find_newline_None_iff [THEN iffD2])

lemma response_line_buffer:
  "handle_supervisor_response_line l (c\<lparr>at_buffer := b\<rparr>) =
     (case handle_supervisor_response_line l c of (c1, r) \<Rightarrow> (c1\<lparr>at_buffer := b\<rparr>, r))"
  by (simp add: handle_supervisor_response_line_def in_block_def put_output_def put_error_def put_report_def
      Let_def case_prod_beta split: option.split)

lemma response_line_keeps:
  "at_parser (fst (handle_supervisor_response_line l c)) = at_parser c"
  "at_buffer (fst (handle_supervisor_response_line l c)) = at_buffer c"
  by (simp_all add: handle_supervisor_response_line_def in_block_def put_output_def put_error_def put_report_def
      Let_def case_prod_beta split: option.split)

lemma respond_buffer:
  "respond (c\<lparr>at_buffer := b\<rparr>) ls = (case respond c ls of (c1, r) \<Rightarrow> (c1\<lparr>at_buffer := b\<rparr>, r))"
proof (induction ls arbitrary: c)
  case (Cons l ls)
  then show ?case by (simp add: response_line_buffer case_prod_beta Let_def)
qed simp

lemma respond_keeps: "at_parser (fst (respond c ls)) = at_parser c" "at_buffer (fst (respond c ls)) = at_buffer c"
  by (induction ls arbitrary: c) (simp_all add: Let_def response_line_keeps)

lemma respond_append:
  "respond c (ks @ ls) = (if snd (respond c ks) \<noteq> None then respond c ks else respond (fst (respond c ks)) ls)"
  by (induction ks arbitrary: c) (auto simp: Let_def)

text \<open>The loop over a buffer of complete lines and the start of one more.\<close>

lemma client_lines_respond:
  assumes "list_all plain_line ls" "one_line rest" "length rest \<le> maximum_status_size"
    and "\<And>k. k < length ls \<Longrightarrow> snd (respond c (take k ls)) = None"
    and "at_buffer c = unlines ls @ rest" and "snd (respond c ls) = None \<or> rest = []"
  shows "client_lines c = ((fst (respond c ls))\<lparr>at_buffer := rest\<rparr>, snd (respond c ls))"
  using assms
proof (induction ls arbitrary: c)
  case Nil
  then have "c\<lparr>at_buffer := rest\<rparr> = c" by simp
  with Nil show ?case
    by (subst client_lines.simps) (simp add: take_next_line_none)
next
  case (Cons l ls)
  define c1 where "c1 = c\<lparr>at_buffer := unlines ls @ rest\<rparr>"
  define r where "r = handle_supervisor_response_line l c"
  have line: "handle_supervisor_response_line l c1 = ((fst r)\<lparr>at_buffer := unlines ls @ rest\<rparr>, snd r)"
    by (simp add: c1_def r_def response_line_buffer case_prod_beta)
  have loop: "client_lines c = (if snd r \<noteq> None then ((fst r)\<lparr>at_buffer := unlines ls @ rest\<rparr>, snd r)
      else client_lines ((fst r)\<lparr>at_buffer := unlines ls @ rest\<rparr>))"
    using Cons.prems(1,5) by (subst client_lines.simps) (simp add: plain_line_def Let_def line flip: c1_def)
  show ?case
  proof (cases "snd r = None")
    case True
    have "client_lines ((fst r)\<lparr>at_buffer := unlines ls @ rest\<rparr>)
        = ((fst (respond ((fst r)\<lparr>at_buffer := unlines ls @ rest\<rparr>) ls))\<lparr>at_buffer := rest\<rparr>,
           snd (respond ((fst r)\<lparr>at_buffer := unlines ls @ rest\<rparr>) ls))"
    proof (rule Cons.IH)
      fix k assume "k < length ls"
      with Cons.prems(4) [of "Suc k"] True show "snd (respond ((fst r)\<lparr>at_buffer := unlines ls @ rest\<rparr>) (take k ls)) = None"
        by (simp add: respond_buffer case_prod_beta Let_def flip: r_def)
    next
      show "snd (respond ((fst r)\<lparr>at_buffer := unlines ls @ rest\<rparr>) ls) = None \<or> rest = []"
        using Cons.prems(6) True by (simp add: respond_buffer case_prod_beta Let_def flip: r_def)
    qed (use Cons.prems in simp_all)
    with True loop show ?thesis by (simp add: respond_buffer case_prod_beta Let_def flip: r_def)
  next
    case False
    then have "ls = []" using Cons.prems(4) [of 1] by (cases ls) (auto simp: Let_def simp flip: r_def)
    moreover have "rest = []" using Cons.prems(6) False by (auto simp: Let_def simp flip: r_def)
    ultimately show ?thesis using False loop by (simp add: Let_def flip: r_def)
  qed
qed

text \<open>A part of a text of lines: complete lines and the start of one more.\<close>

lemma split_unlines:
  assumes "x @ y = unlines ls" "list_all short_line ls"
  obtains ks ms rest where "ls = ks @ ms" "x = unlines ks @ rest" "rest @ y = unlines ms" "one_line rest"
    "length rest \<le> maximum_status_size"
proof -
  have "\<exists>ks ms rest. ls = ks @ ms \<and> x = unlines ks @ rest \<and> rest @ y = unlines ms \<and> one_line rest
      \<and> length rest \<le> maximum_status_size"
    using assms
  proof (induction ls arbitrary: x)
    case Nil
    then show ?case by (intro exI [of _ "[]"]) simp
  next
    case (Cons l ls)
    show ?case
    proof (cases "length x \<le> length l")
      case True
      then have "x = take (length x) l" using Cons.prems(1) by (metis append_eq_append_conv_if unlines_simps(2))
      then have "set x \<subseteq> set l" by (metis set_take_subset)
      then have "one_line x" "length x \<le> maximum_status_size"
        using Cons.prems(2) True by (auto simp: short_line_def one_line_def)
      with Cons.prems(1) show ?thesis by (intro exI [of _ "[]"] exI [of _ "l # ls"] exI [of _ x]) simp
    next
      case False
      then obtain z where z: "x = l @ newline # z" "z @ y = unlines ls"
        using Cons.prems(1) by (auto simp: append_eq_append_conv2 append_eq_Cons_conv)
      from Cons.IH [OF z(2)] Cons.prems(2) obtain ks ms rest where "ls = ks @ ms" "z = unlines ks @ rest"
          "rest @ y = unlines ms" "one_line rest" "length rest \<le> maximum_status_size"
        by auto
      with z(1) show ?thesis by (intro exI [of _ "l # ks"] exI [of _ ms] exI [of _ rest]) simp
    qed
  qed
  with that show thesis by blast
qed

lemma unlines_no_newline: "list_all plain_line ls \<Longrightarrow> one_line (unlines ls) \<Longrightarrow> ls = []"
  by (cases ls) auto

text \<open>Lines that are answered without an end of the client until the last one.\<close>

definition shows_lines :: "attach_client \<Rightarrow> string list \<Rightarrow> bool" where
  "shows_lines c ls \<longleftrightarrow> list_all plain_line ls \<and> (\<forall>k < length ls. snd (respond c (take k ls)) = None)"

lemma client_feed_lines:
  assumes "at_parser c = None" "shows_lines c ls" "at_buffer c @ concat reads = unlines ls" "[] \<notin> set reads"
    and "reads \<noteq> [] \<or> ls = []" and "one_line (at_buffer c)"
  shows "client_feed c reads = ((fst (respond c ls))\<lparr>at_buffer := []\<rparr>, snd (respond c ls))"
  using assms
proof (induction reads arbitrary: c ls)
  case Nil
  then have "ls = []" by simp
  moreover from this Nil.prems(3) have "c\<lparr>at_buffer := []\<rparr> = c" by simp
  ultimately show ?case by simp
next
  case (Cons r reads)
  have plain: "list_all plain_line ls" using Cons.prems(2) by (simp add: shows_lines_def)
  have "(at_buffer c @ r) @ concat reads = unlines ls" using Cons.prems(3) by simp
  from split_unlines [OF this plain_line_short [OF plain]] obtain ks ms rest where parts: "ls = ks @ ms" "at_buffer c @ r = unlines ks @ rest"
      "rest @ concat reads = unlines ms" "one_line rest" "length rest \<le> maximum_status_size" .
  define c1 where "c1 = c\<lparr>at_buffer := at_buffer c @ r\<rparr>"
  have early: "snd (respond c (take k ls)) = None" if "k < length ls" for k
    using Cons.prems(2) that by (simp add: shows_lines_def)
  have last: "snd (respond c ks) = None \<or> rest = []"
  proof (cases "ms = []")
    case True
    then show ?thesis using parts(3) by simp
  next
    case False
    then show ?thesis using early [of "length ks"] by (simp add: parts(1))
  qed
  have "snd (respond c1 (take k ks)) = None" if "k < length ks" for k
    using early [of k] that by (simp add: parts(1) c1_def respond_buffer case_prod_beta)
  with parts plain last have read: "client_lines c1 = ((fst (respond c ks))\<lparr>at_buffer := rest\<rparr>, snd (respond c ks))"
    using client_lines_respond [of ks rest c1] by (simp add: c1_def respond_buffer case_prod_beta)
  have step: "read_and_handle_supervisor_responses (Socket_Data r) c = client_lines c1"
    using Cons.prems(1) by (simp add: read_and_handle_supervisor_responses_def c1_def Let_def)
  show ?case
  proof (cases "snd (respond c ks) = None")
    case True
    define c2 where "c2 = (fst (respond c ks))\<lparr>at_buffer := rest\<rparr>"
    have later: "respond c2 vs = (case respond c (ks @ vs) of (d, x) \<Rightarrow> (d\<lparr>at_buffer := rest\<rparr>, x))" for vs
      using True by (simp add: c2_def respond_buffer respond_append)
    have "shows_lines c2 ms"
      using early [of "length ks + k" for k] plain unfolding shows_lines_def
      by (auto simp: later case_prod_beta parts(1))
    moreover have "reads \<noteq> [] \<or> ms = []"
      using parts(3,4) plain unlines_no_newline [of ms] by (cases reads) (auto simp: parts(1))
    ultimately have "client_feed c2 reads = ((fst (respond c2 ms))\<lparr>at_buffer := []\<rparr>, snd (respond c2 ms))"
      using Cons.prems(1,4) parts(3,4) by (intro Cons.IH) (simp_all add: c2_def respond_keeps)
    with True step read show ?thesis by (simp add: later case_prod_beta parts(1) flip: c2_def)
  next
    case False
    then have "ms = []" using early [of "length ks"] by (cases ms) (auto simp: parts(1))
    with parts(3) have "rest = []" by simp
    with False step read \<open>ms = []\<close> show ?thesis by (auto simp: parts(1) split: option.split)
  qed
qed

section \<open>The texts of the control plane\<close>

text \<open>A text that an idle client shows, after which it is idle again or, after a detach, ends.\<close>

definition detached_text :: string where "detached_text = ''DETACHED'' @ [newline]"

definition shown :: "string list \<Rightarrow> bool" where
  "shown ls \<longleftrightarrow> ls \<noteq> [] \<and> (\<forall>c. at_block c = Block_None \<longrightarrow>
     shows_lines c ls \<and> at_block (fst (respond c ls)) = Block_None
     \<and> snd (respond c ls) = (if unlines ls = detached_text then Some 0 else None))"

lemma shown_one:
  assumes "plain_line l"
    and "\<And>c. at_block c = Block_None \<Longrightarrow> at_block (fst (handle_supervisor_response_line l c)) = Block_None
      \<and> snd (handle_supervisor_response_line l c) = (if l = ''DETACHED'' then Some 0 else None)"
  shows "shown [l]"
  using assms unfolding shown_def shows_lines_def detached_text_def Let_def by (auto simp: Let_def)

lemmas response_line_defs = handle_supervisor_response_line_def report_legacy_attached_session_outcome_def
  in_block_def put_output_def put_error_def put_report_def response_error_prefix_def controller_busy_def
  plain_line_def outcome_begin_def maximum_status_size_def

lemma shown_words:
  "shown [''ATTACHED'']" "shown [''PROFILE_CHANGED'']" "shown [''STOPPING'']" "shown [''DETACHED'']"
  "shown [''ERROR Session is stopping.'']" "shown [''ERROR Too many queued commands.'']"
  "shown [''ERROR Profile change could not be applied; previous profile remains active.'']"
  by (rule shown_one; simp add: response_line_defs)+

lemma shown_parse_error: "shown [butlast (controller_parse_error_response e)]"
  by (cases e; simp; rule shown_one; simp add: response_line_defs)

lemma parse_error_line: "controller_parse_error_response e = unlines [butlast (controller_parse_error_response e)]"
  by (cases e) simp_all

lemma response_line_in_block:
  "at_block c = Block_Help \<Longrightarrow> handle_supervisor_response_line l c = (in_block ''HELP_END'' l c, None)"
  "at_block c = Block_Status \<Longrightarrow> handle_supervisor_response_line l c = (in_block ''STATUS_END'' l c, None)"
  unfolding handle_supervisor_response_line_def by (simp_all only: if_True if_False refl response_block.distinct)

lemma respond_block:
  assumes "at_block c = b" "b = Block_Help \<and> e = ''HELP_END'' \<or> b = Block_Status \<and> e = ''STATUS_END''"
    and "e \<notin> set ls"
  shows "snd (respond c ls) = None \<and> at_block (fst (respond c ls)) = b"
  using assms
proof (induction ls arbitrary: c)
  case (Cons l ls)
  have "handle_supervisor_response_line l c = (in_block e l c, None)"
    using Cons.prems(1,2) response_line_in_block [of c l] by blast
  moreover have "at_block (in_block e l c) = b"
    using Cons.prems(1,3) by (auto simp: in_block_def put_output_def)
  ultimately show ?case using Cons by (simp add: Let_def)
qed simp

lemma shown_block:
  assumes "b = Block_Help \<and> s = ''HELP_BEGIN'' \<and> e = ''HELP_END'' \<or> b = Block_Status \<and> s = ''STATUS_BEGIN'' \<and> e = ''STATUS_END''"
    and "list_all plain_line ls" "e \<notin> set ls"
  shows "shown (s # ls @ [e])"
  unfolding shown_def
proof (intro conjI allI impI)
  fix c :: attach_client assume idle: "at_block c = Block_None"
  define c1 where "c1 = c\<lparr>at_block := b\<rparr>"
  have first: "handle_supervisor_response_line s c = (c1, None)"
    using assms(1) idle by (auto simp: handle_supervisor_response_line_def c1_def)
  have inside: "snd (respond c1 (take k ls)) = None \<and> at_block (fst (respond c1 (take k ls))) = b" for k
    using assms(1,3) by (intro respond_block [where e = e]) (auto simp: c1_def dest!: in_set_takeD)
  have last: "handle_supervisor_response_line e d = (d\<lparr>at_block := Block_None\<rparr>, None)" if "at_block d = b" for d
    using assms(1) that response_line_in_block [of d e] by (auto simp: in_block_def)
  have whole: "respond c (s # ls @ [e]) = ((fst (respond c1 ls))\<lparr>at_block := Block_None\<rparr>, None)"
    using inside [of "length ls"] last by (simp add: first Let_def respond_append)
  have "snd (respond c (take k (s # ls @ [e]))) = None" if "k < length (s # ls @ [e])" for k
    using that inside [of "k - 1"] by (cases k) (auto simp: first Let_def)
  moreover have "plain_line s" "plain_line e" using assms(1) by (auto simp: response_line_defs)
  ultimately show "shows_lines c (s # ls @ [e])" using assms(2) by (simp add: shows_lines_def)
  show "at_block (fst (respond c (s # ls @ [e]))) = Block_None" unfolding whole by simp
  have "unlines (s # ls @ [e]) \<noteq> detached_text" using assms(1) by (auto simp: detached_text_def)
  then show "snd (respond c (s # ls @ [e])) = (if unlines (s # ls @ [e]) = detached_text then Some 0 else None)"
    unfolding whole by simp
qed simp

lemma help_shown: "\<exists>ls. help_response = unlines ls \<and> shown ls"
proof (intro exI conjI)
  show "help_response = unlines (''HELP_BEGIN'' # [''help - Show controller commands'', ''status - Show the active session'',
      ''stop - Stop the active Workload'', ''detach - Disconnect this controller''] @ [''HELP_END''])"
    by (simp add: help_response_def)
  show "shown (''HELP_BEGIN'' # [''help - Show controller commands'', ''status - Show the active session'',
      ''stop - Stop the active Workload'', ''detach - Disconnect this controller''] @ [''HELP_END''])"
    by (rule shown_block [where b = Block_Help]) (simp_all add: response_line_defs)
qed

text \<open>The lines between the marks of a status block: none starts like a mark.\<close>

definition soft_line :: "string \<Rightarrow> bool" where
  "soft_line l \<longleftrightarrow> one_line l \<and> take 1 l \<noteq> ''S''"

definition soft_text :: "string \<Rightarrow> bool" where
  "soft_text t \<longleftrightarrow> (\<exists>ls. t = unlines ls \<and> list_all soft_line ls)"

lemma soft_text_Nil [simp]: "soft_text []"
  unfolding soft_text_def by (rule exI [of _ "[]"]) simp

lemma soft_text_append: "soft_text a \<Longrightarrow> soft_text b \<Longrightarrow> soft_text (a @ b)"
proof -
  assume "soft_text a" "soft_text b"
  then obtain ks ls where "a @ b = unlines (ks @ ls)" "list_all soft_line (ks @ ls)"
    by (auto simp: soft_text_def unlines_def)
  then show ?thesis unfolding soft_text_def by blast
qed

lemma soft_text_line: "soft_line l \<Longrightarrow> soft_text (l @ [newline])"
  unfolding soft_text_def by (rule exI [of _ "[l]"]) simp

lemma one_line_escape [simp]: "one_line (escape cs)"
proof -
  have "newline \<notin> set (escaped_piece c)" for c
    using escaped_piece_printable [of newline c] by (auto simp: byte_of_def)
  then show ?thesis by (auto simp: escape_def one_line_def)
qed

lemma one_line_number: "list_all number_char t \<Longrightarrow> one_line t"
  by (auto simp: one_line_def list_all_iff)

lemma one_line_general [simp]: "one_line (to_chars_general P w)"
  using one_line_number [OF general_text_chars] by (simp add: to_chars_general_def)

lemma one_line_int [simp]: "one_line (to_string_int i)"
  by (simp add: to_string_int_def)

lemma append_arguments_soft:
  "\<exists>t. fst (append_arguments out args i limit) = out @ t \<and> soft_text t"
proof (induction out args i limit rule: append_arguments.induct)
  case (1 out i limit)
  show ?case by (rule exI [of _ "[]"]) simp
next
  case (2 out a as i limit)
  define pre where "pre = ''argument['' @ to_string_nat (i - 1) @ '']: ''"
  from append_escaped_limited_take [of a "out @ pre" "limit - 1"]
  obtain k where r: "append_escaped_limited (out @ pre) a (limit - 1) = ((out @ pre) @ escape (take k a), k = length a)"
    by blast
  define line where "line = pre @ escape (take k a) @ [newline]"
  have line: "soft_text line"
    using soft_text_line [of "pre @ escape (take k a)"] by (simp add: soft_line_def pre_def line_def)
  show ?case
  proof (cases "limit < length out + length pre + 1")
    case True
    then show ?thesis by (intro exI [of _ "[]"]) (simp add: pre_def)
  next
    case room: False
    show ?thesis
    proof (cases "k = length a")
      case True
      from "2.IH" [OF pre_def room r [symmetric]] True obtain t where
        "fst (append_arguments (out @ line) as (i + 1) limit) = (out @ line) @ t" "soft_text t"
        by (auto simp: line_def)
      with True room r line show ?thesis
        unfolding append_arguments.simps pre_def [symmetric] Let_def
        using soft_text_append [OF line \<open>soft_text t\<close>]
        by (intro exI [of _ "line @ t"]) (simp add: line_def)
    next
      case False
      with room r line show ?thesis
        unfolding append_arguments.simps pre_def [symmetric] Let_def
        by (intro exI [of _ line]) (simp add: line_def)
    qed
  qed
qed

lemma soft_direction:
  "soft_line (name @ '':'') \<Longrightarrow> soft_text (append_direction_status name x)"
proof -
  assume name: "soft_line (name @ '':'')"
  have lines: "append_direction_status name x = unlines
     [name @ '':'', ''  delay: '' @ to_string_int (sint (delay x)) @ '' ms'',
      ''  jitter: '' @ to_string_int (sint (jitter x)) @ '' ms'',
      ''  packet loss: '' @ to_chars_general 6 (packet_loss_percent x) @ ''%'',
      ''  bandwidth: '' @ (case bandwidth_kbps x of Some b \<Rightarrow> to_string_nat (unat b) @ '' kbps'' | None \<Rightarrow> ''unlimited'')]"
    by (simp add: append_direction_status_def split: option.split)
  show ?thesis
    unfolding soft_text_def lines by (rule exI, rule conjI, rule refl)
      (use name in \<open>simp add: soft_line_def split: option.split\<close>)
qed

lemma build_status_lines:
  "\<exists>ls. build_status pid args p stopping shaping = unlines (''STATUS_BEGIN'' # ls @ [''STATUS_END''])
     \<and> list_all soft_line ls"
proof -
  define tail where "tail = ((''shaping: '' @ (if shaping then ''applied'' else ''not applied'')) @ [newline])
     @ append_direction_status ''outbound'' (outbound p) @ append_direction_status ''inbound'' (inbound p)"
  define limit where "limit = maximum_status_size - length (status_tail p shaping) - length truncated_notice"
  define h1 where "h1 = (''state: '' @ (if stopping then ''stopping'' else ''running'')) @ [newline]"
  define h2 where "h2 = (''pid: '' @ to_string_int pid) @ [newline]"
  define header where "header = ''STATUS_BEGIN'' @ [newline] @ ''state: ''
            @ (if stopping then ''stopping'' else ''running'') @ [newline]
            @ ''pid: '' @ to_string_int pid @ [newline] @ ''program: ''"
  from append_escaped_limited_take [of "hd args" header "limit - 1"]
  obtain k where r: "append_escaped_limited header (hd args) (limit - 1) = (header @ escape (take k (hd args)), k = length (hd args))"
    by blast
  define h3 where "h3 = (''program: '' @ escape (take k (hd args))) @ [newline]"
  define r2 where "r2 = (header @ escape (take k (hd args))) @ [newline]"
  obtain r3 cut where r3: "(if k = length (hd args) then append_arguments r2 (tl args) 1 limit else (r2, True)) = (r3, cut)"
    by fastforce
  with append_arguments_soft [of r2 "tl args" 1 limit] obtain t where t: "r3 = r2 @ t" "soft_text t"
    by (cases "k = length (hd args)") auto
  define notice where "notice = (if cut then truncated_notice else [])"
  have notice: "soft_text notice"
    using soft_text_line [of "''arguments: truncated''"] by (simp add: notice_def truncated_notice_def soft_line_def)
  have tail: "soft_text tail"
    unfolding tail_def
    by (intro soft_text_append soft_direction soft_text_line) (simp_all add: soft_line_def)
  have head: "soft_text h1" "soft_text h2" "soft_text h3"
    unfolding h1_def h2_def h3_def by (rule soft_text_line; simp add: soft_line_def)+
  have whole: "build_status pid args p stopping shaping
      = (''STATUS_BEGIN'' @ [newline]) @ (h1 @ h2 @ h3 @ t @ notice @ tail) @ ''STATUS_END'' @ [newline]"
    unfolding build_status_def Let_def limit_def [symmetric] header_def [symmetric] r prod.case
      r2_def [symmetric] r3 notice_def [symmetric] t(1)
    by (simp add: r2_def header_def h1_def h2_def h3_def status_tail_def tail_def)
  have "soft_text (h1 @ h2 @ h3 @ t @ notice @ tail)"
    by (intro soft_text_append head t(2) notice tail)
  then obtain ls where "h1 @ h2 @ h3 @ t @ notice @ tail = unlines ls" "list_all soft_line ls"
    by (auto simp: soft_text_def)
  with whole show ?thesis by (intro exI [of _ ls]) (simp add: unlines_def)
qed

lemma length_unlines_le: "l \<in> set ls \<Longrightarrow> length l \<le> length (unlines ls)"
  by (induction ls) auto

lemma status_shown:
  assumes "valid_profile p" "\<bar>pid\<bar> < 2 ^ 31"
  shows "\<exists>ls. build_status pid args p stopping shaping = unlines ls \<and> shown ls"
proof -
  from build_status_lines [of pid args p stopping shaping] obtain ls where
    ls: "build_status pid args p stopping shaping = unlines (''STATUS_BEGIN'' # ls @ [''STATUS_END''])" "list_all soft_line ls"
    by blast
  have "plain_line l" if "l \<in> set ls" for l
  proof -
    have "length l \<le> maximum_status_size"
      using build_status_fits [OF assms, of args stopping shaping] length_unlines_le [of l "''STATUS_BEGIN'' # ls @ [''STATUS_END'']"] that
      by (simp add: ls(1))
    moreover have "soft_line l" using ls(2) that by (simp add: list_all_iff)
    ultimately show ?thesis by (auto simp: plain_line_def soft_line_def outcome_begin_def)
  qed
  moreover have "''STATUS_END'' \<notin> set ls"
    using ls(2) by (auto simp: list_all_iff soft_line_def)
  ultimately have "shown (''STATUS_BEGIN'' # ls @ [''STATUS_END''])"
    by (intro shown_block [where b = Block_Status]) (simp_all add: list_all_iff)
  with ls(1) show ?thesis by blast
qed

section \<open>Everything the control plane says is understood\<close>

definition server_text :: "string \<Rightarrow> bool" where
  "server_text t \<longleftrightarrow> (\<exists>ls. t = unlines ls \<and> shown ls)"

definition server_batch :: "control_plane_action list \<Rightarrow> bool" where
  "server_batch acts \<longleftrightarrow> (\<forall>t. SendControllerTextAction t \<in> set acts \<longrightarrow> server_text t)"

definition reports_status :: "control_plane \<Rightarrow> bool" where
  "reports_status s \<longleftrightarrow> valid_profile (cp_confirmed_profile s) \<and> \<bar>cp_workload_pid s\<bar> < 2 ^ 31"

lemma server_text_words:
  "server_text (''ATTACHED'' @ [newline])" "server_text (''PROFILE_CHANGED'' @ [newline])"
  "server_text (''STOPPING'' @ [newline])" "server_text (''DETACHED'' @ [newline])"
  "server_text (''ERROR Session is stopping.'' @ [newline])"
  "server_text (''ERROR Too many queued commands.'' @ [newline])"
  "server_text (''ERROR Profile change could not be applied; previous profile remains active.'' @ [newline])"
  unfolding server_text_def by (rule exI, rule conjI [OF _ shown_words(1)], simp,
    rule exI, rule conjI [OF _ shown_words(2)], simp, rule exI, rule conjI [OF _ shown_words(3)], simp,
    rule exI, rule conjI [OF _ shown_words(4)], simp, rule exI, rule conjI [OF _ shown_words(5)], simp,
    rule exI, rule conjI [OF _ shown_words(6)], simp, rule exI, rule conjI [OF _ shown_words(7)], simp)

lemma server_text_responses:
  "server_text help_response" "server_text (controller_parse_error_response e)"
  using help_shown parse_error_line [of e] shown_parse_error [of e] unfolding server_text_def by blast+

lemmas server_text_plain [simp] = server_text_words [simplified]

lemma server_text_too_long: "server_text (controller_parse_error_response Command_Too_Long)"
  by (rule server_text_responses)

declare server_text_too_long [simplified, simp] server_text_responses [simp]

lemma server_text_status:
  "reports_status s \<Longrightarrow> server_text (build_status (cp_workload_pid s) args (cp_confirmed_profile s) st sh)"
  unfolding reports_status_def server_text_def using status_shown by blast

lemma server_batch_simps [simp]:
  "server_batch []"
  "server_batch (a # acts) \<longleftrightarrow> (\<forall>t. a = SendControllerTextAction t \<longrightarrow> server_text t) \<and> server_batch acts"
  "server_batch (xs @ ys) \<longleftrightarrow> server_batch xs \<and> server_batch ys"
  "server_batch (append_before_dispatch acts a) \<longleftrightarrow> (\<forall>t. a = SendControllerTextAction t \<longrightarrow> server_text t) \<and> server_batch acts"
  by (auto simp: server_batch_def)

lemma server_batch_filter [simp]: "server_batch acts \<Longrightarrow> server_batch (filter P acts)"
  by (simp add: server_batch_def)

lemma server_enter_stopping: "server_batch acts \<Longrightarrow> server_batch (snd (enter_stopping s acts))"
  by (simp add: enter_stopping_def Let_def case_prod_beta split: option.split)

lemma server_process_command:
  assumes "reports_status s" "server_batch acts"
  shows "server_batch (snd (process_command s acts c))"
proof (cases c)
  case StatusControllerCommand
  with assms server_text_status [OF assms(1)] show ?thesis by (simp add: process_command_def)
next
  case StopControllerCommand
  with assms(2) show ?thesis by (simp add: process_command_def server_enter_stopping)
qed (use assms(2) in \<open>simp_all add: process_command_def\<close>)

lemma workload_pid_keeps [simp]:
  "cp_workload_pid (fst (enter_stopping s acts)) = cp_workload_pid s"
  "cp_workload_pid (fst (process_command s acts c)) = cp_workload_pid s"
  "cp_workload_pid (fst (receive_line s acts l)) = cp_workload_pid s"
proof -
  show enter: "cp_workload_pid (fst (enter_stopping s acts)) = cp_workload_pid s" for s acts
    by (simp add: enter_stopping_def Let_def case_prod_beta split: option.split)
  then show process: "cp_workload_pid (fst (process_command s acts c)) = cp_workload_pid s" for s acts c
    by (cases c) (simp_all add: process_command_def)
  then show "cp_workload_pid (fst (receive_line s acts l)) = cp_workload_pid s"
    by (simp add: receive_line_def Let_def split: controller_parse_result.split)
qed

lemma reports_status_keeps [simp]:
  "reports_status (s\<lparr>cp_command_queue := q\<rparr>) = reports_status s"
  "reports_status (s\<lparr>cp_read_buffer := b\<rparr>) = reports_status s"
  "reports_status (settle_dispatch s) = reports_status s"
  "reports_status (fst (process_command s acts c)) = reports_status s"
  "reports_status (fst (receive_line s acts l)) = reports_status s"
  by (simp_all add: reports_status_def)

lemma server_receive_line:
  assumes "reports_status s" "server_batch acts"
  shows "server_batch (snd (receive_line s acts l))"
  using assms server_process_command [OF assms]
  by (simp add: receive_line_def Let_def split: controller_parse_result.split)

lemma server_receive_lines:
  assumes "reports_status s" "server_batch acts"
  shows "reports_status (fst (receive_lines s acts)) \<and> server_batch (snd (receive_lines s acts))"
  using conjI [OF assms]
proof (induction s acts rule: receive_lines_induct)
  case (step s acts l r)
  then show ?case using server_receive_line [of "s\<lparr>cp_read_buffer := r\<rparr>" acts l] by simp
qed

lemma server_drain:
  assumes "reports_status s" "server_batch acts"
  shows "reports_status (fst (drain_queue s acts)) \<and> server_batch (snd (drain_queue s acts))"
  using conjI [OF assms]
proof (induction s acts rule: drain_queue_induct)
  case (step s acts q qs)
  then show ?case using server_process_command [of "s\<lparr>cp_command_queue := qs\<rparr>" acts "fst q"] by simp
qed

lemma server_drain_if_live:
  assumes "reports_status s" "server_batch acts"
  shows "server_batch (snd (drain_if_live s acts))"
  using assms server_drain [OF assms] by (simp add: drain_if_live_def)

lemma server_change_result:
  assumes "reports_status s"
  shows "server_batch (snd (handle_change_result s result change))"
proof (cases rule: handle_change_result_cases [of s change result])
  case (applied f q t)
  have "reports_status t"
    using assms apply_profile_change_valid [OF applied(4)] by (simp add: applied(5) reports_status_def)
  with applied(6) show ?thesis by (simp add: server_drain_if_live change_reply_def)
next
  case (restored f t)
  have "reports_status t" using assms by (simp add: restored(4) reports_status_def)
  with restored(5) show ?thesis by (simp add: server_drain_if_live change_reply_def)
qed (simp_all add: fail_profile_state_def)

lemma server_handle_bytes:
  assumes "reports_status s"
  shows "server_batch (snd (handle_bytes s bytes))"
proof -
  obtain s1 a1 where r: "receive_lines (s\<lparr>cp_read_buffer := cp_read_buffer s @ bytes\<rparr>) [] = (s1, a1)"
    by fastforce
  have "server_batch a1"
    using server_receive_lines [of "s\<lparr>cp_read_buffer := cp_read_buffer s @ bytes\<rparr>" "[]"] assms by (simp add: r)
  then show ?thesis by (simp add: handle_bytes_def r Let_def)
qed

lemma server_handle:
  assumes "reports_status s"
  shows "server_batch (snd (handle s e))"
proof (cases "e = ControllerWriteFailedEvent")
  case True
  then show ?thesis by (simp add: handle_def)
next
  case False
  with assms show ?thesis
    by (cases e) (simp_all add: handle_settle server_change_result server_handle_bytes)
qed

end
