(* ===== verification/Attached_Session_Laws.thy ===== *)
theory Attached_Session_Laws
  imports Attach_Laws
begin

text \<open>
  A whole attached session on the client's side: the texts of a control plane, one after the other
  and cut into reads at any place, and the outcome block that ends them.
\<close>

section \<open>Several texts\<close>

lemma respond_server_lines:
  assumes "\<forall>ls \<in> set lss. shown ls" "detached_text \<notin> unlines ` set lss" "at_block c = Block_None"
  shows "shows_lines c (concat lss) \<and> snd (respond c (concat lss)) = None
    \<and> at_block (fst (respond c (concat lss))) = Block_None"
  using assms
proof (induction lss arbitrary: c)
  case Nil
  then show ?case by (simp add: shows_lines_def)
next
  case (Cons ls lss)
  then have first: "shows_lines c ls" "snd (respond c ls) = None" "at_block (fst (respond c ls)) = Block_None"
    by (auto simp: shown_def)
  define d where "d = fst (respond c ls)"
  have later: "shows_lines d (concat lss)" "snd (respond d (concat lss)) = None"
    "at_block (fst (respond d (concat lss))) = Block_None"
    using Cons.IH [of d] Cons.prems first(3) by (auto simp: d_def)
  have "snd (respond c (take k (ls @ concat lss))) = None" if "k < length (ls @ concat lss)" for k
    using that first(1,2) later(1) by (cases "k < length ls") (auto simp: shows_lines_def respond_append d_def)
  with first later show ?case by (simp add: shows_lines_def respond_append d_def)
qed

lemma respond_last_text:
  assumes "shows_lines c ks" "snd (respond c ks) = None" "shows_lines (fst (respond c ks)) ls"
  shows "shows_lines c (ks @ ls)"
proof -
  have "snd (respond c (take k (ks @ ls))) = None" if "k < length (ks @ ls)" for k
    using that assms by (cases "k < length ks") (auto simp: shows_lines_def respond_append)
  with assms show ?thesis by (simp add: shows_lines_def)
qed

lemma server_texts_lines:
  "\<forall>t \<in> set ts. server_text t \<Longrightarrow> \<exists>lss. map unlines lss = ts \<and> (\<forall>ls \<in> set lss. shown ls)"
proof (induction ts)
  case (Cons t ts)
  then obtain ls lss where "map unlines lss = ts" "\<forall>ls \<in> set lss. shown ls" "t = unlines ls" "shown ls"
    by (auto simp: server_text_def)
  then show ?case by (intro exI [of _ "ls # lss"]) simp
qed simp

lemma concat_unlines: "concat (map unlines lss) = unlines (concat lss)"
  by (induction lss) simp_all

lemma shown_nonempty: "shown ls \<Longrightarrow> unlines ls \<noteq> []"
  by (cases ls) (simp_all add: shown_def)

text \<open>All texts but the last leave the client idle; the last one may detach it.\<close>

lemma client_feed_texts:
  assumes "\<forall>t \<in> set ts. server_text t" "detached_text \<notin> set (butlast ts)"
    and "at_block c = Block_None" "at_parser c = None" "at_buffer c = []"
    and "concat reads = concat ts" "[] \<notin> set reads"
  shows "snd (client_feed c reads) = (if detached_text \<in> set ts then Some 0 else None)
    \<and> at_block (fst (client_feed c reads)) = Block_None"
proof (cases ts rule: rev_cases)
  case Nil
  with assms(6,7) have "reads = []" by (cases reads) auto
  with Nil assms(3) show ?thesis by simp
next
  case (snoc us t)
  from server_texts_lines [of us] assms(1) snoc obtain kss where
    kss: "map unlines kss = us" "\<forall>ls \<in> set kss. shown ls" by auto
  from assms(1) snoc obtain ls where ls: "t = unlines ls" "shown ls" by (auto simp: server_text_def)
  have "detached_text \<notin> unlines ` set kss" using assms(2) kss(1) snoc by auto
  with respond_server_lines [OF kss(2)] assms(3) have before: "shows_lines c (concat kss)"
    "snd (respond c (concat kss)) = None" "at_block (fst (respond c (concat kss))) = Block_None" by blast+
  with ls(2) have all: "shows_lines c (concat kss @ ls)" by (intro respond_last_text) (simp_all add: shown_def)
  have "concat ts = unlines (concat kss @ ls)"
    using kss(1) ls(1) by (simp add: snoc concat_unlines [symmetric])
  moreover have "reads \<noteq> []" using assms(6) ls shown_nonempty [OF ls(2)] by (auto simp: snoc)
  ultimately have "client_feed c reads = ((fst (respond c (concat kss @ ls)))\<lparr>at_buffer := []\<rparr>,
      snd (respond c (concat kss @ ls)))"
    using assms(4-7) all by (intro client_feed_lines) simp_all
  moreover have "detached_text \<in> set ts \<longleftrightarrow> unlines ls = detached_text"
    using assms(2) ls(1) by (auto simp: snoc)
  ultimately show ?thesis using before ls(2) by (simp add: respond_append shown_def)
qed

section \<open>The texts of a control plane\<close>

lemma workload_pid_lines [simp]:
  "cp_workload_pid (fst (receive_lines s acts)) = cp_workload_pid s"
  "cp_workload_pid (fst (drain_queue s acts)) = cp_workload_pid s"
  using receive_lines_induct [of "\<lambda>t _. cp_workload_pid t = cp_workload_pid s" s acts]
    drain_queue_induct [of "\<lambda>t _. cp_workload_pid t = cp_workload_pid s" s acts]
  by simp_all

lemma workload_pid_handle [simp]: "cp_workload_pid (fst (handle s e)) = cp_workload_pid s"
proof (cases e)
  case (HelperProfileChangeResultEvent result change)
  have "cp_workload_pid (fst (handle_change_result t result change)) = cp_workload_pid t" for t result change
    by (cases rule: handle_change_result_cases [of t change result])
      (simp_all add: fail_profile_state_def drain_if_live_def)
  then show ?thesis by (simp add: HelperProfileChangeResultEvent handle_settle settle_dispatch_def)
next
  case (ControllerBytesReceivedEvent bytes)
  have "cp_workload_pid (fst (handle_bytes t bytes)) = cp_workload_pid t" for t
    using workload_pid_lines(1) [of "t\<lparr>cp_read_buffer := cp_read_buffer t @ bytes\<rparr>" "[]"]
    by (simp add: handle_bytes_def case_prod_beta Let_def)
  then show ?thesis by (simp add: ControllerBytesReceivedEvent handle_settle settle_dispatch_def)
qed (simp_all add: handle_def Let_def split: option.split)

lemma server_handle_all:
  assumes "cp_inv s" "\<bar>cp_workload_pid s\<bar> < 2 ^ 31"
  shows "server_batch (concat (snd (handle_all s es)))"
  using assms
proof (induction s es rule: handle_all.induct)
  case (2 s e es)
  obtain t acts where h: "handle s e = (t, acts)" by fastforce
  have "reports_status s" using "2.prems" by (simp add: reports_status_def cp_inv_def)
  from server_handle [OF this, of e] have "server_batch acts" by (simp add: h)
  moreover have "server_batch (concat (snd (handle_all t es)))"
    using "2.IH" [OF h [symmetric]] cp_inv_handle [OF "2.prems"(1), of e] "2.prems"(2)
      workload_pid_handle [of s e] by (simp add: h)
  ultimately show ?case by (simp add: h case_prod_beta)
qed simp

definition plane_texts :: "int \<Rightarrow> string list \<Rightarrow> control_plane_event list \<Rightarrow> string set" where
  "plane_texts pid args events =
     {t. SendControllerTextAction t \<in> set (concat (snd (handle_all (new_control_plane pid args) events)))}"

lemma plane_texts_shown:
  assumes "\<bar>pid\<bar> < 2 ^ 31" "t \<in> plane_texts pid args events"
  shows "server_text t"
proof -
  have "cp_workload_pid (new_control_plane pid args) = pid" by (simp add: new_control_plane_def)
  then show ?thesis
    using server_handle_all [OF cp_inv_new, of pid args events] assms
    by (simp add: plane_texts_def server_batch_def)
qed

text \<open>C6: an attached controller understands everything a control plane can say: any sequence of
  texts that the control plane sends in any run, delivered by a stream that may cut and join them
  anywhere, is answered without an error, with no text taken for the end of the session; only
  DETACHED ends the client, with status 0, and otherwise it is idle again after the last byte.\<close>

theorem client_understands_control_plane:
  assumes "\<bar>pid\<bar> < 2 ^ 31" "set ts \<subseteq> plane_texts pid args events" "detached_text \<notin> set (butlast ts)"
    and "concat reads = concat ts" "[] \<notin> set reads"
  shows "snd (client_feed new_attach_client reads) = (if detached_text \<in> set ts then Some 0 else None)
    \<and> at_block (fst (client_feed new_attach_client reads)) = Block_None"
  using assms plane_texts_shown [OF assms(1)]
  by (intro client_feed_texts) (auto simp: new_attach_client_def)

theorem client_understands_control_plane_witness:
  "snd (client_feed new_attach_client [''ATTA'', ''CHED'' @ newline # ''DETACH'', ''ED'' @ [newline]]) = Some 0"
proof -
  define events where "events = [ControllerAttachedEvent, ControllerBytesReceivedEvent (''detach'' @ [newline])]"
  have "snd (handle_all (new_control_plane 7 [''a'']) events)
    = [[SendControllerTextAction (''ATTACHED'' @ [newline])],
       [SendControllerTextAction detached_text, DisconnectControllerAction]]"
    unfolding events_def by code_simp
  then have "set [''ATTACHED'' @ [newline], detached_text] \<subseteq> plane_texts 7 [''a''] events"
    by (simp add: plane_texts_def)
  then show ?thesis
    using client_understands_control_plane [of 7 "[''ATTACHED'' @ [newline], detached_text]" "[''a'']" events
        "[''ATTA'', ''CHED'' @ newline # ''DETACH'', ''ED'' @ [newline]]"]
    by (simp add: detached_text_def)
qed

section \<open>The outcome of the session\<close>

lemma client_lines_more:
  assumes "list_all plain_line ls" "\<forall>k \<le> length ls. snd (respond c (take k ls)) = None"
    and "at_buffer c = unlines ls @ rest"
  shows "client_lines c = client_lines ((fst (respond c ls))\<lparr>at_buffer := rest\<rparr>)"
  using assms
proof (induction ls arbitrary: c)
  case Nil
  then have "c\<lparr>at_buffer := rest\<rparr> = c" by simp
  then show ?case by simp
next
  case (Cons l ls)
  define r where "r = handle_supervisor_response_line l c"
  have go: "snd r = None" using Cons.prems(2) by (drule_tac spec [of _ 1]) (auto simp: r_def Let_def split: if_splits)
  have line: "handle_supervisor_response_line l (c\<lparr>at_buffer := unlines ls @ rest\<rparr>)
      = ((fst r)\<lparr>at_buffer := unlines ls @ rest\<rparr>, snd r)"
    by (simp add: r_def response_line_buffer case_prod_beta)
  have step: "client_lines c = client_lines ((fst r)\<lparr>at_buffer := unlines ls @ rest\<rparr>)"
    using Cons.prems(1,3) go by (subst client_lines.simps) (simp add: plain_line_def Let_def line)
  have "snd (respond ((fst r)\<lparr>at_buffer := unlines ls @ rest\<rparr>) (take k ls)) = None" if "k \<le> length ls" for k
    using Cons.prems(2) [rule_format, of "Suc k"] that go
    by (simp add: respond_buffer case_prod_beta Let_def flip: r_def)
  then have "client_lines ((fst r)\<lparr>at_buffer := unlines ls @ rest\<rparr>)
      = client_lines ((fst (respond ((fst r)\<lparr>at_buffer := unlines ls @ rest\<rparr>) ls))\<lparr>at_buffer := rest\<rparr>)"
    using Cons.prems(1) by (intro Cons.IH) simp_all
  with step go show ?case by (simp add: respond_buffer case_prod_beta Let_def flip: r_def)
qed

lemma client_feed_parser:
  assumes "at_parser c = Some p" "at_buffer c = []" "reads \<noteq> []"
    and "outcome_feed p reads = replicate (length reads - 1) Incomplete_Outcome @ [Complete_Outcome outcome]"
  shows "\<exists>q. client_feed c reads = put_report (report_attached_session_outcome outcome) (c\<lparr>at_parser := Some q\<rparr>)
    \<and> still_reading c reads"
  using assms
proof (induction reads arbitrary: c p)
  case (Cons r reads)
  obtain q result where q: "outcome_receive p r = (q, result)" by fastforce
  define c1 where "c1 = c\<lparr>at_parser := Some q\<rparr>"
  have "c\<lparr>at_parser := Some q, at_buffer := []\<rparr> = c1"
    using Cons.prems(2) by (cases c) (simp add: c1_def)
  then have step: "read_and_handle_supervisor_responses (Socket_Data r) c = handle_session_outcome_result result c1"
    using Cons.prems(1,2) by (simp add: read_and_handle_supervisor_responses_def Let_def q)
  show ?case
  proof (cases reads)
    case Nil
    with Cons.prems(4) q have "result = Complete_Outcome outcome" by simp
    then have "client_feed c (r # reads) = put_report (report_attached_session_outcome outcome) c1"
      by (simp add: step handle_session_outcome_result_def put_report_def case_prod_beta)
    with Nil show ?thesis by (auto simp: c1_def still_reading_Cons)
  next
    case (Cons d ds)
    with Cons.prems(4) q have "result = Incomplete_Outcome"
      "outcome_feed q reads = replicate (length reads - 1) Incomplete_Outcome @ [Complete_Outcome outcome]" by auto
    moreover from this Cons.IH [of c1 q] Cons Cons.prems(2) obtain q2 where
      "client_feed c1 reads = put_report (report_attached_session_outcome outcome) (c1\<lparr>at_parser := Some q2\<rparr>)"
      "still_reading c1 reads"
      by (auto simp: c1_def)
    ultimately show ?thesis by (auto simp: step handle_session_outcome_result_def c1_def still_reading_Cons)
  qed
qed simp

lemma client_fields_swap: "c\<lparr>at_buffer := b, at_parser := p\<rparr> = c\<lparr>at_parser := p, at_buffer := b\<rparr>"
  by (cases c) simp

lemma one_line_outcome_begin [simp]: "one_line outcome_begin"
  by (simp add: outcome_begin_def)

lemma append_covers:
  assumes "x @ u = v @ w" "length v \<le> length x"
  obtains z where "x = v @ z" "z @ u = w"
  using assms by (metis append_eq_append_conv_if append_eq_conv_conj append_take_drop_id)

lemma client_lines_outcome:
  assumes "wire_outcome outcome" "(outcome_begin @ newline # z) @ concat reads = outcome_block outcome"
    and "[] \<notin> set reads" "at_buffer c = outcome_begin @ newline # z"
  shows "\<exists>q. (case client_lines c of (c1, Some status) \<Rightarrow> (c1, Some status) | (c1, None) \<Rightarrow> client_feed c1 reads)
    = put_report (report_attached_session_outcome outcome) (c\<lparr>at_parser := Some q, at_buffer := []\<rparr>)
    \<and> (reads = [] \<or> (case client_lines c of (c1, Some status) \<Rightarrow> False | (c1, None) \<Rightarrow> still_reading c1 reads))"
proof -
  define head_line where "head_line = outcome_begin @ [newline]"
  define cuts where "cuts = (if z = [] then reads else z # reads)"
  have "head_line @ concat cuts = outcome_block outcome" "[] \<notin> set (head_line # cuts)"
    using assms(2,3) by (auto simp: cuts_def head_line_def)
  with outcome_feed_block [OF assms(1), of "[]" "head_line # cuts"] have feed:
    "outcome_feed new_outcome_parser (head_line # cuts) = replicate (length cuts) Incomplete_Outcome @ [Complete_Outcome outcome]"
    by (simp add: new_outcome_parser_def)
  have "head_line \<noteq> outcome_block outcome" by (simp add: head_line_def outcome_begin_def outcome_block_def)
  with \<open>head_line @ concat cuts = _\<close> have "cuts \<noteq> []" by auto
  obtain p1 first where p1: "outcome_receive new_outcome_parser head_line = (p1, first)" by fastforce
  with feed \<open>cuts \<noteq> []\<close> have first: "first = Incomplete_Outcome" and
    rest: "outcome_feed p1 cuts = replicate (length cuts - 1) Incomplete_Outcome @ [Complete_Outcome outcome]"
    by (auto simp: neq_Nil_conv)
  have lines: "client_lines c = start_outcome (c\<lparr>at_buffer := z\<rparr>)"
    using assms(4) by (subst client_lines.simps) simp
  show ?thesis
  proof (cases "z = []")
    case True
    have "client_lines c = (c\<lparr>at_parser := Some p1, at_buffer := []\<rparr>, None)"
      by (simp add: lines True start_outcome_def p1 first handle_session_outcome_result_def flip: head_line_def)
    with client_feed_parser [of "c\<lparr>at_parser := Some p1, at_buffer := []\<rparr>" p1 reads outcome] rest True \<open>cuts \<noteq> []\<close>
    show ?thesis by (simp add: cuts_def client_fields_swap)
  next
    case False
    obtain p2 result where p2: "outcome_receive p1 z = (p2, result)" by fastforce
    have start: "client_lines c = handle_session_outcome_result result (c\<lparr>at_parser := Some p2, at_buffer := []\<rparr>)"
      by (simp add: lines False start_outcome_def p1 p2 flip: head_line_def)
    show ?thesis
    proof (cases "reads = []")
      case True
      with rest False p2 have "result = Complete_Outcome outcome" by (simp add: cuts_def)
      then show ?thesis
        using True by (auto simp: start handle_session_outcome_result_def put_report_def case_prod_beta)
    next
      case more: False
      with rest False p2 have "result = Incomplete_Outcome"
        "outcome_feed p2 reads = replicate (length reads - 1) Incomplete_Outcome @ [Complete_Outcome outcome]"
        by (auto simp: cuts_def neq_Nil_conv)
      with client_feed_parser [of "c\<lparr>at_parser := Some p2, at_buffer := []\<rparr>" p2 reads outcome] more
      show ?thesis by (simp add: start handle_session_outcome_result_def client_fields_swap)
    qed
  qed
qed

lemma client_feed_outcome:
  assumes "wire_outcome outcome" "[] \<notin> set reads" "list_all plain_line ls"
    and "\<forall>k \<le> length ls. snd (respond c (take k ls)) = None" "one_line (at_buffer c)" "at_parser c = None"
    and "at_buffer c @ concat reads = unlines ls @ outcome_block outcome"
  shows "\<exists>q. client_feed c reads
    = put_report (report_attached_session_outcome outcome) ((fst (respond c ls))\<lparr>at_parser := Some q, at_buffer := []\<rparr>)
    \<and> still_reading c reads"
  using assms(2-)
proof (induction reads arbitrary: c ls)
  case Nil
  have "outcome_block outcome = outcome_begin @ newline # drop 22 (outcome_block outcome)"
    by (simp add: outcome_block_def outcome_begin_def)
  then have "\<not> one_line (unlines ls @ outcome_block outcome)" by (metis one_line_append one_line_Cons)
  with Nil show ?case by simp
next
  case (Cons r reads)
  define x where "x = at_buffer c @ r"
  define c1 where "c1 = c\<lparr>at_buffer := x\<rparr>"
  have step: "client_feed c (r # reads)
      = (case client_lines c1 of (d, Some status) \<Rightarrow> (d, Some status) | (d, None) \<Rightarrow> client_feed d reads)"
    "still_reading c (r # reads) \<longleftrightarrow> reads = [] \<or>
       (case client_lines c1 of (d, Some status) \<Rightarrow> False | (d, None) \<Rightarrow> still_reading d reads)"
    using Cons.prems(5)
    by (simp_all add: still_reading_Cons read_and_handle_supervisor_responses_def c1_def Let_def x_def)
  have whole: "x @ concat reads = unlines ls @ outcome_block outcome" using Cons.prems(6) by (simp add: x_def)
  define tail where "tail = drop 22 (outcome_block outcome)"
  have tail: "outcome_block outcome = outcome_begin @ newline # tail"
    by (simp add: outcome_block_def outcome_begin_def tail_def)
  have answers: "snd (respond c1 (take k ls)) = None" if "k \<le> length ls" for k
    using Cons.prems(3) that by (simp add: c1_def respond_buffer case_prod_beta)
  have split: "x @ concat reads = unlines (ls @ [outcome_begin]) @ tail" using whole tail by simp
  show ?case
  proof (cases "length (unlines (ls @ [outcome_begin])) \<le> length x")
    case True
    with split obtain z where z: "x = unlines (ls @ [outcome_begin]) @ z" "z @ concat reads = tail"
      by (rule append_covers)
    define d where "d = (fst (respond c1 ls))\<lparr>at_buffer := outcome_begin @ newline # z\<rparr>"
    have "client_lines c1 = client_lines d"
      using Cons.prems(2) answers z(1) unfolding d_def by (intro client_lines_more) (simp_all add: c1_def)
    moreover have "(outcome_begin @ newline # z) @ concat reads = outcome_block outcome" using tail z(2) by simp
    from client_lines_outcome [OF assms(1) this, of d] Cons.prems(1) obtain q where
      "(case client_lines d of (e, Some status) \<Rightarrow> (e, Some status) | (e, None) \<Rightarrow> client_feed e reads)
        = put_report (report_attached_session_outcome outcome) (d\<lparr>at_parser := Some q, at_buffer := []\<rparr>)"
      "reads = [] \<or> (case client_lines d of (e, Some status) \<Rightarrow> False | (e, None) \<Rightarrow> still_reading e reads)"
      by (auto simp: d_def)
    ultimately show ?thesis
      unfolding step by (auto simp: d_def c1_def respond_buffer case_prod_beta)
  next
    case False
    then have "length x \<le> length (unlines (ls @ [outcome_begin]))" by simp
    from append_covers [OF split [symmetric] this]
    obtain y where y: "x @ y = unlines (ls @ [outcome_begin])" by metis
    with False have "y \<noteq> []" by auto
    have "list_all short_line (ls @ [outcome_begin])"
      using plain_line_short [OF Cons.prems(2)] by (simp add: short_line_def outcome_begin_def maximum_status_size_def)
    from split_unlines [OF y this] obtain ks ms rest where parts: "ls @ [outcome_begin] = ks @ ms"
      "x = unlines ks @ rest" "rest @ y = unlines ms" "one_line rest" "length rest \<le> maximum_status_size" .
    from parts(3) \<open>y \<noteq> []\<close> have "ms \<noteq> []" by auto
    with parts(1) obtain vs where vs: "ms = vs @ [outcome_begin]" "ls = ks @ vs"
      by (metis append_butlast_last_id butlast_append last_appendR snoc_eq_iff_butlast)
    define d where "d = (fst (respond c ks))\<lparr>at_buffer := rest\<rparr>"
    have ks: "list_all plain_line ks" "list_all plain_line vs" using Cons.prems(2) vs(2) by auto
    have "snd (respond c1 (take k ks)) = None" if "k < length ks" for k
      using answers [of k] that by (simp add: vs(2))
    then have "client_lines c1 = ((fst (respond c1 ks))\<lparr>at_buffer := rest\<rparr>, snd (respond c1 ks))"
      using ks parts answers [of "length ks"]
      by (intro client_lines_respond) (simp_all add: vs(2) c1_def)
    then have read: "client_lines c1 = (d, None)"
      using answers [of "length ks"] by (simp add: vs(2) d_def c1_def respond_buffer case_prod_beta)
    have later: "respond d us = (case respond c (ks @ us) of (e, s) \<Rightarrow> (e\<lparr>at_buffer := rest\<rparr>, s))" for us
      using Cons.prems(3) [rule_format, of "length ks"] by (simp add: d_def respond_buffer respond_append vs(2))
    have "\<forall>k \<le> length vs. snd (respond d (take k vs)) = None"
      using Cons.prems(3) by (auto simp: later case_prod_beta vs(2) dest: spec [of _ "length ks + k" for k])
    with Cons.IH [of vs d] Cons.prems(1,5) ks(2) parts whole vs(2)
    have "\<exists>q. client_feed d reads
        = put_report (report_attached_session_outcome outcome) ((fst (respond d vs))\<lparr>at_parser := Some q, at_buffer := []\<rparr>)
          \<and> still_reading d reads"
      by (simp add: d_def respond_keeps)
    then show ?thesis unfolding step read by (simp add: later case_prod_beta vs(2))
  qed
qed

text \<open>C7: the outcome of a session reaches the user whole: after any texts of the control plane,
  none of them a detach, the outcome block of the session, in a stream cut anywhere even inside
  its first line, ends the client with the exit status of the report, and what is written is what
  the texts alone have shown followed by that report; and the client ends exactly at the last byte
  of the block: no part of the stream that lacks a byte of it, in whatever reads, ends the client.\<close>

theorem client_reports_outcome:
  assumes "\<bar>pid\<bar> < 2 ^ 31" "set ts \<subseteq> plane_texts pid args events" "detached_text \<notin> set ts"
    and "serialize_controller_session_outcome outcome = Inr block"
    and "concat reads = concat ts @ block" "[] \<notin> set reads"
  shows "\<exists>c1. client_feed new_attach_client reads
      = put_report (report_attached_session_outcome outcome) (c1\<lparr>at_buffer := []\<rparr>)
    \<and> (\<forall>whole. whole \<noteq> [] \<and> concat ts = whole \<longrightarrow>
         (\<exists>c0. client_feed new_attach_client [whole] = (c0, None)
            \<and> at_output c1 = at_output c0 \<and> at_error c1 = at_error c0))
    \<and> (\<forall>early missing. concat early @ missing = concat ts @ block \<and> missing \<noteq> [] \<and> [] \<notin> set early \<longrightarrow>
         snd (client_feed new_attach_client early) = None)"
proof -
  have wire: "wire_outcome outcome" "block = outcome_block outcome"
    using assms(4) by (simp_all add: serialize_outcome_eq split: if_splits)
  from server_texts_lines [of ts] plane_texts_shown [OF assms(1)] assms(2) obtain lss where
    lss: "map unlines lss = ts" "\<forall>ls \<in> set lss. shown ls" by blast
  define ls where "ls = concat lss"
  have idle: "at_block new_attach_client = Block_None" "at_parser new_attach_client = None" "at_buffer new_attach_client = []"
    by (simp_all add: new_attach_client_def)
  have "detached_text \<notin> unlines ` set lss" using assms(3) lss(1) by auto
  from respond_server_lines [OF lss(2) this idle(1)] have ls: "shows_lines new_attach_client ls"
    "snd (respond new_attach_client ls) = None" by (simp_all add: ls_def)
  then have early: "\<forall>k \<le> length ls. snd (respond new_attach_client (take k ls)) = None"
    by (auto simp: shows_lines_def le_less)
  have whole: "concat ts = unlines ls" using lss(1) by (simp add: ls_def concat_unlines [symmetric])
  have told: "\<exists>q. client_feed new_attach_client cuts = put_report (report_attached_session_outcome outcome)
      ((fst (respond new_attach_client ls))\<lparr>at_parser := Some q, at_buffer := []\<rparr>) \<and> still_reading new_attach_client cuts"
    if "concat cuts = concat ts @ block" "[] \<notin> set cuts" for cuts
    using client_feed_outcome [OF wire(1) that(2) _ early _ idle(2)] ls(1) that(1) whole wire(2) idle(3)
    by (auto simp: shows_lines_def)
  have "snd (client_feed new_attach_client part) = None"
    if "concat part @ missing = concat ts @ block" "missing \<noteq> []" "[] \<notin> set part" for part missing
  proof -
    have "still_reading new_attach_client (part @ [missing])" using told [of "part @ [missing]"] that by auto
    then show ?thesis
      unfolding still_reading_def by (metis append_eq_conv_conj length_append_singleton lessI)
  qed
  moreover from told [OF assms(5,6)]
  obtain q where "client_feed new_attach_client reads = put_report (report_attached_session_outcome outcome)
      ((fst (respond new_attach_client ls))\<lparr>at_parser := Some q, at_buffer := []\<rparr>)"
    by blast
  moreover have "client_feed new_attach_client [concat ts] = ((fst (respond new_attach_client ls))\<lparr>at_buffer := []\<rparr>, None)"
    if "concat ts \<noteq> []"
    using client_feed_lines [OF idle(2) ls(1), of "[concat ts]"] that whole idle(3) ls(2) by simp
  ultimately show ?thesis
    by (intro exI [of _ "(fst (respond new_attach_client ls))\<lparr>at_parser := Some q\<rparr>"]) auto
qed

theorem client_reports_outcome_witness:
  "snd (client_feed new_attach_client [''ATTACHED'' @ newline # ''SESSION_OUT'',
      ''COME_BEGIN'' @ newline # ''WORKLOAD EXIT 3'' @ [newline],
      ''INFRASTRUCTURE OK'' @ newline # ''SESSION_OUTCOME_END'' @ [newline]]) = Some 0"
proof -
  define outcome where "outcome = \<lparr>outcome_workload = Some \<lparr>result_kind = Result_Exited, result_value = 3\<rparr>,
       infrastructure_failures = []\<rparr>"
  define block where "block = ''SESSION_OUTCOME_BEGIN'' @ newline # ''WORKLOAD EXIT 3'' @ newline
      # ''INFRASTRUCTURE OK'' @ newline # ''SESSION_OUTCOME_END'' @ [newline]"
  have serial: "serialize_controller_session_outcome outcome = Inr block"
    unfolding outcome_def block_def by code_simp
  have "snd (handle_all (new_control_plane 7 [''a'']) [ControllerAttachedEvent])
    = [[SendControllerTextAction (''ATTACHED'' @ [newline])]]" by code_simp
  then have "set [''ATTACHED'' @ [newline]] \<subseteq> plane_texts 7 [''a''] [ControllerAttachedEvent]"
    by (simp add: plane_texts_def)
  moreover have "concat [''ATTACHED'' @ newline # ''SESSION_OUT'',
      ''COME_BEGIN'' @ newline # ''WORKLOAD EXIT 3'' @ [newline],
      ''INFRASTRUCTURE OK'' @ newline # ''SESSION_OUTCOME_END'' @ [newline]] = concat [''ATTACHED'' @ [newline]] @ block"
    by (simp add: block_def)
  ultimately obtain c1 where "client_feed new_attach_client [''ATTACHED'' @ newline # ''SESSION_OUT'',
      ''COME_BEGIN'' @ newline # ''WORKLOAD EXIT 3'' @ [newline],
      ''INFRASTRUCTURE OK'' @ newline # ''SESSION_OUTCOME_END'' @ [newline]]
    = put_report (report_attached_session_outcome outcome) c1"
    using client_reports_outcome [of 7 "[''ATTACHED'' @ [newline]]" "[''a'']" "[ControllerAttachedEvent]" outcome block
        "[''ATTACHED'' @ newline # ''SESSION_OUT'', ''COME_BEGIN'' @ newline # ''WORKLOAD EXIT 3'' @ [newline],
          ''INFRASTRUCTURE OK'' @ newline # ''SESSION_OUTCOME_END'' @ [newline]]"] serial
    by (auto simp: detached_text_def simp del: client_feed.simps)
  then show ?thesis
    by (simp add: put_report_def report_attached_session_outcome_def outcome_def infrastructure_succeeded_def
        del: client_feed.simps)
qed

end
