(* ===== verification/Lifecycle_Laws.thy ===== *)
theory Lifecycle_Laws
  imports Session_Lifecycle
begin

text \<open>
  What every run of \<open>run_session_lifecycle\<close> guarantees, whatever its adapter does: the order
  of the calls, the stop requests, the reported outcome, and when the loop is sure to end.
\<close>

section \<open>The calls of the loop\<close>

fun loop_call :: "lifecycle_call \<Rightarrow> bool" where
  "loop_call (Called_Wait _ _) = True"
| "loop_call (Called_Request_Stop _ _) = True"
| "loop_call _ = False"

lemma event_step_calls:
  assumes "lifecycle_event_step (traced a) e s (w, l) = Inl (s1, (w1, l1))
    \<or> lifecycle_event_step (traced a) e s (w, l) = Inr (s1, (w1, l1))"
  shows "\<exists>m. l1 = l @ m \<and> events_of m = [] \<and> list_all loop_call m"
proof -
  have "l1 = l \<or> (\<exists>r b. l1 = l @ [Called_Request_Stop r b])"
    using assms
    by (cases "loop_state s")
      (auto simp: lifecycle_event_step_def active_event_def stop_or_break_def Let_def
        split: if_splits prod.splits)
  then show ?thesis
  proof
    assume "l1 = l"
    then show ?thesis by (intro exI [of _ "[]"]) simp
  next
    assume "\<exists>r b. l1 = l @ [Called_Request_Stop r b]"
    then obtain r b where "l1 = l @ [Called_Request_Stop r b]" by blast
    then show ?thesis by (intro exI [of _ "[Called_Request_Stop r b]"]) simp
  qed
qed

definition loop_invariant :: "lifecycle_loop \<Rightarrow> 'w \<times> lifecycle_call list \<Rightarrow> bool" where
  "loop_invariant s wl \<longleftrightarrow>
     (\<exists>mid. snd wl = Called_Begin True # mid \<and> list_all loop_call mid)
     \<and> stop_stage_ok s (stops_of (snd wl)) \<and> failures_ok s (events_of (snd wl))
     \<and> workload_ok (loop_outcome s) (events_of (snd wl))"

definition loop_conclusion :: "lifecycle_loop \<Rightarrow> 'w \<times> lifecycle_call list \<Rightarrow> bool" where
  "loop_conclusion s wl \<longleftrightarrow>
     (\<exists>mid. snd wl = Called_Begin True # mid \<and> list_all loop_call mid)
     \<and> stops_of (snd wl) \<in> {[], [Stop_Terminate], [Stop_Kill], [Stop_Terminate, Stop_Kill]}
     \<and> loop_result_ok s (events_of (snd wl))
     \<and> workload_ok (loop_outcome s) (events_of (snd wl))"

lemma traced_pass:
  "\<exists>e w1 k. lifecycle_pass (traced a) s (w, l) =
     lifecycle_event_step (traced a) e s (w1, l @ [Called_Wait k e])"
  by (auto simp: lifecycle_pass_def split: prod.split)

lemma loop_invariant_pass:
  assumes I: "loop_invariant s (w, l)" and p: "lifecycle_pass (traced a) s (w, l) = Inl (s1, (w1, l1))"
  shows "loop_invariant s1 (w1, l1)"
proof -
  obtain e w2 k where st: "lifecycle_event_step (traced a) e s (w2, l @ [Called_Wait k e]) = Inl (s1, (w1, l1))"
    using traced_pass [of a s w l] p by metis
  from event_step_calls [OF disjI1, OF st] obtain m
    where m: "l1 = (l @ [Called_Wait k e]) @ m" "events_of m = []" "list_all loop_call m" by blast
  show ?thesis
    using I m stop_stage_step [OF _ st] failures_step [OF _ st, of "events_of l"]
      workload_step [OF _ disjI1, OF _ st, of "events_of l"]
    by (auto simp: loop_invariant_def)
qed

lemma loop_invariant_break:
  assumes I: "loop_invariant s (w, l)" and p: "lifecycle_pass (traced a) s (w, l) = Inr (s1, (w1, l1))"
  shows "loop_conclusion s1 (w1, l1)"
proof -
  obtain e w2 k where st: "lifecycle_event_step (traced a) e s (w2, l @ [Called_Wait k e]) = Inr (s1, (w1, l1))"
    using traced_pass [of a s w l] p by metis
  from event_step_calls [OF disjI2, OF st] obtain m
    where m: "l1 = (l @ [Called_Wait k e]) @ m" "events_of m = []" "list_all loop_call m" by blast
  show ?thesis
    using I m stop_stage_break [OF _ st] failures_break [OF _ st, of "events_of l"]
      workload_step [OF _ disjI2, OF _ st, of "events_of l"]
    by (auto simp: loop_invariant_def loop_conclusion_def)
qed

lemma loop_concludes:
  assumes "lifecycle_loop_run (traced a) initial_loop (w, [Called_Begin True]) = Some (s, wl)"
  shows "loop_conclusion s wl"
proof (rule lifecycle_loop_rule [OF assms])
  show "loop_invariant initial_loop (w, [Called_Begin True])"
    by (simp add: loop_invariant_def initial_loop_def empty_outcome_def stop_stage_ok_def
        failures_ok_def workload_ok_def)
  show "loop_invariant s1 w1" if "loop_invariant s w" "lifecycle_pass (traced a) s w = Inl (s1, w1)"
    for s s1 and w w1 :: "'a \<times> lifecycle_call list"
    using loop_invariant_pass that by (metis surj_pair)
  show "loop_conclusion s1 w1" if "loop_invariant s w" "lifecycle_pass (traced a) s w = Inr (s1, w1)"
    for s s1 and w w1 :: "'a \<times> lifecycle_call list"
    using loop_invariant_break that by (metis surj_pair)
qed

section \<open>Whole sessions\<close>

definition session_run ::
  "'w lifecycle_adapter \<Rightarrow> 'w \<Rightarrow> (session_outcome \<times> lifecycle_call list) option" where
  "session_run a w = map_option (\<lambda>(out, _, calls). (out, calls)) (run_session_lifecycle (traced a) (w, []))"

text \<open>The outcome and the calls of a session in terms of those of its loop.\<close>

definition conclusion_failures :: "bool \<Rightarrow> bool \<Rightarrow> infrastructure_failure list" where
  "conclusion_failures reaped finalized =
     (if reaped then [] else [Failure_Launcher_Reaping])
     @ (if finalized then [] else [Failure_Supervisor_Cleanup])"

lemma conclude_traced:
  "\<exists>r f w'. conclude_session (traced a) out (w, l) =
     (let o' = out\<lparr>infrastructure_failures := infrastructure_failures out @ conclusion_failures r f\<rparr>
      in (o', (w', l @ [Called_Reap_Launcher r, Called_Finalize f, Called_Publish o'])))"
  by (auto simp: conclude_session_def conclusion_failures_def push_failure_def Let_def split: prod.split)

definition session_shape ::
  "session_outcome \<Rightarrow> lifecycle_call list \<Rightarrow> bool \<Rightarrow> lifecycle_call list \<Rightarrow> session_outcome \<Rightarrow> bool \<Rightarrow> bool \<Rightarrow> bool" where
  "session_shape out calls started mid loop_out r f \<longleftrightarrow>
     calls = Called_Begin started # mid @ [Called_Reap_Launcher r, Called_Finalize f, Called_Publish out]
     \<and> list_all loop_call mid \<and> (\<not> started \<longrightarrow> mid = [])
     \<and> out = loop_out\<lparr>infrastructure_failures := infrastructure_failures loop_out @ conclusion_failures r f\<rparr>"

lemma session_run_shape:
  assumes "session_run a w = Some (out, calls)"
  obtains started mid loop_out r f where "session_shape out calls started mid loop_out r f"
    "started \<Longrightarrow> (\<exists>s. loop_out = loop_outcome s \<and> loop_result_ok s (events_of mid))
       \<and> workload_ok loop_out (events_of mid)"
    "stops_of mid \<in> {[], [Stop_Terminate], [Stop_Kill], [Stop_Terminate, Stop_Kill]}"
    "\<not> started \<Longrightarrow> loop_out = push_failure Failure_Start empty_outcome"
proof -
  obtain b w1 where b: "adapter_begin a w = (b, w1)" by fastforce
  show thesis
  proof (cases b)
    case False
    let ?o = "push_failure Failure_Start empty_outcome"
    obtain x w' y where fin: "conclude_session (traced a) ?o (w1, [Called_Begin False]) = (x, (w', y))"
      by (metis surj_pair)
    with assms b False have "x = out" "y = calls"
      by (simp_all add: session_run_def run_session_lifecycle_def)
    with fin conclude_traced [of a ?o w1 "[Called_Begin False]"] obtain r f
      where "session_shape out calls False [] ?o r f"
      by (auto simp: session_shape_def Let_def)
    from that [OF this] show thesis by simp
  next
    case True
    from assms b True obtain s w2 l2 where
      loop: "lifecycle_loop_run (traced a) initial_loop (w1, [Called_Begin True]) = Some (s, (w2, l2))"
      by (auto simp: session_run_def run_session_lifecycle_def)
    obtain x w' y where fin': "conclude_session (traced a) (loop_outcome s) (w2, l2) = (x, (w', y))"
      by (metis surj_pair)
    with assms b True loop have "x = out" "y = calls"
      by (simp_all add: session_run_def run_session_lifecycle_def)
    with fin' have fin: "conclude_session (traced a) (loop_outcome s) (w2, l2) = (out, (w', calls))" by simp
    from loop_concludes [OF loop] obtain mid where mid: "l2 = Called_Begin True # mid" "list_all loop_call mid"
      and c: "stops_of mid \<in> {[], [Stop_Terminate], [Stop_Kill], [Stop_Terminate, Stop_Kill]}"
      "loop_result_ok s (events_of mid)" "workload_ok (loop_outcome s) (events_of mid)"
      by (auto simp: loop_conclusion_def)
    from conclude_traced [of a "loop_outcome s" w2 l2] fin mid obtain r f
      where "session_shape out calls True mid (loop_outcome s) r f"
      by (auto simp: session_shape_def Let_def)
    from that [OF this] c show thesis by blast
  qed
qed

section \<open>When the loop ends\<close>

text \<open>
  Whatever the session asks for, the adapter reports within \<open>n\<close> waits that the conversation
  is lost or that cleanup has failed; those two events end the loop in every state.
\<close>

fun ends_within :: "'w lifecycle_adapter \<Rightarrow> nat \<Rightarrow> 'w \<Rightarrow> bool" where
  "ends_within a 0 w = False"
| "ends_within a (Suc n) w =
     list_all (\<lambda>k. case adapter_wait a k w of (e, w1) \<Rightarrow>
         event_kind e = Event_Conversation_Lost \<or> event_kind e = Event_Cleanup_Failed
         \<or> (ends_within a n w1
            \<and> list_all (\<lambda>r. ends_within a n (snd (adapter_request_stop a r w1))) [Stop_Terminate, Stop_Kill]))
       [Wait_Indefinitely, Wait_Five_Seconds]"

lemma event_step_world:
  assumes "lifecycle_event_step a e s w = Inl (s1, w1)"
  shows "w1 = w \<or> (\<exists>r. w1 = snd (adapter_request_stop a r w))"
  using assms
  by (cases "loop_state s"; cases "loop_stage s"; cases "event_kind e")
    (auto simp: lifecycle_event_step_def active_event_def stop_or_break_def Let_def
      split: if_splits prod.splits intro: exI [of _ Stop_Terminate] exI [of _ Stop_Kill])

lemma event_step_final:
  assumes "event_kind e = Event_Conversation_Lost \<or> event_kind e = Event_Cleanup_Failed"
  shows "\<exists>s1. lifecycle_event_step a e s w = Inr (s1, w)"
  using assms by (auto simp: lifecycle_event_step_def)

lemma loop_ends: "ends_within a n w \<Longrightarrow> lifecycle_loop_run a s w \<noteq> None"
proof (induction n arbitrary: s w)
  case 0
  then show ?case by simp
next
  case (Suc n)
  define k where "k = (if deadline_active s then Wait_Five_Seconds else Wait_Indefinitely)"
  obtain e w1 where wait: "adapter_wait a k w = (e, w1)" by fastforce
  have pass: "lifecycle_pass a s w = lifecycle_event_step a e s w1"
    using wait by (simp add: lifecycle_pass_def k_def)
  from Suc.prems wait have next_ok:
    "event_kind e = Event_Conversation_Lost \<or> event_kind e = Event_Cleanup_Failed
     \<or> (ends_within a n w1 \<and> (\<forall>r. ends_within a n (snd (adapter_request_stop a r w1))))"
    by (cases k) (auto, (metis stop_request.exhaust)+)
  show ?case
  proof (cases "lifecycle_event_step a e s w1")
    case (Inr p)
    with pass show ?thesis by (subst lifecycle_loop_run.simps) (simp split: prod.split)
  next
    case (Inl p)
    obtain s2 w2 where p: "p = (s2, w2)" by fastforce
    have "ends_within a n w2"
      using next_ok event_step_final [of e a s w1] event_step_world [of a e s w1 s2 w2] Inl p by auto
    from Suc.IH [OF this, of s2] Inl p pass show ?thesis
      by (subst lifecycle_loop_run.simps) simp
  qed
qed

section \<open>A scripted session\<close>

text \<open>An adapter that reads its events from a list, for evaluation.\<close>

definition scripted :: "lifecycle_event list lifecycle_adapter" where
  "scripted =
     \<lparr>adapter_begin = (\<lambda>es. (True, es)),
      adapter_wait = (\<lambda>k es. case es of
        [] \<Rightarrow> (\<lparr>event_kind = Event_Conversation_Lost, event_value = 0\<rparr>, []) | e # es' \<Rightarrow> (e, es')),
      adapter_request_stop = (\<lambda>r es. (True, es)),
      adapter_reap_launcher = (\<lambda>es. (True, es)),
      adapter_finalize = (\<lambda>es. (True, es)),
      adapter_publish_outcome = (\<lambda>out es. es)\<rparr>"

definition ev :: "lifecycle_event_kind \<Rightarrow> int \<Rightarrow> lifecycle_event" where
  "ev k v = \<lparr>event_kind = k, event_value = v\<rparr>"

definition sample_events :: "lifecycle_event list" where
  "sample_events = [ev Event_Activated 7, ev Event_Stop_Requested 0, ev Event_Deadline_Expired 0,
     ev Event_Workload_Signaled 9, ev Event_Cleanup_Succeeded 0]"

definition sample_outcome :: session_outcome where
  "sample_outcome = \<lparr>outcome_workload = Some \<lparr>result_kind = Result_Signaled, result_value = 9\<rparr>,
     infrastructure_failures = []\<rparr>"

definition sample_calls :: "lifecycle_call list" where
  "sample_calls = [Called_Begin True, Called_Wait Wait_Indefinitely (ev Event_Activated 7),
     Called_Wait Wait_Indefinitely (ev Event_Stop_Requested 0), Called_Request_Stop Stop_Terminate True,
     Called_Wait Wait_Five_Seconds (ev Event_Deadline_Expired 0), Called_Request_Stop Stop_Kill True,
     Called_Wait Wait_Indefinitely (ev Event_Workload_Signaled 9),
     Called_Wait Wait_Indefinitely (ev Event_Cleanup_Succeeded 0),
     Called_Reap_Launcher True, Called_Finalize True, Called_Publish sample_outcome]"

lemma loop_run_unfold:
  "lifecycle_pass a s w = Inl (s1, w1) \<Longrightarrow> lifecycle_loop_run a s w = lifecycle_loop_run a s1 w1"
  "lifecycle_pass a s w = Inr (s1, w1) \<Longrightarrow> lifecycle_loop_run a s w = Some (s1, w1)"
  by (subst lifecycle_loop_run.simps; simp)+

lemma sample_run: "session_run scripted sample_events = Some (sample_outcome, sample_calls)"
  unfolding session_run_def run_session_lifecycle_def sample_events_def
  by (simp add: scripted_def loop_run_unfold lifecycle_pass_def lifecycle_step_defs initial_loop_def
      empty_outcome_def ev_def deadline_active_def sample_calls_def sample_outcome_def conclude_session_def)

section \<open>Properties\<close>

text \<open>
  Every session that ends makes its calls in one order: it starts the helper, waits and
  requests stops only if the start succeeded, then reaps the launcher, finalizes and publishes
  exactly once, and what it publishes is what it returns.
\<close>

theorem session_call_order:
  assumes "session_run a w = Some (out, calls)"
  shows "\<exists>started mid r f. list_all loop_call mid \<and> (\<not> started \<longrightarrow> mid = []) \<and>
    calls = Called_Begin started # mid @ [Called_Reap_Launcher r, Called_Finalize f, Called_Publish out]"
  using assms by (rule session_run_shape) (auto simp: session_shape_def)

theorem session_call_order_witness:
  "\<exists>started mid r f. list_all loop_call mid \<and> (\<not> started \<longrightarrow> mid = []) \<and>
    sample_calls = Called_Begin started # mid @ [Called_Reap_Launcher r, Called_Finalize f, Called_Publish sample_outcome]"
  by (rule session_call_order [OF sample_run])

text \<open>
  A session asks the helper to stop at most twice: not at all, to terminate, to kill, or to
  terminate and then to kill.
\<close>

theorem session_stop_requests:
  assumes "session_run a w = Some (out, calls)"
  shows "stops_of calls \<in> {[], [Stop_Terminate], [Stop_Kill], [Stop_Terminate, Stop_Kill]}"
  using assms by (rule session_run_shape) (auto simp: session_shape_def)

theorem session_stop_requests_witness:
  "stops_of sample_calls \<in> {[], [Stop_Terminate], [Stop_Kill], [Stop_Terminate, Stop_Kill]}"
  by (rule session_stop_requests [OF sample_run])

text \<open>
  C38: a session reports success only when the helper was started, the result of the workload is
  known, the last event was a successful cleanup, and the launcher was reaped and the session
  finalized.
\<close>

theorem session_success_means_clean:
  assumes "session_run a w = Some (out, calls)" and "infrastructure_succeeded out"
  shows "outcome_workload out \<noteq> None
    \<and> (\<exists>mid. calls = Called_Begin True # mid
          @ [Called_Reap_Launcher True, Called_Finalize True, Called_Publish out])
    \<and> events_of calls \<noteq> [] \<and> event_kind (last (events_of calls)) = Event_Cleanup_Succeeded"
  using assms(1)
proof (rule session_run_shape)
  fix started mid loop_out r f
  assume shape: "session_shape out calls started mid loop_out r f"
    and loop: "started \<Longrightarrow> (\<exists>s. loop_out = loop_outcome s \<and> loop_result_ok s (events_of mid))
       \<and> workload_ok loop_out (events_of mid)"
    and no: "\<not> started \<Longrightarrow> loop_out = push_failure Failure_Start empty_outcome"
  from shape assms(2) have fs: "infrastructure_failures loop_out = []" "r" "f"
    by (auto simp: session_shape_def infrastructure_succeeded_def conclusion_failures_def split: if_splits)
  with no have "started" by (cases started) (auto simp: push_failure_def)
  with loop fs shape show ?thesis
    by (auto simp: session_shape_def loop_result_ok_def)
qed

theorem session_success_means_clean_witness:
  "outcome_workload sample_outcome \<noteq> None
    \<and> (\<exists>mid. sample_calls = Called_Begin True # mid
          @ [Called_Reap_Launcher True, Called_Finalize True, Called_Publish sample_outcome])
    \<and> events_of sample_calls \<noteq> [] \<and> event_kind (last (events_of sample_calls)) = Event_Cleanup_Succeeded"
  by (rule session_success_means_clean [OF sample_run])
    (simp add: infrastructure_succeeded_def sample_outcome_def)

text \<open>
  The result a session reports is the one an event of the helper carried: the exit status or
  the signal of the workload, or a failed start with 126 or 127.
\<close>

theorem session_reports_the_workload:
  assumes "session_run a w = Some (out, calls)" and "outcome_workload out = Some r"
  shows "\<exists>e \<in> set (events_of calls). event_value e = result_value r
    \<and> event_kind e = (case result_kind r of Result_Start_Failure \<Rightarrow> Event_Activation_Failed
        | Result_Exited \<Rightarrow> Event_Workload_Exited | Result_Signaled \<Rightarrow> Event_Workload_Signaled)"
  using assms(1)
proof (rule session_run_shape)
  fix started mid loop_out rr f
  assume shape: "session_shape out calls started mid loop_out rr f"
    and loop: "started \<Longrightarrow> (\<exists>s. loop_out = loop_outcome s \<and> loop_result_ok s (events_of mid))
       \<and> workload_ok loop_out (events_of mid)"
    and no: "\<not> started \<Longrightarrow> loop_out = push_failure Failure_Start empty_outcome"
  from shape assms(2) have out: "outcome_workload loop_out = Some r" by (simp add: session_shape_def)
  with no have "started" by (cases started) (auto simp: push_failure_def empty_outcome_def)
  with loop have "workload_ok loop_out (events_of mid)" by blast
  with out obtain e where "e \<in> set (events_of mid)" "event_value e = result_value r"
    "event_kind e = (case result_kind r of Result_Start_Failure \<Rightarrow> Event_Activation_Failed
        | Result_Exited \<Rightarrow> Event_Workload_Exited | Result_Signaled \<Rightarrow> Event_Workload_Signaled)"
    by (cases "result_kind r") (auto simp: workload_ok_def)
  with shape show ?thesis by (auto simp: session_shape_def)
qed

theorem session_reports_the_workload_witness:
  "\<exists>e \<in> set (events_of sample_calls). event_value e = 9 \<and> event_kind e = Event_Workload_Signaled"
  using session_reports_the_workload
    [OF sample_run, of "\<lparr>result_kind = Result_Signaled, result_value = 9\<rparr>"]
  by (simp add: sample_outcome_def)

text \<open>
  C39: a session ends, with an outcome, whenever its adapter reports within a bounded number of
  waits that the conversation is lost or that cleanup has failed.
\<close>

theorem session_ends:
  assumes "ends_within a n (snd (adapter_begin a w))"
  shows "run_session_lifecycle a w \<noteq> None"
proof -
  obtain b w1 where b: "adapter_begin a w = (b, w1)" by fastforce
  with loop_ends [of a n w1 initial_loop] assms show ?thesis
    by (auto simp: run_session_lifecycle_def)
qed

theorem session_ends_witness:
  "run_session_lifecycle scripted [ev Event_Activated 7] \<noteq> None"
  by (rule session_ends [of _ 2]) (simp add: scripted_def ev_def numeral_2_eq_2)

end
