(* ===== verification/Supervisor.thy ===== *)
theory Supervisor
  imports Control_Plane_Laws Conversation_Laws Lifecycle_Laws Outcome_Laws
begin

text \<open>
  The supervisor's side of a running session: \<open>execute_control_plane_actions\<close> of
  \<open>src/control_plane_action_executor.cpp\<close> and \<open>ProductionLifecycleAdapter\<close> of
  \<open>src/session.cpp\<close>, which joins the control plane, the conversation with the helper and
  the sockets. The operating system is a record of functions on an unknown world; a retry of an
  interrupted system call is part of the call. An operation that would use an empty
  \<open>std::optional\<close> has no result (\<open>None\<close>), as the code has no defined behaviour there.
\<close>

section \<open>The operating system\<close>

datatype socket_read = Read_Data string | Read_Closed | Read_Error

text \<open>What \<open>poll\<close> reports of the four descriptors.\<close>

record readiness =
  helper_readable :: bool
  helper_broken :: bool
  listen_readable :: bool
  listen_broken :: bool
  client_readable :: bool
  client_hangup :: bool
  client_broken :: bool
  signal_readable :: bool

datatype poll_outcome = Poll_Timed_Out | Poll_Failed | Poll_Ready readiness

record 'o system =
  sys_read_helper :: "'o \<Rightarrow> socket_read \<times> 'o"
  sys_send_helper :: "string \<Rightarrow> 'o \<Rightarrow> bool \<times> 'o"
  sys_send_descriptors :: "'o \<Rightarrow> bool \<times> 'o"
  sys_read_client :: "'o \<Rightarrow> socket_read \<times> 'o"
  sys_send_client :: "string \<Rightarrow> 'o \<Rightarrow> bool \<times> 'o"
  sys_accept :: "'o \<Rightarrow> bool \<times> 'o"
  sys_reject :: "'o \<Rightarrow> 'o"
  sys_listen :: "'o \<Rightarrow> bool \<times> 'o"
  sys_interrupts :: "'o \<Rightarrow> nat \<times> 'o"
  sys_now :: "'o \<Rightarrow> int \<times> 'o"
  sys_poll :: "int \<Rightarrow> bool \<Rightarrow> bool \<Rightarrow> 'o \<Rightarrow> poll_outcome \<times> 'o"

section \<open>Carrying out the actions of the control plane\<close>

record 'o exec =
  ex_plane :: control_plane
  ex_client :: bool
  ex_conversation :: supervisor_conversation
  ex_world :: 'o

definition lifecycle_event_of :: "lifecycle_event_kind \<Rightarrow> int \<Rightarrow> lifecycle_event" where
  "lifecycle_event_of kind v = \<lparr>event_kind = kind, event_value = v\<rparr>"

fun execute_control_plane_actions ::
  "'o system \<Rightarrow> control_plane_action list \<Rightarrow> 'o exec \<Rightarrow> lifecycle_event list \<times> 'o exec" where
  "execute_control_plane_actions sys [] x = ([], x)"
| "execute_control_plane_actions sys (RequestLifecycleStopAction # acts) x =
     (case execute_control_plane_actions sys acts x of
        (events, y) \<Rightarrow> (lifecycle_event_of Event_Stop_Requested 0 # events, y))"
| "execute_control_plane_actions sys (SendControllerTextAction text # acts) x =
     (let (sent, w) = (if ex_client x then sys_send_client sys text (ex_world x) else (False, ex_world x))
      in if \<not> sent then
           ([], x\<lparr>ex_client := False, ex_world := w,
                  ex_plane := fst (handle (ex_plane x) ControllerWriteFailedEvent)\<rparr>)
         else execute_control_plane_actions sys acts (x\<lparr>ex_world := w\<rparr>))"
| "execute_control_plane_actions sys (DisconnectControllerAction # acts) x =
     execute_control_plane_actions sys acts (x\<lparr>ex_client := False\<rparr>)"
| "execute_control_plane_actions sys (FailSessionForUnknownProfileStateAction # acts) x =
     (case execute_control_plane_actions sys acts x of
        (events, y) \<Rightarrow> (lifecycle_event_of Event_Profile_State_Unknown 0 # events, y))"
| "execute_control_plane_actions sys (DispatchProfileChangeAction change # acts) x =
     (case begin_profile_change (ex_conversation x) change of
        (conversation, None) \<Rightarrow>
          ([lifecycle_event_of Event_Conversation_Lost 0], x\<lparr>ex_conversation := conversation\<rparr>)
      | (conversation, Some frame) \<Rightarrow>
          (case sys_send_helper sys frame (ex_world x) of
             (sent, w) \<Rightarrow>
               (if \<not> sent then
                  ([lifecycle_event_of Event_Conversation_Lost 0],
                   x\<lparr>ex_conversation := conversation, ex_world := w\<rparr>)
                else execute_control_plane_actions sys acts
                       (x\<lparr>ex_conversation := conversation, ex_world := w\<rparr>))))"

section \<open>The lifecycle adapter of a session\<close>

record 'o session_adapter =
  ad_start_block :: string
  ad_child_arguments :: "string list"
  ad_conversation :: supervisor_conversation
  ad_pending_events :: "lifecycle_event list"
  ad_client :: bool
  ad_control_plane :: "control_plane option"
  ad_deadline :: "int option"
  ad_listening :: bool
  ad_workload_pid :: int
  ad_activated :: bool
  ad_workload_finished :: bool
  ad_world :: 'o

definition new_session_adapter :: "string \<Rightarrow> string list \<Rightarrow> 'o \<Rightarrow> 'o session_adapter" where
  "new_session_adapter start_block child_arguments w =
     \<lparr>ad_start_block = start_block, ad_child_arguments = child_arguments,
      ad_conversation = new_supervisor_conversation, ad_pending_events = [], ad_client = False,
      ad_control_plane = None, ad_deadline = None, ad_listening = False, ad_workload_pid = 0,
      ad_activated = False, ad_workload_finished = False, ad_world = w\<rparr>"

fun map_helper_event :: "helper_conversation_event \<Rightarrow> lifecycle_event" where
  "map_helper_event (ActivatedEvent pid) = lifecycle_event_of Event_Activated pid"
| "map_helper_event (ActivationFailedEvent r) = lifecycle_event_of Event_Activation_Failed r"
| "map_helper_event (WorkloadExitedEvent r) = lifecycle_event_of Event_Workload_Exited r"
| "map_helper_event (WorkloadSignaledEvent n) = lifecycle_event_of Event_Workload_Signaled n"
| "map_helper_event CleanupSucceededEvent = lifecycle_event_of Event_Cleanup_Succeeded 0"
| "map_helper_event CleanupFailedEvent = lifecycle_event_of Event_Cleanup_Failed 0"
| "map_helper_event _ = lifecycle_event_of Event_Conversation_Lost 0"

definition push_event :: "lifecycle_event_kind \<Rightarrow> 'o session_adapter \<Rightarrow> 'o session_adapter" where
  "push_event kind s =
     s\<lparr>ad_pending_events := ad_pending_events s @ [lifecycle_event_of kind 0]\<rparr>"

text \<open>\<open>begin()\<close>: one pass of its loop, then the loop.\<close>

definition begin_pass :: "'o system \<Rightarrow> 'o session_adapter \<Rightarrow> 'o session_adapter + bool \<times> 'o session_adapter" where
  "begin_pass sys s =
     (case sys_read_helper sys (ad_world s) of
        (Read_Error, w) \<Rightarrow> Inr (False, s\<lparr>ad_world := w\<rparr>)
      | (result, w) \<Rightarrow>
          (let (conversation, events) =
             (case result of
                Read_Data bytes \<Rightarrow> supervisor_receive_bytes (ad_conversation s) bytes
              | _ \<Rightarrow> supervisor_peer_closed (ad_conversation s));
             s1 = s\<lparr>ad_world := w, ad_conversation := conversation\<rparr>
           in if events = [] then Inl s1
              else if length events \<noteq> 1 \<or> hd events \<noteq> ReadyEvent then Inr (False, s1)
              else case sys_send_descriptors sys w of
                (descriptors_sent, w1) \<Rightarrow>
                  (if \<not> descriptors_sent then Inr (False, s1\<lparr>ad_world := w1\<rparr>)
                   else case sys_send_helper sys (ad_start_block s) w1 of
                     (block_sent, w2) \<Rightarrow> Inr (block_sent, s1\<lparr>ad_world := w2\<rparr>))))"

definition session_begin :: "'o system \<Rightarrow> 'o session_adapter \<Rightarrow> (bool \<times> 'o session_adapter) option" where
  "session_begin sys = iterate (begin_pass sys)"

text \<open>\<open>execute_control_actions\<close>: needs the control plane.\<close>

definition execute_control_actions ::
  "'o system \<Rightarrow> control_plane_event \<Rightarrow> 'o session_adapter \<Rightarrow> 'o session_adapter option" where
  "execute_control_actions sys event s =
     (case ad_control_plane s of
        None \<Rightarrow> None
      | Some plane \<Rightarrow>
          (case handle plane event of
             (plane1, actions) \<Rightarrow>
               (case execute_control_plane_actions sys actions
                       \<lparr>ex_plane = plane1, ex_client = ad_client s,
                        ex_conversation = ad_conversation s, ex_world = ad_world s\<rparr> of
                  (events, x) \<Rightarrow>
                    Some (s\<lparr>ad_control_plane := Some (ex_plane x), ad_client := ex_client x,
                            ad_conversation := ex_conversation x, ad_world := ex_world x,
                            ad_pending_events := ad_pending_events s @ events\<rparr>))))"

definition plane_result :: "profile_change_result \<Rightarrow> control_plane_result" where
  "plane_result r = (if r = Result_Applied then Change_Applied else Change_Restored_After_Failure)"

text \<open>One event of the helper (the loop body of \<open>read_helper_events\<close>).\<close>

definition handle_helper_event ::
  "'o system \<Rightarrow> helper_conversation_event \<Rightarrow> 'o session_adapter \<Rightarrow> 'o session_adapter option" where
  "handle_helper_event sys event s =
     (case event of
        ReadyEvent \<Rightarrow> Some (push_event Event_Conversation_Lost s)
      | ActivatedEvent pid \<Rightarrow>
          (let s1 = s\<lparr>ad_workload_pid := pid,
                 ad_control_plane := Some (new_control_plane pid (ad_child_arguments s))\<rparr>
           in case sys_listen sys (ad_world s1) of
                (ok, w) \<Rightarrow>
                  (let s2 = s1\<lparr>ad_world := w\<rparr>
                   in if \<not> ok then Some (push_event Event_Conversation_Lost s2)
                      else Some (s2\<lparr>ad_listening := True, ad_activated := True,
                             ad_pending_events := ad_pending_events s2 @ [map_helper_event event]\<rparr>)))
      | ProfileChangeResultEvent result change \<Rightarrow>
          execute_control_actions sys (HelperProfileChangeResultEvent (plane_result result) change) s
      | ProfileStateUnknownEvent \<Rightarrow> execute_control_actions sys HelperProfileStateUnknownEvent s
      | _ \<Rightarrow>
          (let finished = (\<exists>r. event = WorkloadExitedEvent r \<or> event = WorkloadSignaledEvent r)
           in case (if finished then execute_control_actions sys WorkloadTerminalEvent s else Some s) of
                None \<Rightarrow> None
              | Some s1 \<Rightarrow>
                  (let s2 = (if finished
                             then s1\<lparr>ad_workload_finished := True, ad_activated := False\<rparr> else s1)
                   in Some (s2\<lparr>ad_pending_events := ad_pending_events s2 @ [map_helper_event event]\<rparr>))))"

fun handle_helper_events ::
  "'o system \<Rightarrow> helper_conversation_event list \<Rightarrow> 'o session_adapter \<Rightarrow> 'o session_adapter option" where
  "handle_helper_events sys [] s = Some s"
| "handle_helper_events sys (event # events) s =
     Option.bind (handle_helper_event sys event s) (handle_helper_events sys events)"

definition read_helper_events :: "'o system \<Rightarrow> 'o session_adapter \<Rightarrow> 'o session_adapter option" where
  "read_helper_events sys s =
     (case sys_read_helper sys (ad_world s) of
        (Read_Error, w) \<Rightarrow> Some (push_event Event_Conversation_Lost (s\<lparr>ad_world := w\<rparr>))
      | (Read_Data bytes, w) \<Rightarrow>
          (case supervisor_receive_bytes (ad_conversation s) bytes of
             (conversation, events) \<Rightarrow>
               handle_helper_events sys events (s\<lparr>ad_world := w, ad_conversation := conversation\<rparr>))
      | (Read_Closed, w) \<Rightarrow>
          (case supervisor_peer_closed (ad_conversation s) of
             (conversation, events) \<Rightarrow>
               handle_helper_events sys events (s\<lparr>ad_world := w, ad_conversation := conversation\<rparr>)))"

section \<open>Waiting for the next lifecycle event\<close>

fun repeat_interrupt :: "'o system \<Rightarrow> nat \<Rightarrow> 'o session_adapter \<Rightarrow> 'o session_adapter option" where
  "repeat_interrupt sys 0 s = Some s"
| "repeat_interrupt sys (Suc n) s =
     Option.bind
       (if ad_control_plane s \<noteq> None then execute_control_actions sys SessionStoppingEvent s else Some s)
       (\<lambda>t. repeat_interrupt sys n (push_event Event_Terminal_Interrupt t))"

definition take_interrupts :: "'o system \<Rightarrow> 'o session_adapter \<Rightarrow> 'o session_adapter option" where
  "take_interrupts sys s =
     (case sys_interrupts sys (ad_world s) of
        (count, w) \<Rightarrow>
          (let s1 = s\<lparr>ad_world := w\<rparr>
           in if \<not> ad_workload_finished s1 then repeat_interrupt sys count s1 else Some s1))"

text \<open>\<open>accept_controller\<close>; its failure is turned into a lost conversation by the caller.\<close>

definition accept_controller :: "'o system \<Rightarrow> 'o session_adapter \<Rightarrow> 'o session_adapter option" where
  "accept_controller sys s =
     (if \<not> ad_listening s then None
      else case sys_accept sys (ad_world s) of
        (accepted, w) \<Rightarrow>
          (let s1 = s\<lparr>ad_world := w\<rparr>
           in if \<not> accepted then Some (push_event Event_Conversation_Lost s1)
              else if ad_client s1 then Some (s1\<lparr>ad_world := sys_reject sys w\<rparr>)
              else execute_control_actions sys ControllerAttachedEvent (s1\<lparr>ad_client := True\<rparr>)))"

definition lose_controller :: "'o session_adapter \<Rightarrow> 'o session_adapter option" where
  "lose_controller s =
     map_option
       (\<lambda>plane. push_event Event_Controller_Lost
          (s\<lparr>ad_control_plane := Some (fst (handle plane ControllerDisconnectedEvent)), ad_client := False\<rparr>))
       (ad_control_plane s)"

text \<open>
  The reads of one readable controller: one read, or, when it has hung up, reads until the data
  ends. \<open>Some None\<close> is a run of reads that has not ended within the fuel; the operating system
  holds finitely many bytes of a closed peer, so some fuel is enough.
\<close>

fun read_client :: "'o system \<Rightarrow> nat \<Rightarrow> bool \<Rightarrow> 'o session_adapter
    \<Rightarrow> (bool \<times> 'o session_adapter) option option" where
  "read_client sys 0 drain s = Some None"
| "read_client sys (Suc fuel) drain s =
     (if \<not> ad_client s then None
      else case sys_read_client sys (ad_world s) of
        (Read_Data bytes, w) \<Rightarrow>
          (case execute_control_actions sys (ControllerBytesReceivedEvent bytes) (s\<lparr>ad_world := w\<rparr>) of
             None \<Rightarrow> None
           | Some t \<Rightarrow>
               (if ad_client t \<and> drain then read_client sys fuel drain t else Some (Some (True, t))))
      | (_, w) \<Rightarrow> Some (Some (False, s\<lparr>ad_world := w\<rparr>)))"

definition serve_client ::
  "'o system \<Rightarrow> nat \<Rightarrow> readiness \<Rightarrow> 'o session_adapter \<Rightarrow> 'o session_adapter option option" where
  "serve_client sys fuel ready s =
     (if \<not> ad_workload_finished s \<and> ad_client s \<and> client_readable ready then
        (case read_client sys fuel (client_hangup ready) s of
           None \<Rightarrow> None
         | Some None \<Rightarrow> Some None
         | Some (Some (received, t)) \<Rightarrow>
             (if ad_client t \<and> \<not> received then map_option Some (lose_controller t) else Some (Some t)))
      else Some (Some s))"

definition push_if :: "bool \<Rightarrow> lifecycle_event_kind \<Rightarrow> 'o session_adapter \<Rightarrow> 'o session_adapter" where
  "push_if b kind s = (if b then push_event kind s else s)"

text \<open>
  The body of the loop after \<open>poll\<close>. The readiness of a descriptor that was not open when
  \<open>poll\<close> was called is empty.
\<close>

definition poll_pass ::
  "'o system \<Rightarrow> nat \<Rightarrow> readiness \<Rightarrow> 'o session_adapter \<Rightarrow> 'o session_adapter option option" where
  "poll_pass sys fuel polled s0 =
     (let ready = polled\<lparr>listen_readable := listen_readable polled \<and> ad_listening s0,
                         listen_broken := listen_broken polled \<and> ad_listening s0,
                         client_readable := client_readable polled \<and> ad_client s0,
                         client_hangup := client_hangup polled \<and> ad_client s0,
                         client_broken := client_broken polled \<and> ad_client s0\<rparr>
      in case (if helper_readable ready then read_helper_events sys s0 else Some s0) of
        None \<Rightarrow> None
      | Some s1 \<Rightarrow>
          (case (if signal_readable ready
                 then take_interrupts sys (push_if (helper_broken ready) Event_Conversation_Lost s1)
                 else Some (push_if (helper_broken ready) Event_Conversation_Lost s1)) of
             None \<Rightarrow> None
           | Some s2 \<Rightarrow>
               (case (if ad_activated s2 \<and> listen_readable ready then accept_controller sys s2
                      else Some s2) of
                  None \<Rightarrow> None
                | Some s3 \<Rightarrow>
                    (case serve_client sys fuel ready
                            (push_if (listen_broken ready) Event_Conversation_Lost s3) of
                       None \<Rightarrow> None
                     | Some None \<Rightarrow> Some None
                     | Some (Some s4) \<Rightarrow>
                         (if ad_client s4 \<and> (client_hangup ready \<or> client_broken ready)
                          then map_option Some (lose_controller s4) else Some (Some s4))))))"

text \<open>
  One pass of the loop of \<open>wait\<close>: \<open>Inr\<close> is the event it returns, \<open>Inl\<close> another
  pass. Times are in nanoseconds.
\<close>

definition take_pending_event :: "'o session_adapter \<Rightarrow> lifecycle_event \<times> 'o session_adapter" where
  "take_pending_event s =
     (hd (ad_pending_events s), s\<lparr>ad_pending_events := tl (ad_pending_events s)\<rparr>)"

definition expire_deadline :: "'o session_adapter \<Rightarrow> lifecycle_event \<times> 'o session_adapter" where
  "expire_deadline s = (lifecycle_event_of Event_Deadline_Expired 0, s\<lparr>ad_deadline := None\<rparr>)"

definition wait_pass ::
  "'o system \<Rightarrow> nat \<Rightarrow> 'o session_adapter
     \<Rightarrow> ('o session_adapter + lifecycle_event \<times> 'o session_adapter) option option" where
  "wait_pass sys fuel s =
     (let (timeout, w) =
        (case ad_deadline s of
           None \<Rightarrow> (- 1, ad_world s)
         | Some deadline \<Rightarrow>
             (case sys_now sys (ad_world s) of (now, w) \<Rightarrow> ((deadline - now) div 1000000, w)));
          s1 = s\<lparr>ad_world := w\<rparr>
      in if ad_deadline s \<noteq> None \<and> timeout \<le> 0 then Some (Some (Inr (expire_deadline s1)))
         else case sys_poll sys timeout (ad_listening s1) (ad_client s1) w of
           (Poll_Timed_Out, w1) \<Rightarrow> Some (Some (Inr (expire_deadline (s1\<lparr>ad_world := w1\<rparr>))))
         | (Poll_Failed, w1) \<Rightarrow>
             Some (Some (Inr (lifecycle_event_of Event_Conversation_Lost 0, s1\<lparr>ad_world := w1\<rparr>)))
         | (Poll_Ready ready, w1) \<Rightarrow>
             (case poll_pass sys fuel ready (s1\<lparr>ad_world := w1\<rparr>) of
                None \<Rightarrow> None
              | Some None \<Rightarrow> Some None
              | Some (Some s2) \<Rightarrow>
                  (if ad_pending_events s2 \<noteq> [] then Some (Some (Inr (take_pending_event s2)))
                   else Some (Some (Inl s2)))))"

definition arm_deadline :: "'o system \<Rightarrow> lifecycle_wait \<Rightarrow> 'o session_adapter \<Rightarrow> 'o session_adapter" where
  "arm_deadline sys wait_mode s =
     (if wait_mode = Wait_Indefinitely then s\<lparr>ad_deadline := None\<rparr>
      else if ad_deadline s = None then
        (case sys_now sys (ad_world s) of
           (now, w) \<Rightarrow> s\<lparr>ad_deadline := Some (now + 5000000000), ad_world := w\<rparr>)
      else s)"

text \<open>\<open>request_stop\<close> and \<open>publish_outcome\<close>.\<close>

definition session_request_stop :: "'o system \<Rightarrow> stop_request \<Rightarrow> 'o session_adapter \<Rightarrow> bool \<times> 'o session_adapter" where
  "session_request_stop sys request s =
     (case sys_send_helper sys
             (helper_runtime_command_message
                (if request = Stop_Terminate then StopTerminateCommand else StopKillCommand))
             (ad_world s) of
        (sent, w) \<Rightarrow> (sent, s\<lparr>ad_world := w\<rparr>))"

definition session_publish_outcome :: "'o system \<Rightarrow> session_outcome \<Rightarrow> 'o session_adapter \<Rightarrow> 'o session_adapter" where
  "session_publish_outcome sys outcome s =
     (let w = (if ad_client s then
                 (case serialize_controller_session_outcome outcome of
                    Inr block \<Rightarrow> snd (sys_send_client sys block (ad_world s))
                  | Inl _ \<Rightarrow> ad_world s)
               else ad_world s)
      in s\<lparr>ad_client := False, ad_control_plane := None, ad_world := w\<rparr>)"

text \<open>
  \<open>wait\<close>: no value while the loop has not returned, \<open>Some None\<close> when a pass uses an empty
  optional. A pass whose reads of the controller do not end is a loop that does not return.
\<close>

definition wait_body ::
  "'o system \<Rightarrow> nat \<Rightarrow> 'o session_adapter
     \<Rightarrow> 'o session_adapter + (lifecycle_event \<times> 'o session_adapter) option" where
  "wait_body sys fuel s =
     (case wait_pass sys fuel s of
        None \<Rightarrow> Inr None
      | Some None \<Rightarrow> Inl s
      | Some (Some (Inl t)) \<Rightarrow> Inl t
      | Some (Some (Inr r)) \<Rightarrow> Inr (Some r))"

definition session_wait ::
  "'o system \<Rightarrow> nat \<Rightarrow> lifecycle_wait \<Rightarrow> 'o session_adapter
     \<Rightarrow> (lifecycle_event \<times> 'o session_adapter) option option" where
  "session_wait sys fuel wait_mode s =
     (if ad_pending_events s \<noteq> [] then Some (Some (take_pending_event s))
      else iterate (wait_body sys fuel) (arm_deadline sys wait_mode s))"

end
