(* ===== verification/Supervisor_Laws.thy ===== *)
theory Supervisor_Laws
  imports Supervisor
begin

text \<open>
  What the supervisor's adapter guarantees: it never uses an optional it has not filled, its
  controller is attached in the control plane exactly while it holds a connection, and what
  happens to a change that is handed over.
\<close>

section \<open>No empty optional is used\<close>

definition live_state :: "supervisor_state \<Rightarrow> bool" where
  "live_state st \<longleftrightarrow> st = Active \<or> st = Profile_State_Unknown"

text \<open>
  The invariant, for the state \<open>st\<close> of the protocol after the helper events handled so far.
\<close>

definition adapter_inv :: "supervisor_state \<Rightarrow> 'o session_adapter \<Rightarrow> bool" where
  "adapter_inv st s \<longleftrightarrow>
     (live_state st \<longrightarrow> ad_control_plane s \<noteq> None)
     \<and> (ad_client s \<longrightarrow> ad_control_plane s \<noteq> None)
     \<and> (ad_activated s \<longrightarrow> ad_control_plane s \<noteq> None \<and> ad_listening s)"

definition conversation_state :: "'o session_adapter \<Rightarrow> supervisor_state" where
  "conversation_state s = su_state (ad_conversation s)"

lemma begin_profile_change_state [simp]: "su_state (fst (begin_profile_change c d)) = su_state c"
  by (simp add: begin_profile_change_def Let_def)

lemma execute_state:
  "su_state (ex_conversation (snd (execute_control_plane_actions sys acts x))) = su_state (ex_conversation x)
   \<and> (ex_client (snd (execute_control_plane_actions sys acts x)) \<longrightarrow> ex_client x)"
proof (induction sys acts x rule: execute_control_plane_actions.induct)
  case (6 sys change acts x)
  obtain c f where b: "begin_profile_change (ex_conversation x) change = (c, f)" by fastforce
  then have c: "su_state c = su_state (ex_conversation x)"
    using begin_profile_change_state [of "ex_conversation x" change] by simp
  show ?case
  proof (cases f)
    case None
    with b c show ?thesis by simp
  next
    case (Some frame)
    obtain sent w where "sys_send_helper sys frame (ex_world x) = (sent, w)" by fastforce
    with "6.IH" [OF b [symmetric] Some this [symmetric]] b c Some show ?thesis by simp
  qed
qed (auto simp: Let_def split: prod.splits if_splits)

lemma execute_control_actions_total:
  assumes "ad_control_plane s \<noteq> None"
  obtains t where "execute_control_actions sys e s = Some t"
    "ad_control_plane t \<noteq> None" "ad_client t \<longrightarrow> ad_client s" "ad_activated t = ad_activated s"
    "ad_listening t = ad_listening s" "conversation_state t = conversation_state s"
    "ad_workload_finished t = ad_workload_finished s"
proof -
  obtain plane where plane: "ad_control_plane s = Some plane" using assms by auto
  obtain plane1 acts where h: "handle plane e = (plane1, acts)" by fastforce
  define x where "x = \<lparr>ex_plane = plane1, ex_client = ad_client s, ex_conversation = ad_conversation s,
    ex_world = ad_world s\<rparr>"
  obtain events y where y: "execute_control_plane_actions sys acts x = (events, y)" by fastforce
  from execute_state [of sys acts x]
  have y': "su_state (ex_conversation y) = su_state (ad_conversation s)" "ex_client y \<longrightarrow> ad_client s"
    unfolding y by (simp_all add: x_def)
  have r: "execute_control_actions sys e s =
      Some (s\<lparr>ad_control_plane := Some (ex_plane y), ad_client := ex_client y,
              ad_conversation := ex_conversation y, ad_world := ex_world y,
              ad_pending_events := ad_pending_events s @ events\<rparr>)"
    by (simp add: execute_control_actions_def plane h y [unfolded x_def])
  show thesis
    by (rule that [OF r]) (use y' in \<open>simp_all add: conversation_state_def\<close>)
qed

text \<open>What one step may do to the adapter while the invariant holds.\<close>

definition steps_to :: "supervisor_state \<Rightarrow> 'o session_adapter \<Rightarrow> 'o session_adapter option \<Rightarrow> bool" where
  "steps_to st s r \<longleftrightarrow> (\<exists>t. r = Some t \<and> adapter_inv st t \<and> conversation_state t = conversation_state s)"

lemma steps_to_Some: "steps_to st s (Some t) \<longleftrightarrow> adapter_inv st t \<and> conversation_state t = conversation_state s"
  by (simp add: steps_to_def)

lemma adapter_inv_updates [simp]:
  "adapter_inv st (push_event k s) = adapter_inv st s"
  "adapter_inv st (s\<lparr>ad_pending_events := es\<rparr>) = adapter_inv st s"
  "adapter_inv st (s\<lparr>ad_world := w\<rparr>) = adapter_inv st s"
  "adapter_inv st (s\<lparr>ad_deadline := d\<rparr>) = adapter_inv st s"
  "adapter_inv st (s\<lparr>ad_conversation := c\<rparr>) = adapter_inv st s"
  by (simp_all add: adapter_inv_def push_event_def)

lemma conversation_state_updates [simp]:
  "conversation_state (push_event k s) = conversation_state s"
  "conversation_state (s\<lparr>ad_pending_events := es\<rparr>) = conversation_state s"
  "conversation_state (s\<lparr>ad_world := w\<rparr>) = conversation_state s"
  "conversation_state (s\<lparr>ad_deadline := d\<rparr>) = conversation_state s"
  "conversation_state (s\<lparr>ad_client := b\<rparr>) = conversation_state s"
  "conversation_state (s\<lparr>ad_control_plane := p\<rparr>) = conversation_state s"
  by (simp_all add: conversation_state_def push_event_def)

lemma push_if_simps [simp]:
  "adapter_inv st (push_if b k s) = adapter_inv st s"
  "conversation_state (push_if b k s) = conversation_state s"
  by (simp_all add: push_if_def)

lemma execute_steps:
  assumes "adapter_inv st s" "ad_control_plane s \<noteq> None"
  shows "steps_to st s (execute_control_actions sys e s)"
proof -
  obtain t where "execute_control_actions sys e s = Some t" "ad_control_plane t \<noteq> None"
    "ad_client t \<longrightarrow> ad_client s" "ad_activated t = ad_activated s"
    "ad_listening t = ad_listening s" "conversation_state t = conversation_state s"
    using execute_control_actions_total [OF assms(2)] by metis
  with assms(1) show ?thesis by (auto simp: steps_to_def adapter_inv_def)
qed

lemma helper_event_steps:
  assumes step: "event_step st e st'" and inv: "adapter_inv st s"
  shows "steps_to st' s (handle_helper_event sys e s)"
proof (cases e)
  case (ActivatedEvent pid)
  obtain ok w where "sys_listen sys (ad_world s) = (ok, w)" by fastforce
  with inv show ?thesis
    by (simp add: handle_helper_event_def ActivatedEvent steps_to_Some Let_def)
       (simp add: adapter_inv_def conversation_state_def push_event_def)
next
  case (ProfileChangeResultEvent r c)
  with step have st: "st = Active" "st' = Active" by (auto elim: event_step.cases)
  with inv have "ad_control_plane s \<noteq> None" by (simp add: adapter_inv_def live_state_def)
  with inv st show ?thesis by (simp add: handle_helper_event_def ProfileChangeResultEvent execute_steps)
next
  case ProfileStateUnknownEvent
  with step have st: "st = Active" "st' = Profile_State_Unknown" by (auto elim: event_step.cases)
  with inv have p: "ad_control_plane s \<noteq> None" "adapter_inv st' s"
    by (simp_all add: adapter_inv_def live_state_def)
  then show ?thesis by (simp add: handle_helper_event_def ProfileStateUnknownEvent execute_steps)
next
  case (WorkloadExitedEvent r)
  with step have st: "live_state st" "st' = Waiting_For_Cleanup"
    by (auto elim: event_step.cases simp: live_state_def)
  with inv have p: "ad_control_plane s \<noteq> None" by (auto simp: adapter_inv_def)
  with inv have p: "ad_control_plane s \<noteq> None" "adapter_inv st' s" by (simp_all add: adapter_inv_def)
  from execute_steps [OF p(2,1), of sys WorkloadTerminalEvent] show ?thesis
    by (auto simp: handle_helper_event_def WorkloadExitedEvent steps_to_def adapter_inv_def
        conversation_state_def)
next
  case (WorkloadSignaledEvent r)
  with step have st: "live_state st" "st' = Waiting_For_Cleanup"
    by (auto elim: event_step.cases simp: live_state_def)
  with inv have p: "ad_control_plane s \<noteq> None" by (auto simp: adapter_inv_def)
  with inv have p: "ad_control_plane s \<noteq> None" "adapter_inv st' s" by (simp_all add: adapter_inv_def)
  from execute_steps [OF p(2,1), of sys WorkloadTerminalEvent] show ?thesis
    by (auto simp: handle_helper_event_def WorkloadSignaledEvent steps_to_def adapter_inv_def
        conversation_state_def)
next
  case ReadyEvent
  with step have "\<not> live_state st'" by (auto elim: event_step.cases simp: live_state_def)
  with inv have "adapter_inv st' s" by (simp add: adapter_inv_def)
  with ReadyEvent show ?thesis by (simp add: handle_helper_event_def steps_to_Some)
qed (use step inv in \<open>auto elim!: event_step.cases simp: handle_helper_event_def steps_to_Some
    adapter_inv_def live_state_def conversation_state_def\<close>)

lemma helper_events_steps:
  "event_path st es st' \<Longrightarrow> adapter_inv st s \<Longrightarrow> steps_to st' s (handle_helper_events sys es s)"
proof (induction es arbitrary: st s)
  case Nil
  then show ?case by (simp add: steps_to_Some)
next
  case (Cons e es)
  from Cons.prems(1) obtain u where u: "event_step st e u" "event_path u es st'" by auto
  from helper_event_steps [OF u(1) Cons.prems(2)] obtain t where
    t: "handle_helper_event sys e s = Some t" "adapter_inv u t" "conversation_state t = conversation_state s"
    by (auto simp: steps_to_def)
  from Cons.IH [OF u(2) t(2)] t show ?case by (simp add: steps_to_def)
qed

lemma read_helper_steps:
  assumes "adapter_inv (conversation_state s) s"
  shows "\<exists>t. read_helper_events sys s = Some t \<and> adapter_inv (conversation_state t) t"
proof -
  obtain r w where r: "sys_read_helper sys (ad_world s) = (r, w)" by fastforce
  have go: "\<exists>t. handle_helper_events sys es (s\<lparr>ad_world := w, ad_conversation := c\<rparr>) = Some t
      \<and> adapter_inv (conversation_state t) t" if "event_path (conversation_state s) es (su_state c)" for c es
    using helper_events_steps [OF that, of "s\<lparr>ad_world := w, ad_conversation := c\<rparr>" sys] assms
    by (auto simp: steps_to_def conversation_state_def)
  show ?thesis
  proof (cases r)
    case (Read_Data b)
    obtain c es where "supervisor_receive_bytes (ad_conversation s) b = (c, es)" by fastforce
    with go [of es c] supervisor_receive_path [OF this] r Read_Data show ?thesis
      by (simp add: read_helper_events_def conversation_state_def)
  next
    case Read_Closed
    obtain c es where p: "supervisor_peer_closed (ad_conversation s) = (c, es)" by fastforce
    then have "event_path (conversation_state s) es (su_state c)"
      using supervisor_input_path [of "ad_conversation s" Peer_Closed c es] by (simp add: conversation_state_def)
    with go [of es c] p r Read_Closed show ?thesis by (simp add: read_helper_events_def)
  next
    case Read_Error
    with r assms show ?thesis by (simp add: read_helper_events_def)
  qed
qed


definition inv_kept :: "'o session_adapter option \<Rightarrow> bool" where
  "inv_kept r \<longleftrightarrow> (\<exists>t. r = Some t \<and> adapter_inv (conversation_state t) t)"

lemma inv_kept_Some: "inv_kept (Some t) = adapter_inv (conversation_state t) t"
  by (simp add: inv_kept_def)

lemma steps_to_kept: "steps_to (conversation_state s) s r \<Longrightarrow> inv_kept r"
  by (auto simp: steps_to_def inv_kept_def)

lemma repeat_interrupt_kept:
  "adapter_inv (conversation_state s) s \<Longrightarrow> inv_kept (repeat_interrupt sys n s)"
proof (induction n arbitrary: s)
  case 0
  then show ?case by (simp add: inv_kept_Some)
next
  case (Suc n)
  show ?case
  proof (cases "ad_control_plane s")
    case None
    with Suc show ?thesis by simp
  next
    case (Some p)
    with execute_steps [OF Suc.prems, of sys SessionStoppingEvent] obtain t
      where t: "execute_control_actions sys SessionStoppingEvent s = Some t"
        "adapter_inv (conversation_state t) t" by (auto simp: steps_to_def)
    from Suc.IH [of "push_event Event_Terminal_Interrupt t"] t Some show ?thesis by simp
  qed
qed

lemma take_interrupts_kept:
  "adapter_inv (conversation_state s) s \<Longrightarrow> inv_kept (take_interrupts sys s)"
  by (simp add: take_interrupts_def Let_def repeat_interrupt_kept inv_kept_Some split: prod.split)

lemma accept_controller_kept:
  assumes inv: "adapter_inv (conversation_state s) s" and act: "ad_activated s"
  shows "inv_kept (accept_controller sys s)"
proof -
  obtain ok w where a: "sys_accept sys (ad_world s) = (ok, w)" by fastforce
  define t where "t = s\<lparr>ad_world := w, ad_client := True\<rparr>"
  have "adapter_inv (conversation_state t) t" "ad_control_plane t \<noteq> None"
    using inv act by (simp_all add: adapter_inv_def t_def)
  from steps_to_kept [OF execute_steps [OF this, of sys ControllerAttachedEvent]]
  moreover have "ad_listening s" using inv act by (simp add: adapter_inv_def)
  ultimately show ?thesis
    using inv a by (simp add: accept_controller_def inv_kept_Some t_def Let_def)
qed

lemma lose_controller_kept:
  assumes "adapter_inv (conversation_state s) s" "ad_client s"
  shows "inv_kept (lose_controller s)"
proof -
  from assms obtain p where p: "ad_control_plane s = Some p" by (auto simp: adapter_inv_def)
  have "adapter_inv (conversation_state s)
      (s\<lparr>ad_control_plane := Some (fst (handle p ControllerDisconnectedEvent)), ad_client := False\<rparr>)"
    using assms(1) by (simp add: adapter_inv_def)
  with p show ?thesis by (simp add: lose_controller_def inv_kept_Some)
qed

lemma read_client_kept:
  "adapter_inv (conversation_state s) s \<Longrightarrow> ad_client s \<Longrightarrow>
     \<exists>r. read_client sys fuel drain s = Some r
       \<and> (\<forall>b t. r = Some (b, t) \<longrightarrow> adapter_inv (conversation_state t) t)"
proof (induction fuel arbitrary: s)
  case (Suc fuel)
  obtain r w where r: "sys_read_client sys (ad_world s) = (r, w)" by fastforce
  show ?case
  proof (cases r)
    case (Read_Data bytes)
    have "adapter_inv (conversation_state (s\<lparr>ad_world := w\<rparr>)) (s\<lparr>ad_world := w\<rparr>)"
      "ad_control_plane (s\<lparr>ad_world := w\<rparr>) \<noteq> None"
      using Suc.prems by (simp_all add: adapter_inv_def)
    from execute_steps [OF this, of sys "ControllerBytesReceivedEvent bytes"] obtain t
      where t: "execute_control_actions sys (ControllerBytesReceivedEvent bytes) (s\<lparr>ad_world := w\<rparr>) = Some t"
        "adapter_inv (conversation_state t) t" by (auto simp: steps_to_def)
    from Suc.IH [of t] t show ?thesis by (cases drain) (simp_all add: r Read_Data Suc.prems(2))
  qed (use Suc.prems r in simp_all)
qed simp

lemma serve_client_kept:
  assumes "adapter_inv (conversation_state s) s"
  shows "\<exists>r. serve_client sys fuel ready s = Some r \<and> (\<forall>t. r = Some t \<longrightarrow> adapter_inv (conversation_state t) t)"
proof (cases "\<not> ad_workload_finished s \<and> ad_client s \<and> client_readable ready")
  case True
  with read_client_kept [OF assms, of sys fuel "client_hangup ready"] obtain r where
    r: "read_client sys fuel (client_hangup ready) s = Some r"
    and inv: "\<forall>b t. r = Some (b, t) \<longrightarrow> adapter_inv (conversation_state t) t" by auto
  show ?thesis
  proof (cases r)
    case None
    with r True show ?thesis by (simp add: serve_client_def)
  next
    case (Some bt)
    then obtain b t where bt: "r = Some (b, t)" by (cases bt) auto
    with inv have t: "adapter_inv (conversation_state t) t" by simp
    show ?thesis
      using t lose_controller_kept [OF t] r True bt
      by (auto simp: serve_client_def inv_kept_def)
  qed
qed (use assms in \<open>auto simp: serve_client_def\<close>)

lemma poll_pass_kept:
  assumes inv: "adapter_inv (conversation_state s0) s0"
  shows "\<exists>r. poll_pass sys fuel polled s0 = Some r
    \<and> (\<forall>t. r = Some t \<longrightarrow> adapter_inv (conversation_state t) t)"
proof -
  define ready where "ready = polled\<lparr>listen_readable := listen_readable polled \<and> ad_listening s0,
                         listen_broken := listen_broken polled \<and> ad_listening s0,
                         client_readable := client_readable polled \<and> ad_client s0,
                         client_hangup := client_hangup polled \<and> ad_client s0,
                         client_broken := client_broken polled \<and> ad_client s0\<rparr>"
  have "inv_kept (if helper_readable ready then read_helper_events sys s0 else Some s0)"
    using read_helper_steps [OF inv, of sys] inv by (simp add: inv_kept_def)
  then obtain s1 where s1: "(if helper_readable ready then read_helper_events sys s0 else Some s0) = Some s1"
    "adapter_inv (conversation_state s1) s1" by (auto simp: inv_kept_def)
  define b1 where "b1 = push_if (helper_broken ready) Event_Conversation_Lost s1"
  have "inv_kept (if signal_readable ready then take_interrupts sys b1 else Some b1)"
    using take_interrupts_kept [of b1 sys] s1(2) by (simp add: inv_kept_Some b1_def)
  then obtain s2 where s2: "(if signal_readable ready then take_interrupts sys b1 else Some b1) = Some s2"
    "adapter_inv (conversation_state s2) s2" by (auto simp: inv_kept_def)
  have "inv_kept (if ad_activated s2 \<and> listen_readable ready then accept_controller sys s2 else Some s2)"
    using accept_controller_kept [OF s2(2), of sys] s2(2) by (simp add: inv_kept_Some)
  then obtain s3 where s3: "(if ad_activated s2 \<and> listen_readable ready then accept_controller sys s2
      else Some s2) = Some s3" "adapter_inv (conversation_state s3) s3" by (auto simp: inv_kept_def)
  define b3 where "b3 = push_if (listen_broken ready) Event_Conversation_Lost s3"
  obtain r where r: "serve_client sys fuel ready b3 = Some r"
    "\<forall>t. r = Some t \<longrightarrow> adapter_inv (conversation_state t) t"
    using serve_client_kept [of b3 sys fuel ready] s3(2) by (auto simp: b3_def)
  note pass = poll_pass_def [of sys fuel polled s0, folded ready_def, unfolded Let_def,
      folded ready_def, unfolded s1(1) option.case, folded b1_def, unfolded s2(1) option.case
      s3(1), folded b3_def, unfolded r(1) option.case]
  show ?thesis
  proof (cases r)
    case None
    then show ?thesis by (simp add: pass)
  next
    case (Some s4)
    with r(2) have s4: "adapter_inv (conversation_state s4) s4" by simp
    with lose_controller_kept [OF s4] Some show ?thesis by (auto simp: pass inv_kept_def)
  qed
qed


section \<open>Whole sessions\<close>

text \<open>
  The adapters a lifecycle can reach: \<open>begin\<close> has returned \<open>true\<close>, then calls of
  \<open>wait\<close> and \<open>request_stop\<close> in any order.
\<close>

inductive session_reached :: "'o system \<Rightarrow> nat \<Rightarrow> 'o session_adapter \<Rightarrow> 'o session_adapter \<Rightarrow> bool"
  for sys fuel s0 where
  begun: "session_begin sys s0 = Some (True, s) \<Longrightarrow> session_reached sys fuel s0 s"
| waited: "session_reached sys fuel s0 s \<Longrightarrow>
    session_wait sys fuel mode s = Some (Some (e, t)) \<Longrightarrow> session_reached sys fuel s0 t"
| stopped: "session_reached sys fuel s0 s \<Longrightarrow>
    session_reached sys fuel s0 (snd (session_request_stop sys request s))"

definition before_ready :: "'o session_adapter \<Rightarrow> bool" where
  "before_ready s \<longleftrightarrow> \<not> ad_client s \<and> \<not> ad_activated s \<and> ad_control_plane s = None
     \<and> \<not> live_state (conversation_state s)"

lemma begin_pass_path:
  assumes "begin_pass sys s = Inl t \<or> begin_pass sys s = Inr (True, t)"
  obtains es where "event_path (conversation_state s) es (conversation_state t)"
    "es = [] \<or> es = [ReadyEvent]" "ad_client t = ad_client s" "ad_activated t = ad_activated s"
    "ad_control_plane t = ad_control_plane s" "begin_pass sys s = Inr (True, t) \<Longrightarrow> es = [ReadyEvent]"
proof -
  obtain r w where r: "sys_read_helper sys (ad_world s) = (r, w)" by fastforce
  with assms have ne: "r \<noteq> Read_Error" by (auto simp: begin_pass_def)
  obtain c es where c: "(case r of Read_Data b \<Rightarrow> supervisor_receive_bytes (ad_conversation s) b
      | _ \<Rightarrow> supervisor_peer_closed (ad_conversation s)) = (c, es)" by fastforce
  have path: "event_path (conversation_state s) es (su_state c)"
    using c supervisor_receive_path [of "ad_conversation s" _ c es]
      supervisor_input_path [of "ad_conversation s" Peer_Closed c es]
    by (auto simp: conversation_state_def split: socket_read.splits)
  define s1 where "s1 = s\<lparr>ad_world := w, ad_conversation := c\<rparr>"
  have s1: "conversation_state s1 = su_state c" "ad_client s1 = ad_client s"
    "ad_activated s1 = ad_activated s" "ad_control_plane s1 = ad_control_plane s"
    by (simp_all add: s1_def conversation_state_def)
  have pass: "begin_pass sys s =
     (if es = [] then Inl s1
      else if length es \<noteq> 1 \<or> hd es \<noteq> ReadyEvent then Inr (False, s1)
      else case sys_send_descriptors sys w of
        (descriptors_sent, w1) \<Rightarrow>
          (if \<not> descriptors_sent then Inr (False, s1\<lparr>ad_world := w1\<rparr>)
           else case sys_send_helper sys (ad_start_block s) w1 of
             (block_sent, w2) \<Rightarrow> Inr (block_sent, s1\<lparr>ad_world := w2\<rparr>)))"
    using ne c by (cases r) (simp_all add: begin_pass_def r s1_def Let_def split: prod.split)
  show thesis
  proof (cases "es = []")
    case True
    with assms pass have "t = s1" by simp
    with True path s1 pass that [of es] show thesis by simp
  next
    case False
    obtain d w1 where d: "sys_send_descriptors sys w = (d, w1)" by fastforce
    obtain b w2 where b: "sys_send_helper sys (ad_start_block s) w1 = (b, w2)" by fastforce
    from assms pass False have one: "length es = 1" "hd es = ReadyEvent" by (auto split: if_splits)
    then have es: "es = [ReadyEvent]" by (cases es) auto
    from assms pass False one d b have "t = s1\<lparr>ad_world := w2\<rparr>" by (auto split: if_splits)
    with path s1 es that [of es] show thesis by (simp add: conversation_state_def)
  qed
qed

lemma session_begin_inv:
  assumes "session_begin sys (new_session_adapter block args w) = Some (True, s)"
  shows "adapter_inv (conversation_state s) s"
proof -
  have "fst (True, s) \<longrightarrow> adapter_inv (conversation_state (snd (True, s))) (snd (True, s))"
  proof (rule iterate_rule [of "begin_pass sys" "new_session_adapter block args w" "(True, s)" before_ready
        "\<lambda>r. fst r \<longrightarrow> adapter_inv (conversation_state (snd r)) (snd r)"])
    show "iterate (begin_pass sys) (new_session_adapter block args w) = Some (True, s)"
      using assms by (simp add: session_begin_def)
    show "before_ready (new_session_adapter block args w)"
      by (simp add: before_ready_def new_session_adapter_def conversation_state_def
          new_supervisor_conversation_def live_state_def)
    show "before_ready t" if b: "before_ready s" and "begin_pass sys s = Inl t" for s t
    proof -
      from that(2) obtain es where "event_path (conversation_state s) es (conversation_state t)"
        "es = [] \<or> es = [ReadyEvent]" "ad_client t = ad_client s" "ad_activated t = ad_activated s"
        "ad_control_plane t = ad_control_plane s" using begin_pass_path [of sys s t] by metis
      with b show ?thesis by (auto simp: before_ready_def live_state_def)
    qed
    show "fst r \<longrightarrow> adapter_inv (conversation_state (snd r)) (snd r)"
      if b: "before_ready s" and pass: "begin_pass sys s = Inr r" for s r
    proof
      assume "fst r"
      with pass have "begin_pass sys s = Inr (True, snd r)" by (cases r) simp
      then obtain es where "event_path (conversation_state s) es (conversation_state (snd r))"
        "es = [ReadyEvent]" "ad_client (snd r) = ad_client s" "ad_activated (snd r) = ad_activated s"
        "ad_control_plane (snd r) = ad_control_plane s" using begin_pass_path [of sys s "snd r"] by metis
      with b show "adapter_inv (conversation_state (snd r)) (snd r)"
        by (auto simp: before_ready_def adapter_inv_def live_state_def)
    qed
  qed
  then show ?thesis by simp
qed

lemma wait_pass_kept:
  assumes inv: "adapter_inv (conversation_state s) s"
  shows "\<exists>r. wait_pass sys fuel s = Some r
    \<and> (\<forall>t. r = Some (Inl t) \<longrightarrow> adapter_inv (conversation_state t) t)
    \<and> (\<forall>e t. r = Some (Inr (e, t)) \<longrightarrow> adapter_inv (conversation_state t) t)"
proof -
  obtain timeout w where tw: "(case ad_deadline s of
           None \<Rightarrow> (- 1, ad_world s)
         | Some deadline \<Rightarrow>
             (case sys_now sys (ad_world s) of (now, w) \<Rightarrow> ((deadline - now) div 1000000, w))) = (timeout, w)"
    by fastforce
  define s1 where "s1 = s\<lparr>ad_world := w\<rparr>"
  have s1: "adapter_inv (conversation_state s1) s1" using inv by (simp add: s1_def)
  obtain p w1 where p: "sys_poll sys timeout (ad_listening s1) (ad_client s1) w = (p, w1)" by fastforce
  have s2: "adapter_inv (conversation_state (s1\<lparr>ad_world := w1\<rparr>)) (s1\<lparr>ad_world := w1\<rparr>)"
    using s1 by simp
  note pass = wait_pass_def [of sys fuel s, unfolded tw Let_def prod.case, folded s1_def, unfolded p prod.case]
  show ?thesis
  proof (cases p)
    case (Poll_Ready ready)
    from poll_pass_kept [OF s2, of sys fuel ready] obtain r where
      r: "poll_pass sys fuel ready (s1\<lparr>ad_world := w1\<rparr>) = Some r"
      "\<forall>t. r = Some t \<longrightarrow> adapter_inv (conversation_state t) t" by auto
    show ?thesis
      using r s1 by (cases r) (auto simp: pass Poll_Ready expire_deadline_def take_pending_event_def)
  qed (use s1 s2 in \<open>auto simp: pass expire_deadline_def\<close>)
qed

lemma session_wait_kept:
  assumes "session_wait sys fuel mode s = Some r" and inv: "adapter_inv (conversation_state s) s"
  shows "r \<noteq> None \<and> (\<forall>e t. r = Some (e, t) \<longrightarrow> adapter_inv (conversation_state t) t)"
proof (cases "ad_pending_events s = []")
  case True
  let ?I = "\<lambda>s. adapter_inv (conversation_state s) s"
  let ?Q = "\<lambda>r. r \<noteq> None \<and> (\<forall>e t. r = Some (e, t) \<longrightarrow> adapter_inv (conversation_state t) t)"
  have armed: "?I (arm_deadline sys mode s)"
    using inv by (auto simp: arm_deadline_def split: prod.split)
  have run: "iterate (wait_body sys fuel) (arm_deadline sys mode s) = Some r"
    using assms(1) True by (simp add: session_wait_def)
  show ?thesis
  proof (rule iterate_rule [of "wait_body sys fuel" _ r ?I ?Q, OF run armed])
    show "?I t" if "?I s" "wait_body sys fuel s = Inl t" for s t
      using wait_pass_kept [OF that(1), of sys fuel] that
      by (auto simp: wait_body_def split: option.splits sum.splits)
    show "?Q r" if "?I s" "wait_body sys fuel s = Inr r" for s r
      using wait_pass_kept [OF that(1), of sys fuel] that
      by (auto simp: wait_body_def split: option.splits sum.splits)
  qed
next
  case False
  with assms show ?thesis by (auto simp: session_wait_def take_pending_event_def)
qed

lemma session_reached_inv:
  assumes "session_reached sys fuel s0 s" "s0 = new_session_adapter block args w"
  shows "adapter_inv (conversation_state s) s"
  using assms
proof (induction rule: session_reached.induct)
  case (begun s)
  then show ?case using session_begin_inv [of sys block args w s] by simp
next
  case (waited s mode e t)
  then show ?case using session_wait_kept by blast
next
  case (stopped s request)
  then show ?case by (auto simp: session_request_stop_def split: prod.split)
qed

text \<open>C4: whatever the helper, the controllers, the signals and the operating system do, a session
  that has begun never waits with an empty \<open>std::optional\<close>: every use of the control plane, of
  the controller's descriptor and of the listening socket in \<open>wait\<close> finds a value.\<close>

theorem session_optionals_are_filled:
  assumes "session_reached sys fuel (new_session_adapter block args w) s"
  shows "session_wait sys fuel mode s \<noteq> Some None"
  using session_wait_kept [of sys fuel mode s None] session_reached_inv [OF assms refl] by blast


text \<open>A scripted operating system: every read of the helper takes the next of the listed reads,
  sends to the controller succeed as listed, everything else succeeds.\<close>

record script =
  helper_reads :: "socket_read list"
  client_sends :: "bool list"
  polls :: "poll_outcome list"

definition scripted_system :: "script system" where
  "scripted_system =
     \<lparr>sys_read_helper = (\<lambda>w. case helper_reads w of
        [] \<Rightarrow> (Read_Closed, w) | r # rs \<Rightarrow> (r, w\<lparr>helper_reads := rs\<rparr>)),
      sys_send_helper = (\<lambda>_ w. (True, w)),
      sys_send_descriptors = (\<lambda>w. (True, w)),
      sys_read_client = (\<lambda>w. (Read_Closed, w)),
      sys_send_client = (\<lambda>_ w. case client_sends w of
        [] \<Rightarrow> (True, w) | r # rs \<Rightarrow> (r, w\<lparr>client_sends := rs\<rparr>)),
      sys_accept = (\<lambda>w. (True, w)),
      sys_reject = (\<lambda>w. w),
      sys_listen = (\<lambda>w. (True, w)),
      sys_interrupts = (\<lambda>w. (0, w)),
      sys_now = (\<lambda>w. (0, w)),
      sys_poll = (\<lambda>_ _ _ w. case polls w of
        [] \<Rightarrow> (Poll_Failed, w) | p # ps \<Rightarrow> (p, w\<lparr>polls := ps\<rparr>))\<rparr>"

definition ready_message :: string where
  "ready_message = ''READY'' @ [newline]"

lemma ready_line:
  "supervisor_receive_bytes new_supervisor_conversation ready_message =
     (\<lparr>su_buffer = [], su_pending = None, su_state = Waiting_For_Activation\<rparr>, [ReadyEvent])"
  by (simp add: ready_message_def supervisor_receive_bytes_def new_supervisor_conversation_def supervisor_loop.simps
      maximum_helper_message_size_def substr_def supervisor_line_def helper_error_prefix_def Let_def)

definition begun_adapter :: "script \<Rightarrow> script session_adapter" where
  "begun_adapter w = (new_session_adapter ''START'' [''sh''] w)
     \<lparr>ad_conversation := \<lparr>su_buffer = [], su_pending = None, su_state = Waiting_For_Activation\<rparr>\<rparr>"

lemma scripted_begin:
  "session_begin scripted_system
     (new_session_adapter ''START'' [''sh''] \<lparr>helper_reads = Read_Data ready_message # rs, client_sends = cs, polls = ps\<rparr>)
   = Some (True, begun_adapter \<lparr>helper_reads = rs, client_sends = cs, polls = ps\<rparr>)"
  unfolding session_begin_def
  by (rule iterate_unfold)
     (simp add: begin_pass_def scripted_system_def new_session_adapter_def ready_line
       begun_adapter_def Let_def)

theorem session_optionals_are_filled_witness:
  "session_wait scripted_system 1 Wait_Indefinitely
     (begun_adapter \<lparr>helper_reads = [], client_sends = [], polls = []\<rparr>) \<noteq> Some None"
  by (rule session_optionals_are_filled
      [OF session_reached.begun [OF scripted_begin [of "[]" "[]" "[]"]]])

section \<open>Two races\<close>

definition queued_change :: profile_change where
  "queued_change = SetDelay Outbound 20"

text \<open>
  A controller has sent two changes; the first is in flight, the second waits for its answer.
\<close>

definition busy_plane :: control_plane where
  "busy_plane = (new_control_plane 7 [''sh''])
     \<lparr>cp_controller_attached := True, cp_connection_generation := 1,
      cp_in_flight := Some \<lparr>flight_change = SetDelay Outbound 10, flight_reply_generation = Some 1,
        flight_dispatch_pending = False\<rparr>,
      cp_command_queue := [(ChangeControllerCommand queued_change, 1)]\<rparr>"

definition busy_adapter :: "script \<Rightarrow> script session_adapter" where
  "busy_adapter w = (new_session_adapter ''START'' [''sh''] w)
     \<lparr>ad_conversation := \<lparr>su_buffer = [], su_pending = Some (SetDelay Outbound 10), su_state = Active\<rparr>,
      ad_control_plane := Some busy_plane, ad_client := True, ad_listening := True,
      ad_activated := True, ad_workload_pid := 7\<rparr>"

definition answer_and_exit :: string where
  "answer_and_exit = ''PROFILE_OK'' @ [newline] @ ''WORKLOAD_EXITED 0'' @ [newline]"


lemma answer_and_exit_events:
  "supervisor_receive_bytes \<lparr>su_buffer = [], su_pending = Some c, su_state = Active\<rparr> answer_and_exit =
     (\<lparr>su_buffer = [], su_pending = None, su_state = Waiting_For_Cleanup\<rparr>,
      [ProfileChangeResultEvent Result_Applied c, WorkloadExitedEvent 0])"
proof -
  have v: "parse_value_after ''WORKLOAD_EXITED 0'' ''WORKLOAD_EXITED '' 0 255 = Some 0"
  proof -
    have "from_chars_signed int_min int_max (to_string_int 0) = Parsed 0 []"
      by (rule from_chars_signed_to_string) (simp_all add: int_min_def int_max_def)
    then show ?thesis by (simp add: parse_value_after_def parse_bounded_integer_def to_string_int_def)
  qed
  show ?thesis
    by (simp add: answer_and_exit_def supervisor_receive_bytes_def supervisor_loop.simps
      maximum_helper_message_size_def substr_def supervisor_line_def helper_error_prefix_def Let_def v)
qed

lemma queued_change_dispatched:
  "handle busy_plane (HelperProfileChangeResultEvent Change_Applied (SetDelay Outbound 10)) =
     (busy_plane\<lparr>cp_in_flight := Some \<lparr>flight_change = queued_change, flight_reply_generation = Some 1,
          flight_dispatch_pending = True\<rparr>, cp_command_queue := [],
        cp_confirmed_profile := default_profile\<lparr>outbound := default_settings\<lparr>delay := 10\<rparr>\<rparr>,
        cp_shaping_applied := True\<rparr>,
      [SendControllerTextAction (''PROFILE_CHANGED'' @ [newline]), DispatchProfileChangeAction queued_change])"
proof -
  have a: "apply_profile_change default_profile (SetDelay Outbound 10)
      = Inr (default_profile\<lparr>outbound := default_settings\<lparr>delay := 10\<rparr>\<rparr>)"
    by (simp add: apply_profile_change_def visit_change_def validate_Nil_iff valid_profile_def
        valid_settings_def default_profile_def default_settings_def)
  show ?thesis
    by (simp add: busy_plane_def new_control_plane_def handle_def handle_change_result_def a reply_wanted_def
        drain_queue.simps process_command_def queued_change_def)
qed

text \<open>C8: a defect. When the helper's answer to one change and the exit of the workload arrive in
  one read while a second change of the controller is queued, the queued change is handed over
  after the conversation has already left its active state, and an orderly exit is reported to
  the lifecycle as a lost conversation, before the exit itself.\<close>

theorem queued_change_at_exit_loses_conversation:
  "map_option ad_pending_events
     (read_helper_events scripted_system
        (busy_adapter \<lparr>helper_reads = [Read_Data answer_and_exit], client_sends = [], polls = []\<rparr>)) =
   Some [lifecycle_event_of Event_Conversation_Lost 0, lifecycle_event_of Event_Workload_Exited 0]"
proof -
  define w where "w = \<lparr>helper_reads = [] :: socket_read list, client_sends = [] :: bool list,
    polls = [] :: poll_outcome list\<rparr>"
  define s where "s = (busy_adapter w)
    \<lparr>ad_conversation := \<lparr>su_buffer = [], su_pending = None, su_state = Waiting_For_Cleanup\<rparr>\<rparr>"
  have "read_helper_events scripted_system (busy_adapter (w\<lparr>helper_reads := [Read_Data answer_and_exit]\<rparr>))
      = handle_helper_events scripted_system
          [ProfileChangeResultEvent Result_Applied (SetDelay Outbound 10), WorkloadExitedEvent 0] s"
    by (simp add: read_helper_events_def scripted_system_def busy_adapter_def answer_and_exit_events
        new_session_adapter_def s_def w_def)
  moreover obtain plane where "handle_helper_event scripted_system
      (ProfileChangeResultEvent Result_Applied (SetDelay Outbound 10)) s
      = Some (s\<lparr>ad_control_plane := Some plane,
               ad_pending_events := [lifecycle_event_of Event_Conversation_Lost 0]\<rparr>)"
    by (simp add: handle_helper_event_def plane_result_def execute_control_actions_def s_def busy_adapter_def
        new_session_adapter_def queued_change_dispatched begin_profile_change_def scripted_system_def w_def)
  moreover obtain q where "handle plane WorkloadTerminalEvent = (q, [])"
    by (simp add: handle_def Let_def)
  then have "execute_control_actions scripted_system WorkloadTerminalEvent (s\<lparr>ad_control_plane := Some plane,
               ad_pending_events := es\<rparr>) = Some (s\<lparr>ad_control_plane := Some q, ad_pending_events := es\<rparr>)" for es
    by (simp add: execute_control_actions_def)
  ultimately show ?thesis
    by (simp add: handle_helper_event_def w_def)
qed


text \<open>
  A controller whose change is in flight has hung up, and another one is connecting.
\<close>

definition waiting_plane :: control_plane where
  "waiting_plane = busy_plane\<lparr>cp_command_queue := []\<rparr>"

definition waiting_adapter :: "script \<Rightarrow> script session_adapter" where
  "waiting_adapter w = (busy_adapter w)\<lparr>ad_control_plane := Some waiting_plane\<rparr>"

definition answer_only :: string where
  "answer_only = ''PROFILE_OK'' @ [newline]"

definition stale_readiness :: "bool \<Rightarrow> readiness" where
  "stale_readiness b =
     \<lparr>helper_readable = True, helper_broken = False, listen_readable = True, listen_broken = False,
      client_readable = b, client_hangup = True, client_broken = False, signal_readable = False\<rparr>"

definition after_answer :: control_plane where
  "after_answer = waiting_plane\<lparr>cp_in_flight := None,
        cp_confirmed_profile := default_profile\<lparr>outbound := default_settings\<lparr>delay := 10\<rparr>\<rparr>,
        cp_shaping_applied := True\<rparr>"

lemma answer_only_events:
  "supervisor_receive_bytes \<lparr>su_buffer = [], su_pending = Some c, su_state = Active\<rparr> answer_only =
     (\<lparr>su_buffer = [], su_pending = None, su_state = Active\<rparr>, [ProfileChangeResultEvent Result_Applied c])"
  by (simp add: answer_only_def supervisor_receive_bytes_def supervisor_loop.simps
      maximum_helper_message_size_def substr_def supervisor_line_def helper_error_prefix_def Let_def)

lemma waiting_answered:
  "handle waiting_plane (HelperProfileChangeResultEvent Change_Applied (SetDelay Outbound 10)) =
     (after_answer, [SendControllerTextAction (''PROFILE_CHANGED'' @ [newline])])"
proof -
  have a: "apply_profile_change default_profile (SetDelay Outbound 10)
      = Inr (default_profile\<lparr>outbound := default_settings\<lparr>delay := 10\<rparr>\<rparr>)"
    by (simp add: apply_profile_change_def visit_change_def validate_Nil_iff valid_profile_def
        valid_settings_def default_profile_def default_settings_def)
  show ?thesis
    by (simp add: waiting_plane_def after_answer_def busy_plane_def new_control_plane_def handle_def
        handle_change_result_def a reply_wanted_def drain_queue.simps)
qed

text \<open>C9: a defect. The readiness of a controller's descriptor is used after the descriptor has been
  replaced: when the send of a reply finds the attached controller gone and another controller is
  accepted in the same pass, the hang-up of the first is applied to the second, which is greeted
  and dropped at once.\<close>

theorem stale_hangup_drops_new_controller:
  "\<exists>t plane. poll_pass scripted_system 1 (stale_readiness b)
       (waiting_adapter \<lparr>helper_reads = [Read_Data answer_only], client_sends = [False, True], polls = []\<rparr>)
     = Some (Some t)
   \<and> ad_client t = False \<and> ad_control_plane t = Some plane \<and> cp_connection_generation plane = 2
   \<and> ad_pending_events t = [lifecycle_event_of Event_Controller_Lost 0]"
proof -
  define w where "w = (\<lambda>sends. \<lparr>helper_reads = [] :: socket_read list, client_sends = sends,
    polls = [] :: poll_outcome list\<rparr>)"
  define gone where "gone = fst (handle after_answer ControllerWriteFailedEvent)"
  define s1 where "s1 = (waiting_adapter (w [True]))
    \<lparr>ad_conversation := \<lparr>su_buffer = [], su_pending = None, su_state = Active\<rparr>, ad_client := False,
     ad_control_plane := Some gone\<rparr>"
  define greeted where "greeted = fst (handle gone ControllerAttachedEvent)"
  have helper: "read_helper_events scripted_system (waiting_adapter
      \<lparr>helper_reads = [Read_Data answer_only], client_sends = [False, True], polls = []\<rparr>) = Some s1"
    by (simp add: read_helper_events_def scripted_system_def waiting_adapter_def busy_adapter_def
        new_session_adapter_def answer_only_events handle_helper_event_def plane_result_def
        execute_control_actions_def waiting_answered s1_def w_def gone_def)
  have attach: "handle gone ControllerAttachedEvent
      = (greeted, [SendControllerTextAction (''ATTACHED'' @ [newline])])"
    "cp_connection_generation greeted = 2"
    by (simp_all add: greeted_def gone_def handle_def after_answer_def waiting_plane_def busy_plane_def
        new_control_plane_def)
  define s3 where "s3 = s1\<lparr>ad_world := w [], ad_client := True, ad_control_plane := Some greeted\<rparr>"
  have accept: "accept_controller scripted_system s1 = Some s3"
    by (simp add: accept_controller_def scripted_system_def execute_control_actions_def s1_def s3_def
        waiting_adapter_def busy_adapter_def new_session_adapter_def attach w_def)
  obtain lost where lost: "lose_controller s3 = Some lost" "ad_client lost = False"
    "ad_control_plane lost = Some (fst (handle greeted ControllerDisconnectedEvent))"
    "ad_pending_events lost = [lifecycle_event_of Event_Controller_Lost 0]"
    by (simp add: lose_controller_def push_event_def s3_def s1_def waiting_adapter_def busy_adapter_def
        new_session_adapter_def)
  have s: "ad_activated s1" "ad_listening s1" "ad_client s3" "\<not> ad_workload_finished s3"
    by (simp_all add: s1_def s3_def waiting_adapter_def busy_adapter_def new_session_adapter_def)
  have before: "ad_client (waiting_adapter v)" "ad_listening (waiting_adapter v)" for v
    by (simp_all add: waiting_adapter_def busy_adapter_def)
  have read: "read_client scripted_system 1 True s3 = Some (Some (False, s3))"
    by (simp add: scripted_system_def s One_nat_def)
  have "cp_connection_generation (fst (handle greeted ControllerDisconnectedEvent)) = 2"
    using attach(2) by (simp add: handle_def)
  with helper accept lost s before read show ?thesis
    by (cases b) (simp_all add: poll_pass_def stale_readiness_def push_if_def serve_client_def Let_def)
qed

end
