(* ===== verification/Scripted_Adapter.thy ===== *)
theory Scripted_Adapter
  imports Network_Transaction Link_Inventory
begin

text \<open>
  The scripted adapter and clock of \<open>network_environment.cpp\<close>: they follow a list of steps, each
  with the operation it is for, its outcome, its cause and the time it takes, and record every call
  in a trace. The class member \<open>configured_connectivity_\<close> is kept with the script.
\<close>

datatype script_outcome =
    Outcome_Success
  | Outcome_Fail_Unchanged
  | Outcome_Fail_New_State
  | Outcome_Fail_Absent
  | Outcome_Fail_Identity_Unconfirmed
  | Outcome_Removed
  | Outcome_Already_Absent
  | Outcome_Cleanup_Retained
  | Outcome_Cleanup_Identity_Mismatch
  | Outcome_Cleanup_Identity_Unconfirmed

record script_step =
  step_operation :: operation
  step_outcome :: script_outcome
  step_cause :: cause
  step_elapsed :: time_point

record shared_trace =
  trace_operations :: "operation list"
  trace_deadlines :: "time_point list"
  trace_requests :: "(shaping_direction \<times> direction_settings) list"

record script_state =
  script_now :: time_point
  script_steps :: "script_step list"
  script_trace :: shared_trace
  next_identity :: "64 word"
  configured_connectivity :: bool

definition new_script :: "script_step list \<Rightarrow> time_point \<Rightarrow> script_state" where
  "new_script steps start =
     \<lparr>script_now = start, script_steps = steps,
      script_trace = \<lparr>trace_operations = [], trace_deadlines = [], trace_requests = []\<rparr>,
      next_identity = 1, configured_connectivity = False\<rparr>"

definition next_is :: "operation \<Rightarrow> script_state \<Rightarrow> bool" where
  "next_is op w \<longleftrightarrow> (case script_steps w of [] \<Rightarrow> False | s # ss \<Rightarrow> step_operation s = op)"

definition next_step :: "operation \<Rightarrow> time_point \<Rightarrow> script_state \<Rightarrow> script_step \<times> script_state" where
  "next_step op deadline w =
     (let tr = script_trace w;
          w1 = w\<lparr>script_trace := tr\<lparr>trace_operations := trace_operations tr @ [op],
                                 trace_deadlines := trace_deadlines tr @ [deadline]\<rparr>\<rparr>
      in if next_is op w
         then (let s = hd (script_steps w)
               in (s, w1\<lparr>script_steps := tl (script_steps w), script_now := script_now w + step_elapsed s\<rparr>))
         else (\<lparr>step_operation = op, step_outcome = Outcome_Fail_Unchanged,
                step_cause = Cause_System_Failure, step_elapsed = 0\<rparr>, w1))"

definition scripted_operation :: "operation \<Rightarrow> time_point \<Rightarrow> script_state \<Rightarrow> op_result \<times> script_state" where
  "scripted_operation op deadline w =
     (case next_step op deadline w of (s, w1) \<Rightarrow>
        (\<lparr>op_succeeded = step_outcome s = Outcome_Success, op_cause = step_cause s\<rparr>, w1))"

definition makes_state :: "script_outcome \<Rightarrow> bool" where
  "makes_state o1 \<longleftrightarrow> o1 = Outcome_Success \<or> o1 = Outcome_Fail_New_State"

definition scripted_create_namespace ::
  "time_point \<Rightarrow> script_state \<Rightarrow> 64 word namespace_state mutation_result \<times> script_state" where
  "scripted_create_namespace deadline w =
     (case next_step Op_Create_Namespace deadline w of (s, w1) \<Rightarrow>
        (let (state, w2) =
           (if makes_state (step_outcome s)
            then (Namespace_Proven (next_identity w1), w1\<lparr>next_identity := next_identity w1 + 1\<rparr>)
            else if step_outcome s = Outcome_Fail_Identity_Unconfirmed then (Namespace_Unconfirmed, w1)
            else (Namespace_Absent, w1))
         in (\<lparr>mut_succeeded = step_outcome s = Outcome_Success, mut_cause = step_cause s, mut_state = state\<rparr>, w2)))"

definition scripted_identity :: "script_state \<Rightarrow> veth_identity_pair \<times> script_state" where
  "scripted_identity w =
     (let host = ucast (next_identity w); session = ucast (next_identity w + 1)
      in (\<lparr>pair_host = \<lparr>link_index = host, link_peer_index = session, link_peer_namespace = None\<rparr>,
           pair_session = \<lparr>link_index = session, link_peer_index = host, link_peer_namespace = None\<rparr>\<rparr>,
          w\<lparr>next_identity := next_identity w + 2\<rparr>))"

definition scripted_create_veth ::
  "time_point \<Rightarrow> script_state
     \<Rightarrow> (veth_identity_pair, veth_identity_pair) veth_state mutation_result \<times> script_state" where
  "scripted_create_veth deadline w =
     (case next_step Op_Create_Veth deadline w of (s, w1) \<Rightarrow>
        (let (state, w2) =
           (if makes_state (step_outcome s)
            then (case scripted_identity w1 of (i, w2) \<Rightarrow> (Host_Veth i, w2))
            else if step_outcome s = Outcome_Fail_Identity_Unconfirmed then (Veth_Unconfirmed, w1)
            else (Veth_Absent, w1))
         in (\<lparr>mut_succeeded = step_outcome s = Outcome_Success, mut_cause = step_cause s, mut_state = state\<rparr>, w2)))"

definition scripted_move_peer ::
  "veth_identity_pair \<Rightarrow> time_point \<Rightarrow> script_state
     \<Rightarrow> (veth_identity_pair, veth_identity_pair) veth_state mutation_result \<times> script_state" where
  "scripted_move_peer h deadline w =
     (case next_step Op_Move_Peer deadline w of (s, w1) \<Rightarrow>
        (let state =
           (if makes_state (step_outcome s) then Placed_Veth h
            else if step_outcome s = Outcome_Fail_Unchanged then Host_Veth h
            else if step_outcome s = Outcome_Fail_Identity_Unconfirmed then Veth_Unconfirmed
            else Veth_Absent)
         in (\<lparr>mut_succeeded = step_outcome s = Outcome_Success, mut_cause = step_cause s, mut_state = state\<rparr>, w1)))"

definition scripted_set_settings ::
  "shaping_direction \<Rightarrow> direction_settings \<Rightarrow> time_point \<Rightarrow> script_state
     \<Rightarrow> shaping_change_result \<times> script_state" where
  "scripted_set_settings direction requested deadline w =
     (case next_step Op_Set_Settings deadline w of (s, w1) \<Rightarrow>
        (let tr = script_trace w1
         in (if step_outcome s = Outcome_Success then Shaping_Applied
             else if step_outcome s = Outcome_Fail_Unchanged then Shaping_Restored
             else Shaping_State_Unknown,
             w1\<lparr>script_trace := tr\<lparr>trace_requests := trace_requests tr @ [(direction, requested)]\<rparr>\<rparr>)))"

definition scripted_configure_connectivity ::
  "time_point \<Rightarrow> script_state \<Rightarrow> unit connectivity_state mutation_result \<times> script_state" where
  "scripted_configure_connectivity deadline w =
     (if \<not> next_is Op_Configure_Connectivity w
      then (\<lparr>mut_succeeded = True, mut_cause = Cause_System_Failure, mut_state = Connectivity_Proven ()\<rparr>,
            w\<lparr>configured_connectivity := True\<rparr>)
      else case next_step Op_Configure_Connectivity deadline w of (s, w1) \<Rightarrow>
        (let (state, w2) =
           (if makes_state (step_outcome s)
            then (Connectivity_Proven (), w1\<lparr>configured_connectivity := True\<rparr>)
            else if step_outcome s = Outcome_Fail_Identity_Unconfirmed then (Connectivity_Unconfirmed, w1)
            else (Connectivity_Absent, w1))
         in (\<lparr>mut_succeeded = step_outcome s = Outcome_Success, mut_cause = step_cause s, mut_state = state\<rparr>, w2)))"

definition scripted_remove_connectivity ::
  "time_point \<Rightarrow> script_state \<Rightarrow> unit connectivity_state removal_result \<times> script_state" where
  "scripted_remove_connectivity deadline w =
     (if \<not> configured_connectivity w
      then (\<lparr>rem_cause = Cause_System_Failure, rem_state = Connectivity_Absent\<rparr>, w)
      else if \<not> next_is Op_Remove_Connectivity w
      then (\<lparr>rem_cause = Cause_System_Failure, rem_state = Connectivity_Absent\<rparr>,
            w\<lparr>configured_connectivity := False\<rparr>)
      else case next_step Op_Remove_Connectivity deadline w of (s, w1) \<Rightarrow>
        (let (state, w2) =
           (if step_outcome s = Outcome_Cleanup_Retained then (Connectivity_Proven (), w1)
            else if step_outcome s = Outcome_Cleanup_Identity_Mismatch
              \<or> step_outcome s = Outcome_Cleanup_Identity_Unconfirmed then (Connectivity_Unconfirmed, w1)
            else (Connectivity_Absent, w1\<lparr>configured_connectivity := False\<rparr>))
         in (\<lparr>rem_cause = step_cause s, rem_state = state\<rparr>, w2)))"

fun retained_veth :: "('h, 'p) proven_veth \<Rightarrow> ('h, 'p) veth_state" where
  "retained_veth (Proven_Host h) = Host_Veth h"
| "retained_veth (Proven_Placed p) = Placed_Veth p"

definition scripted_remove_veth ::
  "(veth_identity_pair, veth_identity_pair) proven_veth \<Rightarrow> time_point \<Rightarrow> script_state
     \<Rightarrow> (veth_identity_pair, veth_identity_pair) veth_state removal_result \<times> script_state" where
  "scripted_remove_veth v deadline w =
     (case next_step Op_Remove_Veth deadline w of (s, w1) \<Rightarrow>
        (\<lparr>rem_cause = step_cause s,
          rem_state =
            (if step_outcome s = Outcome_Cleanup_Retained then retained_veth v
             else if step_outcome s = Outcome_Cleanup_Identity_Mismatch
               \<or> step_outcome s = Outcome_Cleanup_Identity_Unconfirmed then Veth_Unconfirmed
             else Veth_Absent)\<rparr>, w1))"

definition scripted_remove_namespace ::
  "64 word \<Rightarrow> time_point \<Rightarrow> script_state \<Rightarrow> 64 word namespace_state removal_result \<times> script_state" where
  "scripted_remove_namespace n deadline w =
     (case next_step Op_Remove_Namespace deadline w of (s, w1) \<Rightarrow>
        (\<lparr>rem_cause = step_cause s,
          rem_state =
            (if step_outcome s = Outcome_Cleanup_Retained then Namespace_Proven n
             else if step_outcome s = Outcome_Cleanup_Identity_Mismatch
               \<or> step_outcome s = Outcome_Cleanup_Identity_Unconfirmed then Namespace_Unconfirmed
             else Namespace_Absent)\<rparr>, w1))"

definition scripted_adapter ::
  "(64 word, veth_identity_pair, veth_identity_pair, unit, script_state) semantic_adapter" where
  "scripted_adapter = \<lparr>
     clock_now = (\<lambda>w. (script_now w, w)),
     do_preflight = scripted_operation Op_Preflight,
     create_namespace = scripted_create_namespace,
     create_veth = scripted_create_veth,
     move_peer = (\<lambda>_. scripted_move_peer),
     assign_host_address = (\<lambda>_. scripted_operation Op_Assign_Host_Address),
     bring_host_link_up = (\<lambda>_. scripted_operation Op_Bring_Host_Link_Up),
     bring_loopback_up = (\<lambda>_. scripted_operation Op_Bring_Loopback_Up),
     assign_namespace_address = (\<lambda>_ _. scripted_operation Op_Assign_Namespace_Address),
     bring_namespace_link_up = (\<lambda>_ _. scripted_operation Op_Bring_Namespace_Link_Up),
     add_default_route = (\<lambda>_ _. scripted_operation Op_Add_Default_Route),
     set_settings = (\<lambda>_ _ direction _. scripted_set_settings direction),
     configure_connectivity = scripted_configure_connectivity,
     remove_connectivity = (\<lambda>_. scripted_remove_connectivity),
     remove_veth = (\<lambda>v _. scripted_remove_veth v),
     remove_namespace = scripted_remove_namespace\<rparr>"

end
