(* ===== verification/Transaction_Laws.thy ===== *)
theory Transaction_Laws
  imports Scripted_Adapter "HOL-Library.Sublist"
begin

text \<open>
  What the transaction of \<open>network_environment.cpp\<close> promises whatever its adapter does. The
  locale \<open>network_adapter\<close> is the contract of a conservative adapter: it has a set of roots
  that exist in the kernel, and reports a root absent only when it is. The contract holds of every
  adapter with the trace of its own reports as that set (\<open>traced\<close>), which gives the properties.
\<close>

section \<open>Roots\<close>

datatype root = Root_Namespace | Root_Veth | Root_Connectivity

definition roots :: "('n, 'h, 'p, 'c) owner_state \<Rightarrow> root set" where
  "roots s =
     (if namespace_root s = Namespace_Absent then {} else {Root_Namespace})
     \<union> (if veth_root s = Veth_Absent then {} else {Root_Veth})
     \<union> (if connectivity_root s = Connectivity_Absent then {} else {Root_Connectivity})"

definition residual_roots :: "('n, 'h, 'p, 'c) owner_state option \<Rightarrow> root set" where
  "residual_roots r = (case r of None \<Rightarrow> {} | Some s \<Rightarrow> roots s)"

definition result_roots :: "('n, 'h, 'p, 'c) preparation_result \<Rightarrow> root set" where
  "result_roots r = (case r of Prepared s \<Rightarrow> roots s | Preparation_Failed _ _ res \<Rightarrow> residual_roots res)"

definition reported :: "root \<Rightarrow> bool \<Rightarrow> root set \<Rightarrow> root set" where
  "reported r absent e = (if absent then e - {r} else insert r e)"

lemma reported_mono: "e \<subseteq> f \<Longrightarrow> reported r b e \<subseteq> reported r b f"
  by (auto simp: reported_def)

lemma roots_new [simp]: "roots new_owner_state = {}"
  by (simp add: roots_def new_owner_state_def)

lemma roots_empty_iff: "roots s = {} \<longleftrightarrow> \<not> has_residual s"
  by (auto simp: roots_def has_residual_def)

lemma roots_namespace [simp]:
  "roots (s\<lparr>namespace_root := n\<rparr>) = reported Root_Namespace (n = Namespace_Absent) (roots s)"
  by (auto simp: roots_def reported_def)

lemma roots_veth [simp]:
  "roots (s\<lparr>veth_root := v\<rparr>) = reported Root_Veth (v = Veth_Absent) (roots s)"
  by (auto simp: roots_def reported_def)

lemma roots_connectivity [simp]:
  "roots (s\<lparr>connectivity_root := c\<rparr>) = reported Root_Connectivity (c = Connectivity_Absent) (roots s)"
  by (auto simp: roots_def reported_def)

lemma residual_roots_simps [simp]:
  "residual_roots (if has_residual s then Some s else None) = roots s"
  using roots_empty_iff [of s] by (auto simp: residual_roots_def)

section \<open>The contract of a conservative adapter\<close>

locale network_adapter =
  fixes a :: "('n, 'h, 'p, 'c, 'w) semantic_adapter"
    and present :: "'w \<Rightarrow> root set"
  assumes clock: "present (snd (clock_now a w)) \<subseteq> present w"
    and preflight: "present (snd (do_preflight a d w)) \<subseteq> present w"
    and namespace_made:
      "present (snd (create_namespace a d w))
         \<subseteq> reported Root_Namespace (mut_state (fst (create_namespace a d w)) = Namespace_Absent) (present w)"
    and veth_made:
      "present (snd (create_veth a d w))
         \<subseteq> reported Root_Veth (mut_state (fst (create_veth a d w)) = Veth_Absent) (present w)"
    and veth_moved:
      "present (snd (move_peer a n h d w))
         \<subseteq> reported Root_Veth (mut_state (fst (move_peer a n h d w)) = Veth_Absent) (present w)"
    and host_address: "present (snd (assign_host_address a p d w)) \<subseteq> present w"
    and host_up: "present (snd (bring_host_link_up a p d w)) \<subseteq> present w"
    and loopback_up: "present (snd (bring_loopback_up a n d w)) \<subseteq> present w"
    and namespace_address: "present (snd (assign_namespace_address a n p d w)) \<subseteq> present w"
    and namespace_up: "present (snd (bring_namespace_link_up a n p d w)) \<subseteq> present w"
    and route: "present (snd (add_default_route a n p d w)) \<subseteq> present w"
    and connectivity_made:
      "present (snd (configure_connectivity a d w))
         \<subseteq> reported Root_Connectivity
             (mut_state (fst (configure_connectivity a d w)) = Connectivity_Absent) (present w)"
    and connectivity_removed:
      "present (snd (remove_connectivity a c d w))
         \<subseteq> reported Root_Connectivity
             (rem_state (fst (remove_connectivity a c d w)) = Connectivity_Absent) (present w)"
    and veth_removed:
      "present (snd (remove_veth a v m d w))
         \<subseteq> reported Root_Veth (rem_state (fst (remove_veth a v m d w)) = Veth_Absent) (present w)"
    and namespace_removed:
      "present (snd (remove_namespace a n d w))
         \<subseteq> reported Root_Namespace
             (rem_state (fst (remove_namespace a n d w)) = Namespace_Absent) (present w)"
begin

definition accounted_cleaning :: "('n, 'h, 'p, 'c, 'w) cleaning \<Rightarrow> bool" where
  "accounted_cleaning x = (case x of (s, fs, w) \<Rightarrow> present w \<subseteq> roots s)"

definition accounted :: "('n, 'h, 'p, 'c, 'w) progress \<Rightarrow> bool" where
  "accounted x = (case x of
     Inl (s, w) \<Rightarrow> present w \<subseteq> roots s
   | Inr (r, w) \<Rightarrow> present w \<subseteq> result_roots r)"

lemma clock': "present w \<subseteq> e \<Longrightarrow> present (snd (clock_now a w)) \<subseteq> e"
  by (rule subset_trans [OF clock])

lemma connectivity_removed':
  "present w \<subseteq> e \<Longrightarrow> present (snd (remove_connectivity a c d w))
     \<subseteq> reported Root_Connectivity (rem_state (fst (remove_connectivity a c d w)) = Connectivity_Absent) e"
  by (rule subset_trans [OF connectivity_removed reported_mono])

lemma veth_removed':
  "present w \<subseteq> e \<Longrightarrow> present (snd (remove_veth a v m d w))
     \<subseteq> reported Root_Veth (rem_state (fst (remove_veth a v m d w)) = Veth_Absent) e"
  by (rule subset_trans [OF veth_removed reported_mono])

lemma namespace_removed':
  "present w \<subseteq> e \<Longrightarrow> present (snd (remove_namespace a n d w))
     \<subseteq> reported Root_Namespace (rem_state (fst (remove_namespace a n d w)) = Namespace_Absent) e"
  by (rule subset_trans [OF namespace_removed reported_mono])

lemma clean_connectivity_accounted:
  assumes "accounted_cleaning x" shows "accounted_cleaning (clean_connectivity a d x)"
proof -
  obtain s fs w where x: "x = (s, fs, w)" by (cases x)
  have w: "present w \<subseteq> roots s" using assms by (simp add: x accounted_cleaning_def)
  note w1 = clock' [OF w] note w2 = clock' [OF w1]
  show ?thesis
    using w w1 connectivity_removed' [OF w2]
    by (simp add: x case_prod_beta accounted_cleaning_def clean_connectivity_def split: connectivity_state.split)
qed

lemma clean_veth_accounted:
  assumes "accounted_cleaning x" shows "accounted_cleaning (clean_veth a d x)"
proof -
  obtain s fs w where x: "x = (s, fs, w)" by (cases x)
  have w: "present w \<subseteq> roots s" using assms by (simp add: x accounted_cleaning_def)
  note w1 = clock' [OF w] note w2 = clock' [OF w1]
  show ?thesis
    using w w1 veth_removed' [OF w2]
    by (simp add: x case_prod_beta accounted_cleaning_def clean_veth_def split: option.split)
qed

lemma clean_namespace_accounted:
  assumes "accounted_cleaning x" shows "accounted_cleaning (snd (clean_namespace a d x))"
proof -
  obtain s fs w where x: "x = (s, fs, w)" by (cases x)
  have w: "present w \<subseteq> roots s" using assms by (simp add: x accounted_cleaning_def)
  note w1 = clock' [OF w] note w2 = clock' [OF w1]
  show ?thesis
    using w w1 namespace_removed' [OF w2]
    by (simp add: x case_prod_beta accounted_cleaning_def clean_namespace_def split: namespace_state.split)
qed

lemma cleanup_accounts:
  assumes "present w \<subseteq> roots s"
  shows "present (snd (cleanup_state a s True w))
    \<subseteq> residual_roots (cleanup_residual (fst (cleanup_state a s True w)))"
proof -
  obtain t w0 where 0: "clock_now a w = (t, w0)" by (cases "clock_now a w")
  define d where "d = t + transaction_limit"
  define x where "x = clean_namespace a d (clean_veth a d (clean_connectivity a d (s, [], w0)))"
  have "accounted_cleaning (s, [], w0)" using clock' [OF assms] by (simp add: accounted_cleaning_def 0)
  then have x1: "accounted_cleaning (snd x)"
    unfolding x_def by (intro clean_namespace_accounted clean_veth_accounted clean_connectivity_accounted)
  then have x2: "accounted_cleaning (clean_veth a d (snd x))" by (rule clean_veth_accounted)
  obtain b s1 fs1 w1 where x: "x = (b, s1, fs1, w1)" by (cases x)
  obtain s2 fs2 w2 where y: "clean_veth a d (s1, fs1, w1) = (s2, fs2, w2)"
    by (cases "clean_veth a d (s1, fs1, w1)")
  show ?thesis
    using x1 x2 by (simp add: x y cleanup_state_def 0 accounted_cleaning_def Let_def flip: d_def x_def)
qed

lemma failure_accounted:
  "present w \<subseteq> roots s \<Longrightarrow> accounted (Inr (preparation_failure a st c (s, w)))"
  using cleanup_accounts [of w s]
  by (simp add: accounted_def preparation_failure_def result_roots_def case_prod_beta)

lemma before_deadline_accounted:
  assumes "present w \<subseteq> roots s"
    and "\<And>dl v. present v \<subseteq> roots s \<Longrightarrow> accounted (operation dl v)"
  shows "accounted (before_deadline a d st operation (s, w))"
proof -
  note w1 = clock' [OF assms(1)] note w2 = clock' [OF w1]
  show ?thesis
    using failure_accounted [OF w1] assms(2) [OF w2]
    by (simp add: before_deadline_def case_prod_beta)
qed

lemma run_configuration_accounted:
  assumes "present w \<subseteq> roots s" and "\<And>dl v. present (snd (operation dl v)) \<subseteq> present v"
  shows "accounted (run_configuration a d st operation (s, w))"
  unfolding run_configuration_def prod.case
proof (rule before_deadline_accounted [OF assms(1)])
  fix dl v assume "present v \<subseteq> roots s"
  then have "present (snd (operation dl v)) \<subseteq> roots s" using assms(2) by (rule subset_trans [rotated])
  then show "accounted (case operation dl v of (r, v1) \<Rightarrow>
      if \<not> op_succeeded r then Inr (preparation_failure a st (op_cause r) (s, v1)) else Inl (s, v1))"
    using failure_accounted by (simp add: case_prod_beta accounted_def)
qed

lemma setup_namespace_accounted:
  assumes "present w \<subseteq> roots s" shows "accounted (setup_namespace a d (s, w))"
  unfolding setup_namespace_def prod.case
proof (rule before_deadline_accounted [OF assms])
  fix dl v assume "present v \<subseteq> roots s"
  then show "accounted (case create_namespace a dl v of (r, v1) \<Rightarrow>
      let s1 = s\<lparr>namespace_root := mut_state r\<rparr>
      in if \<not> mut_succeeded r
         then Inr (preparation_failure a Stage_Namespace_Creation (mut_cause r) (s1, v1))
         else if proven_namespace (namespace_root s1) = None
         then Inr (preparation_failure a Stage_Namespace_Creation Cause_Identity_Unavailable (s1, v1))
         else Inl (s1, v1))"
    using failure_accounted subset_trans [OF namespace_made reported_mono]
    by (simp add: case_prod_beta accounted_def Let_def)
qed

lemma setup_veth_accounted:
  assumes "present w \<subseteq> roots s" shows "accounted (setup_veth a d (s, w))"
  unfolding setup_veth_def prod.case
proof (rule before_deadline_accounted [OF assms])
  fix dl v assume "present v \<subseteq> roots s"
  then show "accounted (case create_veth a dl v of (r, v1) \<Rightarrow>
      let s1 = s\<lparr>veth_root := mut_state r\<rparr>
      in if \<not> mut_succeeded r
         then Inr (preparation_failure a Stage_Veth_Creation (mut_cause r) (s1, v1))
         else if \<not> is_host_veth (veth_root s1)
         then Inr (preparation_failure a Stage_Veth_Creation Cause_Identity_Unavailable (s1, v1))
         else Inl (s1, v1))"
    using failure_accounted subset_trans [OF veth_made reported_mono]
    by (simp add: case_prod_beta accounted_def Let_def)
qed

lemma setup_move_accounted:
  assumes "present w \<subseteq> roots s" shows "accounted (setup_move a d n h (s, w))"
  unfolding setup_move_def prod.case
proof (rule before_deadline_accounted [OF assms])
  fix dl v assume "present v \<subseteq> roots s"
  then show "accounted (case move_peer a n h dl v of (r, v1) \<Rightarrow>
      let s1 = s\<lparr>veth_root := mut_state r\<rparr>
      in if \<not> mut_succeeded r
         then Inr (preparation_failure a Stage_Veth_Creation (mut_cause r) (s1, v1))
         else if \<not> is_placed_veth (veth_root s1)
         then Inr (preparation_failure a Stage_Veth_Creation Cause_Identity_Unavailable (s1, v1))
         else Inl (s1, v1))"
    using failure_accounted subset_trans [OF veth_moved reported_mono]
    by (simp add: case_prod_beta accounted_def Let_def)
qed

lemma setup_connectivity_accounted:
  assumes "present w \<subseteq> roots s" shows "accounted (setup_connectivity a d (s, w))"
  unfolding setup_connectivity_def prod.case
proof (rule before_deadline_accounted [OF assms])
  fix dl v assume "present v \<subseteq> roots s"
  then show "accounted (case configure_connectivity a dl v of (r, v1) \<Rightarrow>
      let s1 = s\<lparr>connectivity_root := mut_state r\<rparr>
      in if \<not> mut_succeeded r
         then Inr (preparation_failure a Stage_Internet_Connectivity (mut_cause r) (s1, v1))
         else if \<not> is_proven_connectivity (connectivity_root s1)
         then Inr (preparation_failure a Stage_Internet_Connectivity Cause_Identity_Unavailable (s1, v1))
         else Inl (s1, v1))"
    using failure_accounted subset_trans [OF connectivity_made reported_mono]
    by (simp add: case_prod_beta accounted_def Let_def)
qed

lemma and_then_accounted:
  "accounted x \<Longrightarrow> (\<And>s w. present w \<subseteq> roots s \<Longrightarrow> accounted (f (s, w))) \<Longrightarrow> accounted (and_then x f)"
proof (cases x)
  case (Inl y)
  moreover assume "accounted x" and f: "\<And>s w. present w \<subseteq> roots s \<Longrightarrow> accounted (f (s, w))"
  ultimately have "present (snd y) \<subseteq> roots (fst y)" by (simp add: accounted_def case_prod_beta)
  with f [of "snd y" "fst y"] Inl show ?thesis by (simp add: and_then_def)
qed (simp add: and_then_def accounted_def)

lemma setup_configuration_accounted:
  "present w \<subseteq> roots s \<Longrightarrow> accounted (setup_configuration a d n p (s, w))"
  unfolding setup_configuration_def
  by (intro and_then_accounted run_configuration_accounted host_address host_up loopback_up
      namespace_address namespace_up route)

lemma prepare_steps_accounted:
  assumes "present w \<subseteq> roots s" shows "accounted (prepare_steps a d (s, w))"
  unfolding prepare_steps_def
proof (intro and_then_accounted run_configuration_accounted preflight assms setup_namespace_accounted
    setup_veth_accounted setup_connectivity_accounted)
  fix s :: "('n, 'h, 'p, 'c) owner_state" and w assume "present w \<subseteq> roots s"
  then have "accounted (Inl (s, w))" by (simp add: accounted_def)
  with \<open>present w \<subseteq> roots s\<close> show "accounted (case (s, w) of (s, w) \<Rightarrow> case (namespace_root s, veth_root s) of
        (Namespace_Proven n, Host_Veth h) \<Rightarrow> setup_move a d n h (s, w) | _ \<Rightarrow> Inl (s, w))"
    by (auto intro: setup_move_accounted split: namespace_state.split veth_state.split)
next
  fix s :: "('n, 'h, 'p, 'c) owner_state" and w assume "present w \<subseteq> roots s"
  then have "accounted (Inl (s, w))" by (simp add: accounted_def)
  with \<open>present w \<subseteq> roots s\<close> show "accounted (case (s, w) of (s, w) \<Rightarrow> case (namespace_root s, veth_root s) of
        (Namespace_Proven n, Placed_Veth p) \<Rightarrow> setup_configuration a d n p (s, w) | _ \<Rightarrow> Inl (s, w))"
    by (auto intro: setup_configuration_accounted split: namespace_state.split veth_state.split)
qed

text \<open>Nothing leaks: what exists after the preparation is accounted for by its result.\<close>

lemma preparation_accounts:
  assumes "present w = {}"
  shows "present (snd (prepare_network_environment a w))
     \<subseteq> result_roots (fst (prepare_network_environment a w))"
proof -
  have "present (snd (clock_now a w)) \<subseteq> roots new_owner_state" using clock [of w] assms by simp
  from prepare_steps_accounted [OF this, of "fst (clock_now a w) + transaction_limit"] show ?thesis
    by (auto simp: prepare_network_environment_def accounted_def result_roots_def case_prod_beta
        split: sum.split)
qed

end

section \<open>The trace of an adapter\<close>

text \<open>
  The operations of \<open>testing::Operation\<close> with which the scripted adapter names the calls in
  its \<open>SharedTrace\<close>. \<open>traced a\<close> is the adapter \<open>a\<close> that also keeps, beside the world, the
  calls with their deadlines and the roots that the reports of the calls leave.
\<close>

type_synonym 'w traced_world = "'w \<times> (operation \<times> time_point) list \<times> root set"

definition traced_call ::
  "operation \<Rightarrow> ('r \<Rightarrow> root set \<Rightarrow> root set) \<Rightarrow> (time_point \<Rightarrow> 'w \<Rightarrow> 'r \<times> 'w)
     \<Rightarrow> time_point \<Rightarrow> 'w traced_world \<Rightarrow> 'r \<times> 'w traced_world" where
  "traced_call op note_roots f d = (\<lambda>(w, calls, known).
     case f d w of (r, w1) \<Rightarrow> (r, w1, calls @ [(op, d)], note_roots r known))"

definition traced ::
  "('n, 'h, 'p, 'c, 'w) semantic_adapter \<Rightarrow> ('n, 'h, 'p, 'c, 'w traced_world) semantic_adapter" where
  "traced a = \<lparr>
     clock_now = (\<lambda>(w, t). case clock_now a w of (r, w1) \<Rightarrow> (r, w1, t)),
     do_preflight = traced_call Op_Preflight (\<lambda>_ e. e) (do_preflight a),
     create_namespace = traced_call Op_Create_Namespace
       (\<lambda>r. reported Root_Namespace (mut_state r = Namespace_Absent)) (create_namespace a),
     create_veth = traced_call Op_Create_Veth
       (\<lambda>r. reported Root_Veth (mut_state r = Veth_Absent)) (create_veth a),
     move_peer = (\<lambda>n h. traced_call Op_Move_Peer
       (\<lambda>r. reported Root_Veth (mut_state r = Veth_Absent)) (move_peer a n h)),
     assign_host_address = (\<lambda>p. traced_call Op_Assign_Host_Address (\<lambda>_ e. e) (assign_host_address a p)),
     bring_host_link_up = (\<lambda>p. traced_call Op_Bring_Host_Link_Up (\<lambda>_ e. e) (bring_host_link_up a p)),
     bring_loopback_up = (\<lambda>n. traced_call Op_Bring_Loopback_Up (\<lambda>_ e. e) (bring_loopback_up a n)),
     assign_namespace_address = (\<lambda>n p. traced_call Op_Assign_Namespace_Address (\<lambda>_ e. e)
       (assign_namespace_address a n p)),
     bring_namespace_link_up = (\<lambda>n p. traced_call Op_Bring_Namespace_Link_Up (\<lambda>_ e. e)
       (bring_namespace_link_up a n p)),
     add_default_route = (\<lambda>n p. traced_call Op_Add_Default_Route (\<lambda>_ e. e) (add_default_route a n p)),
     set_settings = (\<lambda>n p dir current requested. traced_call Op_Set_Settings (\<lambda>_ e. e)
       (set_settings a n p dir current requested)),
     configure_connectivity = traced_call Op_Configure_Connectivity
       (\<lambda>r. reported Root_Connectivity (mut_state r = Connectivity_Absent)) (configure_connectivity a),
     remove_connectivity = (\<lambda>c. traced_call Op_Remove_Connectivity
       (\<lambda>r. reported Root_Connectivity (rem_state r = Connectivity_Absent)) (remove_connectivity a c)),
     remove_veth = (\<lambda>v m. traced_call Op_Remove_Veth
       (\<lambda>r. reported Root_Veth (rem_state r = Veth_Absent)) (remove_veth a v m)),
     remove_namespace = (\<lambda>n. traced_call Op_Remove_Namespace
       (\<lambda>r. reported Root_Namespace (rem_state r = Namespace_Absent)) (remove_namespace a n))\<rparr>"

definition known_roots :: "'w traced_world \<Rightarrow> root set" where
  "known_roots x = snd (snd x)"

definition calls_of :: "'w traced_world \<Rightarrow> (operation \<times> time_point) list" where
  "calls_of x = fst (snd x)"

interpretation tr: network_adapter "traced a" known_roots
  by unfold_locales
    (simp_all add: traced_def traced_call_def known_roots_def case_prod_beta)

section \<open>Tracing changes nothing\<close>

lemma traced_sel:
  "clock_now (traced a) = (\<lambda>(w, t). case clock_now a w of (r, w1) \<Rightarrow> (r, w1, t))"
  "do_preflight (traced a) = traced_call Op_Preflight (\<lambda>_ e. e) (do_preflight a)"
  "create_namespace (traced a) = traced_call Op_Create_Namespace
     (\<lambda>r. reported Root_Namespace (mut_state r = Namespace_Absent)) (create_namespace a)"
  "create_veth (traced a) = traced_call Op_Create_Veth
     (\<lambda>r. reported Root_Veth (mut_state r = Veth_Absent)) (create_veth a)"
  "move_peer (traced a) = (\<lambda>n h. traced_call Op_Move_Peer
     (\<lambda>r. reported Root_Veth (mut_state r = Veth_Absent)) (move_peer a n h))"
  "assign_host_address (traced a) = (\<lambda>p. traced_call Op_Assign_Host_Address (\<lambda>_ e. e) (assign_host_address a p))"
  "bring_host_link_up (traced a) = (\<lambda>p. traced_call Op_Bring_Host_Link_Up (\<lambda>_ e. e) (bring_host_link_up a p))"
  "bring_loopback_up (traced a) = (\<lambda>n. traced_call Op_Bring_Loopback_Up (\<lambda>_ e. e) (bring_loopback_up a n))"
  "assign_namespace_address (traced a) = (\<lambda>n p. traced_call Op_Assign_Namespace_Address (\<lambda>_ e. e)
     (assign_namespace_address a n p))"
  "bring_namespace_link_up (traced a) = (\<lambda>n p. traced_call Op_Bring_Namespace_Link_Up (\<lambda>_ e. e)
     (bring_namespace_link_up a n p))"
  "add_default_route (traced a) = (\<lambda>n p. traced_call Op_Add_Default_Route (\<lambda>_ e. e) (add_default_route a n p))"
  "configure_connectivity (traced a) = traced_call Op_Configure_Connectivity
     (\<lambda>r. reported Root_Connectivity (mut_state r = Connectivity_Absent)) (configure_connectivity a)"
  "remove_connectivity (traced a) = (\<lambda>c. traced_call Op_Remove_Connectivity
     (\<lambda>r. reported Root_Connectivity (rem_state r = Connectivity_Absent)) (remove_connectivity a c))"
  "remove_veth (traced a) = (\<lambda>v m. traced_call Op_Remove_Veth
     (\<lambda>r. reported Root_Veth (rem_state r = Veth_Absent)) (remove_veth a v m))"
  "remove_namespace (traced a) = (\<lambda>n. traced_call Op_Remove_Namespace
     (\<lambda>r. reported Root_Namespace (rem_state r = Namespace_Absent)) (remove_namespace a n))"
  by (simp_all add: traced_def)

lemma traced_call_sel [simp]:
  "fst (traced_call op g f d x) = fst (f d (fst x))"
  "fst (snd (traced_call op g f d x)) = snd (f d (fst x))"
  "calls_of (snd (traced_call op g f d x)) = calls_of x @ [(op, d)]"
  by (cases x; simp add: traced_call_def case_prod_beta calls_of_def)+

lemma traced_clock [simp]:
  "fst (clock_now (traced a) x) = fst (clock_now a (fst x))"
  "fst (snd (clock_now (traced a) x)) = snd (clock_now a (fst x))"
  "calls_of (snd (clock_now (traced a) x)) = calls_of x"
  by (cases x; simp add: traced_sel case_prod_beta calls_of_def)+

definition erase :: "'x \<times> 'w traced_world \<Rightarrow> 'x \<times> 'w" where
  "erase y = (fst y, fst (snd y))"

definition erase3 :: "'x \<times> 'y \<times> 'w traced_world \<Rightarrow> 'x \<times> 'y \<times> 'w" where
  "erase3 y = (fst y, fst (snd y), fst (snd (snd y)))"

lemma erase_clean_connectivity:
  "erase3 (clean_connectivity (traced a) d x) = clean_connectivity a d (erase3 x)"
  by (cases x) (auto simp: erase3_def clean_connectivity_def case_prod_beta traced_sel(13)
      split: connectivity_state.split)

lemma erase_clean_veth:
  "erase3 (clean_veth (traced a) d x) = clean_veth a d (erase3 x)"
  by (cases x) (auto simp: erase3_def clean_veth_def case_prod_beta traced_sel(14) split: option.split)

lemma erase_clean_namespace:
  "(fst (clean_namespace (traced a) d x), erase3 (snd (clean_namespace (traced a) d x)))
     = clean_namespace a d (erase3 x)"
  by (cases x) (auto simp: erase3_def clean_namespace_def case_prod_beta traced_sel(15)
      split: namespace_state.split)

definition cleaned ::
  "('n, 'h, 'p, 'c, 'w) semantic_adapter \<Rightarrow> ('n, 'h, 'p, 'c) owner_state \<Rightarrow> 'w
     \<Rightarrow> ('n, 'h, 'p, 'c, 'w) cleaning" where
  "cleaned a s w =
     (let d = fst (clock_now a w) + transaction_limit;
          y = clean_namespace a d (clean_veth a d (clean_connectivity a d (s, [], snd (clock_now a w))))
      in if fst y then clean_veth a d (snd y) else snd y)"

lemma cleanup_state_cleaned:
  "cleanup_state a s b w =
     (\<lparr>cleanup_failures = fst (snd (cleaned a s w)) @
         (if b \<and> is_unconfirmed s then [(Stage_Cleanup, Cause_Incomplete_Cleanup)] else []),
       cleanup_residual =
         (if b \<and> has_residual (fst (cleaned a s w)) then Some (fst (cleaned a s w)) else None)\<rparr>,
      snd (snd (cleaned a s w)))"
  by (simp add: cleanup_state_def cleaned_def case_prod_beta Let_def)

lemma erase_cleaned: "erase3 (cleaned (traced a) s x) = cleaned a s (fst x)"
proof -
  define d where "d = fst (clock_now a (fst x)) + transaction_limit"
  define y where "y = clean_namespace (traced a) d (clean_veth (traced a) d
    (clean_connectivity (traced a) d (s, [], snd (clock_now (traced a) x))))"
  have y: "clean_namespace a d (clean_veth a d
      (clean_connectivity a d (s, [], snd (clock_now a (fst x))))) = (fst y, erase3 (snd y))"
    by (simp add: y_def erase_clean_namespace erase_clean_veth erase_clean_connectivity)
      (simp add: erase3_def)
  show ?thesis
    by (simp add: cleaned_def Let_def y erase_clean_veth flip: d_def y_def)
qed

lemma erase_cleanup: "erase (cleanup_state (traced a) s b x) = cleanup_state a s b (fst x)"
  by (simp add: cleanup_state_cleaned erase_def flip: erase_cleaned) (simp add: erase3_def)

definition erase_progress ::
  "('n, 'h, 'p, 'c, 'w traced_world) progress \<Rightarrow> ('n, 'h, 'p, 'c, 'w) progress" where
  "erase_progress = map_sum erase erase"

lemma erase_failure:
  "erase (preparation_failure (traced a) st c (s, x)) = preparation_failure a st c (s, fst x)"
  using erase_cleanup [of a s True x, symmetric]
  by (simp add: preparation_failure_def case_prod_beta) (simp add: erase_def)

lemma erase_before_deadline:
  assumes "\<And>dl v. erase_progress (f dl v) = g dl (fst v)"
  shows "erase_progress (before_deadline (traced a) d st f (s, x)) = before_deadline a d st g (s, fst x)"
  by (simp add: before_deadline_def case_prod_beta assms) (simp add: erase_progress_def erase_failure)

lemma erase_run_configuration:
  assumes "\<And>dl v. fst (f dl v) = fst (g dl (fst v)) \<and> fst (snd (f dl v)) = snd (g dl (fst v))"
  shows "erase_progress (run_configuration (traced a) d st f (s, x)) = run_configuration a d st g (s, fst x)"
  unfolding run_configuration_def prod.case
  by (rule erase_before_deadline)
    (simp add: case_prod_beta erase_progress_def erase_failure assms, simp add: erase_def assms)

lemma erase_setup_namespace:
  "erase_progress (setup_namespace (traced a) d (s, x)) = setup_namespace a d (s, fst x)"
  unfolding setup_namespace_def prod.case
  by (rule erase_before_deadline)
    (simp add: case_prod_beta erase_progress_def erase_failure Let_def traced_sel, simp add: erase_def)

lemma erase_setup_veth:
  "erase_progress (setup_veth (traced a) d (s, x)) = setup_veth a d (s, fst x)"
  unfolding setup_veth_def prod.case
  by (rule erase_before_deadline)
    (simp add: case_prod_beta erase_progress_def erase_failure Let_def traced_sel, simp add: erase_def)

lemma erase_setup_move:
  "erase_progress (setup_move (traced a) d n h (s, x)) = setup_move a d n h (s, fst x)"
  unfolding setup_move_def prod.case
  by (rule erase_before_deadline)
    (simp add: case_prod_beta erase_progress_def erase_failure Let_def traced_sel, simp add: erase_def)

lemma erase_setup_connectivity:
  "erase_progress (setup_connectivity (traced a) d (s, x)) = setup_connectivity a d (s, fst x)"
  unfolding setup_connectivity_def prod.case
  by (rule erase_before_deadline)
    (simp add: case_prod_beta erase_progress_def erase_failure Let_def traced_sel, simp add: erase_def)

lemma erase_and_then:
  assumes "erase_progress y = x" and "\<And>s v. erase_progress (f (s, v)) = g (s, fst v)"
  shows "erase_progress (and_then y f) = and_then x g"
  unfolding assms(1) [symmetric]
  using assms(2) by (cases y) (auto simp: and_then_def erase_progress_def erase_def)

lemma erase_setup_configuration:
  "erase_progress (setup_configuration (traced a) d n p (s, x)) = setup_configuration a d n p (s, fst x)"
  unfolding setup_configuration_def
  by (intro erase_and_then erase_run_configuration) (simp_all add: traced_sel)

lemma erase_prepare_steps:
  "erase_progress (prepare_steps (traced a) d (s, x)) = prepare_steps a d (s, fst x)"
  unfolding prepare_steps_def
  by (intro erase_and_then erase_run_configuration erase_setup_namespace erase_setup_veth
      erase_setup_connectivity)
    (auto simp: traced_sel erase_setup_move erase_setup_configuration split: namespace_state.split veth_state.split,
      simp_all add: erase_progress_def erase_def)

lemma erase_prepare:
  "erase (prepare_network_environment (traced a) x) = prepare_network_environment a (fst x)"
  using erase_prepare_steps [of a "fst (clock_now a (fst x)) + transaction_limit" new_owner_state
      "snd (clock_now (traced a) x)", symmetric]
  by (simp add: prepare_network_environment_def case_prod_beta)
    (auto simp: erase_progress_def erase_def split: sum.split)

section \<open>The order of the calls and their deadlines\<close>

text \<open>The calls of a preparation and the stage each one is reported with.\<close>

definition setup_calls :: "(operation \<times> stage) list" where
  "setup_calls =
     [(Op_Preflight, Stage_Preflight), (Op_Create_Namespace, Stage_Namespace_Creation),
      (Op_Create_Veth, Stage_Veth_Creation), (Op_Move_Peer, Stage_Veth_Creation),
      (Op_Assign_Host_Address, Stage_Host_Configuration), (Op_Bring_Host_Link_Up, Stage_Host_Configuration),
      (Op_Bring_Loopback_Up, Stage_Namespace_Configuration),
      (Op_Assign_Namespace_Address, Stage_Namespace_Configuration),
      (Op_Bring_Namespace_Link_Up, Stage_Namespace_Configuration),
      (Op_Add_Default_Route, Stage_Route_Configuration),
      (Op_Configure_Connectivity, Stage_Internet_Connectivity)]"

definition cleanup_calls :: "operation list" where
  "cleanup_calls = [Op_Remove_Connectivity, Op_Remove_Veth, Op_Remove_Namespace, Op_Remove_Veth]"

definition all_by :: "time_point \<Rightarrow> (operation \<times> time_point) list \<Rightarrow> bool" where
  "all_by d calls \<longleftrightarrow> list_all (\<lambda>c. snd c \<le> d) calls"

lemma all_by_simps [simp]:
  "all_by d []" "all_by d (xs @ ys) \<longleftrightarrow> all_by d xs \<and> all_by d ys" "all_by d [(op, e)] \<longleftrightarrow> e \<le> d"
  by (simp_all add: all_by_def)

lemma operation_deadline_le [simp]: "operation_deadline t d \<le> d"
  by (simp add: operation_deadline_def)

lemma operation_deadline_limit: "operation_deadline t d \<le> t + operation_limit"
  by (simp add: operation_deadline_def)

definition adds :: "operation list \<Rightarrow> time_point \<Rightarrow> 'w traced_world \<Rightarrow> 'w traced_world \<Rightarrow> bool" where
  "adds ops d x y \<longleftrightarrow> (\<exists>cs. calls_of y = calls_of x @ cs \<and> subseq (map fst cs) ops \<and> all_by d cs)"

lemma adds_none: "calls_of y = calls_of x \<Longrightarrow> adds ops d x y"
  by (simp add: adds_def)

lemma adds_one: "calls_of y = calls_of x @ [(op, dl)] \<Longrightarrow> dl \<le> d \<Longrightarrow> adds [op] d x y"
  by (simp add: adds_def)

lemma adds_trans: "adds ops d x y \<Longrightarrow> adds ops' d y z \<Longrightarrow> adds (ops @ ops') d x z"
  unfolding adds_def by (force intro: list_emb_append_mono)

lemma clean_connectivity_adds:
  "adds [Op_Remove_Connectivity] d (snd (snd x)) (snd (snd (clean_connectivity (traced a) d x)))"
  by (cases x) (auto simp: clean_connectivity_def case_prod_beta traced_sel(13)
      intro: adds_none adds_one split: connectivity_state.split)

lemma clean_veth_adds:
  "adds [Op_Remove_Veth] d (snd (snd x)) (snd (snd (clean_veth (traced a) d x)))"
  by (cases x) (auto simp: clean_veth_def case_prod_beta traced_sel(14)
      intro: adds_none adds_one split: option.split)

lemma clean_namespace_adds:
  "adds [Op_Remove_Namespace] d (snd (snd x)) (snd (snd (snd (clean_namespace (traced a) d x))))"
  by (cases x) (auto simp: clean_namespace_def case_prod_beta traced_sel(15)
      intro: adds_none adds_one split: namespace_state.split)

lemma cleaned_adds:
  "adds cleanup_calls (fst (clock_now a (fst x)) + transaction_limit) x (snd (snd (cleaned (traced a) s x)))"
proof -
  define d where "d = fst (clock_now a (fst x)) + transaction_limit"
  define x0 where "x0 = snd (clock_now (traced a) x)"
  define x1 where "x1 = clean_connectivity (traced a) d (s, [], x0)"
  define x2 where "x2 = clean_veth (traced a) d x1"
  define x3 where "x3 = clean_namespace (traced a) d x2"
  have 0: "adds [] d x x0" by (rule adds_none) (simp add: x0_def)
  have 1: "adds [Op_Remove_Connectivity] d x0 (snd (snd x1))"
    using clean_connectivity_adds [of d "(s, [], x0)" a] by (simp add: x1_def)
  have 2: "adds [Op_Remove_Veth] d (snd (snd x1)) (snd (snd x2))"
    unfolding x2_def by (rule clean_veth_adds)
  have 3: "adds [Op_Remove_Namespace] d (snd (snd x2)) (snd (snd (snd x3)))"
    unfolding x3_def by (rule clean_namespace_adds)
  have 4: "adds [Op_Remove_Veth] d (snd (snd (snd x3)))
      (snd (snd (if fst x3 then clean_veth (traced a) d (snd x3) else snd x3)))"
    by (auto intro: clean_veth_adds adds_none)
  have "adds cleanup_calls d x
      (snd (snd (if fst x3 then clean_veth (traced a) d (snd x3) else snd x3)))"
    using adds_trans [OF adds_trans [OF adds_trans [OF adds_trans [OF 0 1] 2] 3] 4]
    by (simp add: cleanup_calls_def)
  then show ?thesis
    by (simp add: cleaned_def Let_def split: if_splits flip: d_def x0_def x1_def x2_def x3_def)
qed

definition setup_path :: "time_point \<Rightarrow> nat \<Rightarrow> (operation \<times> time_point) list \<Rightarrow> bool" where
  "setup_path d k calls \<longleftrightarrow>
     map fst calls = take k (map fst setup_calls) \<and> k \<le> length setup_calls \<and> all_by d calls"

text \<open>
  The stage that a failure after \<open>k\<close> calls names: the stage of the last call, or with the
  cause \<open>timeout\<close> that of the call which was not made any more.
\<close>

definition failed_at :: "nat \<Rightarrow> failure \<Rightarrow> bool" where
  "failed_at k f \<longleftrightarrow>
     (0 < k \<and> fst f = snd (setup_calls ! (k - 1)))
     \<or> (k < length setup_calls \<and> f = (snd (setup_calls ! k), Cause_Timeout))"

definition failed_run ::
  "time_point \<Rightarrow> ('n, 'h, 'p, 'c) preparation_result \<Rightarrow> (operation \<times> time_point) list \<Rightarrow> bool" where
  "failed_run d r calls \<longleftrightarrow>
     (\<exists>k setup cleanup f fs res. r = Preparation_Failed f fs res \<and> calls = setup @ cleanup
        \<and> setup_path d k setup \<and> failed_at k f \<and> subseq (map fst cleanup) cleanup_calls)"

text \<open>The proofs that the owner state holds after \<open>k\<close> successful calls.\<close>

definition proofs_at :: "nat \<Rightarrow> ('n, 'h, 'p, 'c) owner_state \<Rightarrow> bool" where
  "proofs_at k s \<longleftrightarrow>
     (2 \<le> k \<longrightarrow> proven_namespace (namespace_root s) \<noteq> None)
     \<and> (k = 3 \<longrightarrow> is_host_veth (veth_root s))
     \<and> (4 \<le> k \<longrightarrow> is_placed_veth (veth_root s))
     \<and> (11 \<le> k \<longrightarrow> is_proven_connectivity (connectivity_root s))
     \<and> outbound_settings s = Some default_settings \<and> inbound_settings s = Some default_settings"

definition follows ::
  "time_point \<Rightarrow> nat \<Rightarrow> ('n, 'h, 'p, 'c, 'w traced_world) progress \<Rightarrow> bool" where
  "follows d k y = (case y of
     Inl (s, x) \<Rightarrow> setup_path d k (calls_of x) \<and> proofs_at k s
   | Inr (r, x) \<Rightarrow> failed_run d r (calls_of x))"

lemma setup_path_step:
  assumes "setup_path d k calls" "k < length setup_calls" "op = fst (setup_calls ! k)" "dl \<le> d"
  shows "setup_path d (Suc k) (calls @ [(op, dl)])"
  using assms by (simp add: setup_path_def take_Suc_conv_app_nth)

lemma follows_failure:
  assumes "setup_path d k (calls_of x)" "failed_at k (st, c)"
  shows "follows d m (Inr (preparation_failure (traced a) st c (s, x)))"
proof -
  have "failed_run d (fst (preparation_failure (traced a) st c (s, x)))
      (calls_of (snd (preparation_failure (traced a) st c (s, x))))"
    using cleaned_adds [of a x s] assms
    by (auto simp: failed_run_def preparation_failure_def case_prod_beta cleanup_state_cleaned adds_def)
  then show ?thesis by (simp add: follows_def case_prod_beta)
qed

lemma follows_before_deadline:
  assumes "setup_path d k (calls_of x)" "k < length setup_calls" "st = snd (setup_calls ! k)"
    and "\<And>dl v. dl \<le> d \<Longrightarrow> calls_of v = calls_of x \<Longrightarrow> follows d m (f dl v)"
  shows "follows d m (before_deadline (traced a) d st f (s, x))"
proof -
  have "failed_at k (st, Cause_Timeout)" using assms(2,3) by (simp add: failed_at_def)
  with assms(1,4) show ?thesis
    by (simp add: before_deadline_def case_prod_beta follows_failure)
qed

lemma follows_call:
  fixes a :: "('n, 'h, 'p, 'c, 'w) semantic_adapter"
    and call :: "time_point \<Rightarrow> 'w traced_world \<Rightarrow> 'r \<times> 'w traced_world"
    and f :: "time_point \<Rightarrow> 'w traced_world \<Rightarrow> ('n, 'h, 'p, 'c, 'w traced_world) progress"
  assumes "setup_path d k (calls_of x)" "k < length setup_calls" "setup_calls ! k = (op, st)"
    and "\<And>dl v. calls_of (snd (call dl v)) = calls_of v @ [(op, dl)]"
    and "\<And>dl v. setup_path d (Suc k) (calls_of (snd (call dl v)))
      \<Longrightarrow> (\<And>s c. follows d (Suc k) (Inr (preparation_failure (traced a) st c (s, snd (call dl v)))))
      \<Longrightarrow> (\<And>s :: ('n, 'h, 'p, 'c) owner_state. proofs_at (Suc k) s \<Longrightarrow>
            follows d (Suc k) (Inl (s, snd (call dl v)) :: ('n, 'h, 'p, 'c, 'w traced_world) progress)) \<Longrightarrow> follows d (Suc k) (f dl v)"
  shows "follows d (Suc k) (before_deadline (traced a) d st f (s, x))"
proof (rule follows_before_deadline [OF assms(1,2)])
  fix dl and v :: "'w traced_world"
  assume "dl \<le> d" "calls_of v = calls_of x"
  with assms(1-4) have p: "setup_path d (Suc k) (calls_of (snd (call dl v)))"
    by (simp add: setup_path_step)
  moreover have "failed_at (Suc k) (st, c)" for c using assms(3) by (simp add: failed_at_def)
  ultimately show "follows d (Suc k) (f dl v)"
    by (intro assms(5) follows_failure) (simp_all add: follows_def)
qed (simp add: assms(3))

lemma follows_configuration:
  assumes "setup_path d k (calls_of x)" "k < length setup_calls" "setup_calls ! k = (op, st)"
    and "\<And>dl v. calls_of (snd (operation dl v)) = calls_of v @ [(op, dl)]"
    and "proofs_at (Suc k) s"
  shows "follows d (Suc k) (run_configuration (traced a) d st operation (s, x))"
  unfolding run_configuration_def prod.case
  by (rule follows_call [OF assms(1-4)]) (simp add: case_prod_beta assms(5))

lemma setup_calls_nth:
  "length setup_calls = 11"
  "setup_calls ! 0 = (Op_Preflight, Stage_Preflight)"
  "setup_calls ! Suc 0 = (Op_Create_Namespace, Stage_Namespace_Creation)"
  "setup_calls ! 2 = (Op_Create_Veth, Stage_Veth_Creation)"
  "setup_calls ! 3 = (Op_Move_Peer, Stage_Veth_Creation)"
  "setup_calls ! 4 = (Op_Assign_Host_Address, Stage_Host_Configuration)"
  "setup_calls ! 5 = (Op_Bring_Host_Link_Up, Stage_Host_Configuration)"
  "setup_calls ! 6 = (Op_Bring_Loopback_Up, Stage_Namespace_Configuration)"
  "setup_calls ! 7 = (Op_Assign_Namespace_Address, Stage_Namespace_Configuration)"
  "setup_calls ! 8 = (Op_Bring_Namespace_Link_Up, Stage_Namespace_Configuration)"
  "setup_calls ! 9 = (Op_Add_Default_Route, Stage_Route_Configuration)"
  "setup_calls ! 10 = (Op_Configure_Connectivity, Stage_Internet_Connectivity)"
  by (simp_all add: setup_calls_def)

lemma follows_namespace:
  "setup_path d 1 (calls_of x) \<Longrightarrow> proofs_at 1 s \<Longrightarrow> follows d (Suc 1) (setup_namespace (traced a) d (s, x))"
  unfolding setup_namespace_def prod.case
  by (rule follows_call [where call = "create_namespace (traced a)"])
    (simp_all add: setup_calls_nth traced_sel case_prod_beta Let_def proofs_at_def)

lemma follows_veth:
  "setup_path d 2 (calls_of x) \<Longrightarrow> proofs_at 2 s \<Longrightarrow> follows d (Suc 2) (setup_veth (traced a) d (s, x))"
  unfolding setup_veth_def prod.case
  by (rule follows_call [where call = "create_veth (traced a)"])
    (simp_all add: setup_calls_nth traced_sel case_prod_beta Let_def proofs_at_def)

lemma follows_move:
  "setup_path d 3 (calls_of x) \<Longrightarrow> proofs_at 3 s \<Longrightarrow> follows d (Suc 3) (setup_move (traced a) d n h (s, x))"
  unfolding setup_move_def prod.case
  by (rule follows_call [where call = "move_peer (traced a) n h"])
    (simp_all add: setup_calls_nth traced_sel case_prod_beta Let_def proofs_at_def)

lemma follows_connectivity:
  "setup_path d 10 (calls_of x) \<Longrightarrow> proofs_at 10 s
     \<Longrightarrow> follows d (Suc 10) (setup_connectivity (traced a) d (s, x))"
  unfolding setup_connectivity_def prod.case
  by (rule follows_call [where call = "configure_connectivity (traced a)"])
    (simp_all add: setup_calls_nth traced_sel case_prod_beta Let_def proofs_at_def)

lemma follows_and_then:
  assumes "follows d k y"
    and "\<And>s x. setup_path d k (calls_of x) \<Longrightarrow> proofs_at k s \<Longrightarrow> follows d m (f (s, x))"
  shows "follows d m (and_then y f)"
  using assms by (cases y) (auto simp: and_then_def follows_def)

lemma proofs_at_configuration:
  "proofs_at k s \<Longrightarrow> 4 \<le> k \<Longrightarrow> k < 10 \<Longrightarrow> proofs_at (Suc k) s"
  by (simp add: proofs_at_def)

lemma follows_setup_configuration:
  assumes "setup_path d 4 (calls_of x)" "proofs_at 4 s"
  shows "follows d 10 (setup_configuration (traced a) d n p (s, x))"
proof -
  have step: "follows d (Suc k) (run_configuration (traced a) d st operation (s, x))"
    if "setup_path d k (calls_of x)" "proofs_at k s" "4 \<le> k" "k < 10" "setup_calls ! k = (op, st)"
      "\<And>dl v. calls_of (snd (operation dl v)) = calls_of v @ [(op, dl)]"
    for k op st operation s x
    using that by (intro follows_configuration proofs_at_configuration) (simp_all add: setup_calls_nth)
  show ?thesis
    unfolding setup_configuration_def
    apply (rule follows_and_then [where k = 9])
    apply (rule follows_and_then [where k = 8])
    apply (rule follows_and_then [where k = 7])
    apply (rule follows_and_then [where k = 6])
    apply (rule follows_and_then [where k = 5])
    using step [of 4 x s Op_Assign_Host_Address Stage_Host_Configuration]
      step [of 5 _ _ Op_Bring_Host_Link_Up Stage_Host_Configuration]
      step [of 6 _ _ Op_Bring_Loopback_Up Stage_Namespace_Configuration]
      step [of 7 _ _ Op_Assign_Namespace_Address Stage_Namespace_Configuration]
      step [of 8 _ _ Op_Bring_Namespace_Link_Up Stage_Namespace_Configuration]
      step [of 9 _ _ Op_Add_Default_Route Stage_Route_Configuration] assms
    by (simp_all add: setup_calls_nth traced_sel)
qed

lemma proof_cases:
  "proven_namespace n0 \<noteq> None \<Longrightarrow> \<exists>n. n0 = Namespace_Proven n"
  "is_host_veth v \<Longrightarrow> \<exists>h. v = Host_Veth h"
  "is_placed_veth v \<Longrightarrow> \<exists>p. v = Placed_Veth p"
  "is_proven_connectivity c0 \<Longrightarrow> \<exists>c. c0 = Connectivity_Proven c"
  apply (cases n0; simp)
  apply (cases v; simp)
  apply (cases v; simp)
  apply (cases c0; simp)
  done

lemma proven_roots:
  "proofs_at k s \<Longrightarrow> 2 \<le> k \<Longrightarrow> \<exists>n. namespace_root s = Namespace_Proven n"
  "proofs_at 3 s \<Longrightarrow> \<exists>h. veth_root s = Host_Veth h"
  "proofs_at k s \<Longrightarrow> 4 \<le> k \<Longrightarrow> \<exists>p. veth_root s = Placed_Veth p"
  "proofs_at k s \<Longrightarrow> 11 \<le> k \<Longrightarrow> \<exists>c. connectivity_root s = Connectivity_Proven c"
  unfolding proofs_at_def by (auto intro!: proof_cases)

lemma follows_prepare_steps:
  assumes "calls_of x = []"
  shows "follows d 11 (prepare_steps (traced a) d (new_owner_state, x))"
  unfolding prepare_steps_def
proof (rule follows_and_then [where k = 10], rule follows_and_then [where k = 4],
    rule follows_and_then [where k = 3], rule follows_and_then [where k = 2],
    rule follows_and_then [where k = 1])
  show "follows d 1 (run_configuration (traced a) d Stage_Preflight (do_preflight (traced a)) (new_owner_state, x))"
    using follows_configuration [of d 0 x Op_Preflight Stage_Preflight "do_preflight (traced a)" new_owner_state a] assms
    by (simp add: setup_calls_nth setup_path_def traced_sel proofs_at_def new_owner_state_def)
next
  fix s :: "('b, 'c, 'd, 'e) owner_state" and x :: "'a traced_world"
  assume 3: "setup_path d 3 (calls_of x)" "proofs_at 3 s"
  then obtain n h where "namespace_root s = Namespace_Proven n" "veth_root s = Host_Veth h"
    using proven_roots(1) [of 3 s] proven_roots(2) [of s] by auto
  with follows_move [OF 3, of a n h]
  show "follows d 4 (case (s, x) of (s, w) \<Rightarrow> case (namespace_root s, veth_root s) of
        (Namespace_Proven n, Host_Veth h) \<Rightarrow> setup_move (traced a) d n h (s, w) | _ \<Rightarrow> Inl (s, w))"
    by simp
next
  fix s :: "('b, 'c, 'd, 'e) owner_state" and x :: "'a traced_world"
  assume 4: "setup_path d 4 (calls_of x)" "proofs_at 4 s"
  then obtain n p where "namespace_root s = Namespace_Proven n" "veth_root s = Placed_Veth p"
    using proven_roots(1,3) [of 4 s] by auto
  with follows_setup_configuration [OF 4, of a n p]
  show "follows d 10 (case (s, x) of (s, w) \<Rightarrow> case (namespace_root s, veth_root s) of
        (Namespace_Proven n, Placed_Veth p) \<Rightarrow> setup_configuration (traced a) d n p (s, w) | _ \<Rightarrow> Inl (s, w))"
    by simp
qed (use follows_namespace follows_veth follows_connectivity in \<open>simp_all add: eval_nat_numeral\<close>)

lemma prepare_follows:
  fixes a :: "('n, 'h, 'p, 'c, 'w) semantic_adapter"
  defines "d w \<equiv> fst (clock_now a w) + transaction_limit"
    and "run w \<equiv> prepare_network_environment (traced a) (w, [], {})"
  shows "case fst (run w) of
      Prepared s \<Rightarrow> setup_path (d w) 11 (calls_of (snd (run w))) \<and> proofs_at 11 s
    | Preparation_Failed f fs res \<Rightarrow> failed_run (d w) (fst (run w)) (calls_of (snd (run w)))"
proof -
  define x where "x = snd (clock_now (traced a) (w, [], {}))"
  have "calls_of x = []" by (simp add: x_def) (simp add: calls_of_def)
  from follows_prepare_steps [OF this, of "d w" a] show ?thesis
    by (auto simp: run_def d_def prepare_network_environment_def case_prod_beta follows_def failed_run_def
        split: sum.splits preparation_result.splits simp flip: x_def)
qed

section \<open>Cleanup\<close>

definition unconfirmed_roots :: "('n, 'h, 'p, 'c) owner_state \<Rightarrow> root set" where
  "unconfirmed_roots s =
     (if namespace_root s = Namespace_Unconfirmed then {Root_Namespace} else {})
     \<union> (if veth_root s = Veth_Unconfirmed then {Root_Veth} else {})
     \<union> (if connectivity_root s = Connectivity_Unconfirmed then {Root_Connectivity} else {})"

fun removal_of :: "root \<Rightarrow> operation" where
  "removal_of Root_Namespace = Op_Remove_Namespace"
| "removal_of Root_Veth = Op_Remove_Veth"
| "removal_of Root_Connectivity = Op_Remove_Connectivity"

lemma unconfirmed_roots_iff [simp]:
  "Root_Namespace \<in> unconfirmed_roots s \<longleftrightarrow> namespace_root s = Namespace_Unconfirmed"
  "Root_Veth \<in> unconfirmed_roots s \<longleftrightarrow> veth_root s = Veth_Unconfirmed"
  "Root_Connectivity \<in> unconfirmed_roots s \<longleftrightarrow> connectivity_root s = Connectivity_Unconfirmed"
  by (simp_all add: unconfirmed_roots_def)

lemma roots_iff [simp]:
  "Root_Namespace \<in> roots s \<longleftrightarrow> namespace_root s \<noteq> Namespace_Absent"
  "Root_Veth \<in> roots s \<longleftrightarrow> veth_root s \<noteq> Veth_Absent"
  "Root_Connectivity \<in> roots s \<longleftrightarrow> connectivity_root s \<noteq> Connectivity_Absent"
  by (simp_all add: roots_def)

lemma unconfirmed_roots_updates [simp]:
  "unconfirmed_roots (s\<lparr>namespace_root := n\<rparr>)
     = reported Root_Namespace (n \<noteq> Namespace_Unconfirmed) (unconfirmed_roots s)"
  "unconfirmed_roots (s\<lparr>veth_root := v\<rparr>)
     = reported Root_Veth (v \<noteq> Veth_Unconfirmed) (unconfirmed_roots s)"
  "unconfirmed_roots (s\<lparr>connectivity_root := c\<rparr>)
     = reported Root_Connectivity (c \<noteq> Connectivity_Unconfirmed) (unconfirmed_roots s)"
  by (auto simp: unconfirmed_roots_def reported_def)

lemma unconfirmed_roots_empty: "unconfirmed_roots s = {} \<longleftrightarrow> \<not> is_unconfirmed s"
  by (auto simp: unconfirmed_roots_def is_unconfirmed_def)

lemma reported_facts:
  "r \<in> e \<Longrightarrow> reported r b e \<subseteq> e" "reported r b e - {r} = e - {r}" "r \<in> reported r b e \<longleftrightarrow> \<not> b"
  "r \<notin> e \<Longrightarrow> e \<subseteq> reported r b e"
  by (auto simp: reported_def)

text \<open>What one step of the cleanup, for one root, keeps.\<close>

definition cleans :: "root \<Rightarrow> ('n, 'h, 'p, 'c, 'w traced_world) cleaning
    \<Rightarrow> ('n, 'h, 'p, 'c, 'w traced_world) cleaning \<Rightarrow> bool" where
  "cleans r x y \<longleftrightarrow>
     roots (fst y) \<subseteq> roots (fst x) \<and> unconfirmed_roots (fst x) \<subseteq> unconfirmed_roots (fst y)
     \<and> unconfirmed_roots (fst y) - {r} = unconfirmed_roots (fst x) - {r}
     \<and> (fst (snd y) = [] \<longrightarrow> fst (snd x) = []
          \<and> (r \<in> roots (fst y) \<longrightarrow> r \<in> unconfirmed_roots (fst x)))
     \<and> (calls_of (snd (snd y)) = calls_of (snd (snd x))
        \<or> r \<notin> unconfirmed_roots (fst x)
          \<and> (\<exists>d. calls_of (snd (snd y)) = calls_of (snd (snd x)) @ [(removal_of r, d)]))"

lemma clean_connectivity_cleans: "cleans Root_Connectivity x (clean_connectivity (traced a) d x)"
  by (cases x; cases "connectivity_root (fst x)")
    (simp_all add: cleans_def clean_connectivity_def case_prod_beta traced_sel(13) reported_facts)

lemma clean_veth_cleans: "cleans Root_Veth x (clean_veth (traced a) d x)"
  by (cases x; cases "veth_root (fst x)")
    (simp_all add: cleans_def clean_veth_def case_prod_beta traced_sel(14) reported_facts)

lemma clean_namespace_cleans: "cleans Root_Namespace x (snd (clean_namespace (traced a) d x))"
  by (cases x; cases "namespace_root (fst x)")
    (simp_all add: cleans_def clean_namespace_def case_prod_beta traced_sel(15) reported_facts)

definition made :: "'w traced_world \<Rightarrow> operation set" where
  "made x = fst ` set (calls_of x)"

lemma all_roots: "(\<forall>r. P r) \<longleftrightarrow> P Root_Namespace \<and> P Root_Veth \<and> P Root_Connectivity"
  by (metis root.exhaust)

text \<open>The whole cleanup, with the calls after the clock was read.\<close>

definition cleans_all :: "('n, 'h, 'p, 'c) owner_state \<Rightarrow> 'w traced_world
    \<Rightarrow> ('n, 'h, 'p, 'c, 'w traced_world) cleaning \<Rightarrow> bool" where
  "cleans_all s x y \<longleftrightarrow>
     roots (fst y) \<subseteq> roots s \<and> unconfirmed_roots s \<subseteq> unconfirmed_roots (fst y)
     \<and> (fst (snd y) = [] \<longrightarrow> roots (fst y) \<subseteq> unconfirmed_roots s)
     \<and> (made (snd (snd y)) \<inter> removal_of ` unconfirmed_roots s
          \<subseteq> made x)"

lemma removal_of_inject [simp]: "removal_of r = removal_of r' \<longleftrightarrow> r = r'"
  by (cases r; cases r') simp_all

lemma cleans_avoids:
  assumes "cleans r x y" "u \<subseteq> unconfirmed_roots (fst x)"
  shows "u \<subseteq> unconfirmed_roots (fst y)"
    and "made (snd (snd y)) \<inter> removal_of ` u \<subseteq> made (snd (snd x))"
proof -
  show "u \<subseteq> unconfirmed_roots (fst y)" using assms by (auto simp: cleans_def)
  have "made (snd (snd y)) \<subseteq> made (snd (snd x))
      \<or> r \<notin> u \<and> made (snd (snd y)) = insert (removal_of r) (made (snd (snd x)))"
    using assms by (auto simp: cleans_def made_def)
  then show "made (snd (snd y)) \<inter> removal_of ` u \<subseteq> made (snd (snd x))" by auto
qed

lemma cleans_roots:
  assumes "cleans r x y"
  shows "roots (fst y) \<subseteq> roots (fst x)"
    and "unconfirmed_roots (fst y) - {r} = unconfirmed_roots (fst x) - {r}"
    and "fst (snd y) = [] \<Longrightarrow> fst (snd x) = []"
    and "fst (snd y) = [] \<Longrightarrow> r \<in> roots (fst y) \<longrightarrow> r \<in> unconfirmed_roots (fst x)"
  using assms by (simp_all add: cleans_def)

lemma cleaned_cleans: "cleans_all s x (cleaned (traced a) s x)"
proof -
  define d where "d = fst (clock_now a (fst x)) + transaction_limit"
  define x0 where "x0 = (s, [] :: failure list, snd (clock_now (traced a) x))"
  define x1 where "x1 = clean_connectivity (traced a) d x0"
  define x2 where "x2 = clean_veth (traced a) d x1"
  define x3 where "x3 = clean_namespace (traced a) d x2"
  define y where "y = (if fst x3 then clean_veth (traced a) d (snd x3) else snd x3)"
  have c: "cleans Root_Connectivity x0 x1" "cleans Root_Veth x1 x2" "cleans Root_Namespace x2 (snd x3)"
    by (simp_all add: x1_def x2_def x3_def clean_connectivity_cleans clean_veth_cleans clean_namespace_cleans)
  have 4: "cleans Root_Veth (snd x3) y \<or> y = snd x3" by (simp add: y_def clean_veth_cleans)
  have u0: "unconfirmed_roots s \<subseteq> unconfirmed_roots (fst x0)" by (simp add: x0_def)
  note u1 = cleans_avoids [OF c(1) u0] note u2 = cleans_avoids [OF c(2) u1(1)]
  note u3 = cleans_avoids [OF c(3) u2(1)]
  have u4: "unconfirmed_roots s \<subseteq> unconfirmed_roots (fst y)
      \<and> made (snd (snd y)) \<inter> removal_of ` unconfirmed_roots s
        \<subseteq> made (snd (snd (snd x3)))"
    using 4 cleans_avoids [OF _ u3(1), of Root_Veth y] u3(1) by auto
  have "made (snd (snd y)) \<inter> removal_of ` unconfirmed_roots s \<subseteq> made x"
  proof -
    have "made (snd (snd x0)) = made x" by (simp add: x0_def made_def)
    with u1(2) u2(2) u3(2) u4 show ?thesis by blast
  qed
  moreover have sub: "roots (fst y) \<subseteq> roots (fst (snd x3))" "roots (fst (snd x3)) \<subseteq> roots (fst x2)"
      "roots (fst x2) \<subseteq> roots (fst x1)" "roots (fst x1) \<subseteq> roots s"
    using 4 cleans_roots [of Root_Veth "snd x3" y] c [THEN cleans_roots(1)] by (auto simp: x0_def)
  moreover have "roots (fst y) \<subseteq> unconfirmed_roots s" if "fst (snd y) = []"
  proof -
    have e3: "fst (snd (snd x3)) = []" using that 4 cleans_roots(3) by metis
    have e2: "fst (snd x2) = []" using cleans_roots(3) [OF c(3) e3] .
    have e1: "fst (snd x1) = []" using cleans_roots(3) [OF c(2) e2] .
    have "unconfirmed_roots (fst x1) - {Root_Connectivity} = unconfirmed_roots s - {Root_Connectivity}"
      using cleans_roots(2) [OF c(1)] by (simp add: x0_def)
    moreover have "unconfirmed_roots (fst x2) - {Root_Veth} = unconfirmed_roots (fst x1) - {Root_Veth}"
      by (rule cleans_roots(2) [OF c(2)])
    moreover have "Root_Connectivity \<in> roots (fst x1) \<longrightarrow> Root_Connectivity \<in> unconfirmed_roots s"
      using cleans_roots(4) [OF c(1) e1] by (simp add: x0_def)
    moreover have "Root_Veth \<in> roots (fst x2) \<longrightarrow> Root_Veth \<in> unconfirmed_roots (fst x1)"
      by (rule cleans_roots(4) [OF c(2) e2])
    moreover have "Root_Namespace \<in> roots (fst (snd x3)) \<longrightarrow> Root_Namespace \<in> unconfirmed_roots (fst x2)"
      by (rule cleans_roots(4) [OF c(3) e3])
    ultimately have "\<forall>r. r \<in> roots (fst y) \<longrightarrow> r \<in> unconfirmed_roots s"
      unfolding all_roots using sub by blast
    then show ?thesis by blast
  qed
  moreover have "y = cleaned (traced a) s x"
    by (simp add: y_def x3_def x2_def x1_def x0_def d_def cleaned_def Let_def)
  ultimately show ?thesis using u4 unfolding cleans_all_def by blast
qed

section \<open>Properties\<close>

text \<open>C13: preparing the network environment leaks nothing, whatever the adapter answers. A
  prepared environment holds a proof of the namespace, the placed veth pair and the connectivity,
  with unrestricted settings in both directions. After a failure, every root whose last report was
  not "absent" is in the residual that the caller can retry: no residual means that all were
  reported absent. The trace only observes: the result and the world are those of the adapter.\<close>

theorem preparation_leaks_nothing:
  "case prepare_network_environment (traced a) (w, [], {}) of (r, w', calls, known) \<Rightarrow>
     (r, w') = prepare_network_environment a w
     \<and> (case r of
          Prepared s \<Rightarrow>
            (\<exists>n p c. s = \<lparr>namespace_root = Namespace_Proven n, veth_root = Placed_Veth p,
               connectivity_root = Connectivity_Proven c, outbound_settings = Some default_settings,
               inbound_settings = Some default_settings\<rparr>)
        | Preparation_Failed f fs res \<Rightarrow>
            known \<subseteq> (case res of None \<Rightarrow> {} | Some s \<Rightarrow> roots s))"
proof -
  obtain r w' calls known where run: "prepare_network_environment (traced a) (w, [], {}) = (r, w', calls, known)"
    by (metis prod_cases4)
  have "known \<subseteq> result_roots r"
    using tr.preparation_accounts [of "(w, [], {})" a] by (simp add: known_roots_def run)
  moreover have "\<exists>n p c. s = \<lparr>namespace_root = Namespace_Proven n, veth_root = Placed_Veth p,
      connectivity_root = Connectivity_Proven c, outbound_settings = Some default_settings,
      inbound_settings = Some default_settings\<rparr>" if "r = Prepared s" for s
    using prepare_follows [of a w] proven_roots(1,3,4) [of 11 s]
    by (cases s) (auto simp: run that proofs_at_def)
  moreover have "(r, w') = prepare_network_environment a w"
    using erase_prepare [of a "(w, [], {})"] by (simp add: run erase_def)
  ultimately show ?thesis
    by (cases r) (simp_all add: run result_roots_def residual_roots_def)
qed

text \<open>C14: the calls of a preparation come in one order: preflight, namespace, veth pair, move of
  the peer, the six configuration steps, connectivity; each with a deadline of at most 30 seconds
  after the start. A prepared environment has made all eleven and nothing else. A failure stops
  after the call that failed, or before the call for which the time was up, reports the stage of
  that call, and is followed by the removals only: connectivity, veth pair, namespace and the veth
  pair once more, each at most once.\<close>

theorem preparation_call_order:
  "case prepare_network_environment (traced a) (w, [], {}) of (r, w', calls, known) \<Rightarrow>
     \<exists>k setup cleanup.
       calls = setup @ cleanup \<and> map fst setup = take k (map fst setup_calls)
       \<and> all_by (fst (clock_now a w) + 30 * 10 ^ 9) setup
       \<and> subseq (map fst cleanup) [Op_Remove_Connectivity, Op_Remove_Veth, Op_Remove_Namespace, Op_Remove_Veth]
       \<and> (case r of
            Prepared s \<Rightarrow> k = 11 \<and> cleanup = []
          | Preparation_Failed f fs res \<Rightarrow>
              (0 < k \<and> k \<le> 11 \<and> fst f = snd (setup_calls ! (k - 1)))
              \<or> (k < 11 \<and> f = (snd (setup_calls ! k), Cause_Timeout)))"
proof -
  obtain r w' calls known where run: "prepare_network_environment (traced a) (w, [], {}) = (r, w', calls, known)"
    by (metis prod_cases4)
  define d where "d = fst (clock_now a w) + 30 * 10 ^ 9"
  have f: "case r of Prepared s \<Rightarrow> setup_path d 11 calls \<and> proofs_at 11 s
    | Preparation_Failed f fs res \<Rightarrow> failed_run d r calls"
    using prepare_follows [of a w]
    unfolding run d_def transaction_limit_def calls_of_def fst_conv snd_conv .
  show ?thesis unfolding run prod.case d_def [symmetric]
  proof (cases r)
    case (Prepared s)
    with f show "\<exists>k setup cleanup. calls = setup @ cleanup \<and> map fst setup = take k (map fst setup_calls)
       \<and> all_by d setup
       \<and> subseq (map fst cleanup) [Op_Remove_Connectivity, Op_Remove_Veth, Op_Remove_Namespace, Op_Remove_Veth]
       \<and> (case r of Prepared s \<Rightarrow> k = 11 \<and> cleanup = []
          | Preparation_Failed f fs res \<Rightarrow> (0 < k \<and> k \<le> 11 \<and> fst f = snd (setup_calls ! (k - 1)))
              \<or> (k < 11 \<and> f = (snd (setup_calls ! k), Cause_Timeout)))"
      by (intro exI [of _ 11] exI [of _ calls] exI [of _ "[]"]) (simp add: setup_path_def)
  next
    case (Preparation_Failed f fs res)
    with f obtain k front cleanup where "calls = front @ cleanup" "setup_path d k front" "failed_at k f"
        "subseq (map fst cleanup) cleanup_calls"
      by (auto simp: failed_run_def)
    with Preparation_Failed show "\<exists>k setup cleanup. calls = setup @ cleanup \<and> map fst setup = take k (map fst setup_calls)
       \<and> all_by d setup
       \<and> subseq (map fst cleanup) [Op_Remove_Connectivity, Op_Remove_Veth, Op_Remove_Namespace, Op_Remove_Veth]
       \<and> (case r of Prepared s \<Rightarrow> k = 11 \<and> cleanup = []
          | Preparation_Failed f fs res \<Rightarrow> (0 < k \<and> k \<le> 11 \<and> fst f = snd (setup_calls ! (k - 1)))
              \<or> (k < 11 \<and> f = (snd (setup_calls ! k), Cause_Timeout)))"
      by (intro exI [of _ k] exI [of _ front] exI [of _ cleanup])
        (auto simp: setup_path_def failed_at_def cleanup_calls_def setup_calls_nth(1))
  qed
qed

text \<open>C15: a cleanup never gives up what it cannot identify and never claims more than it was
  told. It works only on the roots of its owner state; a root whose identity is unconfirmed is never
  removed and stays in the residual; every root whose last report was not "absent" is in the
  residual; and without a failure there is no residual, and no root was unconfirmed. The removals
  come in order (connectivity, veth pair, namespace, veth pair) within 30 seconds.\<close>

theorem cleanup_is_honest:
  "case cleanup_state (traced a) s True (w, [], roots s) of (result, w', calls, known) \<Rightarrow>
     (result, w') = cleanup_state a s True w
     \<and> subseq (map fst calls) [Op_Remove_Connectivity, Op_Remove_Veth, Op_Remove_Namespace, Op_Remove_Veth]
     \<and> all_by (fst (clock_now a w) + 30 * 10 ^ 9) calls
     \<and> fst ` set calls \<inter> removal_of ` unconfirmed_roots s = {}
     \<and> known \<subseteq> residual_roots (cleanup_residual result)
     \<and> residual_roots (cleanup_residual result) \<subseteq> roots s
     \<and> unconfirmed_roots s \<subseteq> residual_roots (cleanup_residual result)
     \<and> (cleanup_failures result = [] \<longrightarrow> cleanup_residual result = None \<and> \<not> is_unconfirmed s)"
proof -
  define y where "y = cleaned (traced a) s (w, [], roots s)"
  have f: "cleans_all s (w, [], roots s) y" unfolding y_def by (rule cleaned_cleans)
  have o: "adds cleanup_calls (fst (clock_now a w) + 30 * 10 ^ 9) (w, [], roots s) (snd (snd y))"
    using cleaned_adds [of a "(w, [], roots s)" s] by (simp add: y_def transaction_limit_def)
  have k: "known_roots (snd (snd y)) \<subseteq> roots (fst y)"
    using tr.cleanup_accounts [of "(w, [], roots s)" s a]
    by (simp add: cleanup_state_cleaned known_roots_def y_def)
  have u: "unconfirmed_roots (fst y) \<subseteq> roots (fst y)"
    by (auto simp: unconfirmed_roots_def)
  have e: "erase (cleanup_state (traced a) s True (w, [], roots s)) = cleanup_state a s True w"
    by (simp add: erase_cleanup)
  obtain s' fs w' calls known where y: "y = (s', fs, w', calls, known)" by (metis prod_cases5)
  have run: "cleanup_state (traced a) s True (w, [], roots s) =
      (\<lparr>cleanup_failures = fs @ (if is_unconfirmed s then [(Stage_Cleanup, Cause_Incomplete_Cleanup)] else []),
        cleanup_residual = (if has_residual s' then Some s' else None)\<rparr>, w', calls, known)"
    by (simp add: cleanup_state_cleaned y flip: y_def)
  have "roots s' = {}" if "fs = []" "\<not> is_unconfirmed s"
    using that f unconfirmed_roots_empty [of s] by (simp add: cleans_all_def y)
  then have "\<not> has_residual s'" if "fs = []" "\<not> is_unconfirmed s"
    using that roots_empty_iff [of s'] by simp
  with f o k u e show ?thesis
    unfolding run prod.case
    by (auto simp: cleans_all_def y adds_def calls_of_def known_roots_def made_def erase_def cleanup_calls_def)
qed

lemmas scripted_run =
  cleanup_state_cleaned cleaned_def clean_connectivity_def clean_veth_def clean_namespace_def
  is_unconfirmed_def has_residual_def traced_def traced_call_def scripted_adapter_def
  scripted_remove_connectivity_def scripted_remove_veth_def scripted_remove_namespace_def
  next_step_def next_is_def new_script_def roots_def unconfirmed_roots_def reported_def
  case_prod_beta Let_def new_owner_state_def

text \<open>A cleanup that removes the veth pair, keeps a namespace it cannot identify.\<close>

theorem cleanup_is_honest_witness:
  "let s = new_owner_state \<lparr>namespace_root := Namespace_Unconfirmed,
             veth_root := Host_Veth (fst (scripted_identity (new_script [] 0)))\<rparr>;
       w = new_script [\<lparr>step_operation = Op_Remove_Veth, step_outcome = Outcome_Removed,
             step_cause = Cause_System_Failure, step_elapsed = 7\<rparr>] 0
   in case cleanup_state (traced scripted_adapter) s True (w, [], roots s) of (result, w', calls, known) \<Rightarrow>
        map fst calls = [Op_Remove_Veth] \<and> script_now w' = 7
        \<and> cleanup_failures result = [(Stage_Cleanup, Cause_Incomplete_Cleanup)]
        \<and> known \<subseteq> residual_roots (cleanup_residual result)"
proof -
  define s :: "(64 word, veth_identity_pair, veth_identity_pair, unit) owner_state" where
    "s = new_owner_state \<lparr>namespace_root := Namespace_Unconfirmed,
             veth_root := Host_Veth (fst (scripted_identity (new_script [] 0)))\<rparr>"
  define w where "w = new_script [\<lparr>step_operation = Op_Remove_Veth, step_outcome = Outcome_Removed,
             step_cause = Cause_System_Failure, step_elapsed = 7\<rparr>] 0"
  obtain result w' calls known where run:
    "cleanup_state (traced scripted_adapter) s True (w, [], roots s) = (result, w', calls, known)"
    by (metis prod_cases4)
  have "map fst calls = [Op_Remove_Veth] \<and> script_now w' = 7
        \<and> cleanup_failures result = [(Stage_Cleanup, Cause_Incomplete_Cleanup)]"
    using run by (auto simp: s_def w_def scripted_run transaction_limit_def)
  moreover have "known \<subseteq> residual_roots (cleanup_residual result)"
    using cleanup_is_honest [of scripted_adapter s w] by (simp add: run)
  ultimately show ?thesis by (simp add: run flip: s_def w_def)
qed

definition recorded_settings ::
  "shaping_direction \<Rightarrow> ('n, 'h, 'p, 'c) owner_state \<Rightarrow> direction_settings option" where
  "recorded_settings dir s = (case dir of Shape_Outbound \<Rightarrow> outbound_settings s | Shape_Inbound \<Rightarrow> inbound_settings s)"

fun opposite :: "shaping_direction \<Rightarrow> shaping_direction" where
  "opposite Shape_Outbound = Shape_Inbound"
| "opposite Shape_Inbound = Shape_Outbound"

text \<open>Changing the settings of a direction keeps the record of that direction true. The adapter
  is called at most once, with a deadline of 5 seconds, and only for a proven environment whose
  settings are known and differ from the request. Afterwards the record is the request when it was
  applied, unchanged when the old settings were restored, and unknown for ever when the state is
  unknown; the roots and the other direction are not touched.\<close>

theorem direction_settings_recorded:
  "case set_direction_settings (traced a) dir requested s (w, [], known) of (r, s', w', calls, known') \<Rightarrow>
     (r, s', w') = set_direction_settings a dir requested s w
     \<and> roots s' = roots s \<and> known' = known
     \<and> recorded_settings (opposite dir) s' = recorded_settings (opposite dir) s
     \<and> (case (calls, recorded_settings dir s) of
          ([], Some current) \<Rightarrow>
            s' = s \<and> r = (if (\<exists>n p. namespace_root s = Namespace_Proven n \<and> veth_root s = Placed_Veth p)
                         then Shaping_Applied else Shaping_State_Unknown)
            \<and> (settings_eq current requested \<or> r = Shaping_State_Unknown)
        | ([], None) \<Rightarrow> s' = s \<and> r = Shaping_State_Unknown
        | ([c], Some current) \<Rightarrow>
            c = (Op_Set_Settings, fst (clock_now a w) + 5 * 10 ^ 9) \<and> \<not> settings_eq current requested
            \<and> recorded_settings dir s' =
                (case r of Shaping_Applied \<Rightarrow> Some requested | Shaping_Restored \<Rightarrow> Some current
                 | Shaping_State_Unknown \<Rightarrow> None)
        | _ \<Rightarrow> False)"
proof (cases "\<exists>n p current. namespace_root s = Namespace_Proven n \<and> veth_root s = Placed_Veth p
    \<and> recorded_settings dir s = Some current \<and> \<not> settings_eq current requested")
  case True
  then obtain n p current where proven: "namespace_root s = Namespace_Proven n" "veth_root s = Placed_Veth p"
      "recorded_settings dir s = Some current" "\<not> settings_eq current requested"
    by blast
  then have "(if dir = Shape_Outbound then outbound_settings s else inbound_settings s) = Some current"
    by (cases dir) (simp_all add: recorded_settings_def)
  with proven show ?thesis
    by (cases dir) (simp_all add: set_direction_settings_def traced_def traced_call_def case_prod_beta Let_def
        recorded_settings_def roots_def operation_limit_def)
next
  case False
  then show ?thesis
    by (cases "namespace_root s"; cases "veth_root s"; cases "recorded_settings dir s"; cases dir)
      (auto simp: set_direction_settings_def recorded_settings_def)
qed

end
