(* ===== verification/Host_Rules.thy ===== *)
theory Host_Rules
  imports Host_Platform
begin

text \<open>
  Rules for programs on the host: how sequencing runs, and the frame rule. \<open>keeps view m\<close> says
  that the program \<open>m\<close> never changes the part of the world that \<open>view\<close> shows; the rules of the
  collection \<open>frame\<close> build it from the operations a program calls.
\<close>

named_theorems frame

section \<open>Running a program\<close>

declare run_state_bind [simp del]

lemma run_bind [simp]:
  "run_state (State_Monad.bind m f) w = run_state (f (fst (run_state m w))) (snd (run_state m w))"
  by (simp add: State_Monad.bind_def case_prod_beta)

section \<open>The frame rule\<close>

definition keeps :: "('w \<Rightarrow> 'v) \<Rightarrow> ('w, 'a) state \<Rightarrow> bool" where
  "keeps view m \<longleftrightarrow> (\<forall>w. view (snd (run_state m w)) = view w)"

lemma keepsI: "(\<And>w. view (snd (run_state m w)) = view w) \<Longrightarrow> keeps view m"
  by (simp add: keeps_def)

lemma keepsD: "keeps view m \<Longrightarrow> view (snd (run_state m w)) = view w"
  by (simp add: keeps_def)

lemma keeps_return [frame]: "keeps view (ret x)"
  by (simp add: keeps_def)

lemma keeps_bind [frame]: "keeps view m \<Longrightarrow> (\<And>x. keeps view (f x)) \<Longrightarrow> keeps view (State_Monad.bind m f)"
  by (simp add: keeps_def)

lemma keeps_if [frame]: "keeps view m \<Longrightarrow> keeps view n \<Longrightarrow> keeps view (if b then m else n)"
  by simp

lemma keeps_case_option [frame]:
  "keeps view m \<Longrightarrow> (\<And>x. keeps view (f x)) \<Longrightarrow> keeps view (case z of None \<Rightarrow> m | Some x \<Rightarrow> f x)"
  by (simp split: option.split)

lemma keeps_case_sum [frame]:
  "(\<And>x. keeps view (f x)) \<Longrightarrow> (\<And>y. keeps view (g y)) \<Longrightarrow> keeps view (case z of Inl x \<Rightarrow> f x | Inr y \<Rightarrow> g y)"
  by (simp split: sum.split)

lemma keeps_case_prod [frame]:
  "(\<And>x y. keeps view (f x y)) \<Longrightarrow> keeps view (case z of (x, y) \<Rightarrow> f x y)"
  by (simp split: prod.split)

lemma keeps_let [frame]: "keeps view (f x) \<Longrightarrow> keeps view (let y = x in f y)"
  by simp

lemma keeps_case_bool [frame]:
  "keeps view m \<Longrightarrow> keeps view n \<Longrightarrow> keeps view (case b of True \<Rightarrow> m | False \<Rightarrow> n)"
  by (simp split: bool.split)

lemma first_trusted_keeps:
  assumes "\<And>path. keeps view (query_tool h path)"
  shows "keeps view (first_trusted h paths)"
  by (induction paths) (auto intro!: frame assms)

lemma tool_path_keeps:
  assumes "\<And>path. keeps view (query_tool h path)"
  shows "keeps view (tool_path h name)" "keeps view (find_trusted_tool h name)"
  by (auto simp: tool_path_def find_trusted_tool_def intro!: frame first_trusted_keeps assms)

section \<open>A host for examples\<close>

text \<open>
  A host on which every command succeeds without an effect and the placed veth pair is there;
  the examples replace the operations they are about.
\<close>

definition example_pair :: veth_identity_pair where
  "example_pair =
     \<lparr>pair_host = \<lparr>link_index = 2, link_peer_index = 3, link_peer_namespace = Some 0\<rparr>,
      pair_session = \<lparr>link_index = 3, link_peer_index = 2, link_peer_namespace = Some 0\<rparr>\<rparr>"

definition quiet_command :: command_result where
  "quiet_command = \<lparr>command_kind = Command_Success, command_code = 0, standard_error = [], standard_output = []\<rparr>"

definition quiet_qdisc :: root_qdisc where
  "quiet_qdisc = \<lparr>qdisc_handle = 0, qdisc_kind = Noqueue, qdisc_delay = 0, qdisc_jitter = 0,
     qdisc_loss = 0, qdisc_unsupported = False\<rparr>"

definition quiet_host :: "(nat, 'w) host" where
  "quiet_host =
     \<lparr>handle_identity = (\<lambda>n. (0, of_nat n)),
      namespace_file_argument = (\<lambda>n. ''/proc/self/fd/3''),
      run_ip = (\<lambda>p as n d. ret quiet_command),
      run_ip_in_namespace = (\<lambda>p as n d. ret quiet_command),
      run_tool = (\<lambda>p as d m. ret quiet_command),
      ipv4_forwarding_enabled = ret (Some True),
      legacy_iptables_rules_present = ret (Some False),
      request_firewall_consent = (\<lambda>text d. ret Consent_Declined),
      query_namespace = ret \<lparr>namespace_status = Inventory_Present, namespace_handle = Some 0\<rparr>,
      query_host_link = (\<lambda>name d. ret
        (if name = ''nll-host'' then \<lparr>link_status = Inventory_Present, link_found = Some (pair_host example_pair)\<rparr>
         else link_answer Inventory_Absent)),
      query_namespace_link = (\<lambda>n name d. ret
        \<lparr>link_status = Inventory_Present, link_found = Some (pair_session example_pair)\<rparr>),
      query_host_qdisc = (\<lambda>name d. ret \<lparr>query_status = Inventory_Present, query_root = Some quiet_qdisc\<rparr>),
      query_namespace_qdisc = (\<lambda>n name d. ret \<lparr>query_status = Inventory_Present, query_root = Some quiet_qdisc\<rparr>),
      privileged = ret True,
      query_tool = (\<lambda>path. ret \<lparr>tool_status = Query_Present,
        tool_metadata = \<lparr>file_regular = True, file_owner = 0, file_mode = 0x1ED\<rparr>\<rparr>),
      query_namespace_name = ret Query_Absent,
      query_link_name = (\<lambda>name. ret Query_Absent),
      query_addresses = ret (Some []),
      query_routes = (\<lambda>d. ret Route_Complete),
      open_recovery_directory = ret 7,
      read_recovery_record = (\<lambda>directory. ret \<lparr>read_status = Recovery_Empty, read_record = None\<rparr>),
      write_recovery_record = (\<lambda>directory r. ret True),
      clear_recovery_record = (\<lambda>directory. ret True),
      create_recovery_token = ret (Some ''0123456789abcdef0123456789abcdef''),
      steady_now = ret 0\<rparr>"

lemma quiet_tool_path [simp]:
  assumes "query_tool h = query_tool quiet_host" and "tool_paths tool = path # paths"
  shows "run_state (tool_path h tool) w = (Some path, w)"
  using assms by (simp add: tool_path_def find_trusted_tool_def quiet_host_def is_trusted_executable_def)

end
