(* ===== verification/Veth_Adapter.thy ===== *)
theory Veth_Adapter
  imports Host_Platform
begin

text \<open>
  The operations of the production adapter on the namespace and the veth pair
  (\<open>ProductionAdapter\<close> in \<open>src/network_environment/network_environment.cpp\<close>): every operation
  runs a command and then believes only what it observes. \<open>ip\<close> is the member \<open>ip_path_\<close>.
\<close>

section \<open>Observations\<close>

definition command_ok :: "command_result \<Rightarrow> bool" where
  "command_ok r \<longleftrightarrow> command_kind r = Command_Success"

definition command_cause :: "command_result \<Rightarrow> cause" where
  "command_cause r =
     (case command_kind r of
        Command_Success \<Rightarrow> Cause_System_Failure
      | Command_Nonzero_Exit \<Rightarrow> Cause_Command_Exit
      | Command_Signal \<Rightarrow> Cause_Command_Signal
      | Command_Timeout \<Rightarrow> Cause_Timeout
      | Command_Exec_Failure \<Rightarrow> Cause_Unavailable_Or_Invalid_Tool
      | Command_System_Failure \<Rightarrow> Cause_System_Failure)"

definition command_outcome :: "command_result \<Rightarrow> op_result" where
  "command_outcome r = \<lparr>op_succeeded = command_ok r, op_cause = command_cause r\<rparr>"

definition all_absent :: "link_query list \<Rightarrow> bool" where
  "all_absent qs = list_all (\<lambda>q. link_status q = Inventory_Absent) qs"

definition inventory_cause :: "link_query list \<Rightarrow> cause" where
  "inventory_cause qs =
     (if list_ex (\<lambda>q. link_status q = Inventory_Failure \<or> link_status q = Inventory_Timeout
          \<or> link_status q = Inventory_Malformed) qs
      then Cause_Identity_Unavailable else Cause_Identity_Mismatch)"

text \<open>
  \<open>valid_host_pair\<close> and \<open>valid_placed_pair\<close> with the identities they have checked.
\<close>

definition valid_host_pair :: "link_query \<Rightarrow> link_query \<Rightarrow> veth_identity_pair option" where
  "valid_host_pair host session =
     (case (link_found host, link_found session) of
        (Some a, Some b) \<Rightarrow>
          (if link_status host = Inventory_Present \<and> link_status session = Inventory_Present
              \<and> link_peer_index a = link_index b \<and> link_peer_index b = link_index a
              \<and> link_peer_namespace a = None \<and> link_peer_namespace b = None
           then Some \<lparr>pair_host = a, pair_session = b\<rparr> else None)
      | _ \<Rightarrow> None)"

definition known_namespace :: "link_identity \<Rightarrow> bool" where
  "known_namespace a = (case link_peer_namespace a of None \<Rightarrow> False | Some n \<Rightarrow> 0 \<le> sint n)"

definition valid_placed_pair :: "link_query \<Rightarrow> link_query \<Rightarrow> link_query \<Rightarrow> veth_identity_pair option" where
  "valid_placed_pair host old_session placed_session =
     (case (link_found host, link_found placed_session) of
        (Some a, Some b) \<Rightarrow>
          (if link_status old_session = Inventory_Absent \<and> link_status host = Inventory_Present
              \<and> link_status placed_session = Inventory_Present
              \<and> link_peer_index a = link_index b \<and> link_peer_index b = link_index a
              \<and> known_namespace a \<and> known_namespace b
           then Some \<lparr>pair_host = a, pair_session = b\<rparr> else None)
      | _ \<Rightarrow> None)"

record veth_observation =
  observed_absent :: bool
  observed_complete :: bool
  observed_cause :: cause
  observed_identity :: "veth_identity_pair option"

definition veth_absent :: veth_observation where
  "veth_absent = \<lparr>observed_absent = True, observed_complete = True,
     observed_cause = Cause_System_Failure, observed_identity = None\<rparr>"

definition veth_seen :: "veth_identity_pair \<Rightarrow> veth_observation" where
  "veth_seen i = \<lparr>observed_absent = False, observed_complete = True,
     observed_cause = Cause_System_Failure, observed_identity = Some i\<rparr>"

definition veth_unclear :: "cause \<Rightarrow> veth_observation" where
  "veth_unclear c = \<lparr>observed_absent = False, observed_complete = False,
     observed_cause = c, observed_identity = None\<rparr>"

text \<open>\<open>observe_veth\<close>; the namespace is given when the pair is placed.\<close>

definition observe_veth :: "('h, 'w) host \<Rightarrow> 'h option \<Rightarrow> time_point \<Rightarrow> ('w, veth_observation) state" where
  "observe_veth h placed deadline = do {
     host \<leftarrow> query_host_link h ''nll-host'' deadline;
     host_session \<leftarrow> query_host_link h ''nll-app'' deadline;
     (case placed of
        None \<Rightarrow> ret
          (if all_absent [host, host_session] then veth_absent
           else case valid_host_pair host host_session of
             Some i \<Rightarrow> veth_seen i
           | None \<Rightarrow> veth_unclear (inventory_cause [host, host_session]))
      | Some ns \<Rightarrow> do {
          session \<leftarrow> query_namespace_link h ns ''nll-app'' deadline;
          ret (if all_absent [host, host_session, session] then veth_absent
               else case valid_placed_pair host host_session session of
                 Some i \<Rightarrow> veth_seen i
               | None \<Rightarrow> veth_unclear (inventory_cause [host, host_session, session]))
        })
   }"

section \<open>The operations\<close>

definition prod_create_namespace ::
  "('h, 'w) host \<Rightarrow> string \<Rightarrow> time_point \<Rightarrow> ('w, 'h namespace_state mutation_result) state" where
  "prod_create_namespace h ip deadline = do {
     command \<leftarrow> run_ip h ip [''netns'', ''add'', ''netlaglab''] None deadline;
     query \<leftarrow> query_namespace h;
     ret (case (namespace_status query, namespace_handle query) of
       (Inventory_Present, Some handle) \<Rightarrow>
         \<lparr>mut_succeeded = command_ok command, mut_cause = command_cause command,
          mut_state = Namespace_Proven handle\<rparr>
     | _ \<Rightarrow>
         \<lparr>mut_succeeded = False,
          mut_cause = (if namespace_status query = Inventory_Absent \<and> \<not> command_ok command
                       then command_cause command else Cause_Identity_Unavailable),
          mut_state = (if namespace_status query = Inventory_Absent then Namespace_Absent
                       else Namespace_Unconfirmed)\<rparr>)
   }"

definition prod_create_veth ::
  "('h, 'w) host \<Rightarrow> string \<Rightarrow> time_point
     \<Rightarrow> ('w, (veth_identity_pair, veth_identity_pair) veth_state mutation_result) state" where
  "prod_create_veth h ip deadline = do {
     command \<leftarrow> run_ip h ip
       [''link'', ''add'', ''nll-host'', ''type'', ''veth'', ''peer'', ''name'', ''nll-app''] None deadline;
     host \<leftarrow> query_host_link h ''nll-host'' deadline;
     session \<leftarrow> query_host_link h ''nll-app'' deadline;
     ret (case valid_host_pair host session of
       Some i \<Rightarrow>
         \<lparr>mut_succeeded = command_ok command, mut_cause = command_cause command, mut_state = Host_Veth i\<rparr>
     | None \<Rightarrow>
         \<lparr>mut_succeeded = False,
          mut_cause = (if all_absent [host, session] \<and> \<not> command_ok command
                       then command_cause command else Cause_Identity_Unavailable),
          mut_state = (if all_absent [host, session] then Veth_Absent else Veth_Unconfirmed)\<rparr>)
   }"

definition prod_move_peer ::
  "('h, 'w) host \<Rightarrow> string \<Rightarrow> 'h \<Rightarrow> veth_identity_pair \<Rightarrow> time_point
     \<Rightarrow> ('w, (veth_identity_pair, veth_identity_pair) veth_state mutation_result) state" where
  "prod_move_peer h ip ns proof_identity deadline = do {
     command \<leftarrow> run_ip h ip
       [''link'', ''set'', ''dev'', ''nll-app'', ''netns'', namespace_file_argument h ns] (Some ns) deadline;
     host \<leftarrow> query_host_link h ''nll-host'' deadline;
     old_session \<leftarrow> query_host_link h ''nll-app'' deadline;
     placed_session \<leftarrow> query_namespace_link h ns ''nll-app'' deadline;
     ret (case valid_placed_pair host old_session placed_session of
       Some i \<Rightarrow>
         \<lparr>mut_succeeded = command_ok command, mut_cause = command_cause command, mut_state = Placed_Veth i\<rparr>
     | None \<Rightarrow>
         (if link_status placed_session = Inventory_Absent
             \<and> valid_host_pair host old_session = Some proof_identity
          then \<lparr>mut_succeeded = False,
                mut_cause = (if command_ok command then Cause_Identity_Mismatch else command_cause command),
                mut_state = Host_Veth proof_identity\<rparr>
          else \<lparr>mut_succeeded = False,
                mut_cause = (if all_absent [host, old_session, placed_session] \<and> \<not> command_ok command
                             then command_cause command else Cause_Identity_Unavailable),
                mut_state = (if all_absent [host, old_session, placed_session] then Veth_Absent
                             else Veth_Unconfirmed)\<rparr>))
   }"

text \<open>The six configuration steps run one command each.\<close>

definition prod_assign_host_address :: "('h, 'w) host \<Rightarrow> string \<Rightarrow> time_point \<Rightarrow> ('w, op_result) state" where
  "prod_assign_host_address h ip deadline = do {
     command \<leftarrow> run_ip h ip [''address'', ''add'', ''10.200.0.1/30'', ''dev'', ''nll-host''] None deadline;
     ret (command_outcome command)
   }"

definition prod_bring_host_link_up :: "('h, 'w) host \<Rightarrow> string \<Rightarrow> time_point \<Rightarrow> ('w, op_result) state" where
  "prod_bring_host_link_up h ip deadline = do {
     command \<leftarrow> run_ip h ip [''link'', ''set'', ''dev'', ''nll-host'', ''up''] None deadline;
     ret (command_outcome command)
   }"

definition prod_bring_loopback_up :: "('h, 'w) host \<Rightarrow> string \<Rightarrow> 'h \<Rightarrow> time_point \<Rightarrow> ('w, op_result) state" where
  "prod_bring_loopback_up h ip ns deadline = do {
     command \<leftarrow> run_ip_in_namespace h ip [''link'', ''set'', ''dev'', ''lo'', ''up''] ns deadline;
     ret (command_outcome command)
   }"

definition prod_assign_namespace_address ::
  "('h, 'w) host \<Rightarrow> string \<Rightarrow> 'h \<Rightarrow> time_point \<Rightarrow> ('w, op_result) state" where
  "prod_assign_namespace_address h ip ns deadline = do {
     command \<leftarrow> run_ip_in_namespace h ip [''address'', ''add'', ''10.200.0.2/30'', ''dev'', ''nll-app''] ns deadline;
     ret (command_outcome command)
   }"

definition prod_bring_namespace_link_up ::
  "('h, 'w) host \<Rightarrow> string \<Rightarrow> 'h \<Rightarrow> time_point \<Rightarrow> ('w, op_result) state" where
  "prod_bring_namespace_link_up h ip ns deadline = do {
     command \<leftarrow> run_ip_in_namespace h ip [''link'', ''set'', ''dev'', ''nll-app'', ''up''] ns deadline;
     ret (command_outcome command)
   }"

definition prod_add_default_route ::
  "('h, 'w) host \<Rightarrow> string \<Rightarrow> 'h \<Rightarrow> time_point \<Rightarrow> ('w, op_result) state" where
  "prod_add_default_route h ip ns deadline = do {
     command \<leftarrow> run_ip_in_namespace h ip
       [''route'', ''add'', ''default'', ''via'', ''10.200.0.1'', ''dev'', ''nll-app''] ns deadline;
     ret (command_outcome command)
   }"

fun proven_identity :: "('i, 'i) proven_veth \<Rightarrow> 'i" where
  "proven_identity (Proven_Host i) = i"
| "proven_identity (Proven_Placed i) = i"

fun retained :: "('h, 'p) proven_veth \<Rightarrow> ('h, 'p) veth_state" where
  "retained (Proven_Host i) = Host_Veth i"
| "retained (Proven_Placed i) = Placed_Veth i"

definition matches_proof :: "(veth_identity_pair, veth_identity_pair) proven_veth \<Rightarrow> veth_observation \<Rightarrow> bool" where
  "matches_proof v o1 \<longleftrightarrow> observed_identity o1 = Some (proven_identity v)"

definition unconfirmed_veth ::
  "cause \<Rightarrow> (veth_identity_pair, veth_identity_pair) veth_state removal_result" where
  "unconfirmed_veth c = \<lparr>rem_cause = c, rem_state = Veth_Unconfirmed\<rparr>"

definition gone :: "'s \<Rightarrow> 's removal_result" where
  "gone absent = \<lparr>rem_cause = Cause_System_Failure, rem_state = absent\<rparr>"

text \<open>
  The removal of a pair: the pair observed before and after the command must be the proven one.
\<close>

definition remove_observed_veth ::
  "('h, 'w) host \<Rightarrow> string \<Rightarrow> (veth_identity_pair, veth_identity_pair) proven_veth \<Rightarrow> 'h option
     \<Rightarrow> time_point \<Rightarrow> ('w, (veth_identity_pair, veth_identity_pair) veth_state removal_result) state" where
  "remove_observed_veth h ip v placed deadline = do {
     before \<leftarrow> observe_veth h placed deadline;
     if observed_absent before then ret (gone Veth_Absent)
     else if \<not> observed_complete before then ret (unconfirmed_veth (observed_cause before))
     else if \<not> matches_proof v before then ret (unconfirmed_veth Cause_Identity_Mismatch)
     else do {
       command \<leftarrow> run_ip h ip [''link'', ''delete'', ''dev'', ''nll-host''] None deadline;
       after \<leftarrow> observe_veth h placed deadline;
       ret (if observed_absent after then gone Veth_Absent
            else if \<not> observed_complete after then unconfirmed_veth (observed_cause after)
            else if \<not> matches_proof v after then unconfirmed_veth Cause_Identity_Mismatch
            else \<lparr>rem_cause = (if command_ok command then Cause_Identity_Mismatch else command_cause command),
                  rem_state = retained v\<rparr>)
     }
   }"

definition prod_remove_veth ::
  "('h, 'w) host \<Rightarrow> string \<Rightarrow> (veth_identity_pair, veth_identity_pair) proven_veth \<Rightarrow> 'h option
     \<Rightarrow> time_point \<Rightarrow> ('w, (veth_identity_pair, veth_identity_pair) veth_state removal_result) state" where
  "prod_remove_veth h ip v ns deadline =
     (case v of
        Proven_Host _ \<Rightarrow> remove_observed_veth h ip v None deadline
      | Proven_Placed _ \<Rightarrow>
          (case ns of
             Some n \<Rightarrow> remove_observed_veth h ip v (Some n) deadline
           | None \<Rightarrow> do {
               host \<leftarrow> query_host_link h ''nll-host'' deadline;
               session \<leftarrow> query_host_link h ''nll-app'' deadline;
               ret (if all_absent [host, session] then gone Veth_Absent
                    else unconfirmed_veth (inventory_cause [host, session]))
             }))"

definition prod_remove_namespace ::
  "('h, 'w) host \<Rightarrow> string \<Rightarrow> 'h \<Rightarrow> time_point \<Rightarrow> ('w, 'h namespace_state removal_result) state" where
  "prod_remove_namespace h ip ns deadline = do {
     before \<leftarrow> query_namespace h;
     (if namespace_status before = Inventory_Absent then ret (gone Namespace_Absent)
      else case (namespace_status before, namespace_handle before) of
        (Inventory_Present, Some b) \<Rightarrow>
          (if handle_identity h b \<noteq> handle_identity h ns
           then ret \<lparr>rem_cause = Cause_Identity_Mismatch, rem_state = Namespace_Unconfirmed\<rparr>
           else do {
             command \<leftarrow> run_ip h ip [''netns'', ''delete'', ''netlaglab''] None deadline;
             after \<leftarrow> query_namespace h;
             ret (if namespace_status after = Inventory_Absent then gone Namespace_Absent
                  else case (namespace_status after, namespace_handle after) of
                    (Inventory_Present, Some a) \<Rightarrow>
                      (if handle_identity h a = handle_identity h ns
                       then \<lparr>rem_cause = (if command_ok command then Cause_Identity_Mismatch
                                          else command_cause command),
                             rem_state = Namespace_Proven ns\<rparr>
                       else \<lparr>rem_cause = Cause_Identity_Mismatch, rem_state = Namespace_Unconfirmed\<rparr>)
                  | _ \<Rightarrow> \<lparr>rem_cause = (if namespace_status after = Inventory_Present
                                     then Cause_Identity_Mismatch else Cause_Identity_Unavailable),
                          rem_state = Namespace_Unconfirmed\<rparr>)
           })
      | _ \<Rightarrow> ret \<lparr>rem_cause = Cause_Identity_Unavailable, rem_state = Namespace_Unconfirmed\<rparr>)
   }"

end
