(* ===== verification/Connectivity.thy ===== *)
theory Connectivity
  imports Veth_Adapter
begin

text \<open>
  Internet connectivity in the production adapter of \<open>network_environment.cpp\<close>: inspection of the
  host's routing and firewalls from the output of their tools, the rules the session adds with the
  user's consent, their removal, and the reconciliation of what a crashed session left behind.
\<close>

section \<open>Reading the output of tools\<close>

text \<open>The lines of an output as the loops of the source read them: no empty one after the last.\<close>

function output_lines :: "string \<Rightarrow> string list" where
  "output_lines s =
     (case next_line s of
        None \<Rightarrow> if s = [] then [] else [s]
      | Some (l, r) \<Rightarrow> l # output_lines r)"
  by pat_completeness auto
termination
  by (relation "measure length") (auto dest: next_line_shorter)

declare output_lines.simps [simp del]

text \<open>\<open>std::isspace\<close> in the C locale, and \<open>trim_ascii\<close>.\<close>

definition is_space :: "char \<Rightarrow> bool" where
  "is_space c \<longleftrightarrow> byte_of c = 32 \<or> (9 \<le> byte_of c \<and> byte_of c \<le> 13)"

definition is_alnum :: "char \<Rightarrow> bool" where
  "is_alnum c \<longleftrightarrow>
     (48 \<le> byte_of c \<and> byte_of c \<le> 57) \<or> (65 \<le> byte_of c \<and> byte_of c \<le> 90)
     \<or> (97 \<le> byte_of c \<and> byte_of c \<le> 122)"

definition is_ascii_blank :: "char \<Rightarrow> bool" where
  "is_ascii_blank c \<longleftrightarrow> c \<in> {CHR '' '', CHR 0x09, CHR 0x0A, CHR 0x0D}"

definition trim_ascii :: "string \<Rightarrow> string" where
  "trim_ascii s = rev (dropWhile is_ascii_blank (rev (dropWhile is_ascii_blank s)))"

definition zone_char :: "char \<Rightarrow> bool" where
  "zone_char c \<longleftrightarrow> is_alnum c \<or> c = CHR ''_'' \<or> c = CHR ''-''"

section \<open>Routing\<close>

text \<open>One line with every run of white space after its first character made one blank.\<close>

fun normalize_line :: "string \<Rightarrow> bool \<Rightarrow> string \<Rightarrow> string" where
  "normalize_line line previous_was_space [] = line"
| "normalize_line line previous_was_space (c # cs) =
     (if is_space c
      then normalize_line (if line \<noteq> [] \<and> \<not> previous_was_space then line @ [CHR '' ''] else line) True cs
      else normalize_line (line @ [c]) False cs)"

definition supported_rules :: "string list" where
  "supported_rules =
     [''0: from all lookup local'', ''32766: from all lookup main'', ''32767: from all lookup default'']"

fun rule_index :: "string \<Rightarrow> string list \<Rightarrow> bool list \<Rightarrow> nat \<Rightarrow> nat option" where
  "rule_index line (r # rs) (f # fs) i =
     (if line = r \<and> \<not> f then Some i else rule_index line rs fs (i + 1))"
| "rule_index line _ _ i = None"

fun match_rules :: "bool list \<Rightarrow> string list \<Rightarrow> bool" where
  "match_rules found [] = list_all (\<lambda>f. f) found"
| "match_rules found (l # ls) =
     (case rule_index (normalize_line [] False l) supported_rules found 0 of
        None \<Rightarrow> False
      | Some i \<Rightarrow> match_rules (found[i := True]) ls)"

definition complete_output :: "command_result \<Rightarrow> string option" where
  "complete_output r =
     (if command_ok r \<and> length (standard_output r) < 4096 then Some (standard_output r) else None)"

definition inspect_ipv4_policy_routing ::
  "('h, 'w) host \<Rightarrow> string \<Rightarrow> time_point \<Rightarrow> ('w, bool option) state" where
  "inspect_ipv4_policy_routing h ip deadline = do {
     result \<leftarrow> run_tool h ip [''-4'', ''rule'', ''show''] deadline 4096;
     ret (case complete_output result of
       None \<Rightarrow> None
     | Some text \<Rightarrow> Some (match_rules [False, False, False] (output_lines text)))
   }"

text \<open>The fields of a route line that does not begin with white space.\<close>

function split_fields :: "string \<Rightarrow> string list" where
  "split_fields line =
     (if line = [] then []
      else (case find_first_of [CHR '' '', CHR 0x09, CHR 0x0D] line of
        None \<Rightarrow> [line]
      | Some n \<Rightarrow> take n line # split_fields (dropWhile is_space (drop n line))))"
  by pat_completeness auto
termination
proof (relation "measure length"; clarsimp)
  fix line :: string and n
  assume l: "line \<noteq> []" and n: "find_first_of [CHR '' '', CHR 0x09, CHR 0x0D] line = Some n"
  show "length (dropWhile is_space (drop n line)) < length line"
  proof (cases n)
    case 0
    obtain c cs where "line = c # cs" using l by (cases line) auto
    moreover from this n 0 have "is_space c" by (auto simp: is_space_def byte_of_def split: if_splits)
    ultimately show ?thesis using 0 length_dropWhile_le [of is_space cs] by simp
  next
    case (Suc m)
    then show ?thesis using find_first_of_less [OF n] length_dropWhile_le [of is_space "drop n line"] by simp
  qed
qed

declare split_fields.simps [simp del]

fun device_names :: "string list \<Rightarrow> string list option" where
  "device_names (x # y # rest) =
     (if x = ''dev'' then
        (if y = [] \<or> 15 < length y then None
         else map_option (\<lambda>names. y # names) (device_names (y # rest)))
      else device_names (y # rest))"
| "device_names _ = Some []"

text \<open>The devices of the default routes; \<open>None\<close> when a line is not understood.\<close>

fun route_devices :: "string list \<Rightarrow> string list option" where
  "route_devices [] = Some []"
| "route_devices (l # ls) =
     (let line = dropWhile is_space l
      in if line = [] then route_devices ls
         else
           (let words = split_fields line
            in if words = [] \<or> hd words \<noteq> ''default'' then None
               else (case device_names words of
                 None \<Rightarrow> None
               | Some names \<Rightarrow>
                   (if names = [] then None else map_option (\<lambda>more. names @ more) (route_devices ls)))))"

definition unsupported_types :: "string list" where
  "unsupported_types =
     [''wireguard'', ''type tun'', ''type tap'', ''type ipip'', ''type gre'', ''type gretap'', ''type sit'',
      ''type ip6tnl'', ''type ip6gre'', ''type ip6gretap'', ''type vti'', ''type vti6'', ''type xfrm'',
      ''type vxlan'', ''type geneve'', ''type bareudp'']"

definition supported_link :: "string \<Rightarrow> bool" where
  "supported_link text \<longleftrightarrow>
     (contains text ''link/ether'' \<or> contains text ''link/ppp'')
     \<and> \<not> list_ex (contains text) unsupported_types"

fun inspect_devices :: "('h, 'w) host \<Rightarrow> string \<Rightarrow> string list \<Rightarrow> time_point \<Rightarrow> ('w, bool option) state" where
  "inspect_devices h ip [] deadline = ret (Some True)"
| "inspect_devices h ip (d # ds) deadline = do {
     link \<leftarrow> run_tool h ip [''-d'', ''link'', ''show'', ''dev'', d] deadline 4096;
     (case complete_output link of
        None \<Rightarrow> ret None
      | Some text \<Rightarrow>
          (if \<not> supported_link text then ret (Some False) else inspect_devices h ip ds deadline))
   }"

definition inspect_ipv4_default_route_interfaces ::
  "('h, 'w) host \<Rightarrow> string \<Rightarrow> time_point \<Rightarrow> ('w, bool option) state" where
  "inspect_ipv4_default_route_interfaces h ip deadline = do {
     routes \<leftarrow> run_tool h ip [''-4'', ''route'', ''show'', ''default''] deadline 4096;
     (case complete_output routes of
        None \<Rightarrow> ret None
      | Some text \<Rightarrow>
          (case route_devices (output_lines text) of
             None \<Rightarrow> ret (Some False)
           | Some devices \<Rightarrow>
               (if devices = [] then ret (Some False) else inspect_devices h ip devices deadline)))
   }"

section \<open>Firewalls\<close>

definition inspect_ufw :: "('h, 'w) host \<Rightarrow> string \<Rightarrow> time_point \<Rightarrow> ('w, bool option) state" where
  "inspect_ufw h path deadline = do {
     result \<leftarrow> run_tool h path [''status''] deadline 4096;
     ret (if \<not> command_ok result then None
          else if contains (standard_output result) ''Status: active'' then Some True
          else if contains (standard_output result) ''Status: inactive'' then Some False
          else None)
   }"

definition inspect_firewalld :: "('h, 'w) host \<Rightarrow> string \<Rightarrow> time_point \<Rightarrow> ('w, bool option) state" where
  "inspect_firewalld h path deadline = do {
     result \<leftarrow> run_tool h path [''--state''] deadline 4096;
     ret (if command_ok result \<and> trim_ascii (standard_output result) = ''running'' then Some True
          else if command_kind result = Command_Nonzero_Exit
            \<and> trim_ascii (standard_output result) = ''not running'' then Some False
          else None)
   }"

definition firewalld_ingress_zone :: "('h, 'w) host \<Rightarrow> string \<Rightarrow> time_point \<Rightarrow> ('w, string option) state" where
  "firewalld_ingress_zone h path deadline = do {
     result \<leftarrow> run_tool h path [''--get-zone-of-interface=nll-host''] deadline 4096;
     ret (let zone = trim_ascii (standard_output result)
          in if \<not> command_ok result \<or> zone = [] \<or> 64 < length zone \<or> \<not> list_all zone_char zone
             then None else Some zone)
   }"

fun ufw_lines :: "string \<Rightarrow> bool \<Rightarrow> string list \<Rightarrow> bool option" where
  "ufw_lines marker found [] = Some found"
| "ufw_lines marker found (l # ls) =
     (if contains l marker then
        (if found \<or> \<not> contains l ''nll-host'' \<or> \<not> contains l ''10.200.0.2'' \<or> \<not> contains l ''ALLOW FWD''
         then None else ufw_lines marker True ls)
      else ufw_lines marker found ls)"

definition ufw_rule_present ::
  "('h, 'w) host \<Rightarrow> string \<Rightarrow> string \<Rightarrow> time_point \<Rightarrow> ('w, bool option) state" where
  "ufw_rule_present h path token deadline = do {
     result \<leftarrow> run_tool h path [''status'', ''numbered''] deadline 4096;
     ret (if \<not> command_ok result then None
          else ufw_lines (''netlaglab-'' @ token) False (output_lines (standard_output result)))
   }"

text \<open>\<open>field_value\<close>: the trimmed rest of the line after the first \<open>field:\<close>.\<close>

definition field_value :: "string \<Rightarrow> string \<Rightarrow> string option" where
  "field_value text field =
     (case find_text (field @ '':'') text of
        None \<Rightarrow> None
      | Some n \<Rightarrow>
          (let rest = drop (n + length field + 1) text
           in Some (trim_ascii (case next_line rest of None \<Rightarrow> rest | Some (l, _) \<Rightarrow> l))))"

definition expected_rule :: string where
  "expected_rule =
     ''rule family='' @ [CHR 0x22] @ ''ipv4'' @ [CHR 0x22] @ '' source address='' @ [CHR 0x22]
       @ ''10.200.0.2/32'' @ [CHR 0x22] @ '' accept''"

fun rich_rules :: "bool \<Rightarrow> string list \<Rightarrow> bool option" where
  "rich_rules has_rule [] = Some has_rule"
| "rich_rules has_rule (l # ls) =
     (let line = trim_ascii l
      in if line = [] then rich_rules has_rule ls
         else if line \<noteq> expected_rule \<or> has_rule then None
         else rich_rules True ls)"

definition empty_fields :: "string list" where
  "empty_fields =
     [''services'', ''ports'', ''protocols'', ''source-ports'', ''forward-ports'', ''icmp-blocks'']"

definition firewalld_policy_matches :: "string \<Rightarrow> string \<Rightarrow> bool \<Rightarrow> bool" where
  "firewalld_policy_matches text expected_ingress_zone allow_incomplete =
     (case (field_value text ''ingress-zones'', field_value text ''egress-zones'') of
        (Some ingress, Some egress) \<Rightarrow>
          (if (ingress \<noteq> [] \<and> ingress \<noteq> expected_ingress_zone)
              \<or> (egress \<noteq> [] \<and> egress \<noteq> ''ANY'')
              \<or> (\<not> allow_incomplete \<and> (ingress = [] \<or> egress \<noteq> ''ANY''))
           then False
           else if \<not> list_all zone_char ingress then False
           else (case find_text ''rich rules:'' text of
             None \<Rightarrow> False
           | Some n \<Rightarrow>
               (case rich_rules False (output_lines (drop (n + 11) text)) of
                  None \<Rightarrow> False
                | Some has_rule \<Rightarrow>
                    list_all (\<lambda>field. field_value text field \<in> {None, Some []}) empty_fields
                    \<and> (allow_incomplete \<or> has_rule))))
      | _ \<Rightarrow> False)"

definition known_nft_table_absence :: "command_result \<Rightarrow> bool" where
  "known_nft_table_absence r \<longleftrightarrow>
     command_kind r = Command_Nonzero_Exit
     \<and> (contains (standard_error r) ''No such file'' \<or> contains (standard_error r) ''does not exist'')"

end
