(* ===== verification/Traffic_Shaping.thy ===== *)
theory Traffic_Shaping
  imports Veth_Adapter
begin

text \<open>
  The traffic control of the production adapter: conversion of the settings of a direction to the
  kernel's units, the match of an observed root qdisc against settings, and the change of the
  settings with inspection before, after and after the rollback (\<open>set_settings\<close> in
  \<open>src/network_environment/network_environment.cpp\<close>).
\<close>

section \<open>The kernel's units\<close>

definition owned_netem_handle :: "32 word" where "owned_netem_handle = 0x4e4c0000"

definition unrestricted :: "direction_settings \<Rightarrow> bool" where
  "unrestricted s \<longleftrightarrow>
     delay s = 0 \<and> jitter s = 0 \<and> dbl_eq (packet_loss_percent s) dbl_zero \<and> bandwidth_kbps s = None"

definition nanoseconds :: "i64 \<Rightarrow> u64 option" where
  "nanoseconds value =
     (if sint value < 0 then None
      else if (2 ^ 64 - 1) div 1000000 < uint value then None
      else Some (value * 1000000))"

text \<open>
  \<open>std::rint(percentage / 100.0 * 4294967295.0)\<close>: both operations round to the nearest double,
  \<open>rint\<close> to the nearest integer, ties to even. The operands are not negative here.
\<close>

definition loss_quotient :: "nat \<Rightarrow> nat option" where
  "loss_quotient b = round_to_bits (mag_of_bits b) (mag_of_bits (dbl_bits dbl_hundred))"

definition loss_product :: "nat \<Rightarrow> nat option" where
  "loss_product b = round_to_bits (mag_of_bits b * (2 ^ 32 - 1)) dbl_unit"

definition loss_probability :: "double \<Rightarrow> u32 option" where
  "loss_probability percentage =
     (if \<not> isfinite percentage \<or> dbl_less percentage dbl_zero \<or> dbl_less dbl_hundred percentage then None
      else (case loss_quotient (dbl_bits percentage) of
        None \<Rightarrow> None
      | Some q \<Rightarrow>
          (case loss_product q of
             None \<Rightarrow> None
           | Some p \<Rightarrow>
               (let scaled = round_half_even (mag_of_bits p) dbl_unit
                in if 2 ^ 32 - 1 < scaled then None else Some (of_nat scaled)))))"

definition qdisc_matches :: "root_qdisc \<Rightarrow> direction_settings \<Rightarrow> bool" where
  "qdisc_matches q s \<longleftrightarrow>
     (if unrestricted s then qdisc_kind q = Noqueue \<and> qdisc_handle q = 0
      else (case (nanoseconds (delay s), nanoseconds (jitter s), loss_probability (packet_loss_percent s)) of
        (Some d, Some j, Some l) \<Rightarrow>
          bandwidth_kbps s = None \<and> \<not> qdisc_unsupported q \<and> qdisc_kind q = Netem
          \<and> qdisc_handle q = owned_netem_handle
          \<and> qdisc_delay q = d \<and> qdisc_jitter q = j \<and> qdisc_loss q = l
      | _ \<Rightarrow> False))"

definition is_owned_root_qdisc :: "root_qdisc \<Rightarrow> bool" where
  "is_owned_root_qdisc q \<longleftrightarrow>
     (qdisc_kind q = Noqueue \<and> qdisc_handle q = 0)
     \<or> (qdisc_kind q = Netem \<and> qdisc_handle q = owned_netem_handle)"

text \<open>The buffer of 64 characters is large enough, so the formatting cannot fail.\<close>

definition format_loss_percentage :: "double \<Rightarrow> string" where
  "format_loss_percentage percentage = to_chars_general 17 percentage"

section \<open>The commands\<close>

definition representable :: "direction_settings \<Rightarrow> bool" where
  "representable s \<longleftrightarrow>
     bandwidth_kbps s = None \<and> nanoseconds (delay s) \<noteq> None \<and> nanoseconds (jitter s) \<noteq> None
     \<and> loss_probability (packet_loss_percent s) \<noteq> None"

definition make_arguments :: "string \<Rightarrow> string \<Rightarrow> direction_settings \<Rightarrow> string list option" where
  "make_arguments device op s =
     (if \<not> representable s then None
      else if unrestricted s then
        Some [''qdisc'', ''del'', ''dev'', device, ''root'', ''handle'', ''4e4c:'']
      else if \<not> dbl_eq (packet_loss_percent s) dbl_zero
        \<and> (case loss_probability (packet_loss_percent s) of None \<Rightarrow> True | Some l \<Rightarrow> l = 0)
      then None
      else Some ([''qdisc'', op, ''dev'', device, ''root'', ''handle'', ''4e4c:'', ''netem'']
        @ (if delay s \<noteq> 0 \<or> jitter s \<noteq> 0
           then [''delay'', to_string_int (sint (delay s)) @ ''ms'']
             @ (if jitter s \<noteq> 0 then [to_string_int (sint (jitter s)) @ ''ms''] else [])
           else [])
        @ (if \<not> dbl_eq (packet_loss_percent s) dbl_zero
           then [''loss'', format_loss_percentage (packet_loss_percent s) @ ''%''] else [])))"

definition run_tc ::
  "('h, 'w) host \<Rightarrow> string \<Rightarrow> 'h \<Rightarrow> bool \<Rightarrow> direction_settings \<Rightarrow> root_qdisc \<Rightarrow> time_point
     \<Rightarrow> ('w, command_result) state" where
  "run_tc h tc ns to_namespace s existing deadline =
     (let op = (if unrestricted s then ''del'' else if qdisc_kind existing = Noqueue then ''add'' else ''change'');
          device = (if to_namespace then ''nll-app'' else ''nll-host'')
      in case make_arguments device op s of
           None \<Rightarrow> ret \<lparr>command_kind = Command_Nonzero_Exit, command_code = 22,
                       standard_error = [], standard_output = []\<rparr>
         | Some arguments \<Rightarrow>
             (if to_namespace then run_ip_in_namespace h tc arguments ns deadline
              else run_tool h tc arguments deadline 4096))"

definition inspect_qdisc ::
  "('h, 'w) host \<Rightarrow> 'h \<Rightarrow> bool \<Rightarrow> time_point \<Rightarrow> ('w, qdisc_query) state" where
  "inspect_qdisc h ns to_namespace deadline =
     (if to_namespace then query_namespace_qdisc h ns ''nll-app'' deadline
      else query_host_qdisc h ''nll-host'' deadline)"

definition seen_qdisc :: "qdisc_query \<Rightarrow> root_qdisc option" where
  "seen_qdisc q = (if query_status q = Inventory_Present then query_root q else None)"

definition query_matches :: "qdisc_query \<Rightarrow> direction_settings \<Rightarrow> bool" where
  "query_matches q s \<longleftrightarrow> (case seen_qdisc q of None \<Rightarrow> False | Some r \<Rightarrow> qdisc_matches r s)"

section \<open>The change\<close>

text \<open>From the first command on: attempt, inspection, rollback, inspection.\<close>

definition attempt_change ::
  "('h, 'w) host \<Rightarrow> string \<Rightarrow> 'h \<Rightarrow> bool \<Rightarrow> direction_settings \<Rightarrow> direction_settings \<Rightarrow> root_qdisc
     \<Rightarrow> time_point \<Rightarrow> ('w, shaping_change_result) state" where
  "attempt_change h tc ns to_namespace current requested existing deadline = do {
     _ \<leftarrow> run_tc h tc ns to_namespace requested existing deadline;
     after_attempt \<leftarrow> inspect_qdisc h ns to_namespace deadline;
     (if query_matches after_attempt requested then ret Shaping_Applied
      else if query_matches after_attempt current then ret Shaping_Restored
      else case seen_qdisc after_attempt of
        None \<Rightarrow> ret Shaping_State_Unknown
      | Some q \<Rightarrow>
          (if \<not> is_owned_root_qdisc q then ret Shaping_State_Unknown
           else do {
             _ \<leftarrow> run_tc h tc ns to_namespace current q deadline;
             after_rollback \<leftarrow> inspect_qdisc h ns to_namespace deadline;
             ret (if query_matches after_rollback current then Shaping_Restored else Shaping_State_Unknown)
           }))
   }"

definition prod_set_settings ::
  "('h, 'w) host \<Rightarrow> 'h \<Rightarrow> veth_identity_pair \<Rightarrow> shaping_direction \<Rightarrow> direction_settings
     \<Rightarrow> direction_settings \<Rightarrow> time_point \<Rightarrow> ('w, shaping_change_result) state" where
  "prod_set_settings h ns identity direction current requested deadline =
     (let to_namespace = (direction = Shape_Outbound)
      in do {
        observed \<leftarrow> observe_veth h (Some ns) deadline;
        (if \<not> observed_complete observed \<or> observed_identity observed \<noteq> Some identity
         then ret Shaping_State_Unknown
         else if \<not> representable requested
           \<or> (dbl_less dbl_zero (packet_loss_percent requested)
               \<and> loss_probability (packet_loss_percent requested) = Some 0)
         then ret Shaping_Restored
         else do {
           before \<leftarrow> inspect_qdisc h ns to_namespace deadline;
           (case seen_qdisc before of
              None \<Rightarrow> ret Shaping_State_Unknown
            | Some existing \<Rightarrow>
                (if \<not> qdisc_matches existing current then ret Shaping_State_Unknown
                 else if settings_eq current requested then ret Shaping_Applied
                 else do {
                   tc \<leftarrow> tool_path h ''tc'';
                   (case tc of
                      None \<Rightarrow> ret Shaping_Restored
                    | Some path \<Rightarrow>
                        attempt_change h path ns to_namespace current requested existing deadline)
                 }))
         })
      })"

end
