(* ===== verification/Production_Adapter.thy ===== *)
theory Production_Adapter
  imports Connectivity Traffic_Shaping
begin

text \<open>
  The connectivity operations of the production adapter, the reconciliation of a pending recovery
  record, and the adapter itself (\<open>ProductionAdapter\<close> in
  \<open>src/network_environment/network_environment.cpp\<close>) as a \<open>semantic_adapter\<close> whose world is the
  member \<open>ip_path_\<close> with the host's world.
\<close>

section \<open>Early return\<close>

text \<open>A step that returns from the operation with \<open>Inl\<close>.\<close>

definition step :: "('w, 'e + 'a) state \<Rightarrow> ('a \<Rightarrow> ('w, 'e + 'b) state) \<Rightarrow> ('w, 'e + 'b) state" where
  "step m f = do {
     r \<leftarrow> m;
     (case r of Inl e \<Rightarrow> ret (Inl e) | Inr x \<Rightarrow> f x)
   }"

section \<open>The connectivity handle and the firewall rules\<close>

record connectivity_handle =
  journal_directory :: int
  handle_record :: recovery_record
  handle_table :: string
  nft_path :: string
  firewall_path :: string
  firewall_zone :: string

definition new_connectivity_handle :: "int \<Rightarrow> recovery_record \<Rightarrow> connectivity_handle" where
  "new_connectivity_handle directory record1 =
     \<lparr>journal_directory = directory, handle_record = record1,
      handle_table = ''netlaglab_'' @ recovery_token record1,
      nft_path = [], firewall_path = [], firewall_zone = []\<rparr>"

definition op_ok :: op_result where
  "op_ok = \<lparr>op_succeeded = True, op_cause = Cause_System_Failure\<rparr>"

definition op_fail :: "cause \<Rightarrow> op_result" where
  "op_fail c = \<lparr>op_succeeded = False, op_cause = c\<rparr>"

definition policy_of :: "connectivity_handle \<Rightarrow> string" where
  "policy_of handle = ''netlaglab-'' @ recovery_token (handle_record handle)"

definition quoted :: "string \<Rightarrow> string" where
  "quoted s = [CHR 0x22] @ s @ [CHR 0x22]"

text \<open>The commands that make the policy, run until one fails.\<close>

fun run_all :: "('h, 'w) host \<Rightarrow> string \<Rightarrow> string list list \<Rightarrow> time_point \<Rightarrow> ('w, cause option) state" where
  "run_all h path [] deadline = ret None"
| "run_all h path (arguments # rest) deadline = do {
     result \<leftarrow> run_tool h path arguments deadline 4096;
     (if \<not> command_ok result then ret (Some (command_cause result)) else run_all h path rest deadline)
   }"

definition add_firewalld_policy :: "('h, 'w) host \<Rightarrow> connectivity_handle \<Rightarrow> time_point \<Rightarrow> ('w, op_result) state" where
  "add_firewalld_policy h handle deadline =
     (let policy = policy_of handle
      in do {
        made \<leftarrow> run_all h (firewall_path handle)
          [[''--new-policy='' @ policy],
           [''--policy='' @ policy, ''--add-ingress-zone='' @ firewall_zone handle],
           [''--policy='' @ policy, ''--add-egress-zone=ANY''],
           [''--policy='' @ policy, ''--add-rich-rule='' @ expected_rule]] deadline;
        (case made of
           Some c \<Rightarrow> ret (op_fail c)
         | None \<Rightarrow> do {
             inspection \<leftarrow> run_tool h (firewall_path handle) [''--info-policy='' @ policy] deadline 4096;
             ret (if command_ok inspection
                     \<and> firewalld_policy_matches (standard_output inspection) (firewall_zone handle) False
                  then op_ok else op_fail Cause_Identity_Unavailable)
           })
      })"

definition remove_ufw_rule :: "('h, 'w) host \<Rightarrow> connectivity_handle \<Rightarrow> time_point \<Rightarrow> ('w, op_result) state" where
  "remove_ufw_rule h handle deadline =
     (let token = recovery_token (handle_record handle); path = firewall_path handle
      in do {
        present \<leftarrow> ufw_rule_present h path token deadline;
        (case present of
           None \<Rightarrow> ret (op_fail Cause_Identity_Unavailable)
         | Some False \<Rightarrow> ret op_ok
         | Some True \<Rightarrow> do {
             deletion \<leftarrow> run_tool h path
               [''route'', ''delete'', ''allow'', ''in'', ''on'', ''nll-host'', ''from'', ''10.200.0.2'',
                ''comment'', ''netlaglab-'' @ token] deadline 4096;
             (if \<not> command_ok deletion then ret (op_fail (command_cause deletion))
              else do {
                remains \<leftarrow> ufw_rule_present h path token deadline;
                ret (if remains = Some False then op_ok else op_fail Cause_Identity_Unavailable)
              })
           })
      })"

definition remove_firewalld_policy ::
  "('h, 'w) host \<Rightarrow> connectivity_handle \<Rightarrow> time_point \<Rightarrow> ('w, op_result) state" where
  "remove_firewalld_policy h handle deadline =
     (let policy = policy_of handle; path = firewall_path handle
      in do {
        current \<leftarrow> run_tool h path [''--info-policy='' @ policy] deadline 4096;
        (if \<not> command_ok current then do {
           active \<leftarrow> inspect_firewalld h path deadline;
           ret (if active = Some False \<or> contains (standard_error current) ''INVALID_POLICY'' then op_ok
                else op_fail (command_cause current))
         }
         else if \<not> firewalld_policy_matches (standard_output current) (firewall_zone handle) True
         then ret (op_fail Cause_Identity_Mismatch)
         else do {
           deletion \<leftarrow> run_tool h path [''--delete-policy='' @ policy] deadline 4096;
           (if \<not> command_ok deletion then ret (op_fail (command_cause deletion))
            else do {
              after \<leftarrow> run_tool h path [''--info-policy='' @ policy] deadline 4096;
              (if command_ok after then ret (op_fail Cause_Identity_Mismatch)
               else if contains (standard_error after) ''INVALID_POLICY'' then ret op_ok
               else do {
                 active \<leftarrow> inspect_firewalld h path deadline;
                 ret (if active = Some False then op_ok else op_fail (command_cause after))
               })
            })
         })
      })"

definition remove_firewall :: "('h, 'w) host \<Rightarrow> connectivity_handle \<Rightarrow> time_point \<Rightarrow> ('w, op_result) state" where
  "remove_firewall h handle deadline =
     (case recovery_backend (handle_record handle) of
        Backend_Ufw \<Rightarrow> remove_ufw_rule h handle deadline
      | Backend_Nftables \<Rightarrow> ret op_ok
      | Backend_Firewalld \<Rightarrow> remove_firewalld_policy h handle deadline)"

section \<open>Removal\<close>

type_synonym connectivity_removal = "connectivity_handle connectivity_state removal_result"

definition keep_proof :: "connectivity_handle \<Rightarrow> cause \<Rightarrow> connectivity_removal" where
  "keep_proof handle c = \<lparr>rem_cause = c, rem_state = Connectivity_Proven handle\<rparr>"

definition lose_proof :: "cause \<Rightarrow> connectivity_removal" where
  "lose_proof c = \<lparr>rem_cause = c, rem_state = Connectivity_Unconfirmed\<rparr>"

text \<open>The record that the removal writes, from what the journal has; \<open>None\<close> when it is another's.\<close>

definition removing_record :: "recovery_read_result \<Rightarrow> connectivity_handle \<Rightarrow> recovery_record option" where
  "removing_record current handle =
     (case (read_status current, read_record current) of
        (Recovery_Empty, _) \<Rightarrow> Some ((handle_record handle)\<lparr>recovery_phase := Phase_Removing\<rparr>)
      | (Recovery_Valid, Some r) \<Rightarrow>
          (if recovery_token r = recovery_token (handle_record handle)
              \<and> recovery_backend r = recovery_backend (handle_record handle)
           then Some (r\<lparr>recovery_phase := Phase_Removing\<rparr>) else None)
      | _ \<Rightarrow> None)"

text \<open>The removal of the table: the cause that keeps or loses the proof, if any.\<close>

definition remove_nft_table ::
  "('h, 'w) host \<Rightarrow> string \<Rightarrow> connectivity_handle \<Rightarrow> time_point \<Rightarrow> ('w, connectivity_removal option) state" where
  "remove_nft_table h path handle deadline =
     (let list_table = [''list'', ''table'', ''ip'', handle_table handle]
      in do {
        table_query \<leftarrow> run_tool h path list_table deadline 4096;
        (if command_ok table_query then
           (if \<not> contains (standard_output table_query) (handle_table handle)
            then ret (Some (lose_proof Cause_Identity_Mismatch))
            else do {
              deletion \<leftarrow> run_tool h path [''delete'', ''table'', ''ip'', handle_table handle] deadline 4096;
              (if \<not> command_ok deletion then ret (Some (keep_proof handle (command_cause deletion)))
               else do {
                 after \<leftarrow> run_tool h path list_table deadline 4096;
                 ret (if known_nft_table_absence after then None
                      else Some (keep_proof handle
                        (if command_ok after then Cause_Identity_Mismatch else command_cause after)))
               })
            })
         else ret (if known_nft_table_absence table_query then None
                   else Some (keep_proof handle (command_cause table_query))))
      })"

definition prod_remove_connectivity ::
  "('h, 'w) host \<Rightarrow> connectivity_handle \<Rightarrow> time_point \<Rightarrow> ('w, connectivity_removal) state" where
  "prod_remove_connectivity h handle0 deadline = do {
     current \<leftarrow> read_recovery_record h (journal_directory handle0);
     (case removing_record current handle0 of
        None \<Rightarrow> ret (lose_proof Cause_Identity_Mismatch)
      | Some removing \<Rightarrow> do {
          written \<leftarrow> write_recovery_record h (journal_directory handle0) removing;
          (if \<not> written then ret (keep_proof handle0 Cause_System_Failure)
           else
             (let handle = handle0\<lparr>handle_record := removing\<rparr>
              in do {
                firewall \<leftarrow> (if firewall_path handle \<noteq> [] then remove_firewall h handle deadline else ret op_ok);
                (if \<not> op_succeeded firewall then ret (keep_proof handle (op_cause firewall))
                 else do {
                   nft \<leftarrow> (if nft_path handle = [] then tool_path h ''nft'' else ret (Some (nft_path handle)));
                   (case nft of
                      None \<Rightarrow> ret (keep_proof handle Cause_Unavailable_Or_Invalid_Tool)
                    | Some path \<Rightarrow> do {
                        table \<leftarrow> remove_nft_table h path handle deadline;
                        (case table of
                           Some r \<Rightarrow> ret r
                         | None \<Rightarrow> do {
                             cleared \<leftarrow> clear_recovery_record h (journal_directory handle);
                             ret (if cleared then gone Connectivity_Absent
                                  else keep_proof handle Cause_System_Failure)
                           })
                      })
                 })
              }))
        })
   }"

section \<open>Configuration\<close>

definition firewall_consent_limit :: time_point where "firewall_consent_limit = 30 * 10 ^ 9"
definition maximum_firewall_inventory_size :: nat where "maximum_firewall_inventory_size = 64 * 1024"

text \<open>A query of the host that must succeed and must be true.\<close>

definition required :: "('w, bool option) state \<Rightarrow> ('w, cause + unit) state" where
  "required query = do {
     answer \<leftarrow> query;
     ret (case answer of
       None \<Rightarrow> Inl Cause_System_Failure
     | Some False \<Rightarrow> Inl Cause_Unsupported_Host_Configuration
     | Some True \<Rightarrow> Inr ())
   }"

text \<open>Forwarding, policy routing and default routes; the result says if there are legacy rules.\<close>

definition inspect_host_routing ::
  "('h, 'w) host \<Rightarrow> string \<Rightarrow> time_point \<Rightarrow> ('w, cause + bool) state" where
  "inspect_host_routing h ip deadline = do {
     forwarding \<leftarrow> ipv4_forwarding_enabled h;
     legacy_rules \<leftarrow> legacy_iptables_rules_present h;
     (case (forwarding, legacy_rules) of
        (Some enabled, Some legacy) \<Rightarrow>
          (if \<not> enabled then ret (Inl Cause_Unsupported_Host_Configuration)
           else step (required (inspect_ipv4_policy_routing h ip deadline)) (\<lambda>_.
             step (required (inspect_ipv4_default_route_interfaces h ip deadline)) (\<lambda>_. ret (Inr legacy))))
      | _ \<Rightarrow> ret (Inl Cause_System_Failure))
   }"

datatype active_firewall = No_Firewall | Active_Ufw string | Active_Firewalld string

definition inspect_if_present ::
  "(string \<Rightarrow> ('w, bool option) state) \<Rightarrow> string option \<Rightarrow> ('w, bool option) state" where
  "inspect_if_present inspect path =
     (case path of None \<Rightarrow> ret (Some False) | Some p \<Rightarrow> inspect p)"

definition which_firewall ::
  "string option \<Rightarrow> string option \<Rightarrow> bool option \<Rightarrow> bool option \<Rightarrow> active_firewall option" where
  "which_firewall ufw_path firewalld_path ufw_status firewalld_status =
     (case (ufw_status, firewalld_status) of
        (Some u, Some f) \<Rightarrow>
          (if u \<and> f then None
           else Some (if u then Active_Ufw (the ufw_path)
                      else if f then Active_Firewalld (the firewalld_path) else No_Firewall))
      | _ \<Rightarrow> None)"

text \<open>The tools and the firewall that is active, at most one.\<close>

definition inspect_host_firewall ::
  "('h, 'w) host \<Rightarrow> time_point \<Rightarrow> ('w, cause + (string \<times> active_firewall)) state" where
  "inspect_host_firewall h deadline = do {
     nft \<leftarrow> tool_path h ''nft'';
     (case nft of
        None \<Rightarrow> ret (Inl Cause_Unavailable_Or_Invalid_Tool)
      | Some nft_tool \<Rightarrow> do {
          ufw \<leftarrow> find_trusted_tool h ''ufw'';
          firewalld \<leftarrow> find_trusted_tool h ''firewall-cmd'';
          (case (ufw, firewalld) of
             (Some ufw_path, Some firewalld_path) \<Rightarrow> do {
               ufw_status \<leftarrow> inspect_if_present (\<lambda>p. inspect_ufw h p deadline) ufw_path;
               firewalld_status \<leftarrow> inspect_if_present (\<lambda>p. inspect_firewalld h p deadline) firewalld_path;
               ret (case which_firewall ufw_path firewalld_path ufw_status firewalld_status of
                 None \<Rightarrow> Inl Cause_Unsupported_Host_Configuration
               | Some active \<Rightarrow> Inr (nft_tool, active))
             }
           | _ \<Rightarrow> ret (Inl Cause_System_Failure))
        })
   }"

text \<open>The existing rules; without a firewall that we know they must leave forwarding alone.\<close>

definition inspect_nft_ruleset ::
  "('h, 'w) host \<Rightarrow> string \<Rightarrow> active_firewall \<Rightarrow> bool \<Rightarrow> time_point \<Rightarrow> ('w, cause + unit) state" where
  "inspect_nft_ruleset h nft active legacy deadline = do {
     ruleset \<leftarrow> run_tool h nft [''list'', ''ruleset''] deadline (maximum_firewall_inventory_size + 1);
     ret (if \<not> command_ok ruleset then Inl (command_cause ruleset)
          else if maximum_firewall_inventory_size < length (standard_output ruleset)
          then Inl Cause_Unsupported_Host_Configuration
          else if active = No_Firewall \<and> (legacy \<or> contains (standard_output ruleset) ''hook forward'')
          then Inl Cause_Unsupported_Host_Configuration
          else Inr ())
   }"

fun backend_of :: "active_firewall \<Rightarrow> recovery_backend" where
  "backend_of No_Firewall = Backend_Nftables"
| "backend_of (Active_Ufw _) = Backend_Ufw"
| "backend_of (Active_Firewalld _) = Backend_Firewalld"

definition ufw_rule_description :: "string \<Rightarrow> string" where
  "ufw_rule_description token =
     ''route allow in on nll-host from 10.200.0.2 comment netlaglab-'' @ token"

definition firewalld_description :: "string \<Rightarrow> string \<Rightarrow> string" where
  "firewalld_description token zone =
     ''firewalld policy '' @ ''netlaglab-'' @ token @ '' from zone '' @ zone
       @ '' for IPv4 source 10.200.0.2/32 to any routed destination''"

definition consent_cause :: "firewall_consent \<Rightarrow> cause option" where
  "consent_cause c =
     (case c of
        Consent_Granted \<Rightarrow> None
      | Consent_Declined \<Rightarrow> Some Cause_Firewall_Consent_Declined
      | Consent_Timed_Out \<Rightarrow> Some Cause_Firewall_Consent_Timeout
      | Consent_Terminal_Unavailable \<Rightarrow> Some Cause_Firewall_Consent_Unavailable
      | Consent_Io_Failure \<Rightarrow> Some Cause_System_Failure)"

text \<open>
  The question to the user about a change of the firewall. The time for the decision does not
  count: the deadline for the changes is a new one.
\<close>

definition ask_consent :: "('h, 'w) host \<Rightarrow> string \<Rightarrow> time_point \<Rightarrow> ('w, cause + time_point) state" where
  "ask_consent h description deadline = do {
     started \<leftarrow> steady_now h;
     (if deadline \<le> started then ret (Inl Cause_Timeout)
      else do {
        consent \<leftarrow> request_firewall_consent h description (started + firewall_consent_limit);
        (case consent_cause consent of
           Some c \<Rightarrow> ret (Inl c)
         | None \<Rightarrow> do {
             now \<leftarrow> steady_now h;
             ret (Inr (now + operation_limit))
           })
      })
   }"

text \<open>The zone, if it is needed, and the deadline for the changes.\<close>

definition obtain_consent ::
  "('h, 'w) host \<Rightarrow> active_firewall \<Rightarrow> string \<Rightarrow> time_point \<Rightarrow> ('w, cause + (string \<times> time_point)) state" where
  "obtain_consent h active token deadline =
     (case active of
        No_Firewall \<Rightarrow> ret (Inr ([], deadline))
      | Active_Ufw _ \<Rightarrow>
          step (ask_consent h (ufw_rule_description token) deadline) (\<lambda>d. ret (Inr ([], d)))
      | Active_Firewalld path \<Rightarrow> do {
          zone \<leftarrow> firewalld_ingress_zone h path deadline;
          (case zone of
             None \<Rightarrow> ret (Inl Cause_Unsupported_Host_Configuration)
           | Some z \<Rightarrow>
               step (ask_consent h (firewalld_description token z) deadline) (\<lambda>d. ret (Inr (z, d))))
        })"

text \<open>The journal must be empty; then it gets the intent.\<close>

definition open_journal :: "('h, 'w) host \<Rightarrow> recovery_record \<Rightarrow> ('w, cause + int) state" where
  "open_journal h record1 = do {
     directory \<leftarrow> open_recovery_directory h;
     (if directory = - 1 then ret (Inl Cause_System_Failure)
      else do {
        existing \<leftarrow> read_recovery_record h directory;
        (if read_status existing \<noteq> Recovery_Empty then ret (Inl Cause_Unsupported_Host_Configuration)
         else do {
           written \<leftarrow> write_recovery_record h directory record1;
           ret (if \<not> written then Inl Cause_System_Failure else Inr directory)
         })
      })
   }"

type_synonym connectivity_mutation = "connectivity_handle connectivity_state mutation_result"

definition refused :: "cause \<Rightarrow> connectivity_mutation" where
  "refused c = \<lparr>mut_succeeded = False, mut_cause = c, mut_state = Connectivity_Absent\<rparr>"

definition failed_with :: "connectivity_handle \<Rightarrow> cause \<Rightarrow> connectivity_mutation" where
  "failed_with handle c = \<lparr>mut_succeeded = False, mut_cause = c, mut_state = Connectivity_Proven handle\<rparr>"

definition chain_arguments :: "string \<Rightarrow> string list" where
  "chain_arguments table =
     [''add'', ''chain'', ''ip'', table, ''postrouting'', ''{'', ''type'', ''nat'', ''hook'', ''postrouting'',
      ''priority'', ''srcnat'', '';'', ''policy'', ''accept'', '';'', ''}'']"

definition rule_arguments :: "string \<Rightarrow> string \<Rightarrow> string list" where
  "rule_arguments table token =
     [''add'', ''rule'', ''ip'', table, ''postrouting'', ''iifname'', quoted ''nll-host'', ''ip'', ''saddr'',
      ''10.200.0.2/32'', ''counter'', ''masquerade'', ''comment'', quoted (''netlaglab:'' @ token)]"

text \<open>The address translation: the cause of the failure and the handle as it is by then.\<close>

definition add_translation ::
  "('h, 'w) host \<Rightarrow> string \<Rightarrow> connectivity_handle \<Rightarrow> time_point
     \<Rightarrow> ('w, connectivity_mutation + connectivity_handle) state" where
  "add_translation h nft handle deadline =
     (let table = handle_table handle; token = recovery_token (handle_record handle);
          owned = handle\<lparr>nft_path := nft\<rparr>
      in do {
        made \<leftarrow> run_tool h nft [''add'', ''table'', ''ip'', table] deadline 4096;
        (if \<not> command_ok made then ret (Inl (failed_with handle (command_cause made)))
         else do {
           rules \<leftarrow> run_all h nft [chain_arguments table, rule_arguments table token] deadline;
           ret (case rules of Some c \<Rightarrow> Inl (failed_with owned c) | None \<Rightarrow> Inr owned)
         })
      })"

text \<open>The rule of the active firewall.\<close>

definition add_firewall ::
  "('h, 'w) host \<Rightarrow> active_firewall \<Rightarrow> string \<Rightarrow> connectivity_handle \<Rightarrow> time_point
     \<Rightarrow> ('w, connectivity_mutation + connectivity_handle) state" where
  "add_firewall h active zone handle deadline =
     (case active of
        No_Firewall \<Rightarrow> ret (Inr handle)
      | Active_Ufw path \<Rightarrow>
          (let owned = handle\<lparr>firewall_path := path\<rparr>; token = recovery_token (handle_record handle)
           in do {
             rule \<leftarrow> run_tool h path
               [''route'', ''allow'', ''in'', ''on'', ''nll-host'', ''from'', ''10.200.0.2'', ''comment'',
                ''netlaglab-'' @ token] deadline 4096;
             present \<leftarrow> ufw_rule_present h path token deadline;
             ret (if \<not> command_ok rule \<or> present \<noteq> Some True
                  then Inl (failed_with owned
                    (if command_ok rule then Cause_Identity_Unavailable else command_cause rule))
                  else Inr owned)
           })
      | Active_Firewalld path \<Rightarrow>
          (let owned = handle\<lparr>firewall_path := path, firewall_zone := zone\<rparr>
           in do {
             rule \<leftarrow> add_firewalld_policy h owned deadline;
             ret (if \<not> op_succeeded rule then Inl (failed_with owned (op_cause rule)) else Inr owned)
           }))"

text \<open>From the intent in the journal to the applied record.\<close>

definition apply_connectivity ::
  "('h, 'w) host \<Rightarrow> string \<Rightarrow> active_firewall \<Rightarrow> string \<Rightarrow> connectivity_handle \<Rightarrow> time_point
     \<Rightarrow> ('w, connectivity_mutation) state" where
  "apply_connectivity h nft active zone handle deadline = do {
     translated \<leftarrow> add_translation h nft handle deadline;
     (case translated of
        Inl failure \<Rightarrow> ret failure
      | Inr handle1 \<Rightarrow> do {
          opened \<leftarrow> add_firewall h active zone handle1 deadline;
          (case opened of
             Inl failure \<Rightarrow> ret failure
           | Inr handle2 \<Rightarrow>
               (let applied = (handle_record handle2)\<lparr>recovery_phase := Phase_Applied\<rparr>
                in do {
                  written \<leftarrow> write_recovery_record h (journal_directory handle2) applied;
                  ret (if \<not> written then failed_with handle2 Cause_System_Failure
                       else \<lparr>mut_succeeded = True, mut_cause = Cause_System_Failure,
                             mut_state = Connectivity_Proven (handle2\<lparr>handle_record := applied\<rparr>)\<rparr>)
                }))
        })
   }"

text \<open>Everything that comes before the first change of the host's network.\<close>

definition plan_connectivity ::
  "('h, 'w) host \<Rightarrow> string \<Rightarrow> time_point
     \<Rightarrow> ('w, cause + (string \<times> active_firewall \<times> string \<times> connectivity_handle \<times> time_point)) state" where
  "plan_connectivity h ip deadline =
     step (inspect_host_routing h ip deadline) (\<lambda>legacy.
     step (inspect_host_firewall h deadline) (\<lambda>(nft, active).
     step (inspect_nft_ruleset h nft active legacy deadline) (\<lambda>_. do {
       token1 \<leftarrow> create_recovery_token h;
       (case token1 of
          None \<Rightarrow> ret (Inl Cause_System_Failure)
        | Some token \<Rightarrow>
            (let record1 = \<lparr>recovery_backend = backend_of active, recovery_phase = Phase_Intent,
                            recovery_token = token\<rparr>
             in step (obtain_consent h active token deadline) (\<lambda>(zone, new_deadline).
                  step (open_journal h record1) (\<lambda>directory.
                    ret (Inr (nft, active, zone, new_connectivity_handle directory record1, new_deadline))))))
     })))"

definition prod_configure_connectivity ::
  "('h, 'w) host \<Rightarrow> string \<Rightarrow> time_point \<Rightarrow> ('w, connectivity_mutation) state" where
  "prod_configure_connectivity h ip deadline = do {
     plan \<leftarrow> plan_connectivity h ip deadline;
     (case plan of
        Inl c \<Rightarrow> ret (refused c)
      | Inr (nft, active, zone, handle, new_deadline) \<Rightarrow>
          apply_connectivity h nft active zone handle new_deadline)
   }"

section \<open>What an earlier session left behind\<close>

definition recovery_firewall ::
  "('h, 'w) host \<Rightarrow> recovery_backend \<Rightarrow> ('w, cause + string) state" where
  "recovery_firewall h backend =
     (let find = (\<lambda>name. do {
            path \<leftarrow> tool_path h name;
            ret (case path of None \<Rightarrow> Inl Cause_Unavailable_Or_Invalid_Tool | Some p \<Rightarrow> Inr p)
          })
      in case backend of
           Backend_Ufw \<Rightarrow> find ''ufw''
         | Backend_Firewalld \<Rightarrow> find ''firewall-cmd''
         | Backend_Nftables \<Rightarrow> ret (Inr []))"

text \<open>The handle gets no \<open>firewall_zone\<close>: the journal does not have one.\<close>

definition recover :: "('h, 'w) host \<Rightarrow> int \<Rightarrow> recovery_record \<Rightarrow> time_point \<Rightarrow> ('w, op_result) state" where
  "recover h directory record1 deadline = do {
     nft \<leftarrow> tool_path h ''nft'';
     (case nft of
        None \<Rightarrow> ret (op_fail Cause_Unavailable_Or_Invalid_Tool)
      | Some nft_tool \<Rightarrow> do {
          firewall \<leftarrow> recovery_firewall h (recovery_backend record1);
          (case firewall of
             Inl c \<Rightarrow> ret (op_fail c)
           | Inr path \<Rightarrow> do {
               reconciled \<leftarrow> prod_remove_connectivity h
                 ((new_connectivity_handle directory record1)\<lparr>nft_path := nft_tool, firewall_path := path\<rparr>)
                 deadline;
               ret (if rem_state reconciled = Connectivity_Absent then op_ok else op_fail (rem_cause reconciled))
             })
        })
   }"

definition reconcile_pending_state :: "('h, 'w) host \<Rightarrow> time_point \<Rightarrow> ('w, op_result) state" where
  "reconcile_pending_state h deadline = do {
     directory \<leftarrow> open_recovery_directory h;
     (if directory = - 1 then ret (op_fail Cause_System_Failure)
      else do {
        recovery \<leftarrow> read_recovery_record h directory;
        (case (read_status recovery, read_record recovery) of
           (Recovery_Empty, _) \<Rightarrow> ret op_ok
         | (Recovery_Valid, Some record1) \<Rightarrow> recover h directory record1 deadline
         | _ \<Rightarrow> ret (op_fail Cause_Unsupported_Host_Configuration))
      })
   }"

section \<open>The adapter\<close>

text \<open>\<open>preflight\<close> gives the path of \<open>ip\<close> that becomes the member \<open>ip_path_\<close>.\<close>

definition prod_preflight ::
  "('h, 'w) host \<Rightarrow> bool \<Rightarrow> time_point \<Rightarrow> ('w, cause + string) state" where
  "prod_preflight h reconcile_recovery deadline = do {
     root \<leftarrow> privileged h;
     (if \<not> root then ret (Inl Cause_System_Failure)
      else do {
        reconciled \<leftarrow> (if reconcile_recovery then reconcile_pending_state h deadline else ret op_ok);
        (if \<not> op_succeeded reconciled then ret (Inl (op_cause reconciled)) else run_preflight h deadline)
      })
   }"

text \<open>An operation with the member \<open>ip_path_\<close>.\<close>

definition with_ip :: "(string \<Rightarrow> ('w, 'a) state) \<Rightarrow> string \<times> 'w \<Rightarrow> 'a \<times> (string \<times> 'w)" where
  "with_ip m = (\<lambda>(ip, w). case run_state (m ip) w of (r, w1) \<Rightarrow> (r, (ip, w1)))"

definition preflight_and_keep ::
  "('h, 'w) host \<Rightarrow> bool \<Rightarrow> time_point \<Rightarrow> string \<times> 'w \<Rightarrow> op_result \<times> (string \<times> 'w)" where
  "preflight_and_keep h reconcile_recovery deadline = (\<lambda>(ip, w).
     case run_state (prod_preflight h reconcile_recovery deadline) w of
       (Inl c, w1) \<Rightarrow> (op_fail c, (ip, w1))
     | (Inr path, w1) \<Rightarrow> (op_ok, (path, w1)))"

definition production_adapter ::
  "('h, 'w) host \<Rightarrow> bool
     \<Rightarrow> ('h, veth_identity_pair, veth_identity_pair, connectivity_handle, string \<times> 'w) semantic_adapter" where
  "production_adapter h reconcile_recovery =
     \<lparr>clock_now = with_ip (\<lambda>_. steady_now h),
      do_preflight = preflight_and_keep h reconcile_recovery,
      create_namespace = (\<lambda>d. with_ip (\<lambda>ip. prod_create_namespace h ip d)),
      create_veth = (\<lambda>d. with_ip (\<lambda>ip. prod_create_veth h ip d)),
      move_peer = (\<lambda>n v d. with_ip (\<lambda>ip. prod_move_peer h ip n v d)),
      assign_host_address = (\<lambda>v d. with_ip (\<lambda>ip. prod_assign_host_address h ip d)),
      bring_host_link_up = (\<lambda>v d. with_ip (\<lambda>ip. prod_bring_host_link_up h ip d)),
      bring_loopback_up = (\<lambda>n d. with_ip (\<lambda>ip. prod_bring_loopback_up h ip n d)),
      assign_namespace_address = (\<lambda>n v d. with_ip (\<lambda>ip. prod_assign_namespace_address h ip n d)),
      bring_namespace_link_up = (\<lambda>n v d. with_ip (\<lambda>ip. prod_bring_namespace_link_up h ip n d)),
      add_default_route = (\<lambda>n v d. with_ip (\<lambda>ip. prod_add_default_route h ip n d)),
      set_settings = (\<lambda>n v direction current requested d.
        with_ip (\<lambda>_. prod_set_settings h n v direction current requested d)),
      configure_connectivity = (\<lambda>d. with_ip (\<lambda>ip. prod_configure_connectivity h ip d)),
      remove_connectivity = (\<lambda>c d. with_ip (\<lambda>_. prod_remove_connectivity h c d)),
      remove_veth = (\<lambda>v n d. with_ip (\<lambda>ip. prod_remove_veth h ip v n d)),
      remove_namespace = (\<lambda>n d. with_ip (\<lambda>ip. prod_remove_namespace h ip n d))\<rparr>"

text \<open>The preparation on the production adapter, after the lock of the host has been taken.\<close>

definition prepare_production_network_environment ::
  "('h, 'w) host \<Rightarrow> ('w, cause option) state \<Rightarrow> bool \<Rightarrow> 'w
     \<Rightarrow> ('h, veth_identity_pair, veth_identity_pair, connectivity_handle) preparation_result \<times> (string \<times> 'w)" where
  "prepare_production_network_environment h acquire_host_lock reconcile_recovery w =
     (case run_state acquire_host_lock w of
        (Some c, w1) \<Rightarrow> (Preparation_Failed (Stage_Preflight, c) [] None, ([], w1))
      | (None, w1) \<Rightarrow>
          prepare_network_environment (production_adapter h reconcile_recovery) ([], w1))"

end
