(* ===== verification/Production_Laws.thy ===== *)
theory Production_Laws
  imports Host_Rules Production_Adapter
begin

text \<open>
  What the connectivity operations of the production adapter promise: a refused configuration has
  changed nothing, a firewall is changed only after consent and with an intent in the journal; and
  the defect of the recovery, which cannot remove a finished policy of firewalld, on any host whose
  journal and tools tell the truth (\<open>truthful\<close>) and over any number of later preflights.
\<close>

section \<open>The frame of the inspection\<close>

text \<open>
  The arguments of the commands that only look: every command the configuration runs before its
  first change is one of them.
\<close>

definition looking_arguments :: "string list set" where
  "looking_arguments =
     {[''-4'', ''rule'', ''show''], [''-4'', ''route'', ''show'', ''default''], [''status''], [''--state''],
      [''--get-zone-of-interface=nll-host''], [''list'', ''ruleset'']}
     \<union> {[''-d'', ''link'', ''show'', ''dev'', d] |d. True}"

text \<open>\<open>view\<close> shows a part of the world that looking, the journal and the user do not change.\<close>

definition inspection_keeps :: "('h, 'w) host \<Rightarrow> ('w \<Rightarrow> 'v) \<Rightarrow> bool" where
  "inspection_keeps h view \<longleftrightarrow>
     (\<forall>path arguments d n. arguments \<in> looking_arguments \<longrightarrow> keeps view (run_tool h path arguments d n))
     \<and> keeps view (ipv4_forwarding_enabled h) \<and> keeps view (legacy_iptables_rules_present h)
     \<and> (\<forall>path. keeps view (query_tool h path))
     \<and> (\<forall>text d. keeps view (request_firewall_consent h text d))
     \<and> keeps view (create_recovery_token h) \<and> keeps view (steady_now h)
     \<and> keeps view (open_recovery_directory h)
     \<and> (\<forall>directory. keeps view (read_recovery_record h directory))
     \<and> (\<forall>directory r. keeps view (write_recovery_record h directory r))"

lemma keeps_step [frame]:
  "keeps view m \<Longrightarrow> (\<And>x. keeps view (f x)) \<Longrightarrow> keeps view (step m f)"
  unfolding step_def by (intro frame)

lemma inspection_keepsD:
  assumes "inspection_keeps h view"
  shows "arguments \<in> looking_arguments \<Longrightarrow> keeps view (run_tool h path arguments d n)"
    "keeps view (ipv4_forwarding_enabled h)" "keeps view (legacy_iptables_rules_present h)"
    "keeps view (query_tool h path)" "keeps view (request_firewall_consent h text d)"
    "keeps view (create_recovery_token h)" "keeps view (steady_now h)" "keeps view (open_recovery_directory h)"
    "keeps view (read_recovery_record h directory)" "keeps view (write_recovery_record h directory r)"
  using assms by (simp_all add: inspection_keeps_def)

lemma looking [simp]:
  "[''-4'', ''rule'', ''show''] \<in> looking_arguments" "[''-4'', ''route'', ''show'', ''default''] \<in> looking_arguments"
  "[''status''] \<in> looking_arguments" "[''--state''] \<in> looking_arguments"
  "[''--get-zone-of-interface=nll-host''] \<in> looking_arguments" "[''list'', ''ruleset''] \<in> looking_arguments"
  "[''-d'', ''link'', ''show'', ''dev'', device] \<in> looking_arguments"
  by (auto simp: looking_arguments_def)

lemma inspect_devices_keeps:
  assumes "inspection_keeps h view" shows "keeps view (inspect_devices h ip ds d)"
  by (induction ds) (auto intro!: frame inspection_keepsD [OF assms])

lemma tools_keep:
  assumes "inspection_keeps h view" shows "keeps view (tool_path h name)" "keeps view (find_trusted_tool h name)"
  by (rule tool_path_keeps, rule inspection_keepsD [OF assms])+

lemma inspect_host_keeps:
  assumes "inspection_keeps h view"
  shows "keeps view (inspect_host_routing h ip d)" "keeps view (inspect_host_firewall h d)"
    "keeps view (inspect_nft_ruleset h nft active legacy d)"
  unfolding inspect_host_routing_def inspect_host_firewall_def inspect_nft_ruleset_def required_def
    inspect_ipv4_policy_routing_def inspect_ipv4_default_route_interfaces_def inspect_if_present_def
    inspect_ufw_def inspect_firewalld_def
  by (intro frame tools_keep [OF assms] inspect_devices_keeps [OF assms] inspection_keepsD [OF assms] looking)+

lemma obtain_consent_keeps:
  assumes "inspection_keeps h view" shows "keeps view (obtain_consent h active token d)"
proof (cases active)
  case No_Firewall
  then show ?thesis by (simp add: obtain_consent_def frame)
next
  case Active_Ufw
  then show ?thesis
    unfolding obtain_consent_def ask_consent_def active_firewall.case
    by (simp add: Active_Ufw) (intro frame inspection_keepsD [OF assms])
next
  case Active_Firewalld
  then show ?thesis
    unfolding obtain_consent_def ask_consent_def firewalld_ingress_zone_def
    by simp (intro frame inspection_keepsD [OF assms] looking)
qed

lemma plan_keeps:
  assumes "inspection_keeps h view" shows "keeps view (plan_connectivity h ip d)"
  unfolding plan_connectivity_def open_journal_def
  by (intro frame inspect_host_keeps [OF assms] obtain_consent_keeps [OF assms] inspection_keepsD [OF assms])

section \<open>What a configuration may change\<close>

lemma step_InrE:
  assumes "fst (run_state (step m f) w) = Inr y"
  obtains x where "fst (run_state m w) = Inr x" "fst (run_state (f x) (snd (run_state m w))) = Inr y"
  using assms by (auto simp: step_def split: sum.splits)

text \<open>Once the changes have begun, the handle is never dropped.\<close>

definition holds_handle :: "connectivity_mutation \<Rightarrow> bool" where
  "holds_handle r \<longleftrightarrow>
     (\<exists>c. mut_state r = Connectivity_Proven c \<and> (mut_succeeded r \<longrightarrow> recovery_phase (handle_record c) = Phase_Applied))"

lemma failed_with_holds [simp]: "holds_handle (failed_with c cause)"
  by (simp add: holds_handle_def failed_with_def)

lemma add_translation_holds:
  "fst (run_state (add_translation h nft handle d) w) = Inl r \<Longrightarrow> holds_handle r"
  by (auto simp: add_translation_def Let_def split: if_splits option.splits)

lemma add_firewall_holds:
  assumes "fst (run_state (add_firewall h active zone handle d) w) = Inl r" shows "holds_handle r"
proof (cases active)
  case (Active_Ufw path)
  then show ?thesis using assms by (auto simp: add_firewall_def Let_def split: if_splits)
next
  case (Active_Firewalld path)
  then show ?thesis using assms by (auto simp: add_firewall_def Let_def split: if_splits)
qed (use assms in \<open>simp add: add_firewall_def\<close>)

lemma apply_connectivity_holds:
  "holds_handle (fst (run_state (apply_connectivity h nft active zone handle d) w))"
proof (cases "fst (run_state (add_translation h nft handle d) w)")
  case (Inl r)
  then show ?thesis using add_translation_holds by (simp add: apply_connectivity_def)
next
  case (Inr handle1)
  define v where "v = snd (run_state (add_translation h nft handle d) w)"
  show ?thesis
  proof (cases "fst (run_state (add_firewall h active zone handle1 d) v)")
    case (Inl r)
    then show ?thesis using Inr add_firewall_holds by (simp add: apply_connectivity_def v_def)
  next
    case (Inr handle2)
    then show ?thesis
      using \<open>fst (run_state (add_translation h nft handle d) w) = Inr handle1\<close>
      by (simp add: apply_connectivity_def Let_def flip: v_def) (simp add: holds_handle_def)
  qed
qed

lemma refused_simps [simp]:
  "mut_state (refused c) = Connectivity_Absent" "\<not> mut_succeeded (refused c)"
  by (simp_all add: refused_def)

lemma configure_split:
  "prod_configure_connectivity h ip d =
     State_Monad.bind (plan_connectivity h ip d) (\<lambda>plan. case plan of
        Inl c \<Rightarrow> ret (refused c)
      | Inr (nft, active, zone, handle, new_deadline) \<Rightarrow>
          apply_connectivity h nft active zone handle new_deadline)"
  by (simp add: prod_configure_connectivity_def)

lemma plan_needs_journal:
  assumes "\<And>directory r w. \<not> fst (run_state (write_recovery_record h directory r) w)"
  shows "\<exists>c. fst (run_state (plan_connectivity h ip d) w) = Inl c"
proof (cases "fst (run_state (plan_connectivity h ip d) w)")
  case (Inr y)
  have journal: "\<exists>c. fst (run_state (open_journal h r) w) = Inl c" for r w
    using assms by (simp add: open_journal_def)
  show ?thesis
    using Inr unfolding plan_connectivity_def
    by (auto elim!: step_InrE split: prod.splits option.splits simp: Let_def) (metis journal sum.distinct(1))
qed blast

text \<open>C31: a configuration of the connectivity that is refused has changed nothing: whatever part of
  the world is left alone by the commands that only look, by the journal and by the question to the
  user is as it was. Nothing is changed before the intent is in the journal, and a configuration that
  is not refused keeps a handle for its removal, with an applied record when it succeeds.\<close>

theorem refused_connectivity_changes_nothing:
  assumes "inspection_keeps h view"
    and "configure_connectivity (production_adapter h recovery) d (ip, w) = (r, (ip1, w1))"
  shows "(mut_state r = Connectivity_Absent \<longrightarrow> view w1 = view w \<and> \<not> mut_succeeded r)
     \<and> ((\<forall>directory x v. \<not> fst (run_state (write_recovery_record h directory x) v))
          \<longrightarrow> mut_state r = Connectivity_Absent)
     \<and> (mut_state r \<noteq> Connectivity_Absent \<longrightarrow> holds_handle r)"
proof -
  have run: "run_state (prod_configure_connectivity h ip d) w = (r, w1)"
    using assms(2) by (simp add: production_adapter_def with_ip_def split: prod.splits)
  obtain plan w0 where plan: "run_state (plan_connectivity h ip d) w = (plan, w0)" by (metis surj_pair)
  have kept: "view w0 = view w" using keepsD [OF plan_keeps [OF assms(1)], of ip d w] plan by simp
  show ?thesis
  proof (cases plan)
    case (Inl c)
    then have "r = refused c" "w1 = w0" using run plan by (auto simp: configure_split)
    with kept show ?thesis by simp
  next
    case (Inr x)
    then obtain nft active zone handle d' where "x = (nft, active, zone, handle, d')" by (metis surj_pair)
    with Inr have "fst (run_state (apply_connectivity h nft active zone handle d') w0) = r"
      using run plan by (simp add: configure_split)
    then have r: "holds_handle r" using apply_connectivity_holds by metis
    moreover have "mut_state r \<noteq> Connectivity_Absent" using r by (auto simp: holds_handle_def)
    moreover have "\<not> (\<forall>directory x v. \<not> fst (run_state (write_recovery_record h directory x) v))"
      using plan_needs_journal [of h ip d w] plan Inr by auto
    ultimately show ?thesis by blast
  qed
qed

text \<open>A host that does not forward.\<close>

definition isolated_host :: "(nat, 'w) host" where
  "isolated_host = quiet_host\<lparr>ipv4_forwarding_enabled := ret (Some False)\<rparr>"

theorem refused_connectivity_changes_nothing_witness:
  "(case configure_connectivity (production_adapter isolated_host False) 9 (''/usr/sbin/ip'', 5 :: nat) of
      (r, (ip1, w1)) \<Rightarrow> mut_cause r = Cause_Unsupported_Host_Configuration \<and> w1 = 5)"
proof -
  obtain r ip1 w1 where run:
    "configure_connectivity (production_adapter isolated_host False) 9 (''/usr/sbin/ip'', 5 :: nat) = (r, (ip1, w1))"
    by (metis surj_pair)
  have "inspection_keeps (isolated_host :: (nat, nat) host) (\<lambda>w. w)"
    by (simp add: inspection_keeps_def isolated_host_def quiet_host_def keeps_def)
  note law = refused_connectivity_changes_nothing [OF this run]
  have "ipv4_forwarding_enabled (isolated_host :: (nat, nat) host) = ret (Some False)"
    "legacy_iptables_rules_present (isolated_host :: (nat, nat) host) = ret (Some False)"
    by (simp_all add: isolated_host_def quiet_host_def)
  then have "r = refused Cause_Unsupported_Host_Configuration"
    using run by (simp add: production_adapter_def with_ip_def prod_configure_connectivity_def
        plan_connectivity_def inspect_host_routing_def step_def)
  then show ?thesis using law run by (simp add: refused_def)
qed

section \<open>No change of a firewall without consent\<close>

lemma obtain_consent_needed:
  assumes "\<And>text d w. fst (run_state (request_firewall_consent h text d) w) \<noteq> Consent_Granted"
    and "fst (run_state (obtain_consent h active token d) w) = Inr y"
  shows "active = No_Firewall"
proof (cases active)
  case (Active_Ufw path)
  then show ?thesis
    using assms(2) assms(1)
    by (auto simp: obtain_consent_def ask_consent_def consent_cause_def elim!: step_InrE
        split: if_splits firewall_consent.splits)
next
  case (Active_Firewalld path)
  then show ?thesis
    using assms(2) assms(1)
    by (auto simp: obtain_consent_def ask_consent_def consent_cause_def elim!: step_InrE
        split: if_splits firewall_consent.splits option.splits)
qed

lemma plan_needs_consent:
  assumes "\<And>text d w. fst (run_state (request_firewall_consent h text d) w) \<noteq> Consent_Granted"
    and "fst (run_state (plan_connectivity h ip d) w) = Inr (nft, active, zone, handle, d')"
  shows "active = No_Firewall \<and> firewall_path handle = [] \<and> recovery_backend (handle_record handle) = Backend_Nftables"
proof -
  have "active = No_Firewall"
    using assms(2) unfolding plan_connectivity_def
    by (auto elim!: step_InrE split: prod.splits option.splits simp: Let_def
        dest!: obtain_consent_needed [OF assms(1)])
  moreover have "firewall_path handle = [] \<and> recovery_backend (handle_record handle) = backend_of active"
    using assms(2) unfolding plan_connectivity_def
    by (auto elim!: step_InrE split: prod.splits option.splits simp: Let_def new_connectivity_handle_def)
  ultimately show ?thesis by simp
qed

text \<open>Without a firewall the changes are the commands of the address translation.\<close>

lemma apply_translation_only:
  assumes "inspection_keeps h view" and "\<And>path arguments d n. keeps view (run_tool h path (''add'' # arguments) d n)"
  shows "keeps view (apply_connectivity h nft No_Firewall zone handle d)"
proof -
  have "keeps view (run_all h nft [chain_arguments t, rule_arguments t k] d)" for t k
    unfolding chain_arguments_def rule_arguments_def run_all.simps by (intro frame assms(2))
  then show ?thesis
    unfolding apply_connectivity_def add_translation_def add_firewall_def active_firewall.case
    by (intro frame assms(2) inspection_keepsD [OF assms(1)])
qed

definition translation_only :: "connectivity_handle \<Rightarrow> bool" where
  "translation_only c \<longleftrightarrow> firewall_path c = [] \<and> recovery_backend (handle_record c) = Backend_Nftables"

lemma apply_translation_handle:
  assumes "translation_only handle"
    and "mut_state (fst (run_state (apply_connectivity h nft No_Firewall zone handle d) w)) = Connectivity_Proven c"
  shows "translation_only c"
  using assms
  by (auto simp: apply_connectivity_def add_translation_def add_firewall_def failed_with_def translation_only_def
      Let_def split: if_splits option.splits sum.splits)

text \<open>C28: no firewall is changed without the user's consent. If the user never consents and the rules
  that the adapter adds with \<open>nft\<close> leave the firewall alone, then a configuration leaves the firewall
  as it is, and a handle it keeps knows of no firewall, so that the removal will not touch one.\<close>

theorem firewall_needs_consent:
  assumes "inspection_keeps h view" and "\<And>path arguments d n. keeps view (run_tool h path (''add'' # arguments) d n)"
    and "\<And>text d w. fst (run_state (request_firewall_consent h text d) w) \<noteq> Consent_Granted"
    and "configure_connectivity (production_adapter h recovery) d (ip, w) = (r, (ip1, w1))"
  shows "view w1 = view w \<and> (\<forall>c. mut_state r = Connectivity_Proven c \<longrightarrow> translation_only c)"
proof -
  have run: "run_state (prod_configure_connectivity h ip d) w = (r, w1)"
    using assms(4) by (simp add: production_adapter_def with_ip_def split: prod.splits)
  obtain plan w0 where plan: "run_state (plan_connectivity h ip d) w = (plan, w0)" by (metis surj_pair)
  have kept: "view w0 = view w" using keepsD [OF plan_keeps [OF assms(1)], of ip d w] plan by simp
  show ?thesis
  proof (cases plan)
    case (Inl c)
    then have "r = refused c" "w1 = w0" using run plan by (auto simp: configure_split)
    with kept show ?thesis by simp
  next
    case (Inr x)
    then obtain nft active zone handle d' where x: "x = (nft, active, zone, handle, d')" by (metis surj_pair)
    have a: "active = No_Firewall" "translation_only handle"
      using plan_needs_consent [OF assms(3), of ip d w nft active zone handle d'] plan Inr x
      by (simp_all add: translation_only_def)
    then have last: "run_state (apply_connectivity h nft No_Firewall zone handle d') w0 = (r, w1)"
      using run plan Inr x by (simp add: configure_split)
    show ?thesis
      using keepsD [OF apply_translation_only [OF assms(1,2)], of nft zone handle d' w0]
        apply_translation_handle [OF a(2), of h nft zone d' w0] last kept by auto
  qed
qed

text \<open>
  A host without a firewall; the world counts the changes of a firewall and those of \<open>nft\<close>.
\<close>

definition answer :: "string \<Rightarrow> command_result" where
  "answer text = \<lparr>command_kind = Command_Success, command_code = 0, standard_error = [], standard_output = text\<rparr>"

definition open_tool :: "string list \<Rightarrow> command_result" where
  "open_tool arguments =
     (if arguments = [''-4'', ''rule'', ''show''] then
        answer (''0: from all lookup local'' @ [newline] @ ''32766: from all lookup main'' @ [newline]
          @ ''32767: from all lookup default'' @ [newline])
      else if arguments = [''-4'', ''route'', ''show'', ''default''] then answer ''default via 192.168.1.1 dev eth0''
      else if take 2 arguments = [''-d'', ''link''] then answer ''2: eth0: link/ether 00:11:22:33:44:55''
      else answer [])"

definition open_host :: "(nat, nat \<times> nat) host" where
  "open_host = quiet_host
     \<lparr>run_tool := (\<lambda>p arguments d n. State (\<lambda>(f, t).
         (open_tool arguments, if take 1 arguments = [''add''] then (f, t + 1) else (f, t)))),
      query_tool := (\<lambda>path. ret
        (if path = ''/usr/sbin/nft''
         then \<lparr>tool_status = Query_Present, tool_metadata = \<lparr>file_regular = True, file_owner = 0, file_mode = 0x1ED\<rparr>\<rparr>
         else \<lparr>tool_status = Query_Absent, tool_metadata = \<lparr>file_regular = False, file_owner = 0, file_mode = 0\<rparr>\<rparr>))\<rparr>"

lemma open_host_output:
  "match_rules [False, False, False] (output_lines (standard_output (open_tool [''-4'', ''rule'', ''show''])))"
  "route_devices (output_lines (standard_output (open_tool [''-4'', ''route'', ''show'', ''default'']))) = Some [''eth0'']"
  "supported_link (standard_output (open_tool [''-d'', ''link'', ''show'', ''dev'', ''eth0'']))"
  by code_simp+

lemma open_tool_short:
  "command_kind (open_tool arguments) = Command_Success" "length (standard_output (open_tool arguments)) < 100"
  "standard_output (open_tool [''list'', ''ruleset'']) = []"
  by (auto simp: open_tool_def answer_def)

lemma open_host_run [simp]:
  "run_state (run_tool open_host p arguments d n) w =
     (open_tool arguments, if take 1 arguments = [''add''] then (fst w, snd w + 1) else w)"
  by (simp add: open_host_def case_prod_beta)

lemma open_host_simps [simp]:
  "ipv4_forwarding_enabled open_host = ret (Some True)" "legacy_iptables_rules_present open_host = ret (Some False)"
  "create_recovery_token open_host = ret (Some ''0123456789abcdef0123456789abcdef'')"
  "open_recovery_directory open_host = ret 7" "write_recovery_record open_host directory r = ret True"
  "read_recovery_record open_host directory = ret \<lparr>read_status = Recovery_Empty, read_record = None\<rparr>"
  by (simp_all add: open_host_def quiet_host_def)

lemma open_host_tools [simp]:
  "run_state (tool_path open_host ''nft'') w = (Some ''/usr/sbin/nft'', w)"
  "run_state (find_trusted_tool open_host ''ufw'') w = (Some None, w)"
  "run_state (find_trusted_tool open_host ''firewall-cmd'') w = (Some None, w)"
  by (simp_all add: tool_path_def find_trusted_tool_def tool_paths_def open_host_def is_trusted_executable_def)

lemma open_tool_ok [simp]:
  "command_ok (open_tool arguments)" "complete_output (open_tool arguments) = Some (standard_output (open_tool arguments))"
  using open_tool_short(2) [of arguments] by (simp_all add: command_ok_def complete_output_def open_tool_short(1))

lemma open_host_plan:
  "run_state (plan_connectivity open_host ''/usr/sbin/ip'' 9) (4, 0) =
     (Inr (''/usr/sbin/nft'', No_Firewall, [],
        new_connectivity_handle 7 \<lparr>recovery_backend = Backend_Nftables, recovery_phase = Phase_Intent,
          recovery_token = ''0123456789abcdef0123456789abcdef''\<rparr>, 9), (4, 0))"
proof -
  have "run_state (inspect_host_routing open_host ''/usr/sbin/ip'' 9) (4, 0) = (Inr False, (4, 0))"
    by (simp add: inspect_host_routing_def step_def required_def inspect_ipv4_policy_routing_def
        inspect_ipv4_default_route_interfaces_def open_host_output)
  moreover have "run_state (inspect_host_firewall open_host 9) (4, 0) = (Inr (''/usr/sbin/nft'', No_Firewall), (4, 0))"
    by (simp add: inspect_host_firewall_def inspect_if_present_def which_firewall_def)
  moreover have "\<not> contains [] ''hook forward''" by code_simp
  then have "run_state (inspect_nft_ruleset open_host ''/usr/sbin/nft'' No_Firewall False 9) (4, 0) = (Inr (), (4, 0))"
    by (simp add: inspect_nft_ruleset_def open_tool_short(3) maximum_firewall_inventory_size_def)
  ultimately show ?thesis
    by (simp add: plan_connectivity_def step_def obtain_consent_def open_journal_def)
qed

theorem firewall_needs_consent_witness:
  "(case configure_connectivity (production_adapter open_host False) 9 (''/usr/sbin/ip'', (4, 0)) of
      (r, (ip1, w1)) \<Rightarrow> mut_succeeded r \<and> fst w1 = 4)"
proof -
  obtain r ip1 w1 where run:
    "configure_connectivity (production_adapter open_host False) 9 (''/usr/sbin/ip'', (4, 0)) = (r, (ip1, w1))"
    by (metis surj_pair)
  have "inspection_keeps open_host fst"
    by (auto simp: inspection_keeps_def keeps_def looking_arguments_def) (simp_all add: open_host_def quiet_host_def)
  moreover have "keeps fst (run_tool open_host p (''add'' # arguments) d n)" for p arguments d n
    by (simp add: keeps_def)
  moreover have "fst (run_state (request_firewall_consent open_host x d) w) \<noteq> Consent_Granted" for x d w
    by (simp add: open_host_def quiet_host_def)
  ultimately have "fst w1 = 4"
    using firewall_needs_consent [of open_host fst False 9 "''/usr/sbin/ip''" "(4, 0)" r ip1 w1] run by simp
  moreover have "mut_succeeded r"
    using run by (auto simp: production_adapter_def with_ip_def prod_configure_connectivity_def open_host_plan
        apply_connectivity_def add_translation_def add_firewall_def chain_arguments_def rule_arguments_def Let_def)
  ultimately show ?thesis by (simp add: run)
qed

section \<open>The recovery of a policy of firewalld\<close>

text \<open>
  A complete policy names its zone, so it does not match the empty zone, even when an incomplete
  policy is allowed.
\<close>

lemma complete_policy_needs_zone:
  assumes "firewalld_policy_matches text zone False"
  shows "\<not> firewalld_policy_matches text [] True"
proof -
  obtain z where "field_value text ''ingress-zones'' = Some z" "z \<noteq> []"
    using assms by (auto simp: firewalld_policy_matches_def split: option.splits if_splits)
  then show ?thesis by (auto simp: firewalld_policy_matches_def split: option.splits if_splits)
qed

lemma first_trusted_member:
  "fst (run_state (first_trusted h paths) w) = Some (Some path) \<Longrightarrow> path \<in> set paths"
  by (induction paths arbitrary: w) (auto split: if_splits)

lemma firewall_cmd_path:
  assumes "fst (run_state (tool_path h ''firewall-cmd'') w) = Some path" shows "path \<noteq> []"
proof -
  have "fst (run_state (first_trusted h (tool_paths ''firewall-cmd'')) w) = Some (Some path)"
    using assms by (auto simp: tool_path_def find_trusted_tool_def split: option.splits)
  from first_trusted_member [OF this] show ?thesis by (auto simp: tool_paths_def)
qed

text \<open>
  A host that tells the truth, whose world has the record of the journal (\<open>journal\<close>) and the
  policies of firewalld with the texts that describe them (\<open>policies\<close>). A reported write has been
  made, a failed one may have been made. Asked for a policy it has, \<open>firewall-cmd\<close> shows its text or
  fails, but not because the policy is unknown or firewalld does not run.
\<close>

definition truthful ::
  "('h, 'w) host \<Rightarrow> ('w \<Rightarrow> recovery_record option) \<Rightarrow> ('w \<Rightarrow> string \<Rightarrow> string option) \<Rightarrow> bool" where
  "truthful h journal policies \<longleftrightarrow>
     (\<forall>directory w. fst (run_state (read_recovery_record h directory) w) = (case journal w of
          None \<Rightarrow> \<lparr>read_status = Recovery_Empty, read_record = None\<rparr>
        | Some r \<Rightarrow> \<lparr>read_status = Recovery_Valid, read_record = Some r\<rparr>))
     \<and> (\<forall>directory x w. policies (snd (run_state (write_recovery_record h directory x) w)) = policies w
          \<and> (journal (snd (run_state (write_recovery_record h directory x) w)) = Some x
             \<or> \<not> fst (run_state (write_recovery_record h directory x) w)
               \<and> journal (snd (run_state (write_recovery_record h directory x) w)) = journal w))
     \<and> (\<forall>path name d w text. policies w name = Some text \<longrightarrow>
          (let c = fst (run_state (run_tool h path [''--info-policy='' @ name] d 4096) w)
           in if command_ok c then standard_output c = text
              else \<not> contains (standard_error c) ''INVALID_POLICY''))
     \<and> (\<forall>path name d w. policies w name \<noteq> None \<longrightarrow> fst (run_state (inspect_firewalld h path d) w) \<noteq> Some False)"

definition looks_only :: "('h, 'w) host \<Rightarrow> ('w \<Rightarrow> 'v) \<Rightarrow> bool" where
  "looks_only h view \<longleftrightarrow> keeps view (privileged h) \<and> keeps view (open_recovery_directory h)
     \<and> (\<forall>directory. keeps view (read_recovery_record h directory)) \<and> (\<forall>path. keeps view (query_tool h path))
     \<and> (\<forall>path name d. keeps view (run_tool h path [''--info-policy='' @ name] d 4096))
     \<and> (\<forall>path d. keeps view (run_tool h path [''--state''] d 4096))"

text \<open>What a crashed session with firewalld leaves: its record and its policy, complete for a zone.\<close>

definition left_behind :: "recovery_record option \<Rightarrow> (string \<Rightarrow> string option) \<Rightarrow> bool" where
  "left_behind journal policies \<longleftrightarrow> (\<exists>r text zone. journal = Some r \<and> recovery_backend r = Backend_Firewalld
     \<and> policies (''netlaglab-'' @ recovery_token r) = Some text \<and> firewalld_policy_matches text zone False)"

text \<open>Nothing fails: root, a journal that can be written, and the tools.\<close>

definition all_works :: "('h, 'w) host \<Rightarrow> ('w \<Rightarrow> string \<Rightarrow> string option) \<Rightarrow> bool" where
  "all_works h policies \<longleftrightarrow> (\<forall>w. fst (run_state (privileged h) w) \<and> fst (run_state (open_recovery_directory h) w) \<noteq> - 1
     \<and> (\<forall>directory x. fst (run_state (write_recovery_record h directory x) w))
     \<and> fst (run_state (tool_path h ''nft'') w) \<noteq> None \<and> fst (run_state (tool_path h ''firewall-cmd'') w) \<noteq> None
     \<and> (\<forall>path name d. policies w name \<noteq> None \<longrightarrow>
          command_ok (fst (run_state (run_tool h path [''--info-policy='' @ name] d 4096) w))))"

fun preflights ::
  "('n, 'h, 'p, 'c, 'w) semantic_adapter \<Rightarrow> time_point list \<Rightarrow> 'w \<Rightarrow> op_result list \<times> 'w" where
  "preflights a [] x = ([], x)"
| "preflights a (d # ds) x =
     (case do_preflight a d x of (r, y) \<Rightarrow> (case preflights a ds y of (rs, z) \<Rightarrow> (r # rs, z)))"

text \<open>A failure, with the cause it has when nothing else fails.\<close>

definition mismatch :: "('h, 'w) host \<Rightarrow> ('w \<Rightarrow> string \<Rightarrow> string option) \<Rightarrow> op_result \<Rightarrow> bool" where
  "mismatch h policies r \<longleftrightarrow> \<not> op_succeeded r \<and> (all_works h policies \<longrightarrow> op_cause r = Cause_Identity_Mismatch)"

lemma remove_policy_refused:
  assumes true: "truthful h journal policies" and looks: "looks_only h (\<lambda>w. (journal w, policies w))"
    and "policies w (policy_of handle) = Some text" "firewalld_policy_matches text zone False"
    and "firewall_zone handle = []"
  shows "mismatch h policies (fst (run_state (remove_firewalld_policy h handle d) w))"
    "journal (snd (run_state (remove_firewalld_policy h handle d) w)) = journal w"
    "policies (snd (run_state (remove_firewalld_policy h handle d) w)) = policies w"
proof -
  define c where "c = run_state (run_tool h (firewall_path handle) [''--info-policy='' @ policy_of handle] d 4096) w"
  have views: "journal (snd c) = journal w" "policies (snd c) = policies w"
    using looks [unfolded looks_only_def] keepsD [of "\<lambda>w. (journal w, policies w)"] unfolding c_def by blast+
  have shown: "if command_ok (fst c) then standard_output (fst c) = text
      else \<not> contains (standard_error (fst c)) ''INVALID_POLICY''"
    using true [unfolded truthful_def] assms(3) unfolding c_def Let_def by blast
  have active: "fst (run_state (inspect_firewalld h (firewall_path handle) d) (snd c)) \<noteq> Some False"
    using true [unfolded truthful_def] assms(3) views by (metis option.distinct(1))
  have state: "keeps (\<lambda>w. (journal w, policies w)) (inspect_firewalld h (firewall_path handle) d)"
    using looks unfolding inspect_firewalld_def looks_only_def by (intro frame) blast
  note keepsD [OF this, of "snd c"]
  then have after: "journal (snd (run_state (inspect_firewalld h (firewall_path handle) d) (snd c))) = journal w"
      "policies (snd (run_state (inspect_firewalld h (firewall_path handle) d) (snd c))) = policies w"
    using views by simp_all
  define e where "e = run_state (inspect_firewalld h (firewall_path handle) d) (snd c)"
  have differs: "\<not> firewalld_policy_matches text [] True"
    by (rule complete_policy_needs_zone [OF assms(4)])
  have run: "run_state (remove_firewalld_policy h handle d) w
      = (if command_ok (fst c) then (op_fail Cause_Identity_Mismatch, snd c)
         else (op_fail (command_cause (fst c)), snd e))"
  proof (cases "command_ok (fst c)")
    case True
    with shown have "standard_output (fst c) = text" by simp
    with True differs show ?thesis
      unfolding remove_firewalld_policy_def Let_def run_bind c_def [symmetric] by (simp add: assms(5))
  next
    case False
    with shown active show ?thesis
      unfolding remove_firewalld_policy_def Let_def run_bind c_def [symmetric] by (simp flip: e_def)
  qed
  have "all_works h policies \<Longrightarrow> command_ok (fst c)"
    using assms(3) unfolding all_works_def c_def by (metis option.distinct(1))
  then show "mismatch h policies (fst (run_state (remove_firewalld_policy h handle d) w))"
    by (auto simp: run mismatch_def op_fail_def)
  show "journal (snd (run_state (remove_firewalld_policy h handle d) w)) = journal w"
    "policies (snd (run_state (remove_firewalld_policy h handle d) w)) = policies w"
    using after views by (simp_all add: run e_def)
qed

lemma removal_refused:
  fixes d :: time_point
  assumes true: "truthful h journal policies" and looks: "looks_only h (\<lambda>w. (journal w, policies w))"
    and r: "journal w = Some r" "recovery_backend r = Backend_Firewalld"
      "policies w (''netlaglab-'' @ recovery_token r) = Some text" "firewalld_policy_matches text zone False"
    and handle: "handle_record handle = r" "firewall_path handle \<noteq> []" "firewall_zone handle = []"
  defines "x \<equiv> run_state (prod_remove_connectivity h handle d) w"
  shows "rem_state (fst x) \<noteq> Connectivity_Absent"
    "all_works h policies \<Longrightarrow> rem_cause (fst x) = Cause_Identity_Mismatch"
    "left_behind (journal (snd x)) (policies (snd x))"
proof -
  define r1 where "r1 = r\<lparr>recovery_phase := Phase_Removing\<rparr>"
  define w1 where "w1 = snd (run_state (read_recovery_record h (journal_directory handle)) w)"
  define y where "y = run_state (write_recovery_record h (journal_directory handle) r1) w1"
  have "keeps (\<lambda>w. (journal w, policies w)) (read_recovery_record h (journal_directory handle))"
    using looks unfolding looks_only_def by blast
  from keepsD [OF this, of w] have w1: "journal w1 = journal w" "policies w1 = policies w"
    by (simp_all add: w1_def)
  have "fst (run_state (read_recovery_record h (journal_directory handle)) w)
      = \<lparr>read_status = Recovery_Valid, read_record = Some r\<rparr>"
    using true r(1) unfolding truthful_def by simp
  then have read: "run_state (read_recovery_record h (journal_directory handle)) w
      = (\<lparr>read_status = Recovery_Valid, read_record = Some r\<rparr>, w1)"
    by (simp add: w1_def prod_eq_iff)
  have "policies (snd y) = policies w1" "journal (snd y) = Some r1 \<or> \<not> fst y \<and> journal (snd y) = journal w1"
    using true [unfolded truthful_def, THEN conjunct2, THEN conjunct1] unfolding y_def by blast+
  then have y: "policies (snd y) = policies w" "fst y \<Longrightarrow> journal (snd y) = Some r1"
      "journal (snd y) = Some r1 \<or> journal (snd y) = Some r"
    using w1 r(1) by auto
  have policy: "policies (snd y) (policy_of (handle\<lparr>handle_record := r1\<rparr>)) = Some text"
    using r(3) y(1) by (simp add: policy_of_def r1_def)
  note z = remove_policy_refused [OF true looks policy r(4), of d, simplified, OF handle(3)]
  have still: "left_behind (journal (snd y)) (policies (snd y))"
    using y r unfolding left_behind_def by (auto simp: r1_def)
  have works: "all_works h policies \<Longrightarrow> fst y" unfolding all_works_def y_def by blast
  define v where "v = run_state (remove_firewalld_policy h (handle\<lparr>handle_record := r1\<rparr>) d) (snd y)"
  have "recovery_backend r1 = Backend_Firewalld" by (simp add: r1_def r(2))
  then have run: "x = (if \<not> fst y then (keep_proof handle Cause_System_Failure, snd y)
      else (keep_proof (handle\<lparr>handle_record := r1\<rparr>) (op_cause (fst v)), snd v))"
    using handle(1,2) r(2) z(1) unfolding x_def prod_remove_connectivity_def
    by (simp add: read removing_record_def remove_firewall_def mismatch_def Let_def flip: r1_def y_def v_def)
  note z = z [folded v_def]
  show "rem_state (fst x) \<noteq> Connectivity_Absent" by (simp add: run keep_proof_def)
  show "rem_cause (fst x) = Cause_Identity_Mismatch" if "all_works h policies"
    using z(1) works [OF that] that by (simp add: run mismatch_def keep_proof_def)
  show "left_behind (journal (snd x)) (policies (snd x))"
    using z(2,3) still by (simp add: run)
qed

lemma preflight_refused:
  fixes d :: time_point and ip :: string
  assumes true: "truthful h journal policies" and looks: "looks_only h (\<lambda>w. (journal w, policies w))"
    and left: "left_behind (journal w) (policies w)"
  defines "x \<equiv> do_preflight (production_adapter h True) d (ip, w)"
  shows "mismatch h policies (fst x)" "left_behind (journal (snd (snd x))) (policies (snd (snd x)))"
proof -
  let ?view = "\<lambda>w. (journal w, policies w)"
  have keep: "keeps ?view (tool_path h name)" for name
    using looks unfolding looks_only_def by (intro tool_path_keeps) blast
  define w0 where "w0 = snd (run_state (privileged h) w)"
  define dir where "dir = fst (run_state (open_recovery_directory h) w0)"
  define w1 where "w1 = snd (run_state (open_recovery_directory h) w0)"
  define w2 where "w2 = snd (run_state (read_recovery_record h dir) w1)"
  define w3 where "w3 = snd (run_state (tool_path h ''nft'') w2)"
  define w4 where "w4 = snd (run_state (tool_path h ''firewall-cmd'') w3)"
  have "?view w0 = ?view w" "?view w1 = ?view w0" "?view w2 = ?view w1"
    using looks [unfolded looks_only_def] keepsD [of ?view] unfolding w0_def w1_def w2_def by blast+
  moreover have "?view w3 = ?view w2" "?view w4 = ?view w3"
    using keepsD [OF keep] unfolding w3_def w4_def by blast+
  ultimately have views: "?view w0 = ?view w" "?view w1 = ?view w" "?view w2 = ?view w" "?view w3 = ?view w"
      "?view w4 = ?view w" by simp_all
  obtain r shown zone where r: "journal w = Some r" "recovery_backend r = Backend_Firewalld"
      "policies w (''netlaglab-'' @ recovery_token r) = Some shown" "firewalld_policy_matches shown zone False"
    using left unfolding left_behind_def by blast
  have read: "fst (run_state (read_recovery_record h dir) w1) = \<lparr>read_status = Recovery_Valid, read_record = Some r\<rparr>"
    using true views(2) r(1) unfolding truthful_def by simp
  define y where "y = run_state (reconcile_pending_state h d) w0"
  have y: "mismatch h policies (fst y) \<and> left_behind (journal (snd y)) (policies (snd y))"
  proof (cases "dir = - 1 \<or> fst (run_state (tool_path h ''nft'') w2) = None
      \<or> fst (run_state (tool_path h ''firewall-cmd'') w3) = None")
    case True
    then have "\<not> op_succeeded (fst y) \<and> ?view (snd y) = ?view w"
      using views read r(2)
      by (auto simp: y_def reconcile_pending_state_def recover_def recovery_firewall_def op_fail_def
          split: option.split simp flip: dir_def w1_def w2_def w3_def w4_def)
    moreover have "\<not> all_works h policies" using True unfolding all_works_def dir_def by blast
    ultimately show ?thesis using left by (simp add: mismatch_def)
  next
    case False
    then obtain nft path where found: "fst (run_state (tool_path h ''nft'') w2) = Some nft"
        "fst (run_state (tool_path h ''firewall-cmd'') w3) = Some path" by auto
    define handle where "handle = (new_connectivity_handle dir r)\<lparr>nft_path := nft, firewall_path := path\<rparr>"
    have handle: "handle_record handle = r" "firewall_path handle \<noteq> []" "firewall_zone handle = []"
      using firewall_cmd_path [OF found(2)] by (simp_all add: handle_def new_connectivity_handle_def)
    define z where "z = run_state (prod_remove_connectivity h handle d) w4"
    have "y = (if rem_state (fst z) = Connectivity_Absent then op_ok else op_fail (rem_cause (fst z)), snd z)"
      using False read r(2) found unfolding y_def
      by (simp add: reconcile_pending_state_def recover_def recovery_firewall_def handle_def z_def
          flip: dir_def w1_def w2_def w3_def w4_def)
    moreover have "rem_state (fst z) \<noteq> Connectivity_Absent"
        "all_works h policies \<Longrightarrow> rem_cause (fst z) = Cause_Identity_Mismatch"
        "left_behind (journal (snd z)) (policies (snd z))"
      using removal_refused [OF true looks _ r(2) _ r(4) handle, of w4 d] views(5) r(1,3) by (simp_all add: z_def)
    ultimately show ?thesis by (simp add: mismatch_def op_fail_def)
  qed
  have "all_works h policies \<Longrightarrow> fst (run_state (privileged h) w)" unfolding all_works_def by blast
  then have "mismatch h policies (fst x) \<and> left_behind (journal (snd (snd x))) (policies (snd (snd x)))"
    using y left views(1)
    by (auto simp: x_def production_adapter_def preflight_and_keep_def prod_preflight_def case_prod_beta mismatch_def
        op_fail_def split: sum.split simp flip: w0_def y_def)
  then show "mismatch h policies (fst x)" "left_behind (journal (snd (snd x))) (policies (snd (snd x)))" by blast+
qed

text \<open>C32: a defect of the recovery. The journal has no place for the zone of a firewalld policy, and
  the removal compares the policy with the empty zone. If a session that used firewalld ended without
  cleanup, then, on any host that tells the truth, the preflights of all later sessions fail, one
  after the other, and leave the record and the policy in place; where nothing else fails the cause
  is always that the recovery takes its own complete policy for someone else's.\<close>

theorem firewalld_recovery_always_fails:
  assumes "truthful h journal policies" "looks_only h (\<lambda>w. (journal w, policies w))"
    and "left_behind (journal w) (policies w)"
    and "preflights (production_adapter h True) deadlines (ip, w) = (results, (ip1, w1))"
  shows "list_all (\<lambda>r. \<not> op_succeeded r \<and> (all_works h policies \<longrightarrow> op_cause r = Cause_Identity_Mismatch)) results
    \<and> length results = length deadlines \<and> left_behind (journal w1) (policies w1)"
  using assms(3,4)
proof (induction deadlines arbitrary: ip w results)
  case (Cons d ds)
  define x where "x = do_preflight (production_adapter h True) d (ip, w)"
  obtain rs where rest: "preflights (production_adapter h True) ds (fst (snd x), snd (snd x)) = (rs, (ip1, w1))"
    and results: "results = fst x # rs"
    using Cons.prems(2) by (auto simp: case_prod_beta prod_eq_iff simp flip: x_def)
  note first = preflight_refused [OF assms(1,2) Cons.prems(1), of d ip, folded x_def]
  from Cons.IH [OF first(2) rest] first(1) show ?case by (simp add: results mismatch_def)
qed simp

text \<open>A host whose world is the journal and the policies of firewalld, which it writes, shows and
  deletes as told.\<close>

definition shown_policy :: string where
  "shown_policy =
     ''  ingress-zones: public'' @ [newline] @ ''  egress-zones: ANY'' @ [newline] @ ''  services: '' @ [newline]
       @ ''  ports: '' @ [newline] @ ''  rich rules: '' @ [newline] @ expected_rule @ [newline]"

definition crashed_record :: recovery_record where
  "crashed_record = \<lparr>recovery_backend = Backend_Firewalld, recovery_phase = Phase_Applied,
     recovery_token = ''0123456789abcdef0123456789abcdef''\<rparr>"

definition unknown_policy :: command_result where
  "unknown_policy = \<lparr>command_kind = Command_Nonzero_Exit, command_code = 112,
     standard_error = ''Error: INVALID_POLICY'', standard_output = []\<rparr>"

definition firewalld_tool :: "string list \<Rightarrow> (string \<Rightarrow> string option) \<Rightarrow> command_result \<times> (string \<Rightarrow> string option)" where
  "firewalld_tool arguments policies =
     (let asked = drop (length ''--info-policy='') (hd arguments);
          deleted = drop (length ''--delete-policy='') (hd arguments)
      in if take (length ''--info-policy='') (hd arguments) = ''--info-policy=''
         then (case policies asked of None \<Rightarrow> unknown_policy | Some text \<Rightarrow> answer text, policies)
         else if take (length ''--delete-policy='') (hd arguments) = ''--delete-policy=''
         then (answer [], policies(deleted := None))
         else (answer ''running'', policies))"

type_synonym crashed_world = "recovery_record option \<times> (string \<Rightarrow> string option)"

definition crashed_host :: "(nat, crashed_world) host" where
  "crashed_host = quiet_host
     \<lparr>run_tool := (\<lambda>p arguments d n. State (\<lambda>(j, ps). case firewalld_tool arguments ps of (c, ps1) \<Rightarrow> (c, (j, ps1)))),
      read_recovery_record := (\<lambda>directory. State (\<lambda>(j, ps).
        (case j of None \<Rightarrow> \<lparr>read_status = Recovery_Empty, read_record = None\<rparr>
                 | Some r \<Rightarrow> \<lparr>read_status = Recovery_Valid, read_record = Some r\<rparr>, (j, ps)))),
      write_recovery_record := (\<lambda>directory r. State (\<lambda>(j, ps). (True, (Some r, ps)))),
      clear_recovery_record := (\<lambda>directory. State (\<lambda>(j, ps). (True, (None, ps))))\<rparr>"

definition crashed_policies :: "string \<Rightarrow> string option" where
  "crashed_policies = [''netlaglab-0123456789abcdef0123456789abcdef'' \<mapsto> shown_policy]"

theorem firewalld_recovery_always_fails_witness:
  "\<exists>ip1 w1. preflights (production_adapter crashed_host True) [9, 9] ([], (Some crashed_record, crashed_policies))
     = ([op_fail Cause_Identity_Mismatch, op_fail Cause_Identity_Mismatch], (ip1, w1))"
proof -
  obtain results ip1 w1 where run: "preflights (production_adapter crashed_host True) [9, 9]
      ([], (Some crashed_record, crashed_policies)) = (results, (ip1, w1))"
    by (metis prod.collapse)
  have info: "take 14 (''--info-policy='' @ name) = ''--info-policy=''" "drop 14 (''--info-policy='' @ name) = name" for name
    by simp_all
  have "truthful crashed_host fst snd"
    unfolding truthful_def
    by (auto simp: crashed_host_def firewalld_tool_def info Let_def answer_def case_prod_beta inspect_firewalld_def command_ok_def
        split: option.splits)
  moreover have "looks_only crashed_host (\<lambda>w. (fst w, snd w))"
    unfolding looks_only_def keeps_def
    by (auto simp: crashed_host_def quiet_host_def firewalld_tool_def info Let_def case_prod_beta)
  moreover have "firewalld_policy_matches shown_policy ''public'' False" by code_simp
  then have "left_behind (fst (Some crashed_record, crashed_policies)) (snd (Some crashed_record, crashed_policies))"
    unfolding left_behind_def by (auto simp: crashed_record_def crashed_policies_def)
  moreover have "all_works crashed_host snd"
    unfolding all_works_def
    by (auto simp: crashed_host_def quiet_host_def firewalld_tool_def info Let_def case_prod_beta command_ok_def
        answer_def tool_path_def find_trusted_tool_def tool_paths_def is_trusted_executable_def)
  ultimately have "list_all (\<lambda>r. r = op_fail Cause_Identity_Mismatch) results" "length results = 2"
    using firewalld_recovery_always_fails [OF _ _ _ run] by (auto simp: list_all_iff op_fail_def)
  then have "results = [op_fail Cause_Identity_Mismatch, op_fail Cause_Identity_Mismatch]"
    by (auto simp: length_Suc_conv numeral_2_eq_2)
  with run show ?thesis by blast
qed

end
