(* ===== verification/Helper_Session_Laws.thy ===== *)
theory Helper_Session_Laws
  imports Helper_Session Scripted_Adapter
begin

text \<open>
  What the supervisor is told by the helper, whether it is true, and that the session ends. The
  locale \<open>message_log\<close> is the contract of a world that remembers the messages written to the
  supervisor and whether each was written. Every world of the helper has it once its log also holds
  the result of the preparation, the answers about the three resources and the readings of the clock
  (\<open>logged\<close>, \<open>session_act\<close>); the reported result of the cleanup is compared with that log.
\<close>

section \<open>The messages of a session\<close>

text \<open>The answers to Profile Changes and the two error messages of the supervision.\<close>

definition change_answers :: "string set" where
  "change_answers =
     {''PROFILE_OK'' @ [newline], ''PROFILE_FAILED APPLY_FAILED'' @ [newline],
      ''ERROR PROFILE_STATE_UNKNOWN'' @ [newline]}"

definition runtime_answers :: "string set" where
  "runtime_answers =
     insert invalid_runtime_command_message
       (insert (helper_error_message ''Failed to stop Workload.'') change_answers)"

definition cleanup_message :: "bool \<Rightarrow> string" where
  "cleanup_message cleaned =
     helper_conversation_event_message (if cleaned then CleanupSucceededEvent else CleanupFailedEvent)"

text \<open>The outcome of the session was told: no Workload, or a Workload that ended.\<close>

definition told_failure :: "string list \<Rightarrow> bool" where
  "told_failure ms \<longleftrightarrow> (\<exists>n. ms = [helper_conversation_event_message (ActivationFailedEvent n)])"

definition told_activation :: "string list \<Rightarrow> string list \<Rightarrow> bool" where
  "told_activation ms answers \<longleftrightarrow> (\<exists>pid. ms = helper_conversation_event_message (ActivatedEvent pid) # answers)"

definition told_end :: "string list \<Rightarrow> bool" where
  "told_end ms \<longleftrightarrow> (\<exists>answers status. set answers \<subseteq> change_answers
     \<and> told_activation ms (answers @ [helper_conversation_event_message (status_event status)]))"

definition told_no_end :: "string list \<Rightarrow> bool" where
  "told_no_end ms \<longleftrightarrow> (\<exists>answers. set answers \<subseteq> runtime_answers \<and> told_activation ms answers)"

lemma runtime_loop_response:
  "feed_response (snd (runtime_loop s cs)) \<in> {None, Some invalid_runtime_command_message}"
  by (induction s cs rule: runtime_loop.induct)
    (subst runtime_loop.simps, simp add: runtime_invalid_def Let_def split: option.split)

lemma runtime_receive_response:
  "feed_response (snd (runtime_receive_bytes s bytes)) \<in> {None, Some invalid_runtime_command_message}"
  unfolding runtime_receive_bytes_def using runtime_loop_response by simp

lemma complete_profile_change_answer:
  "snd (complete_profile_change s completion) = Some t \<Longrightarrow> t \<in> change_answers"
  by (auto simp: complete_profile_change_def change_answers_def Let_def
      split: if_splits profile_change_completion.splits)

text \<open>The messages with the success of their writing.\<close>

definition all_written :: "(string \<times> bool) list \<Rightarrow> bool" where
  "all_written ms \<longleftrightarrow> list_all snd ms"

definition owner_roots ::
  "('n, 'h, 'p, 'c) owner_state \<Rightarrow> 'n namespace_state \<times> ('h, 'p) veth_state \<times> 'c connectivity_state" where
  "owner_roots s = (namespace_root s, veth_root s, connectivity_root s)"

section \<open>A world that remembers the messages\<close>

text \<open>\<open>sent\<close> grows with the messages only; \<open>kept\<close> changes only with the preparation and the removals.\<close>

locale message_log =
  fixes o1 :: "('n, 'h, 'p, 'c, 'k, 'w) helper_world" and sent :: "'w \<Rightarrow> (string \<times> bool) list" and kept :: "'w \<Rightarrow> 'm"
  assumes send: "sent (snd (supervisor_send o1 t w)) = sent w @ [(t, fst (supervisor_send o1 t w))]"
      "kept (snd (supervisor_send o1 t w)) = kept w"
    and prepare: "sent (snd (helper_prepare o1 w)) = sent w"
    and launch: "sent (snd (helper_launch o1 m w)) = sent w" "kept (snd (helper_launch o1 m w)) = kept w"
    and poll: "sent (snd (workload_poll o1 k w)) = sent w" "kept (snd (workload_poll o1 k w)) = kept w"
    and signal: "sent (snd (workload_signal o1 k i w)) = sent w" "kept (snd (workload_signal o1 k i w)) = kept w"
    and await: "sent (snd (workload_wait o1 k w)) = sent w" "kept (snd (workload_wait o1 k w)) = kept w"
    and wait_supervisor: "sent (snd (supervisor_poll o1 w)) = sent w" "kept (snd (supervisor_poll o1 w)) = kept w"
    and read: "sent (snd (supervisor_read o1 w)) = sent w" "kept (snd (supervisor_read o1 w)) = kept w"
    and now: "sent (snd (helper_now o1 w)) = sent w" "kept (snd (helper_now o1 w)) = kept w"
    and pause: "sent (helper_pause o1 w) = sent w" "kept (helper_pause o1 w) = kept w"
    and note_error: "sent (write_error o1 t w) = sent w" "kept (write_error o1 t w) = kept w"
    and adapter_now: "sent (snd (clock_now (helper_adapter o1) w)) = sent w"
      "kept (snd (clock_now (helper_adapter o1) w)) = kept w"
    and adapter_settings: "sent (snd (set_settings (helper_adapter o1) n p dir cur req d w)) = sent w"
      "kept (snd (set_settings (helper_adapter o1) n p dir cur req d w)) = kept w"
    and adapter_connectivity: "sent (snd (remove_connectivity (helper_adapter o1) c d w)) = sent w"
    and adapter_veth: "sent (snd (remove_veth (helper_adapter o1) v m d w)) = sent w"
    and adapter_namespace: "sent (snd (remove_namespace (helper_adapter o1) n d w)) = sent w"
begin

lemmas silent = prepare launch poll signal await wait_supervisor read now pause note_error
  adapter_now adapter_settings adapter_connectivity adapter_veth adapter_namespace

lemma send_event:
  "sent (snd (send_event o1 e w)) = sent w @ [(helper_conversation_event_message e, fst (send_event o1 e w))]"
  "kept (snd (send_event o1 e w)) = kept w"
  by (simp_all add: send_event_def send)

lemma cleanup_steps_silent:
  "sent (snd (snd (clean_connectivity (helper_adapter o1) d x))) = sent (snd (snd x))"
  "sent (snd (snd (clean_veth (helper_adapter o1) d x))) = sent (snd (snd x))"
  "sent (snd (snd (snd (clean_namespace (helper_adapter o1) d x)))) = sent (snd (snd x))"
  by (simp_all add: clean_connectivity_def clean_veth_def clean_namespace_def case_prod_beta silent
      split: connectivity_state.split option.split namespace_state.split)

lemma cleanup_state_silent: "sent (snd (cleanup_state (helper_adapter o1) s b w)) = sent w"
  by (simp add: cleanup_state_def case_prod_beta Let_def cleanup_steps_silent silent)

lemma report_failures_silent:
  "sent (report_failures (write_error o1) situation fs w) = sent w"
  "kept (report_failures (write_error o1) situation fs w) = kept w"
  unfolding report_failures_def by (induction fs arbitrary: w) (simp_all add: silent)

lemma retry_silent: "sent (retry_residual o1 a b r w) = sent w"
  by (simp add: retry_residual_def case_prod_beta Let_def silent cleanup_state_silent report_failures_silent)

lemma cleanup_prepared_silent: "sent (snd (cleanup_prepared o1 s w)) = sent w"
  by (simp add: cleanup_prepared_def case_prod_beta Let_def retry_silent cleanup_state_silent
      report_failures_silent split: option.split)

lemma cleanup_failed_silent: "sent (snd (cleanup_failed_preparation o1 f fs r w)) = sent w"
  by (simp add: cleanup_failed_preparation_def case_prod_beta Let_def retry_silent silent
      report_failures_silent split: option.split)

lemma adapter_apply_silent:
  "sent (snd (snd (snd (adapter_apply (helper_adapter o1) change x)))) = sent (snd (snd x))"
  "kept (snd (snd (snd (adapter_apply (helper_adapter o1) change x)))) = kept (snd (snd x))"
  "owner_roots (fst (snd (snd (adapter_apply (helper_adapter o1) change x)))) = owner_roots (fst (snd x))"
  by (auto simp: adapter_apply_def set_direction_settings_def case_prod_beta Let_def silent owner_roots_def
      split: sum.split shaping_change_result.split namespace_state.split veth_state.split option.split)

lemma finish_session_sends:
  "\<exists>reported. sent (snd (finish_session o1 status s w)) = sent w @ [(cleanup_message (fst (cleanup_prepared o1 s w)), reported)]
     \<and> (fst (finish_session o1 status s w) = 0 \<longleftrightarrow> fst (cleanup_prepared o1 s w) \<and> reported \<and> status = 0)"
  by (simp add: finish_session_def case_prod_beta Let_def report_cleanup_def send_event
      cleanup_prepared_silent cleanup_message_def)

lemma failed_activation_sends:
  "\<exists>m reported. told_failure [m] \<and> sent (snd (failed_activation o1 f fs r w))
       = sent w @ [(m, fst reported), (cleanup_message (fst (cleanup_failed_preparation o1 f fs r w)), snd reported)]
     \<and> (fst (failed_activation o1 f fs r w) = 0
         \<longleftrightarrow> fst (cleanup_failed_preparation o1 f fs r w) \<and> fst reported \<and> snd reported)"
proof -
  define x where "x = cleanup_failed_preparation o1 f fs r w"
  define y where "y = send_event o1 (ActivationFailedEvent 125) (snd x)"
  define z where "z = report_cleanup o1 (fst x) (snd y)"
  have "sent (snd x) = sent w" by (simp add: x_def cleanup_failed_silent)
  moreover have "sent (snd y) = sent (snd x) @ [(helper_conversation_event_message (ActivationFailedEvent 125), fst y)]"
    by (simp add: y_def send_event)
  moreover have "sent (snd z) = sent (snd y) @ [(cleanup_message (fst x), fst z)]"
    by (simp add: z_def report_cleanup_def send_event cleanup_message_def)
  moreover have "failed_activation o1 f fs r w = (if fst y \<and> fst z \<and> fst x then 0 else 125, snd z)"
    by (simp add: failed_activation_def case_prod_beta x_def y_def z_def)
  ultimately show ?thesis
    by (intro exI [of _ "helper_conversation_event_message (ActivationFailedEvent 125)"] exI [of _ "(fst y, fst z)"])
      (auto simp: told_failure_def simp flip: x_def)
qed

section \<open>The supervision\<close>

text \<open>Since the start of the supervision: the answers, and nothing done to the network but settings.\<close>

definition answering ::
  "(string \<times> bool) list \<times> 'm \<times> 'n namespace_state \<times> ('h, 'p) veth_state \<times> 'c connectivity_state
     \<Rightarrow> ('n, 'h, 'p, 'c, 'w) supervision \<Rightarrow> bool" where
  "answering b = (\<lambda>(c, p, s, w).
     (\<exists>answers. set answers \<subseteq> change_answers \<times> {True} \<and> sent w = fst b @ answers) \<and> (kept w, owner_roots s) = snd b)"

definition told ::
  "(string \<times> bool) list \<times> 'm \<times> 'n namespace_state \<times> ('h, 'p) veth_state \<times> 'c connectivity_state
     \<Rightarrow> ('n, 'h, 'p, 'c, 'w) supervision_end \<Rightarrow> bool" where
  "told b e = (case e of
     Supervision_Done status s w \<Rightarrow> (\<exists>answers st reported. set answers \<subseteq> change_answers \<times> {True}
       \<and> sent w = fst b @ answers @ [(helper_conversation_event_message (status_event st), reported)]
       \<and> (status = 0 \<longleftrightarrow> reported)) \<and> (kept w, owner_roots s) = snd b
   | Supervision_Stop m s w \<Rightarrow>
       (\<exists>answers. set answers \<subseteq> runtime_answers \<times> UNIV \<and> sent w = fst b @ answers) \<and> (kept w, owner_roots s) = snd b)"

definition supervised ::
  "(string \<times> bool) list \<times> 'm \<times> 'n namespace_state \<times> ('h, 'p) veth_state \<times> 'c connectivity_state
     \<Rightarrow> ('n, 'h, 'p, 'c, 'w) supervision + ('n, 'h, 'p, 'c, 'w) supervision_end \<Rightarrow> bool" where
  "supervised b r = (case r of Inl x \<Rightarrow> answering b x | Inr e \<Rightarrow> told b e)"

lemma supervised_simps:
  "supervised b (Inl x) = answering b x" "supervised b (Inr e) = told b e"
  by (simp_all add: supervised_def)

lemma answering_same:
  "answering b (c, p, s, w) \<Longrightarrow> sent w1 = sent w \<Longrightarrow> kept w1 = kept w \<Longrightarrow> owner_roots s1 = owner_roots s
     \<Longrightarrow> answering b (c1, p1, s1, w1)"
  by (simp add: answering_def)

lemma answering_more:
  assumes "answering b (c, p, s, w)" "sent w1 = sent w @ [(t, True)]" "kept w1 = kept w"
    "owner_roots s1 = owner_roots s" "t \<in> change_answers"
  shows "answering b (c1, p1, s1, w1)"
proof -
  obtain answers where "set answers \<subseteq> change_answers \<times> {True}" "sent w = fst b @ answers"
    using assms(1) by (auto simp: answering_def)
  then show ?thesis
    using assms unfolding answering_def by (auto intro!: exI [of _ "answers @ [(t, True)]"])
qed

lemma change_answers_runtime: "set answers \<subseteq> change_answers \<times> {True} \<Longrightarrow> set answers \<subseteq> runtime_answers \<times> UNIV"
  by (auto simp: runtime_answers_def)

lemma stop_told:
  assumes "answering b (c, p, s, w)" "sent w1 = sent w" "kept w1 = kept w" "owner_roots s1 = owner_roots s"
  shows "told b (Supervision_Stop m s1 w1)"
  using assms change_answers_runtime unfolding answering_def told_def by auto

lemma stop_told_error:
  assumes "answering b (c, p, s, w)" "sent w1 = sent w @ [(t, written)]" "kept w1 = kept w"
    "owner_roots s1 = owner_roots s" "t \<in> runtime_answers"
  shows "told b (Supervision_Stop m s1 w1)"
proof -
  obtain answers where "set answers \<subseteq> runtime_answers \<times> UNIV" "sent w = fst b @ answers"
    using assms(1) change_answers_runtime unfolding answering_def by auto
  then show ?thesis
    using assms unfolding told_def answering_def by (auto intro!: exI [of _ "answers @ [(t, written)]"])
qed

lemma signal_command_told:
  assumes "answering b (c, p, s, w)"
    and rest: "\<And>w1. answering b (c, p, s, w1) \<Longrightarrow> supervised b (f w1)"
  shows "supervised b (case workload_signal o1 k i w of (signalled, w1) \<Rightarrow>
     if \<not> signalled then Inr (Supervision_Stop [] s
       (snd (supervisor_send o1 (helper_error_message ''Failed to stop Workload.'') w1))) else f w1)"
  by (auto simp: case_prod_beta supervised_simps silent send runtime_answers_def
      intro!: rest answering_same [OF assms(1)] stop_told_error [OF assms(1)])

lemma change_command_told:
  assumes "answering b (c, p, s, w)"
    and rest: "\<And>y. answering b y \<Longrightarrow> supervised b (run_commands o1 k cs y)"
  shows "supervised b (run_commands o1 k (ProfileChangeCommand change # cs) (c, p, s, w))"
proof -
  define x where "x = adapter_apply (helper_adapter o1) change (p, s, w)"
  define y where "y = complete_profile_change c (fst x)"
  have w1: "sent (snd (snd (snd x))) = sent w" "kept (snd (snd (snd x))) = kept w"
      "owner_roots (fst (snd (snd x))) = owner_roots s"
    unfolding x_def using adapter_apply_silent [of change "(p, s, w)"] by simp_all
  show ?thesis
  proof (cases "snd y")
    case None
    have "told b (Supervision_Stop [] (fst (snd (snd x))) (write_error o1
        (''NetLagLab helper: failed to complete Profile Change'' @ [newline]) (snd (snd (snd x)))))"
      by (rule stop_told [OF assms(1)]) (simp_all add: silent w1)
    with None show ?thesis
      by (simp add: case_prod_beta Let_def supervised_simps flip: x_def y_def)
  next
    case (Some t)
    then have t: "t \<in> change_answers" unfolding y_def by (rule complete_profile_change_answer)
    define z where "z = supervisor_send o1 t (snd (snd (snd x)))"
    have z: "sent (snd z) = sent w @ [(t, fst z)]" "kept (snd z) = kept w" by (simp_all add: z_def send w1)
    have "told b (Supervision_Stop [] (fst (snd (snd x))) (write_error o1
        (''NetLagLab helper: failed to complete Profile Change'' @ [newline]) (snd z)))"
      by (rule stop_told_error [OF assms(1), of _ t "fst z"]) (use t in \<open>simp_all add: silent z w1 runtime_answers_def\<close>)
    moreover have "answering b (fst y, fst (snd x), fst (snd (snd x)), snd z)" if "fst z"
      by (rule answering_more [OF assms(1) _ _ _ t]) (use z w1 that in simp_all)
    ultimately show ?thesis
      using rest Some by (simp add: case_prod_beta Let_def supervised_simps flip: x_def y_def z_def)
  qed
qed

lemma run_commands_told: "answering b x \<Longrightarrow> supervised b (run_commands o1 k cs x)"
proof (induction cs arbitrary: x)
  case (Cons command cs)
  obtain c p s w where x: "x = (c, p, s, w)" by (metis prod_cases4)
  show ?case
    using Cons signal_command_told [where f = "\<lambda>w1. run_commands o1 k cs (c, p, s, w1)"]
      change_command_told [of b c p s w k cs] unfolding x
    by (cases command) simp_all
qed (simp add: supervised_simps)

lemma read_commands_told:
  assumes "answering b (c, p, s, w)" shows "supervised b (read_commands o1 k (c, p, s, w))"
proof (cases "fst (supervisor_read o1 w)")
  case None
  then show ?thesis
    by (auto simp: read_commands_def case_prod_beta supervised_simps silent intro!: stop_told [OF assms])
next
  case (Some t)
  define w1 where "w1 = snd (supervisor_read o1 w)"
  define r where "r = runtime_receive_bytes c t"
  have w1: "sent w1 = sent w" "kept w1 = kept w" by (simp_all add: w1_def silent)
  have "feed_response (snd r) = None \<or> feed_response (snd r) = Some invalid_runtime_command_message"
    using runtime_receive_response [of c t] unfolding r_def by simp
  then have "told b (Supervision_Stop [] s (case feed_response (snd r) of None \<Rightarrow> w1
      | Some response \<Rightarrow> snd (supervisor_send o1 response w1)))"
  proof
    assume "feed_response (snd r) = None"
    then show ?thesis using stop_told [OF assms w1] by simp
  next
    assume "feed_response (snd r) = Some invalid_runtime_command_message"
    then show ?thesis
      using stop_told_error [OF assms, of "snd (supervisor_send o1 invalid_runtime_command_message w1)"]
      by (simp add: send w1 runtime_answers_def)
  qed
  with run_commands_told [OF answering_same [OF assms w1]] Some show ?thesis
    unfolding w1_def r_def by (simp add: read_commands_def case_prod_beta supervised_simps)
qed

lemma supervise_pass_told:
  assumes "answering b x" shows "supervised b (supervise_pass o1 k x)"
proof -
  obtain c p s w where x: "x = (c, p, s, w)" by (metis prod_cases4)
  note asked = assms [unfolded x]
  define w1 where "w1 = snd (workload_poll o1 k w)"
  define w2 where "w2 = snd (supervisor_poll o1 w1)"
  have w: "sent w1 = sent w" "sent w2 = sent w" "kept w1 = kept w" "kept w2 = kept w"
    by (simp_all add: w1_def w2_def silent)
  show ?thesis
  proof (cases "fst (workload_poll o1 k w)")
    case Workload_Running
    then show ?thesis
      using read_commands_told [OF answering_same [OF asked w(2,4)]] unfolding x
      by (auto simp: supervise_pass_def case_prod_beta supervised_simps silent w answering_same [OF asked w(2,4)]
          intro!: stop_told [OF asked] split: socket_poll.split simp flip: w1_def w2_def)
  next
    case (Workload_Finished status)
    define z where "z = send_event o1 (status_event status) w1"
    have z: "sent (snd z) = sent w @ [(helper_conversation_event_message (status_event status), fst z)]"
        "kept (snd z) = kept w"
      by (simp_all add: z_def send_event w)
    obtain answers where answers: "set answers \<subseteq> change_answers \<times> {True}" "sent w = fst b @ answers"
      using asked unfolding answering_def by auto
    have ends: "told b (Supervision_Done n s v)"
      if "sent v = sent (snd z)" "kept v = kept (snd z)" "n = 0 \<longleftrightarrow> fst z" for n v
      using that z answers asked unfolding told_def answering_def by auto
    have "supervise_pass o1 k x = Inr (if fst z then Supervision_Done 0 s (snd z)
        else Supervision_Done 125 s (write_error o1
          (''NetLagLab helper: failed to report Workload completion'' @ [newline]) (snd z)))"
      using Workload_Finished by (simp add: x supervise_pass_def case_prod_beta flip: w1_def z_def)
    then show ?thesis using ends by (simp add: supervised_simps silent)
  qed (auto simp: x supervise_pass_def case_prod_beta supervised_simps silent w
      intro!: stop_told [OF asked] simp flip: w1_def)
qed

lemma stop_pass_silent:
  "case stop_pass o1 k deadline w of
     Inl v \<Rightarrow> sent v = sent w \<and> kept v = kept w | Inr r \<Rightarrow> sent (snd r) = sent w \<and> kept (snd r) = kept w"
  by (simp add: stop_pass_def case_prod_beta silent split: workload_poll.split)

lemma stop_silent:
  assumes "stop_after_supervisor_loss o1 k w = Some (ok, w1)" shows "sent w1 = sent w \<and> kept w1 = kept w"
proof -
  define w0 where "w0 = snd (workload_signal o1 k sigterm w)"
  have run: "iterate (stop_pass o1 k (fst (helper_now o1 w0) + stop_limit)) (snd (helper_now o1 w0)) = Some (ok, w1)"
    using assms by (simp add: stop_after_supervisor_loss_def case_prod_beta w0_def)
  have "sent (snd (ok, w1)) = sent w \<and> kept (snd (ok, w1)) = kept w"
  proof (rule iterate_rule [OF run, of "\<lambda>v. sent v = sent w \<and> kept v = kept w"])
    show "sent (snd (helper_now o1 w0)) = sent w \<and> kept (snd (helper_now o1 w0)) = kept w"
      by (simp add: silent w0_def)
    show "sent v' = sent w \<and> kept v' = kept w"
      if "sent v = sent w \<and> kept v = kept w" "stop_pass o1 k d v = Inl v'" for v v' d
      using stop_pass_silent [where k = k and deadline = d and w = v] that by simp
    show "sent (snd r) = sent w \<and> kept (snd r) = kept w"
      if "sent v = sent w \<and> kept v = kept w" "stop_pass o1 k d v = Inr r" for v r d
      using stop_pass_silent [where k = k and deadline = d and w = v] that by simp
  qed
  then show ?thesis by simp
qed

lemma supervise_workload_told:
  assumes "supervise_workload o1 k s w = Some (status, s1, w1)"
  shows "kept w1 = kept w \<and> owner_roots s1 = owner_roots s
    \<and> (\<exists>answers. (set answers \<subseteq> runtime_answers \<times> UNIV \<and> sent w1 = sent w @ answers \<and> status \<noteq> 0)
      \<or> (set answers \<subseteq> change_answers \<times> {True} \<and> (\<exists>st reported. (status = 0 \<longleftrightarrow> reported)
           \<and> sent w1 = sent w @ answers @ [(helper_conversation_event_message (status_event st), reported)])))"
proof -
  obtain e where e: "iterate (supervise_pass o1 k) (new_runtime_conversation, default_profile, s, w) = Some e"
    using assms by (auto simp: supervise_workload_def split: option.splits)
  define b where "b = (sent w, kept w, owner_roots s)"
  have told: "told b e"
  proof (rule iterate_rule [OF e, of "answering b"])
    show "answering b (new_runtime_conversation, default_profile, s, w)" by (simp add: answering_def b_def)
  qed (use supervise_pass_told supervised_simps in metis)+
  show ?thesis
  proof (cases e)
    case (Supervision_Done n s2 w2)
    with assms e have "status = n" "s1 = s2" "w1 = w2" by (simp_all add: supervise_workload_def)
    with told Supervision_Done show ?thesis by (auto simp: told_def b_def)
  next
    case (Supervision_Stop m s2 w2)
    with assms e obtain ok w3 where "stop_after_supervisor_loss o1 k w2 = Some (ok, w3)"
      "status = 125" "s1 = s2" "w1 = (if m = [] then w3 else write_error o1 m w3)"
      by (auto simp: supervise_workload_def)
    with told Supervision_Stop stop_silent [of k w2 ok w3] show ?thesis
      by (auto simp: told_def b_def silent)
  qed
qed

text \<open>A session is a failed preparation, or the end of a session whose roots are the prepared ones.\<close>

lemma session_told:
  assumes "run_helper_session o1 w = Some (status, w1)"
  shows "case fst (helper_prepare o1 w) of
      Preparation_Failed f fs r \<Rightarrow> (status, w1) = failed_activation o1 f fs r (snd (helper_prepare o1 w))
    | Prepared s \<Rightarrow> (\<exists>st s2 w2 ms. (status, w1) = finish_session o1 st s2 w2
        \<and> kept w2 = kept (snd (helper_prepare o1 w)) \<and> owner_roots s2 = owner_roots s \<and> sent w2 = sent w @ ms
        \<and> ((told_failure (map fst ms) \<or> told_end (map fst ms)) \<and> (st = 0 \<longleftrightarrow> all_written ms)
           \<or> told_no_end (map fst ms) \<and> st \<noteq> 0))"
proof -
  define y where "y = helper_prepare o1 w"
  have y: "sent (snd y) = sent w" by (simp add: y_def silent)
  show ?thesis
  proof (cases "fst y")
    case (Preparation_Failed f fs r)
    then show ?thesis
      using assms by (simp add: run_helper_session_def case_prod_beta flip: y_def)
  next
    case (Prepared s)
    define z where "z = helper_launch o1 (proven_namespace (namespace_root s)) (snd y)"
    have z: "sent (snd z) = sent w" "kept (snd z) = kept (snd y)" by (simp_all add: z_def silent y)
    have "\<exists>st s2 w2 ms. (status, w1) = finish_session o1 st s2 w2
        \<and> kept w2 = kept (snd y) \<and> owner_roots s2 = owner_roots s \<and> sent w2 = sent w @ ms
        \<and> ((told_failure (map fst ms) \<or> told_end (map fst ms)) \<and> (st = 0 \<longleftrightarrow> all_written ms)
           \<or> told_no_end (map fst ms) \<and> st \<noteq> 0)"
    proof (cases "launched_process (fst z)")
      case None
      define l where "l = fst z"
      define v where "v = (if launch_failure l \<noteq> []
          then write_error o1 (''NetLagLab helper: '' @ launch_failure l @ [newline]) (snd z) else snd z)"
      define x where "x = send_event o1 (ActivationFailedEvent (launch_failure_exit_code l)) v"
      have "(status, w1) = finish_session o1 (if fst x then 0 else 125) s (snd x)"
        using assms Prepared None
        by (simp add: run_helper_session_def case_prod_beta failed_launch_def Let_def flip: y_def z_def l_def v_def x_def)
      moreover have "sent v = sent w" "kept v = kept (snd y)" by (simp_all add: v_def silent z)
      then have "sent (snd x) = sent w
            @ [(helper_conversation_event_message (ActivationFailedEvent (launch_failure_exit_code l)), fst x)]"
          "kept (snd x) = kept (snd y)"
        by (simp_all add: x_def send_event)
      ultimately show ?thesis
        by (intro exI [of _ "if fst x then 0 else 125"] exI [of _ s] exI [of _ "snd x"]
            exI [of _ "[(helper_conversation_event_message (ActivationFailedEvent (launch_failure_exit_code l)), fst x)]"])
          (auto simp: told_failure_def all_written_def)
    next
      case (Some k)
      define a where "a = helper_conversation_event_message (ActivatedEvent (workload_pid o1 k))"
      define x where "x = send_event o1 (ActivatedEvent (workload_pid o1 k)) (snd z)"
      have x: "sent (snd x) = sent w @ [(a, fst x)]" "kept (snd x) = kept (snd y)"
        by (simp_all add: x_def a_def send_event z)
      obtain st s2 w2 where run: "(status, w1) = finish_session o1 st s2 w2"
        and w2: "if fst x then supervise_workload o1 k s (snd x) = Some (st, s2, w2)
          else st = 125 \<and> s2 = s \<and> (\<exists>ok. stop_after_supervisor_loss o1 k (snd x) = Some (ok, w2))"
        using assms Prepared Some
        by (fastforce simp: run_helper_session_def case_prod_beta simp flip: y_def z_def x_def split: if_splits)
      have "kept w2 = kept (snd y) \<and> owner_roots s2 = owner_roots s \<and> (\<exists>answers. sent w2 = sent w @ (a, fst x) # answers
        \<and> ((fst ` set answers \<subseteq> runtime_answers \<and> st \<noteq> 0) \<or> (\<exists>as e reported. set as \<subseteq> change_answers \<times> {True}
             \<and> answers = as @ [(helper_conversation_event_message (status_event e), reported)]
             \<and> fst x \<and> (st = 0 \<longleftrightarrow> reported))))"
      proof (cases "fst x")
        case True
        with w2 have sup: "supervise_workload o1 k s (snd x) = Some (st, s2, w2)" by simp
        note told = supervise_workload_told [OF sup]
        have same: "kept w2 = kept (snd y)" "owner_roots s2 = owner_roots s" using told x by auto
        from told consider (lost) answers where "set answers \<subseteq> runtime_answers \<times> UNIV"
            "sent w2 = sent (snd x) @ answers" "st \<noteq> 0"
          | (over) answers e reported where "set answers \<subseteq> change_answers \<times> {True}" "st = 0 \<longleftrightarrow> reported"
            "sent w2 = sent (snd x) @ answers @ [(helper_conversation_event_message (status_event e), reported)]"
          by (elim conjE exE disjE) blast+
        then show ?thesis
        proof cases
          case (lost answers)
          with x same show ?thesis by (intro conjI exI [of _ answers]) auto
        next
          case (over answers e reported)
          define l where "l = answers @ [(helper_conversation_event_message (status_event e), reported)]"
          have "sent w2 = sent w @ (a, fst x) # l" using over(3) x by (simp add: l_def)
          with same over(1,2) True show ?thesis unfolding l_def by blast
        qed
      next
        case False
        with w2 obtain ok where "stop_after_supervisor_loss o1 k (snd x) = Some (ok, w2)" "st = 125" "s2 = s" by auto
        with stop_silent [of k "snd x" ok w2] x show ?thesis by auto
      qed
      then obtain answers where w2': "kept w2 = kept (snd y)" "owner_roots s2 = owner_roots s"
          "sent w2 = sent w @ (a, fst x) # answers"
        and answers: "(fst ` set answers \<subseteq> runtime_answers \<and> st \<noteq> 0) \<or> (\<exists>as e reported. set as \<subseteq> change_answers \<times> {True}
             \<and> answers = as @ [(helper_conversation_event_message (status_event e), reported)]
             \<and> fst x \<and> (st = 0 \<longleftrightarrow> reported))"
        by blast
      from answers have "told_end (map fst ((a, fst x) # answers)) \<and> (st = 0 \<longleftrightarrow> all_written ((a, fst x) # answers))
          \<or> told_no_end (map fst ((a, fst x) # answers)) \<and> st \<noteq> 0"
      proof
        assume "fst ` set answers \<subseteq> runtime_answers \<and> st \<noteq> 0"
        then show ?thesis unfolding told_no_end_def told_activation_def a_def by auto
      next
        assume "\<exists>as e reported. set as \<subseteq> change_answers \<times> {True}
             \<and> answers = as @ [(helper_conversation_event_message (status_event e), reported)]
             \<and> fst x \<and> (st = 0 \<longleftrightarrow> reported)"
        then obtain as e reported where as: "set as \<subseteq> change_answers \<times> {True}"
          "answers = as @ [(helper_conversation_event_message (status_event e), reported)]" "fst x" "st = 0 \<longleftrightarrow> reported"
          by blast
        have "set (map fst as) \<subseteq> change_answers" "list_all snd as" using as(1) by (auto simp: list_all_iff)
        then show ?thesis
          unfolding told_end_def told_activation_def a_def all_written_def as(2)
          by (auto simp: as(3,4) intro!: exI [of _ "map fst as"])
      qed
      with run w2' show ?thesis
        by (intro exI [of _ st] exI [of _ s2] exI [of _ w2] exI [of _ "(a, fst x) # answers"]) auto
    qed
    with Prepared show ?thesis by (simp flip: y_def)
  qed
qed

end

section \<open>The log of a session\<close>

definition beside :: "('w \<Rightarrow> 'r \<times> 'w) \<Rightarrow> 'w \<times> 'l \<Rightarrow> 'r \<times> 'w \<times> 'l" where
  "beside f = (\<lambda>(w, l). case f w of (r, w1) \<Rightarrow> (r, w1, l))"

lemma beside_simps [simp]:
  "fst (beside f x) = fst (f (fst x))" "snd (snd (beside f x)) = snd x"
  "beside f (w, l) = (fst (f w), snd (f w), l)"
  by (simp_all add: beside_def case_prod_beta)

definition logged_adapter ::
  "('n, 'h, 'p, 'c, 'w) semantic_adapter \<Rightarrow> ('n, 'h, 'p, 'c, 'w \<times> 'l) semantic_adapter" where
  "logged_adapter a = \<lparr>
     clock_now = beside (clock_now a),
     do_preflight = (\<lambda>d. beside (do_preflight a d)),
     create_namespace = (\<lambda>d. beside (create_namespace a d)),
     create_veth = (\<lambda>d. beside (create_veth a d)),
     move_peer = (\<lambda>n h d. beside (move_peer a n h d)),
     assign_host_address = (\<lambda>p d. beside (assign_host_address a p d)),
     bring_host_link_up = (\<lambda>p d. beside (bring_host_link_up a p d)),
     bring_loopback_up = (\<lambda>n d. beside (bring_loopback_up a n d)),
     assign_namespace_address = (\<lambda>n p d. beside (assign_namespace_address a n p d)),
     bring_namespace_link_up = (\<lambda>n p d. beside (bring_namespace_link_up a n p d)),
     add_default_route = (\<lambda>n p d. beside (add_default_route a n p d)),
     set_settings = (\<lambda>n p dir cur req d. beside (set_settings a n p dir cur req d)),
     configure_connectivity = (\<lambda>d. beside (configure_connectivity a d)),
     remove_connectivity = (\<lambda>c d. beside (remove_connectivity a c d)),
     remove_veth = (\<lambda>v m d. beside (remove_veth a v m d)),
     remove_namespace = (\<lambda>n d. beside (remove_namespace a n d))\<rparr>"

text \<open>What is written down of a session: the result of the preparation, every message and whether it
  was written, the answer of every removal, and every time a cleanup or a change looked at the clock.\<close>

datatype ('n, 'h, 'p, 'c) session_act =
    Act_Prepare "('n, 'h, 'p, 'c) preparation_result"
  | Act_Send string bool
  | Act_Connectivity "'c connectivity_state"
  | Act_Veth "('h, 'p) veth_state"
  | Act_Namespace "'n namespace_state"
  | Act_Clock time_point

definition noting :: "('w \<Rightarrow> 'r \<times> 'w) \<Rightarrow> ('r \<Rightarrow> 'l) \<Rightarrow> 'w \<times> 'l list \<Rightarrow> 'r \<times> 'w \<times> 'l list" where
  "noting f act = (\<lambda>(w, l). case f w of (r, w1) \<Rightarrow> (r, w1, l @ [act r]))"

lemma noting_simps [simp]:
  "fst (noting f act x) = fst (f (fst x))" "snd (snd (noting f act x)) = snd x @ [act (fst (f (fst x)))]"
  "noting f act (w, l) = (fst (f w), snd (f w), l @ [act (fst (f w))])"
  by (simp_all add: noting_def case_prod_beta)

definition logged ::
  "('n, 'h, 'p, 'c, 'k, 'w) helper_world
     \<Rightarrow> ('n, 'h, 'p, 'c, 'k, 'w \<times> ('n, 'h, 'p, 'c) session_act list) helper_world" where
  "logged o1 = \<lparr>
     helper_adapter = (logged_adapter (helper_adapter o1))
       \<lparr>clock_now := noting (clock_now (helper_adapter o1)) Act_Clock,
        remove_connectivity := (\<lambda>c d. noting (remove_connectivity (helper_adapter o1) c d) (Act_Connectivity \<circ> rem_state)),
        remove_veth := (\<lambda>v m d. noting (remove_veth (helper_adapter o1) v m d) (Act_Veth \<circ> rem_state)),
        remove_namespace := (\<lambda>n d. noting (remove_namespace (helper_adapter o1) n d) (Act_Namespace \<circ> rem_state))\<rparr>,
     helper_prepare = noting (helper_prepare o1) Act_Prepare,
     helper_launch = (\<lambda>n. beside (helper_launch o1 n)),
     workload_pid = workload_pid o1,
     workload_poll = (\<lambda>k. beside (workload_poll o1 k)),
     workload_signal = (\<lambda>k i. beside (workload_signal o1 k i)),
     workload_wait = (\<lambda>k. beside (workload_wait o1 k)),
     supervisor_poll = beside (supervisor_poll o1),
     supervisor_read = beside (supervisor_read o1),
     supervisor_send = (\<lambda>t. noting (supervisor_send o1 t) (Act_Send t)),
     helper_now = beside (helper_now o1),
     helper_pause = (\<lambda>(w, l). (helper_pause o1 w, l)),
     write_error = (\<lambda>t (w, l). (write_error o1 t w, l))\<rparr>"

definition sends :: "('n, 'h, 'p, 'c) session_act list \<Rightarrow> (string \<times> bool) list" where
  "sends acts = concat (map (\<lambda>a. case a of Act_Send t written \<Rightarrow> [(t, written)] | _ \<Rightarrow> []) acts)"

lemma sends_simps [simp]:
  "sends [] = []" "sends (acts @ rest) = sends acts @ sends rest"
  "sends (a # acts) = (case a of Act_Send t written \<Rightarrow> [(t, written)] | _ \<Rightarrow> []) @ sends acts"
  by (simp_all add: sends_def)

definition preparations :: "('n, 'h, 'p, 'c) session_act list \<Rightarrow> ('n, 'h, 'p, 'c) preparation_result list" where
  "preparations acts = concat (map (\<lambda>a. case a of Act_Prepare p \<Rightarrow> [p] | _ \<Rightarrow> []) acts)"

lemma preparations_simps [simp]:
  "preparations [] = []" "preparations (acts @ rest) = preparations acts @ preparations rest"
  "preparations (a # acts) = (case a of Act_Prepare p \<Rightarrow> [p] | _ \<Rightarrow> []) @ preparations acts"
  by (simp_all add: preparations_def)

text \<open>What was last said of the namespace, the veth pair and the connectivity.\<close>

fun note_roots ::
  "('n, 'h, 'p, 'c) session_act \<Rightarrow> 'n namespace_state \<times> ('h, 'p) veth_state \<times> 'c connectivity_state
     \<Rightarrow> 'n namespace_state \<times> ('h, 'p) veth_state \<times> 'c connectivity_state" where
  "note_roots (Act_Prepare (Prepared s)) x = owner_roots s"
| "note_roots (Act_Prepare (Preparation_Failed f fs None)) x = (Namespace_Absent, Veth_Absent, Connectivity_Absent)"
| "note_roots (Act_Prepare (Preparation_Failed f fs (Some s))) x = owner_roots s"
| "note_roots (Act_Namespace n) (_, v, c) = (n, v, c)"
| "note_roots (Act_Veth v) (n, _, c) = (n, v, c)"
| "note_roots (Act_Connectivity c) (n, v, _) = (n, v, c)"
| "note_roots (Act_Send _ _) x = x"
| "note_roots (Act_Clock _) x = x"

definition nothing_left :: "'n namespace_state \<times> ('h, 'p) veth_state \<times> 'c connectivity_state \<Rightarrow> bool" where
  "nothing_left x \<longleftrightarrow> x = (Namespace_Absent, Veth_Absent, Connectivity_Absent)"

definition roots_left ::
  "('n, 'h, 'p, 'c) session_act list \<Rightarrow> 'n namespace_state \<times> ('h, 'p) veth_state \<times> 'c connectivity_state" where
  "roots_left acts = fold note_roots acts (Namespace_Absent, Veth_Absent, Connectivity_Absent)"

text \<open>A removal was refused, and two looks at the clock are 30 seconds or more apart.\<close>

definition refused :: "('n, 'h, 'p, 'c) session_act list \<Rightarrow> bool" where
  "refused acts \<longleftrightarrow> (\<exists>n. Act_Namespace n \<in> set acts \<and> n \<noteq> Namespace_Absent)
     \<or> (\<exists>v. Act_Veth v \<in> set acts \<and> v \<noteq> Veth_Absent) \<or> (\<exists>c. Act_Connectivity c \<in> set acts \<and> c \<noteq> Connectivity_Absent)"

definition slow :: "('n, 'h, 'p, 'c) session_act list \<Rightarrow> bool" where
  "slow acts \<longleftrightarrow> (\<exists>t u. Act_Clock t \<in> set acts \<and> Act_Clock u \<in> set acts \<and> t + 30 * 10 ^ 9 \<le> u)"

text \<open>What happened after the last message but one.\<close>

definition before_report :: "('n, 'h, 'p, 'c) session_act list \<Rightarrow> ('n, 'h, 'p, 'c) session_act list" where
  "before_report acts = rev (takeWhile (\<lambda>a. \<forall>t b. a \<noteq> Act_Send t b) (rev (butlast acts)))"

interpretation log: message_log "logged o1" "\<lambda>x. sends (snd x)" "\<lambda>x. (roots_left (snd x), preparations (snd x))"
  by unfold_locales (simp_all add: logged_def logged_adapter_def case_prod_beta roots_left_def)

section \<open>The cleanup in the log\<close>

definition quiet :: "('n, 'h, 'p, 'c) session_act list \<Rightarrow> bool" where
  "quiet acts \<longleftrightarrow> sends acts = [] \<and> preparations acts = []"

lemma quiet_simps [simp]:
  "quiet []" "quiet (acts @ rest) \<longleftrightarrow> quiet acts \<and> quiet rest"
  "quiet (Act_Clock t # acts) = quiet acts" "quiet (Act_Namespace n # acts) = quiet acts"
  "quiet (Act_Veth v # acts) = quiet acts" "quiet (Act_Connectivity c # acts) = quiet acts"
  by (auto simp: quiet_def)

lemma refused_append: "refused (acts @ rest) \<longleftrightarrow> refused acts \<or> refused rest"
  by (auto simp: refused_def)

definition late :: "time_point \<Rightarrow> ('n, 'h, 'p, 'c) session_act list \<Rightarrow> bool" where
  "late d acts \<longleftrightarrow> (\<exists>t. Act_Clock t \<in> set acts \<and> d \<le> t)"

text \<open>A step of the cleanup: what it adds to the log says what it did to the roots, and without a
  refusal or a lost deadline it has no failure and leaves the roots \<open>gone\<close> of what they were.\<close>

definition cleans ::
  "time_point
     \<Rightarrow> ('n namespace_state \<times> ('h, 'p) veth_state \<times> 'c connectivity_state
          \<Rightarrow> 'n namespace_state \<times> ('h, 'p) veth_state \<times> 'c connectivity_state)
     \<Rightarrow> ('n, 'h, 'p, 'c, 'w \<times> ('n, 'h, 'p, 'c) session_act list) cleaning
     \<Rightarrow> ('n, 'h, 'p, 'c, 'w \<times> ('n, 'h, 'p, 'c) session_act list) cleaning \<Rightarrow> bool" where
  "cleans d gone_of x y \<longleftrightarrow> (\<exists>k. snd (snd (snd y)) = snd (snd (snd x)) @ k \<and> quiet k
     \<and> owner_roots (fst y) = fold note_roots k (owner_roots (fst x))
     \<and> (refused k \<or> late d k \<or> is_unconfirmed (fst x)
        \<or> fst (snd y) = fst (snd x) \<and> owner_roots (fst y) = gone_of (owner_roots (fst x)) \<and> \<not> is_unconfirmed (fst y)))"

lemma cleans_trans:
  assumes "cleans d f x y" "cleans d g y z" shows "cleans d (g \<circ> f) x z"
proof -
  obtain k where k: "snd (snd (snd y)) = snd (snd (snd x)) @ k" "quiet k"
    "owner_roots (fst y) = fold note_roots k (owner_roots (fst x))"
    "refused k \<or> late d k \<or> is_unconfirmed (fst x)
       \<or> fst (snd y) = fst (snd x) \<and> owner_roots (fst y) = f (owner_roots (fst x)) \<and> \<not> is_unconfirmed (fst y)"
    using assms(1) unfolding cleans_def by blast
  obtain l where l: "snd (snd (snd z)) = snd (snd (snd y)) @ l" "quiet l"
    "owner_roots (fst z) = fold note_roots l (owner_roots (fst y))"
    "refused l \<or> late d l \<or> is_unconfirmed (fst y)
       \<or> fst (snd z) = fst (snd y) \<and> owner_roots (fst z) = g (owner_roots (fst y)) \<and> \<not> is_unconfirmed (fst z)"
    using assms(2) unfolding cleans_def by blast
  have "late d (k @ l) \<longleftrightarrow> late d k \<or> late d l" by (auto simp: late_def)
  with k l show ?thesis
    unfolding cleans_def by (intro exI [of _ "k @ l"]) (auto simp: refused_append)
qed

lemma clean_steps_logged:
  "cleans d (\<lambda>(n, v, c). (n, v, Connectivity_Absent)) x (clean_connectivity (helper_adapter (logged o1)) d x)"
  "cleans d (\<lambda>(n, v, c). (n, Veth_Absent, c)) x (clean_veth (helper_adapter (logged o1)) d x)"
  "cleans d (\<lambda>(n, v, c). (Namespace_Absent, v, c)) x (snd (clean_namespace (helper_adapter (logged o1)) d x))"
proof -
  obtain s fs w l where x: "x = (s, fs, w, l)" by (metis prod_cases4)
  define a where "a = helper_adapter (logged o1)"
  have a: "clock_now a = noting (clock_now (helper_adapter o1)) Act_Clock"
    "remove_connectivity a = (\<lambda>c d. noting (remove_connectivity (helper_adapter o1) c d) (Act_Connectivity \<circ> rem_state))"
    "remove_veth a = (\<lambda>v m d. noting (remove_veth (helper_adapter o1) v m d) (Act_Veth \<circ> rem_state))"
    "remove_namespace a = (\<lambda>n d. noting (remove_namespace (helper_adapter o1) n d) (Act_Namespace \<circ> rem_state))"
    by (simp_all add: a_def logged_def)
  show "cleans d (\<lambda>(n, v, c). (n, v, Connectivity_Absent)) x (clean_connectivity (helper_adapter (logged o1)) d x)"
    unfolding a_def [symmetric] x
    by (cases "connectivity_root s")
      (auto simp: cleans_def clean_connectivity_def a case_prod_beta owner_roots_def is_unconfirmed_def refused_def late_def)
  show "cleans d (\<lambda>(n, v, c). (n, Veth_Absent, c)) x (clean_veth (helper_adapter (logged o1)) d x)"
    unfolding a_def [symmetric] x
    by (cases "veth_root s")
      (auto simp: cleans_def clean_veth_def a case_prod_beta owner_roots_def is_unconfirmed_def refused_def late_def)
  show "cleans d (\<lambda>(n, v, c). (Namespace_Absent, v, c)) x (snd (clean_namespace (helper_adapter (logged o1)) d x))"
    unfolding a_def [symmetric] x
    by (cases "namespace_root s")
      (auto simp: cleans_def clean_namespace_def a case_prod_beta owner_roots_def is_unconfirmed_def refused_def late_def)
qed

lemma has_residual_roots: "has_residual s \<longleftrightarrow> \<not> nothing_left (owner_roots s)"
  by (simp add: has_residual_def nothing_left_def owner_roots_def)

lemma cleanup_logged:
  fixes o1 :: "('n, 'h, 'p, 'c, 'k, 'w) helper_world"
  defines "y s x \<equiv> cleanup_state (helper_adapter (logged o1)) s True x"
  shows "\<exists>k. snd (snd (y s x)) = snd x @ k \<and> quiet k
    \<and> (cleanup_residual (fst (y s x)) = None \<longrightarrow> nothing_left (fold note_roots k (owner_roots s)))
    \<and> (refused k \<or> slow k \<or> is_unconfirmed s
       \<or> cleanup_failures (fst (y s x)) = [] \<and> cleanup_residual (fst (y s x)) = None)"
proof -
  define a where "a = helper_adapter (logged o1)"
  define t where "t = fst (clock_now a x)"
  define d where "d = t + transaction_limit"
  define x0 where "x0 = (s, [] :: failure list, snd (clock_now a x))"
  define x1 where "x1 = clean_connectivity a d x0"
  define x2 where "x2 = clean_veth a d x1"
  define x3 where "x3 = snd (clean_namespace a d x2)"
  define x4 where "x4 = (if fst (clean_namespace a d x2) then clean_veth a d x3 else x3)"
  have run: "y s x = (\<lparr>cleanup_failures = fst (snd x4) @ (if is_unconfirmed s
                       then [(Stage_Cleanup, Cause_Incomplete_Cleanup)] else []),
                cleanup_residual = (if has_residual (fst x4) then Some (fst x4) else None)\<rparr>, snd (snd x4))"
    by (simp add: y_def cleanup_state_def case_prod_beta Let_def a_def [symmetric] t_def [symmetric]
        d_def [symmetric] x0_def [symmetric] x1_def [symmetric] x2_def [symmetric] x3_def [symmetric])
      (simp add: x4_def x3_def)
  have b: "cleans d ((\<lambda>(n, v, c). (Namespace_Absent, v, c)) \<circ> ((\<lambda>(n, v, c). (n, Veth_Absent, c))
      \<circ> (\<lambda>(n, v, c). (n, v, Connectivity_Absent)))) x0 x3"
    unfolding x3_def x2_def x1_def a_def
    by (rule cleans_trans [OF cleans_trans [OF clean_steps_logged(1,2)] clean_steps_logged(3)])
  have "\<exists>f. cleans d f x0 x4 \<and> (\<forall>n v c. f (n, v, c) = (Namespace_Absent, Veth_Absent, Connectivity_Absent))"
  proof (cases "fst (clean_namespace a d x2)")
    case True
    then have "cleans d (\<lambda>(n, v, c). (n, Veth_Absent, c)) x3 x4"
      unfolding x4_def a_def by (simp add: clean_steps_logged(2))
    from cleans_trans [OF b this] show ?thesis by (intro exI) (erule conjI, simp)
  next
    case False
    then have "x4 = x3" by (simp add: x4_def)
    with b show ?thesis by (simp only:) (intro exI, erule conjI, simp)
  qed
  then obtain f where f: "cleans d f x0 x4" "\<And>n v c. f (n, v, c) = (Namespace_Absent, Veth_Absent, Connectivity_Absent)"
    by blast
  obtain k where k: "snd (snd (snd x4)) = snd (snd (snd x0)) @ k" "quiet k"
    "owner_roots (fst x4) = fold note_roots k (owner_roots s)"
    "refused k \<or> late d k \<or> is_unconfirmed s
       \<or> fst (snd x4) = [] \<and> owner_roots (fst x4) = (Namespace_Absent, Veth_Absent, Connectivity_Absent)"
    using f unfolding cleans_def x0_def by (auto simp: owner_roots_def)
  have "snd (snd (snd x0)) = snd x @ [Act_Clock t]" by (simp add: x0_def t_def a_def logged_def)
  moreover have "slow (Act_Clock t # k)" if "late d k"
    using that unfolding slow_def late_def d_def transaction_limit_def by (auto simp: add.commute)
  moreover have "refused (Act_Clock t # k) \<longleftrightarrow> refused k" by (auto simp: refused_def)
  ultimately show ?thesis
    using k unfolding run
    by (intro exI [of _ "Act_Clock t # k"]) (auto simp: has_residual_roots nothing_left_def)
qed

lemma report_logged: "snd (report_failures (write_error (logged o1)) situation fs x) = snd x"
  unfolding report_failures_def by (induction fs arbitrary: x) (simp_all add: logged_def case_prod_beta)

lemma retry_logged: "\<exists>k. snd (retry_residual (logged o1) a b r x) = snd x @ k \<and> quiet k"
proof -
  have "snd (write_error (logged o1) t v) = snd v" for t v by (simp add: logged_def case_prod_beta)
  then show ?thesis
    using cleanup_logged [of o1 r x] by (auto simp: retry_residual_def case_prod_beta Let_def report_logged)
qed

lemma cleanup_prepared_logged:
  fixes o1 :: "('n, 'h, 'p, 'c, 'k, 'w) helper_world"
  defines "y s x \<equiv> cleanup_prepared (logged o1) s x"
  shows "\<exists>k. snd (snd (y s x)) = snd x @ k \<and> quiet k
    \<and> (fst (y s x) \<longrightarrow> nothing_left (fold note_roots k (owner_roots s)))
    \<and> (fst (y s x) \<or> refused k \<or> slow k \<or> is_unconfirmed s)"
proof -
  define z where "z = cleanup_state (helper_adapter (logged o1)) s True x"
  define z1 where "z1 = report_failures (write_error (logged o1)) ''cleanup failed'' (cleanup_failures (fst z)) (snd z)"
  have "\<exists>k. snd (snd z) = snd x @ k \<and> quiet k
    \<and> (cleanup_residual (fst z) = None \<longrightarrow> nothing_left (fold note_roots k (owner_roots s)))
    \<and> (refused k \<or> slow k \<or> is_unconfirmed s \<or> cleanup_failures (fst z) = [] \<and> cleanup_residual (fst z) = None)"
    unfolding z_def by (rule cleanup_logged)
  then obtain k where k: "snd (snd z) = snd x @ k" "quiet k"
    "cleanup_residual (fst z) = None \<longrightarrow> nothing_left (fold note_roots k (owner_roots s))"
    "refused k \<or> slow k \<or> is_unconfirmed s \<or> cleanup_failures (fst z) = [] \<and> cleanup_residual (fst z) = None"
    by (elim exE conjE)
  have z1: "snd z1 = snd x @ k" by (simp add: z1_def report_logged k(1))
  show ?thesis
  proof (cases "cleanup_residual (fst z)")
    case None
    then have "y s x = (cleanup_failures (fst z) = [], z1)"
      by (simp add: y_def cleanup_prepared_def case_prod_beta Let_def flip: z_def z1_def)
    with k None z1 show ?thesis by auto
  next
    case (Some r)
    obtain l where l: "snd (retry_residual (logged o1) ''cleanup retry failed'' ''cleanup left residual resources'' r z1)
        = snd z1 @ l" "quiet l"
      using retry_logged by blast
    from Some have "y s x = (False,
        retry_residual (logged o1) ''cleanup retry failed'' ''cleanup left residual resources'' r z1)"
      by (simp add: y_def cleanup_prepared_def case_prod_beta Let_def flip: z_def z1_def)
    moreover have "slow k \<Longrightarrow> slow (k @ l)" by (auto simp: slow_def)
    ultimately show ?thesis
      using k l z1 Some by (intro exI [of _ "k @ l"]) (auto simp: refused_append)
  qed
qed

lemma send_logged:
  "snd (snd (send_event (logged o1) e v))
     = snd v @ [Act_Send (helper_conversation_event_message e) (fst (send_event (logged o1) e v))]"
  by (simp add: send_event_def logged_def case_prod_beta)

lemma before_report_suffix:
  assumes "quiet k" shows "\<exists>l. before_report (acts @ k @ [a]) = l @ k"
proof -
  have "\<forall>b\<in>set (rev k). \<forall>t c. b \<noteq> Act_Send t c" using assms by (force simp: quiet_def sends_def)
  then show ?thesis by (simp add: before_report_def butlast_append takeWhile_append)
qed

text \<open>C20: what the supervisor is told. The messages the helper writes in a session are, in this
  order, either one report that no Workload was started or the report of its activation, the
  answers to Profile Changes (or an error) and, unless the supervisor was lost, how the Workload
  ended; and last, exactly once, whether everything was removed. It reports a cleanup as successful
  only when the last thing it was told of the namespace, the veth pair and the connectivity is that
  they are absent; and as failed only when a resource could not be identified, a removal was refused
  or 30 seconds had passed (after a failed preparation: exactly when its rollback was not complete).
  The helper exits with status 0 exactly when the outcome was told, every message was written and the
  cleanup succeeded.\<close>

theorem helper_session_messages:
  assumes "run_helper_session (logged o1) (w, []) = Some (status, (w1, acts))"
  shows "\<exists>prepared cleaned reported ms. preparations acts = [prepared]
    \<and> sends acts = ms @ [(cleanup_message cleaned, reported)]
    \<and> ((told_failure (map fst ms) \<or> told_end (map fst ms)) \<and> (status = 0 \<longleftrightarrow> cleaned \<and> reported \<and> all_written ms)
       \<or> told_no_end (map fst ms) \<and> status \<noteq> 0)
    \<and> (cleaned \<longrightarrow> nothing_left (roots_left acts))
    \<and> (case prepared of
         Preparation_Failed f fs r \<Rightarrow> cleaned \<longleftrightarrow> fs = [] \<and> r = None
       | Prepared s \<Rightarrow> cleaned \<or> is_unconfirmed s \<or> refused (before_report acts) \<or> slow (before_report acts))"
proof -
  define x where "x = helper_prepare (logged o1) (w, [])"
  define p where "p = fst x"
  have x: "snd (snd x) = [Act_Prepare p]" by (simp add: x_def p_def logged_def)
  note session = log.session_told [OF assms, folded x_def, folded p_def]
  show ?thesis
  proof (cases p)
    case (Preparation_Failed f fs r)
    define y where "y = cleanup_failed_preparation (logged o1) f fs r (snd x)"
    have run: "(status, w1, acts) = failed_activation (logged o1) f fs r (snd x)"
      using session Preparation_Failed by simp
    obtain m reported where "told_failure [m] \<and> sends (snd (snd (failed_activation (logged o1) f fs r (snd x))))
         = sends (snd (snd x)) @ [(m, fst reported), (cleanup_message (fst y), snd reported)]
       \<and> (fst (failed_activation (logged o1) f fs r (snd x)) = 0 \<longleftrightarrow> fst y \<and> fst reported \<and> snd reported)"
      unfolding y_def using log.failed_activation_sends [of o1 f fs r "snd x"] by (elim exE)
    then have m: "told_failure [m]" "sends acts = [(m, fst reported), (cleanup_message (fst y), snd reported)]"
      "status = 0 \<longleftrightarrow> fst y \<and> fst reported \<and> snd reported"
      unfolding run [symmetric] by (simp_all add: x)
    define v where "v = report_failures (write_error (logged o1)) ''rollback failed'' fs
      (write_error (logged o1) (report_failure ''preparation failed'' f) (snd x))"
    have "snd (write_error (logged o1) t u) = snd u" for t u by (simp add: logged_def case_prod_beta)
    then have v: "snd v = [Act_Prepare p]" by (simp add: v_def report_logged x)
    have run_y: "y = (case r of None \<Rightarrow> (fs = [], v) | Some r \<Rightarrow>
        (False, retry_residual (logged o1) ''rollback retry failed'' ''rollback left residual resources'' r v))"
      unfolding y_def cleanup_failed_preparation_def Let_def v_def ..
    have y: "fst y \<longleftrightarrow> fs = [] \<and> r = None" by (simp add: run_y split: option.split)
    have "\<exists>k. snd (snd y) = [Act_Prepare p] @ k \<and> quiet k \<and> (fst y \<longrightarrow> k = [])"
    proof (cases r)
      case None
      then show ?thesis by (simp add: run_y v)
    next
      case (Some r1)
      with retry_logged [of o1 "''rollback retry failed''" "''rollback left residual resources''" r1 v] show ?thesis
        by (simp add: run_y v)
    qed
    then obtain k where k: "snd (snd y) = [Act_Prepare p] @ k" "fst y \<Longrightarrow> k = []" "quiet k" by blast
    define y1 where "y1 = send_event (logged o1) (ActivationFailedEvent 125) (snd y)"
    define y2 where "y2 = report_cleanup (logged o1) (fst y) (snd y1)"
    have "acts = snd (snd y2)"
      using run by (simp add: failed_activation_def case_prod_beta prod_eq_iff flip: y_def y1_def y2_def)
    then have "\<exists>b t c u. acts = snd (snd y) @ [Act_Send b t, Act_Send c u]"
      by (simp add: y2_def y1_def report_cleanup_def send_logged)
    then have "preparations acts = [p]" "fst y \<Longrightarrow> nothing_left (roots_left acts)"
      using k y Preparation_Failed by (auto simp: roots_left_def nothing_left_def quiet_def)
    with m y Preparation_Failed show ?thesis
      by (intro exI [of _ p] exI [of _ "fst y"] exI [of _ "snd reported"] exI [of _ "[(m, fst reported)]"])
        (auto simp: all_written_def)
  next
    case (Prepared s)
    then obtain st s2 w2 ms where run: "(status, w1, acts) = finish_session (logged o1) st s2 w2"
      and w2: "roots_left (snd w2) = roots_left (snd (snd x))" "owner_roots s2 = owner_roots s" "sends (snd w2) = ms"
        "preparations (snd w2) = preparations (snd (snd x))"
      and ms: "(told_failure (map fst ms) \<or> told_end (map fst ms)) \<and> (st = 0 \<longleftrightarrow> all_written ms)
           \<or> told_no_end (map fst ms) \<and> st \<noteq> 0"
      using session by auto
    define y where "y = cleanup_prepared (logged o1) s2 w2"
    obtain k where k: "snd (snd y) = snd w2 @ k" "quiet k"
      "fst y \<Longrightarrow> nothing_left (fold note_roots k (owner_roots s2))"
      "fst y \<or> refused k \<or> slow k \<or> is_unconfirmed s2"
      using cleanup_prepared_logged [of o1 s2 w2] unfolding y_def by blast
    define z where "z = report_cleanup (logged o1) (fst y) (snd y)"
    have z: "acts = snd (snd z)" "status = (if fst y \<and> fst z then st else 125)"
      using run by (simp_all add: finish_session_def case_prod_beta prod_eq_iff flip: y_def z_def)
    have acts: "acts = snd w2 @ k @ [Act_Send (cleanup_message (fst y)) (fst z)]"
      unfolding z(1) z_def report_cleanup_def send_logged k(1) cleanup_message_def by simp
    have "roots_left (snd w2) = owner_roots s2" using w2 x Prepared by (simp add: roots_left_def)
    then have "fst y \<Longrightarrow> nothing_left (roots_left acts)" using k(3) by (simp add: acts roots_left_def)
    moreover have "is_unconfirmed s2 = is_unconfirmed s" using w2(2) by (simp add: owner_roots_def is_unconfirmed_def)
    moreover obtain l where "before_report acts = l @ k"
      using before_report_suffix [OF k(2)] unfolding acts by blast
    then have "refused k \<Longrightarrow> refused (before_report acts)" "slow k \<Longrightarrow> slow (before_report acts)"
      by (auto simp: refused_append slow_def)
    moreover have "preparations acts = [p]" using w2(4) k(2) by (simp add: acts quiet_def x)
    moreover have "sends acts = ms @ [(cleanup_message (fst y), fst z)]" using w2(3) k(2) by (simp add: acts quiet_def)
    ultimately show ?thesis
      using ms k(4) z(2) Prepared
      by (intro exI [of _ p] exI [of _ "fst y"] exI [of _ "fst z"] exI [of _ ms]) auto
  qed
qed

section \<open>The session ends\<close>

text \<open>A monotonic clock that a pause of the helper moves by 50 milliseconds or more.\<close>

definition ticking :: "('n, 'h, 'p, 'c, 'k, 'w) helper_world \<Rightarrow> ('w \<Rightarrow> time_point) \<Rightarrow> bool" where
  "ticking o1 clock \<longleftrightarrow>
     (\<forall>w. fst (helper_now o1 w) = clock w \<and> clock w \<le> clock (snd (helper_now o1 w)))
     \<and> (\<forall>k w. clock w \<le> clock (snd (workload_poll o1 k w)))
     \<and> (\<forall>w. clock w + 50 * 10 ^ 6 \<le> clock (helper_pause o1 w))"

lemma stop_pass_ticks:
  assumes ticking: "ticking o1 clock" and pass: "stop_pass o1 k deadline w = Inl w1"
  shows "clock w < deadline" "clock w + 50 * 10 ^ 6 \<le> clock w1"
proof -
  define w0 where "w0 = snd (helper_now o1 w)"
  have w1: "w1 = helper_pause o1 (snd (workload_poll o1 k w0))"
    and before: "fst (helper_now o1 w) < deadline"
    using pass by (auto simp: stop_pass_def case_prod_beta w0_def split: if_splits workload_poll.splits)
  show "clock w < deadline" using ticking before by (simp add: ticking_def)
  have "clock w \<le> clock w0" "clock w0 \<le> clock (snd (workload_poll o1 k w0))"
      "clock (snd (workload_poll o1 k w0)) + 50 * 10 ^ 6 \<le> clock w1"
    using ticking unfolding ticking_def w0_def w1 by blast+
  then show "clock w + 50 * 10 ^ 6 \<le> clock w1" by linarith
qed

lemma stop_returns:
  assumes "ticking o1 clock"
  shows "\<exists>r. stop_after_supervisor_loss o1 k w = Some r"
proof -
  define w0 where "w0 = snd (workload_signal o1 k sigterm w)"
  define deadline where "deadline = fst (helper_now o1 w0) + stop_limit"
  have "\<exists>r. iterate (stop_pass o1 k deadline) (snd (helper_now o1 w0)) = Some r"
  proof (rule iterate_ends [where I = "\<lambda>_. True" and m = "\<lambda>v. nat (deadline - clock v)"])
    fix v t assume "stop_pass o1 k deadline v = Inl t"
    from stop_pass_ticks [OF assms this] show "True \<and> nat (deadline - clock t) < nat (deadline - clock v)"
      by simp
  qed simp
  then show ?thesis by (simp add: stop_after_supervisor_loss_def case_prod_beta w0_def deadline_def)
qed

text \<open>
  A Workload that is found running only finitely often: \<open>left\<close> bounds how often it still is,
  and nothing else the supervision does prolongs its life.
\<close>

definition mortal :: "('n, 'h, 'p, 'c, 'k, 'w) helper_world \<Rightarrow> ('w \<Rightarrow> nat) \<Rightarrow> bool" where
  "mortal o1 left \<longleftrightarrow>
     (\<forall>k w. fst (workload_poll o1 k w) = Workload_Running \<longrightarrow> left (snd (workload_poll o1 k w)) < left w)
     \<and> (\<forall>k i w. left (snd (workload_signal o1 k i w)) \<le> left w)
     \<and> (\<forall>w. left (snd (supervisor_poll o1 w)) \<le> left w)
     \<and> (\<forall>w. left (snd (supervisor_read o1 w)) \<le> left w)
     \<and> (\<forall>t w. left (snd (supervisor_send o1 t w)) \<le> left w)
     \<and> (\<forall>w. left (snd (clock_now (helper_adapter o1) w)) \<le> left w)
     \<and> (\<forall>n p dir cur req d w. left (snd (set_settings (helper_adapter o1) n p dir cur req d w)) \<le> left w)"

lemma mortalD:
  assumes "mortal o1 left"
  shows "fst (workload_poll o1 k w) = Workload_Running \<Longrightarrow> left (snd (workload_poll o1 k w)) < left w"
    "left (snd (workload_signal o1 k i w)) \<le> left w" "left (snd (supervisor_poll o1 w)) \<le> left w"
    "left (snd (supervisor_read o1 w)) \<le> left w" "left (snd (supervisor_send o1 t w)) \<le> left w"
    "left (snd (clock_now (helper_adapter o1) w)) \<le> left w"
    "left (snd (set_settings (helper_adapter o1) n p dir cur req d w)) \<le> left w"
  using assms unfolding mortal_def by blast+

lemma adapter_apply_mortal:
  assumes "mortal o1 left"
  shows "left (snd (snd (snd (adapter_apply (helper_adapter o1) change x)))) \<le> left (snd (snd x))"
  by (auto simp: adapter_apply_def set_direction_settings_def case_prod_beta Let_def
      intro!: order_trans [OF mortalD(7) [OF assms] mortalD(6) [OF assms]]
      split: sum.split shaping_change_result.split namespace_state.split veth_state.split option.split)

lemma run_commands_mortal:
  assumes mortal: "mortal o1 left"
  shows "run_commands o1 k cs x = Inl y \<Longrightarrow> left (snd (snd (snd y))) \<le> left (snd (snd (snd x)))"
proof (induction cs arbitrary: x)
  case (Cons command cs)
  obtain c p s w where x: "x = (c, p, s, w)" by (metis prod_cases4)
  show ?case
  proof (cases "\<exists>change. command = ProfileChangeCommand change")
    case True
    then obtain change where command: "command = ProfileChangeCommand change" by blast
    define z where "z = adapter_apply (helper_adapter o1) change (p, s, w)"
    define u where "u = complete_profile_change c (fst z)"
    have z: "left (snd (snd (snd z))) \<le> left w"
      unfolding z_def using adapter_apply_mortal [OF mortal, of change "(p, s, w)"] by simp
    obtain t where run: "run_commands o1 k cs (fst u, fst (snd z), fst (snd (snd z)),
        snd (supervisor_send o1 t (snd (snd (snd z))))) = Inl y"
      using Cons.prems unfolding x command
      by (auto simp: case_prod_beta simp flip: z_def u_def split: if_splits option.splits)
    from Cons.IH [OF run] have "left (snd (snd (snd y))) \<le> left (snd (snd (snd z)))"
      using order_trans mortalD(5) [OF mortal] by fastforce
    with z show ?thesis unfolding x by simp
  next
    case False
    then obtain i where run: "run_commands o1 k cs (c, p, s, snd (workload_signal o1 k i w)) = Inl y"
      using Cons.prems unfolding x by (cases command) (auto simp: case_prod_beta split: if_splits)
    show ?thesis using Cons.IH [OF run] order_trans mortalD(2) [OF mortal] unfolding x by fastforce
  qed
qed simp

lemma supervise_pass_mortal:
  assumes mortal: "mortal o1 left" and pass: "supervise_pass o1 k x = Inl y"
  shows "left (snd (snd (snd y))) < left (snd (snd (snd x)))"
proof -
  obtain c p s w where x: "x = (c, p, s, w)" by (metis prod_cases4)
  define w1 where "w1 = snd (workload_poll o1 k w)"
  define w2 where "w2 = snd (supervisor_poll o1 w1)"
  have running: "fst (workload_poll o1 k w) = Workload_Running"
    using pass unfolding x by (auto simp: supervise_pass_def case_prod_beta split: workload_poll.splits if_splits)
  have w: "left w2 < left w"
    using mortalD(1) [OF mortal running] mortalD(3) [OF mortal, of w1] unfolding w1_def w2_def by linarith
  have "left (snd (snd (snd y))) \<le> left w2"
  proof (cases "fst (supervisor_poll o1 w1)")
    case Poll_Ready
    then obtain t where "run_commands o1 k (feed_commands (snd (runtime_receive_bytes c t)))
        (fst (runtime_receive_bytes c t), p, s, snd (supervisor_read o1 w2)) = Inl y"
      using pass running unfolding x supervise_pass_def read_commands_def
      by (auto simp: case_prod_beta split: option.splits if_splits simp flip: w1_def w2_def)
    from run_commands_mortal [OF mortal this] mortalD(4) [OF mortal, of w2] show ?thesis by simp
  qed (use pass running in \<open>auto simp: x supervise_pass_def case_prod_beta simp flip: w1_def w2_def\<close>)
  with w show ?thesis by (simp add: x)
qed

lemma supervision_returns:
  assumes "ticking o1 clock" "mortal o1 left"
  shows "\<exists>r. supervise_workload o1 k s w = Some r"
proof -
  obtain e where "iterate (supervise_pass o1 k) (new_runtime_conversation, default_profile, s, w) = Some e"
    using iterate_ends [where I = "\<lambda>_. True" and m = "\<lambda>x. left (snd (snd (snd x)))"]
      supervise_pass_mortal [OF assms(2)] by metis
  then show ?thesis
    using stop_returns [OF assms(1)] by (cases e) (auto simp: supervise_workload_def)
qed

text \<open>C21: a session of the helper ends, with its cleanup and an exit status, whenever its Workload
  ends by itself, whatever the supervisor sends or does not send, whatever the kernel answers, and
  whether or not the Workload obeys a signal once the supervisor is lost: the loop that waits for it
  is bounded by the clock.\<close>

theorem helper_session_ends:
  assumes "ticking o1 clock" and "mortal o1 left"
  shows "run_helper_session o1 w \<noteq> None"
proof -
  define y where "y = helper_prepare o1 w"
  have "stop_after_supervisor_loss o1 k v \<noteq> None" "supervise_workload o1 k s v \<noteq> None" for k s v
    using stop_returns [OF assms(1)] supervision_returns [OF assms] by simp_all
  then show ?thesis
    by (cases "fst y")
      (simp_all add: run_helper_session_def case_prod_beta flip: y_def split: option.split del: not_None_eq)
qed

text \<open>
  A helper on the scripted adapter whose Workload is found running a given number of times and then
  has exited with status 3, and whose supervisor stays silent.
\<close>

definition quiet_helper ::
  "(64 word, veth_identity_pair, veth_identity_pair, unit, nat, script_state \<times> nat) helper_world" where
  "quiet_helper = \<lparr>
     helper_adapter = logged_adapter scripted_adapter,
     helper_prepare = prepare_network_environment (logged_adapter scripted_adapter),
     helper_launch = (\<lambda>_ x. (\<lparr>launched_process = Some 7, launch_failure_exit_code = 0, launch_failure = []\<rparr>, x)),
     workload_pid = int,
     workload_poll = (\<lambda>_ (w, n). case n of
       0 \<Rightarrow> (Workload_Finished \<lparr>status_exited = True, status_value = 3\<rparr>, (w, 0))
     | Suc m \<Rightarrow> (Workload_Running, (w, m))),
     workload_signal = (\<lambda>_ _ x. (True, x)),
     workload_wait = (\<lambda>_ x. (True, x)),
     supervisor_poll = (\<lambda>x. (Poll_Timed_Out, x)),
     supervisor_read = (\<lambda>x. (None, x)),
     supervisor_send = (\<lambda>_ x. (True, x)),
     helper_now = (\<lambda>(w, n). (script_now w, (w, n))),
     helper_pause = (\<lambda>(w, n). (w\<lparr>script_now := script_now w + 50 * 10 ^ 6\<rparr>, n)),
     write_error = (\<lambda>_ x. x)\<rparr>"

definition good_step :: "operation \<Rightarrow> script_step" where
  "good_step op = \<lparr>step_operation = op, step_outcome = Outcome_Success, step_cause = Cause_System_Failure,
     step_elapsed = 1\<rparr>"

definition good_script :: script_state where
  "good_script = new_script (map good_step
     [Op_Preflight, Op_Create_Namespace, Op_Create_Veth, Op_Move_Peer, Op_Assign_Host_Address,
      Op_Bring_Host_Link_Up, Op_Bring_Loopback_Up, Op_Assign_Namespace_Address,
      Op_Bring_Namespace_Link_Up, Op_Add_Default_Route, Op_Remove_Veth, Op_Remove_Namespace]) 0"

theorem helper_session_ends_witness:
  "run_helper_session quiet_helper (good_script, 2) \<noteq> None"
  by (rule helper_session_ends [of _ "\<lambda>x. script_now (fst x)" snd])
    (simp_all add: ticking_def mortal_def quiet_helper_def logged_adapter_def case_prod_beta split: nat.split)

lemma quiet_helper_run:
  "map_option (\<lambda>(st, w, acts). (st, sends acts)) (run_helper_session (logged quiet_helper) ((good_script, 2), []))
   = Some (0, [(''ACTIVE 7'' @ [newline], True), (''WORKLOAD_EXITED 3'' @ [newline], True),
       (''CLEANUP_OK'' @ [newline], True)])"
  by code_simp

theorem helper_session_messages_witness:
  "\<exists>w1 acts ms cleaned reported.
     run_helper_session (logged quiet_helper) ((good_script, 2), []) = Some (0, (w1, acts))
     \<and> map fst (sends acts) = [''ACTIVE 7'' @ [newline], ''WORKLOAD_EXITED 3'' @ [newline], ''CLEANUP_OK'' @ [newline]]
     \<and> sends acts = ms @ [(cleanup_message cleaned, reported)] \<and> cleaned \<and> nothing_left (roots_left acts)
     \<and> (told_failure (map fst ms) \<or> told_end (map fst ms))"
proof -
  obtain w1 acts where
    run: "run_helper_session (logged quiet_helper) ((good_script, 2), []) = Some (0, (w1, acts))"
    and messages: "map fst (sends acts)
      = [''ACTIVE 7'' @ [newline], ''WORKLOAD_EXITED 3'' @ [newline], ''CLEANUP_OK'' @ [newline]]"
    using quiet_helper_run by auto
  obtain prepared cleaned reported ms where "preparations acts = [prepared]"
    "sends acts = ms @ [(cleanup_message cleaned, reported)]"
    "(told_failure (map fst ms) \<or> told_end (map fst ms)) \<and> ((0 :: int) = 0 \<longleftrightarrow> cleaned \<and> reported \<and> all_written ms)
       \<or> told_no_end (map fst ms) \<and> (0 :: int) \<noteq> 0"
    "cleaned \<longrightarrow> nothing_left (roots_left acts)"
    using helper_session_messages [OF run] by (elim exE conjE)
  then show ?thesis
    using run messages by (intro exI [of _ w1] exI [of _ acts] exI [of _ ms] exI [of _ cleaned] exI [of _ reported]) simp
qed

end
