(* ===== verification/Shaping_Laws.thy ===== *)
theory Shaping_Laws
  imports Host_Rules Production_Adapter
begin

text \<open>
  What the change of the settings of a direction promises. The kernel is an unknown function
  \<open>qdiscs\<close> from the world and the end of the pair (\<open>True\<close>: in the namespace) to the root qdisc
  there. If inspections tell the truth and commands of \<open>tc\<close> touch only their own device, then the
  recorded settings describe the kernel after every change, whatever the commands do.
\<close>

section \<open>Equal settings\<close>

lemma dbl_eq_bits: "dbl_eq x y \<Longrightarrow> dbl_bits x = dbl_bits y"
  by (auto simp: dbl_eq_def dbl_key_def split: if_splits)

lemma loss_probability_cong:
  assumes "dbl_eq x y" shows "loss_probability x = loss_probability y"
proof -
  have "isfinite x = isfinite y" "isnan x = isnan y" "dbl_key x = dbl_key y"
    using assms dbl_eq_bits [OF assms] by (simp_all add: isfinite_def isnan_def dbl_eq_def)
  then show ?thesis using dbl_eq_bits [OF assms] by (simp add: loss_probability_def dbl_less_def)
qed

lemma qdisc_matches_cong:
  assumes "settings_eq s t" shows "qdisc_matches q s = qdisc_matches q t"
proof -
  have eqs: "delay s = delay t" "jitter s = jitter t" "bandwidth_kbps s = bandwidth_kbps t"
      "loss_probability (packet_loss_percent s) = loss_probability (packet_loss_percent t)"
      "unrestricted s = unrestricted t"
    using assms loss_probability_cong [of "packet_loss_percent s" "packet_loss_percent t"]
    by (auto simp: settings_eq_def unrestricted_def dbl_eq_def)
  show ?thesis unfolding qdisc_matches_def eqs ..
qed

section \<open>The range of the settings\<close>

lemma mag_of_bits_mono:
  assumes "a \<le> b" shows "mag_of_bits a \<le> mag_of_bits b"
proof (cases "a div 2 ^ 52 = b div 2 ^ 52")
  case True
  have "a mod 2 ^ 52 \<le> b mod 2 ^ 52"
    using True assms by (metis div_mult_mod_eq nat_add_left_cancel_le)
  with True assms have "significand_of_bits a \<le> significand_of_bits b" "exponent_of_bits a = exponent_of_bits b"
    by (auto simp: significand_of_bits_def exponent_of_bits_def)
  then show ?thesis by (simp add: mag_of_bits_def)
next
  case False
  then have less: "a div 2 ^ 52 < b div 2 ^ 52" using assms div_le_mono [of a b "2 ^ 52"] by linarith
  show ?thesis
  proof (cases "exponent_of_bits a = exponent_of_bits b")
    case True
    then have a: "a div 2 ^ 52 = 0" using less by (auto simp: exponent_of_bits_def max_def split: if_splits)
    then have "a < 2 ^ 52" by (simp add: div_eq_0_iff)
    then have "significand_of_bits a \<le> significand_of_bits b" using a less by (simp add: significand_of_bits_def)
    then show ?thesis using True by (simp add: mag_of_bits_def)
  next
    case False
    then have e: "exponent_of_bits a + 1 \<le> exponent_of_bits b" "1 < exponent_of_bits b"
      using less by (auto simp: exponent_of_bits_def max_def split: if_splits)
    have "mag_of_bits a \<le> 2 ^ 53 * 2 ^ exponent_of_bits a"
      using significand_less [of a] by (simp add: mag_of_bits_def)
    also have "\<dots> = 2 ^ 52 * 2 ^ (exponent_of_bits a + 1)" by simp
    also have "\<dots> \<le> 2 ^ 52 * 2 ^ exponent_of_bits b" using e(1) by (intro mult_left_mono power_increasing) simp_all
    also have "\<dots> \<le> mag_of_bits b"
      using significand_normal [OF e(2)] unfolding mag_of_bits_def by (rule mult_right_mono) simp
    finally show ?thesis .
  qed
qed

lemma mag_one: "mag_of_bits 0x3FF0000000000000 = dbl_unit"
  by (simp add: mag_of_bits_def significand_of_bits_def exponent_of_bits_def dbl_unit_def)

lemma mag_maximum: "mag_of_bits 0x41EFFFFFFFE00000 = (2 ^ 32 - 1) * dbl_unit"
  by (simp add: mag_of_bits_def significand_of_bits_def exponent_of_bits_def dbl_unit_def)

text \<open>Every valid packet loss has a probability in the kernel's units.\<close>

lemma loss_probability_defined:
  assumes "valid_loss w" shows "loss_probability w \<noteq> None"
proof -
  define b where "b = dbl_bits w"
  have "int b \<le> dbl_key dbl_hundred"
    using assms by (auto simp: valid_loss_def dbl_key_def b_def split: if_splits)
  then have "b \<le> dbl_bits dbl_hundred" by (simp add: dbl_bits_def)
  then have le: "mag_of_bits b \<le> mag_of_bits (dbl_bits dbl_hundred)" by (rule mag_of_bits_mono)
  have pos: "0 < mag_of_bits (dbl_bits dbl_hundred)"
    by (simp add: dbl_bits_def mag_of_bits_def significand_of_bits_def)
  obtain q where q: "loss_quotient b = Some q" "q \<le> 0x3FF0000000000000"
    using round_to_bits_le [OF pos, of "0x3FF0000000000000" "mag_of_bits b"] le
    by (auto simp: loss_quotient_def mag_one infinity_bits_def mult.commute)
  have "mag_of_bits q * (2 ^ 32 - 1) * dbl_unit \<le> mag_of_bits 0x41EFFFFFFFE00000 * dbl_unit"
    using mag_of_bits_mono [OF q(2)] unfolding mag_maximum mag_one by simp
  then obtain p where p: "loss_product q = Some p" "p \<le> 0x41EFFFFFFFE00000"
    using round_to_bits_le [OF dbl_unit_pos(1), of "0x41EFFFFFFFE00000" "mag_of_bits q * (2 ^ 32 - 1)"]
    by (auto simp: loss_product_def infinity_bits_def)
  have "round_half_even (mag_of_bits p) dbl_unit \<le> 2 ^ 32 - 1"
    using mag_of_bits_mono [OF p(2)] unfolding mag_maximum by (intro round_half_even_le) simp_all
  then show ?thesis
    using assms q(1) p(1)
    by (auto simp: loss_probability_def valid_loss_iff Let_def b_def)
qed

lemma sint_nonneg_uint: "0 \<le> sint (w :: i64) \<Longrightarrow> sint w = uint w"
  using sint_nonneg_iff [of w] sint_eq_unat [of w] by simp

lemma nanoseconds_iff:
  assumes "0 \<le> sint v"
  shows "nanoseconds v = (if 18446744073709 < sint v then None else Some (v * 1000000))"
  using assms sint_nonneg_uint [OF assms] by (simp add: nanoseconds_def)

lemma nanoseconds_exact:
  assumes "0 \<le> sint v" "nanoseconds v = Some n" shows "uint n = sint v * 1000000"
proof -
  have "uint v \<le> 18446744073709" "n = v * 1000000"
    using assms nanoseconds_iff [OF assms(1)] sint_nonneg_uint [OF assms(1)] by (auto split: if_splits)
  then show ?thesis
    using sint_nonneg_uint [OF assms(1)] by (simp add: uint_word_ariths(3) mod_pos_pos_trivial)
qed

text \<open>Of the settings that pass the validation the kernel can be given exactly those without a
  bandwidth limit whose delay and jitter, in milliseconds, are at most 18446744073709; their
  nanoseconds are exact, without wrap-around, and every packet loss has a probability.\<close>

theorem valid_settings_representable:
  assumes "valid_settings s"
  shows "(representable s \<longleftrightarrow> bandwidth_kbps s = None
            \<and> sint (delay s) \<le> 18446744073709 \<and> sint (jitter s) \<le> 18446744073709)
     \<and> (\<forall>n. nanoseconds (delay s) = Some n \<longrightarrow> uint n = sint (delay s) * 1000000)
     \<and> (\<forall>n. nanoseconds (jitter s) = Some n \<longrightarrow> uint n = sint (jitter s) * 1000000)
     \<and> loss_probability (packet_loss_percent s) \<noteq> None"
  using assms loss_probability_defined nanoseconds_exact
  by (auto simp: valid_settings_def representable_def nanoseconds_iff split: if_splits)

theorem valid_settings_representable_witness:
  "representable (default_settings\<lparr>delay := 18446744073709\<rparr>)
   \<and> \<not> representable (default_settings\<lparr>delay := 18446744073710\<rparr>)"
  using valid_settings_representable [of "default_settings\<lparr>delay := 18446744073709\<rparr>"]
    valid_settings_representable [of "default_settings\<lparr>delay := 18446744073710\<rparr>"]
  by (simp add: valid_settings_def default_settings_def)

section \<open>An honest kernel\<close>

definition shows_settings :: "root_qdisc option \<Rightarrow> direction_settings \<Rightarrow> bool" where
  "shows_settings q s = (case q of None \<Rightarrow> False | Some r \<Rightarrow> qdisc_matches r s)"

definition honest_shaping :: "('h, 'w) host \<Rightarrow> 'h \<Rightarrow> ('w \<Rightarrow> bool \<Rightarrow> root_qdisc option) \<Rightarrow> bool" where
  "honest_shaping h ns qdiscs \<longleftrightarrow>
     (\<forall>name d. keeps qdiscs (query_host_link h name d))
     \<and> (\<forall>n name d. keeps qdiscs (query_namespace_link h n name d))
     \<and> (\<forall>path. keeps qdiscs (query_tool h path))
     \<and> keeps qdiscs (steady_now h)
     \<and> (\<forall>to_namespace d. keeps qdiscs (inspect_qdisc h ns to_namespace d))
     \<and> (\<forall>to_namespace d w q. seen_qdisc (fst (run_state (inspect_qdisc h ns to_namespace d) w)) = Some q
          \<longrightarrow> qdiscs w to_namespace = Some q)
     \<and> (\<forall>path op rest d n. keeps (\<lambda>w. qdiscs w True)
          (run_tool h path (''qdisc'' # op # ''dev'' # ''nll-host'' # rest) d n))
     \<and> (\<forall>path op rest d. keeps (\<lambda>w. qdiscs w False)
          (run_ip_in_namespace h path (''qdisc'' # op # ''dev'' # ''nll-app'' # rest) ns d))"

lemma make_arguments_shape:
  "make_arguments device op s = Some arguments
     \<Longrightarrow> \<exists>o1 rest. arguments = ''qdisc'' # o1 # ''dev'' # device # rest"
  by (auto simp: make_arguments_def split: if_splits)

lemma honest_keeps:
  assumes "honest_shaping h ns qdiscs"
  shows "keeps qdiscs (observe_veth h placed d)" "keeps qdiscs (tool_path h name)"
    "keeps qdiscs (steady_now h)" "keeps qdiscs (inspect_qdisc h ns to_namespace d)"
  using assms
  by (auto simp: honest_shaping_def observe_veth_def intro!: frame tool_path_keeps split: option.split)

lemma seen_is_true:
  assumes honest: "honest_shaping h ns qdiscs"
    and "seen_qdisc (fst (run_state (inspect_qdisc h ns to_namespace d) w)) = Some q"
  shows "qdiscs (snd (run_state (inspect_qdisc h ns to_namespace d) w)) to_namespace = Some q"
proof -
  have "qdiscs w to_namespace = Some q" using assms by (simp add: honest_shaping_def)
  then show ?thesis using keepsD [OF honest_keeps(4) [OF honest]] by simp
qed

lemma match_is_true:
  assumes "honest_shaping h ns qdiscs"
    and "query_matches (fst (run_state (inspect_qdisc h ns to_namespace d) w)) s"
  shows "shows_settings (qdiscs (snd (run_state (inspect_qdisc h ns to_namespace d) w)) to_namespace) s"
  using assms(2) seen_is_true [OF assms(1)]
  by (auto simp: query_matches_def shows_settings_def split: option.splits)

lemma run_tc_other:
  assumes honest: "honest_shaping h ns qdiscs"
  shows "keeps (\<lambda>w. qdiscs w (\<not> to_namespace)) (run_tc h tc ns to_namespace s existing d)"
proof -
  define dev where "dev = (if to_namespace then ''nll-app'' else ''nll-host'')"
  define op where
    "op = (if unrestricted s then ''del'' else if qdisc_kind existing = Noqueue then ''add'' else ''change'')"
  show ?thesis
  proof (cases "make_arguments dev op s")
    case None
    then show ?thesis
      unfolding run_tc_def Let_def dev_def [symmetric] op_def [symmetric] by (simp add: frame)
  next
    case (Some arguments)
    then obtain o1 rest where "arguments = ''qdisc'' # o1 # ''dev'' # dev # rest"
      using make_arguments_shape by blast
    with Some honest show ?thesis
      unfolding run_tc_def Let_def dev_def [symmetric] op_def [symmetric]
      by (cases to_namespace) (simp_all add: honest_shaping_def dev_def)
  qed
qed

lemma attempt_change_other:
  assumes honest: "honest_shaping h ns qdiscs"
  shows "keeps (\<lambda>w. qdiscs w (\<not> to_namespace))
           (attempt_change h tc ns to_namespace current requested existing d)"
proof -
  have "keeps (\<lambda>w. qdiscs w (\<not> to_namespace)) (inspect_qdisc h ns to_namespace d)"
    using honest_keeps(4) [OF honest] by (simp add: keeps_def)
  then show ?thesis unfolding attempt_change_def by (intro frame run_tc_other [OF honest])
qed

lemma attempt_change_true:
  assumes honest: "honest_shaping h ns qdiscs"
    and x: "run_state (attempt_change h tc ns to_namespace current requested existing d) w = (r, w1)"
  shows "r = Shaping_Applied \<Longrightarrow> shows_settings (qdiscs w1 to_namespace) requested"
    and "r = Shaping_Restored \<Longrightarrow> shows_settings (qdiscs w1 to_namespace) current"
  using x unfolding attempt_change_def
  by (auto split: if_splits option.splits dest: match_is_true [OF honest])

section \<open>The change\<close>

lemma keeps_end: "keeps qdiscs m \<Longrightarrow> keeps (\<lambda>w. qdiscs w e) m"
  by (simp add: keeps_def)

lemma prod_set_settings_other:
  assumes honest: "honest_shaping h ns qdiscs"
  shows "keeps (\<lambda>w. qdiscs w (direction \<noteq> Shape_Outbound))
           (prod_set_settings h ns v direction current requested d)"
  unfolding prod_set_settings_def Let_def
  by (intro frame keeps_end [OF honest_keeps(1) [OF honest]] keeps_end [OF honest_keeps(2) [OF honest]]
        keeps_end [OF honest_keeps(4) [OF honest]] attempt_change_other [OF honest])

lemma prod_set_settings_true:
  assumes honest: "honest_shaping h ns qdiscs"
    and x: "run_state (prod_set_settings h ns v direction current requested d) w = (r, w1)"
  shows "r = Shaping_Applied \<Longrightarrow> shows_settings (qdiscs w1 (direction = Shape_Outbound)) requested"
    and "r = Shaping_Restored \<Longrightarrow>
      qdiscs w1 = qdiscs w \<or> shows_settings (qdiscs w1 (direction = Shape_Outbound)) current"
proof -
  define e where "e = (direction = Shape_Outbound)"
  note keep = honest_keeps(1,2,4) [OF honest, THEN keepsD]
  note y = x [unfolded prod_set_settings_def Let_def, folded e_def]
  show "r = Shaping_Applied \<Longrightarrow> shows_settings (qdiscs w1 (direction = Shape_Outbound)) requested"
    using y unfolding e_def [symmetric]
    by (auto simp: keep shows_settings_def qdisc_matches_cong split: if_splits option.splits
        dest: attempt_change_true [OF honest] seen_is_true [OF honest])
  show "r = Shaping_Restored \<Longrightarrow>
      qdiscs w1 = qdiscs w \<or> shows_settings (qdiscs w1 (direction = Shape_Outbound)) current"
    using y unfolding e_def [symmetric]
    by (auto simp: keep split: if_splits option.splits dest: attempt_change_true [OF honest])
qed

text \<open>The recorded settings of both directions are what the kernel has.\<close>

definition describes_kernel ::
  "('w \<Rightarrow> bool \<Rightarrow> root_qdisc option) \<Rightarrow> ('n, 'h, 'p, 'c) owner_state \<Rightarrow> 'w \<Rightarrow> bool" where
  "describes_kernel qdiscs s w \<longleftrightarrow>
     (case outbound_settings s of None \<Rightarrow> True | Some c \<Rightarrow> shows_settings (qdiscs w True) c)
     \<and> (case inbound_settings s of None \<Rightarrow> True | Some c \<Rightarrow> shows_settings (qdiscs w False) c)"

text \<open>
  On a host whose inspections tell the truth, every change of the settings of a direction through
  the production adapter, whether it succeeds, is rolled back or fails, leaves an owner state whose
  recorded settings describe the root qdiscs of both directions; settings that are not known are
  not recorded.
\<close>

lemma recorded_settings_describe_kernel:
  assumes "honest_shaping h ns qdiscs" and "namespace_root s = Namespace_Proven ns"
    and "describes_kernel qdiscs s w"
    and "set_direction_settings (production_adapter h rec) direction requested s (ip, w) = (r, s1, (ip1, w1))"
  shows "describes_kernel qdiscs s1 w1"
proof (cases "veth_root s")
  case (Placed_Veth v)
  define current where "current = (if direction = Shape_Outbound then outbound_settings s else inbound_settings s)"
  note d = assms(4) [unfolded set_direction_settings_def assms(2) Placed_Veth, folded current_def, simplified]
  show ?thesis
  proof (cases "current")
    case None
    then show ?thesis using d assms(3) by simp
  next
    case (Some c)
    show ?thesis
    proof (cases "settings_eq c requested")
      case True
      then show ?thesis using d Some assms(3) by simp
    next
      case False
      define t w0 where "t = fst (run_state (steady_now h) w)" and "w0 = snd (run_state (steady_now h) w)"
      obtain r' w' where x: "run_state (prod_set_settings h ns v direction c requested (t + operation_limit)) w0
          = (r', w')" by (metis surj_pair)
      have same: "qdiscs w0 = qdiscs w" unfolding w0_def by (rule keepsD [OF honest_keeps(3) [OF assms(1)]])
      have other: "qdiscs w' (direction \<noteq> Shape_Outbound) = qdiscs w0 (direction \<noteq> Shape_Outbound)"
        using keepsD [OF prod_set_settings_other [OF assms(1), of direction v c requested "t + operation_limit"], of w0]
        unfolding x snd_conv .
      have now: "clock_now (production_adapter h rec) (ip, w) = (t, (ip, w0))"
        by (simp add: production_adapter_def with_ip_def t_def w0_def case_prod_beta)
      have change: "set_settings (production_adapter h rec) ns v direction c requested (t + operation_limit) (ip, w0)
          = (r', (ip, w'))"
        by (simp add: production_adapter_def with_ip_def x)
      note true = prod_set_settings_true [OF assms(1) x]
      show ?thesis
        using d [unfolded Some, simplified, unfolded now prod.case change] Some False assms(3) other true same
        unfolding current_def
        by (cases r'; cases direction)
          (auto simp: describes_kernel_def Let_def split: option.splits if_splits)
    qed
  qed
qed (use assms in \<open>auto simp: set_direction_settings_def\<close>)

text \<open>A kernel on which every command of \<open>tc\<close> installs a delay of 10 milliseconds.\<close>

definition delayed_qdisc :: root_qdisc where
  "delayed_qdisc = quiet_qdisc\<lparr>qdisc_handle := owned_netem_handle, qdisc_kind := Netem, qdisc_delay := 10000000\<rparr>"

definition seen_root :: "root_qdisc \<Rightarrow> qdisc_query" where
  "seen_root q = \<lparr>query_status = Inventory_Present, query_root = Some q\<rparr>"

definition delaying_host :: "(nat, bool \<Rightarrow> root_qdisc) host" where
  "delaying_host = quiet_host
     \<lparr>run_tool := (\<lambda>p as d m. State (\<lambda>w. (quiet_command, w(False := delayed_qdisc)))),
      run_ip_in_namespace := (\<lambda>p as n d. State (\<lambda>w. (quiet_command, w(True := delayed_qdisc)))),
      query_host_qdisc := (\<lambda>name d. State (\<lambda>w. (seen_root (w False), w))),
      query_namespace_qdisc := (\<lambda>n name d. State (\<lambda>w. (seen_root (w True), w)))\<rparr>"

definition placed_owner :: "(nat, veth_identity_pair, veth_identity_pair, connectivity_handle) owner_state" where
  "placed_owner = new_owner_state\<lparr>namespace_root := Namespace_Proven 0, veth_root := Placed_Veth example_pair\<rparr>"

lemma delaying_host_honest: "honest_shaping delaying_host 0 (\<lambda>w e. Some (w e))"
  by (simp add: honest_shaping_def delaying_host_def quiet_host_def keeps_def inspect_qdisc_def seen_root_def
      seen_qdisc_def)

lemma delaying_host_simps:
  "query_host_link delaying_host = query_host_link quiet_host"
  "query_namespace_link delaying_host = query_namespace_link quiet_host"
  "query_tool delaying_host = query_tool quiet_host" "steady_now delaying_host = ret 0"
  "run_ip_in_namespace delaying_host p arguments n d = State (\<lambda>w. (quiet_command, w(True := delayed_qdisc)))"
  "query_namespace_qdisc delaying_host n name d = State (\<lambda>w. (seen_root (w True), w))"
  by (simp_all add: delaying_host_def quiet_host_def)

lemma observe_example:
  assumes "query_host_link h = query_host_link quiet_host" "query_namespace_link h = query_namespace_link quiet_host"
  shows "run_state (observe_veth h (Some n) d) w = (veth_seen example_pair, w)"
  using assms by (simp add: observe_veth_def quiet_host_def all_absent_def link_answer_def valid_placed_pair_def
      known_namespace_def example_pair_def)

lemma round_to_bits_zero [simp]: "round_to_bits 0 q = Some 0"
  using bit_length.simps [of 0] by (auto simp: round_to_bits_def round_half_even_def infinity_bits_def)

lemma loss_probability_zero [simp]: "loss_probability 0 = Some 0"
proof -
  have "dbl_bits 0 = 0" by (simp add: dbl_bits_def)
  then show ?thesis
    by (simp add: loss_probability_def loss_quotient_def loss_product_def round_half_even_def dbl_less_def
        isfinite_def infinity_bits_def)
qed

definition slow_settings :: direction_settings where
  "slow_settings = default_settings\<lparr>delay := 10\<rparr>"

lemma slow_settings_simps [simp]:
  "delay slow_settings = 10" "jitter slow_settings = 0" "packet_loss_percent slow_settings = 0"
  "bandwidth_kbps slow_settings = None" "\<not> unrestricted slow_settings" "unrestricted default_settings"
  "\<not> settings_eq default_settings slow_settings" "representable slow_settings"
  by (simp_all add: slow_settings_def default_settings_def unrestricted_def settings_eq_def representable_def
      nanoseconds_def dbl_eq_def)

lemma slow_settings_matches [simp]:
  "query_matches (seen_root quiet_qdisc) default_settings" "qdisc_matches quiet_qdisc default_settings"
  "query_matches (seen_root delayed_qdisc) slow_settings" "seen_qdisc (seen_root q) = Some q"
  by (simp_all add: query_matches_def seen_qdisc_def seen_root_def qdisc_matches_def quiet_qdisc_def
      delayed_qdisc_def nanoseconds_def)

lemma slow_settings_arguments:
  "make_arguments ''nll-app'' op slow_settings \<noteq> None"
  by (simp add: make_arguments_def dbl_eq_def)

lemma delaying_change:
  "run_state (prod_set_settings delaying_host 0 example_pair Shape_Outbound default_settings slow_settings d)
      (\<lambda>_. quiet_qdisc)
   = (Shaping_Applied, (\<lambda>_. quiet_qdisc)(True := delayed_qdisc))"
proof -
  have tool: "run_state (tool_path delaying_host ''tc'') w = (Some ''/usr/sbin/tc'', w)" for w
    by (rule quiet_tool_path) (simp_all add: delaying_host_simps tool_paths_def)
  have observed: "run_state (observe_veth delaying_host (Some 0) d) w = (veth_seen example_pair, w)" for w
    by (rule observe_example) (simp_all add: delaying_host_simps)
  obtain arguments where "make_arguments ''nll-app'' ''add'' slow_settings = Some arguments"
    using slow_settings_arguments by blast
  then show ?thesis
    by (simp add: prod_set_settings_def observed veth_seen_def inspect_qdisc_def delaying_host_simps tool
        attempt_change_def run_tc_def quiet_qdisc_def [THEN arg_cong, of qdisc_kind] dbl_less_def)
qed

lemma recorded_settings_describe_kernel_witness:
  "(case set_direction_settings (production_adapter delaying_host False) Shape_Outbound
      slow_settings placed_owner (''/usr/sbin/ip'', (\<lambda>_. quiet_qdisc)) of
      (r, s1, (ip1, w1)) \<Rightarrow> r = Shaping_Applied \<and> describes_kernel (\<lambda>w e. Some (w e)) s1 w1)"
proof -
  obtain r s1 ip1 w1 where run:
    "set_direction_settings (production_adapter delaying_host False) Shape_Outbound
      slow_settings placed_owner (''/usr/sbin/ip'', (\<lambda>_. quiet_qdisc)) = (r, s1, (ip1, w1))"
    by (metis surj_pair)
  have "describes_kernel (\<lambda>w e. Some (w e)) s1 w1"
    by (rule recorded_settings_describe_kernel [OF delaying_host_honest _ _ run])
      (simp_all add: placed_owner_def new_owner_state_def describes_kernel_def shows_settings_def
        default_settings_def qdisc_matches_def unrestricted_def quiet_qdisc_def dbl_eq_def)
  moreover have "r = Shaping_Applied"
    using run by (simp add: set_direction_settings_def placed_owner_def new_owner_state_def
        production_adapter_def with_ip_def delaying_host_simps delaying_change Let_def)
  ultimately show ?thesis by (simp add: run)
qed

end
