(* ===== verification/Loss_Accuracy.thy ===== *)
theory Loss_Accuracy
  imports Shaping_Laws
begin

text \<open>
  What the kernel has to do for the settings of a direction, said without the code's conversions:
  times in nanoseconds as integers, and the share of lost packets as a real number, of which the
  kernel's probability is a 32-bit fraction. The settings that the code takes for equal to a root
  qdisc are implemented by it: the two roundings of \<open>percentage / 100.0 * 4294967295.0\<close> and the
  rounding to an integer together err by at most 51 hundredths of a unit.
\<close>

section \<open>Rounding to a double\<close>

lemma mag_of_rounded:
  assumes "1 \<le> e" "s \<le> 2 ^ 53" "e = 1 \<or> 2 ^ 52 \<le> s"
  shows "mag_of_bits ((e - 1) * 2 ^ 52 + s) = s * 2 ^ e"
proof -
  obtain d where e: "e = Suc d" using assms(1) by (cases e) auto
  consider (low) "s < 2 ^ 52" "d = 0" | (mid) "2 ^ 52 \<le> s" "s < 2 ^ 53" | (high) "s = 2 ^ 53"
    using assms e by fastforce
  then show ?thesis
  proof cases
    case low
    then show ?thesis by (simp add: e mag_of_bits_def significand_of_bits_def exponent_of_bits_def)
  next
    case mid
    define t where "t = s - 2 ^ 52"
    have s: "s = 2 ^ 52 + t" and t: "t < 2 ^ 52" using mid by (simp_all add: t_def)
    have b: "d * 2 ^ 52 + s = t + 2 ^ 52 * (d + 1)" by (simp add: s)
    have "(d * 2 ^ 52 + s) div 2 ^ 52 = d + 1" unfolding b using t by simp
    moreover have "(d * 2 ^ 52 + s) mod 2 ^ 52 = t" unfolding b mod_mult_self2 using t by (rule mod_less)
    ultimately show ?thesis by (simp add: e mag_of_bits_def significand_of_bits_def exponent_of_bits_def s)
  next
    case high
    have b: "d * 2 ^ 52 + s = 2 ^ 52 * (d + 2)" by (simp add: high)
    have "(d * 2 ^ 52 + s) div 2 ^ 52 = d + 2" "(d * 2 ^ 52 + s) mod 2 ^ 52 = 0"
      unfolding b by simp_all
    then show ?thesis by (simp add: e mag_of_bits_def significand_of_bits_def exponent_of_bits_def high)
  qed
qed

text \<open>The error of a rounding is half a unit in the last place, which has 53 bits or is the smallest.\<close>

lemma round_to_bits_error:
  assumes q: "0 < q" and b: "round_to_bits p q = Some b"
  defines "x \<equiv> real (p * dbl_unit) / real q"
  shows "\<bar>real (mag_of_bits b) - x\<bar> \<le> 1 + x / 2 ^ 53"
proof -
  define n where "n = p * dbl_unit div q"
  define e where "e = max 1 (bit_length n - 53)"
  define s where "s = round_half_even (p * dbl_unit) (q * 2 ^ e)"
  have e1: "1 \<le> e" by (simp add: e_def)
  have bs: "b = (e - 1) * 2 ^ 52 + s"
    using b by (simp add: round_to_bits_def Let_def n_def e_def s_def split: if_splits)
  have qe: "0 < q * 2 ^ e" using q by simp
  have "bit_length n \<le> 53 + e" by (simp add: e_def)
  then have "n < 2 ^ (53 + e)" by (simp add: bit_length_le_iff)
  then have "p * dbl_unit < 2 ^ (53 + e) * q" using q by (simp add: n_def div_less_iff_less_mult)
  then have upper: "p * dbl_unit \<le> 2 ^ 53 * (q * 2 ^ e)" by (simp add: power_add ac_simps)
  have s53: "s \<le> 2 ^ 53" unfolding s_def by (rule round_half_even_le [OF qe upper])
  have big: "2 ^ (52 + e) * q \<le> p * dbl_unit" if "e \<noteq> 1"
  proof -
    have "\<not> bit_length n \<le> 52 + e" using that by (simp add: e_def)
    then have "2 ^ (52 + e) \<le> n" by (simp add: bit_length_le_iff)
    then show ?thesis using q by (simp add: n_def less_eq_div_iff_mult_less_eq)
  qed
  have "e = 1 \<or> 2 ^ 52 \<le> s"
    using big unfolding s_def by (auto intro!: round_half_even_ge [OF qe] simp: power_add ac_simps)
  then have m: "mag_of_bits b = s * 2 ^ e" unfolding bs by (rule mag_of_rounded [OF e1 s53])
  have "\<bar>real s - real (p * dbl_unit) / real (q * 2 ^ e)\<bar> \<le> 1 / 2"
    unfolding s_def by (rule round_half_even_error [OF qe])
  then have "\<bar>(real s - real (p * dbl_unit) / real (q * 2 ^ e)) * 2 ^ e\<bar> \<le> 1 / 2 * 2 ^ e"
    unfolding abs_mult by (intro mult_mono) simp_all
  moreover have "(real s - real (p * dbl_unit) / real (q * 2 ^ e)) * 2 ^ e = real (mag_of_bits b) - x"
    unfolding m x_def using q by (simp add: field_simps)
  moreover have "1 / 2 * 2 ^ e \<le> 1 + x / 2 ^ 53"
  proof (cases "e = 1")
    case False
    have "real (2 ^ (52 + e) * q) \<le> real (p * dbl_unit)" using big [OF False] by (simp only: of_nat_le_iff)
    then have "2 ^ (52 + e) \<le> x" unfolding x_def using q by (simp add: pos_le_divide_eq)
    then have "2 ^ (52 + e) / 2 ^ 53 \<le> x / 2 ^ (53 :: nat)" by (rule divide_right_mono) simp
    then show ?thesis by (simp add: power_add)
  qed (simp add: x_def)
  ultimately show ?thesis by simp
qed

section \<open>The probability of a loss\<close>

text \<open>The value of a double that is not negative.\<close>

definition dbl_value :: "double \<Rightarrow> real" where
  "dbl_value w = real (mag_of_bits (dbl_bits w)) / real dbl_unit"

lemma unit_large: "2 ^ 70 \<le> real dbl_unit"
proof -
  have "(2::real) ^ 70 \<le> 2 ^ 1075" by (rule power_increasing) simp_all
  then show ?thesis by (simp add: dbl_unit_def)
qed

text \<open>The error bound for values instead of magnitudes.\<close>

lemma rounded_value:
  assumes "0 < q" "round_to_bits p q = Some b" "real p / real q \<le> B"
  shows "\<bar>real (mag_of_bits b) / real dbl_unit - real p / real q\<bar> \<le> 1 / 2 ^ 70 + B / 2 ^ 53"
proof -
  define U where "U = real dbl_unit"
  have U: "2 ^ 70 \<le> U" "0 < U" using unit_large by (simp_all add: U_def)
  have "\<bar>real (mag_of_bits b) - U * (real p / real q)\<bar> \<le> 1 + U * (real p / real q) / 2 ^ 53"
    using round_to_bits_error [OF assms(1,2)] by (simp add: U_def ac_simps)
  then have "\<bar>real (mag_of_bits b) - U * (real p / real q)\<bar> / U \<le> (1 + U * (real p / real q) / 2 ^ 53) / U"
    using U by (intro divide_right_mono) simp_all
  moreover have "\<bar>real (mag_of_bits b) - U * (real p / real q)\<bar> / U
      = \<bar>real (mag_of_bits b) / U - real p / real q\<bar>"
    using U by (simp add: abs_divide [symmetric, of _ U, simplified abs_of_pos [OF U(2)]] diff_divide_distrib)
  moreover have "(1 + U * (real p / real q) / 2 ^ 53) / U = 1 / U + real p / real q / 2 ^ 53"
    using U by (simp add: add_divide_distrib)
  moreover have "1 / U \<le> 1 / 2 ^ 70" using U by (intro divide_left_mono) simp_all
  moreover have "real p / real q / 2 ^ 53 \<le> B / 2 ^ 53" using assms(3) by (rule divide_right_mono) simp
  ultimately show ?thesis unfolding U_def by linarith
qed

lemma mag_hundred: "mag_of_bits (dbl_bits dbl_hundred) = 100 * dbl_unit"
  by (simp add: mag_of_bits_def significand_of_bits_def exponent_of_bits_def dbl_unit_def dbl_bits_def)

lemma valid_loss_value:
  assumes "valid_loss w" shows "0 \<le> dbl_value w" "dbl_value w \<le> 100"
proof -
  have "int (dbl_bits w) \<le> dbl_key dbl_hundred"
    using assms by (auto simp: valid_loss_def dbl_key_def split: if_splits)
  then have "dbl_bits w \<le> dbl_bits dbl_hundred" by (simp add: dbl_bits_def)
  from mag_of_bits_mono [OF this] have "mag_of_bits (dbl_bits w) \<le> 100 * dbl_unit" by (simp add: mag_hundred)
  then have "real (mag_of_bits (dbl_bits w)) \<le> real (100 * dbl_unit)" by (simp only: of_nat_le_iff)
  then show "dbl_value w \<le> 100" by (simp add: dbl_value_def divide_le_eq)
  show "0 \<le> dbl_value w" by (simp add: dbl_value_def)
qed

lemma loss_probability_accurate:
  assumes "valid_loss w" "loss_probability w = Some l"
  shows "\<bar>real (unat l) - dbl_value w / 100 * (2 ^ 32 - 1)\<bar> \<le> 51 / 100"
proof -
  obtain q p where q: "loss_quotient (dbl_bits w) = Some q" and p: "loss_product q = Some p"
    and l: "round_half_even (mag_of_bits p) dbl_unit \<le> 2 ^ 32 - 1" "l = of_nat (round_half_even (mag_of_bits p) dbl_unit)"
    using assms by (auto simp: loss_probability_def valid_loss_iff Let_def not_less split: option.splits if_splits)
  define v y z where "v = dbl_value w / 100" and "y = real (mag_of_bits q) / real dbl_unit"
    and "z = real (mag_of_bits p) / real dbl_unit"
  have v: "v \<le> 1" "0 \<le> v" using valid_loss_value [OF assms(1)] by (simp_all add: v_def)
  have vq: "real (mag_of_bits (dbl_bits w)) / real (100 * dbl_unit) = v"
    by (simp add: v_def dbl_value_def)
  have "\<bar>y - v\<bar> \<le> 1 / 2 ^ 70 + 1 / 2 ^ 53"
    using rounded_value [of "100 * dbl_unit" "mag_of_bits (dbl_bits w)" q 1] q v
    unfolding loss_quotient_def mag_hundred vq y_def by simp
  then have y: "\<bar>y - v\<bar> * (2 ^ 32 - 1) \<le> (1 / 2 ^ 70 + 1 / 2 ^ 53) * (2 ^ 32 - 1)"
    by (rule mult_right_mono) simp
  have yq: "real (mag_of_bits q * (2 ^ 32 - 1)) / real dbl_unit = y * (2 ^ 32 - 1)"
    by (simp add: y_def)
  have "(1::real) / 2 ^ 70 + 1 / 2 ^ 53 \<le> 1" by simp
  with \<open>\<bar>y - v\<bar> \<le> _\<close> v have "y \<le> 2" by linarith
  then have "y * (2 ^ 32 - 1) \<le> 2 * (2 ^ 32 - 1)" by (rule mult_right_mono) simp
  with rounded_value [OF dbl_unit_pos(1) p [unfolded loss_product_def], unfolded yq]
  have "\<bar>z - y * (2 ^ 32 - 1)\<bar> \<le> 1 / 2 ^ 70 + 2 * (2 ^ 32 - 1) / 2 ^ 53"
    unfolding z_def by blast
  then have zy: "\<bar>z - y * (2 ^ 32 - 1)\<bar> \<le> 1 / 1000" by (rule order_trans) simp
  have "\<bar>y * c - v * c\<bar> = \<bar>y - v\<bar> * c" if "0 \<le> c" for c :: real
    using that by (simp only: abs_mult abs_of_nonneg flip: left_diff_distrib)
  with y have "\<bar>y * (2 ^ 32 - 1) - v * (2 ^ 32 - 1)\<bar> \<le> (1 / 2 ^ 70 + 1 / 2 ^ 53) * (2 ^ 32 - 1)" by simp
  then have yv: "\<bar>y * (2 ^ 32 - 1) - v * (2 ^ 32 - 1)\<bar> \<le> 1 / 1000" by (rule order_trans) simp
  have sz: "\<bar>real (round_half_even (mag_of_bits p) dbl_unit) - z\<bar> \<le> 1 / 2"
    unfolding z_def by (rule round_half_even_error) simp
  have near: "\<bar>s - b\<bar> \<le> 51 / 100" if "\<bar>z - a\<bar> \<le> 1 / 1000" "\<bar>a - b\<bar> \<le> 1 / 1000" "\<bar>s - z\<bar> \<le> 1 / 2"
    for a b s :: real
    using that by linarith
  have "unat l = round_half_even (mag_of_bits p) dbl_unit"
    using l by (simp add: unat_of_nat take_bit_nat_eq_self)
  with near [OF zy yv sz] show ?thesis by (simp only: v_def)
qed

section \<open>What the kernel has to do\<close>

text \<open>No delay, jitter or loss: the device has no queueing discipline. Otherwise it has one that
  delays, varies the delay and loses as the settings say, and nothing else.\<close>

definition implements :: "root_qdisc option \<Rightarrow> direction_settings \<Rightarrow> bool" where
  "implements q s \<longleftrightarrow> bandwidth_kbps s = None \<and> (case q of
       None \<Rightarrow> False
     | Some r \<Rightarrow>
         if sint (delay s) = 0 \<and> sint (jitter s) = 0 \<and> dbl_value (packet_loss_percent s) = 0
         then qdisc_kind r = Noqueue \<and> qdisc_handle r = 0
         else qdisc_kind r = Netem \<and> qdisc_handle r = 0x4e4c0000 \<and> \<not> qdisc_unsupported r
           \<and> uint (qdisc_delay r) = sint (delay s) * 10 ^ 6
           \<and> uint (qdisc_jitter r) = sint (jitter s) * 10 ^ 6
           \<and> \<bar>real (unat (qdisc_loss r)) - dbl_value (packet_loss_percent s) / 100 * (2 ^ 32 - 1)\<bar> \<le> 51 / 100)"

lemma loss_value_zero:
  assumes "valid_loss w" shows "dbl_value w = 0 \<longleftrightarrow> dbl_eq w dbl_zero"
proof -
  have "mag_of_bits b = 0 \<longleftrightarrow> b = 0" for b
    by (auto simp: mag_of_bits_def significand_of_bits_def)
  then show ?thesis using assms
    by (auto simp: dbl_value_def dbl_eq_def dbl_key_def valid_loss_def isfinite_not_isnan)
qed

lemma unrestricted_value:
  assumes "valid_settings s"
  shows "unrestricted s \<longleftrightarrow> bandwidth_kbps s = None
    \<and> sint (delay s) = 0 \<and> sint (jitter s) = 0 \<and> dbl_value (packet_loss_percent s) = 0"
  using assms loss_value_zero [of "packet_loss_percent s"]
  by (auto simp: unrestricted_def valid_settings_def signed_eq_0_iff)

lemma shown_settings_implemented:
  assumes "valid_settings s" "shows_settings q s" shows "implements q s"
proof -
  obtain r where q: "q = Some r" and r: "qdisc_matches r s"
    using assms(2) by (auto simp: shows_settings_def split: option.splits)
  show ?thesis
  proof (cases "unrestricted s")
    case True
    with r show ?thesis using unrestricted_value [OF assms(1)] by (simp add: implements_def q qdisc_matches_def)
  next
    case False
    then obtain d j l where n: "nanoseconds (delay s) = Some d" "nanoseconds (jitter s) = Some j"
        "loss_probability (packet_loss_percent s) = Some l"
      and m: "bandwidth_kbps s = None" "\<not> qdisc_unsupported r" "qdisc_kind r = Netem"
        "qdisc_handle r = owned_netem_handle" "qdisc_delay r = d" "qdisc_jitter r = j" "qdisc_loss r = l"
      using r by (auto simp: qdisc_matches_def split: option.splits)
    have "uint d = sint (delay s) * 10 ^ 6" "uint j = sint (jitter s) * 10 ^ 6"
      using assms(1) n nanoseconds_exact by (simp_all add: valid_settings_def)
    moreover have "\<bar>real (unat l) - dbl_value (packet_loss_percent s) / 100 * (2 ^ 32 - 1)\<bar> \<le> 51 / 100"
      using loss_probability_accurate [OF _ n(3)] assms(1) by (simp add: valid_settings_def)
    ultimately show ?thesis
      using False m unrestricted_value [OF assms(1)] by (simp add: implements_def q owned_netem_handle_def)
  qed
qed

lemma default_implemented: "implements q default_settings \<longleftrightarrow> shows_settings q default_settings"
proof -
  have "unrestricted default_settings"
    by (simp add: unrestricted_def default_settings_def dbl_eq_def)
  moreover from this have "sint (delay default_settings) = 0 \<and> sint (jitter default_settings) = 0
      \<and> dbl_value (packet_loss_percent default_settings) = 0 \<and> bandwidth_kbps default_settings = None"
    using unrestricted_value [OF valid_default(1)] by simp
  ultimately show ?thesis
    by (simp add: implements_def shows_settings_def qdisc_matches_def split: option.split)
qed

end
