(* ===== verification/Profile_Laws.thy ===== *)
theory Profile_Laws
  imports Helper_Session Loss_Accuracy
begin

text \<open>
  From a Profile Change to the kernel: the profile that the helper has confirmed to the supervisor,
  the settings its owner state records and the root qdiscs of the two ends of the veth pair agree,
  and the qdiscs implement that profile as \<open>Loss_Accuracy\<close> says it without the code's conversions.
\<close>

text \<open>Profile Changes one after the other: the completions and the final state.\<close>

fun apply_changes ::
  "('n, 'h, 'p, 'c, 'w) semantic_adapter \<Rightarrow> profile_change list
     \<Rightarrow> network_profile \<times> ('n, 'h, 'p, 'c) owner_state \<times> 'w
     \<Rightarrow> profile_change_completion list \<times> network_profile \<times> ('n, 'h, 'p, 'c) owner_state \<times> 'w" where
  "apply_changes a [] x = ([], x)"
| "apply_changes a (change # changes) x =
     (case adapter_apply a change x of (completion, y) \<Rightarrow>
        (case apply_changes a changes y of (completions, z) \<Rightarrow> (completion # completions, z)))"

definition direction_of :: "shaping_direction \<Rightarrow> network_profile \<Rightarrow> direction_settings" where
  "direction_of d p = (if d = Shape_Outbound then outbound p else inbound p)"

definition record_of :: "shaping_direction \<Rightarrow> ('n, 'h, 'p, 'c) owner_state \<Rightarrow> direction_settings option" where
  "record_of d s = (if d = Shape_Outbound then outbound_settings s else inbound_settings s)"

lemma settings_eq_trans: "settings_eq a b \<Longrightarrow> settings_eq b c \<Longrightarrow> settings_eq a c"
  by (auto simp: settings_eq_def intro: dbl_eq_trans)

section \<open>The record and the confirmed profile\<close>

text \<open>What is recorded of a direction is what is confirmed of it.\<close>

definition records_confirmed :: "network_profile \<Rightarrow> ('n, 'h, 'p, 'c) owner_state \<Rightarrow> bool" where
  "records_confirmed p s \<longleftrightarrow> (\<forall>d c. record_of d s = Some c \<longrightarrow> settings_eq c (direction_of d p))"

lemma set_direction_record:
  assumes "set_direction_settings a d requested s w = (r, s1, w1)"
  shows "namespace_root s1 = namespace_root s" "e \<noteq> d \<Longrightarrow> record_of e s1 = record_of e s"
    "r = Shaping_Applied \<Longrightarrow> record_of d s1 = Some c \<Longrightarrow> valid_settings requested \<Longrightarrow> settings_eq c requested"
    "r = Shaping_Restored \<Longrightarrow> record_of d s1 = record_of d s"
    "r = Shaping_State_Unknown \<Longrightarrow> record_of d s1 = None \<or> s1 = s"
    "r \<noteq> Shaping_State_Unknown \<Longrightarrow> record_of d s \<noteq> None \<Longrightarrow> record_of d s1 \<noteq> None"
  using assms
  by (cases d; cases e; auto simp: set_direction_settings_def record_of_def case_prod_beta Let_def valid_settings_eq_refl
      split: namespace_state.splits veth_state.splits option.splits if_splits shaping_change_result.splits)+

text \<open>One change: a direction and its new settings, or nothing.\<close>

lemma adapter_apply_cases:
  assumes "adapter_apply a change (p, s, w) = (completion, p1, s1, w1)"
  obtains (kept) "p1 = p" "s1 = s" "w1 = w"
  | (sent) d r candidate where "apply_profile_change p change = Inr candidate"
      "set_direction_settings a d (direction_of d candidate) s w = (r, s1, w1)"
      "\<And>e. e \<noteq> d \<Longrightarrow> settings_eq (direction_of e candidate) (direction_of e p)"
      "p1 = (if r = Shaping_Applied then candidate else p)"
      "completion = Completion_State_Unknown \<longleftrightarrow> r = Shaping_State_Unknown"
      "bandwidth_kbps (outbound candidate) = None" "bandwidth_kbps (inbound candidate) = None"
proof (cases "p1 = p \<and> s1 = s \<and> w1 = w")
  case False
  then obtain candidate where candidate: "apply_profile_change p change = Inr candidate"
    and no_bandwidth: "bandwidth_kbps (outbound candidate) = None" "bandwidth_kbps (inbound candidate) = None"
    using assms by (auto simp: adapter_apply_def split: sum.splits if_splits)
  define d where "d = (if settings_eq (outbound candidate) (outbound p) then Shape_Inbound else Shape_Outbound)"
  obtain r s2 w2 where y: "set_direction_settings a d (direction_of d candidate) s w = (r, s2, w2)"
    by (metis prod_cases3)
  have other: "settings_eq (direction_of e candidate) (direction_of e p)" if "e \<noteq> d" for e
    using False assms candidate no_bandwidth that
    by (cases e) (auto simp: adapter_apply_def d_def direction_of_def Let_def split: if_splits)
  have run: "(completion, p1, s1, w1) = (case r of
        Shaping_Applied \<Rightarrow> (Completion_Applied, candidate, s2, w2)
      | Shaping_Restored \<Rightarrow> (Completion_Restored_After_Failure, p, s2, w2)
      | Shaping_State_Unknown \<Rightarrow> (Completion_State_Unknown, p, s2, w2))"
    using False assms candidate no_bandwidth y
    by (auto simp: adapter_apply_def d_def direction_of_def Let_def split: if_splits)
  show ?thesis
    by (rule sent [OF candidate _ other _ _ no_bandwidth, of d r])
      (use run y in \<open>auto split: shaping_change_result.splits\<close>)
qed (rule kept, simp_all)

lemma direction_other: "e \<noteq> d \<Longrightarrow> e' \<noteq> d \<Longrightarrow> e = (e' :: shaping_direction)"
  by (cases d; cases e; cases e') simp_all

lemma valid_direction: "valid_profile p \<Longrightarrow> valid_settings (direction_of d p)"
  by (simp add: valid_profile_def direction_of_def)

lemma change_records_confirmed:
  assumes run: "adapter_apply a change (p, s, w) = (completion, p1, s1, w1)"
    and "valid_profile p" and records: "records_confirmed p s"
  shows "valid_profile p1 \<and> records_confirmed p1 s1 \<and> namespace_root s1 = namespace_root s
    \<and> (completion \<noteq> Completion_State_Unknown \<longrightarrow> (\<forall>d. record_of d s \<noteq> None \<longrightarrow> record_of d s1 \<noteq> None))"
  using run
proof (cases rule: adapter_apply_cases)
  case kept
  with assms show ?thesis by simp
next
  case (sent d r candidate)
  note change = set_direction_record [OF sent(2)]
  have valid: "valid_profile candidate" using sent(1) by (rule apply_profile_change_valid)
  have "settings_eq c (direction_of e p1)" if c: "record_of e s1 = Some c" for e c
  proof (cases "e = d")
    case True
    show ?thesis
      using records c change(3) [of c] change(4,5) sent(4) valid_direction [OF valid]
      unfolding True records_confirmed_def by (cases r) auto
  next
    case False
    then have "settings_eq c (direction_of e p)"
      using records c change(2) unfolding records_confirmed_def by simp
    then show ?thesis
      using settings_eq_trans [of c] sent(3) [OF False] settings_eq_sym [of "direction_of e candidate"]
      unfolding sent(4) by simp
  qed
  moreover have "record_of e s1 \<noteq> None" if "r \<noteq> Shaping_State_Unknown" "record_of e s \<noteq> None" for e
    using change(2) [of e] change(6) that by (cases "e = d") auto
  ultimately show ?thesis
    using assms(2) valid change(1) sent(4,5) unfolding records_confirmed_def by auto
qed

lemma changes_record_confirmed:
  assumes "apply_changes a changes (p, s, w) = (completions, p1, s1, w1)"
    and "valid_profile p" and "records_confirmed p s"
  shows "valid_profile p1 \<and> records_confirmed p1 s1 \<and> namespace_root s1 = namespace_root s
    \<and> (Completion_State_Unknown \<notin> set completions \<longrightarrow> (\<forall>d. record_of d s \<noteq> None \<longrightarrow> record_of d s1 \<noteq> None))"
  using assms
proof (induction changes arbitrary: p s w completions)
  case (Cons change changes)
  obtain completion p2 s2 w2 where first: "adapter_apply a change (p, s, w) = (completion, p2, s2, w2)"
    by (metis prod_cases4)
  then obtain rest where rest: "apply_changes a changes (p2, s2, w2) = (rest, p1, s1, w1)"
    and "completions = completion # rest"
    using Cons.prems(1) by (cases "apply_changes a changes (p2, s2, w2)") auto
  with change_records_confirmed [OF first Cons.prems(2,3)] Cons.IH [OF rest] show ?case by auto
qed simp

section \<open>The kernel\<close>

lemma change_describes_kernel:
  assumes honest: "honest_shaping h ns qdiscs" and root: "namespace_root s = Namespace_Proven ns"
    and kernel: "describes_kernel qdiscs s w"
    and run: "adapter_apply (production_adapter h rec) change (p, s, (ip, w)) = (completion, p1, s1, (ip1, w1))"
  shows "describes_kernel qdiscs s1 w1"
  using run
proof (cases rule: adapter_apply_cases)
  case kept
  with kernel show ?thesis by simp
next
  case (sent d r candidate)
  show ?thesis by (rule recorded_settings_describe_kernel [OF honest root kernel sent(2)])
qed

lemma changes_describe_kernel:
  assumes "honest_shaping h ns qdiscs"
    and "apply_changes (production_adapter h rec) changes (p, s, (ip, w)) = (completions, p1, s1, (ip1, w1))"
    and "valid_profile p" and "records_confirmed p s"
    and "namespace_root s = Namespace_Proven ns" and "describes_kernel qdiscs s w"
  shows "describes_kernel qdiscs s1 w1"
  using assms(2-)
proof (induction changes arbitrary: p s ip w completions)
  case (Cons change changes)
  obtain completion p2 s2 ip2 w2 where
    first: "adapter_apply (production_adapter h rec) change (p, s, (ip, w)) = (completion, p2, s2, (ip2, w2))"
    by (metis prod_cases5)
  then obtain rest where
    rest: "apply_changes (production_adapter h rec) changes (p2, s2, (ip2, w2)) = (rest, p1, s1, (ip1, w1))"
    using Cons.prems(1) by (cases "apply_changes (production_adapter h rec) changes (p2, s2, (ip2, w2))") auto
  show ?case
    using Cons.IH [OF rest] change_records_confirmed [OF first Cons.prems(2,3)] Cons.prems(4)
      change_describes_kernel [OF assms(1) Cons.prems(4,5) first] by simp
qed simp

lemma shows_settings_cong: "settings_eq c t \<Longrightarrow> shows_settings q c \<Longrightarrow> shows_settings q t"
  by (auto simp: shows_settings_def qdisc_matches_cong split: option.splits)

text \<open>C16: what is confirmed to the supervisor is what the kernel does. From a fresh environment, on a
  host whose inspections tell the truth, after any Profile Changes, accepted, refused, rolled back
  or failed, the confirmed profile is valid, and as long as no change was answered with an unknown
  state the root qdiscs of both directions implement exactly the confirmed profile; afterwards they
  still do in every direction whose settings are recorded. A qdisc implements settings when it
  delays by exactly the milliseconds set, with exactly the jitter set, and loses the set percentage
  up to the kernel's 32-bit resolution, and does nothing else; for settings without effect there is
  none.\<close>

theorem confirmed_profile_describes_kernel:
  assumes "honest_shaping h ns qdiscs" and "namespace_root s = Namespace_Proven ns"
    and "outbound_settings s = Some default_settings" and "inbound_settings s = Some default_settings"
    and "implements (qdiscs w True) default_settings" and "implements (qdiscs w False) default_settings"
    and "apply_changes (production_adapter h rec) changes (default_profile, s, (ip, w))
           = (completions, confirmed, s1, (ip1, w1))"
  shows "valid_profile confirmed
    \<and> (outbound_settings s1 \<noteq> None \<longrightarrow> implements (qdiscs w1 True) (outbound confirmed))
    \<and> (inbound_settings s1 \<noteq> None \<longrightarrow> implements (qdiscs w1 False) (inbound confirmed))
    \<and> (Completion_State_Unknown \<notin> set completions \<longrightarrow>
         outbound_settings s1 \<noteq> None \<and> inbound_settings s1 \<noteq> None)"
proof -
  have records: "records_confirmed default_profile s"
    using assms(3,4) valid_settings_eq_refl [OF valid_default(1)]
    by (simp add: records_confirmed_def record_of_def direction_of_def default_profile_def)
  note laws = changes_record_confirmed [OF assms(7) valid_default(2) records]
  have "describes_kernel qdiscs s1 w1"
    by (rule changes_describe_kernel [OF assms(1,7) valid_default(2) records assms(2)])
      (use assms(5,6) in \<open>simp add: describes_kernel_def assms(3,4) default_implemented\<close>)
  moreover have "settings_eq c (outbound confirmed)" if "outbound_settings s1 = Some c" for c
    using laws [THEN conjunct2, THEN conjunct1, unfolded records_confirmed_def, rule_format, of Shape_Outbound c] that
    by (simp add: record_of_def direction_of_def)
  moreover have "settings_eq c (inbound confirmed)" if "inbound_settings s1 = Some c" for c
    using laws [THEN conjunct2, THEN conjunct1, unfolded records_confirmed_def, rule_format, of Shape_Inbound c] that
    by (simp add: record_of_def direction_of_def)
  moreover have "outbound_settings s1 \<noteq> None" "inbound_settings s1 \<noteq> None"
    if "Completion_State_Unknown \<notin> set completions"
    using laws that assms(3,4) spec [of "\<lambda>d. record_of d s \<noteq> None \<longrightarrow> record_of d s1 \<noteq> None" Shape_Outbound]
      spec [of "\<lambda>d. record_of d s \<noteq> None \<longrightarrow> record_of d s1 \<noteq> None" Shape_Inbound]
    by (simp_all add: record_of_def)
  ultimately show ?thesis
    using laws shows_settings_cong shown_settings_implemented
    unfolding describes_kernel_def valid_profile_def by (auto split: option.splits)
qed

lemma slow_change:
  "apply_profile_change default_profile (SetDelay Outbound 10) = Inr (default_profile\<lparr>outbound := slow_settings\<rparr>)"
  by (simp add: apply_Inr_iff visit_change_def valid_profile_def default_profile_def slow_settings_def
      default_settings_def valid_settings_def)

lemma slow_settings_sent:
  "set_direction_settings (production_adapter delaying_host False) Shape_Outbound slow_settings placed_owner
      (''/usr/sbin/ip'', (\<lambda>_. quiet_qdisc))
   = (Shaping_Applied, placed_owner\<lparr>outbound_settings := Some slow_settings\<rparr>,
      (''/usr/sbin/ip'', (\<lambda>_. quiet_qdisc)(True := delayed_qdisc)))"
  by (simp add: set_direction_settings_def placed_owner_def new_owner_state_def production_adapter_def
      with_ip_def delaying_host_simps delaying_change Let_def)

lemma slow_change_applied:
  "apply_changes (production_adapter delaying_host False) [SetDelay Outbound 10]
      (default_profile, placed_owner, (''/usr/sbin/ip'', (\<lambda>_. quiet_qdisc)))
   = ([Completion_Applied], default_profile\<lparr>outbound := slow_settings\<rparr>,
      placed_owner\<lparr>outbound_settings := Some slow_settings\<rparr>,
      (''/usr/sbin/ip'', (\<lambda>_. quiet_qdisc)(True := delayed_qdisc)))"
proof -
  have same: "settings_eq default_settings default_settings" by (rule valid_settings_eq_refl [OF valid_default(1)])
  have "outbound default_profile = default_settings" "inbound default_profile = default_settings"
      "bandwidth_kbps default_settings = None" "\<not> settings_eq slow_settings default_settings"
    by (simp_all add: default_profile_def default_settings_def settings_eq_def slow_settings_def)
  with same show ?thesis
    by (simp add: adapter_apply_def slow_change slow_settings_sent)
qed

theorem confirmed_profile_describes_kernel_witness:
  "(case apply_changes (production_adapter delaying_host False) [SetDelay Outbound 10] (default_profile,
        placed_owner, (''/usr/sbin/ip'', (\<lambda>_. quiet_qdisc))) of
      (completions, confirmed, s1, (ip1, w1)) \<Rightarrow>
        completions = [Completion_Applied] \<and> valid_profile confirmed \<and> delay (outbound confirmed) = 10
        \<and> implements (Some (w1 True)) (outbound confirmed))"
proof -
  have shown: "implements (Some quiet_qdisc) default_settings"
    by (simp add: default_implemented shows_settings_def)
  have owner: "namespace_root placed_owner = Namespace_Proven 0"
      "outbound_settings placed_owner = Some default_settings" "inbound_settings placed_owner = Some default_settings"
    by (simp_all add: placed_owner_def new_owner_state_def)
  from confirmed_profile_describes_kernel [OF delaying_host_honest owner shown shown slow_change_applied]
  show ?thesis unfolding slow_change_applied by simp
qed

end
