(* ===== verification/Resolver_Laws.thy ===== *)
theory Resolver_Laws
  imports Resolver_View Wire
begin

text \<open>
  What the snapshots of \<open>workload_resolver_view.cpp\<close> hold: only canonical lines with routable IPv4
  resolvers and valid domains and options, stable under a second reduction, and how long they are.
  The networks that are refused, domain names and plain options are stated on their own
  (\<open>forbidden_networks\<close>, \<open>domain_name\<close>, \<open>plain_option\<close>), without the functions of the code.
\<close>

section \<open>Trimming and splitting\<close>

text \<open>A token: no blank, no separator, no comment sign and no line end.\<close>

definition token_char :: "char \<Rightarrow> bool" where
  "token_char c \<longleftrightarrow> c \<noteq> CHR '' '' \<and> c \<noteq> CHR 0x09 \<and> c \<noteq> CHR ''#'' \<and> c \<noteq> CHR '';'' \<and> c \<noteq> newline"

definition resolver_token :: "string \<Rightarrow> bool" where
  "resolver_token t \<longleftrightarrow> t \<noteq> [] \<and> list_all token_char t \<and> \<not> is_blank (hd t) \<and> \<not> is_blank (last t)"

lemma dropWhile_hd: "xs = [] \<or> \<not> P (hd xs) \<Longrightarrow> dropWhile P xs = xs"
  by (cases xs) auto

lemma trim_id: "s \<noteq> [] \<Longrightarrow> \<not> is_blank (hd s) \<Longrightarrow> \<not> is_blank (last s) \<Longrightarrow> trim s = s"
  by (simp add: trim_def dropWhile_hd hd_rev)

lemma trim_ends: "trim s \<noteq> [] \<Longrightarrow> \<not> is_blank (hd (trim s)) \<and> \<not> is_blank (last (trim s))"
proof -
  assume nonempty: "trim s \<noteq> []"
  define u where "u = dropWhile is_blank s"
  have trim: "trim s = rev (dropWhile is_blank (rev u))" by (simp add: trim_def u_def)
  have "\<not> is_blank (hd (dropWhile is_blank (rev u)))"
    using nonempty trim by (metis hd_dropWhile rev.simps(1))
  moreover have "hd (trim s) = hd u"
  proof -
    obtain v where "rev u = v @ dropWhile is_blank (rev u)" by (metis takeWhile_dropWhile_id)
    then have "u = trim s @ rev v" unfolding trim by (metis rev_append rev_rev_ident)
    with nonempty show ?thesis by (metis hd_append2)
  qed
  moreover have "u \<noteq> []" using nonempty trim by auto
  then have "\<not> is_blank (hd u)" unfolding u_def by (rule hd_dropWhile)
  ultimately show ?thesis using nonempty trim by (simp add: last_rev)
qed

lemma trim_set: "set (trim s) \<subseteq> set s"
  unfolding trim_def by (auto dest!: set_dropWhileD)

lemma find_first_of_None: "find_first_of cs s = None \<longleftrightarrow> set cs \<inter> set s = {}"
  by (induction s) auto

lemma find_first_of_append: "set cs \<inter> set a = {} \<Longrightarrow> c \<in> set cs \<Longrightarrow> find_first_of cs (a @ c # b) = Some (length a)"
  by (induction a) auto

lemma find_first_of_Some:
  "find_first_of cs s = Some n \<Longrightarrow> set cs \<inter> set (take n s) = {} \<and> n < length s"
  by (induction s arbitrary: n) (auto split: if_splits)

lemma find_first_of_at: "find_first_of cs s = Some n \<Longrightarrow> s ! n \<in> set cs"
  by (induction s arbitrary: n) (auto split: if_splits)

definition joined :: "string list \<Rightarrow> string" where
  "joined ws = (case ws of [] \<Rightarrow> [] | w # rest \<Rightarrow> w @ concat (map (\<lambda>w. CHR '' '' # w) rest))"

lemma joined_Cons2: "joined (v # w # ws) = v @ CHR '' '' # joined (w # ws)"
  by (simp add: joined_def)

lemma joined_ends:
  "ws \<noteq> [] \<Longrightarrow> list_all resolver_token ws \<Longrightarrow> joined ws \<noteq> [] \<and> hd (joined ws) = hd (hd ws) \<and> last (joined ws) = last (last ws)"
proof (induction ws rule: induct_list012)
  case (3 v w ws)
  then show ?case by (simp add: joined_Cons2 resolver_token_def)
qed (simp_all add: joined_def resolver_token_def)

lemma trim_joined:
  assumes "ws \<noteq> []" "list_all resolver_token ws" shows "trim (joined ws) = joined ws"
proof (rule trim_id)
  have "resolver_token (hd ws)" "resolver_token (last ws)"
    using assms by (simp_all add: list_all_iff)
  then show "\<not> is_blank (hd (joined ws))" "\<not> is_blank (last (joined ws))"
    using joined_ends [OF assms] by (simp_all add: resolver_token_def)
qed (use joined_ends [OF assms] in simp)

lemma token_separators: "resolver_token t \<Longrightarrow> set separators \<inter> set t = {}"
  by (auto simp: resolver_token_def separators_def token_char_def list_all_iff)

lemma split_words_joined:
  "ws \<noteq> [] \<Longrightarrow> list_all resolver_token ws \<Longrightarrow> split_words (joined ws) = ws"
proof (induction ws rule: induct_list012)
  case (2 w)
  then show ?case
    using trim_joined [of "[w]"] token_separators [of w]
    by (subst split_words.simps)
      (simp add: joined_def find_first_of_None [THEN iffD2] Let_def resolver_token_def)
next
  case (3 v w ws)
  then have "find_first_of separators (joined (v # w # ws)) = Some (length v)"
    using token_separators [of v] by (simp add: joined_Cons2 find_first_of_append separators_def)
  with 3 trim_joined [of "v # w # ws"] joined_ends [of "v # w # ws"] show ?case
    by (subst split_words.simps) (simp add: Let_def joined_Cons2)
qed simp

lemma joined_set: "set (joined ws) \<subseteq> {CHR '' ''} \<union> \<Union> (set ` set ws)"
  by (cases ws) (auto simp: joined_def)

lemma line_words_joined:
  assumes "ws \<noteq> []" "list_all resolver_token ws" shows "line_words (joined ws) = ws"
proof -
  have "set ''#;'' \<inter> set (joined ws) = {}"
    using assms joined_set [of ws] by (fastforce simp: list_all_iff resolver_token_def token_char_def)
  then show ?thesis
    using assms by (simp add: line_words_def trim_joined split_words_joined find_first_of_None [THEN iffD2])
qed

lemma joined_length: "length (joined ws) = sum_list (map length ws) + (length ws - 1)"
proof (cases ws)
  case (Cons w rest)
  have "(\<Sum>x\<leftarrow>rest. Suc (length x)) = sum_list (map length rest) + length rest"
    by (induction rest) simp_all
  with Cons show ?thesis by (simp add: joined_def length_concat comp_def)
qed (simp add: joined_def)

text \<open>The words of a line are tokens, apart from a carriage return before a separator.\<close>

lemma split_words_cases:
  obtains (none) "trim s = []" "split_words s = []"
  | (one) "trim s \<noteq> []" "find_first_of separators (trim s) = None" "split_words s = [trim s]"
  | (more) n where "trim s \<noteq> []" "find_first_of separators (trim s) = Some n"
      "split_words s = take n (trim s) # split_words (drop (n + 1) (trim s))"
  using split_words.simps [of s] by (cases "trim s = []"; cases "find_first_of separators (trim s)")
    (auto simp: Let_def)

lemma split_words_length:
  "sum_list (map length (split_words s)) + (length (split_words s) - 1) \<le> length s"
proof (induction s rule: split_words.induct)
  case (1 s)
  show ?case
  proof (cases rule: split_words_cases [of s])
    case (more n)
    then have "n < length (trim s)" by (blast dest: find_first_of_less)
    with 1 [OF refl more(1,2)] trim_length [of s] show ?thesis
      unfolding more(3) by (cases "split_words (drop (n + 1) (trim s))") auto
  qed (use trim_length [of s] in auto)
qed

text \<open>The last word has no blank at its ends and no separator inside.\<close>

lemma trim_Nil_iff: "trim s = [] \<longleftrightarrow> list_all is_blank s"
  by (auto simp: trim_def dropWhile_eq_Nil_conv list_all_iff dest: set_dropWhileD) (metis set_takeWhileD takeWhile_dropWhile_id Un_iff set_append)

lemma after_separator:
  assumes "trim s \<noteq> []" "find_first_of separators (trim s) = Some n"
  shows "trim (drop (n + 1) (trim s)) \<noteq> []"
proof -
  have n: "n < length (trim s)" using assms(2) by (rule find_first_of_less)
  have "is_blank (trim s ! n)"
    using find_first_of_at [OF assms(2)] by (auto simp: separators_def is_blank_def)
  moreover have "\<not> is_blank (last (trim s))" using trim_ends [OF assms(1)] by simp
  ultimately have "n \<noteq> length (trim s) - 1" using assms(1) by (metis last_conv_nth)
  with n have "n + 1 < length (trim s)" by simp
  then have rest: "drop (n + 1) (trim s) \<noteq> []" "last (drop (n + 1) (trim s)) = last (trim s)"
    by simp_all
  from rest(1) have "last (drop (n + 1) (trim s)) \<in> set (drop (n + 1) (trim s))" by (rule last_in_set)
  with rest(2) trim_ends [OF assms(1)] show ?thesis unfolding trim_Nil_iff list_all_iff by metis
qed

lemma split_words_last:
  assumes "split_words s \<noteq> []"
  shows "last (split_words s) \<noteq> [] \<and> \<not> is_blank (hd (last (split_words s)))
    \<and> \<not> is_blank (last (last (split_words s))) \<and> set separators \<inter> set (last (split_words s)) = {}
    \<and> set (last (split_words s)) \<subseteq> set s"
  using assms
proof (induction s rule: split_words.induct)
  case (1 s)
  show ?case
  proof (cases rule: split_words_cases [of s])
    case none
    with 1 show ?thesis by simp
  next
    case one
    with trim_ends [of s] trim_set [of s] show ?thesis by (auto simp: find_first_of_None)
  next
    case (more n)
    define rest where "rest = drop (n + 1) (trim s)"
    have "set rest \<subseteq> set s" using trim_set [of s] by (auto simp: rest_def dest!: in_set_dropD)
    moreover have "split_words rest \<noteq> []"
      using after_separator [OF more(1,2)] unfolding rest_def
      by (cases rule: split_words_cases [of "drop (n + 1) (trim s)"]) simp_all
    ultimately show ?thesis
      using 1(1) [OF refl more(1,2)] unfolding more(3) rest_def [symmetric] by auto
  qed
qed

lemma line_words_length:
  "sum_list (map length (line_words raw)) + (length (line_words raw) - 1) \<le> length raw"
proof -
  define cut where "cut = (case find_first_of ''#;'' (trim raw) of None \<Rightarrow> trim raw | Some n \<Rightarrow> trim (take n (trim raw)))"
  have "length cut \<le> length raw"
    using trim_length [of raw] trim_length [of "take n (trim raw)" for n]
    by (auto simp: cut_def split: option.split intro: le_trans)
  with split_words_length [of cut] show ?thesis by (simp add: line_words_def Let_def cut_def)
qed

lemma line_words_last:
  assumes "line_words raw \<noteq> []" "newline \<notin> set raw"
  shows "resolver_token (last (line_words raw))"
proof -
  define cut where "cut = (case find_first_of ''#;'' (trim raw) of None \<Rightarrow> trim raw | Some n \<Rightarrow> trim (take n (trim raw)))"
  have words: "line_words raw = split_words cut" by (simp add: line_words_def Let_def cut_def)
  have "set cut \<subseteq> set raw \<and> set ''#;'' \<inter> set cut = {}"
  proof (cases "find_first_of ''#;'' (trim raw)")
    case None
    then have "cut = trim raw" by (simp add: cut_def)
    with trim_set [of raw] None [unfolded find_first_of_None] show ?thesis by simp
  next
    case (Some n)
    have "set cut \<subseteq> set (take n (trim raw))" using trim_set by (simp add: cut_def Some)
    moreover have "set (take n (trim raw)) \<subseteq> set raw"
      using set_take_subset [of n "trim raw"] trim_set [of raw] by blast
    ultimately show ?thesis using find_first_of_Some [OF Some] by blast
  qed
  with split_words_last [of cut] assms show ?thesis
    unfolding words resolver_token_def list_all_iff token_char_def separators_def by auto
qed

section \<open>Canonical lines\<close>

text \<open>Adding nothing changes the rest of the state.\<close>

definition adds_line :: "string list \<Rightarrow> resolver_state \<Rightarrow> resolver_state \<Rightarrow> bool" where
  "adds_line ws st st1 \<longleftrightarrow> rs_snapshot st1 = rs_snapshot st @ joined ws @ [newline]"

lemma add_words_joined: "add_words keyword ws = joined (keyword # ws) @ [newline]"
  by (simp add: add_words_def joined_def)

lemma literal_tokens [simp]:
  "resolver_token ''nameserver''" "resolver_token ''search''" "resolver_token ''options''"
  by (simp_all add: resolver_token_def token_char_def is_blank_def)

lemma option_tokens: "valid_option t \<Longrightarrow> resolver_token t"
proof -
  assume t: "valid_option t"
  have "token_char c \<and> \<not> is_blank c" if "option_char c" for c
    using that by (auto simp: token_char_def is_blank_def option_char_def is_alnum_ascii_def is_digit_def byte_of_def)
  with t show ?thesis
    by (auto simp: valid_option_def resolver_token_def list_all_iff dest!: hd_in_set last_in_set)
qed

lemma label_chars: "valid_labels d \<Longrightarrow> list_all option_char d"
proof (induction d rule: valid_labels.induct)
  case (1 d)
  show ?case
  proof (cases "find_char (CHR ''.'') d")
    case None
    with "1.prems" show ?thesis
      by (subst (asm) valid_labels.simps) (auto simp: valid_label_def option_char_def list_all_iff split: if_splits)
  next
    case (Some n)
    show ?thesis
    proof (cases "d = []")
      case False
      have eq: "take n d @ CHR ''.'' # drop (n + 1) d = d"
        using find_char_Some_split(1) [OF Some] by simp
      have "valid_label (take n d)" "valid_labels (drop (n + 1) d)"
        using "1.prems" False Some by (subst (asm) valid_labels.simps; simp)+
      moreover from this "1.IH" [OF False Some] have "list_all option_char (drop (n + 1) d)" by blast
      moreover have "list_all option_char (take n d)"
        using \<open>valid_label (take n d)\<close> by (auto simp: valid_label_def option_char_def list_all_iff)
      ultimately have "list_all option_char (take n d @ CHR ''.'' # drop (n + 1) d)"
        by (simp add: option_char_def)
      then show ?thesis unfolding eq .
    qed simp
  qed
qed

lemma domain_tokens: "valid_domain t \<Longrightarrow> resolver_token t"
proof -
  assume t: "valid_domain t"
  have "token_char c \<and> \<not> is_blank c" if "option_char c" for c
    using that by (auto simp: token_char_def is_blank_def option_char_def is_alnum_ascii_def is_digit_def byte_of_def)
  with t label_chars [of t] show ?thesis
    by (auto simp: valid_domain_def resolver_token_def list_all_iff dest!: hd_in_set last_in_set)
qed

text \<open>
  A line that is accepted adds nothing, or adds a canonical line that has the same effect and is not
  longer.
\<close>

definition canonical_addition ::
  "(string \<Rightarrow> u32 option) \<Rightarrow> (string \<Rightarrow> bool) \<Rightarrow> resolver_state \<Rightarrow> string \<Rightarrow> resolver_state \<Rightarrow> string list \<Rightarrow> bool" where
  "canonical_addition pton4 pton6 st raw st1 ws \<longleftrightarrow>
     ws \<noteq> [] \<and> list_all resolver_token ws \<and> rs_snapshot st1 = rs_snapshot st @ joined ws @ [newline]
     \<and> length (joined ws) \<le> length raw
     \<and> (\<forall>text. resolver_line pton4 pton6 (st\<lparr>rs_snapshot := text\<rparr>) (joined ws)
          = Inr (st1\<lparr>rs_snapshot := text @ joined ws @ [newline]\<rparr>))"

lemma joined_line:
  assumes "ws \<noteq> []" "list_all resolver_token ws" "length (joined ws) \<le> 1024"
  shows "resolver_line pton4 pton6 st (joined ws) =
    (if hd ws = ''nameserver'' then nameserver_line pton4 pton6 st ws
     else if hd ws = ''search'' \<or> hd ws = ''domain'' then search_line st ws
     else if hd ws = ''options'' then options_line st ws
     else Inl (''resolver configuration uses an unsupported directive: '' @ hd ws))"
  using assms by (simp add: resolver_line_def maximum_line_size_def line_words_joined)

lemma resolver_line_adds:
  assumes run: "resolver_line pton4 pton6 st raw = Inr st1" and raw: "newline \<notin> set raw"
  shows "st1 = st \<or> (\<exists>ws. canonical_addition pton4 pton6 st raw st1 ws)"
proof (cases "st1 = st")
  case False
  define ts where "ts = line_words raw"
  have ts: "ts \<noteq> []" and short: "length raw \<le> 1024"
    using run False by (auto simp: resolver_line_def maximum_line_size_def ts_def split: if_splits)
  note line = run [unfolded resolver_line_def, folded ts_def, simplified Let_def]
  have bound: "sum_list (map length ts) + (length ts - 1) \<le> length raw"
    unfolding ts_def by (rule line_words_length)
  consider (nameserver) "hd ts = ''nameserver''" "nameserver_line pton4 pton6 st ts = Inr st1"
    | (search) "hd ts = ''search'' \<or> hd ts = ''domain''" "search_line st ts = Inr st1"
    | (options) "hd ts = ''options''" "options_line st ts = Inr st1"
    using line ts short by (auto simp: maximum_line_size_def split: if_splits)
  then show ?thesis
  proof cases
    case nameserver
    then obtain address where two: "length ts = 2" and address: "pton4 (c_text (ts ! 1)) = Some address"
        "routable_resolver_address address" "rs_nameservers st \<noteq> 3"
        "st1 = st\<lparr>rs_snapshot := rs_snapshot st @ ''nameserver '' @ ts ! 1 @ [newline],
                  rs_nameservers := rs_nameservers st + 1\<rparr>"
      using False by (auto simp: nameserver_line_def Let_def split: if_splits option.splits)
    have shape: "ts = [''nameserver'', ts ! 1]"
      using two nameserver(1) by (cases ts; cases "tl ts") auto
    have "resolver_token (last ts)" using line_words_last [of raw] ts raw by (simp add: ts_def)
    moreover have "last ts = ts ! 1" using two ts by (simp add: last_conv_nth)
    ultimately have "list_all resolver_token [''nameserver'', ts ! 1]" by simp
    then have tokens: "list_all resolver_token ts" unfolding shape [symmetric] .
    have length: "length (joined ts) \<le> length raw" using bound by (simp add: joined_length)
    have j: "joined ts = ''nameserver '' @ ts ! 1" by (subst (1) shape) (simp add: joined_def)
    have "resolver_line pton4 pton6 (st\<lparr>rs_snapshot := t\<rparr>) (joined ts) =
        Inr (st1\<lparr>rs_snapshot := t @ joined ts @ [newline]\<rparr>)" for t
      using joined_line [OF ts tokens, of pton4 pton6 "st\<lparr>rs_snapshot := t\<rparr>"] length short nameserver(1) two address
      by (simp add: nameserver_line_def j)
    then have "canonical_addition pton4 pton6 st raw st1 ts"
      using ts tokens length address(4) unfolding canonical_addition_def
      by (simp add: j)
    then show ?thesis by blast
  next
    case search
    then have ok: "\<not> rs_search_seen st" "2 \<le> length ts" "length ts \<le> 7" "list_all valid_domain (tl ts)"
        "sum_list (map (\<lambda>t. length t + 1) (tl ts)) \<le> 256"
        "st1 = st\<lparr>rs_snapshot := rs_snapshot st @ add_words ''search'' (tl ts), rs_search_seen := True\<rparr>"
      by (auto simp: search_line_def split: if_splits)
    define ws where "ws = ''search'' # tl ts"
    have tokens: "list_all resolver_token ws" "ws \<noteq> []" "hd ws = ''search''" "tl ws = tl ts" "length ws = length ts"
      using ok(4) domain_tokens ts by (auto simp: ws_def list_all_iff)
    have "length (hd ts) = 6" using search(1) by auto
    then have "sum_list (map length ws) = sum_list (map length ts)" using ts by (cases ts) (simp_all add: ws_def)
    then have length: "length (joined ws) \<le> length raw" using bound tokens(5) by (simp add: joined_length)
    have "canonical_addition pton4 pton6 st raw st1 ws"
      unfolding canonical_addition_def using tokens length short ok joined_line [OF tokens(2,1)]
      by (simp add: search_line_def add_words_joined flip: ws_def)
    then show ?thesis by blast
  next
    case options
    then have ok: "2 \<le> length ts" "length ts \<le> 17" "list_all valid_option (tl ts)"
        "st1 = st\<lparr>rs_snapshot := rs_snapshot st @ add_words ''options'' (tl ts)\<rparr>"
      by (auto simp: options_line_def split: if_splits)
    have shape: "''options'' # tl ts = ts" using options(1) ts by (cases ts) simp_all
    have tokens: "list_all resolver_token ts"
      by (subst shape [symmetric]) (use ok(3) option_tokens in \<open>auto simp: list_all_iff\<close>)
    have length: "length (joined ts) \<le> length raw" using bound by (simp add: joined_length)
    have "canonical_addition pton4 pton6 st raw st1 ts"
      unfolding canonical_addition_def using ts tokens length short ok options(1) joined_line [OF ts tokens]
      by (simp add: options_line_def add_words_joined shape)
    then show ?thesis by blast
  qed
qed simp

section \<open>The snapshot\<close>

text \<open>What a line of a snapshot may be.\<close>

definition allowed_words :: "(string \<Rightarrow> u32 option) \<Rightarrow> string list \<Rightarrow> bool" where
  "allowed_words pton4 ws \<longleftrightarrow>
     (\<exists>a address. ws = [''nameserver'', a] \<and> pton4 (c_text a) = Some address \<and> routable_resolver_address address)
     \<or> (\<exists>ds. ws = ''search'' # ds \<and> ds \<noteq> [] \<and> length ds \<le> 6 \<and> list_all valid_domain ds
         \<and> sum_list (map (\<lambda>d. length d + 1) ds) \<le> 256)
     \<or> (\<exists>os. ws = ''options'' # os \<and> os \<noteq> [] \<and> length os \<le> 16 \<and> list_all valid_option os)"

definition uses :: "string \<Rightarrow> string list list \<Rightarrow> nat" where
  "uses keyword wss = length (filter (\<lambda>ws. hd ws = keyword) wss)"

lemma canonical_allowed:
  assumes "canonical_addition pton4 pton6 st raw st1 ws" and short: "length raw \<le> 1024"
  shows "allowed_words pton4 ws
    \<and> rs_nameservers st1 = rs_nameservers st + uses ''nameserver'' [ws]
    \<and> (rs_nameservers st \<le> 3 \<longrightarrow> rs_nameservers st1 \<le> 3)
    \<and> of_bool (rs_search_seen st1) = (of_bool (rs_search_seen st) + uses ''search'' [ws] :: nat)"
proof -
  note a = assms(1) [unfolded canonical_addition_def]
  then obtain keyword rest where ws: "ws = keyword # rest" by (cases ws) auto
  have run: "resolver_line pton4 pton6 st (joined ws) = Inr (st1\<lparr>rs_snapshot := rs_snapshot st @ joined ws @ [newline]\<rparr>)"
    using a [THEN conjunct2, THEN conjunct2, THEN conjunct2, THEN conjunct2, rule_format, of "rs_snapshot st"] by simp
  define st2 where "st2 = st1\<lparr>rs_snapshot := rs_snapshot st @ joined ws @ [newline]\<rparr>"
  have st1: "rs_nameservers st1 = rs_nameservers st2" "rs_search_seen st1 = rs_search_seen st2"
    and more: "rs_snapshot st2 \<noteq> rs_snapshot st"
    by (simp_all add: st2_def)
  have line: "(if keyword = ''nameserver'' then nameserver_line pton4 pton6 st ws
     else if keyword = ''search'' \<or> keyword = ''domain'' then search_line st ws
     else if keyword = ''options'' then options_line st ws
     else Inl (''resolver configuration uses an unsupported directive: '' @ keyword)) = Inr st2"
  proof -
    have kept: "ws \<noteq> []" "list_all resolver_token ws" "length (joined ws) \<le> 1024" and hd: "hd ws = keyword"
      using a short by (simp_all add: ws)
    show ?thesis using run unfolding joined_line [OF kept] hd st2_def .
  qed
  consider "keyword = ''nameserver''" | "keyword = ''search''" | "keyword = ''options''" | "keyword = ''domain''"
    using line by (auto split: if_splits)
  then show ?thesis
  proof cases
    case 1
    with line ws more show ?thesis
      by (auto simp: st1 nameserver_line_def allowed_words_def uses_def length_Suc_conv numeral_2_eq_2
          split: if_splits option.splits)
  next
    case 2
    with line ws show ?thesis
      by (auto simp: st1 search_line_def allowed_words_def uses_def split: if_splits)
  next
    case 3
    with line ws show ?thesis
      by (auto simp: st1 options_line_def allowed_words_def uses_def split: if_splits)
  next
    case 4
    then have "rs_snapshot st2 = rs_snapshot st @ joined (''search'' # rest) @ [newline]"
      using line ws by (auto simp: search_line_def add_words_joined split: if_splits)
    with 4 show ?thesis by (simp add: st2_def joined_def ws)
  qed
qed

lemma resolver_lines_line:
  "newline \<notin> set l \<Longrightarrow> resolver_lines step st (l @ newline # rest) =
     (case step st l of Inl e \<Rightarrow> Inl e | Inr st1 \<Rightarrow> resolver_lines step st1 rest)"
  by (subst resolver_lines.simps) (simp split: sum.split)

lemma resolver_lines_Nil: "resolver_lines step st [] = Inr st"
  by (subst resolver_lines.simps) simp

lemma joined_newline: "list_all resolver_token ws \<Longrightarrow> newline \<notin> set (joined ws)"
  using joined_set [of ws] by (fastforce simp: list_all_iff resolver_token_def token_char_def)

text \<open>The snapshot of an accepted source, as the words of its lines.\<close>

definition snapshot_words ::
  "(string \<Rightarrow> u32 option) \<Rightarrow> (string \<Rightarrow> bool) \<Rightarrow> resolver_state \<Rightarrow> resolver_state \<Rightarrow> string list list \<Rightarrow> bool" where
  "snapshot_words pton4 pton6 st st1 wss \<longleftrightarrow>
     list_all (allowed_words pton4) wss
     \<and> rs_snapshot st1 = rs_snapshot st @ unlines (map joined wss)
     \<and> rs_nameservers st1 = rs_nameservers st + uses ''nameserver'' wss
     \<and> (rs_nameservers st \<le> 3 \<longrightarrow> rs_nameservers st1 \<le> 3)
     \<and> of_bool (rs_search_seen st1) = (of_bool (rs_search_seen st) + uses ''search'' wss :: nat)
     \<and> (\<forall>text. resolver_lines (resolver_line pton4 pton6) (st\<lparr>rs_snapshot := text\<rparr>) (unlines (map joined wss))
          = Inr (st1\<lparr>rs_snapshot := text @ unlines (map joined wss)\<rparr>))"

lemma snapshot_words_Nil: "snapshot_words pton4 pton6 st st []"
  by (simp add: snapshot_words_def uses_def resolver_lines_Nil)

lemma snapshot_words_Cons:
  assumes "canonical_addition pton4 pton6 st raw st1 ws" "length raw \<le> 1024"
    and "snapshot_words pton4 pton6 st1 st2 wss"
  shows "snapshot_words pton4 pton6 st st2 (ws # wss)"
proof -
  have uses: "uses k (ws # wss) = uses k [ws] + uses k wss" for k by (simp add: uses_def)
  have canonical: "list_all resolver_token ws" "rs_snapshot st1 = rs_snapshot st @ joined ws @ [newline]"
    "\<And>u. resolver_line pton4 pton6 (st\<lparr>rs_snapshot := u\<rparr>) (joined ws) = Inr (st1\<lparr>rs_snapshot := u @ joined ws @ [newline]\<rparr>)"
    using assms(1) by (simp_all add: canonical_addition_def)
  show ?thesis
    using assms(3) canonical_allowed [OF assms(1,2)] canonical joined_newline [of ws]
    unfolding snapshot_words_def uses by (auto simp: resolver_lines_line)
qed

lemma resolver_line_short: "resolver_line pton4 pton6 st raw = Inr st1 \<Longrightarrow> length raw \<le> 1024"
  by (auto simp: resolver_line_def maximum_line_size_def split: if_splits)

lemma resolver_line_words:
  assumes "resolver_line pton4 pton6 st raw = Inr st1" "newline \<notin> set raw"
    and "snapshot_words pton4 pton6 st1 st2 wss"
  shows "\<exists>vss. snapshot_words pton4 pton6 st st2 vss
    \<and> length (unlines (map joined vss)) \<le> length raw + 1 + length (unlines (map joined wss))"
  using resolver_line_adds [OF assms(1,2)]
proof
  assume "st1 = st"
  with assms(3) show ?thesis by (intro exI [of _ wss]) simp
next
  assume "\<exists>ws. canonical_addition pton4 pton6 st raw st1 ws"
  then obtain ws where ws: "canonical_addition pton4 pton6 st raw st1 ws" by blast
  then have "length (joined ws) \<le> length raw" by (simp add: canonical_addition_def)
  with snapshot_words_Cons [OF ws resolver_line_short [OF assms(1)] assms(3)] show ?thesis
    by (intro exI [of _ "ws # wss"]) simp
qed

lemma resolver_lines_words:
  "resolver_lines (resolver_line pton4 pton6) st source = Inr st1
     \<Longrightarrow> \<exists>wss. snapshot_words pton4 pton6 st st1 wss \<and> length (unlines (map joined wss)) \<le> length source + 1"
proof (induction "resolver_line pton4 pton6" st source rule: resolver_lines.induct)
  case (1 st source)
  show ?case
  proof (cases "source = []")
    case True
    with 1(2) snapshot_words_Nil [of pton4 pton6 st] show ?thesis
      by (auto simp: resolver_lines_Nil intro!: exI [of _ "[]"])
  next
    case nonempty: False
    show ?thesis
    proof (cases "find_char newline source")
      case None
      then have run: "resolver_line pton4 pton6 st source = Inr st1" "newline \<notin> set source"
        using 1(2) nonempty by (subst (asm) resolver_lines.simps, simp_all add: find_char_None_iff)
      from resolver_line_words [OF this snapshot_words_Nil] show ?thesis by auto
    next
      case (Some n)
      then obtain st2 where first: "resolver_line pton4 pton6 st (take n source) = Inr st2"
        and rest: "resolver_lines (resolver_line pton4 pton6) st2 (drop (n + 1) source) = Inr st1"
        using 1(2) nonempty by (subst (asm) (1) resolver_lines.simps) (auto split: sum.splits)
      obtain wss where wss: "snapshot_words pton4 pton6 st2 st1 wss"
          "length (unlines (map joined wss)) \<le> length (drop (n + 1) source) + 1"
        using 1(1) [OF nonempty Some first rest] by blast
      have n: "newline \<notin> set (take n source)" "n < length source"
        using Some find_char_Some_split(2) find_char_Some_less by blast+
      from resolver_line_words [OF first n(1) wss(1)] obtain vss where
          vss: "snapshot_words pton4 pton6 st st1 vss"
          "length (unlines (map joined vss)) \<le> length (take n source) + 1 + length (unlines (map joined wss))"
        by blast
      have "length (unlines (map joined vss)) \<le> length source + 1" using vss(2) wss(2) n(2) by simp
      with vss(1) show ?thesis by blast
    qed
  qed
qed

lemma resolver_snapshot_stable:
  assumes "make_resolver_snapshot pton4 pton6 source = Inr snapshot" and "length snapshot \<le> maximum_file_size"
  shows "make_resolver_snapshot pton4 pton6 snapshot = Inr snapshot"
proof -
  obtain st where run: "resolver_lines (resolver_line pton4 pton6) new_resolver_state source = Inr st"
    and st: "rs_nameservers st \<noteq> 0" "snapshot = rs_snapshot st"
    using assms by (auto simp: make_resolver_snapshot_def split: if_splits sum.splits)
  obtain wss where "snapshot_words pton4 pton6 new_resolver_state st wss"
    using resolver_lines_words [OF run] by blast
  then have "snapshot = unlines (map joined wss)"
    and again: "resolver_lines (resolver_line pton4 pton6) (new_resolver_state\<lparr>rs_snapshot := []\<rparr>) (unlines (map joined wss))
      = Inr (st\<lparr>rs_snapshot := [] @ unlines (map joined wss)\<rparr>)"
    unfolding snapshot_words_def st(2) by (auto simp: new_resolver_state_def)
  moreover have "new_resolver_state\<lparr>rs_snapshot := []\<rparr> = new_resolver_state" by (simp add: new_resolver_state_def)
  ultimately show ?thesis using assms(2) st(1) by (simp add: make_resolver_snapshot_def)
qed

section \<open>What a Workload may see\<close>

text \<open>IPv4 networks no resolver of a Workload lies in, by their first address and prefix length:
  this network, loopback, multicast, and the reserved block that ends in the broadcast address.\<close>

definition forbidden_networks :: "(nat \<times> nat) list" where
  "forbidden_networks = [(0, 8), (127 * 2 ^ 24, 8), (224 * 2 ^ 24, 4), (240 * 2 ^ 24, 4)]"

definition lies_in :: "u32 \<Rightarrow> nat \<times> nat \<Rightarrow> bool" where
  "lies_in a = (\<lambda>(n, k). unat a div 2 ^ (32 - k) = n div 2 ^ (32 - k))"

definition usable_address :: "u32 \<Rightarrow> bool" where
  "usable_address a \<longleftrightarrow> \<not> list_ex (lies_in a) forbidden_networks"

lemma routable_usable: "routable_resolver_address a \<longleftrightarrow> usable_address a"
proof -
  define n where "n = unat a div 2 ^ 24"
  have top: "unat (drop_bit 24 a) = n" unfolding n_def unat_drop_bit_eq by (rule drop_bit_eq_div)
  have blocks: "unat a div 16777216 = n" "unat a div 268435456 = n div 16"
    by (simp_all add: n_def flip: div_mult2_eq)
  have "unat a < 2 ^ 32" using unsigned_less [of a] by simp
  then have "unat a < 256 * 2 ^ 24" by simp
  then have "n < 256" unfolding n_def by (rule less_mult_imp_div_less)
  moreover have "n = 255" if "a = 0xFFFFFFFF" using that by (simp add: n_def)
  ultimately have n: "n < 256" "a = 0xFFFFFFFF \<Longrightarrow> n = 255" by blast+
  have "n div 16 < 14 \<longleftrightarrow> n < 224" "n div 16 < 16 \<longleftrightarrow> n < 256" by (simp_all add: div_less_iff_less_mult)
  then have "n div 16 \<noteq> 14 \<and> n div 16 \<noteq> 15 \<longleftrightarrow> n < 224" using n(1) by linarith
  with n(2) show ?thesis
    by (auto simp: routable_resolver_address_def usable_address_def forbidden_networks_def lies_in_def
        Let_def top blocks)
qed

text \<open>A domain name of RFC 1035: labels of letters, digits and inner hyphens, joined by points.\<close>

definition name_chars :: string where
  "name_chars = ''abcdefghijklmnopqrstuvwxyzABCDEFGHIJKLMNOPQRSTUVWXYZ0123456789''"

definition domain_label :: "string \<Rightarrow> bool" where
  "domain_label l \<longleftrightarrow> length l \<in> {1..63} \<and> set l \<subseteq> insert (CHR ''-'') (set name_chars)
     \<and> hd l \<noteq> CHR ''-'' \<and> last l \<noteq> CHR ''-''"

fun dotted :: "string list \<Rightarrow> string" where
  "dotted [] = []"
| "dotted [l] = l"
| "dotted (l # ls) = l @ CHR ''.'' # dotted ls"

definition domain_name :: "string \<Rightarrow> bool" where
  "domain_name d \<longleftrightarrow> length d \<le> 253 \<and> (\<exists>ls. ls \<noteq> [] \<and> d = dotted ls \<and> list_all domain_label ls)"

lemma name_char: "is_alnum_ascii c \<Longrightarrow> c \<in> set name_chars"
proof -
  assume "is_alnum_ascii c"
  then have "of_char c \<in> set ([97..<123] @ [65..<91] @ [48..<58 :: nat])"
    by (simp only: is_alnum_ascii_def is_digit_def byte_of_def set_append set_upt Un_iff atLeastLessThan_iff) linarith
  then have "char_of (of_char c :: nat) \<in> char_of ` set ([97..<123] @ [65..<91] @ [48..<58 :: nat])"
    by (rule imageI)
  moreover have "map char_of ([97..<123] @ [65..<91] @ [48..<58 :: nat]) = name_chars" by code_simp
  ultimately show "c \<in> set name_chars" by (metis char_of_char list.set_map)
qed

lemma valid_label_domain: "valid_label l \<Longrightarrow> domain_label l"
  using name_char by (auto simp: valid_label_def domain_label_def list_all_iff Suc_le_eq)

lemma valid_labels_dotted:
  "valid_labels d \<Longrightarrow> d \<noteq> [] \<Longrightarrow> last d \<noteq> CHR ''.''
     \<Longrightarrow> \<exists>ls. ls \<noteq> [] \<and> d = dotted ls \<and> list_all domain_label ls"
proof (induction d rule: valid_labels.induct)
  case (1 d)
  show ?case
  proof (cases "find_char (CHR ''.'') d")
    case None
    with 1 show ?thesis
      by (subst (asm) valid_labels.simps) (auto intro!: exI [of _ "[d]"] valid_label_domain)
  next
    case (Some n)
    have d: "d = take n d @ CHR ''.'' # drop (n + 1) d" using find_char_Some_split(1) [OF Some] by simp
    have rest: "drop (n + 1) d \<noteq> []" using 1(4) d by (metis last_snoc)
    then have "last (drop (n + 1) d) \<noteq> CHR ''.''" using 1(4) by simp
    moreover have "valid_label (take n d)" "valid_labels (drop (n + 1) d)"
      using 1(2,3) Some by (subst (asm) valid_labels.simps, simp)+
    ultimately obtain ls where "ls \<noteq> []" "drop (n + 1) d = dotted ls" "list_all domain_label ls"
      using 1(1) [OF 1(3) Some] rest by blast
    with d valid_label_domain [OF \<open>valid_label (take n d)\<close>] show ?thesis
      by (intro exI [of _ "take n d # ls"]) (cases ls; simp)
  qed
qed

lemma valid_domain_name: "valid_domain d \<Longrightarrow> domain_name d"
  using valid_labels_dotted [of d] by (simp add: valid_domain_def domain_name_def)

definition plain_option :: "string \<Rightarrow> bool" where
  "plain_option t \<longleftrightarrow> length t \<in> {1..64} \<and> set t \<subseteq> set (name_chars @ ''_-.:'')"

lemma valid_option_plain: "valid_option t \<Longrightarrow> plain_option t"
  using name_char by (auto simp: valid_option_def plain_option_def option_char_def list_all_iff Suc_le_eq)

definition safe_words :: "(string \<Rightarrow> u32 option) \<Rightarrow> string list \<Rightarrow> bool" where
  "safe_words pton4 ws \<longleftrightarrow>
     (\<exists>a address. ws = [''nameserver'', a] \<and> pton4 (c_text a) = Some address \<and> usable_address address)
     \<or> (\<exists>ds. ws = ''search'' # ds \<and> length ds \<in> {1..6} \<and> list_all domain_name ds
         \<and> sum_list (map (\<lambda>d. length d + 1) ds) \<le> 256)
     \<or> (\<exists>os. ws = ''options'' # os \<and> length os \<in> {1..16} \<and> list_all plain_option os)"

lemma allowed_safe: "allowed_words pton4 ws \<Longrightarrow> safe_words pton4 ws"
  unfolding allowed_words_def safe_words_def routable_usable
  using valid_domain_name valid_option_plain by (auto simp: list_all_iff Suc_le_eq)


text \<open>A resolver library that knows two addresses.\<close>

definition example_pton4 :: "string \<Rightarrow> u32 option" where
  "example_pton4 s = (if s = ''9.9.9.9'' then Some 0x09090909 else if s = ''127.0.0.1'' then Some 0x7F000001 else None)"

definition example_pton6 :: "string \<Rightarrow> bool" where
  "example_pton6 s \<longleftrightarrow> s = ''::1''"

definition example_resolv_conf :: string where
  "example_resolv_conf = ''# host'' @ [newline] @ '' nameserver ::1'' @ [newline]
     @ ''nameserver   9.9.9.9 ; first'' @ [newline] @ ''domain a-1.example'' @ [newline] @ ''options ndots:2''"

definition example_snapshot :: string where
  "example_snapshot = ''nameserver 9.9.9.9'' @ [newline] @ ''search a-1.example'' @ [newline]
     @ ''options ndots:2'' @ [newline]"

lemma example_resolver_snapshot:
  "make_resolver_snapshot example_pton4 example_pton6 example_resolv_conf = Inr example_snapshot"
  by code_simp


section \<open>The name service switch\<close>

fun join_lines :: "string list \<Rightarrow> string" where
  "join_lines [] = []"
| "join_lines [l] = l"
| "join_lines (l # ls) = l @ newline # join_lines ls"

lemma join_lines_Cons: "ls \<noteq> [] \<Longrightarrow> join_lines (l # ls) = l @ newline # join_lines ls"
  by (cases ls) simp_all

definition names_hosts :: "string \<Rightarrow> bool" where
  "names_hosts l \<longleftrightarrow> nsswitch_words l \<noteq> [] \<and> starts_with ''hosts:'' (hd (nsswitch_words l))"

text \<open>Every line is kept, or the first line of the hosts database is replaced.\<close>

definition hosts_replaced :: "bool \<Rightarrow> bool \<Rightarrow> string list \<Rightarrow> string list \<Rightarrow> bool" where
  "hosts_replaced seen seen1 ls ls1 \<longleftrightarrow>
     (if seen = seen1 then ls1 = ls \<and> list_all (\<lambda>l. \<not> names_hosts l) ls
      else \<not> seen \<and> (\<exists>before l after. ls = before @ l # after
        \<and> ls1 = before @ (''hosts: files dns'' @ hosts_comment l) # after
        \<and> nsswitch_words l \<noteq> [] \<and> hd (nsswitch_words l) = ''hosts:''
        \<and> list_all (\<lambda>m. \<not> names_hosts m) (before @ after)))"

lemma nsswitch_line_cases:
  assumes "nsswitch_line seen raw = Inr (seen1, l)"
  obtains (kept) "seen1 = seen" "l = raw" "\<not> names_hosts raw"
  | (hosts) "\<not> seen" "seen1" "l = ''hosts: files dns'' @ hosts_comment raw" "nsswitch_words raw \<noteq> []"
      "hd (nsswitch_words raw) = ''hosts:''"
  using assms by (auto simp: nsswitch_line_def names_hosts_def Let_def split: if_splits)

lemma hosts_replaced_Cons:
  assumes "nsswitch_line seen raw = Inr (seen1, l)" "hosts_replaced seen1 seen2 ls ls1" "seen1 \<longrightarrow> seen2"
  shows "hosts_replaced seen seen2 (raw # ls) (l # ls1)"
  using assms(1)
proof (cases rule: nsswitch_line_cases)
  case kept
  show ?thesis
  proof (cases "seen = seen2")
    case False
    with kept assms(2) obtain before h after where "ls = before @ h # after"
        "ls1 = before @ (''hosts: files dns'' @ hosts_comment h) # after" "nsswitch_words h \<noteq> []"
        "hd (nsswitch_words h) = ''hosts:''" "list_all (\<lambda>m. \<not> names_hosts m) (before @ after)" "\<not> seen"
      by (auto simp: hosts_replaced_def)
    with kept False have "raw # ls = (raw # before) @ h # after"
        "l # ls1 = (raw # before) @ (''hosts: files dns'' @ hosts_comment h) # after" "nsswitch_words h \<noteq> []"
        "hd (nsswitch_words h) = ''hosts:''" "list_all (\<lambda>m. \<not> names_hosts m) ((raw # before) @ after)" "\<not> seen"
      by simp_all
    with False show ?thesis unfolding hosts_replaced_def by metis
  qed (use kept assms(2) in \<open>simp add: hosts_replaced_def\<close>)
next
  case hosts
  with assms(2,3) have "raw # ls = [] @ raw # ls" "l # ls1 = [] @ (''hosts: files dns'' @ hosts_comment raw) # ls"
      "list_all (\<lambda>m. \<not> names_hosts m) ([] @ ls)" "seen \<noteq> seen2"
    by (auto simp: hosts_replaced_def split: if_splits)
  with hosts show ?thesis unfolding hosts_replaced_def by metis
qed

lemma nsswitch_lines_replaced:
  "nsswitch_lines seen snapshot source = Inr (seen1, snapshot1)
     \<Longrightarrow> \<exists>ls ls1. ls \<noteq> [] \<and> ls1 \<noteq> [] \<and> source = join_lines ls \<and> snapshot1 = snapshot @ join_lines ls1
        \<and> hosts_replaced seen seen1 ls ls1 \<and> (seen \<longrightarrow> seen1)"
proof (induction seen snapshot source rule: nsswitch_lines.induct)
  case (1 seen snapshot source)
  have plain: "\<not> names_hosts []"
    by (simp add: names_hosts_def nsswitch_words_def trim_def split_words.simps)
  show ?case
  proof (cases "source = []")
    case True
    with 1(2) plain show ?thesis
      by (subst (asm) nsswitch_lines.simps) (auto simp: hosts_replaced_def intro!: exI [of _ "[[]]"])
  next
    case nonempty: False
    show ?thesis
    proof (cases "find_char newline source")
      case None
      with 1(2) nonempty obtain l where l: "nsswitch_line seen source = Inr (seen1, l)" "snapshot1 = snapshot @ l"
        by (subst (asm) nsswitch_lines.simps)
          (auto simp: map_sum_def split: sum.splits)
      have "hosts_replaced seen seen1 [source] [l] \<and> (seen \<longrightarrow> seen1)"
        using hosts_replaced_Cons [OF l(1), of seen1 "[]" "[]"] l(1)
        by (cases rule: nsswitch_line_cases [OF l(1)]) (simp_all add: hosts_replaced_def)
      with l(2) show ?thesis by (intro exI [of _ "[source]"] exI [of _ "[l]"]) simp
    next
      case (Some n)
      then obtain seen2 l where l: "nsswitch_line seen (take n source) = Inr (seen2, l)"
        and rest: "nsswitch_lines seen2 (snapshot @ l @ [newline]) (drop (n + 1) source) = Inr (seen1, snapshot1)"
        using 1(2) nonempty by (subst (asm) nsswitch_lines.simps) (auto split: sum.splits)
      obtain ls ls1 where ls: "ls \<noteq> []" "ls1 \<noteq> []" "drop (n + 1) source = join_lines ls"
          "snapshot1 = (snapshot @ l @ [newline]) @ join_lines ls1" "hosts_replaced seen2 seen1 ls ls1" "seen2 \<longrightarrow> seen1"
        using 1(1) [OF nonempty Some l refl rest] by blast
      have "source = join_lines (take n source # ls)"
        using find_char_Some_split(1) [OF Some] ls(1,3) by (simp add: join_lines_Cons)
      moreover have "hosts_replaced seen seen1 (take n source # ls) (l # ls1)"
        by (rule hosts_replaced_Cons [OF l ls(5,6)])
      moreover have "seen \<longrightarrow> seen1"
        using ls(6) by (cases rule: nsswitch_line_cases [OF l]) simp_all
      ultimately show ?thesis
        using ls(2,4) by (intro exI [of _ "take n source # ls"] exI [of _ "l # ls1"]) (simp add: join_lines_Cons)
    qed
  qed
qed

text \<open>The name service of a Workload asks only files and DNS for hosts. An accepted configuration
  has exactly one line for the hosts database, which becomes \<open>hosts: files dns\<close> with its comment,
  and every other line is kept byte for byte, in order.\<close>

theorem nsswitch_snapshot_hosts:
  assumes "make_nsswitch_snapshot source = Inr snapshot"
  shows "\<exists>before l after. source = join_lines (before @ l # after)
    \<and> snapshot = join_lines (before @ (''hosts: files dns'' @ hosts_comment l) # after)
    \<and> hd (nsswitch_words l) = ''hosts:'' \<and> list_all (\<lambda>m. \<not> names_hosts m) (before @ after)"
proof -
  have "nsswitch_lines False [] source = Inr (True, snapshot)"
    using assms by (auto simp: make_nsswitch_snapshot_def split: if_splits sum.splits)
  from nsswitch_lines_replaced [OF this] show ?thesis
    unfolding hosts_replaced_def by fastforce
qed

definition example_nsswitch :: string where
  "example_nsswitch = ''passwd: files'' @ [newline] @ ''hosts:  files mdns4 # lan'' @ [newline]"

lemma example_nsswitch_snapshot:
  "make_nsswitch_snapshot example_nsswitch
     = Inr (''passwd: files'' @ [newline] @ ''hosts: files dns # lan'' @ [newline])"
  by code_simp

theorem nsswitch_snapshot_hosts_witness:
  "\<exists>before l after. example_nsswitch = join_lines (before @ l # after) \<and> hd (nsswitch_words l) = ''hosts:''
     \<and> ''passwd: files'' @ [newline] @ ''hosts: files dns # lan'' @ [newline]
         = join_lines (before @ (''hosts: files dns'' @ hosts_comment l) # after)"
  using nsswitch_snapshot_hosts [OF example_nsswitch_snapshot] by blast

end
