(* ===== verification/Resolver_Copy_Laws.thy ===== *)
theory Resolver_Copy_Laws
  imports Resolver_Laws Resolver_Files
begin

text \<open>
  The copy of a snapshot for the Workload is exact or absent; a host file at the size limit whose
  last line is not terminated has a snapshot above the limit, which the copy refuses.
\<close>

section \<open>The copy is exact\<close>

text \<open>
  A source file with a content, read from an offset in blocks of at least one byte, and a copy to
  which a part of each block is appended; \<open>written\<close> is the content of the copy, if it is there.
\<close>

definition faithful_copy :: "'w snapshot_copy \<Rightarrow> string \<Rightarrow> ('w \<Rightarrow> string option) \<Rightarrow> bool" where
  "faithful_copy c content written \<longleftrightarrow>
     (\<forall>w. written (snd (stat_directory c w)) = written w)
     \<and> (\<forall>w. written (snd (stat_source c w)) = written w)
     \<and> (\<forall>w s. fst (stat_source c w) = Some s \<longrightarrow> status_size s = int (length content))
     \<and> (\<forall>w. written (snd (source_seals c w)) = written w)
     \<and> (\<forall>name w. written (snd (create_copy c name w)) = (if fst (create_copy c name w) then Some [] else written w))
     \<and> (\<forall>offset n w. written (snd (read_source c offset n w)) = written w)
     \<and> (\<forall>offset n w block. fst (read_source c offset n w) = Read_Data block \<longrightarrow>
          block \<noteq> [] \<and> length block \<le> n \<and> block = take (length block) (drop offset content))
     \<and> (\<forall>block w. written (snd (write_copy c block w)) =
          (case fst (write_copy c block w) of
             Copied n \<Rightarrow> map_option (\<lambda>t. t @ take n block) (written w) | _ \<Rightarrow> written w))
     \<and> (\<forall>block w n. fst (write_copy c block w) = Copied n \<longrightarrow> n \<le> length block)
     \<and> (\<forall>w. written (snd (protect_copy c w)) = written w)
     \<and> (\<forall>name w. written (remove_copy c name w) = None)"

lemma faithfulD:
  assumes "faithful_copy c content written"
  shows "written (snd (stat_directory c w)) = written w" "written (snd (stat_source c w)) = written w"
    "fst (stat_source c w) = Some s \<Longrightarrow> status_size s = int (length content)"
    "written (snd (source_seals c w)) = written w"
    "written (snd (create_copy c name w)) = (if fst (create_copy c name w) then Some [] else written w)"
    "written (snd (read_source c offset n w)) = written w"
    "fst (read_source c offset n w) = Read_Data block \<Longrightarrow>
       block \<noteq> [] \<and> length block \<le> n \<and> block = take (length block) (drop offset content)"
    "written (snd (write_copy c block w)) =
       (case fst (write_copy c block w) of
          Copied n \<Rightarrow> map_option (\<lambda>t. t @ take n block) (written w) | _ \<Rightarrow> written w)"
    "fst (write_copy c block w) = Copied n \<Longrightarrow> n \<le> length block"
    "written (snd (protect_copy c w)) = written w" "written (remove_copy c name w) = None"
  using assms unfolding faithful_copy_def by (elim conjE; (blast | simp))+

lemma write_block_exact:
  assumes faithful: "faithful_copy c content written"
    and run: "iterate (write_pass c) (block, w) = Some (True, w1)"
  shows "written w1 = map_option (\<lambda>t. t @ block) (written w)"
proof -
  define I where "I x = (map_option (\<lambda>t. t @ fst x) (written (snd x)) = map_option (\<lambda>t. t @ block) (written w))"
    for x
  have "fst (True, w1) \<longrightarrow> written (snd (True, w1)) = map_option (\<lambda>t. t @ block) (written w)"
  proof (rule iterate_rule [OF run, of I])
    show "I (block, w)" by (simp add: I_def)
  next
    fix s t assume inv: "I s" and pass: "write_pass c s = Inl t"
    obtain b v where s: "s = (b, v)" by (metis surj_pair)
    note law = faithfulD(8) [OF faithful, of b v]
    from pass s have t: "t = (case fst (write_copy c b v) of Copied n \<Rightarrow> (drop n b, snd (write_copy c b v))
        | _ \<Rightarrow> (b, snd (write_copy c b v)))"
      by (auto simp: write_pass_def case_prod_beta split: if_splits copied.splits)
    have "map_option (\<lambda>u. u @ fst t) (written (snd t)) = map_option (\<lambda>u. u @ b) (written v)"
      unfolding t using law by (auto simp: option.map_comp comp_def split: copied.splits)
    with inv show "I t" by (simp add: I_def s)
  next
    fix s r assume inv: "I s" and pass: "write_pass c s = Inr r"
    obtain b v where s: "s = (b, v)" by (metis surj_pair)
    from pass inv show "fst r \<longrightarrow> written (snd r) = map_option (\<lambda>t. t @ block) (written w)"
      by (cases "written v") (auto simp: s I_def write_pass_def case_prod_beta split: if_splits copied.splits)
  qed
  then show ?thesis by simp
qed

lemma copy_blocks_exact:
  assumes faithful: "faithful_copy c content written"
    and run: "iterate (copy_pass c (length content)) (0, w) = Some (Some (True, w1))" and "written w = Some []"
  shows "written w1 = Some content"
proof -
  define I where "I x = (written (snd x) = Some (take (fst x) content))" for x :: "nat \<times> 'a"
  have "\<forall>v. Some (True, w1) = Some (True, v) \<longrightarrow> written v = Some content"
  proof (rule iterate_rule [OF run, of I])
    show "I (0, w)" using assms(3) by (simp add: I_def)
  next
    fix s t assume inv: "I s" and pass: "copy_pass c (length content) s = Inl t"
    obtain offset v where s: "s = (offset, v)" by (metis surj_pair)
    define y where "y = read_source c offset (min 4096 (length content - offset)) v"
    have y: "written (snd y) = Some (take offset content)"
      using inv faithfulD(6) [OF faithful] by (simp add: y_def I_def s)
    show "I t"
    proof (cases "fst y")
      case (Read_Data block)
      then obtain w2 where w2: "iterate (write_pass c) (block, snd y) = Some (True, w2)"
          and t: "t = (offset + length block, w2)"
        using pass s by (auto simp: copy_pass_def case_prod_beta y_def split: if_splits option.splits bool.splits)
      have "written w2 = Some (take offset content @ block)"
        using write_block_exact [OF faithful w2] y by simp
      moreover have "block = take (length block) (drop offset content)"
        using faithfulD(7) [OF faithful Read_Data [unfolded y_def]] by blast
      ultimately show ?thesis by (simp add: I_def t take_add)
    qed (use pass s y in \<open>auto simp: copy_pass_def case_prod_beta y_def I_def split: if_splits\<close>)
  next
    fix s r assume inv: "I s" and pass: "copy_pass c (length content) s = Inr r"
    then show "\<forall>v. r = Some (True, v) \<longrightarrow> written v = Some content"
      by (cases s) (auto simp: I_def copy_pass_def case_prod_beta split: if_splits read_outcome.splits option.splits bool.splits)
  qed
  then show ?thesis by simp
qed

lemma copy_content_exact:
  assumes faithful: "faithful_copy c content written" and start: "written w = Some []"
    and run: "copy_content c name (length content) w = Some (ok, w1)"
  shows "written w1 = (if ok then Some content else None)"
proof -
  obtain all w2 where loop: "iterate (copy_pass c (length content)) (0, w) = Some (Some (all, w2))"
    using run by (auto simp: copy_content_def split: option.splits)
  show ?thesis
  proof (cases all)
    case True
    then have "written w2 = Some content" using copy_blocks_exact [OF faithful _ start] loop by simp
    with True run loop show ?thesis
      by (auto simp: copy_content_def case_prod_beta faithfulD(10,11) [OF faithful] split: if_splits)
  next
    case False
    with run loop show ?thesis by (auto simp: copy_content_def faithfulD(11) [OF faithful])
  qed
qed

text \<open>The copy of a snapshot that a Workload sees through its bind mount is exact or not there:
  when the copy succeeds, the file holds exactly the sealed content, whatever blocks the kernel reads
  and writes and however often it interrupts; when it fails after the file was made, the file is
  removed again.\<close>

theorem materialized_copy_exact:
  assumes "faithful_copy c content written" and "written w = None"
    and "materialize_resolver_snapshot c file w = Some (ok, w1)"
  shows "written w1 = (if ok then Some content else None)"
proof -
  note silent = faithfulD(1,2,4) [OF assms(1)]
  define w2 where "w2 = snd (stat_directory c w)"
  define w3 where "w3 = snd (stat_source c w2)"
  define w4 where "w4 = snd (source_seals c w3)"
  have absent: "written w2 = None" "written w3 = None" "written w4 = None"
    by (simp_all add: w2_def w3_def w4_def silent assms(2))
  consider "\<not> ok" "w1 \<in> {w2, w3, w4}"
    | name where "\<not> ok" "w1 = snd (create_copy c name w4)" "\<not> fst (create_copy c name w4)"
    | source name where "fst (stat_source c w2) = Some source" "fst (create_copy c name w4)"
        "copy_content c name (nat (status_size source)) (snd (create_copy c name w4)) = Some (ok, w1)"
    using assms(3) unfolding materialize_resolver_snapshot_def
    by (auto simp: case_prod_beta w2_def w3_def w4_def split: option.splits if_splits prod.splits)
  then show ?thesis
  proof cases
    case 1
    with absent show ?thesis by auto
  next
    case (2 name)
    with absent faithfulD(5) [OF assms(1), of name w4] show ?thesis by simp
  next
    case (3 source name)
    from 3(2) have "written (snd (create_copy c name w4)) = Some []"
      using faithfulD(5) [OF assms(1), of name w4] by simp
    moreover have "nat (status_size source) = length content"
      using faithfulD(3) [OF assms(1) 3(1)] by simp
    ultimately show ?thesis using copy_content_exact [OF assms(1)] 3(3) by metis
  qed
qed

text \<open>A kernel that writes one byte at a time.\<close>

definition slow_copy :: "string \<Rightarrow> string option snapshot_copy" where
  "slow_copy content = \<lparr>
     stat_directory = (\<lambda>w. (Some \<lparr>status_regular = False, status_directory = True, status_owner = 0,
       status_mode = 448, status_size = 0\<rparr>, w)),
     stat_source = (\<lambda>w. (Some \<lparr>status_regular = True, status_directory = False, status_owner = 0,
       status_mode = 384, status_size = int (length content)\<rparr>, w)),
     effective_user = 0,
     source_seals = (\<lambda>w. (Some 15, w)),
     create_copy = (\<lambda>_ w. (True, Some [])),
     read_source = (\<lambda>offset n w.
       (if length content \<le> offset \<or> n = 0 then Read_End else Read_Data (take n (drop offset content)), w)),
     write_copy = (\<lambda>block w. if block = [] then (Copy_Failed, w)
       else (Copied 1, map_option (\<lambda>t. t @ take 1 block) w)),
     protect_copy = (\<lambda>w. (True, w)),
     remove_copy = (\<lambda>_ _. None)\<rparr>"

lemma slow_copy_faithful: "faithful_copy (slow_copy content) content (\<lambda>w. w)"
  by (auto simp: faithful_copy_def slow_copy_def Suc_le_eq min_def)

lemma slow_copy_run:
  "materialize_resolver_snapshot (slow_copy ''nameserver'') Resolv_Conf None = Some (True, Some ''nameserver'')"
  by code_simp

theorem materialized_copy_exact_witness:
  "materialize_resolver_snapshot (slow_copy ''nameserver'') Resolv_Conf None = Some (True, Some ''nameserver'')
   \<and> Some ''nameserver'' = (if True then Some ''nameserver'' else None)"
  using materialized_copy_exact [OF slow_copy_faithful refl slow_copy_run] slow_copy_run by simp

section \<open>A source at the limit\<close>

lemma options_accepted:
  assumes "os \<noteq> []" "length os \<le> 16" "list_all valid_option os" "length (joined (''options'' # os)) \<le> 1024"
  shows "resolver_line pton4 pton6 st (joined (''options'' # os))
    = Inr (st\<lparr>rs_snapshot := rs_snapshot st @ joined (''options'' # os) @ [newline]\<rparr>)"
proof -
  have "list_all resolver_token (''options'' # os)"
    using assms(3) option_tokens by (auto simp: list_all_iff)
  from joined_line [OF _ this assms(4)] show ?thesis
    using assms(1-3) by (cases os) (simp_all add: options_line_def add_words_joined)
qed

lemma options_repeated:
  assumes line: "\<And>st. resolver_line pton4 pton6 st l = Inr (st\<lparr>rs_snapshot := rs_snapshot st @ l @ [newline]\<rparr>)"
    and "newline \<notin> set l"
  shows "resolver_lines (resolver_line pton4 pton6) st (unlines (replicate n l) @ rest)
    = resolver_lines (resolver_line pton4 pton6) (st\<lparr>rs_snapshot := rs_snapshot st @ unlines (replicate n l)\<rparr>) rest"
proof (induction n arbitrary: st)
  case (Suc n)
  from Suc.IH [of "st\<lparr>rs_snapshot := rs_snapshot st @ l @ [newline]\<rparr>"] show ?case
    by (simp add: resolver_lines_line [OF assms(2)] line)
qed simp

definition long_option :: string where
  "long_option = joined [''options'', replicate 64 CHR ''x'']"

definition short_option :: string where
  "short_option = ''options xxxxx''"

definition full_source :: string where
  "full_source = ''nameserver 9.9.9.9'' @ newline # unlines (replicate 224 long_option) @ short_option"

lemma valid_xs: "n \<noteq> 0 \<Longrightarrow> n \<le> 64 \<Longrightarrow> valid_option (replicate n CHR ''x'')"
  by (simp add: valid_option_def option_char_def is_alnum_ascii_def is_digit_def byte_of_def list_all_iff)

lemma full_source_length: "length full_source = maximum_file_size"
  by (simp add: full_source_def long_option_def short_option_def joined_def unlines_def length_concat
      maximum_file_size_def sum_list_replicate)

lemma full_source_snapshot:
  "make_resolver_snapshot example_pton4 example_pton6 full_source = Inr (full_source @ [newline])"
proof -
  have long: "resolver_line example_pton4 example_pton6 st long_option
      = Inr (st\<lparr>rs_snapshot := rs_snapshot st @ long_option @ [newline]\<rparr>)" for st
    unfolding long_option_def by (rule options_accepted) (simp_all add: valid_xs joined_def)
  have short_option: "short_option = joined (''options'' # [replicate 5 CHR ''x''])"
    by (simp add: short_option_def joined_def eval_nat_numeral)
  have short: "resolver_line example_pton4 example_pton6 st short_option
      = Inr (st\<lparr>rs_snapshot := rs_snapshot st @ short_option @ [newline]\<rparr>)" for st
    unfolding short_option by (rule options_accepted) (simp_all add: valid_xs joined_def)
  have plain: "newline \<notin> set long_option" "newline \<notin> set short_option"
    by (simp_all add: long_option_def short_option_def joined_def)
  have first: "resolver_line example_pton4 example_pton6 new_resolver_state ''nameserver 9.9.9.9''
      = Inr \<lparr>rs_snapshot = ''nameserver 9.9.9.9'' @ [newline], rs_nameservers = 1, rs_search_seen = False\<rparr>"
    by code_simp
  have last: "resolver_lines (resolver_line example_pton4 example_pton6) st short_option
      = Inr (st\<lparr>rs_snapshot := rs_snapshot st @ short_option @ [newline]\<rparr>)" for st
    using short plain(2) by (subst resolver_lines.simps) (simp add: find_char_None_iff [THEN iffD2] short_option_def)
  have "newline \<notin> set ''nameserver 9.9.9.9''" by simp
  from resolver_lines_line [OF this, of "resolver_line example_pton4 example_pton6" new_resolver_state
      "unlines (replicate 224 long_option) @ short_option"]
  have "resolver_lines (resolver_line example_pton4 example_pton6) new_resolver_state full_source
      = Inr \<lparr>rs_snapshot = full_source @ [newline], rs_nameservers = 1, rs_search_seen = False\<rparr>"
    unfolding first full_source_def by (simp add: options_repeated [OF long plain(1)] last)
  then show ?thesis by (simp add: make_resolver_snapshot_def full_source_length)
qed

text \<open>A defect. The limit of 16 KiB is checked for the file of the host and again for its snapshot,
  but the snapshot can be longer: every line of it is terminated. A \<open>resolv.conf\<close> of exactly
  16 KiB whose last line is not terminated passes the preflight, its snapshot is one byte above the
  limit, and the copy for the Workload is refused, so no Workload can be launched on that host.\<close>

theorem resolver_limit_refuses_own_snapshot:
  "length full_source = maximum_file_size
   \<and> make_resolver_snapshot example_pton4 example_pton6 full_source = Inr (full_source @ [newline])
   \<and> materialize_resolver_snapshot (slow_copy (full_source @ [newline])) Resolv_Conf None = Some (False, None)"
proof -
  have "length (full_source @ [newline]) = 16385"
    using full_source_length by (simp add: maximum_file_size_def)
  then show ?thesis
    using full_source_length full_source_snapshot
    by (simp add: materialize_resolver_snapshot_def slow_copy_def copy_allowed_def maximum_file_size_def del: length_append)
qed

end
