(* ===== verification/Spec2Isabelle.thy ===== *)
theory Spec2Isabelle
  imports Command_Line Linux_Platform_Laws Linux_Preflight_Laws Workload_Process_Laws Command_Runner_Laws Recovery_Files_Laws Session_Start_Laws Attached_Session_Laws Supervisor_Laws Transaction_Laws Route_Dump_Laws Production_Laws
    Helper_Session_Laws Profile_Laws Resolver_Copy_Laws
begin

text \<open>
  A verification development of NetLagLab (\<open>src/\<close>), a C++ program that runs one Workload in a
  network namespace whose delay, jitter, loss and bandwidth can be changed while it runs.

  \<^bold>\<open>The program.\<close> A session has three processes. The \<^emph>\<open>supervisor\<close> (\<open>session.cpp\<close>) makes the files
  of the session, starts the helper through \<open>sudo\<close>, serves one attached controller at a time and
  publishes the outcome. The privileged \<^emph>\<open>helper\<close> (\<open>helper_main.cpp\<close>, \<open>helper_session.cpp\<close>)
  prepares the network environment, launches the Workload as the invoking user in the namespace,
  changes the settings of the two directions and removes everything at the end. The \<^emph>\<open>controller\<close>
  (\<open>attach_client.cpp\<close>) shows what the supervisor answers. Supervisor and helper speak a line protocol
  (\<open>helper_protocol.cpp\<close>); supervisor and controller speak commands, status blocks and the outcome
  block (\<open>controller_control_plane.cpp\<close>, \<open>controller_session_outcome.cpp\<close>).
\<close>

section \<open>Theories and sources\<close>

text \<open>
  \<^item> Shared vocabulary: \<open>Prelude\<close> (byte strings, \<open>iterate\<close>), \<open>Cpp_Text\<close> (numbers as text),
    \<open>Binary64\<close> and \<open>Double_Text\<close> (\<open>double\<close>, \<open>from_chars\<close>, \<open>to_chars\<close>), \<open>Wire\<close> (the locales of codecs
    and of line framing).
  \<^item> The profile: \<open>Network_Profile\<close> (\<open>network_profile.hpp\<close>, \<open>network_profile.cpp\<close>).
  \<^item> Supervisor and helper: \<open>Helper_Messages\<close>, \<open>Workload_Context\<close>, \<open>Helper_Conversations\<close>,
    \<open>Standard_Descriptors\<close> (\<open>helper_protocol.cpp\<close>, \<open>workload_context.cpp\<close>, \<open>socket_io.cpp\<close>), with the
    laws in \<open>Conversation_Laws\<close>.
  \<^item> Controller: \<open>Control_Commands\<close>, \<open>Control_Plane\<close>, \<open>Status_Report\<close>, \<open>Session_Outcome\<close>,
    \<open>Attach_Client\<close>, with \<open>Control_Plane_Laws\<close>, \<open>Outcome_Laws\<close>, \<open>Attach_Laws\<close> and
    \<open>Attached_Session_Laws\<close>.
  \<^item> Supervisor: \<open>Command_Line\<close>, \<open>Process_Identity\<close>, \<open>Session_Files\<close>, \<open>Launcher\<close>,
    \<open>Session_Start\<close>, \<open>Session_Lifecycle\<close>, \<open>Supervisor\<close> (\<open>main.cpp\<close>, \<open>process_status.cpp\<close>,
    \<open>session_paths.cpp\<close>, \<open>session_socket.cpp\<close>, \<open>session_validation.cpp\<close>, \<open>helper_process.cpp\<close>,
    \<open>session.cpp\<close>, \<open>session_lifecycle.cpp\<close>, \<open>control_plane_action_executor.cpp\<close>), each with its
    theory of laws.
  \<^item> Helper: \<open>Helper_Start\<close>, \<open>Helper_Session\<close> (\<open>helper_main.cpp\<close>, \<open>helper_session.cpp\<close>),
    \<open>Workload_Process\<close> (\<open>workload_process.cpp\<close>), \<open>Resolver_View\<close> and \<open>Resolver_Files\<close>
    (\<open>workload_resolver_view.cpp\<close>), each with its laws.
  \<^item> Network environment, policy: \<open>Network_Transaction\<close> (preparation, rollback, cleanup),
    \<open>Scripted_Adapter\<close>, and the production adapter in \<open>Veth_Adapter\<close>, \<open>Traffic_Shaping\<close>,
    \<open>Connectivity\<close> and \<open>Production_Adapter\<close> over the interface \<open>Host_Platform\<close>
    (\<open>network_environment.cpp\<close>, \<open>preflight.cpp\<close>); laws in \<open>Transaction_Laws\<close>, \<open>Shaping_Laws\<close>,
    \<open>Production_Laws\<close>, \<open>Profile_Laws\<close>; \<open>Loss_Accuracy\<close> says what a root qdisc has to do for given
    settings and bounds the error of the conversion of the loss; \<open>Host_Rules\<close> is the frame rule for
    programs on the host.
  \<^item> Network environment, system: \<open>Netlink\<close>, \<open>Link_Inventory\<close>, \<open>Qdisc_Inventory\<close>, \<open>Route_Dump\<close>
    (decoders), \<open>Netlink_Query\<close>, \<open>Linux_Platform\<close>, \<open>Linux_Preflight\<close>
    (\<open>linux_production_platform.cpp\<close>, \<open>linux_preflight.cpp\<close>), \<open>Command_Runner\<close>
    (\<open>command_runner.cpp\<close>), \<open>Recovery_Journal\<close> and \<open>Recovery_Files\<close> (\<open>recovery_journal.cpp\<close>).

  A struct or class is a record, an enumeration a datatype, an integer of a fixed width a word where
  its width matters and otherwise a number with its bounds written out; a \<open>char\<close> is a byte. A
  class that the code makes abstract (\<open>SessionLifecycleAdapter\<close>, \<open>SemanticAdapter\<close>,
  \<open>ProductionPlatform\<close>) is a record of functions on an unknown world; system calls are functions
  on such a world, or have their effect on a model of the file system, of the disk or of a process,
  with a fault for every call. An error is a value: \<open>Inl\<close> of a reason, \<open>None\<close>, or the result the
  code returns.
\<close>

section \<open>What the lemmas show\<close>

text \<open>
  \<^item> Wire formats: what is printed is what is parsed, exactly these texts are accepted, and no receiver
    depends on how the stream is cut into reads (locales \<open>canonical_codec\<close> and \<open>line_framing\<close>,
    interpreted on every format and conversation).
  \<^item> One change at a time: a command that the supervisor accepts reaches the helper as the same valid
    change, its answer comes back once, and the profile the helper has confirmed is what the kernel
    implements, on hosts whose inspections tell the truth.
  \<^item> Nothing is left behind: the preparation and the cleanup account for every root that exists (locale
    \<open>network_adapter\<close>, interpreted on every adapter with a trace of its answers), the journal survives
    a crash, the launcher is reaped, commands are reaped, the lock of the host has one holder, and
    the result of the cleanup that the helper reports is what it was last told of each resource.
  \<^item> Privilege: the helper serves only the process that launched it, the Workload runs as the user with
    the groups, view of the resolver and descriptors that were asked for, and a firewall is changed only
    after the word of the user.
  \<^item> Endings: the session, the helper's session and every command, also one that writes without end,
    come to an end under stated conditions on their worlds, and the outcome is told whole to the
    controller, which ends with its last byte and not before.
  \<^item> Defects: theorems that exhibit what the code does wrong (the session that loses its helper when a
    change is queued at the exit, the hang-up applied to a new controller, the recovery that firewalld
    makes impossible on any truthful host, the Workload that outlives its helper, the last reads of a
    command's output, which a process it left behind can hold for ever).

  Loops that the environment can keep going for ever are \<open>iterate\<close> (\<open>Prelude\<close>) and
  \<open>iterate_calls\<close> (\<open>Launcher\<close>): partial functions whose value is \<open>None\<close> when they do not return.
  No fuel is used; that such a loop returns is proved with a measure (\<open>iterate_ends\<close>) under a condition
  on the world, such as a clock that advances or finitely many interrupts. All other recursions are total.
\<close>

section \<open>Not modelled\<close>

text \<open>
  \<^item> \<open>file_descriptor.hpp\<close> and destructors: a descriptor is closed by its owner, which has no effect that
    a model here could show, except where the receiver of descriptors has to close them
    (\<open>Standard_Descriptors\<close>). The ownership of environments by \<open>PreparedNetworkEnvironment\<close> and
    \<open>ResidualCleanup\<close> is the owner state passed along; the best-effort cleanup of their destructors is
    the cleanup of \<open>Network_Transaction\<close> with its result dropped.
  \<^item> \<open>UnavailableProductionPlatform\<close>, whose calls all fail, the other parts for tests
    (\<open>production_test_support.hpp\<close>, namespace \<open>testing\<close>) and the counters \<open>trace_\<close> are left out, except
    for the scripted adapter.
  \<^item> Exceptions (\<open>std::bad_alloc\<close>, \<open>std::system_error\<close>) and signals at any other point than the
    modelled system calls.
  \<^item> Bytes of integers and structures are little endian with padding zero, as on the machines the program
    is built for; the negation of \<open>INT_MIN\<close> in the decoders is the mathematical one.
  \<^item> \<open>inet_pton\<close>, \<open>strerror\<close>, \<open>getifaddrs\<close> and the output of the tools \<open>ip\<close>, \<open>tc\<close>, \<open>nft\<close>, \<open>ufw\<close>,
    \<open>firewall-cmd\<close> are arguments of the models; \<open>isalnum\<close> is that of the C locale.
  \<^item> A directory that is open is named by its path, so a directory renamed between two calls is not seen.
    The disk of \<open>Recovery_Files\<close> keeps what was synced and may lose or keep anything else.
  \<^item> The tests, the documents, the build files and the scripts are not part of the program.
\<close>

end
